(* ===== verification/RMM_Prelude.thy ===== *)
theory RMM_Prelude
  imports Main "HOL-Library.Word" "HOL-Library.Monad_Syntax" "HOL-Library.Multiset"
begin

text \<open>
  Shared vocabulary of the development.

  A C function that mutates state is a HOL function \<open>state \<Rightarrow> ('a \<times> state) option\<close>.
  The value \<^verbatim>\<open>None\<close> stands for an execution that never hands a result back to
  the caller: a failed \<^verbatim>\<open>assert\<close> (\<^verbatim>\<open>__assert\<close> in lib/libc/src/assert.c prints and then
  loops on \<^verbatim>\<open>wfe\<close> for ever), a spin on a lock that nobody will release, or an access
  through a null or out-of-range pointer.  Error codes returned to the host are
  ordinary values.  The \<open>do\<close> blocks below are in the option monad of
  \<^verbatim>\<open>HOL-Library.Monad_Syntax\<close>, with the state passed explicitly.
\<close>

unbundle bit_operations_syntax

type_synonym u8 = "8 word"
type_synonym u16 = "16 word"
type_synonym u32 = "32 word"
type_synonym u64 = "64 word"

named_theorems exec_simps \<open>unfolding rules for the steps of the handlers\<close>
named_theorems word_consts \<open>definitions of the constants and bit masks\<close>

section \<open>Assertions\<close>

definition assert_c :: "bool \<Rightarrow> unit option" where
  "assert_c b = (if b then Some () else None)"

lemma assert_c_True [simp]: "assert_c True = Some ()"
  by (simp add: assert_c_def)

lemma assert_c_False [simp]: "assert_c False = None"
  by (simp add: assert_c_def)

lemma assert_c_eq_Some [simp]: "(assert_c b = Some u) = b"
  by (simp add: assert_c_def)

lemma bind_assert_c: "(assert_c b \<bind> f) = (if b then f () else None)"
  by (simp add: assert_c_def)

lemma bind_if_option:
  "((if b then x else y) \<bind> f) = (if b then (x \<bind> f) else (y \<bind> f))" for x :: "'a option"
  by simp

section \<open>Register fields and masks (lib/common/include/utils_def.h)\<close>

definition GRANULE_SHIFT :: nat where [word_consts]: "GRANULE_SHIFT = 12"

definition GRANULE_SIZE :: u64 where [word_consts]: "GRANULE_SIZE = 4096"

definition MASK :: "nat \<Rightarrow> nat \<Rightarrow> u64" where
  "MASK width shift = push_bit shift (drop_bit (64 - width) (- 1))"

definition INPLACE :: "nat \<Rightarrow> u64 \<Rightarrow> u64" where
  "INPLACE shift v = push_bit shift v"

definition EXTRACT :: "nat \<Rightarrow> nat \<Rightarrow> u64 \<Rightarrow> u64" where
  "EXTRACT width shift r = drop_bit shift (r AND MASK width shift)"

definition BIT_MASK_ULL :: "nat \<Rightarrow> nat \<Rightarrow> u64" where
  "BIT_MASK_ULL msb lsb = drop_bit (63 - msb) (- 1) AND push_bit lsb (- 1)"

definition ALIGNED :: "u64 \<Rightarrow> u64 \<Rightarrow> bool" where
  "ALIGNED sz al = (sz mod al = 0)"

definition GRANULE_ALIGNED :: "u64 \<Rightarrow> bool" where
  "GRANULE_ALIGNED addr = ALIGNED addr GRANULE_SIZE"

lemma bit_MASK: "bit (MASK width shift) n \<longleftrightarrow> n < 64 \<and> shift \<le> n \<and> n - shift < width"
  by (auto simp: MASK_def bit_simps)

lemma bit_BIT_MASK_ULL:
  "msb < 64 \<Longrightarrow> bit (BIT_MASK_ULL msb lsb) n \<longleftrightarrow> lsb \<le> n \<and> n \<le> msb"
  by (auto simp: BIT_MASK_ULL_def bit_simps)

lemma GRANULE_ALIGNED_unat: "GRANULE_ALIGNED a \<longleftrightarrow> unat a mod 4096 = 0"
  by (simp add: GRANULE_ALIGNED_def ALIGNED_def GRANULE_SIZE_def unat_arith_simps(3) unat_mod)

lemma and_or_absorb:
  fixes a b m :: "'a::len word"
  assumes "a AND m = 0"
  shows "(a OR b) AND m = b AND m" and "(b OR a) AND m = b AND m"
  using assms by (simp_all add: bit.conj_disj_distrib2)

lemma and_disjoint_mask:
  fixes a k m :: "'a::len word"
  assumes "a = a AND k" and "k AND m = 0"
  shows "a AND m = 0"
proof -
  have "a AND m = (a AND k) AND m" using assms(1) by simp
  also have "\<dots> = a AND (k AND m)" by (simp add: and.assoc)
  finally show ?thesis using assms(2) by simp
qed

section \<open>Maps updated and restored\<close>

lemma fun_upd_False_same [simp]: "\<not> f x \<Longrightarrow> f(x := False) = f"
  by (simp add: fun_eq_iff)

lemma fun_upd_None_same [simp]: "f x = None \<Longrightarrow> f(x := None) = f"
  by (simp add: fun_eq_iff)

section \<open>Lists\<close>

lemma length_filter_update:
  assumes "i < length xs"
  shows "length (filter P (xs[i := y])) + (if P (xs ! i) then 1 else 0)
       = length (filter P xs) + (if P y then 1 else 0)"
  using assms
proof (induction xs arbitrary: i)
  case Nil
  then show ?case by simp
next
  case (Cons x xs)
  then show ?case by (cases i) (auto split: if_splits)
qed

lemma length_filter_pos:
  assumes "i < length xs" and "P (xs ! i)"
  shows "0 < length (filter P xs)"
  using assms by (auto simp: filter_empty_conv)

lemma length_filter_all: "(\<And>x. x \<in> set xs \<Longrightarrow> P x) \<Longrightarrow> length (filter P xs) = length xs"
  by simp

lemma length_filter_none: "(\<And>x. x \<in> set xs \<Longrightarrow> \<not> P x) \<Longrightarrow> length (filter P xs) = 0"
  by (simp add: filter_empty_conv)

section \<open>Refinement\<close>

text \<open>
  A system whose steps keep an invariant and, seen through \<open>abs\<close>, are steps of an abstract
  system.
\<close>

locale refinement =
  fixes init :: "'c \<Rightarrow> bool" and step :: "'c \<Rightarrow> 'c \<Rightarrow> bool" and good :: "'c \<Rightarrow> bool"
    and abs :: "'c \<Rightarrow> 'a" and astep :: "'a \<Rightarrow> 'a \<Rightarrow> bool"
  assumes init_good: "init c \<Longrightarrow> good c"
    and step_good: "good c \<Longrightarrow> step c c' \<Longrightarrow> good c'"
    and step_refines: "good c \<Longrightarrow> step c c' \<Longrightarrow> astep (abs c) (abs c')"
begin

lemma run_good: "step\<^sup>*\<^sup>* c c' \<Longrightarrow> good c \<Longrightarrow> good c'"
  by (induction rule: rtranclp_induct) (auto intro: step_good)

lemma reached_good: "init c \<Longrightarrow> step\<^sup>*\<^sup>* c c' \<Longrightarrow> good c'"
  using run_good init_good by blast

lemma run_refines: "step\<^sup>*\<^sup>* c c' \<Longrightarrow> good c \<Longrightarrow> astep\<^sup>*\<^sup>* (abs c) (abs c')"
proof (induction rule: rtranclp_induct)
  case (step d e)
  then have "astep (abs d) (abs e)" using run_good step_refines by blast
  then show ?case using step by auto
qed simp

lemma reached_refines: "init c \<Longrightarrow> step\<^sup>*\<^sup>* c c' \<Longrightarrow> astep\<^sup>*\<^sup>* (abs c) (abs c')"
  using run_refines init_good by blast

lemma astep_invariant:
  assumes "\<And>a a'. astep a a' \<Longrightarrow> P a \<Longrightarrow> P a'" and "init c" and "P (abs c)" and "step\<^sup>*\<^sup>* c c'"
  shows "P (abs c')"
  using reached_refines [OF assms(2,4)] assms(3)
  by (induction rule: rtranclp_induct) (auto intro: assms(1))

end

end
