(* ===== verification/Status_Codes.thy ===== *)
theory Status_Codes
  imports RMM_Prelude
begin

text \<open>
  The status codes of lib/realm/include/status.h: their values, the packing of a
  status and an index into one register, and the encoding of a status in a pointer.
\<close>

definition RMI_SUCCESS :: u64 where [word_consts]: "RMI_SUCCESS = 0"
definition RMI_ERROR_INPUT :: u64 where [word_consts]: "RMI_ERROR_INPUT = 1"
definition RMI_ERROR_REALM :: u64 where [word_consts]: "RMI_ERROR_REALM = 2"
definition RMI_ERROR_REC :: u64 where [word_consts]: "RMI_ERROR_REC = 3"
definition RMI_ERROR_RTT :: u64 where [word_consts]: "RMI_ERROR_RTT = 4"
definition RMI_ERROR_IN_USE :: u64 where [word_consts]: "RMI_ERROR_IN_USE = 5"

record return_code_t =
  rc_status :: u32
  rc_index :: u32

definition make_return_code :: "u32 \<Rightarrow> u32 \<Rightarrow> return_code_t" where
  "make_return_code status index = \<lparr>rc_status = status, rc_index = index\<rparr>"

definition pack_struct_return_code :: "return_code_t \<Rightarrow> u64" where
  "pack_struct_return_code rc = ucast (rc_status rc OR push_bit 8 (rc_index rc))"

definition pack_return_code :: "u32 \<Rightarrow> u32 \<Rightarrow> u64 option" where
  "pack_return_code status index = do {
     assert_c (status \<le> 0xff \<and> index \<le> 0xff);
     Some (pack_struct_return_code (make_return_code status index))
   }"

definition unpack_return_code :: "u64 \<Rightarrow> return_code_t" where
  "unpack_return_code error_code =
     make_return_code (ucast (error_code AND 0xff)) (ucast (drop_bit 8 error_code))"

definition MAX_ERR :: u64 where [word_consts]: "MAX_ERR = 4095"

definition status_ptr :: "u32 \<Rightarrow> u64" where
  "status_ptr status = - 1 * ucast status"

definition ptr_is_err :: "u64 \<Rightarrow> bool" where
  "ptr_is_err ptr = (- MAX_ERR \<le> ptr)"

definition ptr_status :: "u64 \<Rightarrow> u32" where
  "ptr_status ptr = ucast (- 1 * ptr)"

text \<open>The packed form of an RTT error at a level of the tree, as the RTT commands build it.\<close>

definition rtt_error :: "int \<Rightarrow> u64 option" where
  "rtt_error level = pack_return_code (ucast RMI_ERROR_RTT) (word_of_int level)"

lemma le_0xff_bit: "(x::u32) \<le> 0xff \<Longrightarrow> bit x n \<Longrightarrow> n < 8"
proof -
  assume le: "x \<le> 0xff" and b: "bit x n"
  have "x = take_bit 8 x"
    using le by (simp add: take_bit_eq_mod word_le_nat_alt unsigned_take_bit_eq
        word_unat_eq_iff unat_mod) 
  then show "n < 8" using b by (metis bit_take_bit_iff)
qed

lemma unpack_pack:
  assumes "pack_return_code st ix = Some w"
  shows "unpack_return_code w = make_return_code st ix"
proof -
  from assms have le: "st \<le> 0xff" "ix \<le> 0xff"
    and w: "w = ucast (st OR push_bit 8 ix)"
    by (auto simp: pack_return_code_def bind_assert_c make_return_code_def
        pack_struct_return_code_def split: if_splits)
  have "ucast (w AND 0xff) = st"
  proof (rule bit_eqI)
    fix n
    have m: "(0xff::u64) = mask 8" by (simp add: mask_eq_exp_minus_1)
    show "bit (ucast (w AND 0xff) :: u32) n = bit st n" if "possible_bit TYPE(u32) n"
      using that le_0xff_bit [OF le(1), of n] unfolding w m
      by (auto simp: bit_simps)
  qed
  moreover have "ucast (drop_bit 8 w) = ix"
  proof (rule bit_eqI)
    fix n
    show "bit (ucast (drop_bit 8 w) :: u32) n = bit ix n" if "possible_bit TYPE(u32) n"
      using that le_0xff_bit [OF le(1), of "8 + n"] le_0xff_bit [OF le(2), of n] unfolding w
      by (auto simp: bit_simps)
  qed
  ultimately show ?thesis by (simp add: unpack_return_code_def)
qed

lemma pack_return_code_total:
  "st \<le> 0xff \<Longrightarrow> ix \<le> 0xff \<Longrightarrow> \<exists>w. pack_return_code st ix = Some w"
  by (simp add: pack_return_code_def)

lemma rtt_error_levels [simp]:
  "rtt_error 0 = Some 4" "rtt_error 1 = Some 0x104"
  "rtt_error 2 = Some 0x204" "rtt_error 3 = Some 0x304"
  by (simp_all add: rtt_error_def pack_return_code_def pack_struct_return_code_def
      make_return_code_def RMI_ERROR_RTT_def)

lemma rtt_error_Some:
  assumes "0 \<le> l" and "l \<le> 3"
  shows "\<exists>w. rtt_error l = Some w \<and> w \<noteq> 0"
proof -
  from assms have "l = 0 \<or> l = 1 \<or> l = 2 \<or> l = 3" by arith
  then show ?thesis by auto
qed

end
