(* ===== verification/Granule_Index.thy ===== *)
theory Granule_Index
  imports Status_Codes
begin

text \<open>
  The numbering of the granules of the FVP platform (plat/fvp/src/fvp_granule.c and
  fvp_private.h) and the address look-ups of lib/realm/src/granule.c that use it.
  A \<^verbatim>\<open>struct granule *\<close> points into the array \<^verbatim>\<open>granules[RMM_MAX_GRANULES]\<close>; it is
  modelled by its index in that array, a null pointer by \<^verbatim>\<open>None\<close>.
\<close>

definition RMM_MAX_GRANULES :: nat where [word_consts]: "RMM_MAX_GRANULES = 0x80000"
definition FVP_DRAM0_BASE :: u64 where [word_consts]: "FVP_DRAM0_BASE = 0x80000000"
definition FVP_DRAM0_SIZE :: u64 where [word_consts]: "FVP_DRAM0_SIZE = 0x80000000"
definition FVP_NR_GRANULES :: u64 where
  [word_consts]: "FVP_NR_GRANULES = FVP_DRAM0_SIZE div GRANULE_SIZE"

text \<open>
  The condition is transcribed with the source's parentheses: the negation covers the
  alignment and the upper bound only, and the lower bound is a conjunct outside it.
\<close>

definition plat_granule_addr_to_idx :: "u64 \<Rightarrow> u64" where
  "plat_granule_addr_to_idx addr =
     (if \<not> (GRANULE_ALIGNED addr \<and> addr < FVP_DRAM0_BASE + FVP_DRAM0_SIZE)
         \<and> FVP_DRAM0_BASE \<le> addr
      then - 1
      else (addr - FVP_DRAM0_BASE) div GRANULE_SIZE)"

definition plat_granule_idx_to_addr :: "u64 \<Rightarrow> u64 option" where
  "plat_granule_idx_to_addr idx = do {
     assert_c (idx < FVP_NR_GRANULES);
     Some (FVP_DRAM0_BASE + idx * GRANULE_SIZE)
   }"

definition granule_from_idx :: "u64 \<Rightarrow> nat option" where
  "granule_from_idx idx = do {
     assert_c (unat idx < RMM_MAX_GRANULES);
     Some (unat idx)
   }"

definition granule_addr :: "nat \<Rightarrow> u64 option" where
  "granule_addr g = plat_granule_idx_to_addr (of_nat g)"

definition addr_to_granule :: "u64 \<Rightarrow> nat option" where
  "addr_to_granule addr = do {
     assert_c (GRANULE_ALIGNED addr);
     granule_from_idx (plat_granule_addr_to_idx addr)
   }"

definition find_granule :: "u64 \<Rightarrow> nat option" where
  "find_granule addr =
     (if \<not> GRANULE_ALIGNED addr then None
      else let idx = plat_granule_addr_to_idx addr
           in if RMM_MAX_GRANULES \<le> unat idx then None
              else granule_from_idx idx)"

text \<open>The physical addresses that have a \<^verbatim>\<open>struct granule\<close>.\<close>

definition in_dram :: "u64 \<Rightarrow> bool" where
  "in_dram a = (GRANULE_ALIGNED a \<and> 0x80000000 \<le> unat a \<and> unat a < 0x100000000)"

lemma plat_idx_in_dram:
  assumes "in_dram a"
  shows "unat (plat_granule_addr_to_idx a) = (unat a - 0x80000000) div 4096"
proof -
  from assms have le: "FVP_DRAM0_BASE \<le> a" and lt: "a < FVP_DRAM0_BASE + FVP_DRAM0_SIZE"
    and al: "GRANULE_ALIGNED a"
    by (auto simp: in_dram_def word_consts word_le_nat_alt word_less_nat_alt)
  then have "plat_granule_addr_to_idx a = (a - FVP_DRAM0_BASE) div GRANULE_SIZE"
    by (simp add: plat_granule_addr_to_idx_def)
  moreover have "unat (a - FVP_DRAM0_BASE) = unat a - unat FVP_DRAM0_BASE"
    using le by (simp add: unat_sub)
  ultimately show ?thesis by (simp add: unat_div word_consts)
qed

lemma plat_idx_outside:
  assumes "GRANULE_ALIGNED a" and "\<not> in_dram a"
  shows "RMM_MAX_GRANULES \<le> unat (plat_granule_addr_to_idx a)"
proof (cases "FVP_DRAM0_BASE \<le> a")
  case True
  with assms have "\<not> a < FVP_DRAM0_BASE + FVP_DRAM0_SIZE"
    by (auto simp: in_dram_def word_consts word_le_nat_alt word_less_nat_alt)
  with True have "plat_granule_addr_to_idx a = - 1"
    by (simp add: plat_granule_addr_to_idx_def)
  moreover have "unat (- 1 :: u64) = 2 ^ 64 - 1"
    by (simp add: unsigned_minus_1_eq_mask mask_eq_exp_minus_1)
  ultimately show ?thesis by (simp add: RMM_MAX_GRANULES_def)
next
  case False
  then have lt: "a < FVP_DRAM0_BASE" by simp
  then have "plat_granule_addr_to_idx a = (a - FVP_DRAM0_BASE) div GRANULE_SIZE"
    using False by (simp add: plat_granule_addr_to_idx_def)
  moreover have "unat (a - FVP_DRAM0_BASE) = 2 ^ 64 + unat a - unat FVP_DRAM0_BASE"
    using lt by (simp add: unat_sub_if_size word_less_nat_alt word_le_nat_alt word_size)
  ultimately have "unat (plat_granule_addr_to_idx a)
      = (2 ^ 64 + unat a - unat FVP_DRAM0_BASE) div 4096"
    by (simp add: unat_div GRANULE_SIZE_def)
  moreover have "0x80000 * 4096 \<le> 2 ^ 64 + unat a - unat FVP_DRAM0_BASE"
    by (simp add: FVP_DRAM0_BASE_def)
  then have "0x80000 \<le> (2 ^ 64 + unat a - unat FVP_DRAM0_BASE) div 4096"
    by (simp add: less_eq_div_iff_mult_less_eq)
  ultimately show ?thesis by (simp add: RMM_MAX_GRANULES_def)
qed

lemma find_granule_eq:
  "find_granule a = (if in_dram a then Some ((unat a - 0x80000000) div 4096) else None)"
proof (cases "in_dram a")
  case True
  moreover from True have "(unat a - 0x80000000) div 4096 < 0x80000"
    by (auto simp: in_dram_def)
  ultimately show ?thesis
    by (simp add: find_granule_def plat_idx_in_dram granule_from_idx_def Let_def
        RMM_MAX_GRANULES_def) (simp add: in_dram_def)
next
  case False
  then show ?thesis
    by (auto simp: find_granule_def Let_def dest: plat_idx_outside)
qed

lemma addr_to_granule_eq_find: "GRANULE_ALIGNED a \<Longrightarrow> addr_to_granule a = find_granule a"
  by (auto simp: addr_to_granule_def find_granule_def granule_from_idx_def Let_def bind_assert_c
      split: if_splits)

lemma find_granule_bound: "find_granule a = Some g \<Longrightarrow> g < RMM_MAX_GRANULES"
  by (auto simp: find_granule_def granule_from_idx_def Let_def split: if_splits)

lemma granule_addr_eq:
  "g < RMM_MAX_GRANULES \<Longrightarrow> granule_addr g = Some (0x80000000 + of_nat g * 4096)"
  by (simp add: granule_addr_def plat_granule_idx_to_addr_def word_consts word_less_nat_alt
      unat_of_nat)

lemma unat_granule_addr:
  assumes "g < RMM_MAX_GRANULES"
  shows "unat (0x80000000 + of_nat g * 4096 :: u64) = 0x80000000 + g * 4096"
proof -
  have "unat (of_nat (0x80000000 + g * 4096) :: u64) = (0x80000000 + g * 4096) mod 2 ^ 64"
    by (simp only: unat_of_nat len_num1 len_bit0) simp
  also have "\<dots> = 0x80000000 + g * 4096"
    using assms by (simp add: RMM_MAX_GRANULES_def)
  finally show ?thesis by simp
qed

lemma in_dram_div:
  assumes "in_dram a"
  shows "unat a = 0x80000000 + 4096 * ((unat a - 0x80000000) div 4096)"
proof -
  from assms have "4096 dvd unat a" and ge: "0x80000000 \<le> unat a"
    by (auto simp: in_dram_def GRANULE_ALIGNED_unat)
  moreover have "(4096::nat) dvd 0x80000000" by simp
  ultimately have "4096 dvd unat a - 0x80000000" by (simp only: dvd_diff_nat)
  then show ?thesis using ge by simp
qed

lemma find_granule_inject:
  assumes "find_granule a = Some g" and "find_granule b = Some g"
  shows "a = b"
proof -
  from assms have "in_dram a" "in_dram b"
    "(unat a - 0x80000000) div 4096 = (unat b - 0x80000000) div 4096"
    by (auto simp: find_granule_eq split: if_splits)
  then have "unat a = unat b"
    by (metis in_dram_div)
  then show ?thesis by (simp add: word_unat_eq_iff)
qed

lemma find_granule_addr:
  assumes "g < RMM_MAX_GRANULES" and "granule_addr g = Some a"
  shows "find_granule a = Some g"
proof -
  from assms have a: "a = 0x80000000 + of_nat g * 4096" by (simp add: granule_addr_eq)
  have u: "unat a = 0x80000000 + g * 4096"
    unfolding a by (rule unat_granule_addr [OF assms(1)])
  have "in_dram a"
    using assms(1) unfolding in_dram_def GRANULE_ALIGNED_unat u RMM_MAX_GRANULES_def
    by simp
  then show ?thesis by (simp add: find_granule_eq u)
qed

lemma granule_addr_find:
  assumes "find_granule a = Some g"
  shows "granule_addr g = Some a"
proof -
  from assms have "g < RMM_MAX_GRANULES" by (rule find_granule_bound)
  then obtain b where b: "granule_addr g = Some b" by (auto simp: granule_addr_eq)
  have "find_granule b = Some g"
    using \<open>g < RMM_MAX_GRANULES\<close> b by (rule find_granule_addr)
  with assms b show ?thesis by (metis find_granule_inject)
qed

end
