(* ===== verification/Byte_Memory.thy ===== *)
theory Byte_Memory
  imports RMM_Prelude
begin

text \<open>
  Memory as bytes: little-endian 64-bit words in byte strings and in a flat memory, and the
  clearing of a range.  A range is written with the distance of two addresses, which wraps
  around as the addresses do.
\<close>

type_synonym bytemem = "u64 \<Rightarrow> u8"

definition le_bytes :: "u64 \<Rightarrow> u8 list" where
  "le_bytes v = map (\<lambda>i. ucast (drop_bit (8 * i) v)) [0..<8]"

primrec from_le :: "u8 list \<Rightarrow> u64" where
  "from_le [] = 0"
| "from_le (b # bs) = ucast b OR push_bit 8 (from_le bs)"

definition load64 :: "bytemem \<Rightarrow> u64 \<Rightarrow> u64" where
  "load64 m a = from_le (map (\<lambda>i. m (a + of_nat i)) [0..<8])"

definition store64 :: "u64 \<Rightarrow> u64 \<Rightarrow> bytemem \<Rightarrow> bytemem" where
  "store64 a v m = (\<lambda>x. if x - a < 8 then le_bytes v ! unat (x - a) else m x)"

definition memset0 :: "u64 \<Rightarrow> u64 \<Rightarrow> bytemem \<Rightarrow> bytemem" where
  "memset0 a n m = (\<lambda>x. if x - a < n then 0 else m x)"

lemma bit_from_le:
  "bit (from_le bs) n \<longleftrightarrow> n < 64 \<and> n div 8 < length bs \<and> bit (bs ! (n div 8)) (n mod 8)"
proof (induction bs arbitrary: n)
  case (Cons b bs)
  show ?case
  proof (cases "n < 8")
    case True
    then show ?thesis by (simp add: bit_simps)
  next
    case False
    then have n: "n div 8 = Suc ((n - 8) div 8)" "n mod 8 = (n - 8) mod 8" "n = 8 + (n - 8)"
      by (simp_all add: le_div_geq le_mod_geq)
    have "\<not> bit b n" using False by (auto dest: bit_imp_le_length)
    then show ?thesis using False Cons.IH [of "n - 8"] n(1,2) by (auto simp: bit_simps)
  qed
qed simp

lemma from_le_bytes: "from_le (le_bytes v) = v"
proof (rule bit_word_eqI)
  fix n assume "n < LENGTH(64)"
  then have n: "n < 64" by simp
  then have k: "n div 8 < 8" by linarith
  moreover have "8 * (n div 8) + n mod 8 = n" by simp
  ultimately show "bit (from_le (le_bytes v)) n = bit v n"
    using n k by (simp add: bit_from_le le_bytes_def bit_simps)
qed

lemma load64_store64_same: "load64 (store64 a v m) a = v"
proof -
  have "map (\<lambda>i. store64 a v m (a + of_nat i)) [0..<8] = le_bytes v"
    by (rule nth_equalityI) (simp_all add: store64_def le_bytes_def word_less_nat_alt unat_of_nat)
  then show ?thesis by (simp add: load64_def from_le_bytes)
qed

text \<open>Two ranges of \<open>n\<close> and of \<open>k\<close> bytes that share no byte.\<close>

definition apart :: "u64 \<Rightarrow> u64 \<Rightarrow> u64 \<Rightarrow> u64 \<Rightarrow> bool" where
  "apart a n b k \<longleftrightarrow> n \<le> b - a \<and> k \<le> a - b"

lemma apart_sym: "apart a n b k \<Longrightarrow> apart b k a n"
  by (simp add: apart_def)

lemma apart_in:
  assumes "apart a n b k" and "x - b < k"
  shows "\<not> x - a < n"
proof
  assume x: "x - a < n"
  define u v where "u = x - a" and "v = x - b"
  have d: "b - a = u - v" "a - b = v - u" by (simp_all add: u_def v_def)
  consider "v \<le> u" | "u \<le> v" by (rule linear [THEN disjE])
  then show False
  proof cases
    case 1
    have "u - v \<le> u" using 1 by (rule word_sub_le)
    then show False using assms(1) x d(1) unfolding apart_def u_def [symmetric]
      by (metis leD le_less_trans order.trans)
  next
    case 2
    have "v - u \<le> v" using 2 by (rule word_sub_le)
    then show False using assms d(2) unfolding apart_def v_def [symmetric]
      by (metis leD le_less_trans order.trans)
  qed
qed

lemma load64_other:
  assumes "\<And>x. x - b < 8 \<Longrightarrow> m' x = m x"
  shows "load64 m' b = load64 m b"
proof -
  have "map (\<lambda>i. m' (b + of_nat i)) [0..<8] = map (\<lambda>i. m (b + of_nat i)) [0..<8]"
    using assms by (auto simp: word_less_nat_alt unat_of_nat)
  then show ?thesis unfolding load64_def by (rule arg_cong)
qed

lemma load64_store64_apart: "apart a 8 b 8 \<Longrightarrow> load64 (store64 a v m) b = load64 m b"
  by (rule load64_other) (auto simp: store64_def dest: apart_in)

lemma load64_memset0_apart: "apart a n b 8 \<Longrightarrow> load64 (memset0 a n m) b = load64 m b"
  by (rule load64_other) (auto simp: memset0_def dest: apart_in)

lemma load64_zero: "(\<And>x. x - b < 8 \<Longrightarrow> m x = 0) \<Longrightarrow> load64 m b = 0"
  using load64_other [of b m "\<lambda>_. 0"] by (simp add: load64_def upt_rec)

end
