(* ===== verification/Heap_Alloc.thy ===== *)
theory Heap_Alloc
  imports Byte_Memory
begin

text \<open>
  The allocator of the crypto library (lib/allocator/src/memory_alloc.c).  A heap is one
  buffer, tiled by blocks: a header of 64 bytes and the bytes handed out.  The headers link
  all blocks by address, and the free blocks in an order of their own.  The memory is a map
  from addresses to bytes; each access to a field of a header is a load or a store of eight
  bytes.  \<open>alloc_params\<close> are the macros of mbedtls/memory_buffer_alloc.h, a header of
  a submodule.  \<^verbatim>\<open>None\<close> is a failed assertion or a panic.
\<close>

record alloc_params =
  MEMORY_ALIGN_MULTIPLE :: u64
  MEMORY_VERIFY_ALLOC :: u32
  MEMORY_VERIFY_FREE :: u32

section \<open>Headers\<close>

datatype memory_header_s =
  F_magic1 | F_size | F_alloc | F_prev | F_next | F_prev_free | F_next_free | F_magic2

primrec field_offset :: "memory_header_s \<Rightarrow> u64" where
  "field_offset F_magic1 = 0"
| "field_offset F_size = 8"
| "field_offset F_alloc = 16"
| "field_offset F_prev = 24"
| "field_offset F_next = 32"
| "field_offset F_prev_free = 40"
| "field_offset F_next_free = 48"
| "field_offset F_magic2 = 56"

definition sizeof_header :: u64 where "sizeof_header = 64"
definition MAGIC1 :: u64 where "MAGIC1 = 0xFF00AA55"
definition MAGIC2 :: u64 where "MAGIC2 = 0xEE119966"

definition fld :: "bytemem \<Rightarrow> u64 \<Rightarrow> memory_header_s \<Rightarrow> u64" where
  "fld m hdr f = load64 m (hdr + field_offset f)"

definition fld_set :: "u64 \<Rightarrow> memory_header_s \<Rightarrow> u64 \<Rightarrow> bytemem \<Rightarrow> bytemem" where
  "fld_set hdr f v m = store64 (hdr + field_offset f) v m"

record buffer_alloc_ctx =
  ctx_buf :: u64
  ctx_len :: u64
  ctx_first :: u64
  ctx_first_free :: u64
  ctx_verify :: u32

definition ctx_zero :: buffer_alloc_ctx where
  "ctx_zero = \<lparr>ctx_buf = 0, ctx_len = 0, ctx_first = 0, ctx_first_free = 0, ctx_verify = 0\<rparr>"

record heap =
  hp_ctx :: buffer_alloc_ctx
  hp_mem :: bytemem

abbreviation upd :: "u64 \<Rightarrow> memory_header_s \<Rightarrow> u64 \<Rightarrow> heap \<Rightarrow> heap" where
  "upd hdr f v \<equiv> hp_mem_update (fld_set hdr f v)"

definition set_first_free :: "u64 \<Rightarrow> heap \<Rightarrow> heap" where
  "set_first_free p h = h\<lparr>hp_ctx := (hp_ctx h)\<lparr>ctx_first_free := p\<rparr>\<rparr>"

section \<open>Checks\<close>

definition verify_header :: "bytemem \<Rightarrow> u64 \<Rightarrow> u64" where
  "verify_header m hdr =
     (if fld m hdr F_magic1 \<noteq> MAGIC1 then 1
      else if fld m hdr F_magic2 \<noteq> MAGIC2 then 1
      else if fld m hdr F_alloc > 1 then 1
      else if fld m hdr F_prev \<noteq> 0 \<and> fld m hdr F_prev = fld m hdr F_next then 1
      else if fld m hdr F_prev_free \<noteq> 0 \<and> fld m hdr F_prev_free = fld m hdr F_next_free then 1
      else 0)"

partial_function (option) verify_from :: "bytemem \<Rightarrow> u64 \<Rightarrow> u64 \<Rightarrow> u64 option" where
  "verify_from m prv cur =
     (if cur = 0 then Some 0
      else if verify_header m cur \<noteq> 0 then Some 1
      else if fld m cur F_prev \<noteq> prv then Some 1
      else verify_from m cur (fld m cur F_next))"

definition verify_chain :: "heap \<Rightarrow> u64 option" where
  "verify_chain h =
     (let prv = ctx_first (hp_ctx h); m = hp_mem h
      in if prv = 0 \<or> verify_header m prv \<noteq> 0 then Some 1
         else if fld m prv F_prev \<noteq> 0 then Some 1
         else verify_from m prv (fld m prv F_next))"

section \<open>Allocation\<close>

partial_function (option) find_fit :: "bytemem \<Rightarrow> u64 \<Rightarrow> u64 \<Rightarrow> u64 option" where
  "find_fit m len cur =
     (if cur = 0 then Some 0
      else if len \<le> fld m cur F_size then Some cur
      else find_fit m len (fld m cur F_next_free))"

declare verify_from.simps [code] find_fit.simps [code]

text \<open>The block leaves the list of free blocks; its own links stay.\<close>

definition unlink_free :: "u64 \<Rightarrow> heap \<Rightarrow> heap" where
  "unlink_free cur h =
     (let rd = (\<lambda>h. fld (hp_mem h) cur);
          h = (if rd h F_prev_free \<noteq> 0 then upd (rd h F_prev_free) F_next_free (rd h F_next_free) h
               else set_first_free (rd h F_next_free) h)
      in if rd h F_next_free \<noteq> 0 then upd (rd h F_next_free) F_prev_free (rd h F_prev_free) h else h)"

text \<open>The block takes the place of another one in the list.\<close>

definition link_free :: "u64 \<Rightarrow> u64 \<Rightarrow> heap \<Rightarrow> heap" where
  "link_free hdr old h =
     (let rd = (\<lambda>h. fld (hp_mem h));
          h = upd hdr F_prev_free (rd h old F_prev_free) h;
          h = upd hdr F_next_free (rd h old F_next_free) h;
          h = (if rd h hdr F_prev_free \<noteq> 0 then upd (rd h hdr F_prev_free) F_next_free hdr h
               else set_first_free hdr h)
      in if rd h hdr F_next_free \<noteq> 0 then upd (rd h hdr F_next_free) F_prev_free hdr h else h)"

definition verified_alloc :: "alloc_params \<Rightarrow> heap \<Rightarrow> unit option" where
  "verified_alloc K h =
     (if ctx_verify (hp_ctx h) AND MEMORY_VERIFY_ALLOC K \<noteq> 0
      then do { r \<leftarrow> verify_chain h; assert_c (r = 0) } else Some ())"

definition take_block :: "u64 \<Rightarrow> heap \<Rightarrow> heap" where
  "take_block cur h =
     (let h = unlink_free cur (upd cur F_alloc 1 h)
      in upd cur F_next_free 0 (upd cur F_prev_free 0 h))"

definition split_block :: "u64 \<Rightarrow> u64 \<Rightarrow> heap \<Rightarrow> heap" where
  "split_block cur len h =
     (let new = cur + sizeof_header + len;
          rd = (\<lambda>h. fld (hp_mem h));
          h = upd new F_size (rd h cur F_size - len - sizeof_header) h;
          h = upd new F_prev cur (upd new F_alloc 0 h);
          h = upd new F_next (rd h cur F_next) h;
          h = upd new F_magic2 MAGIC2 (upd new F_magic1 MAGIC1 h);
          h = (if rd h new F_next \<noteq> 0 then upd (rd h new F_next) F_prev new h else h);
          h = link_free new cur h;
          h = upd cur F_next new (upd cur F_size len (upd cur F_alloc 1 h))
      in upd cur F_next_free 0 (upd cur F_prev_free 0 h))"

definition buffer_alloc_calloc_with_heap ::
  "alloc_params \<Rightarrow> u64 \<Rightarrow> u64 \<Rightarrow> heap \<Rightarrow> (u64 \<times> heap) option" where
  "buffer_alloc_calloc_with_heap K n sz h =
     (let al = MEMORY_ALIGN_MULTIPLE K; original_len = n * sz
      in if ctx_buf (hp_ctx h) = 0 \<or> ctx_first (hp_ctx h) = 0 then Some (0, h)
         else if n = 0 \<or> sz = 0 \<or> original_len div n \<noteq> sz then Some (0, h)
         else if original_len > - al then Some (0, h)
         else do {
           let len = (if original_len mod al \<noteq> 0 then original_len - original_len mod al + al else original_len);
           cur \<leftarrow> find_fit (hp_mem h) len (ctx_first_free (hp_ctx h));
           if cur = 0 then Some (0, h)
           else do {
             assert_c (fld (hp_mem h) cur F_alloc = 0);
             let h = (if fld (hp_mem h) cur F_size - len < sizeof_header + al then take_block cur h
                      else split_block cur len h);
             verified_alloc K h;
             let ret = cur + sizeof_header;
             Some (ret, h\<lparr>hp_mem := memset0 ret original_len (hp_mem h)\<rparr>)
           }
         })"

section \<open>Release\<close>

text \<open>A block is joined with the free block before it; then with the free block after it.\<close>

definition regroup_before :: "u64 \<Rightarrow> heap \<Rightarrow> u64 \<times> u64 \<times> heap" where
  "regroup_before hdr h =
     (let m = hp_mem h; prev = fld m hdr F_prev
      in if prev \<noteq> 0 \<and> fld m prev F_alloc = 0
         then let h = upd prev F_size (fld m prev F_size + (sizeof_header + fld m hdr F_size)) h;
                  h = upd prev F_next (fld (hp_mem h) hdr F_next) h;
                  next = fld (hp_mem h) prev F_next;
                  h = (if next \<noteq> 0 then upd next F_prev prev h else h)
              in (hdr, prev, h\<lparr>hp_mem := memset0 hdr sizeof_header (hp_mem h)\<rparr>)
         else (0, hdr, h))"

definition regroup_after :: "u64 \<Rightarrow> u64 \<Rightarrow> heap \<Rightarrow> u64 \<times> heap" where
  "regroup_after old hdr h =
     (let m = hp_mem h; next = fld m hdr F_next
      in if next \<noteq> 0 \<and> fld m next F_alloc = 0
         then let h = upd hdr F_size (fld m hdr F_size + (sizeof_header + fld m next F_size)) h;
                  h = upd hdr F_next (fld (hp_mem h) next F_next) h;
                  h = (if fld (hp_mem h) hdr F_prev_free \<noteq> 0 \<or> fld (hp_mem h) hdr F_next_free \<noteq> 0
                       then unlink_free hdr h else h);
                  h = link_free hdr next h;
                  after = fld (hp_mem h) hdr F_next;
                  h = (if after \<noteq> 0 then upd after F_prev hdr h else h)
              in (next, h\<lparr>hp_mem := memset0 next sizeof_header (hp_mem h)\<rparr>)
         else (old, h))"

definition prepend_free :: "u64 \<Rightarrow> heap \<Rightarrow> heap" where
  "prepend_free hdr h =
     (let first_free = ctx_first_free (hp_ctx h);
          h = upd hdr F_next_free first_free h;
          h = (if first_free \<noteq> 0 then upd first_free F_prev_free hdr h else h)
      in set_first_free hdr h)"

definition buffer_alloc_free_with_heap :: "alloc_params \<Rightarrow> u64 \<Rightarrow> heap \<Rightarrow> heap option" where
  "buffer_alloc_free_with_heap K ptr h =
     (let c = hp_ctx h
      in if ptr = 0 \<or> ctx_buf c = 0 \<or> ctx_first c = 0 then Some h
         else do {
           assert_c (\<not> (ptr < ctx_buf c \<or> ptr \<ge> ctx_buf c + ctx_len c));
           let hdr = ptr - sizeof_header;
           assert_c (verify_header (hp_mem h) hdr = 0);
           assert_c (fld (hp_mem h) hdr F_alloc = 1);
           let (old, hdr, h) = regroup_before hdr (upd hdr F_alloc 0 h);
           let (old, h) = regroup_after old hdr h;
           let h = (if old = 0 then prepend_free hdr h else h);
           (if ctx_verify (hp_ctx h) AND MEMORY_VERIFY_FREE K \<noteq> 0
            then do { r \<leftarrow> verify_chain h; assert_c (r \<noteq> 0) } else Some ());
           Some h
         })"

section \<open>Initialisation\<close>

definition buffer_alloc_init :: "alloc_params \<Rightarrow> u64 \<Rightarrow> u64 \<Rightarrow> heap \<Rightarrow> heap" where
  "buffer_alloc_init K buf len h =
     (let al = MEMORY_ALIGN_MULTIPLE K; h = h\<lparr>hp_ctx := ctx_zero\<rparr>
      in if len < sizeof_header + al then h
         else let (len, buf) = (if buf mod al \<noteq> 0 then (len - (al - buf mod al), buf + (al - buf mod al))
                                else (len, buf));
                  h = h\<lparr>hp_ctx := ctx_zero\<lparr>ctx_buf := buf, ctx_len := len, ctx_first := buf\<rparr>,
                         hp_mem := memset0 buf len (hp_mem h)\<rparr>;
                  h = upd buf F_magic2 MAGIC2 (upd buf F_magic1 MAGIC1 (upd buf F_size (len - sizeof_header) h))
              in set_first_free buf h)"

section \<open>The heaps of the processing elements\<close>

text \<open>
  Each CPU has a pointer to the context it uses; the contexts lie in the RECs and in static
  memory, apart from the buffers.
\<close>

record heaps =
  ctx_per_cpu :: "u64 list"
  ctx_at :: "u64 \<Rightarrow> buffer_alloc_ctx"
  heap_bytes :: bytemem

definition get_heap_ctx :: "nat \<Rightarrow> heaps \<Rightarrow> u64 option" where
  "get_heap_ctx cpu s = do {
     assert_c (cpu < length (ctx_per_cpu s));
     assert_c (ctx_per_cpu s ! cpu \<noteq> 0);
     Some (ctx_per_cpu s ! cpu)
   }"

definition heap_of :: "heaps \<Rightarrow> u64 \<Rightarrow> heap" where
  "heap_of s c = \<lparr>hp_ctx = ctx_at s c, hp_mem = heap_bytes s\<rparr>"

definition put_heap :: "u64 \<Rightarrow> heap \<Rightarrow> heaps \<Rightarrow> heaps" where
  "put_heap c h s = s\<lparr>ctx_at := (ctx_at s)(c := hp_ctx h), heap_bytes := hp_mem h\<rparr>"

definition buffer_alloc_calloc :: "alloc_params \<Rightarrow> nat \<Rightarrow> u64 \<Rightarrow> u64 \<Rightarrow> heaps \<Rightarrow> (u64 \<times> heaps) option" where
  "buffer_alloc_calloc K cpu n sz s = do {
     c \<leftarrow> get_heap_ctx cpu s;
     (p, h) \<leftarrow> buffer_alloc_calloc_with_heap K n sz (heap_of s c);
     Some (p, put_heap c h s)
   }"

definition buffer_alloc_free :: "alloc_params \<Rightarrow> nat \<Rightarrow> u64 \<Rightarrow> heaps \<Rightarrow> heaps option" where
  "buffer_alloc_free K cpu ptr s = do {
     c \<leftarrow> get_heap_ctx cpu s;
     h \<leftarrow> buffer_alloc_free_with_heap K ptr (heap_of s c);
     Some (put_heap c h s)
   }"

definition heap_ctx_assign :: "nat \<Rightarrow> u64 \<Rightarrow> heaps \<Rightarrow> (int \<times> heaps) option" where
  "heap_ctx_assign cpu ctx s = do {
     assert_c (cpu < length (ctx_per_cpu s));
     if ctx = 0 then Some (- 22, s)
     else if ctx_per_cpu s ! cpu \<noteq> 0 then Some (- 22, s)
     else Some (0, s\<lparr>ctx_per_cpu := (ctx_per_cpu s)[cpu := ctx]\<rparr>)
   }"

definition heap_ctx_unassign :: "nat \<Rightarrow> heaps \<Rightarrow> heaps option" where
  "heap_ctx_unassign cpu s = do {
     assert_c (cpu < length (ctx_per_cpu s));
     assert_c (ctx_per_cpu s ! cpu \<noteq> 0);
     Some (s\<lparr>ctx_per_cpu := (ctx_per_cpu s)[cpu := 0]\<rparr>)
   }"

definition mbedtls_memory_buffer_set_verify :: "nat \<Rightarrow> u32 \<Rightarrow> heaps \<Rightarrow> heaps option" where
  "mbedtls_memory_buffer_set_verify cpu verify s = do {
     c \<leftarrow> get_heap_ctx cpu s;
     assert_c False;
     Some (s\<lparr>ctx_at := (ctx_at s)(c := (ctx_at s c)\<lparr>ctx_verify := verify\<rparr>)\<rparr>)
   }"

definition mbedtls_memory_buffer_alloc_verify :: "nat \<Rightarrow> heaps \<Rightarrow> u64 option" where
  "mbedtls_memory_buffer_alloc_verify cpu s = do {
     c \<leftarrow> get_heap_ctx cpu s;
     verify_chain (heap_of s c)
   }"

definition mbedtls_memory_buffer_alloc_init :: "alloc_params \<Rightarrow> nat \<Rightarrow> u64 \<Rightarrow> u64 \<Rightarrow> heaps \<Rightarrow> heaps option" where
  "mbedtls_memory_buffer_alloc_init K cpu buf len s = do {
     c \<leftarrow> get_heap_ctx cpu s;
     Some (put_heap c (buffer_alloc_init K buf len (heap_of s c)) s)
   }"

definition mbedtls_memory_buffer_alloc_free :: "nat \<Rightarrow> heaps \<Rightarrow> heaps option" where
  "mbedtls_memory_buffer_alloc_free cpu s = do {
     c \<leftarrow> get_heap_ctx cpu s;
     Some (s\<lparr>ctx_at := (ctx_at s)(c := ctx_zero)\<rparr>)
   }"

end
