(* ===== verification/RMM_State.thy ===== *)
theory RMM_State
  imports Granule_Index Heap_Alloc
begin

text \<open>
  The state of the monitor: the granule array (lib/realm/include/granule_types.h), the
  structures that live inside granules (\<^verbatim>\<open>struct rd\<close> of realm.h, \<^verbatim>\<open>struct rec\<close> of
  rec.h, stage 2 tables), the slot buffers of the executing CPU, the VMID bitmap, and a
  log of the effects that other observers (other CPUs, the MMU, EL3) can see.
\<close>

section \<open>Granules\<close>

datatype granule_state =
    GRANULE_STATE_NS
  | GRANULE_STATE_DELEGATED
  | GRANULE_STATE_RD
  | GRANULE_STATE_REC
  | GRANULE_STATE_REC_AUX
  | GRANULE_STATE_DATA
  | GRANULE_STATE_RTT

text \<open>
  The field \<^verbatim>\<open>nsp\<close> of \<^verbatim>\<open>struct granule\<close> is neither read nor written by the code and has
  no counterpart.  The spinlock of a granule is kept beside the record, in the map
  \<open>glock\<close> of the global state, so that taking a lock does not touch the granule.
\<close>

record granule =
  g_state :: granule_state
  g_refcount :: u64

section \<open>Realm descriptors\<close>

datatype hash_algo = HASH_ALGO_SHA256 | HASH_ALGO_SHA512

type_synonym digest = "u8 list"

record realm_s2_context =
  s2_ipa_bits :: nat
  s2_starting_level :: int
  s2_root_rtts :: nat
  s2_g_rtt :: nat
  s2_vmid :: u32

record rd =
  rd_state :: u64
  rd_rec_count :: u64
  rd_s2_ctx :: realm_s2_context
  rd_num_rec_aux :: nat
  rd_algorithm :: hash_algo
  rd_measurement :: "digest list"
  rd_rpv :: "u8 list"

definition zero_digest :: digest where "zero_digest = replicate 64 0"

definition zero_rd :: rd where
  "zero_rd = \<lparr>rd_state = 0, rd_rec_count = 0,
     rd_s2_ctx = \<lparr>s2_ipa_bits = 0, s2_starting_level = 0, s2_root_rtts = 0,
                   s2_g_rtt = 0, s2_vmid = 0\<rparr>,
     rd_num_rec_aux = 0, rd_algorithm = HASH_ALGO_SHA256,
     rd_measurement = replicate 5 zero_digest, rd_rpv = replicate 64 0\<rparr>"

section \<open>Realm execution contexts\<close>

datatype ripas = RMI_EMPTY | RMI_RAM

text \<open>
  The registers of the virtual interrupt controller (lib/gic/include/gic.h).  The active
  priority registers are lists of 4 words, the list registers a list of 16.
\<close>

record gic_cpu_state =
  ich_ap0r_el2 :: "u64 list"
  ich_ap1r_el2 :: "u64 list"
  ich_vmcr_el2 :: u64
  ich_hcr_el2 :: u64
  ich_lr_el2 :: "u64 list"
  ich_misr_el2 :: u64

text \<open>
  The saved system registers of a REC.  The field \<^verbatim>\<open>hcr_el2\<close> of the C structure is
  \<open>run_hcr_el2\<close> here, as \<open>common_sysreg_state\<close> has a field of that name too.
\<close>

record sysreg_state =
  sp_el0 :: u64
  sp_el1 :: u64
  elr_el1 :: u64
  spsr_el1 :: u64
  pmcr_el0 :: u64
  pmuserenr_el0 :: u64
  tpidrro_el0 :: u64
  tpidr_el0 :: u64
  csselr_el1 :: u64
  sctlr_el1 :: u64
  actlr_el1 :: u64
  cpacr_el1 :: u64
  zcr_el1 :: u64
  ttbr0_el1 :: u64
  ttbr1_el1 :: u64
  tcr_el1 :: u64
  esr_el1 :: u64
  afsr0_el1 :: u64
  afsr1_el1 :: u64
  far_el1 :: u64
  mair_el1 :: u64
  vbar_el1 :: u64
  contextidr_el1 :: u64
  tpidr_el1 :: u64
  amair_el1 :: u64
  cntkctl_el1 :: u64
  par_el1 :: u64
  mdscr_el1 :: u64
  mdccint_el1 :: u64
  disr_el1 :: u64
  mpam0_el1 :: u64
  cnthctl_el2 :: u64
  cntvoff_el2 :: u64
  cntpoff_el2 :: u64
  cntp_ctl_el0 :: u64
  cntp_cval_el0 :: u64
  cntv_ctl_el0 :: u64
  cntv_cval_el0 :: u64
  gicstate :: gic_cpu_state
  vmpidr_el2 :: u64
  run_hcr_el2 :: u64

definition zero_gic :: gic_cpu_state where
  "zero_gic = \<lparr>ich_ap0r_el2 = replicate 4 0, ich_ap1r_el2 = replicate 4 0, ich_vmcr_el2 = 0,
     ich_hcr_el2 = 0, ich_lr_el2 = replicate 16 0, ich_misr_el2 = 0\<rparr>"

definition zero_sysregs :: sysreg_state where
  "zero_sysregs = \<lparr>sp_el0 = 0, sp_el1 = 0, elr_el1 = 0, spsr_el1 = 0, pmcr_el0 = 0, pmuserenr_el0 = 0,
     tpidrro_el0 = 0, tpidr_el0 = 0, csselr_el1 = 0, sctlr_el1 = 0, actlr_el1 = 0,
     cpacr_el1 = 0, zcr_el1 = 0, ttbr0_el1 = 0, ttbr1_el1 = 0, tcr_el1 = 0, esr_el1 = 0,
     afsr0_el1 = 0, afsr1_el1 = 0, far_el1 = 0, mair_el1 = 0, vbar_el1 = 0,
     contextidr_el1 = 0, tpidr_el1 = 0, amair_el1 = 0, cntkctl_el1 = 0, par_el1 = 0,
     mdscr_el1 = 0, mdccint_el1 = 0, disr_el1 = 0, mpam0_el1 = 0, cnthctl_el2 = 0,
     cntvoff_el2 = 0, cntpoff_el2 = 0, cntp_ctl_el0 = 0, cntp_cval_el0 = 0,
     cntv_ctl_el0 = 0, cntv_cval_el0 = 0, gicstate = zero_gic, vmpidr_el2 = 0,
     run_hcr_el2 = 0\<rparr>"

record common_sysreg_state =
  vttbr_el2 :: u64
  vtcr_el2 :: u64
  hcr_el2 :: u64

record set_ripas_info =
  sr_start :: u64
  sr_end :: u64
  sr_addr :: u64
  sr_ripas :: ripas

record realm_info =
  ri_ipa_bits :: nat
  ri_s2_starting_level :: int
  ri_g_rtt :: nat
  ri_g_rd :: nat

text \<open>
  The SIMD registers that are swapped for a realm (lib/arch/include/fpu_helpers.h).
\<close>

record fpu_state =
  fpu_q :: "128 word list"
  fpu_fpsr :: u64
  fpu_fpcr :: u64

record last_run_info =
  lr_esr :: u64
  lr_hpfar :: u64
  lr_far :: u64

record serror_info =
  se_vsesr_el2 :: u64
  se_inject :: bool

text \<open>
  The context of an attestation token.  The encoder and the signer belong to the libraries
  QCBOR and t_cose: the encoder's context is kept as the calls made on it, the signer's
  context as an opaque number.
\<close>

datatype attest_token_gen_state_t =
    ATTEST_SIGN_NOT_STARTED
  | ATTEST_SIGN_IN_PROGRESS
  | ATTEST_SIGN_TOKEN_WRITE_IN_PROGRESS

datatype cbor_call =
    OpenMap
  | AddBytesToMapN int "u8 list"
  | AddTextToMapN int string
  | OpenArrayInMapN int
  | AddBytes "u8 list"
  | CloseArray
  | CloseMap
  | AddTag nat

record token_sign_ctx =
  ts_state :: attest_token_gen_state_t
  ts_cbor :: "cbor_call list"
  ts_signer :: nat
  ts_token_ipa :: u64
  ts_challenge :: "u8 list"

text \<open>
  The pointer \<^verbatim>\<open>ns\<close> is modelled by whether it is set; \<open>rec_token\<close> is the content
  that the pointer and length \<^verbatim>\<open>rmm_realm_token\<close> describe.  \<open>rec_attest_heap_buf\<close> is the
  field of \<^verbatim>\<open>aux_data\<close>, \<open>rec_alloc_ctx\<close> and \<open>rec_ctx_initialised\<close> are those of \<^verbatim>\<open>alloc_info\<close>.
\<close>

record rec =
  rec_g_rec :: nat
  rec_idx :: u64
  rec_runnable :: bool
  rec_regs :: "u64 list"
  rec_pc :: u64
  rec_pstate :: u64
  rec_sysregs :: sysreg_state
  rec_common_sysregs :: common_sysreg_state
  rec_set_ripas :: set_ripas_info
  rec_realm_info :: realm_info
  rec_last_run :: last_run_info
  rec_fpu :: fpu_state
  rec_fpu_used :: bool
  rec_ns :: bool
  rec_psci_pending :: bool
  rec_num_rec_aux :: nat
  rec_g_aux :: "nat list"
  rec_token :: "u8 list"
  rec_token_sign :: token_sign_ctx
  rec_attest_heap_buf :: u64
  rec_alloc_ctx :: buffer_alloc_ctx
  rec_ctx_initialised :: bool
  rec_serror :: serror_info
  rec_host_call :: bool

definition zero_fpu :: fpu_state where
  "zero_fpu = \<lparr>fpu_q = replicate 32 0, fpu_fpsr = 0, fpu_fpcr = 0\<rparr>"

definition zero_token_sign :: token_sign_ctx where
  "zero_token_sign = \<lparr>ts_state = ATTEST_SIGN_NOT_STARTED, ts_cbor = [], ts_signer = 0,
     ts_token_ipa = 0, ts_challenge = replicate 64 0\<rparr>"

definition zero_rec :: rec where
  "zero_rec = \<lparr>rec_g_rec = 0, rec_idx = 0, rec_runnable = False,
     rec_regs = replicate 31 0, rec_pc = 0, rec_pstate = 0,
     rec_sysregs = zero_sysregs,
     rec_common_sysregs = \<lparr>vttbr_el2 = 0, vtcr_el2 = 0, hcr_el2 = 0\<rparr>,
     rec_set_ripas = \<lparr>sr_start = 0, sr_end = 0, sr_addr = 0, sr_ripas = RMI_EMPTY\<rparr>,
     rec_realm_info = \<lparr>ri_ipa_bits = 0, ri_s2_starting_level = 0, ri_g_rtt = 0,
                        ri_g_rd = 0\<rparr>,
     rec_last_run = \<lparr>lr_esr = 0, lr_hpfar = 0, lr_far = 0\<rparr>,
     rec_fpu = zero_fpu, rec_fpu_used = False, rec_ns = False,
     rec_psci_pending = False, rec_num_rec_aux = 0, rec_g_aux = [],
     rec_token = [], rec_token_sign = zero_token_sign, rec_attest_heap_buf = 0,
     rec_alloc_ctx = ctx_zero, rec_ctx_initialised = False,
     rec_serror = \<lparr>se_vsesr_el2 = 0, se_inject = False\<rparr>, rec_host_call = False\<rparr>"

section \<open>Contents of granules\<close>

text \<open>
  The C code casts the bytes of a mapped granule to the structure it expects.  A granule
  is modelled by the structure last written to it; a scrubbed granule reads as the zero
  value of every structure.  Reading one structure where another was written is not
  given a meaning: the view is \<^verbatim>\<open>None\<close>.
\<close>

datatype content =
    CZero
  | CData "u8 list"
  | CTable "u64 list"
  | CRd rd
  | CRec rec

fun table_of :: "content \<Rightarrow> u64 list option" where
  "table_of CZero = Some (replicate 512 0)"
| "table_of (CTable t) = Some t"
| "table_of _ = None"

fun rd_of :: "content \<Rightarrow> rd option" where
  "rd_of CZero = Some zero_rd"
| "rd_of (CRd r) = Some r"
| "rd_of _ = None"

fun rec_of :: "content \<Rightarrow> rec option" where
  "rec_of CZero = Some zero_rec"
| "rec_of (CRec r) = Some r"
| "rec_of _ = None"

section \<open>Observable effects\<close>

datatype event =
    EvLock nat granule_state     \<comment> \<open>spinlock taken, expecting this state\<close>
  | EvUnlock nat                 \<comment> \<open>spinlock released\<close>
  | EvTteWrite nat nat u64       \<comment> \<open>stage 2 table granule, index, new descriptor\<close>
  | EvTlbiIpa u32 u64            \<comment> \<open>stage 2 invalidation: VMID and page number of the IPA\<close>
  | EvTlbiVmall u32              \<comment> \<open>stage 1 invalidation of everything tagged with the VMID\<close>
  | EvScrub nat                  \<comment> \<open>granule overwritten with zeroes\<close>
  | EvSmc u64 "u64 list"         \<comment> \<open>call to EL3: function identifier and arguments\<close>

record rmm =
  granules :: "nat \<Rightarrow> granule"
  glock :: "nat \<Rightarrow> bool"
  content :: "nat \<Rightarrow> content"
  slots :: "nat \<Rightarrow> nat option"
  vmids :: "nat \<Rightarrow> u64"
  trace :: "event list"

definition emit :: "event \<Rightarrow> rmm \<Rightarrow> rmm" where
  "emit e s = s\<lparr>trace := trace s @ [e]\<rparr>"

lemma emit_simps [simp]:
  "granules (emit e s) = granules s" "glock (emit e s) = glock s"
  "content (emit e s) = content s" "slots (emit e s) = slots s"
  "vmids (emit e s) = vmids s" "trace (emit e s) = trace s @ [e]"
  by (simp_all add: emit_def)

text \<open>Equality of two states up to the log of effects.\<close>

definition same_state :: "rmm \<Rightarrow> rmm \<Rightarrow> bool" where
  "same_state s t \<longleftrightarrow> granules s = granules t \<and> glock s = glock t \<and> content s = content t
     \<and> slots s = slots t \<and> vmids s = vmids t"

lemma same_state_refl [simp]: "same_state s s"
  by (simp add: same_state_def)

lemma same_state_trans: "same_state s t \<Longrightarrow> same_state t u \<Longrightarrow> same_state s u"
  by (simp add: same_state_def)

lemma same_state_emit [simp]: "same_state s (emit e t) = same_state s t"
  by (simp add: same_state_def)

end
