(* ===== verification/Granules.thy ===== *)
theory Granules
  imports RMM_State
begin

text \<open>
  Granule locks, states and reference counts: lib/realm/include/granule.h and the locking
  part of lib/realm/src/granule.c.  One CPU executes at a time: a lock that is already
  taken when it is acquired would be waited for without end, so acquiring it is
  \<^verbatim>\<open>None\<close>.
\<close>

section \<open>Locks and states\<close>

fun granule_assert_unlocked_invariants :: "granule_state \<Rightarrow> u64 \<Rightarrow> bool" where
  "granule_assert_unlocked_invariants GRANULE_STATE_NS rc = (rc = 0)"
| "granule_assert_unlocked_invariants GRANULE_STATE_DELEGATED rc = (rc = 0)"
| "granule_assert_unlocked_invariants GRANULE_STATE_RD rc = True"
| "granule_assert_unlocked_invariants GRANULE_STATE_REC rc = (rc \<le> 1)"
| "granule_assert_unlocked_invariants GRANULE_STATE_DATA rc = (rc = 0)"
| "granule_assert_unlocked_invariants GRANULE_STATE_RTT rc = True"
| "granule_assert_unlocked_invariants GRANULE_STATE_REC_AUX rc = (rc = 0)"

definition lock_g :: "nat \<Rightarrow> granule_state \<Rightarrow> rmm \<Rightarrow> rmm" where
  "lock_g g st s = emit (EvLock g st) (s\<lparr>glock := (glock s)(g := True)\<rparr>)"

definition spinlock_acquire :: "nat \<Rightarrow> granule_state \<Rightarrow> rmm \<Rightarrow> rmm option" where
  "spinlock_acquire g st s = do {
     assert_c (g < RMM_MAX_GRANULES \<and> \<not> glock s g);
     Some (lock_g g st s)
   }"

definition spinlock_release :: "nat \<Rightarrow> rmm \<Rightarrow> rmm" where
  "spinlock_release g s = emit (EvUnlock g) (s\<lparr>glock := (glock s)(g := False)\<rparr>)"

definition granule_set_state :: "nat \<Rightarrow> granule_state \<Rightarrow> rmm \<Rightarrow> rmm" where
  "granule_set_state g st s =
     s\<lparr>granules := (granules s)(g := (granules s g)\<lparr>g_state := st\<rparr>)\<rparr>"

definition granule_lock_on_state_match ::
  "nat \<Rightarrow> granule_state \<Rightarrow> rmm \<Rightarrow> (bool \<times> rmm) option" where
  "granule_lock_on_state_match g expected s = do {
     s \<leftarrow> spinlock_acquire g expected s;
     if g_state (granules s g) \<noteq> expected then Some (False, spinlock_release g s)
     else do {
       assert_c (granule_assert_unlocked_invariants expected (g_refcount (granules s g)));
       Some (True, s)
     }
   }"

definition granule_lock :: "nat \<Rightarrow> granule_state \<Rightarrow> rmm \<Rightarrow> rmm option" where
  "granule_lock g expected s = do {
     (locked, s) \<leftarrow> granule_lock_on_state_match g expected s;
     assert_c locked;
     Some s
   }"

definition granule_unlock :: "nat \<Rightarrow> rmm \<Rightarrow> rmm option" where
  "granule_unlock g s = do {
     assert_c (granule_assert_unlocked_invariants (g_state (granules s g))
                 (g_refcount (granules s g)));
     Some (spinlock_release g s)
   }"

definition granule_unlock_transition :: "nat \<Rightarrow> granule_state \<Rightarrow> rmm \<Rightarrow> rmm option" where
  "granule_unlock_transition g new_state s = granule_unlock g (granule_set_state g new_state s)"

definition find_lock_granule ::
  "u64 \<Rightarrow> granule_state \<Rightarrow> rmm \<Rightarrow> (nat option \<times> rmm) option" where
  "find_lock_granule addr expected s =
     (case find_granule addr of
        None \<Rightarrow> Some (None, s)
      | Some g \<Rightarrow> do {
          (locked, s) \<leftarrow> granule_lock_on_state_match g expected s;
          if locked then Some (Some g, s) else Some (None, s)
        })"

section \<open>Reference counts\<close>

definition set_refcount :: "nat \<Rightarrow> u64 \<Rightarrow> rmm \<Rightarrow> rmm" where
  "set_refcount g v s =
     s\<lparr>granules := (granules s)(g := (granules s g)\<lparr>g_refcount := v\<rparr>)\<rparr>"

definition granule_get :: "nat \<Rightarrow> rmm \<Rightarrow> rmm" where
  "granule_get g s = set_refcount g (g_refcount (granules s g) + 1) s"

definition granule_put :: "nat \<Rightarrow> rmm \<Rightarrow> rmm option" where
  "granule_put g s = do {
     assert_c (0 < g_refcount (granules s g));
     Some (set_refcount g (g_refcount (granules s g) - 1) s)
   }"

definition granule_refcount_inc :: "nat \<Rightarrow> u64 \<Rightarrow> rmm \<Rightarrow> rmm" where
  "granule_refcount_inc g v s = set_refcount g (g_refcount (granules s g) + v) s"

definition granule_refcount_dec :: "nat \<Rightarrow> u64 \<Rightarrow> rmm \<Rightarrow> rmm option" where
  "granule_refcount_dec g v s = do {
     assert_c (v \<le> g_refcount (granules s g));
     Some (set_refcount g (g_refcount (granules s g) - v) s)
   }"

definition atomic_granule_get :: "nat \<Rightarrow> rmm \<Rightarrow> rmm" where
  "atomic_granule_get g s = set_refcount g (g_refcount (granules s g) + 1) s"

definition atomic_granule_put :: "nat \<Rightarrow> rmm \<Rightarrow> rmm" where
  "atomic_granule_put g s = set_refcount g (g_refcount (granules s g) + (- 1)) s"

definition atomic_granule_put_release :: "nat \<Rightarrow> rmm \<Rightarrow> rmm option" where
  "atomic_granule_put_release g s = do {
     let old_refcount = g_refcount (granules s g);
     let s = set_refcount g (old_refcount + (- 1)) s;
     assert_c (0 < old_refcount);
     Some s
   }"

text \<open>
  The C function returns a granule pointer or a status cast to a pointer; the sum type
  keeps the two apart (\<^verbatim>\<open>Inl\<close> is the pointer for which \<^verbatim>\<open>ptr_is_err\<close> holds).
\<close>

definition find_lock_unused_granule ::
  "u64 \<Rightarrow> granule_state \<Rightarrow> rmm \<Rightarrow> ((u64 + nat) \<times> rmm) option" where
  "find_lock_unused_granule addr expected s = do {
     (r, s) \<leftarrow> find_lock_granule addr expected s;
     (case r of
        None \<Rightarrow> Some (Inl RMI_ERROR_INPUT, s)
      | Some g \<Rightarrow>
          if g_refcount (granules s g) \<noteq> 0 then do {
            s \<leftarrow> granule_unlock g s;
            Some (Inl RMI_ERROR_IN_USE, s)
          } else Some (Inr g, s))
   }"

definition granule_memzero_mapped :: "nat \<Rightarrow> rmm \<Rightarrow> rmm" where
  "granule_memzero_mapped g s =
     emit (EvScrub g) (s\<lparr>content := (content s)(g := CZero)\<rparr>)"

definition set_content :: "nat \<Rightarrow> content \<Rightarrow> rmm \<Rightarrow> rmm" where
  "set_content g c s = s\<lparr>content := (content s)(g := c)\<rparr>"

section \<open>What each step does to each part of the state\<close>

lemma lock_g_simps [simp]:
  "granules (lock_g g st s) = granules s" "glock (lock_g g st s) = (glock s)(g := True)"
  "content (lock_g g st s) = content s" "slots (lock_g g st s) = slots s"
  "vmids (lock_g g st s) = vmids s" "trace (lock_g g st s) = trace s @ [EvLock g st]"
  by (simp_all add: lock_g_def)

lemma spinlock_release_simps [simp]:
  "granules (spinlock_release g s) = granules s"
  "glock (spinlock_release g s) = (glock s)(g := False)"
  "content (spinlock_release g s) = content s" "slots (spinlock_release g s) = slots s"
  "vmids (spinlock_release g s) = vmids s"
  "trace (spinlock_release g s) = trace s @ [EvUnlock g]"
  by (simp_all add: spinlock_release_def)

lemma granule_set_state_simps [simp]:
  "granules (granule_set_state g st s) = (granules s)(g := (granules s g)\<lparr>g_state := st\<rparr>)"
  "glock (granule_set_state g st s) = glock s"
  "content (granule_set_state g st s) = content s" "slots (granule_set_state g st s) = slots s"
  "vmids (granule_set_state g st s) = vmids s" "trace (granule_set_state g st s) = trace s"
  by (simp_all add: granule_set_state_def)

lemma set_refcount_simps [simp]:
  "granules (set_refcount g v s) = (granules s)(g := (granules s g)\<lparr>g_refcount := v\<rparr>)"
  "glock (set_refcount g v s) = glock s"
  "content (set_refcount g v s) = content s" "slots (set_refcount g v s) = slots s"
  "vmids (set_refcount g v s) = vmids s" "trace (set_refcount g v s) = trace s"
  by (simp_all add: set_refcount_def)

lemma granule_memzero_mapped_simps [simp]:
  "granules (granule_memzero_mapped g s) = granules s"
  "glock (granule_memzero_mapped g s) = glock s"
  "content (granule_memzero_mapped g s) = (content s)(g := CZero)"
  "slots (granule_memzero_mapped g s) = slots s"
  "vmids (granule_memzero_mapped g s) = vmids s"
  "trace (granule_memzero_mapped g s) = trace s @ [EvScrub g]"
  by (simp_all add: granule_memzero_mapped_def)

lemma set_content_simps [simp]:
  "granules (set_content g c s) = granules s" "glock (set_content g c s) = glock s"
  "content (set_content g c s) = (content s)(g := c)" "slots (set_content g c s) = slots s"
  "vmids (set_content g c s) = vmids s" "trace (set_content g c s) = trace s"
  by (simp_all add: set_content_def)

section \<open>The steps on granules that are in order\<close>

text \<open>The invariant of an unlocked granule, as the code's debug check states it.\<close>

definition unlocked_ok :: "rmm \<Rightarrow> nat \<Rightarrow> bool" where
  "unlocked_ok s g = granule_assert_unlocked_invariants (g_state (granules s g))
                       (g_refcount (granules s g))"

lemma lock_on_match_eq:
  assumes "g < RMM_MAX_GRANULES" and "\<not> glock s g" and "unlocked_ok s g"
  shows "granule_lock_on_state_match g st s =
    (if g_state (granules s g) = st then Some (True, lock_g g st s)
     else Some (False, spinlock_release g (lock_g g st s)))"
  using assms
  by (auto simp: granule_lock_on_state_match_def spinlock_acquire_def unlocked_ok_def)

lemma granule_lock_eq [exec_simps]:
  assumes "g < RMM_MAX_GRANULES" and "\<not> glock s g" and "unlocked_ok s g"
    and "g_state (granules s g) = st"
  shows "granule_lock g st s = Some (lock_g g st s)"
  using assms by (simp add: granule_lock_def lock_on_match_eq)

lemma granule_unlock_eq [exec_simps]:
  "unlocked_ok s g \<Longrightarrow> granule_unlock g s = Some (spinlock_release g s)"
  by (simp add: granule_unlock_def unlocked_ok_def)

lemma find_lock_granule_eq:
  assumes "\<And>g. find_granule addr = Some g \<Longrightarrow> \<not> glock s g \<and> unlocked_ok s g"
  shows "find_lock_granule addr st s =
    (case find_granule addr of
       None \<Rightarrow> Some (None, s)
     | Some g \<Rightarrow> if g_state (granules s g) = st then Some (Some g, lock_g g st s)
                 else Some (None, spinlock_release g (lock_g g st s)))"
  using assms
  by (auto simp: find_lock_granule_def lock_on_match_eq find_granule_bound split: option.splits)

lemma same_state_lock_unlock:
  "\<not> glock s g \<Longrightarrow> same_state s (spinlock_release g (lock_g g st s))"
  by (simp add: same_state_def)

lemma granule_lock_on_state_match_SomeD:
  assumes "granule_lock_on_state_match g st s = Some (True, t)"
  shows "g < RMM_MAX_GRANULES" "\<not> glock s g" "g_state (granules s g) = st"
    "unlocked_ok s g" "t = lock_g g st s"
  using assms
  by (auto simp: granule_lock_on_state_match_def spinlock_acquire_def bind_assert_c unlocked_ok_def
      split: if_splits)

lemma find_lock_granule_SomeD:
  assumes "find_lock_granule addr st s = Some (Some g, t)"
  shows "find_granule addr = Some g" "\<not> glock s g" "g_state (granules s g) = st"
    "unlocked_ok s g" "t = lock_g g st s"
  using assms granule_lock_on_state_match_SomeD [of g st s t]
  by (auto simp: find_lock_granule_def Option.bind_eq_Some_conv split: option.splits if_splits)

lemma find_lock_granule_NoneD:
  assumes "find_lock_granule addr st s = Some (None, t)"
  shows "same_state s t"
  using assms
  by (auto simp: find_lock_granule_def granule_lock_on_state_match_def spinlock_acquire_def
      same_state_def bind_assert_c Option.bind_eq_Some_conv split: option.splits if_splits)

end
