(* ===== verification/Granule_Set.thy ===== *)
theory Granule_Set
  imports Granules
begin

text \<open>
  Locking several granules in the order of their addresses: \<^verbatim>\<open>struct granule_set\<close>,
  \<^verbatim>\<open>sort_granules\<close>, \<^verbatim>\<open>find_lock_granules\<close> and \<^verbatim>\<open>find_lock_two_granules\<close> of
  lib/realm/src/granule.c.  The array is a list of the same length; the inner loop of the
  sort moves elements by index as the C code does.
\<close>

record granule_set =
  gs_idx :: nat
  gs_addr :: u64
  gs_state :: granule_state
  gs_g :: "nat option"
  gs_g_ret :: nat   \<comment> \<open>which output pointer of the caller receives the granule\<close>

section \<open>Sorting\<close>

text \<open>The \<^verbatim>\<open>while\<close> loop: shift larger elements up, return the array and the hole.\<close>

fun shift_up :: "granule_set list \<Rightarrow> granule_set \<Rightarrow> nat \<Rightarrow> granule_set list \<times> nat" where
  "shift_up a temp 0 = (a, 0)"
| "shift_up a temp (Suc j) =
     (if gs_addr temp < gs_addr (a ! j) then shift_up (a[Suc j := a ! j]) temp j
      else (a, Suc j))"

definition sort_step :: "nat \<Rightarrow> granule_set list \<Rightarrow> granule_set list" where
  "sort_step i a =
     (let temp = a ! i; (a', j) = shift_up a temp i
      in if i \<noteq> j then a'[j := temp] else a')"

definition sort_granules :: "granule_set list \<Rightarrow> granule_set list" where
  "sort_granules a = fold sort_step [1..<length a] a"

section \<open>Finding and locking\<close>

text \<open>
  The second loop of \<^verbatim>\<open>find_lock_granules\<close>, from index \<open>i\<close> on: it stops at the first
  duplicate address or failing look-up and reports where.
\<close>

function lock_loop ::
  "granule_set list \<Rightarrow> nat \<Rightarrow> rmm \<Rightarrow> (bool \<times> granule_set list \<times> nat \<times> rmm) option" where
  "lock_loop a i s =
     (if i < length a then
        if 0 < i \<and> gs_addr (a ! i) = gs_addr (a ! (i - 1)) then Some (False, a, i, s)
        else do {
          (r, s) \<leftarrow> find_lock_granule (gs_addr (a ! i)) (gs_state (a ! i)) s;
          let a = a[i := (a ! i)\<lparr>gs_g := r\<rparr>];
          if r = None then Some (False, a, i, s) else lock_loop a (Suc i) s
        }
      else Some (True, a, i, s))"
  by pat_completeness auto
termination
  by (relation "measure (\<lambda>(a, i, s). length a - i)") auto

declare lock_loop.simps [simp del]

text \<open>The error exit: unlock what was locked, from the last to the first.\<close>

fun unlock_down :: "granule_set list \<Rightarrow> nat \<Rightarrow> rmm \<Rightarrow> rmm option" where
  "unlock_down a 0 s = Some s"
| "unlock_down a (Suc i) s = do {
     g \<leftarrow> gs_g (a ! i);
     s \<leftarrow> granule_unlock g s;
     unlock_down a i s
   }"

definition find_lock_granules ::
  "granule_set list \<Rightarrow> rmm \<Rightarrow> (granule_set list option \<times> rmm) option" where
  "find_lock_granules a s = do {
     let a = map (\<lambda>i. (a ! i)\<lparr>gs_idx := i\<rparr>) [0..<length a];
     let a = sort_granules a;
     (ok, a, i, s) \<leftarrow> lock_loop a 0 s;
     if ok then Some (Some a, s)
     else do {
       s \<leftarrow> unlock_down a i s;
       Some (None, s)
     }
   }"

text \<open>The pointer that output \<open>k\<close> of the caller receives.\<close>

definition g_ret_of :: "granule_set list \<Rightarrow> nat \<Rightarrow> nat option" where
  "g_ret_of a k = Option.bind (find (\<lambda>e. gs_g_ret e = k) a) gs_g"

definition find_lock_two_granules ::
  "u64 \<Rightarrow> granule_state \<Rightarrow> u64 \<Rightarrow> granule_state \<Rightarrow> rmm \<Rightarrow> ((nat \<times> nat) option \<times> rmm) option"
where
  "find_lock_two_granules addr1 state1 addr2 state2 s = do {
     (r, s) \<leftarrow> find_lock_granules
       [\<lparr>gs_idx = 0, gs_addr = addr1, gs_state = state1, gs_g = None, gs_g_ret = 0\<rparr>,
        \<lparr>gs_idx = 1, gs_addr = addr2, gs_state = state2, gs_g = None, gs_g_ret = 1\<rparr>] s;
     (case r of
        None \<Rightarrow> Some (None, s)
      | Some a \<Rightarrow> do {
          g1 \<leftarrow> g_ret_of a 0;
          g2 \<leftarrow> g_ret_of a 1;
          Some (Some (g1, g2), s)
        })
   }"

section \<open>The sort is a sort\<close>

lemma shift_up_spec:
  assumes "shift_up a temp j = (a', k)" and "j < length a"
  shows "k \<le> j" and "length a' = length a"
    and "take k a' = take k a" and "drop (Suc j) a' = drop (Suc j) a"
    and "\<forall>m. k < m \<and> m \<le> j \<longrightarrow> a' ! m = a ! (m - 1) \<and> gs_addr temp < gs_addr (a ! (m - 1))"
    and "0 < k \<longrightarrow> gs_addr (a ! (k - 1)) \<le> gs_addr temp"
proof -
  have "k \<le> j \<and> length a' = length a \<and> take k a' = take k a
    \<and> drop (Suc j) a' = drop (Suc j) a
    \<and> (\<forall>m. k < m \<and> m \<le> j \<longrightarrow> a' ! m = a ! (m - 1) \<and> gs_addr temp < gs_addr (a ! (m - 1)))
    \<and> (0 < k \<longrightarrow> gs_addr (a ! (k - 1)) \<le> gs_addr temp)"
    using assms
  proof (induction j arbitrary: a)
    case 0
    then show ?case by auto
  next
    case (Suc j)
    show ?case
    proof (cases "gs_addr temp < gs_addr (a ! j)")
      case False
      with Suc.prems show ?thesis by (auto simp: not_less)
    next
      case True
      let ?b = "a[Suc j := a ! j]"
      from Suc.prems True have "shift_up ?b temp j = (a', k)" and "j < length ?b" by auto
      note IH = Suc.IH [OF this]
      from IH have kj: "k \<le> j" and len: "length a' = length a" by auto
      have tk: "take k a' = take k a" using IH kj by (simp add: take_update_cancel)
      have dj: "drop (Suc j) a' = drop (Suc j) ?b" using IH by simp
      have "drop (Suc (Suc j)) a' = drop (Suc (Suc j)) a"
      proof -
        have "drop 1 (drop (Suc j) a') = drop 1 (drop (Suc j) ?b)" using dj by simp
        then show ?thesis by (simp add: drop_update_cancel)
      qed
      moreover have "a' ! Suc j = a ! j"
      proof -
        have "a' ! Suc j = drop (Suc j) a' ! 0" using Suc.prems len by simp
        also have "\<dots> = ?b ! Suc j" unfolding dj using Suc.prems by simp
        finally show ?thesis using Suc.prems by simp
      qed
      moreover have "a' ! m = a ! (m - 1) \<and> gs_addr temp < gs_addr (a ! (m - 1))"
        if "k < m" "m \<le> j" for m
      proof -
        from that IH have "a' ! m = ?b ! (m - 1)" "gs_addr temp < gs_addr (?b ! (m - 1))"
          by auto
        with that show ?thesis by simp
      qed
      moreover have "0 < k \<longrightarrow> gs_addr (a ! (k - 1)) \<le> gs_addr temp"
        using IH kj by auto
      ultimately show ?thesis using kj len tk True
        by (auto simp: le_Suc_eq)
    qed
  qed
  then show "k \<le> j" and "length a' = length a"
    and "take k a' = take k a" and "drop (Suc j) a' = drop (Suc j) a"
    and "\<forall>m. k < m \<and> m \<le> j \<longrightarrow> a' ! m = a ! (m - 1) \<and> gs_addr temp < gs_addr (a ! (m - 1))"
    and "0 < k \<longrightarrow> gs_addr (a ! (k - 1)) \<le> gs_addr temp"
    by blast+
qed

lemma shift_up_id: "shift_up a temp j = (a', j) \<Longrightarrow> j < length a \<Longrightarrow> a' = a"
proof (cases j)
  case (Suc j')
  assume "shift_up a temp j = (a', j)" and "j < length a"
  then show ?thesis using Suc shift_up_spec(1) [of "a[Suc j' := a ! j']" temp j' a' j]
    by (auto split: if_splits)
qed auto

lemma split_at:
  assumes "k \<le> i" and "i < length a"
  shows "take i a = take k a @ take (i - k) (drop k a)"
    and "a = take k a @ take (i - k) (drop k a) @ [a ! i] @ drop (Suc i) a"
proof -
  show *: "take i a = take k a @ take (i - k) (drop k a)"
    using assms by (metis le_add_diff_inverse take_add)
  show "a = take k a @ take (i - k) (drop k a) @ [a ! i] @ drop (Suc i) a"
    using assms id_take_nth_drop [of i a] * by simp
qed

lemma sort_step_split:
  assumes "i < length a"
  obtains k where "k \<le> i"
    and "sort_step i a = take k a @ [a ! i] @ take (i - k) (drop k a) @ drop (Suc i) a"
    and "\<forall>m. k \<le> m \<and> m < i \<longrightarrow> gs_addr (a ! i) < gs_addr (a ! m)"
    and "0 < k \<longrightarrow> gs_addr (a ! (k - 1)) \<le> gs_addr (a ! i)"
proof -
  obtain a' k where sh: "shift_up a (a ! i) i = (a', k)" by (metis surj_pair)
  note sp = shift_up_spec [OF sh assms]
  let ?b = "sort_step i a"
  have b: "?b = (if i \<noteq> k then a'[k := a ! i] else a')"
    by (simp add: sort_step_def sh Let_def)
  have len: "length ?b = length a" using sp(2) b by simp
  have low: "?b ! m = a ! m" if "m < k" for m
    using that sp(1,2,3) assms b by (metis nth_list_update_neq nth_take less_irrefl_nat)
  have at: "?b ! k = a ! i"
    using sp(1,2) assms b sh shift_up_id [of a "a ! i" i a'] by auto
  have mid: "?b ! m = a ! (m - 1)" if "k < m" "m \<le> i" for m
    using that sp(5) b by auto
  have high: "?b ! m = a ! m" if "i < m" "m < length a" for m
  proof -
    have "?b ! m = a' ! m" using that sp(1) b by auto
    also have "\<dots> = drop (Suc i) a' ! (m - Suc i)" using that sp(2) by simp
    also have "\<dots> = a ! m" using that sp(4) by simp
    finally show ?thesis .
  qed
  let ?r = "take k a @ [a ! i] @ take (i - k) (drop k a) @ drop (Suc i) a"
  have "?b = ?r"
  proof (rule nth_equalityI)
    show "length ?b = length ?r" using len sp(1) assms by simp
    fix m assume "m < length ?b"
    then have m: "m < length a" using len by simp
    consider "m < k" | "m = k" | "k < m" "m \<le> i" | "i < m" by linarith
    then show "?b ! m = ?r ! m"
    proof cases
      case 1
      then show ?thesis using low sp(1) assms by (simp add: nth_append)
    next
      case 2
      then show ?thesis using at sp(1) assms by (simp add: nth_append)
    next
      case 3
      then show ?thesis using mid sp(1) assms by (simp add: nth_append nth_Cons')
    next
      case 4
      then show ?thesis using high m sp(1) assms by (simp add: nth_append nth_Cons')
    qed
  qed
  moreover have "\<forall>m. k \<le> m \<and> m < i \<longrightarrow> gs_addr (a ! i) < gs_addr (a ! m)"
    using sp(5) by (metis Suc_leI diff_Suc_1 le_imp_less_Suc)
  ultimately show ?thesis using that sp(1,6) by blast
qed

lemma length_sort_step [simp]: "i < length a \<Longrightarrow> length (sort_step i a) = length a"
  by (rule sort_step_split, assumption) auto

lemma mset_sort_step: "i < length a \<Longrightarrow> mset (sort_step i a) = mset a"
proof (rule sort_step_split, assumption)
  fix k assume i: "i < length a" and k: "k \<le> i"
    and b: "sort_step i a = take k a @ [a ! i] @ take (i - k) (drop k a) @ drop (Suc i) a"
  have "mset a = mset (take k a @ take (i - k) (drop k a) @ [a ! i] @ drop (Suc i) a)"
    using split_at(2) [OF k i] by simp
  then show "mset (sort_step i a) = mset a" unfolding b by simp
qed

lemma drop_sort_step: "i < length a \<Longrightarrow> drop (Suc i) (sort_step i a) = drop (Suc i) a"
  by (rule sort_step_split, assumption) (auto simp: Suc_diff_le)

lemma sorted_sort_step:
  assumes "i < length a" and "sorted (map gs_addr (take i a))"
  shows "sorted (map gs_addr (take (Suc i) (sort_step i a)))"
proof -
  obtain k where k: "k \<le> i"
    and b: "sort_step i a = take k a @ [a ! i] @ take (i - k) (drop k a) @ drop (Suc i) a"
    and hi: "\<forall>m. k \<le> m \<and> m < i \<longrightarrow> gs_addr (a ! i) < gs_addr (a ! m)"
    and lo: "0 < k \<longrightarrow> gs_addr (a ! (k - 1)) \<le> gs_addr (a ! i)"
    using sort_step_split [OF assms(1)] by blast
  have tk: "take (Suc i) (sort_step i a) = take k a @ [a ! i] @ take (i - k) (drop k a)"
    unfolding b using k assms(1) by (simp add: Suc_diff_le)
  have "sorted (map gs_addr (take k a @ take (i - k) (drop k a)))"
    using assms(2) unfolding split_at(1) [OF k assms(1)] .
  moreover have "gs_addr x \<le> gs_addr (a ! i)" if x: "x \<in> set (take k a)" for x
  proof -
    from x obtain m where m: "m < k" "x = a ! m" by (auto simp: in_set_conv_nth)
    have "map gs_addr (take i a) ! m \<le> map gs_addr (take i a) ! (k - 1)"
      using assms m k by (intro sorted_nth_mono) auto
    with m k assms(1) have "gs_addr x \<le> gs_addr (a ! (k - 1))" by simp
    also have "\<dots> \<le> gs_addr (a ! i)" using lo m by simp
    finally show ?thesis .
  qed
  moreover have "gs_addr (a ! i) \<le> gs_addr x" if x: "x \<in> set (take (i - k) (drop k a))" for x
  proof -
    from x obtain m where "m < i - k" "x = a ! (k + m)"
      using assms(1) by (auto simp: in_set_conv_nth)
    with hi show ?thesis by (simp add: less_imp_le)
  qed
  ultimately show ?thesis unfolding tk
    by (auto simp: sorted_append)
qed

lemma sort_prefix:
  assumes "i \<le> length a" and "0 < i"
  shows "sorted (map gs_addr (take i (fold sort_step [1..<i] a)))
    \<and> length (fold sort_step [1..<i] a) = length a
    \<and> mset (fold sort_step [1..<i] a) = mset a"
  using assms
proof (induction i)
  case 0
  then show ?case by simp
next
  case (Suc i)
  show ?case
  proof (cases "i = 0")
    case True
    with Suc.prems show ?thesis by (cases a) auto
  next
    case False
    with Suc have "sorted (map gs_addr (take i (fold sort_step [1..<i] a)))"
      and "length (fold sort_step [1..<i] a) = length a"
      and "mset (fold sort_step [1..<i] a) = mset a" by auto
    with Suc.prems False show ?thesis
      by (simp add: sorted_sort_step mset_sort_step)
  qed
qed

lemma sort_granules_correct:
  "sorted (map gs_addr (sort_granules a)) \<and> mset (sort_granules a) = mset a"
proof (cases "a = []")
  case True
  then show ?thesis by (simp add: sort_granules_def)
next
  case False
  then have "0 < length a" by simp
  from sort_prefix [OF le_refl this] show ?thesis
    by (auto simp: sort_granules_def)
qed

section \<open>Two granules\<close>

text \<open>
  The call with two entries, written out: the granule with the lower address is locked
  first, two equal addresses are refused, and a failure leaves no lock behind.
\<close>

definition lock_in_order ::
  "u64 \<Rightarrow> granule_state \<Rightarrow> u64 \<Rightarrow> granule_state \<Rightarrow> rmm \<Rightarrow> ((nat \<times> nat) option \<times> rmm) option"
where
  "lock_in_order lo st_lo hi st_hi s = do {
     (r, s) \<leftarrow> find_lock_granule lo st_lo s;
     (case r of
        None \<Rightarrow> Some (None, s)
      | Some g \<Rightarrow>
          if hi = lo then do { s \<leftarrow> granule_unlock g s; Some (None, s) }
          else do {
            (r', s) \<leftarrow> find_lock_granule hi st_hi s;
            (case r' of
               None \<Rightarrow> do { s \<leftarrow> granule_unlock g s; Some (None, s) }
             | Some g' \<Rightarrow> Some (Some (g, g'), s))
          })
   }"

lemma find_lock_two_granules_ordered:
  "find_lock_two_granules a1 st1 a2 st2 s =
     (if a2 < a1
      then map_option (map_prod (map_option prod.swap) id) (lock_in_order a2 st2 a1 st1 s)
      else lock_in_order a1 st1 a2 st2 s)"
  by (auto simp: find_lock_two_granules_def find_lock_granules_def sort_granules_def
      sort_step_def Let_def lock_loop.simps upt_rec lock_in_order_def g_ret_of_def
      eval_nat_numeral Option.bind_eq_Some_conv
      split: option.split Option.bind_split)


text \<open>The state in which the two granules are locked, the lower address first.\<close>

definition two_locked ::
  "u64 \<Rightarrow> granule_state \<Rightarrow> nat \<Rightarrow> u64 \<Rightarrow> granule_state \<Rightarrow> nat \<Rightarrow> rmm \<Rightarrow> rmm" where
  "two_locked a1 st1 g1 a2 st2 g2 s =
     (if a2 < a1 then lock_g g1 st1 (lock_g g2 st2 s) else lock_g g2 st2 (lock_g g1 st1 s))"

lemma two_locked_simps [simp]:
  "granules (two_locked a1 st1 g1 a2 st2 g2 s) = granules s"
  "glock (two_locked a1 st1 g1 a2 st2 g2 s) = (glock s)(g1 := True, g2 := True)"
  "content (two_locked a1 st1 g1 a2 st2 g2 s) = content s"
  "slots (two_locked a1 st1 g1 a2 st2 g2 s) = slots s"
  "vmids (two_locked a1 st1 g1 a2 st2 g2 s) = vmids s"
  by (auto simp: two_locked_def fun_eq_iff)

definition pair_available :: "u64 \<Rightarrow> granule_state \<Rightarrow> u64 \<Rightarrow> granule_state \<Rightarrow> rmm \<Rightarrow> bool" where
  "pair_available a1 st1 a2 st2 s \<longleftrightarrow> a1 \<noteq> a2
     \<and> (\<exists>g1. find_granule a1 = Some g1 \<and> g_state (granules s g1) = st1)
     \<and> (\<exists>g2. find_granule a2 = Some g2 \<and> g_state (granules s g2) = st2)"

lemma lock_in_order_cases:
  assumes "\<And>g. g < RMM_MAX_GRANULES \<Longrightarrow> \<not> glock s g \<and> unlocked_ok s g"
  shows "\<exists>r t. lock_in_order lo st_lo hi st_hi s = Some (r, t) \<and>
    (case r of
       None \<Rightarrow> \<not> pair_available lo st_lo hi st_hi s \<and> same_state s t
     | Some (g, g') \<Rightarrow> pair_available lo st_lo hi st_hi s \<and> find_granule lo = Some g
         \<and> find_granule hi = Some g' \<and> t = lock_g g' st_hi (lock_g g st_lo s))"
proof (cases "find_granule lo")
  case None
  then show ?thesis
    by (auto simp: lock_in_order_def find_lock_granule_def pair_available_def)
next
  case (Some g)
  then have g: "g < RMM_MAX_GRANULES" by (rule find_granule_bound)
  show ?thesis
  proof (cases "g_state (granules s g) = st_lo \<and> hi \<noteq> lo")
    case False
    then show ?thesis using Some assms [OF g]
      by (auto simp: lock_in_order_def find_lock_granule_def lock_on_match_eq g
          pair_available_def granule_unlock_def unlocked_ok_def same_state_def)
  next
    case True
    show ?thesis
    proof (cases "find_granule hi")
      case None
      with True Some assms [OF g] show ?thesis
        by (auto simp: lock_in_order_def find_lock_granule_def lock_on_match_eq g
            pair_available_def granule_unlock_def unlocked_ok_def same_state_def)
    next
      case (Some g')
      then have g': "g' < RMM_MAX_GRANULES" by (rule find_granule_bound)
      have "g' \<noteq> g" using True Some \<open>find_granule lo = Some g\<close> find_granule_inject by blast
      with True Some \<open>find_granule lo = Some g\<close> assms [OF g] assms [OF g'] show ?thesis
        by (auto simp: lock_in_order_def find_lock_granule_def lock_on_match_eq g g'
            pair_available_def granule_unlock_def unlocked_ok_def same_state_def)
    qed
  qed
qed

lemma pair_available_commute:
  "pair_available a1 st1 a2 st2 s = pair_available a2 st2 a1 st1 s"
  by (auto simp: pair_available_def)

lemma find_lock_two_granules_cases:
  assumes "\<And>g. g < RMM_MAX_GRANULES \<Longrightarrow> \<not> glock s g \<and> unlocked_ok s g"
  obtains (none) t where "find_lock_two_granules a1 st1 a2 st2 s = Some (None, t)"
      and "\<not> pair_available a1 st1 a2 st2 s" and "same_state s t"
    | (both) g1 g2 where
        "find_lock_two_granules a1 st1 a2 st2 s
           = Some (Some (g1, g2), two_locked a1 st1 g1 a2 st2 g2 s)"
      and "pair_available a1 st1 a2 st2 s"
      and "find_granule a1 = Some g1" and "find_granule a2 = Some g2" and "g1 \<noteq> g2"
      and "g_state (granules s g1) = st1" and "g_state (granules s g2) = st2"
proof (cases "a2 < a1")
  case True
  from lock_in_order_cases [OF assms, of a2 st2 a1 st1] obtain r t where
    "lock_in_order a2 st2 a1 st1 s = Some (r, t)" and
    c: "case r of None \<Rightarrow> \<not> pair_available a2 st2 a1 st1 s \<and> same_state s t
     | Some (g, g') \<Rightarrow> pair_available a2 st2 a1 st1 s \<and> find_granule a2 = Some g
         \<and> find_granule a1 = Some g' \<and> t = lock_g g' st1 (lock_g g st2 s)" by blast
  then have e: "find_lock_two_granules a1 st1 a2 st2 s = Some (map_option prod.swap r, t)"
    using True by (simp add: find_lock_two_granules_ordered)
  show ?thesis
  proof (cases r)
    case None
    with c e show ?thesis using none pair_available_commute by auto
  next
    case (Some p)
    then obtain g g' where r: "r = Some (g, g')" by (cases p) auto
    with c have "g' \<noteq> g"
      using find_granule_inject [of a1 g a2] by (auto simp: pair_available_def)
    with r c e True show ?thesis
      using both [of g' g] by (auto simp: two_locked_def pair_available_def)
  qed
next
  case False
  from lock_in_order_cases [OF assms, of a1 st1 a2 st2] obtain r t where
    "lock_in_order a1 st1 a2 st2 s = Some (r, t)" and
    c: "case r of None \<Rightarrow> \<not> pair_available a1 st1 a2 st2 s \<and> same_state s t
     | Some (g, g') \<Rightarrow> pair_available a1 st1 a2 st2 s \<and> find_granule a1 = Some g
         \<and> find_granule a2 = Some g' \<and> t = lock_g g' st2 (lock_g g st1 s)" by blast
  then have e: "find_lock_two_granules a1 st1 a2 st2 s = Some (r, t)"
    using False by (simp add: find_lock_two_granules_ordered)
  show ?thesis
  proof (cases r)
    case None
    with c e show ?thesis using none by auto
  next
    case (Some p)
    then obtain g g' where r: "r = Some (g, g')" by (cases p) auto
    with c have "g \<noteq> g'"
      using find_granule_inject [of a1 g a2] by (auto simp: pair_available_def)
    with r c e False show ?thesis
      using both [of g g'] by (auto simp: two_locked_def pair_available_def)
  qed
qed

end
