(* ===== verification/Slot_Buffer.thy ===== *)
theory Slot_Buffer
  imports Granule_Set
begin

text \<open>
  The slot buffers of lib/realm/src/buffer.c: a fixed set of virtual pages per CPU into
  which granules are mapped one at a time.  \<open>slots s k\<close> is the granule that slot \<open>k\<close>
  maps.  Mapping into a slot whose descriptor is not invalid makes
  \<^verbatim>\<open>xlat_map_memory_page_with_attrs\<close> fail, \<^verbatim>\<open>granule_map\<close> return a null pointer and the
  caller fault on it, hence \<^verbatim>\<open>None\<close>.
\<close>

definition MAX_REC_AUX_GRANULES :: nat where [word_consts]: "MAX_REC_AUX_GRANULES = 16"

definition SLOT_NS :: nat where [word_consts]: "SLOT_NS = 0"
definition SLOT_DELEGATED :: nat where [word_consts]: "SLOT_DELEGATED = 1"
definition SLOT_RD :: nat where [word_consts]: "SLOT_RD = 2"
definition SLOT_REC :: nat where [word_consts]: "SLOT_REC = 3"
definition SLOT_REC2 :: nat where [word_consts]: "SLOT_REC2 = 4"
definition SLOT_REC_TARGET :: nat where [word_consts]: "SLOT_REC_TARGET = 5"
definition SLOT_REC_AUX0 :: nat where [word_consts]: "SLOT_REC_AUX0 = 6"
definition SLOT_RTT :: nat where [word_consts]: "SLOT_RTT = 22"
definition SLOT_RTT2 :: nat where [word_consts]: "SLOT_RTT2 = 23"
definition SLOT_RSI_CALL :: nat where [word_consts]: "SLOT_RSI_CALL = 24"
definition NR_CPU_SLOTS :: nat where [word_consts]: "NR_CPU_SLOTS = 25"

definition is_ns_slot :: "nat \<Rightarrow> bool" where
  "is_ns_slot k = (k = SLOT_NS)"

definition is_realm_slot :: "nat \<Rightarrow> bool" where
  "is_realm_slot k = (k \<noteq> SLOT_NS \<and> k < NR_CPU_SLOTS)"

definition map_slot :: "nat \<Rightarrow> nat \<Rightarrow> rmm \<Rightarrow> rmm" where
  "map_slot k g s = s\<lparr>slots := (slots s)(k := Some g)\<rparr>"

definition buffer_map_internal :: "nat \<Rightarrow> nat \<Rightarrow> u64 \<Rightarrow> rmm \<Rightarrow> rmm option" where
  "buffer_map_internal k g addr s = do {
     assert_c (k < NR_CPU_SLOTS);
     assert_c (GRANULE_ALIGNED addr);
     assert_c (slots s k = None);
     Some (map_slot k g s)
   }"

definition buffer_unmap :: "nat \<Rightarrow> rmm \<Rightarrow> rmm" where
  "buffer_unmap k s = s\<lparr>slots := (slots s)(k := None)\<rparr>"

definition granule_map :: "nat \<Rightarrow> nat \<Rightarrow> rmm \<Rightarrow> rmm option" where
  "granule_map g k s = do {
     addr \<leftarrow> granule_addr g;
     assert_c (is_realm_slot k);
     buffer_map_internal k g addr s
   }"

definition ns_granule_map :: "nat \<Rightarrow> nat \<Rightarrow> rmm \<Rightarrow> rmm option" where
  "ns_granule_map k g s = do {
     addr \<leftarrow> granule_addr g;
     assert_c (is_ns_slot k);
     buffer_map_internal k g addr s
   }"

text \<open>
  The contents of non-secure memory belong to the host, and an access to it may fault
  when the host changes its security state; \<open>mem\<close> is what the guarded copy
  \<^verbatim>\<open>memcpy_ns_read\<close> (assembly) delivers: the data, or \<^verbatim>\<open>None\<close> if it faulted.
\<close>

definition ns_buffer_read ::
  "nat \<Rightarrow> nat \<Rightarrow> u32 \<Rightarrow> u32 \<Rightarrow> 'a option \<Rightarrow> rmm \<Rightarrow> ('a option \<times> rmm) option" where
  "ns_buffer_read k ns_gr offset sz mem s = do {
     assert_c (is_ns_slot k);
     assert_c (sz mod 8 = 0);
     assert_c (offset mod 8 = 0);
     let offset = offset AND 0xfff;
     assert_c (offset + sz \<le> 4096);
     s \<leftarrow> ns_granule_map k ns_gr s;
     Some (mem, buffer_unmap k s)
   }"

text \<open>
  The copy to the host's memory; \<open>ok\<close> is what the guarded \<^verbatim>\<open>memcpy_ns_write\<close> reports, that
  no access faulted.  The data goes to the host, so it is part of the caller's result.
\<close>

definition ns_buffer_write ::
  "nat \<Rightarrow> nat \<Rightarrow> u32 \<Rightarrow> u32 \<Rightarrow> bool \<Rightarrow> rmm \<Rightarrow> (bool \<times> rmm) option" where
  "ns_buffer_write k ns_gr offset sz ok s = do {
     assert_c (is_ns_slot k);
     assert_c (sz mod 8 = 0);
     assert_c (offset mod 8 = 0);
     let offset = offset AND 0xfff;
     assert_c (offset + sz \<le> 4096);
     s \<leftarrow> ns_granule_map k ns_gr s;
     Some (ok, buffer_unmap k s)
   }"

definition assert_cpu_slots_empty :: "rmm \<Rightarrow> unit option" where
  "assert_cpu_slots_empty s = assert_c (list_all (\<lambda>i. slots s i = None) [0..<NR_CPU_SLOTS])"

definition granule_memzero :: "nat \<Rightarrow> nat \<Rightarrow> rmm \<Rightarrow> rmm option" where
  "granule_memzero g k s = do {
     s \<leftarrow> granule_map g k s;
     let s = granule_memzero_mapped g s;
     Some (buffer_unmap k s)
   }"

lemma map_slot_simps [simp]:
  "granules (map_slot k g s) = granules s" "glock (map_slot k g s) = glock s"
  "content (map_slot k g s) = content s" "slots (map_slot k g s) = (slots s)(k := Some g)"
  "vmids (map_slot k g s) = vmids s" "trace (map_slot k g s) = trace s"
  by (simp_all add: map_slot_def)

lemma buffer_unmap_simps [simp]:
  "granules (buffer_unmap k s) = granules s" "glock (buffer_unmap k s) = glock s"
  "content (buffer_unmap k s) = content s" "slots (buffer_unmap k s) = (slots s)(k := None)"
  "vmids (buffer_unmap k s) = vmids s" "trace (buffer_unmap k s) = trace s"
  by (simp_all add: buffer_unmap_def)

lemma GRANULE_ALIGNED_granule_addr:
  "granule_addr g = Some a \<Longrightarrow> g < RMM_MAX_GRANULES \<Longrightarrow> GRANULE_ALIGNED a"
  using find_granule_addr [of g a] by (auto simp: find_granule_def split: if_splits)

lemma granule_map_eq [exec_simps]:
  assumes "g < RMM_MAX_GRANULES" and "slots s k = None" and "is_realm_slot k"
  shows "granule_map g k s = Some (map_slot k g s)"
proof -
  from assms(1) obtain a where a: "granule_addr g = Some a" by (auto simp: granule_addr_eq)
  with assms show ?thesis
    by (simp add: granule_map_def buffer_map_internal_def is_realm_slot_def
        GRANULE_ALIGNED_granule_addr)
qed

lemma is_realm_slot_consts [simp]:
  "is_realm_slot SLOT_DELEGATED" "is_realm_slot SLOT_RD" "is_realm_slot SLOT_REC"
  "is_realm_slot SLOT_REC2" "is_realm_slot SLOT_RTT" "is_realm_slot SLOT_RTT2"
  "is_realm_slot SLOT_RSI_CALL" "k < 16 \<Longrightarrow> is_realm_slot (SLOT_REC_AUX0 + k)"
  by (simp_all add: is_realm_slot_def word_consts)

lemma slot_distinct [simp]:
  "SLOT_DELEGATED \<noteq> SLOT_RD" "SLOT_DELEGATED \<noteq> SLOT_RTT" "SLOT_DELEGATED \<noteq> SLOT_RTT2"
  "SLOT_RD \<noteq> SLOT_DELEGATED" "SLOT_RD \<noteq> SLOT_RTT" "SLOT_RD \<noteq> SLOT_RTT2"
  "SLOT_RTT \<noteq> SLOT_DELEGATED" "SLOT_RTT \<noteq> SLOT_RD" "SLOT_RTT \<noteq> SLOT_RTT2"
  "SLOT_RTT2 \<noteq> SLOT_DELEGATED" "SLOT_RTT2 \<noteq> SLOT_RD" "SLOT_RTT2 \<noteq> SLOT_RTT"
  "SLOT_REC \<noteq> SLOT_RD" "SLOT_REC \<noteq> SLOT_RTT" "SLOT_REC \<noteq> SLOT_REC2"
  "SLOT_RD \<noteq> SLOT_REC" "SLOT_RTT \<noteq> SLOT_REC" "SLOT_REC2 \<noteq> SLOT_REC"
  "SLOT_REC \<noteq> SLOT_DELEGATED" "SLOT_DELEGATED \<noteq> SLOT_REC"
  "SLOT_NS \<noteq> SLOT_DELEGATED" "SLOT_NS \<noteq> SLOT_RD" "SLOT_NS \<noteq> SLOT_RTT"
  "SLOT_RSI_CALL \<noteq> SLOT_RD" "SLOT_RD \<noteq> SLOT_RSI_CALL"
  by (simp_all add: word_consts)

lemma granule_memzero_eq [exec_simps]:
  assumes "g < RMM_MAX_GRANULES" and "slots s k = None" and "is_realm_slot k"
  shows "granule_memzero g k s = Some (granule_memzero_mapped g s)"
  using assms
  by (simp add: granule_memzero_def granule_map_eq granule_memzero_mapped_def buffer_unmap_def
      map_slot_def emit_def)

lemma ns_buffer_read_eq [exec_simps]:
  assumes "g < RMM_MAX_GRANULES" and "slots s SLOT_NS = None"
    and "sz mod 8 = 0" and "sz \<le> 4096"
  shows "ns_buffer_read SLOT_NS g 0 sz mem s = Some (mem, s)"
proof -
  from assms(1) obtain a where a: "granule_addr g = Some a" by (auto simp: granule_addr_eq)
  with assms show ?thesis
    by (simp add: ns_buffer_read_def ns_granule_map_def is_ns_slot_def buffer_map_internal_def
        NR_CPU_SLOTS_def SLOT_NS_def GRANULE_ALIGNED_granule_addr buffer_unmap_def map_slot_def)
qed

text \<open>A map followed by the matching unmap leaves no trace.\<close>

lemma buffer_unmap_map_slot: "slots s k = None \<Longrightarrow> buffer_unmap k (map_slot k g s) = s"
  by (simp add: buffer_unmap_def map_slot_def)

end
