(* ===== verification/S2tte.thy ===== *)
theory S2tte
  imports RMM_State
begin

text \<open>
  Stage 2 translation table entries: the descriptor encodings, predicates and accessors of
  lib/realm/src/s2tt.c and table.h.  An entry is a 64-bit word; a level is an \<^verbatim>\<open>int\<close>
  between 0 and 3 at every call.
\<close>

section \<open>Constants\<close>

definition RTT_PAGE_LEVEL :: int where [word_consts]: "RTT_PAGE_LEVEL = 3"
definition RTT_MIN_BLOCK_LEVEL :: int where [word_consts]: "RTT_MIN_BLOCK_LEVEL = 2"
definition MIN_STARTING_LEVEL :: int where [word_consts]: "MIN_STARTING_LEVEL = 0"
definition S2TTE_STRIDE :: nat where [word_consts]: "S2TTE_STRIDE = GRANULE_SHIFT - 3"
definition S2TTES_PER_S2TT :: nat where [word_consts]: "S2TTES_PER_S2TT = 2 ^ S2TTE_STRIDE"
definition S2TTE_OA_BITS :: nat where [word_consts]: "S2TTE_OA_BITS = 48"

definition DESC_TYPE_MASK :: u64 where [word_consts]: "DESC_TYPE_MASK = 3"
definition S2TTE_L012_TABLE :: u64 where [word_consts]: "S2TTE_L012_TABLE = 3"
definition S2TTE_L012_BLOCK :: u64 where [word_consts]: "S2TTE_L012_BLOCK = 1"
definition S2TTE_L3_PAGE :: u64 where [word_consts]: "S2TTE_L3_PAGE = 3"
definition S2TTE_Lx_INVALID :: u64 where [word_consts]: "S2TTE_Lx_INVALID = 0"

definition S2TTE_MEMATTR_MASK :: u64 where [word_consts]: "S2TTE_MEMATTR_MASK = push_bit 2 7"
definition S2TTE_MEMATTR_FWB_NORMAL_WB :: u64 where
  [word_consts]: "S2TTE_MEMATTR_FWB_NORMAL_WB = push_bit 4 1 OR push_bit 2 2"
definition S2TTE_MEMATTR_FWB_RESERVED :: u64 where
  [word_consts]: "S2TTE_MEMATTR_FWB_RESERVED = push_bit 4 1 OR push_bit 2 0"
definition S2TTE_AP_MASK :: u64 where [word_consts]: "S2TTE_AP_MASK = push_bit 6 3"
definition S2TTE_AP_RW :: u64 where [word_consts]: "S2TTE_AP_RW = push_bit 6 3"
definition S2TTE_SH_MASK :: u64 where [word_consts]: "S2TTE_SH_MASK = push_bit 8 3"
definition S2TTE_SH_RESERVED :: u64 where [word_consts]: "S2TTE_SH_RESERVED = push_bit 8 1"
definition S2TTE_SH_IS :: u64 where [word_consts]: "S2TTE_SH_IS = push_bit 8 3"
definition S2TTE_AF :: u64 where [word_consts]: "S2TTE_AF = push_bit 10 1"
definition S2TTE_XN :: u64 where [word_consts]: "S2TTE_XN = push_bit 53 2"
definition S2TTE_NS :: u64 where [word_consts]: "S2TTE_NS = push_bit 55 1"

definition S2TTE_ATTRS :: u64 where
  [word_consts]: "S2TTE_ATTRS =
     S2TTE_MEMATTR_FWB_NORMAL_WB OR S2TTE_AP_RW OR S2TTE_SH_IS OR S2TTE_AF"
definition S2TTE_TABLE :: u64 where [word_consts]: "S2TTE_TABLE = S2TTE_L012_TABLE"
definition S2TTE_BLOCK :: u64 where [word_consts]: "S2TTE_BLOCK = S2TTE_ATTRS OR S2TTE_L012_BLOCK"
definition S2TTE_PAGE :: u64 where [word_consts]: "S2TTE_PAGE = S2TTE_ATTRS OR S2TTE_L3_PAGE"
definition S2TTE_BLOCK_NS :: u64 where
  [word_consts]: "S2TTE_BLOCK_NS = S2TTE_NS OR S2TTE_XN OR S2TTE_AF OR S2TTE_L012_BLOCK"
definition S2TTE_PAGE_NS :: u64 where
  [word_consts]: "S2TTE_PAGE_NS = S2TTE_NS OR S2TTE_XN OR S2TTE_AF OR S2TTE_L3_PAGE"

definition S2TTE_INVALID_HIPAS_MASK :: u64 where
  [word_consts]: "S2TTE_INVALID_HIPAS_MASK = push_bit 2 0xf"
definition S2TTE_INVALID_HIPAS_UNASSIGNED :: u64 where
  [word_consts]: "S2TTE_INVALID_HIPAS_UNASSIGNED = INPLACE 2 0"
definition S2TTE_INVALID_HIPAS_ASSIGNED :: u64 where
  [word_consts]: "S2TTE_INVALID_HIPAS_ASSIGNED = INPLACE 2 1"
definition S2TTE_INVALID_HIPAS_DESTROYED :: u64 where
  [word_consts]: "S2TTE_INVALID_HIPAS_DESTROYED = INPLACE 2 2"
definition S2TTE_INVALID_RIPAS_MASK :: u64 where
  [word_consts]: "S2TTE_INVALID_RIPAS_MASK = push_bit 6 1"
definition S2TTE_INVALID_RIPAS_EMPTY :: u64 where
  [word_consts]: "S2TTE_INVALID_RIPAS_EMPTY = INPLACE 6 0"
definition S2TTE_INVALID_RIPAS_RAM :: u64 where
  [word_consts]: "S2TTE_INVALID_RIPAS_RAM = INPLACE 6 1"
definition S2TTE_INVALID_DESTROYED :: u64 where
  [word_consts]: "S2TTE_INVALID_DESTROYED = S2TTE_INVALID_HIPAS_DESTROYED"
definition S2TTE_INVALID_UNPROTECTED :: u64 where
  [word_consts]: "S2TTE_INVALID_UNPROTECTED = 0"

lemmas s2tte_consts = word_consts INPLACE_def

section \<open>Addresses and levels\<close>

text \<open>The number of address bits below the field that level \<open>level\<close> resolves.\<close>

definition level_lsb :: "int \<Rightarrow> nat" where
  "level_lsb level = nat (RTT_PAGE_LEVEL - level) * S2TTE_STRIDE + GRANULE_SHIFT"

definition s2_addr_to_idx :: "u64 \<Rightarrow> int \<Rightarrow> u64" where
  "s2_addr_to_idx addr level =
     drop_bit (level_lsb level) addr AND (push_bit S2TTE_STRIDE 1 - 1)"

definition s2_sl_addr_to_idx :: "u64 \<Rightarrow> int \<Rightarrow> nat \<Rightarrow> u64" where
  "s2_sl_addr_to_idx addr start_level ipa_bits =
     drop_bit (level_lsb start_level) (addr AND (push_bit ipa_bits 1 - 1))"

definition addr_level_mask :: "u64 \<Rightarrow> int \<Rightarrow> u64" where
  "addr_level_mask addr level = addr AND BIT_MASK_ULL (S2TTE_OA_BITS - 1) (level_lsb level)"

definition table_entry_to_phys :: "u64 \<Rightarrow> u64" where
  "table_entry_to_phys entry = addr_level_mask entry RTT_PAGE_LEVEL"

definition entry_is_table :: "u64 \<Rightarrow> bool" where
  "entry_is_table entry = (entry AND DESC_TYPE_MASK = S2TTE_L012_TABLE)"

definition addr_is_level_aligned :: "u64 \<Rightarrow> int \<Rightarrow> bool" where
  "addr_is_level_aligned addr level = (addr = addr_level_mask addr level)"

definition s2tte_map_size :: "int \<Rightarrow> u64 option" where
  "s2tte_map_size level = do {
     assert_c (level \<le> RTT_PAGE_LEVEL);
     Some (push_bit (level_lsb level) 1)
   }"

section \<open>Creating entries\<close>

definition s2tte_create_ripas :: "ripas \<Rightarrow> u64" where
  "s2tte_create_ripas r =
     (if r = RMI_EMPTY then S2TTE_INVALID_RIPAS_EMPTY else S2TTE_INVALID_RIPAS_RAM)"

definition s2tte_create_unassigned :: "ripas \<Rightarrow> u64" where
  "s2tte_create_unassigned r = S2TTE_INVALID_HIPAS_UNASSIGNED OR s2tte_create_ripas r"

definition s2tte_create_destroyed :: u64 where
  "s2tte_create_destroyed = S2TTE_INVALID_DESTROYED"

definition s2tte_create_assigned_empty :: "u64 \<Rightarrow> int \<Rightarrow> u64 option" where
  "s2tte_create_assigned_empty pa level = do {
     assert_c (RTT_MIN_BLOCK_LEVEL \<le> level);
     assert_c (addr_is_level_aligned pa level);
     Some (pa OR S2TTE_INVALID_HIPAS_ASSIGNED OR S2TTE_INVALID_RIPAS_EMPTY)
   }"

definition s2tte_create_valid :: "u64 \<Rightarrow> int \<Rightarrow> u64 option" where
  "s2tte_create_valid pa level = do {
     assert_c (RTT_MIN_BLOCK_LEVEL \<le> level);
     assert_c (addr_is_level_aligned pa level);
     Some (if level = RTT_PAGE_LEVEL then pa OR S2TTE_PAGE else pa OR S2TTE_BLOCK)
   }"

definition s2tte_create_invalid_ns :: u64 where
  "s2tte_create_invalid_ns = S2TTE_INVALID_UNPROTECTED"

definition s2tte_create_valid_ns :: "u64 \<Rightarrow> int \<Rightarrow> u64 option" where
  "s2tte_create_valid_ns s2tte level = do {
     assert_c (RTT_MIN_BLOCK_LEVEL \<le> level);
     Some (if level = RTT_PAGE_LEVEL then s2tte OR S2TTE_PAGE_NS else s2tte OR S2TTE_BLOCK_NS)
   }"

definition host_ns_mask :: "int \<Rightarrow> u64" where
  "host_ns_mask level = addr_level_mask (- 1) level OR S2TTE_MEMATTR_MASK OR S2TTE_AP_MASK
     OR S2TTE_SH_MASK"

definition host_ns_s2tte_is_valid :: "u64 \<Rightarrow> int \<Rightarrow> bool" where
  "host_ns_s2tte_is_valid s2tte level =
     (let mask = host_ns_mask level
      in if s2tte AND NOT mask \<noteq> 0 then False
         else if s2tte AND S2TTE_MEMATTR_MASK = S2TTE_MEMATTR_FWB_RESERVED then False
         else if s2tte AND S2TTE_SH_MASK = S2TTE_SH_RESERVED then False
         else True)"

definition host_ns_s2tte :: "u64 \<Rightarrow> int \<Rightarrow> u64" where
  "host_ns_s2tte s2tte level = s2tte AND host_ns_mask level"

definition s2tte_create_table :: "u64 \<Rightarrow> int \<Rightarrow> u64 option" where
  "s2tte_create_table pa level = do {
     assert_c (level < RTT_PAGE_LEVEL);
     assert_c (GRANULE_ALIGNED pa);
     Some (pa OR S2TTE_TABLE)
   }"

section \<open>Inspecting entries\<close>

definition s2tte_has_hipas :: "u64 \<Rightarrow> u64 \<Rightarrow> bool" where
  "s2tte_has_hipas s2tte hipas =
     (let desc_type = s2tte AND DESC_TYPE_MASK;
          invalid_desc_hipas = s2tte AND S2TTE_INVALID_HIPAS_MASK
      in \<not> (desc_type \<noteq> S2TTE_Lx_INVALID \<or> invalid_desc_hipas \<noteq> hipas))"

definition s2tte_is_unassigned :: "u64 \<Rightarrow> bool" where
  "s2tte_is_unassigned s2tte = s2tte_has_hipas s2tte S2TTE_INVALID_HIPAS_UNASSIGNED"

definition s2tte_is_destroyed :: "u64 \<Rightarrow> bool" where
  "s2tte_is_destroyed s2tte = s2tte_has_hipas s2tte S2TTE_INVALID_HIPAS_DESTROYED"

definition s2tte_is_assigned :: "u64 \<Rightarrow> int \<Rightarrow> bool" where
  "s2tte_is_assigned s2tte level = s2tte_has_hipas s2tte S2TTE_INVALID_HIPAS_ASSIGNED"

text \<open>
  Transcribed as written: at level 2 the descriptor type (two bits) is compared with
  \<^verbatim>\<open>S2TTE_BLOCK\<close>, which includes the attribute bits.
\<close>

definition s2tte_check :: "u64 \<Rightarrow> int \<Rightarrow> u64 \<Rightarrow> bool" where
  "s2tte_check s2tte level ns =
     (if s2tte AND S2TTE_NS \<noteq> ns then False
      else let desc_type = s2tte AND DESC_TYPE_MASK
           in (level = RTT_PAGE_LEVEL \<and> desc_type = S2TTE_L3_PAGE) \<or>
              (level = RTT_MIN_BLOCK_LEVEL \<and> desc_type = S2TTE_BLOCK))"

definition s2tte_is_valid :: "u64 \<Rightarrow> int \<Rightarrow> bool" where
  "s2tte_is_valid s2tte level = s2tte_check s2tte level 0"

definition s2tte_is_valid_ns :: "u64 \<Rightarrow> int \<Rightarrow> bool" where
  "s2tte_is_valid_ns s2tte level = s2tte_check s2tte level S2TTE_NS"

definition s2tte_is_table :: "u64 \<Rightarrow> int \<Rightarrow> bool" where
  "s2tte_is_table s2tte level = (level < RTT_PAGE_LEVEL \<and> s2tte AND DESC_TYPE_MASK = S2TTE_TABLE)"

definition s2tte_get_ripas :: "u64 \<Rightarrow> ripas option" where
  "s2tte_get_ripas s2tte = (
     let desc_ripas = s2tte AND S2TTE_INVALID_RIPAS_MASK
     in do {
       assert_c (\<not> (s2tte AND DESC_TYPE_MASK \<noteq> S2TTE_Lx_INVALID
                     \<and> desc_ripas \<noteq> S2TTE_INVALID_RIPAS_RAM));
       Some (if desc_ripas = S2TTE_INVALID_RIPAS_EMPTY then RMI_EMPTY else RMI_RAM)
     })"

definition s2tte_pa :: "u64 \<Rightarrow> int \<Rightarrow> u64 option" where
  "s2tte_pa s2tte level = do {
     assert_c (\<not> (s2tte_is_unassigned s2tte \<or> s2tte_is_destroyed s2tte
                   \<or> s2tte_is_table s2tte level));
     Some (addr_level_mask s2tte level)
   }"

definition s2tte_pa_table :: "u64 \<Rightarrow> int \<Rightarrow> u64 option" where
  "s2tte_pa_table s2tte level = do {
     assert_c (s2tte_is_table s2tte level);
     Some (addr_level_mask s2tte RTT_PAGE_LEVEL)
   }"

section \<open>Values of the constants\<close>

lemma s2tte_values:
  "S2TTE_PAGE = 0x7DB" "S2TTE_BLOCK = 0x7D9" "S2TTE_TABLE = 3"
  "S2TTE_PAGE_NS = 0xC0000000000403" "S2TTE_BLOCK_NS = 0xC0000000000401"
  "S2TTE_NS = 0x80000000000000" "S2TTE_INVALID_HIPAS_MASK = 0x3C"
  "S2TTE_INVALID_HIPAS_UNASSIGNED = 0" "S2TTE_INVALID_HIPAS_ASSIGNED = 4"
  "S2TTE_INVALID_HIPAS_DESTROYED = 8" "S2TTE_INVALID_DESTROYED = 8"
  "S2TTE_INVALID_UNPROTECTED = 0"
  "S2TTE_INVALID_RIPAS_MASK = 0x40" "S2TTE_INVALID_RIPAS_EMPTY = 0"
  "S2TTE_INVALID_RIPAS_RAM = 0x40" "DESC_TYPE_MASK = 3" "S2TTE_L012_TABLE = 3"
  "S2TTE_L3_PAGE = 3" "S2TTE_Lx_INVALID = 0" "S2TTE_MEMATTR_MASK = 0x1C"
  "S2TTE_MEMATTR_FWB_RESERVED = 0x10" "S2TTE_AP_MASK = 0xC0" "S2TTE_SH_MASK = 0x300"
  "S2TTE_SH_RESERVED = 0x100" "S2TTES_PER_S2TT = 512" "S2TTE_STRIDE = 9" "S2TTE_OA_BITS = 48"
  "RTT_PAGE_LEVEL = 3" "RTT_MIN_BLOCK_LEVEL = 2" "MIN_STARTING_LEVEL = 0"
  by (simp_all add: s2tte_consts)

lemma level_lsb_values [simp]:
  "level_lsb 3 = 12" "level_lsb 2 = 21" "level_lsb 1 = 30" "level_lsb 0 = 39"
  by (simp_all add: level_lsb_def s2tte_consts)

lemma level_mask_values:
  "BIT_MASK_ULL 47 12 = 0xFFFFFFFFF000" "BIT_MASK_ULL 47 21 = 0xFFFFFFE00000"
  "BIT_MASK_ULL 47 30 = 0xFFFFC0000000" "BIT_MASK_ULL 47 39 = 0xFF8000000000"
  by (simp_all add: BIT_MASK_ULL_def mask_eq_exp_minus_1)

lemma addr_level_mask_values [simp]:
  "addr_level_mask a 3 = a AND 0xFFFFFFFFF000" "addr_level_mask a 2 = a AND 0xFFFFFFE00000"
  "addr_level_mask a 1 = a AND 0xFFFFC0000000" "addr_level_mask a 0 = a AND 0xFF8000000000"
  by (simp_all add: addr_level_mask_def S2TTE_OA_BITS_def level_mask_values)

lemma level_cases:
  assumes "0 \<le> (l::int)" and "l \<le> 3"
  obtains "l = 0" | "l = 1" | "l = 2" | "l = 3"
  using assms by arith

lemma aligned_and_low:
  assumes "addr_is_level_aligned pa l" and "0 \<le> l" and "l \<le> 3"
  shows "pa AND 3 = 0" "pa AND 0x3C = 0" "pa AND 0x40 = 0" "pa AND 0x80000000000000 = 0"
    "pa AND 0xFFF = 0"
  using assms(2,3)
  by (rule level_cases;
      use assms(1) in \<open>auto simp: addr_is_level_aligned_def elim!: and_disjoint_mask\<close>)+

lemma aligned_mono:
  assumes "addr_is_level_aligned pa l" and "0 \<le> l" and "l \<le> l'" and "l' \<le> 3"
  shows "addr_is_level_aligned pa l'"
proof -
  have a: "pa = addr_level_mask pa l" using assms(1) by (simp add: addr_is_level_aligned_def)
  have "addr_level_mask (addr_level_mask pa l) l' = addr_level_mask pa l"
  proof -
    consider "l = l'" | "l = 0" "l' = 1" | "l = 0" "l' = 2" | "l = 0" "l' = 3"
      | "l = 1" "l' = 2" | "l = 1" "l' = 3" | "l = 2" "l' = 3"
      using assms(2,3,4) by arith
    then show ?thesis
      by cases (simp add: addr_level_mask_def and.assoc, simp_all add: and.assoc)
  qed
  then show ?thesis unfolding addr_is_level_aligned_def using a by metis
qed

lemma mask_of_or:
  assumes "addr_is_level_aligned pa l" and "addr_level_mask c l = 0"
  shows "addr_level_mask (pa OR c) l = pa"
  using assms
  by (simp add: addr_is_level_aligned_def addr_level_mask_def bit.conj_disj_distrib2)

lemmas s2tte_pred_defs =
  s2tte_is_unassigned_def s2tte_is_destroyed_def s2tte_is_assigned_def s2tte_has_hipas_def
  s2tte_is_valid_def s2tte_is_valid_ns_def s2tte_check_def s2tte_is_table_def Let_def
  s2tte_values entry_is_table_def

section \<open>Which entries hold a reference\<close>

text \<open>
  The entries that granule_types.h says hold a reference on their table: table, valid,
  valid_ns and assigned entries.  Read off the encoding: every entry whose descriptor
  type is not invalid, and the invalid ones with HIPAS=ASSIGNED.
\<close>

definition s2tte_refs :: "u64 \<Rightarrow> bool" where
  "s2tte_refs e \<longleftrightarrow> e AND 3 \<noteq> 0 \<or> e AND 0x3C = 4"

lemma s2tte_refs_unassigned [simp]: "s2tte_is_unassigned e \<Longrightarrow> \<not> s2tte_refs e"
  by (auto simp: s2tte_refs_def s2tte_pred_defs)

lemma s2tte_refs_destroyed [simp]: "s2tte_is_destroyed e \<Longrightarrow> \<not> s2tte_refs e"
  by (auto simp: s2tte_refs_def s2tte_pred_defs)

lemma s2tte_refs_assigned [simp]: "s2tte_is_assigned e l \<Longrightarrow> s2tte_refs e"
  by (auto simp: s2tte_refs_def s2tte_pred_defs)

lemma s2tte_refs_valid [simp]: "s2tte_is_valid e l \<Longrightarrow> s2tte_refs e"
  by (auto simp: s2tte_refs_def s2tte_pred_defs split: if_splits)

lemma s2tte_refs_valid_ns [simp]: "s2tte_is_valid_ns e l \<Longrightarrow> s2tte_refs e"
  by (auto simp: s2tte_refs_def s2tte_pred_defs split: if_splits)

lemma s2tte_refs_table [simp]: "s2tte_is_table e l \<Longrightarrow> s2tte_refs e"
  by (auto simp: s2tte_refs_def s2tte_pred_defs)

section \<open>Each creator builds what its predicate recognises\<close>

lemma created_unassigned:
  "s2tte_is_unassigned (s2tte_create_unassigned r)"
  "s2tte_get_ripas (s2tte_create_unassigned r) = Some r"
  by (cases r; simp add: s2tte_create_unassigned_def s2tte_create_ripas_def s2tte_get_ripas_def
      s2tte_pred_defs)+

lemma created_destroyed: "s2tte_is_destroyed s2tte_create_destroyed"
  by (simp add: s2tte_create_destroyed_def s2tte_pred_defs)

lemma created_invalid_ns:
  "s2tte_is_unassigned s2tte_create_invalid_ns"
  "s2tte_get_ripas s2tte_create_invalid_ns = Some RMI_EMPTY"
  by (simp_all add: s2tte_create_invalid_ns_def s2tte_get_ripas_def s2tte_pred_defs)

lemma created_assigned_empty:
  assumes "s2tte_create_assigned_empty pa l = Some e" and "l \<le> 3"
  shows "s2tte_is_assigned e l" "s2tte_get_ripas e = Some RMI_EMPTY" "s2tte_pa e l = Some pa"
    "addr_is_level_aligned pa l" "e AND 3 = 0" "\<not> entry_is_table e"
proof -
  from assms have l: "l = 2 \<or> l = 3" and al: "addr_is_level_aligned pa l" and e: "e = pa OR 4"
    by (auto simp: s2tte_create_assigned_empty_def bind_assert_c s2tte_values split: if_splits)
  note low = aligned_and_low [OF al]
  from l show "s2tte_is_assigned e l" "s2tte_get_ripas e = Some RMI_EMPTY" "e AND 3 = 0"
    "\<not> entry_is_table e"
    by (auto simp: e low bit.conj_disj_distrib2 s2tte_pred_defs s2tte_get_ripas_def)
  from l have "addr_level_mask e l = pa"
    unfolding e by (intro mask_of_or al) auto
  with l show "s2tte_pa e l = Some pa"
    by (auto simp: s2tte_pa_def e low bit.conj_disj_distrib2 s2tte_pred_defs)
  show "addr_is_level_aligned pa l" by (rule al)
qed

lemma created_valid_page:
  assumes "s2tte_create_valid pa 3 = Some e"
  shows "s2tte_is_valid e 3" "s2tte_get_ripas e = Some RMI_RAM" "s2tte_pa e 3 = Some pa"
    "addr_is_level_aligned pa 3" "e AND 3 = 3" "e AND S2TTE_NS = 0"
proof -
  from assms have al: "addr_is_level_aligned pa 3" and e: "e = pa OR 0x7DB"
    by (auto simp: s2tte_create_valid_def bind_assert_c s2tte_values split: if_splits)
  note low = aligned_and_low [OF al, simplified]
  show "s2tte_is_valid e 3" "s2tte_get_ripas e = Some RMI_RAM" "e AND 3 = 3" "e AND S2TTE_NS = 0"
    by (simp_all add: e low bit.conj_disj_distrib2 s2tte_pred_defs s2tte_get_ripas_def)
  have "addr_level_mask e 3 = pa"
    unfolding e by (intro mask_of_or al) simp
  then show "s2tte_pa e 3 = Some pa"
    by (auto simp: s2tte_pa_def e low bit.conj_disj_distrib2 s2tte_pred_defs)
  show "addr_is_level_aligned pa 3" by (rule al)
qed

lemma created_valid_refs:
  assumes "s2tte_create_valid pa l = Some e" and "l \<le> 3"
  shows "s2tte_refs e" "e AND S2TTE_NS = 0" "l < 3 \<Longrightarrow> \<not> entry_is_table e"
proof -
  from assms have l: "l = 2 \<or> l = 3" and al: "addr_is_level_aligned pa l"
    and e: "e = pa OR (if l = 3 then 0x7DB else 0x7D9)"
    by (auto simp: s2tte_create_valid_def bind_assert_c s2tte_values split: if_splits)
  note low = aligned_and_low [OF al]
  from l show "s2tte_refs e" "e AND S2TTE_NS = 0" "l < 3 \<Longrightarrow> \<not> entry_is_table e"
    by (auto simp: e low bit.conj_disj_distrib2 s2tte_refs_def s2tte_pred_defs)
qed

lemma created_table:
  assumes "s2tte_create_table pa l = Some e" and "addr_is_level_aligned pa 3" and "0 \<le> l"
  shows "s2tte_is_table e l" "s2tte_pa_table e l = Some pa" "entry_is_table e"
    "table_entry_to_phys e = pa" "l < 3"
proof -
  from assms have l: "l < 3" and e: "e = pa OR 3"
    by (auto simp: s2tte_create_table_def bind_assert_c s2tte_values split: if_splits)
  note low = aligned_and_low [OF assms(2), simplified]
  show tab: "s2tte_is_table e l" "entry_is_table e"
    using l by (simp_all add: e low bit.conj_disj_distrib2 s2tte_pred_defs)
  have m: "addr_level_mask e 3 = pa"
    unfolding e by (intro mask_of_or assms) simp
  show "s2tte_pa_table e l = Some pa" "table_entry_to_phys e = pa"
    using tab m by (simp_all add: s2tte_pa_table_def table_entry_to_phys_def s2tte_values)
  show "l < 3" by (rule l)
qed

lemma host_mask_values:
  "host_ns_mask 3 = 0xFFFFFFFFF3DC" "host_ns_mask 2 = 0xFFFFFFE003DC"
  by (simp_all add: host_ns_mask_def s2tte_values)

lemma and_not_0: "h AND NOT m = 0 \<longleftrightarrow> h = h AND m" for h m :: "'a::len word"
proof
  assume *: "h AND NOT m = 0"
  have "h = h AND (m OR NOT m)" by simp
  also have "\<dots> = (h AND m) OR (h AND NOT m)" by (simp only: bit.conj_disj_distrib)
  finally show "h = h AND m" using * by simp
next
  assume "h = h AND m"
  then have "h AND NOT m = (h AND m) AND NOT m" by simp
  then show "h AND NOT m = 0" by (simp add: and.assoc)
qed

lemma created_valid_ns:
  assumes "host_ns_s2tte_is_valid h l" and "s2tte_create_valid_ns h l = Some e" and "l \<le> 3"
  shows "host_ns_s2tte e l = h" "s2tte_refs e" "l = 3 \<Longrightarrow> s2tte_is_valid_ns e l"
    "l < 3 \<Longrightarrow> \<not> entry_is_table e" "l < 3 \<Longrightarrow> \<not> s2tte_is_valid_ns e l" "e AND S2TTE_NS \<noteq> 0"
proof -
  from assms(2,3) have l: "l = 2 \<or> l = 3"
    by (auto simp: s2tte_create_valid_ns_def bind_assert_c s2tte_values split: if_splits)
  from assms have e: "e = h OR (if l = 3 then 0xC0000000000403 else 0xC0000000000401)"
    by (auto simp: s2tte_create_valid_ns_def bind_assert_c s2tte_values split: if_splits)
  from assms(1) have h: "h = h AND host_ns_mask l"
    by (auto simp: host_ns_s2tte_is_valid_def Let_def and_not_0 split: if_splits)
  have low: "h AND 3 = 0" "h AND 0x80000000000000 = 0"
    using l and_disjoint_mask [OF h] by (auto simp: host_mask_values)
  show "host_ns_s2tte e l = h"
    using l h by (auto simp: host_ns_s2tte_def e bit.conj_disj_distrib2 host_mask_values)
  from l show "s2tte_refs e" "l = 3 \<Longrightarrow> s2tte_is_valid_ns e l" "l < 3 \<Longrightarrow> \<not> entry_is_table e"
    "e AND S2TTE_NS \<noteq> 0"
    by (auto simp: e low bit.conj_disj_distrib2 s2tte_refs_def s2tte_pred_defs)
  show "l < 3 \<Longrightarrow> \<not> s2tte_is_valid_ns e l"
    using l by (auto simp: e low bit.conj_disj_distrib2 s2tte_pred_defs)
qed

section \<open>At level 3 the predicates are exclusive, at level 2 no block is recognised\<close>

lemma desc_type_not_block: "e AND 3 \<noteq> (0x7D9 :: u64)"
proof
  assume "e AND 3 = 0x7D9"
  then have "bit (e AND 3) 3 = bit (0x7D9 :: u64) 3" by simp
  then show False by (simp add: bit_and_iff)
qed

lemma s2tte_valid_iff:
  "s2tte_is_valid e l \<longleftrightarrow> l = 3 \<and> e AND 3 = 3 \<and> e AND 0x80000000000000 = 0"
  unfolding s2tte_is_valid_def s2tte_check_def Let_def s2tte_values
  by (simp only: desc_type_not_block) argo

lemma s2tte_valid_ns_iff:
  "s2tte_is_valid_ns e l \<longleftrightarrow> l = 3 \<and> e AND 3 = 3 \<and> e AND 0x80000000000000 = 0x80000000000000"
  unfolding s2tte_is_valid_ns_def s2tte_check_def Let_def s2tte_values
  by (simp only: desc_type_not_block) argo

lemma level2_block_not_valid: "\<not> s2tte_is_valid e 2" "\<not> s2tte_is_valid_ns e 2"
  by (simp_all add: s2tte_valid_iff s2tte_valid_ns_iff)

lemma valid_level_is_3: "s2tte_is_valid e l \<Longrightarrow> l = 3" "s2tte_is_valid_ns e l \<Longrightarrow> l = 3"
  by (simp_all add: s2tte_valid_iff s2tte_valid_ns_iff)

lemma s2tte_hipas_iff:
  "s2tte_is_unassigned e \<longleftrightarrow> e AND 3 = 0 \<and> e AND 0x3C = 0"
  "s2tte_is_destroyed e \<longleftrightarrow> e AND 3 = 0 \<and> e AND 0x3C = 8"
  "s2tte_is_assigned e l \<longleftrightarrow> e AND 3 = 0 \<and> e AND 0x3C = 4"
  by (auto simp: s2tte_is_unassigned_def s2tte_is_destroyed_def s2tte_is_assigned_def
      s2tte_has_hipas_def Let_def s2tte_values)

lemma s2tte_table_iff: "s2tte_is_table e l \<longleftrightarrow> l < 3 \<and> e AND 3 = 3"
  by (simp add: s2tte_is_table_def s2tte_values)

lemmas s2tte_iffs = s2tte_valid_iff s2tte_valid_ns_iff s2tte_hipas_iff s2tte_table_iff

lemma s2tte_exclusive:
  "s2tte_is_unassigned e \<Longrightarrow> \<not> s2tte_is_destroyed e \<and> \<not> s2tte_is_assigned e l
     \<and> \<not> s2tte_is_valid e l \<and> \<not> s2tte_is_valid_ns e l \<and> \<not> s2tte_is_table e l"
  "s2tte_is_destroyed e \<Longrightarrow> \<not> s2tte_is_assigned e l
     \<and> \<not> s2tte_is_valid e l \<and> \<not> s2tte_is_valid_ns e l \<and> \<not> s2tte_is_table e l"
  "s2tte_is_assigned e l \<Longrightarrow>
     \<not> s2tte_is_valid e l \<and> \<not> s2tte_is_valid_ns e l \<and> \<not> s2tte_is_table e l"
  "s2tte_is_valid e l \<Longrightarrow> \<not> s2tte_is_valid_ns e l \<and> \<not> s2tte_is_table e l"
  "s2tte_is_valid_ns e l \<Longrightarrow> \<not> s2tte_is_table e l"
  by (simp_all add: s2tte_iffs)

end
