(* ===== verification/S2tt.thy ===== *)
theory S2tt
  imports S2tte
begin

text \<open>
  Whole stage 2 tables of 512 entries: the initialisers \<^verbatim>\<open>s2tt_init_*\<close> and the uniformity
  checks \<^verbatim>\<open>table_is_*_block\<close> and \<^verbatim>\<open>table_maps_*_block\<close> of lib/realm/src/s2tt.c.
\<close>

section \<open>Initialisers\<close>

definition s2tt_init_unassigned :: "u64 list \<Rightarrow> ripas \<Rightarrow> u64 list" where
  "s2tt_init_unassigned s2tt r =
     fold (\<lambda>i t. t[i := s2tte_create_unassigned r]) [0..<S2TTES_PER_S2TT] s2tt"

definition s2tt_init_destroyed :: "u64 list \<Rightarrow> u64 list" where
  "s2tt_init_destroyed s2tt =
     fold (\<lambda>i t. t[i := s2tte_create_destroyed]) [0..<S2TTES_PER_S2TT] s2tt"

text \<open>
  The loop shared by the three initialisers that map a contiguous block: \<open>n\<close> entries
  from index \<open>i\<close> on, the address advancing by \<open>map_size\<close>.
\<close>

primrec init_loop ::
  "(u64 \<Rightarrow> u64 option) \<Rightarrow> u64 \<Rightarrow> nat \<Rightarrow> nat \<Rightarrow> u64 \<Rightarrow> u64 list \<Rightarrow> u64 list option" where
  "init_loop mk map_size 0 i pa s2tt = Some s2tt"
| "init_loop mk map_size (Suc n) i pa s2tt = do {
     e \<leftarrow> mk pa;
     init_loop mk map_size n (Suc i) (pa + map_size) (s2tt[i := e])
   }"

definition s2tt_init_assigned_empty :: "u64 list \<Rightarrow> u64 \<Rightarrow> int \<Rightarrow> u64 list option" where
  "s2tt_init_assigned_empty s2tt pa level = do {
     map_size \<leftarrow> s2tte_map_size level;
     init_loop (\<lambda>pa. s2tte_create_assigned_empty pa level) map_size S2TTES_PER_S2TT 0 pa s2tt
   }"

definition s2tt_init_valid :: "u64 list \<Rightarrow> u64 \<Rightarrow> int \<Rightarrow> u64 list option" where
  "s2tt_init_valid s2tt pa level = do {
     map_size \<leftarrow> s2tte_map_size level;
     init_loop (\<lambda>pa. s2tte_create_valid pa level) map_size S2TTES_PER_S2TT 0 pa s2tt
   }"

definition s2tt_init_valid_ns :: "u64 list \<Rightarrow> u64 \<Rightarrow> int \<Rightarrow> u64 list option" where
  "s2tt_init_valid_ns s2tt pa level = do {
     map_size \<leftarrow> s2tte_map_size level;
     init_loop (\<lambda>pa. s2tte_create_valid_ns pa level) map_size S2TTES_PER_S2TT 0 pa s2tt
   }"

section \<open>Uniformity checks\<close>

text \<open>
  \<open>rp\<close> is \<^verbatim>\<open>Some\<close> of the RIPAS of the first entry when the caller passed a pointer for it,
  \<^verbatim>\<open>None\<close> when it passed a null pointer.
\<close>

fun uniform_from :: "(u64 \<Rightarrow> bool) \<Rightarrow> ripas option \<Rightarrow> u64 list \<Rightarrow> bool option" where
  "uniform_from is_x rp [] = Some True"
| "uniform_from is_x rp (e # es) =
     (if \<not> is_x e then Some False
      else case rp of
          None \<Rightarrow> uniform_from is_x rp es
        | Some r \<Rightarrow> do {
            r' \<leftarrow> s2tte_get_ripas e;
            if r' \<noteq> r then Some False else uniform_from is_x rp es
          })"

text \<open>The result is \<^verbatim>\<open>Some None\<close> for false, \<^verbatim>\<open>Some (Some rp)\<close> for true with RIPAS \<open>rp\<close>.\<close>

definition table_is_uniform_block ::
  "u64 list \<Rightarrow> (u64 \<Rightarrow> bool) \<Rightarrow> bool \<Rightarrow> ripas option option option" where
  "table_is_uniform_block table is_x want_ripas =
     (case table of
        [] \<Rightarrow> None
      | e # es \<Rightarrow>
          if \<not> is_x e then Some None
          else do {
            rp \<leftarrow> (if want_ripas then map_option Some (s2tte_get_ripas e) else Some None);
            ok \<leftarrow> uniform_from is_x rp es;
            Some (if ok then Some rp else None)
          })"

definition table_is_unassigned_block :: "u64 list \<Rightarrow> ripas option option" where
  "table_is_unassigned_block table =
     map_option (\<lambda>r. Option.bind r id) (table_is_uniform_block table s2tte_is_unassigned True)"

definition table_is_destroyed_block :: "u64 list \<Rightarrow> bool option" where
  "table_is_destroyed_block table =
     map_option (\<lambda>r. r \<noteq> None) (table_is_uniform_block table s2tte_is_destroyed False)"

fun maps_from ::
  "(u64 \<Rightarrow> int \<Rightarrow> bool) \<Rightarrow> int \<Rightarrow> u64 \<Rightarrow> u64 \<Rightarrow> nat \<Rightarrow> u64 list \<Rightarrow> bool option" where
  "maps_from is_x level base_pa map_size i [] = Some True"
| "maps_from is_x level base_pa map_size i (e # es) =
     (let expected_pa = base_pa + of_nat i * map_size
      in if \<not> is_x e level then Some False
         else do {
           pa \<leftarrow> s2tte_pa e level;
           if pa \<noteq> expected_pa then Some False
           else maps_from is_x level base_pa map_size (Suc i) es
         })"

definition table_maps_block :: "u64 list \<Rightarrow> int \<Rightarrow> (u64 \<Rightarrow> int \<Rightarrow> bool) \<Rightarrow> bool option" where
  "table_maps_block table level is_x = do {
     map_size \<leftarrow> s2tte_map_size level;
     (case table of
        [] \<Rightarrow> None
      | e # es \<Rightarrow>
          if \<not> is_x e level then Some False
          else do {
            base_pa \<leftarrow> s2tte_pa e level;
            if \<not> addr_is_level_aligned base_pa (level - 1) then Some False
            else maps_from is_x level base_pa map_size 1 es
          })
   }"

definition table_maps_assigned_block :: "u64 list \<Rightarrow> int \<Rightarrow> bool option" where
  "table_maps_assigned_block table level = table_maps_block table level s2tte_is_assigned"

definition table_maps_valid_block :: "u64 list \<Rightarrow> int \<Rightarrow> bool option" where
  "table_maps_valid_block table level = table_maps_block table level s2tte_is_valid"

definition table_maps_valid_ns_block :: "u64 list \<Rightarrow> int \<Rightarrow> bool option" where
  "table_maps_valid_ns_block table level = table_maps_block table level s2tte_is_valid_ns"

section \<open>What the initialisers build\<close>

lemma fold_update_const:
  assumes "length t = n"
  shows "fold (\<lambda>i t. t[i := v]) [0..<n] t = replicate n v"
proof -
  have "fold (\<lambda>i t. t[i := v]) [0..<m] t = replicate m v @ drop m t" if "m \<le> length t" for m
    using that
  proof (induction m)
    case 0
    then show ?case by simp
  next
    case (Suc m)
    then obtain x where "drop m t = x # drop (Suc m) t"
      by (metis Cons_nth_drop_Suc Suc_le_lessD)
    with Suc show ?case
      by (simp add: list_update_append replicate_append_same flip: replicate_Suc)
  qed
  from this [of n] show ?thesis using assms by simp
qed

lemma s2tt_init_unassigned_eq:
  "length t = 512 \<Longrightarrow> s2tt_init_unassigned t r = replicate 512 (s2tte_create_unassigned r)"
  unfolding s2tt_init_unassigned_def s2tte_values by (rule fold_update_const)

lemma s2tt_init_destroyed_eq:
  "length t = 512 \<Longrightarrow> s2tt_init_destroyed t = replicate 512 s2tte_create_destroyed"
  unfolding s2tt_init_destroyed_def s2tte_values by (rule fold_update_const)

lemma init_loop_nth:
  assumes "init_loop mk sz n i pa t = Some t'" and "i + n = length t"
  shows "length t' = length t" and "\<forall>k<i. t' ! k = t ! k"
    and "\<forall>k<n. mk (pa + of_nat k * sz) = Some (t' ! (i + k))"
proof -
  have "length t' = length t \<and> (\<forall>k<i. t' ! k = t ! k)
    \<and> (\<forall>k<n. mk (pa + of_nat k * sz) = Some (t' ! (i + k)))"
    using assms
  proof (induction n arbitrary: i pa t)
    case 0
    then show ?case by simp
  next
    case (Suc n)
    from Suc.prems obtain e where e: "mk pa = Some e"
      and r: "init_loop mk sz n (Suc i) (pa + sz) (t[i := e]) = Some t'"
      by (auto simp: Option.bind_eq_Some_conv)
    from Suc.IH [OF r] Suc.prems have
      len: "length t' = length t" and lo: "\<forall>k<Suc i. t' ! k = t[i := e] ! k"
      and hi: "\<forall>k<n. mk (pa + sz + of_nat k * sz) = Some (t' ! (Suc i + k))" by auto
    have "mk (pa + of_nat k * sz) = Some (t' ! (i + k))" if "k < Suc n" for k
    proof (cases k)
      case 0
      with e lo Suc.prems show ?thesis by simp
    next
      case (Suc k')
      with hi that show ?thesis by (simp add: algebra_simps)
    qed
    with len lo Suc.prems show ?case by simp
  qed
  then show "length t' = length t" and "\<forall>k<i. t' ! k = t ! k"
    and "\<forall>k<n. mk (pa + of_nat k * sz) = Some (t' ! (i + k))" by blast+
qed

lemma init_loop_total:
  assumes "\<And>k. k < n \<Longrightarrow> mk (pa + of_nat k * sz) \<noteq> None"
  shows "\<exists>t'. init_loop mk sz n i pa t = Some t'"
  using assms
proof (induction n arbitrary: i pa t)
  case 0
  then show ?case by simp
next
  case (Suc n)
  from Suc.prems [of 0] obtain e where e: "mk pa = Some e" by auto
  have "mk (pa + sz + of_nat k * sz) \<noteq> None" if "k < n" for k
    using Suc.prems [of "Suc k"] that by (simp add: algebra_simps)
  from Suc.IH [OF this] e show ?case by auto
qed

section \<open>What the checks decide\<close>

lemma uniform_from_None:
  "uniform_from is_x None es = Some (list_all is_x es)"
  by (induction es) auto

lemma uniform_from_Some:
  assumes "\<And>e. is_x e \<Longrightarrow> s2tte_get_ripas e \<noteq> None"
  shows "uniform_from is_x (Some r) es
    = Some (list_all (\<lambda>e. is_x e \<and> s2tte_get_ripas e = Some r) es)"
proof (induction es)
  case (Cons e es)
  then show ?case using assms [of e] by auto
qed auto

lemma unassigned_ripas: "s2tte_is_unassigned e \<Longrightarrow> s2tte_get_ripas e \<noteq> None"
  by (simp add: s2tte_get_ripas_def s2tte_hipas_iff s2tte_values Let_def)

lemma table_is_destroyed_block_iff:
  "t \<noteq> [] \<Longrightarrow> table_is_destroyed_block t = Some (list_all s2tte_is_destroyed t)"
  by (auto simp: table_is_destroyed_block_def table_is_uniform_block_def uniform_from_None
      split: list.split)

lemma table_is_unassigned_block_iff:
  assumes "t \<noteq> []"
  shows "table_is_unassigned_block t =
    Some (if \<exists>r. list_all (\<lambda>e. s2tte_is_unassigned e \<and> s2tte_get_ripas e = Some r) t
          then s2tte_get_ripas (hd t) else None)"
proof (cases t)
  case Nil
  with assms show ?thesis by simp
next
  case (Cons e es)
  show ?thesis
  proof (cases "s2tte_is_unassigned e")
    case True
    then obtain r where "s2tte_get_ripas e = Some r" using unassigned_ripas by blast
    with True Cons show ?thesis
      using uniform_from_Some [of s2tte_is_unassigned r es] unassigned_ripas
      by (auto simp: table_is_unassigned_block_def table_is_uniform_block_def)
  next
    case False
    with Cons show ?thesis
      by (simp add: table_is_unassigned_block_def table_is_uniform_block_def)
  qed
qed

lemma maps_from_iff:
  "maps_from is_x level base sz i es = Some True \<longleftrightarrow>
     (\<forall>k<length es. is_x (es ! k) level
        \<and> s2tte_pa (es ! k) level = Some (base + of_nat (i + k) * sz))"
proof (induction es arbitrary: i)
  case Nil
  then show ?case by simp
next
  case (Cons e es)
  have "(\<forall>k<length (e # es). P k) \<longleftrightarrow> P 0 \<and> (\<forall>k<length es. P (Suc k))" for P
    by (auto simp: less_Suc_eq_0_disj)
  then show ?case
    by (auto simp: Let_def Cons.IH Option.bind_eq_Some_conv add.commute add.left_commute)
qed

lemma table_maps_block_iff:
  assumes "t \<noteq> []" and "s2tte_map_size level = Some sz"
  shows "table_maps_block t level is_x = Some True \<longleftrightarrow>
    (\<exists>base. addr_is_level_aligned base (level - 1) \<and>
       (\<forall>k<length t. is_x (t ! k) level \<and> s2tte_pa (t ! k) level = Some (base + of_nat k * sz)))"
proof (cases t)
  case Nil
  with assms show ?thesis by simp
next
  case (Cons e es)
  have "(\<forall>k<length t. P k) \<longleftrightarrow> P 0 \<and> (\<forall>k<length es. P (Suc k))" for P
    unfolding Cons by (auto simp: less_Suc_eq_0_disj)
  then show ?thesis
    by (auto simp: table_maps_block_def assms Cons maps_from_iff Option.bind_eq_Some_conv)
qed

section \<open>Unfolding and folding a block\<close>

lemma aligned_block_entry:
  assumes "addr_is_level_aligned pa 2" and "k < 512"
  shows "addr_is_level_aligned (pa + of_nat k * 4096) 3"
    and "addr_level_mask (pa + of_nat k * 4096) 2 = pa"
proof -
  let ?x = "of_nat k * 4096 :: u64"
  have "?x = push_bit 12 (of_nat k)" by (simp add: push_bit_eq_mult mult.commute)
  moreover have "(of_nat k :: u64) = take_bit 9 (of_nat k)"
    using assms(2) by (simp add: take_bit_of_nat take_bit_nat_eq_self flip: of_nat_take_bit)
  ultimately have x: "?x = push_bit 12 (take_bit 9 (of_nat k))" by simp
  have bx: "bit ?x n \<Longrightarrow> 12 \<le> n \<and> n < 21" for n
    unfolding x by (auto simp: bit_simps)
  have bp: "bit pa n \<Longrightarrow> 21 \<le> n \<and> n \<le> 47" for n
  proof -
    assume "bit pa n"
    moreover have "pa = pa AND BIT_MASK_ULL 47 21"
      using assms(1) by (simp add: addr_is_level_aligned_def level_mask_values)
    ultimately have "bit (pa AND BIT_MASK_ULL 47 21) n" by simp
    then show ?thesis by (simp add: bit_and_iff bit_BIT_MASK_ULL)
  qed
  have "\<not> bit pa n \<or> \<not> bit ?x n" for n
    using bx [of n] bp [of n] by auto
  then have sum: "pa + ?x = pa OR ?x" by (simp add: disjunctive_add)
  have "pa + ?x = addr_level_mask (pa + ?x) 3"
  proof (rule bit_eqI)
    fix n
    show "bit (pa + ?x) n = bit (addr_level_mask (pa + ?x) 3) n"
      unfolding sum addr_level_mask_def S2TTE_OA_BITS_def
      using bx [of n] bp [of n] by (auto simp: bit_and_iff bit_or_iff bit_BIT_MASK_ULL)
  qed
  then show "addr_is_level_aligned (pa + ?x) 3" unfolding addr_is_level_aligned_def .
  show "addr_level_mask (pa + ?x) 2 = pa"
  proof (rule bit_eqI)
    fix n
    show "bit (addr_level_mask (pa + ?x) 2) n = bit pa n"
      unfolding sum addr_level_mask_def S2TTE_OA_BITS_def
      using bx [of n] bp [of n] by (auto simp: bit_and_iff bit_or_iff bit_BIT_MASK_ULL)
  qed
qed

text \<open>
  The contract of a kind of page entry that maps memory: a creator \<open>mk\<close> that succeeds
  on page-aligned addresses, and a checker \<open>is_x\<close> that recognises what it creates.  The
  initialisers take the creator, the fold checks take the checker.
\<close>

locale page_kind =
  fixes mk :: "u64 \<Rightarrow> u64 option"
    and is_x :: "u64 \<Rightarrow> int \<Rightarrow> bool"
  assumes mk_total: "addr_is_level_aligned pa 3 \<Longrightarrow> mk pa \<noteq> None"
    and mk_recognised: "mk pa = Some e \<Longrightarrow> addr_is_level_aligned pa 3 \<Longrightarrow> is_x e 3"
    and mk_address: "mk pa = Some e \<Longrightarrow> addr_is_level_aligned pa 3 \<Longrightarrow> s2tte_pa e 3 = Some pa"
begin

lemma unfold_entries:
  assumes "addr_is_level_aligned pa 2" and "length t = 512"
  obtains t' where "init_loop mk 4096 512 0 pa t = Some t'" and "length t' = 512"
    and "\<And>k. k < 512 \<Longrightarrow> mk (pa + of_nat k * 4096) = Some (t' ! k)
           \<and> is_x (t' ! k) 3 \<and> s2tte_pa (t' ! k) 3 = Some (pa + of_nat k * 4096)"
proof -
  have "mk (pa + of_nat k * 4096) \<noteq> None" if "k < 512" for k
    using aligned_block_entry(1) [OF assms(1) that] by (rule mk_total)
  then obtain t' where t': "init_loop mk 4096 512 0 pa t = Some t'"
    using init_loop_total [of 512 mk pa 4096 0 t] by blast
  have "length t' = 512" using init_loop_nth(1) [OF t'] assms(2) by simp
  moreover have "mk (pa + of_nat k * 4096) = Some (t' ! k)" if "k < 512" for k
    using init_loop_nth(3) [OF t'] assms(2) that by simp
  ultimately show ?thesis
    using that t' aligned_block_entry(1) [OF assms(1)] mk_recognised mk_address by blast
qed

lemma unfold_fold:
  assumes "addr_is_level_aligned pa 2" and "length t = 512"
  shows "\<exists>t'. init_loop mk 4096 512 0 pa t = Some t' \<and> length t' = 512
    \<and> table_maps_block t' 3 is_x = Some True \<and> addr_level_mask (t' ! 0) 3 = pa"
proof -
  from unfold_entries [OF assms] obtain t' where
    t': "init_loop mk 4096 512 0 pa t = Some t'" and len: "length t' = 512"
    and e: "\<And>k. k < 512 \<Longrightarrow> mk (pa + of_nat k * 4096) = Some (t' ! k)
           \<and> is_x (t' ! k) 3 \<and> s2tte_pa (t' ! k) 3 = Some (pa + of_nat k * 4096)" by blast
  have "s2tte_map_size 3 = Some 4096" by (simp add: s2tte_map_size_def s2tte_values)
  moreover have "t' \<noteq> []" using len by auto
  ultimately have "table_maps_block t' 3 is_x = Some True"
    using e len assms(1) by (subst table_maps_block_iff) (auto intro!: exI [of _ pa])
  moreover have "addr_level_mask (t' ! 0) 3 = pa"
    using e [of 0] by (simp add: s2tte_pa_def bind_assert_c split: if_splits)
  ultimately show ?thesis using t' len by blast
qed

end

lemma s2tte_pa_page:
  "s2tte_is_valid_ns e 3 \<Longrightarrow> s2tte_pa e 3 = Some (addr_level_mask e 3)"
  by (simp add: s2tte_pa_def s2tte_iffs)

interpretation assigned_pages: page_kind "\<lambda>pa. s2tte_create_assigned_empty pa 3" s2tte_is_assigned
proof unfold_locales
  show "addr_is_level_aligned pa 3 \<Longrightarrow> s2tte_create_assigned_empty pa 3 \<noteq> None" for pa
    by (simp add: s2tte_create_assigned_empty_def s2tte_values)
qed (auto dest: created_assigned_empty)

interpretation valid_pages: page_kind "\<lambda>pa. s2tte_create_valid pa 3" s2tte_is_valid
proof unfold_locales
  show "addr_is_level_aligned pa 3 \<Longrightarrow> s2tte_create_valid pa 3 \<noteq> None" for pa
    by (simp add: s2tte_create_valid_def s2tte_values)
qed (auto dest: created_valid_page)

interpretation valid_ns_pages: page_kind "\<lambda>pa. s2tte_create_valid_ns pa 3" s2tte_is_valid_ns
proof unfold_locales
  fix pa e
  show "s2tte_create_valid_ns pa 3 \<noteq> None"
    by (simp add: s2tte_create_valid_ns_def s2tte_values)
  assume "s2tte_create_valid_ns pa 3 = Some e" and al: "addr_is_level_aligned pa 3"
  then have e: "e = pa OR 0xC0000000000403"
    by (simp add: s2tte_create_valid_ns_def s2tte_values)
  note low = aligned_and_low [OF al, simplified]
  show *: "s2tte_is_valid_ns e 3"
    by (simp add: s2tte_iffs e low bit.conj_disj_distrib2)
  have "addr_level_mask e 3 = pa" unfolding e by (intro mask_of_or al) simp
  with s2tte_pa_page [OF *] show "s2tte_pa e 3 = Some pa" by simp
qed

end
