(* ===== verification/Realm_Desc.thy ===== *)
theory Realm_Desc
  imports Slot_Buffer S2tt
begin

text \<open>
  The inline functions of lib/realm/include/realm.h on realm descriptors and RECs, the
  sizes and slots of lib/measurement, and the invalidation of the stage 2 TLB.
\<close>

definition REALM_STATE_NEW :: u64 where [word_consts]: "REALM_STATE_NEW = 0"
definition REALM_STATE_ACTIVE :: u64 where [word_consts]: "REALM_STATE_ACTIVE = 1"
definition REALM_STATE_SYSTEM_OFF :: u64 where [word_consts]: "REALM_STATE_SYSTEM_OFF = 2"

section \<open>Address ranges\<close>

definition realm_ipa_bits :: "rd \<Rightarrow> nat" where
  "realm_ipa_bits rd = s2_ipa_bits (rd_s2_ctx rd)"

definition realm_ipa_size :: "rd \<Rightarrow> u64" where
  "realm_ipa_size rd = push_bit (realm_ipa_bits rd) 1"

definition realm_par_size :: "rd \<Rightarrow> u64" where
  "realm_par_size rd = realm_ipa_size rd div 2"

definition realm_rtt_starting_level :: "rd \<Rightarrow> int" where
  "realm_rtt_starting_level rd = s2_starting_level (rd_s2_ctx rd)"

definition addr_is_contained :: "u64 \<Rightarrow> u64 \<Rightarrow> u64 \<Rightarrow> bool option" where
  "addr_is_contained container_base container_end address = do {
     assert_c (container_base \<le> container_end - 1);
     Some (container_base \<le> address \<and> address \<le> container_end - 1)
   }"

definition region_is_contained :: "u64 \<Rightarrow> u64 \<Rightarrow> u64 \<Rightarrow> u64 \<Rightarrow> bool option" where
  "region_is_contained container_base container_end region_base region_end = do {
     assert_c (region_base \<le> region_end - 1);
     lo \<leftarrow> addr_is_contained container_base container_end region_base;
     if \<not> lo then Some False
     else addr_is_contained container_base container_end (region_end - 1)
   }"

definition rec_ipa_size :: "rec \<Rightarrow> u64" where
  "rec_ipa_size rec = push_bit (ri_ipa_bits (rec_realm_info rec)) 1"

definition rec_par_size :: "rec \<Rightarrow> u64" where
  "rec_par_size rec = rec_ipa_size rec div 2"

definition addr_in_rec_par :: "rec \<Rightarrow> u64 \<Rightarrow> bool" where
  "addr_in_rec_par rec addr = (addr < rec_par_size rec)"

definition region_in_rec_par :: "rec \<Rightarrow> u64 \<Rightarrow> u64 \<Rightarrow> bool option" where
  "region_in_rec_par rec base limit = region_is_contained 0 (rec_par_size rec) base limit"

definition addr_in_par :: "rd \<Rightarrow> u64 \<Rightarrow> bool" where
  "addr_in_par rd addr = (addr < realm_par_size rd)"

section \<open>Measurements\<close>

text \<open>
  The hash functions are those of Mbed TLS and a parameter \<open>hash\<close> of the commands that
  extend a measurement.  Its argument is what the code lays out in the descriptor it
  hashes; the byte layout of the descriptors (measurement.h) is not modelled.
\<close>

datatype measure_input =
    MeasGranule "u8 list"
  | MeasDescData digest u64 u64 digest      \<comment> \<open>rim, ipa, flags, content\<close>
  | MeasDescRec digest digest               \<comment> \<open>rim, content\<close>
  | MeasDescRipas digest u64 u8            \<comment> \<open>rim, ipa, level\<close>
  | MeasRecParams u64 u64 "u64 list"        \<comment> \<open>pc, flags, gprs\<close>
  | MeasRealmParams u8                      \<comment> \<open>hash_algo; every other byte is zero\<close>
  | MeasExtend digest "u8 list"             \<comment> \<open>current value followed by the data\<close>

type_synonym hash_fun = "hash_algo \<Rightarrow> measure_input \<Rightarrow> digest"

fun measurement_get_size :: "hash_algo \<Rightarrow> nat" where
  "measurement_get_size HASH_ALGO_SHA256 = 32"
| "measurement_get_size HASH_ALGO_SHA512 = 64"

text \<open>\<^verbatim>\<open>measurement_hash_compute\<close> overwrites the first bytes of \<open>out\<close> with the digest.\<close>

definition measurement_hash_compute ::
  "hash_fun \<Rightarrow> hash_algo \<Rightarrow> measure_input \<Rightarrow> digest \<Rightarrow> digest" where
  "measurement_hash_compute hash algo data out =
     take (measurement_get_size algo) (hash algo data) @ drop (measurement_get_size algo) out"

text \<open>
  \<^verbatim>\<open>measurement_extend\<close>; the result replaces the current value.  For SHA-512 the code
  passes the size of the data where it means their address
  (\<^verbatim>\<open>measurement_extend_sha512\<close>): unless there is nothing to read, it reads from an
  address below a page and faults.
\<close>

definition measurement_extend ::
  "hash_fun \<Rightarrow> hash_algo \<Rightarrow> digest \<Rightarrow> u8 list \<Rightarrow> digest option" where
  "measurement_extend hash algo current data = do {
     let n = measurement_get_size algo;
     assert_c (length data \<le> 4096);
     (case algo of
        HASH_ALGO_SHA256 \<Rightarrow> Some ()
      | HASH_ALGO_SHA512 \<Rightarrow> assert_c (length data = 0));
     Some (take n (hash algo (MeasExtend (take n current) data)) @ drop n current)
   }"

text \<open>The \<^verbatim>\<open>rim\<close> field of a zeroed descriptor after the copy of the current RIM.\<close>

definition rim_field :: "rd \<Rightarrow> digest" where
  "rim_field rd =
     (let n = measurement_get_size (rd_algorithm rd)
      in take n (rd_measurement rd ! 0) @ drop n zero_digest)"

definition set_rim :: "digest \<Rightarrow> rd \<Rightarrow> rd" where
  "set_rim d rd = rd\<lparr>rd_measurement := (rd_measurement rd)[0 := d]\<rparr>"

section \<open>Invalidation of the stage 2 TLB\<close>

text \<open>
  \<^verbatim>\<open>stage2_tlbi_ipa\<close>: one invalidation per granule of the region, then everything of
  stage 1 tagged with the VMID.  Both callers pass a multiple of the granule size, for
  which the loop over \<^verbatim>\<open>size\<close> makes \<^verbatim>\<open>size / GRANULE_SIZE\<close> rounds.  VTTBR_EL2 is saved
  and restored around the loop, so it has no counterpart in the state.
\<close>

definition stage2_tlbi_ipa :: "realm_s2_context \<Rightarrow> u64 \<Rightarrow> u64 \<Rightarrow> rmm \<Rightarrow> rmm" where
  "stage2_tlbi_ipa s2_ctx ipa sz s =
     s\<lparr>trace := trace s
         @ map (\<lambda>k. EvTlbiIpa (s2_vmid s2_ctx) (drop_bit 12 (ipa + of_nat k * GRANULE_SIZE)))
               [0..<unat (sz div GRANULE_SIZE)]
         @ [EvTlbiVmall (s2_vmid s2_ctx)]\<rparr>"

definition BLOCK_L2_SIZE :: u64 where
  [word_consts]: "BLOCK_L2_SIZE = GRANULE_SIZE * of_nat S2TTES_PER_S2TT"

definition invalidate_page :: "realm_s2_context \<Rightarrow> u64 \<Rightarrow> rmm \<Rightarrow> rmm" where
  "invalidate_page s2_ctx addr s = stage2_tlbi_ipa s2_ctx addr GRANULE_SIZE s"

definition invalidate_block :: "realm_s2_context \<Rightarrow> u64 \<Rightarrow> rmm \<Rightarrow> rmm" where
  "invalidate_block s2_ctx addr s = stage2_tlbi_ipa s2_ctx addr GRANULE_SIZE s"

definition invalidate_pages_in_block :: "realm_s2_context \<Rightarrow> u64 \<Rightarrow> rmm \<Rightarrow> rmm" where
  "invalidate_pages_in_block s2_ctx addr s = stage2_tlbi_ipa s2_ctx addr BLOCK_L2_SIZE s"

lemma stage2_tlbi_ipa_simps [simp]:
  "granules (stage2_tlbi_ipa c a z s) = granules s" "glock (stage2_tlbi_ipa c a z s) = glock s"
  "content (stage2_tlbi_ipa c a z s) = content s" "slots (stage2_tlbi_ipa c a z s) = slots s"
  "vmids (stage2_tlbi_ipa c a z s) = vmids s"
  by (simp_all add: stage2_tlbi_ipa_def)

lemma invalidate_simps [simp]:
  "granules (invalidate_page c a s) = granules s" "glock (invalidate_page c a s) = glock s"
  "content (invalidate_page c a s) = content s" "slots (invalidate_page c a s) = slots s"
  "vmids (invalidate_page c a s) = vmids s"
  "granules (invalidate_block c a s) = granules s" "glock (invalidate_block c a s) = glock s"
  "content (invalidate_block c a s) = content s" "slots (invalidate_block c a s) = slots s"
  "vmids (invalidate_block c a s) = vmids s"
  "granules (invalidate_pages_in_block c a s) = granules s"
  "glock (invalidate_pages_in_block c a s) = glock s"
  "content (invalidate_pages_in_block c a s) = content s"
  "slots (invalidate_pages_in_block c a s) = slots s"
  "vmids (invalidate_pages_in_block c a s) = vmids s"
  by (simp_all add: invalidate_page_def invalidate_block_def invalidate_pages_in_block_def)

lemma trace_invalidate [simp]:
  "trace (invalidate_page c a s)
     = trace s @ [EvTlbiIpa (s2_vmid c) (drop_bit 12 a), EvTlbiVmall (s2_vmid c)]"
  "trace (invalidate_block c a s)
     = trace s @ [EvTlbiIpa (s2_vmid c) (drop_bit 12 a), EvTlbiVmall (s2_vmid c)]"
  by (simp_all add: invalidate_page_def invalidate_block_def stage2_tlbi_ipa_def GRANULE_SIZE_def
      upt_rec)

end
