(* ===== verification/Rtt_Walk.thy ===== *)
theory Rtt_Walk
  imports Realm_Desc
begin

text \<open>
  Reading and writing entries of mapped tables, and the hand-over-hand table walk
  \<^verbatim>\<open>rtt_walk_lock_unlock\<close> of lib/realm/src/s2tt.c.
\<close>

section \<open>Entries of a table granule\<close>

definition s2tte_read :: "nat \<Rightarrow> u64 \<Rightarrow> rmm \<Rightarrow> u64 option" where
  "s2tte_read g idx s = do {
     t \<leftarrow> table_of (content s g);
     assert_c (unat idx < length t);
     Some (t ! unat idx)
   }"

definition s2tte_write :: "nat \<Rightarrow> u64 \<Rightarrow> u64 \<Rightarrow> rmm \<Rightarrow> rmm option" where
  "s2tte_write g idx tte s = do {
     t \<leftarrow> table_of (content s g);
     assert_c (unat idx < length t);
     Some (emit (EvTteWrite g (unat idx) tte) (set_content g (CTable (t[unat idx := tte])) s))
   }"

section \<open>The walk\<close>

definition NR_RTT_LEVELS :: int where [word_consts]: "NR_RTT_LEVELS = 4"

record rtt_walk =
  g_llt :: nat
  index :: u64
  last_level :: int

definition table_get_entry :: "nat \<Rightarrow> u64 \<Rightarrow> rmm \<Rightarrow> (u64 \<times> rmm) option" where
  "table_get_entry g_tbl idx s = do {
     s \<leftarrow> granule_map g_tbl SLOT_RTT s;
     entry \<leftarrow> s2tte_read g_tbl idx s;
     Some (entry, buffer_unmap SLOT_RTT s)
   }"

definition find_next_level_idx :: "nat \<Rightarrow> u64 \<Rightarrow> rmm \<Rightarrow> (nat option \<times> rmm) option" where
  "find_next_level_idx g_tbl idx s = do {
     (entry, s) \<leftarrow> table_get_entry g_tbl idx s;
     if \<not> entry_is_table entry then Some (None, s)
     else do {
       g \<leftarrow> addr_to_granule (table_entry_to_phys entry);
       Some (Some g, s)
     }
   }"

definition find_lock_next_level ::
  "nat \<Rightarrow> u64 \<Rightarrow> int \<Rightarrow> rmm \<Rightarrow> (nat option \<times> rmm) option" where
  "find_lock_next_level g_tbl map_addr level s = do {
     let idx = s2_addr_to_idx map_addr level;
     (r, s) \<leftarrow> find_next_level_idx g_tbl idx s;
     (case r of
        None \<Rightarrow> Some (None, s)
      | Some g \<Rightarrow> do {
          s \<leftarrow> granule_lock g GRANULE_STATE_RTT s;
          Some (Some g, s)
        })
   }"

text \<open>
  The loop over the levels.  The array \<^verbatim>\<open>g_tbls\<close> is only read at the current index, so
  the current granule is kept; the store to \<^verbatim>\<open>g_tbls[i + 1]\<close> must stay inside the array.
\<close>

function walk_loop :: "nat \<Rightarrow> int \<Rightarrow> int \<Rightarrow> u64 \<Rightarrow> rmm \<Rightarrow> ((nat \<times> int) \<times> rmm) option" where
  "walk_loop g i level map_addr s =
     (if i < level then do {
        assert_c (i + 1 < NR_RTT_LEVELS);
        (r, s) \<leftarrow> find_lock_next_level g map_addr i s;
        (case r of
           None \<Rightarrow> Some ((g, i), s)
         | Some g' \<Rightarrow> do {
             s \<leftarrow> granule_unlock g s;
             walk_loop g' (i + 1) level map_addr s
           })
      } else Some ((g, level), s))"
  by pat_completeness auto
termination
  by (relation "measure (\<lambda>(g, i, level, a, s). nat (level - i))") auto

declare walk_loop.simps [simp del]

definition rtt_walk_lock_unlock ::
  "nat \<Rightarrow> int \<Rightarrow> nat \<Rightarrow> u64 \<Rightarrow> int \<Rightarrow> rmm \<Rightarrow> (rtt_walk \<times> rmm) option" where
  "rtt_walk_lock_unlock g_root start_level ipa_bits map_addr level s = do {
     assert_c (MIN_STARTING_LEVEL \<le> start_level);
     assert_c (start_level \<le> level);
     assert_c (map_addr < push_bit ipa_bits 1);
     let sl_idx = s2_sl_addr_to_idx map_addr start_level ipa_bits;
     (g_root, s) \<leftarrow>
       (if S2TTES_PER_S2TT \<le> unat sl_idx then do {
          let g_concat_root = g_root + unat (drop_bit S2TTE_STRIDE sl_idx);
          s \<leftarrow> granule_lock g_concat_root GRANULE_STATE_RTT s;
          s \<leftarrow> granule_unlock g_root s;
          Some (g_concat_root, s)
        } else Some (g_root, s));
     ((g, last), s) \<leftarrow> walk_loop g_root start_level level map_addr s;
     Some (\<lparr>g_llt = g, index = s2_addr_to_idx map_addr last, last_level = last\<rparr>, s)
   }"

end
