(* ===== verification/Rtt_Invariant.thy ===== *)
theory Rtt_Invariant
  imports Rtt_Walk
begin

text \<open>
  The invariant of the monitor's memory: what the contents of the granules say about each
  other.  Two ghost maps, hidden behind an existential quantifier, explain the contents:
  \<open>lv g\<close> is the level of the table \<open>g\<close>, and \<open>par d\<close> is the one place that refers to
  the granule \<open>d\<close>.  As \<open>par\<close> is a function, no table and no data granule is referred
  to twice.
\<close>

section \<open>Owners\<close>

datatype owner =
    Unowned
  | TteOwner nat nat   \<comment> \<open>table granule and index of the entry\<close>
  | RdOwner nat        \<comment> \<open>starting level table of this realm descriptor\<close>
  | RecOwner nat       \<comment> \<open>auxiliary granule of this REC\<close>

primrec owner_granule :: "owner \<Rightarrow> nat option" where
  "owner_granule Unowned = None"
| "owner_granule (TteOwner g i) = Some g"
| "owner_granule (RdOwner g) = Some g"
| "owner_granule (RecOwner g) = Some g"

abbreviation gst :: "rmm \<Rightarrow> nat \<Rightarrow> granule_state" where
  "gst s g \<equiv> g_state (granules s g)"

abbreviation grc :: "rmm \<Rightarrow> nat \<Rightarrow> u64" where
  "grc s g \<equiv> g_refcount (granules s g)"

fun owned_state :: "granule_state \<Rightarrow> bool" where
  "owned_state GRANULE_STATE_RTT = True"
| "owned_state GRANULE_STATE_DATA = True"
| "owned_state GRANULE_STATE_REC_AUX = True"
| "owned_state _ = False"

section \<open>Entries and tables\<close>

text \<open>The \<open>n\<close> pages from \<open>pa\<close> on are data granules that belong to this entry.\<close>

definition owns_pages :: "(nat \<Rightarrow> owner) \<Rightarrow> rmm \<Rightarrow> nat \<Rightarrow> nat \<Rightarrow> u64 \<Rightarrow> nat \<Rightarrow> bool" where
  "owns_pages par s g i pa n \<longleftrightarrow>
     (\<forall>k<n. \<exists>d. find_granule (pa + of_nat k * 4096) = Some d
        \<and> gst s d = GRANULE_STATE_DATA \<and> par d = TteOwner g i)"

definition leaf_entry :: "u64 \<Rightarrow> bool" where
  "leaf_entry e \<longleftrightarrow> e = 0 \<or> e = 0x40 \<or> e = 8"

definition table_entry_ok ::
  "(nat \<Rightarrow> int) \<Rightarrow> (nat \<Rightarrow> owner) \<Rightarrow> rmm \<Rightarrow> nat \<Rightarrow> nat \<Rightarrow> u64 \<Rightarrow> bool" where
  "table_entry_ok lv par s g i e \<longleftrightarrow> s2tte_is_table e (lv g)
     \<and> (\<exists>c. find_granule (addr_level_mask e 3) = Some c \<and> gst s c = GRANULE_STATE_RTT
          \<and> lv c = lv g + 1 \<and> par c = TteOwner g i)"

text \<open>
  An entry is a leaf without memory, a table, a page of data, a block of data (only
  HIPAS=ASSIGNED is ever folded into one), a page of the host or a block of the host.
\<close>

definition entry_ok ::
  "(nat \<Rightarrow> int) \<Rightarrow> (nat \<Rightarrow> owner) \<Rightarrow> rmm \<Rightarrow> nat \<Rightarrow> nat \<Rightarrow> u64 \<Rightarrow> bool" where
  "entry_ok lv par s g i e \<longleftrightarrow>
     leaf_entry e
   \<or> table_entry_ok lv par s g i e
   \<or> lv g = 3 \<and> (s2tte_is_assigned e 3 \<or> s2tte_is_valid e 3)
       \<and> owns_pages par s g i (addr_level_mask e 3) 1
   \<or> lv g = 2 \<and> s2tte_is_assigned e 2 \<and> owns_pages par s g i (addr_level_mask e 2) 512
   \<or> lv g = 3 \<and> s2tte_is_valid_ns e 3
   \<or> lv g = 2 \<and> e AND 3 = 1 \<and> e AND S2TTE_NS \<noteq> 0"

text \<open>
  The reference count of a table is the number of its entries that hold a reference, as
  granule_types.h documents it.
\<close>

definition ref_count :: "u64 list \<Rightarrow> nat" where
  "ref_count t = length (filter s2tte_refs t)"

definition rtt_ok :: "(nat \<Rightarrow> int) \<Rightarrow> (nat \<Rightarrow> owner) \<Rightarrow> rmm \<Rightarrow> nat \<Rightarrow> bool" where
  "rtt_ok lv par s g \<longleftrightarrow> 0 \<le> lv g \<and> lv g \<le> 3
     \<and> (\<exists>t. table_of (content s g) = Some t \<and> length t = 512
          \<and> grc s g = of_nat (ref_count t)
          \<and> (\<forall>i<512. entry_ok lv par s g i (t ! i)))"

section \<open>Realm descriptors and RECs\<close>

text \<open>The configurations of stage 2 that \<^verbatim>\<open>validate_realm_params\<close> lets through.\<close>

definition s2_ctx_ok :: "realm_s2_context \<Rightarrow> bool" where
  "s2_ctx_ok c \<longleftrightarrow> 0 \<le> s2_starting_level c \<and> s2_starting_level c \<le> 3
     \<and> 32 \<le> s2_ipa_bits c \<and> s2_ipa_bits c \<le> 48
     \<and> level_lsb (s2_starting_level c) < s2_ipa_bits c
     \<and> s2_root_rtts c = (if s2_ipa_bits c \<le> level_lsb (s2_starting_level c) + 9 then 1
                         else 2 ^ (s2_ipa_bits c - (level_lsb (s2_starting_level c) + 9)))
     \<and> s2_root_rtts c \<le> 16"

definition rd_ok :: "(nat \<Rightarrow> int) \<Rightarrow> (nat \<Rightarrow> owner) \<Rightarrow> rmm \<Rightarrow> nat \<Rightarrow> bool" where
  "rd_ok lv par s g \<longleftrightarrow>
     (\<exists>rd. content s g = CRd rd \<and> s2_ctx_ok (rd_s2_ctx rd)
        \<and> length (rd_measurement rd) = 5
        \<and> (\<forall>k < s2_root_rtts (rd_s2_ctx rd).
             s2_g_rtt (rd_s2_ctx rd) + k < RMM_MAX_GRANULES
           \<and> gst s (s2_g_rtt (rd_s2_ctx rd) + k) = GRANULE_STATE_RTT
           \<and> lv (s2_g_rtt (rd_s2_ctx rd) + k) = s2_starting_level (rd_s2_ctx rd)
           \<and> par (s2_g_rtt (rd_s2_ctx rd) + k) = RdOwner g))"

definition rec_ok :: "(nat \<Rightarrow> owner) \<Rightarrow> rmm \<Rightarrow> nat \<Rightarrow> bool" where
  "rec_ok par s g \<longleftrightarrow>
     (\<exists>rec. content s g = CRec rec \<and> rec_g_rec rec = g \<and> length (rec_regs rec) = 31
        \<and> rec_num_rec_aux rec = length (rec_g_aux rec) \<and> length (rec_g_aux rec) \<le> 16
        \<and> distinct (rec_g_aux rec)
        \<and> (\<forall>a\<in>set (rec_g_aux rec). a < RMM_MAX_GRANULES
             \<and> gst s a = GRANULE_STATE_REC_AUX \<and> par a = RecOwner g))"

fun granule_ok_in ::
  "granule_state \<Rightarrow> (nat \<Rightarrow> int) \<Rightarrow> (nat \<Rightarrow> owner) \<Rightarrow> rmm \<Rightarrow> nat \<Rightarrow> bool" where
  "granule_ok_in GRANULE_STATE_NS lv par s g = True"
| "granule_ok_in GRANULE_STATE_DELEGATED lv par s g = (content s g = CZero)"
| "granule_ok_in GRANULE_STATE_RD lv par s g = rd_ok lv par s g"
| "granule_ok_in GRANULE_STATE_REC lv par s g = rec_ok par s g"
| "granule_ok_in GRANULE_STATE_REC_AUX lv par s g = True"
| "granule_ok_in GRANULE_STATE_DATA lv par s g = (content s g = CZero \<or> (\<exists>d. content s g = CData d))"
| "granule_ok_in GRANULE_STATE_RTT lv par s g = rtt_ok lv par s g"

definition granule_ok :: "(nat \<Rightarrow> int) \<Rightarrow> (nat \<Rightarrow> owner) \<Rightarrow> rmm \<Rightarrow> nat \<Rightarrow> bool" where
  "granule_ok lv par s g \<longleftrightarrow> unlocked_ok s g \<and> granule_ok_in (gst s g) lv par s g"

section \<open>RECs and their realm\<close>

definition recs_of :: "rmm \<Rightarrow> nat \<Rightarrow> nat set" where
  "recs_of s g = {r. r < RMM_MAX_GRANULES \<and> gst s r = GRANULE_STATE_REC
     \<and> (\<exists>rec. content s r = CRec rec \<and> ri_g_rd (rec_realm_info rec) = g)}"

text \<open>The REC carries a copy of the stage 2 configuration of its realm.\<close>

definition info_matches :: "realm_info \<Rightarrow> realm_s2_context \<Rightarrow> bool" where
  "info_matches ri c \<longleftrightarrow> ri_ipa_bits ri = s2_ipa_bits c
     \<and> ri_s2_starting_level ri = s2_starting_level c \<and> ri_g_rtt ri = s2_g_rtt c"

definition rec_linked :: "rmm \<Rightarrow> nat \<Rightarrow> bool" where
  "rec_linked s r \<longleftrightarrow>
     (\<forall>rec. content s r = CRec rec \<longrightarrow>
        ri_g_rd (rec_realm_info rec) < RMM_MAX_GRANULES
      \<and> gst s (ri_g_rd (rec_realm_info rec)) = GRANULE_STATE_RD
      \<and> (\<forall>rd. content s (ri_g_rd (rec_realm_info rec)) = CRd rd \<longrightarrow>
            info_matches (rec_realm_info rec) (rd_s2_ctx rd)))"

text \<open>The reference count of a realm descriptor is the number of RECs of the realm.\<close>

definition links_ok :: "rmm \<Rightarrow> bool" where
  "links_ok s \<longleftrightarrow> (\<forall>g<RMM_MAX_GRANULES.
     (gst s g = GRANULE_STATE_REC \<longrightarrow> rec_linked s g)
   \<and> (gst s g = GRANULE_STATE_RD \<longrightarrow> grc s g = of_nat (card (recs_of s g))))"

section \<open>The invariant\<close>

definition inv_with :: "(nat \<Rightarrow> int) \<Rightarrow> (nat \<Rightarrow> owner) \<Rightarrow> rmm \<Rightarrow> bool" where
  "inv_with lv par s \<longleftrightarrow> (\<forall>g<RMM_MAX_GRANULES. granule_ok lv par s g) \<and> links_ok s"

definition inv :: "rmm \<Rightarrow> bool" where
  "inv s \<longleftrightarrow> (\<exists>lv par. inv_with lv par s)"

text \<open>Between commands no lock is held and no slot is in use.\<close>

definition quiet :: "rmm \<Rightarrow> bool" where
  "quiet s \<longleftrightarrow> (\<forall>g. \<not> glock s g) \<and> (\<forall>k. slots s k = None)"

section \<open>The invariant looks at granules and contents only\<close>

named_theorems inv_defs \<open>the predicates the invariant is made of\<close>

lemmas [inv_defs] =
  owns_pages_def table_entry_ok_def entry_ok_def rtt_ok_def rd_ok_def rec_ok_def
  granule_ok_def unlocked_ok_def

lemma granule_ok_in_cong:
  assumes "granules s = granules s'" and "content s = content s'"
  shows "granule_ok_in st lv par s g = granule_ok_in st lv par s' g"
  using assms by (cases st) (simp_all add: inv_defs)

lemma inv_with_cong:
  assumes "granules s = granules s'" and "content s = content s'"
  shows "inv_with lv par s = inv_with lv par s'"
  using assms granule_ok_in_cong [OF assms]
  by (simp add: inv_with_def granule_ok_def unlocked_ok_def links_ok_def rec_linked_def
      recs_of_def)

lemma inv_with_same:
  "inv_with lv par s \<Longrightarrow> granules s' = granules s \<Longrightarrow> content s' = content s
     \<Longrightarrow> inv_with lv par s'"
  using inv_with_cong [of s s'] by simp

lemma inv_defI: "inv_with lv par s \<Longrightarrow> inv s"
  by (auto simp: inv_def)

lemma inv_same: "inv s \<Longrightarrow> granules s' = granules s \<Longrightarrow> content s' = content s \<Longrightarrow> inv s'"
  using inv_with_same unfolding inv_def by blast

lemma inv_cong: "same_state s s' \<Longrightarrow> inv s = inv s'"
  using inv_with_cong [of s s'] by (auto simp: inv_def same_state_def)

lemma quiet_cong: "same_state s s' \<Longrightarrow> quiet s = quiet s'"
  by (auto simp: quiet_def same_state_def)

lemma inv_with_granule: "inv_with lv par s \<Longrightarrow> g < RMM_MAX_GRANULES \<Longrightarrow> granule_ok lv par s g"
  by (simp add: inv_with_def)

lemma inv_with_unlocked: "inv_with lv par s \<Longrightarrow> g < RMM_MAX_GRANULES \<Longrightarrow> unlocked_ok s g"
  by (simp add: inv_with_def granule_ok_def)

lemma inv_with_rtt:
  assumes "inv_with lv par s" and "g < RMM_MAX_GRANULES" and "gst s g = GRANULE_STATE_RTT"
  obtains t where "0 \<le> lv g" "lv g \<le> 3" "table_of (content s g) = Some t" "length t = 512"
    "grc s g = of_nat (ref_count t)" "\<And>i. i < 512 \<Longrightarrow> entry_ok lv par s g i (t ! i)"
  using inv_with_granule [OF assms(1,2)] assms(3) by (auto simp: granule_ok_def rtt_ok_def)

lemma inv_with_rd:
  assumes "inv_with lv par s" and "g < RMM_MAX_GRANULES" and "gst s g = GRANULE_STATE_RD"
  shows "rd_ok lv par s g"
  using inv_with_granule [OF assms(1,2)] assms(3) by (simp add: granule_ok_def)

lemma inv_with_delegated:
  assumes "inv_with lv par s" and "g < RMM_MAX_GRANULES"
    and "gst s g = GRANULE_STATE_DELEGATED"
  shows "content s g = CZero"
  using inv_with_granule [OF assms(1,2)] assms(3) by (simp add: granule_ok_def)

section \<open>Frames\<close>

text \<open>What a step may not change about a granule that somebody else refers to.\<close>

definition kept ::
  "(nat \<Rightarrow> int) \<Rightarrow> (nat \<Rightarrow> owner) \<Rightarrow> rmm \<Rightarrow> (nat \<Rightarrow> int) \<Rightarrow> (nat \<Rightarrow> owner) \<Rightarrow> rmm \<Rightarrow> nat \<Rightarrow> bool"
where
  "kept lv par s lv' par' s' d \<longleftrightarrow> gst s' d = gst s d \<and> lv' d = lv d \<and> par' d = par d"

lemma owns_pages_frame:
  assumes "owns_pages par s g i pa n"
    and "\<And>d. owned_state (gst s d) \<Longrightarrow> par d = TteOwner g i \<Longrightarrow> kept lv par s lv' par' s' d"
  shows "owns_pages par' s' g i pa n"
  using assms unfolding owns_pages_def kept_def by (metis owned_state.simps(2))

lemma table_entry_ok_frame:
  assumes "table_entry_ok lv par s g i e" and "lv' g = lv g"
    and "\<And>d. owned_state (gst s d) \<Longrightarrow> par d = TteOwner g i \<Longrightarrow> kept lv par s lv' par' s' d"
  shows "table_entry_ok lv' par' s' g i e"
  using assms unfolding table_entry_ok_def kept_def by (metis owned_state.simps(1))

lemma entry_ok_frame:
  assumes "entry_ok lv par s g i e" and "lv' g = lv g"
    and "\<And>d. owned_state (gst s d) \<Longrightarrow> par d = TteOwner g i \<Longrightarrow> kept lv par s lv' par' s' d"
  shows "entry_ok lv' par' s' g i e"
  using assms(1) owns_pages_frame [OF _ assms(3)] table_entry_ok_frame [OF _ assms(2,3)] assms(2)
  unfolding entry_ok_def by auto

lemma rd_ok_frame:
  assumes "rd_ok lv par s g" and "content s' g = content s g"
    and "\<And>d. owned_state (gst s d) \<Longrightarrow> par d = RdOwner g \<Longrightarrow> kept lv par s lv' par' s' d"
  shows "rd_ok lv' par' s' g"
  using assms unfolding rd_ok_def kept_def by (metis owned_state.simps(1))

lemma rec_ok_frame:
  assumes "rec_ok par s g" and "content s' g = content s g"
    and "\<And>d. owned_state (gst s d) \<Longrightarrow> par d = RecOwner g \<Longrightarrow> kept lv par s lv' par' s' d"
  shows "rec_ok par' s' g"
  using assms unfolding rec_ok_def kept_def by (metis owned_state.simps(3))

lemma rtt_ok_frame:
  assumes "rtt_ok lv par s g" and "content s' g = content s g" and "grc s' g = grc s g"
    and "lv' g = lv g"
    and "\<And>d i. owned_state (gst s d) \<Longrightarrow> par d = TteOwner g i \<Longrightarrow> kept lv par s lv' par' s' d"
  shows "rtt_ok lv' par' s' g"
  using assms(1-4) entry_ok_frame [where lv' = lv' and par' = par' and s' = s', OF _ assms(4,5)]
  unfolding rtt_ok_def by auto

lemma granule_ok_frame:
  assumes ok: "granule_ok lv par s g" and gr: "granules s' g = granules s g"
    and co: "content s' g = content s g" and lv: "lv' g = lv g"
    and fr: "\<And>d. owned_state (gst s d) \<Longrightarrow> owner_granule (par d) = Some g
               \<Longrightarrow> kept lv par s lv' par' s' d"
  shows "granule_ok lv' par' s' g"
proof -
  have "granule_ok_in (gst s g) lv' par' s' g"
  proof (cases "gst s g")
    case GRANULE_STATE_RD
    then show ?thesis using ok co fr
      by (auto simp: granule_ok_def intro!: rd_ok_frame [of lv par s g s' lv' par'])
  next
    case GRANULE_STATE_REC
    then show ?thesis using ok co fr
      by (auto simp: granule_ok_def intro!: rec_ok_frame [of par s g s' lv lv' par'])
  next
    case GRANULE_STATE_RTT
    then show ?thesis using ok co gr lv fr
      by (auto simp: granule_ok_def intro!: rtt_ok_frame [of lv par s g s' lv' par'])
  qed (use ok co in \<open>auto simp: granule_ok_def\<close>)
  then show ?thesis using ok gr by (simp add: granule_ok_def unlocked_ok_def)
qed

text \<open>
  A step that touches only the granules in \<open>T\<close> keeps the invariant if the granules in
  \<open>T\<close> are in order afterwards and nothing that others refer to has changed.
\<close>

lemma inv_with_step:
  assumes "inv_with lv par s" and "links_ok s'"
    and "\<And>g. g \<notin> T \<Longrightarrow> granules s' g = granules s g \<and> content s' g = content s g \<and> lv' g = lv g"
    and "\<And>g d. g \<notin> T \<Longrightarrow> owned_state (gst s d) \<Longrightarrow> owner_granule (par d) = Some g
           \<Longrightarrow> kept lv par s lv' par' s' d"
    and "\<And>g. g \<in> T \<Longrightarrow> g < RMM_MAX_GRANULES \<Longrightarrow> granule_ok lv' par' s' g"
  shows "inv_with lv' par' s'"
  unfolding inv_with_def
proof (intro conjI allI impI)
  fix g assume g: "g < RMM_MAX_GRANULES"
  show "granule_ok lv' par' s' g"
  proof (cases "g \<in> T")
    case True
    then show ?thesis using assms(5) g by blast
  next
    case False
    then show ?thesis
      using granule_ok_frame [OF inv_with_granule [OF assms(1) g], of s' lv' par'] assms(3,4)
      by blast
  qed
qed (rule assms(2))

section \<open>One entry of a table is replaced\<close>

definition ref_word :: "u64 \<Rightarrow> u64" where
  "ref_word e = (if s2tte_refs e then 1 else 0)"

lemma ref_count_update:
  assumes "i < length t"
  shows "(of_nat (ref_count (t[i := e])) :: u64)
    = of_nat (ref_count t) - ref_word (t ! i) + ref_word e"
proof -
  have *: "ref_count (t[i := e]) + (if s2tte_refs (t ! i) then 1 else 0)
    = ref_count t + (if s2tte_refs e then 1 else 0)"
    unfolding ref_count_def using assms by (rule length_filter_update)
  have "(of_nat (ref_count (t[i := e])) :: u64) + ref_word (t ! i)
    = of_nat (ref_count (t[i := e]) + (if s2tte_refs (t ! i) then 1 else 0))"
    by (simp add: ref_word_def)
  also have "\<dots> = of_nat (ref_count t) + ref_word e"
    unfolding * by (simp add: ref_word_def)
  finally show ?thesis by (simp add: algebra_simps)
qed

lemma ref_count_le: "ref_count t \<le> length t"
  by (simp add: ref_count_def)

lemma rtt_ok_update:
  assumes ok: "rtt_ok lv par s g" and t: "table_of (content s g) = Some t" and i: "i < 512"
    and t': "table_of (content s' g) = Some (t[i := e])"
    and rc: "grc s' g = grc s g - ref_word (t ! i) + ref_word e"
    and lv: "lv' g = lv g" and e: "entry_ok lv' par' s' g i e"
    and fr: "\<And>j d. j \<noteq> i \<Longrightarrow> owned_state (gst s d) \<Longrightarrow> par d = TteOwner g j
               \<Longrightarrow> kept lv par s lv' par' s' d"
  shows "rtt_ok lv' par' s' g"
proof -
  from ok t have len: "length t = 512" and cnt: "grc s g = of_nat (ref_count t)"
    and en: "\<And>j. j < 512 \<Longrightarrow> entry_ok lv par s g j (t ! j)" and l: "0 \<le> lv g" "lv g \<le> 3"
    by (auto simp: rtt_ok_def)
  have "entry_ok lv' par' s' g j (t[i := e] ! j)" if "j < 512" for j
  proof (cases "j = i")
    case True
    then show ?thesis using e i len by simp
  next
    case False
    then have "entry_ok lv' par' s' g j (t ! j)"
      using entry_ok_frame [of lv par s g j "t ! j" lv' par' s'] en [OF that] lv fr by blast
    then show ?thesis using False by simp
  qed
  moreover have "grc s' g = of_nat (ref_count (t[i := e]))"
    using ref_count_update [of i t e] i len cnt rc by simp
  ultimately show ?thesis using t' len l lv by (simp add: rtt_ok_def)
qed

section \<open>Steps that leave the link between RECs and realms alone\<close>

definition same_links :: "rmm \<Rightarrow> rmm \<Rightarrow> nat \<Rightarrow> bool" where
  "same_links s s' g \<longleftrightarrow>
     (gst s' g = GRANULE_STATE_REC \<longleftrightarrow> gst s g = GRANULE_STATE_REC)
   \<and> (gst s' g = GRANULE_STATE_RD \<longleftrightarrow> gst s g = GRANULE_STATE_RD)
   \<and> (gst s g = GRANULE_STATE_REC \<longrightarrow> (content s' g = content s g
        \<or> (\<exists>r r'. content s g = CRec r \<and> content s' g = CRec r'
              \<and> rec_realm_info r' = rec_realm_info r)))
   \<and> (gst s g = GRANULE_STATE_RD \<longrightarrow> grc s' g = grc s g \<and> (content s' g = content s g
        \<or> (\<exists>r r'. content s g = CRd r \<and> content s' g = CRd r'
              \<and> rd_s2_ctx r' = rd_s2_ctx r)))"

lemma same_links_same:
  "granules s' g = granules s g \<Longrightarrow> content s' g = content s g \<Longrightarrow> same_links s s' g"
  by (simp add: same_links_def)

lemma links_ok_frame:
  assumes ok: "links_ok s" and sl: "\<And>g. same_links s s' g"
  shows "links_ok s'"
proof -
  have rec: "gst s' g = GRANULE_STATE_REC \<longleftrightarrow> gst s g = GRANULE_STATE_REC"
    and rd: "gst s' g = GRANULE_STATE_RD \<longleftrightarrow> gst s g = GRANULE_STATE_RD" for g
    using sl [of g] by (simp_all add: same_links_def)
  have bk: "gst s g = GRANULE_STATE_REC \<Longrightarrow> content s' g = CRec r' \<Longrightarrow>
    \<exists>r. content s g = CRec r \<and> rec_realm_info r' = rec_realm_info r" for g r'
    using sl [of g] unfolding same_links_def by (metis content.inject(4))
  have fw: "gst s g = GRANULE_STATE_REC \<Longrightarrow> content s g = CRec r \<Longrightarrow>
    \<exists>r'. content s' g = CRec r' \<and> rec_realm_info r' = rec_realm_info r" for g r
    using sl [of g] unfolding same_links_def by (metis content.inject(4))
  have rdback: "gst s g = GRANULE_STATE_RD \<Longrightarrow> content s' g = CRd r' \<Longrightarrow>
    \<exists>r. content s g = CRd r \<and> rd_s2_ctx r' = rd_s2_ctx r" for g r'
    using sl [of g] unfolding same_links_def by (metis content.inject(3))
  have "recs_of s' g = recs_of s g" for g
    unfolding recs_of_def rec using bk fw by (auto; metis)
  moreover have "rec_linked s' g" if "gst s g = GRANULE_STATE_REC" "rec_linked s g" for g
    using that bk [of g] rdback unfolding rec_linked_def rd by metis
  moreover have "gst s g = GRANULE_STATE_RD \<Longrightarrow> grc s' g = grc s g" for g
    using sl [of g] by (simp add: same_links_def)
  ultimately show ?thesis
    using ok unfolding links_ok_def rec rd by simp
qed

end
