(* ===== verification/Walk_Correct.thy ===== *)
theory Walk_Correct
  imports Rtt_Invariant
begin

text \<open>
  The hand-over-hand walk against its specification: a walk over the contents of the
  tables that knows nothing of locks.  Under the invariant the locked walk never fails,
  finds what the specification finds, and ends with exactly one table locked.
\<close>

section \<open>The specification\<close>

definition pt_next :: "(nat \<Rightarrow> content) \<Rightarrow> nat \<Rightarrow> int \<Rightarrow> u64 \<Rightarrow> nat option" where
  "pt_next C g i addr = do {
     t \<leftarrow> table_of (C g);
     let e = t ! unat (s2_addr_to_idx addr i);
     if entry_is_table e then find_granule (table_entry_to_phys e) else None
   }"

function pt_walk :: "(nat \<Rightarrow> content) \<Rightarrow> nat \<Rightarrow> int \<Rightarrow> int \<Rightarrow> u64 \<Rightarrow> nat \<times> int" where
  "pt_walk C g i level addr =
     (if i < level then
        case pt_next C g i addr of
          None \<Rightarrow> (g, i)
        | Some g' \<Rightarrow> pt_walk C g' (i + 1) level addr
      else (g, level))"
  by pat_completeness auto
termination
  by (relation "measure (\<lambda>(C, g, i, level, a). nat (level - i))") auto

declare pt_walk.simps [simp del]

text \<open>The starting table: the address selects one of the concatenated tables.\<close>

definition pt_root :: "realm_s2_context \<Rightarrow> u64 \<Rightarrow> nat" where
  "pt_root c addr = s2_g_rtt c
     + unat (drop_bit 9 (s2_sl_addr_to_idx addr (s2_starting_level c) (s2_ipa_bits c)))"

definition pt_find :: "(nat \<Rightarrow> content) \<Rightarrow> realm_s2_context \<Rightarrow> u64 \<Rightarrow> int \<Rightarrow> nat \<times> int" where
  "pt_find C c addr level = pt_walk C (pt_root c addr) (s2_starting_level c) level addr"

text \<open>Two states that differ in locks (and the log of effects) only.\<close>

definition relocked :: "rmm \<Rightarrow> (nat \<Rightarrow> bool) \<Rightarrow> rmm \<Rightarrow> bool" where
  "relocked s L s' \<longleftrightarrow> granules s' = granules s \<and> content s' = content s
     \<and> slots s' = slots s \<and> vmids s' = vmids s \<and> glock s' = L"

lemma relocked_trans: "relocked s L s' \<Longrightarrow> relocked s' L' s'' \<Longrightarrow> relocked s L' s''"
  by (simp add: relocked_def)

lemma relocked_inv: "relocked s L s' \<Longrightarrow> inv_with lv par s' = inv_with lv par s"
  by (rule inv_with_cong) (simp_all add: relocked_def)

lemma inv_with_unlocked_state:
  "inv_with lv par s \<Longrightarrow> granules s' = granules s \<Longrightarrow> g < RMM_MAX_GRANULES \<Longrightarrow> unlocked_ok s' g"
  using inv_with_unlocked [of lv par s g] by (simp add: unlocked_ok_def)

section \<open>Indices\<close>

lemma s2_addr_to_idx_bound: "unat (s2_addr_to_idx addr l) < 512"
proof -
  have "s2_addr_to_idx addr l = take_bit 9 (drop_bit (level_lsb l) addr)"
    by (simp add: s2_addr_to_idx_def s2tte_values take_bit_eq_mask mask_eq_exp_minus_1)
  then show ?thesis
    by (simp add: unsigned_take_bit_eq take_bit_nat_less_exp [of 9, simplified])
qed

lemma unat_push_1: "ib < 64 \<Longrightarrow> unat (push_bit ib 1 :: u64) = 2 ^ ib"
proof -
  assume ib: "ib < 64"
  then have lt: "(2::nat) ^ ib < 2 ^ 64" by (rule power_strict_increasing) simp
  have "(push_bit ib 1 :: u64) = of_nat (2 ^ ib)" by (simp add: push_bit_eq_mult)
  then show ?thesis using lt by (simp only: unat_of_nat len_num1 len_bit0) simp
qed

lemma take_bit_below:
  assumes "addr < push_bit ib 1" and "ib < 64"
  shows "take_bit ib addr = (addr :: u64)"
proof -
  have "unat addr < 2 ^ ib"
    using assms unat_push_1 by (simp add: word_less_nat_alt)
  then show ?thesis
    by (simp add: word_unat_eq_iff unsigned_take_bit_eq take_bit_nat_eq_self)
qed

lemma sl_idx_eq:
  assumes "addr < push_bit ib 1" and "ib < 64"
  shows "s2_sl_addr_to_idx addr sl ib = drop_bit (level_lsb sl) addr"
  using take_bit_below [OF assms]
  by (simp add: s2_sl_addr_to_idx_def take_bit_eq_mask mask_eq_exp_minus_1 push_bit_eq_mult)

text \<open>The table the walk starts in is one of the realm's starting level tables.\<close>

lemma pt_root_bound:
  assumes c: "s2_ctx_ok c" and a: "addr < push_bit (s2_ipa_bits c) 1"
  shows "unat (drop_bit 9 (s2_sl_addr_to_idx addr (s2_starting_level c) (s2_ipa_bits c)))
    < s2_root_rtts c"
proof -
  let ?ib = "s2_ipa_bits c" and ?lsb = "level_lsb (s2_starting_level c)"
  have ib: "?ib < 64" using c by (simp add: s2_ctx_ok_def)
  then have lt: "unat addr < 2 ^ ?ib"
    using a unat_push_1 by (simp add: word_less_nat_alt)
  have "unat (drop_bit 9 (s2_sl_addr_to_idx addr (s2_starting_level c) ?ib))
    = unat addr div 2 ^ (?lsb + 9)"
    unfolding sl_idx_eq [OF a ib] drop_bit_drop_bit unat_drop_bit_eq
    by (simp add: drop_bit_eq_div add.commute)
  also have "\<dots> < s2_root_rtts c"
  proof (cases "?ib \<le> ?lsb + 9")
    case True
    then have "(2::nat) ^ ?ib \<le> 2 ^ (?lsb + 9)" by (intro power_increasing) auto
    then have "unat addr div 2 ^ (?lsb + 9) = 0"
      using lt by (intro div_less) (rule less_le_trans)
    then show ?thesis using c True by (simp add: s2_ctx_ok_def)
  next
    case False
    then have "(2::nat) ^ ?ib = 2 ^ (?ib - (?lsb + 9)) * 2 ^ (?lsb + 9)"
      by (simp flip: power_add)
    then have "unat addr div 2 ^ (?lsb + 9) < 2 ^ (?ib - (?lsb + 9))"
      using lt by (simp add: less_mult_imp_div_less)
    then show ?thesis using c False by (simp add: s2_ctx_ok_def)
  qed
  finally show ?thesis .
qed

section \<open>One step down\<close>

lemma entry_is_table_iff: "entry_is_table e \<longleftrightarrow> e AND 3 = 3"
  by (simp add: entry_is_table_def s2tte_values)

lemma leaf_entry_low: "leaf_entry e \<Longrightarrow> e AND 3 = 0"
  by (auto simp: leaf_entry_def)

lemma entry_ok_table:
  assumes "entry_ok lv par s g i e" and "lv g < 3" and "e AND 3 = 3"
  shows "table_entry_ok lv par s g i e"
  using assms leaf_entry_low [of e] by (auto simp: entry_ok_def s2tte_iffs)

lemma entry_table_child:
  assumes inv: "inv_with lv par s" and g: "g < RMM_MAX_GRANULES"
    and st: "gst s g = GRANULE_STATE_RTT" and l: "lv g < 3"
    and t: "table_of (content s g) = Some t" and i: "i < 512" and e: "entry_is_table (t ! i)"
  obtains c where "find_granule (addr_level_mask (t ! i) 3) = Some c"
    "gst s c = GRANULE_STATE_RTT" "lv c = lv g + 1" "par c = TteOwner g i" "c < RMM_MAX_GRANULES"
proof -
  have "entry_ok lv par s g i (t ! i)"
    using inv g st t i by (elim inv_with_rtt) auto
  then have "table_entry_ok lv par s g i (t ! i)"
    using l e by (intro entry_ok_table) (simp_all add: entry_is_table_iff)
  then show ?thesis using that find_granule_bound by (auto simp: table_entry_ok_def)
qed

lemma find_granule_aligned: "find_granule a = Some g \<Longrightarrow> GRANULE_ALIGNED a"
  by (auto simp: find_granule_def split: if_splits)

lemma addr_to_granule_found: "find_granule a = Some g \<Longrightarrow> addr_to_granule a = Some g"
  using addr_to_granule_eq_find find_granule_aligned by metis

lemma s2tte_read_eq:
  "table_of (content s g) = Some t \<Longrightarrow> unat i < length t \<Longrightarrow> s2tte_read g i s = Some (t ! unat i)"
  by (simp add: s2tte_read_def)

lemma find_next_level_idx_spec:
  assumes inv: "inv_with lv par s" and g: "g < RMM_MAX_GRANULES"
    and st: "gst s g = GRANULE_STATE_RTT" and l: "lv g < 3" and sl: "slots s SLOT_RTT = None"
  shows "find_next_level_idx g (s2_addr_to_idx addr i) s = Some (pt_next (content s) g i addr, s)"
proof -
  from inv g st obtain t where t: "table_of (content s g) = Some t" "length t = 512"
    by (elim inv_with_rtt) auto
  have b: "unat (s2_addr_to_idx addr i) < length t" using s2_addr_to_idx_bound t(2) by simp
  have e: "table_get_entry g (s2_addr_to_idx addr i) s
    = Some (t ! unat (s2_addr_to_idx addr i), s)"
    using t b g sl
    by (simp add: table_get_entry_def granule_map_eq s2tte_read_def buffer_unmap_map_slot)
  show ?thesis
  proof (cases "entry_is_table (t ! unat (s2_addr_to_idx addr i))")
    case False
    then show ?thesis using e t by (simp add: find_next_level_idx_def pt_next_def)
  next
    case True
    with inv g st l t b obtain c where
      "find_granule (addr_level_mask (t ! unat (s2_addr_to_idx addr i)) 3) = Some c"
      by (metis entry_table_child)
    then show ?thesis using e t True
      by (simp add: find_next_level_idx_def pt_next_def table_entry_to_phys_def s2tte_values
          addr_to_granule_found)
  qed
qed

lemma pt_next_child:
  assumes inv: "inv_with lv par s" and g: "g < RMM_MAX_GRANULES"
    and st: "gst s g = GRANULE_STATE_RTT" and l: "lv g < 3"
    and n: "pt_next (content s) g i addr = Some c"
  shows "c < RMM_MAX_GRANULES" "gst s c = GRANULE_STATE_RTT" "lv c = lv g + 1"
proof -
  from inv g st obtain t where t: "table_of (content s g) = Some t" "length t = 512"
    by (elim inv_with_rtt) auto
  have b: "unat (s2_addr_to_idx addr i) < 512" by (rule s2_addr_to_idx_bound)
  from n t have e: "entry_is_table (t ! unat (s2_addr_to_idx addr i))"
    and f: "find_granule (addr_level_mask (t ! unat (s2_addr_to_idx addr i)) 3) = Some c"
    by (auto simp: pt_next_def Let_def table_entry_to_phys_def s2tte_values split: if_splits)
  show "c < RMM_MAX_GRANULES" "gst s c = GRANULE_STATE_RTT" "lv c = lv g + 1"
    using entry_table_child [OF inv g st l t(1) b e] f by auto
qed

text \<open>The pages of a block differ.\<close>

lemma page_offset_inject:
  assumes "(base :: u64) + of_nat k * 4096 = base + of_nat k' * 4096" and "k < 512" and "k' < 512"
  shows "k = k'"
proof -
  have e: "(of_nat (k * 4096) :: u64) = of_nat (k' * 4096)" using assms(1) by simp
  have "unat (of_nat (n * 4096) :: u64) = n * 4096" if "n < 512" for n :: nat
    using that by (simp only: unat_of_nat len_num1 len_bit0) simp
  with e assms(2,3) have "k * 4096 = k' * 4096" by metis
  then show ?thesis by simp
qed

section \<open>The loop and the walk\<close>

text \<open>What the walk delivers: a table at the level it stopped at.\<close>

definition at_table :: "(nat \<Rightarrow> int) \<Rightarrow> rmm \<Rightarrow> nat \<Rightarrow> int \<Rightarrow> bool" where
  "at_table lv s g l \<longleftrightarrow> g < RMM_MAX_GRANULES \<and> gst s g = GRANULE_STATE_RTT \<and> lv g = l"

lemma granule_lock_relocked:
  assumes "inv_with lv par s" and "g < RMM_MAX_GRANULES" and "gst s g = st" and "\<not> glock s g"
  shows "granule_lock g st s = Some (lock_g g st s)"
    and "relocked s ((glock s)(g := True)) (lock_g g st s)"
  using assms inv_with_unlocked [OF assms(1,2)] by (auto simp: granule_lock_eq relocked_def)

lemma granule_unlock_relocked:
  assumes "inv_with lv par s" and "g < RMM_MAX_GRANULES"
  shows "granule_unlock g s = Some (spinlock_release g s)"
    and "relocked s ((glock s)(g := False)) (spinlock_release g s)"
  using inv_with_unlocked [OF assms] by (auto simp: granule_unlock_eq relocked_def)

text \<open>One round: the next table is locked before the current one is released.\<close>

lemma find_lock_next_level_spec:
  assumes inv: "inv_with lv par s" and at: "at_table lv s g i" and i: "i < 3"
    and sl: "slots s SLOT_RTT = None"
    and L: "\<And>x. glock s x \<Longrightarrow> x \<noteq> g \<Longrightarrow> gst s x \<noteq> GRANULE_STATE_RTT"
  shows "case pt_next (content s) g i addr of
      None \<Rightarrow> find_lock_next_level g addr i s = Some (None, s)
    | Some c \<Rightarrow> at_table lv s c (i + 1) \<and> \<not> glock s c \<and> c \<noteq> g
        \<and> find_lock_next_level g addr i s = Some (Some c, lock_g c GRANULE_STATE_RTT s)"
proof -
  from at have g: "g < RMM_MAX_GRANULES" "gst s g = GRANULE_STATE_RTT" "lv g = i" "lv g < 3"
    using i by (auto simp: at_table_def)
  note f = find_next_level_idx_spec [OF inv g(1,2,4) sl, of addr i]
  show ?thesis
  proof (cases "pt_next (content s) g i addr")
    case None
    then show ?thesis using f by (simp add: find_lock_next_level_def)
  next
    case (Some c)
    note c = pt_next_child [OF inv g(1,2,4) Some]
    have ne: "c \<noteq> g" using c(3) by auto
    then have nl: "\<not> glock s c" using L c(2) by blast
    show ?thesis
      using Some f c ne nl g(3) granule_lock_relocked(1) [OF inv c(1,2) nl]
      by (simp add: find_lock_next_level_def at_table_def)
  qed
qed

lemma walk_loop_spec:
  assumes "inv_with lv par s" and "at_table lv s g i" and "i \<le> level" and "level \<le> 3" and "0 \<le> i"
    and "slots s SLOT_RTT = None" and "glock s = L(g := True)"
    and "\<And>x. L x \<Longrightarrow> gst s x \<noteq> GRANULE_STATE_RTT"
  shows "\<exists>g' l s'. walk_loop g i level addr s = Some ((g', l), s')
    \<and> pt_walk (content s) g i level addr = (g', l) \<and> at_table lv s g' l \<and> i \<le> l \<and> l \<le> level
    \<and> relocked s (L(g' := True)) s'"
  using assms
proof (induction "nat (level - i)" arbitrary: g i s)
  case 0
  then have "i = level" by simp
  then show ?case using 0
    by (simp add: walk_loop.simps [of g level] pt_walk.simps [of _ g level] relocked_def)
next
  case (Suc n)
  from Suc.hyps(2) have lt: "i < level" by simp
  have i3: "i < 3" using lt Suc.prems(4) by simp
  have Lg: "\<And>x. glock s x \<Longrightarrow> x \<noteq> g \<Longrightarrow> gst s x \<noteq> GRANULE_STATE_RTT"
    using Suc.prems(7,8) by simp
  have arr: "i + 1 < NR_RTT_LEVELS" using i3 by (simp add: word_consts)
  note st = find_lock_next_level_spec [OF Suc.prems(1,2) i3 Suc.prems(6) Lg, of addr]
  show ?case
  proof (cases "pt_next (content s) g i addr")
    case None
    then have "walk_loop g i level addr s = Some ((g, i), s)"
      using st lt arr by (simp add: walk_loop.simps [of g i])
    moreover have "pt_walk (content s) g i level addr = (g, i)"
      using None lt by (simp add: pt_walk.simps [of _ g i])
    ultimately show ?thesis
      using Suc.prems lt by (simp add: relocked_def)
  next
    case (Some c)
    let ?s1 = "lock_g c GRANULE_STATE_RTT s" and ?s2 = "spinlock_release g (lock_g c GRANULE_STATE_RTT s)"
    from st Some have c: "at_table lv s c (i + 1)" "\<not> glock s c" "c \<noteq> g"
      and fl: "find_lock_next_level g addr i s = Some (Some c, ?s1)" by auto
    have inv1: "inv_with lv par ?s1" "inv_with lv par ?s2"
      using Suc.prems(1) by (rule inv_with_same; simp)+
    have g: "g < RMM_MAX_GRANULES" using Suc.prems(2) by (simp add: at_table_def)
    have notL: "\<not> L g" using Suc.prems(8) [of g] Suc.prems(2) by (auto simp: at_table_def)
    have lk: "glock ?s2 = L(c := True)"
      using Suc.prems(7) c(3) notL by (auto simp: fun_eq_iff)
    have "\<exists>g' l s'. walk_loop c (i + 1) level addr ?s2 = Some ((g', l), s')
      \<and> pt_walk (content ?s2) c (i + 1) level addr = (g', l) \<and> at_table lv ?s2 g' l
      \<and> i + 1 \<le> l \<and> l \<le> level \<and> relocked ?s2 (L(g' := True)) s'"
    proof (rule Suc.hyps(1))
      show "n = nat (level - (i + 1))" using Suc.hyps(2) by simp
      show "at_table lv ?s2 c (i + 1)" using c(1) by (simp add: at_table_def)
      show "\<And>x. L x \<Longrightarrow> gst ?s2 x \<noteq> GRANULE_STATE_RTT" using Suc.prems(8) by simp
    qed (use inv1(2) lt Suc.prems(4,5,6) lk in auto)
    then obtain g' l s' where w: "walk_loop c (i + 1) level addr ?s2 = Some ((g', l), s')"
      "pt_walk (content s) c (i + 1) level addr = (g', l)" "at_table lv s g' l"
      "i + 1 \<le> l" "l \<le> level" "relocked ?s2 (L(g' := True)) s'"
      by (auto simp: at_table_def)
    have "walk_loop g i level addr s = Some ((g', l), s')"
      using lt arr fl w(1) granule_unlock_relocked(1) [OF inv1(1) g]
      by (simp add: walk_loop.simps [of g i])
    moreover have "pt_walk (content s) g i level addr = (g', l)"
      using Some lt w(2) by (simp add: pt_walk.simps [of _ g i])
    moreover have "relocked s (L(g' := True)) s'"
      using w(6) by (simp add: relocked_def)
    ultimately show ?thesis using w(3,4,5) by auto
  qed
qed

text \<open>
  What a walk for \<open>addr\<close> down to \<open>level\<close> delivers for the realm with configuration
  \<open>c\<close>: the table and level of the specification, and the index of the address in it.
\<close>

definition walk_result ::
  "(nat \<Rightarrow> int) \<Rightarrow> rmm \<Rightarrow> realm_s2_context \<Rightarrow> u64 \<Rightarrow> int \<Rightarrow> rtt_walk \<Rightarrow> bool" where
  "walk_result lv s c addr level wi \<longleftrightarrow>
     pt_find (content s) c addr level = (g_llt wi, last_level wi)
   \<and> index wi = s2_addr_to_idx addr (last_level wi)
   \<and> at_table lv s (g_llt wi) (last_level wi)
   \<and> s2_starting_level c \<le> last_level wi \<and> last_level wi \<le> level"

text \<open>
  The entry at level \<open>l\<close> that a command on a realm and an address finds: the realm's
  descriptor, the granule of the table, the index and the entry.
\<close>

definition tte_at :: "u64 \<Rightarrow> u64 \<Rightarrow> int \<Rightarrow> rmm \<Rightarrow> (rd \<times> nat \<times> nat \<times> u64) option" where
  "tte_at rd_addr a l s = do {
     g_rd \<leftarrow> find_granule rd_addr;
     rd \<leftarrow> (if gst s g_rd = GRANULE_STATE_RD then rd_of (content s g_rd) else None);
     let (g, level) = pt_find (content s) (rd_s2_ctx rd) a l;
     if level \<noteq> l then None
     else do {
       t \<leftarrow> table_of (content s g);
       Some (rd, g, unat (s2_addr_to_idx a l), t ! unat (s2_addr_to_idx a l))
     }
   }"

lemma tte_at_walk:
  assumes "find_granule rd_addr = Some g_rd" and "gst s g_rd = GRANULE_STATE_RD"
    and "content s g_rd = CRd rd" and "walk_result lv s (rd_s2_ctx rd) a l wi"
  shows "last_level wi \<noteq> l \<Longrightarrow> tte_at rd_addr a l s = None"
    and "last_level wi = l \<Longrightarrow> table_of (content s (g_llt wi)) = Some t
      \<Longrightarrow> tte_at rd_addr a l s = Some (rd, g_llt wi, unat (index wi), t ! unat (index wi))"
  using assms by (auto simp: tte_at_def walk_result_def)

definition roots_ok :: "(nat \<Rightarrow> int) \<Rightarrow> rmm \<Rightarrow> realm_s2_context \<Rightarrow> bool" where
  "roots_ok lv s c \<longleftrightarrow> s2_ctx_ok c
     \<and> (\<forall>k < s2_root_rtts c. at_table lv s (s2_g_rtt c + k) (s2_starting_level c))"

lemma rd_ok_roots:
  assumes "rd_ok lv par s g" and "rd_of (content s g) = Some rd"
  shows "roots_ok lv s (rd_s2_ctx rd)"
  using assms by (auto simp: rd_ok_def roots_ok_def at_table_def)

lemma roots_ok_root: "roots_ok lv s c \<Longrightarrow> at_table lv s (s2_g_rtt c) (s2_starting_level c)"
  by (force simp: roots_ok_def s2_ctx_ok_def split: if_splits)

lemma rtt_walk_spec:
  assumes inv: "inv_with lv par s" and ro: "roots_ok lv s c"
    and a: "addr < push_bit (s2_ipa_bits c) 1"
    and l: "s2_starting_level c \<le> level" "level \<le> 3"
    and sl: "slots s SLOT_RTT = None" and lk: "glock s = L(s2_g_rtt c := True)"
    and L: "\<And>x. L x \<Longrightarrow> gst s x \<noteq> GRANULE_STATE_RTT"
  obtains wi s' where
    "rtt_walk_lock_unlock (s2_g_rtt c) (s2_starting_level c) (s2_ipa_bits c) addr level s
       = Some (wi, s')"
    "walk_result lv s c addr level wi" "relocked s (L(g_llt wi := True)) s'"
proof -
  let ?idx = "s2_sl_addr_to_idx addr (s2_starting_level c) (s2_ipa_bits c)"
  let ?off = "unat (drop_bit 9 ?idx)" and ?root = "s2_g_rtt c"
  have ctx: "s2_ctx_ok c" using ro by (simp add: roots_ok_def)
  have at: "at_table lv s (pt_root c addr) (s2_starting_level c)"
    using ro pt_root_bound [OF ctx a] by (simp add: roots_ok_def pt_root_def)
  have at0: "at_table lv s ?root (s2_starting_level c)" by (rule roots_ok_root [OF ro])
  have notL: "\<not> L ?root" using L at0 by (auto simp: at_table_def)
  have off: "?off = unat ?idx div 512" unfolding unat_drop_bit_eq by (simp add: drop_bit_eq_div)
  have root: "\<exists>s1. (if S2TTES_PER_S2TT \<le> unat ?idx then do {
          let g_concat_root = ?root + unat (drop_bit S2TTE_STRIDE ?idx);
          s \<leftarrow> granule_lock g_concat_root GRANULE_STATE_RTT s;
          s \<leftarrow> granule_unlock ?root s;
          Some (g_concat_root, s)
        } else Some (?root, s)) = Some (pt_root c addr, s1)
      \<and> relocked s (L(pt_root c addr := True)) s1"
  proof (cases "512 \<le> unat ?idx")
    case True
    then have ne: "pt_root c addr \<noteq> ?root" by (simp add: pt_root_def off)
    have nl: "\<not> glock s (pt_root c addr)"
      using lk ne L at by (auto simp: at_table_def)
    let ?s1 = "lock_g (pt_root c addr) GRANULE_STATE_RTT s"
    have "inv_with lv par ?s1" using inv by (rule inv_with_same) simp_all
    then have "granule_unlock ?root ?s1 = Some (spinlock_release ?root ?s1)"
      using granule_unlock_relocked(1) at0 by (simp add: at_table_def)
    moreover have "granule_lock (pt_root c addr) GRANULE_STATE_RTT s = Some ?s1"
      using granule_lock_relocked(1) [OF inv] at nl by (simp add: at_table_def)
    moreover have "relocked s (L(pt_root c addr := True)) (spinlock_release ?root ?s1)"
      using lk ne notL by (auto simp: relocked_def fun_eq_iff)
    ultimately show ?thesis using True by (simp add: s2tte_values pt_root_def Let_def)
  next
    case False
    then have "pt_root c addr = ?root" by (simp add: pt_root_def off)
    then show ?thesis using False lk by (simp add: s2tte_values relocked_def)
  qed
  then obtain s1 where s1: "(if S2TTES_PER_S2TT \<le> unat ?idx then do {
          let g_concat_root = ?root + unat (drop_bit S2TTE_STRIDE ?idx);
          s \<leftarrow> granule_lock g_concat_root GRANULE_STATE_RTT s;
          s \<leftarrow> granule_unlock ?root s;
          Some (g_concat_root, s)
        } else Some (?root, s)) = Some (pt_root c addr, s1)"
    and r1: "relocked s (L(pt_root c addr := True)) s1" by blast
  have "\<exists>g' l s'. walk_loop (pt_root c addr) (s2_starting_level c) level addr s1
        = Some ((g', l), s')
    \<and> pt_walk (content s1) (pt_root c addr) (s2_starting_level c) level addr = (g', l)
    \<and> at_table lv s1 g' l \<and> s2_starting_level c \<le> l \<and> l \<le> level
    \<and> relocked s1 (L(g' := True)) s'"
  proof (rule walk_loop_spec)
    show "inv_with lv par s1" using relocked_inv [OF r1] inv by simp
    show "at_table lv s1 (pt_root c addr) (s2_starting_level c)"
      using at r1 by (simp add: at_table_def relocked_def)
    show "0 \<le> s2_starting_level c" using ctx by (simp add: s2_ctx_ok_def)
  qed (use r1 sl l L in \<open>auto simp: relocked_def\<close>)
  then obtain g' l' s' where w: "walk_loop (pt_root c addr) (s2_starting_level c) level addr s1
        = Some ((g', l'), s')"
    "pt_walk (content s) (pt_root c addr) (s2_starting_level c) level addr = (g', l')"
    "at_table lv s g' l'" "s2_starting_level c \<le> l'" "l' \<le> level"
    "relocked s1 (L(g' := True)) s'"
    using r1 by (auto simp: at_table_def relocked_def)
  let ?wi = "\<lparr>g_llt = g', index = s2_addr_to_idx addr l', last_level = l'\<rparr>"
  have "rtt_walk_lock_unlock ?root (s2_starting_level c) (s2_ipa_bits c) addr level s
    = Some (?wi, s')"
    using ctx l a s1 w(1)
    unfolding rtt_walk_lock_unlock_def Let_def
    by (simp add: s2_ctx_ok_def MIN_STARTING_LEVEL_def)
  moreover have "walk_result lv s c addr level ?wi"
    using w by (simp add: walk_result_def pt_find_def)
  moreover have "relocked s (L(g_llt ?wi := True)) s'"
    using relocked_trans [OF r1 w(6)] by simp
  ultimately show ?thesis by (rule that)
qed

end
