(* ===== verification/Realm_Map.thy ===== *)
theory Realm_Map
  imports Walk_Correct
begin

text \<open>
  The abstract view of a realm's memory: a partial map from its addresses to the physical
  pages that hold them, read off the tables by the lock-free walk.  Under the invariant two
  addresses never share a page, within a realm or across realms, and a change of one entry
  changes the map below that entry only.
\<close>

section \<open>The tables a walk visits\<close>

inductive visits :: "(nat \<Rightarrow> content) \<Rightarrow> realm_s2_context \<Rightarrow> u64 \<Rightarrow> nat \<Rightarrow> int \<Rightarrow> bool"
  for C c a where
  root: "visits C c a (pt_root c a) (s2_starting_level c)"
| down: "visits C c a g l \<Longrightarrow> l < 3 \<Longrightarrow> pt_next C g l a = Some g' \<Longrightarrow> visits C c a g' (l + 1)"

lemma visits_at_table:
  assumes inv: "inv_with lv par s" and ro: "roots_ok lv s c" and a: "a < push_bit (s2_ipa_bits c) 1"
    and v: "visits (content s) c a g l"
  shows "at_table lv s g l \<and> s2_starting_level c \<le> l \<and> l \<le> 3"
  using v
proof (induction rule: visits.induct)
  case root
  then show ?case
    using ro pt_root_bound [OF _ a] by (auto simp: roots_ok_def pt_root_def s2_ctx_ok_def)
next
  case (down g l g')
  then have "g < RMM_MAX_GRANULES" "gst s g = GRANULE_STATE_RTT" "lv g < 3" "lv g = l"
    by (auto simp: at_table_def)
  from pt_next_child [OF inv this(1-3)] down this(4) show ?case by (auto simp: at_table_def)
qed

lemma pt_walk_visits:
  "visits C c a g i \<Longrightarrow> i \<le> level \<Longrightarrow> level \<le> 3 \<Longrightarrow> pt_walk C g i level a = (g', l) \<Longrightarrow>
   visits C c a g' l \<and> (l = level \<or> l < level \<and> pt_next C g' l a = None)"
proof (induction C g i level a rule: pt_walk.induct)
  case (1 C g i level a)
  show ?case
  proof (cases "i < level")
    case True
    then have "i < 3" using 1 by simp
    with True show ?thesis using 1 visits.down [OF 1(2) \<open>i < 3\<close>]
      by (cases "pt_next C g i a") (auto simp: pt_walk.simps [of C g i])
  next
    case False
    then have "i = level" using 1 by simp
    then show ?thesis using 1 by (auto simp: pt_walk.simps [of C g])
  qed
qed

lemma pt_find_visits:
  assumes "pt_find C c a level = (g, l)" and "s2_starting_level c \<le> level" and "level \<le> 3"
  shows "visits C c a g l \<and> (l = level \<or> l < level \<and> pt_next C g l a = None)"
  using pt_walk_visits [OF visits.root assms(2,3)] assms(1) by (simp add: pt_find_def)

section \<open>Blocks of addresses\<close>

abbreviation block_of :: "int \<Rightarrow> u64 \<Rightarrow> u64" where
  "block_of l a \<equiv> drop_bit (level_lsb l) a"

lemma level_lsb_up: "l \<le> 3 \<Longrightarrow> level_lsb (l - 1) = level_lsb l + 9"
  by (simp add: level_lsb_def s2tte_values nat_diff_distrib' nat_add_distrib algebra_simps) 

lemma block_of_split:
  assumes "l \<le> 3"
  shows "block_of l a = block_of l b \<longleftrightarrow>
    block_of (l - 1) a = block_of (l - 1) b \<and> s2_addr_to_idx a l = s2_addr_to_idx b l"
proof -
  have up: "block_of (l - 1) x = drop_bit 9 (block_of l x)" for x :: u64
    by (simp add: level_lsb_up [OF assms] add.commute)
  have ix: "s2_addr_to_idx x l = take_bit 9 (block_of l x)" for x
    by (simp add: s2_addr_to_idx_def s2tte_values take_bit_eq_mask mask_eq_exp_minus_1)
  have "x = y \<longleftrightarrow> drop_bit 9 x = drop_bit 9 y \<and> take_bit 9 x = take_bit 9 y" for x y :: u64
    by (metis bits_ident)
  then show ?thesis unfolding up ix .
qed

lemma block_of_root:
  assumes c: "s2_ctx_ok c" and a: "a < push_bit (s2_ipa_bits c) 1"
  shows "pt_root c a = s2_g_rtt c + unat (block_of (s2_starting_level c - 1) a)"
proof -
  have ib: "s2_ipa_bits c < 64" and "s2_starting_level c \<le> 3" using c by (auto simp: s2_ctx_ok_def)
  then show ?thesis
    by (simp add: pt_root_def sl_idx_eq [OF a ib] level_lsb_up add.commute)
qed

section \<open>One way to every table\<close>

lemma pt_next_owner:
  assumes inv: "inv_with lv par s" and at: "at_table lv s g l" and l: "l < 3"
    and n: "pt_next (content s) g l a = Some g'"
  shows "par g' = TteOwner g (unat (s2_addr_to_idx a l))"
proof -
  have g: "g < RMM_MAX_GRANULES" "gst s g = GRANULE_STATE_RTT" "lv g < 3"
    using at l by (auto simp: at_table_def)
  from inv g(1,2) obtain t where t: "table_of (content s g) = Some t"
    by (elim inv_with_rtt) auto
  have b: "unat (s2_addr_to_idx a l) < 512" by (rule s2_addr_to_idx_bound)
  from n t have e: "entry_is_table (t ! unat (s2_addr_to_idx a l))"
    and f: "find_granule (addr_level_mask (t ! unat (s2_addr_to_idx a l)) 3) = Some g'"
    by (auto simp: pt_next_def Let_def table_entry_to_phys_def s2tte_values split: if_splits)
  show ?thesis using entry_table_child [OF inv g t b e] f by auto
qed

text \<open>A realm, its descriptor in granule \<open>r\<close>, and one of its addresses.\<close>

definition realm_at :: "rmm \<Rightarrow> nat \<Rightarrow> realm_s2_context \<Rightarrow> bool" where
  "realm_at s r c \<longleftrightarrow> r < RMM_MAX_GRANULES \<and> gst s r = GRANULE_STATE_RD
     \<and> (\<exists>rd. content s r = CRd rd \<and> rd_s2_ctx rd = c)"

lemma realm_at_roots:
  assumes "inv_with lv par s" and "realm_at s r c"
  shows "roots_ok lv s c" "s2_ctx_ok c" "k < s2_root_rtts c \<Longrightarrow> par (s2_g_rtt c + k) = RdOwner r"
proof -
  from assms obtain rd where rd: "content s r = CRd rd" "rd_s2_ctx rd = c" "rd_ok lv par s r"
    using inv_with_rd by (auto simp: realm_at_def)
  from rd_ok_roots [OF rd(3)] rd show "roots_ok lv s c" by simp
  then show "s2_ctx_ok c" by (simp add: roots_ok_def)
  show "par (s2_g_rtt c + k) = RdOwner r" if "k < s2_root_rtts c"
    using rd that by (auto simp: rd_ok_def)
qed

lemma visits_unique:
  assumes inv: "inv_with lv par s"
    and r1: "realm_at s r1 c1" and a: "a < push_bit (s2_ipa_bits c1) 1"
    and r2: "realm_at s r2 c2" and b: "b < push_bit (s2_ipa_bits c2) 1"
    and v1: "visits (content s) c1 a g l" and v2: "visits (content s) c2 b g l'"
  shows "r1 = r2 \<and> block_of (l - 1) a = block_of (l - 1) b"
  using v1 v2
proof (induction arbitrary: l' rule: visits.induct)
  case root
  note R1 = realm_at_roots [OF inv r1] and R2 = realm_at_roots [OF inv r2]
  have own1: "par (pt_root c1 a) = RdOwner r1"
    using R1(3) pt_root_bound [OF R1(2) a] by (simp add: pt_root_def)
  from root show ?case
  proof (cases rule: visits.cases)
    case root
    have "par (pt_root c2 b) = RdOwner r2"
      using R2(3) pt_root_bound [OF R2(2) b] by (simp add: pt_root_def)
    with root own1 have r: "r1 = r2" by simp
    then have c: "c1 = c2" using r1 r2 by (auto simp: realm_at_def)
    have "unat (block_of (s2_starting_level c1 - 1) a) = unat (block_of (s2_starting_level c1 - 1) b)"
      using root(1) block_of_root [OF R1(2) a] block_of_root [OF R2(2) b] c by simp
    then show ?thesis using r by (simp add: word_unat_eq_iff)
  next
    case (down g l)
    then have "at_table lv s g l" using visits_at_table [OF inv R2(1) b] by blast
    from pt_next_owner [OF inv this down(3,4)] own1 show ?thesis by simp
  qed
next
  case (down g l g')
  note R1 = realm_at_roots [OF inv r1] and R2 = realm_at_roots [OF inv r2]
  have "at_table lv s g l" using visits_at_table [OF inv R1(1) a down.hyps(1)] by blast
  note own1 = pt_next_owner [OF inv this down.hyps(2,3)]
  have l3: "l \<le> 3" using down.hyps by simp
  from down.prems show ?case
  proof (cases rule: visits.cases)
    case root
    then show ?thesis using own1 R2(3) pt_root_bound [OF R2(2) b] by (simp add: pt_root_def)
  next
    case (down h m)
    then have at: "at_table lv s h m" using visits_at_table [OF inv R2(1) b] by blast
    from pt_next_owner [OF inv at down(3,4)] own1 have h: "h = g"
      and ix: "s2_addr_to_idx a l = s2_addr_to_idx b m" by (auto simp: word_unat_eq_iff)
    have "m = l" using at \<open>at_table lv s g l\<close> h by (simp add: at_table_def)
    with ix down.IH [of m] down(2) h show ?thesis
      using block_of_split [OF l3, of a b] \<open>visits (content s) c2 b h m\<close> by auto
  qed
qed

section \<open>The map\<close>

definition tt_entry :: "(nat \<Rightarrow> content) \<Rightarrow> nat \<Rightarrow> int \<Rightarrow> u64 \<Rightarrow> u64 option" where
  "tt_entry C g l a = map_option (\<lambda>t. t ! unat (s2_addr_to_idx a l)) (table_of (C g))"

definition entry_page :: "int \<Rightarrow> u64 \<Rightarrow> u64 \<Rightarrow> u64 option" where
  "entry_page l e a =
     (if l = 3 \<and> (s2tte_is_valid e 3 \<or> s2tte_is_assigned e 3) then Some (addr_level_mask e 3)
      else if l = 2 \<and> s2tte_is_assigned e 2
      then Some (addr_level_mask e 2 + of_nat (unat (s2_addr_to_idx a 3)) * 4096)
      else None)"

definition realm_page :: "(nat \<Rightarrow> content) \<Rightarrow> realm_s2_context \<Rightarrow> u64 \<Rightarrow> u64 option" where
  "realm_page C c a =
     (case pt_find C c a 3 of (g, l) \<Rightarrow>
        Option.bind (tt_entry C g l a) (\<lambda>e. entry_page l e a))"

lemma realm_page_owner:
  assumes inv: "inv_with lv par s" and r: "realm_at s r c" and a: "a < push_bit (s2_ipa_bits c) 1"
    and p: "realm_page (content s) c a = Some pa"
  obtains g l d e where "visits (content s) c a g l" "at_table lv s g l"
    "l = 3 \<or> l = 2 \<and> pa = addr_level_mask e 2 + of_nat (unat (s2_addr_to_idx a 3)) * 4096"
    "tt_entry (content s) g l a = Some e"
    "find_granule pa = Some d" "gst s d = GRANULE_STATE_DATA"
    "par d = TteOwner g (unat (s2_addr_to_idx a l))"
proof -
  obtain g l where f: "pt_find (content s) c a 3 = (g, l)" by (cases "pt_find (content s) c a 3")
  note R = realm_at_roots [OF inv r]
  have sl: "s2_starting_level c \<le> 3" using R(2) by (simp add: s2_ctx_ok_def)
  have v: "visits (content s) c a g l" using pt_find_visits [OF f sl] by simp
  then have at: "at_table lv s g l" using visits_at_table [OF inv R(1) a] by blast
  then have g: "g < RMM_MAX_GRANULES" "gst s g = GRANULE_STATE_RTT" "lv g = l"
    by (auto simp: at_table_def)
  from inv g(1,2) obtain t where t: "table_of (content s g) = Some t"
    and ok: "\<And>i. i < 512 \<Longrightarrow> entry_ok lv par s g i (t ! i)"
    by (elim inv_with_rtt) auto
  let ?i = "unat (s2_addr_to_idx a l)"
  let ?e = "t ! ?i"
  have e: "tt_entry (content s) g l a = Some ?e" by (simp add: tt_entry_def t)
  have ok': "entry_ok lv par s g ?i ?e" using ok s2_addr_to_idx_bound by simp
  have pe: "entry_page l ?e a = Some pa" using p f e by (simp add: realm_page_def)
  consider "l = 3" "s2tte_is_valid ?e 3 \<or> s2tte_is_assigned ?e 3" "pa = addr_level_mask ?e 3"
    | "l = 2" "s2tte_is_assigned ?e 2"
      "pa = addr_level_mask ?e 2 + of_nat (unat (s2_addr_to_idx a 3)) * 4096"
    using pe by (auto simp: entry_page_def split: if_splits)
  then show ?thesis
  proof cases
    case 1
    have "owns_pages par s g ?i (addr_level_mask ?e 3) 1"
      using ok' 1 g(3) by (auto simp: entry_ok_def s2tte_iffs leaf_entry_def table_entry_ok_def)
    then show ?thesis using that [OF v at _ e] 1 by (auto simp: owns_pages_def)
  next
    case 2
    have "owns_pages par s g ?i (addr_level_mask ?e 2) 512"
      using ok' 2 g(3) by (auto simp: entry_ok_def s2tte_iffs leaf_entry_def table_entry_ok_def)
    then obtain d where "find_granule pa = Some d" "gst s d = GRANULE_STATE_DATA"
      "par d = TteOwner g ?i"
      using s2_addr_to_idx_bound [of a 3] 2(3) by (force simp: owns_pages_def)
    then show ?thesis using that [OF v at _ e] 2 by blast
  qed
qed

text \<open>Two addresses of realms that map to the same page are the same page of the same realm.\<close>

lemma realm_page_unique:
  assumes inv: "inv_with lv par s"
    and r1: "realm_at s r1 c1" and a: "a < push_bit (s2_ipa_bits c1) 1"
    and r2: "realm_at s r2 c2" and b: "b < push_bit (s2_ipa_bits c2) 1"
    and p1: "realm_page (content s) c1 a = Some pa" and p2: "realm_page (content s) c2 b = Some pa"
  shows "r1 = r2 \<and> block_of 3 a = block_of 3 b"
proof -
  obtain g l d e where 1: "visits (content s) c1 a g l"
    "at_table lv s g l"
    "l = 3 \<or> l = 2 \<and> pa = addr_level_mask e 2 + of_nat (unat (s2_addr_to_idx a 3)) * 4096"
    "tt_entry (content s) g l a = Some e"
    "find_granule pa = Some d" "gst s d = GRANULE_STATE_DATA"
    "par d = TteOwner g (unat (s2_addr_to_idx a l))" by (rule realm_page_owner [OF inv r1 a p1])
  obtain g' l' d' e' where 2: "visits (content s) c2 b g' l'"
    "at_table lv s g' l'"
    "l' = 3 \<or> l' = 2 \<and> pa = addr_level_mask e' 2 + of_nat (unat (s2_addr_to_idx b 3)) * 4096"
    "tt_entry (content s) g' l' b = Some e'"
    "find_granule pa = Some d'" "gst s d' = GRANULE_STATE_DATA"
    "par d' = TteOwner g' (unat (s2_addr_to_idx b l'))" by (rule realm_page_owner [OF inv r2 b p2])
  have "TteOwner g (unat (s2_addr_to_idx a l)) = TteOwner g' (unat (s2_addr_to_idx b l'))"
    using 1(5,7) 2(5,7) by simp
  then have g: "g' = g" and i: "s2_addr_to_idx a l = s2_addr_to_idx b l'"
    by (simp_all add: word_unat_eq_iff)
  then have l: "l' = l" using 1(2) 2(2) by (simp add: at_table_def)
  have u: "r1 = r2" "block_of (l - 1) a = block_of (l - 1) b"
    using visits_unique [OF inv r1 a r2 b 1(1)] 2(1) g by auto
  have bl: "block_of l a = block_of l b"
    using u(2) i l 1(3) block_of_split [of l a b] by auto
  have "block_of 3 a = block_of 3 b"
  proof (cases "l = 3")
    case True
    then show ?thesis using bl by simp
  next
    case False
    then have l2: "l = 2" using 1(3) by simp
    have "e' = e" using 1(4) 2(4) g i l by (auto simp: tt_entry_def)
    have eq: "addr_level_mask e 2 + of_nat (unat (s2_addr_to_idx a 3)) * 4096
      = addr_level_mask e 2 + of_nat (unat (s2_addr_to_idx b 3)) * 4096"
      using 1(3) 2(3) l l2 \<open>e' = e\<close> by simp
    have "unat (s2_addr_to_idx a 3) = unat (s2_addr_to_idx b 3)"
      by (rule page_offset_inject [OF eq s2_addr_to_idx_bound s2_addr_to_idx_bound])
    then show ?thesis using bl l2 block_of_split [of 3 a b] by (simp add: word_unat_eq_iff)
  qed
  with u(1) show ?thesis by simp
qed

text \<open>
  How the map of the realms' memory changes when one entry of a table changes: only
  addresses whose walk goes through the entry are affected, and those are the addresses of
  one block of one realm.
\<close>

section \<open>The map of all realms\<close>

definition mem_map :: "rmm \<Rightarrow> nat \<Rightarrow> u64 \<Rightarrow> u64 option" where
  "mem_map s r a =
     (case content s r of
        CRd rd \<Rightarrow>
          if r < RMM_MAX_GRANULES \<and> g_state (granules s r) = GRANULE_STATE_RD
             \<and> a < push_bit (s2_ipa_bits (rd_s2_ctx rd)) 1
          then realm_page (content s) (rd_s2_ctx rd) a else None
      | _ \<Rightarrow> None)"

definition in_realm :: "rmm \<Rightarrow> nat \<Rightarrow> realm_s2_context \<Rightarrow> u64 \<Rightarrow> bool" where
  "in_realm s r c a \<longleftrightarrow> realm_at s r c \<and> a < push_bit (s2_ipa_bits c) 1"

lemma mem_map_in: "in_realm s r c a \<Longrightarrow> mem_map s r a = realm_page (content s) c a"
  by (auto simp: mem_map_def in_realm_def realm_at_def)

lemma mem_map_out: "(\<And>c. \<not> in_realm s r c a) \<Longrightarrow> mem_map s r a = None"
  by (auto simp: mem_map_def in_realm_def realm_at_def split: content.splits)

lemma mem_map_Some: "mem_map s r a = Some pa \<Longrightarrow> \<exists>c. in_realm s r c a \<and> realm_page (content s) c a = Some pa"
  using mem_map_in mem_map_out by (metis option.distinct(1))

text \<open>Entries of the map come in pages; an update replaces all addresses of a page.\<close>

definition map_put ::
  "nat \<Rightarrow> u64 \<Rightarrow> u64 option \<Rightarrow> (nat \<Rightarrow> u64 \<Rightarrow> u64 option) \<Rightarrow> nat \<Rightarrow> u64 \<Rightarrow> u64 option" where
  "map_put r a v m r' a' = (if r' = r \<and> block_of 3 a' = block_of 3 a then v else m r' a')"

section \<open>The walk from a table on\<close>

definition page_from :: "(nat \<Rightarrow> content) \<Rightarrow> nat \<Rightarrow> int \<Rightarrow> u64 \<Rightarrow> u64 option" where
  "page_from C g l a =
     (case pt_walk C g l 3 a of (g', l') \<Rightarrow>
        Option.bind (tt_entry C g' l' a) (\<lambda>e. entry_page l' e a))"

lemma realm_page_from: "realm_page C c a = page_from C (pt_root c a) (s2_starting_level c) a"
  by (simp add: realm_page_def page_from_def pt_find_def)

lemma pt_next_entry:
  "pt_next C g l a = Option.bind (tt_entry C g l a)
     (\<lambda>e. if entry_is_table e then find_granule (addr_level_mask e 3) else None)"
  by (cases "table_of (C g)")
     (simp_all add: pt_next_def tt_entry_def table_entry_to_phys_def s2tte_values Let_def)

lemma page_from_step:
  assumes "l < 3"
  shows "page_from C g l a =
     (case pt_next C g l a of
        None \<Rightarrow> Option.bind (tt_entry C g l a) (\<lambda>e. entry_page l e a)
      | Some g' \<Rightarrow> page_from C g' (l + 1) a)"
  using assms by (simp add: page_from_def pt_walk.simps [of C g] split: option.split)

lemma page_from_3: "page_from C g 3 a = Option.bind (tt_entry C g 3 a) (\<lambda>e. entry_page 3 e a)"
  by (simp add: page_from_def pt_walk.simps [of C g])

lemma page_from_leaf:
  assumes "tt_entry C g l a = Some e" and "l \<le> 3" and "\<not> entry_is_table e \<or> l = 3"
  shows "page_from C g l a = entry_page l e a"
proof (cases "l = 3")
  case True
  then show ?thesis using assms by (simp add: page_from_3)
next
  case False
  then show ?thesis using assms by (simp add: page_from_step pt_next_entry)
qed

lemma page_from_child:
  assumes "tt_entry C g l a = Some e" and "l < 3" and "entry_is_table e"
    and "find_granule (addr_level_mask e 3) = Some c"
  shows "page_from C g l a = page_from C c (l + 1) a"
  using assms by (simp add: page_from_step pt_next_entry)

section \<open>One entry changes\<close>

text \<open>
  The tables of the state \<open>s\<close> keep their entries in \<open>C'\<close>, except entry \<open>i0\<close> of table
  \<open>g0\<close> and the tables in \<open>X\<close>, which hang below that entry.
\<close>

definition one_entry ::
  "(nat \<Rightarrow> int) \<Rightarrow> (nat \<Rightarrow> owner) \<Rightarrow> nat set \<Rightarrow> rmm \<Rightarrow> nat \<Rightarrow> nat \<Rightarrow> u64 list \<Rightarrow> u64
    \<Rightarrow> (nat \<Rightarrow> content) \<Rightarrow> bool" where
  "one_entry lv par X s g0 i0 t e' C' \<longleftrightarrow>
     table_of (content s g0) = Some t \<and> length t = 512 \<and> table_of (C' g0) = Some (t[i0 := e'])
   \<and> (\<forall>x\<in>X. par x = TteOwner g0 i0 \<and> lv x = lv g0 + 1)
   \<and> (\<forall>g<RMM_MAX_GRANULES. g_state (granules s g) = GRANULE_STATE_RTT \<longrightarrow> g \<noteq> g0 \<longrightarrow> g \<notin> X \<longrightarrow>
        table_of (C' g) = table_of (content s g))"

lemma one_entry_same:
  assumes "one_entry lv par X s g0 i0 t e' C'" and "at_table lv s g l" and "g \<notin> X"
    and "g = g0 \<Longrightarrow> unat (s2_addr_to_idx a l) \<noteq> i0"
  shows "tt_entry C' g l a = tt_entry (content s) g l a" "pt_next C' g l a = pt_next (content s) g l a"
proof -
  show "tt_entry C' g l a = tt_entry (content s) g l a"
    using assms by (cases "g = g0") (auto simp: one_entry_def at_table_def tt_entry_def)
  then show "pt_next C' g l a = pt_next (content s) g l a" by (simp add: pt_next_entry)
qed

lemma visits_owner:
  assumes inv: "inv_with lv par s" and r: "realm_at s r c" and a: "a < push_bit (s2_ipa_bits c) 1"
    and v: "visits (content s) c a g l" and own: "par g = TteOwner g0 i0"
  shows "\<exists>l0. visits (content s) c a g0 l0 \<and> unat (s2_addr_to_idx a l0) = i0"
  using v
proof (cases rule: visits.cases)
  case root
  have "par (pt_root c a) = RdOwner r"
    using realm_at_roots(3) [OF inv r] pt_root_bound [OF realm_at_roots(2) [OF inv r] a]
    by (simp add: pt_root_def)
  then show ?thesis using root own by simp
next
  case (down h m)
  have "at_table lv s h m"
    using visits_at_table [OF inv realm_at_roots(1) [OF inv r] a] down(2) by blast
  from pt_next_owner [OF inv this down(3,4)] own down(2) show ?thesis by auto
qed

text \<open>A walk that misses the entry is not affected.\<close>

lemma page_from_frame:
  assumes inv: "inv_with lv par s" and r: "realm_at s r c" and a: "a < push_bit (s2_ipa_bits c) 1"
    and one: "one_entry lv par X s g0 i0 t e' C'"
    and miss: "\<And>l. visits (content s) c a g0 l \<Longrightarrow> unat (s2_addr_to_idx a l) \<noteq> i0"
    and v: "visits (content s) c a g l"
  shows "page_from C' g l a = page_from (content s) g l a"
proof -
  have below: "g \<notin> X" if "visits (content s) c a g l" for g l
    using visits_owner [OF inv r a that] miss one by (auto simp: one_entry_def)
  from v show ?thesis
  proof (induction "nat (3 - l)" arbitrary: g l)
    case 0
    note at = visits_at_table [OF inv realm_at_roots(1) [OF inv r] a 0(2)]
    then have "l = 3" using 0 by simp
    moreover have "tt_entry C' g l a = tt_entry (content s) g l a"
      by (rule one_entry_same(1) [OF one conjunct1 [OF at] below [OF 0(2)]]) (use miss 0(2) in auto)
    ultimately show ?case by (simp add: page_from_3)
  next
    case (Suc n)
    note at = visits_at_table [OF inv realm_at_roots(1) [OF inv r] a Suc(3)]
    have l3: "l < 3" using Suc(2) by simp
    have same: "tt_entry C' g l a = tt_entry (content s) g l a"
      "pt_next C' g l a = pt_next (content s) g l a"
      using one_entry_same [OF one conjunct1 [OF at] below [OF Suc(3)], of a] miss Suc(3) by auto
    show ?case
    proof (cases "pt_next (content s) g l a")
      case None
      then show ?thesis using same l3 by (simp add: page_from_step)
    next
      case (Some g')
      have "page_from C' g' (l + 1) a = page_from (content s) g' (l + 1) a"
        by (rule Suc(1)) (use Suc(2) visits.down [OF Suc(3) l3 Some] in auto)
      then show ?thesis using same l3 Some by (simp add: page_from_step)
    qed
  qed
qed

text \<open>A walk that reaches the table of the entry reaches it before and after.\<close>

lemma page_from_reach:
  assumes inv: "inv_with lv par s" and r: "realm_at s r c" and a: "a < push_bit (s2_ipa_bits c) 1"
    and agree: "\<And>g. g < RMM_MAX_GRANULES \<Longrightarrow> gst s g = GRANULE_STATE_RTT \<Longrightarrow> lv g < l0 \<Longrightarrow>
        table_of (C' g) = table_of (content s g)"
    and v: "visits (content s) c a g l" and l: "l \<le> l0"
  shows "realm_page C' c a = page_from C' g l a"
  using v l
proof (induction rule: visits.induct)
  case root
  then show ?case by (simp add: realm_page_from)
next
  case (down g l g')
  note at = visits_at_table [OF inv realm_at_roots(1) [OF inv r] a down.hyps(1)]
  have "table_of (C' g) = table_of (content s g)"
    using at down.prems agree by (auto simp: at_table_def)
  then have "pt_next C' g l a = Some g'" using down.hyps(3) by (simp add: pt_next_entry tt_entry_def)
  then show ?case using down.IH down.prems down.hyps(2) by (simp add: page_from_step)
qed

lemma realm_page_change:
  assumes inv: "inv_with lv par s" and r: "realm_at s r c" and a: "a < push_bit (s2_ipa_bits c) 1"
    and one: "one_entry lv par X s g0 i0 t e' C'"
  shows "realm_page C' c a =
     (if \<exists>l. visits (content s) c a g0 l \<and> unat (s2_addr_to_idx a l) = i0
      then page_from C' g0 (lv g0) a else realm_page (content s) c a)"
    and "visits (content s) c a g0 l \<Longrightarrow> realm_page (content s) c a = page_from (content s) g0 l a"
proof -
  show "realm_page (content s) c a = page_from (content s) g0 l a" if "visits (content s) c a g0 l"
    by (rule page_from_reach [OF inv r a _ that order_refl]) simp
  show "realm_page C' c a =
     (if \<exists>l. visits (content s) c a g0 l \<and> unat (s2_addr_to_idx a l) = i0
      then page_from C' g0 (lv g0) a else realm_page (content s) c a)"
  proof (cases "\<exists>l. visits (content s) c a g0 l \<and> unat (s2_addr_to_idx a l) = i0")
    case True
    then obtain l where v: "visits (content s) c a g0 l" by blast
    then have "lv g0 = l"
      using visits_at_table [OF inv realm_at_roots(1) [OF inv r] a] by (auto simp: at_table_def)
    moreover have "realm_page C' c a = page_from C' g0 l a"
      by (rule page_from_reach [OF inv r a _ v order_refl])
         (use one \<open>lv g0 = l\<close> in \<open>auto simp: one_entry_def\<close>)
    ultimately show ?thesis using True by simp
  next
    case False
    then have "page_from C' (pt_root c a) (s2_starting_level c) a
        = page_from (content s) (pt_root c a) (s2_starting_level c) a"
      by (intro page_from_frame [OF inv r a one _ visits.root]) blast
    then show ?thesis using False by (auto simp: realm_page_from)
  qed
qed

section \<open>Addresses of one block\<close>

lemma block_of_mono: "block_of m a = block_of m b \<Longrightarrow> m \<le> 3 \<Longrightarrow> l \<le> m \<Longrightarrow> block_of l a = block_of l b"
proof (induction "nat (m - l)" arbitrary: l)
  case 0
  then show ?case by simp
next
  case (Suc n)
  then have "block_of (l + 1) a = block_of (l + 1) b" by simp
  then show ?case using block_of_split [of "l + 1" a b] Suc by simp
qed

lemma same_block_bound:
  assumes "s2_ctx_ok c" and "block_of 3 a = block_of 3 b" and "b < push_bit (s2_ipa_bits c) 1"
  shows "a < push_bit (s2_ipa_bits c) 1"
proof -
  have ib: "12 \<le> s2_ipa_bits c" "s2_ipa_bits c < 64" using assms(1) by (auto simp: s2_ctx_ok_def)
  have "unat a div 2 ^ 12 = unat b div 2 ^ 12"
    using arg_cong [OF assms(2), of unat] by (simp add: drop_bit_eq_div unat_div)
  moreover have "unat x < 2 ^ s2_ipa_bits c \<longleftrightarrow> unat x div 2 ^ 12 < 2 ^ (s2_ipa_bits c - 12)" for x :: u64
  proof -
    have "(2::nat) ^ s2_ipa_bits c = 2 ^ (s2_ipa_bits c - 12) * 2 ^ 12"
      using ib(1) by (simp only: le_add_diff_inverse2 flip: power_add)
    then show ?thesis by (simp add: div_less_iff_less_mult)
  qed
  ultimately show ?thesis
    using assms(3) unfolding word_less_nat_alt unat_push_1 [OF ib(2)] by simp
qed

text \<open>Two addresses of a block share the walk down to the table of that block's level.\<close>

lemma visits_same_block:
  assumes inv: "inv_with lv par s" and r: "realm_at s r c" and b: "b < push_bit (s2_ipa_bits c) 1"
    and v: "visits (content s) c b g l" and a: "a < push_bit (s2_ipa_bits c) 1"
    and eq: "block_of (l - 1) a = block_of (l - 1) b"
  shows "visits (content s) c a g l"
  using v eq
proof (induction rule: visits.induct)
  case root
  note ok = realm_at_roots(2) [OF inv r]
  have "pt_root c a = pt_root c b" using root block_of_root [OF ok a] block_of_root [OF ok b] by simp
  then show ?case using visits.root [of "content s" c a] by simp
next
  case (down g l g')
  have l3: "l \<le> 3" using down.hyps(2) by simp
  have ix: "block_of (l - 1) a = block_of (l - 1) b" "s2_addr_to_idx a l = s2_addr_to_idx b l"
    using down.prems block_of_split [OF l3, of a b] by simp_all
  then have "visits (content s) c a g l" using down.IH by simp
  moreover have "pt_next (content s) g l a = Some g'" using down.hyps(3) ix(2) by (simp add: pt_next_def)
  ultimately show ?case using down.hyps(2) by (intro visits.down)
qed

section \<open>The change seen on the map\<close>

text \<open>The realms of two states are the same, up to what does not concern stage 2.\<close>

definition same_realms :: "rmm \<Rightarrow> rmm \<Rightarrow> bool" where
  "same_realms s s' \<longleftrightarrow> (\<forall>r c. realm_at s' r c = realm_at s r c)"

lemma in_realm_same: "same_realms s s' \<Longrightarrow> in_realm s' r c a = in_realm s r c a"
  by (simp add: in_realm_def same_realms_def)

text \<open>\<open>hits\<close>: the walk of the address goes through entry \<open>i0\<close> of table \<open>g0\<close>.\<close>

definition hits :: "rmm \<Rightarrow> nat \<Rightarrow> nat \<Rightarrow> realm_s2_context \<Rightarrow> u64 \<Rightarrow> bool" where
  "hits s g0 i0 c a \<longleftrightarrow> (\<exists>l. visits (content s) c a g0 l \<and> unat (s2_addr_to_idx a l) = i0)"

lemma mem_map_change:
  assumes inv: "inv_with lv par s" and one: "one_entry lv par X s g0 i0 t e' (content s')"
    and same: "same_realms s s'" and r: "in_realm s r c a"
  shows "mem_map s' r a =
      (if hits s g0 i0 c a then page_from (content s') g0 (lv g0) a else mem_map s r a)"
    and "hits s g0 i0 c a \<Longrightarrow> mem_map s r a = page_from (content s) g0 (lv g0) a"
proof -
  from r have ra: "realm_at s r c" "a < push_bit (s2_ipa_bits c) 1" by (auto simp: in_realm_def)
  have at: "visits (content s) c a g0 l \<Longrightarrow> lv g0 = l" for l
    using visits_at_table [OF inv realm_at_roots(1) [OF inv ra(1)] ra(2)] by (auto simp: at_table_def)
  have m: "mem_map s r a = realm_page (content s) c a"
    "mem_map s' r a = realm_page (content s') c a"
    using mem_map_in r in_realm_same [OF same] by auto
  show "mem_map s' r a =
      (if hits s g0 i0 c a then page_from (content s') g0 (lv g0) a else mem_map s r a)"
    using realm_page_change(1) [OF inv ra one] unfolding m hits_def .
  show "mem_map s r a = page_from (content s) g0 (lv g0) a" if "hits s g0 i0 c a"
    using that realm_page_change(2) [OF inv ra one] at by (auto simp: m hits_def)
qed

text \<open>A change that preserves what the entry stands for preserves the map.\<close>

lemma mem_map_kept:
  assumes inv: "inv_with lv par s" and one: "one_entry lv par X s g0 i0 t e' (content s')"
    and same: "same_realms s s'"
    and kept: "\<And>a. unat (s2_addr_to_idx a (lv g0)) = i0 \<Longrightarrow>
      page_from (content s') g0 (lv g0) a = page_from (content s) g0 (lv g0) a"
  shows "mem_map s' = mem_map s"
proof (intro ext)
  fix r a
  show "mem_map s' r a = mem_map s r a"
  proof (cases "\<exists>c. in_realm s r c a")
    case True
    then obtain c where c: "in_realm s r c a" by blast
    show ?thesis
    proof (cases "hits s g0 i0 c a")
      case True
      then have "unat (s2_addr_to_idx a (lv g0)) = i0"
        using visits_at_table [OF inv realm_at_roots(1) [OF inv]] c
        by (auto simp: hits_def in_realm_def at_table_def)
      then show ?thesis using mem_map_change [OF inv one same c] True kept by simp
    qed (simp add: mem_map_change(1) [OF inv one same c])
  next
    case False
    then show ?thesis using mem_map_out in_realm_same [OF same] by metis
  qed
qed

text \<open>A change of a page entry changes one page of one realm.\<close>

lemma mem_map_page:
  assumes inv: "inv_with lv par s" and one: "one_entry lv par X s g0 i0 t e' (content s')"
    and same: "same_realms s s'" and r0: "in_realm s r0 c0 a0"
    and v: "visits (content s) c0 a0 g0 3" and i0: "unat (s2_addr_to_idx a0 3) = i0"
  shows "mem_map s' = map_put r0 a0 (entry_page 3 e' a0) (mem_map s)"
proof (intro ext)
  fix r a
  have ra0: "realm_at s r0 c0" "a0 < push_bit (s2_ipa_bits c0) 1"
    using r0 by (auto simp: in_realm_def)
  have l3: "lv g0 = 3"
    using visits_at_table [OF inv realm_at_roots(1) [OF inv ra0(1)] ra0(2) v]
    by (simp add: at_table_def)
  show "mem_map s' r a = map_put r0 a0 (entry_page 3 e' a0) (mem_map s) r a"
  proof (cases "\<exists>c. in_realm s r c a")
    case True
    then obtain c where c: "in_realm s r c a" by blast
    then have ra: "realm_at s r c" "a < push_bit (s2_ipa_bits c) 1" by (auto simp: in_realm_def)
    have iff: "hits s g0 i0 c a \<longleftrightarrow> r = r0 \<and> block_of 3 a = block_of 3 a0"
    proof
      assume "hits s g0 i0 c a"
      then obtain l where l: "visits (content s) c a g0 l" "unat (s2_addr_to_idx a l) = i0"
        by (auto simp: hits_def)
      then have "l = 3"
        using visits_at_table [OF inv realm_at_roots(1) [OF inv ra(1)] ra(2)] l3
        by (simp add: at_table_def)
      then show "r = r0 \<and> block_of 3 a = block_of 3 a0"
        using visits_unique [OF inv ra ra0 _ v, of 3] l i0 block_of_split [of 3 a a0]
        by (simp add: word_unat_eq_iff)
    next
      assume eq: "r = r0 \<and> block_of 3 a = block_of 3 a0"
      then have "c = c0" using ra ra0 by (auto simp: realm_at_def)
      have "visits (content s) c0 a g0 3"
        using visits_same_block [OF inv ra0 v] eq ra \<open>c = c0\<close> block_of_split [of 3 a a0] by simp
      then show "hits s g0 i0 c a"
        using \<open>c = c0\<close> eq i0 block_of_split [of 3 a a0] by (auto simp: hits_def)
    qed
    have "page_from (content s') g0 3 a = entry_page 3 e' a0" if "hits s g0 i0 c a"
    proof -
      have "unat (s2_addr_to_idx a 3) = i0" using that iff i0 block_of_split [of 3 a a0] by simp
      then have "tt_entry (content s') g0 3 a = Some e'"
        using one s2_addr_to_idx_bound [of a 3] by (simp add: tt_entry_def one_entry_def)
      then show ?thesis by (simp add: page_from_3 entry_page_def)
    qed
    then show ?thesis using mem_map_change(1) [OF inv one same c] iff l3
      by (simp add: map_put_def)
  next
    case False
    moreover have "\<not> (r = r0 \<and> block_of 3 a = block_of 3 a0)"
    proof
      assume eq: "r = r0 \<and> block_of 3 a = block_of 3 a0"
      then have "a < push_bit (s2_ipa_bits c0) 1"
        using same_block_bound realm_at_roots(2) [OF inv ra0(1)] ra0(2) by metis
      then show False using False eq ra0 by (auto simp: in_realm_def)
    qed
    ultimately show ?thesis using mem_map_out in_realm_same [OF same]
      by (metis map_put_def)
  qed
qed

end
