(* ===== verification/Rtt_Cmds.thy ===== *)
theory Rtt_Cmds
  imports Rtt_Walk
begin

text \<open>
  The commands on realm translation tables of runtime/rmi/rtt.c.  Each handler takes the
  register values the host passed, the environment parameters it depends on, and the
  state; it returns the value of x0 (or the result registers) and the new state.
  A \<^verbatim>\<open>goto\<close> to a clean-up label is a call of the local definition of the label's code.
\<close>

section \<open>Validation of the target\<close>

definition validate_map_addr :: "u64 \<Rightarrow> int \<Rightarrow> rd \<Rightarrow> bool" where
  "validate_map_addr map_addr level rd =
     (if realm_ipa_size rd \<le> map_addr then False
      else if \<not> addr_is_level_aligned map_addr level then False
      else True)"

definition validate_rtt_structure_cmds :: "u64 \<Rightarrow> int \<Rightarrow> rd \<Rightarrow> bool" where
  "validate_rtt_structure_cmds map_addr level rd =
     (let min_level = realm_rtt_starting_level rd + 1
      in if level < min_level \<or> RTT_PAGE_LEVEL < level then False
         else validate_map_addr map_addr level rd)"

definition validate_rtt_map_cmds :: "u64 \<Rightarrow> int \<Rightarrow> rd \<Rightarrow> bool" where
  "validate_rtt_map_cmds map_addr level rd =
     (if level < RTT_MIN_BLOCK_LEVEL \<or> RTT_PAGE_LEVEL < level then False
      else validate_map_addr map_addr level rd)"

definition validate_rtt_entry_cmds :: "u64 \<Rightarrow> int \<Rightarrow> rd \<Rightarrow> bool" where
  "validate_rtt_entry_cmds map_addr level rd =
     (if level < realm_rtt_starting_level rd \<or> RTT_PAGE_LEVEL < level then False
      else validate_map_addr map_addr level rd)"

section \<open>RTT.Create\<close>

text \<open>
  The chain of cases on the parent entry.  The result is \<^verbatim>\<open>Some ret\<close> if the command has to
  fail with \<open>ret\<close> (the entry is already a table), \<^verbatim>\<open>None\<close> if it goes on.  The last
  branch is the code's \<^verbatim>\<open>assert(false)\<close>.
\<close>

definition rtt_create_fill ::
  "nat \<Rightarrow> nat \<Rightarrow> u64 \<Rightarrow> u64 \<Rightarrow> int \<Rightarrow> u64 \<Rightarrow> realm_s2_context \<Rightarrow> rmm \<Rightarrow> (u64 option \<times> rmm) option"
where
  "rtt_create_fill g_tbl g_par idx parent_s2tte level map_addr s2_ctx s = do {
     s2tt \<leftarrow> table_of (content s g_tbl);
     if s2tte_is_unassigned parent_s2tte then do {
       ripas \<leftarrow> s2tte_get_ripas parent_s2tte;
       let s = set_content g_tbl (CTable (s2tt_init_unassigned s2tt ripas)) s;
       Some (None, granule_get g_par s)
     }
     else if s2tte_is_destroyed parent_s2tte then do {
       let s = set_content g_tbl (CTable (s2tt_init_destroyed s2tt)) s;
       Some (None, granule_get g_par s)
     }
     else if s2tte_is_assigned parent_s2tte (level - 1) then do {
       assert_c (RTT_MIN_BLOCK_LEVEL < level);
       block_pa \<leftarrow> s2tte_pa parent_s2tte (level - 1);
       t \<leftarrow> s2tt_init_assigned_empty s2tt block_pa level;
       let s = set_content g_tbl (CTable t) s;
       Some (None, granule_refcount_inc g_tbl (of_nat S2TTES_PER_S2TT) s)
     }
     else if s2tte_is_valid parent_s2tte (level - 1) then do {
       assert_c (RTT_MIN_BLOCK_LEVEL < level);
       s \<leftarrow> s2tte_write g_par idx 0 s;
       let s = invalidate_block s2_ctx map_addr s;
       block_pa \<leftarrow> s2tte_pa parent_s2tte (level - 1);
       t \<leftarrow> s2tt_init_valid s2tt block_pa level;
       let s = set_content g_tbl (CTable t) s;
       Some (None, granule_refcount_inc g_tbl (of_nat S2TTES_PER_S2TT) s)
     }
     else if s2tte_is_valid_ns parent_s2tte (level - 1) then do {
       assert_c (RTT_MIN_BLOCK_LEVEL < level);
       s \<leftarrow> s2tte_write g_par idx 0 s;
       let s = invalidate_block s2_ctx map_addr s;
       block_pa \<leftarrow> s2tte_pa parent_s2tte (level - 1);
       t \<leftarrow> s2tt_init_valid_ns s2tt block_pa level;
       let s = set_content g_tbl (CTable t) s;
       Some (None, granule_refcount_inc g_tbl (of_nat S2TTES_PER_S2TT) s)
     }
     else if s2tte_is_table parent_s2tte (level - 1) then do {
       ret \<leftarrow> rtt_error (level - 1);
       Some (Some ret, s)
     }
     else None
   }"

definition smc_rtt_create :: "u64 \<Rightarrow> u64 \<Rightarrow> u64 \<Rightarrow> u64 \<Rightarrow> rmm \<Rightarrow> (u64 \<times> rmm) option" where
  "smc_rtt_create rtt_addr rd_addr map_addr ulevel s = do {
     let level = sint ulevel;
     (r, s) \<leftarrow> find_lock_two_granules rtt_addr GRANULE_STATE_DELEGATED
                                        rd_addr GRANULE_STATE_RD s;
     (case r of
        None \<Rightarrow> Some (RMI_ERROR_INPUT, s)
      | Some (g_tbl, g_rd) \<Rightarrow> do {
          s \<leftarrow> granule_map g_rd SLOT_RD s;
          rd \<leftarrow> rd_of (content s g_rd);
          if \<not> validate_rtt_structure_cmds map_addr level rd then do {
            let s = buffer_unmap SLOT_RD s;
            s \<leftarrow> granule_unlock g_rd s;
            s \<leftarrow> granule_unlock g_tbl s;
            Some (RMI_ERROR_INPUT, s)
          } else do {
            let g_table_root = s2_g_rtt (rd_s2_ctx rd);
            let sl = realm_rtt_starting_level rd;
            let ipa_bits = realm_ipa_bits rd;
            let s2_ctx = rd_s2_ctx rd;
            let s = buffer_unmap SLOT_RD s;
            s \<leftarrow> granule_lock g_table_root GRANULE_STATE_RTT s;
            s \<leftarrow> granule_unlock g_rd s;
            (wi, s) \<leftarrow> rtt_walk_lock_unlock g_table_root sl ipa_bits map_addr (level - 1) s;
            (ret, s) \<leftarrow>
              (if last_level wi \<noteq> level - 1 then do {
                 ret \<leftarrow> rtt_error (last_level wi);
                 Some (ret, s)
               } else do {
                 s \<leftarrow> granule_map (g_llt wi) SLOT_RTT s;
                 parent_s2tte \<leftarrow> s2tte_read (g_llt wi) (index wi) s;
                 s \<leftarrow> granule_map g_tbl SLOT_DELEGATED s;
                 (failed, s) \<leftarrow> rtt_create_fill g_tbl (g_llt wi) (index wi) parent_s2tte level
                                  map_addr s2_ctx s;
                 (ret, s) \<leftarrow>
                   (case failed of
                      Some ret \<Rightarrow> Some (ret, s)
                    | None \<Rightarrow> do {
                        let s = granule_set_state g_tbl GRANULE_STATE_RTT s;
                        parent_s2tte \<leftarrow> s2tte_create_table rtt_addr (level - 1);
                        s \<leftarrow> s2tte_write (g_llt wi) (index wi) parent_s2tte s;
                        Some (RMI_SUCCESS, s)
                      });
                 let s = buffer_unmap SLOT_DELEGATED s;
                 let s = buffer_unmap SLOT_RTT s;
                 Some (ret, s)
               });
            s \<leftarrow> granule_unlock (g_llt wi) s;
            s \<leftarrow> granule_unlock g_tbl s;
            Some (ret, s)
          }
        })
   }"

section \<open>RTT.Fold\<close>

text \<open>
  The part of \<^verbatim>\<open>smc_rtt_fold\<close> between locking the child table and the label
  \<^verbatim>\<open>out_unmap_table\<close> that chooses the new parent entry: \<^verbatim>\<open>Inl ret\<close> leaves the command
  with \<open>ret\<close>, \<^verbatim>\<open>Inr e\<close> goes on with the entry \<open>e\<close>.
\<close>

definition rtt_fold_entry :: "nat \<Rightarrow> nat \<Rightarrow> int \<Rightarrow> rmm \<Rightarrow> ((u64 + u64) \<times> rmm) option" where
  "rtt_fold_entry g_tbl g_par level s = do {
     table \<leftarrow> table_of (content s g_tbl);
     let refcount = g_refcount (granules s g_tbl);
     if refcount = 0 then do {
       destroyed \<leftarrow> table_is_destroyed_block table;
       if destroyed then do {
         s \<leftarrow> granule_put g_par s;
         Some (Inr s2tte_create_destroyed, s)
       } else do {
         unassigned \<leftarrow> table_is_unassigned_block table;
         (case unassigned of
            Some ripas \<Rightarrow> do {
              s \<leftarrow> granule_put g_par s;
              Some (Inr (s2tte_create_unassigned ripas), s)
            }
          | None \<Rightarrow> Some (Inl RMI_ERROR_IN_USE, s))
       }
     }
     else if refcount = of_nat S2TTES_PER_S2TT then
       if level \<le> RTT_MIN_BLOCK_LEVEL then Some (Inl RMI_ERROR_IN_USE, s)
       else do {
         s2tte \<leftarrow> s2tte_read g_tbl 0 s;
         block_pa \<leftarrow> s2tte_pa s2tte (level - 1);
         assigned \<leftarrow> table_maps_assigned_block table level;
         parent_s2tte \<leftarrow>
           (if assigned then s2tte_create_assigned_empty block_pa (level - 1)
            else do {
              valid \<leftarrow> table_maps_valid_block table level;
              if valid then s2tte_create_valid block_pa (level - 1)
              else do {
                valid_ns \<leftarrow> table_maps_valid_ns_block table level;
                if valid_ns then s2tte_create_valid_ns block_pa (level - 1) else None
              }
            });
         s \<leftarrow> granule_refcount_dec g_tbl (of_nat S2TTES_PER_S2TT) s;
         Some (Inr parent_s2tte, s)
       }
     else Some (Inl RMI_ERROR_IN_USE, s)
   }"

definition smc_rtt_fold :: "u64 \<Rightarrow> u64 \<Rightarrow> u64 \<Rightarrow> u64 \<Rightarrow> rmm \<Rightarrow> (u64 \<times> rmm) option" where
  "smc_rtt_fold rtt_addr rd_addr map_addr ulevel s = do {
     let level = sint ulevel;
     (r, s) \<leftarrow> find_lock_granule rd_addr GRANULE_STATE_RD s;
     (case r of
        None \<Rightarrow> Some (RMI_ERROR_INPUT, s)
      | Some g_rd \<Rightarrow> do {
          s \<leftarrow> granule_map g_rd SLOT_RD s;
          rd \<leftarrow> rd_of (content s g_rd);
          if \<not> validate_rtt_structure_cmds map_addr level rd then do {
            let s = buffer_unmap SLOT_RD s;
            s \<leftarrow> granule_unlock g_rd s;
            Some (RMI_ERROR_INPUT, s)
          } else do {
            let g_table_root = s2_g_rtt (rd_s2_ctx rd);
            let sl = realm_rtt_starting_level rd;
            let ipa_bits = realm_ipa_bits rd;
            let s2_ctx = rd_s2_ctx rd;
            let s = buffer_unmap SLOT_RD s;
            s \<leftarrow> granule_lock g_table_root GRANULE_STATE_RTT s;
            s \<leftarrow> granule_unlock g_rd s;
            (wi, s) \<leftarrow> rtt_walk_lock_unlock g_table_root sl ipa_bits map_addr (level - 1) s;
            (ret, s) \<leftarrow>
              (if last_level wi \<noteq> level - 1 then do {
                 ret \<leftarrow> rtt_error (last_level wi);
                 Some (ret, s)
               } else do {
                 s \<leftarrow> granule_map (g_llt wi) SLOT_RTT s;
                 parent_s2tte \<leftarrow> s2tte_read (g_llt wi) (index wi) s;
                 (ret, s) \<leftarrow>
                   (if \<not> s2tte_is_table parent_s2tte (level - 1) then do {
                      ret \<leftarrow> rtt_error (level - 1);
                      Some (ret, s)
                    } else do {
                      pa \<leftarrow> s2tte_pa_table parent_s2tte (level - 1);
                      if rtt_addr \<noteq> pa then do {
                        ret \<leftarrow> rtt_error (level - 1);
                        Some (ret, s)
                      } else do {
                        (r, s) \<leftarrow> find_lock_granule rtt_addr GRANULE_STATE_RTT s;
                        g_tbl \<leftarrow> r;
                        s \<leftarrow> granule_map g_tbl SLOT_RTT2 s;
                        (choice, s) \<leftarrow> rtt_fold_entry g_tbl (g_llt wi) level s;
                        (ret, s) \<leftarrow>
                          (case choice of
                             Inl ret \<Rightarrow> Some (ret, s)
                           | Inr parent_s2tte \<Rightarrow> do {
                               s \<leftarrow> s2tte_write (g_llt wi) (index wi) 0 s;
                               let s = (if s2tte_is_valid parent_s2tte (level - 1)
                                           \<or> s2tte_is_valid_ns parent_s2tte (level - 1)
                                        then invalidate_pages_in_block s2_ctx map_addr s
                                        else invalidate_block s2_ctx map_addr s);
                               s \<leftarrow> s2tte_write (g_llt wi) (index wi) parent_s2tte s;
                               let s = granule_memzero_mapped g_tbl s;
                               let s = granule_set_state g_tbl GRANULE_STATE_DELEGATED s;
                               Some (RMI_SUCCESS, s)
                             });
                        let s = buffer_unmap SLOT_RTT2 s;
                        s \<leftarrow> granule_unlock g_tbl s;
                        Some (ret, s)
                      }
                    });
                 let s = buffer_unmap SLOT_RTT s;
                 Some (ret, s)
               });
            s \<leftarrow> granule_unlock (g_llt wi) s;
            Some (ret, s)
          }
        })
   }"

section \<open>RTT.Destroy\<close>

definition smc_rtt_destroy :: "u64 \<Rightarrow> u64 \<Rightarrow> u64 \<Rightarrow> u64 \<Rightarrow> rmm \<Rightarrow> (u64 \<times> rmm) option" where
  "smc_rtt_destroy rtt_addr rd_addr map_addr ulevel s = do {
     let level = sint ulevel;
     (r, s) \<leftarrow> find_lock_granule rd_addr GRANULE_STATE_RD s;
     (case r of
        None \<Rightarrow> Some (RMI_ERROR_INPUT, s)
      | Some g_rd \<Rightarrow> do {
          s \<leftarrow> granule_map g_rd SLOT_RD s;
          rd \<leftarrow> rd_of (content s g_rd);
          if \<not> validate_rtt_structure_cmds map_addr level rd then do {
            let s = buffer_unmap SLOT_RD s;
            s \<leftarrow> granule_unlock g_rd s;
            Some (RMI_ERROR_INPUT, s)
          } else do {
            let g_table_root = s2_g_rtt (rd_s2_ctx rd);
            let sl = realm_rtt_starting_level rd;
            let ipa_bits = realm_ipa_bits rd;
            let s2_ctx = rd_s2_ctx rd;
            let in_par = addr_in_par rd map_addr;
            let s = buffer_unmap SLOT_RD s;
            s \<leftarrow> granule_lock g_table_root GRANULE_STATE_RTT s;
            s \<leftarrow> granule_unlock g_rd s;
            (wi, s) \<leftarrow> rtt_walk_lock_unlock g_table_root sl ipa_bits map_addr (level - 1) s;
            (ret, s) \<leftarrow>
              (if last_level wi \<noteq> level - 1 then do {
                 ret \<leftarrow> rtt_error (last_level wi);
                 Some (ret, s)
               } else do {
                 s \<leftarrow> granule_map (g_llt wi) SLOT_RTT s;
                 parent_s2tte \<leftarrow> s2tte_read (g_llt wi) (index wi) s;
                 (ret, s) \<leftarrow>
                   (if \<not> s2tte_is_table parent_s2tte (level - 1) then do {
                      ret \<leftarrow> rtt_error (level - 1);
                      Some (ret, s)
                    } else do {
                      pa \<leftarrow> s2tte_pa_table parent_s2tte (level - 1);
                      if rtt_addr \<noteq> pa then Some (RMI_ERROR_INPUT, s)
                      else do {
                        (r, s) \<leftarrow> find_lock_granule rtt_addr GRANULE_STATE_RTT s;
                        g_tbl \<leftarrow> r;
                        (ret, s) \<leftarrow>
                          (if g_refcount (granules s g_tbl) \<noteq> 0
                           then Some (RMI_ERROR_IN_USE, s)
                           else do {
                             s \<leftarrow> granule_map g_tbl SLOT_RTT2 s;
                             let parent_s2tte = (if in_par then s2tte_create_destroyed
                                                 else s2tte_create_invalid_ns);
                             s \<leftarrow> granule_put (g_llt wi) s;
                             s \<leftarrow> s2tte_write (g_llt wi) (index wi) 0 s;
                             let s = invalidate_block s2_ctx map_addr s;
                             s \<leftarrow> s2tte_write (g_llt wi) (index wi) parent_s2tte s;
                             let s = granule_memzero_mapped g_tbl s;
                             let s = granule_set_state g_tbl GRANULE_STATE_DELEGATED s;
                             let s = buffer_unmap SLOT_RTT2 s;
                             Some (RMI_SUCCESS, s)
                           });
                        s \<leftarrow> granule_unlock g_tbl s;
                        Some (ret, s)
                      }
                    });
                 let s = buffer_unmap SLOT_RTT s;
                 Some (ret, s)
               });
            s \<leftarrow> granule_unlock (g_llt wi) s;
            Some (ret, s)
          }
        })
   }"

section \<open>Mapping of unprotected memory\<close>

datatype map_unmap_ns_op = MAP_NS | UNMAP_NS

definition map_unmap_ns ::
  "u64 \<Rightarrow> u64 \<Rightarrow> int \<Rightarrow> u64 \<Rightarrow> map_unmap_ns_op \<Rightarrow> rmm \<Rightarrow> (u64 \<times> rmm) option" where
  "map_unmap_ns rd_addr map_addr level host_s2tte op s = do {
     (r, s) \<leftarrow> find_lock_granule rd_addr GRANULE_STATE_RD s;
     (case r of
        None \<Rightarrow> Some (RMI_ERROR_INPUT, s)
      | Some g_rd \<Rightarrow> do {
          s \<leftarrow> granule_map g_rd SLOT_RD s;
          rd \<leftarrow> rd_of (content s g_rd);
          if \<not> validate_rtt_map_cmds map_addr level rd then do {
            let s = buffer_unmap SLOT_RD s;
            s \<leftarrow> granule_unlock g_rd s;
            Some (RMI_ERROR_INPUT, s)
          } else do {
            let g_table_root = s2_g_rtt (rd_s2_ctx rd);
            let sl = realm_rtt_starting_level rd;
            let ipa_bits = realm_ipa_bits rd;
            if op = MAP_NS \<and> addr_in_par rd map_addr then do {
              let s = buffer_unmap SLOT_RD s;
              s \<leftarrow> granule_unlock g_rd s;
              Some (RMI_ERROR_INPUT, s)
            } else do {
              let s2_ctx = rd_s2_ctx rd;
              let s = buffer_unmap SLOT_RD s;
              s \<leftarrow> granule_lock g_table_root GRANULE_STATE_RTT s;
              s \<leftarrow> granule_unlock g_rd s;
              (wi, s) \<leftarrow> rtt_walk_lock_unlock g_table_root sl ipa_bits map_addr level s;
              (ret, s) \<leftarrow>
                (if last_level wi \<noteq> level then do {
                   ret \<leftarrow> rtt_error (last_level wi);
                   Some (ret, s)
                 } else do {
                   s \<leftarrow> granule_map (g_llt wi) SLOT_RTT s;
                   s2tte \<leftarrow> s2tte_read (g_llt wi) (index wi) s;
                   (ret, s) \<leftarrow>
                     (case op of
                        MAP_NS \<Rightarrow>
                          if \<not> s2tte_is_unassigned s2tte then do {
                            ret \<leftarrow> rtt_error level;
                            Some (ret, s)
                          } else do {
                            s2tte \<leftarrow> s2tte_create_valid_ns host_s2tte level;
                            s \<leftarrow> s2tte_write (g_llt wi) (index wi) s2tte s;
                            let s = granule_get (g_llt wi) s;
                            Some (RMI_SUCCESS, s)
                          }
                      | UNMAP_NS \<Rightarrow>
                          if \<not> s2tte_is_valid_ns s2tte level then do {
                            ret \<leftarrow> rtt_error level;
                            Some (ret, s)
                          } else do {
                            let s2tte = s2tte_create_invalid_ns;
                            s \<leftarrow> s2tte_write (g_llt wi) (index wi) s2tte s;
                            s \<leftarrow> granule_put (g_llt wi) s;
                            let s = (if level = RTT_PAGE_LEVEL
                                     then invalidate_page s2_ctx map_addr s
                                     else invalidate_block s2_ctx map_addr s);
                            Some (RMI_SUCCESS, s)
                          });
                   let s = buffer_unmap SLOT_RTT s;
                   Some (ret, s)
                 });
              s \<leftarrow> granule_unlock (g_llt wi) s;
              Some (ret, s)
            }
          }
        })
   }"

definition smc_rtt_map_unprotected ::
  "u64 \<Rightarrow> u64 \<Rightarrow> u64 \<Rightarrow> u64 \<Rightarrow> rmm \<Rightarrow> (u64 \<times> rmm) option" where
  "smc_rtt_map_unprotected rd_addr map_addr ulevel s2tte s =
     (let level = sint ulevel
      in if \<not> host_ns_s2tte_is_valid s2tte level then Some (RMI_ERROR_INPUT, s)
         else map_unmap_ns rd_addr map_addr level s2tte MAP_NS s)"

definition smc_rtt_unmap_unprotected ::
  "u64 \<Rightarrow> u64 \<Rightarrow> u64 \<Rightarrow> rmm \<Rightarrow> (u64 \<times> rmm) option" where
  "smc_rtt_unmap_unprotected rd_addr map_addr ulevel s =
     map_unmap_ns rd_addr map_addr (sint ulevel) 0 UNMAP_NS s"

section \<open>RTT.ReadEntry\<close>

definition RMI_RTT_STATE_UNASSIGNED :: u64 where [word_consts]: "RMI_RTT_STATE_UNASSIGNED = 0"
definition RMI_RTT_STATE_DESTROYED :: u64 where [word_consts]: "RMI_RTT_STATE_DESTROYED = 1"
definition RMI_RTT_STATE_ASSIGNED :: u64 where [word_consts]: "RMI_RTT_STATE_ASSIGNED = 2"
definition RMI_RTT_STATE_TABLE :: u64 where [word_consts]: "RMI_RTT_STATE_TABLE = 3"
definition RMI_RTT_STATE_VALID_NS :: u64 where [word_consts]: "RMI_RTT_STATE_VALID_NS = 4"

definition ripas_reg :: "ripas \<Rightarrow> u64" where
  "ripas_reg r = (case r of RMI_EMPTY \<Rightarrow> 0 | RMI_RAM \<Rightarrow> 1)"

text \<open>The registers x2, x3 and x4 that describe an entry found at a level.\<close>

definition rtt_entry_regs :: "u64 \<Rightarrow> int \<Rightarrow> (u64 \<times> u64 \<times> u64) option" where
  "rtt_entry_regs s2tte level =
     (if s2tte_is_unassigned s2tte then do {
        ripas \<leftarrow> s2tte_get_ripas s2tte;
        Some (RMI_RTT_STATE_UNASSIGNED, 0, ripas_reg ripas)
      }
      else if s2tte_is_destroyed s2tte then Some (RMI_RTT_STATE_DESTROYED, 0, 0)
      else if s2tte_is_assigned s2tte level then do {
        pa \<leftarrow> s2tte_pa s2tte level;
        Some (RMI_RTT_STATE_ASSIGNED, pa, ripas_reg RMI_EMPTY)
      }
      else if s2tte_is_valid s2tte level then do {
        pa \<leftarrow> s2tte_pa s2tte level;
        Some (RMI_RTT_STATE_ASSIGNED, pa, ripas_reg RMI_RAM)
      }
      else if s2tte_is_valid_ns s2tte level then
        Some (RMI_RTT_STATE_VALID_NS, host_ns_s2tte s2tte level, 0)
      else if s2tte_is_table s2tte level then do {
        pa \<leftarrow> s2tte_pa_table s2tte level;
        Some (RMI_RTT_STATE_TABLE, pa, 0)
      }
      else None)"

text \<open>\<open>ret\<close> is the result structure of five registers as the caller initialised it.\<close>

definition smc_rtt_read_entry ::
  "u64 \<Rightarrow> u64 \<Rightarrow> u64 \<Rightarrow> u64 list \<Rightarrow> rmm \<Rightarrow> (u64 list \<times> rmm) option" where
  "smc_rtt_read_entry rd_addr map_addr ulevel ret s = do {
     let level = sint ulevel;
     (r, s) \<leftarrow> find_lock_granule rd_addr GRANULE_STATE_RD s;
     (case r of
        None \<Rightarrow> Some (ret[0 := RMI_ERROR_INPUT], s)
      | Some g_rd \<Rightarrow> do {
          s \<leftarrow> granule_map g_rd SLOT_RD s;
          rd \<leftarrow> rd_of (content s g_rd);
          if \<not> validate_rtt_entry_cmds map_addr level rd then do {
            let s = buffer_unmap SLOT_RD s;
            s \<leftarrow> granule_unlock g_rd s;
            Some (ret[0 := RMI_ERROR_INPUT], s)
          } else do {
            let g_rtt_root = s2_g_rtt (rd_s2_ctx rd);
            let sl = realm_rtt_starting_level rd;
            let ipa_bits = realm_ipa_bits rd;
            let s = buffer_unmap SLOT_RD s;
            s \<leftarrow> granule_lock g_rtt_root GRANULE_STATE_RTT s;
            s \<leftarrow> granule_unlock g_rd s;
            (wi, s) \<leftarrow> rtt_walk_lock_unlock g_rtt_root sl ipa_bits map_addr level s;
            s \<leftarrow> granule_map (g_llt wi) SLOT_RTT s;
            s2tte \<leftarrow> s2tte_read (g_llt wi) (index wi) s;
            (x2, x3, x4) \<leftarrow> rtt_entry_regs s2tte (last_level wi);
            let s = buffer_unmap SLOT_RTT s;
            s \<leftarrow> granule_unlock (g_llt wi) s;
            Some (ret[0 := RMI_SUCCESS, 1 := word_of_int (last_level wi), 2 := x2, 3 := x3,
                      4 := x4], s)
          }
        })
   }"

end
