(* ===== verification/Command_Prefix.thy ===== *)
theory Command_Prefix
  imports Walk_Correct Rtt_Cmds
begin

text \<open>
  The common shape of the commands on one entry of a realm's tables: lock and check the
  realm descriptor, walk to the entry, act on it with its table mapped, unlock.  The
  handlers are shown equal to instances of \<open>entry_command\<close>, and the part before and
  after the action is verified once.
\<close>

section \<open>The shape\<close>

definition rd_walk ::
  "nat \<Rightarrow> (rd \<Rightarrow> u64 option) \<Rightarrow> u64 \<Rightarrow> int \<Rightarrow> (u64 \<Rightarrow> 'a) \<Rightarrow> (rd \<Rightarrow> rtt_walk \<Rightarrow> rmm \<Rightarrow> ('a \<times> rmm) option)
     \<Rightarrow> rmm \<Rightarrow> ('a \<times> rmm) option" where
  "rd_walk g_rd check map_addr level err body s = do {
     s \<leftarrow> granule_map g_rd SLOT_RD s;
     rd \<leftarrow> rd_of (content s g_rd);
     (case check rd of
        Some e \<Rightarrow> do {
          s \<leftarrow> granule_unlock g_rd (buffer_unmap SLOT_RD s);
          Some (err e, s)
        }
      | None \<Rightarrow> do {
          s \<leftarrow> granule_lock (s2_g_rtt (rd_s2_ctx rd)) GRANULE_STATE_RTT (buffer_unmap SLOT_RD s);
          s \<leftarrow> granule_unlock g_rd s;
          (wi, s) \<leftarrow> rtt_walk_lock_unlock (s2_g_rtt (rd_s2_ctx rd))
                       (realm_rtt_starting_level rd) (realm_ipa_bits rd) map_addr level s;
          (ret, s) \<leftarrow> body rd wi s;
          s \<leftarrow> granule_unlock (g_llt wi) s;
          Some (ret, s)
        })
   }"

definition rtt_command ::
  "u64 \<Rightarrow> (rd \<Rightarrow> u64 option) \<Rightarrow> u64 \<Rightarrow> int \<Rightarrow> (u64 \<Rightarrow> 'a) \<Rightarrow> (rd \<Rightarrow> rtt_walk \<Rightarrow> rmm \<Rightarrow> ('a \<times> rmm) option)
     \<Rightarrow> rmm \<Rightarrow> ('a \<times> rmm) option" where
  "rtt_command rd_addr check map_addr level err body s = do {
     (r, s) \<leftarrow> find_lock_granule rd_addr GRANULE_STATE_RD s;
     (case r of
        None \<Rightarrow> Some (err RMI_ERROR_INPUT, s)
      | Some g_rd \<Rightarrow> rd_walk g_rd check map_addr level err body s)
   }"

definition entry_body ::
  "int \<Rightarrow> (rd \<Rightarrow> rtt_walk \<Rightarrow> u64 \<Rightarrow> rmm \<Rightarrow> (u64 \<times> rmm) option) \<Rightarrow> rd \<Rightarrow> rtt_walk \<Rightarrow> rmm
     \<Rightarrow> (u64 \<times> rmm) option" where
  "entry_body level act rd wi s =
     (if last_level wi \<noteq> level then do {
        ret \<leftarrow> rtt_error (last_level wi);
        Some (ret, s)
      } else do {
        s \<leftarrow> granule_map (g_llt wi) SLOT_RTT s;
        e \<leftarrow> s2tte_read (g_llt wi) (index wi) s;
        (ret, s) \<leftarrow> act rd wi e s;
        Some (ret, buffer_unmap SLOT_RTT s)
      })"

definition entry_command ::
  "u64 \<Rightarrow> (rd \<Rightarrow> u64 option) \<Rightarrow> u64 \<Rightarrow> int
     \<Rightarrow> (rd \<Rightarrow> rtt_walk \<Rightarrow> u64 \<Rightarrow> rmm \<Rightarrow> (u64 \<times> rmm) option) \<Rightarrow> rmm \<Rightarrow> (u64 \<times> rmm) option" where
  "entry_command rd_addr check map_addr level act s =
     rtt_command rd_addr check map_addr level id (entry_body level act) s"

section \<open>The handlers have the shape\<close>

definition fold_act ::
  "u64 \<Rightarrow> u64 \<Rightarrow> int \<Rightarrow> rd \<Rightarrow> rtt_walk \<Rightarrow> u64 \<Rightarrow> rmm \<Rightarrow> (u64 \<times> rmm) option" where
  "fold_act rtt_addr map_addr level rd wi parent_s2tte s =
     (if \<not> s2tte_is_table parent_s2tte (level - 1) then do {
        ret \<leftarrow> rtt_error (level - 1);
        Some (ret, s)
      } else do {
        pa \<leftarrow> s2tte_pa_table parent_s2tte (level - 1);
        if rtt_addr \<noteq> pa then do {
          ret \<leftarrow> rtt_error (level - 1);
          Some (ret, s)
        } else do {
          (r, s) \<leftarrow> find_lock_granule rtt_addr GRANULE_STATE_RTT s;
          g_tbl \<leftarrow> r;
          s \<leftarrow> granule_map g_tbl SLOT_RTT2 s;
          (choice, s) \<leftarrow> rtt_fold_entry g_tbl (g_llt wi) level s;
          (ret, s) \<leftarrow>
            (case choice of
               Inl ret \<Rightarrow> Some (ret, s)
             | Inr parent_s2tte \<Rightarrow> do {
                 s \<leftarrow> s2tte_write (g_llt wi) (index wi) 0 s;
                 let s = (if s2tte_is_valid parent_s2tte (level - 1)
                             \<or> s2tte_is_valid_ns parent_s2tte (level - 1)
                          then invalidate_pages_in_block (rd_s2_ctx rd) map_addr s
                          else invalidate_block (rd_s2_ctx rd) map_addr s);
                 s \<leftarrow> s2tte_write (g_llt wi) (index wi) parent_s2tte s;
                 let s = granule_memzero_mapped g_tbl s;
                 let s = granule_set_state g_tbl GRANULE_STATE_DELEGATED s;
                 Some (RMI_SUCCESS, s)
               });
          let s = buffer_unmap SLOT_RTT2 s;
          s \<leftarrow> granule_unlock g_tbl s;
          Some (ret, s)
        }
      })"

definition structure_check :: "u64 \<Rightarrow> int \<Rightarrow> rd \<Rightarrow> u64 option" where
  "structure_check map_addr level rd =
     (if \<not> validate_rtt_structure_cmds map_addr level rd then Some RMI_ERROR_INPUT else None)"

lemma smc_rtt_fold_shape:
  "smc_rtt_fold rtt_addr rd_addr map_addr ulevel s =
     entry_command rd_addr (structure_check map_addr (sint ulevel)) map_addr (sint ulevel - 1)
       (fold_act rtt_addr map_addr (sint ulevel)) s"
  unfolding smc_rtt_fold_def entry_command_def rtt_command_def rd_walk_def entry_body_def fold_act_def
    structure_check_def Let_def
  by (intro Option.bind_cong refl) (auto simp del: Option.bind_eq_None_conv intro!: Option.bind_cong split: option.split prod.split)

section \<open>The part before the action\<close>

lemma ipa_size_push: "realm_ipa_size rd = push_bit (s2_ipa_bits (rd_s2_ctx rd)) 1"
  by (simp add: realm_ipa_size_def realm_ipa_bits_def)

text \<open>A check that accepts leaves a walk that makes sense.\<close>

definition check_sound :: "(rd \<Rightarrow> u64 option) \<Rightarrow> u64 \<Rightarrow> int \<Rightarrow> bool" where
  "check_sound check map_addr level \<longleftrightarrow> (\<forall>rd. s2_ctx_ok (rd_s2_ctx rd) \<longrightarrow> check rd = None \<longrightarrow>
     map_addr < realm_ipa_size rd \<and> realm_rtt_starting_level rd \<le> level \<and> level \<le> 3)"

lemma relockedI:
  "granules s' = granules s \<Longrightarrow> content s' = content s \<Longrightarrow> slots s' = slots s \<Longrightarrow>
   vmids s' = vmids s \<Longrightarrow> glock s' = L \<Longrightarrow> relocked s L s'"
  by (simp add: relocked_def)

lemma rd_walk_spec:
  assumes inv: "inv_with lv par s" and g: "g_rd < RMM_MAX_GRANULES"
    and st: "gst s g_rd = GRANULE_STATE_RD" and rd: "content s g_rd = CRd rd"
    and lk: "glock s = L(g_rd := True)" and nl: "\<not> L g_rd"
    and L: "\<And>x. L x \<Longrightarrow> gst s x \<noteq> GRANULE_STATE_RTT"
    and sl: "slots s SLOT_RD = None" "slots s SLOT_RTT = None"
    and ck: "check_sound check map_addr level"
  shows "case check rd of
      Some e \<Rightarrow> \<exists>s'. rd_walk g_rd check map_addr level err body s = Some (err e, s')
                  \<and> relocked s L s'
    | None \<Rightarrow> \<exists>wi s1. walk_result lv s (rd_s2_ctx rd) map_addr level wi
        \<and> relocked s (L(g_llt wi := True)) s1
        \<and> rd_walk g_rd check map_addr level err body s
          = do { (ret, s) \<leftarrow> body rd wi s1; s \<leftarrow> granule_unlock (g_llt wi) s; Some (ret, s) }"
proof -
  have m: "granule_map g_rd SLOT_RD s = Some (map_slot SLOT_RD g_rd s)"
    using g sl by (simp add: granule_map_eq)
  note u = buffer_unmap_map_slot [of s SLOT_RD g_rd, OF sl(1)]
  have ul: "granule_unlock g_rd s' = Some (spinlock_release g_rd s')"
    if "granules s' = granules s" for s'
    using inv_with_unlocked_state [OF inv that g] by (simp add: granule_unlock_eq)
  have rel: "L(g_rd := False) = L" using nl by simp
  show ?thesis
  proof (cases "check rd")
    case (Some e)
    then have "rd_walk g_rd check map_addr level err body s = Some (err e, spinlock_release g_rd s)"
      by (simp add: rd_walk_def m u rd ul)
    then show ?thesis using Some lk rel by (auto intro!: relockedI)
  next
    case None
    have ro: "roots_ok lv s (rd_s2_ctx rd)"
      using rd_ok_roots [OF inv_with_rd [OF inv g st]] rd by simp
    let ?root = "s2_g_rtt (rd_s2_ctx rd)"
    have root: "?root < RMM_MAX_GRANULES" "gst s ?root = GRANULE_STATE_RTT" "?root \<noteq> g_rd"
      "\<not> L ?root"
      using roots_ok_root [OF ro] st L by (auto simp: at_table_def)
    have "\<not> glock s ?root" using lk root by simp
    note l1 = granule_lock_relocked(1) [OF inv root(1,2) this]
    let ?s2 = "spinlock_release g_rd (lock_g ?root GRANULE_STATE_RTT s)"
    have inv2: "inv_with lv par ?s2" using inv by (rule inv_with_same) simp_all
    have ro2: "roots_ok lv ?s2 (rd_s2_ctx rd)" using ro by (simp add: roots_ok_def at_table_def)
    have lk2: "glock ?s2 = L(?root := True)" using lk nl root(3) by (auto simp: fun_eq_iff)
    have "s2_ctx_ok (rd_s2_ctx rd)" using inv_with_rd [OF inv g st] rd by (simp add: rd_ok_def)
    then have c: "map_addr < push_bit (s2_ipa_bits (rd_s2_ctx rd)) 1"
      "s2_starting_level (rd_s2_ctx rd) \<le> level" "level \<le> 3"
      using ck None by (auto simp: check_sound_def ipa_size_push realm_rtt_starting_level_def)
    have L2: "\<And>x. L x \<Longrightarrow> gst ?s2 x \<noteq> GRANULE_STATE_RTT" and sl2: "slots ?s2 SLOT_RTT = None"
      using L sl by simp_all
    from rtt_walk_spec [OF inv2 ro2 c sl2 lk2 L2] obtain wi s1 where
      w: "rtt_walk_lock_unlock ?root (s2_starting_level (rd_s2_ctx rd))
             (s2_ipa_bits (rd_s2_ctx rd)) map_addr level ?s2 = Some (wi, s1)"
      "walk_result lv ?s2 (rd_s2_ctx rd) map_addr level wi"
      "relocked ?s2 (L(g_llt wi := True)) s1" by blast
    have "rd_walk g_rd check map_addr level err body s
          = do { (ret, s) \<leftarrow> body rd wi s1; s \<leftarrow> granule_unlock (g_llt wi) s; Some (ret, s) }"
      using None l1 w(1) by (simp add: rd_walk_def m u rd ul realm_rtt_starting_level_def
          realm_ipa_bits_def)
    moreover have "walk_result lv s (rd_s2_ctx rd) map_addr level wi"
      using w(2) by (simp add: walk_result_def at_table_def)
    moreover have "relocked s (L(g_llt wi := True)) s1"
      using w(3) by (simp add: relocked_def)
    ultimately show ?thesis using None by auto
  qed
qed

text \<open>The same from a quiet state, with the descriptor found by its address.\<close>

lemma quiet_found_unlocked:
  assumes "quiet s" and "inv_with lv par s" and "find_granule a = Some g"
  shows "\<not> glock s g \<and> unlocked_ok s g"
  using assms find_granule_bound inv_with_unlocked by (auto simp: quiet_def)

lemma find_lock_quiet:
  assumes "quiet s" and "inv_with lv par s"
  shows "find_lock_granule addr st s =
    (case find_granule addr of
       None \<Rightarrow> Some (None, s)
     | Some g \<Rightarrow> if gst s g = st then Some (Some g, lock_g g st s)
                 else Some (None, spinlock_release g (lock_g g st s)))"
  using quiet_found_unlocked [OF assms] by (rule find_lock_granule_eq)

lemma rtt_command_spec:
  assumes inv: "inv_with lv par s" and q: "quiet s" and ck: "check_sound check map_addr level"
  obtains (reject) e s' where
      "rtt_command rd_addr check map_addr level err body s = Some (err e, s')"
      "same_state s s'"
      "e = RMI_ERROR_INPUT \<and> \<not> (\<exists>g. find_granule rd_addr = Some g \<and> gst s g = GRANULE_STATE_RD)
       \<or> (\<exists>g rd. find_granule rd_addr = Some g \<and> gst s g = GRANULE_STATE_RD
             \<and> content s g = CRd rd \<and> check rd = Some e)"
    | (walk) g_rd rd wi s1 where
      "find_granule rd_addr = Some g_rd" "gst s g_rd = GRANULE_STATE_RD"
      "content s g_rd = CRd rd" "check rd = None"
      "walk_result lv s (rd_s2_ctx rd) map_addr level wi"
      "relocked s (\<lambda>x. x = g_llt wi) s1"
      "rtt_command rd_addr check map_addr level err body s
         = do { (ret, s) \<leftarrow> body rd wi s1; s \<leftarrow> granule_unlock (g_llt wi) s; Some (ret, s) }"
proof (cases "\<exists>g. find_granule rd_addr = Some g \<and> gst s g = GRANULE_STATE_RD")
  case False
  then have "\<exists>s'. find_lock_granule rd_addr GRANULE_STATE_RD s = Some (None, s') \<and> same_state s s'"
    using q same_state_lock_unlock [of s]
    by (cases "find_granule rd_addr") (auto simp: find_lock_quiet [OF q inv] quiet_def)
  then obtain s' where "find_lock_granule rd_addr GRANULE_STATE_RD s = Some (None, s')"
    "same_state s s'" by blast
  then have "rtt_command rd_addr check map_addr level err body s = Some (err RMI_ERROR_INPUT, s')"
    by (simp add: rtt_command_def)
  with False \<open>same_state s s'\<close> show ?thesis using reject by blast
next
  case True
  then obtain g where g: "find_granule rd_addr = Some g" "gst s g = GRANULE_STATE_RD" by blast
  then have b: "g < RMM_MAX_GRANULES" using find_granule_bound by blast
  from inv_with_rd [OF inv b g(2)] obtain rd where rd: "content s g = CRd rd"
    by (auto simp: rd_ok_def)
  let ?s0 = "lock_g g GRANULE_STATE_RD s"
  have c: "rtt_command rd_addr check map_addr level err body s
    = rd_walk g check map_addr level err body ?s0"
    by (simp add: rtt_command_def find_lock_quiet [OF q inv] g)
  have w0: "case check rd of
      Some e \<Rightarrow> \<exists>s'. rd_walk g check map_addr level err body ?s0 = Some (err e, s')
                  \<and> relocked ?s0 (\<lambda>x. False) s'
    | None \<Rightarrow> \<exists>wi s1. walk_result lv ?s0 (rd_s2_ctx rd) map_addr level wi
        \<and> relocked ?s0 ((\<lambda>x. False)(g_llt wi := True)) s1
        \<and> rd_walk g check map_addr level err body ?s0
          = do { (ret, s) \<leftarrow> body rd wi s1; s \<leftarrow> granule_unlock (g_llt wi) s; Some (ret, s) }"
  proof (rule rd_walk_spec)
    show "inv_with lv par ?s0" using inv by (rule inv_with_same) simp_all
  qed (use b g rd q ck in \<open>auto simp: quiet_def fun_eq_iff\<close>)
  show ?thesis
  proof (cases "check rd")
    case None
    with w0 obtain wi s1 where
      w: "walk_result lv ?s0 (rd_s2_ctx rd) map_addr level wi"
      "relocked ?s0 ((\<lambda>x. False)(g_llt wi := True)) s1"
      "rd_walk g check map_addr level err body ?s0
          = do { (ret, s) \<leftarrow> body rd wi s1; s \<leftarrow> granule_unlock (g_llt wi) s; Some (ret, s) }"
      by auto
    have "((\<lambda>x. False)(g_llt wi := True)) = (\<lambda>x. x = g_llt wi)" by (simp add: fun_eq_iff)
    with w show ?thesis
      using walk [OF g rd None, of wi s1] c by (simp add: walk_result_def at_table_def relocked_def)
  next
    case (Some e)
    with w0 obtain s' where
      "rd_walk g check map_addr level err body ?s0 = Some (err e, s')"
      "relocked ?s0 (\<lambda>x. False) s'" by auto
    then show ?thesis
      using reject [of e s'] c g rd Some q by (simp add: relocked_def same_state_def quiet_def fun_eq_iff)
  qed
qed

section \<open>Commands that act on one entry\<close>

text \<open>
  The state in which the action runs: nothing but locks and slots differs from the state
  \<open>s\<close> of the call; \<open>L\<close> is locked and \<open>K\<close> mapped.
\<close>

definition working :: "rmm \<Rightarrow> (nat \<Rightarrow> bool) \<Rightarrow> (nat \<Rightarrow> nat option) \<Rightarrow> rmm \<Rightarrow> bool" where
  "working s L K s' \<longleftrightarrow> granules s' = granules s \<and> content s' = content s
     \<and> vmids s' = vmids s \<and> glock s' = L \<and> slots s' = K"

lemma working_inv: "working s L K s' \<Longrightarrow> inv_with lv par s' = inv_with lv par s"
  by (rule inv_with_cong) (simp_all add: working_def)

lemma entry_command_spec:
  assumes inv: "inv_with lv par s" and q: "quiet s" and ck: "check_sound check map_addr level"
  obtains (reject) e s' where
      "entry_command rd_addr check map_addr level act s = Some (e, s')"
      "same_state s s'"
      "e = RMI_ERROR_INPUT \<and> \<not> (\<exists>g. find_granule rd_addr = Some g \<and> gst s g = GRANULE_STATE_RD)
       \<or> (\<exists>g rd. find_granule rd_addr = Some g \<and> gst s g = GRANULE_STATE_RD
             \<and> content s g = CRd rd \<and> check rd = Some e)"
    | (short) g_rd rd wi ret s' where
      "find_granule rd_addr = Some g_rd" "gst s g_rd = GRANULE_STATE_RD"
      "content s g_rd = CRd rd" "check rd = None"
      "walk_result lv s (rd_s2_ctx rd) map_addr level wi" "last_level wi < level"
      "rtt_error (last_level wi) = Some ret"
      "entry_command rd_addr check map_addr level act s = Some (ret, s')"
      "same_state s s'"
    | (entry) g_rd rd wi t s2 where
      "find_granule rd_addr = Some g_rd" "gst s g_rd = GRANULE_STATE_RD"
      "content s g_rd = CRd rd" "check rd = None"
      "walk_result lv s (rd_s2_ctx rd) map_addr level wi" "last_level wi = level"
      "table_of (content s (g_llt wi)) = Some t" "length t = 512"
      "working s (\<lambda>x. x = g_llt wi) ((\<lambda>k. None)(SLOT_RTT := Some (g_llt wi))) s2"
      "entry_command rd_addr check map_addr level act s
         = do { (ret, s3) \<leftarrow> act rd wi (t ! unat (index wi)) s2;
                s4 \<leftarrow> granule_unlock (g_llt wi) (buffer_unmap SLOT_RTT s3);
                Some (ret, s4) }"
proof -
  from inv q ck show ?thesis
  proof (cases rule: rtt_command_spec [where err = id and rd_addr = rd_addr
        and body = "entry_body level act"])
    case (reject e s')
    then show ?thesis using that(1) [of e s'] by (simp add: entry_command_def)
  next
    case (walk g_rd rd wi s1)
    let ?llt = "g_llt wi"
    have at: "?llt < RMM_MAX_GRANULES" "gst s ?llt = GRANULE_STATE_RTT" "lv ?llt = last_level wi"
      using walk(5) by (simp_all add: walk_result_def at_table_def)
    from inv at obtain t where t: "table_of (content s ?llt) = Some t" "length t = 512"
      and l: "0 \<le> last_level wi" "last_level wi \<le> 3"
      by (elim inv_with_rtt) auto
    have s1: "granules s1 = granules s" "content s1 = content s" "slots s1 = (\<lambda>k. None)"
      "vmids s1 = vmids s" "glock s1 = (\<lambda>x. x = ?llt)"
      using walk(6) q by (auto simp: relocked_def quiet_def)
    show ?thesis
    proof (cases "last_level wi = level")
      case False
      then have lt: "last_level wi < level" using walk(5) by (simp add: walk_result_def)
      from rtt_error_Some [OF l] obtain ret where ret: "rtt_error (last_level wi) = Some ret" by blast
      have "granule_unlock ?llt s1 = Some (spinlock_release ?llt s1)"
        using inv_with_unlocked_state [OF inv s1(1) at(1)] by (simp add: granule_unlock_eq)
      then have "entry_command rd_addr check map_addr level act s
          = Some (ret, spinlock_release ?llt s1)"
        using walk(7) False ret by (simp add: entry_command_def entry_body_def)
      moreover have "same_state s (spinlock_release ?llt s1)"
        using s1 q by (auto simp: same_state_def quiet_def fun_eq_iff)
      ultimately show ?thesis using that(2) [OF walk(1-5) lt ret] by blast
    next
      case True
      let ?s2 = "map_slot SLOT_RTT ?llt s1"
      have "granule_map ?llt SLOT_RTT s1 = Some ?s2"
        using at s1 by (simp add: granule_map_eq)
      moreover have "s2tte_read ?llt (index wi) ?s2 = Some (t ! unat (index wi))"
        using walk(5) t s1 s2_addr_to_idx_bound by (simp add: walk_result_def s2tte_read_def)
      ultimately have "entry_command rd_addr check map_addr level act s
         = do { (ret, s3) \<leftarrow> act rd wi (t ! unat (index wi)) ?s2;
                s4 \<leftarrow> granule_unlock (g_llt wi) (buffer_unmap SLOT_RTT s3);
                Some (ret, s4) }"
        using walk(7) True
        by (auto simp: entry_command_def entry_body_def Option.bind_assoc split: prod.splits
            intro!: Option.bind_cong)
      moreover have "working s (\<lambda>x. x = ?llt) ((\<lambda>k. None)(SLOT_RTT := Some ?llt)) ?s2"
        using s1 by (simp add: working_def)
      ultimately show ?thesis using that(3) [OF walk(1-5) True t] by blast
    qed
  qed
qed

text \<open>
  The two kinds of step that change a table: an entry is rewritten in place, or an entry
  is rewritten together with the granule it referred to or refers to from now on.
\<close>

section \<open>Writing an entry\<close>

lemma s2tte_write_eq:
  assumes "table_of (content s g) = Some t" and "unat i < length t"
  shows "s2tte_write g i e s
    = Some (emit (EvTteWrite g (unat i) e) (set_content g (CTable (t[unat i := e])) s))"
  using assms by (simp add: s2tte_write_def)

lemma inv_write_entry:
  assumes inv: "inv_with lv par s" and g: "g < RMM_MAX_GRANULES"
    and st: "gst s g = GRANULE_STATE_RTT" and t: "table_of (content s g) = Some t" and i: "i < 512"
    and gr: "granules s' = (granules s)(g := (granules s g)
               \<lparr>g_refcount := grc s g - ref_word (t ! i) + ref_word e\<rparr>)"
    and co: "content s' = (content s)(g := CTable (t[i := e]))"
    and e: "entry_ok lv par s' g i e"
  shows "inv_with lv par s'"
proof (rule inv_with_step [OF inv, where T = "{g}"])
  have same: "gst s' x = gst s x" for x by (simp add: gr)
  show "links_ok s'"
  proof (rule links_ok_frame)
    show "links_ok s" using inv by (simp add: inv_with_def)
    show "same_links s s' x" for x
      using st by (cases "x = g") (auto simp: same_links_def gr co)
  qed
  show "kept lv par s lv par s' d" for d
    by (simp add: kept_def same)
  fix x assume "x \<in> {g}"
  then have x: "x = g" by simp
  have "rtt_ok lv par s g" using inv_with_granule [OF inv g] st by (simp add: granule_ok_def)
  then have "rtt_ok lv par s' g"
    by (rule rtt_ok_update [where lv = lv and par = par and s = s and t = t and i = i and e = e])
      (use t i e in \<open>simp_all add: co gr kept_def same\<close>)
  then show "granule_ok lv par s' x"
    using st by (simp add: x granule_ok_def unlocked_ok_def same)
qed (auto simp: gr co)

section \<open>Writing an entry and changing a second granule\<close>

lemma inv_entry_step:
  assumes inv: "inv_with lv par s" and g: "g < RMM_MAX_GRANULES"
    and st: "gst s g = GRANULE_STATE_RTT" and t: "table_of (content s g) = Some t" and i: "i < 512"
    and c: "c \<noteq> g"
    and cs: "gst s c \<notin> {GRANULE_STATE_RD, GRANULE_STATE_REC}"
      "gst s' c \<notin> {GRANULE_STATE_RD, GRANULE_STATE_REC}"
    and gr: "granules s' = (granules s)(g := (granules s g)
               \<lparr>g_refcount := grc s g - ref_word (t ! i) + ref_word e\<rparr>, c := x)"
    and co: "content s' = (content s)(g := CTable (t[i := e]), c := y)"
    and lv: "\<And>d. d \<noteq> c \<Longrightarrow> lv' d = lv d"
    and par: "\<And>d. owned_state (gst s d) \<Longrightarrow> par d \<noteq> TteOwner g i \<Longrightarrow> owner_granule (par d) \<noteq> Some c
                \<Longrightarrow> par' d = par d \<and> d \<noteq> c"
    and e: "entry_ok lv' par' s' g i e" and ok: "granule_ok lv' par' s' c"
  shows "inv_with lv' par' s'"
proof (rule inv_with_step [OF inv, where T = "{g, c}"])
  have same: "gst s' d = gst s d" if "d \<noteq> c" for d using that c by (simp add: gr)
  have kept: "kept lv par s lv' par' s' d"
    if "owned_state (gst s d)" "par d \<noteq> TteOwner g i" "owner_granule (par d) \<noteq> Some c" for d
    using par [OF that] lv same by (simp add: kept_def)
  show "links_ok s'"
  proof (rule links_ok_frame)
    show "links_ok s" using inv by (simp add: inv_with_def)
    fix d
    consider "d = g" | "d = c" | "d \<noteq> g" "d \<noteq> c" by blast
    then show "same_links s s' d"
    proof cases
      case 1
      then show ?thesis using st c by (simp add: same_links_def gr)
    next
      case 2
      then show ?thesis using cs by (simp add: same_links_def)
    next
      case 3
      then show ?thesis by (simp add: same_links_same gr co)
    qed
  qed
  show "kept lv par s lv' par' s' d"
    if "h \<notin> {g, c}" "owned_state (gst s d)" "owner_granule (par d) = Some h" for h d
    using that by (intro kept) auto
  fix d assume d: "d \<in> {g, c}" "d < RMM_MAX_GRANULES"
  have "rtt_ok lv par s g" using inv_with_granule [OF inv g] st by (simp add: granule_ok_def)
  then have "rtt_ok lv' par' s' g"
  proof (rule rtt_ok_update [where lv = lv and par = par and s = s and t = t and i = i and e = e])
    show "kept lv par s lv' par' s' d'" if "j \<noteq> i" "owned_state (gst s d')" "par d' = TteOwner g j" for j d'
      using that c by (intro kept) auto
  qed (use c t i e in \<open>simp_all add: co gr lv\<close>)
  then have "granule_ok lv' par' s' g"
    using st same c by (simp add: granule_ok_def unlocked_ok_def)
  then show "granule_ok lv' par' s' d" using d ok by auto
qed (use lv in \<open>auto simp: gr co\<close>)

section \<open>What an entry refers to\<close>

lemma entry_ok_page:
  assumes "entry_ok lv par s g i e" and "lv g = 3" and "s2tte_is_assigned e 3 \<or> s2tte_is_valid e 3"
  obtains d where "find_granule (addr_level_mask e 3) = Some d" "gst s d = GRANULE_STATE_DATA"
    "par d = TteOwner g i" "d < RMM_MAX_GRANULES"
proof -
  have "owns_pages par s g i (addr_level_mask e 3) 1"
    using assms by (auto simp: entry_ok_def table_entry_ok_def s2tte_iffs leaf_entry_def)
  then show ?thesis using that find_granule_bound by (auto simp: owns_pages_def)
qed

lemma entry_ok_block:
  assumes "entry_ok lv par s g i e" and "lv g = 2" and "s2tte_is_assigned e 2"
  shows "owns_pages par s g i (addr_level_mask e 2) 512"
  using assms by (auto simp: entry_ok_def table_entry_ok_def s2tte_iffs leaf_entry_def)

lemma entry_ok_unassigned:
  assumes "entry_ok lv par s g i e" and "s2tte_is_unassigned e"
  shows "e = 0 \<or> e = 0x40"
  using assms by (auto simp: entry_ok_def table_entry_ok_def s2tte_iffs leaf_entry_def)

lemma entry_ok_destroyed:
  assumes "entry_ok lv par s g i e" and "s2tte_is_destroyed e"
  shows "e = 8"
  using assms by (auto simp: entry_ok_def table_entry_ok_def s2tte_iffs leaf_entry_def)

lemma entry_ok_assigned_level:
  assumes "entry_ok lv par s g i e" and "s2tte_is_assigned e l"
  shows "lv g = 2 \<or> lv g = 3"
  using assms by (auto simp: entry_ok_def table_entry_ok_def s2tte_iffs leaf_entry_def)

lemma leaf_entry_refs: "leaf_entry e \<Longrightarrow> \<not> s2tte_refs e"
  by (auto simp: leaf_entry_def s2tte_refs_def)

lemma ref_word_simps [simp]:
  "s2tte_refs e \<Longrightarrow> ref_word e = 1" "\<not> s2tte_refs e \<Longrightarrow> ref_word e = 0"
  by (simp_all add: ref_word_def)

lemma entry_ok_leaf [simp]: "leaf_entry e \<Longrightarrow> entry_ok lv par s g i e"
  by (simp add: entry_ok_def)

lemma leaf_entries [simp]:
  "leaf_entry 0" "leaf_entry s2tte_create_destroyed" "leaf_entry s2tte_create_invalid_ns"
  "leaf_entry (s2tte_create_unassigned r)"
  by (cases r; simp add: leaf_entry_def s2tte_create_destroyed_def s2tte_create_invalid_ns_def
      s2tte_create_unassigned_def s2tte_create_ripas_def s2tte_values)+

text \<open>A reference counted: the count of a table with such an entry is not zero.\<close>

lemma ref_count_pos:
  assumes "length t = 512" and "i < 512" and "s2tte_refs (t ! i)"
  shows "(0::u64) < of_nat (ref_count t)"
proof -
  have "0 < ref_count t" unfolding ref_count_def using assms by (intro length_filter_pos) auto
  moreover have "ref_count t \<le> 512" using ref_count_le [of t] assms(1) by simp
  ultimately show ?thesis by (simp add: word_less_nat_alt unat_of_nat)
qed

section \<open>Entries that refer to a granule\<close>

lemma find_granule_level3:
  assumes "find_granule a = Some g"
  shows "addr_is_level_aligned a 3"
proof -
  have d: "in_dram a" using assms by (simp add: find_granule_eq split: if_splits)
  then have "unat a mod 4096 = 0" and lt: "unat a < 2 ^ 48"
    by (auto simp: in_dram_def GRANULE_ALIGNED_unat word_consts word_less_nat_alt)
  then have "take_bit 12 a = 0"
    unfolding word_unat_eq_iff unsigned_take_bit_eq by (simp add: take_bit_eq_mod)
  moreover have "take_bit 48 a = a"
    using lt by (simp add: word_unat_eq_iff unsigned_take_bit_eq take_bit_nat_eq_self)
  ultimately have b: "bit a n \<Longrightarrow> 12 \<le> n \<and> n < 48" for n
    by (metis bit_take_bit_iff bit_0_eq bot_apply bot_bool_def leI)
  have "a = a AND BIT_MASK_ULL 47 12"
    by (rule bit_eqI) (use b in \<open>force simp: bit_and_iff bit_BIT_MASK_ULL\<close>)
  then show ?thesis by (simp add: addr_is_level_aligned_def level_mask_values)
qed

lemma data_entry_created:
  assumes "find_granule pa = Some c"
  obtains e where "(if r = RMI_EMPTY then s2tte_create_assigned_empty pa 3
      else s2tte_create_valid pa 3) = Some e"
    "addr_level_mask e 3 = pa" "s2tte_refs e"
    "(if r = RMI_EMPTY then s2tte_is_assigned e 3 else s2tte_is_valid e 3)"
proof -
  have al: "addr_is_level_aligned pa 3" using assms by (rule find_granule_level3)
  show ?thesis
  proof (cases "r = RMI_EMPTY")
    case True
    obtain e where e: "s2tte_create_assigned_empty pa 3 = Some e"
      using al by (simp add: s2tte_create_assigned_empty_def bind_assert_c s2tte_values)
    note c = created_assigned_empty [OF e]
    then show ?thesis using that [of e] True e s2tte_refs_assigned [of e 3]
      by (simp add: s2tte_pa_def bind_assert_c split: if_splits)
  next
    case False
    obtain e where e: "s2tte_create_valid pa 3 = Some e"
      using al by (simp add: s2tte_create_valid_def bind_assert_c s2tte_values)
    note c = created_valid_page [OF e]
    then show ?thesis using that [of e] False e s2tte_refs_valid [of e 3]
      by (simp add: s2tte_pa_def bind_assert_c split: if_splits)
  qed
qed

end
