(* ===== verification/Rtt_Correct.thy ===== *)
theory Rtt_Correct
  imports Command_Prefix
begin

text \<open>
  What the commands on realm translation tables do to the tables, and that they keep the
  invariant.
\<close>

section \<open>From the action to the command\<close>

text \<open>
  \<open>none_ok\<close> says whether the command may fail to return (a failed assertion).
\<close>

lemma entry_command_safe:
  assumes inv: "inv_with lv par s" and q: "quiet s" and ck: "check_sound check map_addr level"
    and act: "\<And>g_rd rd wi t s2. find_granule rd_addr = Some g_rd \<Longrightarrow> content s g_rd = CRd rd
      \<Longrightarrow> check rd = None \<Longrightarrow> walk_result lv s (rd_s2_ctx rd) map_addr level wi
      \<Longrightarrow> last_level wi = level \<Longrightarrow> table_of (content s (g_llt wi)) = Some t \<Longrightarrow> length t = 512
      \<Longrightarrow> working s (\<lambda>x. x = g_llt wi) ((\<lambda>k. None)(SLOT_RTT := Some (g_llt wi))) s2
      \<Longrightarrow> case act rd wi (t ! unat (index wi)) s2 of
            None \<Rightarrow> none_ok
          | Some (ret, s3) \<Rightarrow> inv s3 \<and> glock s3 = (\<lambda>x. x = g_llt wi)
              \<and> slots s3 = (\<lambda>k. None)(SLOT_RTT := Some (g_llt wi))"
  shows "case entry_command rd_addr check map_addr level act s of
      None \<Rightarrow> none_ok
    | Some (ret, s') \<Rightarrow> inv s' \<and> quiet s'"
  using inv q ck
proof (cases rule: entry_command_spec [where rd_addr = rd_addr and act = act])
  case (reject e s')
  then show ?thesis using inv q inv_cong [OF reject(2)] quiet_cong [OF reject(2)] inv_defI by simp
next
  case (short g_rd rd wi ret s')
  then show ?thesis using inv q inv_cong [OF short(9)] quiet_cong [OF short(9)] inv_defI by simp
next
  case (entry g_rd rd wi t s2)
  note a = act [OF entry(1,3-9)]
  show ?thesis
  proof (cases "act rd wi (t ! unat (index wi)) s2")
    case None
    then show ?thesis using a entry(10) by simp
  next
    case (Some p)
    obtain ret s3 where p: "p = (ret, s3)" by fastforce
    let ?s4 = "buffer_unmap SLOT_RTT s3"
    from a Some p obtain lv' par' where i3: "inv_with lv' par' s3"
      and lk: "glock s3 = (\<lambda>x. x = g_llt wi)"
      and sl: "slots s3 = (\<lambda>k. None)(SLOT_RTT := Some (g_llt wi))" by (auto simp: inv_def)
    have i4: "inv_with lv' par' ?s4" using i3 by (rule inv_with_same) simp_all
    have "g_llt wi < RMM_MAX_GRANULES" using entry(5) by (simp add: walk_result_def at_table_def)
    then have "granule_unlock (g_llt wi) ?s4 = Some (spinlock_release (g_llt wi) ?s4)"
      using i4 by (intro granule_unlock_relocked)
    moreover have "inv_with lv' par' (spinlock_release (g_llt wi) ?s4)"
      using i4 by (rule inv_with_same) simp_all
    moreover have "quiet (spinlock_release (g_llt wi) ?s4)"
      using lk sl by (simp add: quiet_def)
    ultimately show ?thesis using entry(10) Some p by (auto simp: inv_def)
  qed
qed

lemma structure_check_sound: "check_sound (structure_check map_addr level) map_addr (level - 1)"
  by (auto simp: check_sound_def structure_check_def validate_rtt_structure_cmds_def Let_def
      validate_map_addr_def s2tte_values split: if_splits)

text \<open>The facts about the entry that every action starts from.\<close>

lemma entry_facts:
  assumes inv: "inv_with lv par s" and w: "walk_result lv s c addr level wi"
    and l: "last_level wi = level" and t: "table_of (content s (g_llt wi)) = Some t"
  shows "g_llt wi < RMM_MAX_GRANULES" "gst s (g_llt wi) = GRANULE_STATE_RTT"
    "lv (g_llt wi) = level" "unat (index wi) < 512" "0 \<le> level" "level \<le> 3"
    "grc s (g_llt wi) = of_nat (ref_count t)" "length t = 512"
    "entry_ok lv par s (g_llt wi) (unat (index wi)) (t ! unat (index wi))"
proof -
  have at: "g_llt wi < RMM_MAX_GRANULES" "gst s (g_llt wi) = GRANULE_STATE_RTT"
    "lv (g_llt wi) = level" and i: "unat (index wi) < 512"
    using w l s2_addr_to_idx_bound by (auto simp: walk_result_def at_table_def)
  from inv at(1,2) t obtain "0 \<le> lv (g_llt wi)" "lv (g_llt wi) \<le> 3"
    "grc s (g_llt wi) = of_nat (ref_count t)" "length t = 512"
    "\<And>i. i < 512 \<Longrightarrow> entry_ok lv par s (g_llt wi) i (t ! i)"
    by (elim inv_with_rtt) auto
  with at i show "g_llt wi < RMM_MAX_GRANULES" "gst s (g_llt wi) = GRANULE_STATE_RTT"
    "lv (g_llt wi) = level" "unat (index wi) < 512" "0 \<le> level" "level \<le> 3"
    "grc s (g_llt wi) = of_nat (ref_count t)" "length t = 512"
    "entry_ok lv par s (g_llt wi) (unat (index wi)) (t ! unat (index wi))"
    by auto
qed

section \<open>RTT.Destroy\<close>

definition destroy_act ::
  "u64 \<Rightarrow> u64 \<Rightarrow> int \<Rightarrow> rd \<Rightarrow> rtt_walk \<Rightarrow> u64 \<Rightarrow> rmm \<Rightarrow> (u64 \<times> rmm) option" where
  "destroy_act rtt_addr map_addr level rd wi parent_s2tte s =
     (if \<not> s2tte_is_table parent_s2tte (level - 1) then do {
        ret \<leftarrow> rtt_error (level - 1);
        Some (ret, s)
      } else do {
        pa \<leftarrow> s2tte_pa_table parent_s2tte (level - 1);
        if rtt_addr \<noteq> pa then Some (RMI_ERROR_INPUT, s)
        else do {
          (r, s) \<leftarrow> find_lock_granule rtt_addr GRANULE_STATE_RTT s;
          g_tbl \<leftarrow> r;
          (ret, s) \<leftarrow>
            (if g_refcount (granules s g_tbl) \<noteq> 0 then Some (RMI_ERROR_IN_USE, s)
             else do {
               s \<leftarrow> granule_map g_tbl SLOT_RTT2 s;
               s \<leftarrow> granule_put (g_llt wi) s;
               s \<leftarrow> s2tte_write (g_llt wi) (index wi) 0 s;
               s \<leftarrow> s2tte_write (g_llt wi) (index wi)
                      (if addr_in_par rd map_addr then s2tte_create_destroyed
                       else s2tte_create_invalid_ns)
                      (invalidate_block (rd_s2_ctx rd) map_addr s);
               let s = granule_memzero_mapped g_tbl s;
               let s = granule_set_state g_tbl GRANULE_STATE_DELEGATED s;
               let s = buffer_unmap SLOT_RTT2 s;
               Some (RMI_SUCCESS, s)
             });
          s \<leftarrow> granule_unlock g_tbl s;
          Some (ret, s)
        }
      })"

lemma smc_rtt_destroy_shape:
  "smc_rtt_destroy rtt_addr rd_addr map_addr ulevel s =
     entry_command rd_addr (structure_check map_addr (sint ulevel)) map_addr (sint ulevel - 1)
       (destroy_act rtt_addr map_addr (sint ulevel)) s"
  unfolding smc_rtt_destroy_def entry_command_def rtt_command_def rd_walk_def entry_body_def
    destroy_act_def structure_check_def Let_def
  by (intro Option.bind_cong refl)
     (auto simp del: Option.bind_eq_None_conv intro!: Option.bind_cong
       split: option.split prod.split)

text \<open>
  What a granule and the table that referred to it are after the granule was taken out of
  the tree.
\<close>

definition child_reclaimed ::
  "rmm \<Rightarrow> nat \<Rightarrow> nat \<Rightarrow> u64 list \<Rightarrow> nat \<Rightarrow> u64 \<Rightarrow> rmm \<Rightarrow> bool" where
  "child_reclaimed s g i t c e s' \<longleftrightarrow>
     granules s' = (granules s)(g := (granules s g)
                      \<lparr>g_refcount := grc s g - ref_word (t ! i) + ref_word e\<rparr>,
                    c := \<lparr>g_state = GRANULE_STATE_DELEGATED, g_refcount = 0\<rparr>)
   \<and> content s' = (content s)(g := CTable (t[i := e]), c := CZero)
   \<and> vmids s' = vmids s"

lemma granule_put_eq:
  "0 < grc s g \<Longrightarrow> granule_put g s = Some (set_refcount g (grc s g - 1) s)"
  by (simp add: granule_put_def)

lemma destroy_act_success:
  assumes inv: "inv_with lv par s" and w: "walk_result lv s ctx addr (level - 1) wi"
    and l: "last_level wi = level - 1" and t: "table_of (content s (g_llt wi)) = Some t"
    and ws: "working s (\<lambda>x. x = g_llt wi) ((\<lambda>k. None)(SLOT_RTT := Some (g_llt wi))) s2"
    and e: "s2tte_is_table (t ! unat (index wi)) (level - 1)"
    and pa: "rtt_addr = addr_level_mask (t ! unat (index wi)) 3"
    and c: "find_granule rtt_addr = Some c" and rc: "grc s c = 0"
    and e': "e' = (if addr_in_par rd map_addr then s2tte_create_destroyed
                   else s2tte_create_invalid_ns)"
  shows "\<exists>s3. destroy_act rtt_addr map_addr level rd wi (t ! unat (index wi)) s2
            = Some (RMI_SUCCESS, s3)
    \<and> child_reclaimed s (g_llt wi) (unat (index wi)) t c e' s3
    \<and> glock s3 = glock s2 \<and> slots s3 = slots s2
    \<and> trace s3 = trace s2 @ [EvLock c GRANULE_STATE_RTT,
        EvTteWrite (g_llt wi) (unat (index wi)) 0,
        EvTlbiIpa (s2_vmid (rd_s2_ctx rd)) (drop_bit 12 map_addr),
        EvTlbiVmall (s2_vmid (rd_s2_ctx rd)),
        EvTteWrite (g_llt wi) (unat (index wi)) e', EvScrub c, EvUnlock c]"
proof -
  note f = entry_facts [OF inv w l t]
  have "entry_is_table (t ! unat (index wi))"
    using e by (simp add: entry_is_table_iff s2tte_table_iff)
  moreover have "lv (g_llt wi) < 3" using f(3) e by (simp add: s2tte_table_iff)
  ultimately obtain c' where c': "find_granule rtt_addr = Some c'" "gst s c' = GRANULE_STATE_RTT"
    "lv c' = lv (g_llt wi) + 1"
    using entry_table_child [OF inv f(1,2) _ t f(4)] pa by metis
  then have cc: "gst s c = GRANULE_STATE_RTT" "c \<noteq> g_llt wi" using c f(3) by auto
  have b: "c < RMM_MAX_GRANULES" using c by (rule find_granule_bound)
  have wk: "granules s2 = granules s" "content s2 = content s" "vmids s2 = vmids s"
    "glock s2 = (\<lambda>x. x = g_llt wi)" "slots s2 = (\<lambda>k. None)(SLOT_RTT := Some (g_llt wi))"
    using ws by (simp_all add: working_def)
  have fl: "find_lock_granule rtt_addr GRANULE_STATE_RTT s2
    = Some (Some c, lock_g c GRANULE_STATE_RTT s2)"
    using c cc wk inv_with_unlocked [OF inv b]
    by (subst find_lock_granule_eq) (auto simp: unlocked_ok_def)
  have ref: "s2tte_refs (t ! unat (index wi))" using e by simp
  have pos: "0 < grc s (g_llt wi)" using ref_count_pos [OF f(8,4) ref] f(7) by simp
  have pos0: "grc s (g_llt wi) \<noteq> 0" using pos by simp
  have pat: "s2tte_pa_table (t ! unat (index wi)) (level - 1) = Some rtt_addr"
    using e pa by (simp add: s2tte_pa_table_def s2tte_values)
  have nr: "\<not> s2tte_refs e'" using e' by (simp add: leaf_entry_refs)
  show ?thesis
    unfolding destroy_act_def e' [symmetric]
    using e rc f(1,4,8) cc t
    by (simp add: pat fl granule_map_eq b wk granule_put_eq pos pos0 s2tte_write_eq
        granule_unlock_eq unlocked_ok_def child_reclaimed_def ref nr fun_eq_iff)
qed

lemma child_reclaimed_inv:
  assumes inv: "inv_with lv par s" and g: "g < RMM_MAX_GRANULES"
    and st: "gst s g = GRANULE_STATE_RTT" and t: "table_of (content s g) = Some t" and i: "i < 512"
    and c: "gst s c \<in> {GRANULE_STATE_RTT, GRANULE_STATE_DATA}" "c \<noteq> g"
      "par c = TteOwner g i"
    and rm: "child_reclaimed s g i t c e s'" and e: "leaf_entry e"
  shows "inv_with lv par s'"
  using inv g st t i c(2)
proof (rule inv_entry_step)
  show "granules s' = (granules s)(g := (granules s g)
      \<lparr>g_refcount := grc s g - ref_word (t ! i) + ref_word e\<rparr>,
      c := \<lparr>g_state = GRANULE_STATE_DELEGATED, g_refcount = 0\<rparr>)"
    and "content s' = (content s)(g := CTable (t[i := e]), c := CZero)"
    using rm by (simp_all add: child_reclaimed_def)
  then show "granule_ok lv par s' c" by (simp add: granule_ok_def unlocked_ok_def)
qed (use rm c e in \<open>auto simp: child_reclaimed_def\<close>)

text \<open>The table entry found by the walk and its child.\<close>

lemma act_child:
  assumes inv: "inv_with lv par s" and w: "walk_result lv s ctx addr level wi"
    and l: "last_level wi = level" and t: "table_of (content s (g_llt wi)) = Some t"
    and e: "s2tte_is_table (t ! unat (index wi)) level"
  obtains c where "find_granule (addr_level_mask (t ! unat (index wi)) 3) = Some c"
    "gst s c = GRANULE_STATE_RTT" "lv c = level + 1" "c \<noteq> g_llt wi" "c < RMM_MAX_GRANULES"
    "par c = TteOwner (g_llt wi) (unat (index wi))"
proof -
  note f = entry_facts [OF inv w l t]
  have "entry_is_table (t ! unat (index wi))" "lv (g_llt wi) < 3"
    using e f(3) by (simp_all add: entry_is_table_iff s2tte_table_iff)
  from entry_table_child [OF inv f(1,2) this(2) t f(4) this(1)] f(3) show ?thesis
    using that by (metis add.commute less_irrefl zless_add1_eq)
qed

lemma s2tte_pa_table_eq:
  "s2tte_is_table e l \<Longrightarrow> s2tte_pa_table e l = Some (addr_level_mask e 3)"
  by (simp add: s2tte_pa_table_def s2tte_values)

lemma lock_child:
  assumes "inv_with lv par s" and "find_granule a = Some c" and "gst s c = st"
    and "granules s2 = granules s" and "\<not> glock s2 c"
  shows "find_lock_granule a st s2 = Some (Some c, lock_g c st s2)"
proof -
  have "unlocked_ok s2 c"
    using inv_with_unlocked_state [OF assms(1,4)] find_granule_bound [OF assms(2)] by simp
  then show ?thesis
    using assms by (subst find_lock_granule_eq) auto
qed

lemma destroy_act_safe:
  assumes inv: "inv_with lv par s" and w: "walk_result lv s ctx addr (level - 1) wi"
    and l: "last_level wi = level - 1" and t: "table_of (content s (g_llt wi)) = Some t"
    and ws: "working s (\<lambda>x. x = g_llt wi) ((\<lambda>k. None)(SLOT_RTT := Some (g_llt wi))) s2"
  shows "case destroy_act rtt_addr map_addr level rd wi (t ! unat (index wi)) s2 of
      None \<Rightarrow> False
    | Some (ret, s3) \<Rightarrow> inv s3 \<and> glock s3 = (\<lambda>x. x = g_llt wi)
        \<and> slots s3 = (\<lambda>k. None)(SLOT_RTT := Some (g_llt wi))"
proof -
  note f = entry_facts [OF inv w l t]
  have i2: "inv s2" using inv working_inv [OF ws] by (auto simp: inv_def)
  have wk: "granules s2 = granules s" "glock s2 = (\<lambda>x. x = g_llt wi)"
    "slots s2 = (\<lambda>k. None)(SLOT_RTT := Some (g_llt wi))"
    using ws by (simp_all add: working_def)
  let ?e = "t ! unat (index wi)"
  show ?thesis
  proof (cases "s2tte_is_table ?e (level - 1)")
    case False
    obtain ret where "rtt_error (level - 1) = Some ret" using rtt_error_Some [OF f(5,6)] by blast
    with False i2 wk show ?thesis by (simp add: destroy_act_def)
  next
    case True
    note pa = s2tte_pa_table_eq [OF True]
    from act_child [OF inv w l t True] obtain c where
      c: "find_granule (addr_level_mask ?e 3) = Some c" "gst s c = GRANULE_STATE_RTT"
        "c \<noteq> g_llt wi" "par c = TteOwner (g_llt wi) (unat (index wi))" "c < RMM_MAX_GRANULES"
      by blast
    consider "rtt_addr \<noteq> addr_level_mask ?e 3"
      | "rtt_addr = addr_level_mask ?e 3" "grc s c \<noteq> 0"
      | "rtt_addr = addr_level_mask ?e 3" "grc s c = 0" by blast
    then show ?thesis
    proof cases
      case 1
      then show ?thesis using True pa i2 wk by (simp add: destroy_act_def)
    next
      case 2
      have "find_lock_granule rtt_addr GRANULE_STATE_RTT s2
          = Some (Some c, lock_g c GRANULE_STATE_RTT s2)"
        using c(1,2,3) 2(1) wk by (intro lock_child [OF inv]) auto
      then have "destroy_act rtt_addr map_addr level rd wi ?e s2
          = Some (RMI_ERROR_IN_USE, spinlock_release c (lock_g c GRANULE_STATE_RTT s2))"
        using True 2 pa wk c(2) by (simp add: destroy_act_def granule_unlock_def)
      moreover have "inv (spinlock_release c (lock_g c GRANULE_STATE_RTT s2))"
        using i2 by (rule inv_same) simp_all
      ultimately show ?thesis using wk c(3) by (auto simp: fun_eq_iff)
    next
      case 3
      have cf: "find_granule rtt_addr = Some c" using c(1) 3(1) by simp
      from destroy_act_success [where rd = rd and map_addr = map_addr,
          OF inv w l t ws True 3(1) cf 3(2) refl]
      obtain s3 where d: "destroy_act rtt_addr map_addr level rd wi ?e s2 = Some (RMI_SUCCESS, s3)"
        "child_reclaimed s (g_llt wi) (unat (index wi)) t c
           (if addr_in_par rd map_addr then s2tte_create_destroyed
            else s2tte_create_invalid_ns) s3" "glock s3 = glock s2" "slots s3 = slots s2" by blast
      have "inv_with lv par s3"
        using c by (intro child_reclaimed_inv [OF inv f(1,2) t f(4) _ c(3,4) d(2)]) simp_all
      then show ?thesis using d wk by (auto simp: inv_def)
    qed
  qed
qed

lemma smc_rtt_destroy_safe:
  assumes "inv s" and q: "quiet s"
  shows "case smc_rtt_destroy rtt_addr rd_addr map_addr ulevel s of
      None \<Rightarrow> False | Some (ret, s') \<Rightarrow> inv s' \<and> quiet s'"
proof -
  from assms obtain lv par where inv: "inv_with lv par s" by (auto simp: inv_def)
  show ?thesis
    unfolding smc_rtt_destroy_shape
    by (rule entry_command_safe [OF inv q structure_check_sound])
       (rule destroy_act_safe [OF inv])
qed

text \<open>
  The commands that keep the realm descriptor locked while they walk, and the steps that
  rewrite a realm descriptor or a REC in place.
\<close>

section \<open>The walk with other granules locked\<close>

lemma rd_root_lock:
  assumes inv: "inv_with lv par s" and g: "g_rd < RMM_MAX_GRANULES"
    and st: "gst s g_rd = GRANULE_STATE_RD" and rd: "content s g_rd = CRd rd"
    and L: "\<And>x. glock s x \<Longrightarrow> gst s x \<noteq> GRANULE_STATE_RTT"
  shows "granule_lock (s2_g_rtt (rd_s2_ctx rd)) GRANULE_STATE_RTT s
      = Some (lock_g (s2_g_rtt (rd_s2_ctx rd)) GRANULE_STATE_RTT s)"
    "gst s (s2_g_rtt (rd_s2_ctx rd)) = GRANULE_STATE_RTT"
proof -
  have "roots_ok lv s (rd_s2_ctx rd)"
    using rd_ok_roots [OF inv_with_rd [OF inv g st]] rd by simp
  then have root: "s2_g_rtt (rd_s2_ctx rd) < RMM_MAX_GRANULES"
    "gst s (s2_g_rtt (rd_s2_ctx rd)) = GRANULE_STATE_RTT"
    using roots_ok_root by (simp_all add: at_table_def)
  then have "\<not> glock s (s2_g_rtt (rd_s2_ctx rd))" using L by blast
  from granule_lock_relocked(1) [OF inv root this]
  show "granule_lock (s2_g_rtt (rd_s2_ctx rd)) GRANULE_STATE_RTT s
      = Some (lock_g (s2_g_rtt (rd_s2_ctx rd)) GRANULE_STATE_RTT s)" .
  show "gst s (s2_g_rtt (rd_s2_ctx rd)) = GRANULE_STATE_RTT" by (rule root)
qed

lemma rd_root_walk:
  assumes inv: "inv_with lv par s" and g: "g_rd < RMM_MAX_GRANULES"
    and st: "gst s g_rd = GRANULE_STATE_RD" and rd: "content s g_rd = CRd rd"
    and s0: "granules s0 = granules s" "content s0 = content s" "slots s0 SLOT_RTT = None"
    and lk: "glock s0 = L(s2_g_rtt (rd_s2_ctx rd) := True)"
    and L: "\<And>x. L x \<Longrightarrow> gst s x \<noteq> GRANULE_STATE_RTT"
    and a: "addr < realm_ipa_size rd" and l: "realm_rtt_starting_level rd \<le> level" "level \<le> 3"
  obtains wi s1 where
    "rtt_walk_lock_unlock (s2_g_rtt (rd_s2_ctx rd)) (realm_rtt_starting_level rd)
       (realm_ipa_bits rd) addr level s0 = Some (wi, s1)"
    "walk_result lv s (rd_s2_ctx rd) addr level wi" "relocked s0 (L(g_llt wi := True)) s1"
proof -
  let ?root = "s2_g_rtt (rd_s2_ctx rd)"
  have ro: "roots_ok lv s (rd_s2_ctx rd)"
    using rd_ok_roots [OF inv_with_rd [OF inv g st]] rd by simp
  have i0: "inv_with lv par s0" using inv s0(1,2) by (rule inv_with_same)
  have r0: "roots_ok lv s0 (rd_s2_ctx rd)" using ro s0(1,2) by (simp add: roots_ok_def at_table_def)
  have c: "addr < push_bit (s2_ipa_bits (rd_s2_ctx rd)) 1"
    "s2_starting_level (rd_s2_ctx rd) \<le> level"
    using a l by (simp_all add: ipa_size_push realm_rtt_starting_level_def)
  have L0: "\<And>x. L x \<Longrightarrow> gst s0 x \<noteq> GRANULE_STATE_RTT" using s0(1) L by simp
  from rtt_walk_spec [OF i0 r0 c l(2) s0(3) lk L0] obtain wi s1 where
    w: "rtt_walk_lock_unlock ?root (s2_starting_level (rd_s2_ctx rd))
          (s2_ipa_bits (rd_s2_ctx rd)) addr level s0 = Some (wi, s1)"
      "walk_result lv s0 (rd_s2_ctx rd) addr level wi"
      "relocked s0 (L(g_llt wi := True)) s1" by blast
  show ?thesis
    using that [of wi s1] w s0
    by (simp add: realm_rtt_starting_level_def realm_ipa_bits_def walk_result_def at_table_def)
qed

lemma locked_walk_spec:
  assumes inv: "inv_with lv par s" and g: "g_rd < RMM_MAX_GRANULES"
    and st: "gst s g_rd = GRANULE_STATE_RD" and rd: "content s g_rd = CRd rd"
    and L: "\<And>x. glock s x \<Longrightarrow> gst s x \<noteq> GRANULE_STATE_RTT" and sl: "slots s SLOT_RTT = None"
    and a: "addr < realm_ipa_size rd" and l: "realm_rtt_starting_level rd \<le> level" "level \<le> 3"
  obtains s0 wi s1 where
    "granule_lock (s2_g_rtt (rd_s2_ctx rd)) GRANULE_STATE_RTT s = Some s0"
    "rtt_walk_lock_unlock (s2_g_rtt (rd_s2_ctx rd)) (realm_rtt_starting_level rd)
       (realm_ipa_bits rd) addr level s0 = Some (wi, s1)"
    "walk_result lv s (rd_s2_ctx rd) addr level wi"
    "relocked s ((glock s)(g_llt wi := True)) s1"
proof -
  let ?s0 = "lock_g (s2_g_rtt (rd_s2_ctx rd)) GRANULE_STATE_RTT s"
  note lock = rd_root_lock(1) [OF inv g st rd L]
  have s0: "granules ?s0 = granules s" "content ?s0 = content s" "slots ?s0 SLOT_RTT = None"
    "glock ?s0 = (glock s)(s2_g_rtt (rd_s2_ctx rd) := True)" using sl by simp_all
  from rd_root_walk [OF inv g st rd s0 L a l] obtain wi s1 where
    "rtt_walk_lock_unlock (s2_g_rtt (rd_s2_ctx rd)) (realm_rtt_starting_level rd)
       (realm_ipa_bits rd) addr level ?s0 = Some (wi, s1)"
    "walk_result lv s (rd_s2_ctx rd) addr level wi" "relocked ?s0 ((glock s)(g_llt wi := True)) s1"
    by blast
  then show ?thesis using that [OF lock, of wi s1] by (simp add: relocked_def)
qed

text \<open>Mapping the table the walk ended at and reading the entry.\<close>

lemma walk_read:
  assumes inv: "inv_with lv par s" and w: "walk_result lv s c addr level wi"
    and s1: "granules s1 = granules s" "content s1 = content s" and sl: "slots s1 SLOT_RTT = None"
  obtains t where "table_of (content s (g_llt wi)) = Some t" "length t = 512"
    "granule_map (g_llt wi) SLOT_RTT s1 = Some (map_slot SLOT_RTT (g_llt wi) s1)"
    "s2tte_read (g_llt wi) (index wi) (map_slot SLOT_RTT (g_llt wi) s1)
       = Some (t ! unat (index wi))"
proof -
  have at: "g_llt wi < RMM_MAX_GRANULES" "gst s (g_llt wi) = GRANULE_STATE_RTT"
    using w by (simp_all add: walk_result_def at_table_def)
  from inv at obtain t where t: "table_of (content s (g_llt wi)) = Some t" "length t = 512"
    by (elim inv_with_rtt) auto
  have "granule_map (g_llt wi) SLOT_RTT s1 = Some (map_slot SLOT_RTT (g_llt wi) s1)"
    using at sl by (simp add: granule_map_eq)
  moreover have "s2tte_read (g_llt wi) (index wi) (map_slot SLOT_RTT (g_llt wi) s1)
       = Some (t ! unat (index wi))"
    using w t s1 s2_addr_to_idx_bound by (simp add: walk_result_def s2tte_read_def)
  ultimately show ?thesis using that t by blast
qed

lemma walk_unlock:
  assumes inv: "inv_with lv par s" and w: "walk_result lv s c addr level wi"
    and s1: "granules s1 = granules s"
  shows "granule_unlock (g_llt wi) s1 = Some (spinlock_release (g_llt wi) s1)"
  using w inv_with_unlocked_state [OF inv s1]
  by (simp add: granule_unlock_eq walk_result_def at_table_def)

lemma walk_error:
  assumes inv: "inv_with lv par s" and w: "walk_result lv s c addr level wi"
  obtains ret where "rtt_error (last_level wi) = Some ret" "ret \<noteq> RMI_SUCCESS"
proof -
  have "0 \<le> last_level wi" "last_level wi \<le> 3"
    using w inv by (auto simp: walk_result_def at_table_def elim: inv_with_rtt)
  from rtt_error_Some [OF this] obtain ret where "rtt_error (last_level wi) = Some ret"
    "ret \<noteq> 0" by blast
  then show ?thesis using that by (simp add: RMI_SUCCESS_def)
qed

section \<open>Rewriting a realm descriptor or a REC\<close>

lemma inv_rd_update:
  assumes inv: "inv_with lv par s" and st: "gst s g = GRANULE_STATE_RD"
    and rd: "content s g = CRd rd" and c: "rd_s2_ctx rd' = rd_s2_ctx rd"
    and m: "length (rd_measurement rd') = length (rd_measurement rd)"
    and gr: "granules s' = granules s" and co: "content s' = (content s)(g := CRd rd')"
  shows "inv_with lv par s'"
proof (rule inv_with_step [OF inv, where T = "{g}"])
  show "links_ok s'"
  proof (rule links_ok_frame)
    show "links_ok s" using inv by (simp add: inv_with_def)
    show "same_links s s' x" for x
      using st rd c by (cases "x = g") (simp_all add: same_links_def gr co)
  qed
  show "kept lv par s lv par s' d" for d by (simp add: kept_def gr)
  fix x assume "x \<in> {g}" and b: "x < RMM_MAX_GRANULES"
  then have x: "x = g" by simp
  have "rd_ok lv par s g" using inv_with_rd [OF inv] b st x by simp
  then have "rd_ok lv par s' g" using rd c m by (simp add: rd_ok_def gr co)
  then show "granule_ok lv par s' x"
    using inv_with_unlocked [OF inv b] st by (simp add: x granule_ok_def unlocked_ok_def gr)
qed (auto simp: gr co)

lemma inv_rec_update:
  assumes inv: "inv_with lv par s" and st: "gst s g = GRANULE_STATE_REC"
    and r: "content s g = CRec rec"
    and same: "rec_g_rec rec' = rec_g_rec rec" "length (rec_regs rec') = length (rec_regs rec)"
      "rec_num_rec_aux rec' = rec_num_rec_aux rec" "rec_g_aux rec' = rec_g_aux rec"
      "rec_realm_info rec' = rec_realm_info rec"
    and gr: "granules s' = granules s" and co: "content s' = (content s)(g := CRec rec')"
  shows "inv_with lv par s'"
proof (rule inv_with_step [OF inv, where T = "{g}"])
  show "links_ok s'"
  proof (rule links_ok_frame)
    show "links_ok s" using inv by (simp add: inv_with_def)
    show "same_links s s' x" for x
      using st r same by (cases "x = g") (simp_all add: same_links_def gr co)
  qed
  show "kept lv par s lv par s' d" for d by (simp add: kept_def gr)
  fix x assume "x \<in> {g}" and b: "x < RMM_MAX_GRANULES"
  then have x: "x = g" by simp
  have "granule_ok lv par s g" using inv_with_granule [OF inv] b x by simp
  then have "unlocked_ok s g" "rec_ok par s g" using st by (simp_all add: granule_ok_def)
  then show "granule_ok lv par s' x"
    using r same st by (auto simp: x granule_ok_def unlocked_ok_def rec_ok_def gr co)
qed (auto simp: gr co)

end
