(* ===== verification/Rtt_Map_Correct.thy ===== *)
theory Rtt_Map_Correct
  imports Rtt_Correct
begin

text \<open>
  The commands that write one leaf entry: mapping and unmapping of the host's memory.
\<close>

section \<open>Shape\<close>

definition map_check :: "u64 \<Rightarrow> int \<Rightarrow> map_unmap_ns_op \<Rightarrow> rd \<Rightarrow> u64 option" where
  "map_check map_addr level op rd =
     (if \<not> validate_rtt_map_cmds map_addr level rd then Some RMI_ERROR_INPUT
      else if op = MAP_NS \<and> addr_in_par rd map_addr then Some RMI_ERROR_INPUT else None)"

definition map_act ::
  "u64 \<Rightarrow> int \<Rightarrow> u64 \<Rightarrow> map_unmap_ns_op \<Rightarrow> rd \<Rightarrow> rtt_walk \<Rightarrow> u64 \<Rightarrow> rmm \<Rightarrow> (u64 \<times> rmm) option" where
  "map_act map_addr level host_s2tte op rd wi s2tte s =
     (case op of
        MAP_NS \<Rightarrow>
          if \<not> s2tte_is_unassigned s2tte then do {
            ret \<leftarrow> rtt_error level;
            Some (ret, s)
          } else do {
            s2tte \<leftarrow> s2tte_create_valid_ns host_s2tte level;
            s \<leftarrow> s2tte_write (g_llt wi) (index wi) s2tte s;
            Some (RMI_SUCCESS, granule_get (g_llt wi) s)
          }
      | UNMAP_NS \<Rightarrow>
          if \<not> s2tte_is_valid_ns s2tte level then do {
            ret \<leftarrow> rtt_error level;
            Some (ret, s)
          } else do {
            s \<leftarrow> s2tte_write (g_llt wi) (index wi) s2tte_create_invalid_ns s;
            s \<leftarrow> granule_put (g_llt wi) s;
            let s = (if level = RTT_PAGE_LEVEL
                     then invalidate_page (rd_s2_ctx rd) map_addr s
                     else invalidate_block (rd_s2_ctx rd) map_addr s);
            Some (RMI_SUCCESS, s)
          })"

lemma map_unmap_ns_shape:
  "map_unmap_ns rd_addr map_addr level host_s2tte op s =
     entry_command rd_addr (map_check map_addr level op) map_addr level
       (map_act map_addr level host_s2tte op) s"
  unfolding map_unmap_ns_def entry_command_def rtt_command_def rd_walk_def entry_body_def
    map_act_def map_check_def Let_def
  by (intro Option.bind_cong refl)
     (auto simp del: Option.bind_eq_None_conv intro!: Option.bind_cong
       split: option.split prod.split map_unmap_ns_op.split)

lemma s2_ctx_ok_start: "s2_ctx_ok c \<Longrightarrow> s2_starting_level c \<le> 2"
proof (rule ccontr)
  assume ok: "s2_ctx_ok c" and "\<not> s2_starting_level c \<le> 2"
  then have l: "s2_starting_level c = 3" by (simp add: s2_ctx_ok_def)
  with ok have "s2_root_rtts c = 2 ^ (s2_ipa_bits c - 21)" "32 \<le> s2_ipa_bits c"
    "s2_root_rtts c \<le> 16" by (auto simp: s2_ctx_ok_def)
  moreover from this(2) have "(2::nat) ^ 11 \<le> 2 ^ (s2_ipa_bits c - 21)"
    by (intro power_increasing) auto
  ultimately show False by simp
qed

lemma map_check_sound: "check_sound (map_check map_addr level op) map_addr level"
  by (auto simp: check_sound_def map_check_def validate_rtt_map_cmds_def validate_map_addr_def
      s2tte_values realm_rtt_starting_level_def dest!: s2_ctx_ok_start split: if_splits)

lemma map_check_level:
  "map_check map_addr level op rd = None \<Longrightarrow> level = 2 \<or> level = 3"
  by (auto simp: map_check_def validate_rtt_map_cmds_def s2tte_values split: if_splits)

section \<open>The entry is rewritten\<close>

text \<open>What is left of the state after a leaf entry was rewritten in place.\<close>

definition entry_written ::
  "rmm \<Rightarrow> nat \<Rightarrow> nat \<Rightarrow> u64 list \<Rightarrow> u64 \<Rightarrow> rmm \<Rightarrow> bool" where
  "entry_written s g i t e s' \<longleftrightarrow>
     granules s' = (granules s)(g := (granules s g)
                      \<lparr>g_refcount := grc s g - ref_word (t ! i) + ref_word e\<rparr>)
   \<and> content s' = (content s)(g := CTable (t[i := e]))
   \<and> vmids s' = vmids s"

lemma created_valid_ns_block:
  assumes "host_ns_s2tte_is_valid h 2" and "s2tte_create_valid_ns h 2 = Some e"
  shows "e AND 3 = 1" and "e AND S2TTE_NS \<noteq> 0"
proof -
  from assms(2) have e: "e = h OR 0xC0000000000401"
    by (auto simp: s2tte_create_valid_ns_def bind_assert_c s2tte_values split: if_splits)
  from assms(1) have "h = h AND host_ns_mask 2"
    by (auto simp: host_ns_s2tte_is_valid_def Let_def and_not_0 split: if_splits)
  from and_disjoint_mask [OF this] have "h AND 3 = 0" "h AND 0x80000000000000 = 0"
    by (auto simp: host_mask_values)
  then show "e AND 3 = 1" and "e AND S2TTE_NS \<noteq> 0"
    by (simp_all add: e bit.conj_disj_distrib2 s2tte_values)
qed

lemma created_valid_ns_entry:
  assumes "host_ns_s2tte_is_valid h l" and "s2tte_create_valid_ns h l = Some e"
    and "l = 2 \<or> l = 3" and "lv g = l"
  shows "s2tte_refs e" "entry_ok lv par s g i e"
  using created_valid_ns [OF assms(1,2)] created_valid_ns_block [of h e] assms
  by (auto simp: entry_ok_def)

lemma create_valid_ns_total:
  assumes "l = 2 \<or> l = 3" obtains e where "s2tte_create_valid_ns h l = Some e"
  using assms by (auto simp: s2tte_create_valid_ns_def bind_assert_c s2tte_values)

lemma map_act_map:
  assumes inv: "inv_with lv par s" and w: "walk_result lv s ctx addr level wi"
    and l: "last_level wi = level" and t: "table_of (content s (g_llt wi)) = Some t"
    and ws: "working s L K s2" and ll: "level = 2 \<or> level = 3"
    and e: "s2tte_is_unassigned (t ! unat (index wi))"
    and e': "s2tte_create_valid_ns h level = Some e'" and ref: "s2tte_refs e'"
  shows "\<exists>s3. map_act map_addr level h MAP_NS rd wi (t ! unat (index wi)) s2 = Some (RMI_SUCCESS, s3)
    \<and> entry_written s (g_llt wi) (unat (index wi)) t e' s3
    \<and> glock s3 = glock s2 \<and> slots s3 = slots s2
    \<and> trace s3 = trace s2 @ [EvTteWrite (g_llt wi) (unat (index wi)) e']"
proof -
  note f = entry_facts [OF inv w l t]
  have wk: "granules s2 = granules s" "content s2 = content s" "vmids s2 = vmids s"
    using ws by (simp_all add: working_def)
  show ?thesis
    using e e' ref f(4,8) t
    by (simp add: map_act_def wk s2tte_write_eq granule_get_def entry_written_def)
qed

lemma map_act_unmap:
  assumes inv: "inv_with lv par s" and w: "walk_result lv s ctx addr level wi"
    and l: "last_level wi = level" and t: "table_of (content s (g_llt wi)) = Some t"
    and ws: "working s L K s2"
    and e: "s2tte_is_valid_ns (t ! unat (index wi)) level"
  shows "\<exists>s3. map_act map_addr level h UNMAP_NS rd wi (t ! unat (index wi)) s2 = Some (RMI_SUCCESS, s3)
    \<and> entry_written s (g_llt wi) (unat (index wi)) t s2tte_create_invalid_ns s3
    \<and> glock s3 = glock s2 \<and> slots s3 = slots s2
    \<and> trace s3 = trace s2 @ [EvTteWrite (g_llt wi) (unat (index wi)) s2tte_create_invalid_ns,
        EvTlbiIpa (s2_vmid (rd_s2_ctx rd)) (drop_bit 12 map_addr),
        EvTlbiVmall (s2_vmid (rd_s2_ctx rd))]"
proof -
  note f = entry_facts [OF inv w l t]
  have wk: "granules s2 = granules s" "content s2 = content s" "vmids s2 = vmids s"
    using ws by (simp_all add: working_def)
  have ref: "s2tte_refs (t ! unat (index wi))" using e by simp
  have nr: "\<not> s2tte_refs s2tte_create_invalid_ns" by (simp add: leaf_entry_refs)
  have pos: "0 < grc s (g_llt wi)" using ref_count_pos [OF f(8,4) ref] f(7) by simp
  then have pos0: "grc s (g_llt wi) \<noteq> 0" by simp
  have l3: "level = 3" using e by (simp add: s2tte_iffs)
  show ?thesis
    using e ref nr pos pos0 f(4,8) t
    by (simp add: map_act_def wk s2tte_write_eq granule_put_eq entry_written_def l3 word_consts)
qed

lemma entry_written_inv:
  assumes inv: "inv_with lv par s" and w: "walk_result lv s ctx addr level wi"
    and l: "last_level wi = level" and t: "table_of (content s (g_llt wi)) = Some t"
    and ew: "entry_written s (g_llt wi) (unat (index wi)) t e s3"
    and e: "entry_ok lv par s3 (g_llt wi) (unat (index wi)) e"
  shows "inv_with lv par s3"
proof -
  note f = entry_facts [OF inv w l t]
  show ?thesis
    using ew by (intro inv_write_entry [OF inv f(1,2) t f(4) _ _ e]) (simp_all add: entry_written_def)
qed

lemma map_act_safe:
  assumes inv: "inv_with lv par s" and w: "walk_result lv s ctx addr level wi"
    and l: "last_level wi = level" and t: "table_of (content s (g_llt wi)) = Some t"
    and ws: "working s L K s2" and ll: "level = 2 \<or> level = 3"
    and h: "op = MAP_NS \<longrightarrow> host_ns_s2tte_is_valid h level"
  shows "case map_act map_addr level h op rd wi (t ! unat (index wi)) s2 of
      None \<Rightarrow> False | Some (ret, s3) \<Rightarrow> inv s3 \<and> glock s3 = L \<and> slots s3 = K"
proof -
  note f = entry_facts [OF inv w l t]
  have i2: "inv s2" using inv working_inv [OF ws] by (auto simp: inv_def)
  have wk: "glock s2 = L" "slots s2 = K" using ws by (simp_all add: working_def)
  obtain ret where ret: "rtt_error level = Some ret" using rtt_error_Some [OF f(5,6)] by blast
  show ?thesis
  proof (cases op)
    case MAP_NS
    from create_valid_ns_total [OF ll] obtain e' where e': "s2tte_create_valid_ns h level = Some e'"
      by blast
    have c: "s2tte_refs e'" "\<And>s3. entry_ok lv par s3 (g_llt wi) (unat (index wi)) e'"
      using created_valid_ns_entry [of h level e'] e' ll f(3) h MAP_NS by blast+
    show ?thesis
    proof (cases "s2tte_is_unassigned (t ! unat (index wi))")
      case True
      from map_act_map [OF inv w l t ws ll True e', where map_addr = map_addr and rd = rd]
      obtain s3 where d:
        "map_act map_addr level h MAP_NS rd wi (t ! unat (index wi)) s2 = Some (RMI_SUCCESS, s3)"
        "entry_written s (g_llt wi) (unat (index wi)) t e' s3"
        "glock s3 = glock s2" "slots s3 = slots s2"
        using c by blast
      with entry_written_inv [OF inv w l t d(2)] c MAP_NS wk show ?thesis
        by (auto simp: inv_def)
    qed (use ret i2 wk MAP_NS in \<open>simp add: map_act_def\<close>)
  next
    case UNMAP_NS
    show ?thesis
    proof (cases "s2tte_is_valid_ns (t ! unat (index wi)) level")
      case True
      from map_act_unmap [OF inv w l t ws True, where map_addr = map_addr and rd = rd and h = h]
      obtain s3 where d:
        "map_act map_addr level h UNMAP_NS rd wi (t ! unat (index wi)) s2 = Some (RMI_SUCCESS, s3)"
        "entry_written s (g_llt wi) (unat (index wi)) t s2tte_create_invalid_ns s3"
        "glock s3 = glock s2" "slots s3 = slots s2" by blast
      with entry_written_inv [OF inv w l t d(2)] UNMAP_NS wk show ?thesis
        by (auto simp: inv_def)
    qed (use ret i2 wk UNMAP_NS in \<open>simp add: map_act_def\<close>)
  qed
qed

section \<open>The commands\<close>

lemma map_unmap_ns_safe:
  assumes inv: "inv s" and q: "quiet s" and h: "op = MAP_NS \<longrightarrow> host_ns_s2tte_is_valid h level"
  shows "case map_unmap_ns rd_addr map_addr level h op s of
      None \<Rightarrow> False | Some (ret, s') \<Rightarrow> inv s' \<and> quiet s'"
proof -
  from inv obtain lv par where i: "inv_with lv par s" by (auto simp: inv_def)
  show ?thesis
    unfolding map_unmap_ns_shape
    by (rule entry_command_safe [OF i q map_check_sound])
       (rule map_act_safe [OF i]; use map_check_level h in blast)
qed

lemma smc_rtt_map_unprotected_safe:
  "inv s \<Longrightarrow> quiet s \<Longrightarrow> case smc_rtt_map_unprotected rd_addr map_addr ulevel e s of
      None \<Rightarrow> False | Some (ret, s') \<Rightarrow> inv s' \<and> quiet s'"
  using map_unmap_ns_safe by (simp add: smc_rtt_map_unprotected_def Let_def)

lemma smc_rtt_unmap_unprotected_safe:
  "inv s \<Longrightarrow> quiet s \<Longrightarrow> case smc_rtt_unmap_unprotected rd_addr map_addr ulevel s of
      None \<Rightarrow> False | Some (ret, s') \<Rightarrow> inv s' \<and> quiet s'"
  using map_unmap_ns_safe by (simp add: smc_rtt_unmap_unprotected_def)

end
