(* ===== verification/Rtt_Fold_Correct.thy ===== *)
theory Rtt_Fold_Correct
  imports Rtt_Correct
begin

text \<open>
  RTT.Fold: a table all of whose entries are alike is replaced by one entry of its parent.
\<close>

section \<open>What the table is folded into\<close>

text \<open>
  The block a table of assigned pages is folded into: the pages are contiguous from
  \<open>base\<close> on.
\<close>

definition assigned_run :: "u64 list \<Rightarrow> u64 \<Rightarrow> bool" where
  "assigned_run t base \<longleftrightarrow> addr_is_level_aligned base 2
     \<and> (\<forall>k<512. s2tte_is_assigned (t ! k) 3 \<and> addr_level_mask (t ! k) 3 = base + of_nat k * 4096)"

definition uniform_leaf :: "u64 list \<Rightarrow> u64 \<Rightarrow> bool" where
  "uniform_leaf t e \<longleftrightarrow>
     e = s2tte_create_destroyed \<and> list_all s2tte_is_destroyed t
   \<or> (\<exists>r. e = s2tte_create_unassigned r
        \<and> list_all (\<lambda>x. s2tte_is_unassigned x \<and> s2tte_get_ripas x = Some r) t)"

lemma s2tte_pa_assigned: "s2tte_is_assigned e l \<Longrightarrow> s2tte_pa e l = Some (addr_level_mask e l)"
  by (simp add: s2tte_pa_def s2tte_iffs)

lemma table_maps_assigned_iff:
  assumes "length t = 512"
  shows "table_maps_assigned_block t 3 = Some True \<longleftrightarrow> (\<exists>base. assigned_run t base)"
proof -
  have "s2tte_map_size 3 = Some 4096" by (simp add: s2tte_map_size_def s2tte_values)
  moreover have "t \<noteq> []" using assms by auto
  ultimately have "table_maps_assigned_block t 3 = Some True \<longleftrightarrow>
    (\<exists>base. addr_is_level_aligned base (3 - 1) \<and>
       (\<forall>k<length t. s2tte_is_assigned (t ! k) 3
          \<and> s2tte_pa (t ! k) 3 = Some (base + of_nat k * 4096)))"
    unfolding table_maps_assigned_block_def by (intro table_maps_block_iff)
  also have "\<dots> \<longleftrightarrow> (\<exists>base. assigned_run t base)"
    unfolding assigned_run_def assms
    by (simp add: s2tte_pa_assigned diff_numeral_special cong: conj_cong)
  finally show ?thesis .
qed

lemma assigned_run_first:
  assumes "assigned_run t base"
  shows "addr_level_mask (t ! 0) 2 = base"
proof -
  have "addr_level_mask (t ! 0) 3 = base" and al: "base = addr_level_mask base 2"
    using assms by (auto simp: assigned_run_def addr_is_level_aligned_def)
  then have "base = (t ! 0) AND 0xFFFFFFFFF000" by simp
  then have "addr_level_mask base 2 = (t ! 0) AND 0xFFFFFFE00000"
    by (simp add: and.assoc)
  with al show ?thesis by simp
qed

lemma table_maps_block_first:
  "t \<noteq> [] \<Longrightarrow> l \<le> 3 \<Longrightarrow> \<not> is_x (hd t) l \<Longrightarrow> table_maps_block t l is_x = Some False"
  by (auto simp: table_maps_block_def s2tte_map_size_def s2tte_values split: list.split)

lemma destroyed_block_ripas:
  "t \<noteq> [] \<Longrightarrow> \<exists>b. table_is_destroyed_block t = Some b \<and> (b \<longleftrightarrow> list_all s2tte_is_destroyed t)"
  by (simp add: table_is_destroyed_block_iff)

text \<open>The three outcomes of the choice: an error, a leaf, or a block of assigned pages.\<close>

lemma rtt_fold_entry_cases:
  assumes t: "table_of (content s c) = Some t" "length t = 512" and pos: "0 < grc s g"
    and l: "level \<le> 3" and cg: "c \<noteq> g"
    and some: "rtt_fold_entry c g level s = Some (r, s')"
  obtains (error) "r = Inl RMI_ERROR_IN_USE" "s' = s"
    | (leaf) e where "r = Inr e" "uniform_leaf t e" "grc s c = 0"
        "s' = set_refcount g (grc s g - 1) s"
    | (block) base where "r = Inr (base OR 4)" "assigned_run t base" "level = 3" "grc s c = 512"
        "s' = set_refcount c 0 s"
proof -
  have ne: "t \<noteq> []" using t(2) by auto
  consider "grc s c = 0" | "grc s c = 512" | "grc s c \<noteq> 0" "grc s c \<noteq> 512" by blast
  then show ?thesis
  proof cases
    case 1
    show ?thesis
    proof (cases "list_all s2tte_is_destroyed t")
      case True
      then have "r = Inr s2tte_create_destroyed \<and> s' = set_refcount g (grc s g - 1) s"
        using some 1 t ne pos
        by (simp add: rtt_fold_entry_def table_is_destroyed_block_iff granule_put_eq)
      then show ?thesis using leaf 1 True by (auto simp: uniform_leaf_def)
    next
      case False
      show ?thesis
      proof (cases "\<exists>r. list_all (\<lambda>e. s2tte_is_unassigned e \<and> s2tte_get_ripas e = Some r) t")
        case True
        then obtain rp where rp: "list_all (\<lambda>e. s2tte_is_unassigned e \<and> s2tte_get_ripas e = Some rp) t"
          by blast
        then have "s2tte_get_ripas (hd t) = Some rp" using ne by (cases t) auto
        then have "r = Inr (s2tte_create_unassigned rp) \<and> s' = set_refcount g (grc s g - 1) s"
          using some 1 t ne pos False True
          by (auto simp: rtt_fold_entry_def table_is_destroyed_block_iff
              table_is_unassigned_block_iff granule_put_eq)
        then show ?thesis using leaf 1 rp by (auto simp: uniform_leaf_def)
      next
        case no: False
        then have "r = Inl RMI_ERROR_IN_USE \<and> s' = s"
          using some 1 t ne False
          by (simp add: rtt_fold_entry_def table_is_destroyed_block_iff
              table_is_unassigned_block_iff)
        then show ?thesis using error by blast
      qed
    qed
  next
    case 2
    show ?thesis
    proof (cases "level \<le> 2")
      case True
      then have "r = Inl RMI_ERROR_IN_USE \<and> s' = s"
        using some 2 t by (simp add: rtt_fold_entry_def s2tte_values)
      then show ?thesis using error by blast
    next
      case False
      then have l3: "level = 3" using l by simp
      have hd: "hd t = t ! 0" using ne by (simp add: hd_conv_nth)
      from some 2 l3 t ne have "s2tte_pa (t ! 0) 2 \<noteq> None"
        by (cases "s2tte_pa (t ! 0) 2") (auto simp: rtt_fold_entry_def s2tte_values s2tte_read_def bind_assert_c)
      then have nt: "(t ! 0) AND 3 \<noteq> 3"
        by (auto simp: s2tte_pa_def s2tte_iffs bind_assert_c split: if_splits)
      have v: "table_maps_valid_block t 3 = Some False" "table_maps_valid_ns_block t 3 = Some False"
        unfolding table_maps_valid_block_def table_maps_valid_ns_block_def
        using nt ne hd by (auto intro!: table_maps_block_first simp: s2tte_iffs)
      have "table_maps_assigned_block t 3 = Some True"
        using some 2 l3 t v
        by (auto simp: rtt_fold_entry_def s2tte_values s2tte_read_def Option.bind_eq_Some_conv
            split: if_splits)
      then obtain base where base: "assigned_run t base" using table_maps_assigned_iff t(2) by blast
      have pa: "s2tte_pa (t ! 0) 2 = Some base"
        using base assigned_run_first [OF base] s2tte_pa_assigned [of "t ! 0" 2]
        by (auto simp: assigned_run_def s2tte_iffs)
      have "addr_is_level_aligned base 2" using base by (simp add: assigned_run_def)
      then have "s2tte_create_assigned_empty base 2 = Some (base OR 4)"
        by (simp add: s2tte_create_assigned_empty_def s2tte_values)
      then have "r = Inr (base OR 4) \<and> s' = set_refcount c 0 s"
        using some 2 l3 t ne pa \<open>table_maps_assigned_block t 3 = Some True\<close>
        by (simp add: rtt_fold_entry_def s2tte_values s2tte_read_def granule_refcount_dec_def)
      then show ?thesis using block base l3 2 by blast
    qed
  next
    case 3
    then have "r = Inl RMI_ERROR_IN_USE \<and> s' = s"
      using some t by (simp add: rtt_fold_entry_def s2tte_values)
    then show ?thesis using error by blast
  qed
qed

text \<open>
  The choice fails on a full table of level 3 that is not one run of assigned pages: valid pages
  and pages of the host fail the assertion of \<open>s2tte_pa\<close>, which is called with the level of the
  parent, and other mixtures reach the \<^verbatim>\<open>assert(false)\<close>.
\<close>

lemma full_table_stuck:
  assumes "table_of (content s c) = Some t" and "length t = 512" and "grc s c = 512"
    and no: "\<not> (\<exists>base. assigned_run t base)"
  shows "rtt_fold_entry c g 3 s = None"
proof (rule ccontr)
  assume "rtt_fold_entry c g 3 s \<noteq> None"
  then obtain r s' where some: "rtt_fold_entry c g 3 s = Some (r, s')" by fastforce
  have na: "table_maps_assigned_block t 3 \<noteq> Some True"
    using assms by (simp add: table_maps_assigned_iff)
  have ne: "t \<noteq> []" using assms(2) by auto
  have nv: "\<not> table_maps_valid_block t 3 = Some True" "\<not> table_maps_valid_ns_block t 3 = Some True"
    if "s2tte_pa (t ! 0) 2 = Some pa" for pa
  proof -
    have "\<not> s2tte_is_valid (t ! 0) 3" "\<not> s2tte_is_valid_ns (t ! 0) 3"
      using that by (auto simp: s2tte_pa_def bind_assert_c s2tte_iffs split: if_splits)
    then show "\<not> table_maps_valid_block t 3 = Some True" "\<not> table_maps_valid_ns_block t 3 = Some True"
      using table_maps_block_first [OF ne, of 3] ne
      by (simp_all add: table_maps_valid_block_def table_maps_valid_ns_block_def hd_conv_nth)
  qed
  from some show False
    using assms na nv
    by (auto simp: rtt_fold_entry_def s2tte_values s2tte_read_def Option.bind_eq_Some_conv
        split: if_splits)
qed

lemma rtt_fold_entry_None:
  assumes t: "table_of (content s c) = Some t" "length t = 512" and pos: "0 < grc s g"
    and l: "level \<le> 3"
  shows "rtt_fold_entry c g level s = None
    \<longleftrightarrow> level = 3 \<and> grc s c = 512 \<and> \<not> (\<exists>base. assigned_run t base)"
proof -
  have ne: "t \<noteq> []" using t(2) by auto
  consider (zero) "grc s c = 0" | (run) base where "level = 3" "grc s c = 512" "assigned_run t base"
    | (stuck) "level = 3" "grc s c = 512" "\<not> (\<exists>base. assigned_run t base)"
    | (other) "grc s c \<noteq> 0" "grc s c \<noteq> 512 \<or> level \<noteq> 3"
    by auto
  then show ?thesis
  proof cases
    case zero
    then show ?thesis
      using t ne pos by (auto simp: rtt_fold_entry_def table_is_destroyed_block_iff
          table_is_unassigned_block_iff granule_put_eq split: option.split)
  next
    case (run base)
    have pa: "s2tte_pa (t ! 0) 2 = Some base"
      using run assigned_run_first [OF run(3)] s2tte_pa_assigned [of "t ! 0" 2]
      by (auto simp: assigned_run_def s2tte_iffs)
    have ab: "table_maps_assigned_block t 3 = Some True" using run table_maps_assigned_iff t(2) by blast
    have "addr_is_level_aligned base 2" using run by (simp add: assigned_run_def)
    then have "s2tte_create_assigned_empty base 2 = Some (base OR 4)"
      by (simp add: s2tte_create_assigned_empty_def s2tte_values)
    then have "rtt_fold_entry c g level s \<noteq> None"
      using run t ne pa ab
      by (simp add: rtt_fold_entry_def s2tte_values s2tte_read_def granule_refcount_dec_def)
    then show ?thesis using run by blast
  next
    case stuck
    then show ?thesis using full_table_stuck [OF t] by simp
  next
    case other
    then show ?thesis using t l by (auto simp: rtt_fold_entry_def s2tte_values)
  qed
qed

section \<open>The command\<close>

lemma leaf_not_valid: "leaf_entry e \<Longrightarrow> \<not> s2tte_is_valid e l \<and> \<not> s2tte_is_valid_ns e l"
  by (auto simp: leaf_entry_def s2tte_iffs)

lemma uniform_leaf_leaf: "uniform_leaf t e \<Longrightarrow> leaf_entry e"
  by (auto simp: uniform_leaf_def)

lemma block_entry:
  assumes "addr_is_level_aligned base 2"
  shows "s2tte_is_assigned (base OR 4) 2" "addr_level_mask (base OR 4) 2 = base"
    "\<not> s2tte_is_valid (base OR 4) l" "\<not> s2tte_is_valid_ns (base OR 4) l" "s2tte_refs (base OR 4)"
proof -
  note low = aligned_and_low [OF assms, simplified]
  show "s2tte_is_assigned (base OR 4) 2" "\<not> s2tte_is_valid (base OR 4) l"
    "\<not> s2tte_is_valid_ns (base OR 4) l" "s2tte_refs (base OR 4)"
    by (simp_all add: s2tte_iffs s2tte_refs_def bit.conj_disj_distrib2 low)
  show "addr_level_mask (base OR 4) 2 = base" by (rule mask_of_or [OF assms]) simp
qed

text \<open>The new parent entry of a successful fold.\<close>

definition folded :: "rmm \<Rightarrow> nat \<Rightarrow> int \<Rightarrow> u64 \<Rightarrow> bool" where
  "folded s c level e \<longleftrightarrow> (\<exists>t. table_of (content s c) = Some t \<and> length t = 512
     \<and> (grc s c = 0 \<and> uniform_leaf t e
        \<or> level = 3 \<and> grc s c = 512 \<and> (\<exists>base. e = base OR 4 \<and> assigned_run t base)))"

lemma folded_entry:
  assumes "folded s c level e"
  shows "\<not> s2tte_is_valid e l" "\<not> s2tte_is_valid_ns e l"
proof -
  from assms consider t where "uniform_leaf t e"
    | t base where "e = base OR 4" "assigned_run t base"
    by (auto simp: folded_def)
  then show "\<not> s2tte_is_valid e l" "\<not> s2tte_is_valid_ns e l"
    by (cases; use block_entry uniform_leaf_leaf leaf_not_valid in \<open>auto simp: assigned_run_def\<close>)+
qed

lemma fold_act_cases:
  assumes inv: "inv_with lv par s" and w: "walk_result lv s ctx addr (level - 1) wi"
    and l: "last_level wi = level - 1" and t: "table_of (content s (g_llt wi)) = Some t"
    and ws: "working s (\<lambda>x. x = g_llt wi) ((\<lambda>k. None)(SLOT_RTT := Some (g_llt wi))) s2"
    and some: "fold_act rtt_addr map_addr level rd wi (t ! unat (index wi)) s2 = Some (ret, s3)"
  obtains (error) "ret \<noteq> RMI_SUCCESS" "granules s3 = granules s" "content s3 = content s"
      "vmids s3 = vmids s" "glock s3 = glock s2" "slots s3 = slots s2"
    | (success) c e where "ret = RMI_SUCCESS" "find_granule rtt_addr = Some c"
      "s2tte_is_table (t ! unat (index wi)) (level - 1)"
      "rtt_addr = addr_level_mask (t ! unat (index wi)) 3"
      "folded s c level e" "child_reclaimed s (g_llt wi) (unat (index wi)) t c e s3"
      "glock s3 = glock s2" "slots s3 = slots s2"
      "trace s3 = trace s2 @ [EvLock c GRANULE_STATE_RTT,
        EvTteWrite (g_llt wi) (unat (index wi)) 0,
        EvTlbiIpa (s2_vmid (rd_s2_ctx rd)) (drop_bit 12 map_addr),
        EvTlbiVmall (s2_vmid (rd_s2_ctx rd)),
        EvTteWrite (g_llt wi) (unat (index wi)) e, EvScrub c, EvUnlock c]"
proof -
  note f = entry_facts [OF inv w l t]
  let ?e = "t ! unat (index wi)" and ?llt = "g_llt wi" and ?i = "unat (index wi)"
  have wk: "granules s2 = granules s" "content s2 = content s" "vmids s2 = vmids s"
    "glock s2 = (\<lambda>x. x = ?llt)" "slots s2 = (\<lambda>k. None)(SLOT_RTT := Some ?llt)"
    using ws by (simp_all add: working_def)
  show ?thesis
  proof (cases "s2tte_is_table ?e (level - 1) \<and> rtt_addr = addr_level_mask ?e 3")
    case False
    have "\<exists>w. rtt_error (level - 1) = Some w \<and> w \<noteq> 0" by (rule rtt_error_Some [OF f(5,6)])
    with False some have "ret \<noteq> RMI_SUCCESS \<and> s3 = s2"
      by (auto simp: fold_act_def s2tte_pa_table_eq RMI_SUCCESS_def split: if_splits)
    then show ?thesis using error wk by simp
  next
    case True
    then have tab: "s2tte_is_table ?e (level - 1)" and ra: "rtt_addr = addr_level_mask ?e 3"
      by simp_all
    from act_child [OF inv w l t tab] obtain c where
      c: "find_granule rtt_addr = Some c" "gst s c = GRANULE_STATE_RTT" "c \<noteq> ?llt"
        "c < RMM_MAX_GRANULES" "lv c = level" using ra by auto
    from inv c(2,4) obtain tc where tc: "table_of (content s c) = Some tc" "length tc = 512"
      "grc s c = of_nat (ref_count tc)" and l3: "level \<le> 3"
      using c(5) by (elim inv_with_rtt) auto
    have ref: "s2tte_refs ?e" using tab by simp
    have pos: "0 < grc s ?llt" using ref_count_pos [OF f(8,4) ref] f(7) by simp
    have fl: "find_lock_granule rtt_addr GRANULE_STATE_RTT s2
        = Some (Some c, lock_g c GRANULE_STATE_RTT s2)"
      using c wk by (intro lock_child [OF inv]) auto
    let ?sx = "map_slot SLOT_RTT2 c (lock_g c GRANULE_STATE_RTT s2)"
    have gm: "granule_map c SLOT_RTT2 (lock_g c GRANULE_STATE_RTT s2) = Some ?sx"
      using c(4) wk by (simp add: granule_map_eq)
    have tx: "table_of (content ?sx c) = Some tc" and px: "0 < grc ?sx ?llt"
      using tc pos wk by simp_all
    have pat: "s2tte_pa_table ?e (level - 1) = Some rtt_addr"
      using s2tte_pa_table_eq [OF tab] ra by simp
    from some obtain r sy where re: "rtt_fold_entry c ?llt level ?sx = Some (r, sy)"
      by (auto simp: fold_act_def tab pat fl gm Option.bind_eq_Some_conv)
    note d = fold_act_def tab pat fl gm re
    have su: "table_of (content sy ?llt) = Some t"
      if "sy = set_refcount x v ?sx" for x v using t wk that by simp
    show ?thesis
      using tx tc(2) px l3 c(3) re
    proof (cases rule: rtt_fold_entry_cases)
      case error
      then have "ret = RMI_ERROR_IN_USE \<and> s3 = spinlock_release c (buffer_unmap SLOT_RTT2 ?sx)"
        using some wk c(2) by (simp add: d granule_unlock_eq unlocked_ok_def)
      then show ?thesis
        using that(1) wk c(3) by (simp add: word_consts fun_eq_iff)
    next
      case (leaf e)
      have nv: "\<not> s2tte_is_valid e (level - 1)" "\<not> s2tte_is_valid_ns e (level - 1)"
        and nr: "\<not> s2tte_refs e"
        using leaf_not_valid leaf_entry_refs uniform_leaf_leaf [OF leaf(2)] by blast+
      have fo: "folded s c level e" using tc leaf wk by (auto simp: folded_def)
      show ?thesis
        using some leaf(1,3,4) su [OF leaf(4)] f(4,8) c(3) wk nv
        by (intro that(2) [OF _ c(1) tab ra fo])
           (auto simp: d s2tte_write_eq granule_unlock_eq unlocked_ok_def child_reclaimed_def
             ref nr fun_eq_iff)
    next
      case (block base)
      have al: "addr_is_level_aligned base 2" using block(2) by (simp add: assigned_run_def)
      note b = block_entry [OF al]
      have fo: "folded s c level (base OR 4)" using tc block wk by (auto simp: folded_def)
      show ?thesis
        using some block(1,4,5) su [OF block(5)] f(4,8) c(3) wk b
        by (intro that(2) [OF _ c(1) tab ra fo])
           (auto simp: d s2tte_write_eq granule_unlock_eq unlocked_ok_def child_reclaimed_def
             ref fun_eq_iff)
    qed
  qed
qed

text \<open>When the action fails.\<close>

lemma fold_act_None:
  assumes inv: "inv_with lv par s" and w: "walk_result lv s ctx addr (level - 1) wi"
    and l: "last_level wi = level - 1" and t: "table_of (content s (g_llt wi)) = Some t"
    and ws: "working s (\<lambda>x. x = g_llt wi) ((\<lambda>k. None)(SLOT_RTT := Some (g_llt wi))) s2"
  shows "fold_act rtt_addr map_addr level rd wi (t ! unat (index wi)) s2 = None
    \<longleftrightarrow> s2tte_is_table (t ! unat (index wi)) (level - 1)
      \<and> rtt_addr = addr_level_mask (t ! unat (index wi)) 3 \<and> level = 3
      \<and> (\<exists>c tc. find_granule rtt_addr = Some c \<and> table_of (content s c) = Some tc
           \<and> grc s c = 512 \<and> \<not> (\<exists>base. assigned_run tc base))"
proof -
  note f = entry_facts [OF inv w l t]
  let ?e = "t ! unat (index wi)" and ?llt = "g_llt wi" and ?i = "unat (index wi)"
  have wk: "granules s2 = granules s" "content s2 = content s" "vmids s2 = vmids s"
    "glock s2 = (\<lambda>x. x = ?llt)" "slots s2 = (\<lambda>k. None)(SLOT_RTT := Some ?llt)"
    using ws by (simp_all add: working_def)
  show ?thesis
  proof (cases "s2tte_is_table ?e (level - 1) \<and> rtt_addr = addr_level_mask ?e 3")
    case False
    have "\<exists>w. rtt_error (level - 1) = Some w \<and> w \<noteq> 0" by (rule rtt_error_Some [OF f(5,6)])
    with False show ?thesis by (auto simp: fold_act_def s2tte_pa_table_eq)
  next
    case True
    then have tab: "s2tte_is_table ?e (level - 1)" and ra: "rtt_addr = addr_level_mask ?e 3"
      by simp_all
    from act_child [OF inv w l t tab] obtain c where
      c: "find_granule rtt_addr = Some c" "gst s c = GRANULE_STATE_RTT" "c \<noteq> ?llt"
        "c < RMM_MAX_GRANULES" "lv c = level" using ra by auto
    from inv c(2,4) obtain tc where tc: "table_of (content s c) = Some tc" "length tc = 512"
      and l3: "level \<le> 3" using c(5) by (elim inv_with_rtt) auto
    have pos: "0 < grc s ?llt" using ref_count_pos [OF f(8,4) s2tte_refs_table [OF tab]] f(7) by simp
    have fl: "find_lock_granule rtt_addr GRANULE_STATE_RTT s2
        = Some (Some c, lock_g c GRANULE_STATE_RTT s2)"
      using c wk by (intro lock_child [OF inv]) auto
    let ?sx = "map_slot SLOT_RTT2 c (lock_g c GRANULE_STATE_RTT s2)"
    have gm: "granule_map c SLOT_RTT2 (lock_g c GRANULE_STATE_RTT s2) = Some ?sx"
      using c(4) wk by (simp add: granule_map_eq)
    have tx: "table_of (content ?sx c) = Some tc" and px: "0 < grc ?sx ?llt" and gx: "grc ?sx c = grc s c"
      using tc pos wk by simp_all
    have pat: "s2tte_pa_table ?e (level - 1) = Some rtt_addr"
      using s2tte_pa_table_eq [OF tab] ra by simp
    note d = fold_act_def tab pat fl gm
    note none = rtt_fold_entry_None [OF tx tc(2) px l3, unfolded gx]
    have "fold_act rtt_addr map_addr level rd wi ?e s2 = None
      \<longleftrightarrow> level = 3 \<and> grc s c = 512 \<and> \<not> (\<exists>base. assigned_run tc base)"
    proof (cases "rtt_fold_entry c ?llt level ?sx")
      case None
      then have "fold_act rtt_addr map_addr level rd wi ?e s2 = None" by (simp add: d)
      then show ?thesis using none None by blast
    next
      case (Some p)
      obtain r sy where re: "rtt_fold_entry c ?llt level ?sx = Some (r, sy)" using Some by (cases p) simp
      have su: "table_of (content sy ?llt) = Some t"
        if "sy = set_refcount x v ?sx" for x v using t wk that by simp
      from tx tc(2) px l3 c(3) re have "fold_act rtt_addr map_addr level rd wi ?e s2 \<noteq> None"
      proof (cases rule: rtt_fold_entry_cases)
        case error
        then show ?thesis using wk c(2) by (simp add: d re granule_unlock_eq unlocked_ok_def)
      next
        case (leaf e)
        then show ?thesis
          using su [OF leaf(4)] f(4,8) c(3) wk
          by (simp add: d re s2tte_write_eq granule_unlock_eq unlocked_ok_def)
      next
        case (block base)
        show ?thesis
          using block(1,5) su [OF block(5)] f(4,8) c(3) wk
          by (simp add: d re s2tte_write_eq granule_unlock_eq unlocked_ok_def)
      qed
      moreover have "\<not> (level = 3 \<and> grc s c = 512 \<and> \<not> (\<exists>base. assigned_run tc base))"
        using none re by (metis option.distinct(1))
      ultimately show ?thesis by blast
    qed
    then show ?thesis using True c(1) tc(1) by auto
  qed
qed

text \<open>The pages of a folded table now belong to the entry of the parent.\<close>

definition fold_par :: "nat \<Rightarrow> nat \<Rightarrow> nat \<Rightarrow> (nat \<Rightarrow> owner) \<Rightarrow> nat \<Rightarrow> owner" where
  "fold_par g i c par d =
     (case par d of TteOwner x k \<Rightarrow> if x = c then TteOwner g i else par d | _ \<Rightarrow> par d)"

lemma fold_par_other: "owner_granule (par d) \<noteq> Some c \<Longrightarrow> fold_par g i c par d = par d"
  by (auto simp: fold_par_def split: owner.split)

lemma assigned_run_owns:
  assumes inv: "inv_with lv par s" and c: "c < RMM_MAX_GRANULES" "gst s c = GRANULE_STATE_RTT"
    "lv c = 3" and t: "table_of (content s c) = Some t" and run: "assigned_run t base"
    and same: "\<And>d. gst s d = GRANULE_STATE_DATA \<Longrightarrow> gst s' d = GRANULE_STATE_DATA"
  shows "owns_pages (fold_par g i c par) s' g i base 512"
  unfolding owns_pages_def
proof (intro allI impI)
  fix k :: nat assume k: "k < 512"
  from inv c(1,2) t k have "entry_ok lv par s c k (t ! k)" by (elim inv_with_rtt) auto
  moreover have "s2tte_is_assigned (t ! k) 3" and a: "addr_level_mask (t ! k) 3 = base + of_nat k * 4096"
    using run k by (auto simp: assigned_run_def)
  ultimately obtain d where "find_granule (addr_level_mask (t ! k) 3) = Some d"
    "gst s d = GRANULE_STATE_DATA" "par d = TteOwner c k"
    using entry_ok_page [of lv par s c k "t ! k"] c(3) by blast
  then show "\<exists>d. find_granule (base + of_nat k * 4096) = Some d
      \<and> gst s' d = GRANULE_STATE_DATA \<and> fold_par g i c par d = TteOwner g i"
    unfolding a using same by (auto simp: fold_par_def)
qed

lemma folded_inv:
  assumes inv: "inv_with lv par s" and g: "g < RMM_MAX_GRANULES"
    and st: "gst s g = GRANULE_STATE_RTT" and t: "table_of (content s g) = Some t" and i: "i < 512"
    and c: "c < RMM_MAX_GRANULES" "gst s c = GRANULE_STATE_RTT" "c \<noteq> g" "par c = TteOwner g i"
      "lv c = level" "lv c = lv g + 1"
    and fo: "folded s c level e" and rm: "child_reclaimed s g i t c e s'"
  shows "\<exists>par'. inv_with lv par' s'"
proof -
  from fo consider tc where "uniform_leaf tc e"
    | tc base where "table_of (content s c) = Some tc" "e = base OR 4" "assigned_run tc base"
        "level = 3"
    by (auto simp: folded_def)
  then show ?thesis
  proof cases
    case 1
    then show ?thesis
      using child_reclaimed_inv [OF inv g st t i _ c(3,4) rm] c(2) uniform_leaf_leaf by blast
  next
    case 2
    have gr: "granules s' = (granules s)(g := (granules s g)
      \<lparr>g_refcount := grc s g - ref_word (t ! i) + ref_word e\<rparr>,
      c := \<lparr>g_state = GRANULE_STATE_DELEGATED, g_refcount = 0\<rparr>)"
      and co: "content s' = (content s)(g := CTable (t[i := e]), c := CZero)"
      using rm by (simp_all add: child_reclaimed_def)
    have same: "gst s' d = GRANULE_STATE_DATA" if "gst s d = GRANULE_STATE_DATA" for d
      using that gr c(2) st by auto
    have al: "addr_is_level_aligned base 2" using 2 by (simp add: assigned_run_def)
    have "entry_ok lv (fold_par g i c par) s' g i e"
      using assigned_run_owns [OF inv c(1,2) _ 2(1,3) same] c(5,6) 2(2,4) block_entry [OF al]
      by (auto simp: entry_ok_def)
    moreover have "granule_ok lv (fold_par g i c par) s' c"
      by (simp add: granule_ok_def unlocked_ok_def gr co)
    ultimately have "inv_with lv (fold_par g i c par) s'"
      using c by (intro inv_entry_step [OF inv g st t i c(3) _ _ gr co])
        (auto simp: fold_par_other gr)
    then show ?thesis by blast
  qed
qed

lemma smc_rtt_fold_safe:
  assumes "inv s" and q: "quiet s"
  shows "case smc_rtt_fold rtt_addr rd_addr map_addr ulevel s of
      None \<Rightarrow> True | Some (ret, s') \<Rightarrow> inv s' \<and> quiet s'"
proof -
  from assms obtain lv par where inv: "inv_with lv par s" by (auto simp: inv_def)
  show ?thesis
    unfolding smc_rtt_fold_shape
  proof (rule entry_command_safe [OF inv q structure_check_sound])
    fix g_rd and rd :: rd and wi t s2
    assume w: "walk_result lv s (rd_s2_ctx rd) map_addr (sint ulevel - 1) wi"
      and l: "last_level wi = sint ulevel - 1" and t: "table_of (content s (g_llt wi)) = Some t"
      and ws: "working s (\<lambda>x. x = g_llt wi) ((\<lambda>k. None)(SLOT_RTT := Some (g_llt wi))) s2"
    note f = entry_facts [OF inv w l t]
    show "case fold_act rtt_addr map_addr (sint ulevel) rd wi (t ! unat (index wi)) s2 of
        None \<Rightarrow> True
      | Some (ret, s3) \<Rightarrow> inv s3 \<and> glock s3 = (\<lambda>x. x = g_llt wi)
          \<and> slots s3 = (\<lambda>k. None)(SLOT_RTT := Some (g_llt wi))"
    proof (cases "fold_act rtt_addr map_addr (sint ulevel) rd wi (t ! unat (index wi)) s2")
      case (Some p)
      obtain ret s3 where p: "p = (ret, s3)" by fastforce
      have wk: "glock s2 = (\<lambda>x. x = g_llt wi)" "slots s2 = (\<lambda>k. None)(SLOT_RTT := Some (g_llt wi))"
        using ws by (simp_all add: working_def)
      from inv w l t ws Some [unfolded p] have "inv s3 \<and> glock s3 = glock s2 \<and> slots s3 = slots s2"
      proof (cases rule: fold_act_cases)
        case error
        then show ?thesis using inv_same [OF inv_defI [OF inv]] by simp
      next
        case (success c e)
        from act_child [OF inv w l t success(3)] success(2,4) have
          "gst s c = GRANULE_STATE_RTT" "lv c = sint ulevel" "c \<noteq> g_llt wi"
          "c < RMM_MAX_GRANULES" "par c = TteOwner (g_llt wi) (unat (index wi))" by auto
        then have "\<exists>par'. inv_with lv par' s3"
          using folded_inv [OF inv f(1,2) t f(4) _ _ _ _ _ _ success(5,6)] f(3) by auto
        then show ?thesis using success by (auto simp: inv_def)
      qed
      then show ?thesis using Some p wk by simp
    qed simp
  qed
qed

lemma tte_at_rd:
  assumes te: "tte_at rd_addr a l s = Some (rd, g, i, e)"
  shows "\<exists>g_rd. find_granule rd_addr = Some g_rd \<and> gst s g_rd = GRANULE_STATE_RD
    \<and> rd_of (content s g_rd) = Some rd"
proof (cases "find_granule rd_addr")
  case None
  with te show ?thesis by (simp add: tte_at_def)
next
  case (Some g_rd)
  then obtain rd' where rd': "gst s g_rd = GRANULE_STATE_RD" "rd_of (content s g_rd) = Some rd'"
    using te by (cases "rd_of (content s g_rd)") (auto simp: tte_at_def split: if_splits)
  obtain t level where p: "pt_find (content s) (rd_s2_ctx rd') a l = (t, level)" by fastforce
  have "rd' = rd"
    using te Some rd' p by (auto simp: tte_at_def Option.bind_eq_Some_conv split: if_splits)
  then show ?thesis using Some rd' by blast
qed

text \<open>When RTT.Fold fails: the table to be folded is of level 3 and full, but not one run of assigned pages.\<close>

definition fold_stuck :: "u64 \<Rightarrow> u64 \<Rightarrow> u64 \<Rightarrow> u64 \<Rightarrow> rmm \<Rightarrow> bool" where
  "fold_stuck rtt_addr rd_addr map_addr ulevel s \<longleftrightarrow> sint ulevel = 3
     \<and> (case tte_at rd_addr map_addr 2 s of
          None \<Rightarrow> False
        | Some (rd, g, i, e) \<Rightarrow> validate_rtt_structure_cmds map_addr 3 rd
            \<and> s2tte_is_table e 2 \<and> rtt_addr = addr_level_mask e 3
            \<and> (\<exists>c t. find_granule rtt_addr = Some c \<and> table_of (content s c) = Some t
                 \<and> grc s c = 512 \<and> \<not> (\<exists>base. assigned_run t base)))"

lemma smc_rtt_fold_None:
  assumes inv: "inv_with lv par s" and q: "quiet s"
  shows "smc_rtt_fold rtt_addr rd_addr map_addr ulevel s = None
    \<longleftrightarrow> fold_stuck rtt_addr rd_addr map_addr ulevel s"
  unfolding smc_rtt_fold_shape
  using inv q structure_check_sound
proof (cases rule: entry_command_spec [where rd_addr = rd_addr
      and act = "fold_act rtt_addr map_addr (sint ulevel)" and map_addr = map_addr
      and check = "structure_check map_addr (sint ulevel)" and level = "sint ulevel - 1"])
  case (reject e s')
  have "\<not> fold_stuck rtt_addr rd_addr map_addr ulevel s"
  proof
    assume "fold_stuck rtt_addr rd_addr map_addr ulevel s"
    then obtain rd g i te where l: "sint ulevel = 3" and te: "tte_at rd_addr map_addr 2 s = Some (rd, g, i, te)"
      and v: "validate_rtt_structure_cmds map_addr 3 rd"
      by (auto simp: fold_stuck_def split: option.splits)
    from tte_at_rd [OF te] reject(3) l v show False by (auto simp: structure_check_def)
  qed
  then show "entry_command rd_addr (structure_check map_addr (sint ulevel)) map_addr (sint ulevel - 1)
      (fold_act rtt_addr map_addr (sint ulevel)) s = None \<longleftrightarrow> fold_stuck rtt_addr rd_addr map_addr ulevel s"
    using reject by simp
next
  case (short g_rd rd wi r s')
  have "\<not> fold_stuck rtt_addr rd_addr map_addr ulevel s"
    using tte_at_walk(1) [OF short(1-3,5)] short(6) by (auto simp: fold_stuck_def)
  then show "entry_command rd_addr (structure_check map_addr (sint ulevel)) map_addr (sint ulevel - 1)
      (fold_act rtt_addr map_addr (sint ulevel)) s = None \<longleftrightarrow> fold_stuck rtt_addr rd_addr map_addr ulevel s"
    using short by simp
next
  case (entry g_rd rd wi t s2)
  note f = entry_facts [OF inv entry(5-7)]
  have v: "validate_rtt_structure_cmds map_addr (sint ulevel) rd"
    using entry(4) by (simp add: structure_check_def split: if_splits)
  have fs: "fold_stuck rtt_addr rd_addr map_addr ulevel s
    \<longleftrightarrow> fold_act rtt_addr map_addr (sint ulevel) rd wi (t ! unat (index wi)) s2 = None"
    unfolding fold_act_None [OF inv entry(5-7,9)]
    using tte_at_walk(2) [OF entry(1-3,5-7)] v by (auto simp: fold_stuck_def)
  have "granule_unlock (g_llt wi) (buffer_unmap SLOT_RTT s3) \<noteq> None"
    if run: "fold_act rtt_addr map_addr (sint ulevel) rd wi (t ! unat (index wi)) s2 = Some (ret, s3)" for ret s3
  proof -
    have "gst s3 (g_llt wi) = GRANULE_STATE_RTT"
      using inv entry(5-7,9) run
    proof (cases rule: fold_act_cases)
      case error
      then show ?thesis using f(2) by simp
    next
      case (success c e)
      from act_child [OF inv entry(5-7) success(3)] success(2,4) have "c \<noteq> g_llt wi" by auto
      then show ?thesis using success(6) f(2) by (simp add: child_reclaimed_def)
    qed
    then show ?thesis by (simp add: granule_unlock_eq unlocked_ok_def)
  qed
  then show "entry_command rd_addr (structure_check map_addr (sint ulevel)) map_addr (sint ulevel - 1)
      (fold_act rtt_addr map_addr (sint ulevel)) s = None \<longleftrightarrow> fold_stuck rtt_addr rd_addr map_addr ulevel s"
    unfolding fs entry(10)
    by (cases "fold_act rtt_addr map_addr (sint ulevel) rd wi (t ! unat (index wi)) s2") auto
qed

end
