(* ===== verification/Delegation.thy ===== *)
theory Delegation
  imports Slot_Buffer
begin

text \<open>
  Delegation of granules (runtime/rmi/granule.c) and the calls to EL3 it makes
  (lib/asc/src/asc_drv.c).  The answer of EL3 is the parameter \<open>mc\<close>: the value that
  \<^verbatim>\<open>monitor_call\<close> returns for a function identifier and its six arguments.  It is stored
  in an \<^verbatim>\<open>int\<close> and asserted to be zero.
\<close>

type_synonym monitor = "u64 \<Rightarrow> u64 list \<Rightarrow> u64"

definition SMC_ASC_MARK_SECURE :: u64 where [word_consts]: "SMC_ASC_MARK_SECURE = 0xC40001B0"
definition SMC_ASC_MARK_NONSECURE :: u64 where
  [word_consts]: "SMC_ASC_MARK_NONSECURE = 0xC40001B1"
definition SMC_ASC_MARK_SECURE_DEV :: u64 where
  [word_consts]: "SMC_ASC_MARK_SECURE_DEV = 0xC40001B8"
definition SMC_ASC_ATTACH_DEV :: u64 where [word_consts]: "SMC_ASC_ATTACH_DEV = 0xC40001BA"

definition monitor_call :: "monitor \<Rightarrow> u64 \<Rightarrow> u64 list \<Rightarrow> rmm \<Rightarrow> u32 \<times> rmm" where
  "monitor_call mc fid args s = (ucast (mc fid args), emit (EvSmc fid args) s)"

section \<open>Calls to EL3\<close>

definition asc_mark_secure :: "monitor \<Rightarrow> u64 \<Rightarrow> rmm \<Rightarrow> rmm option" where
  "asc_mark_secure mc addr s = do {
     let (ret, s) = monitor_call mc SMC_ASC_MARK_SECURE [addr, 0, 0, 0, 0, 0] s;
     assert_c (ret = 0);
     Some s
   }"

definition asc_mark_nonsecure :: "monitor \<Rightarrow> u64 \<Rightarrow> rmm \<Rightarrow> rmm option" where
  "asc_mark_nonsecure mc addr s = do {
     let (ret, s) = monitor_call mc SMC_ASC_MARK_NONSECURE [addr, 0, 0, 0, 0, 0] s;
     assert_c (ret = 0);
     Some s
   }"

definition asc_mark_secure_dev :: "monitor \<Rightarrow> u64 \<Rightarrow> u64 \<Rightarrow> u64 \<Rightarrow> rmm \<Rightarrow> rmm option" where
  "asc_mark_secure_dev mc addr delegate_flag iova s = do {
     let (ret, s) = monitor_call mc SMC_ASC_MARK_SECURE_DEV
                      [addr, delegate_flag, iova, 0, 0, 0] s;
     assert_c (ret = 0);
     Some s
   }"

definition asc_attach_dev :: "monitor \<Rightarrow> u64 \<Rightarrow> rmm \<Rightarrow> rmm option" where
  "asc_attach_dev mc addr s = do {
     let (ret, s) = monitor_call mc SMC_ASC_ATTACH_DEV [addr, 0, 0, 0, 0, 0] s;
     assert_c (ret = 0);
     Some s
   }"

section \<open>The commands\<close>

definition smc_granule_delegate :: "monitor \<Rightarrow> u64 \<Rightarrow> rmm \<Rightarrow> (u64 \<times> rmm) option" where
  "smc_granule_delegate mc addr s = do {
     (r, s) \<leftarrow> find_lock_granule addr GRANULE_STATE_NS s;
     (case r of
        None \<Rightarrow> Some (RMI_ERROR_INPUT, s)
      | Some g \<Rightarrow> do {
          let s = granule_set_state g GRANULE_STATE_DELEGATED s;
          s \<leftarrow> asc_mark_secure mc addr s;
          s \<leftarrow> granule_memzero g SLOT_DELEGATED s;
          s \<leftarrow> granule_unlock g s;
          Some (RMI_SUCCESS, s)
        })
   }"

definition smc_granule_delegate_dev ::
  "monitor \<Rightarrow> u64 \<Rightarrow> u64 \<Rightarrow> u64 \<Rightarrow> rmm \<Rightarrow> (u64 \<times> rmm) option" where
  "smc_granule_delegate_dev mc addr delegate_flag iova s = do {
     s \<leftarrow> asc_mark_secure_dev mc addr delegate_flag iova s;
     Some (RMI_SUCCESS, s)
   }"

definition smc_attach_dev :: "monitor \<Rightarrow> u64 \<Rightarrow> rmm \<Rightarrow> (u64 \<times> rmm) option" where
  "smc_attach_dev mc addr s = do {
     s \<leftarrow> asc_attach_dev mc addr s;
     Some (RMI_SUCCESS, s)
   }"

definition smc_granule_undelegate :: "monitor \<Rightarrow> u64 \<Rightarrow> rmm \<Rightarrow> (u64 \<times> rmm) option" where
  "smc_granule_undelegate mc addr s = do {
     (r, s) \<leftarrow> find_lock_granule addr GRANULE_STATE_DELEGATED s;
     (case r of
        None \<Rightarrow> Some (RMI_ERROR_INPUT, s)
      | Some g \<Rightarrow> do {
          s \<leftarrow> asc_mark_nonsecure mc addr s;
          let s = granule_set_state g GRANULE_STATE_NS s;
          s \<leftarrow> granule_unlock g s;
          Some (RMI_SUCCESS, s)
        })
   }"

end
