(* ===== verification/Data_Cmds.thy ===== *)
theory Data_Cmds
  imports Rtt_Cmds Delegation
begin

text \<open>
  The commands on data granules of runtime/rmi/rtt.c: Data.Create, Data.CreateUnknown and
  Data.Destroy, with the measurement of the contents and the checks of a device that is
  attached through a data granule.
\<close>

section \<open>Flags and measurement\<close>

definition measure_flag :: "u64 \<Rightarrow> u64" where
  "measure_flag flags = flags AND 0x00000001"

definition dev_attach_flag :: "u64 \<Rightarrow> u64" where
  "dev_attach_flag flags = flags AND 0x00000002"

definition RMI_NO_MEASURE_CONTENT :: u64 where [word_consts]: "RMI_NO_MEASURE_CONTENT = 0"
definition RMI_MEASURE_CONTENT :: u64 where [word_consts]: "RMI_MEASURE_CONTENT = 1"

definition data_granule_measure :: "hash_fun \<Rightarrow> rd \<Rightarrow> u8 list \<Rightarrow> u64 \<Rightarrow> u64 \<Rightarrow> rd" where
  "data_granule_measure hash rd data ipa flags =
     (let rim = rim_field rd;
          content = (if flags = RMI_MEASURE_CONTENT
                     then measurement_hash_compute hash (rd_algorithm rd) (MeasGranule data)
                            zero_digest
                     else zero_digest)
      in set_rim (measurement_hash_compute hash (rd_algorithm rd)
                    (MeasDescData rim ipa flags content) (rd_measurement rd ! 0)) rd)"

section \<open>Validation\<close>

definition validate_data_create_unknown :: "u64 \<Rightarrow> rd \<Rightarrow> u64" where
  "validate_data_create_unknown map_addr rd =
     (if \<not> addr_in_par rd map_addr then RMI_ERROR_INPUT
      else if \<not> validate_map_addr map_addr RTT_PAGE_LEVEL rd then RMI_ERROR_INPUT
      else RMI_SUCCESS)"

definition validate_data_create :: "u64 \<Rightarrow> rd \<Rightarrow> u64" where
  "validate_data_create map_addr rd =
     (if rd_state rd \<noteq> REALM_STATE_NEW then RMI_ERROR_REALM
      else validate_data_create_unknown map_addr rd)"

section \<open>The layout of a device descriptor\<close>

text \<open>
  The bytes of a mapped granule; \<^verbatim>\<open>char\<close> is unsigned on the target.  Six big-endian
  32-bit sizes from byte 20, then six pairs of big-endian 64-bit addresses from byte 48.
\<close>

definition byte_at :: "u8 list \<Rightarrow> nat \<Rightarrow> u64" where
  "byte_at data k = (if k < length data then ucast (data ! k) else 0)"

definition read_be :: "u8 list \<Rightarrow> nat \<Rightarrow> nat \<Rightarrow> u64" where
  "read_be data start n = fold (\<lambda>j v. push_bit 8 v + byte_at data (start + j)) [0..<n] 0"

definition read_bar_sizes :: "u8 list \<Rightarrow> u64 list" where
  "read_bar_sizes data = map (\<lambda>i. read_be data (20 + i * 4) 4) [0..<6]"

definition read_ipa_pa :: "u8 list \<Rightarrow> u64 list \<times> u64 list" where
  "read_ipa_pa data =
     (map (\<lambda>i. read_be data (48 + i * 16) 8) [0..<6],
      map (\<lambda>i. read_be data (48 + 8 + i * 16) 8) [0..<6])"

section \<open>The checks of an attached device\<close>

text \<open>
  The loop of \<^verbatim>\<open>do_full_table_walk_check\<close>, transcribed with its locks as they are: the
  realm descriptor is unlocked in every round, and two of the early returns keep a lock
  or a mapping.
\<close>

fun walk_check_loop ::
  "nat \<Rightarrow> nat \<Rightarrow> int \<Rightarrow> nat \<Rightarrow> (u64 \<times> u64) list \<Rightarrow> rmm \<Rightarrow> (u64 \<times> rmm) option" where
  "walk_check_loop g_rd g_table_root sl ipa_bits [] s = Some (0, s)"
| "walk_check_loop g_rd g_table_root sl ipa_bits ((map_addr, expected_pa) # rest) s = do {
     s \<leftarrow> granule_lock g_table_root GRANULE_STATE_RTT s;
     s \<leftarrow> granule_unlock g_rd s;
     (wi, s) \<leftarrow> rtt_walk_lock_unlock g_table_root sl ipa_bits map_addr RTT_PAGE_LEVEL s;
     if last_level wi \<noteq> RTT_PAGE_LEVEL then do {
       ret \<leftarrow> rtt_error (last_level wi);
       s \<leftarrow> granule_unlock (g_llt wi) s;
       Some (ret, s)
     } else do {
       s \<leftarrow> granule_map (g_llt wi) SLOT_RTT s;
       s2tte \<leftarrow> s2tte_read (g_llt wi) (index wi) s;
       let valid = s2tte_is_valid s2tte RTT_PAGE_LEVEL;
       if \<not> valid \<and> \<not> s2tte_is_assigned s2tte RTT_PAGE_LEVEL then do {
         ret \<leftarrow> rtt_error RTT_PAGE_LEVEL;
         Some (ret, buffer_unmap SLOT_RTT s)
       } else do {
         pa \<leftarrow> s2tte_pa s2tte RTT_PAGE_LEVEL;
         let s = buffer_unmap SLOT_RTT s;
         s \<leftarrow> granule_unlock (g_llt wi) s;
         if pa \<noteq> expected_pa then Some (RMI_ERROR_INPUT, s)
         else walk_check_loop g_rd g_table_root sl ipa_bits rest s
       }
     }
   }"

definition do_full_table_walk_check ::
  "u64 \<Rightarrow> (u64 \<times> u64) list \<Rightarrow> rmm \<Rightarrow> (u64 \<times> rmm) option" where
  "do_full_table_walk_check rd_addr checks s = do {
     (r, s) \<leftarrow> find_lock_granule rd_addr GRANULE_STATE_RD s;
     (case r of
        None \<Rightarrow> Some (RMI_ERROR_INPUT, s)
      | Some g_rd \<Rightarrow> do {
          s \<leftarrow> granule_map g_rd SLOT_RD s;
          rd \<leftarrow> rd_of (content s g_rd);
          if \<not> list_all (\<lambda>(map_addr, pa). validate_map_addr map_addr RTT_PAGE_LEVEL rd) checks
          then do {
            let s = buffer_unmap SLOT_RD s;
            s \<leftarrow> granule_unlock g_rd s;
            Some (RMI_ERROR_INPUT, s)
          } else do {
            let s = buffer_unmap SLOT_RD s;
            walk_check_loop g_rd (s2_g_rtt (rd_s2_ctx rd)) (realm_rtt_starting_level rd)
              (realm_ipa_bits rd) checks s
          }
        })
   }"

text \<open>
  The inner loop over one BAR.  \<open>room\<close> is the number of free entries of the two arrays
  of 1000 entries on the stack: a store behind their end has no meaning.  The result is
  \<^verbatim>\<open>None\<close> if a granule of the BAR is not a data granule.
\<close>

fun collect_bar ::
  "nat \<Rightarrow> u64 \<Rightarrow> u64 \<Rightarrow> u64 \<Rightarrow> u64 \<Rightarrow> (u64 \<times> u64) list \<Rightarrow> rmm
     \<Rightarrow> ((nat \<times> (u64 \<times> u64) list) option \<times> rmm) option" where
  "collect_bar room bar_size ipa pa j checks s =
     (if \<not> j < bar_size then Some (Some (room, checks), s)
      else do {
        (r, s) \<leftarrow> find_lock_granule (pa + j) GRANULE_STATE_DATA s;
        (case r of
           None \<Rightarrow> Some (None, s)
         | Some g_data \<Rightarrow>
             (case room of
                0 \<Rightarrow> None
              | Suc room' \<Rightarrow> do {
                  s \<leftarrow> granule_unlock g_data s;
                  collect_bar room' bar_size ipa pa (j + GRANULE_SIZE)
                    (checks @ [(ipa + j, pa + j)]) s
                }))
      })"

declare collect_bar.simps [simp del]

fun collect_bars ::
  "nat \<Rightarrow> (u64 \<times> u64 \<times> u64) list \<Rightarrow> (u64 \<times> u64) list \<Rightarrow> rmm
     \<Rightarrow> ((nat \<times> (u64 \<times> u64) list) option \<times> rmm) option" where
  "collect_bars room [] checks s = Some (Some (room, checks), s)"
| "collect_bars room ((bar_size, ipa, pa) # bars) checks s = do {
     (r, s) \<leftarrow> collect_bar room bar_size ipa pa 0 checks s;
     (case r of
        None \<Rightarrow> Some (None, s)
      | Some (room', checks') \<Rightarrow> collect_bars room' bars checks' s)
   }"

definition check_dev_addr_space ::
  "u64 \<Rightarrow> u64 list \<Rightarrow> u64 list \<Rightarrow> u64 list \<Rightarrow> rmm \<Rightarrow> (u32 \<times> rmm) option" where
  "check_dev_addr_space rd_addr bar_sizes bar_ipa bar_pa s = do {
     (r, s) \<leftarrow> collect_bars 1000 (zip bar_sizes (zip bar_ipa bar_pa)) [] s;
     (case r of
        None \<Rightarrow> Some (ucast RMI_ERROR_INPUT, s)
      | Some (room, checks) \<Rightarrow> do {
          assert_c (length checks < 1000);
          (ret, s) \<leftarrow> do_full_table_walk_check rd_addr checks s;
          Some (ucast ret, s)
        })
   }"

section \<open>Data.Create and Data.CreateUnknown\<close>

text \<open>
  \<open>src\<close> is the source granule with what reading it delivers, \<^verbatim>\<open>None\<close> for
  Data.CreateUnknown.  \<open>data_fill\<close> is the block under \<^verbatim>\<open>g_src != NULL\<close>: it fills and
  measures the data granule and returns \<^verbatim>\<open>ns_access_ok\<close> and the BARs.
\<close>

definition zero_bars :: "u64 list \<times> u64 list \<times> u64 list" where
  "zero_bars = (replicate 6 0, replicate 6 0, replicate 6 0)"

definition data_fill ::
  "hash_fun \<Rightarrow> nat \<Rightarrow> nat \<Rightarrow> u64 \<Rightarrow> nat \<times> u8 list option \<Rightarrow> u64 \<Rightarrow> rmm
     \<Rightarrow> ((bool \<times> (u64 list \<times> u64 list \<times> u64 list)) \<times> rmm) option" where
  "data_fill hash g_data g_rd map_addr src flags s = do {
     s \<leftarrow> granule_map g_data SLOT_DELEGATED s;
     (mem, s) \<leftarrow> ns_buffer_read SLOT_NS (fst src) 0 4096 (snd src) s;
     (case mem of
        None \<Rightarrow> do {
          let s = set_content g_data CZero s;
          Some ((False, zero_bars), buffer_unmap SLOT_DELEGATED s)
        }
      | Some data \<Rightarrow> do {
          let s = set_content g_data (CData data) s;
          let bars = (if dev_attach_flag flags \<noteq> 0
                      then (read_bar_sizes data, read_ipa_pa data) else zero_bars);
          rd \<leftarrow> rd_of (content s g_rd);
          let rd = data_granule_measure hash rd data map_addr (measure_flag flags);
          let s = set_content g_rd (CRd rd) s;
          Some ((True, bars), buffer_unmap SLOT_DELEGATED s)
        })
   }"

text \<open>
  The part of \<^verbatim>\<open>data_create\<close> between the walk and the label \<^verbatim>\<open>out_unlock_ll_table\<close>, with
  the table mapped.
\<close>

definition data_map_entry ::
  "hash_fun \<Rightarrow> nat \<Rightarrow> nat \<Rightarrow> u64 \<Rightarrow> u64 \<Rightarrow> (nat \<times> u8 list option) option \<Rightarrow> u64 \<Rightarrow> rtt_walk
     \<Rightarrow> rmm \<Rightarrow> ((u64 \<times> granule_state \<times> bool \<times> (u64 list \<times> u64 list \<times> u64 list)) \<times> rmm) option"
where
  "data_map_entry hash g_data g_rd data_addr map_addr src flags wi s = do {
     s2tte \<leftarrow> s2tte_read (g_llt wi) (index wi) s;
     if \<not> s2tte_is_unassigned s2tte then do {
       ret \<leftarrow> rtt_error RTT_PAGE_LEVEL;
       Some ((ret, GRANULE_STATE_DELEGATED, False, zero_bars), s)
     } else do {
       ripas \<leftarrow> s2tte_get_ripas s2tte;
       ((ns_access_ok, bars), s) \<leftarrow>
         (case src of
            None \<Rightarrow> Some ((False, zero_bars), s)
          | Some g_src \<Rightarrow> data_fill hash g_data g_rd map_addr g_src flags s);
       if src \<noteq> None \<and> \<not> ns_access_ok then
         Some ((RMI_ERROR_INPUT, GRANULE_STATE_DELEGATED, False, bars), s)
       else do {
         s2tte \<leftarrow> (if ripas = RMI_EMPTY
                   then s2tte_create_assigned_empty data_addr RTT_PAGE_LEVEL
                   else s2tte_create_valid data_addr RTT_PAGE_LEVEL);
         s \<leftarrow> s2tte_write (g_llt wi) (index wi) s2tte s;
         let s = granule_get (g_llt wi) s;
         Some ((RMI_SUCCESS, GRANULE_STATE_DATA, ns_access_ok, bars), s)
       }
     }
   }"

text \<open>
  The part behind the clean-up labels that attaches a device, when the data was copied
  and the flag asks for it.  It maps the two granules without their locks.
\<close>

definition data_attach_dev ::
  "monitor \<Rightarrow> hash_fun \<Rightarrow> nat \<Rightarrow> nat \<Rightarrow> u64 \<Rightarrow> u64 \<Rightarrow> u64 \<Rightarrow> u64
     \<Rightarrow> u64 list \<times> u64 list \<times> u64 list \<Rightarrow> u64 \<Rightarrow> rmm \<Rightarrow> (u64 \<times> rmm) option" where
  "data_attach_dev mc hash g_data g_rd data_addr rd_addr map_addr flags bars ret s = do {
     (chk, s) \<leftarrow> check_dev_addr_space rd_addr (fst bars) (fst (snd bars)) (snd (snd bars)) s;
     if chk \<noteq> 0 then Some (RMI_ERROR_INPUT, s)
     else do {
       (_, s) \<leftarrow> smc_attach_dev mc data_addr s;
       s \<leftarrow> granule_map g_data SLOT_DELEGATED s;
       s \<leftarrow> granule_map g_rd SLOT_RD s;
       rd \<leftarrow> rd_of (content s g_rd);
       data \<leftarrow> (case content s g_data of CData d \<Rightarrow> Some d | _ \<Rightarrow> None);
       let rd = data_granule_measure hash rd data map_addr (measure_flag flags);
       let s = set_content g_rd (CRd rd) s;
       let s = buffer_unmap SLOT_RD s;
       let s = buffer_unmap SLOT_DELEGATED s;
       Some (ret, s)
     }
   }"

text \<open>
  \<^verbatim>\<open>data_create\<close> up to the release of the two granules.  The result is the status and, when
  the data was copied from the host, the two granules and the BARs.
\<close>

definition data_create_page ::
  "hash_fun \<Rightarrow> u64 \<Rightarrow> u64 \<Rightarrow> u64 \<Rightarrow> (nat \<times> u8 list option) option \<Rightarrow> u64 \<Rightarrow> rmm
     \<Rightarrow> ((u64 \<times> (nat \<times> nat \<times> (u64 list \<times> u64 list \<times> u64 list)) option) \<times> rmm) option" where
  "data_create_page hash data_addr rd_addr map_addr src flags s = do {
     (r, s) \<leftarrow> find_lock_two_granules data_addr GRANULE_STATE_DELEGATED
                                        rd_addr GRANULE_STATE_RD s;
     (case r of
        None \<Rightarrow> Some ((RMI_ERROR_INPUT, None), s)
      | Some (g_data, g_rd) \<Rightarrow> do {
          s \<leftarrow> granule_map g_rd SLOT_RD s;
          rd \<leftarrow> rd_of (content s g_rd);
          let ret = (if src \<noteq> None then validate_data_create map_addr rd
                     else validate_data_create_unknown map_addr rd);
          ((ret, new_data_state, ns_access_ok, bars), s) \<leftarrow>
            (if ret \<noteq> RMI_SUCCESS then
               Some ((ret, GRANULE_STATE_DELEGATED, False, zero_bars), s)
             else do {
               let g_table_root = s2_g_rtt (rd_s2_ctx rd);
               let sl = realm_rtt_starting_level rd;
               let ipa_bits = realm_ipa_bits rd;
               s \<leftarrow> granule_lock g_table_root GRANULE_STATE_RTT s;
               (wi, s) \<leftarrow> rtt_walk_lock_unlock g_table_root sl ipa_bits map_addr
                            RTT_PAGE_LEVEL s;
               (res, s) \<leftarrow>
                 (if last_level wi \<noteq> RTT_PAGE_LEVEL then do {
                    ret \<leftarrow> rtt_error (last_level wi);
                    Some ((ret, GRANULE_STATE_DELEGATED, False, zero_bars), s)
                  } else do {
                    s \<leftarrow> granule_map (g_llt wi) SLOT_RTT s;
                    (res, s) \<leftarrow> data_map_entry hash g_data g_rd data_addr map_addr src flags
                                  wi s;
                    Some (res, buffer_unmap SLOT_RTT s)
                  });
               s \<leftarrow> granule_unlock (g_llt wi) s;
               Some (res, s)
             });
          let s = buffer_unmap SLOT_RD s;
          s \<leftarrow> granule_unlock g_rd s;
          s \<leftarrow> granule_unlock_transition g_data new_data_state s;
          Some ((ret, if ns_access_ok then Some (g_data, g_rd, bars) else None), s)
        })
   }"

definition data_create ::
  "monitor \<Rightarrow> hash_fun \<Rightarrow> u64 \<Rightarrow> u64 \<Rightarrow> u64 \<Rightarrow> (nat \<times> u8 list option) option \<Rightarrow> u64
     \<Rightarrow> rmm \<Rightarrow> (u64 \<times> rmm) option" where
  "data_create mc hash data_addr rd_addr map_addr src flags s = do {
     ((ret, copied), s) \<leftarrow> data_create_page hash data_addr rd_addr map_addr src flags s;
     (case copied of
        None \<Rightarrow> Some (ret, s)
      | Some (g_data, g_rd, bars) \<Rightarrow>
          if dev_attach_flag flags \<noteq> 0
          then data_attach_dev mc hash g_data g_rd data_addr rd_addr map_addr flags bars ret s
          else Some (ret, s))
   }"

definition smc_data_create ::
  "monitor \<Rightarrow> hash_fun \<Rightarrow> u64 \<Rightarrow> u64 \<Rightarrow> u64 \<Rightarrow> u64 \<Rightarrow> u64 \<Rightarrow> u8 list option \<Rightarrow> rmm
     \<Rightarrow> (u64 \<times> rmm) option" where
  "smc_data_create mc hash data_addr rd_addr map_addr src_addr flags mem s =
     (if measure_flag flags \<noteq> RMI_NO_MEASURE_CONTENT
         \<and> measure_flag flags \<noteq> RMI_MEASURE_CONTENT
      then Some (RMI_ERROR_INPUT, s)
      else case find_granule src_addr of
             None \<Rightarrow> Some (RMI_ERROR_INPUT, s)
           | Some g_src \<Rightarrow>
               if g_state (granules s g_src) \<noteq> GRANULE_STATE_NS then Some (RMI_ERROR_INPUT, s)
               else data_create mc hash data_addr rd_addr map_addr (Some (g_src, mem)) flags s)"

definition smc_data_create_unknown ::
  "monitor \<Rightarrow> hash_fun \<Rightarrow> u64 \<Rightarrow> u64 \<Rightarrow> u64 \<Rightarrow> rmm \<Rightarrow> (u64 \<times> rmm) option" where
  "smc_data_create_unknown mc hash data_addr rd_addr map_addr s =
     data_create mc hash data_addr rd_addr map_addr None 0 s"

section \<open>Data.Destroy\<close>

definition smc_data_destroy :: "u64 \<Rightarrow> u64 \<Rightarrow> rmm \<Rightarrow> (u64 \<times> rmm) option" where
  "smc_data_destroy rd_addr map_addr s = do {
     (r, s) \<leftarrow> find_lock_granule rd_addr GRANULE_STATE_RD s;
     (case r of
        None \<Rightarrow> Some (RMI_ERROR_INPUT, s)
      | Some g_rd \<Rightarrow> do {
          s \<leftarrow> granule_map g_rd SLOT_RD s;
          rd \<leftarrow> rd_of (content s g_rd);
          if \<not> validate_map_addr map_addr RTT_PAGE_LEVEL rd then do {
            let s = buffer_unmap SLOT_RD s;
            s \<leftarrow> granule_unlock g_rd s;
            Some (RMI_ERROR_INPUT, s)
          } else do {
            let g_table_root = s2_g_rtt (rd_s2_ctx rd);
            let sl = realm_rtt_starting_level rd;
            let ipa_bits = realm_ipa_bits rd;
            let s2_ctx = rd_s2_ctx rd;
            let s = buffer_unmap SLOT_RD s;
            s \<leftarrow> granule_lock g_table_root GRANULE_STATE_RTT s;
            s \<leftarrow> granule_unlock g_rd s;
            (wi, s) \<leftarrow> rtt_walk_lock_unlock g_table_root sl ipa_bits map_addr RTT_PAGE_LEVEL s;
            (ret, s) \<leftarrow>
              (if last_level wi \<noteq> RTT_PAGE_LEVEL then do {
                 ret \<leftarrow> rtt_error (last_level wi);
                 Some (ret, s)
               } else do {
                 s \<leftarrow> granule_map (g_llt wi) SLOT_RTT s;
                 s2tte \<leftarrow> s2tte_read (g_llt wi) (index wi) s;
                 let valid = s2tte_is_valid s2tte RTT_PAGE_LEVEL;
                 (ret, s) \<leftarrow>
                   (if \<not> valid \<and> \<not> s2tte_is_assigned s2tte RTT_PAGE_LEVEL then do {
                      ret \<leftarrow> rtt_error RTT_PAGE_LEVEL;
                      Some (ret, s)
                    } else do {
                      data_addr \<leftarrow> s2tte_pa s2tte RTT_PAGE_LEVEL;
                      let s2tte = (if valid then s2tte_create_destroyed
                                   else s2tte_create_unassigned RMI_EMPTY);
                      s \<leftarrow> s2tte_write (g_llt wi) (index wi) s2tte s;
                      let s = (if valid then invalidate_page s2_ctx map_addr s else s);
                      s \<leftarrow> granule_put (g_llt wi) s;
                      (r, s) \<leftarrow> find_lock_granule data_addr GRANULE_STATE_DATA s;
                      g_data \<leftarrow> r;
                      s \<leftarrow> granule_memzero g_data SLOT_DELEGATED s;
                      s \<leftarrow> granule_unlock_transition g_data GRANULE_STATE_DELEGATED s;
                      Some (RMI_SUCCESS, s)
                    });
                 let s = buffer_unmap SLOT_RTT s;
                 Some (ret, s)
               });
            s \<leftarrow> granule_unlock (g_llt wi) s;
            Some (ret, s)
          }
        })
   }"

end
