(* ===== verification/Data_Correct.thy ===== *)
theory Data_Correct
  imports Rtt_Correct Data_Cmds
begin

text \<open>Data.Destroy: the page is scrubbed and handed back, its entry becomes a leaf.\<close>

section \<open>Shape\<close>

definition page_check :: "u64 \<Rightarrow> rd \<Rightarrow> u64 option" where
  "page_check map_addr rd =
     (if \<not> validate_map_addr map_addr RTT_PAGE_LEVEL rd then Some RMI_ERROR_INPUT else None)"

definition data_destroy_act ::
  "u64 \<Rightarrow> rd \<Rightarrow> rtt_walk \<Rightarrow> u64 \<Rightarrow> rmm \<Rightarrow> (u64 \<times> rmm) option" where
  "data_destroy_act map_addr rd wi s2tte s =
     (if \<not> s2tte_is_valid s2tte RTT_PAGE_LEVEL \<and> \<not> s2tte_is_assigned s2tte RTT_PAGE_LEVEL then do {
        ret \<leftarrow> rtt_error RTT_PAGE_LEVEL;
        Some (ret, s)
      } else do {
        data_addr \<leftarrow> s2tte_pa s2tte RTT_PAGE_LEVEL;
        s \<leftarrow> s2tte_write (g_llt wi) (index wi)
               (if s2tte_is_valid s2tte RTT_PAGE_LEVEL then s2tte_create_destroyed
                else s2tte_create_unassigned RMI_EMPTY) s;
        s \<leftarrow> granule_put (g_llt wi)
               (if s2tte_is_valid s2tte RTT_PAGE_LEVEL
                then invalidate_page (rd_s2_ctx rd) map_addr s else s);
        (r, s) \<leftarrow> find_lock_granule data_addr GRANULE_STATE_DATA s;
        g_data \<leftarrow> r;
        s \<leftarrow> granule_memzero g_data SLOT_DELEGATED s;
        s \<leftarrow> granule_unlock_transition g_data GRANULE_STATE_DELEGATED s;
        Some (RMI_SUCCESS, s)
      })"

lemma smc_data_destroy_shape:
  "smc_data_destroy rd_addr map_addr s =
     entry_command rd_addr (page_check map_addr) map_addr RTT_PAGE_LEVEL
       (data_destroy_act map_addr) s"
  unfolding smc_data_destroy_def entry_command_def rtt_command_def rd_walk_def entry_body_def
    data_destroy_act_def page_check_def Let_def
  by (intro Option.bind_cong refl)
     (auto simp del: Option.bind_eq_None_conv intro!: Option.bind_cong
       split: option.split prod.split)

lemma page_check_sound: "check_sound (page_check map_addr) map_addr RTT_PAGE_LEVEL"
  by (auto simp: check_sound_def page_check_def validate_map_addr_def s2_ctx_ok_def
      s2tte_values realm_rtt_starting_level_def split: if_splits)

section \<open>The action\<close>

lemma data_destroy_act_success:
  assumes inv: "inv_with lv par s" and w: "walk_result lv s ctx addr 3 wi"
    and l: "last_level wi = 3" and t: "table_of (content s (g_llt wi)) = Some t"
    and ws: "working s (\<lambda>x. x = g_llt wi) ((\<lambda>k. None)(SLOT_RTT := Some (g_llt wi))) s2"
    and e: "s2tte_is_valid (t ! unat (index wi)) 3 \<or> s2tte_is_assigned (t ! unat (index wi)) 3"
    and e': "e' = (if s2tte_is_valid (t ! unat (index wi)) 3 then s2tte_create_destroyed
                   else s2tte_create_unassigned RMI_EMPTY)"
  shows "\<exists>s3 d. data_destroy_act map_addr rd wi (t ! unat (index wi)) s2 = Some (RMI_SUCCESS, s3)
    \<and> find_granule (addr_level_mask (t ! unat (index wi)) 3) = Some d
    \<and> gst s d = GRANULE_STATE_DATA \<and> d \<noteq> g_llt wi
    \<and> par d = TteOwner (g_llt wi) (unat (index wi))
    \<and> child_reclaimed s (g_llt wi) (unat (index wi)) t d e' s3
    \<and> glock s3 = glock s2 \<and> slots s3 = slots s2
    \<and> trace s3 = trace s2 @ [EvTteWrite (g_llt wi) (unat (index wi)) e']
        @ (if s2tte_is_valid (t ! unat (index wi)) 3
           then [EvTlbiIpa (s2_vmid (rd_s2_ctx rd)) (drop_bit 12 map_addr),
                 EvTlbiVmall (s2_vmid (rd_s2_ctx rd))] else [])
        @ [EvLock d GRANULE_STATE_DATA, EvScrub d, EvUnlock d]"
proof -
  note f = entry_facts [OF inv w l t]
  let ?e = "t ! unat (index wi)"
  obtain a where a: "addr_level_mask ?e 3 = a" by blast
  from entry_ok_page [OF f(9,3)] e obtain d where
    d: "find_granule a = Some d" "gst s d = GRANULE_STATE_DATA"
      "par d = TteOwner (g_llt wi) (unat (index wi))" "d < RMM_MAX_GRANULES" unfolding a by blast
  have ne: "d \<noteq> g_llt wi" using d(2) f(2) by auto
  have rc: "grc s d = 0" using inv_with_unlocked [OF inv d(4)] d(2) by (simp add: unlocked_ok_def)
  have wk: "granules s2 = granules s" "content s2 = content s" "vmids s2 = vmids s"
    "glock s2 = (\<lambda>x. x = g_llt wi)" "slots s2 = (\<lambda>k. None)(SLOT_RTT := Some (g_llt wi))"
    using ws by (simp_all add: working_def)
  have ref: "s2tte_refs ?e" using e by auto
  have nr: "\<not> s2tte_refs e'" using e' by (simp add: leaf_entry_refs)
  have pos: "0 < grc s (g_llt wi)" using ref_count_pos [OF f(8,4) ref] f(7) by simp
  then have pos0: "grc s (g_llt wi) \<noteq> 0" by simp
  have pa: "s2tte_pa ?e 3 = Some a"
    using e a by (auto simp: s2tte_pa_def s2tte_iffs)
  have fl: "find_lock_granule a GRANULE_STATE_DATA s'
    = Some (Some d, lock_g d GRANULE_STATE_DATA s')"
    if "\<And>x. x \<noteq> g_llt wi \<Longrightarrow> granules s' x = granules s x" "glock s' = (\<lambda>x. x = g_llt wi)" for s'
    using d ne rc that by (subst find_lock_granule_eq) (auto simp: unlocked_ok_def)
  note exec = fl pa granule_memzero_eq granule_put_eq s2tte_write_eq granule_unlock_eq
    granule_unlock_transition_def unlocked_ok_def child_reclaimed_def s2tte_values wk
  show ?thesis
    unfolding data_destroy_act_def a
    using e e' rc ref nr pos pos0 f(1,4,8) d ne t
    by (cases "s2tte_is_valid ?e 3") (simp_all add: exec fun_eq_iff)
qed

lemma data_destroy_act_safe:
  assumes inv: "inv_with lv par s" and w: "walk_result lv s ctx addr RTT_PAGE_LEVEL wi"
    and l: "last_level wi = RTT_PAGE_LEVEL" and t: "table_of (content s (g_llt wi)) = Some t"
    and ws: "working s (\<lambda>x. x = g_llt wi) ((\<lambda>k. None)(SLOT_RTT := Some (g_llt wi))) s2"
  shows "case data_destroy_act map_addr rd wi (t ! unat (index wi)) s2 of
      None \<Rightarrow> False
    | Some (ret, s3) \<Rightarrow> inv s3 \<and> glock s3 = (\<lambda>x. x = g_llt wi)
        \<and> slots s3 = (\<lambda>k. None)(SLOT_RTT := Some (g_llt wi))"
proof -
  have w3: "walk_result lv s ctx addr 3 wi" and l3: "last_level wi = 3"
    using w l by (simp_all add: s2tte_values)
  note f = entry_facts [OF inv w3 l3 t]
  have i2: "inv s2" using inv working_inv [OF ws] by (auto simp: inv_def)
  let ?e = "t ! unat (index wi)"
  show ?thesis
  proof (cases "s2tte_is_valid ?e 3 \<or> s2tte_is_assigned ?e 3")
    case False
    obtain ret where "rtt_error 3 = Some ret" using rtt_error_Some [of 3] by auto
    with False i2 ws show ?thesis by (simp add: data_destroy_act_def s2tte_values working_def)
  next
    case True
    from data_destroy_act_success [where map_addr = map_addr and rd = rd,
        OF inv w3 l3 t ws True refl] obtain s3 d where
      d: "data_destroy_act map_addr rd wi ?e s2 = Some (RMI_SUCCESS, s3)"
        "gst s d = GRANULE_STATE_DATA" "d \<noteq> g_llt wi"
        "par d = TteOwner (g_llt wi) (unat (index wi))"
        "child_reclaimed s (g_llt wi) (unat (index wi)) t d
           (if s2tte_is_valid ?e 3 then s2tte_create_destroyed
            else s2tte_create_unassigned RMI_EMPTY) s3"
        "glock s3 = glock s2" "slots s3 = slots s2" by blast
    have "inv_with lv par s3"
      by (rule child_reclaimed_inv [OF inv f(1,2) t f(4) _ d(3,4,5)]) (simp_all add: d(2))
    then show ?thesis using d ws by (auto simp: inv_def working_def)
  qed
qed

lemma smc_data_destroy_safe:
  assumes "inv s" and q: "quiet s"
  shows "case smc_data_destroy rd_addr map_addr s of
      None \<Rightarrow> False | Some (ret, s') \<Rightarrow> inv s' \<and> quiet s'"
proof -
  from assms obtain lv par where inv: "inv_with lv par s" by (auto simp: inv_def)
  show ?thesis
    unfolding smc_data_destroy_shape
    by (rule entry_command_safe [OF inv q page_check_sound])
       (rule data_destroy_act_safe [OF inv])
qed

text \<open>
  Data.Create and Data.CreateUnknown: a delegated granule becomes a data granule that one
  entry refers to.
\<close>

section \<open>Measuring keeps the stage 2 configuration\<close>

lemma data_granule_measure_simps [simp]:
  "rd_s2_ctx (data_granule_measure hash rd data ipa flags) = rd_s2_ctx rd"
  "rd_state (data_granule_measure hash rd data ipa flags) = rd_state rd"
  "length (rd_measurement (data_granule_measure hash rd data ipa flags))
     = length (rd_measurement rd)"
  by (simp_all add: data_granule_measure_def set_rim_def Let_def)

section \<open>What the command leaves\<close>

text \<open>
  \<open>rd'\<close> is the measured descriptor, \<open>d\<close> the contents of the data granule \<open>c\<close>, \<open>e\<close> the
  new entry.
\<close>

definition data_added ::
  "rmm \<Rightarrow> nat \<Rightarrow> rd \<Rightarrow> nat \<Rightarrow> nat \<Rightarrow> u64 list \<Rightarrow> nat \<Rightarrow> content \<Rightarrow> u64 \<Rightarrow> rmm \<Rightarrow> bool" where
  "data_added s g_rd rd' g i t c d e s' \<longleftrightarrow>
     granules s' = (granules s)(g := (granules s g)\<lparr>g_refcount := grc s g + 1\<rparr>,
                                c := \<lparr>g_state = GRANULE_STATE_DATA, g_refcount = 0\<rparr>)
   \<and> content s' = (content s)(g_rd := CRd rd', g := CTable (t[i := e]), c := d)
   \<and> vmids s' = vmids s"

definition data_result :: "hash_fun \<Rightarrow> (nat \<times> u8 list option) option \<Rightarrow> u64 \<Rightarrow> u64 \<Rightarrow> rd \<Rightarrow> (content \<times> rd) option" where
  "data_result hash src map_addr flags rd =
     (case src of
        None \<Rightarrow> Some (CZero, rd)
      | Some (g_src, None) \<Rightarrow> None
      | Some (g_src, Some data) \<Rightarrow>
          Some (CData data, data_granule_measure hash rd data map_addr (measure_flag flags)))"

lemma data_added_inv:
  assumes inv: "inv_with lv par s" and w: "walk_result lv s ctx addr 3 wi"
    and l: "last_level wi = 3" and t: "table_of (content s (g_llt wi)) = Some t"
    and rd: "gst s g_rd = GRANULE_STATE_RD" "content s g_rd = CRd rd"
    and rd': "rd_s2_ctx rd' = rd_s2_ctx rd" "length (rd_measurement rd') = length (rd_measurement rd)"
    and c: "find_granule a = Some c" "gst s c = GRANULE_STATE_DELEGATED"
    and d: "d = CZero \<or> (\<exists>x. d = CData x)"
    and e: "addr_level_mask e 3 = a" "s2tte_refs e" "s2tte_is_assigned e 3 \<or> s2tte_is_valid e 3"
    and old: "\<not> s2tte_refs (t ! unat (index wi))"
    and da: "data_added s g_rd rd' (g_llt wi) (unat (index wi)) t c d e s'"
  shows "inv s'"
proof -
  note f = entry_facts [OF inv w l t]
  let ?g = "g_llt wi" and ?i = "unat (index wi)"
  let ?m = "s\<lparr>content := (content s)(g_rd := CRd rd')\<rparr>"
  have ne: "?g \<noteq> g_rd" "c \<noteq> ?g" "c \<noteq> g_rd" using f(2) rd(1) c(2) by auto
  have im: "inv_with lv par ?m"
    using inv rd rd' by (rule inv_rd_update) simp_all
  have "inv_with lv (par(c := TteOwner ?g ?i)) s'"
    using im
  proof (rule inv_entry_step)
    show "?g < RMM_MAX_GRANULES" "?i < 512" "c \<noteq> ?g" by (rule f ne)+
    show "gst ?m ?g = GRANULE_STATE_RTT" "table_of (content ?m ?g) = Some t"
      using f(2) t ne by simp_all
    show "gst ?m c \<notin> {GRANULE_STATE_RD, GRANULE_STATE_REC}"
      "gst s' c \<notin> {GRANULE_STATE_RD, GRANULE_STATE_REC}"
      using c(2) da by (simp_all add: data_added_def)
    show "granules s' = (granules ?m)(?g := (granules ?m ?g)
        \<lparr>g_refcount := grc ?m ?g - ref_word (t ! ?i) + ref_word e\<rparr>,
        c := \<lparr>g_state = GRANULE_STATE_DATA, g_refcount = 0\<rparr>)"
      using da e(2) old by (simp add: data_added_def)
    show "content s' = (content ?m)(?g := CTable (t[?i := e]), c := d)"
      using da by (simp add: data_added_def)
    show "(par(c := TteOwner ?g ?i)) x = par x \<and> x \<noteq> c" if "owned_state (gst ?m x)" for x
      using that c(2) by auto
    have "gst s' c = GRANULE_STATE_DATA" using da by (simp add: data_added_def)
    then have "owns_pages (par(c := TteOwner ?g ?i)) s' ?g ?i (addr_level_mask e 3) 1"
      using c(1) unfolding owns_pages_def e(1) by simp
    then show "entry_ok lv (par(c := TteOwner ?g ?i)) s' ?g ?i e"
      using f(3) e(3) by (simp add: entry_ok_def)
    show "granule_ok lv (par(c := TteOwner ?g ?i)) s' c"
      using da d by (simp add: data_added_def granule_ok_def unlocked_ok_def)
  qed simp
  then show ?thesis by (rule inv_defI)
qed

section \<open>The part with the table mapped\<close>

lemma data_map_entry_cases:
  assumes inv: "inv_with lv par s" and w: "walk_result lv s ctx addr 3 wi"
    and l: "last_level wi = 3" and t: "table_of (content s (g_llt wi)) = Some t"
    and rd: "gst s g_rd = GRANULE_STATE_RD" "content s g_rd = CRd rd"
    and c: "find_granule data_addr = Some c" "gst s c = GRANULE_STATE_DELEGATED"
    and src: "\<And>g m. src = Some (g, m) \<Longrightarrow> g < RMM_MAX_GRANULES"
    and s2: "granules s2 = granules s" "content s2 = content s" "vmids s2 = vmids s"
    and sl: "slots s2 SLOT_DELEGATED = None" "slots s2 SLOT_NS = None"
    and rl: "s2tte_read (g_llt wi) (index wi) s2 = Some (t ! unat (index wi))"
  obtains (error) ret bars s3 where
      "data_map_entry hash c g_rd data_addr map_addr src flags wi s2
         = Some ((ret, GRANULE_STATE_DELEGATED, False, bars), s3)"
      "ret \<noteq> RMI_SUCCESS" "same_state s2 s3"
    | (success) bars d rd' e s3 where
      "data_map_entry hash c g_rd data_addr map_addr src flags wi s2
         = Some ((RMI_SUCCESS, GRANULE_STATE_DATA, src \<noteq> None, bars), s3)"
      "s2tte_is_unassigned (t ! unat (index wi))"
      "data_result hash src map_addr flags rd = Some (d, rd')"
      "addr_level_mask e 3 = data_addr" "s2tte_refs e"
      "if s2tte_get_ripas (t ! unat (index wi)) = Some RMI_EMPTY then s2tte_is_assigned e 3
       else s2tte_is_valid e 3"
      "granules s3 = (granules s)(g_llt wi := (granules s (g_llt wi))
                                   \<lparr>g_refcount := grc s (g_llt wi) + 1\<rparr>)"
      "content s3 = (content s)(g_rd := CRd rd', g_llt wi := CTable (t[unat (index wi) := e]), c := d)"
      "vmids s3 = vmids s" "glock s3 = glock s2" "slots s3 = slots s2"
proof -
  note f = entry_facts [OF inv w l t]
  let ?e = "t ! unat (index wi)"
  have ne: "g_llt wi \<noteq> g_rd" "c \<noteq> g_llt wi" "c \<noteq> g_rd" using f(2) rd(1) c(2) by auto
  have b: "c < RMM_MAX_GRANULES" using c(1) by (rule find_granule_bound)
  have z: "content s c = CZero" using inv_with_delegated [OF inv b c(2)] .
  show ?thesis
  proof (cases "s2tte_is_unassigned ?e")
    case False
    obtain ret where "rtt_error 3 = Some ret" "ret \<noteq> RMI_SUCCESS"
      using rtt_error_Some [of 3] by (auto simp: RMI_SUCCESS_def)
    with False show ?thesis
      using error [of ret zero_bars s2] by (simp add: data_map_entry_def rl s2tte_values)
  next
    case True
    from unassigned_ripas [OF this] obtain r where r: "s2tte_get_ripas ?e = Some r" by blast
    obtain e where e: "(if r = RMI_EMPTY then s2tte_create_assigned_empty data_addr 3
        else s2tte_create_valid data_addr 3) = Some e" "addr_level_mask e 3 = data_addr"
        "s2tte_refs e" "if r = RMI_EMPTY then s2tte_is_assigned e 3 else s2tte_is_valid e 3"
      using data_entry_created [OF c(1)] by blast
    have ri: "(if s2tte_get_ripas ?e = Some RMI_EMPTY then s2tte_is_assigned e 3
        else s2tte_is_valid e 3)" using r e(4) by simp
    have wr: "s2tte_write (g_llt wi) (index wi) e s'
      = Some (emit (EvTteWrite (g_llt wi) (unat (index wi)) e)
          (set_content (g_llt wi) (CTable (t[unat (index wi) := e])) s'))"
      if "content s' (g_llt wi) = content s (g_llt wi)" for s'
      using that t f(4,8) by (intro s2tte_write_eq) simp_all
    show ?thesis
    proof (cases src)
      case None
      let ?s3 = "granule_get (g_llt wi) (emit (EvTteWrite (g_llt wi) (unat (index wi)) e)
          (set_content (g_llt wi) (CTable (t[unat (index wi) := e])) s2))"
      have "data_map_entry hash c g_rd data_addr map_addr src flags wi s2
        = Some ((RMI_SUCCESS, GRANULE_STATE_DATA, src \<noteq> None, zero_bars), ?s3)"
        using True None e(1)
          by (cases "r = RMI_EMPTY") (simp_all add: data_map_entry_def rl r wr s2 s2tte_values)
      moreover have "content ?s3 = (content s)(g_rd := CRd rd,
          g_llt wi := CTable (t[unat (index wi) := e]), c := CZero)"
        using rd(2) z ne by (auto simp: s2 granule_get_def fun_eq_iff)
      ultimately show ?thesis
        using success [of zero_bars ?s3 CZero rd e] True e(2,3) ri None
        by (simp add: data_result_def s2 granule_get_def)
    next
      case (Some p)
      obtain g m where p: "p = (g, m)" by fastforce
      have gm: "granule_map c SLOT_DELEGATED s2 = Some (map_slot SLOT_DELEGATED c s2)"
        using b sl by (simp add: granule_map_eq)
      have nr: "ns_buffer_read SLOT_NS g 0 4096 m (map_slot SLOT_DELEGATED c s2)
        = Some (m, map_slot SLOT_DELEGATED c s2)"
        using src Some p sl by (intro ns_buffer_read_eq) simp_all
      show ?thesis
      proof (cases m)
        case None
        let ?s3 = "buffer_unmap SLOT_DELEGATED (set_content c CZero (map_slot SLOT_DELEGATED c s2))"
        have "data_map_entry hash c g_rd data_addr map_addr src flags wi s2
          = Some ((RMI_ERROR_INPUT, GRANULE_STATE_DELEGATED, False, zero_bars), ?s3)"
          using True Some p None nr
          by (simp add: data_map_entry_def rl r gm data_fill_def)
        moreover have "same_state s2 ?s3"
          using z sl by (auto simp: same_state_def s2 fun_eq_iff)
        ultimately show ?thesis
          using error [of RMI_ERROR_INPUT zero_bars ?s3] by (simp add: word_consts)
      next
        case (Some data)
        let ?rd = "data_granule_measure hash rd data map_addr (measure_flag flags)"
        let ?bars = "if dev_attach_flag flags \<noteq> 0
          then (read_bar_sizes data, read_ipa_pa data) else zero_bars"
        let ?s' = "buffer_unmap SLOT_DELEGATED (set_content g_rd (CRd ?rd)
          (set_content c (CData data) (map_slot SLOT_DELEGATED c s2)))"
        let ?s3 = "granule_get (g_llt wi) (emit (EvTteWrite (g_llt wi) (unat (index wi)) e)
          (set_content (g_llt wi) (CTable (t[unat (index wi) := e])) ?s'))"
        have fill: "data_fill hash c g_rd map_addr (g, m) flags s2 = Some ((True, ?bars), ?s')"
          using Some nr rd(2) ne by (simp add: data_fill_def gm s2 Let_def)
        have "content ?s' (g_llt wi) = content s (g_llt wi)" using ne by (simp add: s2)
        then have "data_map_entry hash c g_rd data_addr map_addr src flags wi s2
          = Some ((RMI_SUCCESS, GRANULE_STATE_DATA, src \<noteq> None, ?bars), ?s3)"
          using True \<open>src = Some p\<close> p fill e(1)
          by (cases "r = RMI_EMPTY") (simp_all add: data_map_entry_def rl r wr s2tte_values)
        moreover have "content ?s3 = (content s)(g_rd := CRd ?rd,
            g_llt wi := CTable (t[unat (index wi) := e]), c := CData data)"
          using ne by (auto simp: s2 granule_get_def fun_eq_iff)
        moreover have "slots ?s3 = slots s2" using sl by (auto simp: granule_get_def fun_eq_iff)
        ultimately show ?thesis
          using success [of ?bars ?s3 "CData data" ?rd e] True e(2,3) ri \<open>src = Some p\<close> p Some
          by (simp add: data_result_def s2 granule_get_def)
      qed
    qed
  qed
qed

section \<open>The command\<close>

definition create_check :: "(nat \<times> u8 list option) option \<Rightarrow> u64 \<Rightarrow> rd \<Rightarrow> u64" where
  "create_check src map_addr rd =
     (if src \<noteq> None then validate_data_create map_addr rd
      else validate_data_create_unknown map_addr rd)"

lemma create_check_sound:
  assumes "create_check src map_addr rd = RMI_SUCCESS"
  shows "map_addr < realm_ipa_size rd"
  using assms
  by (auto simp: create_check_def validate_data_create_def validate_data_create_unknown_def
      validate_map_addr_def word_consts split: if_splits)

lemma granule_unlock_transition_eq:
  "unlocked_ok (granule_set_state g st s) g \<Longrightarrow>
   granule_unlock_transition g st s = Some (spinlock_release g (granule_set_state g st s))"
  by (simp add: granule_unlock_transition_def granule_unlock_eq)

lemma quiet_two_locked:
  "quiet s \<Longrightarrow> glock (two_locked a1 st1 g1 a2 st2 g2 s) = (\<lambda>x. x = g1 \<or> x = g2)"
  by (auto simp: quiet_def fun_eq_iff)

lemma inv_start_level:
  assumes "inv_with lv par s" "g < RMM_MAX_GRANULES" "gst s g = GRANULE_STATE_RD" "content s g = CRd rd"
  shows "0 \<le> realm_rtt_starting_level rd" "realm_rtt_starting_level rd \<le> 3"
  using inv_with_rd [OF assms(1-3)] assms(4)
  by (simp_all add: rd_ok_def s2_ctx_ok_def realm_rtt_starting_level_def)

lemma data_create_page_cases:
  assumes inv: "inv_with lv par s" and q: "quiet s"
    and src0: "\<forall>g m. src = Some (g, m) \<longrightarrow> g < RMM_MAX_GRANULES"
  obtains (error) ret s' where
      "data_create_page hash data_addr rd_addr map_addr src flags s = Some ((ret, None), s')"
      "ret \<noteq> RMI_SUCCESS" "same_state s s'"
    | (success) g_rd rd wi t c d rd' e s' bars where
      "data_create_page hash data_addr rd_addr map_addr src flags s
         = Some ((RMI_SUCCESS, if src \<noteq> None then Some (c, g_rd, bars) else None), s')"
      "find_granule rd_addr = Some g_rd" "gst s g_rd = GRANULE_STATE_RD" "content s g_rd = CRd rd"
      "create_check src map_addr rd = RMI_SUCCESS"
      "find_granule data_addr = Some c" "gst s c = GRANULE_STATE_DELEGATED"
      "walk_result lv s (rd_s2_ctx rd) map_addr 3 wi" "last_level wi = 3"
      "table_of (content s (g_llt wi)) = Some t" "s2tte_is_unassigned (t ! unat (index wi))"
      "data_result hash src map_addr flags rd = Some (d, rd')"
      "addr_level_mask e 3 = data_addr" "s2tte_refs e"
      "if s2tte_get_ripas (t ! unat (index wi)) = Some RMI_EMPTY then s2tte_is_assigned e 3
       else s2tte_is_valid e 3"
      "data_added s g_rd rd' (g_llt wi) (unat (index wi)) t c d e s'" "quiet s'"
proof -
  have src: "\<And>g m. src = Some (g, m) \<Longrightarrow> g < RMM_MAX_GRANULES" using src0 by blast
  have un: "\<And>g. g < RMM_MAX_GRANULES \<Longrightarrow> \<not> glock s g \<and> unlocked_ok s g"
    using q inv_with_unlocked [OF inv] by (simp add: quiet_def)
  show ?thesis
  proof (rule find_lock_two_granules_cases [OF un, of data_addr GRANULE_STATE_DELEGATED
        rd_addr GRANULE_STATE_RD])
    fix s'
    assume none: "find_lock_two_granules data_addr GRANULE_STATE_DELEGATED rd_addr
        GRANULE_STATE_RD s = Some (None, s')" "same_state s s'"
    then show ?thesis using error [of RMI_ERROR_INPUT s']
      by (simp add: data_create_page_def word_consts)
  next
    fix c g_rd
    let ?s0 = "two_locked data_addr GRANULE_STATE_DELEGATED c rd_addr GRANULE_STATE_RD g_rd s"
    assume both: "find_lock_two_granules data_addr GRANULE_STATE_DELEGATED rd_addr
        GRANULE_STATE_RD s = Some (Some (c, g_rd), ?s0)"
      "find_granule data_addr = Some c" "find_granule rd_addr = Some g_rd" "c \<noteq> g_rd"
      "gst s c = GRANULE_STATE_DELEGATED" "gst s g_rd = GRANULE_STATE_RD"
    have b: "c < RMM_MAX_GRANULES" "g_rd < RMM_MAX_GRANULES"
      using both(2,3) find_granule_bound by blast+
    from inv_with_rd [OF inv b(2) both(6)] obtain rd where rd: "content s g_rd = CRd rd"
      by (auto simp: rd_ok_def)
    let ?s1 = "map_slot SLOT_RD g_rd ?s0"
    have m1: "granule_map g_rd SLOT_RD ?s0 = Some ?s1"
      using b q by (simp add: granule_map_eq quiet_def)
    have s1: "granules ?s1 = granules s" "content ?s1 = content s" "vmids ?s1 = vmids s"
      "glock ?s1 = (\<lambda>x. x = c \<or> x = g_rd)" "slots ?s1 = (\<lambda>k. None)(SLOT_RD := Some g_rd)"
      using q by (auto simp: quiet_def fun_eq_iff)
    \<comment> \<open>the end of the command, after which only the state of the data granule is open\<close>
    define fin where "fin st t = spinlock_release c (granule_set_state c st
      (spinlock_release g_rd (buffer_unmap SLOT_RD t)))" for st t
    have fin: "granule_unlock g_rd (buffer_unmap SLOT_RD t)
        = Some (spinlock_release g_rd (buffer_unmap SLOT_RD t))"
      "granule_unlock_transition c st (spinlock_release g_rd (buffer_unmap SLOT_RD t)) = Some (fin st t)"
      if "granules t g_rd = granules s g_rd" "granules t c = granules s c"
        "st = GRANULE_STATE_DELEGATED \<or> st = GRANULE_STATE_DATA" for st t
    proof -
      have "unlocked_ok s c" using inv_with_unlocked [OF inv b(1)] .
      then show "granule_unlock g_rd (buffer_unmap SLOT_RD t)
          = Some (spinlock_release g_rd (buffer_unmap SLOT_RD t))"
        "granule_unlock_transition c st (spinlock_release g_rd (buffer_unmap SLOT_RD t)) = Some (fin st t)"
        using that both(4,5,6)
        by (auto simp: fin_def granule_unlock_eq granule_unlock_transition_eq unlocked_ok_def)
    qed
    have gc: "granules s c = \<lparr>g_state = GRANULE_STATE_DELEGATED, g_refcount = 0\<rparr>"
      using inv_with_unlocked [OF inv b(1)] both(5) by (simp add: unlocked_ok_def)
    have undone: "same_state s (fin GRANULE_STATE_DELEGATED t)"
      if "granules t = granules s" "content t = content s" "vmids t = vmids s"
        "\<And>x. x \<noteq> c \<Longrightarrow> x \<noteq> g_rd \<Longrightarrow> \<not> glock t x" "\<And>k. k \<noteq> SLOT_RD \<Longrightarrow> slots t k = None" for t
    proof -
      show ?thesis
        using that q gc by (auto simp: fin_def same_state_def quiet_def fun_eq_iff)
    qed
    show ?thesis
    proof (cases "create_check src map_addr rd = RMI_SUCCESS")
      case False
      have "data_create_page hash data_addr rd_addr map_addr src flags s
        = Some ((create_check src map_addr rd, None), fin GRANULE_STATE_DELEGATED ?s1)"
        using False both(1) m1 rd fin [of ?s1 GRANULE_STATE_DELEGATED]
        by (simp add: data_create_page_def create_check_def s1)
      moreover have "same_state s (fin GRANULE_STATE_DELEGATED ?s1)"
        using s1 by (intro undone) auto
      ultimately show ?thesis using False error by blast
    next
      case True
      have i1: "inv_with lv par ?s1" using inv s1(1,2) by (rule inv_with_same)
      have rd1: "gst ?s1 g_rd = GRANULE_STATE_RD" "content ?s1 g_rd = CRd rd"
        using both(6) rd by simp_all
      have L: "\<And>x. glock ?s1 x \<Longrightarrow> gst ?s1 x \<noteq> GRANULE_STATE_RTT"
        unfolding s1(4) using both(5,6) by auto
      have l3: "slots ?s1 SLOT_RTT = None" "realm_rtt_starting_level rd \<le> 3" "(3::int) \<le> 3"
        using s1 inv_start_level [OF inv b(2) both(6) rd] by simp_all
      from locked_walk_spec [OF i1 b(2) rd1 L l3(1) create_check_sound [OF True] l3(2,3)]
      obtain s0' wi s2 where wk:
        "granule_lock (s2_g_rtt (rd_s2_ctx rd)) GRANULE_STATE_RTT ?s1 = Some s0'"
        "rtt_walk_lock_unlock (s2_g_rtt (rd_s2_ctx rd)) (realm_rtt_starting_level rd)
           (realm_ipa_bits rd) map_addr 3 s0' = Some (wi, s2)"
        "walk_result lv ?s1 (rd_s2_ctx rd) map_addr 3 wi"
        "relocked ?s1 ((glock ?s1)(g_llt wi := True)) s2" by blast
      have w: "walk_result lv s (rd_s2_ctx rd) map_addr 3 wi"
        using wk(3) by (simp add: walk_result_def at_table_def)
      have s2: "granules s2 = granules s" "content s2 = content s" "vmids s2 = vmids s"
        "glock s2 = (\<lambda>x. x = c \<or> x = g_rd \<or> x = g_llt wi)"
        "slots s2 = (\<lambda>k. None)(SLOT_RD := Some g_rd)"
        using wk(4) s1 by (auto simp: relocked_def fun_eq_iff)
      have ne: "g_llt wi \<noteq> c" "g_llt wi \<noteq> g_rd"
        using w both(5,6) by (auto simp: walk_result_def at_table_def)
      note start = both(1) m1 rd True wk(1,2)
      show ?thesis
      proof (cases "last_level wi = 3")
        case False
        obtain ret where ret: "rtt_error (last_level wi) = Some ret" "ret \<noteq> RMI_SUCCESS"
          using walk_error [OF inv w] by blast
        have "data_create_page hash data_addr rd_addr map_addr src flags s
          = Some ((ret, None), fin GRANULE_STATE_DELEGATED (spinlock_release (g_llt wi) s2))"
          using start False ret walk_unlock [OF inv w s2(1)]
            fin [of "spinlock_release (g_llt wi) s2" GRANULE_STATE_DELEGATED]
          by (simp add: data_create_page_def create_check_def s1 s2tte_values s2)
        moreover have "same_state s (fin GRANULE_STATE_DELEGATED (spinlock_release (g_llt wi) s2))"
          using s2 by (intro undone) auto
        ultimately show ?thesis using ret error by blast
      next
        case l: True
        have sl: "slots s2 SLOT_RTT = None" using s2 by simp
        from walk_read [OF inv w s2(1,2) sl] obtain t where
          t: "table_of (content s (g_llt wi)) = Some t"
          "granule_map (g_llt wi) SLOT_RTT s2 = Some (map_slot SLOT_RTT (g_llt wi) s2)"
          "s2tte_read (g_llt wi) (index wi) (map_slot SLOT_RTT (g_llt wi) s2)
             = Some (t ! unat (index wi))" by blast
        let ?s3 = "map_slot SLOT_RTT (g_llt wi) s2"
        have s3: "granules ?s3 = granules s" "content ?s3 = content s" "vmids ?s3 = vmids s"
          "slots ?s3 SLOT_DELEGATED = None" "slots ?s3 SLOT_NS = None"
          using s2 by simp_all
        show ?thesis
        proof (rule data_map_entry_cases [OF inv w l t(1) both(6) rd both(2,5) _ s3 t(3)])
          show "g < RMM_MAX_GRANULES" if "src = Some (g, m)" for g m using src that .
        next
          fix ret bars s4
          assume d: "data_map_entry hash c g_rd data_addr map_addr src flags wi ?s3
              = Some ((ret, GRANULE_STATE_DELEGATED, False, bars), s4)" "ret \<noteq> RMI_SUCCESS"
            "same_state ?s3 s4"
          let ?s5 = "spinlock_release (g_llt wi) (buffer_unmap SLOT_RTT s4)"
          have s4: "granules s4 = granules s" "content s4 = content s" "vmids s4 = vmids s"
            "glock s4 = glock s2" "slots s4 = slots ?s3"
            using d(3) s2 by (simp_all add: same_state_def)
          have "data_create_page hash data_addr rd_addr map_addr src flags s
            = Some ((ret, None), fin GRANULE_STATE_DELEGATED ?s5)"
            using start l d(1) t(2) walk_unlock [OF inv w, of "buffer_unmap SLOT_RTT s4"]
              fin [of ?s5 GRANULE_STATE_DELEGATED]
            by (simp add: data_create_page_def create_check_def s1 s2tte_values s2 s4)
          moreover have "same_state s (fin GRANULE_STATE_DELEGATED ?s5)"
            using s2 s4 by (intro undone) auto
          ultimately show ?thesis using d(2) error by blast
        next
          fix bars d rd' e s4
          assume d: "data_map_entry hash c g_rd data_addr map_addr src flags wi ?s3
              = Some ((RMI_SUCCESS, GRANULE_STATE_DATA, src \<noteq> None, bars), s4)"
            "s2tte_is_unassigned (t ! unat (index wi))"
            "data_result hash src map_addr flags rd = Some (d, rd')"
            "addr_level_mask e 3 = data_addr" "s2tte_refs e"
            "if s2tte_get_ripas (t ! unat (index wi)) = Some RMI_EMPTY then s2tte_is_assigned e 3
             else s2tte_is_valid e 3"
            "granules s4 = (granules s)(g_llt wi := (granules s (g_llt wi))
                                         \<lparr>g_refcount := grc s (g_llt wi) + 1\<rparr>)"
            "content s4 = (content s)(g_rd := CRd rd',
               g_llt wi := CTable (t[unat (index wi) := e]), c := d)"
            "vmids s4 = vmids s" "glock s4 = glock ?s3" "slots s4 = slots ?s3"
          let ?s5 = "spinlock_release (g_llt wi) (buffer_unmap SLOT_RTT s4)"
          have "gst s4 (g_llt wi) = GRANULE_STATE_RTT"
            using w d(7) by (simp add: walk_result_def at_table_def)
          then have "granule_unlock (g_llt wi) (buffer_unmap SLOT_RTT s4) = Some ?s5"
            by (simp add: granule_unlock_eq unlocked_ok_def)
          then have "data_create_page hash data_addr rd_addr map_addr src flags s
            = Some ((RMI_SUCCESS, if src \<noteq> None then Some (c, g_rd, bars) else None), fin GRANULE_STATE_DATA ?s5)"
            using start l d(1,7) t(2) fin [of ?s5 GRANULE_STATE_DATA] ne
            by (simp add: data_create_page_def create_check_def s1 s2tte_values)
          moreover have "data_added s g_rd rd' (g_llt wi) (unat (index wi)) t c d e (fin GRANULE_STATE_DATA ?s5)"
            using d(7-9) ne gc by (auto simp: data_added_def fin_def granule_set_state_def fun_eq_iff)
          moreover have "quiet (fin GRANULE_STATE_DATA ?s5)"
            using d(10,11) s2 by (auto simp: quiet_def fin_def)
          ultimately show ?thesis
            using success [OF _ both(3,6) rd True both(2,5) w l t(1) d(2-6)] by blast
        qed
      qed
    qed
  qed
qed

text \<open>The invariant after the page has been mapped; the descriptor is in place for what follows.\<close>

lemma data_create_page_safe:
  assumes "inv s" and q: "quiet s" and src0: "\<forall>g m. src = Some (g, m) \<longrightarrow> g < RMM_MAX_GRANULES"
  obtains ret copied s' where "data_create_page hash data_addr rd_addr map_addr src flags s = Some ((ret, copied), s')"
    "inv s'" "quiet s'"
    "\<forall>g_data g_rd bars. copied = Some (g_data, g_rd, bars) \<longrightarrow> ret = RMI_SUCCESS \<and> gst s' g_rd = GRANULE_STATE_RD
       \<and> (\<exists>rd. content s' g_rd = CRd rd)"
proof -
  from assms obtain lv par where inv: "inv_with lv par s" by (auto simp: inv_def)
  show ?thesis
  proof (rule data_create_page_cases [where hash = hash and data_addr = data_addr
        and rd_addr = rd_addr and map_addr = map_addr and flags = flags, OF inv q src0])
    fix ret s'
    assume r: "data_create_page hash data_addr rd_addr map_addr src flags s = Some ((ret, None), s')"
      and "same_state s s'"
    then show ?thesis using that [OF r] assms(1) q inv_cong quiet_cong by auto
  next
    fix g_rd rd wi t c d rd' e s' bars
    assume a: "data_create_page hash data_addr rd_addr map_addr src flags s
        = Some ((RMI_SUCCESS, if src \<noteq> None then Some (c, g_rd, bars) else None), s')"
      "gst s g_rd = GRANULE_STATE_RD" "content s g_rd = CRd rd"
      "find_granule data_addr = Some c" "gst s c = GRANULE_STATE_DELEGATED"
      "walk_result lv s (rd_s2_ctx rd) map_addr 3 wi" "last_level wi = 3"
      "table_of (content s (g_llt wi)) = Some t" "s2tte_is_unassigned (t ! unat (index wi))"
      "data_result hash src map_addr flags rd = Some (d, rd')"
      "addr_level_mask e 3 = data_addr" "s2tte_refs e"
      "if s2tte_get_ripas (t ! unat (index wi)) = Some RMI_EMPTY then s2tte_is_assigned e 3
       else s2tte_is_valid e 3"
      "data_added s g_rd rd' (g_llt wi) (unat (index wi)) t c d e s'" "quiet s'"
    have r: "rd_s2_ctx rd' = rd_s2_ctx rd" "length (rd_measurement rd') = length (rd_measurement rd)"
      "d = CZero \<or> (\<exists>x. d = CData x)"
      using a(10) by (auto simp: data_result_def split: option.splits)
    have "s2tte_is_assigned e 3 \<or> s2tte_is_valid e 3" using a(13) by (simp split: if_splits)
    from data_added_inv [OF inv a(6,7,8,2,3) r(1,2) a(4,5) r(3) a(11,12) this _ a(14)] a(9)
    have i: "inv s'" by simp
    have ne: "g_llt wi \<noteq> g_rd" "c \<noteq> g_rd" using a(2,5,6) by (auto simp: walk_result_def at_table_def)
    show ?thesis
      by (rule that [OF a(1) i a(15)]) (use a(2,14) ne in \<open>auto simp: data_added_def split: if_splits\<close>)
  qed
qed

lemma data_create_unattached:
  "dev_attach_flag flags = 0 \<Longrightarrow> data_create mc hash data_addr rd_addr map_addr src flags s
     = map_option (\<lambda>((ret, _), s). (ret, s)) (data_create_page hash data_addr rd_addr map_addr src flags s)"
  by (auto simp: data_create_def split: option.splits prod.splits intro!: bind_option_cong
      simp: map_option_case Option.bind_eq_None_conv)

lemma data_create_safe:
  assumes "inv s" and "quiet s" and "\<forall>g m. src = Some (g, m) \<longrightarrow> g < RMM_MAX_GRANULES"
    and "dev_attach_flag flags = 0"
  shows "case data_create mc hash data_addr rd_addr map_addr src flags s of
      None \<Rightarrow> False | Some (ret, s') \<Rightarrow> inv s' \<and> quiet s'"
  by (rule data_create_page_safe [OF assms(1-3), where hash = hash and data_addr = data_addr
        and rd_addr = rd_addr and map_addr = map_addr and flags = flags])
    (simp add: data_create_unattached [OF assms(4)])

section \<open>Attaching a device\<close>

text \<open>The checks of a device move locks and slots only; not all of them are given back.\<close>

definition mem_kept :: "rmm \<Rightarrow> rmm \<Rightarrow> bool" where
  "mem_kept s s' \<longleftrightarrow> granules s' = granules s \<and> content s' = content s \<and> vmids s' = vmids s"

lemma mem_kept_refl [simp]: "mem_kept s s" by (simp add: mem_kept_def)

lemma mem_kept_trans [trans]: "mem_kept s t \<Longrightarrow> mem_kept t u \<Longrightarrow> mem_kept s u" by (simp add: mem_kept_def)

lemma mem_kept_unmap [simp]:
  "mem_kept s (buffer_unmap k t) = mem_kept s t" "mem_kept (buffer_unmap k s) t = mem_kept s t"
  by (simp_all add: mem_kept_def)

lemma lock_kept:
  "granule_lock g st s = Some s' \<Longrightarrow> mem_kept s s'" "granule_unlock g s = Some s' \<Longrightarrow> mem_kept s s'"
  "granule_map g k s = Some s' \<Longrightarrow> mem_kept s s'" "find_lock_granule a st s = Some (r, s') \<Longrightarrow> mem_kept s s'"
proof -
  have l: "granule_lock_on_state_match g st s = Some (b, s') \<Longrightarrow> mem_kept s s'" for g b
    by (auto simp: granule_lock_on_state_match_def spinlock_acquire_def mem_kept_def bind_assert_c
        Option.bind_eq_Some_conv split: if_splits)
  show "granule_lock g st s = Some s' \<Longrightarrow> mem_kept s s'" "granule_unlock g s = Some s' \<Longrightarrow> mem_kept s s'"
    by (auto simp: granule_lock_def granule_unlock_def mem_kept_def Option.bind_eq_Some_conv
        dest!: l [unfolded mem_kept_def])
  show "granule_map g k s = Some s' \<Longrightarrow> mem_kept s s'"
    by (auto simp: granule_map_def buffer_map_internal_def mem_kept_def Option.bind_eq_Some_conv)
  show "find_lock_granule a st s = Some (r, s') \<Longrightarrow> mem_kept s s'"
    by (auto simp: find_lock_granule_def Option.bind_eq_Some_conv dest!: l split: option.splits if_splits)
qed

lemma next_level_kept: "find_lock_next_level g a i s = Some (r, s') \<Longrightarrow> mem_kept s s'"
  by (auto simp: find_lock_next_level_def find_next_level_idx_def table_get_entry_def Let_def
      Option.bind_eq_Some_conv dest!: lock_kept split: option.splits if_splits; simp add: mem_kept_def)

lemma walk_loop_kept: "walk_loop g i l a s = Some (r, s') \<Longrightarrow> mem_kept s s'"
proof (induction g i l a s arbitrary: r s' rule: walk_loop.induct)
  case (1 g i l a s)
  show ?case
  proof (cases "i < l")
    case True
    with 1(2) obtain r1 s1 where n: "i + 1 < NR_RTT_LEVELS" "find_lock_next_level g a i s = Some (r1, s1)"
      by (auto simp: walk_loop.simps [of g] Option.bind_eq_Some_conv bind_assert_c split: if_splits)
    show ?thesis
    proof (cases r1)
      case None
      then show ?thesis using 1(2) True n next_level_kept [OF n(2)]
        by (simp add: walk_loop.simps [of g] bind_assert_c)
    next
      case (Some g')
      with 1(2) True n obtain s2 where u: "granule_unlock g s1 = Some s2" "walk_loop g' (i + 1) l a s2 = Some (r, s')"
        by (auto simp: walk_loop.simps [of g] Option.bind_eq_Some_conv bind_assert_c)
      have "mem_kept s2 s'" using 1(1) True n Some u by simp
      then show ?thesis using next_level_kept [OF n(2)] lock_kept(2) [OF u(1)] mem_kept_trans by blast
    qed
  next
    case False
    then show ?thesis using 1(2) by (simp add: walk_loop.simps [of g])
  qed
qed

lemma walk_lock_kept: "rtt_walk_lock_unlock g sl n a l s = Some (wi, s') \<Longrightarrow> mem_kept s s'"
  by (auto simp: rtt_walk_lock_unlock_def Let_def Option.bind_eq_Some_conv
      dest!: lock_kept walk_loop_kept intro: mem_kept_trans split: if_splits)

lemma walk_check_kept:
  "walk_check_loop g_rd g sl n checks s = Some (ret, s') \<Longrightarrow> mem_kept s s'"
proof (induction g_rd g sl n checks s arbitrary: s' rule: walk_check_loop.induct)
  case (2 g_rd g sl n a pa rest s)
  from 2(2) obtain s1 s2 wi s3 where
    w: "granule_lock g GRANULE_STATE_RTT s = Some s1" "granule_unlock g_rd s1 = Some s2"
      "rtt_walk_lock_unlock g sl n a RTT_PAGE_LEVEL s2 = Some (wi, s3)"
    by (auto simp: Option.bind_eq_Some_conv)
  have k: "mem_kept s s3" using lock_kept(1) [OF w(1)] lock_kept(2) [OF w(2)] walk_lock_kept [OF w(3)] mem_kept_trans by blast
  show ?case
  proof (cases "last_level wi = RTT_PAGE_LEVEL")
    case False
    then show ?thesis using 2(2) w k
      by (auto simp: Option.bind_eq_Some_conv dest!: lock_kept(2); simp add: mem_kept_def)
  next
    case True
    with 2(2) w obtain s4 e where
      m: "granule_map (g_llt wi) SLOT_RTT s3 = Some s4" "s2tte_read (g_llt wi) (index wi) s4 = Some e"
      by (auto simp: Option.bind_eq_Some_conv)
    have k4: "mem_kept s s4" using k lock_kept(3) [OF m(1)] mem_kept_trans by blast
    show ?thesis
    proof (cases "s2tte_is_valid e RTT_PAGE_LEVEL \<or> s2tte_is_assigned e RTT_PAGE_LEVEL")
      case False
      then show ?thesis using 2(2) w True m k4
        by (auto simp: Option.bind_eq_Some_conv)
    next
      case True
      then have v: "(\<not> s2tte_is_valid e RTT_PAGE_LEVEL \<and> \<not> s2tte_is_assigned e RTT_PAGE_LEVEL) = False" by simp
      note last = \<open>last_level wi = RTT_PAGE_LEVEL\<close>
      from v 2(2) w last m obtain pa' u where p: "s2tte_pa e RTT_PAGE_LEVEL = Some pa'"
        and u: "granule_unlock (g_llt wi) (buffer_unmap SLOT_RTT s4) = Some u"
        by (auto simp: Option.bind_eq_Some_conv Let_def)
      have ku: "mem_kept s u" using k4 lock_kept(2) [OF u] by (simp add: mem_kept_def)
      show ?thesis
      proof (cases "pa' = pa")
        case False
        then show ?thesis using 2(2) w last m p u ku by (simp add: Let_def v)
      next
        case eq: True
        have "walk_check_loop g_rd g sl n rest u = Some (ret, s')"
          using 2(2) w last m p u eq by (simp add: Let_def v)
        moreover have "walk_check_loop g_rd g sl n rest u = Some (ret, s') \<Longrightarrow> mem_kept u s'"
          using 2(1) w last m v p u eq by simp
        ultimately show ?thesis using ku mem_kept_trans by blast
      qed
    qed
  qed
qed simp

lemma collect_bar_kept:
  "collect_bar room sz ipa pa j checks s = Some (r, s') \<Longrightarrow> mem_kept s s'"
proof (induction room sz ipa pa j checks s arbitrary: r s' rule: collect_bar.induct)
  case (1 room sz ipa pa j checks s)
  show ?case
  proof (cases "j < sz")
    case False
    then show ?thesis using 1(2) by (simp add: collect_bar.simps [of room])
  next
    case True
    with 1(2) obtain r1 s1 where f: "find_lock_granule (pa + j) GRANULE_STATE_DATA s = Some (r1, s1)"
      by (auto simp: collect_bar.simps [of room] Option.bind_eq_Some_conv)
    note k = lock_kept(4) [OF f]
    show ?thesis
    proof (cases r1)
      case None
      then show ?thesis using 1(2) True f k by (simp add: collect_bar.simps [of room])
    next
      case (Some g)
      with 1(2) True f obtain n s2 where n: "room = Suc n" and u: "granule_unlock g s1 = Some s2"
        and l: "collect_bar n sz ipa pa (j + GRANULE_SIZE) (checks @ [(ipa + j, pa + j)]) s2 = Some (r, s')"
        by (auto simp: collect_bar.simps [of room] Option.bind_eq_Some_conv split: nat.splits)
      have "mem_kept s2 s'" using 1(1) True f Some n u l by simp
      then show ?thesis using k lock_kept(2) [OF u] mem_kept_trans by blast
    qed
  qed
qed

lemma collect_bars_kept:
  "collect_bars room bars checks s = Some (r, s') \<Longrightarrow> mem_kept s s'"
proof (induction room bars checks s arbitrary: r s' rule: collect_bars.induct)
  case (2 room sz ipa pa bars checks s)
  then show ?case
    by (auto simp: Option.bind_eq_Some_conv dest!: collect_bar_kept intro: mem_kept_trans split: option.splits)
qed simp

lemma check_dev_kept:
  "check_dev_addr_space rd_addr sizes ipas pas s = Some (r, s') \<Longrightarrow> mem_kept s s'"
  by (auto simp: check_dev_addr_space_def do_full_table_walk_check_def Let_def Option.bind_eq_Some_conv
      dest!: collect_bars_kept walk_check_kept lock_kept split: option.splits if_splits; simp add: mem_kept_def)

text \<open>What attaching leaves behind: at most a new measurement of the realm, and locks.\<close>

lemma data_attach_effect:
  assumes run: "data_attach_dev mc hash g_data g_rd data_addr rd_addr map_addr flags bars ret s = Some (r, s')"
    and rd: "content s g_rd = CRd rd"
  shows "granules s' = granules s" "vmids s' = vmids s" "r = ret \<or> r = RMI_ERROR_INPUT"
    "content s' = content s \<or> (\<exists>rd'. content s' = (content s)(g_rd := CRd rd') \<and> rd_s2_ctx rd' = rd_s2_ctx rd
       \<and> length (rd_measurement rd') = length (rd_measurement rd))"
proof -
  from run obtain chk s1 where c: "check_dev_addr_space rd_addr (fst bars) (fst (snd bars)) (snd (snd bars)) s = Some (chk, s1)"
    by (auto simp: data_attach_dev_def Option.bind_eq_Some_conv)
  have k: "granules s1 = granules s" "vmids s1 = vmids s" "content s1 = content s"
    using check_dev_kept [OF c] by (simp_all add: mem_kept_def)
  have "granules s' = granules s \<and> vmids s' = vmids s \<and> (r = ret \<or> r = RMI_ERROR_INPUT)
    \<and> (content s' = content s \<or> (\<exists>rd'. content s' = (content s)(g_rd := CRd rd') \<and> rd_s2_ctx rd' = rd_s2_ctx rd
       \<and> length (rd_measurement rd') = length (rd_measurement rd)))"
  proof (cases "chk = 0")
    case False
    then show ?thesis using run c k by (simp add: data_attach_dev_def)
  next
    case True
    with run c obtain d s2 s3 where
      m: "granule_map g_data SLOT_DELEGATED (emit (EvSmc SMC_ASC_ATTACH_DEV [data_addr, 0, 0, 0, 0, 0]) s1) = Some s2"
        "granule_map g_rd SLOT_RD s2 = Some s3" and r: "r = ret"
      and s': "s' = buffer_unmap SLOT_DELEGATED (buffer_unmap SLOT_RD (set_content g_rd
          (CRd (data_granule_measure hash rd d map_addr (measure_flag flags))) s3))"
      using rd k
      by (auto simp: data_attach_dev_def smc_attach_dev_def asc_attach_dev_def monitor_call_def Let_def
          granule_map_def buffer_map_internal_def Option.bind_eq_Some_conv split: content.splits)
    have "mem_kept (emit (EvSmc SMC_ASC_ATTACH_DEV [data_addr, 0, 0, 0, 0, 0]) s1) s3"
      using lock_kept(3) [OF m(1)] lock_kept(3) [OF m(2)] mem_kept_trans by blast
    then have "granules s3 = granules s" "vmids s3 = vmids s" "content s3 = content s"
      using k by (simp_all add: mem_kept_def)
    then show ?thesis by (auto simp: s' r intro!: exI [of _ "data_granule_measure hash rd d map_addr (measure_flag flags)"])
  qed
  then show "granules s' = granules s" "vmids s' = vmids s" "r = ret \<or> r = RMI_ERROR_INPUT"
    "content s' = content s \<or> (\<exists>rd'. content s' = (content s)(g_rd := CRd rd') \<and> rd_s2_ctx rd' = rd_s2_ctx rd
       \<and> length (rd_measurement rd') = length (rd_measurement rd))" by blast+
qed

lemma data_attach_inv:
  assumes i: "inv s" and st: "gst s g_rd = GRANULE_STATE_RD" and rd: "content s g_rd = CRd rd"
    and run: "data_attach_dev mc hash g_data g_rd data_addr rd_addr map_addr flags bars ret s = Some (r, s')"
  shows "inv s'"
proof -
  from i obtain lv par where inv: "inv_with lv par s" by (auto simp: inv_def)
  note e = data_attach_effect [OF run rd]
  from e(4) show ?thesis
  proof
    assume "content s' = content s"
    then show ?thesis using inv_with_same [OF inv e(1)] e(2) by (auto simp: inv_def)
  next
    assume "\<exists>rd'. content s' = (content s)(g_rd := CRd rd') \<and> rd_s2_ctx rd' = rd_s2_ctx rd
       \<and> length (rd_measurement rd') = length (rd_measurement rd)"
    then show ?thesis using inv_rd_update [OF inv st rd _ _ e(1)] by (auto simp: inv_def)
  qed
qed

lemma smc_data_create_safe:
  "inv s \<Longrightarrow> quiet s \<Longrightarrow> dev_attach_flag flags = 0 \<Longrightarrow>
   case smc_data_create mc hash data_addr rd_addr map_addr src_addr flags mem s of
      None \<Rightarrow> False | Some (ret, s') \<Rightarrow> inv s' \<and> quiet s'"
proof (cases "find_granule src_addr")
  case (Some g)
  assume "inv s" and "quiet s" and "dev_attach_flag flags = 0"
  with data_create_safe [of s "Some (g, mem)" flags mc hash data_addr rd_addr map_addr]
    find_granule_bound [OF Some] Some
  show ?thesis by (simp add: smc_data_create_def)
qed (simp add: smc_data_create_def)

lemma smc_data_create_unknown_safe:
  "inv s \<Longrightarrow> quiet s \<Longrightarrow>
   case smc_data_create_unknown mc hash data_addr rd_addr map_addr s of
      None \<Rightarrow> False | Some (ret, s') \<Rightarrow> inv s' \<and> quiet s'"
  using data_create_safe [of s None 0] by (simp add: smc_data_create_unknown_def dev_attach_flag_def)

end
