(* ===== verification/Command_Effects.thy ===== *)
theory Command_Effects
  imports Rtt_Map_Correct Rtt_Fold_Correct Data_Correct
begin

text \<open>
  What a completed run of RTT.Destroy, RTT.Fold, RTT.MapUnprotected, RTT.UnmapUnprotected
  and Data.Destroy has done: either it reports an error and the state is the one before, or
  it reports success and exactly one entry of the realm's tables is different.
\<close>

section \<open>From the action to the command\<close>

definition same_memory :: "rmm \<Rightarrow> rmm \<Rightarrow> bool" where
  "same_memory s t \<longleftrightarrow> granules t = granules s \<and> content t = content s \<and> vmids t = vmids s"

lemma same_memory_refl [simp]: "same_memory s s"
  by (simp add: same_memory_def)

lemma child_reclaimed_memory:
  "child_reclaimed s g i t c e s' \<Longrightarrow> same_memory s' s'' \<Longrightarrow> child_reclaimed s g i t c e s''"
  by (simp add: child_reclaimed_def same_memory_def)

lemma entry_written_memory:
  "entry_written s g i t e s' \<Longrightarrow> same_memory s' s'' \<Longrightarrow> entry_written s g i t e s''"
  by (simp add: entry_written_def same_memory_def)

lemma granule_unlock_SomeD: "granule_unlock g s = Some s' \<Longrightarrow> s' = spinlock_release g s"
  by (auto simp: granule_unlock_def bind_assert_c split: if_splits)

lemma entry_command_result:
  assumes inv: "inv_with lv par s" and q: "quiet s" and ck: "check_sound check map_addr level"
    and err: "\<forall>rd e. check rd = Some e \<longrightarrow> e \<noteq> RMI_SUCCESS"
    and run: "entry_command rd_addr check map_addr level act s = Some (ret, s')"
  obtains (error) "ret \<noteq> RMI_SUCCESS" "same_state s s'"
    | (entry) g_rd rd wi t s2 s3 where "find_granule rd_addr = Some g_rd"
      "gst s g_rd = GRANULE_STATE_RD" "content s g_rd = CRd rd" "check rd = None"
      "walk_result lv s (rd_s2_ctx rd) map_addr level wi" "last_level wi = level"
      "table_of (content s (g_llt wi)) = Some t" "length t = 512"
      "working s (\<lambda>x. x = g_llt wi) ((\<lambda>k. None)(SLOT_RTT := Some (g_llt wi))) s2"
      "act rd wi (t ! unat (index wi)) s2 = Some (ret, s3)"
      "s' = spinlock_release (g_llt wi) (buffer_unmap SLOT_RTT s3)"
      "same_memory s3 s'" "trace s' = trace s3 @ [EvUnlock (g_llt wi)]"
  using inv q ck
proof (cases rule: entry_command_spec [where rd_addr = rd_addr and act = act])
  case (reject e s'')
  then show ?thesis using run error err by (auto simp: RMI_SUCCESS_def RMI_ERROR_INPUT_def)
next
  case (short g_rd rd wi r s'')
  moreover have "r \<noteq> RMI_SUCCESS"
  proof -
    have "g_llt wi < RMM_MAX_GRANULES" "gst s (g_llt wi) = GRANULE_STATE_RTT" "lv (g_llt wi) = last_level wi"
      using short(5) by (simp_all add: walk_result_def at_table_def)
    with inv have "0 \<le> last_level wi" "last_level wi \<le> 3" by (auto elim: inv_with_rtt)
    from rtt_error_Some [OF this] short(7) show ?thesis by (auto simp: RMI_SUCCESS_def)
  qed
  ultimately show ?thesis using run error by simp
next
  case (entry g_rd rd wi t s2)
  from run [unfolded entry(10)] obtain s3 where "act rd wi (t ! unat (index wi)) s2 = Some (ret, s3)"
    "granule_unlock (g_llt wi) (buffer_unmap SLOT_RTT s3) = Some s'"
    by (auto simp: Option.bind_eq_Some_conv)
  with granule_unlock_SomeD [OF this(2)] show ?thesis
    using that(2) [OF entry(1-9)] by (simp add: same_memory_def)
qed

text \<open>The state after the command from the state after its action.\<close>

lemma finish_unchanged:
  assumes "quiet s" and "same_memory s s3" and "glock s3 = (\<lambda>x. x = g)"
    and "slots s3 = (\<lambda>k. None)(SLOT_RTT := Some g)"
  shows "same_state s (spinlock_release g (buffer_unmap SLOT_RTT s3))"
  using assms by (auto simp: same_state_def same_memory_def quiet_def fun_eq_iff)

lemma check_errors:
  "\<forall>rd e. structure_check map_addr level rd = Some e \<longrightarrow> e \<noteq> RMI_SUCCESS"
  "\<forall>rd e. map_check map_addr level op rd = Some e \<longrightarrow> e \<noteq> RMI_SUCCESS"
  "\<forall>rd e. page_check map_addr rd = Some e \<longrightarrow> e \<noteq> RMI_SUCCESS"
  by (auto simp: structure_check_def map_check_def page_check_def RMI_SUCCESS_def
      RMI_ERROR_INPUT_def)

section \<open>RTT.Destroy\<close>

lemma destroy_act_cases:
  assumes inv: "inv_with lv par s" and w: "walk_result lv s ctx addr (level - 1) wi"
    and l: "last_level wi = level - 1" and t: "table_of (content s (g_llt wi)) = Some t"
    and ws: "working s (\<lambda>x. x = g_llt wi) ((\<lambda>k. None)(SLOT_RTT := Some (g_llt wi))) s2"
    and run: "destroy_act rtt_addr map_addr level rd wi (t ! unat (index wi)) s2 = Some (ret, s3)"
  obtains (error) "ret \<noteq> RMI_SUCCESS" "same_memory s s3" "glock s3 = glock s2" "slots s3 = slots s2"
    | (success) c where "ret = RMI_SUCCESS" "find_granule rtt_addr = Some c"
      "s2tte_is_table (t ! unat (index wi)) (level - 1)" "grc s c = 0"
      "rtt_addr = addr_level_mask (t ! unat (index wi)) 3"
      "child_reclaimed s (g_llt wi) (unat (index wi)) t c
         (if addr_in_par rd map_addr then s2tte_create_destroyed else s2tte_create_invalid_ns) s3"
      "glock s3 = glock s2" "slots s3 = slots s2"
      "trace s3 = trace s2 @ [EvLock c GRANULE_STATE_RTT,
        EvTteWrite (g_llt wi) (unat (index wi)) 0,
        EvTlbiIpa (s2_vmid (rd_s2_ctx rd)) (drop_bit 12 map_addr),
        EvTlbiVmall (s2_vmid (rd_s2_ctx rd)),
        EvTteWrite (g_llt wi) (unat (index wi))
         (if addr_in_par rd map_addr then s2tte_create_destroyed else s2tte_create_invalid_ns),
        EvScrub c, EvUnlock c]"
proof -
  note f = entry_facts [OF inv w l t]
  have wk: "granules s2 = granules s" "content s2 = content s" "vmids s2 = vmids s"
    "glock s2 = (\<lambda>x. x = g_llt wi)" "slots s2 = (\<lambda>k. None)(SLOT_RTT := Some (g_llt wi))"
    using ws by (simp_all add: working_def)
  let ?e = "t ! unat (index wi)"
  show ?thesis
  proof (cases "s2tte_is_table ?e (level - 1) \<and> rtt_addr = addr_level_mask ?e 3")
    case False
    then have "s3 = s2" "ret \<noteq> RMI_SUCCESS"
      using run rtt_error_Some [OF f(5,6)] s2tte_pa_table_eq [of ?e "level - 1"]
      by (auto simp: destroy_act_def RMI_SUCCESS_def RMI_ERROR_INPUT_def split: if_splits)
    then show ?thesis using error wk by (simp add: same_memory_def)
  next
    case True
    from act_child [OF inv w l t conjunct1 [OF True]] True obtain c where
      c: "find_granule rtt_addr = Some c" "gst s c = GRANULE_STATE_RTT" "c \<noteq> g_llt wi" by metis
    show ?thesis
    proof (cases "grc s c = 0")
      case True
      note T = True
      from destroy_act_success [where rd = rd and map_addr = map_addr,
          OF inv w l t ws _ _ c(1) T refl] \<open>s2tte_is_table ?e (level - 1) \<and> _\<close> run
      show ?thesis using success [OF _ c(1) _ T] by auto
    next
      case False
      have "find_lock_granule rtt_addr GRANULE_STATE_RTT s2
          = Some (Some c, lock_g c GRANULE_STATE_RTT s2)"
        using c wk by (intro lock_child [OF inv]) auto
      then have "destroy_act rtt_addr map_addr level rd wi ?e s2
          = Some (RMI_ERROR_IN_USE, spinlock_release c (lock_g c GRANULE_STATE_RTT s2))"
        using True False wk c s2tte_pa_table_eq [of ?e "level - 1"]
        by (simp add: destroy_act_def granule_unlock_def)
      then show ?thesis using error run wk c(3)
        by (auto simp: same_memory_def RMI_SUCCESS_def RMI_ERROR_IN_USE_def fun_eq_iff)
    qed
  qed
qed

lemma smc_rtt_destroy_result:
  assumes inv: "inv_with lv par s" and q: "quiet s"
    and run: "smc_rtt_destroy rtt_addr rd_addr map_addr ulevel s = Some (ret, s')"
  obtains (error) "ret \<noteq> RMI_SUCCESS" "same_state s s'"
    | (success) g_rd rd wi t c pre where "ret = RMI_SUCCESS" "find_granule rd_addr = Some g_rd"
      "gst s g_rd = GRANULE_STATE_RD" "content s g_rd = CRd rd"
      "walk_result lv s (rd_s2_ctx rd) map_addr (sint ulevel - 1) wi"
      "last_level wi = sint ulevel - 1" "table_of (content s (g_llt wi)) = Some t"
      "find_granule rtt_addr = Some c" "s2tte_is_table (t ! unat (index wi)) (sint ulevel - 1)"
      "grc s c = 0" "rtt_addr = addr_level_mask (t ! unat (index wi)) 3"
      "child_reclaimed s (g_llt wi) (unat (index wi)) t c
         (if addr_in_par rd map_addr then s2tte_create_destroyed else s2tte_create_invalid_ns) s'"
      "trace s' = pre @ [EvTteWrite (g_llt wi) (unat (index wi)) 0,
        EvTlbiIpa (s2_vmid (rd_s2_ctx rd)) (drop_bit 12 map_addr),
        EvTlbiVmall (s2_vmid (rd_s2_ctx rd)), EvTteWrite (g_llt wi) (unat (index wi))
         (if addr_in_par rd map_addr then s2tte_create_destroyed else s2tte_create_invalid_ns),
        EvScrub c, EvUnlock c, EvUnlock (g_llt wi)]"
  using inv q structure_check_sound check_errors(1) run [unfolded smc_rtt_destroy_shape]
proof (cases rule: entry_command_result)
  case error
  then show ?thesis using that(1) by blast
next
  case (entry g_rd rd wi t s2 s3)
  note e = entry
  have wk: "glock s2 = (\<lambda>x. x = g_llt wi)" "slots s2 = (\<lambda>k. None)(SLOT_RTT := Some (g_llt wi))"
    using entry(9) by (simp_all add: working_def)
  from inv entry(5-7,9,10) show ?thesis
  proof (cases rule: destroy_act_cases)
    case error
    then show ?thesis using that(1) finish_unchanged [OF q error(2)] wk e(11) by simp
  next
    case (success c)
    show ?thesis
      by (rule that(2) [OF success(1) e(1-3,5-7) success(2-5)
            child_reclaimed_memory [OF success(6) e(12)],
            of "trace s2 @ [EvLock c GRANULE_STATE_RTT]"])
         (simp add: e(13) success(9))
  qed
qed

section \<open>RTT.Fold\<close>

lemma smc_rtt_fold_result:
  assumes inv: "inv_with lv par s" and q: "quiet s"
    and run: "smc_rtt_fold rtt_addr rd_addr map_addr ulevel s = Some (ret, s')"
  obtains (error) "ret \<noteq> RMI_SUCCESS" "same_state s s'"
    | (success) g_rd rd wi t c e pre where "ret = RMI_SUCCESS" "find_granule rd_addr = Some g_rd"
      "gst s g_rd = GRANULE_STATE_RD" "content s g_rd = CRd rd"
      "walk_result lv s (rd_s2_ctx rd) map_addr (sint ulevel - 1) wi"
      "last_level wi = sint ulevel - 1" "table_of (content s (g_llt wi)) = Some t"
      "find_granule rtt_addr = Some c" "s2tte_is_table (t ! unat (index wi)) (sint ulevel - 1)"
      "rtt_addr = addr_level_mask (t ! unat (index wi)) 3" "folded s c (sint ulevel) e"
      "child_reclaimed s (g_llt wi) (unat (index wi)) t c e s'"
      "trace s' = pre @ [EvTteWrite (g_llt wi) (unat (index wi)) 0,
        EvTlbiIpa (s2_vmid (rd_s2_ctx rd)) (drop_bit 12 map_addr),
        EvTlbiVmall (s2_vmid (rd_s2_ctx rd)), EvTteWrite (g_llt wi) (unat (index wi)) e,
        EvScrub c, EvUnlock c, EvUnlock (g_llt wi)]"
  using inv q structure_check_sound check_errors(1) run [unfolded smc_rtt_fold_shape]
proof (cases rule: entry_command_result)
  case error
  then show ?thesis using that(1) by blast
next
  case (entry g_rd rd wi t s2 s3)
  note e = entry
  have wk: "glock s2 = (\<lambda>x. x = g_llt wi)" "slots s2 = (\<lambda>k. None)(SLOT_RTT := Some (g_llt wi))"
    using entry(9) by (simp_all add: working_def)
  from inv entry(5-7,9,10) show ?thesis
  proof (cases rule: fold_act_cases)
    case error
    then have "same_memory s s3" by (simp add: same_memory_def)
    then show ?thesis using that(1) finish_unchanged [OF q] error wk e(11) by simp
  next
    case (success c f)
    show ?thesis
      by (rule that(2) [OF success(1) e(1-3,5-7) success(2-5)
            child_reclaimed_memory [OF success(6) e(12)],
            of "trace s2 @ [EvLock c GRANULE_STATE_RTT]"])
         (simp add: e(13) success(9))
  qed
qed

section \<open>Mapping and unmapping memory of the host\<close>

lemma map_unmap_ns_result:
  assumes inv: "inv_with lv par s" and q: "quiet s"
    and h: "op = MAP_NS \<longrightarrow> host_ns_s2tte_is_valid h level"
    and run: "map_unmap_ns rd_addr map_addr level h op s = Some (ret, s')"
  obtains (error) "ret \<noteq> RMI_SUCCESS" "same_state s s'"
    | (success) g_rd rd wi t e pre post where "ret = RMI_SUCCESS" "find_granule rd_addr = Some g_rd"
      "gst s g_rd = GRANULE_STATE_RD" "content s g_rd = CRd rd"
      "map_check map_addr level op rd = None"
      "walk_result lv s (rd_s2_ctx rd) map_addr level wi"
      "last_level wi = level" "table_of (content s (g_llt wi)) = Some t"
      "case op of
         MAP_NS \<Rightarrow> s2tte_is_unassigned (t ! unat (index wi)) \<and> s2tte_create_valid_ns h level = Some e
           \<and> s2tte_refs e \<and> (level = 2 \<longrightarrow> e AND 3 = 1) \<and> (level = 3 \<longrightarrow> s2tte_is_valid_ns e 3)
       | UNMAP_NS \<Rightarrow> s2tte_is_valid_ns (t ! unat (index wi)) level \<and> e = s2tte_create_invalid_ns"
      "entry_written s (g_llt wi) (unat (index wi)) t e s'"
      "trace s' = pre @ [EvTteWrite (g_llt wi) (unat (index wi)) e]
         @ (if op = UNMAP_NS then [EvTlbiIpa (s2_vmid (rd_s2_ctx rd)) (drop_bit 12 map_addr),
              EvTlbiVmall (s2_vmid (rd_s2_ctx rd))] else []) @ post"
  using inv q map_check_sound check_errors(2) run [unfolded map_unmap_ns_shape]
proof (cases rule: entry_command_result)
  case error
  then show ?thesis using that(1) by blast
next
  case (entry g_rd rd wi t s2 s3)
  note f = entry_facts [OF inv entry(5-7)]
  have wk: "glock s2 = (\<lambda>x. x = g_llt wi)" "slots s2 = (\<lambda>k. None)(SLOT_RTT := Some (g_llt wi))"
    "same_memory s s2"
    using entry(9) by (simp_all add: working_def same_memory_def)
  have ll: "level = 2 \<or> level = 3" by (rule map_check_level [OF entry(4)])
  obtain w where err: "rtt_error level = Some w" "w \<noteq> RMI_SUCCESS"
    using rtt_error_Some [OF f(5,6)] by (auto simp: RMI_SUCCESS_def)
  have short: thesis if "s3 = s2" "ret = w"
    using that(1,2) err(2) finish_unchanged [OF q wk(3,1,2)] entry(11)
      \<open>\<lbrakk>ret \<noteq> RMI_SUCCESS; same_state s s'\<rbrakk> \<Longrightarrow> thesis\<close> by simp
  note fin = that(2) [OF _ entry(1-7)]
  show ?thesis
  proof (cases op)
    case MAP_NS
    from create_valid_ns_total [OF ll] obtain e where e: "s2tte_create_valid_ns h level = Some e"
      by blast
    have c: "s2tte_refs e" "level = 2 \<longrightarrow> e AND 3 = 1" "level = 3 \<longrightarrow> s2tte_is_valid_ns e 3"
      using created_valid_ns_entry(1) [of h level e] created_valid_ns_block [of h e]
        created_valid_ns [of h level e] e ll f(3) h MAP_NS by auto
    show ?thesis
    proof (cases "s2tte_is_unassigned (t ! unat (index wi))")
      case True
      from map_act_map [OF inv entry(5-7,9) ll True e c(1), where map_addr = map_addr and rd = rd]
        entry(10) MAP_NS have d: "ret = RMI_SUCCESS"
        "entry_written s (g_llt wi) (unat (index wi)) t e s3"
        "trace s3 = trace s2 @ [EvTteWrite (g_llt wi) (unat (index wi)) e]" by auto
      show ?thesis
        by (rule fin [OF d(1) _ entry_written_memory [OF d(2) entry(12)], of "trace s2"])
           (use True e c MAP_NS d(3) entry(13) in auto)
    next
      case False
      then show ?thesis using short entry(10) err(1) MAP_NS by (simp add: map_act_def)
    qed
  next
    case UNMAP_NS
    show ?thesis
    proof (cases "s2tte_is_valid_ns (t ! unat (index wi)) level")
      case True
      from map_act_unmap [OF inv entry(5-7,9) True, where map_addr = map_addr and rd = rd and h = h]
        entry(10) UNMAP_NS have d: "ret = RMI_SUCCESS"
        "entry_written s (g_llt wi) (unat (index wi)) t s2tte_create_invalid_ns s3"
        "trace s3 = trace s2 @ [EvTteWrite (g_llt wi) (unat (index wi)) s2tte_create_invalid_ns,
          EvTlbiIpa (s2_vmid (rd_s2_ctx rd)) (drop_bit 12 map_addr),
          EvTlbiVmall (s2_vmid (rd_s2_ctx rd))]" by auto
      show ?thesis
        by (rule fin [OF d(1) _ entry_written_memory [OF d(2) entry(12)], of "trace s2"])
           (use True UNMAP_NS d(3) entry(13) in auto)
    next
      case False
      then show ?thesis using short entry(10) err(1) UNMAP_NS by (simp add: map_act_def)
    qed
  qed
qed

section \<open>Data.Destroy\<close>

lemma smc_data_destroy_result:
  assumes inv: "inv_with lv par s" and q: "quiet s"
    and run: "smc_data_destroy rd_addr map_addr s = Some (ret, s')"
  obtains (error) "ret \<noteq> RMI_SUCCESS" "same_state s s'"
    | (success) g_rd rd wi t d e pre where "ret = RMI_SUCCESS" "find_granule rd_addr = Some g_rd"
      "gst s g_rd = GRANULE_STATE_RD" "content s g_rd = CRd rd"
      "walk_result lv s (rd_s2_ctx rd) map_addr 3 wi" "last_level wi = 3"
      "table_of (content s (g_llt wi)) = Some t"
      "s2tte_is_valid (t ! unat (index wi)) 3 \<or> s2tte_is_assigned (t ! unat (index wi)) 3"
      "e = (if s2tte_is_valid (t ! unat (index wi)) 3 then s2tte_create_destroyed
            else s2tte_create_unassigned RMI_EMPTY)"
      "find_granule (addr_level_mask (t ! unat (index wi)) 3) = Some d"
      "gst s d = GRANULE_STATE_DATA"
      "child_reclaimed s (g_llt wi) (unat (index wi)) t d e s'"
      "trace s' = pre @ [EvTteWrite (g_llt wi) (unat (index wi)) e]
        @ (if s2tte_is_valid (t ! unat (index wi)) 3
           then [EvTlbiIpa (s2_vmid (rd_s2_ctx rd)) (drop_bit 12 map_addr),
                 EvTlbiVmall (s2_vmid (rd_s2_ctx rd))] else [])
        @ [EvLock d GRANULE_STATE_DATA, EvScrub d, EvUnlock d, EvUnlock (g_llt wi)]"
      "map_addr < realm_ipa_size rd"
  using inv q page_check_sound check_errors(3) run [unfolded smc_data_destroy_shape]
proof (cases rule: entry_command_result)
  case error
  then show ?thesis using that(1) by blast
next
  case (entry g_rd rd wi t s2 s3)
  have p3: "RTT_PAGE_LEVEL = 3" by (simp add: s2tte_values)
  note e = entry [unfolded p3]
  note f = entry_facts [OF inv e(5-7)]
  have wk: "glock s2 = (\<lambda>x. x = g_llt wi)" "slots s2 = (\<lambda>k. None)(SLOT_RTT := Some (g_llt wi))"
    "same_memory s s2"
    using entry(9) by (simp_all add: working_def same_memory_def)
  show ?thesis
  proof (cases "s2tte_is_valid (t ! unat (index wi)) 3 \<or> s2tte_is_assigned (t ! unat (index wi)) 3")
    case False
    obtain w where "rtt_error 3 = Some w" "w \<noteq> RMI_SUCCESS"
      using rtt_error_Some [of 3] by (auto simp: RMI_SUCCESS_def)
    with False e(10) have "ret \<noteq> RMI_SUCCESS" "s3 = s2" by (auto simp: data_destroy_act_def p3)
    then show ?thesis using that(1) finish_unchanged [OF q wk(3,1,2)] e(11) by simp
  next
    case True
    from data_destroy_act_success [where map_addr = map_addr and rd = rd, OF inv e(5-7,9) True refl]
      e(10) obtain d where d: "ret = RMI_SUCCESS"
      "find_granule (addr_level_mask (t ! unat (index wi)) 3) = Some d" "gst s d = GRANULE_STATE_DATA"
      "child_reclaimed s (g_llt wi) (unat (index wi)) t d
         (if s2tte_is_valid (t ! unat (index wi)) 3 then s2tte_create_destroyed
          else s2tte_create_unassigned RMI_EMPTY) s3"
      "trace s3 = trace s2 @ [EvTteWrite (g_llt wi) (unat (index wi))
           (if s2tte_is_valid (t ! unat (index wi)) 3 then s2tte_create_destroyed
            else s2tte_create_unassigned RMI_EMPTY)]
        @ (if s2tte_is_valid (t ! unat (index wi)) 3
           then [EvTlbiIpa (s2_vmid (rd_s2_ctx rd)) (drop_bit 12 map_addr),
                 EvTlbiVmall (s2_vmid (rd_s2_ctx rd))] else [])
        @ [EvLock d GRANULE_STATE_DATA, EvScrub d, EvUnlock d]" by auto
    show ?thesis
      by (rule that(2) [OF d(1) e(1-3,5-7) True refl d(2,3)
            child_reclaimed_memory [OF d(4) e(12)], of "trace s2"])
         (use e(4) in \<open>auto simp: e(13) d(5) page_check_def validate_map_addr_def split: if_splits\<close>)
  qed
qed

end
