(* ===== verification/Rtt_Create_Correct.thy ===== *)
theory Rtt_Create_Correct
  imports Rtt_Fold_Correct
begin

text \<open>
  RTT.Create: a leaf entry or a block is replaced by a table with the same meaning.
\<close>

section \<open>The shape of the command\<close>

definition create_act ::
  "nat \<Rightarrow> u64 \<Rightarrow> u64 \<Rightarrow> int \<Rightarrow> rd \<Rightarrow> rtt_walk \<Rightarrow> u64 \<Rightarrow> rmm \<Rightarrow> (u64 \<times> rmm) option" where
  "create_act g_tbl rtt_addr map_addr level rd wi parent_s2tte s = do {
     s \<leftarrow> granule_map g_tbl SLOT_DELEGATED s;
     (failed, s) \<leftarrow> rtt_create_fill g_tbl (g_llt wi) (index wi) parent_s2tte level map_addr
                      (rd_s2_ctx rd) s;
     (ret, s) \<leftarrow>
       (case failed of
          Some ret \<Rightarrow> Some (ret, s)
        | None \<Rightarrow> do {
            let s = granule_set_state g_tbl GRANULE_STATE_RTT s;
            parent_s2tte \<leftarrow> s2tte_create_table rtt_addr (level - 1);
            s \<leftarrow> s2tte_write (g_llt wi) (index wi) parent_s2tte s;
            Some (RMI_SUCCESS, s)
          });
     Some (ret, buffer_unmap SLOT_DELEGATED s)
   }"

lemma smc_rtt_create_shape:
  "smc_rtt_create rtt_addr rd_addr map_addr ulevel s = do {
     (r, s) \<leftarrow> find_lock_two_granules rtt_addr GRANULE_STATE_DELEGATED
                                        rd_addr GRANULE_STATE_RD s;
     (case r of
        None \<Rightarrow> Some (RMI_ERROR_INPUT, s)
      | Some (g_tbl, g_rd) \<Rightarrow> do {
          (ret, s) \<leftarrow> rd_walk g_rd (structure_check map_addr (sint ulevel)) map_addr
                        (sint ulevel - 1) id
                        (entry_body (sint ulevel - 1)
                           (create_act g_tbl rtt_addr map_addr (sint ulevel))) s;
          s \<leftarrow> granule_unlock g_tbl s;
          Some (ret, s)
        })
   }"
  unfolding smc_rtt_create_def rd_walk_def entry_body_def create_act_def structure_check_def Let_def
  by (auto split: Option.bind_split option.split prod.split)

section \<open>What the new table holds\<close>

text \<open>The new table \<open>tn\<close> spells out the old entry \<open>e\<close> of the level above.\<close>

definition unfolds :: "int \<Rightarrow> u64 \<Rightarrow> u64 list \<Rightarrow> bool" where
  "unfolds level e tn \<longleftrightarrow> length tn = 512
     \<and> ((s2tte_is_unassigned e \<or> s2tte_is_destroyed e) \<and> tn = replicate 512 e
       \<or> level = 3 \<and> s2tte_is_assigned e 2 \<and> assigned_run tn (addr_level_mask e 2))"

lemma leaf_recreate:
  "leaf_entry e \<Longrightarrow> s2tte_is_unassigned e \<Longrightarrow> \<exists>r. s2tte_get_ripas e = Some r
     \<and> s2tte_create_unassigned r = e"
  "leaf_entry e \<Longrightarrow> s2tte_is_destroyed e \<Longrightarrow> s2tte_create_destroyed = e"
  by (auto simp: leaf_entry_def s2tte_iffs s2tte_get_ripas_def s2tte_values
      s2tte_create_unassigned_def s2tte_create_ripas_def s2tte_create_destroyed_def)

lemma addr_level_mask_aligned: "addr_is_level_aligned (addr_level_mask e l) l"
  by (simp add: addr_is_level_aligned_def addr_level_mask_def and.assoc)

lemma init_assigned_run:
  assumes "addr_is_level_aligned base 2" and "length t = 512"
  obtains tn where "s2tt_init_assigned_empty t base 3 = Some tn" "length tn = 512"
    "assigned_run tn base"
proof -
  from assigned_pages.unfold_entries [OF assms] obtain tn where
    i: "init_loop (\<lambda>pa. s2tte_create_assigned_empty pa 3) 4096 512 0 base t = Some tn"
    and len: "length tn = 512"
    and e: "\<And>k. k < 512 \<Longrightarrow> s2tte_is_assigned (tn ! k) 3
              \<and> s2tte_pa (tn ! k) 3 = Some (base + of_nat k * 4096)" by metis
  have "s2tt_init_assigned_empty t base 3 = Some tn"
    using i by (simp add: s2tt_init_assigned_empty_def s2tte_map_size_def s2tte_values)
  moreover have "assigned_run tn base"
    using e s2tte_pa_assigned assms(1) unfolding assigned_run_def by fastforce
  ultimately show ?thesis using that len by blast
qed

lemma assigned_run_refs:
  assumes "assigned_run t base" and "length t = 512"
  shows "ref_count t = 512"
proof -
  have "s2tte_refs x" if "x \<in> set t" for x
    using that assms by (auto simp: assigned_run_def in_set_conv_nth)
  then show ?thesis unfolding ref_count_def by (simp add: length_filter_all assms(2))
qed

lemma ref_count_leaves: "leaf_entry e \<Longrightarrow> ref_count (replicate n e) = 0"
  by (simp add: ref_count_def leaf_entry_refs)

section \<open>The action\<close>

definition table_added ::
  "rmm \<Rightarrow> nat \<Rightarrow> nat \<Rightarrow> u64 list \<Rightarrow> nat \<Rightarrow> u64 \<Rightarrow> u64 list \<Rightarrow> rmm \<Rightarrow> bool" where
  "table_added s g i t c a tn s' \<longleftrightarrow>
     granules s' = (granules s)(g := (granules s g)
                      \<lparr>g_refcount := grc s g - ref_word (t ! i) + 1\<rparr>,
                    c := \<lparr>g_state = GRANULE_STATE_RTT, g_refcount = of_nat (ref_count tn)\<rparr>)
   \<and> content s' = (content s)(g := CTable (t[i := a OR 3]), c := CTable tn)
   \<and> vmids s' = vmids s"

lemma create_act_cases:
  assumes inv: "inv_with lv par s" and w: "walk_result lv s ctx addr (level - 1) wi"
    and l: "last_level wi = level - 1" and l3: "level \<le> 3"
    and t: "table_of (content s (g_llt wi)) = Some t"
    and ws: "working s L K s2" and K: "K SLOT_DELEGATED = None"
    and c: "find_granule rtt_addr = Some c" "gst s c = GRANULE_STATE_DELEGATED"
  obtains (assert_false) "create_act c rtt_addr map_addr level rd wi (t ! unat (index wi)) s2 = None"
      "level = 3" "(t ! unat (index wi)) AND 3 = 1"
    | (is_table) ret where "ret \<noteq> RMI_SUCCESS" "(t ! unat (index wi)) AND 3 \<noteq> 1"
      "create_act c rtt_addr map_addr level rd wi (t ! unat (index wi)) s2 = Some (ret, s2)"
    | (success) tn s3 where
      "create_act c rtt_addr map_addr level rd wi (t ! unat (index wi)) s2 = Some (RMI_SUCCESS, s3)"
      "unfolds level (t ! unat (index wi)) tn"
      "table_added s (g_llt wi) (unat (index wi)) t c rtt_addr tn s3"
      "glock s3 = glock s2" "slots s3 = slots s2"
      "trace s3 = trace s2 @ [EvTteWrite (g_llt wi) (unat (index wi)) (rtt_addr OR 3)]"
proof -
  note f = entry_facts [OF inv w l t]
  let ?e = "t ! unat (index wi)" and ?llt = "g_llt wi" and ?i = "unat (index wi)"
  have cb: "c < RMM_MAX_GRANULES" using c(1) by (rule find_granule_bound)
  have cz: "content s c = CZero" using inv_with_delegated [OF inv cb c(2)] .
  have crc: "grc s c = 0" using inv_with_unlocked [OF inv cb] c(2) by (simp add: unlocked_ok_def)
  have ne: "c \<noteq> ?llt" using c(2) f(2) by auto
  have wk: "granules s2 = granules s" "content s2 = content s" "vmids s2 = vmids s" "slots s2 = K"
    using ws by (simp_all add: working_def)
  have gm: "granule_map c SLOT_DELEGATED s2 = Some (map_slot SLOT_DELEGATED c s2)"
    using cb K wk by (simp add: granule_map_eq)
  have ct: "s2tte_create_table rtt_addr (level - 1) = Some (rtt_addr OR 3)"
    using l3 find_granule_aligned [OF c(1)] by (simp add: s2tte_create_table_def s2tte_values)
  have K0: "K(SLOT_DELEGATED := None) = K" using K by (simp add: fun_eq_iff)
  have nv: "\<not> s2tte_is_valid ?e (level - 1)" "\<not> s2tte_is_valid_ns ?e (level - 1)"
    using l3 by (auto simp: s2tte_iffs)
  note ex = create_act_def gm wk cz rtt_create_fill_def nv ct s2tte_write_eq K0
  have l2: "lv ?llt \<le> 2" using f(3) l3 by simp
  consider (un) "s2tte_is_unassigned ?e" | (de) "s2tte_is_destroyed ?e"
    | (asg) "lv ?llt = 2" "s2tte_is_assigned ?e 2"
        "owns_pages par s ?llt ?i (addr_level_mask ?e 2) 512"
    | (tab) "s2tte_is_table ?e (lv ?llt)" | (nsb) "lv ?llt = 2" "?e AND 3 = 1"
    using f(9) l2 by (auto simp: entry_ok_def table_entry_ok_def leaf_entry_def s2tte_iffs)
  then show ?thesis
  proof cases
    case un
    have lf: "leaf_entry ?e" using entry_ok_unassigned [OF f(9) un] by (auto simp: leaf_entry_def)
    from leaf_recreate(1) [OF lf un] obtain r where
      r: "s2tte_get_ripas ?e = Some r" "s2tte_create_unassigned r = ?e" by blast
    have "unfolds level ?e (replicate 512 ?e)" using un by (simp add: unfolds_def)
    then show ?thesis
      using un r f(4,8) t ne crc lf
      by (intro that(3) [rotated])
         (auto simp: ex s2tt_init_unassigned_eq granule_get_def table_added_def leaf_entry_refs
           ref_count_leaves fun_eq_iff)
  next
    case de
    have lf: "leaf_entry ?e" using entry_ok_destroyed [OF f(9) de] by (auto simp: leaf_entry_def)
    note r = leaf_recreate(2) [OF lf de]
    have nu: "\<not> s2tte_is_unassigned ?e" using de by (auto simp: s2tte_iffs)
    have "unfolds level ?e (replicate 512 ?e)" using de by (simp add: unfolds_def)
    then show ?thesis
      using de nu r f(4,8) t ne crc lf
      by (intro that(3) [rotated])
         (auto simp: ex s2tt_init_destroyed_eq granule_get_def table_added_def leaf_entry_refs
           ref_count_leaves fun_eq_iff)
  next
    case asg
    have lev: "level = 3" using asg(1) f(3) by simp
    from init_assigned_run [OF addr_level_mask_aligned, of "replicate 512 0" ?e] obtain tn where
      tn: "s2tt_init_assigned_empty (replicate 512 0) (addr_level_mask ?e 2) 3 = Some tn"
        "length tn = 512" "assigned_run tn (addr_level_mask ?e 2)" by auto
    have nu: "\<not> s2tte_is_unassigned ?e" "\<not> s2tte_is_destroyed ?e" "s2tte_refs ?e"
      using asg(2) by (auto simp: s2tte_iffs s2tte_refs_def)
    have un: "unfolds level ?e tn" using tn asg lev by (simp add: unfolds_def)
    have pa: "s2tte_pa ?e 2 = Some (addr_level_mask ?e 2)" using asg(2) by (rule s2tte_pa_assigned)
    have rc: "ref_count tn = 512" using tn by (simp add: assigned_run_refs)
    have "\<exists>s3. create_act c rtt_addr map_addr level rd wi ?e s2 = Some (RMI_SUCCESS, s3)
      \<and> table_added s ?llt ?i t c rtt_addr tn s3 \<and> glock s3 = glock s2 \<and> slots s3 = slots s2
      \<and> trace s3 = trace s2 @ [EvTteWrite ?llt ?i (rtt_addr OR 3)]"
      using nu tn(1,2) pa rc f(4,8) t ne crc asg(2) ct c(2)
      by (simp add: create_act_def gm wk cz rtt_create_fill_def s2tte_write_eq K0 lev
          granule_refcount_inc_def table_added_def RTT_MIN_BLOCK_LEVEL_def
          S2TTES_PER_S2TT_def S2TTE_STRIDE_def GRANULE_SHIFT_def fun_eq_iff)
    then show ?thesis using that(3) un by blast
  next
    case tab
    obtain ret where ret: "rtt_error (level - 1) = Some ret" "ret \<noteq> 0"
      using rtt_error_Some [OF f(5,6)] by blast
    have no: "\<not> s2tte_is_unassigned ?e" "\<not> s2tte_is_destroyed ?e"
      "\<not> s2tte_is_assigned ?e (level - 1)" "s2tte_is_table ?e (level - 1)"
      using tab f(3) by (auto simp: s2tte_iffs)
    have "buffer_unmap SLOT_DELEGATED (map_slot SLOT_DELEGATED c s2) = s2"
      using K wk by (simp add: buffer_unmap_map_slot)
    then have "create_act c rtt_addr map_addr level rd wi ?e s2 = Some (ret, s2)"
      using ret no by (simp add: ex)
    moreover have "?e AND 3 \<noteq> 1" using tab by (auto simp: s2tte_iffs)
    ultimately show ?thesis using that(2) ret(2) by (simp add: word_consts)
  next
    case nsb
    have "\<not> s2tte_is_unassigned ?e" "\<not> s2tte_is_destroyed ?e"
      "\<not> s2tte_is_assigned ?e (level - 1)" "\<not> s2tte_is_table ?e (level - 1)"
      using nsb by (auto simp: s2tte_iffs)
    then have "create_act c rtt_addr map_addr level rd wi ?e s2 = None" by (simp add: ex)
    then show ?thesis using that(1) nsb f(3) by simp
  qed
qed

section \<open>The invariant\<close>

text \<open>The pages of an unfolded block belong to the entries of the new table.\<close>

definition unfold_par :: "nat \<Rightarrow> nat \<Rightarrow> nat \<Rightarrow> u64 \<Rightarrow> (nat \<Rightarrow> owner) \<Rightarrow> nat \<Rightarrow> owner" where
  "unfold_par g i c base par d =
     (if d = c then TteOwner g i
      else if par d = TteOwner g i
      then TteOwner c (SOME k. k < 512 \<and> find_granule (base + of_nat k * 4096) = Some d)
      else par d)"

lemma unfold_par_page:
  assumes "find_granule (base + of_nat k * 4096) = Some d" and "k < 512" and "d \<noteq> c"
    and "par d = TteOwner g i"
  shows "unfold_par g i c base par d = TteOwner c k"
proof -
  have "(SOME k. k < 512 \<and> find_granule (base + of_nat k * 4096) = Some d) = k"
  proof (rule some_equality)
    show "k < 512 \<and> find_granule (base + of_nat k * 4096) = Some d" using assms by simp
    fix k' assume "k' < 512 \<and> find_granule (base + of_nat k' * 4096) = Some d"
    then show "k' = k"
      using assms(1,2) find_granule_inject page_offset_inject by metis
  qed
  then show ?thesis using assms by (simp add: unfold_par_def)
qed

lemma new_table_entry:
  assumes "find_granule a = Some c" and "gst s' c = GRANULE_STATE_RTT" and "l \<le> 2"
    and "lv' g = l" and "lv' c = l + 1" and "par' c = TteOwner g i" and "0 \<le> l"
  shows "entry_ok lv' par' s' g i (a OR 3)"
proof -
  have al: "addr_is_level_aligned a 3" using assms(1) by (rule find_granule_level3)
  have "addr_level_mask (a OR 3) 3 = a" by (rule mask_of_or [OF al]) simp
  moreover have "s2tte_is_table (a OR 3) l"
    using assms(3) aligned_and_low [OF al, simplified]
    by (simp add: s2tte_iffs bit.conj_disj_distrib2)
  ultimately have "table_entry_ok lv' par' s' g i (a OR 3)"
    using assms by (simp add: table_entry_ok_def)
  then show ?thesis by (simp add: entry_ok_def)
qed

lemma table_added_inv:
  assumes inv: "inv_with lv par s" and g: "g < RMM_MAX_GRANULES"
    and st: "gst s g = GRANULE_STATE_RTT" and t: "table_of (content s g) = Some t" and i: "i < 512"
    and l: "lv g = level - 1" "level \<le> 3"
    and e: "entry_ok lv par s g i (t ! i)"
    and c: "find_granule a = Some c" "gst s c = GRANULE_STATE_DELEGATED"
    and un: "unfolds level (t ! i) tn" and ad: "table_added s g i t c a tn s'"
  shows "\<exists>par'. inv_with (lv(c := level)) par' s'"
proof -
  let ?lv = "lv(c := level)" and ?par = "unfold_par g i c (addr_level_mask (t ! i) 2) par"
  have cg: "c \<noteq> g" using c(2) st by auto
  have l0: "0 \<le> lv g" using inv g st by (elim inv_with_rtt) auto
  have gr: "granules s' = (granules s)(g := (granules s g)
      \<lparr>g_refcount := grc s g - ref_word (t ! i) + ref_word (a OR 3)\<rparr>,
      c := \<lparr>g_state = GRANULE_STATE_RTT, g_refcount = of_nat (ref_count tn)\<rparr>)"
    and co: "content s' = (content s)(g := CTable (t[i := a OR 3]), c := CTable tn)"
  proof -
    have "addr_is_level_aligned a 3" using c(1) by (rule find_granule_level3)
    then have "s2tte_refs (a OR 3)"
      using aligned_and_low [of a 3, simplified] by (simp add: s2tte_refs_def bit.conj_disj_distrib2)
    then show "granules s' = (granules s)(g := (granules s g)
      \<lparr>g_refcount := grc s g - ref_word (t ! i) + ref_word (a OR 3)\<rparr>,
      c := \<lparr>g_state = GRANULE_STATE_RTT, g_refcount = of_nat (ref_count tn)\<rparr>)"
      and "content s' = (content s)(g := CTable (t[i := a OR 3]), c := CTable tn)"
      using ad by (simp_all add: table_added_def)
  qed
  have "entry_ok ?lv ?par s' c k (tn ! k)" if k: "k < 512" for k
  proof -
    from un consider (leaf) "tn = replicate 512 (t ! i)" "leaf_entry (t ! i)"
      | (run) "level = 3" "s2tte_is_assigned (t ! i) 2"
          "assigned_run tn (addr_level_mask (t ! i) 2)"
      using entry_ok_unassigned [OF e] entry_ok_destroyed [OF e]
      by (auto simp: unfolds_def leaf_entry_def)
    then show ?thesis
    proof cases
      case leaf
      then show ?thesis using k by simp
    next
      case run
      have "lv g = 2" using run(1) l by simp
      from entry_ok_block [OF e this run(2)] k obtain d where
        d: "find_granule (addr_level_mask (t ! i) 2 + of_nat k * 4096) = Some d"
          "gst s d = GRANULE_STATE_DATA" "par d = TteOwner g i"
        unfolding owns_pages_def by blast
      have dc: "d \<noteq> c" using d(2) c(2) by auto
      have "gst s' d = GRANULE_STATE_DATA" using d(2) dc st by (auto simp: gr)
      moreover have "?par d = TteOwner c k" using unfold_par_page [where par = par] d k dc by blast
      moreover have "addr_level_mask (tn ! k) 3 = addr_level_mask (t ! i) 2 + of_nat k * 4096"
        and "s2tte_is_assigned (tn ! k) 3"
        using run(3) k by (auto simp: assigned_run_def)
      ultimately show ?thesis using d(1) run(1)
        by (auto simp: entry_ok_def owns_pages_def)
    qed
  qed
  then have "granule_ok ?lv ?par s' c"
    using un l l0 by (auto simp: granule_ok_def unlocked_ok_def rtt_ok_def gr co unfolds_def)
  moreover have "entry_ok ?lv ?par s' g i (a OR 3)"
    using c cg l l0 by (intro new_table_entry) (auto simp: gr unfold_par_def)
  ultimately have "inv_with ?lv ?par s'"
    using c cg by (intro inv_entry_step [OF inv g st t i cg _ _ gr co])
      (auto simp: unfold_par_def gr)
  then show ?thesis by blast
qed

section \<open>The command\<close>

lemma entry_body_spec:
  assumes inv: "inv_with lv par s" and w: "walk_result lv s c addr level wi"
    and r: "relocked s L s1" and sl: "slots s SLOT_RTT = None"
  obtains (short) ret where "last_level wi < level" "rtt_error (last_level wi) = Some ret"
      "ret \<noteq> RMI_SUCCESS" "entry_body level act rd wi s1 = Some (ret, s1)"
    | (entry) t where "last_level wi = level" "table_of (content s (g_llt wi)) = Some t"
      "working s L ((slots s)(SLOT_RTT := Some (g_llt wi))) (map_slot SLOT_RTT (g_llt wi) s1)"
      "entry_body level act rd wi s1
         = do { (ret, s3) \<leftarrow> act rd wi (t ! unat (index wi)) (map_slot SLOT_RTT (g_llt wi) s1);
                Some (ret, buffer_unmap SLOT_RTT s3) }"
proof (cases "last_level wi = level")
  case True
  have at: "g_llt wi < RMM_MAX_GRANULES" "gst s (g_llt wi) = GRANULE_STATE_RTT"
    using w by (simp_all add: walk_result_def at_table_def)
  from inv at obtain t where t: "table_of (content s (g_llt wi)) = Some t" "length t = 512"
    by (elim inv_with_rtt) auto
  have s1: "content s1 = content s" "slots s1 = slots s" "granules s1 = granules s"
    "vmids s1 = vmids s" "glock s1 = L" using r by (simp_all add: relocked_def)
  have "granule_map (g_llt wi) SLOT_RTT s1 = Some (map_slot SLOT_RTT (g_llt wi) s1)"
    using at s1 sl by (simp add: granule_map_eq)
  then have "entry_body level act rd wi s1
         = do { (ret, s3) \<leftarrow> act rd wi (t ! unat (index wi)) (map_slot SLOT_RTT (g_llt wi) s1);
                Some (ret, buffer_unmap SLOT_RTT s3) }"
    using True t s1 w s2_addr_to_idx_bound by (simp add: entry_body_def s2tte_read_def walk_result_def)
  then show ?thesis using entry True t(1) s1 by (simp add: working_def)
next
  case False
  have l: "0 \<le> last_level wi" "last_level wi \<le> 3"
    using w inv by (auto simp: walk_result_def at_table_def elim: inv_with_rtt)
  from rtt_error_Some [OF l] obtain ret where "rtt_error (last_level wi) = Some ret" "ret \<noteq> 0"
    by blast
  then show ?thesis using short False w
    by (simp add: entry_body_def walk_result_def RMI_SUCCESS_def)
qed

text \<open>
  The outcomes of RTT.Create.  It fails to return in one case only: the parent entry is a
  level 2 block of the host, which no predicate recognises.
\<close>

definition host_block :: "u64 \<Rightarrow> bool" where
  "host_block e \<longleftrightarrow> e AND DESC_TYPE_MASK = S2TTE_L012_BLOCK \<and> e AND S2TTE_NS \<noteq> 0"

definition create_stuck :: "u64 \<Rightarrow> u64 \<Rightarrow> u64 \<Rightarrow> u64 \<Rightarrow> rmm \<Rightarrow> bool" where
  "create_stuck rtt_addr rd_addr map_addr ulevel s \<longleftrightarrow>
     sint ulevel = 3 \<and> pair_available rtt_addr GRANULE_STATE_DELEGATED rd_addr GRANULE_STATE_RD s
   \<and> (case tte_at rd_addr map_addr 2 s of
        None \<Rightarrow> False
      | Some (rd, g, i, e) \<Rightarrow> validate_rtt_structure_cmds map_addr 3 rd \<and> host_block e)"

lemma host_block_iff: "entry_ok lv par s g i e \<Longrightarrow> lv g = 2 \<Longrightarrow> host_block e \<longleftrightarrow> e AND 3 = 1"
  by (auto simp: entry_ok_def table_entry_ok_def leaf_entry_def s2tte_iffs host_block_def s2tte_consts)

lemma unfolds_no_block: "unfolds level e tn \<Longrightarrow> \<not> host_block e"
  by (auto simp: unfolds_def host_block_def s2tte_iffs s2tte_consts)

lemma smc_rtt_create_cases:
  assumes inv: "inv_with lv par s" and q: "quiet s"
  obtains (error) ret s' where "smc_rtt_create rtt_addr rd_addr map_addr ulevel s = Some (ret, s')"
      "ret \<noteq> RMI_SUCCESS" "same_state s s'" "\<not> create_stuck rtt_addr rd_addr map_addr ulevel s"
    | (assert_false) g_rd rd wi t where
      "smc_rtt_create rtt_addr rd_addr map_addr ulevel s = None"
      "find_granule rd_addr = Some g_rd" "content s g_rd = CRd rd"
      "walk_result lv s (rd_s2_ctx rd) map_addr 2 wi" "last_level wi = 2"
      "table_of (content s (g_llt wi)) = Some t" "sint ulevel = 3"
      "(t ! unat (index wi)) AND 3 = 1" "create_stuck rtt_addr rd_addr map_addr ulevel s"
    | (success) g_rd rd wi t c tn s' where
      "smc_rtt_create rtt_addr rd_addr map_addr ulevel s = Some (RMI_SUCCESS, s')"
      "find_granule rd_addr = Some g_rd" "gst s g_rd = GRANULE_STATE_RD" "content s g_rd = CRd rd"
      "structure_check map_addr (sint ulevel) rd = None"
      "find_granule rtt_addr = Some c" "gst s c = GRANULE_STATE_DELEGATED"
      "walk_result lv s (rd_s2_ctx rd) map_addr (sint ulevel - 1) wi"
      "last_level wi = sint ulevel - 1"
      "table_of (content s (g_llt wi)) = Some t"
      "unfolds (sint ulevel) (t ! unat (index wi)) tn"
      "table_added s (g_llt wi) (unat (index wi)) t c rtt_addr tn s'" "quiet s'"
proof -
  have un: "\<And>g. g < RMM_MAX_GRANULES \<Longrightarrow> \<not> glock s g \<and> unlocked_ok s g"
    using q inv_with_unlocked [OF inv] by (simp add: quiet_def)
  show ?thesis
  proof (rule find_lock_two_granules_cases [OF un, of rtt_addr GRANULE_STATE_DELEGATED
        rd_addr GRANULE_STATE_RD])
    fix s'
    assume none: "find_lock_two_granules rtt_addr GRANULE_STATE_DELEGATED rd_addr
        GRANULE_STATE_RD s = Some (None, s')" "same_state s s'"
      "\<not> pair_available rtt_addr GRANULE_STATE_DELEGATED rd_addr GRANULE_STATE_RD s"
    then have "smc_rtt_create rtt_addr rd_addr map_addr ulevel s = Some (RMI_ERROR_INPUT, s')"
      by (simp add: smc_rtt_create_shape)
    then show ?thesis using error none by (simp add: word_consts create_stuck_def)
  next
    fix c g_rd
    assume both: "find_lock_two_granules rtt_addr GRANULE_STATE_DELEGATED rd_addr
        GRANULE_STATE_RD s = Some (Some (c, g_rd),
          two_locked rtt_addr GRANULE_STATE_DELEGATED c rd_addr GRANULE_STATE_RD g_rd s)"
      "pair_available rtt_addr GRANULE_STATE_DELEGATED rd_addr GRANULE_STATE_RD s"
      "find_granule rtt_addr = Some c" "find_granule rd_addr = Some g_rd" "c \<noteq> g_rd"
      "gst s c = GRANULE_STATE_DELEGATED" "gst s g_rd = GRANULE_STATE_RD"
    let ?s0 = "two_locked rtt_addr GRANULE_STATE_DELEGATED c rd_addr GRANULE_STATE_RD g_rd s"
    have b: "c < RMM_MAX_GRANULES" "g_rd < RMM_MAX_GRANULES"
      using both(3,4) find_granule_bound by blast+
    from inv_with_rd [OF inv b(2) both(7)] obtain rd where rd: "content s g_rd = CRd rd"
      by (auto simp: rd_ok_def)
    have inv0: "inv_with lv par ?s0" using inv by (rule inv_with_same) simp_all
    let ?ck = "structure_check map_addr (sint ulevel)"
    let ?act = "create_act c rtt_addr map_addr (sint ulevel)"
    let ?body = "entry_body (sint ulevel - 1) ?act"
    have lk: "glock ?s0 = (\<lambda>x. x = c)(g_rd := True)"
      using q by (auto simp: quiet_def fun_eq_iff)
    have main: "case ?ck rd of
      Some e \<Rightarrow> \<exists>s'. rd_walk g_rd ?ck map_addr (sint ulevel - 1) id ?body ?s0 = Some (id e, s')
                  \<and> relocked ?s0 (\<lambda>x. x = c) s'
    | None \<Rightarrow> \<exists>wi s1. walk_result lv ?s0 (rd_s2_ctx rd) map_addr (sint ulevel - 1) wi
        \<and> relocked ?s0 ((\<lambda>x. x = c)(g_llt wi := True)) s1
        \<and> rd_walk g_rd ?ck map_addr (sint ulevel - 1) id ?body ?s0
          = do { (ret, s) \<leftarrow> ?body rd wi s1; s \<leftarrow> granule_unlock (g_llt wi) s; Some (ret, s) }"
      by (rule rd_walk_spec [OF inv0 b(2) _ _ lk _ _ _ _ structure_check_sound])
        (use both rd q in \<open>auto simp: quiet_def\<close>)
    have cmd: "smc_rtt_create rtt_addr rd_addr map_addr ulevel s = do {
        (ret, s) \<leftarrow> rd_walk g_rd ?ck map_addr (sint ulevel - 1) id ?body ?s0;
        s \<leftarrow> granule_unlock c s;
        Some (ret, s) }"
      using both(1) by (simp add: smc_rtt_create_shape)
    have back_quiet: "same_state s s'"
      if "granules s' = granules s" "content s' = content s" "slots s' = slots s"
        "vmids s' = vmids s" "glock s' = (\<lambda>x. False)" for s'
      using that q by (simp add: same_state_def quiet_def fun_eq_iff)
    have uc: "granule_unlock c s' = Some (spinlock_release c s')"
      if "granules s' = granules s" for s'
      using inv_with_unlocked_state [OF inv that b(1)] by (simp add: granule_unlock_eq)
    show ?thesis
    proof (cases "?ck rd")
      case (Some e)
      with main obtain s' where
        m: "rd_walk g_rd ?ck map_addr (sint ulevel - 1) id ?body ?s0 = Some (e, s')"
        and r: "relocked ?s0 (\<lambda>x. x = c) s'" by auto
      have "smc_rtt_create rtt_addr rd_addr map_addr ulevel s = Some (e, spinlock_release c s')"
        using cmd m r by (simp add: uc relocked_def)
      moreover have "e = RMI_ERROR_INPUT" using Some by (simp add: structure_check_def split: if_splits)
      moreover have "same_state s (spinlock_release c s')"
        using r by (intro back_quiet) (auto simp: relocked_def fun_eq_iff)
      moreover have "\<not> create_stuck rtt_addr rd_addr map_addr ulevel s"
        using Some both(4,7) rd
        by (auto simp: create_stuck_def tte_at_def structure_check_def Option.bind_eq_Some_conv split: if_splits option.splits prod.splits)
      ultimately show ?thesis using error by (simp add: word_consts)
    next
      case None
      with main obtain wi s1 where w0: "walk_result lv ?s0 (rd_s2_ctx rd) map_addr (sint ulevel - 1) wi"
        and r: "relocked ?s0 ((\<lambda>x. x = c)(g_llt wi := True)) s1"
        and m: "rd_walk g_rd ?ck map_addr (sint ulevel - 1) id ?body ?s0
          = do { (ret, s) \<leftarrow> ?body rd wi s1; s \<leftarrow> granule_unlock (g_llt wi) s; Some (ret, s) }"
        by auto
      have w: "walk_result lv s (rd_s2_ctx rd) map_addr (sint ulevel - 1) wi"
        using w0 by (simp add: walk_result_def at_table_def)
      have at: "g_llt wi < RMM_MAX_GRANULES" "gst s (g_llt wi) = GRANULE_STATE_RTT" "g_llt wi \<noteq> c"
        using w both(6) by (auto simp: walk_result_def at_table_def)
      have rs: "relocked s ((\<lambda>x. x = c)(g_llt wi := True)) s1"
        using r by (simp add: relocked_def)
      have sl: "slots s SLOT_RTT = None" using q by (simp add: quiet_def)
      have ul: "granule_unlock (g_llt wi) s' = Some (spinlock_release (g_llt wi) s')"
        if "gst s' (g_llt wi) = GRANULE_STATE_RTT" for s'
        using that by (simp add: granule_unlock_eq unlocked_ok_def)
      show ?thesis
        using inv w rs sl
      proof (cases rule: entry_body_spec [where act = ?act and rd = rd])
        case (short ret)
        have "smc_rtt_create rtt_addr rd_addr map_addr ulevel s
          = Some (ret, spinlock_release c (spinlock_release (g_llt wi) s1))"
          using cmd m short(4) at rs by (simp add: ul uc relocked_def)
        moreover have "same_state s (spinlock_release c (spinlock_release (g_llt wi) s1))"
          using rs at by (intro back_quiet) (auto simp: relocked_def fun_eq_iff)
        moreover have "\<not> create_stuck rtt_addr rd_addr map_addr ulevel s"
          using tte_at_walk(1) [OF both(4,7) rd w] short(1) by (auto simp: create_stuck_def)
        ultimately show ?thesis using error short(3) by blast
      next
        case (entry t)
        let ?s2 = "map_slot SLOT_RTT (g_llt wi) s1"
        have l3: "sint ulevel \<le> 3"
          using None by (auto simp: structure_check_def validate_rtt_structure_cmds_def Let_def
              s2tte_values split: if_splits)
        have K: "((slots s)(SLOT_RTT := Some (g_llt wi))) SLOT_DELEGATED = None"
          using q by (simp add: quiet_def)
        have wk: "granules ?s2 = granules s" "glock ?s2 = (\<lambda>x. x = c)(g_llt wi := True)"
          "slots ?s2 = (\<lambda>k. None)(SLOT_RTT := Some (g_llt wi))"
          using rs q by (auto simp: relocked_def quiet_def fun_eq_iff)
        have fin: "quiet (spinlock_release c (spinlock_release (g_llt wi) (buffer_unmap SLOT_RTT s3)))"
          if "glock s3 = glock ?s2" "slots s3 = slots ?s2" for s3
          using that wk at q by (auto simp: quiet_def)
        note f = entry_facts [OF inv w entry(1,2)]
        have stuck: "create_stuck rtt_addr rd_addr map_addr ulevel s \<longleftrightarrow>
            sint ulevel = 3 \<and> pair_available rtt_addr GRANULE_STATE_DELEGATED rd_addr GRANULE_STATE_RD s
            \<and> validate_rtt_structure_cmds map_addr 3 rd \<and> t ! unat (index wi) AND 3 = 1"
          using tte_at_walk(2) [OF both(4,7) rd w entry(1,2)] host_block_iff [OF f(9)] f(3)
          by (auto simp: create_stuck_def)
        show ?thesis
          using inv w entry(1) l3 entry(2,3) K both(3,6)
        proof (cases rule: create_act_cases [where map_addr = map_addr and rd = rd])
          case assert_false
          then have "smc_rtt_create rtt_addr rd_addr map_addr ulevel s = None"
            using cmd m entry(4) by simp
          then show ?thesis
            using that(2) [OF _ both(4) rd _ _ entry(2)] w entry(1) assert_false stuck None both(2)
            by (simp add: structure_check_def split: if_splits)
        next
          case (is_table ret)
          let ?s4 = "spinlock_release c (spinlock_release (g_llt wi) (buffer_unmap SLOT_RTT ?s2))"
          have "smc_rtt_create rtt_addr rd_addr map_addr ulevel s = Some (ret, ?s4)"
            using cmd m entry(4) is_table at rs by (simp add: ul uc relocked_def)
          moreover have "same_state s ?s4"
            using rs at q by (intro back_quiet) (auto simp: relocked_def fun_eq_iff quiet_def)
          moreover have "\<not> create_stuck rtt_addr rd_addr map_addr ulevel s" using stuck is_table(2) by blast
          ultimately show ?thesis using error is_table(1) by blast
        next
          case (success tn s3)
          let ?s4 = "spinlock_release c (spinlock_release (g_llt wi) (buffer_unmap SLOT_RTT s3))"
          have g3: "gst s3 (g_llt wi) = GRANULE_STATE_RTT" "gst s3 c = GRANULE_STATE_RTT"
            using success(3) at by (simp_all add: table_added_def)
          have "smc_rtt_create rtt_addr rd_addr map_addr ulevel s = Some (RMI_SUCCESS, ?s4)"
            using cmd m entry(4) success(1) g3
            by (simp add: ul granule_unlock_eq unlocked_ok_def)
          moreover have "table_added s (g_llt wi) (unat (index wi)) t c rtt_addr tn ?s4"
            using success(3) by (simp add: table_added_def)
          ultimately show ?thesis
            using that(3) [OF _ both(4,7) rd None both(3,6) w entry(1,2) success(2)] fin
              success(4,5) by blast
        qed
      qed
    qed
  qed
qed

lemma smc_rtt_create_safe:
  assumes "inv s" and q: "quiet s"
  shows "case smc_rtt_create rtt_addr rd_addr map_addr ulevel s of
      None \<Rightarrow> True | Some (ret, s') \<Rightarrow> inv s' \<and> quiet s'"
proof -
  from assms obtain lv par where inv: "inv_with lv par s" by (auto simp: inv_def)
  from inv q show ?thesis
  proof (cases rule: smc_rtt_create_cases [of lv par s rtt_addr rd_addr map_addr ulevel])
    case (error ret s')
    then show ?thesis using assms inv_cong [OF error(3)] quiet_cong [OF error(3)] by simp
  next
    case (success g_rd rd wi t c tn s')
    note f = entry_facts [OF inv success(8,9,10)]
    have "sint ulevel \<le> 3"
      using success(5) by (auto simp: structure_check_def validate_rtt_structure_cmds_def Let_def
          s2tte_values split: if_splits)
    from table_added_inv [OF inv f(1,2) success(10) f(4,3) this f(9) success(6,7,11,12)] success
    show ?thesis by (auto simp: inv_def)
  qed simp
qed

end
