(* ===== verification/Rtt_Read_Correct.thy ===== *)
theory Rtt_Read_Correct
  imports Rtt_Correct Rtt_Cmds
begin

text \<open>RTT.ReadEntry reports the entry the walk ends at and changes nothing.\<close>

definition entry_check :: "u64 \<Rightarrow> int \<Rightarrow> rd \<Rightarrow> u64 option" where
  "entry_check map_addr level rd =
     (if \<not> validate_rtt_entry_cmds map_addr level rd then Some RMI_ERROR_INPUT else None)"

definition read_body :: "u64 list \<Rightarrow> rd \<Rightarrow> rtt_walk \<Rightarrow> rmm \<Rightarrow> (u64 list \<times> rmm) option" where
  "read_body ret rd wi s = do {
     s \<leftarrow> granule_map (g_llt wi) SLOT_RTT s;
     s2tte \<leftarrow> s2tte_read (g_llt wi) (index wi) s;
     (x2, x3, x4) \<leftarrow> rtt_entry_regs s2tte (last_level wi);
     Some (ret[0 := RMI_SUCCESS, 1 := word_of_int (last_level wi), 2 := x2, 3 := x3, 4 := x4],
           buffer_unmap SLOT_RTT s)
   }"

lemma smc_rtt_read_entry_shape:
  "smc_rtt_read_entry rd_addr map_addr ulevel ret s =
     rtt_command rd_addr (entry_check map_addr (sint ulevel)) map_addr (sint ulevel)
       (\<lambda>e. ret[0 := e]) (read_body ret) s"
  unfolding smc_rtt_read_entry_def rtt_command_def rd_walk_def read_body_def entry_check_def Let_def
  by (intro Option.bind_cong refl)
     (auto simp del: Option.bind_eq_None_conv intro!: Option.bind_cong
       split: option.split prod.split)

lemma entry_check_sound: "check_sound (entry_check map_addr level) map_addr level"
  by (auto simp: check_sound_def entry_check_def validate_rtt_entry_cmds_def
      validate_map_addr_def s2tte_values split: if_splits)

text \<open>Every entry but a level 2 block of the host has registers that describe it.\<close>

lemma rtt_entry_regs_cases:
  "s2tte_is_destroyed e \<Longrightarrow> rtt_entry_regs e l = Some (RMI_RTT_STATE_DESTROYED, 0, 0)"
  "s2tte_is_assigned e l \<Longrightarrow> rtt_entry_regs e l = Some (RMI_RTT_STATE_ASSIGNED, addr_level_mask e l, 0)"
  "s2tte_is_valid e l \<Longrightarrow> rtt_entry_regs e l = Some (RMI_RTT_STATE_ASSIGNED, addr_level_mask e l, 1)"
  "s2tte_is_valid_ns e l \<Longrightarrow> rtt_entry_regs e l = Some (RMI_RTT_STATE_VALID_NS, host_ns_s2tte e l, 0)"
  "s2tte_is_table e l \<Longrightarrow> rtt_entry_regs e l = Some (RMI_RTT_STATE_TABLE, addr_level_mask e 3, 0)"
  using s2tte_exclusive [of e l]
  by (auto simp: rtt_entry_regs_def s2tte_pa_def ripas_reg_def s2tte_pa_table_eq
      bind_assert_c)

lemma rtt_entry_regs_unassigned:
  assumes "s2tte_is_unassigned e"
  obtains r where "s2tte_get_ripas e = Some r"
    "rtt_entry_regs e l = Some (RMI_RTT_STATE_UNASSIGNED, 0, ripas_reg r)"
  using unassigned_ripas [OF assms] assms by (auto simp: rtt_entry_regs_def)

lemma rtt_entry_regs_total:
  assumes e: "entry_ok lv par s g i e" and l: "lv g = l"
  shows "rtt_entry_regs e l = None \<longleftrightarrow> l = 2 \<and> e AND 3 = 1"
proof
  assume none: "rtt_entry_regs e l = None"
  have "\<not> leaf_entry e"
    using none rtt_entry_regs_cases(1) [of e l] rtt_entry_regs_unassigned [of e l]
    by (auto simp: leaf_entry_def s2tte_iffs)
  then show "l = 2 \<and> e AND 3 = 1"
    using e l none rtt_entry_regs_cases(2-5) [of e l]
    by (auto simp: entry_ok_def table_entry_ok_def)
next
  assume "l = 2 \<and> e AND 3 = 1"
  then show "rtt_entry_regs e l = None" by (auto simp: rtt_entry_regs_def s2tte_iffs)
qed

text \<open>The arguments name a realm and an address of it that is aligned for the level.\<close>

definition readable_entry :: "u64 \<Rightarrow> u64 \<Rightarrow> int \<Rightarrow> rmm \<Rightarrow> bool" where
  "readable_entry rd_addr map_addr level s \<longleftrightarrow>
     (\<exists>g_rd rd. find_granule rd_addr = Some g_rd \<and> gst s g_rd = GRANULE_STATE_RD \<and> content s g_rd = CRd rd
        \<and> realm_rtt_starting_level rd \<le> level \<and> level \<le> 3
        \<and> addr_is_level_aligned map_addr level \<and> map_addr < realm_ipa_size rd)"

lemma readable_entryI:
  "find_granule rd_addr = Some g_rd \<Longrightarrow> gst s g_rd = GRANULE_STATE_RD \<Longrightarrow> content s g_rd = CRd rd
    \<Longrightarrow> validate_rtt_entry_cmds map_addr level rd \<Longrightarrow> readable_entry rd_addr map_addr level s"
  by (auto simp: readable_entry_def validate_rtt_entry_cmds_def validate_map_addr_def s2tte_values split: if_splits)

lemma smc_rtt_read_entry_cases:
  assumes inv: "inv_with lv par s" and q: "quiet s"
  obtains (error) s' where
      "smc_rtt_read_entry rd_addr map_addr ulevel ret s = Some (ret[0 := RMI_ERROR_INPUT], s')"
      "same_state s s'" "\<not> readable_entry rd_addr map_addr (sint ulevel) s"
    | (entry) g_rd rd wi t where
      "find_granule rd_addr = Some g_rd" "gst s g_rd = GRANULE_STATE_RD" "content s g_rd = CRd rd"
      "validate_rtt_entry_cmds map_addr (sint ulevel) rd"
      "walk_result lv s (rd_s2_ctx rd) map_addr (sint ulevel) wi"
      "table_of (content s (g_llt wi)) = Some t"
      "case rtt_entry_regs (t ! unat (index wi)) (last_level wi) of
         None \<Rightarrow> smc_rtt_read_entry rd_addr map_addr ulevel ret s = None
           \<and> last_level wi = 2 \<and> t ! unat (index wi) AND 3 = 1
       | Some (x2, x3, x4) \<Rightarrow> \<exists>s'. same_state s s' \<and>
           smc_rtt_read_entry rd_addr map_addr ulevel ret s
             = Some (ret[0 := RMI_SUCCESS, 1 := word_of_int (last_level wi), 2 := x2, 3 := x3,
                         4 := x4], s')"
  using inv q entry_check_sound
proof (cases rule: rtt_command_spec [where rd_addr = rd_addr and err = "\<lambda>e. ret[0 := e]"
      and body = "read_body ret" and map_addr = map_addr and level = "sint ulevel"])
  case (reject e s')
  then have "e = RMI_ERROR_INPUT" by (auto simp: entry_check_def split: if_splits)
  moreover have "\<not> readable_entry rd_addr map_addr (sint ulevel) s"
    using reject(3) by (auto simp: readable_entry_def entry_check_def validate_rtt_entry_cmds_def
        validate_map_addr_def s2tte_values split: if_splits)
  ultimately show ?thesis using error reject(1,2) by (simp add: smc_rtt_read_entry_shape)
next
  case (walk g_rd rd wi s1)
  have v: "validate_rtt_entry_cmds map_addr (sint ulevel) rd"
    using walk(4) by (simp add: entry_check_def split: if_splits)
  have s1: "granules s1 = granules s" "content s1 = content s" "vmids s1 = vmids s"
    "glock s1 = (\<lambda>x. x = g_llt wi)" "slots s1 = (\<lambda>k. None)"
    using walk(6) q by (auto simp: relocked_def quiet_def)
  have at: "g_llt wi < RMM_MAX_GRANULES" "gst s (g_llt wi) = GRANULE_STATE_RTT"
    using walk(5) by (simp_all add: walk_result_def at_table_def)
  from inv at obtain t where t: "table_of (content s (g_llt wi)) = Some t" "length t = 512"
    by (elim inv_with_rtt) auto
  have f: "lv (g_llt wi) = last_level wi" "unat (index wi) < 512"
    using walk(5) s2_addr_to_idx_bound by (auto simp: walk_result_def at_table_def)
  have eo: "entry_ok lv par s (g_llt wi) (unat (index wi)) (t ! unat (index wi))"
    using inv at t f(2) by (elim inv_with_rtt) auto
  have rd1: "granule_map (g_llt wi) SLOT_RTT s1 = Some (map_slot SLOT_RTT (g_llt wi) s1)"
    using at s1 by (simp add: granule_map_eq)
  have rd2: "s2tte_read (g_llt wi) (index wi) (map_slot SLOT_RTT (g_llt wi) s1)
      = Some (t ! unat (index wi))"
    using t s1 f(2) by (simp add: s2tte_read_def)
  have un: "buffer_unmap SLOT_RTT (map_slot SLOT_RTT (g_llt wi) s1) = s1"
    using s1 by (simp add: buffer_unmap_map_slot)
  have ul: "granule_unlock (g_llt wi) s1 = Some (spinlock_release (g_llt wi) s1)"
    using inv_with_unlocked_state [OF inv s1(1) at(1)] by (simp add: granule_unlock_eq)
  have same: "same_state s (spinlock_release (g_llt wi) s1)"
    using s1 q by (auto simp: same_state_def quiet_def fun_eq_iff)
  have "case rtt_entry_regs (t ! unat (index wi)) (last_level wi) of
         None \<Rightarrow> smc_rtt_read_entry rd_addr map_addr ulevel ret s = None
           \<and> last_level wi = 2 \<and> t ! unat (index wi) AND 3 = 1
       | Some (x2, x3, x4) \<Rightarrow> \<exists>s'. same_state s s' \<and>
           smc_rtt_read_entry rd_addr map_addr ulevel ret s
             = Some (ret[0 := RMI_SUCCESS, 1 := word_of_int (last_level wi), 2 := x2, 3 := x3,
                         4 := x4], s')"
  proof (cases "rtt_entry_regs (t ! unat (index wi)) (last_level wi)")
    case None
    then show ?thesis
      using rtt_entry_regs_total [OF eo f(1)] walk(7)
      by (simp add: smc_rtt_read_entry_shape read_body_def rd1 rd2)
  next
    case (Some r)
    then show ?thesis
      using walk(7) same
      by (cases r) (simp add: smc_rtt_read_entry_shape read_body_def rd1 rd2 un ul)
  qed
  then show ?thesis using entry [OF walk(1-3) v walk(5) t(1)] by blast
qed

end
