(* ===== verification/Ripas_Cmds.thy ===== *)
theory Ripas_Cmds
  imports Rtt_Cmds
begin

text \<open>
  The commands of runtime/rmi/rtt.c that change the RIPAS of an entry: RTT.InitRipas,
  which measures, and RTT.SetRipas, which answers a request of a REC.
\<close>

section \<open>Updating one entry\<close>

text \<open>The result is \<^verbatim>\<open>Some None\<close> if the C function returns false, and the new entry otherwise.\<close>

definition update_ripas :: "u64 \<Rightarrow> int \<Rightarrow> ripas \<Rightarrow> u64 option option" where
  "update_ripas s2tte level ripas =
     (if s2tte_is_table s2tte level then Some None
      else if s2tte_is_valid s2tte level then
        (if ripas = RMI_EMPTY then do {
           pa \<leftarrow> s2tte_pa s2tte level;
           e \<leftarrow> s2tte_create_assigned_empty pa level;
           Some (Some e)
         } else Some (Some s2tte))
      else if s2tte_is_unassigned s2tte \<or> s2tte_is_assigned s2tte level then
        Some (Some (s2tte OR s2tte_create_ripas ripas))
      else Some None)"

definition ripas_granule_measure :: "hash_fun \<Rightarrow> rd \<Rightarrow> u64 \<Rightarrow> u64 \<Rightarrow> rd" where
  "ripas_granule_measure hash rd ipa level =
     set_rim (measurement_hash_compute hash (rd_algorithm rd)
                (MeasDescRipas (rim_field rd) ipa (ucast level)) (rd_measurement rd ! 0)) rd"

section \<open>RTT.InitRipas\<close>

definition smc_rtt_init_ripas :: "hash_fun \<Rightarrow> u64 \<Rightarrow> u64 \<Rightarrow> u64 \<Rightarrow> rmm \<Rightarrow> (u64 \<times> rmm) option" where
  "smc_rtt_init_ripas hash rd_addr map_addr ulevel s = do {
     let level = sint ulevel;
     (r, s) \<leftarrow> find_lock_granule rd_addr GRANULE_STATE_RD s;
     (case r of
        None \<Rightarrow> Some (RMI_ERROR_INPUT, s)
      | Some g_rd \<Rightarrow> do {
          s \<leftarrow> granule_map g_rd SLOT_RD s;
          rd \<leftarrow> rd_of (content s g_rd);
          if rd_state rd \<noteq> REALM_STATE_NEW then do {
            let s = buffer_unmap SLOT_RD s;
            s \<leftarrow> granule_unlock g_rd s;
            Some (RMI_ERROR_REALM, s)
          } else if \<not> validate_rtt_entry_cmds map_addr level rd then do {
            let s = buffer_unmap SLOT_RD s;
            s \<leftarrow> granule_unlock g_rd s;
            Some (RMI_ERROR_INPUT, s)
          } else if \<not> addr_in_par rd map_addr then do {
            let s = buffer_unmap SLOT_RD s;
            s \<leftarrow> granule_unlock g_rd s;
            Some (RMI_ERROR_INPUT, s)
          } else do {
            let g_rtt_root = s2_g_rtt (rd_s2_ctx rd);
            let sl = realm_rtt_starting_level rd;
            let ipa_bits = realm_ipa_bits rd;
            s \<leftarrow> granule_lock g_rtt_root GRANULE_STATE_RTT s;
            s \<leftarrow> granule_unlock g_rd s;
            (wi, s) \<leftarrow> rtt_walk_lock_unlock g_rtt_root sl ipa_bits map_addr level s;
            (ret, s) \<leftarrow>
              (if last_level wi \<noteq> level then do {
                 ret \<leftarrow> rtt_error (last_level wi);
                 Some (ret, s)
               } else do {
                 s \<leftarrow> granule_map (g_llt wi) SLOT_RTT s;
                 s2tte \<leftarrow> s2tte_read (g_llt wi) (index wi) s;
                 (ret, s) \<leftarrow>
                   (if s2tte_is_table s2tte level \<or> \<not> s2tte_is_unassigned s2tte then do {
                      ret \<leftarrow> rtt_error level;
                      Some (ret, s)
                    } else do {
                      let s2tte = s2tte OR s2tte_create_ripas RMI_RAM;
                      s \<leftarrow> s2tte_write (g_llt wi) (index wi) s2tte s;
                      rd \<leftarrow> rd_of (content s g_rd);
                      let s = set_content g_rd
                                (CRd (ripas_granule_measure hash rd map_addr ulevel)) s;
                      Some (RMI_SUCCESS, s)
                    });
                 let s = buffer_unmap SLOT_RTT s;
                 Some (ret, s)
               });
            let s = buffer_unmap SLOT_RD s;
            s \<leftarrow> granule_unlock (g_llt wi) s;
            Some (ret, s)
          }
        })
   }"

section \<open>RTT.SetRipas\<close>

text \<open>\<^verbatim>\<open>(enum ripas)uripas\<close> keeps the low 32 bits; values above \<^verbatim>\<open>RMI_RAM\<close> are refused.\<close>

definition ripas_arg :: "u64 \<Rightarrow> ripas option" where
  "ripas_arg uripas =
     (let r = (ucast uripas :: u32)
      in if r = 0 then Some RMI_EMPTY else if r = 1 then Some RMI_RAM else None)"

definition set_rec :: "nat \<Rightarrow> rec \<Rightarrow> rmm \<Rightarrow> rmm" where
  "set_rec g r s = set_content g (CRec r) s"

text \<open>The part of the command with the REC and the RD mapped and both locked.\<close>

definition set_ripas_entry ::
  "nat \<Rightarrow> nat \<Rightarrow> rec \<Rightarrow> rd \<Rightarrow> u64 \<Rightarrow> int \<Rightarrow> ripas \<Rightarrow> rmm \<Rightarrow> (u64 \<times> rmm) option" where
  "set_ripas_entry g_rd g_rec rec rd map_addr level ripas s =
     (if \<not> validate_rtt_entry_cmds map_addr level rd then Some (RMI_ERROR_INPUT, s)
      else do {
        map_size \<leftarrow> s2tte_map_size level;
        if sr_end (rec_set_ripas rec) < map_addr + map_size then Some (RMI_ERROR_INPUT, s)
        else do {
          let g_rtt_root = s2_g_rtt (rd_s2_ctx rd);
          let sl = realm_rtt_starting_level rd;
          let ipa_bits = realm_ipa_bits rd;
          let s2_ctx = rd_s2_ctx rd;
          s \<leftarrow> granule_lock g_rtt_root GRANULE_STATE_RTT s;
          (wi, s) \<leftarrow> rtt_walk_lock_unlock g_rtt_root sl ipa_bits map_addr level s;
          (ret, s) \<leftarrow>
            (if last_level wi \<noteq> level then do {
               ret \<leftarrow> rtt_error (last_level wi);
               Some (ret, s)
             } else do {
               s \<leftarrow> granule_map (g_llt wi) SLOT_RTT s;
               s2tte \<leftarrow> s2tte_read (g_llt wi) (index wi) s;
               let valid = s2tte_is_valid s2tte level;
               upd \<leftarrow> update_ripas s2tte level ripas;
               (ret, s) \<leftarrow>
                 (case upd of
                    None \<Rightarrow> do {
                      ret \<leftarrow> rtt_error level;
                      Some (ret, s)
                    }
                  | Some s2tte' \<Rightarrow> do {
                      s \<leftarrow> s2tte_write (g_llt wi) (index wi) s2tte' s;
                      let s = (if valid \<and> ripas = RMI_EMPTY
                               then if level = RTT_PAGE_LEVEL
                                    then invalidate_page s2_ctx map_addr s
                                    else invalidate_block s2_ctx map_addr s
                               else s);
                      let sr = rec_set_ripas rec;
                      let rec = rec\<lparr>rec_set_ripas := sr\<lparr>sr_addr := sr_addr sr + map_size\<rparr>\<rparr>;
                      Some (RMI_SUCCESS, set_rec g_rec rec s)
                    });
               let s = buffer_unmap SLOT_RTT s;
               Some (ret, s)
             });
          s \<leftarrow> granule_unlock (g_llt wi) s;
          Some (ret, s)
        }
      })"

definition smc_rtt_set_ripas ::
  "u64 \<Rightarrow> u64 \<Rightarrow> u64 \<Rightarrow> u64 \<Rightarrow> u64 \<Rightarrow> rmm \<Rightarrow> (u64 \<times> rmm) option" where
  "smc_rtt_set_ripas rd_addr rec_addr map_addr ulevel uripas s =
     (case ripas_arg uripas of
        None \<Rightarrow> Some (RMI_ERROR_INPUT, s)
      | Some ripas \<Rightarrow> do {
          let level = sint ulevel;
          (r, s) \<leftarrow> find_lock_two_granules rd_addr GRANULE_STATE_RD
                                             rec_addr GRANULE_STATE_REC s;
          (case r of
             None \<Rightarrow> Some (RMI_ERROR_INPUT, s)
           | Some (g_rd, g_rec) \<Rightarrow> do {
               (ret, s) \<leftarrow>
                 (if g_refcount (granules s g_rec) \<noteq> 0 then Some (RMI_ERROR_IN_USE, s)
                  else do {
                    s \<leftarrow> granule_map g_rec SLOT_REC s;
                    rec \<leftarrow> rec_of (content s g_rec);
                    (ret, s) \<leftarrow>
                      (if g_rd \<noteq> ri_g_rd (rec_realm_info rec) then Some (RMI_ERROR_REC, s)
                       else if ripas \<noteq> sr_ripas (rec_set_ripas rec)
                       then Some (RMI_ERROR_INPUT, s)
                       else if map_addr \<noteq> sr_addr (rec_set_ripas rec)
                       then Some (RMI_ERROR_INPUT, s)
                       else do {
                         s \<leftarrow> granule_map g_rd SLOT_RD s;
                         rd \<leftarrow> rd_of (content s g_rd);
                         (ret, s) \<leftarrow> set_ripas_entry g_rd g_rec rec rd map_addr level ripas s;
                         Some (ret, buffer_unmap SLOT_RD s)
                       });
                    Some (ret, buffer_unmap SLOT_REC s)
                  });
               s \<leftarrow> granule_unlock g_rec s;
               s \<leftarrow> granule_unlock g_rd s;
               Some (ret, s)
             })
        })"

end
