(* ===== verification/Ripas_Correct.thy ===== *)
theory Ripas_Correct
  imports Rtt_Correct Rtt_Read_Correct Ripas_Cmds
begin

text \<open>RTT.InitRipas and RTT.SetRipas change the RIPAS of one entry and nothing else of it.\<close>

section \<open>One entry\<close>

lemma page_mask_aligned: "addr_is_level_aligned (addr_level_mask e 3) 3"
  by (simp add: addr_is_level_aligned_def and.assoc)

lemma create_ripas_values: "s2tte_create_ripas RMI_EMPTY = 0" "s2tte_create_ripas RMI_RAM = 0x40"
  by (simp_all add: s2tte_create_ripas_def s2tte_values)

lemma or_ripas_bits:
  "(e OR s2tte_create_ripas r) AND 3 = e AND 3" "(e OR s2tte_create_ripas r) AND 0x3C = e AND 0x3C"
  "addr_level_mask (e OR s2tte_create_ripas r) 3 = addr_level_mask e 3"
  "addr_level_mask (e OR s2tte_create_ripas r) 2 = addr_level_mask e 2"
  by (cases r; simp add: create_ripas_values bit.conj_disj_distrib2)+

lemma or_ripas_kinds:
  "s2tte_is_assigned (e OR s2tte_create_ripas r) l = s2tte_is_assigned e l"
  "s2tte_is_unassigned (e OR s2tte_create_ripas r) = s2tte_is_unassigned e"
  by (simp_all add: s2tte_hipas_iff or_ripas_bits)

lemma update_ripas_valid:
  assumes "s2tte_is_valid e 3"
  shows "update_ripas e 3 r = Some (Some (if r = RMI_EMPTY then addr_level_mask e 3 OR 4 else e))"
  using assms page_mask_aligned [of e] s2tte_exclusive(4) [OF assms]
  by (auto simp: update_ripas_def s2tte_pa_def s2tte_create_assigned_empty_def bind_assert_c
      s2tte_values s2tte_iffs)

lemma assigned_of_mask:
  "s2tte_is_assigned (addr_level_mask e 3 OR 4) 3"
  "addr_level_mask (addr_level_mask e 3 OR 4) 3 = addr_level_mask e 3"
  by (simp_all add: s2tte_hipas_iff bit.conj_disj_distrib2 and.assoc)

lemma update_ripas_result:
  assumes e: "entry_ok lv par s g i e" and l: "lv g = l"
  obtains (refused) "update_ripas e l r = Some None"
      "s2tte_is_table e l \<or> \<not> (s2tte_is_unassigned e \<or> s2tte_is_assigned e l \<or> s2tte_is_valid e l)"
    | (updated) e' where "update_ripas e l r = Some (Some e')" "entry_ok lv par s g i e'"
      "s2tte_refs e' = s2tte_refs e"
      "s2tte_is_unassigned e \<or> s2tte_is_assigned e l \<or> s2tte_is_valid e l"
proof -
  consider (table) "s2tte_is_table e l" | (valid) "s2tte_is_valid e l"
    | (un) "s2tte_is_unassigned e" | (as) "s2tte_is_assigned e l"
    | (other) "\<not> s2tte_is_table e l" "\<not> s2tte_is_valid e l" "\<not> s2tte_is_unassigned e"
        "\<not> s2tte_is_assigned e l" by blast
  then show ?thesis
  proof cases
    case table
    then show ?thesis using refused by (simp add: update_ripas_def)
  next
    case valid
    then have l3: "l = 3" by (rule valid_level_is_3)
    let ?e' = "if r = RMI_EMPTY then addr_level_mask e 3 OR 4 else e"
    have own: "owns_pages par s g i (addr_level_mask e 3) 1"
      using e l l3 valid by (auto simp: entry_ok_def table_entry_ok_def s2tte_iffs leaf_entry_def)
    have "entry_ok lv par s g i (addr_level_mask e 3 OR 4)"
      unfolding entry_ok_def assigned_of_mask(2) using assigned_of_mask(1) [of e] own l l3 by blast
    then have "entry_ok lv par s g i ?e'" using e by simp
    moreover have "s2tte_refs ?e' = s2tte_refs e"
      using valid s2tte_refs_assigned [OF assigned_of_mask(1)] by simp
    ultimately show ?thesis using updated update_ripas_valid valid l3 by blast
  next
    case un
    then have "e = 0 \<or> e = 0x40" using entry_ok_unassigned [OF e] by blast
    then have "leaf_entry (e OR s2tte_create_ripas r)"
      by (cases r) (auto simp: create_ripas_values leaf_entry_def)
    moreover have "update_ripas e l r = Some (Some (e OR s2tte_create_ripas r))"
      using un s2tte_exclusive(1) [OF un] by (simp add: update_ripas_def)
    ultimately show ?thesis using updated un by (simp add: leaf_entry_refs)
  next
    case as
    have u: "update_ripas e l r = Some (Some (e OR s2tte_create_ripas r))"
      using as s2tte_exclusive(3) [OF as] by (simp add: update_ripas_def)
    have "entry_ok lv par s g i (e OR s2tte_create_ripas r)"
      using e as unfolding entry_ok_def or_ripas_bits or_ripas_kinds
      by (auto simp: table_entry_ok_def s2tte_iffs leaf_entry_def)
    then show ?thesis
      using updated u as or_ripas_kinds(1) [of e r l] by simp
  next
    case other
    then show ?thesis using refused by (simp add: update_ripas_def)
  qed
qed

section \<open>RTT.InitRipas\<close>

definition init_check :: "u64 \<Rightarrow> int \<Rightarrow> rd \<Rightarrow> u64 option" where
  "init_check map_addr level rd =
     (if rd_state rd \<noteq> REALM_STATE_NEW then Some RMI_ERROR_REALM
      else if \<not> validate_rtt_entry_cmds map_addr level rd \<or> \<not> addr_in_par rd map_addr
      then Some RMI_ERROR_INPUT else None)"

lemma ripas_granule_measure_simps [simp]:
  "rd_s2_ctx (ripas_granule_measure hash rd ipa l) = rd_s2_ctx rd"
  "length (rd_measurement (ripas_granule_measure hash rd ipa l)) = length (rd_measurement rd)"
  by (simp_all add: ripas_granule_measure_def set_rim_def)

text \<open>An unassigned entry becomes RAM and the descriptor is measured.\<close>

definition ripas_set ::
  "rmm \<Rightarrow> nat \<Rightarrow> content \<Rightarrow> nat \<Rightarrow> nat \<Rightarrow> u64 list \<Rightarrow> u64 \<Rightarrow> rmm \<Rightarrow> bool" where
  "ripas_set s r c g i t e s' \<longleftrightarrow> granules s' = granules s
     \<and> content s' = (content s)(r := c, g := CTable (t[i := e])) \<and> vmids s' = vmids s"

lemma smc_rtt_init_ripas_cases:
  assumes inv: "inv_with lv par s" and q: "quiet s"
  obtains (error) ret s' where "smc_rtt_init_ripas hash rd_addr map_addr ulevel s = Some (ret, s')"
      "ret \<noteq> RMI_SUCCESS" "same_state s s'"
    | (success) g_rd rd wi t s' where
      "smc_rtt_init_ripas hash rd_addr map_addr ulevel s = Some (RMI_SUCCESS, s')"
      "find_granule rd_addr = Some g_rd" "gst s g_rd = GRANULE_STATE_RD" "content s g_rd = CRd rd"
      "init_check map_addr (sint ulevel) rd = None"
      "walk_result lv s (rd_s2_ctx rd) map_addr (sint ulevel) wi" "last_level wi = sint ulevel"
      "table_of (content s (g_llt wi)) = Some t" "s2tte_is_unassigned (t ! unat (index wi))"
      "ripas_set s g_rd (CRd (ripas_granule_measure hash rd map_addr ulevel)) (g_llt wi)
         (unat (index wi)) t 0x40 s'" "quiet s'"
proof (cases "\<exists>g. find_granule rd_addr = Some g \<and> gst s g = GRANULE_STATE_RD")
  case False
  then have "\<exists>s'. find_lock_granule rd_addr GRANULE_STATE_RD s = Some (None, s') \<and> same_state s s'"
    using q same_state_lock_unlock [of s]
    by (cases "find_granule rd_addr") (auto simp: find_lock_quiet [OF q inv] quiet_def)
  then obtain s' where "find_lock_granule rd_addr GRANULE_STATE_RD s = Some (None, s')"
    "same_state s s'" by blast
  then show ?thesis using error [of RMI_ERROR_INPUT s']
    by (simp add: smc_rtt_init_ripas_def word_consts)
next
  case True
  then obtain g_rd where g: "find_granule rd_addr = Some g_rd" "gst s g_rd = GRANULE_STATE_RD" by blast
  then have b: "g_rd < RMM_MAX_GRANULES" using find_granule_bound by blast
  from inv_with_rd [OF inv b g(2)] obtain rd where rd: "content s g_rd = CRd rd"
    by (auto simp: rd_ok_def)
  let ?s1 = "map_slot SLOT_RD g_rd (lock_g g_rd GRANULE_STATE_RD s)"
  have fl: "find_lock_granule rd_addr GRANULE_STATE_RD s = Some (Some g_rd, lock_g g_rd GRANULE_STATE_RD s)"
    by (simp add: find_lock_quiet [OF q inv] g)
  have m1: "granule_map g_rd SLOT_RD (lock_g g_rd GRANULE_STATE_RD s) = Some ?s1"
    using b q by (simp add: granule_map_eq quiet_def)
  have s1: "granules ?s1 = granules s" "content ?s1 = content s" "vmids ?s1 = vmids s"
    "glock ?s1 = (\<lambda>x. x = g_rd)" "slots ?s1 = (\<lambda>k. None)(SLOT_RD := Some g_rd)"
    using q by (auto simp: quiet_def fun_eq_iff)
  have ul: "granule_unlock g_rd t = Some (spinlock_release g_rd t)" if "granules t = granules s" for t
    using inv_with_unlocked_state [OF inv that b] by (simp add: granule_unlock_eq)
  show ?thesis
  proof (cases "init_check map_addr (sint ulevel) rd")
    case (Some e)
    let ?s' = "spinlock_release g_rd (buffer_unmap SLOT_RD ?s1)"
    have "smc_rtt_init_ripas hash rd_addr map_addr ulevel s = Some (e, ?s')"
      using Some fl m1 rd ul [of "buffer_unmap SLOT_RD ?s1"]
      by (auto simp: smc_rtt_init_ripas_def init_check_def Let_def split: if_splits)
    moreover have "same_state s ?s'" using q by (auto simp: same_state_def quiet_def fun_eq_iff)
    moreover have "e \<noteq> RMI_SUCCESS"
      using Some by (auto simp: init_check_def word_consts split: if_splits)
    ultimately show ?thesis using error by blast
  next
    case None
    have i1: "inv_with lv par ?s1" using inv s1(1,2) by (rule inv_with_same)
    have rd1: "gst ?s1 g_rd = GRANULE_STATE_RD" "content ?s1 g_rd = CRd rd" using g rd by simp_all
    have L: "\<And>x. glock ?s1 x \<Longrightarrow> gst ?s1 x \<noteq> GRANULE_STATE_RTT"
      unfolding s1(4) using g(2) by auto
    have cs: "map_addr < realm_ipa_size rd" "realm_rtt_starting_level rd \<le> sint ulevel" "sint ulevel \<le> 3"
      "slots ?s1 SLOT_RTT = None"
      using None s1(5)
      by (auto simp: init_check_def validate_rtt_entry_cmds_def validate_map_addr_def s2tte_values
          split: if_splits)
    let ?root = "s2_g_rtt (rd_s2_ctx rd)"
    note root = rd_root_lock [OF i1 b rd1 L]
    let ?s0 = "spinlock_release g_rd (lock_g ?root GRANULE_STATE_RTT ?s1)"
    have ul0: "granule_unlock g_rd (lock_g ?root GRANULE_STATE_RTT ?s1) = Some ?s0"
      by (rule ul) simp
    have s0: "granules ?s0 = granules ?s1" "content ?s0 = content ?s1" "slots ?s0 SLOT_RTT = None"
      using cs(4) by simp_all
    have "?root \<noteq> g_rd" using root(2) rd1(1) by auto
    then have lk: "glock ?s0 = (\<lambda>x. False)(?root := True)"
      using q by (auto simp: quiet_def fun_eq_iff)
    from rd_root_walk [OF i1 b rd1 s0 lk _ cs(1-3)] obtain wi s2 where wk:
      "rtt_walk_lock_unlock ?root (realm_rtt_starting_level rd) (realm_ipa_bits rd) map_addr
         (sint ulevel) ?s0 = Some (wi, s2)"
      "walk_result lv ?s1 (rd_s2_ctx rd) map_addr (sint ulevel) wi"
      "relocked ?s0 ((\<lambda>x. False)(g_llt wi := True)) s2" by blast
    have w: "walk_result lv s (rd_s2_ctx rd) map_addr (sint ulevel) wi"
      using wk(2) by (simp add: walk_result_def at_table_def)
    have s2: "granules s2 = granules s" "content s2 = content s" "vmids s2 = vmids s"
      "glock s2 = (\<lambda>x. x = g_llt wi)" "slots s2 = (\<lambda>k. None)(SLOT_RD := Some g_rd)"
      using wk(3) q by (auto simp: relocked_def quiet_def fun_eq_iff)
    have ck: "rd_state rd = REALM_STATE_NEW" "validate_rtt_entry_cmds map_addr (sint ulevel) rd"
      "addr_in_par rd map_addr" using None by (auto simp: init_check_def split: if_splits)
    note start = fl m1 rd ck root(1) ul0 wk(1)
    have ne: "g_llt wi \<noteq> g_rd" using w g(2) by (auto simp: walk_result_def at_table_def)
    have undone: "same_state s (spinlock_release (g_llt wi) (buffer_unmap SLOT_RD s2))"
      using s2 q by (auto simp: same_state_def quiet_def fun_eq_iff)
    note ulw = walk_unlock [OF inv w, of "buffer_unmap SLOT_RD s2"]
    show ?thesis
    proof (cases "last_level wi = sint ulevel")
      case False
      obtain ret where ret: "rtt_error (last_level wi) = Some ret" "ret \<noteq> RMI_SUCCESS"
        using walk_error [OF inv w] by blast
      have "smc_rtt_init_ripas hash rd_addr map_addr ulevel s
        = Some (ret, spinlock_release (g_llt wi) (buffer_unmap SLOT_RD s2))"
        using start False ret ulw s2(1) by (simp add: smc_rtt_init_ripas_def)
      then show ?thesis using ret undone error by blast
    next
      case l: True
      have sl: "slots s2 SLOT_RTT = None" using s2 by simp
      from walk_read [OF inv w s2(1,2) sl] obtain t where
        t: "table_of (content s (g_llt wi)) = Some t" "length t = 512"
        "granule_map (g_llt wi) SLOT_RTT s2 = Some (map_slot SLOT_RTT (g_llt wi) s2)"
        "s2tte_read (g_llt wi) (index wi) (map_slot SLOT_RTT (g_llt wi) s2)
           = Some (t ! unat (index wi))" by blast
      note f = entry_facts [OF inv w l t(1)]
      let ?e = "t ! unat (index wi)"
      show ?thesis
      proof (cases "s2tte_is_unassigned ?e")
        case False
        obtain ret where ret: "rtt_error (sint ulevel) = Some ret" "ret \<noteq> RMI_SUCCESS"
          using walk_error [OF inv w] l by auto
        have "smc_rtt_init_ripas hash rd_addr map_addr ulevel s
          = Some (ret, spinlock_release (g_llt wi) (buffer_unmap SLOT_RD s2))"
          using start l False ret ulw s2(1) t sl
          by (simp add: smc_rtt_init_ripas_def buffer_unmap_map_slot)
        then show ?thesis using ret undone error by blast
      next
        case True
        have nt: "\<not> s2tte_is_table ?e (sint ulevel)" using s2tte_exclusive(1) [OF True] by blast
        have "?e = 0 \<or> ?e = 0x40" using entry_ok_unassigned [OF f(9) True] .
        then have e: "?e OR s2tte_create_ripas RMI_RAM = 0x40"
          by (auto simp: create_ripas_values)
        let ?c = "CRd (ripas_granule_measure hash rd map_addr ulevel)"
        let ?s3 = "set_content g_rd ?c (emit (EvTteWrite (g_llt wi) (unat (index wi)) 0x40)
          (set_content (g_llt wi) (CTable (t[unat (index wi) := 0x40]))
             (map_slot SLOT_RTT (g_llt wi) s2)))"
        let ?s4 = "spinlock_release (g_llt wi) (buffer_unmap SLOT_RD (buffer_unmap SLOT_RTT ?s3))"
        have "granule_unlock (g_llt wi) (buffer_unmap SLOT_RD (buffer_unmap SLOT_RTT ?s3)) = Some ?s4"
          using walk_unlock [OF inv w] s2(1) by simp
        then have "smc_rtt_init_ripas hash rd_addr map_addr ulevel s = Some (RMI_SUCCESS, ?s4)"
          using start l True nt t f(4) e s2(2) ne rd
          by (simp add: smc_rtt_init_ripas_def s2tte_write_eq)
        moreover have "ripas_set s g_rd ?c (g_llt wi) (unat (index wi)) t 0x40 ?s4"
          using s2 ne by (auto simp: ripas_set_def fun_eq_iff)
        moreover have "quiet ?s4" using s2 by (auto simp: quiet_def)
        ultimately show ?thesis using success [OF _ g rd None w l t(1) True] by blast
      qed
    qed
  qed
qed

lemma ripas_set_inv:
  assumes im: "inv_with lv par (s\<lparr>content := (content s)(r := c)\<rparr>)"
    and inv: "inv_with lv par s" and w: "walk_result lv s ctx addr level wi"
    and l: "last_level wi = level" and t: "table_of (content s (g_llt wi)) = Some t"
    and ne: "r \<noteq> g_llt wi"
    and e: "entry_ok lv par s (g_llt wi) (unat (index wi)) e"
      "s2tte_refs e = s2tte_refs (t ! unat (index wi))"
    and rs: "ripas_set s r c (g_llt wi) (unat (index wi)) t e s'"
  shows "inv_with lv par s'"
proof -
  note f = entry_facts [OF inv w l t]
  let ?m = "s\<lparr>content := (content s)(r := c)\<rparr>"
  have gr: "granules s' = granules s" using rs by (simp add: ripas_set_def)
  have t': "table_of (content ?m (g_llt wi)) = Some t" using t ne by simp
  have rw: "ref_word e = ref_word (t ! unat (index wi))" using e(2) by (simp add: ref_word_def)
  have "gst ?m (g_llt wi) = GRANULE_STATE_RTT" using f(2) by simp
  show ?thesis
  proof (rule inv_write_entry [OF im f(1) \<open>gst ?m (g_llt wi) = _\<close> t' f(4)])
    show "granules s' = (granules ?m)(g_llt wi := (granules ?m (g_llt wi))
      \<lparr>g_refcount := grc ?m (g_llt wi) - ref_word (t ! unat (index wi)) + ref_word e\<rparr>)"
      by (simp add: gr rw)
    show "content s' = (content ?m)(g_llt wi := CTable (t[unat (index wi) := e]))"
      using rs by (simp add: ripas_set_def)
    show "entry_ok lv par s' (g_llt wi) (unat (index wi)) e"
      using e(1) by (rule entry_ok_frame) (simp_all add: kept_def gr)
  qed
qed

lemma smc_rtt_init_ripas_safe:
  assumes "inv s" and q: "quiet s"
  shows "case smc_rtt_init_ripas hash rd_addr map_addr ulevel s of
      None \<Rightarrow> False | Some (ret, s') \<Rightarrow> inv s' \<and> quiet s'"
proof -
  from assms obtain lv par where inv: "inv_with lv par s" by (auto simp: inv_def)
  from inv q show ?thesis
  proof (cases rule: smc_rtt_init_ripas_cases [of lv par s hash rd_addr map_addr ulevel])
    case (error ret s')
    then show ?thesis using assms inv_cong quiet_cong by auto
  next
    case (success g_rd rd wi t s')
    let ?c = "CRd (ripas_granule_measure hash rd map_addr ulevel)"
    have ne: "g_rd \<noteq> g_llt wi" using success(3,6) by (auto simp: walk_result_def at_table_def)
    have im: "inv_with lv par (s\<lparr>content := (content s)(g_rd := ?c)\<rparr>)"
      using inv success(3,4) by (rule inv_rd_update) simp_all
    have "entry_ok lv par s (g_llt wi) (unat (index wi)) 0x40"
      "s2tte_refs 0x40 = s2tte_refs (t ! unat (index wi))"
      using success(9) by (simp_all add: leaf_entry_def leaf_entry_refs)
    from ripas_set_inv [OF im inv success(6,7,8) ne this success(10)] success
    show ?thesis by (simp add: inv_defI)
  qed
qed

section \<open>RTT.SetRipas\<close>

lemma s2tte_map_size_total: "l \<le> 3 \<Longrightarrow> \<exists>n. s2tte_map_size l = Some n"
  by (simp add: s2tte_map_size_def Let_def bind_assert_c s2tte_values)

text \<open>What the checks of the command on the REC and the descriptor let through.\<close>

definition set_ripas_ok :: "nat \<Rightarrow> rec \<Rightarrow> rd \<Rightarrow> u64 \<Rightarrow> int \<Rightarrow> ripas \<Rightarrow> u64 \<Rightarrow> bool" where
  "set_ripas_ok g_rd rec rd map_addr level ripas map_size \<longleftrightarrow>
     ri_g_rd (rec_realm_info rec) = g_rd \<and> sr_ripas (rec_set_ripas rec) = ripas
   \<and> sr_addr (rec_set_ripas rec) = map_addr \<and> validate_rtt_entry_cmds map_addr level rd
   \<and> s2tte_map_size level = Some map_size \<and> map_addr + map_size \<le> sr_end (rec_set_ripas rec)"

definition advance_ripas :: "u64 \<Rightarrow> rec \<Rightarrow> rec" where
  "advance_ripas n rec = rec\<lparr>rec_set_ripas := (rec_set_ripas rec)
     \<lparr>sr_addr := sr_addr (rec_set_ripas rec) + n\<rparr>\<rparr>"

lemma set_ripas_entry_cases:
  assumes inv: "inv_with lv par s" and g: "g_rd < RMM_MAX_GRANULES"
    and st: "gst s g_rd = GRANULE_STATE_RD" and rd: "content s g_rd = CRd rd"
    and rc: "gst s g_rec = GRANULE_STATE_REC"
    and s1: "granules s1 = granules s" "content s1 = content s" "slots s1 SLOT_RTT = None"
      "\<And>x. glock s1 x \<Longrightarrow> gst s x \<noteq> GRANULE_STATE_RTT"
    and v: "validate_rtt_entry_cmds map_addr level rd" and n: "s2tte_map_size level = Some n"
      "map_addr + n \<le> sr_end (rec_set_ripas rec)"
  obtains (error) ret s' where
      "set_ripas_entry g_rd g_rec rec rd map_addr level ripas s1 = Some (ret, s')"
      "ret \<noteq> RMI_SUCCESS" "same_state s1 s'"
    | (success) wi t e s' where
      "set_ripas_entry g_rd g_rec rec rd map_addr level ripas s1 = Some (RMI_SUCCESS, s')"
      "walk_result lv s (rd_s2_ctx rd) map_addr level wi" "last_level wi = level"
      "table_of (content s (g_llt wi)) = Some t"
      "update_ripas (t ! unat (index wi)) level ripas = Some (Some e)"
      "granules s' = granules s1"
      "content s' = (content s1)(g_rec := CRec (advance_ripas n rec),
                                 g_llt wi := CTable (t[unat (index wi) := e]))"
      "vmids s' = vmids s1" "glock s' = glock s1" "slots s' = slots s1"
      "\<exists>pre. trace s' = pre @ [EvTteWrite (g_llt wi) (unat (index wi)) e]
         @ (if s2tte_is_valid (t ! unat (index wi)) level \<and> ripas = RMI_EMPTY
            then [EvTlbiIpa (s2_vmid (rd_s2_ctx rd)) (drop_bit 12 map_addr),
                  EvTlbiVmall (s2_vmid (rd_s2_ctx rd))] else [])
         @ [EvUnlock (g_llt wi)]"
proof -
  have i1: "inv_with lv par s1" using inv s1(1,2) by (rule inv_with_same)
  have rd1: "gst s1 g_rd = GRANULE_STATE_RD" "content s1 g_rd = CRd rd" using st rd s1 by simp_all
  have L: "\<And>x. glock s1 x \<Longrightarrow> gst s1 x \<noteq> GRANULE_STATE_RTT" using s1 by simp
  have cs: "map_addr < realm_ipa_size rd" "realm_rtt_starting_level rd \<le> level" "level \<le> 3"
    using v by (auto simp: validate_rtt_entry_cmds_def validate_map_addr_def s2tte_values
        split: if_splits)
  from locked_walk_spec [OF i1 g rd1 L s1(3) cs] obtain s0 wi s2 where wk:
    "granule_lock (s2_g_rtt (rd_s2_ctx rd)) GRANULE_STATE_RTT s1 = Some s0"
    "rtt_walk_lock_unlock (s2_g_rtt (rd_s2_ctx rd)) (realm_rtt_starting_level rd)
       (realm_ipa_bits rd) map_addr level s0 = Some (wi, s2)"
    "walk_result lv s1 (rd_s2_ctx rd) map_addr level wi"
    "relocked s1 ((glock s1)(g_llt wi := True)) s2" by blast
  have w: "walk_result lv s (rd_s2_ctx rd) map_addr level wi"
    using wk(3) s1 by (simp add: walk_result_def at_table_def)
  have "gst s (g_llt wi) = GRANULE_STATE_RTT" using w by (simp add: walk_result_def at_table_def)
  then have ne: "g_llt wi \<noteq> g_rec" "\<not> glock s1 (g_llt wi)" using rc s1(4) by auto
  have s2: "granules s2 = granules s" "content s2 = content s" "vmids s2 = vmids s1"
    "glock s2 = (glock s1)(g_llt wi := True)" "slots s2 = slots s1"
    using wk(4) s1 by (simp_all add: relocked_def)
  note start = n(1) v wk(1,2)
  have nlt: "\<not> sr_end (rec_set_ripas rec) < map_addr + n" using n(2) by (simp add: not_less)
  note ul = walk_unlock [OF inv w]
  have undone: "same_state s1 (spinlock_release (g_llt wi) s2)"
    using s1 s2 ne(2) by (auto simp: same_state_def fun_eq_iff)
  show ?thesis
  proof (cases "last_level wi = level")
    case False
    obtain ret where ret: "rtt_error (last_level wi) = Some ret" "ret \<noteq> RMI_SUCCESS"
      using walk_error [OF inv w] by blast
    have "set_ripas_entry g_rd g_rec rec rd map_addr level ripas s1
      = Some (ret, spinlock_release (g_llt wi) s2)"
      using start nlt False ret ul [OF s2(1)] by (simp add: set_ripas_entry_def)
    then show ?thesis using ret undone error by blast
  next
    case l: True
    have sl: "slots s2 SLOT_RTT = None" using s2 s1 by simp
    from walk_read [OF inv w s2(1,2) sl] obtain t where
      t: "table_of (content s (g_llt wi)) = Some t" "length t = 512"
      "granule_map (g_llt wi) SLOT_RTT s2 = Some (map_slot SLOT_RTT (g_llt wi) s2)"
      "s2tte_read (g_llt wi) (index wi) (map_slot SLOT_RTT (g_llt wi) s2)
         = Some (t ! unat (index wi))" by blast
    note f = entry_facts [OF inv w l t(1)]
    let ?e = "t ! unat (index wi)"
    from f(9,3) show ?thesis
    proof (cases rule: update_ripas_result [where r = ripas])
      case refused
      obtain ret where ret: "rtt_error level = Some ret" "ret \<noteq> RMI_SUCCESS"
        using walk_error [OF inv w] l by auto
      have "set_ripas_entry g_rd g_rec rec rd map_addr level ripas s1
        = Some (ret, spinlock_release (g_llt wi) s2)"
        using start nlt l ret ul [OF s2(1)] t refused(1) sl
        by (simp add: set_ripas_entry_def buffer_unmap_map_slot)
      then show ?thesis using ret undone error by blast
    next
      case (updated e)
      let ?w = "emit (EvTteWrite (g_llt wi) (unat (index wi)) e)
          (set_content (g_llt wi) (CTable (t[unat (index wi) := e])) (map_slot SLOT_RTT (g_llt wi) s2))"
      let ?v = "s2tte_is_valid ?e level \<and> ripas = RMI_EMPTY"
      let ?i = "if ?v then (if level = RTT_PAGE_LEVEL then invalidate_page (rd_s2_ctx rd) map_addr ?w
          else invalidate_block (rd_s2_ctx rd) map_addr ?w) else ?w"
      let ?u = "buffer_unmap SLOT_RTT (set_rec g_rec (advance_ripas n rec) ?i)"
      have wr: "s2tte_write (g_llt wi) (index wi) e (map_slot SLOT_RTT (g_llt wi) s2) = Some ?w"
        using t f(4) s2 by (intro s2tte_write_eq) simp_all
      have ti: "trace ?i = trace ?w @ (if ?v then [EvTlbiIpa (s2_vmid (rd_s2_ctx rd)) (drop_bit 12 map_addr),
            EvTlbiVmall (s2_vmid (rd_s2_ctx rd))] else [])"
        by simp
      have fi: "granules ?i = granules ?w" "content ?i = content ?w" "vmids ?i = vmids ?w"
        "glock ?i = glock ?w" "slots ?i = slots ?w" by simp_all
      have gu: "granules ?u = granules s" using s2(1) by (simp add: set_rec_def)
      have "set_ripas_entry g_rd g_rec rec rd map_addr level ripas s1
        = Some (RMI_SUCCESS, spinlock_release (g_llt wi) ?u)"
        using start nlt l t updated(1) wr ul [OF gu]
        by (simp add: set_ripas_entry_def advance_ripas_def Let_def)
      moreover have "\<exists>pre. trace (spinlock_release (g_llt wi) ?u) = pre @
          [EvTteWrite (g_llt wi) (unat (index wi)) e]
         @ (if ?v then [EvTlbiIpa (s2_vmid (rd_s2_ctx rd)) (drop_bit 12 map_addr),
                  EvTlbiVmall (s2_vmid (rd_s2_ctx rd))] else [])
         @ [EvUnlock (g_llt wi)]"
        using ti by (simp add: set_rec_def)
      moreover have "content (spinlock_release (g_llt wi) ?u)
          = (content s1)(g_rec := CRec (advance_ripas n rec), g_llt wi := CTable (t[unat (index wi) := e]))"
        using s1 s2 ne by (auto simp: set_rec_def fun_eq_iff)
      moreover have "granules (spinlock_release (g_llt wi) ?u) = granules s1"
        using gu s1 by simp
      moreover have "vmids (spinlock_release (g_llt wi) ?u) = vmids s1"
        "glock (spinlock_release (g_llt wi) ?u) = glock s1"
        "slots (spinlock_release (g_llt wi) ?u) = slots s1"
        using s1 s2 sl ne(2) by (auto simp: set_rec_def fun_eq_iff)
      ultimately show ?thesis using success [OF _ w l t(1) updated(1)] by blast
    qed
  qed
qed

lemma set_ripas_entry_range:
  assumes "\<nexists>n. set_ripas_ok g_rd rec rd map_addr level ripas n"
    and "g_rd = ri_g_rd (rec_realm_info rec)" "ripas = sr_ripas (rec_set_ripas rec)"
    and "map_addr = sr_addr (rec_set_ripas rec)"
  shows "set_ripas_entry g_rd g_rec rec rd map_addr level ripas t = Some (RMI_ERROR_INPUT, t)"
proof (cases "validate_rtt_entry_cmds map_addr level rd")
  case True
  then have "level \<le> 3" by (auto simp: validate_rtt_entry_cmds_def s2tte_values split: if_splits)
  then obtain n where "s2tte_map_size level = Some n" using s2tte_map_size_total by blast
  with True assms show ?thesis by (auto simp: set_ripas_entry_def set_ripas_ok_def not_le)
qed (simp add: set_ripas_entry_def)

lemma smc_rtt_set_ripas_cases:
  assumes inv: "inv_with lv par s" and q: "quiet s"
  obtains (error) ret s' where
      "smc_rtt_set_ripas rd_addr rec_addr map_addr ulevel uripas s = Some (ret, s')"
      "ret \<noteq> RMI_SUCCESS" "same_state s s'"
    | (success) g_rd rd g_rec rec ripas n wi t e s' where
      "smc_rtt_set_ripas rd_addr rec_addr map_addr ulevel uripas s = Some (RMI_SUCCESS, s')"
      "ripas_arg uripas = Some ripas"
      "find_granule rd_addr = Some g_rd" "gst s g_rd = GRANULE_STATE_RD" "content s g_rd = CRd rd"
      "find_granule rec_addr = Some g_rec" "gst s g_rec = GRANULE_STATE_REC"
      "content s g_rec = CRec rec" "grc s g_rec = 0"
      "set_ripas_ok g_rd rec rd map_addr (sint ulevel) ripas n"
      "walk_result lv s (rd_s2_ctx rd) map_addr (sint ulevel) wi" "last_level wi = sint ulevel"
      "table_of (content s (g_llt wi)) = Some t"
      "update_ripas (t ! unat (index wi)) (sint ulevel) ripas = Some (Some e)"
      "ripas_set s g_rec (CRec (advance_ripas n rec)) (g_llt wi) (unat (index wi)) t e s'"
      "quiet s'"
      "\<exists>pre post. trace s' = pre @ [EvTteWrite (g_llt wi) (unat (index wi)) e]
         @ (if s2tte_is_valid (t ! unat (index wi)) (sint ulevel) \<and> ripas = RMI_EMPTY
            then [EvTlbiIpa (s2_vmid (rd_s2_ctx rd)) (drop_bit 12 map_addr),
                  EvTlbiVmall (s2_vmid (rd_s2_ctx rd))] else [])
         @ [EvUnlock (g_llt wi)] @ post"
proof (cases "ripas_arg uripas")
  case None
  then show ?thesis using error [of RMI_ERROR_INPUT s]
    by (simp add: smc_rtt_set_ripas_def word_consts)
next
  case (Some ripas)
  have un: "\<And>g. g < RMM_MAX_GRANULES \<Longrightarrow> \<not> glock s g \<and> unlocked_ok s g"
    using q inv_with_unlocked [OF inv] by (simp add: quiet_def)
  show ?thesis
  proof (rule find_lock_two_granules_cases [OF un, of rd_addr GRANULE_STATE_RD rec_addr
        GRANULE_STATE_REC])
    fix s'
    assume none: "find_lock_two_granules rd_addr GRANULE_STATE_RD rec_addr
        GRANULE_STATE_REC s = Some (None, s')" "same_state s s'"
    then show ?thesis using error [of RMI_ERROR_INPUT s'] Some
      by (simp add: smc_rtt_set_ripas_def word_consts)
  next
    fix g_rd g_rec
    let ?s0 = "two_locked rd_addr GRANULE_STATE_RD g_rd rec_addr GRANULE_STATE_REC g_rec s"
    assume both: "find_lock_two_granules rd_addr GRANULE_STATE_RD rec_addr
        GRANULE_STATE_REC s = Some (Some (g_rd, g_rec), ?s0)"
      "find_granule rd_addr = Some g_rd" "find_granule rec_addr = Some g_rec" "g_rd \<noteq> g_rec"
      "gst s g_rd = GRANULE_STATE_RD" "gst s g_rec = GRANULE_STATE_REC"
    have b: "g_rd < RMM_MAX_GRANULES" "g_rec < RMM_MAX_GRANULES"
      using both(2,3) find_granule_bound by blast+
    from inv_with_rd [OF inv b(1) both(5)] obtain rd where rd: "content s g_rd = CRd rd"
      by (auto simp: rd_ok_def)
    from inv_with_granule [OF inv b(2)] both(6) obtain rec where rec: "content s g_rec = CRec rec"
      by (auto simp: granule_ok_def rec_ok_def)
    let ?s1 = "map_slot SLOT_REC g_rec ?s0" and ?s2 = "map_slot SLOT_RD g_rd (map_slot SLOT_REC g_rec ?s0)"
    have m: "granule_map g_rec SLOT_REC ?s0 = Some ?s1" "granule_map g_rd SLOT_RD ?s1 = Some ?s2"
      using b q by (simp_all add: granule_map_eq quiet_def)
    define fin where "fin t = spinlock_release g_rd (spinlock_release g_rec t)" for t
    have fin: "granule_unlock g_rec t = Some (spinlock_release g_rec t)"
      "granule_unlock g_rd (spinlock_release g_rec t) = Some (fin t)" if "granules t = granules s" for t
      using inv_with_unlocked_state [OF inv that b(2)] inv_with_unlocked_state [OF inv that b(1)]
      by (simp_all add: granule_unlock_eq fin_def unlocked_ok_def)
    have undone: "same_state s (fin t)"
      if "granules t = granules s" "content t = content s" "vmids t = vmids s"
        "\<And>x. x \<noteq> g_rd \<Longrightarrow> x \<noteq> g_rec \<Longrightarrow> \<not> glock t x" "\<And>k. slots t k = None" for t
      using that q by (auto simp: same_state_def quiet_def fin_def fun_eq_iff)
    have undo1: "same_state s (fin (buffer_unmap SLOT_REC ?s1))" and undo0: "same_state s (fin ?s0)"
      using q by (auto intro!: undone simp: quiet_def)
    note start = Some both(1) m(1) rec
    let ?ri = "rec_set_ripas rec"
    consider (refs) "grc s g_rec \<noteq> 0"
      | (owner) "grc s g_rec = 0" "g_rd \<noteq> ri_g_rd (rec_realm_info rec)"
      | (request) "grc s g_rec = 0" "g_rd = ri_g_rd (rec_realm_info rec)"
          "ripas \<noteq> sr_ripas ?ri \<or> map_addr \<noteq> sr_addr ?ri"
      | (range) "grc s g_rec = 0" "g_rd = ri_g_rd (rec_realm_info rec)" "ripas = sr_ripas ?ri"
          "map_addr = sr_addr ?ri" "\<nexists>n. set_ripas_ok g_rd rec rd map_addr (sint ulevel) ripas n"
      | (ok) n where "grc s g_rec = 0" "set_ripas_ok g_rd rec rd map_addr (sint ulevel) ripas n"
      by blast
    then show ?thesis
    proof cases
      case refs
      have "smc_rtt_set_ripas rd_addr rec_addr map_addr ulevel uripas s
        = Some (RMI_ERROR_IN_USE, fin ?s0)"
        using start refs fin [of ?s0] by (simp add: smc_rtt_set_ripas_def)
      then show ?thesis using error undo0 by (simp add: word_consts)
    next
      case owner
      have "smc_rtt_set_ripas rd_addr rec_addr map_addr ulevel uripas s
        = Some (RMI_ERROR_REC, fin (buffer_unmap SLOT_REC ?s1))"
        using start owner fin [of "buffer_unmap SLOT_REC ?s1"]
        by (simp add: smc_rtt_set_ripas_def)
      then show ?thesis using error undo1 by (simp add: word_consts)
    next
      case request
      have "smc_rtt_set_ripas rd_addr rec_addr map_addr ulevel uripas s
        = Some (RMI_ERROR_INPUT, fin (buffer_unmap SLOT_REC ?s1))"
        using start request fin [of "buffer_unmap SLOT_REC ?s1"]
        by (auto simp: smc_rtt_set_ripas_def)
      then show ?thesis using error undo1 by (simp add: word_consts)
    next
      case range
      let ?u = "buffer_unmap SLOT_REC (buffer_unmap SLOT_RD ?s2)"
      have e: "set_ripas_entry g_rd g_rec rec rd map_addr (sint ulevel) ripas t = Some (RMI_ERROR_INPUT, t)"
        for t by (rule set_ripas_entry_range) (use range in simp_all)
      have "smc_rtt_set_ripas rd_addr rec_addr map_addr ulevel uripas s
        = Some (RMI_ERROR_INPUT, fin ?u)"
        using start range m(2) fin [of ?u] rd e by (simp add: smc_rtt_set_ripas_def)
      moreover have "same_state s (fin ?u)" using q by (intro undone) (auto simp: quiet_def)
      ultimately show ?thesis using error by (simp add: word_consts)
    next
      case (ok n)
      have o: "g_rd = ri_g_rd (rec_realm_info rec)" "ripas = sr_ripas ?ri" "map_addr = sr_addr ?ri"
        "validate_rtt_entry_cmds map_addr (sint ulevel) rd" "s2tte_map_size (sint ulevel) = Some n"
        "map_addr + n \<le> sr_end ?ri"
        using ok(2) by (simp_all add: set_ripas_ok_def)
      have s2: "granules ?s2 = granules s" "content ?s2 = content s" "vmids ?s2 = vmids s"
        "slots ?s2 = (\<lambda>k. None)(SLOT_REC := Some g_rec, SLOT_RD := Some g_rd)"
        "\<And>x. glock ?s2 x \<longleftrightarrow> x = g_rd \<or> x = g_rec"
        using q by (auto simp: quiet_def fun_eq_iff)
      have sl: "slots ?s2 SLOT_RTT = None" using s2(4) by simp
      have L: "\<And>x. glock ?s2 x \<Longrightarrow> gst s x \<noteq> GRANULE_STATE_RTT"
        unfolding s2(5) using both(5,6) by auto
      note start2 = start ok(1) o(1-3) m(2) rd
      show ?thesis
      proof (rule set_ripas_entry_cases [OF inv b(1) both(5) rd both(6) s2(1,2) sl L o(4-6), of ripas])
        show "glock ?s2 x" if "glock ?s2 x" for x using that .
      next
        fix ret s3
        assume e: "set_ripas_entry g_rd g_rec rec rd map_addr (sint ulevel) ripas ?s2 = Some (ret, s3)"
          "ret \<noteq> RMI_SUCCESS" "same_state ?s2 s3"
        let ?u = "buffer_unmap SLOT_REC (buffer_unmap SLOT_RD s3)"
        have s3: "granules s3 = granules s" "content s3 = content s" "vmids s3 = vmids s"
          "slots s3 = slots ?s2" "glock s3 = glock ?s2"
          using e(3) by (simp_all add: same_state_def)
        have "smc_rtt_set_ripas rd_addr rec_addr map_addr ulevel uripas s = Some (ret, fin ?u)"
          using start2 e(1) fin [of ?u] s3(1) by (simp add: smc_rtt_set_ripas_def)
        moreover have "same_state s (fin ?u)"
          by (intro undone) (use s3 s2(4,5) in \<open>auto simp del: two_locked_simps\<close>)
        ultimately show ?thesis using error e(2) by blast
      next
        fix wi t e s3
        assume e: "set_ripas_entry g_rd g_rec rec rd map_addr (sint ulevel) ripas ?s2 = Some (RMI_SUCCESS, s3)"
          and w: "walk_result lv s (rd_s2_ctx rd) map_addr (sint ulevel) wi" "last_level wi = sint ulevel"
          "table_of (content s (g_llt wi)) = Some t"
          "update_ripas (t ! unat (index wi)) (sint ulevel) ripas = Some (Some e)"
          and s3: "granules s3 = granules ?s2"
          "content s3 = (content ?s2)(g_rec := CRec (advance_ripas n rec),
                                     g_llt wi := CTable (t[unat (index wi) := e]))"
          "vmids s3 = vmids ?s2" "glock s3 = glock ?s2" "slots s3 = slots ?s2"
          and tr: "\<exists>pre. trace s3 = pre @ [EvTteWrite (g_llt wi) (unat (index wi)) e]
           @ (if s2tte_is_valid (t ! unat (index wi)) (sint ulevel) \<and> ripas = RMI_EMPTY
              then [EvTlbiIpa (s2_vmid (rd_s2_ctx rd)) (drop_bit 12 map_addr),
                    EvTlbiVmall (s2_vmid (rd_s2_ctx rd))] else [])
           @ [EvUnlock (g_llt wi)]"
        let ?u = "buffer_unmap SLOT_REC (buffer_unmap SLOT_RD s3)"
        have g3: "granules s3 = granules s" using s3(1) s2(1) by simp
        have "smc_rtt_set_ripas rd_addr rec_addr map_addr ulevel uripas s = Some (RMI_SUCCESS, fin ?u)"
          using start2 e fin [of ?u] g3 by (simp add: smc_rtt_set_ripas_def)
        moreover have "ripas_set s g_rec (CRec (advance_ripas n rec)) (g_llt wi) (unat (index wi)) t e (fin ?u)"
          using s3 g3 s2 by (simp add: ripas_set_def fin_def)
        moreover have "quiet (fin ?u)"
          using s3(4,5) s2(4,5) by (auto simp: quiet_def fin_def simp del: two_locked_simps)
        moreover obtain pre where pre: "trace s3 = pre @ [EvTteWrite (g_llt wi) (unat (index wi)) e]
           @ (if s2tte_is_valid (t ! unat (index wi)) (sint ulevel) \<and> ripas = RMI_EMPTY
              then [EvTlbiIpa (s2_vmid (rd_s2_ctx rd)) (drop_bit 12 map_addr),
                    EvTlbiVmall (s2_vmid (rd_s2_ctx rd))] else [])
           @ [EvUnlock (g_llt wi)]" using tr by blast
        have "trace (fin ?u) = pre @ [EvTteWrite (g_llt wi) (unat (index wi)) e]
           @ (if s2tte_is_valid (t ! unat (index wi)) (sint ulevel) \<and> ripas = RMI_EMPTY
              then [EvTlbiIpa (s2_vmid (rd_s2_ctx rd)) (drop_bit 12 map_addr),
                    EvTlbiVmall (s2_vmid (rd_s2_ctx rd))] else [])
           @ [EvUnlock (g_llt wi)] @ [EvUnlock g_rec, EvUnlock g_rd]"
          using pre by (simp add: fin_def)
        ultimately show ?thesis
          using success [OF _ Some both(2,5) rd both(3,6) rec ok w] by blast
      qed
    qed
  qed
qed

lemma advance_ripas_simps [simp]:
  "rec_g_rec (advance_ripas n rec) = rec_g_rec rec" "rec_regs (advance_ripas n rec) = rec_regs rec"
  "rec_num_rec_aux (advance_ripas n rec) = rec_num_rec_aux rec"
  "rec_g_aux (advance_ripas n rec) = rec_g_aux rec"
  "rec_realm_info (advance_ripas n rec) = rec_realm_info rec"
  by (simp_all add: advance_ripas_def)

lemma smc_rtt_set_ripas_safe:
  assumes "inv s" and q: "quiet s"
  shows "case smc_rtt_set_ripas rd_addr rec_addr map_addr ulevel uripas s of
      None \<Rightarrow> False | Some (ret, s') \<Rightarrow> inv s' \<and> quiet s'"
proof -
  from assms obtain lv par where inv: "inv_with lv par s" by (auto simp: inv_def)
  from inv q show ?thesis
  proof (cases rule: smc_rtt_set_ripas_cases [of lv par s rd_addr rec_addr map_addr ulevel uripas])
    case (error ret s')
    then show ?thesis using assms inv_cong quiet_cong by auto
  next
    case (success g_rd rd g_rec rec ripas n wi t e s')
    note f = entry_facts [OF inv success(11,12,13)]
    have ne: "g_rec \<noteq> g_llt wi" using success(7) f(2) by auto
    have im: "inv_with lv par (s\<lparr>content := (content s)(g_rec := CRec (advance_ripas n rec))\<rparr>)"
      using inv success(7,8) by (rule inv_rec_update) simp_all
    from f(9,3) have e: "entry_ok lv par s (g_llt wi) (unat (index wi)) e"
      "s2tte_refs e = s2tte_refs (t ! unat (index wi))"
      using success(14) by (cases rule: update_ripas_result [where r = ripas]; simp)+
    from ripas_set_inv [OF im inv success(11,12,13) ne e success(15)] success
    show ?thesis by (simp add: inv_defI)
  qed
qed

end
