(* ===== verification/Vmid.thy ===== *)
theory Vmid
  imports RMM_State
begin

text \<open>
  The identification registers that the code reads (lib/arch/src/arch_features.c and
  arch_features.h), the feature register the host reads (runtime/rmi/feature.c), and the
  bitmap of reserved VMIDs (runtime/core/vmid.c).
\<close>

section \<open>Identification registers\<close>

record arch_regs =
  id_aa64mmfr0_el1 :: u64
  id_aa64mmfr1_el1 :: u64

definition pa_range_bits_arr :: "u32 list" where
  "pa_range_bits_arr = [32, 36, 40, 42, 44, 48, 48]"

definition arch_feat_get_pa_width :: "arch_regs \<Rightarrow> u32 option" where
  "arch_feat_get_pa_width ar = do {
     let pa_range = drop_bit 0 (id_aa64mmfr0_el1 ar) AND 0xf;
     assert_c (unat pa_range < length pa_range_bits_arr);
     Some (pa_range_bits_arr ! unat pa_range)
   }"

definition is_feat_vmid16_present :: "arch_regs \<Rightarrow> bool" where
  "is_feat_vmid16_present ar = (drop_bit 4 (id_aa64mmfr1_el1 ar) AND 0xf = 2)"

definition is_feat_lpa2_4k_present :: "arch_regs \<Rightarrow> bool" where
  "is_feat_lpa2_4k_present ar = (drop_bit 40 (id_aa64mmfr0_el1 ar) AND 0xf = 3)"

section \<open>The feature register\<close>

definition RMM_FEATURE_MIN_IPA_SIZE :: u64 where [word_consts]: "RMM_FEATURE_MIN_IPA_SIZE = 32"
definition RMM_FEATURE_REGISTER_0_INDEX :: u64 where
  [word_consts]: "RMM_FEATURE_REGISTER_0_INDEX = 0"
definition RMI_LPA2 :: u64 where [word_consts]: "RMI_LPA2 = 1"

definition get_feature_register_0 :: "arch_regs \<Rightarrow> u64 option" where
  "get_feature_register_0 ar = do {
     s2sz \<leftarrow> arch_feat_get_pa_width ar;
     let feat_reg0 = INPLACE 0 (ucast s2sz);
     let feat_reg0 = (if is_feat_lpa2_4k_present ar then feat_reg0 OR INPLACE 8 RMI_LPA2
                      else feat_reg0);
     let feat_reg0 = feat_reg0 OR INPLACE 28 1;
     let feat_reg0 = feat_reg0 OR INPLACE 29 1;
     Some feat_reg0
   }"

definition smc_read_feature_register :: "arch_regs \<Rightarrow> u64 \<Rightarrow> u64 list \<Rightarrow> u64 list option" where
  "smc_read_feature_register ar idx ret =
     (if idx = RMM_FEATURE_REGISTER_0_INDEX then do {
        reg \<leftarrow> get_feature_register_0 ar;
        Some (ret[0 := RMI_SUCCESS, 1 := reg])
      } else Some (ret[0 := RMI_ERROR_INPUT]))"

definition validate_feature_register_0 :: "arch_regs \<Rightarrow> u64 \<Rightarrow> bool option" where
  "validate_feature_register_0 ar v = do {
     feat_reg0 \<leftarrow> get_feature_register_0 ar;
     let s2sz = EXTRACT 8 0 v;
     if s2sz < RMM_FEATURE_MIN_IPA_SIZE \<or> EXTRACT 8 0 feat_reg0 < s2sz then Some False
     else if EXTRACT 1 8 v = RMI_LPA2 \<and> \<not> is_feat_lpa2_4k_present ar then Some False
     else Some True
   }"

definition validate_feature_register :: "arch_regs \<Rightarrow> u64 \<Rightarrow> u64 \<Rightarrow> bool option" where
  "validate_feature_register ar idx v =
     (if idx = RMM_FEATURE_REGISTER_0_INDEX then validate_feature_register_0 ar v else None)"

section \<open>VMIDs\<close>

text \<open>
  The mask of a bit is built by a shift by the whole VMID, not by its remainder modulo
  64.  C leaves a shift by 64 or more undefined; the shift instruction of the target takes
  the amount modulo 64, which is what the model does.
\<close>

definition bit_mask_64 :: "u32 \<Rightarrow> u64" where
  "bit_mask_64 b = push_bit (unat b mod 64) 1"

definition VMID8_COUNT :: u32 where [word_consts]: "VMID8_COUNT = 256"
definition VMID16_COUNT :: u32 where [word_consts]: "VMID16_COUNT = 65536"

definition vmid_count :: "arch_regs \<Rightarrow> u32" where
  "vmid_count ar = (if is_feat_vmid16_present ar then VMID16_COUNT else VMID8_COUNT)"

definition atomic_bit_set_acquire_release_64 :: "nat \<Rightarrow> u32 \<Rightarrow> rmm \<Rightarrow> bool \<times> rmm" where
  "atomic_bit_set_acquire_release_64 loc b s =
     (vmids s loc AND bit_mask_64 b \<noteq> 0,
      s\<lparr>vmids := (vmids s)(loc := vmids s loc OR bit_mask_64 b)\<rparr>)"

definition atomic_bit_clear_release_64 :: "nat \<Rightarrow> u32 \<Rightarrow> rmm \<Rightarrow> rmm" where
  "atomic_bit_clear_release_64 loc b s =
     s\<lparr>vmids := (vmids s)(loc := vmids s loc AND NOT (bit_mask_64 b))\<rparr>"

definition vmid_reserve :: "arch_regs \<Rightarrow> u32 \<Rightarrow> rmm \<Rightarrow> bool \<times> rmm" where
  "vmid_reserve ar vmid s =
     (if vmid_count ar \<le> vmid then (False, s)
      else let offset = unat (vmid div 64);
               (was_set, s) = atomic_bit_set_acquire_release_64 offset vmid s
           in (\<not> was_set, s))"

definition vmid_free :: "arch_regs \<Rightarrow> u32 \<Rightarrow> rmm \<Rightarrow> rmm option" where
  "vmid_free ar vmid s = do {
     assert_c (vmid < vmid_count ar);
     let offset = unat (vmid div 64);
     Some (atomic_bit_clear_release_64 offset vmid s)
   }"

end
