(* ===== verification/Realm_Cmds.thy ===== *)
theory Realm_Cmds
  imports Rtt_Walk Vmid
begin

text \<open>
  The life cycle of a realm: Realm.Activate, Realm.Create and Realm.Destroy of
  runtime/rmi/realm.c.
\<close>

section \<open>Realm.Activate\<close>

definition set_rd :: "nat \<Rightarrow> rd \<Rightarrow> rmm \<Rightarrow> rmm" where
  "set_rd g r s = set_content g (CRd r) s"

definition smc_realm_activate :: "u64 \<Rightarrow> rmm \<Rightarrow> (u64 \<times> rmm) option" where
  "smc_realm_activate rd_addr s = do {
     (r, s) \<leftarrow> find_lock_granule rd_addr GRANULE_STATE_RD s;
     (case r of
        None \<Rightarrow> Some (RMI_ERROR_INPUT, s)
      | Some g_rd \<Rightarrow> do {
          s \<leftarrow> granule_map g_rd SLOT_RD s;
          rd \<leftarrow> rd_of (content s g_rd);
          let (ret, s) = (if rd_state rd = REALM_STATE_NEW
                          then (RMI_SUCCESS,
                                set_rd g_rd (rd\<lparr>rd_state := REALM_STATE_ACTIVE\<rparr>) s)
                          else (RMI_ERROR_REALM, s));
          let s = buffer_unmap SLOT_RD s;
          s \<leftarrow> granule_unlock g_rd s;
          Some (ret, s)
        })
   }"

section \<open>The parameters of a realm\<close>

record rmi_realm_params =
  p_features_0 :: u64
  p_hash_algo :: u8
  p_rpv :: "u8 list"
  p_vmid :: u16
  p_rtt_base :: u64
  p_rtt_level_start :: u64
  p_rtt_num_start :: u32

text \<open>
  \<open>mem\<close> is what the guarded read of the parameter granule delivers.  The state of the
  granule is read without its lock.
\<close>

definition get_realm_params ::
  "u64 \<Rightarrow> rmi_realm_params option \<Rightarrow> rmm \<Rightarrow> (rmi_realm_params option \<times> rmm) option" where
  "get_realm_params realm_params_addr mem s =
     (case find_granule realm_params_addr of
        None \<Rightarrow> Some (None, s)
      | Some g \<Rightarrow> if g_state (granules s g) \<noteq> GRANULE_STATE_NS then Some (None, s)
                  else ns_buffer_read SLOT_NS g 0 4096 mem s)"

definition MIN_IPA_BITS :: nat where [word_consts]: "MIN_IPA_BITS = 32"
definition MAX_IPA_BITS :: nat where [word_consts]: "MAX_IPA_BITS = 48"

definition s2_inconsistent_sl :: "nat \<Rightarrow> int \<Rightarrow> bool" where
  "s2_inconsistent_sl ipa_bits sl =
     (let levels = nat (RTT_PAGE_LEVEL - sl);
          sl_min_ipa_bits = levels * S2TTE_STRIDE + GRANULE_SHIFT + 1;
          sl_max_ipa_bits = sl_min_ipa_bits + (S2TTE_STRIDE - 1) + 4
      in ipa_bits < sl_min_ipa_bits \<or> sl_max_ipa_bits < ipa_bits)"

definition max_ipa_size :: "arch_regs \<Rightarrow> u32 option" where
  "max_ipa_size ar = arch_feat_get_pa_width ar"

definition validate_ipa_bits_and_sl :: "arch_regs \<Rightarrow> nat \<Rightarrow> int \<Rightarrow> bool option" where
  "validate_ipa_bits_and_sl ar ipa_bits sl =
     (if ipa_bits < MIN_IPA_BITS \<or> MAX_IPA_BITS < ipa_bits then Some False
      else if sl < MIN_STARTING_LEVEL \<or> RTT_PAGE_LEVEL < sl then Some False
      else if sl = 0 then do {
        sz \<leftarrow> max_ipa_size ar;
        if sz < 44 then Some False else Some (\<not> s2_inconsistent_sl ipa_bits sl)
      }
      else Some (\<not> s2_inconsistent_sl ipa_bits sl))"

definition requested_ipa_bits :: "rmi_realm_params \<Rightarrow> nat" where
  "requested_ipa_bits p = unat (EXTRACT 8 0 (p_features_0 p))"

definition s2_num_root_rtts :: "nat \<Rightarrow> int \<Rightarrow> u32" where
  "s2_num_root_rtts ipa_bits sl =
     (let levels = nat (RTT_PAGE_LEVEL - sl);
          sl_ipa_bits = levels * S2TTE_STRIDE + GRANULE_SHIFT + S2TTE_STRIDE
      in if ipa_bits \<le> sl_ipa_bits then 1 else push_bit (ipa_bits - sl_ipa_bits) 1)"

definition hash_algo_of :: "u8 \<Rightarrow> hash_algo option" where
  "hash_algo_of a = (if a = 0 then Some HASH_ALGO_SHA256
                     else if a = 1 then Some HASH_ALGO_SHA512 else None)"

definition validate_realm_params ::
  "arch_regs \<Rightarrow> rmi_realm_params \<Rightarrow> rmm \<Rightarrow> (bool \<times> rmm) option" where
  "validate_realm_params ar p s = do {
     ok \<leftarrow> validate_feature_register ar RMM_FEATURE_REGISTER_0_INDEX (p_features_0 p);
     if \<not> ok then Some (False, s)
     else do {
       ok \<leftarrow> validate_ipa_bits_and_sl ar (requested_ipa_bits p) (sint (p_rtt_level_start p));
       if \<not> ok then Some (False, s)
       else if s2_num_root_rtts (requested_ipa_bits p) (sint (p_rtt_level_start p))
               \<noteq> p_rtt_num_start p
       then Some (False, s)
       else (case hash_algo_of (p_hash_algo p) of
               None \<Rightarrow> Some (False, s)
             | Some a \<Rightarrow> Some (vmid_reserve ar (ucast (p_vmid p)) s))
     }
   }"

definition realm_params_measure :: "hash_fun \<Rightarrow> rd \<Rightarrow> rmi_realm_params \<Rightarrow> rd" where
  "realm_params_measure hash rd p =
     set_rim (measurement_hash_compute hash (rd_algorithm rd)
                (MeasRealmParams (p_hash_algo p)) (rd_measurement rd ! 0)) rd"

section \<open>The starting level tables\<close>

fun free_sl_rtts :: "nat \<Rightarrow> nat \<Rightarrow> rmm \<Rightarrow> rmm option" where
  "free_sl_rtts g_rtt 0 s = Some s"
| "free_sl_rtts g_rtt (Suc n) s = do {
     s \<leftarrow> granule_lock g_rtt GRANULE_STATE_RTT s;
     s \<leftarrow> granule_memzero g_rtt SLOT_RTT s;
     s \<leftarrow> granule_unlock_transition g_rtt GRANULE_STATE_DELEGATED s;
     free_sl_rtts (Suc g_rtt) n s
   }"

text \<open>
  The loop over the tables: \<open>n\<close> rounds are left, \<open>i\<close> tables are locked, \<open>g0\<close> is
  the first of them.  The flag tells whether all of them could be locked.
\<close>

fun lock_rtts ::
  "nat \<Rightarrow> nat \<Rightarrow> u64 \<Rightarrow> nat option \<Rightarrow> rmm \<Rightarrow> ((bool \<times> nat \<times> nat option) \<times> rmm) option" where
  "lock_rtts 0 i rtt_base_addr g0 s = Some ((True, i, g0), s)"
| "lock_rtts (Suc n) i rtt_base_addr g0 s = do {
     (r, s) \<leftarrow> find_lock_granule (rtt_base_addr + of_nat i * GRANULE_SIZE)
                                   GRANULE_STATE_DELEGATED s;
     (case r of
        None \<Rightarrow> Some ((False, i, g0), s)
      | Some g_rtt \<Rightarrow>
          lock_rtts n (Suc i) rtt_base_addr (if i = 0 then Some g_rtt else g0) s)
   }"

fun unlock_rtts :: "nat \<Rightarrow> nat option \<Rightarrow> rmm \<Rightarrow> rmm option" where
  "unlock_rtts 0 g0 s = Some s"
| "unlock_rtts (Suc i) g0 s = do {
     g \<leftarrow> g0;
     s \<leftarrow> granule_unlock (g + i) s;
     unlock_rtts i g0 s
   }"

text \<open>
  The clean-up at \<^verbatim>\<open>out_err\<close>: \<open>i\<close> tables from \<open>g0\<close> are unlocked from the last to
  the first, then the realm descriptor if it was locked.
\<close>

definition unlock_rd_granules :: "nat \<Rightarrow> nat option \<Rightarrow> nat option \<Rightarrow> rmm \<Rightarrow> rmm option" where
  "unlock_rd_granules i g0 g_rd s = do {
     s \<leftarrow> unlock_rtts i g0 s;
     (case g_rd of None \<Rightarrow> Some s | Some g \<Rightarrow> granule_unlock g s)
   }"

definition find_lock_rd_granules ::
  "u64 \<Rightarrow> u64 \<Rightarrow> nat \<Rightarrow> rmm \<Rightarrow> ((nat \<times> nat option) option \<times> rmm) option" where
  "find_lock_rd_granules rd_addr rtt_base_addr num_rtts s = do {
     ((ok, g_rd), s) \<leftarrow>
       (if rd_addr < rtt_base_addr then do {
          (r, s) \<leftarrow> find_lock_granule rd_addr GRANULE_STATE_DELEGATED s;
          Some ((r \<noteq> None, r), s)
        } else Some ((True, None), s));
     if \<not> ok then Some (None, s)
     else do {
       ((all, i, g0), s) \<leftarrow> lock_rtts num_rtts 0 rtt_base_addr None s;
       if \<not> all then do {
         s \<leftarrow> unlock_rd_granules i g0 g_rd s;
         Some (None, s)
       } else
         (case g_rd of
            Some g \<Rightarrow> Some (Some (g, g0), s)
          | None \<Rightarrow> do {
              (r, s) \<leftarrow> find_lock_granule rd_addr GRANULE_STATE_DELEGATED s;
              (case r of
                 Some g \<Rightarrow> Some (Some (g, g0), s)
               | None \<Rightarrow> do {
                   s \<leftarrow> unlock_rd_granules i g0 None s;
                   Some (None, s)
                 })
            })
     }
   }"

fun unlock_rtts_as_tables :: "nat \<Rightarrow> nat \<Rightarrow> rmm \<Rightarrow> rmm option" where
  "unlock_rtts_as_tables g 0 s = Some s"
| "unlock_rtts_as_tables g (Suc n) s = do {
     s \<leftarrow> granule_unlock_transition g GRANULE_STATE_RTT s;
     unlock_rtts_as_tables (Suc g) n s
   }"

section \<open>Realm.Create\<close>

definition RPV_SIZE :: nat where [word_consts]: "RPV_SIZE = 64"

text \<open>The stores to the fields of the new realm descriptor.\<close>

definition init_rd ::
  "hash_fun \<Rightarrow> rmi_realm_params \<Rightarrow> hash_algo \<Rightarrow> nat \<Rightarrow> rd \<Rightarrow> rd" where
  "init_rd hash p algo g_rtt rd =
     (let rd = rd\<lparr>rd_state := REALM_STATE_NEW, rd_rec_count := 0\<rparr>;
          rd = rd\<lparr>rd_s2_ctx := \<lparr>s2_ipa_bits = requested_ipa_bits p,
                                 s2_starting_level = sint (ucast (p_rtt_level_start p) :: u32),
                                 s2_root_rtts = unat (p_rtt_num_start p),
                                 s2_g_rtt = g_rtt,
                                 s2_vmid = ucast (p_vmid p)\<rparr>\<rparr>;
          rd = rd\<lparr>rd_rpv := take RPV_SIZE (p_rpv p)\<rparr>;
          rd = rd\<lparr>rd_num_rec_aux := MAX_REC_AUX_GRANULES\<rparr>;
          rd = rd\<lparr>rd_algorithm := algo\<rparr>
      in realm_params_measure hash rd p)"

definition smc_realm_create ::
  "arch_regs \<Rightarrow> hash_fun \<Rightarrow> u64 \<Rightarrow> u64 \<Rightarrow> rmi_realm_params option \<Rightarrow> rmm \<Rightarrow> (u64 \<times> rmm) option"
where
  "smc_realm_create ar hash rd_addr realm_params_addr mem s = do {
     (r, s) \<leftarrow> get_realm_params realm_params_addr mem s;
     (case r of
        None \<Rightarrow> Some (RMI_ERROR_INPUT, s)
      | Some p \<Rightarrow> do {
          (ok, s) \<leftarrow> validate_realm_params ar p s;
          if \<not> ok then Some (RMI_ERROR_INPUT, s)
          else do {
            inside \<leftarrow> addr_is_contained (p_rtt_base p)
                        (p_rtt_base p + ucast (p_rtt_num_start p) * GRANULE_SIZE) rd_addr;
            if inside then do {
              s \<leftarrow> vmid_free ar (ucast (p_vmid p)) s;
              Some (RMI_ERROR_INPUT, s)
            } else do {
              (r, s) \<leftarrow> find_lock_rd_granules rd_addr (p_rtt_base p)
                           (unat (p_rtt_num_start p)) s;
              (case r of
                 None \<Rightarrow> do {
                   s \<leftarrow> vmid_free ar (ucast (p_vmid p)) s;
                   Some (RMI_ERROR_INPUT, s)
                 }
               | Some (g_rd, g0) \<Rightarrow> do {
                   s \<leftarrow> granule_map g_rd SLOT_RD s;
                   rd \<leftarrow> rd_of (content s g_rd);
                   g_rtt \<leftarrow> find_granule (p_rtt_base p);
                   algo \<leftarrow> hash_algo_of (p_hash_algo p);
                   let s = set_rd g_rd (init_rd hash p algo g_rtt rd) s;
                   let s = buffer_unmap SLOT_RD s;
                   s \<leftarrow> granule_unlock_transition g_rd GRANULE_STATE_RD s;
                   g_rtt_base \<leftarrow> g0;
                   s \<leftarrow> unlock_rtts_as_tables g_rtt_base (unat (p_rtt_num_start p)) s;
                   Some (RMI_SUCCESS, s)
                 })
            }
          }
        })
   }"

section \<open>Realm.Destroy\<close>

fun total_root_rtt_refcount :: "nat \<Rightarrow> nat \<Rightarrow> u64 \<Rightarrow> rmm \<Rightarrow> (u64 \<times> rmm) option" where
  "total_root_rtt_refcount g 0 refcount s = Some (refcount, s)"
| "total_root_rtt_refcount g (Suc n) refcount s = do {
     s \<leftarrow> granule_lock g GRANULE_STATE_RTT s;
     let refcount = refcount + g_refcount (granules s g);
     s \<leftarrow> granule_unlock g s;
     total_root_rtt_refcount (Suc g) n refcount s
   }"

definition smc_realm_destroy :: "arch_regs \<Rightarrow> u64 \<Rightarrow> rmm \<Rightarrow> (u64 \<times> rmm) option" where
  "smc_realm_destroy ar rd_addr s = do {
     (r, s) \<leftarrow> find_lock_unused_granule rd_addr GRANULE_STATE_RD s;
     (case r of
        Inl err \<Rightarrow> Some (err, s)
      | Inr g_rd \<Rightarrow> do {
          s \<leftarrow> granule_map g_rd SLOT_RD s;
          rd \<leftarrow> rd_of (content s g_rd);
          let g_rtt = s2_g_rtt (rd_s2_ctx rd);
          let num_rtts = s2_root_rtts (rd_s2_ctx rd);
          s \<leftarrow> vmid_free ar (s2_vmid (rd_s2_ctx rd)) s;
          let s = buffer_unmap SLOT_RD s;
          (refcount, s) \<leftarrow> total_root_rtt_refcount g_rtt num_rtts 0 s;
          if refcount \<noteq> 0 then do {
            s \<leftarrow> granule_unlock g_rd s;
            Some (RMI_ERROR_IN_USE, s)
          } else do {
            s \<leftarrow> free_sl_rtts g_rtt num_rtts s;
            s \<leftarrow> granule_memzero g_rd SLOT_RD s;
            s \<leftarrow> granule_unlock_transition g_rd GRANULE_STATE_DELEGATED s;
            Some (RMI_SUCCESS, s)
          }
        })
   }"

end
