(* ===== verification/Realm_Correct.thy ===== *)
theory Realm_Correct
  imports Rtt_Correct Realm_Cmds
begin

text \<open>The life cycle of a realm keeps the invariant.\<close>

section \<open>Finding and locking one granule\<close>

text \<open>A command that locks one granule by its address, from a quiet state.\<close>

lemma find_lock_quiet_cases:
  assumes q: "quiet s" and inv: "inv_with lv par s"
  obtains (none) s' where "find_lock_granule addr st s = Some (None, s')" "same_state s s'"
      "\<not> (\<exists>g. find_granule addr = Some g \<and> gst s g = st)"
    | (found) g where "find_lock_granule addr st s = Some (Some g, lock_g g st s)"
      "find_granule addr = Some g" "gst s g = st" "g < RMM_MAX_GRANULES"
proof (cases "\<exists>g. find_granule addr = Some g \<and> gst s g = st")
  case False
  then have "\<exists>s'. find_lock_granule addr st s = Some (None, s') \<and> same_state s s'"
    using q same_state_lock_unlock [of s]
    by (cases "find_granule addr") (auto simp: find_lock_quiet [OF q inv] quiet_def)
  with False show ?thesis using none by blast
next
  case True
  then show ?thesis using found find_granule_bound by (auto simp: find_lock_quiet [OF q inv])
qed

section \<open>Realm.Activate\<close>

lemma smc_realm_activate_cases:
  assumes inv: "inv_with lv par s" and q: "quiet s"
  obtains (error) ret s' where "smc_realm_activate rd_addr s = Some (ret, s')"
      "same_state s s'"
      "ret = RMI_ERROR_INPUT \<and> \<not> (\<exists>g. find_granule rd_addr = Some g \<and> gst s g = GRANULE_STATE_RD)
       \<or> ret = RMI_ERROR_REALM \<and> (\<exists>g rd. find_granule rd_addr = Some g \<and> gst s g = GRANULE_STATE_RD
            \<and> content s g = CRd rd \<and> rd_state rd \<noteq> REALM_STATE_NEW)"
    | (success) g rd s' where "smc_realm_activate rd_addr s = Some (RMI_SUCCESS, s')"
      "find_granule rd_addr = Some g" "gst s g = GRANULE_STATE_RD" "content s g = CRd rd"
      "rd_state rd = REALM_STATE_NEW"
      "granules s' = granules s" "content s' = (content s)(g := CRd (rd\<lparr>rd_state := REALM_STATE_ACTIVE\<rparr>))"
      "vmids s' = vmids s" "glock s' = glock s" "slots s' = slots s"
  using q inv
proof (cases rule: find_lock_quiet_cases [where addr = rd_addr and st = GRANULE_STATE_RD])
  case (none s')
  then have "smc_realm_activate rd_addr s = Some (RMI_ERROR_INPUT, s')"
    by (simp add: smc_realm_activate_def)
  then show ?thesis using error none by blast
next
  case (found g)
  from inv_with_rd [OF inv found(4,3)] obtain rd where rd: "content s g = CRd rd"
    by (auto simp: rd_ok_def)
  let ?s1 = "map_slot SLOT_RD g (lock_g g GRANULE_STATE_RD s)"
  have m: "granule_map g SLOT_RD (lock_g g GRANULE_STATE_RD s) = Some ?s1"
    using found q by (simp add: granule_map_eq quiet_def)
  have u: "unlocked_ok s g" using inv_with_unlocked [OF inv found(4)] .
  show ?thesis
  proof (cases "rd_state rd = REALM_STATE_NEW")
    case True
    let ?s' = "spinlock_release g (buffer_unmap SLOT_RD
        (set_rd g (rd\<lparr>rd_state := REALM_STATE_ACTIVE\<rparr>) ?s1))"
    have "smc_realm_activate rd_addr s = Some (RMI_SUCCESS, ?s')"
      using found(1,3) m rd True
      by (simp add: smc_realm_activate_def set_rd_def granule_unlock_eq unlocked_ok_def)
    moreover have "glock ?s' = glock s" "slots ?s' = slots s"
      using q by (auto simp: set_rd_def quiet_def fun_eq_iff)
    ultimately show ?thesis
      using success [OF _ found(2,3) rd True, of ?s'] by (simp add: set_rd_def)
  next
    case False
    let ?s' = "spinlock_release g (buffer_unmap SLOT_RD ?s1)"
    have "smc_realm_activate rd_addr s = Some (RMI_ERROR_REALM, ?s')"
      using found(1,3) m rd False
      by (simp add: smc_realm_activate_def granule_unlock_eq unlocked_ok_def)
    moreover have "same_state s ?s'" using q by (auto simp: same_state_def quiet_def fun_eq_iff)
    ultimately show ?thesis using error found rd False by blast
  qed
qed

lemma smc_realm_activate_safe:
  assumes "inv s" and q: "quiet s"
  shows "case smc_realm_activate rd_addr s of
      None \<Rightarrow> False | Some (ret, s') \<Rightarrow> inv s' \<and> quiet s'"
proof -
  from assms obtain lv par where inv: "inv_with lv par s" by (auto simp: inv_def)
  from inv q show ?thesis
  proof (cases rule: smc_realm_activate_cases [where rd_addr = rd_addr])
    case (error ret s')
    then show ?thesis using assms inv_cong quiet_cong by auto
  next
    case (success g rd s')
    have "inv_with lv par s'"
      using inv success(3,4) _ _ success(6,7) by (rule inv_rd_update) simp_all
    then show ?thesis using success q by (auto simp: inv_def quiet_def)
  qed
qed

section \<open>Granules in a row\<close>

lemma find_granule_row:
  assumes "find_granule a = Some g" and "find_granule (a + of_nat i * GRANULE_SIZE) = Some g'"
    and "i \<le> 16"
  shows "g' = g + i"
proof -
  have d: "in_dram a" "in_dram (a + of_nat i * GRANULE_SIZE)"
    and g: "g = (unat a - 0x80000000) div 4096"
      "g' = (unat (a + of_nat i * GRANULE_SIZE) - 0x80000000) div 4096"
    using assms(1,2) by (auto simp: find_granule_eq split: if_splits)
  have "unat (of_nat i * GRANULE_SIZE :: u64) = i * 4096"
    using assms(3) by (simp add: word_consts unat_word_ariths unat_of_nat)
  moreover have "unat a + i * 4096 < 2 ^ 64"
    using d(1) assms(3) by (simp add: in_dram_def word_consts word_less_nat_alt)
  ultimately have "unat (a + of_nat i * GRANULE_SIZE) = unat a + i * 4096"
    by (subst unat_add_lem [THEN iffD1]) simp_all
  moreover have "unat a + i * 4096 - 0x80000000 = (unat a - 0x80000000) + i * 4096"
    using d(1) by (simp add: in_dram_def)
  ultimately show ?thesis using g by simp
qed

text \<open>The granules \<open>g0 + k\<close> with \<open>k < n\<close>; nothing if there is no first one.\<close>

definition row :: "nat option \<Rightarrow> nat \<Rightarrow> nat \<Rightarrow> bool" where
  "row g0 n x \<longleftrightarrow> (\<exists>g. g0 = Some g \<and> g \<le> x \<and> x < g + n)"

lemma row_simps [simp]: "row None n = (\<lambda>x. False)" "row g0 0 = (\<lambda>x. False)"
  by (auto simp: row_def fun_eq_iff)

lemma row_Suc: "row (Some g) (Suc n) = (row (Some g) n)(g + n := True)"
  by (auto simp: row_def fun_eq_iff)

text \<open>The table with number \<open>j\<close> from address \<open>b\<close> on is a delegated granule.\<close>

definition free_at :: "rmm \<Rightarrow> u64 \<Rightarrow> nat \<Rightarrow> bool" where
  "free_at s b j \<longleftrightarrow> (\<exists>g. find_granule (b + of_nat j * GRANULE_SIZE) = Some g
     \<and> gst s g = GRANULE_STATE_DELEGATED)"

lemma lock_rtts_spec:
  assumes inv: "inv_with lv par s0"
  shows "relocked s0 (\<lambda>x. L x \<or> row g0 i x) s \<Longrightarrow> i + n \<le> 16
    \<Longrightarrow> (if i = 0 then g0 = None else g0 \<noteq> None \<and> find_granule b = g0)
    \<Longrightarrow> (\<forall>j<i + n. \<forall>g. find_granule (b + of_nat j * GRANULE_SIZE) = Some g \<longrightarrow> \<not> L g)
    \<Longrightarrow> (\<forall>j<i. free_at s0 b j)
    \<Longrightarrow> \<exists>k g1 s'. lock_rtts n i b g0 s = Some ((k = i + n, k, g1), s')
        \<and> relocked s0 (\<lambda>x. L x \<or> row g1 k x) s' \<and> k \<le> i + n
        \<and> (if k = 0 then g1 = None else g1 \<noteq> None \<and> find_granule b = g1)
        \<and> (\<forall>j<k. free_at s0 b j) \<and> (k < i + n \<longrightarrow> \<not> free_at s0 b k)"
proof (induction n arbitrary: i g0 s)
  case 0
  then show ?case by auto
next
  case (Suc n)
  let ?a = "b + of_nat i * GRANULE_SIZE"
  have un: "unlocked_ok s x" if "x < RMM_MAX_GRANULES" for x
    using inv_with_unlocked_state [OF inv _ that] Suc.prems(1) by (simp add: relocked_def)
  have gr: "granules s = granules s0" and lk: "glock s = (\<lambda>x. L x \<or> row g0 i x)"
    using Suc.prems(1) by (simp_all add: relocked_def)
  have free: "\<not> glock s g" if "find_granule ?a = Some g" for g
  proof -
    have "i < i + Suc n" by simp
    with Suc.prems(4) that have "\<not> L g" by blast
    moreover have "\<not> row g0 i g"
    proof (cases "i = 0")
      case False
      with Suc.prems(3) obtain h where h: "g0 = Some h" "find_granule b = Some h" by auto
      then have "g = h + i" using find_granule_row [OF h(2) that] Suc.prems(2) by simp
      then show ?thesis using h(1) by (simp add: row_def)
    qed simp
    ultimately show ?thesis using lk by simp
  qed
  have fl: "find_lock_granule ?a GRANULE_STATE_DELEGATED s =
      (case find_granule ?a of
         None \<Rightarrow> Some (None, s)
       | Some g \<Rightarrow> if gst s g = GRANULE_STATE_DELEGATED then Some (Some g, lock_g g GRANULE_STATE_DELEGATED s)
                   else Some (None, spinlock_release g (lock_g g GRANULE_STATE_DELEGATED s)))"
    by (rule find_lock_granule_eq) (use free un find_granule_bound in blast)
  show ?case
  proof (cases "free_at s0 b i")
    case False
    have rel: "(if l then glock s else (glock s)(g := True, g := False)) = glock s"
      if "\<not> glock s g" for g l using that by (auto simp: fun_eq_iff)
    have "\<exists>s'. find_lock_granule ?a GRANULE_STATE_DELEGATED s = Some (None, s')
        \<and> relocked s0 (\<lambda>x. L x \<or> row g0 i x) s'"
    proof (cases "find_granule ?a")
      case None
      then show ?thesis using fl Suc.prems(1) by simp
    next
      case (Some g)
      with False have "gst s g \<noteq> GRANULE_STATE_DELEGATED" by (simp add: free_at_def gr)
      moreover have "(glock s)(g := False) = glock s" using free [OF Some] by (auto simp: fun_eq_iff)
      ultimately show ?thesis using fl Some Suc.prems(1) lk by (simp add: relocked_def)
    qed
    then obtain s' where s': "find_lock_granule ?a GRANULE_STATE_DELEGATED s = Some (None, s')"
      "relocked s0 (\<lambda>x. L x \<or> row g0 i x) s'" by blast
    have "lock_rtts (Suc n) i b g0 s = Some ((i = i + Suc n, i, g0), s')" using s'(1) by simp
    then show ?thesis using s'(2) Suc.prems(3,5) False by (intro exI conjI) auto
  next
    case True
    then obtain g where g: "find_granule ?a = Some g" "gst s0 g = GRANULE_STATE_DELEGATED"
      by (auto simp: free_at_def)
    let ?g1 = "if i = 0 then Some g else g0" and ?s1 = "lock_g g GRANULE_STATE_DELEGATED s"
    have g1: "row ?g1 (Suc i) = (row g0 i)(g := True)" "?g1 \<noteq> None" "find_granule b = ?g1"
    proof -
      show "?g1 \<noteq> None" "find_granule b = ?g1" using Suc.prems(3) g(1) by auto
      show "row ?g1 (Suc i) = (row g0 i)(g := True)"
      proof (cases "i = 0")
        case True
        then show ?thesis by (auto simp: row_def fun_eq_iff)
      next
        case False
        with Suc.prems(3) obtain h where h: "g0 = Some h" "find_granule b = Some h" by auto
        then have "g = h + i" using find_granule_row [OF h(2) g(1)] Suc.prems(2) by simp
        then show ?thesis using h False by (simp add: row_Suc)
      qed
    qed
    have "lock_rtts (Suc n) i b g0 s = lock_rtts n (Suc i) b ?g1 ?s1"
      using fl g gr by simp
    moreover have "relocked s0 (\<lambda>x. L x \<or> row ?g1 (Suc i) x) ?s1"
      using Suc.prems(1) unfolding g1(1) by (auto simp: relocked_def fun_eq_iff)
    moreover have "\<forall>j<Suc i. free_at s0 b j" using Suc.prems(5) True by (auto simp: less_Suc_eq)
    ultimately show ?thesis
      using Suc.IH [of ?g1 "Suc i" ?s1] Suc.prems(2,4) g1(2,3) by simp
  qed
qed

text \<open>A row of free granules lies inside the array.\<close>

lemma free_row:
  assumes "find_granule b = Some g" and "j \<le> 16" and "free_at s b j"
  shows "g + j < RMM_MAX_GRANULES" "gst s (g + j) = GRANULE_STATE_DELEGATED"
    "find_granule (b + of_nat j * GRANULE_SIZE) = Some (g + j)"
proof -
  from assms(3) obtain h where h: "find_granule (b + of_nat j * GRANULE_SIZE) = Some h"
    "gst s h = GRANULE_STATE_DELEGATED" by (auto simp: free_at_def)
  have "h = g + j" using find_granule_row [OF assms(1) h(1) assms(2)] .
  then show "g + j < RMM_MAX_GRANULES" "gst s (g + j) = GRANULE_STATE_DELEGATED"
    "find_granule (b + of_nat j * GRANULE_SIZE) = Some (g + j)"
    using h find_granule_bound by auto
qed

lemma unlock_rtts_spec:
  assumes "\<And>j. j < i \<Longrightarrow> unlocked_ok s (g + j)"
  shows "\<exists>s'. unlock_rtts i (Some g) s = Some s'
    \<and> relocked s (\<lambda>x. glock s x \<and> \<not> row (Some g) i x) s'"
  using assms
proof (induction i arbitrary: s)
  case 0
  then show ?case by (simp add: relocked_def)
next
  case (Suc i)
  let ?s1 = "spinlock_release (g + i) s"
  have u: "granule_unlock (g + i) s = Some ?s1" using Suc.prems by (simp add: granule_unlock_eq)
  have "\<And>j. j < i \<Longrightarrow> unlocked_ok ?s1 (g + j)" using Suc.prems by (simp add: unlocked_ok_def)
  from Suc.IH [OF this] obtain s' where "unlock_rtts i (Some g) ?s1 = Some s'"
    "relocked ?s1 (\<lambda>x. glock ?s1 x \<and> \<not> row (Some g) i x) s'" by blast
  then show ?case using u by (auto simp: relocked_def row_def fun_eq_iff)
qed

text \<open>The clean-up after a failed locking leaves nothing locked.\<close>

lemma unlock_rd_granules_spec:
  assumes inv: "inv_with lv par s0" and q: "quiet s0"
    and s: "relocked s0 (\<lambda>x. Some x = r \<or> row g0 k x) s" and r: "r \<noteq> None \<Longrightarrow> the r < RMM_MAX_GRANULES"
    and k: "k \<le> 16" "\<forall>j<k. free_at s0 b j"
    and g0: "if k = 0 then g0 = None else g0 \<noteq> None \<and> find_granule b = g0"
  shows "\<exists>s'. unlock_rd_granules k g0 r s = Some s' \<and> same_state s0 s'"
proof -
  have gr: "granules s = granules s0" using s by (simp add: relocked_def)
  have un: "unlocked_ok t x" if "granules t = granules s0" "x < RMM_MAX_GRANULES" for t x
    using inv_with_unlocked_state [OF inv that] .
  have "\<exists>s1. unlock_rtts k g0 s = Some s1 \<and> relocked s (\<lambda>x. glock s x \<and> \<not> row g0 k x) s1"
  proof (cases "k = 0")
    case True
    then show ?thesis by (simp add: relocked_def)
  next
    case False
    with g0 obtain g where g: "g0 = Some g" "find_granule b = Some g" by auto
    have "unlocked_ok s (g + j)" if "j < k" for j
      using free_row(1) [OF g(2), of j s0] k that un [OF gr] by auto
    from unlock_rtts_spec [OF this] show ?thesis by (simp add: g)
  qed
  then obtain s1 where s1: "unlock_rtts k g0 s = Some s1"
    "relocked s (\<lambda>x. glock s x \<and> \<not> row g0 k x) s1" by blast
  have g1: "granules s1 = granules s0" using s1(2) gr by (simp add: relocked_def)
  show ?thesis
  proof (cases r)
    case None
    then show ?thesis using s s1 q
      by (auto simp: unlock_rd_granules_def relocked_def same_state_def quiet_def fun_eq_iff)
  next
    case (Some g)
    have "granule_unlock g s1 = Some (spinlock_release g s1)"
      using un [OF g1] r Some by (simp add: granule_unlock_eq)
    then show ?thesis using s s1 q Some
      by (auto simp: unlock_rd_granules_def relocked_def same_state_def quiet_def fun_eq_iff)
  qed
qed

lemma find_lock_rd_granules_cases:
  assumes inv: "inv_with lv par s" and q: "quiet s" and n: "0 < n" "n \<le> 16"
    and apart: "\<forall>j g. j < n \<longrightarrow> find_granule (b + of_nat j * GRANULE_SIZE) = Some g
                  \<longrightarrow> find_granule rd_addr \<noteq> Some g"
  obtains (none) s' where "find_lock_rd_granules rd_addr b n s = Some (None, s')" "same_state s s'"
      "\<not> (\<exists>g. find_granule rd_addr = Some g \<and> gst s g = GRANULE_STATE_DELEGATED)
       \<or> (\<exists>j<n. \<not> free_at s b j)"
    | (both) g_rd g s' where "find_lock_rd_granules rd_addr b n s = Some (Some (g_rd, Some g), s')"
      "find_granule rd_addr = Some g_rd" "gst s g_rd = GRANULE_STATE_DELEGATED"
      "find_granule b = Some g" "\<forall>j<n. free_at s b j"
      "relocked s (\<lambda>x. x = g_rd \<or> row (Some g) n x) s'"
proof -
  let ?rd = "\<lambda>g. find_granule rd_addr = Some g \<and> gst s g = GRANULE_STATE_DELEGATED"
  have rows: "\<exists>k g1 s'. lock_rtts n 0 b None s1 = Some ((k = n, k, g1), s')
        \<and> relocked s (\<lambda>x. Some x = r \<or> row g1 k x) s' \<and> k \<le> n
        \<and> (if k = 0 then g1 = None else g1 \<noteq> None \<and> find_granule b = g1)
        \<and> (\<forall>j<k. free_at s b j) \<and> (k < n \<longrightarrow> \<not> free_at s b k)"
    if "relocked s (\<lambda>x. Some x = r) s1" "r \<noteq> None \<Longrightarrow> r = find_granule rd_addr" for r s1
  proof -
    have "\<forall>j<0 + n. \<forall>g. find_granule (b + of_nat j * GRANULE_SIZE) = Some g \<longrightarrow> \<not> Some g = r"
      using apart that(2) by fastforce
    from lock_rtts_spec [OF inv _ _ _ this, of None s1] that(1) n(2) show ?thesis by simp
  qed
  have free: "same_state s s'" if "relocked s (\<lambda>x. False) s'" for s'
    using that q by (auto simp: relocked_def same_state_def quiet_def fun_eq_iff)
  show ?thesis
  proof (cases "rd_addr < b")
    case True
    from q inv show ?thesis
    proof (cases rule: find_lock_quiet_cases [where addr = rd_addr and st = GRANULE_STATE_DELEGATED])
      case a: (none s')
      then show ?thesis using True none by (simp add: find_lock_rd_granules_def)
    next
      case a: (found g_rd)
      let ?s1 = "lock_g g_rd GRANULE_STATE_DELEGATED s"
      have "relocked s (\<lambda>x. Some x = Some g_rd) ?s1"
        using q by (auto simp: relocked_def quiet_def fun_eq_iff)
      from rows [OF this] a(2) obtain k g1 s' where
        l: "lock_rtts n 0 b None ?s1 = Some ((k = n, k, g1), s')"
        "relocked s (\<lambda>x. Some x = Some g_rd \<or> row g1 k x) s'" "k \<le> n"
        "if k = 0 then g1 = None else g1 \<noteq> None \<and> find_granule b = g1"
        "\<forall>j<k. free_at s b j" "k < n \<longrightarrow> \<not> free_at s b k" by auto
      show ?thesis
      proof (cases "k = n")
        case True
        with l(4) n(1) obtain g where g: "g1 = Some g" "find_granule b = Some g" by auto
        have "find_lock_rd_granules rd_addr b n s = Some (Some (g_rd, Some g), s')"
          using \<open>rd_addr < b\<close> a(1) l(1) True g by (simp add: find_lock_rd_granules_def)
        moreover have "relocked s (\<lambda>x. x = g_rd \<or> row (Some g) n x) s'"
          using l(2) True g by simp
        ultimately show ?thesis using both a(2,3) g(2) l(5) True by blast
      next
        case False
        have r: "Some g_rd \<noteq> None \<Longrightarrow> the (Some g_rd) < RMM_MAX_GRANULES" "k \<le> 16"
          using a(4) l(3) n(2) by simp_all
        from unlock_rd_granules_spec [OF inv q l(2) r l(5,4)] obtain s2 where
          "unlock_rd_granules k g1 (Some g_rd) s' = Some s2" "same_state s s2" by blast
        moreover have "\<exists>j<n. \<not> free_at s b j" using l(3,6) False le_neq_implies_less by blast
        ultimately show ?thesis
          using none [of s2] \<open>rd_addr < b\<close> a(1) l(1) False by (simp add: find_lock_rd_granules_def)
      qed
    qed
  next
    case False
    have "relocked s (\<lambda>x. Some x = None) s" using q by (auto simp: relocked_def quiet_def fun_eq_iff)
    from rows [OF this] obtain k g1 s' where
      l: "lock_rtts n 0 b None s = Some ((k = n, k, g1), s')"
      "relocked s (\<lambda>x. Some x = None \<or> row g1 k x) s'" "k \<le> n"
      "if k = 0 then g1 = None else g1 \<noteq> None \<and> find_granule b = g1"
      "\<forall>j<k. free_at s b j" "k < n \<longrightarrow> \<not> free_at s b k" by auto
    have k: "(None :: nat option) \<noteq> None \<Longrightarrow> the None < RMM_MAX_GRANULES" "k \<le> 16"
      using l(3) n(2) by simp_all
    have undo: "\<exists>s2. unlock_rd_granules k g1 None t = Some s2 \<and> same_state s s2"
      if "relocked s (\<lambda>x. Some x = None \<or> row g1 k x) t" for t
      using unlock_rd_granules_spec [OF inv q that k l(5,4)] .
    show ?thesis
    proof (cases "k = n")
      case True
      with l(4) n(1) obtain g where g: "g1 = Some g" "find_granule b = Some g" by auto
      have gr: "granules s' = granules s" and lk: "glock s' = row (Some g) n"
        using l(2) True g by (simp_all add: relocked_def)
      have un: "\<not> glock s' h \<and> unlocked_ok s' h" if "find_granule rd_addr = Some h" for h
      proof
        show "unlocked_ok s' h"
          using inv_with_unlocked_state [OF inv gr] find_granule_bound [OF that] by blast
        show "\<not> glock s' h"
        proof
          assume "glock s' h"
          then obtain j where j: "j < n" "h = g + j"
            unfolding lk by (auto simp: row_def intro: that [of "h - g"])
          then have "find_granule (b + of_nat j * GRANULE_SIZE) = Some h"
            using free_row(3) [OF g(2), of j s] l(5) True n(2) by auto
          then show False using apart j(1) that by blast
        qed
      qed
      note fl = find_lock_granule_eq [of rd_addr s', OF un]
      show ?thesis
      proof (cases "\<exists>g. ?rd g")
        case True
        then obtain h where h: "find_granule rd_addr = Some h" "gst s h = GRANULE_STATE_DELEGATED"
          by blast
        let ?s2 = "lock_g h GRANULE_STATE_DELEGATED s'"
        have "find_lock_rd_granules rd_addr b n s = Some (Some (h, Some g), ?s2)"
          using \<open>\<not> rd_addr < b\<close> l(1) \<open>k = n\<close> g fl h gr by (simp add: find_lock_rd_granules_def)
        moreover have "relocked s (\<lambda>x. x = h \<or> row (Some g) n x) ?s2"
          using l(2) \<open>k = n\<close> g by (auto simp: relocked_def fun_eq_iff)
        ultimately show ?thesis using both h g(2) l(5) \<open>k = n\<close> by blast
      next
        case False
        have "\<exists>t. find_lock_granule rd_addr GRANULE_STATE_DELEGATED s' = Some (None, t)
            \<and> relocked s (\<lambda>x. Some x = None \<or> row g1 k x) t"
        proof (cases "find_granule rd_addr")
          case None
          then show ?thesis using fl l(2) by simp
        next
          case (Some h)
          with False have "gst s h \<noteq> GRANULE_STATE_DELEGATED" by blast
          moreover have "(glock s')(h := False) = glock s'" using un [OF Some] by (auto simp: fun_eq_iff)
          ultimately show ?thesis using fl Some gr l(2) by (simp add: relocked_def)
        qed
        then obtain t where t: "find_lock_granule rd_addr GRANULE_STATE_DELEGATED s' = Some (None, t)"
          "relocked s (\<lambda>x. Some x = None \<or> row g1 k x) t" by blast
        from undo [OF t(2)] obtain s2 where
          "unlock_rd_granules k g1 None t = Some s2" "same_state s s2" by blast
        then show ?thesis
          using none [of s2] \<open>\<not> rd_addr < b\<close> l(1) \<open>k = n\<close> t(1) False
          by (simp add: find_lock_rd_granules_def)
      qed
    next
      case nk: False
      from undo [OF l(2)] obtain s2 where "unlock_rd_granules k g1 None s' = Some s2"
        "same_state s s2" by blast
      moreover have "\<exists>j<n. \<not> free_at s b j" using l(3,6) nk le_neq_implies_less by blast
      ultimately show ?thesis
        using none [of s2] False l(1) nk by (simp add: find_lock_rd_granules_def)
    qed
  qed
qed

end
