(* ===== verification/Realm_Params_Correct.thy ===== *)
theory Realm_Params_Correct
  imports Rtt_Invariant Realm_Cmds
begin

text \<open>
  What the validation of the parameters of a realm guarantees: a stage 2 configuration
  that the walk can handle, and a VMID that nobody else holds.
\<close>

section \<open>The pool of VMIDs\<close>

definition vmid_used :: "rmm \<Rightarrow> u32 \<Rightarrow> bool" where
  "vmid_used s v \<longleftrightarrow> vmids s (unat (v div 64)) AND bit_mask_64 v \<noteq> 0"

lemma bit_mask_64_eq: "bit_mask_64 v = 2 ^ (unat v mod 64)"
  by (simp add: bit_mask_64_def push_bit_eq_mult)

lemma bit_bit_mask_64: "bit (bit_mask_64 v) n \<longleftrightarrow> n = unat v mod 64"
  by (cases "n < 64") (auto simp: bit_mask_64_eq bit_exp_iff bit_imp_le_length dest: bit_imp_le_length)

lemma and_bit_mask_64: "w AND bit_mask_64 v \<noteq> 0 \<longleftrightarrow> bit w (unat v mod 64)"
proof -
  have "w AND bit_mask_64 v = (if bit w (unat v mod 64) then bit_mask_64 v else 0)"
    by (rule bit_eqI) (auto simp: bit_and_iff bit_bit_mask_64)
  moreover have "bit_mask_64 v \<noteq> 0"
    using bit_bit_mask_64 [of v "unat v mod 64"] by auto
  ultimately show ?thesis by simp
qed

lemma vmid_used_bit: "vmid_used s v \<longleftrightarrow> bit (vmids s (unat v div 64)) (unat v mod 64)"
  by (simp add: vmid_used_def and_bit_mask_64 unat_div)

definition reserve_vmid :: "u32 \<Rightarrow> rmm \<Rightarrow> rmm" where
  "reserve_vmid v s = s\<lparr>vmids := (vmids s)
     (unat v div 64 := vmids s (unat v div 64) OR bit_mask_64 v)\<rparr>"

definition release_vmid :: "u32 \<Rightarrow> rmm \<Rightarrow> rmm" where
  "release_vmid v s = s\<lparr>vmids := (vmids s)
     (unat v div 64 := vmids s (unat v div 64) AND NOT (bit_mask_64 v))\<rparr>"

lemma vmid_reserve_eq:
  "vmid_reserve ar v s =
     (if vmid_count ar \<le> v then (False, s) else (\<not> vmid_used s v, reserve_vmid v s))"
  by (simp add: vmid_reserve_def vmid_used_def reserve_vmid_def unat_div
      atomic_bit_set_acquire_release_64_def Let_def)

lemma vmid_free_eq:
  "vmid_free ar v s = (if v < vmid_count ar then Some (release_vmid v s) else None)"
  by (simp add: vmid_free_def bind_assert_c release_vmid_def atomic_bit_clear_release_64_def
      unat_div Let_def)

lemma vmid_simps [simp]:
  "granules (reserve_vmid v s) = granules s" "content (reserve_vmid v s) = content s"
  "glock (reserve_vmid v s) = glock s" "slots (reserve_vmid v s) = slots s"
  "trace (reserve_vmid v s) = trace s"
  "granules (release_vmid v s) = granules s" "content (release_vmid v s) = content s"
  "glock (release_vmid v s) = glock s" "slots (release_vmid v s) = slots s"
  "trace (release_vmid v s) = trace s"
  by (simp_all add: reserve_vmid_def release_vmid_def)

lemma same_bit:
  assumes "unat u div 64 = unat v div 64"
  shows "unat u mod 64 = unat v mod 64 \<longleftrightarrow> u = (v :: u32)"
proof
  assume "unat u mod 64 = unat v mod 64"
  with assms have "unat u = unat v" by (metis div_mult_mod_eq)
  then show "u = v" by (simp add: word_unat_eq_iff)
qed simp

lemma vmid_used_reserve [simp]: "vmid_used (reserve_vmid v s) u \<longleftrightarrow> u = v \<or> vmid_used s u"
proof (cases "unat u div 64 = unat v div 64")
  case True
  then have "vmid_used (reserve_vmid v s) u
      \<longleftrightarrow> vmid_used s u \<or> unat u mod 64 = unat v mod 64"
    by (simp add: vmid_used_bit reserve_vmid_def bit_or_iff bit_bit_mask_64)
  then show ?thesis using same_bit [OF True] by blast
next
  case False
  then have "vmid_used (reserve_vmid v s) u \<longleftrightarrow> vmid_used s u"
    by (simp add: vmid_used_bit reserve_vmid_def)
  with False show ?thesis by blast
qed

lemma vmid_used_release [simp]: "vmid_used (release_vmid v s) u \<longleftrightarrow> u \<noteq> v \<and> vmid_used s u"
proof (cases "unat u div 64 = unat v div 64")
  case True
  then have "vmid_used (release_vmid v s) u
      \<longleftrightarrow> vmid_used s u \<and> unat u mod 64 \<noteq> unat v mod 64"
    by (simp add: vmid_used_bit release_vmid_def bit_and_iff bit_not_iff bit_bit_mask_64)
  then show ?thesis using same_bit [OF True] by blast
next
  case False
  then have "vmid_used (release_vmid v s) u \<longleftrightarrow> vmid_used s u"
    by (simp add: vmid_used_bit release_vmid_def)
  with False show ?thesis by blast
qed

text \<open>Reserving a VMID that is in use, and releasing one just reserved, change nothing.\<close>

lemma reserve_used: "vmid_used s v \<Longrightarrow> vmids (reserve_vmid v s) = vmids s"
proof -
  assume "vmid_used s v"
  then have "vmids s (unat v div 64) OR bit_mask_64 v = vmids s (unat v div 64)"
    by (intro bit_eqI) (auto simp: vmid_used_bit bit_or_iff bit_bit_mask_64)
  then show ?thesis by (simp add: reserve_vmid_def fun_upd_idem)
qed

lemma release_reserved: "\<not> vmid_used s v \<Longrightarrow> vmids (release_vmid v (reserve_vmid v s)) = vmids s"
proof -
  assume "\<not> vmid_used s v"
  then have "(vmids s (unat v div 64) OR bit_mask_64 v) AND NOT (bit_mask_64 v)
      = vmids s (unat v div 64)"
    by (intro bit_eqI) (auto simp: vmid_used_bit bit_or_iff bit_and_iff bit_not_iff bit_bit_mask_64)
  then show ?thesis by (simp add: reserve_vmid_def release_vmid_def fun_upd_idem)
qed

section \<open>Validated parameters\<close>

definition s2_ctx_of :: "rmi_realm_params \<Rightarrow> nat \<Rightarrow> realm_s2_context" where
  "s2_ctx_of p g_rtt = \<lparr>s2_ipa_bits = requested_ipa_bits p,
     s2_starting_level = sint (ucast (p_rtt_level_start p) :: u32),
     s2_root_rtts = unat (p_rtt_num_start p), s2_g_rtt = g_rtt, s2_vmid = ucast (p_vmid p)\<rparr>"

lemma small_level:
  assumes "0 \<le> sint (w :: u64)" and "sint w \<le> 3"
  shows "sint (ucast w :: u32) = sint w"
proof -
  have "w = word_of_int (sint w)" by simp
  moreover have "sint w = 0 \<or> sint w = 1 \<or> sint w = 2 \<or> sint w = 3" using assms by linarith
  ultimately have "w = 0 \<or> w = 1 \<or> w = 2 \<or> w = 3" by (metis word_of_int_numeral word_of_int_0 word_of_int_1)
  then show ?thesis by auto
qed

lemma validate_ipa_bits_and_sl_range:
  assumes "validate_ipa_bits_and_sl ar b l = Some True"
  shows "32 \<le> b" "b \<le> 48" "0 \<le> l" "l \<le> 3" "level_lsb l < b" "b \<le> level_lsb l + 13"
proof -
  have r: "32 \<le> b" "b \<le> 48" "0 \<le> l" "l \<le> 3"
    using assms by (auto simp: validate_ipa_bits_and_sl_def word_consts split: if_splits)
  have "\<not> s2_inconsistent_sl b l"
    using assms by (auto simp: validate_ipa_bits_and_sl_def split: if_splits option.splits
        Option.bind_splits)
  then show "level_lsb l < b" "b \<le> level_lsb l + 13"
    using r by (auto simp: s2_inconsistent_sl_def level_lsb_def word_consts Let_def)
  show "32 \<le> b" "b \<le> 48" "0 \<le> l" "l \<le> 3" by (rule r)+
qed

lemma unat_s2_num_root_rtts:
  assumes "0 \<le> l" "l \<le> 3" and "b \<le> level_lsb l + 13"
  shows "unat (s2_num_root_rtts b l)
    = (if b \<le> level_lsb l + 9 then 1 else 2 ^ (b - (level_lsb l + 9)))"
proof -
  have lsb: "nat (RTT_PAGE_LEVEL - l) * S2TTE_STRIDE + GRANULE_SHIFT + S2TTE_STRIDE
      = level_lsb l + 9"
    using assms by (auto simp: level_lsb_def word_consts)
  have "unat (push_bit k 1 :: u32) = 2 ^ k" if "k \<le> 4" for k
  proof -
    from that have "k = 0 \<or> k = 1 \<or> k = 2 \<or> k = 3 \<or> k = 4" by linarith
    then show ?thesis by auto
  qed
  then show ?thesis using assms(3) unfolding s2_num_root_rtts_def Let_def lsb by auto
qed

lemma validated_s2_ctx:
  assumes "validate_ipa_bits_and_sl ar (requested_ipa_bits p) (sint (p_rtt_level_start p)) = Some True"
    and "s2_num_root_rtts (requested_ipa_bits p) (sint (p_rtt_level_start p)) = p_rtt_num_start p"
  shows "s2_ctx_ok (s2_ctx_of p g)"
proof -
  note r = validate_ipa_bits_and_sl_range [OF assms(1)]
  let ?l = "sint (p_rtt_level_start p)" and ?b = "requested_ipa_bits p"
  have n: "unat (p_rtt_num_start p)
      = (if ?b \<le> level_lsb ?l + 9 then 1 else 2 ^ (?b - (level_lsb ?l + 9)))"
    using unat_s2_num_root_rtts [OF r(3,4,6)] unfolding assms(2) .
  have "?b - (level_lsb ?l + 9) \<le> 4" using r(6) by linarith
  then have "(2::nat) ^ (?b - (level_lsb ?l + 9)) \<le> 2 ^ 4" by (intro power_increasing) simp_all
  then show ?thesis
    using r n small_level [OF r(3,4)] by (simp add: s2_ctx_ok_def s2_ctx_of_def)
qed

text \<open>
  The three outcomes of the validation.  A rejection leaves the state as it was, whatever
  the reason; an acceptance has reserved a VMID that was free.
\<close>

lemma validate_feature_register_None:
  "validate_feature_register ar RMM_FEATURE_REGISTER_0_INDEX v = None
     \<longleftrightarrow> arch_feat_get_pa_width ar = None"
  by (auto simp: validate_feature_register_def validate_feature_register_0_def
      get_feature_register_0_def Let_def split: Option.bind_splits)

lemma validate_ipa_bits_and_sl_total:
  "arch_feat_get_pa_width ar \<noteq> None \<Longrightarrow> \<exists>r. validate_ipa_bits_and_sl ar b l = Some r"
  by (auto simp: validate_ipa_bits_and_sl_def max_ipa_size_def)

lemma same_state_reserve_used: "vmid_used s v \<Longrightarrow> same_state s (reserve_vmid v s)"
  by (simp add: same_state_def reserve_used)

lemma validate_realm_params_cases:
  obtains (stuck) "validate_realm_params ar p s = None" "arch_feat_get_pa_width ar = None"
    | (rejected) s' where "validate_realm_params ar p s = Some (False, s')" "same_state s s'"
    | (accepted) a where "validate_realm_params ar p s = Some (True, reserve_vmid (ucast (p_vmid p)) s)"
      "ucast (p_vmid p) < vmid_count ar" "\<not> vmid_used s (ucast (p_vmid p))"
      "hash_algo_of (p_hash_algo p) = Some a" "\<And>g. s2_ctx_ok (s2_ctx_of p g)"
      "validate_feature_register ar RMM_FEATURE_REGISTER_0_INDEX (p_features_0 p) = Some True"
proof -
  let ?f = "validate_feature_register ar RMM_FEATURE_REGISTER_0_INDEX (p_features_0 p)"
  let ?v = "validate_ipa_bits_and_sl ar (requested_ipa_bits p) (sint (p_rtt_level_start p))"
  let ?n = "s2_num_root_rtts (requested_ipa_bits p) (sint (p_rtt_level_start p))"
  show ?thesis
  proof (cases "arch_feat_get_pa_width ar = None")
    case True
    then have "?f = None" by (simp add: validate_feature_register_None)
    then have "validate_realm_params ar p s = None" by (simp add: validate_realm_params_def)
    then show ?thesis using stuck True by blast
  next
    case False
    then have "?f \<noteq> None" by (simp add: validate_feature_register_None)
    then obtain f where f: "?f = Some f" by blast
    from validate_ipa_bits_and_sl_total [OF False] obtain v where v: "?v = Some v" by blast
    show ?thesis
    proof (cases "f \<and> v \<and> ?n = p_rtt_num_start p \<and> hash_algo_of (p_hash_algo p) \<noteq> None")
      case True
      then obtain a where a: "hash_algo_of (p_hash_algo p) = Some a" by blast
      have r: "validate_realm_params ar p s = Some (vmid_reserve ar (ucast (p_vmid p)) s)"
        using f v a True by (simp add: validate_realm_params_def)
      show ?thesis
      proof (cases "ucast (p_vmid p) < vmid_count ar \<and> \<not> vmid_used s (ucast (p_vmid p))")
        case True
        then show ?thesis using accepted a r f v \<open>f \<and> v \<and> _ \<and> _\<close> validated_s2_ctx
          by (simp add: vmid_reserve_eq not_le [symmetric])
      next
        case False
        then have "fst (vmid_reserve ar (ucast (p_vmid p)) s) = False"
          "same_state s (snd (vmid_reserve ar (ucast (p_vmid p)) s))"
          by (auto simp: vmid_reserve_eq same_state_reserve_used)
        then show ?thesis using rejected r by (metis prod.collapse)
      qed
    next
      case False
      then have "validate_realm_params ar p s = Some (False, s)"
        using f v by (auto simp: validate_realm_params_def split: option.splits)
      then show ?thesis using rejected by simp
    qed
  qed
qed

section \<open>The descriptor lies outside its tables\<close>

lemma outside_tables:
  assumes "addr_is_contained b (b + of_nat n * GRANULE_SIZE) a = Some False"
    and "0 < n" "n \<le> 16" and j: "j < n"
  shows "a \<noteq> b + of_nat j * GRANULE_SIZE"
proof
  assume a: "a = b + of_nat j * GRANULE_SIZE"
  let ?e = "b + of_nat n * GRANULE_SIZE - 1"
  have le: "b \<le> ?e" and out: "\<not> (b \<le> a \<and> a \<le> ?e)"
    using assms(1) by (auto simp: addr_is_contained_def bind_assert_c split: if_splits)
  have e: "?e = b + of_nat (n * 4096 - 1)"
    using assms(2) by (simp add: of_nat_diff word_consts)
  have "n * 4096 - 1 < 2 ^ 64" using assms(3) by simp
  then have m: "unat (of_nat (n * 4096 - 1) :: u64) = n * 4096 - 1"
    unfolding unat_of_nat by simp
  have mj: "unat (of_nat j * GRANULE_SIZE :: u64) = j * 4096"
    using assms(3) j by (simp add: unat_of_nat word_consts unat_word_ariths)
  have lt: "unat b + (n * 4096 - 1) < 2 ^ 64"
    using le no_olen_add_nat [of b "of_nat (n * 4096 - 1)"] unfolding e m by simp
  have u: "unat ?e = unat b + (n * 4096 - 1)"
    using lt unfolding e unat_word_ariths m by simp
  have "j * 4096 \<le> n * 4096 - 1" using j by linarith
  then have "unat a = unat b + j * 4096"
    using lt mj unfolding a by (simp add: unat_plus_if')
  then show False using out u \<open>j * 4096 \<le> n * 4096 - 1\<close> by (simp add: word_le_nat_alt)
qed

end
