(* ===== verification/Realm_Create_Correct.thy ===== *)
theory Realm_Create_Correct
  imports Realm_Correct Realm_Params_Correct
begin

text \<open>
  Realm.Create: on an error nothing has changed, the VMID pool included; on success a new
  realm stands on granules that were delegated, with empty tables and a VMID of its own.
\<close>

section \<open>The last loop of the command\<close>

definition states_set :: "(nat \<Rightarrow> bool) \<Rightarrow> granule_state \<Rightarrow> (nat \<Rightarrow> granule) \<Rightarrow> nat \<Rightarrow> granule" where
  "states_set P st gr x = (if P x then (gr x)\<lparr>g_state := st\<rparr> else gr x)"

lemma unlock_rtts_as_tables_spec:
  assumes "\<And>j. j < n \<Longrightarrow> granule_assert_unlocked_invariants GRANULE_STATE_RTT (grc s (g + j))"
  shows "\<exists>s'. unlock_rtts_as_tables g n s = Some s'
    \<and> granules s' = states_set (row (Some g) n) GRANULE_STATE_RTT (granules s)
    \<and> glock s' = (\<lambda>x. glock s x \<and> \<not> row (Some g) n x)
    \<and> content s' = content s \<and> slots s' = slots s \<and> vmids s' = vmids s"
  using assms
proof (induction n arbitrary: g s)
  case 0
  then show ?case by (simp add: states_set_def fun_eq_iff)
next
  case (Suc n)
  let ?s1 = "spinlock_release g (granule_set_state g GRANULE_STATE_RTT s)"
  have u: "granule_unlock_transition g GRANULE_STATE_RTT s = Some ?s1"
    using Suc.prems [of 0] by (simp add: granule_unlock_transition_def granule_unlock_def)
  have "granule_assert_unlocked_invariants GRANULE_STATE_RTT (grc ?s1 (Suc g + j))" if "j < n" for j
    using Suc.prems [of "Suc j"] that by simp
  from Suc.IH [OF this] obtain s' where s': "unlock_rtts_as_tables (Suc g) n ?s1 = Some s'"
    "granules s' = states_set (row (Some (Suc g)) n) GRANULE_STATE_RTT (granules ?s1)"
    "glock s' = (\<lambda>x. glock ?s1 x \<and> \<not> row (Some (Suc g)) n x)"
    "content s' = content ?s1" "slots s' = slots ?s1" "vmids s' = vmids ?s1" by blast
  have r: "row (Some g) (Suc n) x \<longleftrightarrow> x = g \<or> row (Some (Suc g)) n x" for x
    by (auto simp: row_def)
  have "granules s' = states_set (row (Some g) (Suc n)) GRANULE_STATE_RTT (granules s)"
    unfolding s'(2) by (auto simp: states_set_def r fun_eq_iff)
  moreover have "glock s' = (\<lambda>x. glock s x \<and> \<not> row (Some g) (Suc n) x)"
    unfolding s'(3) by (auto simp: r fun_eq_iff)
  ultimately show ?case using s'(1,4-6) by (simp add: u)
qed

section \<open>The cases of the command\<close>

lemma init_rd_fields [simp]:
  "rd_s2_ctx (init_rd hash p a g zero_rd) = s2_ctx_of p g"
  "rd_state (init_rd hash p a g zero_rd) = REALM_STATE_NEW"
  "rd_algorithm (init_rd hash p a g zero_rd) = a"
  "rd_rec_count (init_rd hash p a g zero_rd) = 0"
  "length (rd_measurement (init_rd hash p a g zero_rd)) = 5"
  by (simp_all add: init_rd_def s2_ctx_of_def realm_params_measure_def set_rim_def zero_rd_def
      Let_def)

text \<open>What the command does not control: an implemented PARange, and no wrap-around.\<close>

definition tables_wrap :: "rmi_realm_params \<Rightarrow> bool" where
  "tables_wrap p \<longleftrightarrow>
     p_rtt_base p + ucast (p_rtt_num_start p) * GRANULE_SIZE - 1 < p_rtt_base p"

definition realm_added ::
  "hash_fun \<Rightarrow> rmi_realm_params \<Rightarrow> hash_algo \<Rightarrow> nat \<Rightarrow> nat \<Rightarrow> rmm \<Rightarrow> rmm \<Rightarrow> bool" where
  "realm_added hash p a g_rd g s s' \<longleftrightarrow>
     granules s' = states_set (row (Some g) (unat (p_rtt_num_start p))) GRANULE_STATE_RTT
       ((granules s)(g_rd := (granules s g_rd)\<lparr>g_state := GRANULE_STATE_RD\<rparr>))
   \<and> content s' = (content s)(g_rd := CRd (init_rd hash p a g zero_rd))
   \<and> vmids s' = vmids (reserve_vmid (ucast (p_vmid p)) s)
   \<and> glock s' = glock s \<and> slots s' = slots s"

lemma get_realm_params_eq:
  assumes "quiet s"
  shows "get_realm_params a mem s =
    Some (case find_granule a of
            None \<Rightarrow> None
          | Some g \<Rightarrow> if gst s g = GRANULE_STATE_NS then mem else None, s)"
  using assms
  by (auto simp: get_realm_params_def quiet_def ns_buffer_read_eq find_granule_bound
      split: option.splits)

lemma num_start_bounds:
  assumes "s2_ctx_ok (s2_ctx_of p g)"
  shows "0 < unat (p_rtt_num_start p)" "unat (p_rtt_num_start p) \<le> 16"
  using assms by (auto simp: s2_ctx_ok_def s2_ctx_of_def split: if_splits)

lemma rd_not_in_row:
  assumes "find_granule rd_addr = Some g_rd" and "find_granule b = Some g"
    and "\<forall>j<n. free_at s b j" and "n \<le> 16"
    and "\<forall>j g. j < n \<longrightarrow> find_granule (b + of_nat j * GRANULE_SIZE) = Some g
                  \<longrightarrow> find_granule rd_addr \<noteq> Some g"
  shows "\<not> row (Some g) n g_rd"
proof
  assume "row (Some g) n g_rd"
  then obtain j where j: "j < n" "g_rd = g + j"
    by (auto simp: row_def intro: that [of "g_rd - g"])
  then have "find_granule (b + of_nat j * GRANULE_SIZE) = Some g_rd"
    using free_row(3) [OF assms(2), of j s] assms(3,4) by auto
  then show False using assms(1,5) j(1) by blast
qed

lemma create_finish:
  assumes inv: "inv_with lv par s0" and q: "quiet s0"
    and s: "relocked s0 (\<lambda>x. x = g_rd \<or> row (Some g) n x) s"
    and rd: "g_rd < RMM_MAX_GRANULES" "gst s0 g_rd = GRANULE_STATE_DELEGATED"
    and rtt: "find_granule b = Some g" "\<forall>j<n. free_at s0 b j" "n \<le> 16"
    and nr: "\<not> row (Some g) n g_rd"
  shows "\<exists>s'. do {
      s \<leftarrow> granule_map g_rd SLOT_RD s;
      rd \<leftarrow> rd_of (content s g_rd);
      s \<leftarrow> granule_unlock_transition g_rd GRANULE_STATE_RD
             (buffer_unmap SLOT_RD (set_rd g_rd (f rd) s));
      s \<leftarrow> unlock_rtts_as_tables g n s;
      Some (RMI_SUCCESS, s) } = Some (RMI_SUCCESS, s')
    \<and> granules s' = states_set (row (Some g) n) GRANULE_STATE_RTT
         ((granules s0)(g_rd := (granules s0 g_rd)\<lparr>g_state := GRANULE_STATE_RD\<rparr>))
    \<and> content s' = (content s0)(g_rd := CRd (f zero_rd))
    \<and> vmids s' = vmids s0 \<and> glock s' = glock s0 \<and> slots s' = slots s0"
proof -
  have st: "granules s = granules s0" "content s = content s0" "slots s = slots s0"
    "vmids s = vmids s0" "glock s = (\<lambda>x. x = g_rd \<or> row (Some g) n x)"
    using s by (simp_all add: relocked_def)
  have c: "content s0 g_rd = CZero" using inv_with_delegated [OF inv rd] .
  have rc: "grc s0 x = 0" if "x < RMM_MAX_GRANULES" "gst s0 x = GRANULE_STATE_DELEGATED" for x
    using inv_with_unlocked [OF inv that(1)] that(2) by (simp add: unlocked_ok_def)
  let ?s1 = "spinlock_release g_rd (granule_set_state g_rd GRANULE_STATE_RD
      (buffer_unmap SLOT_RD (set_rd g_rd (f zero_rd) (map_slot SLOT_RD g_rd s))))"
  have sl: "slots s SLOT_RD = None" using q st(3) by (simp add: quiet_def)
  have m: "granule_map g_rd SLOT_RD s = Some (map_slot SLOT_RD g_rd s)"
    using rd(1) sl by (simp add: granule_map_eq)
  have u: "granule_unlock_transition g_rd GRANULE_STATE_RD
      (buffer_unmap SLOT_RD (set_rd g_rd (f zero_rd) (map_slot SLOT_RD g_rd s))) = Some ?s1"
    using rc [OF rd] by (simp add: granule_unlock_transition_def granule_unlock_def st set_rd_def)
  have "granule_assert_unlocked_invariants GRANULE_STATE_RTT (grc ?s1 (g + j))" if j: "j < n" for j
  proof -
    have "grc s0 (g + j) = 0"
      using free_row(1,2) [OF rtt(1), of j s0] rtt(2,3) j rc by auto
    then show ?thesis using rc [OF rd] by (simp add: st set_rd_def)
  qed
  from unlock_rtts_as_tables_spec [OF this, of n] obtain s' where
    s': "unlock_rtts_as_tables g n ?s1 = Some s'"
    "granules s' = states_set (row (Some g) n) GRANULE_STATE_RTT (granules ?s1)"
    "glock s' = (\<lambda>x. glock ?s1 x \<and> \<not> row (Some g) n x)"
    "content s' = content ?s1" "slots s' = slots ?s1" "vmids s' = vmids ?s1" by blast
  have "glock s' = glock s0"
    using q unfolding s'(3) by (auto simp: quiet_def st set_rd_def fun_eq_iff)
  moreover have "slots s' = slots s0"
    using q unfolding s'(5) by (auto simp: quiet_def st set_rd_def fun_eq_iff)
  ultimately show ?thesis using s'(1,2,4,6) by (simp add: m st c u [unfolded set_rd_def] set_rd_def)
qed

lemma smc_realm_create_cases:
  assumes inv: "inv_with lv par s" and q: "quiet s"
  obtains (stuck) "smc_realm_create ar hash rd_addr pa mem s = None"
      "arch_feat_get_pa_width ar = None \<or> (\<exists>p. mem = Some p \<and> tables_wrap p)"
    | (error) s' where "smc_realm_create ar hash rd_addr pa mem s = Some (RMI_ERROR_INPUT, s')"
      "same_state s s'"
    | (success) p a g_rd g s' where
      "smc_realm_create ar hash rd_addr pa mem s = Some (RMI_SUCCESS, s')" "mem = Some p"
      "ucast (p_vmid p) < vmid_count ar" "\<not> vmid_used s (ucast (p_vmid p))"
      "hash_algo_of (p_hash_algo p) = Some a" "s2_ctx_ok (s2_ctx_of p g)"
      "find_granule rd_addr = Some g_rd" "gst s g_rd = GRANULE_STATE_DELEGATED"
      "find_granule (p_rtt_base p) = Some g" "\<forall>j<unat (p_rtt_num_start p). free_at s (p_rtt_base p) j"
      "\<not> row (Some g) (unat (p_rtt_num_start p)) g_rd" "realm_added hash p a g_rd g s s'"
proof -
  let ?cmd = "smc_realm_create ar hash rd_addr pa mem s"
  let ?found = "\<exists>g. find_granule pa = Some g \<and> gst s g = GRANULE_STATE_NS"
  note params = get_realm_params_eq [OF q, of pa mem]
  show ?thesis
  proof (cases "if ?found then mem else None")
    case None
    have "get_realm_params pa mem s = Some (None, s)"
      using None params by (auto split: option.splits if_splits)
    then have "?cmd = Some (RMI_ERROR_INPUT, s)" by (simp add: smc_realm_create_def)
    then show ?thesis using error by simp
  next
    case (Some p)
    then have mem: "mem = Some p" and gp: "get_realm_params pa mem s = Some (Some p, s)"
      using params by (auto split: if_splits)
    let ?v = "ucast (p_vmid p) :: u32" and ?n = "unat (p_rtt_num_start p)" and ?b = "p_rtt_base p"
    let ?e = "?b + ucast (p_rtt_num_start p) * GRANULE_SIZE" and ?s1 = "reserve_vmid ?v s"
    have inv1: "inv_with lv par ?s1" using inv by (rule inv_with_same) simp_all
    have q1: "quiet ?s1" using q by (simp add: quiet_def)
    show ?thesis
    proof (cases rule: validate_realm_params_cases [of ar p s])
      case v: stuck
      then have "?cmd = None" by (simp add: smc_realm_create_def gp)
      then show ?thesis using stuck v(2) by blast
    next
      case (rejected s')
      then have "?cmd = Some (RMI_ERROR_INPUT, s')" by (simp add: smc_realm_create_def gp)
      then show ?thesis using error rejected(2) by blast
    next
      case v: (accepted a)
      note n = num_start_bounds [OF v(5)]
      have undo: "vmid_free ar ?v t = Some (release_vmid ?v t)" for t
        using v(2) by (simp add: vmid_free_eq)
      have undone: "same_state s (release_vmid ?v t)" if "same_state ?s1 t" for t
      proof -
        have "vmids t = vmids ?s1" using that by (simp add: same_state_def)
        then have "vmids (release_vmid ?v t) = vmids (release_vmid ?v ?s1)"
          by (simp add: release_vmid_def)
        then show ?thesis using that release_reserved [OF v(3)] by (simp add: same_state_def)
      qed
      show ?thesis
      proof (cases "addr_is_contained ?b ?e rd_addr")
        case None
        then have "?cmd = None" by (simp add: smc_realm_create_def gp v(1))
        moreover have "tables_wrap p"
          using None by (auto simp: tables_wrap_def addr_is_contained_def bind_assert_c split: if_splits)
        ultimately show ?thesis using stuck mem by blast
      next
        case ci: (Some inside)
        show ?thesis
        proof (cases inside)
          case True
          then have "?cmd = Some (RMI_ERROR_INPUT, release_vmid ?v ?s1)"
            by (simp add: smc_realm_create_def gp v(1) ci undo)
          then show ?thesis using error undone [of ?s1] by simp
        next
          case False
          have num: "of_nat ?n = (ucast (p_rtt_num_start p) :: u64)" by simp
          have "rd_addr \<noteq> ?b + of_nat j * GRANULE_SIZE" if "j < ?n" for j
            using outside_tables [OF _ n that, of ?b rd_addr] ci False by (simp add: num)
          then have apart: "\<forall>j g. j < ?n \<longrightarrow> find_granule (?b + of_nat j * GRANULE_SIZE) = Some g
              \<longrightarrow> find_granule rd_addr \<noteq> Some g"
            using find_granule_inject by metis
          from inv1 q1 n apart show ?thesis
          proof (cases rule: find_lock_rd_granules_cases [where b = ?b and n = ?n and rd_addr = rd_addr])
            case (none s2)
            then have "?cmd = Some (RMI_ERROR_INPUT, release_vmid ?v s2)"
              by (simp add: smc_realm_create_def gp v(1) ci False undo)
            then show ?thesis using error undone [OF none(2)] by blast
          next
            case (both g_rd g s2)
            have nr: "\<not> row (Some g) ?n g_rd"
              using rd_not_in_row [OF both(2,4,5) n(2) apart] by blast
            from create_finish [OF inv1 q1 both(6) find_granule_bound [OF both(2)] both(3-5) n(2) nr,
                where f = "init_rd hash p a g"]
            obtain s' where s': "do {
                s \<leftarrow> granule_map g_rd SLOT_RD s2;
                rd \<leftarrow> rd_of (content s g_rd);
                s \<leftarrow> granule_unlock_transition g_rd GRANULE_STATE_RD
                       (buffer_unmap SLOT_RD (set_rd g_rd (init_rd hash p a g rd) s));
                s \<leftarrow> unlock_rtts_as_tables g ?n s;
                Some (RMI_SUCCESS, s) } = Some (RMI_SUCCESS, s')"
              "realm_added hash p a g_rd g s s'" by (auto simp: realm_added_def)
            have "?cmd = Some (RMI_SUCCESS, s')"
              using s'(1) by (simp add: smc_realm_create_def gp v(1,4) ci False both(1,4))
            moreover have "\<forall>j<?n. free_at s ?b j" "gst s g_rd = GRANULE_STATE_DELEGATED"
              using both(3,5) by (simp_all add: free_at_def)
            ultimately show ?thesis using success mem v(2-5) both(2,4) nr s'(2) by blast
          qed
        qed
      qed
    qed
  qed
qed

section \<open>The invariant\<close>

lemma ref_count_replicate_zero [simp]: "ref_count (replicate n 0) = 0"
  by (simp add: ref_count_def s2tte_refs_def)

lemma empty_table_ok:
  assumes "content s x = CZero" and "grc s x = 0" and "0 \<le> lv x" and "lv x \<le> 3"
  shows "rtt_ok lv par s x"
  using assms by (simp add: rtt_ok_def entry_ok_def leaf_entry_def)

lemma free_granules:
  assumes "inv_with lv par s" and "find_granule b = Some g" and "\<forall>j<n. free_at s b j"
    and "n \<le> 16" and "row (Some g) n x"
  shows "x < RMM_MAX_GRANULES" "gst s x = GRANULE_STATE_DELEGATED" "content s x = CZero"
proof -
  from assms(5) obtain j where j: "j < n" "x = g + j"
    by (auto simp: row_def intro: that [of "x - g"])
  then show x: "x < RMM_MAX_GRANULES" "gst s x = GRANULE_STATE_DELEGATED"
    using free_row(1,2) [OF assms(2), of j s] assms(3,4) by auto
  show "content s x = CZero" using inv_with_delegated [OF assms(1) x] .
qed

lemma realm_added_links:
  assumes inv: "inv_with lv par s" and new: "\<And>x. x = g_rd \<or> P x \<Longrightarrow> gst s x = GRANULE_STATE_DELEGATED"
    and gr: "granules s' = states_set P GRANULE_STATE_RTT
      ((granules s)(g_rd := (granules s g_rd)\<lparr>g_state := GRANULE_STATE_RD\<rparr>))"
    and co: "content s' = (content s)(g_rd := CRd rd)" and nP: "\<not> P g_rd"
    and rd: "g_rd < RMM_MAX_GRANULES"
  shows "links_ok s'"
proof -
  have st: "gst s' x = (if x = g_rd then GRANULE_STATE_RD
      else if P x then GRANULE_STATE_RTT else gst s x)" and rc: "grc s' x = grc s x" for x
    using nP by (simp_all add: gr states_set_def)
  have lk: "links_ok s" using inv by (simp add: inv_with_def)
  have rec: "gst s' x = GRANULE_STATE_REC \<longleftrightarrow> gst s x = GRANULE_STATE_REC"
    and kept: "gst s x = GRANULE_STATE_REC \<Longrightarrow> content s' x = content s x" for x
    using new [of x] by (auto simp: st co)
  have old: "ri_g_rd (rec_realm_info r) \<noteq> g_rd \<and> \<not> P (ri_g_rd (rec_realm_info r))"
    if "x < RMM_MAX_GRANULES" "gst s x = GRANULE_STATE_REC" "content s x = CRec r" for x r
    using lk that new by (fastforce simp: links_ok_def rec_linked_def)
  have recs: "recs_of s' y = recs_of s y" for y
    unfolding recs_of_def rec using kept by auto
  have none: "recs_of s g_rd = {}" using old by (auto simp: recs_of_def)
  have rc0: "grc s g_rd = 0"
    using inv_with_unlocked [OF inv rd] new by (simp add: unlocked_ok_def)
  show ?thesis
    unfolding links_ok_def
  proof (intro allI impI conjI)
    fix x assume x: "x < RMM_MAX_GRANULES" and "gst s' x = GRANULE_STATE_REC"
    then have r: "gst s x = GRANULE_STATE_REC" by (simp add: rec)
    with lk x have l: "rec_linked s x" by (simp add: links_ok_def)
    show "rec_linked s' x"
      using l old [OF x r] kept [OF r] by (auto simp: rec_linked_def st co)
  next
    fix x assume "x < RMM_MAX_GRANULES" and "gst s' x = GRANULE_STATE_RD"
    then show "grc s' x = of_nat (card (recs_of s' x))"
      using lk none rc0 by (cases "x = g_rd") (auto simp: rc recs st links_ok_def split: if_splits)
  qed
qed

lemma realm_added_inv:
  assumes inv: "inv_with lv par s" and ctx: "s2_ctx_ok (s2_ctx_of p g)"
    and rd: "g_rd < RMM_MAX_GRANULES" "gst s g_rd = GRANULE_STATE_DELEGATED"
    and rtt: "find_granule (p_rtt_base p) = Some g"
      "\<forall>j<unat (p_rtt_num_start p). free_at s (p_rtt_base p) j"
    and nr: "\<not> row (Some g) (unat (p_rtt_num_start p)) g_rd"
    and s': "realm_added hash p a g_rd g s s'"
  shows "inv s'"
proof -
  let ?n = "unat (p_rtt_num_start p)" and ?c = "s2_ctx_of p g"
  define P where "P = row (Some g) ?n"
  define lv' where "lv' = (\<lambda>x. if P x then s2_starting_level ?c else lv x)"
  define par' where "par' = (\<lambda>x. if P x then RdOwner g_rd else par x)"
  have gr: "granules s' = states_set P GRANULE_STATE_RTT
      ((granules s)(g_rd := (granules s g_rd)\<lparr>g_state := GRANULE_STATE_RD\<rparr>))"
    and co: "content s' = (content s)(g_rd := CRd (init_rd hash p a g zero_rd))"
    using s' by (simp_all add: realm_added_def P_def)
  note free = free_granules [OF inv rtt num_start_bounds(2) [OF ctx], folded P_def]
  have nP: "\<not> P g_rd" using nr by (simp add: P_def)
  have new: "gst s x = GRANULE_STATE_DELEGATED" if "x = g_rd \<or> P x" for x
    using that rd(2) free(2) by blast
  have rc: "grc s' x = 0" if "x = g_rd \<or> P x" for x
  proof -
    have "x < RMM_MAX_GRANULES" using that rd(1) free(1) by blast
    then have "unlocked_ok s x" by (rule inv_with_unlocked [OF inv])
    then have "grc s x = 0" using new [OF that] by (simp add: unlocked_ok_def)
    then show ?thesis by (auto simp: gr states_set_def)
  qed
  have "inv_with lv' par' s'"
  proof (rule inv_with_step [OF inv, where T = "{x. x = g_rd \<or> P x}"])
    show "links_ok s'" by (rule realm_added_links [OF inv new gr co nP rd(1)])
  next
    fix x assume "x \<notin> {x. x = g_rd \<or> P x}"
    then show "granules s' x = granules s x \<and> content s' x = content s x \<and> lv' x = lv x"
      by (simp add: gr co lv'_def states_set_def)
  next
    fix x d assume "owned_state (gst s d)"
    then have "\<not> (d = g_rd \<or> P d)" using new by fastforce
    then show "kept lv par s lv' par' s' d"
      by (simp add: kept_def gr lv'_def par'_def states_set_def)
  next
    fix x assume x: "x \<in> {x. x = g_rd \<or> P x}" and b: "x < RMM_MAX_GRANULES"
    show "granule_ok lv' par' s' x"
    proof (cases "x = g_rd")
      case True
      have rows: "g + k < RMM_MAX_GRANULES \<and> gst s' (g + k) = GRANULE_STATE_RTT
          \<and> lv' (g + k) = s2_starting_level ?c \<and> par' (g + k) = RdOwner g_rd" if "k < ?n" for k
      proof -
        have "P (g + k)" using that by (simp add: P_def row_def)
        then show ?thesis using free(1) by (simp add: gr lv'_def par'_def states_set_def)
      qed
      have "s2_root_rtts ?c = ?n" "s2_g_rtt ?c = g" by (simp_all add: s2_ctx_of_def)
      then have "rd_ok lv' par' s' g_rd" using ctx rows by (simp add: rd_ok_def co)
      then show ?thesis
        using True rc [of g_rd] nP by (simp add: granule_ok_def unlocked_ok_def gr states_set_def)
    next
      case False
      with x have P: "P x" by simp
      have "rtt_ok lv' par' s' x"
        using empty_table_ok [of s' x lv' par'] ctx free(3) [OF P] rc [of x] P False
        by (simp add: co lv'_def s2_ctx_ok_def)
      then show ?thesis
        using P rc [of x] by (simp add: granule_ok_def unlocked_ok_def gr states_set_def)
    qed
  qed
  then show ?thesis by (rule inv_defI)
qed

lemma smc_realm_create_safe:
  assumes "inv s" and q: "quiet s"
  shows "case smc_realm_create ar hash rd_addr pa mem s of
      None \<Rightarrow> arch_feat_get_pa_width ar = None \<or> (\<exists>p. mem = Some p \<and> tables_wrap p)
    | Some (ret, s') \<Rightarrow> inv s' \<and> quiet s'"
proof -
  from assms obtain lv par where inv: "inv_with lv par s" by (auto simp: inv_def)
  from inv q show ?thesis
  proof (cases rule: smc_realm_create_cases
      [where ar = ar and hash = hash and rd_addr = rd_addr and pa = pa and mem = mem])
    case stuck
    then show ?thesis by simp
  next
    case (error s')
    then show ?thesis using assms inv_cong quiet_cong by auto
  next
    case (success p a g_rd g s')
    have "inv s'"
      using realm_added_inv [OF inv success(6) find_granule_bound [OF success(7)] success(8-12)] .
    then show ?thesis using success(1,12) q by (simp add: quiet_def realm_added_def)
  qed
qed

end
