(* ===== verification/Realm_Destroy_Correct.thy ===== *)
theory Realm_Destroy_Correct
  imports Realm_Create_Correct
begin

text \<open>
  Realm.Destroy: the realm goes only when it has no REC and its starting level tables are
  empty; all its granules are then delegated and zeroed.  The VMID is released before the
  tables are looked at.
\<close>

section \<open>Two loops over the starting level tables\<close>

definition root_row :: "rmm \<Rightarrow> nat \<Rightarrow> nat \<Rightarrow> bool" where
  "root_row s g n \<longleftrightarrow> (\<forall>k<n. g + k < RMM_MAX_GRANULES \<and> gst s (g + k) = GRANULE_STATE_RTT
     \<and> \<not> glock s (g + k) \<and> unlocked_ok s (g + k))"

lemma root_row_Suc:
  assumes "root_row s g (Suc n)"
  shows "g < RMM_MAX_GRANULES" "gst s g = GRANULE_STATE_RTT" "\<not> glock s g" "unlocked_ok s g"
    "root_row s (Suc g) n"
proof -
  show "g < RMM_MAX_GRANULES" "gst s g = GRANULE_STATE_RTT" "\<not> glock s g" "unlocked_ok s g"
    using assms unfolding root_row_def by (metis add_0_right zero_less_Suc)+
  show "root_row s (Suc g) n"
    using assms unfolding root_row_def by (metis Suc_less_eq add_Suc_shift)
qed

lemma total_root_rtt_refcount_spec:
  assumes "root_row s g n" and "n \<le> 16"
    and "\<And>k. k < n \<Longrightarrow> unat (grc s (g + k)) \<le> 512"
    and "unat acc + n * 512 < 2 ^ 63"
  shows "\<exists>r s'. total_root_rtt_refcount g n acc s = Some (r, s') \<and> relocked s (glock s) s'
    \<and> (r = 0 \<longleftrightarrow> acc = 0 \<and> (\<forall>k<n. grc s (g + k) = 0))"
  using assms
proof (induction n arbitrary: g acc s)
  case 0
  then show ?case by (simp add: relocked_def)
next
  case (Suc n)
  note r = root_row_Suc [OF Suc.prems(1)]
  let ?s1 = "spinlock_release g (lock_g g GRANULE_STATE_RTT s)"
  let ?acc = "acc + grc s g"
  have lk: "granule_lock g GRANULE_STATE_RTT s = Some (lock_g g GRANULE_STATE_RTT s)"
    using r by (simp add: granule_lock_eq)
  have ul: "granule_unlock g (lock_g g GRANULE_STATE_RTT s) = Some ?s1"
    by (rule granule_unlock_eq) (use r(4) in \<open>simp add: unlocked_ok_def\<close>)
  have gl: "glock ?s1 = glock s" using r(3) by (auto simp: fun_eq_iff)
  have g512: "unat (grc s g) \<le> 512" using Suc.prems(3) [of 0] by simp
  have u: "unat ?acc = unat acc + unat (grc s g)"
    using g512 Suc.prems(4) by (intro unat_add_lem [THEN iffD1]) simp
  have z: "?acc = 0 \<longleftrightarrow> acc = 0 \<and> grc s g = 0"
    using u by (metis add_is_0 unsigned_0 unat_eq_zero)
  have i1: "root_row ?s1 (Suc g) n"
    using r(5) unfolding root_row_def gl by (simp add: unlocked_ok_def)
  have i2: "unat (grc ?s1 (Suc g + k)) \<le> 512" if "k < n" for k
    using Suc.prems(3) [of "Suc k"] that by simp
  have i3: "n \<le> 16" "unat ?acc + n * 512 < 2 ^ 63" using u g512 Suc.prems(2,4) by simp_all
  from Suc.IH [OF i1 i3(1) i2 i3(2)] obtain t s' where IH: "total_root_rtt_refcount (Suc g) n ?acc ?s1 = Some (t, s')"
    "relocked ?s1 (glock ?s1) s'"
    "t = 0 \<longleftrightarrow> ?acc = 0 \<and> (\<forall>k<n. grc ?s1 (Suc g + k) = 0)"
    by blast
  have "(\<forall>k<Suc n. grc s (g + k) = 0) \<longleftrightarrow> grc s g = 0 \<and> (\<forall>k<n. grc s (Suc g + k) = 0)"
    by (auto simp: less_Suc_eq_0_disj)
  with IH(3) z have "t = 0 \<longleftrightarrow> acc = 0 \<and> (\<forall>k<Suc n. grc s (g + k) = 0)" by auto
  moreover have "total_root_rtt_refcount g (Suc n) acc s = Some (t, s')"
    using IH(1) by (simp add: lk ul)
  moreover have "relocked s (glock s) s'" using IH(2) unfolding gl by (simp add: relocked_def)
  ultimately show ?case by blast
qed

definition zeroed :: "(nat \<Rightarrow> bool) \<Rightarrow> (nat \<Rightarrow> content) \<Rightarrow> nat \<Rightarrow> content" where
  "zeroed P co x = (if P x then CZero else co x)"

lemma free_sl_rtts_spec:
  assumes "root_row s g n" and "\<And>k. k < n \<Longrightarrow> grc s (g + k) = 0" and "slots s SLOT_RTT = None"
  shows "\<exists>s'. free_sl_rtts g n s = Some s'
    \<and> granules s' = states_set (row (Some g) n) GRANULE_STATE_DELEGATED (granules s)
    \<and> content s' = zeroed (row (Some g) n) (content s)
    \<and> glock s' = glock s \<and> slots s' = slots s \<and> vmids s' = vmids s"
  using assms
proof (induction n arbitrary: g s)
  case 0
  then show ?case by (simp add: states_set_def zeroed_def fun_eq_iff)
next
  case (Suc n)
  note r = root_row_Suc [OF Suc.prems(1)]
  let ?s1 = "granule_memzero_mapped g (lock_g g GRANULE_STATE_RTT s)"
  let ?s2 = "spinlock_release g (granule_set_state g GRANULE_STATE_DELEGATED ?s1)"
  have rc: "grc s g = 0" using Suc.prems(2) [of 0] by simp
  have lk: "granule_lock g GRANULE_STATE_RTT s = Some (lock_g g GRANULE_STATE_RTT s)"
    using r by (simp add: granule_lock_eq)
  have mz: "granule_memzero g SLOT_RTT (lock_g g GRANULE_STATE_RTT s) = Some ?s1"
    using r(1) Suc.prems(3) by (simp add: granule_memzero_eq)
  have ul: "granule_unlock_transition g GRANULE_STATE_DELEGATED ?s1 = Some ?s2"
    using rc by (simp add: granule_unlock_transition_def granule_unlock_def)
  have gl: "glock ?s2 = glock s" using r(3) by (auto simp: fun_eq_iff)
  have i1: "root_row ?s2 (Suc g) n"
    using r(5) unfolding root_row_def gl by (simp add: unlocked_ok_def)
  have i2: "grc ?s2 (Suc g + k) = 0" if "k < n" for k
    using Suc.prems(2) [of "Suc k"] that by simp
  have i3: "slots ?s2 SLOT_RTT = None" using Suc.prems(3) by simp
  from Suc.IH [OF i1 i2 i3] obtain s' where IH: "free_sl_rtts (Suc g) n ?s2 = Some s'"
    "granules s' = states_set (row (Some (Suc g)) n) GRANULE_STATE_DELEGATED (granules ?s2)"
    "content s' = zeroed (row (Some (Suc g)) n) (content ?s2)"
    "glock s' = glock ?s2" "slots s' = slots ?s2" "vmids s' = vmids ?s2"
    by blast
  have rw: "row (Some g) (Suc n) x \<longleftrightarrow> x = g \<or> row (Some (Suc g)) n x" for x
    by (auto simp: row_def)
  have "granules s' = states_set (row (Some g) (Suc n)) GRANULE_STATE_DELEGATED (granules s)"
    unfolding IH(2) by (auto simp: states_set_def rw fun_eq_iff)
  moreover have "content s' = zeroed (row (Some g) (Suc n)) (content s)"
    unfolding IH(3) by (auto simp: zeroed_def rw fun_eq_iff)
  moreover have "free_sl_rtts g (Suc n) s = Some s'" using IH(1) by (simp add: lk mz ul)
  ultimately show ?case using IH(4-6) gl by simp
qed

section \<open>The cases of the command\<close>

lemma find_lock_unused_quiet_cases:
  assumes q: "quiet s" and inv: "inv_with lv par s"
  obtains (none) ret s' where "find_lock_unused_granule addr st s = Some (Inl ret, s')"
      "same_state s s'"
      "ret = RMI_ERROR_INPUT \<and> \<not> (\<exists>g. find_granule addr = Some g \<and> gst s g = st)
       \<or> ret = RMI_ERROR_IN_USE \<and> (\<exists>g. find_granule addr = Some g \<and> gst s g = st \<and> grc s g \<noteq> 0)"
    | (found) g where "find_lock_unused_granule addr st s = Some (Inr g, lock_g g st s)"
      "find_granule addr = Some g" "gst s g = st" "g < RMM_MAX_GRANULES" "grc s g = 0"
  using q inv
proof (cases rule: find_lock_quiet_cases [where addr = addr and st = st])
  case (none s')
  then have "find_lock_unused_granule addr st s = Some (Inl RMI_ERROR_INPUT, s')"
    by (simp add: find_lock_unused_granule_def)
  then show ?thesis using that(1) none(2,3) by blast
next
  case (found g)
  show ?thesis
  proof (cases "grc s g = 0")
    case True
    then show ?thesis using that(2) found by (simp add: find_lock_unused_granule_def)
  next
    case False
    have "unlocked_ok (lock_g g st s) g"
      using inv_with_unlocked [OF inv found(4)] by (simp add: unlocked_ok_def)
    then have "find_lock_unused_granule addr st s
        = Some (Inl RMI_ERROR_IN_USE, spinlock_release g (lock_g g st s))"
      using found(1) False by (simp add: find_lock_unused_granule_def granule_unlock_eq)
    moreover have "same_state s (spinlock_release g (lock_g g st s))"
      using q by (intro same_state_lock_unlock) (simp add: quiet_def)
    ultimately show ?thesis using that(1) found(2,3) False by blast
  qed
qed

definition realm_removed :: "nat \<Rightarrow> realm_s2_context \<Rightarrow> rmm \<Rightarrow> rmm \<Rightarrow> bool" where
  "realm_removed g_rd c s s' \<longleftrightarrow>
     granules s' = (states_set (row (Some (s2_g_rtt c)) (s2_root_rtts c)) GRANULE_STATE_DELEGATED
       (granules s))(g_rd := (granules s g_rd)\<lparr>g_state := GRANULE_STATE_DELEGATED\<rparr>)
   \<and> content s' = (zeroed (row (Some (s2_g_rtt c)) (s2_root_rtts c)) (content s))(g_rd := CZero)
   \<and> vmids s' = vmids (release_vmid (s2_vmid c) s)
   \<and> glock s' = glock s \<and> slots s' = slots s"

lemma inv_root_row:
  assumes inv: "inv_with lv par s" and rd: "g_rd < RMM_MAX_GRANULES" "gst s g_rd = GRANULE_STATE_RD"
      "content s g_rd = CRd rd"
    and gr: "granules t = granules s" and gl: "\<And>x. glock t x \<Longrightarrow> x = g_rd"
  shows "root_row t (s2_g_rtt (rd_s2_ctx rd)) (s2_root_rtts (rd_s2_ctx rd))"
  unfolding root_row_def
proof (intro allI impI)
  fix k assume "k < s2_root_rtts (rd_s2_ctx rd)"
  then have x: "s2_g_rtt (rd_s2_ctx rd) + k < RMM_MAX_GRANULES"
    "gst s (s2_g_rtt (rd_s2_ctx rd) + k) = GRANULE_STATE_RTT"
    using inv_with_rd [OF inv rd(1,2)] rd(3) by (auto simp: rd_ok_def)
  then have "s2_g_rtt (rd_s2_ctx rd) + k \<noteq> g_rd" using rd(2) by auto
  then have "\<not> glock t (s2_g_rtt (rd_s2_ctx rd) + k)" using gl by blast
  then show "s2_g_rtt (rd_s2_ctx rd) + k < RMM_MAX_GRANULES
      \<and> gst t (s2_g_rtt (rd_s2_ctx rd) + k) = GRANULE_STATE_RTT
      \<and> \<not> glock t (s2_g_rtt (rd_s2_ctx rd) + k) \<and> unlocked_ok t (s2_g_rtt (rd_s2_ctx rd) + k)"
    using x inv_with_unlocked_state [OF inv gr x(1)] by (simp add: gr)
qed

lemma smc_realm_destroy_cases:
  assumes inv: "inv_with lv par s" and q: "quiet s"
  obtains (error) ret s' where "smc_realm_destroy ar rd_addr s = Some (ret, s')" "same_state s s'"
      "ret = RMI_ERROR_INPUT \<and> \<not> (\<exists>g. find_granule rd_addr = Some g \<and> gst s g = GRANULE_STATE_RD)
       \<or> ret = RMI_ERROR_IN_USE
         \<and> (\<exists>g. find_granule rd_addr = Some g \<and> gst s g = GRANULE_STATE_RD \<and> grc s g \<noteq> 0)"
    | (bad_vmid) g rd where "smc_realm_destroy ar rd_addr s = None"
      "find_granule rd_addr = Some g" "gst s g = GRANULE_STATE_RD" "content s g = CRd rd"
      "\<not> s2_vmid (rd_s2_ctx rd) < vmid_count ar"
    | (in_use) g rd s' where "smc_realm_destroy ar rd_addr s = Some (RMI_ERROR_IN_USE, s')"
      "find_granule rd_addr = Some g" "gst s g = GRANULE_STATE_RD" "content s g = CRd rd"
      "\<exists>k < s2_root_rtts (rd_s2_ctx rd). grc s (s2_g_rtt (rd_s2_ctx rd) + k) \<noteq> 0"
      "same_state (release_vmid (s2_vmid (rd_s2_ctx rd)) s) s'"
    | (success) g rd s' where "smc_realm_destroy ar rd_addr s = Some (RMI_SUCCESS, s')"
      "find_granule rd_addr = Some g" "gst s g = GRANULE_STATE_RD" "content s g = CRd rd"
      "grc s g = 0" "\<forall>k < s2_root_rtts (rd_s2_ctx rd). grc s (s2_g_rtt (rd_s2_ctx rd) + k) = 0"
      "realm_removed g (rd_s2_ctx rd) s s'"
  using q inv
proof (cases rule: find_lock_unused_quiet_cases [where addr = rd_addr and st = GRANULE_STATE_RD])
  case (none ret s')
  then have "smc_realm_destroy ar rd_addr s = Some (ret, s')" by (simp add: smc_realm_destroy_def)
  then show ?thesis using error none(2,3) by blast
next
  case (found g)
  from inv_with_rd [OF inv found(4,3)] obtain rd where
    rd: "content s g = CRd rd" "s2_ctx_ok (rd_s2_ctx rd)" by (auto simp: rd_ok_def)
  let ?c = "rd_s2_ctx rd"
  let ?g = "s2_g_rtt ?c" and ?n = "s2_root_rtts ?c" and ?v = "s2_vmid ?c"
  let ?s1 = "map_slot SLOT_RD g (lock_g g GRANULE_STATE_RD s)"
  have sl: "slots (lock_g g GRANULE_STATE_RD s) SLOT_RD = None" using q by (simp add: quiet_def)
  have m: "granule_map g SLOT_RD (lock_g g GRANULE_STATE_RD s) = Some ?s1"
    by (rule granule_map_eq) (use found(4) sl in simp_all)
  show ?thesis
  proof (cases "?v < vmid_count ar")
    case False
    then have "smc_realm_destroy ar rd_addr s = None"
      by (simp add: smc_realm_destroy_def found(1) m rd(1) vmid_free_eq)
    then show ?thesis using bad_vmid found(2,3) rd(1) False by blast
  next
    case True
    define s2 where "s2 = buffer_unmap SLOT_RD (release_vmid ?v ?s1)"
    have g2: "granules s2 = granules s" "content s2 = content s"
      "vmids s2 = vmids (release_vmid ?v s)" "glock s2 = (glock s)(g := True)"
      by (simp_all add: s2_def release_vmid_def)
    have sl2: "slots s2 = slots s"
      using sl by (auto simp: s2_def fun_eq_iff)
    have only: "x = g" if "glock s2 x" for x
      using that q by (auto simp: g2(4) quiet_def split: if_splits)
    have row2: "root_row s2 ?g ?n" by (rule inv_root_row [OF inv found(4,3) rd(1) g2(1) only])
    have n16: "?n \<le> 16" using rd(2) by (simp add: s2_ctx_ok_def)
    have le: "unat (grc s2 (?g + k)) \<le> 512" if "k < ?n" for k
    proof -
      have x: "?g + k < RMM_MAX_GRANULES" "gst s (?g + k) = GRANULE_STATE_RTT"
        using row2 that by (simp_all add: root_row_def g2(1))
      from inv x show ?thesis
      proof (rule inv_with_rtt)
        fix t assume "length t = 512" "grc s (?g + k) = of_nat (ref_count t)"
        then show ?thesis using ref_count_le [of t] by (simp add: g2(1) unat_of_nat)
      qed
    qed
    from total_root_rtt_refcount_spec [OF row2 n16 le, of 0] n16 obtain r s3 where
      t: "total_root_rtt_refcount ?g ?n 0 s2 = Some (r, s3)" "relocked s2 (glock s2) s3"
      "r = 0 \<longleftrightarrow> (\<forall>k<?n. grc s (?g + k) = 0)" by (auto simp: g2(1))
    have run: "smc_realm_destroy ar rd_addr s = (if r \<noteq> 0 then do {
          s \<leftarrow> granule_unlock g s3; Some (RMI_ERROR_IN_USE, s) }
        else do {
          s \<leftarrow> free_sl_rtts ?g ?n s3;
          s \<leftarrow> granule_memzero g SLOT_RD s;
          s \<leftarrow> granule_unlock_transition g GRANULE_STATE_DELEGATED s;
          Some (RMI_SUCCESS, s) })"
      using t(1) True
      by (simp add: smc_realm_destroy_def found(1) m rd(1) vmid_free_eq s2_def)
    have g3: "granules s3 = granules s" "content s3 = content s" "slots s3 = slots s"
      "vmids s3 = vmids (release_vmid ?v s)" "glock s3 = (glock s)(g := True)"
      using t(2) g2 sl2 by (simp_all add: relocked_def)
    have gback: "(glock s)(g := False) = glock s" using q by (auto simp: quiet_def fun_eq_iff)
    show ?thesis
    proof (cases "r = 0")
      case False
      have ul: "granule_unlock g s3 = Some (spinlock_release g s3)"
        by (rule granule_unlock_eq [OF inv_with_unlocked_state [OF inv g3(1) found(4)]])
      have "smc_realm_destroy ar rd_addr s = Some (RMI_ERROR_IN_USE, spinlock_release g s3)"
        using run False ul by simp
      moreover have "same_state (release_vmid ?v s) (spinlock_release g s3)"
        by (simp add: same_state_def g3 gback)
      ultimately show ?thesis using in_use found(2,3) rd(1) t(3) False by blast
    next
      case r0: True
      have z: "grc s3 (?g + k) = 0" if "k < ?n" for k using r0 t(3) that by (simp add: g3(1))
      have only3: "x = g" if "glock s3 x" for x
        using that q by (auto simp: g3(5) quiet_def split: if_splits)
      have row3: "root_row s3 ?g ?n" by (rule inv_root_row [OF inv found(4,3) rd(1) g3(1) only3])
      have sl3: "slots s3 SLOT_RTT = None" using q by (simp add: g3(3) quiet_def)
      from free_sl_rtts_spec [OF row3 z sl3] obtain s4 where
        f: "free_sl_rtts ?g ?n s3 = Some s4"
        "granules s4 = states_set (row (Some ?g) ?n) GRANULE_STATE_DELEGATED (granules s3)"
        "content s4 = zeroed (row (Some ?g) ?n) (content s3)"
        "glock s4 = glock s3" "slots s4 = slots s3" "vmids s4 = vmids s3" by blast
      have nr: "\<not> row (Some ?g) ?n g"
      proof
        assume "row (Some ?g) ?n g"
        then obtain k where "k < ?n" "g = ?g + k" by (auto simp: row_def intro: that [of "g - ?g"])
        then show False using row3 found(3) by (auto simp: root_row_def g3(1))
      qed
      have gr4: "granules s4 g = granules s g" by (simp add: f(2) g3(1) states_set_def nr)
      let ?s5 = "granule_memzero_mapped g s4"
      let ?s6 = "spinlock_release g (granule_set_state g GRANULE_STATE_DELEGATED ?s5)"
      have mz: "granule_memzero g SLOT_RD s4 = Some ?s5"
        using found(4) q by (simp add: granule_memzero_eq f(5) g3(3) quiet_def)
      have ut: "granule_unlock_transition g GRANULE_STATE_DELEGATED ?s5 = Some ?s6"
        using found(5) by (simp add: granule_unlock_transition_def granule_unlock_def gr4)
      have "smc_realm_destroy ar rd_addr s = Some (RMI_SUCCESS, ?s6)"
        using run r0 by (simp add: f(1) mz ut)
      moreover have "realm_removed g ?c s ?s6"
        by (simp add: realm_removed_def f g3 gr4 [unfolded f(2) g3(1)] gback)
      moreover have "\<forall>k<?n. grc s (?g + k) = 0" using t(3) r0 by simp
      ultimately show ?thesis using success found(2,3,5) rd(1) by blast
    qed
  qed
qed

section \<open>The invariant\<close>

lemma no_recs:
  assumes inv: "inv_with lv par s" and g: "g < RMM_MAX_GRANULES" "gst s g = GRANULE_STATE_RD"
    and rc: "grc s g = 0"
  shows "recs_of s g = {}"
proof -
  have sub: "recs_of s g \<subseteq> {..<RMM_MAX_GRANULES}" by (auto simp: recs_of_def)
  then have fin: "finite (recs_of s g)" by (rule finite_subset) simp
  have "card (recs_of s g) \<le> RMM_MAX_GRANULES" using card_mono [OF _ sub] by simp
  then have lt: "card (recs_of s g) < 2 ^ 64" by (simp add: word_consts)
  have "of_nat (card (recs_of s g)) = (0 :: u64)"
    using inv g rc by (simp add: inv_with_def links_ok_def)
  then have "unat (of_nat (card (recs_of s g)) :: u64) = 0" by simp
  then have "card (recs_of s g) = 0" using lt unfolding unat_of_nat by simp
  with fin show ?thesis by simp
qed

lemma realm_removed_inv:
  assumes inv: "inv_with lv par s" and g: "g < RMM_MAX_GRANULES" "gst s g = GRANULE_STATE_RD"
    and rd: "content s g = CRd rd" and rc: "grc s g = 0"
    and rcs: "\<forall>k < s2_root_rtts (rd_s2_ctx rd). grc s (s2_g_rtt (rd_s2_ctx rd) + k) = 0"
    and s': "realm_removed g (rd_s2_ctx rd) s s'"
  shows "inv_with lv par s'"
proof -
  let ?c = "rd_s2_ctx rd"
  define P where "P = row (Some (s2_g_rtt ?c)) (s2_root_rtts ?c)"
  have gr: "granules s' = (states_set P GRANULE_STATE_DELEGATED (granules s))
      (g := (granules s g)\<lparr>g_state := GRANULE_STATE_DELEGATED\<rparr>)"
    and co: "content s' = (zeroed P (content s))(g := CZero)"
    using s' by (simp_all add: realm_removed_def P_def)
  have P: "gst s x = GRANULE_STATE_RTT \<and> par x = RdOwner g \<and> grc s x = 0" if "P x" for x
  proof -
    from that obtain k where "k < s2_root_rtts ?c" "x = s2_g_rtt ?c + k"
      by (auto simp: P_def row_def intro: that [of "x - s2_g_rtt ?c"])
    then show ?thesis using inv_with_rd [OF inv g] rd rcs by (auto simp: rd_ok_def)
  qed
  have st: "gst s' x = (if x = g \<or> P x then GRANULE_STATE_DELEGATED else gst s x)"
    and rc': "grc s' x = grc s x" for x
    by (simp_all add: gr states_set_def)
  have rec: "gst s' x = GRANULE_STATE_REC \<longleftrightarrow> gst s x = GRANULE_STATE_REC" for x
    using P [of x] g(2) by (auto simp: st)
  have kept: "gst s x = GRANULE_STATE_REC \<or> gst s x = GRANULE_STATE_RD \<and> x \<noteq> g
      \<Longrightarrow> content s' x = content s x" for x
    using P [of x] g(2) by (auto simp: co zeroed_def)
  have recs: "recs_of s' y = recs_of s y" for y
    unfolding recs_of_def rec using kept by auto
  have lk: "links_ok s" using inv by (simp add: inv_with_def)
  have links: "links_ok s'"
    unfolding links_ok_def
  proof (intro allI impI conjI)
    fix x assume x: "x < RMM_MAX_GRANULES" and "gst s' x = GRANULE_STATE_REC"
    then have r: "gst s x = GRANULE_STATE_REC" by (simp add: rec)
    with lk x have l: "rec_linked s x" by (simp add: links_ok_def)
    have "ri_g_rd (rec_realm_info r) \<noteq> g" if "content s x = CRec r" for r
      using no_recs [OF inv g rc] x r that by (auto simp: recs_of_def)
    then show "rec_linked s' x"
      using l kept [of x] kept P r unfolding rec_linked_def st
      by (metis granule_state.distinct(29) granule_state.distinct(31) granule_state.distinct)
  next
    fix x assume "x < RMM_MAX_GRANULES" and "gst s' x = GRANULE_STATE_RD"
    then show "grc s' x = of_nat (card (recs_of s' x))"
      using lk by (auto simp: rc' recs st links_ok_def split: if_splits)
  qed
  show ?thesis
  proof (rule inv_with_step [OF inv links, where T = "{x. x = g \<or> P x}"])
    fix x assume "x \<notin> {x. x = g \<or> P x}"
    then show "granules s' x = granules s x \<and> content s' x = content s x \<and> lv x = lv x"
      by (simp add: gr co states_set_def zeroed_def)
  next
    fix x d assume x: "x \<notin> {x. x = g \<or> P x}" and d: "owned_state (gst s d)"
      "owner_granule (par d) = Some x"
    have "d \<noteq> g" using d(1) g(2) by auto
    moreover have "\<not> P d" using P [of d] x d(2) by auto
    ultimately show "kept lv par s lv par s' d" by (simp add: kept_def st)
  next
    fix x assume x: "x \<in> {x. x = g \<or> P x}" and b: "x < RMM_MAX_GRANULES"
    have "grc s x = 0" using x P rc by auto
    then show "granule_ok lv par s' x"
      using x by (auto simp: granule_ok_def unlocked_ok_def st rc' co zeroed_def)
  qed
qed

text \<open>
  The command always returns, unless the descriptor holds a VMID outside the implemented
  range, which \<^verbatim>\<open>vmid_free\<close> asserts.
\<close>

lemma smc_realm_destroy_safe:
  assumes "inv s" and q: "quiet s"
  shows "case smc_realm_destroy ar rd_addr s of
      None \<Rightarrow> \<exists>g rd. find_granule rd_addr = Some g \<and> content s g = CRd rd
                \<and> vmid_count ar \<le> s2_vmid (rd_s2_ctx rd)
    | Some (ret, s') \<Rightarrow> inv s' \<and> quiet s'"
proof -
  from assms obtain lv par where inv: "inv_with lv par s" by (auto simp: inv_def)
  from inv q show ?thesis
  proof (cases rule: smc_realm_destroy_cases [where ar = ar and rd_addr = rd_addr])
    case (error ret s')
    then show ?thesis using assms inv_cong quiet_cong by auto
  next
    case (bad_vmid g rd)
    then show ?thesis by (auto simp: not_less)
  next
    case (in_use g rd s')
    have "granules s' = granules s" "content s' = content s" "glock s' = glock s" "slots s' = slots s"
      using in_use(6) by (simp_all add: same_state_def)
    then show ?thesis using in_use(1) inv_same [OF assms(1)] q by (simp add: quiet_def)
  next
    case (success g rd s')
    have "inv_with lv par s'"
      by (rule realm_removed_inv [OF inv find_granule_bound [OF success(2)] success(3-7)])
    then show ?thesis using success(1,7) q
      by (auto simp: quiet_def realm_removed_def inv_def)
  qed
qed

end
