(* ===== verification/Map_Refinement.thy ===== *)
theory Map_Refinement
  imports Realm_Map Command_Effects Rtt_Create_Correct Data_Correct Ripas_Correct Realm_Create_Correct Realm_Destroy_Correct
begin

text \<open>
  What the commands do to the map of the realms' memory.  Only Data.Create,
  Data.CreateUnknown and Data.Destroy change it, each at one page of one realm; the commands
  that build, fold and take down tables and those that set the RIPAS leave it alone.
\<close>

section \<open>Realms and entries\<close>

lemma mem_map_same_state: "same_state s s' \<Longrightarrow> mem_map s' = mem_map s"
  unfolding mem_map_def same_state_def by (intro ext) (simp split: content.split)

lemma same_realmsI:
  assumes "\<And>r. r < RMM_MAX_GRANULES \<Longrightarrow> gst s r = GRANULE_STATE_RD \<or> gst s' r = GRANULE_STATE_RD \<Longrightarrow>
      gst s' r = gst s r \<and> (content s' r = content s r
        \<or> (\<exists>rd rd'. content s r = CRd rd \<and> content s' r = CRd rd' \<and> rd_s2_ctx rd' = rd_s2_ctx rd))"
  shows "same_realms s s'"
  unfolding same_realms_def
proof (intro allI)
  fix r c
  show "realm_at s' r c = realm_at s r c"
    using assms [of r] by (fastforce simp: realm_at_def)
qed

lemma child_reclaimed_one_entry:
  assumes rm: "child_reclaimed s g i t c e s'" and t: "table_of (content s g) = Some t" "length t = 512"
    and c: "c \<noteq> g" "par c = TteOwner g i" "lv c = lv g + 1"
  shows "one_entry lv par {c} s g i t e (content s')"
  using assms by (auto simp: one_entry_def child_reclaimed_def)

lemma child_reclaimed_realms:
  assumes "child_reclaimed s g i t c e s'" and "gst s g = GRANULE_STATE_RTT"
    and "gst s c = GRANULE_STATE_RTT \<or> gst s c = GRANULE_STATE_DATA"
  shows "same_realms s s'"
  by (rule same_realmsI) (use assms in \<open>auto simp: child_reclaimed_def split: if_splits\<close>)

text \<open>A leaf without memory stands for no page.\<close>

lemma no_page_leaf: "leaf_entry e \<Longrightarrow> entry_page l e a = None"
  by (auto simp: entry_page_def leaf_entry_def s2tte_iffs)

lemma page_from_new_leaf:
  assumes one: "one_entry lv par X s g i t e C'" and ix: "unat (s2_addr_to_idx a (lv g)) = i"
    and "lv g \<le> 3" and "\<not> entry_is_table e \<or> lv g = 3"
  shows "page_from C' g (lv g) a = entry_page (lv g) e a"
proof (rule page_from_leaf)
  show "tt_entry C' g (lv g) a = Some e"
    using one ix s2_addr_to_idx_bound [of a "lv g"] by (simp add: one_entry_def tt_entry_def)
qed (use assms in auto)

lemma leaf_not_table: "leaf_entry e \<Longrightarrow> \<not> entry_is_table e"
  by (auto simp: leaf_entry_def entry_is_table_iff)

text \<open>The pages below a table entry are those of the child.\<close>

lemma page_from_table:
  assumes inv: "inv_with lv par s" and at: "at_table lv s g l" and l: "l < 3"
    and t: "table_of (content s g) = Some t" and ix: "unat (s2_addr_to_idx a l) = i"
    and e: "s2tte_is_table (t ! i) l" and c: "find_granule (addr_level_mask (t ! i) 3) = Some c"
  shows "page_from (content s) g l a = page_from (content s) c (l + 1) a"
  using assms
  by (intro page_from_child [of _ _ _ _ "t ! i"])
     (auto simp: tt_entry_def entry_is_table_iff s2tte_table_iff)

text \<open>A table without references and one of uniform leaves stand for no page.\<close>

lemma page_from_no_refs:
  assumes t: "table_of (C c) = Some t" and l: "l \<le> 3"
    and nr: "\<And>i. i < 512 \<Longrightarrow> \<not> s2tte_refs (t ! i)"
  shows "page_from C c l a = None"
proof -
  let ?e = "t ! unat (s2_addr_to_idx a l)"
  have n: "\<not> s2tte_refs ?e" using nr s2_addr_to_idx_bound by simp
  have "tt_entry C c l a = Some ?e" by (simp add: tt_entry_def t)
  moreover have "\<not> entry_is_table ?e \<or> l = 3"
    using n l s2tte_refs_table [of ?e l] by (cases "l = 3") (auto simp: entry_is_table_iff s2tte_table_iff)
  moreover have "entry_page l ?e a = None"
    using n by (auto simp: entry_page_def dest: s2tte_refs_valid s2tte_refs_assigned)
  ultimately show ?thesis using l by (simp add: page_from_leaf)
qed

lemma unreferenced_table:
  assumes inv: "inv_with lv par s" and at: "at_table lv s c l" and z: "grc s c = 0"
  shows "page_from (content s) c l a = None"
proof -
  from at have c: "c < RMM_MAX_GRANULES" "gst s c = GRANULE_STATE_RTT" "lv c = l"
    by (auto simp: at_table_def)
  from inv c(1,2) obtain t where t: "table_of (content s c) = Some t" "length t = 512"
    "grc s c = of_nat (ref_count t)" "0 \<le> lv c" "lv c \<le> 3" by (elim inv_with_rtt) auto
  have "ref_count t = 0"
  proof -
    have "ref_count t \<le> 512" using ref_count_le [of t] t(2) by simp
    then have "unat (of_nat (ref_count t) :: u64) = ref_count t" by (subst unat_of_nat) simp
    then show ?thesis using t(3) z by simp
  qed
  then have "\<not> s2tte_refs (t ! i)" if "i < 512" for i
    using that t(2) by (auto simp: ref_count_def filter_empty_conv)
  then show ?thesis using page_from_no_refs [where C = "content s", OF t(1)] t(5) c(3) by simp
qed

section \<open>Commands on tables\<close>

lemma walk_result_at: "walk_result lv s c a level wi \<Longrightarrow> at_table lv s (g_llt wi) (last_level wi)"
  by (simp add: walk_result_def)

text \<open>A table is taken out of the tree and an entry takes its place.\<close>

lemma child_reclaimed_map:
  assumes inv: "inv_with lv par s" and w: "walk_result lv s ctx addr l wi"
    and l: "last_level wi = l" and t: "table_of (content s (g_llt wi)) = Some t"
    and e: "s2tte_is_table (t ! unat (index wi)) l"
    and c: "find_granule (addr_level_mask (t ! unat (index wi)) 3) = Some c"
    and rm: "child_reclaimed s (g_llt wi) (unat (index wi)) t c e' s'"
    and e': "\<not> entry_is_table e'"
    and pages: "\<And>a. entry_page l e' a = page_from (content s) c (l + 1) a"
  shows "mem_map s' = mem_map s"
proof -
  note f = entry_facts [OF inv w l t]
  from act_child [OF inv w l t e] c have
    c': "gst s c = GRANULE_STATE_RTT" "lv c = lv (g_llt wi) + 1" "c \<noteq> g_llt wi"
      "c < RMM_MAX_GRANULES" "par c = TteOwner (g_llt wi) (unat (index wi))" using f(3) by auto
  note one = child_reclaimed_one_entry [where lv = lv and par = par, OF rm t f(8) c'(3,5,2)]
  have l3: "l < 3" using e by (simp add: s2tte_table_iff)
  show ?thesis
  proof (rule mem_map_kept [OF inv one])
    show "same_realms s s'" using child_reclaimed_realms [OF rm f(2)] c'(1) by simp
    fix a assume ix: "unat (s2_addr_to_idx a (lv (g_llt wi))) = unat (index wi)"
    have "page_from (content s) (g_llt wi) l a = page_from (content s) c (l + 1) a"
      by (rule page_from_table [OF inv _ l3 t _ e c])
         (use walk_result_at [OF w] l ix f(3) in auto)
    then show "page_from (content s') (g_llt wi) (lv (g_llt wi)) a
        = page_from (content s) (g_llt wi) (lv (g_llt wi)) a"
      using page_from_new_leaf [OF one ix] e' l3 pages f(3) by simp
  qed
qed

lemma rtt_destroy_map:
  assumes inv: "inv_with lv par s" and q: "quiet s"
    and run: "smc_rtt_destroy rtt_addr rd_addr map_addr ulevel s = Some (ret, s')"
  shows "mem_map s' = mem_map s"
  using inv q run
proof (cases rule: smc_rtt_destroy_result)
  case error
  then show ?thesis by (simp add: mem_map_same_state)
next
  case (success g_rd rd wi t c)
  note c = success(8) [unfolded success(11)]
  from act_child [OF inv success(5-7,9)] c have "at_table lv s c (sint ulevel - 1 + 1)"
    by (auto simp: at_table_def)
  from unreferenced_table [OF inv this success(10)] show ?thesis
    by (intro child_reclaimed_map [OF inv success(5-7,9) c success(12)])
       (simp_all add: leaf_not_table no_page_leaf)
qed

lemma page_from_run:
  assumes t: "table_of (C c) = Some t" "length t = 512" and run: "assigned_run t base"
  shows "page_from C c 3 a = Some (base + of_nat (unat (s2_addr_to_idx a 3)) * 4096)"
  using run s2_addr_to_idx_bound [of a 3]
  by (simp add: page_from_3 tt_entry_def t entry_page_def assigned_run_def del: addr_level_mask_values)

lemma entry_page_block:
  assumes "addr_is_level_aligned base 2"
  shows "entry_page 2 (base OR 4) a = Some (base + of_nat (unat (s2_addr_to_idx a 3)) * 4096)"
  using block_entry [OF assms] by (simp add: entry_page_def del: addr_level_mask_values)

lemma rtt_fold_map:
  assumes inv: "inv_with lv par s" and q: "quiet s"
    and run: "smc_rtt_fold rtt_addr rd_addr map_addr ulevel s = Some (ret, s')"
  shows "mem_map s' = mem_map s"
  using inv q run
proof (cases rule: smc_rtt_fold_result)
  case error
  then show ?thesis by (simp add: mem_map_same_state)
next
  case (success g_rd rd wi t c e)
  note c = success(8) [unfolded success(10)]
  note fin = child_reclaimed_map [OF inv success(5-7,9) c success(12)]
  from act_child [OF inv success(5-7,9)] c have at: "at_table lv s c (sint ulevel - 1 + 1)"
    by (auto simp: at_table_def)
  from success(11) obtain tc where tc: "table_of (content s c) = Some tc" "length tc = 512"
    and k: "grc s c = 0 \<and> uniform_leaf tc e
      \<or> sint ulevel = 3 \<and> grc s c = 512 \<and> (\<exists>base. e = base OR 4 \<and> assigned_run tc base)"
    by (auto simp: folded_def)
  from k show ?thesis
  proof (elim disjE conjE exE)
    assume "grc s c = 0" and "uniform_leaf tc e"
    then have "leaf_entry e" and z: "grc s c = 0" by (simp_all add: uniform_leaf_leaf)
    from unreferenced_table [OF inv at z] this(1) show ?thesis
      by (intro fin) (simp_all add: leaf_not_table no_page_leaf)
  next
    fix base assume l: "sint ulevel = 3" and e: "e = base OR 4" and run: "assigned_run tc base"
    have al: "addr_is_level_aligned base 2" using run by (simp add: assigned_run_def)
    have "\<not> entry_is_table e"
      using block_entry(1) [OF al] by (auto simp: e entry_is_table_iff s2tte_iffs)
    then show ?thesis
      using page_from_run [where C = "content s", OF tc run] entry_page_block [OF al]
      by (intro fin) (simp_all add: l e)
  qed
qed

text \<open>A new table stands for the pages its parent entry stood for.\<close>

lemma unfolded_pages:
  assumes u: "unfolds level e tn" and c: "table_of (C c) = Some tn" and l: "level \<le> 3"
  shows "page_from C c level a = entry_page (level - 1) e a"
proof -
  have len: "length tn = 512" using u by (simp add: unfolds_def)
  from u consider (leaf) "s2tte_is_unassigned e \<or> s2tte_is_destroyed e" "tn = replicate 512 e"
    | (run) "level = 3" "s2tte_is_assigned e 2" "assigned_run tn (addr_level_mask e 2)"
    by (auto simp: unfolds_def)
  then show ?thesis
  proof cases
    case leaf
    then have "\<not> s2tte_refs e" and "entry_page m e a = None" for m
      by (auto simp: entry_page_def dest: s2tte_exclusive)
    moreover from this(1) have "page_from C c level a = None"
      by (intro page_from_no_refs [where C = C, OF c l]) (simp add: leaf(2))
    ultimately show ?thesis by simp
  next
    case run
    then show ?thesis using page_from_run [where C = C, OF c len run(3)]
      by (simp add: entry_page_def del: addr_level_mask_values)
  qed
qed

lemma rtt_create_map:
  assumes inv: "inv_with lv par s" and q: "quiet s"
    and run: "smc_rtt_create rtt_addr rd_addr map_addr ulevel s = Some (ret, s')"
  shows "mem_map s' = mem_map s"
  using inv q
proof (cases rule: smc_rtt_create_cases [where rtt_addr = rtt_addr and rd_addr = rd_addr
      and map_addr = map_addr and ulevel = ulevel])
  case (error r t)
  then show ?thesis using run by (simp add: mem_map_same_state)
next
  case (assert_false g_rd rd wi t)
  then show ?thesis using run by simp
next
  case (success g_rd rd wi t c tn u)
  note f = entry_facts [OF inv success(8-10)]
  let ?g = "g_llt wi" and ?i = "unat (index wi)" and ?l = "sint ulevel - 1"
  have u: "u = s'" using run success(1) by simp
  have l3: "sint ulevel \<le> 3" using success(5)
    by (auto simp: structure_check_def validate_rtt_structure_cmds_def Let_def s2tte_values split: if_splits)
  have cg: "c \<noteq> ?g" using success(7) f(2) by auto
  have gr: "granules s' = (granules s)(?g := (granules s ?g)\<lparr>g_refcount := grc s ?g - ref_word (t ! ?i) + 1\<rparr>,
      c := \<lparr>g_state = GRANULE_STATE_RTT, g_refcount = of_nat (ref_count tn)\<rparr>)"
    and co: "content s' = (content s)(?g := CTable (t[?i := rtt_addr OR 3]), c := CTable tn)"
    using success(12) by (auto simp: table_added_def u)
  have one: "one_entry lv par {} s ?g ?i t (rtt_addr OR 3) (content s')"
    using success(7,10) f(8) cg by (auto simp: one_entry_def co)
  have ne: "\<not> entry_is_table (t ! ?i)"
    using success(11) by (auto simp: unfolds_def entry_is_table_iff s2tte_iffs)
  have al: "addr_is_level_aligned rtt_addr 3"
    by (rule find_granule_level3 [OF success(6)])
  have mask: "addr_level_mask (rtt_addr OR 3) 3 = rtt_addr" by (rule mask_of_or [OF al]) simp
  show ?thesis
  proof (rule mem_map_kept [OF inv one])
    show "same_realms s s'" by (rule same_realmsI) (use success(7) f(2) in \<open>auto simp: gr co\<close>)
    fix a assume ix: "unat (s2_addr_to_idx a (lv ?g)) = ?i"
    have "page_from (content s) ?g ?l a = entry_page ?l (t ! ?i) a"
      by (rule page_from_leaf) (use ix f(3) l3 ne success(10) in \<open>auto simp: tt_entry_def\<close>)
    moreover have "page_from (content s') ?g ?l a = page_from (content s') c (?l + 1) a"
    proof (rule page_from_child)
      show "tt_entry (content s') ?g ?l a = Some (rtt_addr OR 3)"
        using ix f(3,4,8) cg by (simp add: tt_entry_def co)
      show "entry_is_table (rtt_addr OR 3)"
        using aligned_and_low [OF al, simplified] by (simp add: entry_is_table_iff bit.conj_disj_distrib2)
      show "find_granule (addr_level_mask (rtt_addr OR 3) 3) = Some c"
        using success(6) mask by (simp del: addr_level_mask_values)
    qed (use l3 in simp)
    moreover have "page_from (content s') c (sint ulevel) a = entry_page ?l (t ! ?i) a"
      by (rule unfolded_pages [OF success(11) _ l3]) (simp add: co)
    ultimately show "page_from (content s') ?g (lv ?g) a = page_from (content s) ?g (lv ?g) a"
      using f(3) by simp
  qed
qed

section \<open>Commands that rewrite a leaf\<close>

text \<open>A leaf that stands for the same page takes the place of a leaf.\<close>

lemma leaf_rewritten_map:
  assumes inv: "inv_with lv par s" and w: "walk_result lv s ctx addr l wi"
    and l: "last_level wi = l" and t: "table_of (content s (g_llt wi)) = Some t"
    and co: "content s' = C(g_llt wi := CTable (t[unat (index wi) := e']))"
    and C: "C = content s \<or> (\<exists>r x. C = (content s)(r := x) \<and> gst s r \<noteq> GRANULE_STATE_RTT)"
    and re: "same_realms s s'"
    and e: "\<not> entry_is_table (t ! unat (index wi)) \<or> l = 3" "\<not> entry_is_table e' \<or> l = 3"
    and pages: "\<And>a. entry_page l e' a = entry_page l (t ! unat (index wi)) a"
  shows "mem_map s' = mem_map s"
proof -
  note f = entry_facts [OF inv w l t]
  have one: "one_entry lv par {} s (g_llt wi) (unat (index wi)) t e' (content s')"
    using C f(2,8) t by (auto simp: one_entry_def co)
  show ?thesis
  proof (rule mem_map_kept [OF inv one re])
    fix a assume ix: "unat (s2_addr_to_idx a (lv (g_llt wi))) = unat (index wi)"
    have "page_from (content s) (g_llt wi) l a = entry_page l (t ! unat (index wi)) a"
      by (rule page_from_leaf) (use ix f(3,6) e(1) t in \<open>auto simp: tt_entry_def\<close>)
    then show "page_from (content s') (g_llt wi) (lv (g_llt wi)) a
        = page_from (content s) (g_llt wi) (lv (g_llt wi)) a"
      using page_from_new_leaf [OF one ix] f(3,6) e(2) pages by simp
  qed
qed

lemma no_page_ns:
  assumes "l = 2 \<and> e AND 3 = 1 \<or> l = 3 \<and> s2tte_is_valid_ns e 3"
  shows "entry_page l e a = None" "\<not> entry_is_table e \<or> l = 3"
  using assms s2tte_exclusive(3,4) [of e 3]
  by (auto simp: entry_page_def entry_is_table_iff s2tte_iffs)

lemma no_page_unassigned:
  "s2tte_is_unassigned e \<Longrightarrow> entry_page l e a = None" "s2tte_is_unassigned e \<Longrightarrow> \<not> entry_is_table e"
  by (auto simp: entry_page_def entry_is_table_iff s2tte_iffs)

lemma map_unmap_ns_map:
  assumes inv: "inv_with lv par s" and q: "quiet s"
    and h: "op = MAP_NS \<longrightarrow> host_ns_s2tte_is_valid h level"
    and run: "map_unmap_ns rd_addr map_addr level h op s = Some (ret, s')"
  shows "mem_map s' = mem_map s"
  using inv q h run
proof (cases rule: map_unmap_ns_result)
  case error
  then show ?thesis by (simp add: mem_map_same_state)
next
  case (success g_rd rd wi t e)
  note f = entry_facts [OF inv success(6-8)]
  have ll: "level = 2 \<or> level = 3" by (rule map_check_level [OF success(5)])
  have co: "content s' = (content s)(g_llt wi := CTable (t[unat (index wi) := e]))"
    and gr: "granules s' = (granules s)(g_llt wi := (granules s (g_llt wi))
       \<lparr>g_refcount := grc s (g_llt wi) - ref_word (t ! unat (index wi)) + ref_word e\<rparr>)"
    using success(10) by (simp_all add: entry_written_def)
  have re: "same_realms s s'" by (rule same_realmsI) (use f(2) in \<open>auto simp: gr co\<close>)
  have inv_leaf: "leaf_entry s2tte_create_invalid_ns" by simp
  have "(\<not> entry_is_table (t ! unat (index wi)) \<or> level = 3) \<and> (\<not> entry_is_table e \<or> level = 3)
      \<and> (\<forall>a. entry_page level e a = entry_page level (t ! unat (index wi)) a)"
  proof (cases op)
    case MAP_NS
    then have un: "s2tte_is_unassigned (t ! unat (index wi))"
      and ns: "level = 2 \<and> e AND 3 = 1 \<or> level = 3 \<and> s2tte_is_valid_ns e 3"
      using success(9) ll by auto
    show ?thesis
      using no_page_ns [OF ns] no_page_unassigned [OF un] by simp
  next
    case UNMAP_NS
    then have v: "s2tte_is_valid_ns (t ! unat (index wi)) level" "e = s2tte_create_invalid_ns"
      using success(9) by auto
    then have "level = 3" using valid_level_is_3(2) by blast
    then show ?thesis
      using v no_page_ns [of level "t ! unat (index wi)"] no_page_leaf [OF inv_leaf] by auto
  qed
  then show ?thesis by (intro leaf_rewritten_map [OF inv success(6-8) co _ re]) auto
qed

lemma rtt_map_unprotected_map:
  assumes inv: "inv_with lv par s" and q: "quiet s"
    and run: "smc_rtt_map_unprotected rd_addr map_addr ulevel e s = Some (ret, s')"
  shows "mem_map s' = mem_map s"
proof (cases "host_ns_s2tte_is_valid e (sint ulevel)")
  case True
  then show ?thesis
    using run by (intro map_unmap_ns_map [OF inv q, of MAP_NS e "sint ulevel" rd_addr map_addr ret])
      (simp_all add: smc_rtt_map_unprotected_def)
next
  case False
  then show ?thesis using run by (simp add: smc_rtt_map_unprotected_def)
qed

lemma rtt_unmap_unprotected_map:
  assumes inv: "inv_with lv par s" and q: "quiet s"
    and run: "smc_rtt_unmap_unprotected rd_addr map_addr ulevel s = Some (ret, s')"
  shows "mem_map s' = mem_map s"
  using run [unfolded smc_rtt_unmap_unprotected_def] by (rule map_unmap_ns_map [OF inv q, rotated]) simp

lemma update_ripas_page:
  assumes u: "update_ripas e l r = Some (Some e')" and l: "0 \<le> l" "l \<le> 3"
  shows "(\<not> entry_is_table e \<or> l = 3) \<and> (\<not> entry_is_table e' \<or> l = 3) \<and> entry_page l e' a = entry_page l e a"
proof -
  have nt: "\<not> s2tte_is_table e l" using u by (auto simp: update_ripas_def split: if_splits)
  consider (valid) "s2tte_is_valid e l" | (un) "s2tte_is_unassigned e" | (as) "s2tte_is_assigned e l"
    using u nt by (auto simp: update_ripas_def split: if_splits)
  then show ?thesis
  proof cases
    case valid
    then have l3: "l = 3" by (rule valid_level_is_3)
    with u update_ripas_valid valid have
      e': "e' = (if r = RMI_EMPTY then addr_level_mask e 3 OR 4 else e)" by simp
    show ?thesis
      using valid l3 assigned_of_mask [of e] e' by (simp add: entry_page_def del: addr_level_mask_values)
  next
    case un
    then have "e' = e OR s2tte_create_ripas r"
      using u s2tte_exclusive(1) [OF un] by (simp add: update_ripas_def)
    then show ?thesis using un no_page_unassigned or_ripas_kinds(2) by metis
  next
    case as
    then have e': "e' = e OR s2tte_create_ripas r"
      using u s2tte_exclusive(3) [OF as] by (simp add: update_ripas_def)
    have "\<not> entry_is_table e" "\<not> entry_is_table e'"
      using as or_ripas_bits(1) [of e r] by (auto simp: e' entry_is_table_iff s2tte_iffs)
    moreover have "\<not> s2tte_is_valid e l" "\<not> s2tte_is_valid e' l"
      using s2tte_exclusive(3) [OF as] s2tte_exclusive(3) [of e' l] as
      by (simp_all add: e' or_ripas_kinds)
    ultimately show ?thesis
      using as by (auto simp: entry_page_def e' or_ripas_kinds or_ripas_bits simp del: addr_level_mask_values)
  qed
qed

section \<open>RIPAS\<close>

lemma rtt_set_ripas_map:
  assumes inv: "inv_with lv par s" and q: "quiet s"
    and run: "smc_rtt_set_ripas rd_addr rec_addr map_addr ulevel uripas s = Some (ret, s')"
  shows "mem_map s' = mem_map s"
  using inv q
proof (cases rule: smc_rtt_set_ripas_cases [where rd_addr = rd_addr and rec_addr = rec_addr
      and map_addr = map_addr and ulevel = ulevel and uripas = uripas])
  case (error r u)
  then show ?thesis using run by (simp add: mem_map_same_state)
next
  case (success g_rd rd g_rec rec ripas n wi t e u)
  have u: "u = s'" using run success(1) by simp
  note f = entry_facts [OF inv success(11-13)]
  have gr: "granules s' = granules s"
    and co: "content s' = ((content s)(g_rec := CRec (advance_ripas n rec)))
      (g_llt wi := CTable (t[unat (index wi) := e]))"
    using success(15) by (simp_all add: ripas_set_def u)
  note p = update_ripas_page [OF success(14) f(5,6)]
  have "same_realms s s'"
    by (rule same_realmsI) (use success(7) f(2) in \<open>auto simp: gr co\<close>)
  with p show ?thesis
    by (intro leaf_rewritten_map [OF inv success(11-13) co]) (use success(7) in auto)
qed

lemma rtt_init_ripas_map:
  assumes inv: "inv_with lv par s" and q: "quiet s"
    and run: "smc_rtt_init_ripas hash rd_addr map_addr ulevel s = Some (ret, s')"
  shows "mem_map s' = mem_map s"
  using inv q
proof (cases rule: smc_rtt_init_ripas_cases [where hash = hash and rd_addr = rd_addr
      and map_addr = map_addr and ulevel = ulevel])
  case (error r u)
  then show ?thesis using run by (simp add: mem_map_same_state)
next
  case (success g_rd rd wi t u)
  have u: "u = s'" using run success(1) by simp
  note f = entry_facts [OF inv success(6-8)]
  have gr: "granules s' = granules s"
    and co: "content s' = ((content s)(g_rd := CRd (ripas_granule_measure hash rd map_addr ulevel)))
      (g_llt wi := CTable (t[unat (index wi) := 0x40]))"
    using success(10) by (simp_all add: ripas_set_def u)
  have "same_realms s s'"
    by (rule same_realmsI) (use success(3,4) f(2) in \<open>auto simp: gr co\<close>)
  moreover have "leaf_entry 0x40" by (simp add: leaf_entry_def)
  ultimately show ?thesis
    using no_page_unassigned [OF success(9)] success(3)
    by (intro leaf_rewritten_map [OF inv success(6-8) co])
       (auto simp: no_page_leaf leaf_not_table)
qed

section \<open>Data granules\<close>

lemma walk_result_visits:
  assumes inv: "inv_with lv par s" and r: "realm_at s r c" and w: "walk_result lv s c a 3 wi"
    and l: "last_level wi = 3"
  shows "visits (content s) c a (g_llt wi) 3" "unat (s2_addr_to_idx a 3) = unat (index wi)"
proof -
  have "s2_starting_level c \<le> 3" using realm_at_roots(2) [OF inv r] by (simp add: s2_ctx_ok_def)
  then show "visits (content s) c a (g_llt wi) 3"
    using pt_find_visits [of "content s" c a 3 "g_llt wi" 3] w l by (simp add: walk_result_def)
  show "unat (s2_addr_to_idx a 3) = unat (index wi)" using w l by (simp add: walk_result_def)
qed

definition page_added :: "u64 \<Rightarrow> u64 \<Rightarrow> u64 \<Rightarrow> rmm \<Rightarrow> rmm \<Rightarrow> bool" where
  "page_added rd_addr map_addr data_addr s s' \<longleftrightarrow>
     (\<exists>g_rd. find_granule rd_addr = Some g_rd \<and> mem_map s g_rd map_addr = None
        \<and> mem_map s' = map_put g_rd map_addr (Some data_addr) (mem_map s))"

text \<open>A new data page: one page of one realm is mapped, to the granule handed over.\<close>

lemma data_create_page_map:
  assumes inv: "inv_with lv par s" and q: "quiet s"
    and src: "\<forall>g m. src = Some (g, m) \<longrightarrow> g < RMM_MAX_GRANULES"
    and run: "data_create_page hash data_addr rd_addr map_addr src flags s = Some ((ret, copied), s')"
  shows "if ret = RMI_SUCCESS then page_added rd_addr map_addr data_addr s s' else same_state s s'"
  using inv q src
proof (cases rule: data_create_page_cases [where hash = hash and data_addr = data_addr
      and rd_addr = rd_addr and map_addr = map_addr and flags = flags])
  case (error r u)
  then show ?thesis using run by simp
next
  case (success g_rd rd wi t c d rd' e u bars)
  have u: "u = s'" "ret = RMI_SUCCESS" using run success(1) by simp_all
  note f = entry_facts [OF inv success(8-10)]
  let ?g = "g_llt wi" and ?i = "unat (index wi)"
  have ctx: "rd_s2_ctx rd' = rd_s2_ctx rd"
    using success(12) by (auto simp: data_result_def split: option.splits)
  have r: "in_realm s g_rd (rd_s2_ctx rd) map_addr"
    using success(2-4) find_granule_bound create_check_sound [OF success(5)]
    by (auto simp: in_realm_def realm_at_def ipa_size_push)
  then have ra: "realm_at s g_rd (rd_s2_ctx rd)" by (simp add: in_realm_def)
  have cg: "c \<noteq> ?g" "c \<noteq> g_rd" "g_rd \<noteq> ?g" using success(3,7) f(2) by auto
  have gr: "granules s' = (granules s)(?g := (granules s ?g)\<lparr>g_refcount := grc s ?g + 1\<rparr>,
      c := \<lparr>g_state = GRANULE_STATE_DATA, g_refcount = 0\<rparr>)"
    and co: "content s' = (content s)(g_rd := CRd rd', ?g := CTable (t[?i := e]), c := d)"
    using success(16) by (simp_all add: data_added_def u)
  have one: "one_entry lv par {} s ?g ?i t e (content s')"
    using success(3,7,10) f(8) cg by (auto simp: one_entry_def co)
  have re: "same_realms s s'"
    by (rule same_realmsI) (use success(3,4,7) f(2) cg ctx in \<open>auto simp: gr co\<close>)
  note v = walk_result_visits [OF inv ra success(8,9)]
  have "mem_map s' = map_put g_rd map_addr (entry_page 3 e map_addr) (mem_map s)"
    by (rule mem_map_page [OF inv one re r v])
  moreover have "entry_page 3 e map_addr = Some data_addr"
    using success(13,15) by (auto simp: entry_page_def simp del: addr_level_mask_values split: if_splits)
  moreover have "mem_map s g_rd map_addr = None"
  proof -
    have "hits s ?g ?i (rd_s2_ctx rd) map_addr" using v by (auto simp: hits_def)
    from mem_map_change(2) [OF inv one re r this] f(3)
    have "mem_map s g_rd map_addr = page_from (content s) ?g 3 map_addr" by simp
    also have "\<dots> = entry_page 3 (t ! ?i) map_addr"
      using v(2) success(10) by (simp add: page_from_3 tt_entry_def)
    finally show ?thesis using no_page_unassigned(1) [OF success(11)] by simp
  qed
  ultimately show ?thesis using success(2) u(2) by (simp add: page_added_def)
qed

text \<open>A data page is taken away: one page of one realm is no longer mapped.\<close>

lemma data_destroy_map:
  assumes inv: "inv_with lv par s" and q: "quiet s"
    and run: "smc_data_destroy rd_addr map_addr s = Some (ret, s')"
  shows "if ret = RMI_SUCCESS
    then \<exists>g_rd pa. find_granule rd_addr = Some g_rd \<and> mem_map s g_rd map_addr = Some pa
      \<and> mem_map s' = map_put g_rd map_addr None (mem_map s)
    else same_state s s'"
  using inv q run
proof (cases rule: smc_data_destroy_result)
  case error
  then show ?thesis by simp
next
  case (success g_rd rd wi t d e)
  note f = entry_facts [OF inv success(5-7)]
  let ?g = "g_llt wi" and ?i = "unat (index wi)"
  have r: "in_realm s g_rd (rd_s2_ctx rd) map_addr"
    using success(2-4,14) find_granule_bound
    by (auto simp: in_realm_def realm_at_def ipa_size_push)
  then have ra: "realm_at s g_rd (rd_s2_ctx rd)" by (simp add: in_realm_def)
  have one: "one_entry lv par {} s ?g ?i t e (content s')"
    using success(7,11,12) f(2,8) by (auto simp: one_entry_def child_reclaimed_def)
  have re: "same_realms s s'" using child_reclaimed_realms [OF success(12) f(2)] success(11) by simp
  note v = walk_result_visits [OF inv ra success(5,6)]
  have "leaf_entry e" using success(9) by simp
  then have "mem_map s' = map_put g_rd map_addr None (mem_map s)"
    using mem_map_page [OF inv one re r v] no_page_leaf by simp
  moreover have "mem_map s g_rd map_addr = Some (addr_level_mask (t ! ?i) 3)"
  proof -
    have "hits s ?g ?i (rd_s2_ctx rd) map_addr" using v by (auto simp: hits_def)
    from mem_map_change(2) [OF inv one re r this] f(3)
    have "mem_map s g_rd map_addr = page_from (content s) ?g 3 map_addr" by simp
    also have "\<dots> = entry_page 3 (t ! ?i) map_addr"
      using v(2) success(7) by (simp add: page_from_3 tt_entry_def)
    finally show ?thesis using success(8) by (simp add: entry_page_def del: addr_level_mask_values)
  qed
  ultimately show ?thesis using success(1,2) by simp
qed

end
