(* ===== verification/Delegation_Correct.thy ===== *)
theory Delegation_Correct
  imports Command_Prefix Delegation
begin

text \<open>
  Delegation and its reverse: a granule enters the realm world zeroed, and leaves it only
  from the delegated state, in which it is zero again.
\<close>

section \<open>A granule that nobody refers to changes its state\<close>

lemma inv_free_granule_step:
  assumes inv: "inv_with lv par s"
    and st: "gst s c \<in> {GRANULE_STATE_NS, GRANULE_STATE_DELEGATED}"
      "gst s' c \<in> {GRANULE_STATE_NS, GRANULE_STATE_DELEGATED}"
    and gr: "\<And>g. g \<noteq> c \<Longrightarrow> granules s' g = granules s g" and rc: "grc s' c = 0"
    and co: "\<And>g. g \<noteq> c \<Longrightarrow> content s' g = content s g"
    and z: "gst s' c = GRANULE_STATE_DELEGATED \<Longrightarrow> content s' c = CZero"
  shows "inv_with lv par s'"
proof (rule inv_with_step [OF inv, where T = "{c}"])
  show "links_ok s'"
  proof (rule links_ok_frame)
    show "links_ok s" using inv by (simp add: inv_with_def)
    show "same_links s s' x" for x
      using st gr co by (cases "x = c") (auto simp: same_links_def)
  qed
  show "kept lv par s lv par s' d" if "owned_state (gst s d)" for d
    using that st(1) gr by (cases "d = c") (auto simp: kept_def)
  show "granule_ok lv par s' x" if "x \<in> {c}" for x
    using that st(2) rc z by (auto simp: granule_ok_def unlocked_ok_def)
qed (use gr co in auto)

section \<open>Delegate\<close>

text \<open>\<open>mc\<close> accepts a call: the low half of what it returns is zero.\<close>

definition accepts :: "monitor \<Rightarrow> u64 \<Rightarrow> u64 list \<Rightarrow> bool" where
  "accepts mc fid args \<longleftrightarrow> (ucast (mc fid args) :: u32) = 0"

lemma granule_delegate_found:
  assumes inv: "inv_with lv par s" and q: "quiet s" and g: "find_granule addr = Some g"
    and st: "gst s g = GRANULE_STATE_NS"
    and mc: "accepts mc SMC_ASC_MARK_SECURE [addr, 0, 0, 0, 0, 0]"
  shows "\<exists>s'. smc_granule_delegate mc addr s = Some (RMI_SUCCESS, s')
    \<and> granules s' = (granules s)(g := \<lparr>g_state = GRANULE_STATE_DELEGATED, g_refcount = 0\<rparr>)
    \<and> content s' = (content s)(g := CZero) \<and> vmids s' = vmids s
    \<and> glock s' = glock s \<and> slots s' = slots s
    \<and> trace s' = trace s @ [EvLock g GRANULE_STATE_NS,
        EvSmc SMC_ASC_MARK_SECURE [addr, 0, 0, 0, 0, 0], EvScrub g, EvUnlock g]"
proof -
  have b: "g < RMM_MAX_GRANULES" using g by (rule find_granule_bound)
  have rc: "grc s g = 0" using inv_with_unlocked [OF inv b] st by (simp add: unlocked_ok_def)
  have fl: "find_lock_granule addr GRANULE_STATE_NS s = Some (Some g, lock_g g GRANULE_STATE_NS s)"
    by (simp add: find_lock_quiet [OF q inv] g st)
  show ?thesis
    using b q rc mc
    by (simp add: smc_granule_delegate_def fl asc_mark_secure_def monitor_call_def accepts_def
        granule_memzero_eq granule_unlock_eq unlocked_ok_def quiet_def fun_eq_iff)
qed

lemma granule_delegate_cases:
  assumes inv: "inv_with lv par s" and q: "quiet s"
  obtains (error) s' where "smc_granule_delegate mc addr s = Some (RMI_ERROR_INPUT, s')"
      "same_state s s'" "\<not> (\<exists>g. find_granule addr = Some g \<and> gst s g = GRANULE_STATE_NS)"
    | (refused) "smc_granule_delegate mc addr s = None"
      "\<not> accepts mc SMC_ASC_MARK_SECURE [addr, 0, 0, 0, 0, 0]"
    | (success) g s' where "smc_granule_delegate mc addr s = Some (RMI_SUCCESS, s')"
      "find_granule addr = Some g" "gst s g = GRANULE_STATE_NS"
      "granules s' = (granules s)(g := \<lparr>g_state = GRANULE_STATE_DELEGATED, g_refcount = 0\<rparr>)"
      "content s' = (content s)(g := CZero)" "vmids s' = vmids s"
      "glock s' = glock s" "slots s' = slots s"
proof (cases "\<exists>g. find_granule addr = Some g \<and> gst s g = GRANULE_STATE_NS")
  case False
  then have "\<exists>s'. find_lock_granule addr GRANULE_STATE_NS s = Some (None, s') \<and> same_state s s'"
    using q same_state_lock_unlock [of s]
    by (cases "find_granule addr") (auto simp: find_lock_quiet [OF q inv] quiet_def)
  with False show ?thesis using error by (auto simp: smc_granule_delegate_def)
next
  case True
  then obtain g where g: "find_granule addr = Some g" "gst s g = GRANULE_STATE_NS" by blast
  show ?thesis
  proof (cases "accepts mc SMC_ASC_MARK_SECURE [addr, 0, 0, 0, 0, 0]")
    case True
    from granule_delegate_found [OF inv q g True] show ?thesis using success [OF _ g] by blast
  next
    case False
    then have "smc_granule_delegate mc addr s = None"
      by (simp add: smc_granule_delegate_def find_lock_quiet [OF q inv] g asc_mark_secure_def
          monitor_call_def accepts_def)
    then show ?thesis using refused False by blast
  qed
qed

lemma smc_granule_delegate_safe:
  assumes "inv s" and q: "quiet s"
  shows "case smc_granule_delegate mc addr s of
      None \<Rightarrow> \<not> accepts mc SMC_ASC_MARK_SECURE [addr, 0, 0, 0, 0, 0]
    | Some (ret, s') \<Rightarrow> inv s' \<and> quiet s'"
proof -
  from assms obtain lv par where inv: "inv_with lv par s" by (auto simp: inv_def)
  from inv q show ?thesis
  proof (cases rule: granule_delegate_cases [where mc = mc and addr = addr])
    case (error s')
    then show ?thesis using assms inv_cong quiet_cong by auto
  next
    case (success g s')
    have "inv_with lv par s'"
      using inv by (rule inv_free_granule_step [where c = g]) (use success in simp_all)
    then show ?thesis using success q by (auto simp: inv_def quiet_def)
  qed simp
qed

section \<open>Undelegate\<close>

lemma granule_undelegate_found:
  assumes inv: "inv_with lv par s" and q: "quiet s" and g: "find_granule addr = Some g"
    and st: "gst s g = GRANULE_STATE_DELEGATED"
    and mc: "accepts mc SMC_ASC_MARK_NONSECURE [addr, 0, 0, 0, 0, 0]"
  shows "\<exists>s'. smc_granule_undelegate mc addr s = Some (RMI_SUCCESS, s')
    \<and> content s g = CZero
    \<and> granules s' = (granules s)(g := \<lparr>g_state = GRANULE_STATE_NS, g_refcount = 0\<rparr>)
    \<and> content s' = content s \<and> vmids s' = vmids s \<and> glock s' = glock s \<and> slots s' = slots s
    \<and> trace s' = trace s @ [EvLock g GRANULE_STATE_DELEGATED,
        EvSmc SMC_ASC_MARK_NONSECURE [addr, 0, 0, 0, 0, 0], EvUnlock g]"
proof -
  have b: "g < RMM_MAX_GRANULES" using g by (rule find_granule_bound)
  have rc: "grc s g = 0" using inv_with_unlocked [OF inv b] st by (simp add: unlocked_ok_def)
  have fl: "find_lock_granule addr GRANULE_STATE_DELEGATED s
    = Some (Some g, lock_g g GRANULE_STATE_DELEGATED s)"
    by (simp add: find_lock_quiet [OF q inv] g st)
  show ?thesis
    using b q rc mc inv_with_delegated [OF inv b st]
    by (simp add: smc_granule_undelegate_def fl asc_mark_nonsecure_def monitor_call_def accepts_def
        granule_unlock_eq unlocked_ok_def quiet_def fun_eq_iff)
qed

lemma granule_undelegate_cases:
  assumes inv: "inv_with lv par s" and q: "quiet s"
  obtains (error) s' where "smc_granule_undelegate mc addr s = Some (RMI_ERROR_INPUT, s')"
      "same_state s s'" "\<not> (\<exists>g. find_granule addr = Some g \<and> gst s g = GRANULE_STATE_DELEGATED)"
    | (refused) "smc_granule_undelegate mc addr s = None"
      "\<not> accepts mc SMC_ASC_MARK_NONSECURE [addr, 0, 0, 0, 0, 0]"
    | (success) g s' where "smc_granule_undelegate mc addr s = Some (RMI_SUCCESS, s')"
      "find_granule addr = Some g" "gst s g = GRANULE_STATE_DELEGATED" "content s g = CZero"
      "granules s' = (granules s)(g := \<lparr>g_state = GRANULE_STATE_NS, g_refcount = 0\<rparr>)"
      "content s' = content s" "vmids s' = vmids s" "glock s' = glock s" "slots s' = slots s"
proof (cases "\<exists>g. find_granule addr = Some g \<and> gst s g = GRANULE_STATE_DELEGATED")
  case False
  then have "\<exists>s'. find_lock_granule addr GRANULE_STATE_DELEGATED s = Some (None, s') \<and> same_state s s'"
    using q same_state_lock_unlock [of s]
    by (cases "find_granule addr") (auto simp: find_lock_quiet [OF q inv] quiet_def)
  with False show ?thesis using error by (auto simp: smc_granule_undelegate_def)
next
  case True
  then obtain g where g: "find_granule addr = Some g" "gst s g = GRANULE_STATE_DELEGATED" by blast
  show ?thesis
  proof (cases "accepts mc SMC_ASC_MARK_NONSECURE [addr, 0, 0, 0, 0, 0]")
    case True
    from granule_undelegate_found [OF inv q g True] show ?thesis using success [OF _ g] by blast
  next
    case False
    then have "smc_granule_undelegate mc addr s = None"
      by (simp add: smc_granule_undelegate_def find_lock_quiet [OF q inv] g asc_mark_nonsecure_def
          monitor_call_def accepts_def)
    then show ?thesis using refused False by blast
  qed
qed

lemma smc_granule_undelegate_safe:
  assumes "inv s" and q: "quiet s"
  shows "case smc_granule_undelegate mc addr s of
      None \<Rightarrow> \<not> accepts mc SMC_ASC_MARK_NONSECURE [addr, 0, 0, 0, 0, 0]
    | Some (ret, s') \<Rightarrow> inv s' \<and> quiet s'"
proof -
  from assms obtain lv par where inv: "inv_with lv par s" by (auto simp: inv_def)
  from inv q show ?thesis
  proof (cases rule: granule_undelegate_cases [where mc = mc and addr = addr])
    case (error s')
    then show ?thesis using assms inv_cong quiet_cong by auto
  next
    case (success g s')
    have "inv_with lv par s'"
      using inv by (rule inv_free_granule_step [where c = g]) (use success in simp_all)
    then show ?thesis using success q by (auto simp: inv_def quiet_def)
  qed simp
qed

end
