(* ===== verification/Rec_Cmds.thy ===== *)
theory Rec_Cmds
  imports Realm_Cmds
begin

text \<open>
  The life cycle of a REC: Rec.Create, Rec.Destroy and Rec.AuxCount of
  runtime/rmi/rec.c, with the MPIDR functions of rec.h and the registers a new REC
  starts with.
\<close>

section \<open>MPIDR and REC index\<close>

definition MPIDR_EL2_AFF :: "nat \<Rightarrow> u64 \<Rightarrow> u64" where
  "MPIDR_EL2_AFF n reg =
     (if n = 0 then drop_bit 0 (reg AND MASK 4 0)
      else if n = 1 then drop_bit 4 (reg AND MASK 8 8)
      else if n = 2 then drop_bit 4 (reg AND MASK 8 16)
      else drop_bit 12 (reg AND MASK 8 32))"

definition mpidr_is_valid :: "u64 \<Rightarrow> bool" where
  "mpidr_is_valid mpidr =
     (mpidr AND NOT (MASK 4 0 OR MASK 8 8 OR MASK 8 16 OR MASK 8 32) = 0)"

definition mpidr_to_rec_idx :: "u64 \<Rightarrow> u64" where
  "mpidr_to_rec_idx mpidr =
     MPIDR_EL2_AFF 0 mpidr + MPIDR_EL2_AFF 1 mpidr + MPIDR_EL2_AFF 2 mpidr
     + MPIDR_EL2_AFF 3 mpidr"

section \<open>The parameters of a REC\<close>

definition REC_CREATE_NR_GPRS :: nat where [word_consts]: "REC_CREATE_NR_GPRS = 8"
definition REC_PARAMS_FLAG_RUNNABLE :: u64 where [word_consts]: "REC_PARAMS_FLAG_RUNNABLE = 1"

text \<open>\<open>rp_gprs\<close> has 8 entries and \<open>rp_aux\<close> 16, as the arrays of the C structure.\<close>

record rmi_rec_params =
  rp_flags :: u64
  rp_mpidr :: u64
  rp_pc :: u64
  rp_gprs :: "u64 list"
  rp_num_aux :: u64
  rp_aux :: "u64 list"

definition rec_params_measure :: "hash_fun \<Rightarrow> rd \<Rightarrow> rmi_rec_params \<Rightarrow> rd" where
  "rec_params_measure hash rd rec_params =
     (let content = measurement_hash_compute hash (rd_algorithm rd)
                      (MeasRecParams (rp_pc rec_params) (rp_flags rec_params)
                         (rp_gprs rec_params)) zero_digest
      in set_rim (measurement_hash_compute hash (rd_algorithm rd)
                    (MeasDescRec (rim_field rd) content) (rd_measurement rd ! 0)) rd)"

section \<open>Initial registers\<close>

definition PMCR_EL0_RES1 :: u64 where [word_consts]: "PMCR_EL0_RES1 = INPLACE 6 1"
definition SCTLR_EL1_EE :: u64 where [word_consts]: "SCTLR_EL1_EE = push_bit 25 1"
definition SCTLR_EL1_FLAGS :: u64 where
  [word_consts]: "SCTLR_EL1_FLAGS =
     push_bit 23 1 OR push_bit 22 1 OR push_bit 18 1 OR push_bit 16 1 OR push_bit 11 1
     OR push_bit 6 1 OR push_bit 5 1 OR push_bit 4 1 OR push_bit 3 1"
definition MDSCR_EL1_TDCC_BIT :: u64 where [word_consts]: "MDSCR_EL1_TDCC_BIT = INPLACE 12 1"
definition VMPIDR_EL2_RES1 :: u64 where [word_consts]: "VMPIDR_EL2_RES1 = push_bit 31 1"
definition CNTHCTL_EL2_NO_TRAPS :: u64 where
  [word_consts]: "CNTHCTL_EL2_NO_TRAPS = push_bit 10 1 OR push_bit 11 1"
definition HCR_FLAGS :: u64 where
  [word_consts]: "HCR_FLAGS =
     push_bit 46 1 OR push_bit 34 1 OR push_bit 31 1 OR push_bit 19 1 OR push_bit 5 1
     OR INPLACE 10 1 OR push_bit 4 1 OR push_bit 3 1 OR push_bit 2 1 OR push_bit 1 1
     OR push_bit 0 1 OR push_bit 18 1 OR push_bit 37 1"
definition VTCR_VS :: u64 where [word_consts]: "VTCR_VS = push_bit 19 1"
definition VTCR_FLAGS :: u64 where
  [word_consts]: "VTCR_FLAGS =
     INPLACE 8 1 OR INPLACE 10 1 OR INPLACE 12 3 OR INPLACE 14 0 OR INPLACE 16 2
     OR push_bit 30 1 OR push_bit 31 1"
definition REALM_PSTATE :: u64 where
  [word_consts]: "REALM_PSTATE =
     INPLACE 0 5 OR INPLACE 4 0 OR INPLACE 6 1 OR INPLACE 7 1 OR INPLACE 8 1 OR INPLACE 9 1"

definition init_rec_sysregs :: "rec \<Rightarrow> u64 \<Rightarrow> rec" where
  "init_rec_sysregs rec mpidr =
     (let sr = rec_sysregs rec
      in rec\<lparr>rec_sysregs := sr\<lparr>pmcr_el0 := PMCR_EL0_RES1,
                                sctlr_el1 := SCTLR_EL1_FLAGS,
                                mdscr_el1 := MDSCR_EL1_TDCC_BIT,
                                vmpidr_el2 := mpidr OR VMPIDR_EL2_RES1,
                                cnthctl_el2 := CNTHCTL_EL2_NO_TRAPS\<rparr>\<rparr>)"

text \<open>VTCR_EL2.SL0 for the starting levels 0 to 3.\<close>

definition sl0_val :: "u64 list" where
  "sl0_val = [INPLACE 6 2, INPLACE 6 1, INPLACE 6 0, INPLACE 6 3]"

definition realm_vtcr :: "arch_regs \<Rightarrow> rd \<Rightarrow> u64 option" where
  "realm_vtcr ar rd = do {
     let vtcr = (if is_feat_vmid16_present ar then VTCR_FLAGS OR VTCR_VS else VTCR_FLAGS);
     let s2_starting_level = realm_rtt_starting_level rd;
     assert_c (0 \<le> s2_starting_level \<and> s2_starting_level \<le> 3);
     let sl0 = sl0_val ! nat s2_starting_level;
     let t0sz = 64 - (of_nat (realm_ipa_bits rd) :: u64);
     let t0sz = t0sz AND MASK 6 0;
     Some (vtcr OR t0sz OR sl0)
   }"

definition init_common_sysregs :: "arch_regs \<Rightarrow> rec \<Rightarrow> rd \<Rightarrow> rec option" where
  "init_common_sysregs ar rec rd = do {
     vtcr \<leftarrow> realm_vtcr ar rd;
     rtt \<leftarrow> granule_addr (s2_g_rtt (rd_s2_ctx rd));
     let vttbr = (rtt AND MASK 47 1) OR INPLACE 48 (ucast (s2_vmid (rd_s2_ctx rd)));
     Some (rec\<lparr>rec_common_sysregs := \<lparr>vttbr_el2 = vttbr, vtcr_el2 = vtcr,
                                       hcr_el2 = HCR_FLAGS\<rparr>\<rparr>)
   }"

definition init_rec_regs ::
  "arch_regs \<Rightarrow> rec \<Rightarrow> rmi_rec_params \<Rightarrow> rd \<Rightarrow> rec option" where
  "init_rec_regs ar rec rec_params rd = do {
     let rec = rec\<lparr>rec_regs := take REC_CREATE_NR_GPRS (rp_gprs rec_params)
                               @ drop REC_CREATE_NR_GPRS (rec_regs rec),
                   rec_pc := rp_pc rec_params,
                   rec_pstate := REALM_PSTATE\<rparr>;
     let rec = init_rec_sysregs rec (rp_mpidr rec_params);
     init_common_sysregs ar rec rd
   }"

definition ICH_HCR_EL2_EN_BIT :: u64 where [word_consts]: "ICH_HCR_EL2_EN_BIT = INPLACE 0 1"
definition ICH_HCR_EL2_VSGIEEOICOUNT_BIT :: u64 where
  [word_consts]: "ICH_HCR_EL2_VSGIEEOICOUNT_BIT = INPLACE 8 1"
definition ICH_HCR_EL2_DVIM_BIT :: u64 where
  [word_consts]: "ICH_HCR_EL2_DVIM_BIT = INPLACE 15 1"

definition gic_cpu_state_init :: gic_cpu_state where
  "gic_cpu_state_init = zero_gic\<lparr>ich_hcr_el2 :=
     ICH_HCR_EL2_EN_BIT OR ICH_HCR_EL2_VSGIEEOICOUNT_BIT OR ICH_HCR_EL2_DVIM_BIT\<rparr>"

section \<open>Auxiliary granules\<close>

fun free_rec_aux_loop :: "nat \<Rightarrow> nat list \<Rightarrow> bool \<Rightarrow> rmm \<Rightarrow> rmm option" where
  "free_rec_aux_loop i [] scrub s = Some s"
| "free_rec_aux_loop i (g # gs) scrub s = do {
     s \<leftarrow> granule_lock g GRANULE_STATE_REC_AUX s;
     s \<leftarrow> (if scrub then granule_memzero g (SLOT_REC_AUX0 + i) s else Some s);
     s \<leftarrow> granule_unlock_transition g GRANULE_STATE_DELEGATED s;
     free_rec_aux_loop (Suc i) gs scrub s
   }"

definition free_rec_aux_granules :: "nat list \<Rightarrow> nat \<Rightarrow> bool \<Rightarrow> rmm \<Rightarrow> rmm option" where
  "free_rec_aux_granules rec_aux cnt scrub s = free_rec_aux_loop 0 (take cnt rec_aux) scrub s"

text \<open>The loop that takes the auxiliary granules; \<open>gs\<close> are those taken so far.\<close>

fun take_rec_aux :: "u64 list \<Rightarrow> nat list \<Rightarrow> rmm \<Rightarrow> ((bool \<times> nat list) \<times> rmm) option" where
  "take_rec_aux [] gs s = Some ((True, gs), s)"
| "take_rec_aux (a # as) gs s = do {
     (r, s) \<leftarrow> find_lock_granule a GRANULE_STATE_DELEGATED s;
     (case r of
        None \<Rightarrow> do {
          s \<leftarrow> free_rec_aux_granules gs (length gs) False s;
          Some ((False, gs), s)
        }
      | Some g_rec_aux \<Rightarrow> do {
          s \<leftarrow> granule_unlock_transition g_rec_aux GRANULE_STATE_REC_AUX s;
          take_rec_aux as (gs @ [g_rec_aux]) s
        })
   }"

section \<open>Rec.Create\<close>

text \<open>
  The part with the two granules locked and mapped: \<open>Inl\<close> is the error, \<open>Inr\<close> the new
  realm descriptor and the new REC.
\<close>

definition init_rec ::
  "arch_regs \<Rightarrow> hash_fun \<Rightarrow> rmi_rec_params \<Rightarrow> nat list \<Rightarrow> nat \<Rightarrow> nat \<Rightarrow> rd \<Rightarrow> rec
     \<Rightarrow> (u64 + rd \<times> rec) option" where
  "init_rec ar hash rec_params aux g_rec g_rd rd rec =
     (let num_rec_aux = length aux;
          rec_idx = rd_rec_count rd
      in if rd_state rd \<noteq> REALM_STATE_NEW then Some (Inl RMI_ERROR_REALM)
         else if \<not> mpidr_is_valid (rp_mpidr rec_params)
                 \<or> rec_idx \<noteq> mpidr_to_rec_idx (rp_mpidr rec_params)
         then Some (Inl RMI_ERROR_INPUT)
         else if num_rec_aux \<noteq> rd_num_rec_aux rd then Some (Inl RMI_ERROR_INPUT)
         else do {
           let rec = rec\<lparr>rec_g_rec := g_rec, rec_idx := rec_idx\<rparr>;
           rec \<leftarrow> init_rec_regs ar rec rec_params rd;
           let rec = rec\<lparr>rec_sysregs := (rec_sysregs rec)\<lparr>gicstate := gic_cpu_state_init\<rparr>\<rparr>;
           let rec = rec\<lparr>rec_g_aux := aux, rec_num_rec_aux := num_rec_aux\<rparr>;
           let rec = rec\<lparr>rec_realm_info :=
                           \<lparr>ri_ipa_bits = realm_ipa_bits rd,
                            ri_s2_starting_level = realm_rtt_starting_level rd,
                            ri_g_rtt = s2_g_rtt (rd_s2_ctx rd), ri_g_rd = g_rd\<rparr>\<rparr>;
           let rd = rec_params_measure hash rd rec_params;
           let rec = rec\<lparr>rec_runnable := rp_flags rec_params AND REC_PARAMS_FLAG_RUNNABLE \<noteq> 0,
                         rec_ctx_initialised := False,
                         rec_token_sign := (rec_token_sign rec)
                           \<lparr>ts_state := ATTEST_SIGN_NOT_STARTED\<rparr>\<rparr>;
           let rd = rd\<lparr>rd_rec_count := rec_idx + 1\<rparr>;
           Some (Inr (rd, rec))
         })"

text \<open>The part of the command that starts with the auxiliary granules taken.\<close>

definition rec_create_locked ::
  "arch_regs \<Rightarrow> hash_fun \<Rightarrow> u64 \<Rightarrow> u64 \<Rightarrow> rmi_rec_params \<Rightarrow> nat list \<Rightarrow> rmm
     \<Rightarrow> (u64 \<times> rmm) option" where
  "rec_create_locked ar hash rec_addr rd_addr rec_params aux s = do {
     (r, s) \<leftarrow> find_lock_two_granules rec_addr GRANULE_STATE_DELEGATED
                                        rd_addr GRANULE_STATE_RD s;
     (case r of
        None \<Rightarrow> Some (RMI_ERROR_INPUT, s)
      | Some (g_rec, g_rd) \<Rightarrow> do {
          s \<leftarrow> granule_map g_rec SLOT_REC s;
          s \<leftarrow> granule_map g_rd SLOT_RD s;
          rec \<leftarrow> rec_of (content s g_rec);
          rd \<leftarrow> rd_of (content s g_rd);
          r \<leftarrow> init_rec ar hash rec_params aux g_rec g_rd rd rec;
          let (ret, new_rec_state, s) =
            (case r of
               Inl err \<Rightarrow> (err, GRANULE_STATE_DELEGATED, s)
             | Inr (rd, rec) \<Rightarrow>
                 (RMI_SUCCESS, GRANULE_STATE_REC,
                  atomic_granule_get g_rd (set_content g_rec (CRec rec) (set_rd g_rd rd s))));
          let s = buffer_unmap SLOT_RD s;
          let s = buffer_unmap SLOT_REC s;
          s \<leftarrow> granule_unlock g_rd s;
          s \<leftarrow> granule_unlock_transition g_rec new_rec_state s;
          Some (ret, s)
        })
   }"

definition smc_rec_create ::
  "arch_regs \<Rightarrow> hash_fun \<Rightarrow> u64 \<Rightarrow> u64 \<Rightarrow> u64 \<Rightarrow> rmi_rec_params option \<Rightarrow> rmm
     \<Rightarrow> (u64 \<times> rmm) option" where
  "smc_rec_create ar hash rec_addr rd_addr rec_params_addr mem s =
     (case find_granule rec_params_addr of
        None \<Rightarrow> Some (RMI_ERROR_INPUT, s)
      | Some g_rec_params \<Rightarrow>
          if g_state (granules s g_rec_params) \<noteq> GRANULE_STATE_NS
          then Some (RMI_ERROR_INPUT, s)
          else do {
            (r, s) \<leftarrow> ns_buffer_read SLOT_NS g_rec_params 0 4096 mem s;
            (case r of
               None \<Rightarrow> Some (RMI_ERROR_INPUT, s)
             | Some rec_params \<Rightarrow> do {
                 let num_rec_aux = unat (ucast (rp_num_aux rec_params) :: u32);
                 if MAX_REC_AUX_GRANULES < num_rec_aux then Some (RMI_ERROR_INPUT, s)
                 else do {
                   ((ok, aux), s) \<leftarrow> take_rec_aux (take num_rec_aux (rp_aux rec_params)) [] s;
                   if \<not> ok then Some (RMI_ERROR_INPUT, s)
                   else do {
                     (ret, s) \<leftarrow> rec_create_locked ar hash rec_addr rd_addr rec_params aux s;
                     s \<leftarrow> (if ret \<noteq> RMI_SUCCESS
                           then free_rec_aux_granules aux num_rec_aux False s else Some s);
                     Some (ret, s)
                   }
                 }
               })
          })"

section \<open>Rec.Destroy and Rec.AuxCount\<close>

definition smc_rec_destroy :: "u64 \<Rightarrow> rmm \<Rightarrow> (u64 \<times> rmm) option" where
  "smc_rec_destroy rec_addr s = do {
     (r, s) \<leftarrow> find_lock_unused_granule rec_addr GRANULE_STATE_REC s;
     (case r of
        Inl err \<Rightarrow> Some (err, s)
      | Inr g_rec \<Rightarrow> do {
          s \<leftarrow> granule_map g_rec SLOT_REC s;
          rec \<leftarrow> rec_of (content s g_rec);
          let g_rd = ri_g_rd (rec_realm_info rec);
          s \<leftarrow> free_rec_aux_granules (rec_g_aux rec) (rec_num_rec_aux rec) True s;
          let s = granule_memzero_mapped g_rec s;
          let s = buffer_unmap SLOT_REC s;
          s \<leftarrow> granule_unlock_transition g_rec GRANULE_STATE_DELEGATED s;
          let s = atomic_granule_put g_rd s;
          Some (RMI_SUCCESS, s)
        })
   }"

definition smc_rec_aux_count :: "u64 \<Rightarrow> u64 list \<Rightarrow> rmm \<Rightarrow> (u64 list \<times> rmm) option" where
  "smc_rec_aux_count rd_addr ret s = do {
     (r, s) \<leftarrow> find_lock_granule rd_addr GRANULE_STATE_RD s;
     (case r of
        None \<Rightarrow> Some (ret[0 := RMI_ERROR_INPUT], s)
      | Some g_rd \<Rightarrow> do {
          s \<leftarrow> granule_map g_rd SLOT_RD s;
          rd \<leftarrow> rd_of (content s g_rd);
          let num_rec_aux = rd_num_rec_aux rd;
          let s = buffer_unmap SLOT_RD s;
          s \<leftarrow> granule_unlock g_rd s;
          Some (ret[0 := RMI_SUCCESS, 1 := of_nat num_rec_aux], s)
        })
   }"

end
