(* ===== verification/Rec_Create_Correct.thy ===== *)
theory Rec_Create_Correct
  imports Realm_Destroy_Correct Rec_Cmds
begin

text \<open>
  The two loops over the auxiliary granules of a REC: taking them one by one with the
  roll-back when one is not available, and giving them back.
\<close>

section \<open>Giving the granules back\<close>

definition aux_row :: "rmm \<Rightarrow> nat list \<Rightarrow> bool" where
  "aux_row s gs \<longleftrightarrow> distinct gs \<and> (\<forall>g\<in>set gs. g < RMM_MAX_GRANULES
     \<and> gst s g = GRANULE_STATE_REC_AUX \<and> \<not> glock s g \<and> grc s g = 0)"

lemma free_rec_aux_loop_spec:
  assumes "aux_row s gs" and "scrub \<Longrightarrow> i + length gs \<le> 16"
    and "\<And>k. i \<le> k \<Longrightarrow> slots s (SLOT_REC_AUX0 + k) = None"
  shows "\<exists>s'. free_rec_aux_loop i gs scrub s = Some s'
    \<and> granules s' = states_set (\<lambda>x. x \<in> set gs) GRANULE_STATE_DELEGATED (granules s)
    \<and> content s' = (if scrub then zeroed (\<lambda>x. x \<in> set gs) (content s) else content s)
    \<and> glock s' = glock s \<and> slots s' = slots s \<and> vmids s' = vmids s"
  using assms
proof (induction gs arbitrary: i s)
  case Nil
  then show ?case by (simp add: states_set_def zeroed_def fun_eq_iff)
next
  case (Cons g gs)
  have g: "g < RMM_MAX_GRANULES" "gst s g = GRANULE_STATE_REC_AUX" "\<not> glock s g" "grc s g = 0"
    and rest: "aux_row s gs" "g \<notin> set gs"
    using Cons.prems(1) by (simp_all add: aux_row_def)
  let ?s1 = "lock_g g GRANULE_STATE_REC_AUX s"
  let ?s2 = "if scrub then granule_memzero_mapped g ?s1 else ?s1"
  let ?s3 = "spinlock_release g (granule_set_state g GRANULE_STATE_DELEGATED ?s2)"
  have lk: "granule_lock g GRANULE_STATE_REC_AUX s = Some ?s1"
    using g by (simp add: granule_lock_eq unlocked_ok_def)
  have mz: "(if scrub then granule_memzero g (SLOT_REC_AUX0 + i) ?s1 else Some ?s1) = Some ?s2"
    using g(1) Cons.prems(2) Cons.prems(3) [of i] by (cases scrub) (simp_all add: granule_memzero_eq)
  have ul: "granule_unlock_transition g GRANULE_STATE_DELEGATED ?s2 = Some ?s3"
    using g(4) by (simp add: granule_unlock_transition_def granule_unlock_def)
  have st: "granules ?s3 = (granules s)(g := (granules s g)\<lparr>g_state := GRANULE_STATE_DELEGATED\<rparr>)"
    "content ?s3 = (if scrub then (content s)(g := CZero) else content s)"
    "glock ?s3 = glock s" "slots ?s3 = slots s" "vmids ?s3 = vmids s"
    using g(3) by (auto simp: fun_eq_iff)
  have i1: "aux_row ?s3 gs" using rest unfolding aux_row_def st by auto
  have i2: "scrub \<Longrightarrow> Suc i + length gs \<le> 16" using Cons.prems(2) by simp
  have i3: "Suc i \<le> k \<Longrightarrow> slots ?s3 (SLOT_REC_AUX0 + k) = None" for k
    using Cons.prems(3) [of k] by (simp add: st)
  from Cons.IH [OF i1 i2 i3] obtain s' where
    IH: "free_rec_aux_loop (Suc i) gs scrub ?s3 = Some s'"
    "granules s' = states_set (\<lambda>x. x \<in> set gs) GRANULE_STATE_DELEGATED (granules ?s3)"
    "content s' = (if scrub then zeroed (\<lambda>x. x \<in> set gs) (content ?s3) else content ?s3)"
    "glock s' = glock ?s3" "slots s' = slots ?s3" "vmids s' = vmids ?s3" by blast
  have "free_rec_aux_loop i (g # gs) scrub s = Some s'" using IH(1) lk mz ul by simp
  moreover have "granules s' = states_set (\<lambda>x. x \<in> set (g # gs)) GRANULE_STATE_DELEGATED (granules s)"
    unfolding IH(2) st by (auto simp: states_set_def fun_eq_iff)
  moreover have "content s' = (if scrub then zeroed (\<lambda>x. x \<in> set (g # gs)) (content s) else content s)"
    unfolding IH(3) st by (auto simp: zeroed_def fun_eq_iff)
  ultimately show ?case using IH(4-6) unfolding st by blast
qed

section \<open>Taking the granules\<close>

text \<open>The state after the granules \<open>gs\<close>, delegated before, have been taken.\<close>

definition aux_taken :: "nat list \<Rightarrow> rmm \<Rightarrow> rmm \<Rightarrow> bool" where
  "aux_taken gs s0 s \<longleftrightarrow> distinct gs
     \<and> (\<forall>g\<in>set gs. g < RMM_MAX_GRANULES \<and> gst s0 g = GRANULE_STATE_DELEGATED)
     \<and> granules s = states_set (\<lambda>x. x \<in> set gs) GRANULE_STATE_REC_AUX (granules s0)
     \<and> content s = content s0 \<and> glock s = glock s0 \<and> slots s = slots s0 \<and> vmids s = vmids s0"

lemma aux_taken_Nil [simp]: "aux_taken [] s s"
  by (simp add: aux_taken_def states_set_def fun_eq_iff)

lemma aux_taken_same: "aux_taken gs s0 s \<Longrightarrow> same_state s t \<Longrightarrow> aux_taken gs s0 t"
  by (simp add: aux_taken_def same_state_def)

lemma delegated_rc: 
  "inv_with lv par s \<Longrightarrow> g < RMM_MAX_GRANULES \<Longrightarrow> gst s g = GRANULE_STATE_DELEGATED \<Longrightarrow> grc s g = 0"
  using inv_with_unlocked [of lv par s g] by (simp add: unlocked_ok_def)

lemma aux_taken_unlocked:
  assumes "inv_with lv par s0" and "quiet s0" and "aux_taken gs s0 s" and "g < RMM_MAX_GRANULES"
  shows "\<not> glock s g" "unlocked_ok s g"
  using assms inv_with_unlocked [OF assms(1,4)] delegated_rc [OF assms(1,4)]
  by (auto simp: aux_taken_def quiet_def unlocked_ok_def states_set_def)

lemma aux_taken_row:
  assumes "inv_with lv par s0" and "quiet s0" and "aux_taken gs s0 s"
  shows "aux_row s gs"
  using assms delegated_rc [OF assms(1)]
  by (auto simp: aux_row_def aux_taken_def quiet_def states_set_def)

lemma aux_given_back:
  assumes inv: "inv_with lv par s0" and q: "quiet s0" and s: "aux_taken gs s0 s"
  shows "\<exists>s'. free_rec_aux_granules gs (length gs) False s = Some s' \<and> same_state s0 s'"
proof -
  have n: "slots s k = None" for k
    using q s by (simp add: aux_taken_def quiet_def)
  from free_rec_aux_loop_spec [OF aux_taken_row [OF inv q s], of False 0] n obtain s' where
    s': "free_rec_aux_loop 0 gs False s = Some s'"
    "granules s' = states_set (\<lambda>x. x \<in> set gs) GRANULE_STATE_DELEGATED (granules s)"
    "content s' = content s" "glock s' = glock s" "slots s' = slots s" "vmids s' = vmids s" by auto
  have "granules s' x = granules s0 x" for x
    using s by (auto simp: s'(2) aux_taken_def states_set_def intro: granule.equality)
  then have "granules s0 = granules s'" by (simp add: fun_eq_iff)
  then have "same_state s0 s'" using s s'(3-6) by (simp add: same_state_def aux_taken_def)
  then show ?thesis using s'(1) by (auto simp: free_rec_aux_granules_def)
qed

lemma take_rec_aux_spec:
  assumes inv: "inv_with lv par s0" and q: "quiet s0"
  shows "aux_taken gs s0 s \<Longrightarrow> \<exists>ok gs' s'. take_rec_aux as gs s = Some ((ok, gs'), s')
    \<and> (if ok then aux_taken gs' s0 s'
                \<and> (\<exists>new. gs' = gs @ new \<and> map find_granule as = map Some new)
       else same_state s0 s')"
proof (induction as arbitrary: gs s)
  case Nil
  have "take_rec_aux [] gs s = Some ((True, gs), s)" by simp
  then show ?case using Nil by fastforce
next
  case (Cons a as)
  note un = aux_taken_unlocked [OF inv q Cons.prems]
  have fl: "find_lock_granule a GRANULE_STATE_DELEGATED s =
    (case find_granule a of
       None \<Rightarrow> Some (None, s)
     | Some g \<Rightarrow> if gst s g = GRANULE_STATE_DELEGATED
                 then Some (Some g, lock_g g GRANULE_STATE_DELEGATED s)
                 else Some (None, spinlock_release g (lock_g g GRANULE_STATE_DELEGATED s)))"
    using un find_granule_bound by (intro find_lock_granule_eq) blast
  show ?case
  proof (cases "\<exists>g. find_granule a = Some g \<and> gst s g = GRANULE_STATE_DELEGATED")
    case True
    then obtain g where g: "find_granule a = Some g" "gst s g = GRANULE_STATE_DELEGATED" by blast
    have b: "g < RMM_MAX_GRANULES" using find_granule_bound [OF g(1)] .
    let ?s2 = "spinlock_release g (granule_set_state g GRANULE_STATE_REC_AUX
        (lock_g g GRANULE_STATE_DELEGATED s))"
    have new: "g \<notin> set gs" "gst s0 g = GRANULE_STATE_DELEGATED"
      using Cons.prems g(2) by (auto simp: aux_taken_def states_set_def split: if_splits)
    have "grc s g = 0" using un(2) [OF b] g(2) by (simp add: unlocked_ok_def)
    then have ut: "granule_unlock_transition g GRANULE_STATE_REC_AUX
        (lock_g g GRANULE_STATE_DELEGATED s) = Some ?s2"
      by (simp add: granule_unlock_transition_def granule_unlock_def)
    have "aux_taken (gs @ [g]) s0 ?s2"
      using Cons.prems new b un(1) [OF b]
      by (auto simp: aux_taken_def states_set_def fun_eq_iff)
    from Cons.IH [OF this] obtain ok gs' s' where
      IH: "take_rec_aux as (gs @ [g]) ?s2 = Some ((ok, gs'), s')"
      "if ok then aux_taken gs' s0 s'
         \<and> (\<exists>new. gs' = (gs @ [g]) @ new \<and> map find_granule as = map Some new)
       else same_state s0 s'" by blast
    have "take_rec_aux (a # as) gs s = Some ((ok, gs'), s')"
      using IH(1) by (simp add: fl g ut)
    moreover have "\<exists>new. gs' = gs @ new \<and> map find_granule (a # as) = map Some new" if ok
    proof -
      from IH(2) that obtain new where "gs' = (gs @ [g]) @ new" "map find_granule as = map Some new"
        by auto
      then have "gs' = gs @ (g # new) \<and> map find_granule (a # as) = map Some (g # new)"
        using g(1) by simp
      then show ?thesis by blast
    qed
    ultimately show ?thesis using IH(2) by (cases ok) auto
  next
    case False
    have "\<exists>t. find_lock_granule a GRANULE_STATE_DELEGATED s = Some (None, t) \<and> same_state s t"
      using False fl un(1) same_state_lock_unlock find_granule_bound
      by (cases "find_granule a") auto
    then obtain t where t: "find_lock_granule a GRANULE_STATE_DELEGATED s = Some (None, t)"
      "same_state s t" by blast
    from aux_given_back [OF inv q aux_taken_same [OF Cons.prems t(2)]] obtain s' where
      "free_rec_aux_granules gs (length gs) False t = Some s'" "same_state s0 s'" by blast
    then have "take_rec_aux (a # as) gs s = Some ((False, gs), s')" by (simp add: t(1))
    then show ?thesis using \<open>same_state s0 s'\<close> by auto
  qed
qed

text \<open>
  Rec.Create: an error leaves the state as it was, the auxiliary granules included; on
  success the REC is bound to its realm, the realm counts it and its registers are the
  architected ones.
\<close>

section \<open>The new REC\<close>

lemma measurement_length [simp]:
  "length (rd_measurement (rec_params_measure hash rd p)) = length (rd_measurement rd)"
  "rd_s2_ctx (rec_params_measure hash rd p) = rd_s2_ctx rd"
  "rd_state (rec_params_measure hash rd p) = rd_state rd"
  by (simp_all add: rec_params_measure_def set_rim_def Let_def)

lemma realm_vtcr_total: "s2_ctx_ok (rd_s2_ctx rd) \<Longrightarrow> \<exists>v. realm_vtcr ar rd = Some v"
  by (simp add: realm_vtcr_def realm_rtt_starting_level_def s2_ctx_ok_def bind_assert_c Let_def)

lemma init_rec_regs_total:
  assumes "s2_ctx_ok (rd_s2_ctx rd)" and "s2_g_rtt (rd_s2_ctx rd) < RMM_MAX_GRANULES"
  obtains cs where "\<And>r. init_rec_regs ar r p rd = Some
    ((init_rec_sysregs (r\<lparr>rec_regs := take REC_CREATE_NR_GPRS (rp_gprs p)
        @ drop REC_CREATE_NR_GPRS (rec_regs r), rec_pc := rp_pc p, rec_pstate := REALM_PSTATE\<rparr>)
      (rp_mpidr p))\<lparr>rec_common_sysregs := cs\<rparr>)"
proof -
  from realm_vtcr_total [OF assms(1)] obtain v where "realm_vtcr ar rd = Some v" by blast
  moreover from assms(2) obtain a where "granule_addr (s2_g_rtt (rd_s2_ctx rd)) = Some a"
    by (auto simp: granule_addr_eq)
  ultimately show ?thesis
    by (intro that [of "\<lparr>vttbr_el2 = (a AND MASK 47 1) OR INPLACE 48 (ucast (s2_vmid (rd_s2_ctx rd))),
          vtcr_el2 = v, hcr_el2 = HCR_FLAGS\<rparr>"])
      (simp add: init_rec_regs_def init_common_sysregs_def Let_def)
qed

text \<open>What the checks of the command on the descriptor and the parameters ask for.\<close>

definition rec_params_accepted :: "rmi_rec_params \<Rightarrow> nat list \<Rightarrow> rd \<Rightarrow> bool" where
  "rec_params_accepted p aux rd \<longleftrightarrow> rd_state rd = REALM_STATE_NEW
     \<and> mpidr_is_valid (rp_mpidr p) \<and> mpidr_to_rec_idx (rp_mpidr p) = rd_rec_count rd
     \<and> length aux = rd_num_rec_aux rd"

definition new_rec_ok :: "rmi_rec_params \<Rightarrow> nat list \<Rightarrow> nat \<Rightarrow> nat \<Rightarrow> rd \<Rightarrow> rec \<Rightarrow> bool" where
  "new_rec_ok p aux g_rec g_rd rd rec \<longleftrightarrow> rec_g_rec rec = g_rec \<and> rec_idx rec = rd_rec_count rd
     \<and> rec_regs rec = rp_gprs p @ replicate 23 0 \<and> rec_pc rec = rp_pc p
     \<and> rec_pstate rec = REALM_PSTATE
     \<and> rec_g_aux rec = aux \<and> rec_num_rec_aux rec = length aux
     \<and> ri_g_rd (rec_realm_info rec) = g_rd \<and> info_matches (rec_realm_info rec) (rd_s2_ctx rd)
     \<and> rec_runnable rec = (rp_flags p AND REC_PARAMS_FLAG_RUNNABLE \<noteq> 0)
     \<and> \<not> rec_psci_pending rec \<and> \<not> rec_host_call rec"

lemma init_rec_cases:
  assumes ctx: "s2_ctx_ok (rd_s2_ctx rd)" "s2_g_rtt (rd_s2_ctx rd) < RMM_MAX_GRANULES"
    and gprs: "length (rp_gprs p) = 8"
  obtains (rejected) err where "init_rec ar hash p aux g_rec g_rd rd zero_rec = Some (Inl err)"
      "err = RMI_ERROR_REALM \<or> err = RMI_ERROR_INPUT" "\<not> rec_params_accepted p aux rd"
    | (accepted) rec where "init_rec ar hash p aux g_rec g_rd rd zero_rec
        = Some (Inr ((rec_params_measure hash rd p)\<lparr>rd_rec_count := rd_rec_count rd + 1\<rparr>, rec))"
      "rec_params_accepted p aux rd" "new_rec_ok p aux g_rec g_rd rd rec"
proof (cases "rec_params_accepted p aux rd")
  case False
  then show ?thesis
    by (intro rejected [of "if rd_state rd \<noteq> REALM_STATE_NEW then RMI_ERROR_REALM
          else RMI_ERROR_INPUT"])
      (auto simp: init_rec_def rec_params_accepted_def Let_def)
next
  case True
  from init_rec_regs_total [OF ctx, of ar p] obtain cs where cs: "\<And>r. init_rec_regs ar r p rd = Some
    ((init_rec_sysregs (r\<lparr>rec_regs := take REC_CREATE_NR_GPRS (rp_gprs p)
        @ drop REC_CREATE_NR_GPRS (rec_regs r), rec_pc := rp_pc p, rec_pstate := REALM_PSTATE\<rparr>)
      (rp_mpidr p))\<lparr>rec_common_sysregs := cs\<rparr>)" by blast
  have r: "init_rec ar hash p aux g_rec g_rd rd zero_rec
      = Some (Inr ((rec_params_measure hash rd p)\<lparr>rd_rec_count := rd_rec_count rd + 1\<rparr>,
          snd (projr (the (init_rec ar hash p aux g_rec g_rd rd zero_rec)))))"
    using True by (simp add: init_rec_def rec_params_accepted_def Let_def cs)
  have "new_rec_ok p aux g_rec g_rd rd
      (snd (projr (the (init_rec ar hash p aux g_rec g_rd rd zero_rec))))"
    using True gprs
    by (simp add: init_rec_def rec_params_accepted_def Let_def cs new_rec_ok_def zero_rec_def
        init_rec_sysregs_def gic_cpu_state_init_def info_matches_def realm_ipa_bits_def
        realm_rtt_starting_level_def REC_CREATE_NR_GPRS_def)
  then show ?thesis using accepted r True by blast
qed

section \<open>The part with the two granules locked\<close>

text \<open>The two outcomes of locking a pair, for states in which every granule is unlocked.\<close>

definition all_unlocked :: "rmm \<Rightarrow> bool" where
  "all_unlocked s \<longleftrightarrow> (\<forall>g<RMM_MAX_GRANULES. \<not> glock s g \<and> unlocked_ok s g)"

lemma all_unlocked_quiet: "quiet s \<Longrightarrow> inv_with lv par s \<Longrightarrow> all_unlocked s"
  using inv_with_unlocked by (simp add: all_unlocked_def quiet_def)

lemma find_lock_pair_cases:
  assumes "all_unlocked s"
  obtains (none) t where "find_lock_two_granules a1 st1 a2 st2 s = Some (None, t)"
      "\<not> pair_available a1 st1 a2 st2 s" "same_state s t"
    | (both) g1 g2 where
        "find_lock_two_granules a1 st1 a2 st2 s
           = Some (Some (g1, g2), two_locked a1 st1 g1 a2 st2 g2 s)"
        "pair_available a1 st1 a2 st2 s" "find_granule a1 = Some g1" "find_granule a2 = Some g2"
        "g1 \<noteq> g2" "gst s g1 = st1" "gst s g2 = st2"
  using find_lock_two_granules_cases [of s a1 st1 a2 st2 thesis] assms
  unfolding all_unlocked_def by blast

definition rec_pair :: "u64 \<Rightarrow> u64 \<Rightarrow> rmm \<Rightarrow> nat \<Rightarrow> nat \<Rightarrow> bool" where
  "rec_pair rec_addr rd_addr s g_rec g_rd \<longleftrightarrow> find_granule rec_addr = Some g_rec
     \<and> find_granule rd_addr = Some g_rd \<and> gst s g_rec = GRANULE_STATE_DELEGATED
     \<and> gst s g_rd = GRANULE_STATE_RD"

definition rec_stored ::
  "nat \<Rightarrow> nat \<Rightarrow> rd \<Rightarrow> rec \<Rightarrow> rmm \<Rightarrow> rmm \<Rightarrow> bool" where
  "rec_stored g_rec g_rd rd rec s s' \<longleftrightarrow>
     granules s' = (granules s)(g_rec := (granules s g_rec)\<lparr>g_state := GRANULE_STATE_REC\<rparr>,
       g_rd := (granules s g_rd)\<lparr>g_refcount := grc s g_rd + 1\<rparr>)
   \<and> content s' = (content s)(g_rd := CRd rd, g_rec := CRec rec)
   \<and> glock s' = glock s \<and> slots s' = slots s \<and> vmids s' = vmids s"

lemma rec_create_locked_cases:
  assumes unl: "all_unlocked s" and sl: "\<forall>k. slots s k = None"
    and rds: "\<forall>g<RMM_MAX_GRANULES. gst s g = GRANULE_STATE_RD
        \<longrightarrow> (\<exists>rd. content s g = CRd rd \<and> s2_ctx_ok (rd_s2_ctx rd)
              \<and> s2_g_rtt (rd_s2_ctx rd) < RMM_MAX_GRANULES)"
    and zero: "\<forall>g<RMM_MAX_GRANULES. gst s g = GRANULE_STATE_DELEGATED \<longrightarrow> content s g = CZero"
    and gprs: "length (rp_gprs p) = 8"
  obtains (error) ret s' where "rec_create_locked ar hash rec_addr rd_addr p aux s = Some (ret, s')"
      "same_state s s'" "ret = RMI_ERROR_REALM \<or> ret = RMI_ERROR_INPUT"
    | (success) g_rec g_rd rd rec s' where
      "rec_create_locked ar hash rec_addr rd_addr p aux s = Some (RMI_SUCCESS, s')"
      "rec_pair rec_addr rd_addr s g_rec g_rd" "content s g_rd = CRd rd"
      "rec_params_accepted p aux rd" "new_rec_ok p aux g_rec g_rd rd rec"
      "rec_stored g_rec g_rd ((rec_params_measure hash rd p)\<lparr>rd_rec_count := rd_rec_count rd + 1\<rparr>)
         rec s s'"
  using unl
proof (cases rule: find_lock_pair_cases [where ?a1.0 = rec_addr and ?a2.0 = rd_addr
      and ?st1.0 = GRANULE_STATE_DELEGATED and ?st2.0 = GRANULE_STATE_RD])
  case (none t)
  then have "rec_create_locked ar hash rec_addr rd_addr p aux s = Some (RMI_ERROR_INPUT, t)"
    by (simp add: rec_create_locked_def)
  then show ?thesis using error none(3) by blast
next
  case (both g_rec g_rd)
  have b: "g_rec < RMM_MAX_GRANULES" "g_rd < RMM_MAX_GRANULES"
    using both(3,4) find_granule_bound by blast+
  have un: "\<not> glock s g \<and> unlocked_ok s g" if "g < RMM_MAX_GRANULES" for g
    using unl that by (simp add: all_unlocked_def)
  from rds b(2) both(7) obtain rd where rd: "content s g_rd = CRd rd"
    "s2_ctx_ok (rd_s2_ctx rd)" "s2_g_rtt (rd_s2_ctx rd) < RMM_MAX_GRANULES" by blast
  have z: "content s g_rec = CZero" using zero b(1) both(6) by blast
  define s1 where "s1 = two_locked rec_addr GRANULE_STATE_DELEGATED g_rec rd_addr GRANULE_STATE_RD g_rd s"
  have s1: "granules s1 = granules s" "content s1 = content s" "slots s1 = slots s"
    "vmids s1 = vmids s" "glock s1 = (glock s)(g_rec := True, g_rd := True)"
    by (simp_all add: s1_def)
  define s2 where "s2 = map_slot SLOT_RD g_rd (map_slot SLOT_REC g_rec s1)"
  have m: "granule_map g_rec SLOT_REC s1 = Some (map_slot SLOT_REC g_rec s1)"
    "granule_map g_rd SLOT_RD (map_slot SLOT_REC g_rec s1) = Some s2"
    using b sl by (simp_all add: granule_map_eq s1 s2_def)
  have s2: "granules s2 = granules s" "content s2 = content s" "vmids s2 = vmids s"
    "glock s2 = (glock s)(g_rec := True, g_rd := True)"
    "slots s2 = (slots s)(SLOT_REC := Some g_rec, SLOT_RD := Some g_rd)"
    by (simp_all add: s2_def s1)
  have rc: "grc s g_rec = 0" using un [OF b(1)] both(6) by (simp add: unlocked_ok_def)
  have gl: "(glock s)(g_rec := False, g_rd := False) = glock s"
    "(glock s)(g_rd := False, g_rec := False) = glock s"
    using un [OF b(1)] un [OF b(2)] by (auto simp: fun_eq_iff)
  have slots: "(slots s)(SLOT_REC := None, SLOT_RD := None) = slots s"
    "(slots s)(SLOT_RD := None, SLOT_REC := None) = slots s"
    using sl by (auto simp: fun_eq_iff)
  define fin where "fin = (\<lambda>st t. spinlock_release g_rec (granule_set_state g_rec st
      (spinlock_release g_rd (buffer_unmap SLOT_REC (buffer_unmap SLOT_RD t)))))"
  have fin: "granules (fin st t) = (granules t)(g_rec := (granules t g_rec)\<lparr>g_state := st\<rparr>)"
    "content (fin st t) = content t" "vmids (fin st t) = vmids t"
    "glock (fin st t) = (glock t)(g_rd := False, g_rec := False)"
    "slots (fin st t) = (slots t)(SLOT_RD := None, SLOT_REC := None)" for st t
    using both(5) by (auto simp: fin_def fun_eq_iff)
  have run: "do {
      s \<leftarrow> granule_unlock g_rd (buffer_unmap SLOT_REC (buffer_unmap SLOT_RD t));
      s \<leftarrow> granule_unlock_transition g_rec st s;
      Some (ret, s) } = Some (ret, fin st t)"
    if "unlocked_ok t g_rd" "granule_assert_unlocked_invariants st (grc t g_rec)" for st t and ret :: u64
    using that by (simp add: granule_unlock_def granule_unlock_transition_def unlocked_ok_def fin_def)
  have cmd: "rec_create_locked ar hash rec_addr rd_addr p aux s = do {
      r \<leftarrow> init_rec ar hash p aux g_rec g_rd rd zero_rec;
      let (ret, st, t) = (case r of
          Inl err \<Rightarrow> (err, GRANULE_STATE_DELEGATED, s2)
        | Inr (rd, rec) \<Rightarrow> (RMI_SUCCESS, GRANULE_STATE_REC,
            atomic_granule_get g_rd (set_content g_rec (CRec rec) (set_rd g_rd rd s2))));
      s \<leftarrow> granule_unlock g_rd (buffer_unmap SLOT_REC (buffer_unmap SLOT_RD t));
      s \<leftarrow> granule_unlock_transition g_rec st s;
      Some (ret, s) }"
    by (simp add: rec_create_locked_def both(1) s1_def [symmetric] m s2 rd(1) z Let_def)
  from rd(2,3) gprs show ?thesis
  proof (cases rule: init_rec_cases [where ar = ar and hash = hash and aux = aux
        and g_rec = g_rec and g_rd = g_rd])
    case (rejected err)
    have u: "unlocked_ok s2 g_rd" "granule_assert_unlocked_invariants GRANULE_STATE_DELEGATED (grc s2 g_rec)"
      using un [OF b(2)] rc by (simp_all add: unlocked_ok_def s2)
    have "rec_create_locked ar hash rec_addr rd_addr p aux s
        = Some (err, fin GRANULE_STATE_DELEGATED s2)"
      using run [OF u] by (simp add: cmd rejected(1))
    moreover have "granules s2 g_rec\<lparr>g_state := GRANULE_STATE_DELEGATED\<rparr> = granules s g_rec"
      using both(6) by (simp add: s2 granule.equality)
    then have "same_state s (fin GRANULE_STATE_DELEGATED s2)"
      using gl slots by (simp add: same_state_def fin s2 fun_upd_twist)
    ultimately show ?thesis using error rejected(2) by blast
  next
    case (accepted rec)
    let ?rd = "(rec_params_measure hash rd p)\<lparr>rd_rec_count := rd_rec_count rd + 1\<rparr>"
    let ?t = "atomic_granule_get g_rd (set_content g_rec (CRec rec) (set_rd g_rd ?rd s2))"
    have u: "unlocked_ok ?t g_rd" "granule_assert_unlocked_invariants GRANULE_STATE_REC (grc ?t g_rec)"
      using rc both(5,7) by (simp_all add: unlocked_ok_def s2 atomic_granule_get_def set_rd_def)
    have "rec_create_locked ar hash rec_addr rd_addr p aux s
        = Some (RMI_SUCCESS, fin GRANULE_STATE_REC ?t)"
      using run [OF u] by (simp add: cmd accepted(1))
    moreover have "rec_stored g_rec g_rd ?rd rec s (fin GRANULE_STATE_REC ?t)"
      using gl slots both(5)
      by (simp add: rec_stored_def fin s2 atomic_granule_get_def set_rd_def fun_upd_twist)
    moreover have "rec_pair rec_addr rd_addr s g_rec g_rd"
      using both(3,4,6,7) by (simp add: rec_pair_def)
    ultimately show ?thesis using success rd(1) accepted(2,3) by blast
  qed
qed

section \<open>The cases of the command\<close>

text \<open>The arrays of the C structure have 8 and 16 elements.\<close>

definition rec_params_sized :: "rmi_rec_params \<Rightarrow> bool" where
  "rec_params_sized p \<longleftrightarrow> length (rp_gprs p) = 8 \<and> length (rp_aux p) = 16"

lemma aux_taken_locals:
  assumes inv: "inv_with lv par s0" and q: "quiet s0" and s: "aux_taken aux s0 s"
  shows "all_unlocked s" "\<forall>k. slots s k = None"
    "\<forall>g<RMM_MAX_GRANULES. gst s g = GRANULE_STATE_RD
        \<longrightarrow> (\<exists>rd. content s g = CRd rd \<and> s2_ctx_ok (rd_s2_ctx rd)
              \<and> s2_g_rtt (rd_s2_ctx rd) < RMM_MAX_GRANULES)"
    "\<forall>g<RMM_MAX_GRANULES. gst s g = GRANULE_STATE_DELEGATED \<longrightarrow> content s g = CZero"
proof -
  show "all_unlocked s" using aux_taken_unlocked [OF inv q s] by (simp add: all_unlocked_def)
  show "\<forall>k. slots s k = None" using q s by (simp add: aux_taken_def quiet_def)
  have st: "gst s g = (if g \<in> set aux then GRANULE_STATE_REC_AUX else gst s0 g)"
    "content s g = content s0 g" for g
    using s by (simp_all add: aux_taken_def states_set_def)
  show "\<forall>g<RMM_MAX_GRANULES. gst s g = GRANULE_STATE_DELEGATED \<longrightarrow> content s g = CZero"
    using inv_with_delegated [OF inv] by (auto simp: st split: if_splits)
  have "\<exists>rd. content s0 g = CRd rd \<and> s2_ctx_ok (rd_s2_ctx rd) \<and> s2_g_rtt (rd_s2_ctx rd) < RMM_MAX_GRANULES"
    if "g < RMM_MAX_GRANULES" "gst s0 g = GRANULE_STATE_RD" for g
  proof -
    from inv_with_rd [OF inv that] obtain rd where rd: "content s0 g = CRd rd" "s2_ctx_ok (rd_s2_ctx rd)"
      "\<forall>k < s2_root_rtts (rd_s2_ctx rd). s2_g_rtt (rd_s2_ctx rd) + k < RMM_MAX_GRANULES"
      by (auto simp: rd_ok_def)
    have "0 < s2_root_rtts (rd_s2_ctx rd)" using rd(2) by (auto simp: s2_ctx_ok_def split: if_splits)
    with rd(3) have "s2_g_rtt (rd_s2_ctx rd) + 0 < RMM_MAX_GRANULES" by blast
    with rd(1,2) show ?thesis by simp
  qed
  then show "\<forall>g<RMM_MAX_GRANULES. gst s g = GRANULE_STATE_RD
        \<longrightarrow> (\<exists>rd. content s g = CRd rd \<and> s2_ctx_ok (rd_s2_ctx rd)
              \<and> s2_g_rtt (rd_s2_ctx rd) < RMM_MAX_GRANULES)"
    by (auto simp: st split: if_splits)
qed

lemma smc_rec_create_cases:
  assumes inv: "inv_with lv par s" and q: "quiet s"
    and sized: "\<forall>p. mem = Some p \<longrightarrow> rec_params_sized p"
  obtains (error) ret s' where "smc_rec_create ar hash rec_addr rd_addr pa mem s = Some (ret, s')"
      "same_state s s'" "ret = RMI_ERROR_REALM \<or> ret = RMI_ERROR_INPUT"
    | (success) p aux g_rec g_rd rd rec s1 s' where
      "smc_rec_create ar hash rec_addr rd_addr pa mem s = Some (RMI_SUCCESS, s')" "mem = Some p"
      "map find_granule (take (unat (ucast (rp_num_aux p) :: u32)) (rp_aux p)) = map Some aux"
      "aux_taken aux s s1" "rec_pair rec_addr rd_addr s1 g_rec g_rd" "content s g_rd = CRd rd"
      "rec_params_accepted p aux rd" "new_rec_ok p aux g_rec g_rd rd rec"
      "rec_stored g_rec g_rd ((rec_params_measure hash rd p)\<lparr>rd_rec_count := rd_rec_count rd + 1\<rparr>)
         rec s1 s'"
proof -
  let ?cmd = "smc_rec_create ar hash rec_addr rd_addr pa mem s"
  let ?ok = "\<exists>g. find_granule pa = Some g \<and> gst s g = GRANULE_STATE_NS"
  show ?thesis
  proof (cases "if ?ok then mem else None")
    case None
    then have "?cmd = Some (RMI_ERROR_INPUT, s)"
      using q by (auto simp: smc_rec_create_def ns_buffer_read_eq find_granule_bound quiet_def
          split: option.splits if_splits)
    then show ?thesis using error by simp
  next
    case (Some p)
    then obtain g where g: "find_granule pa = Some g" "gst s g = GRANULE_STATE_NS" and mem: "mem = Some p"
      by (auto split: if_splits)
    have rd: "ns_buffer_read SLOT_NS g 0 4096 mem s = Some (Some p, s)"
      using q mem by (simp add: ns_buffer_read_eq find_granule_bound [OF g(1)] quiet_def)
    have sz: "length (rp_gprs p) = 8" "length (rp_aux p) = 16"
      using sized mem by (simp_all add: rec_params_sized_def)
    let ?n = "unat (ucast (rp_num_aux p) :: u32)"
    show ?thesis
    proof (cases "MAX_REC_AUX_GRANULES < ?n")
      case True
      then have "?cmd = Some (RMI_ERROR_INPUT, s)" by (simp add: smc_rec_create_def g rd)
      then show ?thesis using error by simp
    next
      case False
      from take_rec_aux_spec [OF inv q aux_taken_Nil, of "take ?n (rp_aux p)"]
      obtain ok aux s1 where t: "take_rec_aux (take ?n (rp_aux p)) [] s = Some ((ok, aux), s1)"
        "if ok then aux_taken aux s s1
                  \<and> (\<exists>new. aux = [] @ new \<and> map find_granule (take ?n (rp_aux p)) = map Some new)
         else same_state s s1" by blast
      show ?thesis
      proof (cases ok)
        case False
        then have "?cmd = Some (RMI_ERROR_INPUT, s1)"
          using \<open>\<not> MAX_REC_AUX_GRANULES < ?n\<close> t(1) by (simp add: smc_rec_create_def g rd)
        then show ?thesis using error t(2) False by simp
      next
        case True
        with t(2) have aux: "aux_taken aux s s1"
          "map find_granule (take ?n (rp_aux p)) = map Some aux" by simp_all
        have "length (map find_granule (take ?n (rp_aux p))) = length (map Some aux)"
          by (simp only: aux(2))
        then have len: "length aux = ?n" using False sz(2) by (simp add: MAX_REC_AUX_GRANULES_def)
        have run: "?cmd = do {
            (ret, s) \<leftarrow> rec_create_locked ar hash rec_addr rd_addr p aux s1;
            s \<leftarrow> (if ret \<noteq> RMI_SUCCESS then free_rec_aux_granules aux ?n False s else Some s);
            Some (ret, s) }"
          using False t(1) True by (simp add: smc_rec_create_def g rd)
        have c: "content s1 = content s" using aux(1) by (simp add: aux_taken_def)
        from aux_taken_locals [OF inv q aux(1)] sz(1) show ?thesis
        proof (cases rule: rec_create_locked_cases [where ar = ar and hash = hash
              and rec_addr = rec_addr and rd_addr = rd_addr and aux = aux])
          case l: (error ret s2)
          from aux_given_back [OF inv q aux_taken_same [OF aux(1) l(2)]] obtain s3 where
            "free_rec_aux_granules aux (length aux) False s2 = Some s3" "same_state s s3" by blast
          moreover have "ret \<noteq> RMI_SUCCESS" using l(3) by (auto simp: word_consts)
          ultimately have "?cmd = Some (ret, s3)" using run l(1) len by simp
          then show ?thesis using error l(3) \<open>same_state s s3\<close> by blast
        next
          case l: (success g_rec g_rd rd rec s')
          then have "?cmd = Some (RMI_SUCCESS, s')" using run by simp
          then show ?thesis using success mem aux l(2-6) unfolding c by blast
        qed
      qed
    qed
  qed
qed

section \<open>The invariant\<close>

text \<open>What the command does to the state, in one predicate.\<close>

definition rec_added ::
  "nat list \<Rightarrow> nat \<Rightarrow> nat \<Rightarrow> rd \<Rightarrow> rec \<Rightarrow> rmm \<Rightarrow> rmm \<Rightarrow> bool" where
  "rec_added aux g_rec g_rd rd rec s s' \<longleftrightarrow>
     (\<forall>x. gst s' x = (if x = g_rec then GRANULE_STATE_REC
                     else if x \<in> set aux then GRANULE_STATE_REC_AUX else gst s x)
        \<and> grc s' x = (if x = g_rd then grc s x + 1 else grc s x))
   \<and> content s' = (content s)(g_rd := CRd rd, g_rec := CRec rec)
   \<and> glock s' = glock s \<and> slots s' = slots s \<and> vmids s' = vmids s"

lemma rec_added_pair:
  assumes aux: "aux_taken aux s s1" and pair: "rec_pair rec_addr rd_addr s1 g_rec g_rd"
    and st: "rec_stored g_rec g_rd rd rec s1 s'"
  shows "rec_added aux g_rec g_rd rd rec s s'" "g_rec \<notin> set aux" "g_rd \<notin> set aux" "g_rec \<noteq> g_rd"
    "gst s g_rec = GRANULE_STATE_DELEGATED" "gst s g_rd = GRANULE_STATE_RD"
    "g_rec < RMM_MAX_GRANULES" "g_rd < RMM_MAX_GRANULES"
proof -
  show *: "g_rec \<notin> set aux" "g_rd \<notin> set aux" "g_rec \<noteq> g_rd"
    "gst s g_rec = GRANULE_STATE_DELEGATED" "gst s g_rd = GRANULE_STATE_RD"
    using aux pair by (auto simp: rec_pair_def aux_taken_def states_set_def split: if_splits)
  show "g_rec < RMM_MAX_GRANULES" "g_rd < RMM_MAX_GRANULES"
    using pair find_granule_bound by (auto simp: rec_pair_def)
  show "rec_added aux g_rec g_rd rd rec s s'"
    using aux st * by (auto simp: rec_added_def rec_stored_def aux_taken_def states_set_def)
qed

lemma rec_added_links:
  assumes inv: "inv_with lv par s" and add: "rec_added aux g_rec g_rd rd' rec s s'"
    and new: "g_rec \<notin> set aux" "g_rec \<noteq> g_rd" "gst s g_rec = GRANULE_STATE_DELEGATED"
      "gst s g_rd = GRANULE_STATE_RD" "g_rec < RMM_MAX_GRANULES" "g_rd < RMM_MAX_GRANULES"
    and aux: "\<forall>a\<in>set aux. gst s a = GRANULE_STATE_DELEGATED"
    and rd: "content s g_rd = CRd rd" "rd_s2_ctx rd' = rd_s2_ctx rd"
    and rec: "ri_g_rd (rec_realm_info rec) = g_rd" "info_matches (rec_realm_info rec) (rd_s2_ctx rd)"
  shows "links_ok s'"
proof -
  have lk: "links_ok s" using inv by (simp add: inv_with_def)
  have st: "gst s' x = (if x = g_rec then GRANULE_STATE_REC
      else if x \<in> set aux then GRANULE_STATE_REC_AUX else gst s x)"
    and rc: "grc s' x = (if x = g_rd then grc s x + 1 else grc s x)" for x
    using add by (simp_all add: rec_added_def)
  have co: "content s' = (content s)(g_rd := CRd rd', g_rec := CRec rec)"
    using add by (simp add: rec_added_def)
  have isrec: "gst s' x = GRANULE_STATE_REC \<longleftrightarrow> x = g_rec \<or> gst s x = GRANULE_STATE_REC" for x
    using aux by (auto simp: st)
  have isrd: "gst s' x = GRANULE_STATE_RD \<longleftrightarrow> gst s x = GRANULE_STATE_RD" for x
    using aux new(3) by (auto simp: st)
  have old: "content s' x = content s x" if "gst s x = GRANULE_STATE_REC" for x
    using that new(3,4) by (auto simp: co)
  have notin: "g_rec \<notin> recs_of s y" for y using new(3) by (simp add: recs_of_def)
  have mem: "r \<in> recs_of s' y \<longleftrightarrow> r = g_rec \<and> y = g_rd \<or> r \<in> recs_of s y" for r y
  proof (cases "r = g_rec")
    case True
    then show ?thesis using new(5) rec(1) notin by (auto simp: recs_of_def isrec co)
  next
    case False
    then show ?thesis
      by (cases "gst s r = GRANULE_STATE_REC") (simp_all add: recs_of_def isrec old)
  qed
  have recs: "recs_of s' y = (if y = g_rd then insert g_rec (recs_of s y) else recs_of s y)" for y
    using mem by auto
  have fin: "finite (recs_of s y)" for y
    by (rule finite_subset [of _ "{..<RMM_MAX_GRANULES}"]) (auto simp: recs_of_def)
  show ?thesis
    unfolding links_ok_def
  proof (intro allI impI conjI)
    fix x assume x: "x < RMM_MAX_GRANULES" and "gst s' x = GRANULE_STATE_REC"
    then consider "x = g_rec" | "x \<noteq> g_rec" "gst s x = GRANULE_STATE_REC" by (auto simp: isrec)
    then show "rec_linked s' x"
    proof cases
      case 1
      then show ?thesis using rec rd new isrd [of g_rd] by (simp add: rec_linked_def co)
    next
      case 2
      then have "rec_linked s x" using lk x by (simp add: links_ok_def)
      then show ?thesis using 2 old [of x] rd new(3)
        by (auto simp: rec_linked_def isrd co)
    qed
  next
    fix x assume x: "x < RMM_MAX_GRANULES" and "gst s' x = GRANULE_STATE_RD"
    then have "grc s x = of_nat (card (recs_of s x))" using lk by (simp add: isrd links_ok_def)
    then show "grc s' x = of_nat (card (recs_of s' x))"
      using fin notin by (auto simp: rc recs)
  qed
qed

lemma rec_added_inv:
  assumes inv: "inv_with lv par s" and add: "rec_added aux g_rec g_rd rd' rec s s'"
    and new: "g_rec \<notin> set aux" "g_rec \<noteq> g_rd" "gst s g_rec = GRANULE_STATE_DELEGATED"
      "gst s g_rd = GRANULE_STATE_RD" "g_rec < RMM_MAX_GRANULES" "g_rd < RMM_MAX_GRANULES"
    and aux: "distinct aux" "\<forall>a\<in>set aux. a < RMM_MAX_GRANULES \<and> gst s a = GRANULE_STATE_DELEGATED"
      "length aux \<le> 16"
    and rd: "content s g_rd = CRd rd" "rd_s2_ctx rd' = rd_s2_ctx rd"
      "length (rd_measurement rd') = length (rd_measurement rd)"
    and rec: "new_rec_ok p aux g_rec g_rd rd rec" "length (rp_gprs p) = 8"
  shows "inv s'"
proof -
  define par' where "par' = (\<lambda>x. if x \<in> set aux then RecOwner g_rec else par x)"
  have st: "gst s' x = (if x = g_rec then GRANULE_STATE_REC
      else if x \<in> set aux then GRANULE_STATE_REC_AUX else gst s x)"
    and rc: "grc s' x = (if x = g_rd then grc s x + 1 else grc s x)" for x
    using add by (simp_all add: rec_added_def)
  have co: "content s' = (content s)(g_rd := CRd rd', g_rec := CRec rec)"
    using add by (simp add: rec_added_def)
  have r: "rec_g_rec rec = g_rec" "length (rec_regs rec) = 31" "rec_g_aux rec = aux"
    "rec_num_rec_aux rec = length aux" "ri_g_rd (rec_realm_info rec) = g_rd"
    "info_matches (rec_realm_info rec) (rd_s2_ctx rd)"
    using rec by (simp_all add: new_rec_ok_def)
  have nrd: "g_rd \<notin> set aux" using aux(2) new(4) by auto
  have rc0: "grc s x = 0" if "x = g_rec \<or> x \<in> set aux" for x
    using that delegated_rc [OF inv] new aux(2) by blast
  have kept: "kept lv par s lv par' s' d" if "owned_state (gst s d)" for d
  proof -
    have "d \<noteq> g_rec" "d \<notin> set aux" using that new(3) aux(2) by fastforce+
    then show ?thesis by (simp add: kept_def st par'_def)
  qed
  have "inv_with lv par' s'"
  proof (rule inv_with_step [OF inv, where T = "{g_rec, g_rd} \<union> set aux"])
    show "links_ok s'"
      by (rule rec_added_links [OF inv add new _ rd(1,2) r(5,6)]) (use aux(2) in blast)
  next
    fix x assume x: "x \<notin> {g_rec, g_rd} \<union> set aux"
    then have "granules s' x = granules s x"
      by (intro granule.equality) (simp_all add: st rc)
    then show "granules s' x = granules s x \<and> content s' x = content s x \<and> lv x = lv x"
      using x by (simp add: co)
  next
    fix d assume "owned_state (gst s d)"
    then show "kept lv par s lv par' s' d" by (rule kept)
  next
    fix x assume "x \<in> {g_rec, g_rd} \<union> set aux" and b: "x < RMM_MAX_GRANULES"
    then consider "x = g_rec" | "x = g_rd" "x \<noteq> g_rec" | "x \<in> set aux" "x \<noteq> g_rec" "x \<noteq> g_rd"
      by blast
    then show "granule_ok lv par' s' x"
    proof cases
      case 1
      have "rec_ok par' s' g_rec"
        using r aux new(1) by (auto simp: rec_ok_def co par'_def st)
      then show ?thesis using 1 rc0 [of g_rec] new(2)
        by (simp add: granule_ok_def unlocked_ok_def st rc)
    next
      case 2
      have "rd_ok lv par s g_rd" using inv_with_rd [OF inv new(6,4)] .
      then obtain ctx: "s2_ctx_ok (rd_s2_ctx rd)" and m: "length (rd_measurement rd) = 5"
        and tb: "\<And>k. k < s2_root_rtts (rd_s2_ctx rd) \<Longrightarrow>
            s2_g_rtt (rd_s2_ctx rd) + k < RMM_MAX_GRANULES
          \<and> gst s (s2_g_rtt (rd_s2_ctx rd) + k) = GRANULE_STATE_RTT
          \<and> lv (s2_g_rtt (rd_s2_ctx rd) + k) = s2_starting_level (rd_s2_ctx rd)
          \<and> par (s2_g_rtt (rd_s2_ctx rd) + k) = RdOwner g_rd"
        using rd(1) by (auto simp: rd_ok_def)
      have "rd_ok lv par' s' g_rd"
        unfolding rd_ok_def
      proof (intro exI conjI allI impI)
        show "content s' g_rd = CRd rd'" using new(2) by (simp add: co)
        show "s2_ctx_ok (rd_s2_ctx rd')" "length (rd_measurement rd') = 5"
          using ctx m rd(2,3) by simp_all
        fix k assume "k < s2_root_rtts (rd_s2_ctx rd')"
        then have t: "s2_g_rtt (rd_s2_ctx rd) + k < RMM_MAX_GRANULES"
          "gst s (s2_g_rtt (rd_s2_ctx rd) + k) = GRANULE_STATE_RTT"
          "lv (s2_g_rtt (rd_s2_ctx rd) + k) = s2_starting_level (rd_s2_ctx rd)"
          "par (s2_g_rtt (rd_s2_ctx rd) + k) = RdOwner g_rd"
          using tb rd(2) by simp_all
        have kp: "kept lv par s lv par' s' (s2_g_rtt (rd_s2_ctx rd) + k)" by (rule kept) (simp add: t(2))
        show "s2_g_rtt (rd_s2_ctx rd') + k < RMM_MAX_GRANULES"
          "gst s' (s2_g_rtt (rd_s2_ctx rd') + k) = GRANULE_STATE_RTT"
          "lv (s2_g_rtt (rd_s2_ctx rd') + k) = s2_starting_level (rd_s2_ctx rd')"
          "par' (s2_g_rtt (rd_s2_ctx rd') + k) = RdOwner g_rd"
          using kp t by (simp_all add: kept_def rd(2))
      qed
      then show ?thesis using 2 new(4) nrd by (simp add: granule_ok_def unlocked_ok_def st)
    next
      case 3
      then show ?thesis using rc0 [of x] by (simp add: granule_ok_def unlocked_ok_def st rc)
    qed
  qed
  then show ?thesis by (rule inv_defI)
qed

lemma smc_rec_create_safe:
  assumes "inv s" and q: "quiet s" and sized: "\<forall>p. mem = Some p \<longrightarrow> rec_params_sized p"
  shows "case smc_rec_create ar hash rec_addr rd_addr pa mem s of
      None \<Rightarrow> False | Some (ret, s') \<Rightarrow> inv s' \<and> quiet s'"
proof -
  from assms obtain lv par where inv: "inv_with lv par s" by (auto simp: inv_def)
  from inv q sized show ?thesis
  proof (cases rule: smc_rec_create_cases [where ar = ar and hash = hash
        and rec_addr = rec_addr and rd_addr = rd_addr and pa = pa])
    case (error ret s')
    then show ?thesis using assms inv_cong quiet_cong by auto
  next
    case (success p aux g_rec g_rd rd rec s1 s')
    note a = rec_added_pair [OF success(4,5,9)]
    have sz: "length (rp_gprs p) = 8" "length (rp_aux p) = 16"
      using sized success(2) by (simp_all add: rec_params_sized_def)
    have "length (map find_granule (take (unat (ucast (rp_num_aux p) :: u32)) (rp_aux p)))
        = length (map Some aux)" by (simp only: success(3))
    then have len: "length aux \<le> 16" using sz(2) by simp
    have tk: "distinct aux" "\<forall>x\<in>set aux. x < RMM_MAX_GRANULES \<and> gst s x = GRANULE_STATE_DELEGATED"
      using success(4) by (simp_all add: aux_taken_def)
    have "inv s'"
      by (rule rec_added_inv [OF inv a(1,2,4-8) tk len success(6) _ _ success(8) sz(1)]) simp_all
    then show ?thesis using success(1) a(1) q by (simp add: quiet_def rec_added_def)
  qed
qed

end
