(* ===== verification/Rec_Destroy_Correct.thy ===== *)
theory Rec_Destroy_Correct
  imports Rec_Create_Correct
begin

text \<open>
  Rec.Destroy and Rec.AuxCount.  A REC that runs is not destroyed; otherwise its
  granules, the auxiliary ones included, are zeroed and delegated again and the realm
  forgets it.
\<close>

section \<open>The cases of Rec.Destroy\<close>

definition rec_removed :: "nat list \<Rightarrow> nat \<Rightarrow> nat \<Rightarrow> rmm \<Rightarrow> rmm \<Rightarrow> bool" where
  "rec_removed aux g_rec g_rd s s' \<longleftrightarrow>
     (\<forall>x. gst s' x = (if x = g_rec \<or> x \<in> set aux then GRANULE_STATE_DELEGATED else gst s x)
        \<and> grc s' x = (if x = g_rd then grc s x - 1 else grc s x))
   \<and> content s' = (zeroed (\<lambda>x. x \<in> set aux) (content s))(g_rec := CZero)
   \<and> glock s' = glock s \<and> slots s' = slots s \<and> vmids s' = vmids s"

lemma inv_with_rec:
  assumes "inv_with lv par s" and "g < RMM_MAX_GRANULES" and "gst s g = GRANULE_STATE_REC"
  shows "rec_ok par s g"
  using inv_with_granule [OF assms(1,2)] assms(3) by (simp add: granule_ok_def)

lemma inv_with_rec_linked:
  assumes "inv_with lv par s" and "g < RMM_MAX_GRANULES" and "gst s g = GRANULE_STATE_REC"
    and "content s g = CRec rec"
  shows "ri_g_rd (rec_realm_info rec) < RMM_MAX_GRANULES"
    "gst s (ri_g_rd (rec_realm_info rec)) = GRANULE_STATE_RD"
  using assms by (auto simp: inv_with_def links_ok_def rec_linked_def)

lemma smc_rec_destroy_cases:
  assumes inv: "inv_with lv par s" and q: "quiet s"
  obtains (error) ret s' where "smc_rec_destroy rec_addr s = Some (ret, s')" "same_state s s'"
      "ret = RMI_ERROR_INPUT \<and> \<not> (\<exists>g. find_granule rec_addr = Some g \<and> gst s g = GRANULE_STATE_REC)
       \<or> ret = RMI_ERROR_IN_USE
         \<and> (\<exists>g. find_granule rec_addr = Some g \<and> gst s g = GRANULE_STATE_REC \<and> grc s g \<noteq> 0)"
    | (success) g rec s' where "smc_rec_destroy rec_addr s = Some (RMI_SUCCESS, s')"
      "find_granule rec_addr = Some g" "gst s g = GRANULE_STATE_REC" "grc s g = 0"
      "content s g = CRec rec" "rec_removed (rec_g_aux rec) g (ri_g_rd (rec_realm_info rec)) s s'"
  using q inv
proof (cases rule: find_lock_unused_quiet_cases [where addr = rec_addr and st = GRANULE_STATE_REC])
  case (none ret s')
  then have "smc_rec_destroy rec_addr s = Some (ret, s')" by (simp add: smc_rec_destroy_def)
  then show ?thesis using error none(2,3) by blast
next
  case (found g)
  from inv_with_rec [OF inv found(4,3)] obtain rec where
    rec: "content s g = CRec rec" and n: "rec_num_rec_aux rec = length (rec_g_aux rec)"
      "length (rec_g_aux rec) \<le> 16" "distinct (rec_g_aux rec)"
    and aux: "\<And>a. a \<in> set (rec_g_aux rec) \<Longrightarrow> a < RMM_MAX_GRANULES
        \<and> gst s a = GRANULE_STATE_REC_AUX \<and> par a = RecOwner g"
    by (auto simp: rec_ok_def)
  let ?aux = "rec_g_aux rec" and ?rd = "ri_g_rd (rec_realm_info rec)"
  note rd = inv_with_rec_linked [OF inv found(4,3) rec]
  let ?s1 = "map_slot SLOT_REC g (lock_g g GRANULE_STATE_REC s)"
  have m: "granule_map g SLOT_REC (lock_g g GRANULE_STATE_REC s) = Some ?s1"
    using found(4) q by (simp add: granule_map_eq quiet_def)
  have ng: "a \<noteq> g" if "a \<in> set ?aux" for a using aux [OF that] found(3) by auto
  have "grc s a = 0" if "a \<in> set ?aux" for a
    using inv_with_unlocked [OF inv, of a] aux [OF that] by (simp add: unlocked_ok_def)
  then have row: "aux_row ?s1 ?aux"
    using n(3) aux ng q by (auto simp: aux_row_def quiet_def)
  have sl: "slots ?s1 (SLOT_REC_AUX0 + k) = None" if "0 \<le> k" for k
    using q by (simp add: quiet_def word_consts)
  from free_rec_aux_loop_spec [where scrub = True and i = 0, OF row _ sl] n(2) obtain s2 where
    f: "free_rec_aux_granules ?aux (rec_num_rec_aux rec) True ?s1 = Some s2"
    "granules s2 = states_set (\<lambda>x. x \<in> set ?aux) GRANULE_STATE_DELEGATED (granules s)"
    "content s2 = zeroed (\<lambda>x. x \<in> set ?aux) (content s)"
    "glock s2 = (glock s)(g := True)" "slots s2 = (slots s)(SLOT_REC := Some g)" "vmids s2 = vmids s"
    by (auto simp: free_rec_aux_granules_def n(1))
  have g2: "granules s2 g = granules s g" using ng by (auto simp: f(2) states_set_def)
  let ?s3 = "buffer_unmap SLOT_REC (granule_memzero_mapped g s2)"
  let ?s4 = "spinlock_release g (granule_set_state g GRANULE_STATE_DELEGATED ?s3)"
  have ut: "granule_unlock_transition g GRANULE_STATE_DELEGATED ?s3 = Some ?s4"
    using found(5) by (simp add: granule_unlock_transition_def granule_unlock_def g2)
  have "smc_rec_destroy rec_addr s = Some (RMI_SUCCESS, atomic_granule_put ?rd ?s4)"
    by (simp add: smc_rec_destroy_def found(1) m rec f(1) ut)
  moreover have "rec_removed ?aux g ?rd s (atomic_granule_put ?rd ?s4)"
    using q rd(2) found(3)
    by (auto simp: rec_removed_def atomic_granule_put_def f g2 states_set_def quiet_def fun_eq_iff)
  ultimately show ?thesis using success found(2,3,5) rec by blast
qed

section \<open>The invariant\<close>

lemma rec_removed_inv:
  assumes inv: "inv_with lv par s" and g: "g < RMM_MAX_GRANULES" "gst s g = GRANULE_STATE_REC"
      "grc s g = 0"
    and rec: "content s g = CRec rec"
    and s': "rec_removed (rec_g_aux rec) g (ri_g_rd (rec_realm_info rec)) s s'"
  shows "inv_with lv par s'"
proof -
  let ?aux = "rec_g_aux rec" and ?rd = "ri_g_rd (rec_realm_info rec)"
  note rd = inv_with_rec_linked [OF inv g(1,2) rec]
  have st: "gst s' x = (if x = g \<or> x \<in> set ?aux then GRANULE_STATE_DELEGATED else gst s x)"
    and rc: "grc s' x = (if x = ?rd then grc s x - 1 else grc s x)" for x
    using s' by (simp_all add: rec_removed_def)
  have co: "content s' = (zeroed (\<lambda>x. x \<in> set ?aux) (content s))(g := CZero)"
    using s' by (simp add: rec_removed_def)
  have aux: "a < RMM_MAX_GRANULES \<and> gst s a = GRANULE_STATE_REC_AUX \<and> par a = RecOwner g"
    if "a \<in> set ?aux" for a
    using inv_with_rec [OF inv g(1,2)] rec that by (auto simp: rec_ok_def)
  have arc: "grc s a = 0" if "a \<in> set ?aux" for a
    using inv_with_unlocked [OF inv, of a] aux [OF that] by (simp add: unlocked_ok_def)
  have isrec: "gst s' x = GRANULE_STATE_REC \<longleftrightarrow> x \<noteq> g \<and> gst s x = GRANULE_STATE_REC"
    and isrd: "gst s' x = GRANULE_STATE_RD \<longleftrightarrow> gst s x = GRANULE_STATE_RD" for x
    using aux [of x] g(2) by (auto simp: st)
  have old: "content s' x = content s x" if "gst s x = GRANULE_STATE_REC \<and> x \<noteq> g \<or> gst s x = GRANULE_STATE_RD" for x
    using that aux [of x] g(2) by (auto simp: co zeroed_def)
  have mem: "r \<in> recs_of s' y \<longleftrightarrow> r \<noteq> g \<and> r \<in> recs_of s y" for r y
    by (cases "r \<noteq> g \<and> gst s r = GRANULE_STATE_REC") (auto simp: recs_of_def isrec old)
  then have recs: "recs_of s' y = recs_of s y - {g}" for y by auto
  have gin: "g \<in> recs_of s y \<longleftrightarrow> y = ?rd" for y using g rec by (auto simp: recs_of_def)
  have fin: "finite (recs_of s y)" for y
    by (rule finite_subset [of _ "{..<RMM_MAX_GRANULES}"]) (auto simp: recs_of_def)
  have lk: "links_ok s" using inv by (simp add: inv_with_def)
  have links: "links_ok s'"
    unfolding links_ok_def
  proof (intro allI impI conjI)
    fix x assume x: "x < RMM_MAX_GRANULES" and "gst s' x = GRANULE_STATE_REC"
    then have r: "x \<noteq> g" "gst s x = GRANULE_STATE_REC" by (simp_all add: isrec)
    then have l: "rec_linked s x" using lk x by (simp add: links_ok_def)
    show "rec_linked s' x"
      unfolding rec_linked_def
    proof (intro allI impI)
      fix r' assume "content s' x = CRec r'"
      then have "content s x = CRec r'" using old [of x] r by simp
      with l have "ri_g_rd (rec_realm_info r') < RMM_MAX_GRANULES"
        "gst s (ri_g_rd (rec_realm_info r')) = GRANULE_STATE_RD"
        "\<forall>rd. content s (ri_g_rd (rec_realm_info r')) = CRd rd
           \<longrightarrow> info_matches (rec_realm_info r') (rd_s2_ctx rd)" by (simp_all add: rec_linked_def)
      then show "ri_g_rd (rec_realm_info r') < RMM_MAX_GRANULES
          \<and> gst s' (ri_g_rd (rec_realm_info r')) = GRANULE_STATE_RD
          \<and> (\<forall>rd. content s' (ri_g_rd (rec_realm_info r')) = CRd rd
               \<longrightarrow> info_matches (rec_realm_info r') (rd_s2_ctx rd))"
        using old [of "ri_g_rd (rec_realm_info r')"] by (simp add: isrd)
    qed
  next
    fix x assume x: "x < RMM_MAX_GRANULES" and "gst s' x = GRANULE_STATE_RD"
    then have c: "grc s x = of_nat (card (recs_of s x))" using lk by (simp add: isrd links_ok_def)
    show "grc s' x = of_nat (card (recs_of s' x))"
    proof (cases "x = ?rd")
      case True
      then have "g \<in> recs_of s x" using gin by blast
      then have "card (recs_of s x) = Suc (card (recs_of s' x))"
        unfolding recs by (rule card.remove [OF fin])
      then show ?thesis using True c by (simp add: rc)
    next
      case False
      then have "recs_of s' x = recs_of s x" using gin by (auto simp: recs)
      then show ?thesis using False c by (simp add: rc)
    qed
  qed
  show ?thesis
  proof (rule inv_with_step [OF inv links, where T = "{g, ?rd} \<union> set ?aux"])
    fix x assume x: "x \<notin> {g, ?rd} \<union> set ?aux"
    then have "granules s' x = granules s x" by (intro granule.equality) (simp_all add: st rc)
    then show "granules s' x = granules s x \<and> content s' x = content s x \<and> lv x = lv x"
      using x by (simp add: co zeroed_def)
  next
    fix x d assume x: "x \<notin> {g, ?rd} \<union> set ?aux" and d: "owned_state (gst s d)"
      "owner_granule (par d) = Some x"
    have "d \<noteq> g" using d(1) g(2) by auto
    moreover have "d \<notin> set ?aux" using aux [of d] x d(2) by auto
    ultimately show "kept lv par s lv par s' d" by (simp add: kept_def st)
  next
    fix x assume "x \<in> {g, ?rd} \<union> set ?aux" and b: "x < RMM_MAX_GRANULES"
    then consider "x = ?rd" | "x \<noteq> ?rd" "x = g \<or> x \<in> set ?aux" by blast
    then show "granule_ok lv par s' x"
    proof cases
      case 1
      have nx: "\<not> (?rd = g \<or> ?rd \<in> set ?aux)" using rd(2) g(2) aux [of ?rd] by auto
      have "rd_ok lv par s' ?rd"
      proof (rule rd_ok_frame [OF inv_with_rd [OF inv rd]])
        show "content s' ?rd = content s ?rd" using old rd(2) by blast
        fix d assume d: "owned_state (gst s d)" "par d = RdOwner ?rd"
        have "d \<noteq> g" using d(1) g(2) by auto
        moreover have "d \<notin> set ?aux" using aux [of d] d(2) by auto
        ultimately show "kept lv par s lv par s' d" by (simp add: kept_def st)
      qed
      then show ?thesis using 1 rd(2) nx by (simp add: granule_ok_def unlocked_ok_def st)
    next
      case 2
      then have "grc s x = 0" using g(3) arc by blast
      then show ?thesis using 2
        by (auto simp: granule_ok_def unlocked_ok_def st rc co zeroed_def)
    qed
  qed
qed

lemma smc_rec_destroy_safe:
  assumes "inv s" and q: "quiet s"
  shows "case smc_rec_destroy rec_addr s of
      None \<Rightarrow> False | Some (ret, s') \<Rightarrow> inv s' \<and> quiet s'"
proof -
  from assms obtain lv par where inv: "inv_with lv par s" by (auto simp: inv_def)
  from inv q show ?thesis
  proof (cases rule: smc_rec_destroy_cases [where rec_addr = rec_addr])
    case (error ret s')
    then show ?thesis using assms inv_cong quiet_cong by auto
  next
    case (success g rec s')
    have "inv_with lv par s'"
      by (rule rec_removed_inv [OF inv find_granule_bound [OF success(2)] success(3-6)])
    then show ?thesis using success(1,6) q by (auto simp: quiet_def rec_removed_def inv_def)
  qed
qed

section \<open>Rec.AuxCount\<close>

lemma smc_rec_aux_count_cases:
  assumes inv: "inv_with lv par s" and q: "quiet s"
  obtains (error) s' where "smc_rec_aux_count rd_addr ret s = Some (ret[0 := RMI_ERROR_INPUT], s')"
      "same_state s s'" "\<not> (\<exists>g. find_granule rd_addr = Some g \<and> gst s g = GRANULE_STATE_RD)"
    | (success) g rd s' where
      "smc_rec_aux_count rd_addr ret s
         = Some (ret[0 := RMI_SUCCESS, 1 := of_nat (rd_num_rec_aux rd)], s')"
      "same_state s s'" "find_granule rd_addr = Some g" "content s g = CRd rd"
  using q inv
proof (cases rule: find_lock_quiet_cases [where addr = rd_addr and st = GRANULE_STATE_RD])
  case (none s')
  then show ?thesis using error by (simp add: smc_rec_aux_count_def)
next
  case (found g)
  from inv_with_rd [OF inv found(4,3)] obtain rd where rd: "content s g = CRd rd"
    by (auto simp: rd_ok_def)
  let ?s1 = "map_slot SLOT_RD g (lock_g g GRANULE_STATE_RD s)"
  have m: "granule_map g SLOT_RD (lock_g g GRANULE_STATE_RD s) = Some ?s1"
    using found(4) q by (simp add: granule_map_eq quiet_def)
  have ul: "granule_unlock g (buffer_unmap SLOT_RD ?s1)
      = Some (spinlock_release g (buffer_unmap SLOT_RD ?s1))"
    by (rule granule_unlock_eq [OF inv_with_unlocked_state [OF inv _ found(4)]]) simp
  have "smc_rec_aux_count rd_addr ret s = Some (ret[0 := RMI_SUCCESS, 1 := of_nat (rd_num_rec_aux rd)],
      spinlock_release g (buffer_unmap SLOT_RD ?s1))"
    by (simp add: smc_rec_aux_count_def found(1) m rd ul)
  moreover have "same_state s (spinlock_release g (buffer_unmap SLOT_RD ?s1))"
    using q by (auto simp: same_state_def quiet_def fun_eq_iff)
  ultimately show ?thesis using success found(2) rd by blast
qed

lemma smc_rec_aux_count_safe:
  assumes "inv s" and q: "quiet s"
  shows "case smc_rec_aux_count rd_addr ret s of
      None \<Rightarrow> False | Some (r, s') \<Rightarrow> inv s' \<and> quiet s' \<and> same_state s s'"
proof -
  from assms obtain lv par where inv: "inv_with lv par s" by (auto simp: inv_def)
  from inv q show ?thesis
    by (cases rule: smc_rec_aux_count_cases [where rd_addr = rd_addr and ret = ret])
      (use assms inv_cong quiet_cong in auto)
qed

end
