(* ===== verification/Psci.thy ===== *)
theory Psci
  imports Rec_Cmds
begin

text \<open>
  The PSCI calls of a realm (runtime/rsi/psci.c) and the command by which the host
  completes them, \<^verbatim>\<open>smc_psci_complete\<close> of runtime/rmi/rec.c.
\<close>

section \<open>Function identifiers and return codes\<close>

definition SMC32_PSCI_VERSION :: u64 where [word_consts]: "SMC32_PSCI_VERSION = 0x84000000"
definition SMC32_PSCI_CPU_SUSPEND :: u64 where
  [word_consts]: "SMC32_PSCI_CPU_SUSPEND = 0x84000001"
definition SMC64_PSCI_CPU_SUSPEND :: u64 where
  [word_consts]: "SMC64_PSCI_CPU_SUSPEND = 0xC4000001"
definition SMC32_PSCI_CPU_OFF :: u64 where [word_consts]: "SMC32_PSCI_CPU_OFF = 0x84000002"
definition SMC32_PSCI_CPU_ON :: u64 where [word_consts]: "SMC32_PSCI_CPU_ON = 0x84000003"
definition SMC64_PSCI_CPU_ON :: u64 where [word_consts]: "SMC64_PSCI_CPU_ON = 0xC4000003"
definition SMC32_PSCI_AFFINITY_INFO :: u64 where
  [word_consts]: "SMC32_PSCI_AFFINITY_INFO = 0x84000004"
definition SMC64_PSCI_AFFINITY_INFO :: u64 where
  [word_consts]: "SMC64_PSCI_AFFINITY_INFO = 0xC4000004"
definition SMC32_PSCI_SYSTEM_OFF :: u64 where
  [word_consts]: "SMC32_PSCI_SYSTEM_OFF = 0x84000008"
definition SMC32_PSCI_SYSTEM_RESET :: u64 where
  [word_consts]: "SMC32_PSCI_SYSTEM_RESET = 0x84000009"
definition SMC32_PSCI_FEATURES :: u64 where [word_consts]: "SMC32_PSCI_FEATURES = 0x8400000A"
definition SMCCC_VERSION :: u64 where [word_consts]: "SMCCC_VERSION = 0x80000000"

definition PSCI_RETURN_SUCCESS :: u64 where [word_consts]: "PSCI_RETURN_SUCCESS = 0"
definition PSCI_RETURN_NOT_SUPPORTED :: u64 where
  [word_consts]: "PSCI_RETURN_NOT_SUPPORTED = - 1"
definition PSCI_RETURN_INVALID_PARAMS :: u64 where
  [word_consts]: "PSCI_RETURN_INVALID_PARAMS = - 2"
definition PSCI_RETURN_ALREADY_ON :: u64 where [word_consts]: "PSCI_RETURN_ALREADY_ON = - 4"
definition PSCI_RETURN_INVALID_ADDRESS :: u64 where
  [word_consts]: "PSCI_RETURN_INVALID_ADDRESS = - 9"
definition PSCI_AFFINITY_INFO_ON :: u64 where [word_consts]: "PSCI_AFFINITY_INFO_ON = 0"
definition PSCI_AFFINITY_INFO_OFF :: u64 where [word_consts]: "PSCI_AFFINITY_INFO_OFF = 1"

section \<open>Calls of the realm\<close>

text \<open>
  \<^verbatim>\<open>struct psci_result\<close>: of the forwarded registers only x1 is ever set, of the result
  registers only x0; \<open>psci_rest\<close> are the result registers x1 to x3.  The REC is the one that runs; its structure is passed and returned.
\<close>

record psci_result =
  forward_psci_call :: bool
  forward_x1 :: u64
  psci_x0 :: u64
  psci_rest :: "u64 list"

definition psci_zero :: psci_result where
  "psci_zero = \<lparr>forward_psci_call = False, forward_x1 = 0, psci_x0 = 0,
     psci_rest = [0, 0, 0]\<rparr>"

definition psci_version :: psci_result where
  "psci_version = psci_zero\<lparr>psci_x0 := 0x10001\<rparr>"

definition psci_cpu_suspend :: psci_result where
  "psci_cpu_suspend = psci_zero\<lparr>forward_psci_call := True, psci_x0 := PSCI_RETURN_SUCCESS\<rparr>"

definition psci_cpu_off :: "rec \<Rightarrow> psci_result \<times> rec" where
  "psci_cpu_off rec =
     (psci_zero\<lparr>forward_psci_call := True, psci_x0 := PSCI_RETURN_SUCCESS\<rparr>,
      rec\<lparr>rec_runnable := False\<rparr>)"

definition psci_reset_rec :: "rec \<Rightarrow> u64 \<Rightarrow> rec" where
  "psci_reset_rec rec caller_sctlr_el1 =
     rec\<lparr>rec_pstate := REALM_PSTATE,
         rec_sysregs := (rec_sysregs rec)
           \<lparr>sctlr_el1 := SCTLR_EL1_FLAGS OR (caller_sctlr_el1 AND SCTLR_EL1_EE)\<rparr>\<rparr>"

definition rd_map_read_rec_count :: "nat \<Rightarrow> rmm \<Rightarrow> (u64 \<times> rmm) option" where
  "rd_map_read_rec_count g_rd s = do {
     s \<leftarrow> granule_map g_rd SLOT_RD s;
     rd \<leftarrow> rd_of (content s g_rd);
     Some (rd_rec_count rd, buffer_unmap SLOT_RD s)
   }"

definition psci_cpu_on ::
  "rec \<Rightarrow> u64 \<Rightarrow> u64 \<Rightarrow> rmm \<Rightarrow> ((psci_result \<times> rec) \<times> rmm) option" where
  "psci_cpu_on rec target_cpu entry_point_address s =
     (if \<not> addr_in_rec_par rec entry_point_address
      then Some ((psci_zero\<lparr>psci_x0 := PSCI_RETURN_INVALID_ADDRESS\<rparr>, rec), s)
      else do {
        let target_rec_idx = mpidr_to_rec_idx target_cpu;
        (n, s) \<leftarrow> rd_map_read_rec_count (ri_g_rd (rec_realm_info rec)) s;
        if n \<le> target_rec_idx
        then Some ((psci_zero\<lparr>psci_x0 := PSCI_RETURN_INVALID_PARAMS\<rparr>, rec), s)
        else if target_rec_idx = rec_idx rec
        then Some ((psci_zero\<lparr>psci_x0 := PSCI_RETURN_ALREADY_ON\<rparr>, rec), s)
        else Some ((psci_zero\<lparr>forward_psci_call := True, forward_x1 := target_cpu\<rparr>,
                    rec\<lparr>rec_psci_pending := True\<rparr>), s)
      })"

definition psci_affinity_info ::
  "rec \<Rightarrow> u64 \<Rightarrow> u64 \<Rightarrow> rmm \<Rightarrow> ((psci_result \<times> rec) \<times> rmm) option" where
  "psci_affinity_info rec target_affinity lowest_affinity_level s =
     (if lowest_affinity_level \<noteq> 0
      then Some ((psci_zero\<lparr>psci_x0 := PSCI_RETURN_INVALID_PARAMS\<rparr>, rec), s)
      else do {
        let target_rec_idx = mpidr_to_rec_idx target_affinity;
        (n, s) \<leftarrow> rd_map_read_rec_count (ri_g_rd (rec_realm_info rec)) s;
        if n \<le> target_rec_idx
        then Some ((psci_zero\<lparr>psci_x0 := PSCI_RETURN_INVALID_PARAMS\<rparr>, rec), s)
        else if target_rec_idx = rec_idx rec
        then Some ((psci_zero\<lparr>psci_x0 := PSCI_AFFINITY_INFO_ON\<rparr>, rec), s)
        else Some ((psci_zero\<lparr>forward_psci_call := True, forward_x1 := target_affinity\<rparr>,
                    rec\<lparr>rec_psci_pending := True\<rparr>), s)
      })"

definition system_off_reboot :: "rec \<Rightarrow> rmm \<Rightarrow> rmm option" where
  "system_off_reboot rec s = do {
     let g_rd = ri_g_rd (rec_realm_info rec);
     s \<leftarrow> granule_lock g_rd GRANULE_STATE_RD s;
     s \<leftarrow> granule_map g_rd SLOT_RD s;
     rd \<leftarrow> rd_of (content s g_rd);
     let s = set_rd g_rd (rd\<lparr>rd_state := REALM_STATE_SYSTEM_OFF\<rparr>) s;
     let s = buffer_unmap SLOT_RD s;
     granule_unlock g_rd s
   }"

definition psci_system_off :: "rec \<Rightarrow> rmm \<Rightarrow> (psci_result \<times> rmm) option" where
  "psci_system_off rec s = do {
     s \<leftarrow> system_off_reboot rec s;
     Some (psci_zero\<lparr>forward_psci_call := True\<rparr>, s)
   }"

definition psci_system_reset :: "rec \<Rightarrow> rmm \<Rightarrow> (psci_result \<times> rmm) option" where
  "psci_system_reset rec s = do {
     s \<leftarrow> system_off_reboot rec s;
     Some (psci_zero\<lparr>forward_psci_call := True\<rparr>, s)
   }"

definition psci_features :: "u64 \<Rightarrow> psci_result" where
  "psci_features psci_func_id =
     (if psci_func_id \<in> {SMC32_PSCI_CPU_SUSPEND, SMC64_PSCI_CPU_SUSPEND, SMC32_PSCI_CPU_OFF,
           SMC32_PSCI_CPU_ON, SMC64_PSCI_CPU_ON, SMC32_PSCI_AFFINITY_INFO,
           SMC64_PSCI_AFFINITY_INFO, SMC32_PSCI_SYSTEM_OFF, SMC32_PSCI_SYSTEM_RESET,
           SMC32_PSCI_FEATURES, SMCCC_VERSION}
      then psci_zero\<lparr>psci_x0 := 0\<rparr>
      else psci_zero\<lparr>psci_x0 := PSCI_RETURN_NOT_SUPPORTED\<rparr>)"

text \<open>\<^verbatim>\<open>(unsigned int)\<close> of a register value.\<close>

definition low32 :: "u64 \<Rightarrow> u64" where
  "low32 x = ucast (ucast x :: u32)"

text \<open>
  The function identifier and the argument of PSCI_FEATURES are \<^verbatim>\<open>unsigned int\<close>
  parameters.  In the default case the result structure \<open>res0\<close> is not initialised: its
  registers x1 to x3 are what was on the stack.
\<close>

definition psci_rsi ::
  "psci_result \<Rightarrow> rec \<Rightarrow> u64 \<Rightarrow> u64 \<Rightarrow> u64 \<Rightarrow> u64 \<Rightarrow> rmm
     \<Rightarrow> ((psci_result \<times> rec) \<times> rmm) option" where
  "psci_rsi res0 rec fid arg0 arg1 arg2 s =
     (let function_id = low32 fid
      in if function_id = SMC32_PSCI_VERSION then Some ((psci_version, rec), s)
         else if function_id = SMC32_PSCI_CPU_SUSPEND \<or> function_id = SMC64_PSCI_CPU_SUSPEND
         then Some ((psci_cpu_suspend, rec), s)
         else if function_id = SMC32_PSCI_CPU_OFF then Some (psci_cpu_off rec, s)
         else if function_id = SMC32_PSCI_CPU_ON
         then psci_cpu_on rec (low32 arg0) (low32 arg1) s
         else if function_id = SMC64_PSCI_CPU_ON then psci_cpu_on rec arg0 arg1 s
         else if function_id = SMC32_PSCI_AFFINITY_INFO
         then psci_affinity_info rec (low32 arg0) (low32 arg1) s
         else if function_id = SMC64_PSCI_AFFINITY_INFO then psci_affinity_info rec arg0 arg1 s
         else if function_id = SMC32_PSCI_SYSTEM_OFF
         then do { (r, s) \<leftarrow> psci_system_off rec s; Some ((r, rec), s) }
         else if function_id = SMC32_PSCI_SYSTEM_RESET
         then do { (r, s) \<leftarrow> psci_system_reset rec s; Some ((r, rec), s) }
         else if function_id = SMC32_PSCI_FEATURES
         then Some ((psci_features (low32 arg0), rec), s)
         else Some ((res0\<lparr>psci_x0 := PSCI_RETURN_NOT_SUPPORTED, forward_psci_call := False\<rparr>, rec),
                    s))"

section \<open>Completion by the host\<close>

definition complete_psci_cpu_on :: "rec \<Rightarrow> u64 \<Rightarrow> u64 \<Rightarrow> rmm \<Rightarrow> u64 \<times> rec" where
  "complete_psci_cpu_on target_rec entry_point_address caller_sctlr_el1 s =
     (if g_refcount (granules s (rec_g_rec target_rec)) \<noteq> 0 \<or> rec_runnable target_rec
      then (PSCI_RETURN_ALREADY_ON, target_rec)
      else (PSCI_RETURN_SUCCESS,
            (psci_reset_rec target_rec caller_sctlr_el1)
              \<lparr>rec_pc := entry_point_address, rec_runnable := True\<rparr>))"

definition complete_psci_affinity_info :: "rec \<Rightarrow> rmm \<Rightarrow> u64" where
  "complete_psci_affinity_info target_rec s =
     (if g_refcount (granules s (rec_g_rec target_rec)) \<noteq> 0 \<or> rec_runnable target_rec
      then PSCI_AFFINITY_INFO_ON else PSCI_AFFINITY_INFO_OFF)"

text \<open>The result is the status with the two RECs as they are afterwards.\<close>

definition psci_complete_request ::
  "rec \<Rightarrow> rec \<Rightarrow> rmm \<Rightarrow> (u64 \<times> rec \<times> rec) option" where
  "psci_complete_request calling_rec target_rec s =
     (let mpidr = rec_regs calling_rec ! 1;
          fid = rec_regs calling_rec ! 0
      in if \<not> rec_psci_pending calling_rec
         then Some (RMI_ERROR_INPUT, calling_rec, target_rec)
         else if ri_g_rd (rec_realm_info calling_rec) \<noteq> ri_g_rd (rec_realm_info target_rec)
         then Some (RMI_ERROR_INPUT, calling_rec, target_rec)
         else if mpidr_to_rec_idx mpidr \<noteq> rec_idx target_rec
         then Some (RMI_ERROR_INPUT, calling_rec, target_rec)
         else do {
           (ret, target_rec) \<leftarrow>
             (if fid = SMC32_PSCI_CPU_ON \<or> fid = SMC64_PSCI_CPU_ON then
                Some (complete_psci_cpu_on target_rec (rec_regs calling_rec ! 2)
                        (sctlr_el1 (rec_sysregs calling_rec)) s)
              else if fid = SMC32_PSCI_AFFINITY_INFO \<or> fid = SMC64_PSCI_AFFINITY_INFO then
                Some (complete_psci_affinity_info target_rec s, target_rec)
              else None);
           let calling_rec = calling_rec
                 \<lparr>rec_regs := (rec_regs calling_rec)[0 := ret, 1 := 0, 2 := 0, 3 := 0],
                  rec_psci_pending := False\<rparr>;
           Some (RMI_SUCCESS, calling_rec, target_rec)
         })"

definition smc_psci_complete :: "u64 \<Rightarrow> u64 \<Rightarrow> rmm \<Rightarrow> (u64 \<times> rmm) option" where
  "smc_psci_complete calling_rec_addr target_rec_addr s = do {
     assert_c (calling_rec_addr \<noteq> 0);
     assert_c (target_rec_addr \<noteq> 0);
     if \<not> GRANULE_ALIGNED calling_rec_addr then Some (RMI_ERROR_INPUT, s)
     else if \<not> GRANULE_ALIGNED target_rec_addr then Some (RMI_ERROR_INPUT, s)
     else do {
       (r, s) \<leftarrow> find_lock_two_granules calling_rec_addr GRANULE_STATE_REC
                                          target_rec_addr GRANULE_STATE_REC s;
       (case r of
          None \<Rightarrow> Some (RMI_ERROR_INPUT, s)
        | Some (g_calling_rec, g_target_rec) \<Rightarrow> do {
            (ret, s) \<leftarrow>
              (if g_refcount (granules s g_calling_rec) \<noteq> 0 then Some (RMI_ERROR_INPUT, s)
               else do {
                 s \<leftarrow> granule_map g_calling_rec SLOT_REC s;
                 s \<leftarrow> granule_map g_target_rec SLOT_REC2 s;
                 calling_rec \<leftarrow> rec_of (content s g_calling_rec);
                 target_rec \<leftarrow> rec_of (content s g_target_rec);
                 (ret, calling_rec, target_rec) \<leftarrow>
                   psci_complete_request calling_rec target_rec s;
                 let s = set_content g_calling_rec (CRec calling_rec) s;
                 let s = set_content g_target_rec (CRec target_rec) s;
                 let s = buffer_unmap SLOT_REC2 s;
                 Some (ret, buffer_unmap SLOT_REC s)
               });
            s \<leftarrow> granule_unlock g_calling_rec s;
            s \<leftarrow> granule_unlock g_target_rec s;
            Some (ret, s)
          })
     }
   }"

end
