(* ===== verification/Psci_Correct.thy ===== *)
theory Psci_Correct
  imports Rec_Destroy_Correct Psci
begin

text \<open>
  The completion of a PSCI call by the host: only a pending call can be completed, only on
  behalf of the REC it names in the same realm, and a CPU that is on cannot be started again.
\<close>

section \<open>The request on two RECs\<close>

definition psci_cpu_on_fid :: "u64 \<Rightarrow> bool" where
  "psci_cpu_on_fid fid \<longleftrightarrow> fid = SMC32_PSCI_CPU_ON \<or> fid = SMC64_PSCI_CPU_ON"

definition psci_affinity_fid :: "u64 \<Rightarrow> bool" where
  "psci_affinity_fid fid \<longleftrightarrow> fid = SMC32_PSCI_AFFINITY_INFO \<or> fid = SMC64_PSCI_AFFINITY_INFO"

definition psci_request_ok :: "rec \<Rightarrow> rec \<Rightarrow> bool" where
  "psci_request_ok calling target \<longleftrightarrow> rec_psci_pending calling
     \<and> ri_g_rd (rec_realm_info calling) = ri_g_rd (rec_realm_info target)
     \<and> mpidr_to_rec_idx (rec_regs calling ! 1) = rec_idx target"

definition rec_is_on :: "rmm \<Rightarrow> rec \<Rightarrow> bool" where
  "rec_is_on s rec \<longleftrightarrow> grc s (rec_g_rec rec) \<noteq> 0 \<or> rec_runnable rec"

definition psci_answer :: "rec \<Rightarrow> u64 \<Rightarrow> rec" where
  "psci_answer rec ret = rec\<lparr>rec_regs := (rec_regs rec)[0 := ret, 1 := 0, 2 := 0, 3 := 0],
     rec_psci_pending := False\<rparr>"

definition cpu_started :: "rec \<Rightarrow> rec \<Rightarrow> rec" where
  "cpu_started calling target =
     (psci_reset_rec target (sctlr_el1 (rec_sysregs calling)))
       \<lparr>rec_pc := rec_regs calling ! 2, rec_runnable := True\<rparr>"

text \<open>The request as a decision table.\<close>

lemma psci_complete_request_eq:
  "psci_complete_request calling target s =
     (let fid = rec_regs calling ! 0
      in if \<not> psci_request_ok calling target then Some (RMI_ERROR_INPUT, calling, target)
         else if psci_cpu_on_fid fid then
           (if rec_is_on s target
            then Some (RMI_SUCCESS, psci_answer calling PSCI_RETURN_ALREADY_ON, target)
            else Some (RMI_SUCCESS, psci_answer calling PSCI_RETURN_SUCCESS, cpu_started calling target))
         else if psci_affinity_fid fid then
           Some (RMI_SUCCESS, psci_answer calling
             (if rec_is_on s target then PSCI_AFFINITY_INFO_ON else PSCI_AFFINITY_INFO_OFF), target)
         else None)"
  by (simp add: psci_complete_request_def psci_request_ok_def psci_cpu_on_fid_def
      psci_affinity_fid_def complete_psci_cpu_on_def complete_psci_affinity_info_def
      rec_is_on_def psci_answer_def cpu_started_def Let_def)

lemma psci_complete_request_keeps:
  assumes "psci_complete_request calling target s = Some (ret, c, t)"
  shows "rec_g_rec c = rec_g_rec calling" "length (rec_regs c) = length (rec_regs calling)"
    "rec_num_rec_aux c = rec_num_rec_aux calling" "rec_g_aux c = rec_g_aux calling"
    "rec_realm_info c = rec_realm_info calling"
    "rec_g_rec t = rec_g_rec target" "length (rec_regs t) = length (rec_regs target)"
    "rec_num_rec_aux t = rec_num_rec_aux target" "rec_g_aux t = rec_g_aux target"
    "rec_realm_info t = rec_realm_info target"
  using assms
  by (auto simp: psci_complete_request_eq psci_answer_def cpu_started_def psci_reset_rec_def Let_def
      split: if_splits)

section \<open>The cases of the command\<close>

definition psci_completed :: "nat \<Rightarrow> rec \<Rightarrow> nat \<Rightarrow> rec \<Rightarrow> rmm \<Rightarrow> rmm \<Rightarrow> bool" where
  "psci_completed gc c gt t s s' \<longleftrightarrow> granules s' = granules s
     \<and> content s' = (content s)(gc := CRec c, gt := CRec t)
     \<and> glock s' = glock s \<and> slots s' = slots s \<and> vmids s' = vmids s"

lemma smc_psci_complete_cases:
  assumes inv: "inv_with lv par s" and q: "quiet s"
    and nz: "calling_addr \<noteq> 0" "target_addr \<noteq> 0"
  obtains (error) s' where "smc_psci_complete calling_addr target_addr s = Some (RMI_ERROR_INPUT, s')"
      "same_state s s'"
    | (bad_fid) gc gt calling target where "smc_psci_complete calling_addr target_addr s = None"
      "find_granule calling_addr = Some gc" "find_granule target_addr = Some gt"
      "content s gc = CRec calling" "content s gt = CRec target" "psci_request_ok calling target"
      "\<not> psci_cpu_on_fid (rec_regs calling ! 0)" "\<not> psci_affinity_fid (rec_regs calling ! 0)"
    | (completed) gc gt calling target ret c t s' where
      "smc_psci_complete calling_addr target_addr s = Some (ret, s')"
      "find_granule calling_addr = Some gc" "find_granule target_addr = Some gt" "gc \<noteq> gt"
      "gst s gc = GRANULE_STATE_REC" "gst s gt = GRANULE_STATE_REC" "grc s gc = 0"
      "content s gc = CRec calling" "content s gt = CRec target"
      "psci_complete_request calling target s = Some (ret, c, t)" "psci_completed gc c gt t s s'"
proof (cases "GRANULE_ALIGNED calling_addr \<and> GRANULE_ALIGNED target_addr")
  case False
  then have "smc_psci_complete calling_addr target_addr s = Some (RMI_ERROR_INPUT, s)"
    using nz by (auto simp: smc_psci_complete_def)
  then show ?thesis using error by simp
next
  case True
  let ?cmd = "smc_psci_complete calling_addr target_addr s"
  from all_unlocked_quiet [OF q inv] show ?thesis
  proof (cases rule: find_lock_pair_cases [where ?a1.0 = calling_addr and ?a2.0 = target_addr
        and ?st1.0 = GRANULE_STATE_REC and ?st2.0 = GRANULE_STATE_REC])
    case (none t)
    then have "?cmd = Some (RMI_ERROR_INPUT, t)" using nz True by (simp add: smc_psci_complete_def)
    then show ?thesis using error none(3) by blast
  next
    case (both gc gt)
    define s1 where "s1 = two_locked calling_addr GRANULE_STATE_REC gc target_addr GRANULE_STATE_REC gt s"
    have s1: "granules s1 = granules s" "content s1 = content s" "slots s1 = slots s"
      "vmids s1 = vmids s" "glock s1 = (glock s)(gc := True, gt := True)"
      by (simp_all add: s1_def)
    have b: "gc < RMM_MAX_GRANULES" "gt < RMM_MAX_GRANULES"
      using both(3,4) find_granule_bound by blast+
    from inv_with_rec [OF inv b(1) both(6)] inv_with_rec [OF inv b(2) both(7)]
    obtain calling target where r: "content s gc = CRec calling" "content s gt = CRec target"
      by (auto simp: rec_ok_def)
    have un: "unlocked_ok t x" if "granules t = granules s" "x < RMM_MAX_GRANULES" for t x
      using inv_with_unlocked_state [OF inv that] .
    have gl: "(glock s)(gc := False, gt := False) = glock s"
      using q by (auto simp: quiet_def fun_eq_iff)
    have sl: "slots s = (\<lambda>k. None)" using q by (auto simp: quiet_def)
    have finish: "do { s \<leftarrow> granule_unlock gc t; s \<leftarrow> granule_unlock gt s; Some (ret, s) }
        = Some (ret :: u64, spinlock_release gt (spinlock_release gc t))"
      if "granules t = granules s" for t ret
      using un [of t] un [of "spinlock_release gc t"] that b by (simp add: granule_unlock_eq)
    show ?thesis
    proof (cases "grc s gc = 0")
      case False
      then have "?cmd = Some (RMI_ERROR_INPUT, spinlock_release gt (spinlock_release gc s1))"
        using nz True finish [of s1] by (simp add: smc_psci_complete_def both(1) s1_def [symmetric] s1)
      then show ?thesis using error gl both(5) by (simp add: same_state_def s1 fun_upd_twist)
    next
      case rc: True
      define s2 where "s2 = map_slot SLOT_REC2 gt (map_slot SLOT_REC gc s1)"
      have m: "granule_map gc SLOT_REC s1 = Some (map_slot SLOT_REC gc s1)"
        "granule_map gt SLOT_REC2 (map_slot SLOT_REC gc s1) = Some s2"
        using b sl by (simp_all add: granule_map_eq s1 s2_def)
      have s2: "granules s2 = granules s" "content s2 = content s" "vmids s2 = vmids s"
        "glock s2 = (glock s)(gc := True, gt := True)"
        "slots s2 = (slots s)(SLOT_REC := Some gc, SLOT_REC2 := Some gt)"
        by (simp_all add: s2_def s1)
      have "rec_is_on s2 target = rec_is_on s target" by (simp add: rec_is_on_def s2)
      then have req: "psci_complete_request calling target s2 = psci_complete_request calling target s"
        by (simp add: psci_complete_request_eq)
      have run: "?cmd = do {
          (ret, c, t) \<leftarrow> psci_complete_request calling target s;
          let s3 = buffer_unmap SLOT_REC (buffer_unmap SLOT_REC2
                     (set_content gt (CRec t) (set_content gc (CRec c) s2)));
          Some (ret, spinlock_release gt (spinlock_release gc s3)) }"
        using nz True
        by (cases "psci_complete_request calling target s")
          (auto simp: smc_psci_complete_def both(1) s1_def [symmetric] s1 rc m s2 r req finish)
      show ?thesis
      proof (cases "psci_complete_request calling target s")
        case None
        then have "?cmd = None" using run by simp
        moreover have "psci_request_ok calling target" "\<not> psci_cpu_on_fid (rec_regs calling ! 0)"
          "\<not> psci_affinity_fid (rec_regs calling ! 0)"
          using None by (auto simp: psci_complete_request_eq Let_def split: if_splits)
        ultimately show ?thesis using bad_fid both(3,4) r by blast
      next
        case (Some x)
        then obtain ret c t where req: "psci_complete_request calling target s = Some (ret, c, t)"
          by (cases x) auto
        let ?s3 = "buffer_unmap SLOT_REC (buffer_unmap SLOT_REC2
                     (set_content gt (CRec t) (set_content gc (CRec c) s2)))"
        have "?cmd = Some (ret, spinlock_release gt (spinlock_release gc ?s3))"
          using run req by simp
        moreover have "psci_completed gc c gt t s (spinlock_release gt (spinlock_release gc ?s3))"
          using gl both(5) by (auto simp: psci_completed_def s2 sl fun_eq_iff)
        ultimately show ?thesis using completed both(3-7) rc r req by blast
      qed
    qed
  qed
qed

text \<open>
  The command returns unless an address is zero, which it asserts, or the calling REC
  holds a function identifier in the full register that is none of the four: the realm made
  the call with the upper half of x0 set.
\<close>

lemma smc_psci_complete_safe:
  assumes "inv s" and q: "quiet s"
  shows "case smc_psci_complete calling_addr target_addr s of
      None \<Rightarrow> calling_addr = 0 \<or> target_addr = 0
        \<or> (\<exists>g rec. find_granule calling_addr = Some g \<and> content s g = CRec rec
             \<and> rec_psci_pending rec \<and> \<not> psci_cpu_on_fid (rec_regs rec ! 0)
             \<and> \<not> psci_affinity_fid (rec_regs rec ! 0))
    | Some (ret, s') \<Rightarrow> inv s' \<and> quiet s'"
proof (cases "calling_addr = 0 \<or> target_addr = 0")
  case True
  then have "smc_psci_complete calling_addr target_addr s = None"
    by (auto simp: smc_psci_complete_def bind_assert_c)
  with True show ?thesis by auto
next
  case False
  then have nz: "calling_addr \<noteq> 0" "target_addr \<noteq> 0" by simp_all
  from assms obtain lv par where inv: "inv_with lv par s" by (auto simp: inv_def)
  from inv q nz show ?thesis
  proof (cases rule: smc_psci_complete_cases)
    case (error s')
    then show ?thesis using assms inv_cong quiet_cong by auto
  next
    case (bad_fid gc gt calling target)
    then show ?thesis by (auto simp: psci_request_ok_def)
  next
    case (completed gc gt calling target ret c t s')
    note k = psci_complete_request_keeps [OF completed(10)]
    let ?m = "set_content gc (CRec c) s"
    have "inv_with lv par ?m"
      by (rule inv_rec_update [OF inv completed(5,8) k(1-5)]) simp_all
    then have "inv_with lv par s'"
      by (rule inv_rec_update [OF _ _ _ k(6-10)])
        (use completed(4,6,9,11) in \<open>simp_all add: psci_completed_def\<close>)
    then show ?thesis using completed(1,11) q by (auto simp: quiet_def psci_completed_def inv_def)
  qed
qed

end
