(* ===== verification/Realm_Map_Cmds.thy ===== *)
theory Realm_Map_Cmds
  imports Map_Refinement Delegation_Correct Psci_Correct
begin

text \<open>
  The commands on granules, realms, RECs and PSCI requests leave the map of the realms'
  memory alone: a new realm has no pages, and a realm is destroyed only when it has none.
\<close>

section \<open>Commands that write no table\<close>

text \<open>A walk all of whose tables are kept delivers what it did.\<close>

lemma realm_page_same:
  assumes inv: "inv_with lv par s" and r: "realm_at s r c" and a: "a < push_bit (s2_ipa_bits c) 1"
    and same: "\<And>g l. visits (content s) c a g l \<Longrightarrow> table_of (C' g) = table_of (content s g)"
  shows "realm_page C' c a = realm_page (content s) c a"
proof -
  have "page_from C' g l a = page_from (content s) g l a" if "visits (content s) c a g l" for g l
    using that
  proof (induction "nat (3 - l)" arbitrary: g l)
    case 0
    have "l = 3" using visits_at_table [OF inv realm_at_roots(1) [OF inv r] a 0(2)] 0(1) by simp
    then show ?case using same [OF 0(2)] by (simp add: page_from_3 tt_entry_def)
  next
    case (Suc n)
    have l3: "l < 3" using Suc(2) by simp
    have e: "tt_entry C' g l a = tt_entry (content s) g l a"
      using same [OF Suc(3)] by (simp add: tt_entry_def)
    then have n: "pt_next C' g l a = pt_next (content s) g l a" by (simp add: pt_next_entry)
    have "page_from C' g' (l + 1) a = page_from (content s) g' (l + 1) a"
      if "pt_next (content s) g l a = Some g'" for g'
      by (rule Suc(1)) (use Suc(2) visits.down [OF Suc(3) l3 that] in auto)
    then show ?case using e n l3 by (simp add: page_from_step split: option.split)
  qed
  from this [OF visits.root] show ?thesis by (simp add: realm_page_from)
qed

lemma mem_map_realm:
  assumes inv: "inv_with lv par s" and at: "\<And>d. realm_at s' r d = realm_at s r d"
    and same: "\<And>d g l. in_realm s r d a \<Longrightarrow> visits (content s) d a g l \<Longrightarrow> at_table lv s g l \<Longrightarrow>
      table_of (content s' g) = table_of (content s g)"
  shows "mem_map s' r a = mem_map s r a"
proof (cases "\<exists>c. in_realm s r c a")
  case True
  then obtain c where c: "in_realm s r c a" by blast
  then have ra: "realm_at s r c" "a < push_bit (s2_ipa_bits c) 1" by (auto simp: in_realm_def)
  have "realm_page (content s') c a = realm_page (content s) c a"
    using same [OF c] visits_at_table [OF inv realm_at_roots(1) [OF inv ra(1)] ra(2)]
    by (intro realm_page_same [OF inv ra]) blast
  moreover have "in_realm s' r c a" using c at by (simp add: in_realm_def)
  ultimately show ?thesis using mem_map_in c by simp
next
  case False
  then have "\<not> in_realm s' r c a" for c using at by (simp add: in_realm_def)
  with False show ?thesis using mem_map_out by metis
qed

lemma mem_map_tables:
  assumes inv: "inv_with lv par s" and re: "same_realms s s'"
    and same: "\<And>g. g < RMM_MAX_GRANULES \<Longrightarrow> gst s g = GRANULE_STATE_RTT \<Longrightarrow>
      content s' g = content s g"
  shows "mem_map s' = mem_map s"
  using re same
  by (intro ext mem_map_realm [OF inv]) (auto simp: same_realms_def at_table_def)

text \<open>A starting table of one realm is not visited by a walk of another.\<close>

lemma visits_root_owner:
  assumes inv: "inv_with lv par s" and r: "in_realm s r d a" and v: "visits (content s) d a h l"
    and own: "par h = RdOwner g"
  shows "r = g"
proof -
  from r have ra: "realm_at s r d" "a < push_bit (s2_ipa_bits d) 1" by (auto simp: in_realm_def)
  note R = realm_at_roots [OF inv ra(1)]
  from v show ?thesis
  proof (cases rule: visits.cases)
    case root
    then show ?thesis using own R(3) pt_root_bound [OF R(2) ra(2)] by (simp add: pt_root_def)
  next
    case (down h' m)
    have "at_table lv s h' m" using visits_at_table [OF inv R(1) ra(2) down(2)] by simp
    from pt_next_owner [OF inv this down(3,4)] own show ?thesis by simp
  qed
qed

text \<open>A realm whose starting tables are empty has no page.\<close>

lemma realm_without_pages:
  assumes r: "\<And>d. realm_at s r d \<Longrightarrow> d = c" and c: "s2_ctx_ok c"
    and roots: "\<And>k a. k < s2_root_rtts c \<Longrightarrow>
      page_from (content s) (s2_g_rtt c + k) (s2_starting_level c) a = None"
  shows "mem_map s r a = None"
proof (cases "in_realm s r c a")
  case True
  then have a: "a < push_bit (s2_ipa_bits c) 1" by (simp add: in_realm_def)
  have "realm_page (content s) c a = None"
    unfolding realm_page_from pt_root_def by (rule roots [OF pt_root_bound [OF c a]])
  then show ?thesis using mem_map_in [OF True] by simp
next
  case False
  then have "\<not> in_realm s r d a" for d using r [of d] by (cases "realm_at s r d") (simp_all add: in_realm_def)
  then show ?thesis by (rule mem_map_out)
qed

section \<open>Granules\<close>

lemma granule_delegate_map:
  assumes inv: "inv_with lv par s" and q: "quiet s"
    and run: "smc_granule_delegate mc addr s = Some (ret, s')"
  shows "mem_map s' = mem_map s"
  using inv q
proof (cases rule: granule_delegate_cases [where mc = mc and addr = addr])
  case (error u)
  then show ?thesis using run by (simp add: mem_map_same_state)
next
  case refused
  then show ?thesis using run by simp
next
  case (success g u)
  have u: "u = s'" using run success(1) by simp
  have "same_realms s s'"
    by (rule same_realmsI) (use success(3) in \<open>auto simp: success(4,5) [unfolded u]\<close>)
  then show ?thesis
    by (rule mem_map_tables [OF inv]) (use success(3) in \<open>auto simp: success(5) [unfolded u]\<close>)
qed

lemma granule_undelegate_map:
  assumes inv: "inv_with lv par s" and q: "quiet s"
    and run: "smc_granule_undelegate mc addr s = Some (ret, s')"
  shows "mem_map s' = mem_map s"
  using inv q
proof (cases rule: granule_undelegate_cases [where mc = mc and addr = addr])
  case (error u)
  then show ?thesis using run by (simp add: mem_map_same_state)
next
  case refused
  then show ?thesis using run by simp
next
  case (success g u)
  have u: "u = s'" using run success(1) by simp
  have "same_realms s s'"
    by (rule same_realmsI) (use success(3) in \<open>auto simp: success(5,6) [unfolded u]\<close>)
  then show ?thesis
    by (rule mem_map_tables [OF inv]) (use success(3) in \<open>auto simp: success(6) [unfolded u]\<close>)
qed

section \<open>RECs\<close>

lemma rec_create_map:
  assumes inv: "inv_with lv par s" and q: "quiet s"
    and sized: "\<forall>p. mem = Some p \<longrightarrow> rec_params_sized p"
    and run: "smc_rec_create ar hash rec_addr rd_addr pa mem s = Some (ret, s')"
  shows "mem_map s' = mem_map s"
  using inv q sized
proof (cases rule: smc_rec_create_cases [where ar = ar and hash = hash and rec_addr = rec_addr
      and rd_addr = rd_addr and pa = pa])
  case (error r u)
  then show ?thesis using run by (simp add: mem_map_same_state)
next
  case (success p aux g_rec g_rd rd rec s1 u)
  have u: "u = s'" using run success(1) by simp
  note r = rec_added_pair [OF success(4,5) success(9) [unfolded u]]
  have aux: "\<And>x. x \<in> set aux \<Longrightarrow> gst s x = GRANULE_STATE_DELEGATED"
    using success(4) by (simp add: aux_taken_def)
  have st: "gst s' x = (if x = g_rec then GRANULE_STATE_REC
      else if x \<in> set aux then GRANULE_STATE_REC_AUX else gst s x)" for x
    using r(1) by (simp add: rec_added_def)
  have co: "content s' = (content s)(g_rd := CRd ((rec_params_measure hash rd p)
      \<lparr>rd_rec_count := rd_rec_count rd + 1\<rparr>), g_rec := CRec rec)"
    using r(1) by (simp add: rec_added_def)
  have "same_realms s s'"
    by (rule same_realmsI)
       (use r(2-6) aux success(6) in \<open>auto simp: st co rec_params_measure_def set_rim_def Let_def
         split: if_splits\<close>)
  then show ?thesis
    by (rule mem_map_tables [OF inv]) (use r(5,6) in \<open>auto simp: co\<close>)
qed

lemma rec_destroy_map:
  assumes inv: "inv_with lv par s" and q: "quiet s"
    and run: "smc_rec_destroy rec_addr s = Some (ret, s')"
  shows "mem_map s' = mem_map s"
  using inv q
proof (cases rule: smc_rec_destroy_cases [where rec_addr = rec_addr])
  case (error r u)
  then show ?thesis using run by (simp add: mem_map_same_state)
next
  case (success g rec u)
  have u: "u = s'" using run success(1) by simp
  have b: "g < RMM_MAX_GRANULES" using success(2) by (rule find_granule_bound)
  have aux: "\<And>x. x \<in> set (rec_g_aux rec) \<Longrightarrow> gst s x = GRANULE_STATE_REC_AUX"
    using inv_with_rec [OF inv b success(3)] success(5) by (auto simp: rec_ok_def)
  have st: "gst s' x = (if x = g \<or> x \<in> set (rec_g_aux rec) then GRANULE_STATE_DELEGATED else gst s x)"
    for x using success(6) by (simp add: rec_removed_def u)
  have co: "content s' = (zeroed (\<lambda>x. x \<in> set (rec_g_aux rec)) (content s))(g := CZero)"
    using success(6) by (simp add: rec_removed_def u)
  have "same_realms s s'"
    by (rule same_realmsI) (use success(3) aux in \<open>auto simp: st co zeroed_def split: if_splits\<close>)
  then show ?thesis
    by (rule mem_map_tables [OF inv]) (use success(3) aux in \<open>auto simp: co zeroed_def\<close>)
qed

lemma psci_complete_map:
  assumes inv: "inv_with lv par s" and q: "quiet s" and nz: "calling_addr \<noteq> 0" "target_addr \<noteq> 0"
    and run: "smc_psci_complete calling_addr target_addr s = Some (ret, s')"
  shows "mem_map s' = mem_map s"
  using inv q nz
proof (cases rule: smc_psci_complete_cases)
  case (error u)
  then show ?thesis using run by (simp add: mem_map_same_state)
next
  case (bad_fid gc gt calling target)
  then show ?thesis using run by simp
next
  case (completed gc gt calling target r c t u)
  have u: "u = s'" using run completed(1) by simp
  have gr: "granules s' = granules s" and co: "content s' = (content s)(gc := CRec c, gt := CRec t)"
    using completed(11) by (simp_all add: psci_completed_def u)
  have "same_realms s s'" by (rule same_realmsI) (use completed(5,6) in \<open>auto simp: gr co\<close>)
  then show ?thesis
    by (rule mem_map_tables [OF inv]) (use completed(5,6) in \<open>auto simp: co\<close>)
qed

section \<open>Realms\<close>

lemma realm_activate_map:
  assumes inv: "inv_with lv par s" and q: "quiet s"
    and run: "smc_realm_activate rd_addr s = Some (ret, s')"
  shows "mem_map s' = mem_map s"
  using inv q
proof (cases rule: smc_realm_activate_cases [where rd_addr = rd_addr])
  case (error r u)
  then show ?thesis using run by (simp add: mem_map_same_state)
next
  case (success g rd u)
  have u: "u = s'" using run success(1) by simp
  have gr: "granules s' = granules s"
    and co: "content s' = (content s)(g := CRd (rd\<lparr>rd_state := REALM_STATE_ACTIVE\<rparr>))"
    using success(6,7) u by simp_all
  have "same_realms s s'" by (rule same_realmsI) (use success(3,4) in \<open>auto simp: gr co\<close>)
  then show ?thesis
    by (rule mem_map_tables [OF inv]) (use success(3) in \<open>auto simp: co\<close>)
qed

lemma realm_create_map:
  assumes inv: "inv_with lv par s" and q: "quiet s"
    and run: "smc_realm_create ar hash rd_addr pa mem s = Some (ret, s')"
  shows "mem_map s' = mem_map s"
  using inv q
proof (cases rule: smc_realm_create_cases
      [where ar = ar and hash = hash and rd_addr = rd_addr and pa = pa and mem = mem])
  case stuck
  then show ?thesis using run by simp
next
  case (error u)
  then show ?thesis using run by (simp add: mem_map_same_state)
next
  case (success p al g_rd g u)
  have u: "u = s'" using run success(1) by simp
  let ?c = "s2_ctx_of p g" and ?n = "unat (p_rtt_num_start p)"
  let ?rd = "init_rd hash p al g zero_rd"
  have n16: "?n \<le> 16" using success(6) by (simp add: s2_ctx_ok_def s2_ctx_of_def)
  have row: "row (Some g) ?n x \<Longrightarrow> x < RMM_MAX_GRANULES \<and> gst s x = GRANULE_STATE_DELEGATED" for x
  proof -
    assume "row (Some g) ?n x"
    then obtain j where j: "x = g + j" "j < ?n" by (auto simp: row_def less_diff_conv2 dest: le_Suc_ex)
    then show ?thesis using free_row [OF success(9), of j s] success(10) n16 by auto
  qed
  have gr: "granules s' = states_set (row (Some g) ?n) GRANULE_STATE_RTT
       ((granules s)(g_rd := (granules s g_rd)\<lparr>g_state := GRANULE_STATE_RD\<rparr>))"
    and co: "content s' = (content s)(g_rd := CRd ?rd)"
    using success(12) by (simp_all add: realm_added_def u)
  have new: "realm_at s' g_rd d \<longleftrightarrow> d = ?c" for d
    using success(7,11) find_granule_bound by (auto simp: realm_at_def gr co states_set_def)
  have other: "r \<noteq> g_rd \<Longrightarrow> realm_at s' r d = realm_at s r d" for r d
    using row [of r] by (auto simp: realm_at_def gr co states_set_def)
  have "mem_map s' g_rd a = None" for a
  proof (rule realm_without_pages [OF _ success(6)])
    fix k a assume "k < s2_root_rtts ?c"
    then have "row (Some g) ?n (g + k)" by (simp add: row_def s2_ctx_of_def)
    then have "g + k < RMM_MAX_GRANULES" "gst s (g + k) = GRANULE_STATE_DELEGATED" "g + k \<noteq> g_rd"
      using row success(11) by auto
    then have "content s' (g + k) = CZero" using inv_with_delegated [OF inv] by (simp add: co)
    then have t: "table_of (content s' (g + k)) = Some (replicate 512 0)" by simp
    have "s2_starting_level ?c \<le> 3" using success(6) by (simp add: s2_ctx_ok_def)
    from page_from_no_refs [where C = "content s'", OF t this]
    show "page_from (content s') (s2_g_rtt ?c + k) (s2_starting_level ?c) a = None"
      using leaf_entry_refs [of 0] by (simp add: leaf_entry_def s2_ctx_of_def)
  qed (simp add: new)
  moreover have "mem_map s g_rd a = None" for a
    using success(8) by (intro mem_map_out) (simp add: in_realm_def realm_at_def)
  moreover have "mem_map s' r a = mem_map s r a" if "r \<noteq> g_rd" for r a
    by (rule mem_map_realm [OF inv other [OF that]]) (use success(8) in \<open>auto simp: at_table_def co\<close>)
  ultimately show ?thesis by (metis ext)
qed

lemma realm_destroy_map:
  assumes inv: "inv_with lv par s" and q: "quiet s"
    and run: "smc_realm_destroy ar rd_addr s = Some (ret, s')"
  shows "mem_map s' = mem_map s"
  using inv q
proof (cases rule: smc_realm_destroy_cases [where ar = ar and rd_addr = rd_addr])
  case (error r u)
  then show ?thesis using run by (simp add: mem_map_same_state)
next
  case (bad_vmid g rd)
  then show ?thesis using run by simp
next
  case (in_use g rd u)
  have "mem_map s' = mem_map (release_vmid (s2_vmid (rd_s2_ctx rd)) s)"
    using in_use(1,6) run by (simp add: mem_map_same_state)
  also have "\<dots> = mem_map s" unfolding mem_map_def release_vmid_def by (intro ext) (simp split: content.split)
  finally show ?thesis .
next
  case (success g rd u)
  have u: "u = s'" using run success(1) by simp
  let ?c = "rd_s2_ctx rd"
  let ?row = "row (Some (s2_g_rtt ?c)) (s2_root_rtts ?c)"
  have b: "g < RMM_MAX_GRANULES" using success(2) by (rule find_granule_bound)
  have rg: "realm_at s g ?c" using b success(3,4) by (simp add: realm_at_def)
  note R = realm_at_roots [OF inv rg]
  have row: "?row x \<Longrightarrow> par x = RdOwner g \<and> gst s x = GRANULE_STATE_RTT" for x
  proof -
    assume "?row x"
    then obtain k where k: "x = s2_g_rtt ?c + k" "k < s2_root_rtts ?c"
      by (auto simp: row_def less_diff_conv2 dest: le_Suc_ex)
    then show ?thesis using R(1,3) by (simp add: roots_ok_def at_table_def)
  qed
  have gr: "granules s' = (states_set ?row GRANULE_STATE_DELEGATED (granules s))
      (g := (granules s g)\<lparr>g_state := GRANULE_STATE_DELEGATED\<rparr>)"
    and co: "content s' = (zeroed ?row (content s))(g := CZero)"
    using success(7) by (simp_all add: realm_removed_def u)
  have other: "r \<noteq> g \<Longrightarrow> realm_at s' r d = realm_at s r d" for r d
    using row [of r] by (auto simp: realm_at_def gr co states_set_def zeroed_def)
  have "mem_map s g a = None" for a
  proof (rule realm_without_pages [OF _ R(2)])
    fix k a assume k: "k < s2_root_rtts ?c"
    then have "at_table lv s (s2_g_rtt ?c + k) (s2_starting_level ?c)"
      using R(1) by (simp add: roots_ok_def)
    then show "page_from (content s) (s2_g_rtt ?c + k) (s2_starting_level ?c) a = None"
      using unreferenced_table [OF inv] success(6) k by simp
  qed (use rg in \<open>auto simp: realm_at_def\<close>)
  moreover have "mem_map s' g a = None" for a
    by (rule mem_map_out) (simp add: in_realm_def realm_at_def gr)
  moreover have "mem_map s' r a = mem_map s r a" if "r \<noteq> g" for r a
  proof (rule mem_map_realm [OF inv other [OF that]])
    fix d h l assume "in_realm s r d a" "visits (content s) d a h l" and at: "at_table lv s h l"
    then have "\<not> ?row h" using visits_root_owner [OF inv] row that by blast
    moreover have "h \<noteq> g" using at success(3) by (auto simp: at_table_def)
    ultimately show "table_of (content s' h) = table_of (content s h)" by (simp add: co zeroed_def)
  qed
  ultimately show ?thesis by (metis ext)
qed

section \<open>Data.Create\<close>

text \<open>The attachment of a device, which follows if the flag asks for it, changes no mapping.\<close>

lemma data_attach_map:
  assumes inv: "inv_with lv par s" and st: "gst s g_rd = GRANULE_STATE_RD" and rd: "content s g_rd = CRd rd"
    and run: "data_attach_dev mc hash g_data g_rd data_addr rd_addr map_addr flags bars ret s = Some (r, s')"
  shows "mem_map s' = mem_map s"
proof (rule mem_map_tables [OF inv])
  note e = data_attach_effect [OF run rd]
  show "same_realms s s'" by (rule same_realmsI) (use e(1,4) st rd in auto)
  show "content s' g = content s g" if "gst s g = GRANULE_STATE_RTT" for g
    using e(4) st that by auto
qed

text \<open>
  Data.Create with any flags.  Without a device it does all or nothing; with one it can report
  an error with the page already in place, and need not return.
\<close>

definition created_with :: "u64 \<Rightarrow> u64 \<Rightarrow> u64 \<Rightarrow> u64 \<Rightarrow> u64 \<Rightarrow> rmm \<Rightarrow> rmm \<Rightarrow> bool" where
  "created_with flags rd_addr map_addr data_addr ret s s' \<longleftrightarrow> inv s'
     \<and> (if ret = RMI_SUCCESS then page_added rd_addr map_addr data_addr s s'
        else same_state s s' \<or> dev_attach_flag flags \<noteq> 0 \<and> page_added rd_addr map_addr data_addr s s')
     \<and> (dev_attach_flag flags = 0 \<longrightarrow> quiet s')"

lemma data_create_effect:
  assumes i: "inv s" and q: "quiet s" and src: "\<forall>g m. src = Some (g, m) \<longrightarrow> g < RMM_MAX_GRANULES"
  shows "case data_create mc hash data_addr rd_addr map_addr src flags s of
      None \<Rightarrow> dev_attach_flag flags \<noteq> 0
    | Some (ret, s') \<Rightarrow> created_with flags rd_addr map_addr data_addr ret s s'"
proof -
  from i obtain lv par where inv: "inv_with lv par s" by (auto simp: inv_def)
  from data_create_page_safe [OF i q src] obtain r copied s1 where
    p: "data_create_page hash data_addr rd_addr map_addr src flags s = Some ((r, copied), s1)"
    and i1: "inv s1" and q1: "quiet s1"
    and c: "\<forall>g_data g_rd bars. copied = Some (g_data, g_rd, bars) \<longrightarrow> r = RMI_SUCCESS
       \<and> gst s1 g_rd = GRANULE_STATE_RD \<and> (\<exists>rd. content s1 g_rd = CRd rd)" by blast
  note m = data_create_page_map [OF inv q src p]
  show ?thesis
  proof (cases "dev_attach_flag flags = 0 \<or> copied = None")
    case True
    then have "data_create mc hash data_addr rd_addr map_addr src flags s = Some (r, s1)"
      using p by (cases copied) (auto simp: data_create_def)
    then show ?thesis using m i1 q1 by (auto simp: created_with_def)
  next
    case False
    then obtain g_data g_rd bars where cp: "copied = Some (g_data, g_rd, bars)" by auto
    with c obtain rd where r: "r = RMI_SUCCESS" and st: "gst s1 g_rd = GRANULE_STATE_RD"
      and rd: "content s1 g_rd = CRd rd" by blast
    have d: "data_create mc hash data_addr rd_addr map_addr src flags s
        = data_attach_dev mc hash g_data g_rd data_addr rd_addr map_addr flags bars r s1"
      using False p cp by (simp add: data_create_def)
    show ?thesis
    proof (cases "data_attach_dev mc hash g_data g_rd data_addr rd_addr map_addr flags bars r s1")
      case None
      then show ?thesis using d False by simp
    next
      case (Some x)
      obtain ret s' where x: "x = (ret, s')" by (cases x)
      note a = Some [unfolded x]
      from i1 obtain lv1 par1 where inv1: "inv_with lv1 par1 s1" by (auto simp: inv_def)
      have "page_added rd_addr map_addr data_addr s s'"
        using m r data_attach_map [OF inv1 st rd a] by (simp add: page_added_def)
      then show ?thesis using d a False data_attach_inv [OF i1 st rd a] by (simp add: created_with_def)
    qed
  qed
qed

lemma data_create_map:
  assumes inv: "inv_with lv par s" and q: "quiet s"
    and src: "\<forall>g m. src = Some (g, m) \<longrightarrow> g < RMM_MAX_GRANULES" and nd: "dev_attach_flag flags = 0"
    and run: "data_create mc hash data_addr rd_addr map_addr src flags s = Some (ret, s')"
  shows "if ret = RMI_SUCCESS
    then \<exists>g_rd. find_granule rd_addr = Some g_rd \<and> mem_map s g_rd map_addr = None
      \<and> mem_map s' = map_put g_rd map_addr (Some data_addr) (mem_map s)
    else same_state s s'"
  using data_create_effect [OF inv_defI [OF inv] q src, where mc = mc and hash = hash and data_addr = data_addr
      and rd_addr = rd_addr and map_addr = map_addr and flags = flags] run nd
  by (auto simp: created_with_def page_added_def split: if_splits)

end
