(* ===== verification/Sample_State.thy ===== *)
theory Sample_State
  imports Rtt_Invariant
begin

text \<open>
  Two concrete states.  \<open>boot_state\<close> is the state after the zero initialisation of the
  monitor's data.  \<open>sample_state\<close> has one realm, not yet active: descriptor in granule 0, one root table
  (level 1) in granule 1, tables of level 2 and 3 in granules 2 and 3, a valid data page
  in granule 4, an assigned but empty one in granule 5, a delegated granule 6 and a REC
  in granule 7.  The theorems on commands are instantiated there.
\<close>

section \<open>The state after boot\<close>

definition boot_state :: rmm where
  "boot_state = \<lparr>granules = (\<lambda>_. \<lparr>g_state = GRANULE_STATE_NS, g_refcount = 0\<rparr>),
     glock = (\<lambda>_. False), content = (\<lambda>_. CZero), slots = (\<lambda>_. None), vmids = (\<lambda>_. 0),
     trace = []\<rparr>"

lemma inv_boot: "inv boot_state"
  by (auto simp: inv_def inv_with_def boot_state_def granule_ok_def unlocked_ok_def links_ok_def)

lemma quiet_boot: "quiet boot_state"
  by (simp add: quiet_def boot_state_def)

section \<open>A state with a realm\<close>

definition sample_ctx :: realm_s2_context where
  "sample_ctx = \<lparr>s2_ipa_bits = 32, s2_starting_level = 1, s2_root_rtts = 1, s2_g_rtt = 1,
     s2_vmid = 5\<rparr>"

definition sample_rd :: rd where
  "sample_rd = zero_rd\<lparr>rd_state := 0, rd_rec_count := 1, rd_s2_ctx := sample_ctx,
     rd_num_rec_aux := 16\<rparr>"

definition sample_rec :: rec where
  "sample_rec = zero_rec\<lparr>rec_g_rec := 7, rec_runnable := True,
     rec_realm_info := \<lparr>ri_ipa_bits = 32, ri_s2_starting_level = 1, ri_g_rtt = 1,
                        ri_g_rd = 0\<rparr>\<rparr>"

definition sample_table :: "nat \<Rightarrow> u64 list" where
  "sample_table g = (replicate 512 0)[0 := [0, 0x80002003, 0x80003003, 0x800047DB] ! g,
                                      1 := [0, 0, 0, 0x80005004] ! g]"

definition sample_granule :: "nat \<Rightarrow> granule" where
  "sample_granule g =
     (if g = 0 then \<lparr>g_state = GRANULE_STATE_RD, g_refcount = 1\<rparr>
      else if g \<in> {1, 2} then \<lparr>g_state = GRANULE_STATE_RTT, g_refcount = 1\<rparr>
      else if g = 3 then \<lparr>g_state = GRANULE_STATE_RTT, g_refcount = 2\<rparr>
      else if g \<in> {4, 5} then \<lparr>g_state = GRANULE_STATE_DATA, g_refcount = 0\<rparr>
      else if g = 6 then \<lparr>g_state = GRANULE_STATE_DELEGATED, g_refcount = 0\<rparr>
      else if g = 7 then \<lparr>g_state = GRANULE_STATE_REC, g_refcount = 0\<rparr>
      else \<lparr>g_state = GRANULE_STATE_NS, g_refcount = 0\<rparr>)"

definition sample_content :: "nat \<Rightarrow> content" where
  "sample_content g =
     (if g = 0 then CRd sample_rd
      else if g \<in> {1, 2, 3} then CTable (sample_table g)
      else if g = 7 then CRec sample_rec
      else CZero)"

definition sample_state :: rmm where
  "sample_state = boot_state\<lparr>granules := sample_granule, content := sample_content,
     vmids := (\<lambda>_. 0)(0 := 0x20)\<rparr>"

definition sample_lv :: "nat \<Rightarrow> int" where
  "sample_lv g = int g"

definition sample_par :: "nat \<Rightarrow> owner" where
  "sample_par g = (if g = 1 then RdOwner 0 else if g = 5 then TteOwner 3 1
     else TteOwner (g - 1) 0)"

lemma sample_simps [simp]:
  "granules sample_state = sample_granule" "content sample_state = sample_content"
  "glock sample_state g = False" "slots sample_state k = None"
  by (simp_all add: sample_state_def boot_state_def)

lemma sample_table_nth:
  "i < 512 \<Longrightarrow> sample_table g ! i =
     (if i = 0 then [0, 0x80002003, 0x80003003, 0x800047DB] ! g
      else if i = 1 then [0, 0, 0, 0x80005004] ! g else 0)"
  by (simp add: sample_table_def nth_list_update)

lemma ref_count_zero: "ref_count (replicate 512 0) = 0"
  by (simp add: ref_count_def filter_replicate s2tte_refs_def)

lemma sample_ref_count:
  "g \<in> {1, 2, 3} \<Longrightarrow> (of_nat (ref_count (sample_table g)) :: u64) = (if g = 3 then 2 else 1)"
  by (auto simp: sample_table_def ref_count_update ref_word_def s2tte_refs_def ref_count_zero)

lemma sample_find:
  "find_granule 0x80000000 = Some 0" "find_granule 0x80001000 = Some 1"
  "find_granule 0x80002000 = Some 2" "find_granule 0x80003000 = Some 3"
  "find_granule 0x80004000 = Some 4" "find_granule 0x80005000 = Some 5"
  "find_granule 0x80006000 = Some 6" "find_granule 0x80007000 = Some 7"
  by (simp_all add: find_granule_eq in_dram_def GRANULE_ALIGNED_def ALIGNED_def GRANULE_SIZE_def)

lemma sample_entries:
  "sample_table 1 ! 0 = 0x80002003" "sample_table 2 ! 0 = 0x80003003"
  "sample_table 3 ! 0 = 0x800047DB" "sample_table 3 ! 1 = 0x80005004"
  by (simp_all add: sample_table_nth)

lemma sample_masks:
  "addr_level_mask 0x80002003 3 = 0x80002000" "addr_level_mask 0x80003003 3 = 0x80003000"
  "addr_level_mask 0x800047DB 3 = 0x80004000" "addr_level_mask 0x80005004 3 = 0x80005000"
  by simp_all

lemma sample_kinds:
  "s2tte_is_table 0x80002003 1" "s2tte_is_table 0x80003003 2" "s2tte_is_valid 0x800047DB 3"
  "s2tte_is_assigned 0x80005004 3"
  by (simp_all add: s2tte_iffs)

lemma sample_table_entries:
  "table_entry_ok sample_lv sample_par sample_state 1 0 0x80002003"
  "table_entry_ok sample_lv sample_par sample_state 2 0 0x80003003"
  by (simp_all only: table_entry_ok_def sample_masks sample_find)
     (simp_all add: sample_lv_def sample_par_def sample_granule_def sample_kinds)

lemma sample_pages:
  "owns_pages sample_par sample_state 3 0 0x80004000 1"
  "owns_pages sample_par sample_state 3 1 0x80005000 1"
  by (simp_all add: owns_pages_def sample_find sample_par_def sample_granule_def)

lemma sample_entry_zero:
  "entry_ok sample_lv sample_par sample_state 1 0 (sample_table 1 ! 0)"
  "entry_ok sample_lv sample_par sample_state 2 0 (sample_table 2 ! 0)"
  unfolding entry_ok_def sample_entries using sample_table_entries by blast+

lemma sample_entry_page:
  "entry_ok sample_lv sample_par sample_state 3 0 (sample_table 3 ! 0)"
  "entry_ok sample_lv sample_par sample_state 3 1 (sample_table 3 ! 1)"
  unfolding entry_ok_def sample_entries sample_masks using sample_pages sample_kinds
  by (simp_all add: sample_lv_def)

lemma sample_entry_ok:
  assumes "g \<in> {1, 2, 3}" and "i < 512"
  shows "entry_ok sample_lv sample_par sample_state g i (sample_table g ! i)"
proof -
  consider "i = 0" | "i = 1" | "1 < i" by linarith
  then show ?thesis
  proof cases
    case 1
    with assms(1) sample_entry_zero sample_entry_page(1) show ?thesis by auto
  next
    case 2
    show ?thesis
    proof (cases "g = 3")
      case True
      with 2 sample_entry_page(2) show ?thesis by simp
    next
      case False
      with 2 assms have "leaf_entry (sample_table g ! i)"
        by (auto simp: sample_table_nth leaf_entry_def)
      then show ?thesis by (simp add: entry_ok_def)
    qed
  next
    case 3
    with assms have "leaf_entry (sample_table g ! i)"
      by (simp add: sample_table_nth leaf_entry_def)
    then show ?thesis by (simp add: entry_ok_def)
  qed
qed

lemma sample_rtt_ok: "g \<in> {1, 2, 3} \<Longrightarrow> rtt_ok sample_lv sample_par sample_state g"
  using sample_ref_count [of g] sample_entry_ok [of g]
  by (auto simp: rtt_ok_def sample_lv_def sample_content_def sample_granule_def
      sample_table_def)

lemma sample_rd_ok: "rd_ok sample_lv sample_par sample_state 0"
  by (simp add: rd_ok_def sample_content_def sample_rd_def sample_ctx_def s2_ctx_ok_def
      zero_rd_def sample_granule_def sample_lv_def sample_par_def RMM_MAX_GRANULES_def)

lemma sample_rec_ok: "rec_ok sample_par sample_state 7"
  by (simp add: rec_ok_def sample_content_def sample_rec_def zero_rec_def)

lemma sample_recs: "recs_of sample_state g = (if g = 0 then {7} else {})"
  by (auto simp: recs_of_def sample_granule_def sample_content_def sample_rec_def
      RMM_MAX_GRANULES_def)

lemma sample_links: "links_ok sample_state"
  by (auto simp: links_ok_def rec_linked_def sample_recs sample_granule_def sample_content_def
      sample_rec_def sample_rd_def sample_ctx_def info_matches_def RMM_MAX_GRANULES_def)

lemma sample_granule_ok: "granule_ok sample_lv sample_par sample_state g"
proof -
  consider "g = 0" | "g \<in> {1, 2, 3}" | "g = 7" | "g \<notin> {0, 1, 2, 3, 7}" by blast
  then show ?thesis
  proof cases
    case 1
    then show ?thesis using sample_rd_ok
      by (simp add: granule_ok_def unlocked_ok_def sample_granule_def)
  next
    case 2
    then show ?thesis using sample_rtt_ok [of g]
      by (auto simp: granule_ok_def unlocked_ok_def sample_granule_def)
  next
    case 3
    then show ?thesis using sample_rec_ok
      by (simp add: granule_ok_def unlocked_ok_def sample_granule_def)
  next
    case 4
    then show ?thesis
      by (simp add: granule_ok_def unlocked_ok_def sample_granule_def sample_content_def)
  qed
qed

lemma inv_sample: "inv sample_state"
  unfolding inv_def inv_with_def using sample_granule_ok sample_links by blast

lemma quiet_sample: "quiet sample_state"
  by (simp add: quiet_def)

end
