(* ===== verification/Memory_Properties.thy ===== *)
theory Memory_Properties
  imports Walk_Correct Rec_Cmds Sample_State
begin

text \<open>
  Properties of the data model: granule numbering, status codes, ordered locking of several
  granules, the index of a REC, the table walk and the folding of tables.
\<close>

section \<open>Granules and status codes\<close>

text \<open>
  The granule of an address and the address of a granule are inverse to each other.
\<close>

theorem granule_index_round_trip:
  "find_granule a = Some g \<longleftrightarrow> g < RMM_MAX_GRANULES \<and> granule_addr g = Some a"
  using find_granule_addr granule_addr_find find_granule_bound by blast

text \<open>
  A status and an index that are packed into a register are read back from it; packing
  is refused exactly when one of them does not fit into eight bits.
\<close>

theorem return_code_round_trip:
  "case pack_return_code status ix of
     None \<Rightarrow> 0xff < status \<or> 0xff < ix
   | Some w \<Rightarrow> unpack_return_code w = make_return_code status ix"
proof (cases "pack_return_code status ix")
  case None
  then have "\<not> (status \<le> 0xff \<and> ix \<le> 0xff)" using pack_return_code_total [of status ix] by auto
  then show ?thesis using None by (simp add: not_le) 
next
  case (Some w)
  then show ?thesis using unpack_pack by simp
qed

section \<open>Locking several granules\<close>

text \<open>
  The sorting of the granules to lock yields a permutation in ascending order of
  address.
\<close>

theorem lock_order_sorted:
  "sorted (map gs_addr (sort_granules gs)) \<and> mset (sort_granules gs) = mset gs"
  by (rule sort_granules_correct)

text \<open>
  C34: two granules are locked together or not at all.  The call returns; it succeeds
  exactly when the addresses differ and both granules have the expected state; the lower
  address is locked first; on failure the state is the one before.
\<close>

theorem lock_pair_all_or_nothing:
  assumes "inv s" and "quiet s"
  shows "case find_lock_two_granules a1 st1 a2 st2 s of
      None \<Rightarrow> False
    | Some (None, t) \<Rightarrow> \<not> pair_available a1 st1 a2 st2 s \<and> same_state s t
    | Some (Some (g1, g2), t) \<Rightarrow> pair_available a1 st1 a2 st2 s
        \<and> find_granule a1 = Some g1 \<and> find_granule a2 = Some g2
        \<and> t = (if a2 < a1 then lock_g g1 st1 (lock_g g2 st2 s) else lock_g g2 st2 (lock_g g1 st1 s))"
proof -
  from assms obtain lv par where inv: "inv_with lv par s" by (auto simp: inv_def)
  have un: "\<And>g. g < RMM_MAX_GRANULES \<Longrightarrow> \<not> glock s g \<and> unlocked_ok s g"
    using assms(2) inv_with_unlocked [OF inv] by (simp add: quiet_def)
  show ?thesis
    by (rule find_lock_two_granules_cases [OF un, of a1 st1 a2 st2]) (auto simp: two_locked_def)
qed

theorem lock_pair_all_or_nothing_witness:
  "case find_lock_two_granules 0x80006000 GRANULE_STATE_DELEGATED 0x80000000 GRANULE_STATE_RD
       sample_state of
      None \<Rightarrow> False
    | Some (None, t) \<Rightarrow> \<not> pair_available 0x80006000 GRANULE_STATE_DELEGATED 0x80000000
        GRANULE_STATE_RD sample_state \<and> same_state sample_state t
    | Some (Some (g1, g2), t) \<Rightarrow> pair_available 0x80006000 GRANULE_STATE_DELEGATED 0x80000000
        GRANULE_STATE_RD sample_state
        \<and> find_granule 0x80006000 = Some g1 \<and> find_granule 0x80000000 = Some g2
        \<and> t = (if (0x80000000::u64) < 0x80006000
             then lock_g g1 GRANULE_STATE_DELEGATED (lock_g g2 GRANULE_STATE_RD sample_state)
             else lock_g g2 GRANULE_STATE_RD (lock_g g1 GRANULE_STATE_DELEGATED sample_state))"
  by (rule lock_pair_all_or_nothing [OF inv_sample quiet_sample])

section \<open>The index of a REC\<close>

lemma bit_rec_idx_parts:
  "bit (MPIDR_EL2_AFF 0 m) n \<longleftrightarrow> n < 4 \<and> bit m n"
  "bit (MPIDR_EL2_AFF 1 m) n \<longleftrightarrow> 4 \<le> n \<and> n < 12 \<and> bit m (n + 4)"
  "bit (MPIDR_EL2_AFF 2 m) n \<longleftrightarrow> 12 \<le> n \<and> n < 20 \<and> bit m (n + 4)"
  "bit (MPIDR_EL2_AFF 3 m) n \<longleftrightarrow> 20 \<le> n \<and> n < 28 \<and> bit m (n + 12)"
  by (auto simp: MPIDR_EL2_AFF_def bit_simps bit_MASK add.commute)

lemma bit_rec_idx:
  "bit (mpidr_to_rec_idx m) n \<longleftrightarrow>
     n < 4 \<and> bit m n \<or> 4 \<le> n \<and> n < 20 \<and> bit m (n + 4) \<or> 20 \<le> n \<and> n < 28 \<and> bit m (n + 12)"
proof -
  let ?a = "MPIDR_EL2_AFF 0 m" and ?b = "MPIDR_EL2_AFF 1 m"
    and ?c = "MPIDR_EL2_AFF 2 m" and ?d = "MPIDR_EL2_AFF 3 m"
  have ab: "?a + ?b = ?a OR ?b" by (rule disjunctive_add) (auto simp: bit_rec_idx_parts simp del: One_nat_def)
  have abc: "(?a OR ?b) + ?c = ?a OR ?b OR ?c"
    by (subst disjunctive_add) (auto simp: bit_rec_idx_parts bit_or_iff or.assoc simp del: One_nat_def)
  have "mpidr_to_rec_idx m = ?a OR ?b OR ?c OR ?d"
    unfolding mpidr_to_rec_idx_def ab abc
    by (subst disjunctive_add) (auto simp: bit_rec_idx_parts bit_or_iff or.assoc simp del: One_nat_def)
  then show ?thesis by (auto simp: bit_or_iff bit_rec_idx_parts simp del: One_nat_def)
qed

lemma bit_valid_mpidr:
  assumes "mpidr_is_valid m" and "bit m n"
  shows "n < 4 \<or> 8 \<le> n \<and> n < 24 \<or> 32 \<le> n \<and> n < 40"
proof (rule ccontr)
  assume no: "\<not> ?thesis"
  have "n < 64" using bit_imp_le_length [OF assms(2)] by simp
  then have "bit (m AND NOT (MASK 4 0 OR MASK 8 8 OR MASK 8 16 OR MASK 8 32)) n"
    using assms(2) no by (auto simp: bit_simps bit_MASK)
  then show False using assms(1) by (simp add: mpidr_is_valid_def)
qed

text \<open>
  C40: distinct valid MPIDR values have distinct REC indices, and every index is below
  2 to the power 28.
\<close>

theorem rec_index_injective:
  assumes "mpidr_is_valid m" and "mpidr_is_valid n"
  shows "(mpidr_to_rec_idx m = mpidr_to_rec_idx n) = (m = n) \<and> unat (mpidr_to_rec_idx m) < 2 ^ 28"
proof
  show "(mpidr_to_rec_idx m = mpidr_to_rec_idx n) = (m = n)"
  proof
    assume eq: "mpidr_to_rec_idx m = mpidr_to_rec_idx n"
    have ix: "bit (mpidr_to_rec_idx m) i = bit (mpidr_to_rec_idx n) i" for i using eq by simp
    have lo: "bit m i = bit n i" if "i < 4" for i using ix [of i] that by (simp add: bit_rec_idx)
    have mid: "bit m i = bit n i" if "8 \<le> i" "i < 24" for i
    proof -
      have "4 \<le> i - 4" "i - 4 < 20" "i - 4 + 4 = i" using that by auto
      then show ?thesis using ix [of "i - 4"] by (auto simp: bit_rec_idx)
    qed
    have hi: "bit m i = bit n i" if "32 \<le> i" "i < 40" for i
    proof -
      have "20 \<le> i - 12" "i - 12 < 28" "i - 12 + 12 = i" using that by auto
      then show ?thesis using ix [of "i - 12"] by (auto simp: bit_rec_idx)
    qed
    show "m = n"
      by (rule bit_eqI) (metis bit_valid_mpidr [OF assms(1)] bit_valid_mpidr [OF assms(2)] lo mid hi)
  qed simp
  have "mpidr_to_rec_idx m = take_bit 28 (mpidr_to_rec_idx m)"
    by (rule bit_eqI) (auto simp: bit_rec_idx bit_take_bit_iff)
  then show "unat (mpidr_to_rec_idx m) < 2 ^ 28"
    by (metis unsigned_take_bit_eq take_bit_nat_less_exp)
qed

theorem rec_index_injective_witness:
  "(mpidr_to_rec_idx 0x100 = mpidr_to_rec_idx 0xf) = ((0x100::u64) = 0xf)
    \<and> unat (mpidr_to_rec_idx 0x100) < 2 ^ 28"
  by (rule rec_index_injective) (simp_all add: mpidr_is_valid_def MASK_def mask_eq_exp_minus_1)

section \<open>The table walk\<close>

text \<open>
  C33: the hand-over-hand walk of a realm's tables returns for every address of the realm;
  it ends at the entry the lock-free specification finds, holds the lock of that table and
  no other, and changes nothing else.
\<close>

theorem walk_meets_specification:
  assumes "inv s" and "quiet s" and g: "find_granule rd_addr = Some g"
    and st: "gst s g = GRANULE_STATE_RD" and rd: "content s g = CRd rd"
    and a: "addr < push_bit (s2_ipa_bits (rd_s2_ctx rd)) 1"
    and l: "s2_starting_level (rd_s2_ctx rd) \<le> level" "level \<le> 3"
  shows "case rtt_walk_lock_unlock (s2_g_rtt (rd_s2_ctx rd)) (s2_starting_level (rd_s2_ctx rd))
      (s2_ipa_bits (rd_s2_ctx rd)) addr level
      (lock_g (s2_g_rtt (rd_s2_ctx rd)) GRANULE_STATE_RTT s) of
      None \<Rightarrow> False
    | Some (wi, s') \<Rightarrow> pt_find (content s) (rd_s2_ctx rd) addr level = (g_llt wi, last_level wi)
        \<and> index wi = s2_addr_to_idx addr (last_level wi)
        \<and> glock s' = (\<lambda>x. x = g_llt wi) \<and> granules s' = granules s \<and> content s' = content s
        \<and> slots s' = slots s"
proof -
  from assms obtain lv par where inv: "inv_with lv par s" by (auto simp: inv_def)
  let ?s = "lock_g (s2_g_rtt (rd_s2_ctx rd)) GRANULE_STATE_RTT s"
  have inv': "inv_with lv par ?s" using inv by (simp add: inv_with_same)
  have "rd_ok lv par ?s g" using inv_with_rd [OF inv' find_granule_bound [OF g]] st by simp
  then have ro: "roots_ok lv ?s (rd_s2_ctx rd)" by (rule rd_ok_roots) (simp add: rd)
  obtain wi s' where w: "rtt_walk_lock_unlock (s2_g_rtt (rd_s2_ctx rd))
      (s2_starting_level (rd_s2_ctx rd)) (s2_ipa_bits (rd_s2_ctx rd)) addr level ?s = Some (wi, s')"
    "walk_result lv ?s (rd_s2_ctx rd) addr level wi" "relocked ?s ((\<lambda>_. False)(g_llt wi := True)) s'"
    by (rule rtt_walk_spec [OF inv' ro a l, of "\<lambda>_. False"])
       (use \<open>quiet s\<close> in \<open>auto simp: quiet_def fun_eq_iff\<close>)
  then show ?thesis by (auto simp: walk_result_def relocked_def fun_eq_iff)
qed

theorem walk_meets_specification_witness:
  "case rtt_walk_lock_unlock 1 1 32 0x1000 3 (lock_g 1 GRANULE_STATE_RTT sample_state) of
      None \<Rightarrow> False
    | Some (wi, s') \<Rightarrow> pt_find (content sample_state) (rd_s2_ctx sample_rd) 0x1000 3
          = (g_llt wi, last_level wi)
        \<and> index wi = s2_addr_to_idx 0x1000 (last_level wi)
        \<and> glock s' = (\<lambda>x. x = g_llt wi) \<and> granules s' = granules sample_state
        \<and> content s' = content sample_state \<and> slots s' = slots sample_state"
  using walk_meets_specification [OF inv_sample quiet_sample,
      where rd_addr = "0x80000000" and g = 0 and rd = sample_rd and addr = "0x1000" and level = 3]
  by (simp add: find_granule_eq in_dram_def GRANULE_ALIGNED_unat sample_granule_def
      sample_content_def sample_rd_def sample_ctx_def word_less_nat_alt)

section \<open>Unfolding and folding\<close>

text \<open>
  C37: a block entry that is unfolded into a table of 512 page entries is recognised by the
  fold check as one contiguous block, with the same output address, for entries that are
  assigned, valid, and valid for the host.
\<close>

theorem unfold_then_fold:
  assumes "addr_is_level_aligned pa 2" and "length t = 512"
  shows "(\<exists>t'. s2tt_init_assigned_empty t pa 3 = Some t' \<and> length t' = 512
      \<and> table_maps_assigned_block t' 3 = Some True \<and> addr_level_mask (t' ! 0) 3 = pa)
    \<and> (\<exists>t'. s2tt_init_valid t pa 3 = Some t' \<and> length t' = 512
      \<and> table_maps_valid_block t' 3 = Some True \<and> addr_level_mask (t' ! 0) 3 = pa)
    \<and> (\<exists>t'. s2tt_init_valid_ns t pa 3 = Some t' \<and> length t' = 512
      \<and> table_maps_valid_ns_block t' 3 = Some True \<and> addr_level_mask (t' ! 0) 3 = pa)"
  using assigned_pages.unfold_fold [OF assms] valid_pages.unfold_fold [OF assms]
    valid_ns_pages.unfold_fold [OF assms]
  by (simp add: s2tt_init_assigned_empty_def s2tt_init_valid_def s2tt_init_valid_ns_def
      table_maps_assigned_block_def table_maps_valid_block_def table_maps_valid_ns_block_def
      s2tte_map_size_def s2tte_values)

theorem unfold_then_fold_witness:
  "(\<exists>t'. s2tt_init_assigned_empty (replicate 512 0) 0x80200000 3 = Some t' \<and> length t' = 512
      \<and> table_maps_assigned_block t' 3 = Some True \<and> addr_level_mask (t' ! 0) 3 = 0x80200000)
    \<and> (\<exists>t'. s2tt_init_valid (replicate 512 0) 0x80200000 3 = Some t' \<and> length t' = 512
      \<and> table_maps_valid_block t' 3 = Some True \<and> addr_level_mask (t' ! 0) 3 = 0x80200000)
    \<and> (\<exists>t'. s2tt_init_valid_ns (replicate 512 0) 0x80200000 3 = Some t' \<and> length t' = 512
      \<and> table_maps_valid_ns_block t' 3 = Some True \<and> addr_level_mask (t' ! 0) 3 = 0x80200000)"
  by (rule unfold_then_fold) (simp_all add: addr_is_level_aligned_def)

text \<open>
  C38: what s2tte_create_valid_ns makes of any entry of the host at level 2 is recognised
  neither as a valid block of the host nor as one of the realm, although the creator accepts
  that level: the block that RTT.MapUnprotected writes there is not recognised by the code that
  reads it back.
\<close>

theorem level_2_blocks_not_recognised:
  "case s2tte_create_valid_ns host_entry 2 of
     None \<Rightarrow> False
   | Some e \<Rightarrow> \<not> s2tte_is_valid_ns e 2 \<and> \<not> s2tte_is_valid e 2"
  using level2_block_not_valid by (simp add: s2tte_create_valid_ns_def s2tte_values)

end
