(* ===== verification/Esr.thy ===== *)
theory Esr
  imports RMM_Prelude
begin

text \<open>
  The exception syndrome of an exit from a realm: the fields of ESR_EL2 and the other
  registers that describe an exit (lib/arch/include/arch.h), and the functions of
  lib/arch/include/esr.h that decode an abort.
\<close>

named_theorems arch_consts \<open>the values of the register fields\<close>

section \<open>Exception classes\<close>

definition ESR_EL2_EC_MASK :: u64 where [arch_consts]: "ESR_EL2_EC_MASK = MASK 6 26"
definition ESR_EL2_IL_MASK :: u64 where [arch_consts]: "ESR_EL2_IL_MASK = MASK 1 25"
definition ESR_EL2_ISS_MASK :: u64 where [arch_consts]: "ESR_EL2_ISS_MASK = MASK 25 0"

definition ESR_EL2_EC_UNKNOWN :: u64 where [arch_consts]: "ESR_EL2_EC_UNKNOWN = INPLACE 26 0"
definition ESR_EL2_EC_WFX :: u64 where [arch_consts]: "ESR_EL2_EC_WFX = INPLACE 26 1"
definition ESR_EL2_EC_FPU :: u64 where [arch_consts]: "ESR_EL2_EC_FPU = INPLACE 26 7"
definition ESR_EL2_EC_HVC :: u64 where [arch_consts]: "ESR_EL2_EC_HVC = INPLACE 26 22"
definition ESR_EL2_EC_SMC :: u64 where [arch_consts]: "ESR_EL2_EC_SMC = INPLACE 26 23"
definition ESR_EL2_EC_SYSREG :: u64 where [arch_consts]: "ESR_EL2_EC_SYSREG = INPLACE 26 24"
definition ESR_EL2_EC_INST_ABORT :: u64 where
  [arch_consts]: "ESR_EL2_EC_INST_ABORT = INPLACE 26 32"
definition ESR_EL2_EC_DATA_ABORT :: u64 where
  [arch_consts]: "ESR_EL2_EC_DATA_ABORT = INPLACE 26 36"

section \<open>Fields of an abort\<close>

definition ESR_EL2_ABORT_ISV_BIT :: u64 where
  [arch_consts]: "ESR_EL2_ABORT_ISV_BIT = push_bit 24 1"
definition ESR_EL2_ABORT_SAS_MASK :: u64 where [arch_consts]: "ESR_EL2_ABORT_SAS_MASK = MASK 2 22"
definition ESR_EL2_ABORT_SSE_BIT :: u64 where
  [arch_consts]: "ESR_EL2_ABORT_SSE_BIT = push_bit 21 1"
definition ESR_EL2_ABORT_SF_BIT :: u64 where
  [arch_consts]: "ESR_EL2_ABORT_SF_BIT = push_bit 15 1"
definition ESR_EL2_ABORT_SET_MASK :: u64 where [arch_consts]: "ESR_EL2_ABORT_SET_MASK = MASK 2 11"
definition ESR_EL2_ABORT_SET_UER :: u64 where
  [arch_consts]: "ESR_EL2_ABORT_SET_UER = INPLACE 11 0"
definition ESR_EL2_ABORT_SET_UC :: u64 where [arch_consts]: "ESR_EL2_ABORT_SET_UC = INPLACE 11 2"
definition ESR_EL2_ABORT_SET_UEO :: u64 where
  [arch_consts]: "ESR_EL2_ABORT_SET_UEO = INPLACE 11 3"
definition ESR_EL2_ABORT_FNV_BIT :: u64 where
  [arch_consts]: "ESR_EL2_ABORT_FNV_BIT = push_bit 10 1"
definition ESR_EL2_ABORT_EA_BIT :: u64 where [arch_consts]: "ESR_EL2_ABORT_EA_BIT = push_bit 9 1"
definition ESR_EL2_ABORT_S1PTW_BIT :: u64 where
  [arch_consts]: "ESR_EL2_ABORT_S1PTW_BIT = push_bit 7 1"
definition ESR_EL2_ABORT_WNR_BIT :: u64 where
  [arch_consts]: "ESR_EL2_ABORT_WNR_BIT = push_bit 6 1"
definition ESR_EL2_ABORT_FSC_MASK :: u64 where [arch_consts]: "ESR_EL2_ABORT_FSC_MASK = MASK 6 0"
definition ESR_EL2_ABORT_FSC_TRANSLATION_FAULT :: u64 where
  [arch_consts]: "ESR_EL2_ABORT_FSC_TRANSLATION_FAULT = 4"
definition ESR_EL2_ABORT_FSC_TRANSLATION_FAULT_L0 :: u64 where
  [arch_consts]: "ESR_EL2_ABORT_FSC_TRANSLATION_FAULT_L0 = 4"
definition ESR_EL2_ABORT_FSC_SEA :: u64 where [arch_consts]: "ESR_EL2_ABORT_FSC_SEA = 0x10"
definition ESR_EL2_ABORT_FSC_SEA_TTW_START :: u64 where
  [arch_consts]: "ESR_EL2_ABORT_FSC_SEA_TTW_START = 0x13"
definition ESR_EL2_ABORT_FSC_SEA_TTW_END :: u64 where
  [arch_consts]: "ESR_EL2_ABORT_FSC_SEA_TTW_END = 0x17"
definition ESR_EL2_ABORT_FSC_LEVEL_MASK :: u64 where
  [arch_consts]: "ESR_EL2_ABORT_FSC_LEVEL_MASK = MASK 2 0"

definition ESR_NONEMULATED_ABORT_MASK :: u64 where
  [arch_consts]: "ESR_NONEMULATED_ABORT_MASK = ESR_EL2_EC_MASK OR ESR_EL2_ABORT_SET_MASK
     OR ESR_EL2_ABORT_FNV_BIT OR ESR_EL2_ABORT_EA_BIT OR ESR_EL2_ABORT_FSC_MASK"

definition ESR_EMULATED_ABORT_MASK :: u64 where
  [arch_consts]: "ESR_EMULATED_ABORT_MASK = ESR_NONEMULATED_ABORT_MASK OR ESR_EL2_ABORT_ISV_BIT
     OR ESR_EL2_ABORT_SAS_MASK OR ESR_EL2_ABORT_SF_BIT OR ESR_EL2_ABORT_WNR_BIT"

section \<open>Fields of an SError\<close>

definition ESR_EL2_SERROR_DFSC_MASK :: u64 where
  [arch_consts]: "ESR_EL2_SERROR_DFSC_MASK = MASK 6 0"
definition ESR_EL2_SERROR_DFSC_ASYNC :: u64 where
  [arch_consts]: "ESR_EL2_SERROR_DFSC_ASYNC = INPLACE 0 1"
definition ESR_EL2_SERROR_EA_BIT :: u64 where
  [arch_consts]: "ESR_EL2_SERROR_EA_BIT = push_bit 9 1"
definition ESR_EL2_SERROR_AET_MASK :: u64 where
  [arch_consts]: "ESR_EL2_SERROR_AET_MASK = MASK 3 10"
definition ESR_EL2_SERROR_AET_UC :: u64 where
  [arch_consts]: "ESR_EL2_SERROR_AET_UC = INPLACE 10 0"
definition ESR_EL2_SERROR_AET_UEU :: u64 where
  [arch_consts]: "ESR_EL2_SERROR_AET_UEU = INPLACE 10 1"
definition ESR_EL2_SERROR_AET_UEO :: u64 where
  [arch_consts]: "ESR_EL2_SERROR_AET_UEO = INPLACE 10 2"
definition ESR_EL2_SERROR_AET_UER :: u64 where
  [arch_consts]: "ESR_EL2_SERROR_AET_UER = INPLACE 10 3"
definition ESR_EL2_SERROR_AET_CE :: u64 where
  [arch_consts]: "ESR_EL2_SERROR_AET_CE = INPLACE 10 6"
definition ESR_EL2_SERROR_IDS_BIT :: u64 where
  [arch_consts]: "ESR_EL2_SERROR_IDS_BIT = push_bit 24 1"

definition ESR_SERROR_MASK :: u64 where
  [arch_consts]: "ESR_SERROR_MASK = ESR_EL2_SERROR_IDS_BIT OR ESR_EL2_SERROR_AET_MASK
     OR ESR_EL2_SERROR_EA_BIT OR ESR_EL2_SERROR_DFSC_MASK"

section \<open>Trapped system register accesses\<close>

definition SYSREG_ESR :: "u64 \<Rightarrow> u64 \<Rightarrow> u64 \<Rightarrow> u64 \<Rightarrow> u64 \<Rightarrow> u64" where
  "SYSREG_ESR op0 op1 crn crm op2 =
     push_bit 20 op0 OR push_bit 14 op1 OR push_bit 10 crn OR push_bit 1 crm OR push_bit 17 op2"

definition ESR_EL2_SYSREG_TRAP_RT_MASK :: u64 where
  [arch_consts]: "ESR_EL2_SYSREG_TRAP_RT_MASK = MASK 5 5"
definition ESR_EL2_SYSREG_DIRECTION :: u64 where
  [arch_consts]: "ESR_EL2_SYSREG_DIRECTION = push_bit 0 1"

definition ESR_EL2_SYSREG_IS_WRITE :: "u64 \<Rightarrow> bool" where
  "ESR_EL2_SYSREG_IS_WRITE esr = (esr AND ESR_EL2_SYSREG_DIRECTION = 0)"

definition ESR_IL :: "u64 \<Rightarrow> u64" where
  "ESR_IL esr = esr AND ESR_EL2_IL_MASK"

definition ESR_ISS :: "u64 \<Rightarrow> u64" where
  "ESR_ISS esr = esr AND ESR_EL2_ISS_MASK"

definition ESR_EL2_SYSREG_ISS_RT :: "u64 \<Rightarrow> u32" where
  "ESR_EL2_SYSREG_ISS_RT esr = ucast (drop_bit 5 (ESR_ISS esr AND ESR_EL2_SYSREG_TRAP_RT_MASK))"

definition ESR_EL2_WFx_TI_BIT :: u64 where [arch_consts]: "ESR_EL2_WFx_TI_BIT = push_bit 0 1"

section \<open>Other registers of an exit\<close>

definition HPFAR_EL2_FIPA_MASK :: u64 where [arch_consts]: "HPFAR_EL2_FIPA_MASK = MASK 40 4"
definition HPFAR_EL2_FIPA_OFFSET :: nat where [arch_consts]: "HPFAR_EL2_FIPA_OFFSET = 8"

definition SPSR_EL2_MODE_MASK :: u64 where [arch_consts]: "SPSR_EL2_MODE_MASK = MASK 4 0"
definition SPSR_EL2_MODE_EL0t :: u64 where [arch_consts]: "SPSR_EL2_MODE_EL0t = INPLACE 0 0"
definition SPSR_EL2_MODE_EL1h :: u64 where [arch_consts]: "SPSR_EL2_MODE_EL1h = INPLACE 0 5"
definition SPSR_EL2_MODE_EL1t :: u64 where [arch_consts]: "SPSR_EL2_MODE_EL1t = INPLACE 0 4"
definition SPSR_EL2_nRW_MASK :: u64 where [arch_consts]: "SPSR_EL2_nRW_MASK = MASK 1 4"
definition SPSR_EL2_nRW_AARCH64 :: u64 where [arch_consts]: "SPSR_EL2_nRW_AARCH64 = INPLACE 4 0"
definition SPSR_EL2_nRW_AARCH32 :: u64 where [arch_consts]: "SPSR_EL2_nRW_AARCH32 = INPLACE 4 1"
definition SPSR_EL2_F_BIT :: u64 where [arch_consts]: "SPSR_EL2_F_BIT = INPLACE 6 1"
definition SPSR_EL2_I_BIT :: u64 where [arch_consts]: "SPSR_EL2_I_BIT = INPLACE 7 1"
definition SPSR_EL2_A_BIT :: u64 where [arch_consts]: "SPSR_EL2_A_BIT = INPLACE 8 1"
definition SPSR_EL2_D_BIT :: u64 where [arch_consts]: "SPSR_EL2_D_BIT = INPLACE 9 1"

definition HCR_TWE :: u64 where [arch_consts]: "HCR_TWE = push_bit 14 1"
definition HCR_TWI :: u64 where [arch_consts]: "HCR_TWI = push_bit 13 1"
definition HCR_VSE :: u64 where [arch_consts]: "HCR_VSE = push_bit 8 1"

definition VBAR_CEL_SP_EL0_OFFSET :: u64 where [arch_consts]: "VBAR_CEL_SP_EL0_OFFSET = 0"
definition VBAR_CEL_SP_ELx_OFFSET :: u64 where [arch_consts]: "VBAR_CEL_SP_ELx_OFFSET = 0x200"
definition VBAR_LEL_AA64_OFFSET :: u64 where [arch_consts]: "VBAR_LEL_AA64_OFFSET = 0x400"
definition VBAR_LEL_AA32_OFFSET :: u64 where [arch_consts]: "VBAR_LEL_AA32_OFFSET = 0x600"

definition ARM_EXCEPTION_SYNC_LEL :: int where [arch_consts]: "ARM_EXCEPTION_SYNC_LEL = 0"
definition ARM_EXCEPTION_IRQ_LEL :: int where [arch_consts]: "ARM_EXCEPTION_IRQ_LEL = 1"
definition ARM_EXCEPTION_FIQ_LEL :: int where [arch_consts]: "ARM_EXCEPTION_FIQ_LEL = 2"
definition ARM_EXCEPTION_SERROR_LEL :: int where [arch_consts]: "ARM_EXCEPTION_SERROR_LEL = 3"

section \<open>Decoding an abort\<close>

definition esr_srt :: "u64 \<Rightarrow> u32" where
  "esr_srt esr = ucast (EXTRACT 5 16 esr)"

definition esr_is_write :: "u64 \<Rightarrow> bool" where
  "esr_is_write esr = (esr AND ESR_EL2_ABORT_WNR_BIT \<noteq> 0)"

definition esr_sign_extend :: "u64 \<Rightarrow> bool" where
  "esr_sign_extend esr = (esr AND ESR_EL2_ABORT_SSE_BIT \<noteq> 0)"

definition esr_sixty_four :: "u64 \<Rightarrow> bool" where
  "esr_sixty_four esr = (esr AND ESR_EL2_ABORT_SF_BIT \<noteq> 0)"

definition esr_sas :: "u64 \<Rightarrow> u32" where
  "esr_sas esr = ucast (EXTRACT 2 22 esr)"

definition access_len :: "u64 \<Rightarrow> u32 option" where
  "access_len esr =
     (if esr_sas esr = 0 then Some 1
      else if esr_sas esr = 1 then Some 2
      else if esr_sas esr = 2 then Some 4
      else do { assert_c (esr_sas esr = 3); Some 8 })"

definition access_mask :: "u64 \<Rightarrow> u64 option" where
  "access_mask esr =
     (if esr_sas esr = 0 then Some 0xff
      else if esr_sas esr = 1 then Some 0xffff
      else if esr_sas esr = 2 then Some 0xffffffff
      else do { assert_c (esr_sas esr = 3); Some (- 1) })"

definition esr_sysreg_rt :: "u64 \<Rightarrow> u32" where
  "esr_sysreg_rt esr = ucast (EXTRACT 5 5 esr)"

section \<open>Facts\<close>

lemma field_le:
  "unat (EXTRACT w sh e) < 2 ^ w" if "w < 64"
proof -
  have b: "bit (MASK w sh) n \<Longrightarrow> n < sh + w" for n by (auto simp: bit_MASK)
  have "EXTRACT w sh e = take_bit w (EXTRACT w sh e)"
    by (rule bit_word_eqI) (auto simp: EXTRACT_def bit_simps bit_MASK)
  then have "unat (EXTRACT w sh e) = take_bit w (unat (EXTRACT w sh e))"
    by (metis unsigned_take_bit_eq)
  then show ?thesis by (metis take_bit_nat_less_exp)
qed

lemma register_numbers:
  "unat (esr_srt e) < 32" "unat (esr_sysreg_rt e) < 32" "unat (esr_sas e) < 4"
  using field_le [of 5 16 e] field_le [of 5 5 e] field_le [of 2 22 e]
  by (simp_all add: esr_srt_def esr_sysreg_rt_def esr_sas_def unsigned_ucast_eq)
     (simp_all add: take_bit_eq_mod)

lemma access_total: "\<exists>n. access_len e = Some n" "\<exists>m. access_mask e = Some m"
proof -
  have "esr_sas e \<noteq> 0 \<Longrightarrow> esr_sas e \<noteq> 1 \<Longrightarrow> esr_sas e \<noteq> 2 \<Longrightarrow> esr_sas e = 3"
    using register_numbers(3) [of e] by unat_arith
  then show "\<exists>n. access_len e = Some n" "\<exists>m. access_mask e = Some m"
    by (auto simp: access_len_def access_mask_def)
qed

end
