(* ===== verification/Cpu_State.thy ===== *)
theory Cpu_State
  imports RMM_State Esr
begin

text \<open>
  The processing element that runs a REC: its registers, the state of the host that is
  saved while the realm runs (\<^verbatim>\<open>struct ns_state\<close> of lib/realm/include/rec.h), the
  structures the host passes at REC entry and reads at REC exit
  (lib/realm/include/smc-rmi.h), and the routines that swap registers
  (runtime/core/run.c, lib/arch/src/aarch64/fpu_helpers.S, lib/realm/src/sve.c).
\<close>

section \<open>Entry and exit records\<close>

definition REC_EXIT_NR_GPRS :: nat where "REC_EXIT_NR_GPRS = 31"

text \<open>\<open>entry_gprs\<close> and \<open>exit_gprs\<close> have 31 entries, the list registers 16.\<close>

record rmi_rec_entry =
  entry_flags :: u64
  entry_gprs :: "u64 list"
  entry_gicv3_hcr :: u64
  entry_gicv3_lrs :: "u64 list"

record rmi_rec_exit =
  exit_reason :: u64
  exit_esr :: u64
  exit_far :: u64
  exit_hpfar :: u64
  exit_gprs :: "u64 list"
  exit_gicv3_hcr :: u64
  exit_gicv3_lrs :: "u64 list"
  exit_gicv3_misr :: u64
  exit_gicv3_vmcr :: u64
  exit_cntp_ctl :: u64
  exit_cntp_cval :: u64
  exit_cntv_ctl :: u64
  exit_cntv_cval :: u64
  ripas_base :: u64
  ripas_size :: u64
  ripas_value :: u8
  exit_imm :: u32

definition zero_exit :: rmi_rec_exit where
  "zero_exit = \<lparr>exit_reason = 0, exit_esr = 0, exit_far = 0, exit_hpfar = 0,
     exit_gprs = replicate 31 0, exit_gicv3_hcr = 0, exit_gicv3_lrs = replicate 16 0,
     exit_gicv3_misr = 0, exit_gicv3_vmcr = 0, exit_cntp_ctl = 0, exit_cntp_cval = 0,
     exit_cntv_ctl = 0, exit_cntv_cval = 0, ripas_base = 0, ripas_size = 0, ripas_value = 0,
     exit_imm = 0\<rparr>"

definition REC_ENTRY_FLAG_EMUL_MMIO :: u64 where
  [arch_consts]: "REC_ENTRY_FLAG_EMUL_MMIO = push_bit 0 1"
definition REC_ENTRY_FLAG_INJECT_SEA :: u64 where
  [arch_consts]: "REC_ENTRY_FLAG_INJECT_SEA = push_bit 1 1"
definition REC_ENTRY_FLAG_TRAP_WFI :: u64 where
  [arch_consts]: "REC_ENTRY_FLAG_TRAP_WFI = push_bit 2 1"
definition REC_ENTRY_FLAG_TRAP_WFE :: u64 where
  [arch_consts]: "REC_ENTRY_FLAG_TRAP_WFE = push_bit 3 1"

definition RMI_EXIT_SYNC :: u64 where [arch_consts]: "RMI_EXIT_SYNC = 0"
definition RMI_EXIT_IRQ :: u64 where [arch_consts]: "RMI_EXIT_IRQ = 1"
definition RMI_EXIT_FIQ :: u64 where [arch_consts]: "RMI_EXIT_FIQ = 2"
definition RMI_EXIT_PSCI :: u64 where [arch_consts]: "RMI_EXIT_PSCI = 3"
definition RMI_EXIT_RIPAS_CHANGE :: u64 where [arch_consts]: "RMI_EXIT_RIPAS_CHANGE = 4"
definition RMI_EXIT_HOST_CALL :: u64 where [arch_consts]: "RMI_EXIT_HOST_CALL = 5"
definition RMI_EXIT_SERROR :: u64 where [arch_consts]: "RMI_EXIT_SERROR = 6"
definition RMI_EXIT_TRIGGER_TESTENGINE :: u64 where
  [arch_consts]: "RMI_EXIT_TRIGGER_TESTENGINE = 0xC"

section \<open>Registers of the processing element\<close>

text \<open>
  The vector registers at their full length: 32 Z registers, 16 predicate registers and
  the first fault register.  The Q registers are the low 128 bits of the Z registers.
\<close>

record simd_regs =
  v_z :: "2048 word list"
  v_p :: "256 word list"
  v_ffr :: "256 word"
  v_fpsr :: u64
  v_fpcr :: u64
  v_zcr_el1 :: u64
  v_zcr_el2 :: u64

record sve_state =
  sve_zcr_fpu :: "u64 list"
  sve_z :: "2048 word list"
  sve_p_ffr :: "256 word list"

text \<open>
  The pointers \<^verbatim>\<open>fpu\<close> and \<^verbatim>\<open>sve\<close> of \<^verbatim>\<open>struct ns_state\<close> both point to the CPU's buffer
  \<^verbatim>\<open>g_sve_data\<close> when they are set; of its two readings only one is ever used, as the
  choice depends on an identification register.
\<close>

record ns_state =
  ns_sysregs :: sysreg_state
  ns_icc_sre_el2 :: u64
  ns_fpu :: bool
  ns_sve :: bool

text \<open>
  \<open>hw\<close> is the bank of the registers that \<open>sysreg_state\<close> saves: the registers of EL0 and
  EL1 (read by the code through their EL12 and EL02 names), the timers, the interface of
  the interrupt controller, and CNTHCTL_EL2, VMPIDR_EL2 and HCR_EL2.  The values that
  successive reads of ISR_EL1 and ICC_HPPIR1_EL1 deliver are lists, as they change without
  the code's doing.  \<open>heap_ctx\<close> tells whether the CPU has a heap assigned to it.
\<close>

record pe =
  hw :: sysreg_state
  hw_elr_el2 :: u64
  hw_spsr_el2 :: u64
  hw_esr_el2 :: u64
  hw_far_el2 :: u64
  hw_hpfar_el2 :: u64
  hw_vsesr_el2 :: u64
  hw_vtcr_el2 :: u64
  hw_vttbr_el2 :: u64
  hw_cptr_el2 :: u64
  hw_icc_sre_el2 :: u64
  hw_simd :: simd_regs
  isr_reads :: "u64 list"
  hppir_reads :: "u64 list"
  ns_data :: ns_state
  sve_data :: sve_state
  fpu_data :: fpu_state
  heap_ctx :: bool

definition on_hw :: "(sysreg_state \<Rightarrow> sysreg_state) \<Rightarrow> pe \<Rightarrow> pe" where
  "on_hw f p = p\<lparr>hw := f (hw p)\<rparr>"

section \<open>System registers\<close>

text \<open>
  The registers are read one after the other into the structure \<open>sr\<close>, whose other
  fields stay as they are: CNTHCTL_EL2, the interrupt controller, VMPIDR_EL2 and HCR_EL2
  are not among them, nor is ZCR_EL1.
\<close>

definition save_sysreg_state :: "pe \<Rightarrow> sysreg_state \<Rightarrow> sysreg_state" where
  "save_sysreg_state p sr =
     sr\<lparr>
       sp_el0 := sp_el0 (hw p), sp_el1 := sp_el1 (hw p), elr_el1 := elr_el1 (hw p),
       spsr_el1 := spsr_el1 (hw p), pmcr_el0 := pmcr_el0 (hw p),
       pmuserenr_el0 := pmuserenr_el0 (hw p), tpidrro_el0 := tpidrro_el0 (hw p),
       tpidr_el0 := tpidr_el0 (hw p), csselr_el1 := csselr_el1 (hw p),
       sctlr_el1 := sctlr_el1 (hw p), actlr_el1 := actlr_el1 (hw p),
       cpacr_el1 := cpacr_el1 (hw p), ttbr0_el1 := ttbr0_el1 (hw p),
       ttbr1_el1 := ttbr1_el1 (hw p), tcr_el1 := tcr_el1 (hw p), esr_el1 := esr_el1 (hw p),
       afsr0_el1 := afsr0_el1 (hw p), afsr1_el1 := afsr1_el1 (hw p),
       far_el1 := far_el1 (hw p), mair_el1 := mair_el1 (hw p), vbar_el1 := vbar_el1 (hw p),
       contextidr_el1 := contextidr_el1 (hw p), tpidr_el1 := tpidr_el1 (hw p),
       amair_el1 := amair_el1 (hw p), cntkctl_el1 := cntkctl_el1 (hw p),
       par_el1 := par_el1 (hw p), mdscr_el1 := mdscr_el1 (hw p),
       mdccint_el1 := mdccint_el1 (hw p), disr_el1 := disr_el1 (hw p),
       cntpoff_el2 := cntpoff_el2 (hw p), cntvoff_el2 := cntvoff_el2 (hw p),
       cntp_ctl_el0 := cntp_ctl_el0 (hw p), cntp_cval_el0 := cntp_cval_el0 (hw p),
       cntv_ctl_el0 := cntv_ctl_el0 (hw p), cntv_cval_el0 := cntv_cval_el0 (hw p)\<rparr>"

text \<open>
  The registers that are written from the structure; VMPIDR_EL2 is written here although
  it is not saved above.
\<close>

definition restore_sysreg_state :: "sysreg_state \<Rightarrow> pe \<Rightarrow> pe" where
  "restore_sysreg_state sr = on_hw (\<lambda>r. r\<lparr>
       sp_el0 := sp_el0 sr, sp_el1 := sp_el1 sr, elr_el1 := elr_el1 sr,
       spsr_el1 := spsr_el1 sr, pmcr_el0 := pmcr_el0 sr, pmuserenr_el0 := pmuserenr_el0 sr,
       tpidrro_el0 := tpidrro_el0 sr, tpidr_el0 := tpidr_el0 sr, csselr_el1 := csselr_el1 sr,
       sctlr_el1 := sctlr_el1 sr, actlr_el1 := actlr_el1 sr, cpacr_el1 := cpacr_el1 sr,
       ttbr0_el1 := ttbr0_el1 sr, ttbr1_el1 := ttbr1_el1 sr, tcr_el1 := tcr_el1 sr,
       esr_el1 := esr_el1 sr, afsr0_el1 := afsr0_el1 sr, afsr1_el1 := afsr1_el1 sr,
       far_el1 := far_el1 sr, mair_el1 := mair_el1 sr, vbar_el1 := vbar_el1 sr,
       contextidr_el1 := contextidr_el1 sr, tpidr_el1 := tpidr_el1 sr,
       amair_el1 := amair_el1 sr, cntkctl_el1 := cntkctl_el1 sr, par_el1 := par_el1 sr,
       mdscr_el1 := mdscr_el1 sr, mdccint_el1 := mdccint_el1 sr, disr_el1 := disr_el1 sr,
       vmpidr_el2 := vmpidr_el2 sr, cntpoff_el2 := cntpoff_el2 sr,
       cntvoff_el2 := cntvoff_el2 sr, cntp_cval_el0 := cntp_cval_el0 sr,
       cntp_ctl_el0 := cntp_ctl_el0 sr, cntv_cval_el0 := cntv_cval_el0 sr,
       cntv_ctl_el0 := cntv_ctl_el0 sr\<rparr>)"

section \<open>SIMD registers\<close>

definition fpu_save_state :: "pe \<Rightarrow> fpu_state" where
  "fpu_save_state p =
     \<lparr>fpu_q = map ucast (v_z (hw_simd p)), fpu_fpsr = v_fpsr (hw_simd p),
      fpu_fpcr = v_fpcr (hw_simd p)\<rparr>"

text \<open>A write to a Q register clears the upper bits of the Z register it is part of.\<close>

definition fpu_restore_state :: "fpu_state \<Rightarrow> pe \<Rightarrow> pe" where
  "fpu_restore_state fpu p =
     p\<lparr>hw_simd := (hw_simd p)\<lparr>v_z := map ucast (fpu_q fpu), v_fpsr := fpu_fpsr fpu,
                               v_fpcr := fpu_fpcr fpu\<rparr>\<rparr>"

definition save_sve_state :: "pe \<Rightarrow> sve_state" where
  "save_sve_state p =
     (let v = hw_simd p
      in \<lparr>sve_zcr_fpu = [v_fpsr v, v_fpcr v, v_zcr_el1 v, v_zcr_el2 v], sve_z = v_z v,
          sve_p_ffr = v_p v @ [v_ffr v]\<rparr>)"

definition restore_sve_state :: "sve_state \<Rightarrow> pe \<Rightarrow> pe" where
  "restore_sve_state sve p =
     p\<lparr>hw_simd :=
         \<lparr>v_z = sve_z sve, v_p = butlast (sve_p_ffr sve), v_ffr = last (sve_p_ffr sve),
          v_fpsr = sve_zcr_fpu sve ! 0, v_fpcr = sve_zcr_fpu sve ! 1,
          v_zcr_el1 = sve_zcr_fpu sve ! 2, v_zcr_el2 = sve_zcr_fpu sve ! 3\<rparr>\<rparr>"

section \<open>Round trips\<close>

lemma restore_save_sve: "hw_simd (restore_sve_state (save_sve_state p) q) = hw_simd p"
  by (simp add: restore_sve_state_def save_sve_state_def Let_def)

lemma fpu_save_restore:
  "fpu_save_state (fpu_restore_state f p) = f"
proof -
  have "map ucast (map ucast q :: 2048 word list) = q" for q :: "128 word list"
    by (simp add: comp_def ucast_down_ucast_id is_down)
  then show ?thesis by (simp add: fpu_save_state_def fpu_restore_state_def)
qed

end
