(* ===== verification/Rsi_Memory.thy ===== *)
theory Rsi_Memory
  imports Rtt_Walk Cpu_State Byte_Memory
begin

text \<open>
  Calls of a realm that look at its own address space: runtime/rsi/realm_ipa_helper.c,
  runtime/rsi/memory.c and runtime/rsi/config.c.
\<close>

section \<open>Translation of a realm IPA\<close>

datatype s2_walk_status = WALK_SUCCESS | WALK_INVALID_PARAMS | WALK_FAIL

record s2_walk_result =
  w_pa :: u64
  w_rtt_level :: u64
  w_ripas :: ripas
  w_destroyed :: bool
  w_llt :: nat

definition s2_walk_result_match_ripas :: "s2_walk_result \<Rightarrow> ripas \<Rightarrow> bool" where
  "s2_walk_result_match_ripas res ripas = (\<not> w_destroyed res \<and> w_ripas res = ripas)"

text \<open>
  \<open>res\<close> is the caller's structure as it comes in.  No path stores \<^verbatim>\<open>false\<close> in
  \<^verbatim>\<open>destroyed\<close>: after a failed walk the field is what the caller left there unless the
  entry is destroyed.
\<close>

definition realm_ipa_to_pa ::
  "rd \<Rightarrow> u64 \<Rightarrow> s2_walk_result \<Rightarrow> rmm \<Rightarrow> ((s2_walk_status \<times> s2_walk_result) \<times> rmm) option"
where
  "realm_ipa_to_pa rd ipa res s =
     (if \<not> GRANULE_ALIGNED ipa \<or> \<not> addr_in_par rd ipa
      then Some ((WALK_INVALID_PARAMS, res), s)
      else do {
        let g_table_root = s2_g_rtt (rd_s2_ctx rd);
        s \<leftarrow> granule_lock g_table_root GRANULE_STATE_RTT s;
        (wi, s) \<leftarrow> rtt_walk_lock_unlock g_table_root (realm_rtt_starting_level rd)
                     (realm_ipa_bits rd) ipa RTT_PAGE_LEVEL s;
        s \<leftarrow> granule_map (g_llt wi) SLOT_RTT s;
        let res = res\<lparr>w_llt := g_llt wi\<rparr>;
        s2tte \<leftarrow> s2tte_read (g_llt wi) (index wi) s;
        if \<not> s2tte_is_valid s2tte (last_level wi) then do {
          let res = res\<lparr>w_rtt_level := word_of_int (last_level wi)\<rparr>;
          res \<leftarrow> (if s2tte_is_destroyed s2tte then Some (res\<lparr>w_destroyed := True\<rparr>)
                  else do { ripas \<leftarrow> s2tte_get_ripas s2tte; Some (res\<lparr>w_ripas := ripas\<rparr>) });
          s \<leftarrow> granule_unlock (g_llt wi) s;
          Some ((WALK_FAIL, res), buffer_unmap SLOT_RTT s)
        } else do {
          pa \<leftarrow> s2tte_pa s2tte (last_level wi);
          map_size \<leftarrow> s2tte_map_size (last_level wi);
          let offset = ipa AND (map_size - 1);
          let res = res\<lparr>w_pa := pa + offset, w_ripas := RMI_RAM\<rparr>;
          Some ((WALK_SUCCESS, res), buffer_unmap SLOT_RTT s)
        }
      })"

text \<open>\<open>Inl\<close> is the level of a failed walk (\<^verbatim>\<open>WALK_FAIL\<close>), \<open>Inr\<close> the RIPAS.\<close>

definition realm_ipa_get_ripas :: "rec \<Rightarrow> u64 \<Rightarrow> rmm \<Rightarrow> ((u64 + ripas) \<times> rmm) option" where
  "realm_ipa_get_ripas rec ipa s = do {
     assert_c (GRANULE_ALIGNED ipa);
     assert_c (addr_in_rec_par rec ipa);
     let ri = rec_realm_info rec;
     s \<leftarrow> granule_lock (ri_g_rtt ri) GRANULE_STATE_RTT s;
     (wi, s) \<leftarrow> rtt_walk_lock_unlock (ri_g_rtt ri) (ri_s2_starting_level ri) (ri_ipa_bits ri)
                  ipa RTT_PAGE_LEVEL s;
     s \<leftarrow> granule_map (g_llt wi) SLOT_RTT s;
     s2tte \<leftarrow> s2tte_read (g_llt wi) (index wi) s;
     ws \<leftarrow> (if s2tte_is_destroyed s2tte then Some (Inl (word_of_int (last_level wi)))
            else do { ripas \<leftarrow> s2tte_get_ripas s2tte; Some (Inr ripas) });
     let s = buffer_unmap SLOT_RTT s;
     s \<leftarrow> granule_unlock (g_llt wi) s;
     Some (ws, s)
   }"

section \<open>RSI_IPA_STATE_SET and RSI_IPA_STATE_GET\<close>

definition RSI_SUCCESS :: u64 where [word_consts]: "RSI_SUCCESS = 0"
definition RSI_ERROR_INPUT :: u64 where [word_consts]: "RSI_ERROR_INPUT = 1"

definition ripas_of_reg :: "u64 \<Rightarrow> ripas option" where
  "ripas_of_reg v = (let r = (ucast v :: u32)
                     in if r = 0 then Some RMI_EMPTY else if r = 1 then Some RMI_RAM else None)"

text \<open>
  The result is \<^verbatim>\<open>None\<close> where the handler returns true, an error for the realm, and the
  updated REC and exit record where it returns false.
\<close>

definition handle_rsi_ipa_state_set ::
  "rec \<Rightarrow> rmi_rec_exit \<Rightarrow> (rec \<times> rmi_rec_exit) option option" where
  "handle_rsi_ipa_state_set rec rec_exit =
     (let start = rec_regs rec ! 1;
          sz = rec_regs rec ! 2;
          limit = start + sz
      in case ripas_of_reg (rec_regs rec ! 3) of
           None \<Rightarrow> Some None
         | Some ripas \<Rightarrow>
             if \<not> GRANULE_ALIGNED start then Some None
             else if \<not> GRANULE_ALIGNED sz then Some None
             else if limit \<le> start then Some None
             else do {
               inside \<leftarrow> region_in_rec_par rec start limit;
               if \<not> inside then Some None
               else Some (Some
                 (rec\<lparr>rec_set_ripas := \<lparr>sr_start = start, sr_end = limit, sr_addr = start,
                                         sr_ripas = ripas\<rparr>\<rparr>,
                  rec_exit\<lparr>exit_reason := RMI_EXIT_RIPAS_CHANGE, ripas_base := start,
                           ripas_size := sz, ripas_value := ucast (rec_regs rec ! 3)\<rparr>))
             })"

definition RSI_ERROR_STATE :: u64 where [word_consts]: "RSI_ERROR_STATE = 2"
definition RSI_INCOMPLETE :: u64 where [word_consts]: "RSI_INCOMPLETE = 3"

text \<open>The result of the calls that walk: the abort flag with its level, and x0 and x1.\<close>

record rsi_walk_smc_result =
  rw_abort :: bool
  rw_rtt_level :: u64
  rw_x0 :: u64
  rw_x1 :: u64

definition rsi_walk_zero :: rsi_walk_smc_result where
  "rsi_walk_zero = \<lparr>rw_abort = False, rw_rtt_level = 0, rw_x0 = 0, rw_x1 = 0\<rparr>"

definition handle_rsi_ipa_state_get :: "rec \<Rightarrow> rmm \<Rightarrow> (rsi_walk_smc_result \<times> rmm) option" where
  "handle_rsi_ipa_state_get rec s =
     (let ipa = rec_regs rec ! 1
      in if \<not> GRANULE_ALIGNED ipa \<or> \<not> addr_in_rec_par rec ipa
         then Some (rsi_walk_zero\<lparr>rw_x0 := RSI_ERROR_INPUT\<rparr>, s)
         else do {
           (ws, s) \<leftarrow> realm_ipa_get_ripas rec ipa s;
           (case ws of
              Inr ripas \<Rightarrow> Some (rsi_walk_zero\<lparr>rw_x0 := RSI_SUCCESS,
                                  rw_x1 := (if ripas = RMI_EMPTY then 0 else 1)\<rparr>, s)
            | Inl level \<Rightarrow> Some (rsi_walk_zero\<lparr>rw_abort := True, rw_rtt_level := level\<rparr>, s))
         })"

section \<open>RSI_REALM_CONFIG\<close>

text \<open>
  The bytes of a page of the realm.
\<close>

definition page_bytes :: "content \<Rightarrow> u8 list option" where
  "page_bytes c = (case c of CData d \<Rightarrow> Some d | CZero \<Rightarrow> Some (replicate 4096 0) | _ \<Rightarrow> None)"

definition store_bytes :: "nat \<Rightarrow> u8 list \<Rightarrow> u8 list \<Rightarrow> u8 list" where
  "store_bytes off bs data = take off data @ bs @ drop (off + length bs) data"

text \<open>
  The store of the IPA width into the first eight bytes of the realm's page; \<open>res0\<close> below is
  the uninitialised result structure on the stack.
\<close>

definition write_ipa_width :: "nat \<Rightarrow> u64 \<Rightarrow> rmm \<Rightarrow> rmm option" where
  "write_ipa_width g v s = do {
     data \<leftarrow> page_bytes (content s g);
     Some (set_content g (CData (store_bytes 0 (le_bytes v) data)) s)
   }"

definition handle_rsi_realm_config ::
  "rec \<Rightarrow> s2_walk_result \<Rightarrow> rmm \<Rightarrow> (rsi_walk_smc_result \<times> rmm) option" where
  "handle_rsi_realm_config rec res0 s =
     (let ipa = rec_regs rec ! 1
      in if \<not> GRANULE_ALIGNED ipa \<or> \<not> addr_in_rec_par rec ipa
         then Some (rsi_walk_zero\<lparr>rw_x0 := RSI_ERROR_INPUT\<rparr>, s)
         else do {
           let g_rd = ri_g_rd (rec_realm_info rec);
           s \<leftarrow> granule_map g_rd SLOT_RD s;
           rd \<leftarrow> rd_of (content s g_rd);
           ((walk_status, walk_res), s) \<leftarrow> realm_ipa_to_pa rd ipa res0 s;
           (res, s) \<leftarrow>
             (case walk_status of
                WALK_FAIL \<Rightarrow>
                  if s2_walk_result_match_ripas walk_res RMI_EMPTY
                  then Some (rsi_walk_zero\<lparr>rw_x0 := RSI_ERROR_INPUT\<rparr>, s)
                  else Some (rsi_walk_zero\<lparr>rw_abort := True,
                               rw_rtt_level := w_rtt_level walk_res\<rparr>, s)
              | WALK_INVALID_PARAMS \<Rightarrow> Some (rsi_walk_zero\<lparr>rw_x0 := RSI_ERROR_INPUT\<rparr>, s)
              | WALK_SUCCESS \<Rightarrow> do {
                  gr \<leftarrow> find_granule (w_pa walk_res);
                  s \<leftarrow> granule_map gr SLOT_RSI_CALL s;
                  s \<leftarrow> write_ipa_width gr (of_nat (ri_ipa_bits (rec_realm_info rec))) s;
                  let s = buffer_unmap SLOT_RSI_CALL s;
                  s \<leftarrow> granule_unlock (w_llt walk_res) s;
                  Some (rsi_walk_zero\<lparr>rw_x0 := RSI_SUCCESS\<rparr>, s)
                });
           let s = buffer_unmap SLOT_RD s;
           Some (res, s)
         })"

end
