(* ===== verification/Command_Properties.thy ===== *)
theory Command_Properties
  imports Realm_Map_Cmds Memory_Properties Rsi_Memory
begin

text \<open>
  Properties of the commands: what they do to the map of the realms' memory, the order of
  their effects, and what they do on errors.
\<close>

section \<open>The memory of realms\<close>

lemma sample_page_low:
  assumes "a < 0x1000"
  shows "mem_map sample_state 0 a = Some 0x80004000"
proof -
  have z: "s2_addr_to_idx a l = 0" if "l \<le> 3" for l
  proof -
    have "drop_bit 12 a = 0"
      using assms by (simp add: word_unat_eq_iff drop_bit_eq_div unat_div word_less_nat_alt)
    moreover have "drop_bit (12 + n) a = drop_bit n (drop_bit 12 a)" for n by (simp add: add.commute)
    ultimately have "drop_bit (12 + n) a = 0" for n by simp
    moreover have "level_lsb l = 12 + nat (3 - l) * 9" by (simp add: level_lsb_def s2tte_values word_consts)
    ultimately show ?thesis by (simp add: s2_addr_to_idx_def)
  qed
  have n1: "pt_next sample_content 1 1 a = Some 2" and n2: "pt_next sample_content 2 2 a = Some 3"
    by (simp_all add: pt_next_def z sample_content_def sample_table_def entry_is_table_iff Let_def
        table_entry_to_phys_def s2tte_values find_granule_eq in_dram_def GRANULE_ALIGNED_unat)
  have e3: "tt_entry sample_content 3 3 a = Some 0x800047DB"
    by (simp add: tt_entry_def z sample_content_def sample_table_def)
  have "page_from sample_content 1 1 a = Some 0x80004000"
    by (simp add: page_from_step [of 1] page_from_step [of 2] page_from_3 n1 n2 e3 entry_page_def s2tte_iffs
        del: One_nat_def)
  moreover have "pt_root sample_ctx a = 1"
  proof -
    have "a < push_bit 32 1" using assms by (simp add: word_less_nat_alt)
    moreover have "s2_ctx_ok sample_ctx" by (simp add: s2_ctx_ok_def sample_ctx_def)
    ultimately show ?thesis using pt_root_bound [of sample_ctx a] by (simp add: pt_root_def sample_ctx_def)
  qed
  moreover have "a < 2 ^ 32" using assms by (simp add: word_less_nat_alt)
  ultimately show ?thesis
    by (simp add: mem_map_def realm_page_from sample_content_def sample_granule_def sample_rd_def
        RMM_MAX_GRANULES_def) (simp add: sample_ctx_def)
qed

text \<open>
  C1: realms are isolated.  A page is mapped at an address if the entry there is ASSIGNED or
  valid, so that the page belongs to the realm; host memory that is mapped as unprotected is not
  in this map.  Under the invariant two addresses that are mapped to the same
  physical page are addresses of one page of one realm.
\<close>

theorem realms_isolated:
  assumes "inv s" and "mem_map s r1 a = Some pa" and "mem_map s r2 b = Some pa"
  shows "r1 = r2 \<and> drop_bit 12 a = drop_bit 12 b"
proof -
  from assms(1) obtain lv par where inv: "inv_with lv par s" by (auto simp: inv_def)
  from mem_map_Some [OF assms(2)] obtain c1 where
    1: "realm_at s r1 c1" "a < push_bit (s2_ipa_bits c1) 1" "realm_page (content s) c1 a = Some pa"
    by (auto simp: in_realm_def)
  from mem_map_Some [OF assms(3)] obtain c2 where
    2: "realm_at s r2 c2" "b < push_bit (s2_ipa_bits c2) 1" "realm_page (content s) c2 b = Some pa"
    by (auto simp: in_realm_def)
  show ?thesis using realm_page_unique [OF inv 1(1,2) 2(1,2) 1(3) 2(3)] by (simp add: level_lsb_def word_consts)
qed

theorem realms_isolated_witness:
  "(0::nat) = 0 \<and> drop_bit 12 (0::u64) = drop_bit 12 0x10"
  by (rule realms_isolated [OF inv_sample sample_page_low sample_page_low]) simp_all

text \<open>Data.Create as the host calls it.\<close>

lemma smc_data_create_effect:
  assumes "inv s" and "quiet s"
  shows "case smc_data_create mc hash data_addr rd_addr map_addr src_addr flags mem s of
      None \<Rightarrow> dev_attach_flag flags \<noteq> 0
    | Some (ret, s') \<Rightarrow> created_with flags rd_addr map_addr data_addr ret s s'"
proof -
  have same: "created_with flags rd_addr map_addr data_addr RMI_ERROR_INPUT s s"
    using assms by (simp add: created_with_def same_state_refl RMI_SUCCESS_def RMI_ERROR_INPUT_def)
  show ?thesis
  proof (cases "find_granule src_addr")
    case None
    then show ?thesis using same by (simp add: smc_data_create_def)
  next
    case (Some g)
    then show ?thesis
      using same data_create_effect [OF assms, where src = "Some (g, mem)"] find_granule_bound [OF Some]
      by (simp add: smc_data_create_def)
  qed
qed

text \<open>
  C2: Data.Create, with any flags.  If the flag that attaches a device is clear, it returns; on
  success one page of one realm, free before, is mapped to the granule that was handed over,
  and no other page changes; on an error the state is the one before, and no lock is held
  either way.  If the flag is set, the checks of the device come after the page has been mapped:
  success means the same, but an error can be reported with the page in place, and the command
  need not return.  The invariant is kept in all cases.
\<close>

theorem data_create_adds_page:
  assumes "inv s" and "quiet s"
  shows "case smc_data_create mc hash data_addr rd_addr map_addr src_addr flags mem s of
      None \<Rightarrow> dev_attach_flag flags \<noteq> 0
    | Some (ret, s') \<Rightarrow> inv s' \<and>
        (if ret = RMI_SUCCESS
         then \<exists>g_rd. find_granule rd_addr = Some g_rd \<and> mem_map s g_rd map_addr = None
           \<and> mem_map s' = map_put g_rd map_addr (Some data_addr) (mem_map s)
         else same_state s s' \<or> dev_attach_flag flags = 2 \<and> page_added rd_addr map_addr data_addr s s') \<and>
        (if dev_attach_flag flags = 0 then quiet s' else True)"
proof -
  have bit: "dev_attach_flag flags \<noteq> 0 \<Longrightarrow> dev_attach_flag flags = 2"
  proof -
    have "flags AND 2 = (if bit flags 1 then 2 else 0)"
      by (rule bit_word_eqI) (auto simp: bit_simps bit_2_iff)
    then show "dev_attach_flag flags \<noteq> 0 \<Longrightarrow> dev_attach_flag flags = 2"
      by (simp add: dev_attach_flag_def split: if_splits)
  qed
  show ?thesis
    using smc_data_create_effect [OF assms, where mc = mc and hash = hash and data_addr = data_addr
        and rd_addr = rd_addr and map_addr = map_addr and src_addr = src_addr and flags = flags and mem = mem] bit
    by (auto simp: created_with_def page_added_def split: option.splits if_splits)
qed

theorem data_create_adds_page_witness:
  "case smc_data_create (\<lambda>f args. 0) (\<lambda>a d. zero_digest) 0x80006000 0x80000000 0x2000 0x80008000 1
       (Some (replicate 4096 0)) sample_state of
      None \<Rightarrow> dev_attach_flag 1 \<noteq> 0
    | Some (ret, s') \<Rightarrow> inv s' \<and>
        (if ret = RMI_SUCCESS
         then \<exists>g_rd. find_granule 0x80000000 = Some g_rd \<and> mem_map sample_state g_rd 0x2000 = None
           \<and> mem_map s' = map_put g_rd 0x2000 (Some 0x80006000) (mem_map sample_state)
         else same_state sample_state s' \<or> dev_attach_flag 1 = 2
           \<and> page_added 0x80000000 0x2000 0x80006000 sample_state s') \<and>
        (if dev_attach_flag 1 = 0 then quiet s' else True)"
  by (rule data_create_adds_page [OF inv_sample quiet_sample])

text \<open>
  C3: Data.CreateUnknown returns.  On success one page of one realm, free before, is mapped
  to the granule, whose content is zero; on an error the state is the one before.
\<close>

theorem data_create_unknown_adds_page:
  assumes "inv s" and "quiet s"
  shows "case smc_data_create_unknown mc hash data_addr rd_addr map_addr s of
      None \<Rightarrow> False
    | Some (ret, s') \<Rightarrow> inv s' \<and> quiet s' \<and>
        (if ret = RMI_SUCCESS
         then \<exists>g_rd. find_granule rd_addr = Some g_rd \<and> mem_map s g_rd map_addr = None
           \<and> mem_map s' = map_put g_rd map_addr (Some data_addr) (mem_map s)
         else same_state s s')"
proof -
  from assms(1) obtain lv par where inv: "inv_with lv par s" by (auto simp: inv_def)
  note safe = smc_data_create_unknown_safe [OF assms, of mc hash data_addr rd_addr map_addr]
  then obtain ret s' where
    run: "smc_data_create_unknown mc hash data_addr rd_addr map_addr s = Some (ret, s')"
    by (auto split: option.splits)
  have "if ret = RMI_SUCCESS
         then \<exists>g_rd. find_granule rd_addr = Some g_rd \<and> mem_map s g_rd map_addr = None
           \<and> mem_map s' = map_put g_rd map_addr (Some data_addr) (mem_map s)
         else same_state s s'"
    by (rule data_create_map [OF inv assms(2) _ _ run [unfolded smc_data_create_unknown_def]])
       (simp_all add: dev_attach_flag_def)
  then show ?thesis using safe run by simp
qed

theorem data_create_unknown_adds_page_witness:
  "case smc_data_create_unknown (\<lambda>f args. 0) (\<lambda>a d. zero_digest) 0x80006000 0x80000000 0x2000
       sample_state of
      None \<Rightarrow> False
    | Some (ret, s') \<Rightarrow> inv s' \<and> quiet s' \<and>
        (if ret = RMI_SUCCESS
         then \<exists>g_rd. find_granule 0x80000000 = Some g_rd \<and> mem_map sample_state g_rd 0x2000 = None
           \<and> mem_map s' = map_put g_rd 0x2000 (Some 0x80006000) (mem_map sample_state)
         else same_state sample_state s')"
  by (rule data_create_unknown_adds_page [OF inv_sample quiet_sample])

text \<open>
  C4: Data.Destroy returns.  On success one page of one realm, mapped before, is no longer
  mapped; on an error the state is the one before.
\<close>

theorem data_destroy_removes_page:
  assumes "inv s" and "quiet s"
  shows "case smc_data_destroy rd_addr map_addr s of
      None \<Rightarrow> False
    | Some (ret, s') \<Rightarrow> inv s' \<and> quiet s' \<and>
        (if ret = RMI_SUCCESS
         then \<exists>g_rd pa. find_granule rd_addr = Some g_rd \<and> mem_map s g_rd map_addr = Some pa
           \<and> mem_map s' = map_put g_rd map_addr None (mem_map s)
         else same_state s s')"
proof -
  from assms(1) obtain lv par where inv: "inv_with lv par s" by (auto simp: inv_def)
  note safe = smc_data_destroy_safe [OF assms, of rd_addr map_addr]
  then obtain ret s' where run: "smc_data_destroy rd_addr map_addr s = Some (ret, s')"
    by (auto split: option.splits)
  from data_destroy_map [OF inv assms(2) run] show ?thesis using safe run by simp
qed

theorem data_destroy_removes_page_witness:
  "case smc_data_destroy 0x80000000 0 sample_state of
      None \<Rightarrow> False
    | Some (ret, s') \<Rightarrow> inv s' \<and> quiet s' \<and>
        (if ret = RMI_SUCCESS
         then \<exists>g_rd pa. find_granule 0x80000000 = Some g_rd \<and> mem_map sample_state g_rd 0 = Some pa
           \<and> mem_map s' = map_put g_rd 0 None (mem_map sample_state)
         else same_state sample_state s')"
  by (rule data_destroy_removes_page [OF inv_sample quiet_sample])

definition keeps_map :: "(rmm \<Rightarrow> ('a \<times> rmm) option) \<Rightarrow> rmm \<Rightarrow> bool" where
  "keeps_map f s = (case f s of None \<Rightarrow> True | Some (ret, s') \<Rightarrow> mem_map s' = mem_map s)"

text \<open>
  C5: the commands that build, fold and take down tables, that map memory of the host, and
  that set the RIPAS refine the abstract map by doing nothing: whatever they return, every
  page of every realm is mapped as before.  Mapped means that the entry is ASSIGNED or valid:
  RTT.SetRipas turns a valid entry into an ASSIGNED one of the same page.
\<close>

theorem table_commands_keep_map:
  assumes "inv s" and "quiet s"
  shows "keeps_map (smc_rtt_create rtt_addr rd_addr map_addr ulevel) s
    \<and> keeps_map (smc_rtt_destroy rtt_addr rd_addr map_addr ulevel) s
    \<and> keeps_map (smc_rtt_fold rtt_addr rd_addr map_addr ulevel) s
    \<and> keeps_map (smc_rtt_map_unprotected rd_addr map_addr ulevel e) s
    \<and> keeps_map (smc_rtt_unmap_unprotected rd_addr map_addr ulevel) s
    \<and> keeps_map (smc_rtt_init_ripas hash rd_addr map_addr ulevel) s
    \<and> keeps_map (smc_rtt_set_ripas rd_addr rec_addr map_addr ulevel uripas) s"
proof -
  from assms(1) obtain lv par where inv: "inv_with lv par s" by (auto simp: inv_def)
  note i = inv assms(2)
  show ?thesis
    unfolding keeps_map_def
    using rtt_create_map [OF i] rtt_destroy_map [OF i] rtt_fold_map [OF i]
      rtt_map_unprotected_map [OF i] rtt_unmap_unprotected_map [OF i]
      rtt_init_ripas_map [OF i] rtt_set_ripas_map [OF i]
    by (intro conjI) (auto split: option.split)
qed

theorem table_commands_keep_map_witness:
  "keeps_map (smc_rtt_create 0x80003000 0x80000000 0 3) sample_state
    \<and> keeps_map (smc_rtt_destroy 0x80003000 0x80000000 0 3) sample_state
    \<and> keeps_map (smc_rtt_fold 0x80003000 0x80000000 0 3) sample_state
    \<and> keeps_map (smc_rtt_map_unprotected 0x80000000 0 3 0x90000000) sample_state
    \<and> keeps_map (smc_rtt_unmap_unprotected 0x80000000 0 3) sample_state
    \<and> keeps_map (smc_rtt_init_ripas (\<lambda>a d. zero_digest) 0x80000000 0 3) sample_state
    \<and> keeps_map (smc_rtt_set_ripas 0x80000000 0x80007000 0 3 1) sample_state"
  by (rule table_commands_keep_map [OF inv_sample quiet_sample])

text \<open>
  C6: delegating and undelegating granules, and creating, activating and destroying realms and
  RECs, leave the map alone: a new realm has no page, and a realm is only destroyed when it
  has none.
\<close>

theorem lifecycle_commands_keep_map:
  assumes "inv s" and "quiet s" and "\<forall>p. rec_mem = Some p \<longrightarrow> rec_params_sized p"
  shows "keeps_map (smc_granule_delegate mc addr) s \<and> keeps_map (smc_granule_undelegate mc addr) s
    \<and> keeps_map (smc_realm_create ar hash rd_addr pa mem) s
    \<and> keeps_map (smc_realm_activate rd_addr) s \<and> keeps_map (smc_realm_destroy ar rd_addr) s
    \<and> keeps_map (smc_rec_create ar hash rec_addr rd_addr pa rec_mem) s
    \<and> keeps_map (smc_rec_destroy rec_addr) s"
proof -
  from assms(1) obtain lv par where inv: "inv_with lv par s" by (auto simp: inv_def)
  note i = inv assms(2)
  show ?thesis
    unfolding keeps_map_def
    using granule_delegate_map [OF i] granule_undelegate_map [OF i] realm_create_map [OF i]
      realm_activate_map [OF i] realm_destroy_map [OF i] rec_create_map [OF i assms(3)]
      rec_destroy_map [OF i]
    by (intro conjI) (auto split: option.split)
qed

theorem lifecycle_commands_keep_map_witness:
  "keeps_map (smc_granule_delegate (\<lambda>f args. 0) 0x80006000) sample_state
    \<and> keeps_map (smc_granule_undelegate (\<lambda>f args. 0) 0x80006000) sample_state
    \<and> keeps_map (smc_realm_create \<lparr>id_aa64mmfr0_el1 = 5, id_aa64mmfr1_el1 = 0\<rparr>
         (\<lambda>a d. zero_digest) 0x80000000 0x80008000 None) sample_state
    \<and> keeps_map (smc_realm_activate 0x80000000) sample_state
    \<and> keeps_map (smc_realm_destroy \<lparr>id_aa64mmfr0_el1 = 5, id_aa64mmfr1_el1 = 0\<rparr> 0x80000000) sample_state
    \<and> keeps_map (smc_rec_create \<lparr>id_aa64mmfr0_el1 = 5, id_aa64mmfr1_el1 = 0\<rparr> (\<lambda>a d. zero_digest)
         0x80007000 0x80000000 0x80008000 None) sample_state
    \<and> keeps_map (smc_rec_destroy 0x80007000) sample_state"
  by (rule lifecycle_commands_keep_map [OF inv_sample quiet_sample]) simp

section \<open>Reading the tables\<close>

text \<open>
  What the registers of RTT.ReadEntry say of the page at an address: level, state and output
  address, against the map of the realm's memory.
\<close>

definition reports_page :: "rmm \<Rightarrow> nat \<Rightarrow> u64 \<Rightarrow> int \<Rightarrow> u64 \<Rightarrow> u64 \<Rightarrow> bool" where
  "reports_page s r a level state out \<longleftrightarrow>
     (case mem_map s r a of
        None \<Rightarrow> state \<noteq> RMI_RTT_STATE_ASSIGNED
      | Some pa \<Rightarrow> state = RMI_RTT_STATE_ASSIGNED
          \<and> (level = 3 \<and> out = pa
             \<or> level = 2 \<and> pa = out + of_nat (unat (s2_addr_to_idx a 3)) * 4096))"

lemma entry_regs_page:
  assumes e: "entry_ok lv par s g i e" and l: "lv g = l" and r: "rtt_entry_regs e l = Some (x2, x3, x4)"
  shows "case entry_page l e a of
        None \<Rightarrow> x2 \<noteq> RMI_RTT_STATE_ASSIGNED
      | Some pa \<Rightarrow> x2 = RMI_RTT_STATE_ASSIGNED
          \<and> (l = 3 \<and> x3 = pa \<or> l = 2 \<and> pa = x3 + of_nat (unat (s2_addr_to_idx a 3)) * 4096)"
proof -
  consider "leaf_entry e" | "s2tte_is_table e l" | "l = 3" "s2tte_is_assigned e 3 \<or> s2tte_is_valid e 3"
    | "l = 2" "s2tte_is_assigned e 2" | "l = 3" "s2tte_is_valid_ns e 3" | "l = 2" "e AND 3 = 1"
    using e l by (auto simp: entry_ok_def table_entry_ok_def)
  then show ?thesis
  proof cases
    case 1
    then have "x2 \<noteq> RMI_RTT_STATE_ASSIGNED"
      using r rtt_entry_regs_unassigned [of e l] rtt_entry_regs_cases(1) [of e l]
      by (auto simp: leaf_entry_def s2tte_iffs word_consts)
    then show ?thesis using no_page_leaf [OF 1, of l a] by simp
  next
    case 2
    then have "x2 \<noteq> RMI_RTT_STATE_ASSIGNED" using r rtt_entry_regs_cases(5) [of e l] by (simp add: word_consts)
    moreover have "entry_page l e a = None"
      using 2 s2tte_exclusive(3,4) [of e l] by (auto simp: entry_page_def)
    ultimately show ?thesis by simp
  next
    case 3
    then show ?thesis using r rtt_entry_regs_cases(2,3) [of e 3] by (auto simp: entry_page_def)
  next
    case 4
    then show ?thesis using r rtt_entry_regs_cases(2) [of e 2] by (auto simp: entry_page_def)
  next
    case 5
    then show ?thesis using r rtt_entry_regs_cases(4) [of e 3] no_page_ns(1) [of l e a] by (auto simp: word_consts)
  next
    case 6
    then show ?thesis using r rtt_entry_regs_total [OF e l] by simp
  qed
qed

text \<open>
  C12: RTT.ReadEntry at the last level tells the host the truth and changes nothing.  If the
  arguments name a realm and an aligned address of it, the registers name the state ASSIGNED
  exactly if a page is mapped at the address, and the output address is that of the page (or
  of the block that the page lies in, if x1 names level 2); otherwise x0 reports the error and
  the other registers stay.  It fails to return only if the address lies in a block of host
  memory at level 2.
\<close>

theorem read_entry_reports_map:
  assumes "inv s" and "quiet s"
  shows "case smc_rtt_read_entry rd_addr map_addr 3 ret s of
      None \<Rightarrow> \<exists>g_rd c g e. find_granule rd_addr = Some g_rd \<and> realm_at s g_rd c
        \<and> pt_find (content s) c map_addr 3 = (g, 2) \<and> tt_entry (content s) g 2 map_addr = Some e \<and> host_block e
    | Some (ret', s') \<Rightarrow> same_state s s' \<and>
        (if readable_entry rd_addr map_addr 3 s
         then \<exists>g_rd level state out ripas. find_granule rd_addr = Some g_rd
           \<and> ret' = ret[0 := RMI_SUCCESS, 1 := word_of_int level, 2 := state, 3 := out, 4 := ripas]
           \<and> reports_page s g_rd map_addr level state out
         else ret' = ret[0 := RMI_ERROR_INPUT])"
proof -
  from assms(1) obtain lv par where inv: "inv_with lv par s" by (auto simp: inv_def)
  have three: "sint (3 :: u64) = 3" by simp
  show ?thesis
    using inv assms(2)
  proof (cases rule: smc_rtt_read_entry_cases [where rd_addr = rd_addr and map_addr = map_addr
        and ulevel = 3 and ret = ret])
    case (error s')
    then show ?thesis by simp
  next
    case (entry g_rd rd wi t)
    note entry = entry [unfolded three]
    let ?e = "t ! unat (index wi)" and ?l = "last_level wi"
    have b: "g_rd < RMM_MAX_GRANULES" using find_granule_bound [OF entry(1)] .
    have ra: "realm_at s g_rd (rd_s2_ctx rd)" using b entry(2,3) by (simp add: realm_at_def)
    have ad: "map_addr < realm_ipa_size rd"
      using entry(4) by (auto simp: validate_rtt_entry_cmds_def validate_map_addr_def split: if_splits)
    have f: "pt_find (content s) (rd_s2_ctx rd) map_addr 3 = (g_llt wi, ?l)" "index wi = s2_addr_to_idx map_addr ?l"
      "lv (g_llt wi) = ?l" "g_llt wi < RMM_MAX_GRANULES" "gst s (g_llt wi) = GRANULE_STATE_RTT"
      using entry(5) by (simp_all add: walk_result_def at_table_def)
    have te: "tt_entry (content s) (g_llt wi) ?l map_addr = Some ?e" using entry(6) f(2) by (simp add: tt_entry_def)
    have eo: "entry_ok lv par s (g_llt wi) (unat (index wi)) ?e"
      using inv f(2,4,5) entry(6) s2_addr_to_idx_bound by (elim inv_with_rtt) auto
    have mm: "mem_map s g_rd map_addr = entry_page ?l ?e map_addr"
      using mem_map_in [of s g_rd "rd_s2_ctx rd" map_addr] ra ad f(1) te
      by (simp add: in_realm_def ipa_size_push realm_page_def)
    show ?thesis
    proof (cases "rtt_entry_regs ?e ?l")
      case None
      then show ?thesis using entry(1,7) ra f(1,3) te host_block_iff [OF eo] by auto
    next
      case (Some x)
      obtain x2 x3 x4 where x: "x = (x2, x3, x4)" by (cases x)
      have "reports_page s g_rd map_addr ?l x2 x3"
        using entry_regs_page [OF eo f(3) Some [unfolded x], of map_addr]
        by (simp add: reports_page_def mm)
      moreover obtain s' where "same_state s s'" "smc_rtt_read_entry rd_addr map_addr 3 ret s
          = Some (ret[0 := RMI_SUCCESS, 1 := word_of_int ?l, 2 := x2, 3 := x3, 4 := x4], s')"
        using entry(7) Some x by auto
      ultimately show ?thesis using entry(1) readable_entryI [OF entry(1-4)] by (simp del: One_nat_def) blast
    qed
  qed
qed

theorem read_entry_reports_map_witness:
  "case smc_rtt_read_entry 0x80000000 0 3 [0, 0, 0, 0, 0] sample_state of
      None \<Rightarrow> \<exists>g_rd c g e. find_granule 0x80000000 = Some g_rd \<and> realm_at sample_state g_rd c
        \<and> pt_find (content sample_state) c 0 3 = (g, 2) \<and> tt_entry (content sample_state) g 2 0 = Some e \<and> host_block e
    | Some (ret', s') \<Rightarrow> same_state sample_state s' \<and>
        (if readable_entry 0x80000000 0 3 sample_state
         then \<exists>g_rd level state out ripas. find_granule 0x80000000 = Some g_rd
           \<and> ret' = [0, 0, 0, 0, 0][0 := RMI_SUCCESS, 1 := word_of_int level, 2 := state, 3 := out, 4 := ripas]
           \<and> reports_page sample_state g_rd 0 level state out
         else ret' = [0, 0, 0, 0, 0][0 := RMI_ERROR_INPUT])"
  by (rule read_entry_reports_map [OF inv_sample quiet_sample])

end
