(* ===== verification/Effect_Properties.thy ===== *)
theory Effect_Properties
  imports Command_Properties
begin

text \<open>
  Properties of the commands, continued: the order of the effects that the hardware observes,
  the commands on granules, realms and RECs, and the inputs on which a command does not
  return.
\<close>

section \<open>Order of effects\<close>

definition vmid_of :: "u64 \<Rightarrow> rmm \<Rightarrow> u32 option" where
  "vmid_of rd_addr s =
     (case find_granule rd_addr of
        None \<Rightarrow> None
      | Some g \<Rightarrow> (case content s g of CRd rd \<Rightarrow> Some (s2_vmid (rd_s2_ctx rd)) | _ \<Rightarrow> None))"

text \<open>
  The last effects of taking down a table: the entry is made invalid, the translations of the
  realm are invalidated, the new entry is written, and only then is the table scrubbed and
  its lock released.
\<close>

definition taken_down :: "u64 \<Rightarrow> u64 \<Rightarrow> u32 \<Rightarrow> rmm \<Rightarrow> bool" where
  "taken_down rtt_addr map_addr vmid s' \<longleftrightarrow>
     (\<exists>pre g i e c. find_granule rtt_addr = Some c
        \<and> trace s' = pre @ [EvTteWrite g i 0, EvTlbiIpa vmid (drop_bit 12 map_addr),
            EvTlbiVmall vmid, EvTteWrite g i e, EvScrub c, EvUnlock c, EvUnlock g])"

text \<open>
  C26: RTT.Destroy and RTT.Fold follow break-before-make: a table granule is scrubbed and
  released only after its entry was made invalid and the translations of the realm's VMID
  were invalidated; on an error nothing changes.  RTT.Destroy always returns.
\<close>

theorem tables_broken_before_made:
  assumes "inv s" and "quiet s"
  shows "(case smc_rtt_destroy rtt_addr rd_addr map_addr ulevel s of
        None \<Rightarrow> False
      | Some (ret, s') \<Rightarrow> if ret = RMI_SUCCESS
          then \<exists>vmid. vmid_of rd_addr s = Some vmid \<and> taken_down rtt_addr map_addr vmid s'
          else same_state s s')
    \<and> (case smc_rtt_fold rtt_addr rd_addr map_addr ulevel s of
        None \<Rightarrow> True
      | Some (ret, s') \<Rightarrow> if ret = RMI_SUCCESS
          then \<exists>vmid. vmid_of rd_addr s = Some vmid \<and> taken_down rtt_addr map_addr vmid s'
          else same_state s s')"
proof -
  from assms(1) obtain lv par where inv: "inv_with lv par s" by (auto simp: inv_def)
  have d: "if ret = RMI_SUCCESS
          then \<exists>vmid. vmid_of rd_addr s = Some vmid \<and> taken_down rtt_addr map_addr vmid s'
          else same_state s s'"
    if "smc_rtt_destroy rtt_addr rd_addr map_addr ulevel s = Some (ret, s')" for ret s'
    using inv assms(2) that
    by (cases rule: smc_rtt_destroy_result) (auto simp: vmid_of_def taken_down_def)
  have f: "if ret = RMI_SUCCESS
          then \<exists>vmid. vmid_of rd_addr s = Some vmid \<and> taken_down rtt_addr map_addr vmid s'
          else same_state s s'"
    if "smc_rtt_fold rtt_addr rd_addr map_addr ulevel s = Some (ret, s')" for ret s'
    using inv assms(2) that
    by (cases rule: smc_rtt_fold_result) (auto simp: vmid_of_def taken_down_def)
  show ?thesis
    using smc_rtt_destroy_safe [OF assms, of rtt_addr rd_addr map_addr ulevel] d f
    by (auto split: option.splits)
qed

theorem tables_broken_before_made_witness:
  "(case smc_rtt_destroy 0x80003000 0x80000000 0 3 sample_state of
        None \<Rightarrow> False
      | Some (ret, s') \<Rightarrow> if ret = RMI_SUCCESS
          then \<exists>vmid. vmid_of 0x80000000 sample_state = Some vmid \<and> taken_down 0x80003000 0 vmid s'
          else same_state sample_state s')
    \<and> (case smc_rtt_fold 0x80003000 0x80000000 0 3 sample_state of
        None \<Rightarrow> True
      | Some (ret, s') \<Rightarrow> if ret = RMI_SUCCESS
          then \<exists>vmid. vmid_of 0x80000000 sample_state = Some vmid \<and> taken_down 0x80003000 0 vmid s'
          else same_state sample_state s')"
  by (rule tables_broken_before_made [OF inv_sample quiet_sample])

text \<open>
  The page that the realm's entry for the address names: Data.Destroy hands back this one and
  no other granule, and no other content than the page's and its table's changes.
\<close>

definition page_handed_back :: "u64 \<Rightarrow> u64 \<Rightarrow> rmm \<Rightarrow> rmm \<Rightarrow> bool" where
  "page_handed_back rd_addr map_addr s s' \<longleftrightarrow>
     (case tte_at rd_addr map_addr 3 s of
        None \<Rightarrow> False
      | Some (rd, g, i, e) \<Rightarrow> (\<exists>pre d. find_granule (addr_level_mask e 3) = Some d
          \<and> gst s d = GRANULE_STATE_DATA
          \<and> granules s' d = \<lparr>g_state = GRANULE_STATE_DELEGATED, g_refcount = 0\<rparr> \<and> content s' d = CZero
          \<and> (\<forall>x. x \<noteq> d \<longrightarrow> gst s' x = gst s x) \<and> (\<forall>x. x \<noteq> d \<longrightarrow> x \<noteq> g \<longrightarrow> content s' x = content s x)
          \<and> (if s2tte_is_valid e 3
             then trace s' = pre @ [EvTteWrite g i s2tte_create_destroyed,
                    EvTlbiIpa (s2_vmid (rd_s2_ctx rd)) (drop_bit 12 map_addr),
                    EvTlbiVmall (s2_vmid (rd_s2_ctx rd)),
                    EvLock d GRANULE_STATE_DATA, EvScrub d, EvUnlock d, EvUnlock g]
             else s2tte_is_assigned e 3
               \<and> trace s' = pre @ [EvTteWrite g i (s2tte_create_unassigned RMI_EMPTY),
                    EvLock d GRANULE_STATE_DATA, EvScrub d, EvUnlock d, EvUnlock g])))"

text \<open>
  C27: a successful Data.Destroy hands back the very page that the realm's entry at the address
  names, and its last effects come in a safe order.  If the realm could access the page (the
  entry was valid), the entry is made DESTROYED, then the translations of the address and of
  the realm's VMID are invalidated, and only then is the page scrubbed.  If the realm could not
  (the entry was ASSIGNED, an invalid descriptor), the entry is made UNASSIGNED before the page
  is scrubbed, and there is nothing to invalidate.  The command always returns, and an error
  changes nothing.
\<close>

theorem data_destroy_invalidates_first:
  assumes "inv s" and "quiet s"
  shows "case smc_data_destroy rd_addr map_addr s of
      None \<Rightarrow> False
    | Some (ret, s') \<Rightarrow> if ret = RMI_SUCCESS then page_handed_back rd_addr map_addr s s'
        else same_state s s'"
proof -
  from assms(1) obtain lv par where inv: "inv_with lv par s" by (auto simp: inv_def)
  note safe = smc_data_destroy_safe [OF assms, of rd_addr map_addr]
  then obtain ret s' where run: "smc_data_destroy rd_addr map_addr s = Some (ret, s')"
    by (auto split: option.splits)
  from inv assms(2) run have "if ret = RMI_SUCCESS then page_handed_back rd_addr map_addr s s'
      else same_state s s'"
  proof (cases rule: smc_data_destroy_result)
    case error
    then show ?thesis by simp
  next
    case (success g_rd rd wi t d e pre)
    have "gst s (g_llt wi) = GRANULE_STATE_RTT" using success(5) by (simp add: walk_result_def at_table_def)
    then have "page_handed_back rd_addr map_addr s s'"
      unfolding page_handed_back_def tte_at_walk(2) [OF success(2-7)]
      using success(8-13)
      by (auto simp: child_reclaimed_def intro!: exI [of _ pre])
    then show ?thesis using success(1) by auto
  qed
  then show ?thesis by (simp add: run)
qed

theorem data_destroy_invalidates_first_witness:
  "case smc_data_destroy 0x80000000 0 sample_state of
      None \<Rightarrow> False
    | Some (ret, s') \<Rightarrow> if ret = RMI_SUCCESS then page_handed_back 0x80000000 0 sample_state s'
        else same_state sample_state s'"
  by (rule data_destroy_invalidates_first [OF inv_sample quiet_sample])

section \<open>Inputs on which a command does not return\<close>

text \<open>
  Two states for the theorems below: the entry for the address 0x200000 is a block of the host,
  and the table of level 3 holds 512 pages of the host.
\<close>

definition block_state :: rmm where
  "block_state = sample_state
     \<lparr>granules := sample_granule(2 := \<lparr>g_state = GRANULE_STATE_RTT, g_refcount = 2\<rparr>),
      content := sample_content(2 := CTable ((sample_table 2)[1 := 0xC0000090000401]))\<rparr>"

definition host_pages :: "u64 list" where
  "host_pages = map (\<lambda>k. (0x90000000 + of_nat k * 4096) OR 0xC0000000000403) [0..<512]"

definition full_state :: rmm where
  "full_state = sample_state
     \<lparr>granules := sample_granule(3 := \<lparr>g_state = GRANULE_STATE_RTT, g_refcount = 512\<rparr>,
        4 := \<lparr>g_state = GRANULE_STATE_DELEGATED, g_refcount = 0\<rparr>,
        5 := \<lparr>g_state = GRANULE_STATE_DELEGATED, g_refcount = 0\<rparr>),
      content := sample_content(3 := CTable host_pages)\<rparr>"

lemma sample_links_kept:
  assumes "\<And>g. gst s g \<in> {GRANULE_STATE_RD, GRANULE_STATE_REC} \<longleftrightarrow> g \<in> {0, 7}"
    and "granules s 0 = sample_granule 0" "granules s 7 = sample_granule 7"
    and "content s 0 = sample_content 0" "content s 7 = sample_content 7"
  shows "links_ok s"
proof -
  have g: "gst s g = GRANULE_STATE_RD \<longleftrightarrow> g = 0" "gst s g = GRANULE_STATE_REC \<longleftrightarrow> g = 7" for g
    using assms(1) [of g] assms(2,3) by (auto simp: sample_granule_def)
  have r: "recs_of s g = (if g = 0 then {7} else {})" for g
    using assms(5) by (auto simp: recs_of_def g sample_content_def sample_rec_def RMM_MAX_GRANULES_def)
  show ?thesis
    using assms(2-5)
    by (auto simp: links_ok_def rec_linked_def r g sample_granule_def sample_content_def
      sample_rec_def sample_rd_def sample_ctx_def info_matches_def RMM_MAX_GRANULES_def)
qed

lemma inv_with_sample: "inv_with sample_lv sample_par sample_state"
  unfolding inv_with_def using sample_granule_ok sample_links by blast

lemma inv_block_state: "inv block_state"
proof -
  have li: "links_ok block_state"
    by (rule sample_links_kept) (auto simp: block_state_def sample_granule_def)
  have k: "kept sample_lv sample_par sample_state sample_lv sample_par block_state d" for d
    by (simp add: kept_def block_state_def sample_granule_def)
  have e: "entry_ok sample_lv sample_par block_state 2 i (((sample_table 2)[1 := 0xC0000090000401]) ! i)" if "i < 512" for i
  proof (cases "i = 1")
    case True
    then show ?thesis by (simp add: entry_ok_def sample_lv_def sample_table_def s2tte_values)
  next
    case False
    then show ?thesis using that entry_ok_frame [OF sample_entry_ok _ k] by simp
  qed
  have "(of_nat (ref_count ((sample_table 2)[1 := 0xC0000090000401])) :: u64) = 2"
    by (simp add: sample_table_def ref_count_update ref_word_def s2tte_refs_def ref_count_zero)
  then have "granule_ok sample_lv sample_par block_state 2"
    using e by (auto simp: granule_ok_def unlocked_ok_def rtt_ok_def block_state_def sample_lv_def sample_table_def)
  then have c2: "granule_ok sample_lv sample_par block_state g" if "g \<in> {2}" for g using that by simp
  have "inv_with sample_lv sample_par block_state"
    by (rule inv_with_step [where T = "{2}", OF inv_with_sample li _ k c2]) (simp_all add: block_state_def)
  then show ?thesis by (rule inv_defI)
qed

lemma host_pages_ok:
  "length host_pages = 512" "k < 512 \<Longrightarrow> s2tte_is_valid_ns (host_pages ! k) 3 \<and> s2tte_refs (host_pages ! k)"
  by (simp_all add: host_pages_def s2tte_iffs s2tte_refs_def bit.conj_disj_distrib2 word_ao_absorbs)

lemma inv_full_state: "inv full_state"
proof -
  have li: "links_ok full_state"
    by (rule sample_links_kept) (auto simp: full_state_def sample_granule_def)
  have k: "kept sample_lv sample_par sample_state sample_lv sample_par full_state d" if "d \<noteq> 4" "d \<noteq> 5" for d
    using that by (simp add: kept_def full_state_def sample_granule_def)
  have "ref_count host_pages = 512"
    using host_pages_ok unfolding ref_count_def
    by (subst length_filter_all) (auto simp: in_set_conv_nth)
  moreover have "entry_ok sample_lv sample_par full_state 3 i (host_pages ! i)" if "i < 512" for i
    using host_pages_ok(2) [OF that] by (simp add: entry_ok_def sample_lv_def)
  ultimately have c3: "granule_ok sample_lv sample_par full_state 3"
    using host_pages_ok(1) by (auto simp: granule_ok_def unlocked_ok_def rtt_ok_def full_state_def sample_lv_def)
  have "granule_ok sample_lv sample_par full_state g" if "g \<in> {3, 4, 5}" for g
    using c3 that
    by (auto simp: granule_ok_def unlocked_ok_def full_state_def sample_content_def)
  moreover have "kept sample_lv sample_par sample_state sample_lv sample_par full_state d"
    if "owner_granule (sample_par d) = Some g" "g \<notin> {3, 4, 5}" for d g
  proof -
    have "d \<noteq> 4" "d \<noteq> 5" using that by (auto simp: sample_par_def)
    then show ?thesis by (rule k)
  qed
  ultimately have "inv_with sample_lv sample_par full_state"
    by (intro inv_with_step [where T = "{3, 4, 5}", OF inv_with_sample li]) (simp_all add: full_state_def)
  then show ?thesis by (rule inv_defI)
qed

lemma quiet_stuck_states: "quiet block_state" "quiet full_state"
  by (simp_all add: quiet_def block_state_def full_state_def)

lemma sample_find_2:
  assumes "table_of (C 1) = Some (sample_table 1)" and "a \<in> {0, 0x200000}"
  shows "pt_find C sample_ctx a 2 = (2, 2)"
proof -
  have "s2_addr_to_idx a 1 = 0" "pt_root sample_ctx a = 1"
    using assms(2) by (auto simp: s2_addr_to_idx_def pt_root_def sample_ctx_def s2_sl_addr_to_idx_def s2tte_consts)
  moreover from this have "pt_next C 1 1 a = Some 2"
    using assms(1) sample_find by (simp add: pt_next_def sample_entries entry_is_table_def table_entry_to_phys_def s2tte_values
        del: One_nat_def)
  ultimately show ?thesis
    by (simp add: pt_find_def sample_ctx_def pt_walk.simps [of C "Suc 0"] pt_walk.simps [of C 2])
qed

lemma stuck_states_tte:
  "tte_at 0x80000000 0x200000 2 block_state = Some (sample_rd, 2, 1, 0xC0000090000401)"
  "tte_at 0x80000000 0 2 full_state = Some (sample_rd, 2, 0, 0x80003003)"
proof -
  have c: "rd_s2_ctx sample_rd = sample_ctx" by (simp add: sample_rd_def)
  have i: "s2_addr_to_idx 0x200000 2 = 1" "s2_addr_to_idx 0 2 = 0" by (simp_all add: s2_addr_to_idx_def s2tte_consts)
  have "pt_find (content block_state) sample_ctx 0x200000 2 = (2, 2)" "pt_find (content full_state) sample_ctx 0 2 = (2, 2)"
    by (rule sample_find_2; simp add: block_state_def full_state_def sample_content_def)+
  then show "tte_at 0x80000000 0x200000 2 block_state = Some (sample_rd, 2, 1, 0xC0000090000401)"
    "tte_at 0x80000000 0 2 full_state = Some (sample_rd, 2, 0, 0x80003003)"
    by (simp_all add: tte_at_def c i sample_find block_state_def full_state_def sample_granule_def
        sample_content_def sample_table_def)
qed

lemma stuck_states_granules:
  "gst block_state 0 = GRANULE_STATE_RD" "gst block_state 6 = GRANULE_STATE_DELEGATED"
  "content full_state 3 = CTable host_pages" "grc full_state 3 = 512"
  by (simp_all add: block_state_def full_state_def sample_granule_def)

lemma accepted_addresses:
  "validate_rtt_structure_cmds 0x200000 3 sample_rd" "validate_rtt_structure_cmds 0 3 sample_rd"
  by (simp_all add: validate_rtt_structure_cmds_def validate_map_addr_def addr_is_level_aligned_def
      sample_rd_def sample_ctx_def s2tte_values realm_ipa_size_def realm_ipa_bits_def realm_rtt_starting_level_def)

text \<open>
  C35: RTT.Create returns for all inputs but one kind, exactly described: the granules are there
  and in the right states, the address and the level 3 are accepted, and the walk finds at
  level 2 a block descriptor with the NS bit, a block that the host mapped.  There an assertion
  fails, as no predicate recognises the block.  On all other inputs the command returns, and
  an error leaves the state as it was.
\<close>

theorem rtt_create_returns:
  assumes "inv s" and "quiet s"
  shows "case smc_rtt_create rtt_addr rd_addr map_addr ulevel s of
      None \<Rightarrow> create_stuck rtt_addr rd_addr map_addr ulevel s
    | Some (ret, s') \<Rightarrow> \<not> create_stuck rtt_addr rd_addr map_addr ulevel s
        \<and> inv s' \<and> quiet s' \<and> (ret = RMI_SUCCESS \<or> same_state s s')"
proof -
  from assms(1) obtain lv par where inv: "inv_with lv par s" by (auto simp: inv_def)
  note safe = smc_rtt_create_safe [OF assms, of rtt_addr rd_addr map_addr ulevel]
  from inv assms(2) show ?thesis
  proof (cases rule: smc_rtt_create_cases [where rtt_addr = rtt_addr and rd_addr = rd_addr
        and map_addr = map_addr and ulevel = ulevel])
    case (error ret s')
    then show ?thesis using safe by simp
  next
    case (assert_false g_rd rd wi t)
    then show ?thesis by simp
  next
    case (success g_rd rd wi t c tn s')
    have "\<not> create_stuck rtt_addr rd_addr map_addr ulevel s"
      using tte_at_walk [OF success(2-4,8)] success(9,10) unfolds_no_block [OF success(11)]
      by (auto simp: create_stuck_def)
    then show ?thesis using safe success(1) by simp
  qed
qed

theorem rtt_create_returns_witness:
  "create_stuck 0x80006000 0x80000000 0x200000 3 block_state
   \<and> smc_rtt_create 0x80006000 0x80000000 0x200000 3 block_state = None"
proof -
  have "create_stuck 0x80006000 0x80000000 0x200000 3 block_state"
    using sample_find
    by (simp add: create_stuck_def stuck_states_tte pair_available_def stuck_states_granules
        accepted_addresses host_block_def s2tte_consts)
  then show ?thesis
    using rtt_create_returns [OF inv_block_state quiet_stuck_states(1), of "0x80006000" "0x80000000" "0x200000" 3]
    by (auto split: option.splits)
qed

text \<open>
  C36: RTT.Fold returns for all inputs but one kind, exactly described: the address and the level
  3 are accepted, the walk finds the named table, and all 512 entries of this table hold a
  reference, but they are not one aligned run of ASSIGNED pages.  So a full table of level 3
  whose pages the realm can access, or which the host mapped, can not be folded, contiguous or
  not: an assertion fails, although the code means to make a block of it and a comment calls
  the last case impossible.  An error leaves the state as it was.
\<close>

theorem rtt_fold_returns:
  assumes "inv s" and "quiet s"
  shows "case smc_rtt_fold rtt_addr rd_addr map_addr ulevel s of
      None \<Rightarrow> fold_stuck rtt_addr rd_addr map_addr ulevel s
    | Some (ret, s') \<Rightarrow> \<not> fold_stuck rtt_addr rd_addr map_addr ulevel s
        \<and> inv s' \<and> quiet s' \<and> (ret = RMI_SUCCESS \<or> same_state s s')"
proof -
  from assms(1) obtain lv par where inv: "inv_with lv par s" by (auto simp: inv_def)
  note stuck = smc_rtt_fold_None [OF inv assms(2), of rtt_addr rd_addr map_addr ulevel]
  show ?thesis
  proof (cases "smc_rtt_fold rtt_addr rd_addr map_addr ulevel s")
    case None
    then show ?thesis using stuck by simp
  next
    case (Some p)
    obtain ret s' where run: "smc_rtt_fold rtt_addr rd_addr map_addr ulevel s = Some (ret, s')"
      using Some by (cases p) simp
    have "ret = RMI_SUCCESS \<or> same_state s s'"
      using inv assms(2) run by (cases rule: smc_rtt_fold_result) auto
    then show ?thesis
      using stuck run smc_rtt_fold_safe [OF assms, of rtt_addr rd_addr map_addr ulevel] by simp
  qed
qed

text \<open>A contiguous run of pages of the host.\<close>

theorem rtt_fold_returns_witness:
  "fold_stuck 0x80003000 0x80000000 0 3 full_state \<and> smc_rtt_fold 0x80003000 0x80000000 0 3 full_state = None"
proof -
  have "\<not> assigned_run host_pages base" for base
  proof
    assume "assigned_run host_pages base"
    then have "s2tte_is_assigned (host_pages ! 0) 3" by (simp add: assigned_run_def)
    then show False using host_pages_ok(2) [of 0] by (simp add: s2tte_iffs)
  qed
  then have "fold_stuck 0x80003000 0x80000000 0 3 full_state"
    by (simp add: fold_stuck_def stuck_states_tte sample_kinds sample_find stuck_states_granules
        accepted_addresses)
  then show ?thesis
    using rtt_fold_returns [OF inv_full_state quiet_stuck_states(2), of "0x80003000" "0x80000000" 0 3]
    by (auto split: option.splits)
qed

end
