(* ===== verification/Vmid_Pool.thy ===== *)
theory Vmid_Pool
  imports Realm_Params_Correct Sample_State
begin

text \<open>
  The contract of a pool of identifiers, and the VMID bitmap of runtime/core/vmid.c as an
  instance of it.
\<close>

section \<open>The contract\<close>

locale id_pool =
  fixes used :: "'s \<Rightarrow> 'v \<Rightarrow> bool"
    and reserve :: "'v \<Rightarrow> 's \<Rightarrow> bool \<times> 's"
    and free :: "'v \<Rightarrow> 's \<Rightarrow> 's option"
    and valid :: "'v \<Rightarrow> bool"
  assumes reserve_result: "fst (reserve v s) \<longleftrightarrow> valid v \<and> \<not> used s v"
    and reserve_marks: "valid v \<Longrightarrow> used (snd (reserve v s)) u \<longleftrightarrow> u = v \<or> used s u"
    and reserve_invalid: "\<not> valid v \<Longrightarrow> snd (reserve v s) = s"
    and free_total: "free v s = None \<longleftrightarrow> \<not> valid v"
    and free_unmarks: "free v s = Some s' \<Longrightarrow> used s' u \<longleftrightarrow> u \<noteq> v \<and> used s u"
begin

text \<open>No identifier is handed out twice.\<close>

lemma reserve_twice:
  assumes "fst (reserve v s)"
  shows "\<not> fst (reserve v (snd (reserve v s)))"
  using assms reserve_result reserve_marks by auto

lemma reserve_free:
  assumes "fst (reserve v s)"
  shows "\<exists>s'. free v (snd (reserve v s)) = Some s' \<and> (\<forall>u. used s' u = used s u)"
proof -
  from assms have v: "valid v" "\<not> used s v" by (simp_all add: reserve_result)
  then obtain s' where s': "free v (snd (reserve v s)) = Some s'"
    using free_total [of v "snd (reserve v s)"] by blast
  have "used s' u = used s u" for u
    using free_unmarks [OF s'] reserve_marks [OF v(1)] v(2) by auto
  with s' show ?thesis by blast
qed

text \<open>A freed identifier can be reserved again.\<close>

lemma free_reserve:
  assumes "free v s = Some s'"
  shows "fst (reserve v s')"
  using assms free_unmarks [OF assms, of v] free_total [of v s] by (simp add: reserve_result)

text \<open>Of a list of reservations the successful ones are of distinct identifiers.\<close>

primrec reserve_all :: "'v list \<Rightarrow> 's \<Rightarrow> 'v list \<times> 's" where
  "reserve_all [] s = ([], s)"
| "reserve_all (v # vs) s =
     (let (ok, s1) = reserve v s; (got, s2) = reserve_all vs s1
      in (if ok then v # got else got, s2))"

lemma reserve_keeps: "used s u \<Longrightarrow> used (snd (reserve v s)) u"
  using reserve_marks reserve_invalid by (cases "valid v") auto

lemma reserve_all_spec:
  "distinct (fst (reserve_all vs s)) \<and> (\<forall>v\<in>set (fst (reserve_all vs s)). valid v \<and> \<not> used s v)"
proof (induction vs arbitrary: s)
  case Nil
  then show ?case by simp
next
  case (Cons v vs)
  obtain ok s1 where r: "reserve v s = (ok, s1)" by fastforce
  obtain got s2 where g: "reserve_all vs s1 = (got, s2)" by fastforce
  from Cons.IH [of s1] g have IH: "distinct got" "\<forall>u\<in>set got. valid u \<and> \<not> used s1 u" by simp_all
  have keep: "\<not> used s u" if "\<not> used s1 u" for u using reserve_keeps [of s u v] that r by auto
  show ?case
  proof (cases ok)
    case True
    then have v: "valid v" "\<not> used s v" using reserve_result [of v s] r by simp_all
    then have "used s1 v" using reserve_marks [OF v(1), of s v] r by simp
    then have "v \<notin> set got" using IH by auto
    then show ?thesis using IH v keep True r g by auto
  next
    case False
    then show ?thesis using IH keep r g by auto
  qed
qed

end

section \<open>The bitmap\<close>

interpretation vmid_pool: id_pool vmid_used "vmid_reserve ar" "vmid_free ar"
  "\<lambda>v. v < vmid_count ar" for ar
  by unfold_locales (auto simp: vmid_reserve_eq vmid_free_eq split: if_splits)

text \<open>The VMIDs that a sequence of requests obtains, computed by the code.\<close>

primrec vmid_reserve_all :: "arch_regs \<Rightarrow> u32 list \<Rightarrow> rmm \<Rightarrow> u32 list \<times> rmm" where
  "vmid_reserve_all ar [] s = ([], s)"
| "vmid_reserve_all ar (v # vs) s =
     (let (ok, s1) = vmid_reserve ar v s; (got, s2) = vmid_reserve_all ar vs s1
      in (if ok then v # got else got, s2))"

lemma vmid_reserve_all_eq: "vmid_reserve_all ar vs s = vmid_pool.reserve_all ar vs s"
  by (induction vs arbitrary: s) simp_all

text \<open>
  C32: the VMID pool hands out no VMID twice and none that the processor does not implement;
  a VMID that is returned to the pool right after it was obtained leaves the pool as it was.
\<close>

theorem vmids_exclusive:
  "distinct (fst (vmid_reserve_all ar vs s))
   \<and> set (fst (vmid_reserve_all ar vs s)) \<subseteq> {v. v < vmid_count ar \<and> \<not> vmid_used s v}
   \<and> (case vmid_reserve ar v s of
        (True, s1) \<Rightarrow> (\<exists>s'. vmid_free ar v s1 = Some s' \<and> vmid_used s' = vmid_used s)
      | (False, s1) \<Rightarrow> s1 = s \<or> vmid_used s v)"
proof -
  have "set (fst (vmid_reserve_all ar vs s)) \<subseteq> {v. v < vmid_count ar \<and> \<not> vmid_used s v}"
    and "distinct (fst (vmid_reserve_all ar vs s))"
    using vmid_pool.reserve_all_spec [of ar vs s] by (auto simp: vmid_reserve_all_eq)
  moreover have "\<exists>s'. vmid_free ar v s1 = Some s' \<and> vmid_used s' = vmid_used s"
    if "vmid_reserve ar v s = (True, s1)" for s1
    using vmid_pool.reserve_free [of ar v s] that by (auto simp: fun_eq_iff)
  moreover have "s1 = s \<or> vmid_used s v" if "vmid_reserve ar v s = (False, s1)" for s1
    using that by (auto simp: vmid_reserve_eq split: if_splits)
  ultimately show ?thesis by (auto split: bool.splits)
qed

end
