(* ===== verification/Lifecycle_Properties.thy ===== *)
theory Lifecycle_Properties
  imports Effect_Properties Vmid_Pool
begin

text \<open>
  Properties of the commands on granules, realms and RECs, and of the completion of PSCI
  calls.
\<close>

section \<open>Granules\<close>

text \<open>
  C28: a granule is delegated exactly when it is in the non-secure state; it is zeroed, its
  state is set, and nothing else changes.  The command fails to return only if the EL3
  monitor refuses to change the physical address space of the granule.
\<close>

theorem granule_delegate_effect:
  assumes "inv s" and "quiet s"
  shows "case smc_granule_delegate mc addr s of
      None \<Rightarrow> \<not> accepts mc SMC_ASC_MARK_SECURE [addr, 0, 0, 0, 0, 0]
    | Some (ret, s') \<Rightarrow>
        (case find_granule addr of
           Some g \<Rightarrow> gst s g = GRANULE_STATE_NS
         | None \<Rightarrow> False) = (ret = RMI_SUCCESS)
      \<and> (if ret = RMI_SUCCESS
         then \<exists>g. find_granule addr = Some g
           \<and> granules s' = (granules s)(g := \<lparr>g_state = GRANULE_STATE_DELEGATED, g_refcount = 0\<rparr>)
           \<and> content s' = (content s)(g := CZero) \<and> vmids s' = vmids s \<and> quiet s'
         else ret = RMI_ERROR_INPUT \<and> same_state s s')"
proof -
  from assms obtain lv par where inv: "inv_with lv par s" by (auto simp: inv_def)
  from inv assms(2) show ?thesis
  proof (cases rule: granule_delegate_cases [where mc = mc and addr = addr])
    case (success g s')
    then show ?thesis using assms(2) by (auto simp: quiet_def)
  qed (auto simp: RMI_SUCCESS_def RMI_ERROR_INPUT_def split: option.splits)
qed

theorem granule_delegate_effect_witness:
  "case smc_granule_delegate (\<lambda>f args. 0) 0x80008000 sample_state of
      None \<Rightarrow> \<not> accepts (\<lambda>f args. 0) SMC_ASC_MARK_SECURE [0x80008000, 0, 0, 0, 0, 0]
    | Some (ret, s') \<Rightarrow>
        (case find_granule 0x80008000 of
           Some g \<Rightarrow> gst sample_state g = GRANULE_STATE_NS
         | None \<Rightarrow> False) = (ret = RMI_SUCCESS)
      \<and> (if ret = RMI_SUCCESS
         then \<exists>g. find_granule 0x80008000 = Some g
           \<and> granules s' = (granules sample_state)(g := \<lparr>g_state = GRANULE_STATE_DELEGATED, g_refcount = 0\<rparr>)
           \<and> content s' = (content sample_state)(g := CZero) \<and> vmids s' = vmids sample_state \<and> quiet s'
         else ret = RMI_ERROR_INPUT \<and> same_state sample_state s')"
  by (rule granule_delegate_effect [OF inv_sample quiet_sample])

text \<open>
  C29: a granule is handed back to the host exactly when it is delegated and unused; its
  content at that moment is zero, so no data of a realm leaves the monitor this way.
\<close>

theorem undelegated_granule_is_zero:
  assumes "inv s" and "quiet s"
  shows "case smc_granule_undelegate mc addr s of
      None \<Rightarrow> \<not> accepts mc SMC_ASC_MARK_NONSECURE [addr, 0, 0, 0, 0, 0]
    | Some (ret, s') \<Rightarrow>
        (case find_granule addr of
           Some g \<Rightarrow> gst s g = GRANULE_STATE_DELEGATED
         | None \<Rightarrow> False) = (ret = RMI_SUCCESS)
      \<and> (if ret = RMI_SUCCESS
         then \<exists>g. find_granule addr = Some g \<and> content s g = CZero \<and> content s' = content s
           \<and> granules s' = (granules s)(g := \<lparr>g_state = GRANULE_STATE_NS, g_refcount = 0\<rparr>)
           \<and> vmids s' = vmids s \<and> quiet s'
         else ret = RMI_ERROR_INPUT \<and> same_state s s')"
proof -
  from assms obtain lv par where inv: "inv_with lv par s" by (auto simp: inv_def)
  from inv assms(2) show ?thesis
  proof (cases rule: granule_undelegate_cases [where mc = mc and addr = addr])
    case (success g s')
    then show ?thesis using assms(2) by (auto simp: quiet_def)
  qed (auto simp: RMI_SUCCESS_def RMI_ERROR_INPUT_def split: option.splits)
qed

theorem undelegated_granule_is_zero_witness:
  "case smc_granule_undelegate (\<lambda>f args. 0) 0x80006000 sample_state of
      None \<Rightarrow> \<not> accepts (\<lambda>f args. 0) SMC_ASC_MARK_NONSECURE [0x80006000, 0, 0, 0, 0, 0]
    | Some (ret, s') \<Rightarrow>
        (case find_granule 0x80006000 of
           Some g \<Rightarrow> gst sample_state g = GRANULE_STATE_DELEGATED
         | None \<Rightarrow> False) = (ret = RMI_SUCCESS)
      \<and> (if ret = RMI_SUCCESS
         then \<exists>g. find_granule 0x80006000 = Some g \<and> content sample_state g = CZero
           \<and> content s' = content sample_state
           \<and> granules s' = (granules sample_state)(g := \<lparr>g_state = GRANULE_STATE_NS, g_refcount = 0\<rparr>)
           \<and> vmids s' = vmids sample_state \<and> quiet s'
         else ret = RMI_ERROR_INPUT \<and> same_state sample_state s')"
  by (rule undelegated_granule_is_zero [OF inv_sample quiet_sample])

section \<open>Realms\<close>

definition realm_installed :: "arch_regs \<Rightarrow> u64 \<Rightarrow> rmi_realm_params \<Rightarrow> rmm \<Rightarrow> rmm \<Rightarrow> bool" where
  "realm_installed ar rd_addr p s s' \<longleftrightarrow> (\<exists>g rd. find_granule rd_addr = Some g
     \<and> gst s g = GRANULE_STATE_DELEGATED \<and> gst s' g = GRANULE_STATE_RD \<and> content s' g = CRd rd
     \<and> rd_state rd = REALM_STATE_NEW \<and> s2_ctx_ok (rd_s2_ctx rd)
     \<and> s2_vmid (rd_s2_ctx rd) = ucast (p_vmid p) \<and> s2_vmid (rd_s2_ctx rd) < vmid_count ar
     \<and> \<not> vmid_used s (ucast (p_vmid p)) \<and> vmid_used s' (ucast (p_vmid p))
     \<and> (\<forall>k < s2_root_rtts (rd_s2_ctx rd).
          gst s (s2_g_rtt (rd_s2_ctx rd) + k) = GRANULE_STATE_DELEGATED
        \<and> gst s' (s2_g_rtt (rd_s2_ctx rd) + k) = GRANULE_STATE_RTT))"

text \<open>
  C30: Realm.Create is all or nothing.  On success the realm has a VMID that was free and that
  the processor implements, a geometry within the architecture's bounds, and starting tables
  that were delegated and unused; on an error the state is the one before.  It does not
  return only if the PA range of the processor is unknown or the host asks for tables that
  wrap around the address space.
\<close>

theorem realm_create_all_or_nothing:
  assumes "inv s" and "quiet s"
  shows "case smc_realm_create ar hash rd_addr pa mem s of
      None \<Rightarrow> arch_feat_get_pa_width ar = None \<or> (\<exists>p. mem = Some p \<and> tables_wrap p)
    | Some (ret, s') \<Rightarrow> inv s' \<and> quiet s' \<and>
        (if ret = RMI_SUCCESS then \<exists>p. mem = Some p \<and> realm_installed ar rd_addr p s s'
         else ret = RMI_ERROR_INPUT \<and> same_state s s')"
proof -
  from assms(1) obtain lv par where inv: "inv_with lv par s" by (auto simp: inv_def)
  note safe = smc_realm_create_safe [OF assms, where ar = ar and hash = hash and rd_addr = rd_addr
      and pa = pa and mem = mem]
  from inv assms(2) show ?thesis
  proof (cases rule: smc_realm_create_cases
      [where ar = ar and hash = hash and rd_addr = rd_addr and pa = pa and mem = mem])
    case stuck
    then show ?thesis by simp
  next
    case (error s')
    then show ?thesis using safe by (simp add: RMI_SUCCESS_def RMI_ERROR_INPUT_def)
  next
    case (success p a g_rd g s')
    have n16: "unat (p_rtt_num_start p) \<le> 16" using success(6) by (simp add: s2_ctx_ok_def s2_ctx_of_def)
    have "vmid_used s' v = vmid_used (reserve_vmid (ucast (p_vmid p)) s) v" for v
      using success(12) by (simp add: realm_added_def vmid_used_def)
    then have used: "vmid_used s' (ucast (p_vmid p))" by simp
    have "realm_installed ar rd_addr p s s'"
      unfolding realm_installed_def
      using success(3,4,6-8,11,12) free_row [OF success(9), of _ s] success(10) n16 used
      by (intro exI [of _ g_rd] exI [of _ "init_rd hash p a g zero_rd"])
         (auto simp: realm_added_def states_set_def row_def s2_ctx_of_def)
    then show ?thesis using safe success(1,2) by simp
  qed
qed

theorem realm_create_all_or_nothing_witness:
  "case smc_realm_create \<lparr>id_aa64mmfr0_el1 = 5, id_aa64mmfr1_el1 = 0\<rparr> (\<lambda>a d. zero_digest)
       0x80006000 0x80008000 None sample_state of
      None \<Rightarrow> arch_feat_get_pa_width \<lparr>id_aa64mmfr0_el1 = 5, id_aa64mmfr1_el1 = 0\<rparr> = None
        \<or> (\<exists>p. None = Some p \<and> tables_wrap p)
    | Some (ret, s') \<Rightarrow> inv s' \<and> quiet s' \<and>
        (if ret = RMI_SUCCESS then \<exists>p. None = Some p
           \<and> realm_installed \<lparr>id_aa64mmfr0_el1 = 5, id_aa64mmfr1_el1 = 0\<rparr> 0x80006000 p sample_state s'
         else ret = RMI_ERROR_INPUT \<and> same_state sample_state s')"
  by (rule realm_create_all_or_nothing [OF inv_sample quiet_sample])

definition realm_gone :: "u64 \<Rightarrow> rmm \<Rightarrow> rmm \<Rightarrow> bool" where
  "realm_gone rd_addr s s' \<longleftrightarrow> (\<exists>g rd. find_granule rd_addr = Some g \<and> gst s g = GRANULE_STATE_RD
     \<and> content s g = CRd rd \<and> grc s g = 0 \<and> recs_of s g = {}
     \<and> \<not> vmid_used s' (s2_vmid (rd_s2_ctx rd))
     \<and> (\<forall>x \<in> insert g {s2_g_rtt (rd_s2_ctx rd) ..< s2_g_rtt (rd_s2_ctx rd) + s2_root_rtts (rd_s2_ctx rd)}.
          grc s x = 0 \<and> gst s' x = GRANULE_STATE_DELEGATED \<and> content s' x = CZero))"

text \<open>
  C31: a realm is destroyed only when it has no REC and its starting tables are empty; its
  granules are then delegated and zero and its VMID is free.
\<close>

theorem realm_destroy_only_empty:
  assumes "inv s" and "quiet s"
  shows "case smc_realm_destroy ar rd_addr s of
      None \<Rightarrow> \<exists>g rd. find_granule rd_addr = Some g \<and> content s g = CRd rd
                \<and> vmid_count ar \<le> s2_vmid (rd_s2_ctx rd)
    | Some (ret, s') \<Rightarrow> inv s' \<and> quiet s' \<and>
        (if ret = RMI_SUCCESS then realm_gone rd_addr s s'
         else granules s' = granules s \<and> content s' = content s)"
proof -
  from assms(1) obtain lv par where inv: "inv_with lv par s" by (auto simp: inv_def)
  note safe = smc_realm_destroy_safe [OF assms, where ar = ar and rd_addr = rd_addr]
  from inv assms(2) show ?thesis
  proof (cases rule: smc_realm_destroy_cases [where ar = ar and rd_addr = rd_addr])
    case (error ret s')
    then show ?thesis using safe by (auto simp: word_consts same_state_def)
  next
    case (bad_vmid g rd)
    then show ?thesis by (auto simp: not_less)
  next
    case (in_use g rd s')
    then show ?thesis using safe by (auto simp: word_consts same_state_def release_vmid_def)
  next
    case (success g rd s')
    have b: "g < RMM_MAX_GRANULES" using success(2) by (rule find_granule_bound)
    have recs: "recs_of s g = {}" by (rule no_recs [OF inv b success(3,5)])
    have "vmid_used s' v = vmid_used (release_vmid (s2_vmid (rd_s2_ctx rd)) s) v" for v
      using success(7) by (simp add: realm_removed_def vmid_used_def)
    then have free: "\<not> vmid_used s' (s2_vmid (rd_s2_ctx rd))" by simp
    have row: "row (Some (s2_g_rtt (rd_s2_ctx rd))) (s2_root_rtts (rd_s2_ctx rd)) x"
      if "s2_g_rtt (rd_s2_ctx rd) \<le> x" "x < s2_g_rtt (rd_s2_ctx rd) + s2_root_rtts (rd_s2_ctx rd)" for x
      using that by (simp add: row_def)
    have rc: "grc s x = 0"
      if "s2_g_rtt (rd_s2_ctx rd) \<le> x" "x < s2_g_rtt (rd_s2_ctx rd) + s2_root_rtts (rd_s2_ctx rd)" for x
      using that success(6) le_Suc_ex [OF that(1)] by auto
    have "realm_gone rd_addr s s'"
      unfolding realm_gone_def
      using success(2-5,7) recs free row rc
      by (intro exI [of _ g] exI [of _ rd])
         (auto simp: realm_removed_def states_set_def zeroed_def)
    then show ?thesis using safe success(1) by simp
  qed
qed

theorem realm_destroy_only_empty_witness:
  "case smc_realm_destroy \<lparr>id_aa64mmfr0_el1 = 5, id_aa64mmfr1_el1 = 0\<rparr> 0x80000000 sample_state of
      None \<Rightarrow> \<exists>g rd. find_granule 0x80000000 = Some g \<and> content sample_state g = CRd rd
                \<and> vmid_count \<lparr>id_aa64mmfr0_el1 = 5, id_aa64mmfr1_el1 = 0\<rparr> \<le> s2_vmid (rd_s2_ctx rd)
    | Some (ret, s') \<Rightarrow> inv s' \<and> quiet s' \<and>
        (if ret = RMI_SUCCESS then realm_gone 0x80000000 sample_state s'
         else granules s' = granules sample_state \<and> content s' = content sample_state)"
  by (rule realm_destroy_only_empty [OF inv_sample quiet_sample])

end
