(* ===== verification/Smc_Fid.thy ===== *)
theory Smc_Fid
  imports Status_Codes
begin

text \<open>
  Function identifiers of the SMC calling convention (lib/smc/include/smc.h): the ranges of
  the PSCI, RMI and RSI calls and the tests for them.  The masks are 32-bit constants, so
  the upper half of a 64-bit identifier is ignored.  The second part is the logger of the calls
  of a realm (runtime/rsi/logger.c), which is compiled in when its level is set.
\<close>

definition SMC_FNUM :: "u64 \<Rightarrow> u64" where
  "SMC_FNUM fid = fid AND 0xFFFF"

definition IS_SMC64_FID_STD_FAST :: "u64 \<Rightarrow> bool" where
  "IS_SMC64_FID_STD_FAST fid \<longleftrightarrow> fid AND 0xFFFF0000 = 0xC4000000"

definition IS_SMC32_FID_STD_FAST :: "u64 \<Rightarrow> bool" where
  "IS_SMC32_FID_STD_FAST fid \<longleftrightarrow> fid AND 0xFFFF0000 = 0x84000000"

definition SMC64_RMI_FNUM_MIN :: u64 where [word_consts]: "SMC64_RMI_FNUM_MIN = 0x150"
definition SMC64_RMI_FNUM_MAX :: u64 where [word_consts]: "SMC64_RMI_FNUM_MAX = 0x169"
definition SMC64_RSI_FNUM_MIN :: u64 where [word_consts]: "SMC64_RSI_FNUM_MIN = 0x190"
definition SMC64_RSI_FNUM_MAX :: u64 where [word_consts]: "SMC64_RSI_FNUM_MAX = 0x1AF"
definition SMC64_PSCI_FNUM_MIN :: u64 where [word_consts]: "SMC64_PSCI_FNUM_MIN = 0"
definition SMC64_PSCI_FNUM_MAX :: u64 where [word_consts]: "SMC64_PSCI_FNUM_MAX = 0x14"

definition IS_SMC64_RMI_FID :: "u64 \<Rightarrow> bool" where
  "IS_SMC64_RMI_FID fid \<longleftrightarrow> IS_SMC64_FID_STD_FAST fid
     \<and> SMC64_RMI_FNUM_MIN \<le> SMC_FNUM fid \<and> SMC_FNUM fid \<le> SMC64_RMI_FNUM_MAX"

definition IS_SMC64_RSI_FID :: "u64 \<Rightarrow> bool" where
  "IS_SMC64_RSI_FID fid \<longleftrightarrow> IS_SMC64_FID_STD_FAST fid
     \<and> SMC64_RSI_FNUM_MIN \<le> SMC_FNUM fid \<and> SMC_FNUM fid \<le> SMC64_RSI_FNUM_MAX"

definition IS_SMC64_PSCI_FID :: "u64 \<Rightarrow> bool" where
  "IS_SMC64_PSCI_FID fid \<longleftrightarrow> IS_SMC64_FID_STD_FAST fid
     \<and> SMC64_PSCI_FNUM_MIN \<le> SMC_FNUM fid \<and> SMC_FNUM fid \<le> SMC64_PSCI_FNUM_MAX"

definition IS_SMC32_PSCI_FID :: "u64 \<Rightarrow> bool" where
  "IS_SMC32_PSCI_FID fid \<longleftrightarrow> IS_SMC32_FID_STD_FAST fid
     \<and> SMC64_PSCI_FNUM_MIN \<le> SMC_FNUM fid \<and> SMC_FNUM fid \<le> SMC64_PSCI_FNUM_MAX"

definition SMC_UNKNOWN :: u64 where [word_consts]: "SMC_UNKNOWN = - 1"

definition SMC_RSI_ABI_VERSION :: u64 where [word_consts]: "SMC_RSI_ABI_VERSION = 0xC4000190"
definition SMC_RSI_MEASUREMENT_READ :: u64 where
  [word_consts]: "SMC_RSI_MEASUREMENT_READ = 0xC4000192"
definition SMC_RSI_MEASUREMENT_EXTEND :: u64 where
  [word_consts]: "SMC_RSI_MEASUREMENT_EXTEND = 0xC4000193"
definition SMC_RSI_ATTEST_TOKEN_INIT :: u64 where
  [word_consts]: "SMC_RSI_ATTEST_TOKEN_INIT = 0xC4000194"
definition SMC_RSI_ATTEST_TOKEN_CONTINUE :: u64 where
  [word_consts]: "SMC_RSI_ATTEST_TOKEN_CONTINUE = 0xC4000195"
definition SMC_RSI_REALM_CONFIG :: u64 where [word_consts]: "SMC_RSI_REALM_CONFIG = 0xC4000196"
definition SMC_RSI_IPA_STATE_SET :: u64 where [word_consts]: "SMC_RSI_IPA_STATE_SET = 0xC4000197"
definition SMC_RSI_IPA_STATE_GET :: u64 where [word_consts]: "SMC_RSI_IPA_STATE_GET = 0xC4000198"
definition SMC_RSI_HOST_CALL :: u64 where [word_consts]: "SMC_RSI_HOST_CALL = 0xC4000199"
definition SMC_RSI_DEV_MEM :: u64 where [word_consts]: "SMC_RSI_DEV_MEM = 0xC400019A"
definition RSI_REQUEST_DEVICE_OWNERSHIP :: u64 where
  [word_consts]: "RSI_REQUEST_DEVICE_OWNERSHIP = 0xC400019B"
definition RSI_TRIGGER_TESTENGINE :: u64 where
  [word_consts]: "RSI_TRIGGER_TESTENGINE = 0xC400019C"

definition SMC_REQUEST_DEVICE_OWNERSHIP :: u64 where
  [word_consts]: "SMC_REQUEST_DEVICE_OWNERSHIP = 0xC40001BB"

definition SMCCC_VERSION_NUMBER :: u64 where [word_consts]: "SMCCC_VERSION_NUMBER = 0x10002"
definition RSI_ABI_VERSION :: u64 where [word_consts]: "RSI_ABI_VERSION = 0xC0000"

definition system_rsi_abi_version :: u64 where
  "system_rsi_abi_version = RSI_ABI_VERSION"

section \<open>The log of the calls of a realm (runtime/rsi/logger.c)\<close>

text \<open>
  The conversions of \<^verbatim>\<open>snprintf\<close> that the logger uses: \<^verbatim>\<open>%lx\<close>, and a string that is filled up
  to a width on the left or on the right.  The result is the length of the whole text, and the
  text cut to the size of the buffer.
\<close>

definition hex_digit :: "nat \<Rightarrow> char" where "hex_digit d = ''0123456789abcdef'' ! d"

fun hex_of :: "nat \<Rightarrow> string" where
  "hex_of n = (if n < 16 then [hex_digit n] else hex_of (n div 16) @ [hex_digit (n mod 16)])"

declare hex_of.simps [simp del]

definition pad_left :: "nat \<Rightarrow> char \<Rightarrow> string \<Rightarrow> string" where
  "pad_left w c s = replicate (w - length s) c @ s"
definition pad_right :: "nat \<Rightarrow> char \<Rightarrow> string \<Rightarrow> string" where
  "pad_right w c s = s @ replicate (w - length s) c"

definition snprintf :: "nat \<Rightarrow> string \<Rightarrow> nat \<times> string" where
  "snprintf len s = (length s, take (len - 1) s)"

definition rsi_logger :: "string option list" where
  "rsi_logger = [Some ''ABI_VERSION'', None, Some ''MEASUREMENT_READ'', Some ''MEASUREMENT_EXTEND'',
     Some ''ATTEST_TOKEN_INIT'', Some ''ATTEST_TOKEN_CONTINUE'', Some ''REALM_CONFIG'', Some ''IPA_STATE_SET'',
     Some ''IPA_STATE_GET'', Some ''HOST_CALL'']"

definition rsi_status_handler :: "string list" where
  "rsi_status_handler = [''RSI_SUCCESS'', ''RSI_ERROR_INPUT'', ''RSI_ERROR_STATE'', ''RSI_INCOMPLETE'']"

definition BUFFER_SIZE :: nat where "BUFFER_SIZE = 29 + (5 * 17 + 1) + (3 - 1) + 18"

definition SMC32_PSCI_FID_MIN :: u64 where [word_consts]: "SMC32_PSCI_FID_MIN = 0x84000000"
definition SMC32_PSCI_FID_MAX :: u64 where [word_consts]: "SMC32_PSCI_FID_MAX = 0x84000014"
definition SMC64_PSCI_FID_MIN :: u64 where [word_consts]: "SMC64_PSCI_FID_MIN = 0xC4000000"
definition SMC64_PSCI_FID_MAX :: u64 where [word_consts]: "SMC64_PSCI_FID_MAX = 0xC4000014"

text \<open>The name of a call; an access behind the end of the array of names is \<^verbatim>\<open>None\<close>.\<close>

definition call_name :: "u32 \<Rightarrow> string option" where
  "call_name fid =
     (let id = (ucast fid :: u64); number = pad_left 8 (CHR ''0'') (hex_of (unat fid))
      in if SMC_RSI_ABI_VERSION \<le> id \<and> id \<le> SMC_RSI_DEV_MEM then do {
           let i = unat (id - SMC_RSI_ABI_VERSION);
           assert_c (i < length rsi_logger);
           Some (''SMC_RSI_'' @ (case rsi_logger ! i of Some s \<Rightarrow> s | None \<Rightarrow> number))
         } else if SMC32_PSCI_FID_MIN \<le> id \<and> id \<le> SMC32_PSCI_FID_MAX
                 \<or> SMC64_PSCI_FID_MIN \<le> id \<and> id \<le> SMC64_PSCI_FID_MAX
         then Some (''PSCI_'' @ number)
         else Some (''SMC_'' @ number))"

definition print_entry :: "u32 \<Rightarrow> u64 list \<Rightarrow> nat \<Rightarrow> (nat \<times> string) option" where
  "print_entry fid args len = do {
     name \<leftarrow> call_name fid;
     let (cnt, name) = snprintf 30 name;
     assert_c (0 < cnt \<and> cnt < 30);
     Some (snprintf len (pad_right 29 (CHR '' '') name
       @ concat (map (\<lambda>a. '' '' @ pad_left 8 (CHR '' '') (hex_of (unat a))) args) @ '' ''))
   }"

definition print_code :: "nat \<Rightarrow> u64 \<Rightarrow> nat \<times> string" where
  "print_code len res = snprintf len (''> '' @ hex_of (unat res))"

definition print_status :: "nat \<Rightarrow> u64 \<Rightarrow> nat \<times> string" where
  "print_status len res =
     (let st = unat (rc_status (unpack_return_code res))
      in if st \<ge> length rsi_status_handler then snprintf len (''> '' @ hex_of (unat res))
         else snprintf len (''> '' @ rsi_status_handler ! st))"

definition rsi_log_on_exit :: "u32 \<Rightarrow> u64 list \<Rightarrow> u64 \<Rightarrow> bool \<Rightarrow> string option" where
  "rsi_log_on_exit function_id args res exit_to_rec = do {
     (cnt, line) \<leftarrow> print_entry function_id args BUFFER_SIZE;
     assert_c (0 < cnt \<and> cnt < BUFFER_SIZE);
     if exit_to_rec then do {
       let buf_len = BUFFER_SIZE - cnt;
       let (cnt, rest) = (if SMC_RSI_MEASUREMENT_READ \<le> ucast function_id \<and> ucast function_id \<le> SMC_RSI_DEV_MEM
                          then print_status buf_len res else print_code buf_len res);
       assert_c (0 < cnt \<and> cnt < buf_len);
       Some (line @ rest)
     } else Some line
   }"

lemma rsi_logger_size: "length rsi_logger = 10" by (simp add: rsi_logger_def)

lemma hex_of_length: "n < 16 ^ k \<Longrightarrow> length (hex_of n) \<le> max 1 k"
proof (induction k arbitrary: n)
  case 0
  then show ?case by (simp add: hex_of.simps)
next
  case (Suc k)
  show ?case
  proof (cases "n < 16")
    case True
    then show ?thesis by (simp add: hex_of.simps)
  next
    case False
    then have "k \<noteq> 0" using Suc.prems by (cases k) simp_all
    moreover have "n div 16 < 16 ^ k" using Suc.prems by (simp add: less_mult_imp_div_less mult.commute)
    ultimately show ?thesis using Suc.IH [of "n div 16"] False by (subst hex_of.simps) simp
  qed
qed

lemma hex_u64: "length (hex_of (unat (w :: u64))) \<le> 16"
proof -
  have "unat w < 2 ^ LENGTH(64)" by (rule unsigned_less)
  then show ?thesis using hex_of_length [of "unat w" 16] by simp
qed

lemma hex_u32: "length (hex_of (unat (w :: u32))) \<le> 8"
proof -
  have "unat w < 2 ^ LENGTH(32)" by (rule unsigned_less)
  then show ?thesis using hex_of_length [of "unat w" 8] by simp
qed

lemma log_args_length:
  "length (concat (map (\<lambda>a. '' '' @ pad_left 8 (CHR '' '') (hex_of (unat (a :: u64)))) args)) \<le> 17 * length args"
proof (induction args)
  case (Cons a args)
  then show ?case using hex_u64 [of a] by (simp add: pad_left_def)
qed simp

text \<open>The names fit into their buffer; only that of one call lies behind the end of the array.\<close>

lemma rsi_logger_names: "i < 10 \<Longrightarrow> rsi_logger ! i = Some s \<Longrightarrow> length s \<le> 21"
proof -
  have "list_all (\<lambda>r. case r of None \<Rightarrow> True | Some s \<Rightarrow> length s \<le> 21) rsi_logger" by code_simp
  moreover assume "i < 10" "rsi_logger ! i = Some s"
  moreover from this have "Some s \<in> set rsi_logger" by (metis nth_mem rsi_logger_size)
  ultimately show ?thesis by (auto simp: list_all_iff)
qed

lemma call_name_fits:
  assumes "ucast fid \<noteq> SMC_RSI_DEV_MEM"
  obtains s where "call_name fid = Some s" "0 < length s" "length s < 30"
proof -
  let ?id = "ucast fid :: u64" let ?n = "pad_left 8 (CHR ''0'') (hex_of (unat fid))"
  have n: "length ?n \<le> 8" using hex_u32 [of fid] by (simp add: pad_left_def)
  show thesis
  proof (cases "SMC_RSI_ABI_VERSION \<le> ?id \<and> ?id \<le> SMC_RSI_DEV_MEM")
    case False
    then show thesis using that n by (cases "SMC32_PSCI_FID_MIN \<le> ?id \<and> ?id \<le> SMC32_PSCI_FID_MAX
        \<or> SMC64_PSCI_FID_MIN \<le> ?id \<and> ?id \<le> SMC64_PSCI_FID_MAX") (auto simp: call_name_def Let_def)
  next
    case True
    let ?i = "unat (?id - SMC_RSI_ABI_VERSION)"
    have "unat ?id < 0xC400019A" "0xC4000190 \<le> unat ?id"
      using True assms by (auto simp: SMC_RSI_ABI_VERSION_def SMC_RSI_DEV_MEM_def word_le_nat_alt word_unat_eq_iff)
    then have i: "?i < 10" using True by (simp add: unat_sub SMC_RSI_ABI_VERSION_def)
    have "length (case rsi_logger ! ?i of Some s \<Rightarrow> s | None \<Rightarrow> ?n) \<le> 21"
      using n rsi_logger_names [OF i] by (cases "rsi_logger ! ?i") simp_all
    then show thesis using that True i by (simp add: call_name_def Let_def rsi_logger_size)
  qed
qed

lemma print_entry_fits:
  assumes "length args = 5" and "ucast fid \<noteq> SMC_RSI_DEV_MEM"
  obtains line where "print_entry fid args BUFFER_SIZE = Some (length line, line)" "0 < length line" "length line \<le> 115"
proof -
  obtain s where s: "call_name fid = Some s" "0 < length s" "length s < 30" by (rule call_name_fits [OF assms(2)])
  let ?line = "pad_right 29 (CHR '' '') s
       @ concat (map (\<lambda>a. '' '' @ pad_left 8 (CHR '' '') (hex_of (unat a))) args) @ '' ''"
  have l: "length ?line \<le> 115" using s(3) log_args_length [of args] assms(1) by (simp add: pad_right_def)
  have "print_entry fid args BUFFER_SIZE = Some (length ?line, ?line)"
    using s l by (simp add: print_entry_def snprintf_def BUFFER_SIZE_def)
  then show thesis by (rule that) (use l in simp_all)
qed

lemma print_result_fits:
  assumes "(cnt, t) = print_status len res \<or> (cnt, t) = print_code len res" and "20 \<le> len"
  shows "0 < cnt \<and> cnt < len \<and> length t \<le> 18"
proof -
  let ?st = "unat (rc_status (unpack_return_code res))"
  have "list_all (\<lambda>s. length s \<le> 16) rsi_status_handler" by code_simp
  then have st: "length (rsi_status_handler ! ?st) \<le> 16" if "?st < length rsi_status_handler"
    using that by (simp add: list_all_length)
  have "\<exists>u. (cnt, t) = snprintf len (''> '' @ u) \<and> length u \<le> 16"
  proof (cases "(cnt, t) = print_status len res \<and> ?st < length rsi_status_handler")
    case True
    then show ?thesis using st by (intro exI [of _ "rsi_status_handler ! ?st"]) (simp add: print_status_def)
  next
    case False
    then have "(cnt, t) = snprintf len (''> '' @ hex_of (unat res))"
      using assms(1) by (auto simp: print_status_def print_code_def Let_def)
    then show ?thesis using hex_u64 [of res] by blast
  qed
  then show ?thesis using assms(2) by (auto simp: snprintf_def)
qed

text \<open>
  The line always fits into its buffer.  The one call whose name is looked up behind the end of
  the array is RSI_DEV_MEM.
\<close>

lemma rsi_log_line:
  assumes "length args = 5"
  shows "case rsi_log_on_exit fid args res to_rec of
      None \<Rightarrow> ucast fid = SMC_RSI_DEV_MEM
    | Some line \<Rightarrow> ucast fid \<noteq> SMC_RSI_DEV_MEM \<and> length line < BUFFER_SIZE"
proof (cases "ucast fid = SMC_RSI_DEV_MEM")
  case True
  then have "call_name fid = None"
    by (simp add: call_name_def Let_def rsi_logger_size SMC_RSI_DEV_MEM_def SMC_RSI_ABI_VERSION_def)
  then show ?thesis using True by (simp add: rsi_log_on_exit_def print_entry_def)
next
  case False
  obtain line where l: "print_entry fid args BUFFER_SIZE = Some (length line, line)" "0 < length line" "length line \<le> 115"
    by (rule print_entry_fits [OF assms False])
  let ?len = "BUFFER_SIZE - length line"
  obtain cnt t where t: "(cnt, t) = (if SMC_RSI_MEASUREMENT_READ \<le> ucast fid \<and> ucast fid \<le> SMC_RSI_DEV_MEM
      then print_status ?len res else print_code ?len res)" by (metis surj_pair)
  have len: "20 \<le> ?len" using l(3) by (simp add: BUFFER_SIZE_def)
  have lt: "length line < BUFFER_SIZE" using l(3) by (simp add: BUFFER_SIZE_def)
  have f: "0 < cnt \<and> cnt < ?len \<and> length t \<le> 18"
    by (rule print_result_fits [OF _ len]) (use t in \<open>auto split: if_splits\<close>)
  have "rsi_log_on_exit fid args res to_rec = Some (if to_rec then line @ t else line)"
    using l(1,2) lt f t [symmetric] by (simp add: rsi_log_on_exit_def Let_def)
  then show ?thesis using False l(3) f by (simp add: BUFFER_SIZE_def)
qed

text \<open>
  C39: when the log of the calls of a realm is compiled in, its line fits into its buffer for
  every call, every argument and every result; the only call that fails is RSI_DEV_MEM, whose
  name is looked up behind the end of the array of names.
\<close>

theorem rsi_log_fits:
  assumes "length args = 5"
  shows "case rsi_log_on_exit fid args res to_rec of
      None \<Rightarrow> ucast fid = SMC_RSI_DEV_MEM
    | Some line \<Rightarrow> ucast fid \<noteq> SMC_RSI_DEV_MEM \<and> length line < BUFFER_SIZE"
  using assms by (rule rsi_log_line)

theorem rsi_log_fits_witness:
  "case rsi_log_on_exit 0xC4000196 [- 1, 0x1000, 0, 0, 0] 1 True of
      None \<Rightarrow> ucast (0xC4000196 :: u32) = SMC_RSI_DEV_MEM
    | Some line \<Rightarrow> ucast (0xC4000196 :: u32) \<noteq> SMC_RSI_DEV_MEM \<and> length line < BUFFER_SIZE"
  by (rule rsi_log_fits) simp

end
