(* ===== verification/Gic.thy ===== *)
theory Gic
  imports Cpu_State Rec_Cmds
begin

text \<open>
  The virtual interrupt controller (lib/gic/src/gic.c and gic.h): the features of the
  hardware, the exchange of the list registers with the host, the check of the state the
  host asks for, and the save and restore around a run of the realm.
\<close>

section \<open>Features of the interrupt controller\<close>

text \<open>
  \<^verbatim>\<open>gic_virt_feature\<close> is written once at boot; the functions below take it as a
  parameter.  ICH_VTR_EL2 and ICC_CTLR_EL1 are the parameters of its initialisation.
\<close>

record gic_virt_feature_s =
  nr_lrs :: nat
  nr_aprs :: nat
  pri_res0_mask :: u64
  max_vintid :: u64
  ext_range :: bool

definition ICH_MAX_LRS :: nat where [arch_consts]: "ICH_MAX_LRS = 16"
definition ICH_LR_PRIORITY_WIDTH :: nat where [arch_consts]: "ICH_LR_PRIORITY_WIDTH = 8"

definition gic_get_virt_features :: "u64 \<Rightarrow> u64 \<Rightarrow> gic_virt_feature_s option" where
  "gic_get_virt_features vtr icc_ctlr = do {
     let lrs = unat (EXTRACT 5 0 vtr);
     assert_c (lrs < ICH_MAX_LRS);
     let nr_pre_bits = EXTRACT 3 26 vtr + 1;
     assert_c (5 \<le> nr_pre_bits);
     let aprs = unat (push_bit (unat (nr_pre_bits - 5)) 1 - 1 :: u64);
     let vintid = (if EXTRACT 3 23 vtr = 0 then push_bit 16 1 - 1 else push_bit 24 1 - 1);
     let nr_pri_bits = EXTRACT 3 29 vtr + 1;
     let res0 = push_bit (ICH_LR_PRIORITY_WIDTH - unat nr_pri_bits) 1 - 1;
     Some \<lparr>nr_lrs = lrs, nr_aprs = aprs, pri_res0_mask = res0, max_vintid = vintid,
           ext_range = (icc_ctlr AND push_bit 19 1 \<noteq> 0)\<rparr>
   }"

section \<open>Exchange with the host\<close>

definition ICH_HCR_EL2_NS_MASK :: u64 where
  [arch_consts]: "ICH_HCR_EL2_NS_MASK = INPLACE 1 1 OR INPLACE 2 1 OR INPLACE 3 1 OR INPLACE 4 1
     OR INPLACE 5 1 OR INPLACE 6 1 OR INPLACE 7 1 OR INPLACE 14 1"
definition ICH_HCR_EL2_EOI_COUNT_MASK :: u64 where
  [arch_consts]: "ICH_HCR_EL2_EOI_COUNT_MASK = MASK 5 27"

text \<open>The loops that copy the list registers replace the first \<open>nr_lrs + 1\<close> entries.\<close>

definition copy_lrs :: "gic_virt_feature_s \<Rightarrow> u64 list \<Rightarrow> u64 list \<Rightarrow> u64 list" where
  "copy_lrs gf src dst = take (nr_lrs gf + 1) src @ drop (nr_lrs gf + 1) dst"

definition gic_copy_state_from_ns ::
  "gic_virt_feature_s \<Rightarrow> rmi_rec_entry \<Rightarrow> gic_cpu_state \<Rightarrow> gic_cpu_state" where
  "gic_copy_state_from_ns gf rec_entry gs =
     gs\<lparr>ich_lr_el2 := copy_lrs gf (entry_gicv3_lrs rec_entry) (ich_lr_el2 gs),
        ich_hcr_el2 := (ich_hcr_el2 gs AND NOT ICH_HCR_EL2_NS_MASK)
          OR (entry_gicv3_hcr rec_entry AND ICH_HCR_EL2_NS_MASK)\<rparr>"

definition gic_copy_state_to_ns ::
  "gic_virt_feature_s \<Rightarrow> gic_cpu_state \<Rightarrow> rmi_rec_exit \<Rightarrow> rmi_rec_exit" where
  "gic_copy_state_to_ns gf gs rec_exit =
     rec_exit\<lparr>exit_gicv3_lrs := copy_lrs gf (ich_lr_el2 gs) (exit_gicv3_lrs rec_exit),
              exit_gicv3_misr := ich_misr_el2 gs, exit_gicv3_vmcr := ich_vmcr_el2 gs,
              exit_gicv3_hcr := ich_hcr_el2 gs
                AND (ICH_HCR_EL2_EOI_COUNT_MASK OR ICH_HCR_EL2_NS_MASK)\<rparr>"

section \<open>The check of the list registers\<close>

definition is_valid_vintid :: "gic_virt_feature_s \<Rightarrow> u64 \<Rightarrow> bool" where
  "is_valid_vintid gf intid =
     (if intid \<le> 1019 \<or> 8192 \<le> intid \<and> intid \<le> max_vintid gf then True
      else if ext_range gf then 1056 \<le> intid \<and> intid \<le> 1119 \<or> 4096 \<le> intid \<and> intid \<le> 5119
      else False)"

definition ICH_LR_STATE_MASK :: u64 where [arch_consts]: "ICH_LR_STATE_MASK = MASK 2 62"
definition ICH_LR_STATE_INVALID :: u64 where [arch_consts]: "ICH_LR_STATE_INVALID = INPLACE 62 0"
definition ICH_LR_PINTID_MASK :: u64 where [arch_consts]: "ICH_LR_PINTID_MASK = MASK 13 32"
definition ICH_LR_EOI_BIT :: u64 where [arch_consts]: "ICH_LR_EOI_BIT = INPLACE 41 1"
definition ICH_LR_HW_BIT :: u64 where [arch_consts]: "ICH_LR_HW_BIT = INPLACE 61 1"

text \<open>The body of the inner loop: a later register in use with the same interrupt number.\<close>

fun lr_repeated :: "u64 \<Rightarrow> u64 list \<Rightarrow> bool" where
  "lr_repeated intid [] = False"
| "lr_repeated intid (lr # lrs) =
     (if lr AND ICH_LR_STATE_MASK = ICH_LR_STATE_INVALID then lr_repeated intid lrs
      else if intid = EXTRACT 32 0 lr then True
      else lr_repeated intid lrs)"

fun validate_lrs :: "gic_virt_feature_s \<Rightarrow> u64 list \<Rightarrow> bool" where
  "validate_lrs gf [] = True"
| "validate_lrs gf (lr # lrs) =
     (let intid = EXTRACT 32 0 lr
      in if lr AND ICH_LR_STATE_MASK = ICH_LR_STATE_INVALID then validate_lrs gf lrs
         else if EXTRACT 1 61 lr \<noteq> 0
              \<or> EXTRACT 8 48 lr AND pri_res0_mask gf \<noteq> 0
              \<or> lr AND ICH_LR_PINTID_MASK AND NOT ICH_LR_EOI_BIT \<noteq> 0
              \<or> \<not> is_valid_vintid gf intid
         then False
         else if lr_repeated intid lrs then False
         else validate_lrs gf lrs)"

definition gic_validate_state :: "gic_virt_feature_s \<Rightarrow> gic_cpu_state \<Rightarrow> bool" where
  "gic_validate_state gf gs = validate_lrs gf (take (nr_lrs gf + 1) (ich_lr_el2 gs))"

section \<open>Save and restore\<close>

text \<open>
  The switch statements fall through from their case down to case 0, and the default is
  case 0: the registers 0 to \<open>nr_lrs\<close> are copied if \<open>nr_lrs\<close> is at most 15, and likewise for
  the active priority registers.
\<close>

definition copy_down :: "nat \<Rightarrow> nat \<Rightarrow> u64 list \<Rightarrow> u64 list \<Rightarrow> u64 list" where
  "copy_down highest n src dst =
     (let m = (if n \<le> highest then n else 0) in take (m + 1) src @ drop (m + 1) dst)"

definition read_lrs :: "gic_virt_feature_s \<Rightarrow> pe \<Rightarrow> gic_cpu_state \<Rightarrow> gic_cpu_state" where
  "read_lrs gf p gs =
     gs\<lparr>ich_lr_el2 := copy_down 15 (nr_lrs gf) (ich_lr_el2 (gicstate (hw p))) (ich_lr_el2 gs)\<rparr>"

definition read_aprs :: "gic_virt_feature_s \<Rightarrow> pe \<Rightarrow> gic_cpu_state \<Rightarrow> gic_cpu_state" where
  "read_aprs gf p gs =
     gs\<lparr>ich_ap0r_el2 := copy_down 3 (nr_aprs gf) (ich_ap0r_el2 (gicstate (hw p))) (ich_ap0r_el2 gs),
        ich_ap1r_el2 := copy_down 3 (nr_aprs gf) (ich_ap1r_el2 (gicstate (hw p))) (ich_ap1r_el2 gs)\<rparr>"

definition on_gic :: "(gic_cpu_state \<Rightarrow> gic_cpu_state) \<Rightarrow> pe \<Rightarrow> pe" where
  "on_gic f = on_hw (\<lambda>r. r\<lparr>gicstate := f (gicstate r)\<rparr>)"

definition write_lrs :: "gic_virt_feature_s \<Rightarrow> gic_cpu_state \<Rightarrow> pe \<Rightarrow> pe" where
  "write_lrs gf gs = on_gic (\<lambda>h. h\<lparr>ich_lr_el2 := copy_down 15 (nr_lrs gf) (ich_lr_el2 gs) (ich_lr_el2 h)\<rparr>)"

definition write_aprs :: "gic_virt_feature_s \<Rightarrow> gic_cpu_state \<Rightarrow> pe \<Rightarrow> pe" where
  "write_aprs gf gs = on_gic (\<lambda>h.
     h\<lparr>ich_ap0r_el2 := copy_down 3 (nr_aprs gf) (ich_ap0r_el2 gs) (ich_ap0r_el2 h),
       ich_ap1r_el2 := copy_down 3 (nr_aprs gf) (ich_ap1r_el2 gs) (ich_ap1r_el2 h)\<rparr>)"

definition gic_restore_state :: "gic_virt_feature_s \<Rightarrow> gic_cpu_state \<Rightarrow> pe \<Rightarrow> pe" where
  "gic_restore_state gf gs p =
     on_gic (\<lambda>h. h\<lparr>ich_vmcr_el2 := ich_vmcr_el2 gs, ich_hcr_el2 := ich_hcr_el2 gs\<rparr>)
       (write_lrs gf gs (write_aprs gf gs p))"

definition gic_save_state ::
  "gic_virt_feature_s \<Rightarrow> pe \<Rightarrow> gic_cpu_state \<Rightarrow> gic_cpu_state \<times> pe" where
  "gic_save_state gf p gs =
     (let h = gicstate (hw p);
          gs = read_lrs gf p (read_aprs gf p gs);
          gs = gs\<lparr>ich_vmcr_el2 := ich_vmcr_el2 h, ich_hcr_el2 := ich_hcr_el2 h,
                  ich_misr_el2 := ich_misr_el2 h\<rparr>
      in (gs, on_gic (\<lambda>h. h\<lparr>ich_hcr_el2 := ich_hcr_el2 gs AND NOT ICH_HCR_EL2_EN_BIT\<rparr>) p))"

text \<open>
  The timers of the realm (lib/timers/src/timers.c): their interrupts are masked while
  their outputs are asserted, and the host is told when an output changes.
\<close>

definition CNTHCTL_EL2_CNTVMASK :: u64 where [arch_consts]: "CNTHCTL_EL2_CNTVMASK = push_bit 18 1"
definition CNTHCTL_EL2_CNTPMASK :: u64 where [arch_consts]: "CNTHCTL_EL2_CNTPMASK = push_bit 19 1"
definition CNTx_CTL_ENABLE :: u64 where [arch_consts]: "CNTx_CTL_ENABLE = push_bit 0 1"
definition CNTx_CTL_IMASK :: u64 where [arch_consts]: "CNTx_CTL_IMASK = push_bit 1 1"
definition CNTx_CTL_ISTATUS :: u64 where [arch_consts]: "CNTx_CTL_ISTATUS = push_bit 2 1"
definition EL1_VIRT_TIMER_PPI :: u64 where [arch_consts]: "EL1_VIRT_TIMER_PPI = 27"
definition EL1_PHYS_TIMER_PPI :: u64 where [arch_consts]: "EL1_PHYS_TIMER_PPI = 30"

definition TIMER_ASSERTED :: "u64 \<Rightarrow> bool" where
  "TIMER_ASSERTED reg \<longleftrightarrow>
     reg AND (CNTx_CTL_ENABLE OR CNTx_CTL_ISTATUS OR CNTx_CTL_IMASK)
       = CNTx_CTL_ENABLE OR CNTx_CTL_ISTATUS"

text \<open>
  The loop that reads the highest pending interrupt until it is not one of the masked
  timers; the reads that are left are returned.  It does not return if every read
  delivers such an interrupt.
\<close>

fun wait_timer_retired :: "u64 \<Rightarrow> u64 list \<Rightarrow> u64 list option" where
  "wait_timer_retired cnthctl [] = None"
| "wait_timer_retired cnthctl (hppir # rest) =
     (let intid = EXTRACT 24 0 hppir
      in if \<not> (cnthctl AND CNTHCTL_EL2_CNTVMASK \<noteq> 0 \<and> intid = EL1_VIRT_TIMER_PPI
               \<or> cnthctl AND CNTHCTL_EL2_CNTPMASK \<noteq> 0 \<and> intid = EL1_PHYS_TIMER_PPI)
         then Some rest
         else wait_timer_retired cnthctl rest)"

definition check_pending_timers :: "rec \<Rightarrow> pe \<Rightarrow> (bool \<times> rec \<times> pe) option" where
  "check_pending_timers rec p = do {
     let cntv_ctl = cntv_ctl_el0 (hw p);
     let cntp_ctl = cntp_ctl_el0 (hw p);
     let cnthctl_old = cnthctl_el2 (rec_sysregs rec);
     let cnthctl = (if TIMER_ASSERTED cntv_ctl then cnthctl_old OR CNTHCTL_EL2_CNTVMASK
                    else cnthctl_old AND NOT CNTHCTL_EL2_CNTVMASK);
     let cnthctl = (if TIMER_ASSERTED cntp_ctl then cnthctl OR CNTHCTL_EL2_CNTPMASK
                    else cnthctl AND NOT CNTHCTL_EL2_CNTPMASK);
     let rec = rec\<lparr>rec_sysregs := (rec_sysregs rec)\<lparr>cnthctl_el2 := cnthctl\<rparr>\<rparr>;
     let p = (if cnthctl_old \<noteq> cnthctl then on_hw (\<lambda>r. r\<lparr>cnthctl_el2 := cnthctl\<rparr>) p else p);
     rest \<leftarrow> wait_timer_retired cnthctl (hppir_reads p);
     Some (TIMER_ASSERTED cntv_ctl \<noteq> TIMER_ASSERTED (cntv_ctl_el0 (rec_sysregs rec))
           \<or> TIMER_ASSERTED cntp_ctl \<noteq> TIMER_ASSERTED (cntp_ctl_el0 (rec_sysregs rec)),
           rec, p\<lparr>hppir_reads := rest\<rparr>)
   }"

definition report_timer_state_to_ns :: "pe \<Rightarrow> rmi_rec_exit \<Rightarrow> rmi_rec_exit" where
  "report_timer_state_to_ns p rec_exit =
     rec_exit\<lparr>exit_cntv_ctl := cntv_ctl_el0 (hw p),
              exit_cntv_cval := cntv_cval_el0 (hw p) - cntvoff_el2 (hw p),
              exit_cntp_ctl := cntp_ctl_el0 (hw p),
              exit_cntp_cval := cntp_cval_el0 (hw p) - cntpoff_el2 (hw p)\<rparr>"

end
