(* ===== verification/Sysreg_Traps.thy ===== *)
theory Sysreg_Traps
  imports Cpu_State
begin

text \<open>
  The injection of exceptions into a realm (runtime/core/inject_exp.c), into the registers
  of the running REC or into a saved REC, and the pending SError of runtime/core/run.c.
\<close>

definition calc_vector_entry :: "u64 \<Rightarrow> u64 \<Rightarrow> u64 option" where
  "calc_vector_entry vbar spsr =
     (if spsr AND SPSR_EL2_MODE_MASK = SPSR_EL2_MODE_EL1h
      then Some (vbar + VBAR_CEL_SP_ELx_OFFSET)
      else if spsr AND SPSR_EL2_MODE_MASK = SPSR_EL2_MODE_EL1t
      then Some (vbar + VBAR_CEL_SP_EL0_OFFSET)
      else if spsr AND SPSR_EL2_MODE_MASK = SPSR_EL2_MODE_EL0t
      then if spsr AND SPSR_EL2_nRW_MASK = SPSR_EL2_nRW_AARCH64
           then Some (vbar + VBAR_LEL_AA64_OFFSET)
           else Some (vbar + VBAR_LEL_AA32_OFFSET)
      else None)"

definition calc_pstate :: u64 where
  "calc_pstate = SPSR_EL2_MODE_EL1h OR SPSR_EL2_nRW_AARCH64 OR SPSR_EL2_F_BIT OR SPSR_EL2_I_BIT
     OR SPSR_EL2_A_BIT OR SPSR_EL2_D_BIT"

definition calc_esr_idabort :: "u64 \<Rightarrow> u64 \<Rightarrow> u64 \<Rightarrow> u64 option" where
  "calc_esr_idabort esr_el2 spsr_el2 fsc = do {
     let esr_el1 = esr_el2 AND NOT (ESR_EL2_EC_MASK OR ESR_EL2_ABORT_FSC_MASK
                     OR ESR_EL2_ABORT_FNV_BIT OR ESR_EL2_ABORT_S1PTW_BIT);
     let ec = esr_el2 AND ESR_EL2_EC_MASK;
     assert_c (ec = ESR_EL2_EC_INST_ABORT \<or> ec = ESR_EL2_EC_DATA_ABORT);
     let ec = (if spsr_el2 AND SPSR_EL2_MODE_MASK \<noteq> SPSR_EL2_MODE_EL0t
               then ec + push_bit 26 1 else ec);
     let esr_el1 = esr_el1 OR ec;
     assert_c (fsc AND NOT ESR_EL2_ABORT_FSC_MASK = 0);
     let esr_el1 = esr_el1 OR fsc;
     Some (esr_el1 OR ESR_EL2_ABORT_EA_BIT)
   }"

definition inject_sync_idabort :: "u64 \<Rightarrow> pe \<Rightarrow> pe option" where
  "inject_sync_idabort fsc p = do {
     let spsr = hw_spsr_el2 p;
     esr \<leftarrow> calc_esr_idabort (hw_esr_el2 p) spsr fsc;
     pc \<leftarrow> calc_vector_entry (vbar_el1 (hw p)) spsr;
     let p = on_hw (\<lambda>r. r\<lparr>far_el1 := hw_far_el2 p, elr_el1 := hw_elr_el2 p, spsr_el1 := spsr,
                          esr_el1 := esr\<rparr>) p;
     Some (p\<lparr>hw_elr_el2 := pc, hw_spsr_el2 := calc_pstate\<rparr>)
   }"

definition inject_sync_idabort_rec :: "rec \<Rightarrow> u64 \<Rightarrow> rec option" where
  "inject_sync_idabort_rec rec fsc = do {
     esr \<leftarrow> calc_esr_idabort (lr_esr (rec_last_run rec)) (rec_pstate rec) fsc;
     pc \<leftarrow> calc_vector_entry (vbar_el1 (rec_sysregs rec)) (rec_pstate rec);
     Some (rec\<lparr>rec_sysregs := (rec_sysregs rec)\<lparr>far_el1 := lr_far (rec_last_run rec),
                  elr_el1 := rec_pc rec, spsr_el1 := rec_pstate rec, esr_el1 := esr\<rparr>,
               rec_pc := pc, rec_pstate := calc_pstate\<rparr>)
   }"

definition realm_inject_undef_abort :: "pe \<Rightarrow> pe option" where
  "realm_inject_undef_abort p = do {
     let esr = ESR_EL2_IL_MASK OR ESR_EL2_EC_UNKNOWN;
     let spsr = hw_spsr_el2 p;
     pc \<leftarrow> calc_vector_entry (vbar_el1 (hw p)) spsr;
     let p = on_hw (\<lambda>r. r\<lparr>elr_el1 := hw_elr_el2 p, spsr_el1 := spsr, esr_el1 := esr\<rparr>) p;
     Some (p\<lparr>hw_elr_el2 := pc, hw_spsr_el2 := calc_pstate\<rparr>)
   }"

section \<open>SErrors\<close>

definition activate_events :: "rec \<Rightarrow> pe \<Rightarrow> rec \<times> pe" where
  "activate_events rec p =
     (if se_inject (rec_serror rec)
      then (rec\<lparr>rec_serror := (rec_serror rec)\<lparr>se_inject := False\<rparr>\<rparr>,
            on_hw (\<lambda>r. r\<lparr>run_hcr_el2 := run_hcr_el2 (rec_sysregs rec) OR HCR_VSE\<rparr>)
              (p\<lparr>hw_vsesr_el2 := se_vsesr_el2 (rec_serror rec)\<rparr>))
      else (rec, p))"

definition inject_serror :: "rec \<Rightarrow> u64 \<Rightarrow> rec" where
  "inject_serror rec vsesr =
     rec\<lparr>rec_serror := \<lparr>se_vsesr_el2 = vsesr, se_inject = True\<rparr>\<rparr>"

text \<open>
  Trapped accesses of a realm to system registers (runtime/core/sysregs.c): identification
  registers are emulated, some registers of the interrupt controller are passed to the
  host, all others read as zero and ignore writes.
\<close>

section \<open>Encodings\<close>

definition ESR_EL2_SYSREG_MASK :: u64 where
  [arch_consts]: "ESR_EL2_SYSREG_MASK = SYSREG_ESR 3 7 15 15 7"
definition ESR_EL2_SYSREG_ID_MASK :: u64 where
  [arch_consts]: "ESR_EL2_SYSREG_ID_MASK = SYSREG_ESR 3 7 15 0 0"
definition ESR_EL2_SYSREG_ID :: u64 where [arch_consts]: "ESR_EL2_SYSREG_ID = SYSREG_ESR 3 0 0 0 0"
definition ESR_EL2_SYSREG_ID_AA64PFR0_EL1 :: u64 where
  [arch_consts]: "ESR_EL2_SYSREG_ID_AA64PFR0_EL1 = SYSREG_ESR 3 0 0 4 0"
definition ESR_EL2_SYSREG_ID_AA64PFR1_EL1 :: u64 where
  [arch_consts]: "ESR_EL2_SYSREG_ID_AA64PFR1_EL1 = SYSREG_ESR 3 0 0 4 1"
definition ESR_EL2_SYSREG_ID_AA64DFR0_EL1 :: u64 where
  [arch_consts]: "ESR_EL2_SYSREG_ID_AA64DFR0_EL1 = SYSREG_ESR 3 0 0 5 0"
definition ESR_EL2_SYSREG_ID_AA64DFR1_EL1 :: u64 where
  [arch_consts]: "ESR_EL2_SYSREG_ID_AA64DFR1_EL1 = SYSREG_ESR 3 0 0 5 1"
definition ESR_EL2_SYSREG_ID_AA64AFR0_EL1 :: u64 where
  [arch_consts]: "ESR_EL2_SYSREG_ID_AA64AFR0_EL1 = SYSREG_ESR 3 0 0 5 4"
definition ESR_EL2_SYSREG_ID_AA64AFR1_EL1 :: u64 where
  [arch_consts]: "ESR_EL2_SYSREG_ID_AA64AFR1_EL1 = SYSREG_ESR 3 0 0 5 5"
definition ESR_EL2_SYSREG_ID_AA64ISAR0_EL1 :: u64 where
  [arch_consts]: "ESR_EL2_SYSREG_ID_AA64ISAR0_EL1 = SYSREG_ESR 3 0 0 6 0"
definition ESR_EL2_SYSREG_ID_AA64ISAR1_EL1 :: u64 where
  [arch_consts]: "ESR_EL2_SYSREG_ID_AA64ISAR1_EL1 = SYSREG_ESR 3 0 0 6 1"
definition ESR_EL2_SYSREG_ID_AA64MMFR0_EL1 :: u64 where
  [arch_consts]: "ESR_EL2_SYSREG_ID_AA64MMFR0_EL1 = SYSREG_ESR 3 0 0 7 0"
definition ESR_EL2_SYSREG_ID_AA64MMFR1_EL1 :: u64 where
  [arch_consts]: "ESR_EL2_SYSREG_ID_AA64MMFR1_EL1 = SYSREG_ESR 3 0 0 7 1"
definition ESR_EL2_SYSREG_ID_AA64MMFR2_EL1 :: u64 where
  [arch_consts]: "ESR_EL2_SYSREG_ID_AA64MMFR2_EL1 = SYSREG_ESR 3 0 0 7 2"
definition ESR_EL2_SYSREG_ICC_PMR_EL1 :: u64 where
  [arch_consts]: "ESR_EL2_SYSREG_ICC_PMR_EL1 = SYSREG_ESR 3 0 4 6 0"
definition ESR_EL2_SYSREG_ICC_EL1_MASK :: u64 where
  [arch_consts]: "ESR_EL2_SYSREG_ICC_EL1_MASK = SYSREG_ESR 3 3 15 8 0"
definition ESR_EL2_SYSREG_ICC_EL1 :: u64 where
  [arch_consts]: "ESR_EL2_SYSREG_ICC_EL1 = SYSREG_ESR 3 0 12 8 0"
definition ESR_EL2_SYSREG_ICC_DIR :: u64 where
  [arch_consts]: "ESR_EL2_SYSREG_ICC_DIR = SYSREG_ESR 3 0 12 11 1"
definition ESR_EL2_SYSREG_ICC_SGI1R_EL1 :: u64 where
  [arch_consts]: "ESR_EL2_SYSREG_ICC_SGI1R_EL1 = SYSREG_ESR 3 0 12 11 5"
definition ESR_EL2_SYSREG_ICC_SGI0R_EL1 :: u64 where
  [arch_consts]: "ESR_EL2_SYSREG_ICC_SGI0R_EL1 = SYSREG_ESR 3 0 12 11 7"

section \<open>Identification registers\<close>

text \<open>The values of the identification registers of the processor.\<close>

record id_regs =
  ID_AA64PFR0_EL1 :: u64
  ID_AA64PFR1_EL1 :: u64
  ID_AA64DFR0_EL1 :: u64
  ID_AA64DFR1_EL1 :: u64
  ID_AA64AFR0_EL1 :: u64
  ID_AA64AFR1_EL1 :: u64
  ID_AA64ISAR0_EL1 :: u64
  ID_AA64ISAR1_EL1 :: u64
  ID_AA64MMFR0_EL1 :: u64
  ID_AA64MMFR1_EL1 :: u64
  ID_AA64MMFR2_EL1 :: u64

definition is_feat_sve_present :: "id_regs \<Rightarrow> bool" where
  "is_feat_sve_present ids \<longleftrightarrow> drop_bit 32 (ID_AA64PFR0_EL1 ids) AND 0xf \<noteq> 0"

text \<open>
  The parameter is an \<^verbatim>\<open>unsigned int\<close>; no bit of an encoding is lost, as they end at bit 21.
\<close>

definition read_idreg :: "id_regs \<Rightarrow> u64 \<Rightarrow> u64" where
  "read_idreg ids idreg =
     (if idreg = ESR_EL2_SYSREG_ID_AA64PFR0_EL1 then ID_AA64PFR0_EL1 ids
      else if idreg = ESR_EL2_SYSREG_ID_AA64PFR1_EL1 then ID_AA64PFR1_EL1 ids
      else if idreg = ESR_EL2_SYSREG_ID_AA64DFR0_EL1 then ID_AA64DFR0_EL1 ids
      else if idreg = ESR_EL2_SYSREG_ID_AA64DFR1_EL1 then ID_AA64DFR1_EL1 ids
      else if idreg = ESR_EL2_SYSREG_ID_AA64AFR0_EL1 then ID_AA64AFR0_EL1 ids
      else if idreg = ESR_EL2_SYSREG_ID_AA64AFR1_EL1 then ID_AA64AFR1_EL1 ids
      else if idreg = ESR_EL2_SYSREG_ID_AA64ISAR0_EL1 then ID_AA64ISAR0_EL1 ids
      else if idreg = ESR_EL2_SYSREG_ID_AA64ISAR1_EL1 then ID_AA64ISAR1_EL1 ids
      else if idreg = ESR_EL2_SYSREG_ID_AA64MMFR0_EL1 then ID_AA64MMFR0_EL1 ids
      else if idreg = ESR_EL2_SYSREG_ID_AA64MMFR1_EL1 then ID_AA64MMFR1_EL1 ids
      else if idreg = ESR_EL2_SYSREG_ID_AA64MMFR2_EL1 then ID_AA64MMFR2_EL1 ids
      else 0)"

section \<open>Handlers\<close>

text \<open>Every handler returns whether the access was handled, the REC and the exit record.\<close>

definition handle_id_sysreg_trap ::
  "id_regs \<Rightarrow> rec \<Rightarrow> rmi_rec_exit \<Rightarrow> u64 \<Rightarrow> (bool \<times> rec \<times> rmi_rec_exit) option" where
  "handle_id_sysreg_trap ids rec rec_exit esr = do {
     assert_c (\<not> ESR_EL2_SYSREG_IS_WRITE esr);
     let rt = unat (ESR_EL2_SYSREG_ISS_RT esr);
     if rt = 31 then Some (True, rec, rec_exit)
     else do {
       let idreg = esr AND ESR_EL2_SYSREG_MASK;
       let mask = (if idreg = ESR_EL2_SYSREG_ID_AA64ISAR1_EL1
                   then push_bit 4 0xf OR push_bit 8 0xf OR push_bit 24 0xf OR push_bit 28 0xf
                   else if idreg = ESR_EL2_SYSREG_ID_AA64PFR0_EL1
                   then MASK 4 44 OR MASK 4 32
                   else 0);
       assert_c (rt < length (rec_regs rec));
       Some (True, rec\<lparr>rec_regs := (rec_regs rec)[rt := read_idreg ids idreg AND NOT mask]\<rparr>,
             rec_exit)
     }
   }"

definition handle_icc_el1_sysreg_trap ::
  "rec \<Rightarrow> rmi_rec_exit \<Rightarrow> u64 \<Rightarrow> (bool \<times> rec \<times> rmi_rec_exit) option" where
  "handle_icc_el1_sysreg_trap rec rec_exit esr = do {
     let sysreg = esr AND ESR_EL2_SYSREG_MASK;
     assert_c (sysreg = ESR_EL2_SYSREG_ICC_DIR \<or> sysreg = ESR_EL2_SYSREG_ICC_SGI1R_EL1
               \<or> sysreg = ESR_EL2_SYSREG_ICC_SGI0R_EL1);
     assert_c (ESR_EL2_SYSREG_IS_WRITE esr);
     Some (False, rec, rec_exit\<lparr>exit_reason := RMI_EXIT_SYNC, exit_esr := esr\<rparr>)
   }"

definition get_sysreg_write_value :: "rec \<Rightarrow> u64 \<Rightarrow> u64 option" where
  "get_sysreg_write_value rec esr =
     (let rt = unat (esr_sysreg_rt esr)
      in if rt = 31 then Some 0
         else do { assert_c (rt < length (rec_regs rec)); Some (rec_regs rec ! rt) })"

definition emulate_sysreg_access_ns ::
  "rec \<Rightarrow> rmi_rec_exit \<Rightarrow> u64 \<Rightarrow> rmi_rec_exit option" where
  "emulate_sysreg_access_ns rec rec_exit esr =
     (if ESR_EL2_SYSREG_IS_WRITE esr then do {
        v \<leftarrow> get_sysreg_write_value rec esr;
        Some (rec_exit\<lparr>exit_gprs := (exit_gprs rec_exit)[0 := v]\<rparr>)
      } else Some rec_exit)"

text \<open>The table of handlers, in the order in which it is searched.\<close>

definition sysreg_handlers :: "id_regs \<Rightarrow> (u64 \<times> u64
     \<times> (rec \<Rightarrow> rmi_rec_exit \<Rightarrow> u64 \<Rightarrow> (bool \<times> rec \<times> rmi_rec_exit) option)) list" where
  "sysreg_handlers ids =
     [(ESR_EL2_SYSREG_ID_MASK, ESR_EL2_SYSREG_ID, handle_id_sysreg_trap ids),
      (ESR_EL2_SYSREG_ICC_EL1_MASK, ESR_EL2_SYSREG_ICC_EL1, handle_icc_el1_sysreg_trap),
      (ESR_EL2_SYSREG_MASK, ESR_EL2_SYSREG_ICC_PMR_EL1, handle_icc_el1_sysreg_trap)]"

definition handle_sysreg_access_trap ::
  "id_regs \<Rightarrow> rec \<Rightarrow> rmi_rec_exit \<Rightarrow> u64 \<Rightarrow> (bool \<times> rec \<times> rmi_rec_exit) option" where
  "handle_sysreg_access_trap ids rec rec_exit esr = do {
     let rt = unat (ESR_EL2_SYSREG_ISS_RT esr);
     assert_c (ESR_IL esr \<noteq> 0);
     (case find (\<lambda>(esr_mask, esr_value, fn). esr AND esr_mask = esr_value) (sysreg_handlers ids) of
        Some (esr_mask, esr_value, fn) \<Rightarrow> do {
          (handled, rec, rec_exit) \<leftarrow> fn rec rec_exit esr;
          rec_exit \<leftarrow> (if \<not> handled then emulate_sysreg_access_ns rec rec_exit esr
                       else Some rec_exit);
          Some (handled, rec, rec_exit)
        }
      | None \<Rightarrow>
          if \<not> ESR_EL2_SYSREG_IS_WRITE esr \<and> rt \<noteq> 31 then do {
            assert_c (rt < length (rec_regs rec));
            Some (True, rec\<lparr>rec_regs := (rec_regs rec)[rt := 0]\<rparr>, rec_exit)
          } else Some (True, rec, rec_exit))
   }"

end
