(* ===== verification/Rsi_Host_Call.thy ===== *)
theory Rsi_Host_Call
  imports Rsi_Memory Delegation
begin

text \<open>
  The host call of a realm (runtime/rsi/host_call.c): arguments and results are copied
  between the realm's page that x1 points to and the host's exit and entry records.
\<close>

definition RSI_HOST_CALL_NR_GPRS :: nat where "RSI_HOST_CALL_NR_GPRS = 7"

text \<open>
  The fields of \<^verbatim>\<open>struct rsi_host_call\<close>: the immediate value is the word at offset 0, the
  registers start at offset 8.
\<close>

definition host_call_imm :: "nat \<Rightarrow> u8 list \<Rightarrow> u32" where
  "host_call_imm off data = ucast (from_le (take 4 (drop off data)))"

definition host_call_gpr :: "nat \<Rightarrow> u8 list \<Rightarrow> nat \<Rightarrow> u64" where
  "host_call_gpr off data i = from_le (take 8 (drop (off + 8 + 8 * i) data))"

text \<open>The two copy loops.\<close>

definition copy_to_exit :: "nat \<Rightarrow> u8 list \<Rightarrow> rmi_rec_exit \<Rightarrow> rmi_rec_exit" where
  "copy_to_exit off data rec_exit =
     rec_exit\<lparr>exit_imm := host_call_imm off data,
              exit_gprs := map (host_call_gpr off data) [0..<RSI_HOST_CALL_NR_GPRS]
                           @ drop RSI_HOST_CALL_NR_GPRS (exit_gprs rec_exit)\<rparr>"

definition copy_from_entry :: "nat \<Rightarrow> rmi_rec_entry \<Rightarrow> u8 list \<Rightarrow> u8 list" where
  "copy_from_entry off rec_entry data =
     fold (\<lambda>i. store_bytes (off + 8 + 8 * i) (le_bytes (entry_gprs rec_entry ! i)))
       [0..<RSI_HOST_CALL_NR_GPRS] data"

record rsi_walk_result =
  walk_abort :: bool
  walk_rtt_level :: u64

definition walk_none :: rsi_walk_result where
  "walk_none = \<lparr>walk_abort = False, walk_rtt_level = 0\<rparr>"

text \<open>
  Of the two structures exactly one is passed, and the sum says which: \<open>Inl\<close> is the exit
  record to fill, \<open>Inr\<close> the entry record to copy from.  \<open>res0\<close> is the uninitialised
  result structure of the walk.
\<close>

definition do_host_call ::
  "s2_walk_result \<Rightarrow> rec \<Rightarrow> rmi_rec_exit + rmi_rec_entry \<Rightarrow> rmm
     \<Rightarrow> ((u64 \<times> rsi_walk_result \<times> (rmi_rec_exit + rmi_rec_entry)) \<times> rmm) option" where
  "do_host_call res0 rec io s = do {
     let ipa = rec_regs rec ! 1;
     assert_c (addr_in_rec_par rec ipa);
     let g_rd = ri_g_rd (rec_realm_info rec);
     s \<leftarrow> granule_map g_rd SLOT_RD s;
     rd \<leftarrow> rd_of (content s g_rd);
     let page_ipa = ipa AND NOT 0xfff;
     ((walk_status, walk_result), s) \<leftarrow> realm_ipa_to_pa rd page_ipa res0 s;
     (res, s) \<leftarrow>
       (case walk_status of
          WALK_FAIL \<Rightarrow>
            if s2_walk_result_match_ripas walk_result RMI_EMPTY
            then Some ((RSI_ERROR_INPUT, walk_none, io), s)
            else Some ((RSI_SUCCESS,
                        \<lparr>walk_abort = True, walk_rtt_level = w_rtt_level walk_result\<rparr>, io), s)
        | WALK_INVALID_PARAMS \<Rightarrow> None
        | WALK_SUCCESS \<Rightarrow> do {
            gr \<leftarrow> find_granule (w_pa walk_result);
            s \<leftarrow> granule_map gr SLOT_RSI_CALL s;
            data \<leftarrow> page_bytes (content s gr);
            let off = unat (ipa - page_ipa);
            let (io, s) =
              (case io of
                 Inl rec_exit \<Rightarrow> (Inl (copy_to_exit off data rec_exit), s)
               | Inr rec_entry \<Rightarrow>
                   (Inr rec_entry, set_content gr (CData (copy_from_entry off rec_entry data)) s));
            let s = buffer_unmap SLOT_RSI_CALL s;
            s \<leftarrow> granule_unlock (w_llt walk_result) s;
            Some ((RSI_SUCCESS, walk_none, io), s)
          });
     Some (res, buffer_unmap SLOT_RD s)
   }"

text \<open>The result, the outcome of the walk and the exit record.\<close>

definition handle_rsi_host_call ::
  "s2_walk_result \<Rightarrow> rec \<Rightarrow> rmi_rec_exit \<Rightarrow> rmm
     \<Rightarrow> ((u64 \<times> rsi_walk_result \<times> rmi_rec_exit) \<times> rmm) option" where
  "handle_rsi_host_call res0 rec rec_exit s =
     (let ipa = rec_regs rec ! 1
      in if \<not> ALIGNED ipa 0x100 then Some ((RSI_ERROR_INPUT, walk_none, rec_exit), s)
         else if ipa div 4096 \<noteq> (ipa + 0x100 - 1) div 4096
         then Some ((RSI_ERROR_INPUT, walk_none, rec_exit), s)
         else if \<not> addr_in_rec_par rec ipa then Some ((RSI_ERROR_INPUT, walk_none, rec_exit), s)
         else do {
           ((ret, walk, io), s) \<leftarrow> do_host_call res0 rec (Inl rec_exit) s;
           Some ((ret, walk, (case io of Inl rec_exit \<Rightarrow> rec_exit | Inr _ \<Rightarrow> rec_exit)), s)
         })"

definition complete_rsi_host_call ::
  "s2_walk_result \<Rightarrow> rec \<Rightarrow> rmi_rec_entry \<Rightarrow> rmm \<Rightarrow> (rsi_walk_result \<times> rmm) option" where
  "complete_rsi_host_call res0 rec rec_entry s = do {
     ((ret, walk, io), s) \<leftarrow> do_host_call res0 rec (Inr rec_entry) s;
     Some (walk, s)
   }"

text \<open>
  The delegation of device memory by a realm (runtime/rsi/dev_mem.c).  The three arrays on
  the stack are one map from the loop index to physical address, IPA and granule;
  an index that was not written is not in it, and reading it is not given a meaning.
\<close>

type_synonym dev_pages = "nat \<Rightarrow> (u64 \<times> u64 \<times> nat) option"

text \<open>
  The first loop, at index \<open>i\<close> with \<open>n\<close> rounds to go: it returns the result code, the
  number of pages that were found and the arrays.  A failed walk leaves the IPA as it is
  and goes on; it releases the lock that the walk has released already, and after an
  invalid IPA the one that the uninitialised result structure \<open>res0\<close> names.
\<close>

fun dev_mem_walk ::
  "s2_walk_result \<Rightarrow> rd \<Rightarrow> nat \<Rightarrow> nat \<Rightarrow> u64 \<Rightarrow> u64 \<Rightarrow> nat \<Rightarrow> dev_pages \<Rightarrow> rmm
     \<Rightarrow> ((u64 \<times> nat \<times> dev_pages) \<times> rmm) option" where
  "dev_mem_walk res0 rd 0 i ipa ret size_del pages s = Some ((ret, size_del, pages), s)"
| "dev_mem_walk res0 rd (Suc n) i ipa ret size_del pages s = do {
     ((walk_status, walk_res), s) \<leftarrow> realm_ipa_to_pa rd ipa res0 s;
     (case walk_status of
        WALK_FAIL \<Rightarrow> do {
          s \<leftarrow> granule_unlock (w_llt walk_res) s;
          let ret = (if s2_walk_result_match_ripas walk_res RMI_EMPTY then RSI_ERROR_INPUT
                     else ret);
          dev_mem_walk res0 rd n (i + 1) ipa ret size_del pages s
        }
      | WALK_INVALID_PARAMS \<Rightarrow> do {
          s \<leftarrow> granule_unlock (w_llt walk_res) s;
          dev_mem_walk res0 rd n (i + 1) ipa RSI_ERROR_INPUT size_del pages s
        }
      | WALK_SUCCESS \<Rightarrow> do {
          gr \<leftarrow> find_granule (w_pa walk_res);
          let pages = pages(i \<mapsto> (w_pa walk_res, ipa, gr));
          s \<leftarrow> granule_lock gr GRANULE_STATE_DATA s;
          s \<leftarrow> granule_unlock (w_llt walk_res) s;
          dev_mem_walk res0 rd n (i + 1) (ipa + GRANULE_SIZE) ret (size_del + 1) pages s
        })
   }"

text \<open>The second loop, which stops after one call when the flag asks for delegation.\<close>

fun dev_mem_delegate ::
  "monitor \<Rightarrow> u64 \<Rightarrow> nat list \<Rightarrow> dev_pages \<Rightarrow> u64 \<Rightarrow> rmm \<Rightarrow> (u64 \<times> rmm) option" where
  "dev_mem_delegate mc delegate_flag [] pages ret s = Some (ret, s)"
| "dev_mem_delegate mc delegate_flag (i # is) pages ret s = do {
     (pa, ipa, gr) \<leftarrow> pages i;
     (ret, s) \<leftarrow> smc_granule_delegate_dev mc pa delegate_flag ipa s;
     if delegate_flag \<noteq> 0 then Some (ret, s)
     else dev_mem_delegate mc delegate_flag is pages ret s
   }"

fun dev_mem_unlock :: "nat list \<Rightarrow> dev_pages \<Rightarrow> rmm \<Rightarrow> rmm option" where
  "dev_mem_unlock [] pages s = Some s"
| "dev_mem_unlock (i # is) pages s = do {
     (pa, ipa, gr) \<leftarrow> pages i;
     s \<leftarrow> granule_unlock gr s;
     dev_mem_unlock is pages s
   }"

text \<open>
  The walk result of the C structure is never read by the caller, so the result here is
  the code for x0 only.
\<close>

definition handle_rsi_dev_mem ::
  "monitor \<Rightarrow> s2_walk_result \<Rightarrow> rec \<Rightarrow> rmm \<Rightarrow> (u64 \<times> rmm) option" where
  "handle_rsi_dev_mem mc res0 rec s = do {
     let ipa = rec_regs rec ! 1;
     let delegate_flag = rec_regs rec ! 2;
     let size = rec_regs rec ! 3;
     let ipa = ipa AND NOT 0xfff;
     let ret = (if \<not> GRANULE_ALIGNED ipa \<or> \<not> addr_in_rec_par rec ipa then RSI_ERROR_INPUT else 0);
     let g_rd = ri_g_rd (rec_realm_info rec);
     s \<leftarrow> granule_lock g_rd GRANULE_STATE_RD s;
     s \<leftarrow> granule_map g_rd SLOT_RD s;
     rd \<leftarrow> rd_of (content s g_rd);
     ((ret, size_del, pages), s) \<leftarrow> dev_mem_walk res0 rd (unat size) 0 ipa ret 0 Map.empty s;
     (ret, s) \<leftarrow> dev_mem_delegate mc delegate_flag [0..<size_del] pages ret s;
     s \<leftarrow> dev_mem_unlock [0..<size_del] pages s;
     let s = buffer_unmap SLOT_RD s;
     s \<leftarrow> granule_unlock g_rd s;
     Some (ret, s)
   }"

end
