(* ===== verification/Rsi_Attest.thy ===== *)
theory Rsi_Attest
  imports Rsi_Host_Call Realm_Cmds
begin

text \<open>
  Measurements and attestation tokens of a realm: runtime/rsi/realm_attest.c and
  lib/attestation/src/attestation_token.c.  The encoder QCBOR, the signer t_cose and the
  key material are parameters; a token under construction is the list of the calls made
  on the encoder.
\<close>

section \<open>The libraries\<close>

datatype t_cose_err_t = T_COSE_SUCCESS | T_COSE_ERR_SIG_IN_PROGRESS | T_COSE_ERR_OTHER

datatype QCBORError = QCBOR_SUCCESS | QCBOR_ERR_BUFFER_TOO_SMALL | QCBOR_ERR_OTHER

text \<open>
  What the code obtains from the libraries: whether \<^verbatim>\<open>t_cose_sign1_set_restart_context\<close> and
  \<^verbatim>\<open>t_cose_sign1_encode_parameters\<close> succeed, one round of
  \<^verbatim>\<open>t_cose_sign1_encode_signature\<close> on the signer's context, the bytes that
  \<^verbatim>\<open>QCBOREncode_Finish\<close> leaves in the buffer of the given size, and the keys and the
  platform token that attestation_key.c loaded at boot.  \<open>al_alloc\<close> are the macros of the
  allocator's header; \<open>al_heap\<close> is what a call of the signer makes of the heap that the CPU is
  assigned, the blocks it obtains and frees and what it writes to them (\<^verbatim>\<open>None\<close>: it uses none).
\<close>

record attest_lib =
  al_restart :: t_cose_err_t
  al_parameters :: t_cose_err_t
  al_sign :: "nat \<Rightarrow> cbor_call list \<Rightarrow> t_cose_err_t \<times> nat"
  al_finish :: "nat \<Rightarrow> cbor_call list \<Rightarrow> QCBORError \<times> u8 list"
  al_public_key :: "u8 list option"
  al_public_key_hash_algo_id :: hash_algo
  al_platform_token :: "u8 list option"
  al_initialized :: bool
  al_alloc :: alloc_params
  al_heap :: "nat \<Rightarrow> cbor_call list \<Rightarrow> (heap \<Rightarrow> heap) option"

datatype attest_token_err_t =
    ATTEST_TOKEN_ERR_SUCCESS
  | ATTEST_TOKEN_ERR_TOO_SMALL
  | ATTEST_TOKEN_ERR_CBOR_FORMATTING
  | ATTEST_TOKEN_ERR_SIGNING_KEY
  | ATTEST_TOKEN_ERR_COSE_ERROR
  | ATTEST_TOKEN_ERR_COSE_SIGN_IN_PROGRESS

section \<open>The heap of a REC\<close>

text \<open>
  The heap of a REC lies in its first auxiliary granules, mapped one after the other from the
  address \<open>rec_attest_heap_buf\<close> on.  A use of the heap reads their bytes, runs on the context in
  the REC and on the memory, and writes all their bytes back.
\<close>

definition REC_HEAP_PAGES :: nat where [word_consts]: "REC_HEAP_PAGES = 2"

definition heap_pages :: "rec \<Rightarrow> nat list" where
  "heap_pages rec = take REC_HEAP_PAGES (rec_g_aux rec)"

definition rec_heap :: "rec \<Rightarrow> rmm \<Rightarrow> heap option" where
  "rec_heap rec s = do {
     pages \<leftarrow> those (map (\<lambda>g. page_bytes (content s g)) (heap_pages rec));
     Some \<lparr>hp_ctx = rec_alloc_ctx rec,
           hp_mem = (\<lambda>a. let bytes = concat pages; i = unat (a - rec_attest_heap_buf rec)
                         in if i < length bytes then bytes ! i else 0)\<rparr>
   }"

definition heap_page :: "rec \<Rightarrow> heap \<Rightarrow> nat \<Rightarrow> u8 list" where
  "heap_page rec h i =
     map (\<lambda>j. hp_mem h (rec_attest_heap_buf rec + of_nat (4096 * i + j))) [0..<4096]"

definition set_rec_heap :: "heap \<Rightarrow> rec \<Rightarrow> rmm \<Rightarrow> rec \<times> rmm" where
  "set_rec_heap h rec s =
     (rec\<lparr>rec_alloc_ctx := hp_ctx h\<rparr>,
      fold (\<lambda>(i, g). set_content g (CData (heap_page rec h i))) (enumerate 0 (heap_pages rec)) s)"

text \<open>Without a heap assigned to the CPU, \<^verbatim>\<open>get_heap_ctx\<close> finds none and an assertion fails.\<close>

definition on_rec_heap :: "bool \<Rightarrow> (heap \<Rightarrow> heap) \<Rightarrow> rec \<Rightarrow> rmm \<Rightarrow> (rec \<times> rmm) option" where
  "on_rec_heap assigned f rec s = do {
     assert_c assigned;
     h \<leftarrow> rec_heap rec s;
     Some (set_rec_heap (f h) rec s)
   }"

definition rec_heap_init :: "attest_lib \<Rightarrow> bool \<Rightarrow> rec \<Rightarrow> rmm \<Rightarrow> (rec \<times> rmm) option" where
  "rec_heap_init lib assigned rec s =
     on_rec_heap assigned
       (buffer_alloc_init (al_alloc lib) (rec_attest_heap_buf rec) (of_nat (REC_HEAP_PAGES * 4096)))
       rec s"

definition signer_heap :: "attest_lib \<Rightarrow> bool \<Rightarrow> rec \<Rightarrow> rmm \<Rightarrow> (rec \<times> rmm) option" where
  "signer_heap lib assigned rec s =
     (case al_heap lib (ts_signer (rec_token_sign rec)) (ts_cbor (rec_token_sign rec)) of
        None \<Rightarrow> Some (rec, s)
      | Some f \<Rightarrow> on_rec_heap assigned f rec s)"

section \<open>Building a token\<close>

definition CCA_REALM_CHALLENGE :: int where "CCA_REALM_CHALLENGE = 10"
definition CCA_REALM_PERSONALIZATION_VALUE :: int where "CCA_REALM_PERSONALIZATION_VALUE = 44235"
definition CCA_REALM_HASH_ALGM_ID :: int where "CCA_REALM_HASH_ALGM_ID = 44236"
definition CCA_REALM_PUB_KEY :: int where "CCA_REALM_PUB_KEY = 44237"
definition CCA_REALM_INITIAL_MEASUREMENT :: int where "CCA_REALM_INITIAL_MEASUREMENT = 44238"
definition CCA_REALM_EXTENSIBLE_MEASUREMENTS :: int where
  "CCA_REALM_EXTENSIBLE_MEASUREMENTS = 44239"
definition CCA_REALM_PUB_KEY_HASH_ALGO_ID :: int where "CCA_REALM_PUB_KEY_HASH_ALGO_ID = 44240"
definition TAG_CCA_TOKEN :: nat where "TAG_CCA_TOKEN = 399"
definition CCA_PLAT_TOKEN :: int where "CCA_PLAT_TOKEN = 44234"
definition CCA_REALM_DELEGATED_TOKEN :: int where "CCA_REALM_DELEGATED_TOKEN = 44241"

fun attest_get_hash_algo_text :: "hash_algo \<Rightarrow> string" where
  "attest_get_hash_algo_text HASH_ALGO_SHA256 = ''sha-256''"
| "attest_get_hash_algo_text HASH_ALGO_SHA512 = ''sha-512''"

text \<open>
  The COSE headers that \<^verbatim>\<open>t_cose_sign1_encode_parameters\<close> writes are the library's; of the
  calls on the encoder only those of this code are kept.
\<close>

definition attest_token_encode_start ::
  "attest_lib \<Rightarrow> token_sign_ctx \<Rightarrow> attest_token_err_t \<times> token_sign_ctx" where
  "attest_token_encode_start lib ctx =
     (if al_restart lib \<noteq> T_COSE_SUCCESS then (ATTEST_TOKEN_ERR_COSE_ERROR, ctx)
      else let ctx = ctx\<lparr>ts_cbor := []\<rparr>
           in if al_parameters lib \<noteq> T_COSE_SUCCESS then (ATTEST_TOKEN_ERR_COSE_ERROR, ctx)
              else (ATTEST_TOKEN_ERR_SUCCESS, ctx\<lparr>ts_cbor := ts_cbor ctx @ [OpenMap]\<rparr>))"

definition cbor_add :: "cbor_call list \<Rightarrow> token_sign_ctx \<Rightarrow> token_sign_ctx" where
  "cbor_add cs ctx = ctx\<lparr>ts_cbor := ts_cbor ctx @ cs\<rparr>"

text \<open>The result is whether 0 is returned.\<close>

definition attest_realm_token_create ::
  "attest_lib \<Rightarrow> hash_algo \<Rightarrow> digest list \<Rightarrow> u8 list \<Rightarrow> token_sign_ctx
     \<Rightarrow> (bool \<times> token_sign_ctx) option" where
  "attest_realm_token_create lib algorithm measurements rpv ctx = do {
     assert_c (ts_state ctx = ATTEST_SIGN_NOT_STARTED);
     let (err, ctx) = attest_token_encode_start lib ctx;
     if err \<noteq> ATTEST_TOKEN_ERR_SUCCESS then Some (False, ctx)
     else do {
       let ctx = cbor_add [AddBytesToMapN CCA_REALM_CHALLENGE (ts_challenge ctx),
                           AddBytesToMapN CCA_REALM_PERSONALIZATION_VALUE rpv] ctx;
       (case al_public_key lib of
          None \<Rightarrow> Some (False, ctx)
        | Some key \<Rightarrow> do {
            let n = measurement_get_size algorithm;
            let ctx = cbor_add
              [AddBytesToMapN CCA_REALM_PUB_KEY key,
               AddTextToMapN CCA_REALM_HASH_ALGM_ID (attest_get_hash_algo_text algorithm),
               AddTextToMapN CCA_REALM_PUB_KEY_HASH_ALGO_ID
                 (attest_get_hash_algo_text (al_public_key_hash_algo_id lib)),
               AddBytesToMapN CCA_REALM_INITIAL_MEASUREMENT (take n (measurements ! 0)),
               OpenArrayInMapN CCA_REALM_EXTENSIBLE_MEASUREMENTS] ctx;
            let ctx = cbor_add (map (\<lambda>i. AddBytes (take n (measurements ! i))) [1..<5]) ctx;
            Some (True, cbor_add [CloseArray, CloseMap] ctx)
          })
     }
   }"

text \<open>The error, the context and, when the token is complete, its bytes.\<close>

definition attest_realm_token_sign ::
  "attest_lib \<Rightarrow> token_sign_ctx
     \<Rightarrow> attest_token_err_t \<times> token_sign_ctx \<times> u8 list option" where
  "attest_realm_token_sign lib ctx =
     (let (cose_res, signer) = al_sign lib (ts_signer ctx) (ts_cbor ctx);
          ctx = ctx\<lparr>ts_signer := signer\<rparr>
      in if cose_res = T_COSE_ERR_SIG_IN_PROGRESS
         then (ATTEST_TOKEN_ERR_COSE_SIGN_IN_PROGRESS, ctx, None)
         else if cose_res \<noteq> T_COSE_SUCCESS then (ATTEST_TOKEN_ERR_COSE_ERROR, ctx, None)
         else case al_finish lib 1024 (ts_cbor ctx) of
                (QCBOR_ERR_BUFFER_TOO_SMALL, _) \<Rightarrow> (ATTEST_TOKEN_ERR_TOO_SMALL, ctx, None)
              | (QCBOR_SUCCESS, token) \<Rightarrow> (ATTEST_TOKEN_ERR_SUCCESS, ctx, Some token)
              | (QCBOR_ERR_OTHER, _) \<Rightarrow> (ATTEST_TOKEN_ERR_CBOR_FORMATTING, ctx, None))"

text \<open>
  The token for the realm's user: the length (0 if the buffer is too small) and what the
  encoder left in the buffer.
\<close>

definition attest_cca_token_create ::
  "attest_lib \<Rightarrow> u8 list \<Rightarrow> (nat \<times> u8 list) option" where
  "attest_cca_token_create lib realm_token = do {
     platform_token \<leftarrow> al_platform_token lib;
     let calls = [AddTag TAG_CCA_TOKEN, OpenMap,
                  AddBytesToMapN CCA_PLAT_TOKEN platform_token,
                  AddBytesToMapN CCA_REALM_DELEGATED_TOKEN realm_token, CloseMap];
     (case al_finish lib 4096 calls of
        (QCBOR_ERR_BUFFER_TOO_SMALL, buf) \<Rightarrow> Some (0, buf)
      | (QCBOR_SUCCESS, buf) \<Rightarrow> Some (length buf, buf)
      | (QCBOR_ERR_OTHER, _) \<Rightarrow> None)
   }"

section \<open>RSI_ATTEST_TOKEN_INIT\<close>

definition bytes_of_regs :: "u64 list \<Rightarrow> u8 list" where
  "bytes_of_regs rs = concat (map le_bytes rs)"

definition save_input_parameters :: "rec \<Rightarrow> rec" where
  "save_input_parameters rec =
     rec\<lparr>rec_token_sign := (rec_token_sign rec)
           \<lparr>ts_token_ipa := rec_regs rec ! 1,
            ts_challenge := bytes_of_regs (take 8 (drop 2 (rec_regs rec)))\<rparr>\<rparr>"

definition verify_input_parameters_consistency :: "rec \<Rightarrow> bool" where
  "verify_input_parameters_consistency rec \<longleftrightarrow>
     ts_token_ipa (rec_token_sign rec) = rec_regs rec ! 1"

text \<open>
  \<open>heap\<close> is whether the CPU has a heap assigned, without which its initialisation panics.  An
  operation under way is given up by initialising the heap anew.
\<close>

definition handle_rsi_attest_token_init ::
  "attest_lib \<Rightarrow> bool \<Rightarrow> rec \<Rightarrow> rmm \<Rightarrow> ((u64 \<times> rec) \<times> rmm) option" where
  "handle_rsi_attest_token_init lib heap rec s = do {
     let realm_buf_ipa = rec_regs rec ! 1;
     (rec, s) \<leftarrow>
       (if ts_state (rec_token_sign rec) \<noteq> ATTEST_SIGN_NOT_STARTED
        then rec_heap_init lib heap
               (rec\<lparr>rec_token_sign := (rec_token_sign rec)\<lparr>ts_state := ATTEST_SIGN_NOT_STARTED\<rparr>\<rparr>) s
        else Some (rec, s));
     if \<not> GRANULE_ALIGNED realm_buf_ipa then Some ((RSI_ERROR_INPUT, rec), s)
     else do {
       let g_rd = ri_g_rd (rec_realm_info rec);
       s \<leftarrow> granule_lock g_rd GRANULE_STATE_RD s;
       s \<leftarrow> granule_map g_rd SLOT_RD s;
       rd \<leftarrow> rd_of (content s g_rd);
       (ret, rec, s) \<leftarrow>
         (if \<not> addr_in_par rd realm_buf_ipa then Some (RSI_ERROR_INPUT, rec, s)
          else do {
            let rec = save_input_parameters rec;
            (rec, s) \<leftarrow> signer_heap lib heap rec s;
            (ok, ctx) \<leftarrow> attest_realm_token_create lib (rd_algorithm rd) (rd_measurement rd)
                           (rd_rpv rd) (rec_token_sign rec);
            assert_c ok;
            Some (RSI_SUCCESS,
                  rec\<lparr>rec_token_sign := ctx\<lparr>ts_state := ATTEST_SIGN_IN_PROGRESS\<rparr>\<rparr>, s)
          });
       let s = buffer_unmap SLOT_RD s;
       s \<leftarrow> granule_unlock g_rd s;
       Some ((ret, rec), s)
     }
   }"

section \<open>RSI_ATTEST_TOKEN_CONTINUE\<close>

text \<open>
  The caller's result structure comes in uninitialised; the registers that a path does not
  write keep what was on the stack.
\<close>

record attest_result =
  ar_incomplete :: bool
  ar_walk :: rsi_walk_result
  ar_x :: "u64 list"

definition attest_token_continue_sign_state ::
  "attest_lib \<Rightarrow> rec \<Rightarrow> attest_result \<Rightarrow> (rec \<times> attest_result) option" where
  "attest_token_continue_sign_state lib rec res =
     (let (ret, ctx, token) = attest_realm_token_sign lib (rec_token_sign rec);
          rec = rec\<lparr>rec_token_sign := ctx,
                    rec_token := (case token of Some t \<Rightarrow> t | None \<Rightarrow> rec_token rec)\<rparr>
      in if ret = ATTEST_TOKEN_ERR_COSE_SIGN_IN_PROGRESS \<or> ret = ATTEST_TOKEN_ERR_SUCCESS
         then Some (if ret = ATTEST_TOKEN_ERR_SUCCESS
                    then rec\<lparr>rec_token_sign := (rec_token_sign rec)
                              \<lparr>ts_state := ATTEST_SIGN_TOKEN_WRITE_IN_PROGRESS\<rparr>\<rparr>
                    else rec,
                    res\<lparr>ar_incomplete := True, ar_x := (ar_x res)[0 := RSI_INCOMPLETE]\<rparr>)
         else None)"

definition zero_walk :: s2_walk_result where
  "zero_walk = \<lparr>w_pa = 0, w_rtt_level = 0, w_ripas = RMI_EMPTY, w_destroyed = False, w_llt = 0\<rparr>"

definition attest_token_continue_write_state ::
  "attest_lib \<Rightarrow> rec \<Rightarrow> attest_result \<Rightarrow> rmm \<Rightarrow> ((rec \<times> attest_result) \<times> rmm) option" where
  "attest_token_continue_write_state lib rec res s = do {
     let ipa = rec_regs rec ! 1;
     let g_rd = ri_g_rd (rec_realm_info rec);
     s \<leftarrow> granule_map g_rd SLOT_RD s;
     rd \<leftarrow> rd_of (content s g_rd);
     ((walk_status, walk_res), s) \<leftarrow> realm_ipa_to_pa rd ipa zero_walk s;
     let s = buffer_unmap SLOT_RD s;
     (case walk_status of
        WALK_INVALID_PARAMS \<Rightarrow> None
      | WALK_FAIL \<Rightarrow>
          if s2_walk_result_match_ripas walk_res RMI_EMPTY
          then Some ((rec, res\<lparr>ar_x := (ar_x res)[0 := RSI_ERROR_INPUT]\<rparr>), s)
          else Some ((rec, res\<lparr>ar_walk := \<lparr>walk_abort = True,
                                walk_rtt_level = w_rtt_level walk_res\<rparr>,
                              ar_x := (ar_x res)[0 := RSI_INCOMPLETE]\<rparr>), s)
      | WALK_SUCCESS \<Rightarrow> do {
          gr \<leftarrow> find_granule (w_pa walk_res);
          s \<leftarrow> granule_map gr SLOT_RSI_CALL s;
          data \<leftarrow> page_bytes (content s gr);
          (token_len, buf) \<leftarrow> attest_cca_token_create lib (rec_token rec);
          let s = set_content gr (CData (store_bytes 0 buf data)) s;
          let s = buffer_unmap SLOT_RSI_CALL s;
          s \<leftarrow> granule_unlock (w_llt walk_res) s;
          let res = (if token_len = 0 then res\<lparr>ar_x := (ar_x res)[0 := RSI_ERROR_INPUT]\<rparr>
                     else res\<lparr>ar_x := (ar_x res)[0 := RSI_SUCCESS, 1 := of_nat token_len]\<rparr>);
          Some ((rec\<lparr>rec_token_sign := (rec_token_sign rec)
                       \<lparr>ts_state := ATTEST_SIGN_NOT_STARTED\<rparr>\<rparr>, res), s)
        })
   }"

definition handle_rsi_attest_token_continue ::
  "attest_lib \<Rightarrow> bool \<Rightarrow> rec \<Rightarrow> attest_result \<Rightarrow> rmm \<Rightarrow> ((rec \<times> attest_result) \<times> rmm) option" where
  "handle_rsi_attest_token_continue lib heap rec res s =
     (let res = res\<lparr>ar_incomplete := False, ar_walk := (ar_walk res)\<lparr>walk_abort := False\<rparr>\<rparr>
      in if \<not> verify_input_parameters_consistency rec
         then Some ((rec, res\<lparr>ar_x := (ar_x res)[0 := RSI_ERROR_INPUT]\<rparr>), s)
         else case ts_state (rec_token_sign rec) of
                ATTEST_SIGN_NOT_STARTED \<Rightarrow>
                  Some ((rec, res\<lparr>ar_x := (ar_x res)[0 := RSI_ERROR_STATE]\<rparr>), s)
              | ATTEST_SIGN_IN_PROGRESS \<Rightarrow> do {
                  (rec, s) \<leftarrow> signer_heap lib heap rec s;
                  (rec, res) \<leftarrow> attest_token_continue_sign_state lib rec res;
                  Some ((rec, res), s)
                }
              | ATTEST_SIGN_TOKEN_WRITE_IN_PROGRESS \<Rightarrow>
                  attest_token_continue_write_state lib rec res s)"

section \<open>RSI_MEASUREMENT_READ and RSI_MEASUREMENT_EXTEND\<close>

definition MAX_EXTENDED_SIZE :: u64 where [word_consts]: "MAX_EXTENDED_SIZE = 64"
definition MEASUREMENT_SLOT_NR :: u64 where [word_consts]: "MEASUREMENT_SLOT_NR = 5"

definition handle_rsi_extend_measurement ::
  "hash_fun \<Rightarrow> rec \<Rightarrow> rmm \<Rightarrow> (u64 \<times> rmm) option" where
  "handle_rsi_extend_measurement hash rec s = do {
     rd_addr \<leftarrow> granule_addr (ri_g_rd (rec_realm_info rec));
     (r, s) \<leftarrow> find_lock_granule rd_addr GRANULE_STATE_RD s;
     g_rd \<leftarrow> r;
     s \<leftarrow> granule_map (ri_g_rd (rec_realm_info rec)) SLOT_RD s;
     rd \<leftarrow> rd_of (content s (ri_g_rd (rec_realm_info rec)));
     let index = rec_regs rec ! 1;
     let size = rec_regs rec ! 2;
     (ret, s) \<leftarrow>
       (if index = 0 \<or> MEASUREMENT_SLOT_NR \<le> index then Some (RSI_ERROR_INPUT, s)
        else if MAX_EXTENDED_SIZE < size then Some (RSI_ERROR_INPUT, s)
        else do {
          let data = take (unat size) (bytes_of_regs (drop 3 (rec_regs rec)));
          m \<leftarrow> measurement_extend hash (rd_algorithm rd) (rd_measurement rd ! unat index) data;
          let rd = rd\<lparr>rd_measurement := (rd_measurement rd)[unat index := m]\<rparr>;
          Some (RSI_SUCCESS, set_rd (ri_g_rd (rec_realm_info rec)) rd s)
        });
     let s = buffer_unmap SLOT_RD s;
     s \<leftarrow> granule_unlock g_rd s;
     Some (ret, s)
   }"

text \<open>The eight registers from x1 on are overwritten with 64 bytes.\<close>

definition regs_of_bytes :: "u8 list \<Rightarrow> u64 list" where
  "regs_of_bytes bs = map (\<lambda>i. from_le (take 8 (drop (8 * i) bs))) [0..<8]"

definition handle_rsi_read_measurement :: "rec \<Rightarrow> rmm \<Rightarrow> ((u64 \<times> rec) \<times> rmm) option" where
  "handle_rsi_read_measurement rec s = do {
     let idx = rec_regs rec ! 1;
     if MEASUREMENT_SLOT_NR \<le> idx then Some ((RSI_ERROR_INPUT, rec), s)
     else do {
       let g_rd = ri_g_rd (rec_realm_info rec);
       s \<leftarrow> granule_lock g_rd GRANULE_STATE_RD s;
       s \<leftarrow> granule_map g_rd SLOT_RD s;
       rd \<leftarrow> rd_of (content s g_rd);
       let n = measurement_get_size (rd_algorithm rd);
       let bytes = take n (rd_measurement rd ! unat idx) @ replicate (64 - n) 0;
       let rec = rec\<lparr>rec_regs := take 1 (rec_regs rec) @ regs_of_bytes bytes
                                 @ drop 9 (rec_regs rec)\<rparr>;
       let s = buffer_unmap SLOT_RD s;
       s \<leftarrow> granule_unlock g_rd s;
       Some ((RSI_SUCCESS, rec), s)
     }
   }"

end
