(* ===== verification/Realm_Exit.thy ===== *)
theory Realm_Exit
  imports Smc_Fid Gic Sysreg_Traps Psci Rsi_Attest Rsi_Host_Call
begin

text \<open>
  What the monitor does when a realm exits (runtime/core/exit.c): aborts, traps and calls
  are handled here or reported to the host.
\<close>

section \<open>The state of a run\<close>

text \<open>
  The parameters that do not change during a run: identification registers, features of
  the interrupt controller, EL3, hash functions and token libraries, the contents of the
  structures that the code leaves uninitialised on its stack, and whether the attestation
  library came up at boot.
\<close>

record platform =
  pl_ids :: id_regs
  pl_gic :: gic_virt_feature_s
  pl_mc :: monitor
  pl_hash :: hash_fun
  pl_lib :: attest_lib
  pl_walk :: s2_walk_result
  pl_attest :: attest_result
  pl_psci :: psci_result
  pl_attest_initialized :: bool

text \<open>The REC that runs, its exit record, the registers and the monitor's memory.\<close>

record run_state =
  rs_rec :: rec
  rs_exit :: rmi_rec_exit
  rs_pe :: pe
  rs_mem :: rmm

definition reg :: "nat \<Rightarrow> run_state \<Rightarrow> u64" where
  "reg i r = rec_regs (rs_rec r) ! i"

definition set_reg :: "nat \<Rightarrow> u64 \<Rightarrow> run_state \<Rightarrow> run_state" where
  "set_reg i v r = r\<lparr>rs_rec := (rs_rec r)\<lparr>rec_regs := (rec_regs (rs_rec r))[i := v]\<rparr>\<rparr>"

definition set_regs :: "u64 list \<Rightarrow> run_state \<Rightarrow> run_state" where
  "set_regs vs r =
     r\<lparr>rs_rec := (rs_rec r)\<lparr>rec_regs := vs @ drop (length vs) (rec_regs (rs_rec r))\<rparr>\<rparr>"

definition advance_pc :: "run_state \<Rightarrow> run_state" where
  "advance_pc r = r\<lparr>rs_pe := (rs_pe r)\<lparr>hw_elr_el2 := hw_elr_el2 (rs_pe r) + 4\<rparr>\<rparr>"

section \<open>Aborts\<close>

definition fixup_aarch32_data_abort :: "pe \<Rightarrow> u64 \<Rightarrow> bool \<times> u64" where
  "fixup_aarch32_data_abort p esr =
     (if hw_spsr_el2 p AND SPSR_EL2_nRW_AARCH32 \<noteq> 0
      then (True, esr AND NOT ESR_EL2_ABORT_ISV_BIT) else (False, esr))"

definition get_dabt_write_value :: "rec \<Rightarrow> u64 \<Rightarrow> u64 option" where
  "get_dabt_write_value rec esr =
     (let rt = unat (esr_srt esr)
      in if rt = 31 then Some 0
         else do { m \<leftarrow> access_mask esr; Some (rec_regs rec ! rt AND m) })"

definition access_in_rec_par :: "rec \<Rightarrow> u64 \<Rightarrow> bool" where
  "access_in_rec_par rec addr = addr_in_rec_par rec addr"

definition ipa_is_empty :: "u64 \<Rightarrow> rec \<Rightarrow> rmm \<Rightarrow> (bool \<times> rmm) option" where
  "ipa_is_empty ipa rec s = do {
     assert_c (GRANULE_ALIGNED ipa);
     if \<not> addr_in_rec_par rec ipa then Some (False, s)
     else do {
       let ri = rec_realm_info rec;
       s \<leftarrow> granule_lock (ri_g_rtt ri) GRANULE_STATE_RTT s;
       (wi, s) \<leftarrow> rtt_walk_lock_unlock (ri_g_rtt ri) (ri_s2_starting_level ri) (ri_ipa_bits ri)
                    ipa RTT_PAGE_LEVEL s;
       s \<leftarrow> granule_map (g_llt wi) SLOT_RTT s;
       s2tte \<leftarrow> s2tte_read (g_llt wi) (index wi) s;
       ret \<leftarrow> (if s2tte_is_destroyed s2tte then Some False
               else do { ripas \<leftarrow> s2tte_get_ripas s2tte; Some (ripas = RMI_EMPTY) });
       let s = buffer_unmap SLOT_RTT s;
       s \<leftarrow> granule_unlock (g_llt wi) s;
       Some (ret, s)
     }
   }"

definition fsc_is_external_abort :: "u64 \<Rightarrow> bool" where
  "fsc_is_external_abort fsc =
     (if fsc = ESR_EL2_ABORT_FSC_SEA then True
      else ESR_EL2_ABORT_FSC_SEA_TTW_START \<le> fsc \<and> fsc \<le> ESR_EL2_ABORT_FSC_SEA_TTW_END)"

text \<open>\<^verbatim>\<open>system_abort\<close> is a failed assertion, so the fatal cases do not return.\<close>

definition handle_sync_external_abort :: "u64 \<Rightarrow> run_state \<Rightarrow> (bool \<times> run_state) option" where
  "handle_sync_external_abort esr r =
     (let fsc = esr AND ESR_EL2_ABORT_FSC_MASK;
          set = esr AND ESR_EL2_ABORT_SET_MASK;
          report = (\<lambda>r. r\<lparr>rs_exit := (rs_exit r)
                            \<lparr>exit_esr := esr AND ESR_NONEMULATED_ABORT_MASK\<rparr>\<rparr>)
      in if \<not> fsc_is_external_abort fsc then Some (False, r)
         else if set = ESR_EL2_ABORT_SET_UER then do {
           p \<leftarrow> inject_sync_idabort ESR_EL2_ABORT_FSC_SEA (rs_pe r);
           Some (True, report (r\<lparr>rs_pe := p\<rparr>))
         }
         else if set = ESR_EL2_ABORT_SET_UEO then Some (True, report r)
         else None)"

definition emulate_stage2_data_abort :: "rec \<Rightarrow> u64 \<Rightarrow> rmi_rec_exit \<Rightarrow> rmi_rec_exit option" where
  "emulate_stage2_data_abort rec rtt_level rec_exit = do {
     let fipa = rec_regs rec ! 1;
     assert_c (rtt_level \<le> 3);
     Some (rec_exit\<lparr>exit_esr := ESR_EL2_EC_DATA_ABORT
                       OR (ESR_EL2_ABORT_FSC_TRANSLATION_FAULT_L0 + rtt_level),
                    exit_far := 0,
                    exit_hpfar := drop_bit HPFAR_EL2_FIPA_OFFSET fipa,
                    exit_reason := RMI_EXIT_SYNC\<rparr>)
   }"

definition fault_ipa :: "u64 \<Rightarrow> u64" where
  "fault_ipa hpfar = push_bit HPFAR_EL2_FIPA_OFFSET (hpfar AND HPFAR_EL2_FIPA_MASK)"

definition handle_data_abort :: "u64 \<Rightarrow> run_state \<Rightarrow> (bool \<times> run_state) option" where
  "handle_data_abort esr r = do {
     let hpfar = hw_hpfar_el2 (rs_pe r);
     let fipa = fault_ipa hpfar;
     (ext, r) \<leftarrow> handle_sync_external_abort esr r;
     if ext then Some (False, r)
     else do {
       (empty, s) \<leftarrow> ipa_is_empty fipa (rs_rec r) (rs_mem r);
       let r = r\<lparr>rs_mem := s\<rparr>;
       if empty then do {
         p \<leftarrow> inject_sync_idabort ESR_EL2_ABORT_FSC_SEA (rs_pe r);
         Some (True, r\<lparr>rs_pe := p\<rparr>)
       } else do {
         let (aarch32, esr) = fixup_aarch32_data_abort (rs_pe r) esr;
         (esr, far, write_val) \<leftarrow>
           (if aarch32 \<or> access_in_rec_par (rs_rec r) fipa
            then Some (esr AND ESR_NONEMULATED_ABORT_MASK, 0, 0)
            else do {
              write_val \<leftarrow> (if esr_is_write esr then get_dabt_write_value (rs_rec r) esr
                            else Some 0);
              Some (esr AND ESR_EMULATED_ABORT_MASK, hw_far_el2 (rs_pe r) AND 0xfff, write_val)
            });
         Some (False, r\<lparr>rs_exit := (rs_exit r)
                 \<lparr>exit_esr := esr, exit_far := far, exit_hpfar := hpfar,
                  exit_gprs := (exit_gprs (rs_exit r))[0 := write_val]\<rparr>\<rparr>)
       }
     }
   }"

definition handle_instruction_abort :: "u64 \<Rightarrow> run_state \<Rightarrow> (bool \<times> run_state) option" where
  "handle_instruction_abort esr r = do {
     let fsc = esr AND ESR_EL2_ABORT_FSC_MASK;
     let fsc_type = fsc AND NOT ESR_EL2_ABORT_FSC_LEVEL_MASK;
     let hpfar = hw_hpfar_el2 (rs_pe r);
     let fipa = fault_ipa hpfar;
     (ext, r) \<leftarrow> handle_sync_external_abort esr r;
     if ext then Some (False, r)
     else do {
       (inject, s) \<leftarrow> (if \<not> access_in_rec_par (rs_rec r) fipa then Some (True, rs_mem r)
                       else ipa_is_empty fipa (rs_rec r) (rs_mem r));
       let r = r\<lparr>rs_mem := s\<rparr>;
       if inject then do {
         p \<leftarrow> inject_sync_idabort ESR_EL2_ABORT_FSC_SEA (rs_pe r);
         Some (True, r\<lparr>rs_pe := p\<rparr>)
       }
       else if fsc_type \<noteq> ESR_EL2_ABORT_FSC_TRANSLATION_FAULT then Some (False, r)
       else Some (False, r\<lparr>rs_exit := (rs_exit r)
              \<lparr>exit_hpfar := hpfar, exit_esr := esr AND ESR_NONEMULATED_ABORT_MASK\<rparr>\<rparr>)
     }
   }"

section \<open>Calls of the realm\<close>

text \<open>The next value of ISR_EL1; \<^verbatim>\<open>None\<close> if the environment has no more.\<close>

definition check_pending_irq :: "pe \<Rightarrow> (bool \<times> pe) option" where
  "check_pending_irq p =
     (case isr_reads p of
        [] \<Rightarrow> None
      | pending_irq # rest \<Rightarrow> Some (pending_irq \<noteq> 0, p\<lparr>isr_reads := rest\<rparr>))"

definition abort_to_host :: "u64 \<Rightarrow> run_state \<Rightarrow> (bool \<times> run_state) option" where
  "abort_to_host rtt_level r = do {
     e \<leftarrow> emulate_stage2_data_abort (rs_rec r) rtt_level (rs_exit r);
     Some (False, r\<lparr>rs_exit := e\<rparr>)
   }"

definition return_result_to_realm :: "u64 list \<Rightarrow> run_state \<Rightarrow> run_state" where
  "return_result_to_realm x r = set_regs (take 4 x) r"

definition rsi_psci :: "platform \<Rightarrow> u64 \<Rightarrow> run_state \<Rightarrow> (bool \<times> run_state) option" where
  "rsi_psci P function_id r = do {
     ((res, rec), s) \<leftarrow> psci_rsi (pl_psci P) (rs_rec r) function_id (reg 1 r) (reg 2 r) (reg 3 r)
                         (rs_mem r);
     let r = r\<lparr>rs_rec := rec, rs_mem := s\<rparr>;
     let r = (if \<not> rec_psci_pending rec then set_regs (psci_x0 res # take 3 (psci_rest res)) r
              else r);
     if forward_psci_call res
     then Some (False, advance_pc (r\<lparr>rs_exit := (rs_exit r)\<lparr>exit_reason := RMI_EXIT_PSCI,
            exit_gprs := [function_id, forward_x1 res, 0, 0] @ replicate 27 0\<rparr>\<rparr>))
     else Some (True, r)
   }"

text \<open>
  The loop over the rounds of signing a token.  It goes on while the work is incomplete
  and no interrupt is pending; the list bounds the rounds by the reads of ISR_EL1 that
  the environment delivers.
\<close>

fun attest_loop ::
  "platform \<Rightarrow> u64 list \<Rightarrow> attest_result \<Rightarrow> run_state \<Rightarrow> (bool \<times> run_state) option" where
  "attest_loop P reads res r = do {
     ((rec, res), s) \<leftarrow> handle_rsi_attest_token_continue (pl_lib P) (heap_ctx (rs_pe r)) (rs_rec r) res
                          (rs_mem r);
     let r = r\<lparr>rs_rec := rec, rs_mem := s\<rparr>;
     if ar_incomplete res then
       (case reads of
          [] \<Rightarrow> None
        | isr # rest \<Rightarrow>
            let r = r\<lparr>rs_pe := (rs_pe r)\<lparr>isr_reads := rest\<rparr>\<rparr>
            in if isr \<noteq> 0
               then Some (False, r\<lparr>rs_exit := (rs_exit r)\<lparr>exit_reason := RMI_EXIT_IRQ\<rparr>\<rparr>)
               else attest_loop P rest res r)
     else if walk_abort (ar_walk res) then abort_to_host (walk_rtt_level (ar_walk res)) r
     else Some (True, return_result_to_realm (ar_x res) r)
   }"

declare attest_loop.simps [simp del]

text \<open>The result of the calls that walk the tables.\<close>

definition rsi_walk_return ::
  "rsi_walk_smc_result \<Rightarrow> run_state \<Rightarrow> (bool \<times> run_state) option" where
  "rsi_walk_return res r =
     (if rw_abort res then abort_to_host (rw_rtt_level res) r
      else Some (True, return_result_to_realm [rw_x0 res, rw_x1 res, 0, 0] r))"

definition rsi_host_call :: "platform \<Rightarrow> run_state \<Rightarrow> (bool \<times> run_state) option" where
  "rsi_host_call P r = do {
     ((ret, walk, e), s) \<leftarrow> handle_rsi_host_call (pl_walk P) (rs_rec r) (rs_exit r) (rs_mem r);
     let r = r\<lparr>rs_exit := e, rs_mem := s\<rparr>;
     if walk_abort walk then abort_to_host (walk_rtt_level walk) r
     else let r = set_reg 0 ret r
          in if ret = RSI_SUCCESS
             then Some (False, (advance_pc r)\<lparr>rs_rec := (rs_rec r)\<lparr>rec_host_call := True\<rparr>,
                          rs_exit := (rs_exit r)\<lparr>exit_reason := RMI_EXIT_HOST_CALL\<rparr>\<rparr>)
             else Some (True, r)
   }"

text \<open>
  The identifier is the low half of x0.  The test before the switch rejects the
  identifier of SMCCC_VERSION, so its case is not reached.
\<close>

definition handle_realm_rsi :: "platform \<Rightarrow> run_state \<Rightarrow> (bool \<times> run_state) option" where
  "handle_realm_rsi P r =
     (let function_id = low32 (reg 0 r)
      in if \<not> IS_SMC32_PSCI_FID function_id \<and> \<not> IS_SMC64_PSCI_FID function_id
            \<and> \<not> IS_SMC64_RSI_FID function_id
         then Some (True, set_reg 0 SMC_UNKNOWN r)
         else if function_id = SMCCC_VERSION then Some (True, set_reg 0 SMCCC_VERSION_NUMBER r)
         else if function_id = SMC_RSI_ABI_VERSION
         then Some (True, set_reg 0 system_rsi_abi_version r)
         else if IS_SMC32_PSCI_FID function_id \<or> IS_SMC64_PSCI_FID function_id
         then rsi_psci P function_id r
         else if function_id = SMC_RSI_ATTEST_TOKEN_INIT then do {
           ((ret, rec), s) \<leftarrow> handle_rsi_attest_token_init (pl_lib P) (heap_ctx (rs_pe r))
                               (rs_rec r) (rs_mem r);
           Some (True, set_reg 0 ret (r\<lparr>rs_rec := rec, rs_mem := s\<rparr>))
         }
         else if function_id = SMC_RSI_ATTEST_TOKEN_CONTINUE
         then attest_loop P (isr_reads (rs_pe r)) (pl_attest P) r
         else if function_id = SMC_RSI_MEASUREMENT_READ then do {
           ((ret, rec), s) \<leftarrow> handle_rsi_read_measurement (rs_rec r) (rs_mem r);
           Some (True, set_reg 0 ret (r\<lparr>rs_rec := rec, rs_mem := s\<rparr>))
         }
         else if function_id = SMC_RSI_MEASUREMENT_EXTEND then do {
           (ret, s) \<leftarrow> handle_rsi_extend_measurement (pl_hash P) (rs_rec r) (rs_mem r);
           Some (True, set_reg 0 ret (r\<lparr>rs_mem := s\<rparr>))
         }
         else if function_id = SMC_RSI_REALM_CONFIG then do {
           (res, s) \<leftarrow> handle_rsi_realm_config (rs_rec r) (pl_walk P) (rs_mem r);
           rsi_walk_return res (r\<lparr>rs_mem := s\<rparr>)
         }
         else if function_id = SMC_RSI_IPA_STATE_SET then do {
           res \<leftarrow> handle_rsi_ipa_state_set (rs_rec r) (rs_exit r);
           (case res of
              None \<Rightarrow> Some (True, set_reg 0 RSI_ERROR_INPUT r)
            | Some (rec, e) \<Rightarrow> Some (False, advance_pc (r\<lparr>rs_rec := rec, rs_exit := e\<rparr>)))
         }
         else if function_id = SMC_RSI_IPA_STATE_GET then do {
           (res, s) \<leftarrow> handle_rsi_ipa_state_get (rs_rec r) (rs_mem r);
           rsi_walk_return res (r\<lparr>rs_mem := s\<rparr>)
         }
         else if function_id = SMC_RSI_HOST_CALL then rsi_host_call P r
         else if function_id = SMC_RSI_DEV_MEM then do {
           (ret, s) \<leftarrow> handle_rsi_dev_mem (pl_mc P) (pl_walk P) (rs_rec r) (rs_mem r);
           Some (True, set_reg 0 ret (r\<lparr>rs_mem := s\<rparr>))
         }
         else if function_id = RSI_REQUEST_DEVICE_OWNERSHIP
         then let args = [reg 1 r, rec_idx (rs_rec r), 0, 0, 0, 0]
              in Some (True, set_reg 0 (pl_mc P SMC_REQUEST_DEVICE_OWNERSHIP args)
                   (r\<lparr>rs_mem := emit (EvSmc SMC_REQUEST_DEVICE_OWNERSHIP args) (rs_mem r)\<rparr>))
         else if function_id = RSI_TRIGGER_TESTENGINE
         then Some (False, advance_pc (set_reg 0 RSI_SUCCESS
                (r\<lparr>rs_exit := (rs_exit r)\<lparr>exit_reason := RMI_EXIT_TRIGGER_TESTENGINE,
                     exit_gprs := (exit_gprs (rs_exit r))
                       [1 := reg 1 r, 2 := reg 2 r, 3 := reg 3 r]\<rparr>\<rparr>)))
         else Some (True, set_reg 0 SMC_UNKNOWN r))"

section \<open>Exceptions\<close>

definition cptr_field :: "nat \<Rightarrow> u64 \<Rightarrow> pe \<Rightarrow> pe" where
  "cptr_field shift v p =
     p\<lparr>hw_cptr_el2 := (hw_cptr_el2 p AND NOT (push_bit shift 3)) OR push_bit shift v\<rparr>"

text \<open>
  The first use of the SIMD registers in a run: those of the host are saved, those of the
  realm loaded; the fields of CPTR_EL2 are FPEN at bit 20 and ZEN at bit 16.
\<close>

definition handle_fpu_trap :: "run_state \<Rightarrow> run_state option" where
  "handle_fpu_trap r = do {
     let p = cptr_field 16 3 (cptr_field 20 3 (rs_pe r));
     assert_c (rec_ns (rs_rec r));
     p \<leftarrow> (if ns_sve (ns_data p) then Some (p\<lparr>sve_data := save_sve_state p\<rparr>)
           else do {
             assert_c (ns_fpu (ns_data p));
             Some (p\<lparr>fpu_data := fpu_save_state p\<rparr>)
           });
     let p = fpu_restore_state (rec_fpu (rs_rec r)) p;
     let p = cptr_field 16 0 p;
     Some (r\<lparr>rs_rec := (rs_rec r)\<lparr>rec_fpu_used := True\<rparr>, rs_pe := p\<rparr>)
   }"

definition handle_exception_sync :: "platform \<Rightarrow> run_state \<Rightarrow> (bool \<times> run_state) option" where
  "handle_exception_sync P r =
     (let esr = hw_esr_el2 (rs_pe r);
          ec = esr AND ESR_EL2_EC_MASK
      in if ec = ESR_EL2_EC_WFX
         then Some (False, advance_pc (r\<lparr>rs_exit := (rs_exit r)
                \<lparr>exit_esr := esr AND (ESR_EL2_EC_MASK OR ESR_EL2_WFx_TI_BIT)\<rparr>\<rparr>))
         else if ec = ESR_EL2_EC_HVC then do {
           p \<leftarrow> realm_inject_undef_abort (rs_pe r);
           Some (True, r\<lparr>rs_pe := p\<rparr>)
         }
         else if ec = ESR_EL2_EC_SMC then do {
           (ret, r) \<leftarrow> handle_realm_rsi P r;
           if \<not> ret then Some (False, r) else Some (True, advance_pc r)
         }
         else if ec = ESR_EL2_EC_SYSREG then do {
           (ret, rec, e) \<leftarrow> handle_sysreg_access_trap (pl_ids P) (rs_rec r) (rs_exit r) esr;
           Some (ret, advance_pc (r\<lparr>rs_rec := rec, rs_exit := e\<rparr>))
         }
         else if ec = ESR_EL2_EC_INST_ABORT then handle_instruction_abort esr r
         else if ec = ESR_EL2_EC_DATA_ABORT then handle_data_abort esr r
         else if ec = ESR_EL2_EC_FPU then do {
           r \<leftarrow> handle_fpu_trap r;
           Some (True, r)
         }
         else Some (False, r))"

definition handle_exception_serror_lel :: "run_state \<Rightarrow> (bool \<times> run_state) option" where
  "handle_exception_serror_lel r = do {
     let esr = hw_esr_el2 (rs_pe r);
     assert_c (esr AND ESR_EL2_SERROR_IDS_BIT = 0);
     assert_c (esr AND ESR_EL2_SERROR_DFSC_MASK = ESR_EL2_SERROR_DFSC_ASYNC);
     let aet = esr AND ESR_EL2_SERROR_AET_MASK;
     let report = (\<lambda>r. r\<lparr>rs_exit := (rs_exit r)\<lparr>exit_esr := esr AND ESR_SERROR_MASK\<rparr>\<rparr>);
     if aet = ESR_EL2_SERROR_AET_UEU \<or> aet = ESR_EL2_SERROR_AET_UER
     then Some (False, report (r\<lparr>rs_rec := inject_serror (rs_rec r) esr\<rparr>))
     else if aet = ESR_EL2_SERROR_AET_CE \<or> aet = ESR_EL2_SERROR_AET_UEO
     then Some (False, report r)
     else None
   }"

definition handle_exception_irq_lel :: "run_state \<Rightarrow> bool \<times> run_state" where
  "handle_exception_irq_lel r =
     (False, r\<lparr>rs_exit := (rs_exit r)\<lparr>exit_reason := RMI_EXIT_IRQ\<rparr>\<rparr>)"

definition save_last_run :: "u64 \<Rightarrow> run_state \<Rightarrow> run_state" where
  "save_last_run esr r =
     r\<lparr>rs_rec := (rs_rec r)\<lparr>rec_last_run := \<lparr>lr_esr = esr,
          lr_hpfar = hw_hpfar_el2 (rs_pe r), lr_far = hw_far_el2 (rs_pe r)\<rparr>\<rparr>\<rparr>"

definition handle_realm_exit ::
  "platform \<Rightarrow> int \<Rightarrow> run_state \<Rightarrow> (bool \<times> run_state) option" where
  "handle_realm_exit P exception r =
     (if exception = ARM_EXCEPTION_SYNC_LEL then do {
        let r = r\<lparr>rs_exit := (rs_exit r)\<lparr>exit_reason := RMI_EXIT_SYNC\<rparr>\<rparr>;
        (ret, r) \<leftarrow> handle_exception_sync P r;
        let r = (if \<not> ret then save_last_run (hw_esr_el2 (rs_pe r)) r else r);
        Some (ret, r)
      }
      else if exception = ARM_EXCEPTION_IRQ_LEL then Some (handle_exception_irq_lel r)
      else if exception = ARM_EXCEPTION_FIQ_LEL
      then Some (False, r\<lparr>rs_exit := (rs_exit r)\<lparr>exit_reason := RMI_EXIT_FIQ\<rparr>\<rparr>)
      else if exception = ARM_EXCEPTION_SERROR_LEL then do {
        let esr = hw_esr_el2 (rs_pe r);
        let r = r\<lparr>rs_exit := (rs_exit r)\<lparr>exit_reason := RMI_EXIT_SERROR\<rparr>\<rparr>;
        (ret, r) \<leftarrow> handle_exception_serror_lel r;
        let r = (if \<not> ret then save_last_run esr r else r);
        Some (ret, r)
      }
      else Some (False, r))"

end
