(* ===== verification/Xlat_Tables.thy ===== *)
theory Xlat_Tables
  imports Vmid
begin

text \<open>
  The translation tables of the monitor itself (lib/xlat/src): the regions of a context, the
  construction of its tables, the descriptors, the search for the table of an address, the
  mapping of single pages and the configuration of the MMU.  A table is an array of 64-bit
  words in a memory \<open>tmem\<close>; a pointer to an entry is its address.  Barriers have no effect in
  the model, invalidations of the TLB are logged.  Levels, indices and counts are naturals.
  \<^verbatim>\<open>None\<close> is a panic, a failed assertion or an access outside an array.
\<close>

datatype errno = E_OK | E_PERM | E_NOMEM | E_FAULT | E_INVAL | E_RANGE | E_ALREADY

section \<open>Constants (xlat_defs.h, xlat_defs_private.h, xlat_tables.h)\<close>

named_theorems xlat_consts \<open>attributes and fields of descriptors\<close>

definition PAGE_SIZE :: u64 where [xlat_consts]: "PAGE_SIZE = 0x1000"
definition PAGE_SIZE_MASK :: u64 where [xlat_consts]: "PAGE_SIZE_MASK = 0xFFF"
definition IS_PAGE_ALIGNED :: "u64 \<Rightarrow> bool" where "IS_PAGE_ALIGNED addr \<longleftrightarrow> addr AND PAGE_SIZE_MASK = 0"

definition XLAT_TABLE_LEVEL_MAX :: nat where [xlat_consts]: "XLAT_TABLE_LEVEL_MAX = 3"
definition MIN_LVL_BLOCK_DESC :: nat where [xlat_consts]: "MIN_LVL_BLOCK_DESC = 1"
definition XLAT_TABLE_ENTRIES :: nat where [xlat_consts]: "XLAT_TABLE_ENTRIES = 512"

definition XLAT_ADDR_SHIFT :: "nat \<Rightarrow> nat" where
  "XLAT_ADDR_SHIFT level = 12 + (XLAT_TABLE_LEVEL_MAX - level) * 9"
definition XLAT_BLOCK_SIZE :: "nat \<Rightarrow> u64" where
  "XLAT_BLOCK_SIZE level = push_bit (XLAT_ADDR_SHIFT level) 1"
definition XLAT_BLOCK_MASK :: "nat \<Rightarrow> u64" where
  "XLAT_BLOCK_MASK level = XLAT_BLOCK_SIZE level - 1"
definition XLAT_TABLE_IDX :: "u64 \<Rightarrow> nat \<Rightarrow> nat" where
  "XLAT_TABLE_IDX virtual_addr level = unat (drop_bit (XLAT_ADDR_SHIFT level) virtual_addr AND 0x1FF)"

definition GET_XLAT_TABLE_LEVEL_BASE :: "u64 \<Rightarrow> nat" where
  "GET_XLAT_TABLE_LEVEL_BASE sz = (if sz > push_bit 39 1 then 0 else if sz > push_bit 30 1 then 1
     else if sz > push_bit 21 1 then 2 else 3)"
definition GET_NUM_BASE_LEVEL_ENTRIES :: "u64 \<Rightarrow> nat" where
  "GET_NUM_BASE_LEVEL_ENTRIES sz = unat (drop_bit (XLAT_ADDR_SHIFT (GET_XLAT_TABLE_LEVEL_BASE sz)) sz)"

definition HIGH_REGION_MASK :: u64 where [xlat_consts]: "HIGH_REGION_MASK = push_bit 52 0xFFF"

definition INVALID_DESC :: u64 where [xlat_consts]: "INVALID_DESC = 0"
definition BLOCK_DESC :: u64 where [xlat_consts]: "BLOCK_DESC = 1"
definition TABLE_DESC :: u64 where [xlat_consts]: "TABLE_DESC = 3"
definition PAGE_DESC :: u64 where [xlat_consts]: "PAGE_DESC = 3"
definition DESC_MASK :: u64 where [xlat_consts]: "DESC_MASK = 3"
definition TABLE_ADDR_MASK :: u64 where [xlat_consts]: "TABLE_ADDR_MASK = 0x0000FFFFFFFFF000"

definition LOWER_ATTRS :: "u64 \<Rightarrow> u64" where [xlat_consts]: "LOWER_ATTRS x = push_bit 2 (x AND 0xfff)"
definition UPPER_ATTRS :: "u64 \<Rightarrow> u64" where [xlat_consts]: "UPPER_ATTRS x = push_bit 52 (x AND 0x7)"
definition UXN :: u64 where [xlat_consts]: "UXN = push_bit 2 1"
definition PXN :: u64 where [xlat_consts]: "PXN = push_bit 1 1"
definition CONT_HINT :: u64 where [xlat_consts]: "CONT_HINT = 1"
definition ACCESS_FLAG :: u64 where [xlat_consts]: "ACCESS_FLAG = push_bit 8 1"
definition NSH :: u64 where [xlat_consts]: "NSH = 0"
definition OSH :: u64 where [xlat_consts]: "OSH = push_bit 6 2"
definition ISH :: u64 where [xlat_consts]: "ISH = push_bit 6 3"
definition AP_RO :: u64 where [xlat_consts]: "AP_RO = push_bit 5 1"
definition AP_RW :: u64 where [xlat_consts]: "AP_RW = 0"
definition NS_ATTR :: u64 where [xlat_consts]: "NS_ATTR = push_bit 3 1"
definition NG_HINT :: u64 where [xlat_consts]: "NG_HINT = push_bit 9 1"
definition ATTR_IWBWA_OWBWA_NTR_INDEX :: u64 where [xlat_consts]: "ATTR_IWBWA_OWBWA_NTR_INDEX = 0"
definition ATTR_DEVICE_INDEX :: u64 where [xlat_consts]: "ATTR_DEVICE_INDEX = 1"
definition ATTR_NON_CACHEABLE_INDEX :: u64 where [xlat_consts]: "ATTR_NON_CACHEABLE_INDEX = 2"

definition MT_TYPE :: "u64 \<Rightarrow> u64" where [xlat_consts]: "MT_TYPE attr = attr AND 0xF"
definition MT_SHAREABILITY :: "u64 \<Rightarrow> u64" where [xlat_consts]: "MT_SHAREABILITY attr = attr AND push_bit 8 3"
definition MT_PAS :: "u64 \<Rightarrow> u64" where [xlat_consts]: "MT_PAS attr = attr AND push_bit 10 1"
definition MT_DEVICE :: u64 where [xlat_consts]: "MT_DEVICE = 0"
definition MT_NON_CACHEABLE :: u64 where [xlat_consts]: "MT_NON_CACHEABLE = 1"
definition MT_MEMORY :: u64 where [xlat_consts]: "MT_MEMORY = 2"
definition MT_TRANSIENT :: u64 where [xlat_consts]: "MT_TRANSIENT = 3"
definition MT_RO :: u64 where [xlat_consts]: "MT_RO = 0"
definition MT_RW :: u64 where [xlat_consts]: "MT_RW = push_bit 4 1"
definition MT_EXECUTE :: u64 where [xlat_consts]: "MT_EXECUTE = 0"
definition MT_EXECUTE_NEVER :: u64 where [xlat_consts]: "MT_EXECUTE_NEVER = push_bit 5 1"
definition MT_CONT :: u64 where [xlat_consts]: "MT_CONT = push_bit 6 1"
definition MT_NG :: u64 where [xlat_consts]: "MT_NG = push_bit 7 1"
definition MT_SHAREABILITY_ISH :: u64 where [xlat_consts]: "MT_SHAREABILITY_ISH = push_bit 8 1"
definition MT_SHAREABILITY_OSH :: u64 where [xlat_consts]: "MT_SHAREABILITY_OSH = push_bit 8 2"
definition MT_SHAREABILITY_NSH :: u64 where [xlat_consts]: "MT_SHAREABILITY_NSH = push_bit 8 3"
definition MT_REALM :: u64 where [xlat_consts]: "MT_REALM = 0"
definition MT_NS :: u64 where [xlat_consts]: "MT_NS = push_bit 10 1"
definition MT_CODE :: u64 where [xlat_consts]: "MT_CODE = MT_MEMORY OR MT_SHAREABILITY_ISH OR MT_RO OR MT_EXECUTE"
definition MT_RO_DATA :: u64 where
  [xlat_consts]: "MT_RO_DATA = MT_MEMORY OR MT_SHAREABILITY_ISH OR MT_RO OR MT_EXECUTE_NEVER"
definition MT_RW_DATA :: u64 where
  [xlat_consts]: "MT_RW_DATA = MT_MEMORY OR MT_SHAREABILITY_ISH OR MT_RW OR MT_EXECUTE_NEVER"

section \<open>Contexts (xlat_contexts.h)\<close>

datatype xlat_addr_region_id = VA_LOW_REGION | VA_HIGH_REGION

record xlat_mmap_region =
  base_pa :: u64
  base_va :: u64
  mm_size :: u64
  mm_attr :: u64
  granularity :: u64

definition MAP_REGION_FULL_SPEC :: "u64 \<Rightarrow> u64 \<Rightarrow> u64 \<Rightarrow> u64 \<Rightarrow> u64 \<Rightarrow> xlat_mmap_region" where
  "MAP_REGION_FULL_SPEC pa va sz attr gr =
     \<lparr>base_pa = pa, base_va = va, mm_size = sz, mm_attr = attr, granularity = gr\<rparr>"
definition MAP_REGION :: "u64 \<Rightarrow> u64 \<Rightarrow> u64 \<Rightarrow> u64 \<Rightarrow> xlat_mmap_region" where
  "MAP_REGION pa va sz attr = MAP_REGION_FULL_SPEC pa va sz attr (XLAT_BLOCK_SIZE MIN_LVL_BLOCK_DESC)"
definition MAP_REGION_FLAT :: "u64 \<Rightarrow> u64 \<Rightarrow> u64 \<Rightarrow> xlat_mmap_region" where
  "MAP_REGION_FLAT adr sz attr = MAP_REGION adr adr sz attr"
definition MAP_REGION_TRANSIENT :: "u64 \<Rightarrow> u64 \<Rightarrow> u64 \<Rightarrow> xlat_mmap_region" where
  "MAP_REGION_TRANSIENT va sz gr = MAP_REGION_FULL_SPEC 0 va sz MT_TRANSIENT gr"
definition empty_region :: xlat_mmap_region where
  "empty_region = MAP_REGION_FULL_SPEC 0 0 0 0 0"

text \<open>The array of regions has a fixed length; a region of size zero ends the list in it.\<close>

record xlat_ctx_cfg =
  max_va_size :: u64
  cfg_mmap :: "xlat_mmap_region list"
  cfg_base_va :: u64
  max_mapped_pa :: u64
  max_mapped_va_offset :: u64
  base_level :: nat
  cfg_region :: xlat_addr_region_id
  cfg_initialized :: bool

record xlat_ctx_tbls =
  xtables :: u64
  tables_num :: nat
  next_table :: nat
  base_table :: u64
  max_base_table_entries :: nat
  tbls_initialized :: bool

definition XLAT_REGISTER_VA_SPACE :: "xlat_addr_region_id \<Rightarrow> nat \<Rightarrow> u64 \<Rightarrow> xlat_ctx_cfg" where
  "XLAT_REGISTER_VA_SPACE region mmap_count virt_addr_space_size =
     \<lparr>max_va_size = virt_addr_space_size, cfg_mmap = replicate mmap_count empty_region, cfg_base_va = 0,
      max_mapped_pa = 0, max_mapped_va_offset = 0, base_level = GET_XLAT_TABLE_LEVEL_BASE virt_addr_space_size,
      cfg_region = region, cfg_initialized = False\<rparr>"

definition XLAT_INIT_CTX_TBLS :: "u64 \<Rightarrow> nat \<Rightarrow> u64 \<Rightarrow> nat \<Rightarrow> xlat_ctx_tbls" where
  "XLAT_INIT_CTX_TBLS tables tnum btables bt_entries =
     \<lparr>xtables = tables, tables_num = tnum, next_table = 0, base_table = btables,
      max_base_table_entries = bt_entries, tbls_initialized = False\<rparr>"

definition XLAT_CREATE_TABLES :: "u64 \<Rightarrow> nat \<Rightarrow> u64 \<Rightarrow> u64 \<Rightarrow> xlat_ctx_tbls" where
  "XLAT_CREATE_TABLES tables tnum btables virt_addr_space_size =
     \<lparr>xtables = tables, tables_num = tnum, next_table = 0, base_table = btables,
      max_base_table_entries = GET_NUM_BASE_LEVEL_ENTRIES virt_addr_space_size, tbls_initialized = False\<rparr>"

text \<open>A context points to a configuration and to a set of tables, or to nothing.\<close>

record xlat_ctx =
  ctx_cfg :: "xlat_ctx_cfg option"
  ctx_tbls :: "xlat_ctx_tbls option"
  tmem :: "u64 \<Rightarrow> u64"
  tlbi_log :: "u64 list"

definition entry_addr :: "u64 \<Rightarrow> nat \<Rightarrow> u64" where
  "entry_addr table i = table + 8 * of_nat i"

definition xlat_read_descriptor :: "u64 \<Rightarrow> xlat_ctx \<Rightarrow> u64" where
  "xlat_read_descriptor entry x = tmem x entry"

definition xlat_write_descriptor :: "u64 \<Rightarrow> u64 \<Rightarrow> xlat_ctx \<Rightarrow> xlat_ctx" where
  "xlat_write_descriptor entry desc x = x\<lparr>tmem := (tmem x)(entry := desc)\<rparr>"

definition xlat_ctx_cfg_initialized :: "xlat_ctx \<Rightarrow> bool option" where
  "xlat_ctx_cfg_initialized x = map_option cfg_initialized (ctx_cfg x)"

definition xlat_ctx_tbls_initialized :: "xlat_ctx \<Rightarrow> bool option" where
  "xlat_ctx_tbls_initialized x = map_option tbls_initialized (ctx_tbls x)"

section \<open>Descriptors (xlat_tables_arch.c, xlat_tables_core.c)\<close>

definition xlat_arch_get_max_supported_pa :: "arch_regs \<Rightarrow> u64 option" where
  "xlat_arch_get_max_supported_pa ar = do {
     w \<leftarrow> arch_feat_get_pa_width ar;
     Some (push_bit (unat w) 1 - 1)
   }"

definition xlat_arch_get_pas :: "u64 \<Rightarrow> u64 option" where
  "xlat_arch_get_pas attr =
     (let pas = MT_PAS attr
      in if pas = MT_REALM then Some 0
         else if pas = MT_NS then Some (LOWER_ATTRS NS_ATTR)
         else None)"

definition xlat_desc :: "u64 \<Rightarrow> u64 \<Rightarrow> nat \<Rightarrow> u64 option" where
  "xlat_desc attr addr_pa level =
     (if MT_TYPE attr = MT_TRANSIENT then Some 0
      else do {
        let desc = addr_pa OR (if level = XLAT_TABLE_LEVEL_MAX then PAGE_DESC else BLOCK_DESC);
        let desc = desc OR LOWER_ATTRS ACCESS_FLAG;
        pas \<leftarrow> xlat_arch_get_pas attr;
        let desc = desc OR pas;
        let desc = desc OR (if attr AND MT_RW \<noteq> 0 then LOWER_ATTRS AP_RW else LOWER_ATTRS AP_RO);
        let desc = (if attr AND MT_CONT \<noteq> 0 then desc OR UPPER_ATTRS CONT_HINT else desc);
        let desc = (if attr AND MT_NG \<noteq> 0 then desc OR LOWER_ATTRS NG_HINT else desc);
        let desc = desc OR UPPER_ATTRS UXN;
        let mem_type = MT_TYPE attr;
        if mem_type = MT_DEVICE then
          Some (desc OR LOWER_ATTRS (ATTR_DEVICE_INDEX OR OSH) OR UPPER_ATTRS PXN)
        else do {
          let desc = (if attr AND MT_RW \<noteq> 0 \<or> attr AND MT_EXECUTE_NEVER \<noteq> 0
                      then desc OR UPPER_ATTRS PXN else desc);
          let shareability_type = MT_SHAREABILITY attr;
          if mem_type = MT_MEMORY then do {
            let desc = desc OR LOWER_ATTRS ATTR_IWBWA_OWBWA_NTR_INDEX;
            Some (desc OR (if shareability_type = MT_SHAREABILITY_NSH then LOWER_ATTRS NSH
                           else if shareability_type = MT_SHAREABILITY_OSH then LOWER_ATTRS OSH
                           else LOWER_ATTRS ISH))
          } else do {
            assert_c (mem_type = MT_NON_CACHEABLE);
            Some (desc OR LOWER_ATTRS (ATTR_NON_CACHEABLE_INDEX OR OSH))
          }
        }
      })"

section \<open>Construction of the tables (xlat_tables_core.c)\<close>

datatype action_t =
  ACTION_NONE | ACTION_WRITE_BLOCK_ENTRY | ACTION_CREATE_NEW_TABLE | ACTION_RECURSE_INTO_TABLE

type_synonym tabs = "xlat_ctx_tbls \<times> (u64 \<Rightarrow> u64)"

definition xlat_table_get_empty :: "tabs \<Rightarrow> (u64 \<times> tabs) option" where
  "xlat_table_get_empty s = (let (t, m) = s in do {
     assert_c (next_table t < tables_num t);
     Some (xtables t + 4096 * of_nat (next_table t), (t\<lparr>next_table := Suc (next_table t)\<rparr>, m))
   })"

definition xlat_tables_find_start_va :: "xlat_mmap_region \<Rightarrow> u64 \<Rightarrow> nat \<Rightarrow> u64" where
  "xlat_tables_find_start_va mm table_base_va level =
     (if base_va mm > table_base_va then base_va mm AND NOT (XLAT_BLOCK_MASK level) else table_base_va)"

definition xlat_tables_va_to_index :: "u64 \<Rightarrow> u64 \<Rightarrow> nat \<Rightarrow> nat" where
  "xlat_tables_va_to_index table_base_va va level =
     unat (ucast (drop_bit (XLAT_ADDR_SHIFT level) (va - table_base_va)) :: u32)"

definition mm_end_va :: "xlat_mmap_region \<Rightarrow> u64" where
  "mm_end_va mm = base_va mm + mm_size mm - 1"

definition xlat_tables_map_region_action ::
  "xlat_mmap_region \<Rightarrow> u64 \<Rightarrow> u64 \<Rightarrow> u64 \<Rightarrow> nat \<Rightarrow> action_t option" where
  "xlat_tables_map_region_action mm desc_type dest_pa table_entry_base_va level =
     (let table_entry_end_va = table_entry_base_va + XLAT_BLOCK_SIZE level - 1
      in if base_va mm \<le> table_entry_base_va \<and> mm_end_va mm \<ge> table_entry_end_va then
           if level = 3 then
             if desc_type = PAGE_DESC then Some ACTION_NONE
             else if desc_type \<noteq> INVALID_DESC then None
             else Some ACTION_WRITE_BLOCK_ENTRY
           else if desc_type = TABLE_DESC then Some ACTION_RECURSE_INTO_TABLE
           else if desc_type = INVALID_DESC then
             if dest_pa AND XLAT_BLOCK_MASK level \<noteq> 0 \<or> level < MIN_LVL_BLOCK_DESC
                \<or> granularity mm < XLAT_BLOCK_SIZE level
             then Some ACTION_CREATE_NEW_TABLE else Some ACTION_WRITE_BLOCK_ENTRY
           else if desc_type \<noteq> BLOCK_DESC then None
           else Some ACTION_NONE
         else if base_va mm \<le> table_entry_end_va \<or> mm_end_va mm \<ge> table_entry_base_va then
           if level \<ge> 3 then None
           else if desc_type = INVALID_DESC then Some ACTION_CREATE_NEW_TABLE
           else if desc_type \<noteq> TABLE_DESC then None
           else Some ACTION_RECURSE_INTO_TABLE
         else Some ACTION_NONE)"

text \<open>
  The recursion into a finer table and the loop over the entries of one table; the result is
  the address at which the loop ended.  The assertion on the level, which the callee makes,
  stands before the recursive call too.
\<close>

function xlat_tables_map_region ::
    "nat \<Rightarrow> xlat_mmap_region \<Rightarrow> u64 \<Rightarrow> u64 \<Rightarrow> nat \<Rightarrow> nat \<Rightarrow> tabs \<Rightarrow> (u64 \<times> tabs) option"
  and map_region_loop ::
    "nat \<Rightarrow> xlat_mmap_region \<Rightarrow> u64 \<Rightarrow> nat \<Rightarrow> nat \<Rightarrow> nat \<Rightarrow> u64 \<Rightarrow> tabs \<Rightarrow> (u64 \<times> tabs) option"
where
  "xlat_tables_map_region lv0 mm table_base_va tbl table_entries level s = do {
     assert_c (lv0 \<le> level \<and> level \<le> XLAT_TABLE_LEVEL_MAX);
     let table_idx_va = xlat_tables_find_start_va mm table_base_va level;
     let table_idx = xlat_tables_va_to_index table_base_va table_idx_va level;
     map_region_loop lv0 mm tbl table_entries level table_idx table_idx_va s
   }"
| "map_region_loop lv0 mm tbl table_entries level table_idx table_idx_va s =
     (if \<not> table_idx < table_entries then Some (table_idx_va - 1, s)
      else do {
        let (t, m) = s;
        let desc = m (entry_addr tbl table_idx);
        let table_idx_pa = base_pa mm + table_idx_va - base_va mm;
        action \<leftarrow> xlat_tables_map_region_action mm (desc AND DESC_MASK) table_idx_pa table_idx_va level;
        (stop, s) \<leftarrow> (case action of
            ACTION_NONE \<Rightarrow> Some (None, s)
          | ACTION_WRITE_BLOCK_ENTRY \<Rightarrow> do {
              d \<leftarrow> xlat_desc (mm_attr mm) table_idx_pa level;
              Some (None, (t, m(entry_addr tbl table_idx := d)))
            }
          | ACTION_CREATE_NEW_TABLE \<Rightarrow> do {
              (subtable, t, m) \<leftarrow> xlat_table_get_empty (t, m);
              assert_c (subtable \<noteq> 0);
              let m = m(entry_addr tbl table_idx := TABLE_DESC OR subtable);
              assert_c (Suc level \<le> XLAT_TABLE_LEVEL_MAX);
              (end_va, s) \<leftarrow> xlat_tables_map_region lv0 mm table_idx_va subtable XLAT_TABLE_ENTRIES (Suc level) (t, m);
              Some (if end_va \<noteq> table_idx_va + XLAT_BLOCK_SIZE level - 1 then Some end_va else None, s)
            }
          | ACTION_RECURSE_INTO_TABLE \<Rightarrow> do {
              assert_c (Suc level \<le> XLAT_TABLE_LEVEL_MAX);
              (end_va, s) \<leftarrow> xlat_tables_map_region lv0 mm table_idx_va (desc AND TABLE_ADDR_MASK)
                  XLAT_TABLE_ENTRIES (Suc level) (t, m);
              Some (if end_va \<noteq> table_idx_va + XLAT_BLOCK_SIZE level - 1 then Some end_va else None, s)
            });
        (case stop of
           Some end_va \<Rightarrow> Some (end_va, s)
         | None \<Rightarrow>
             let table_idx_va = table_idx_va + XLAT_BLOCK_SIZE level
             in if mm_end_va mm \<le> table_idx_va then Some (table_idx_va - 1, s)
                else map_region_loop lv0 mm tbl table_entries level (Suc table_idx) table_idx_va s)
      })"
  by pat_completeness auto

termination
  by (relation "inv_image (less_than <*lex*> less_than <*lex*> less_than)
      (\<lambda>x. case x of Inl (lv0, mm, b, tbl, n, level, s) \<Rightarrow> (4 - level, 1, 0)
         | Inr (lv0, mm, tbl, n, level, i, va, s) \<Rightarrow> (4 - level, 0, n - i))")
    (auto simp: XLAT_TABLE_LEVEL_MAX_def split: option.splits)

section \<open>Regions (xlat_tables_core.c)\<close>

definition separated :: "u64 \<Rightarrow> u64 \<Rightarrow> u64 \<Rightarrow> u64 \<Rightarrow> bool" where
  "separated base1 end1 base2 end2 \<longleftrightarrow> end1 < base2 \<or> base1 > end2"

text \<open>The scan for overlaps ends at the first empty region.\<close>

primrec region_overlap :: "xlat_mmap_region \<Rightarrow> xlat_mmap_region list \<Rightarrow> bool" where
  "region_overlap mm [] = False"
| "region_overlap mm (c # cs) =
     (if mm_size c = 0 then False
      else if \<not> separated (base_va mm) (base_va mm + mm_size mm - 1) (base_va c) (base_va c + mm_size c - 1)
            \<or> \<not> separated (base_pa mm) (base_pa mm + mm_size mm - 1) (base_pa c) (base_pa c + mm_size c - 1)
           then True
      else region_overlap mm cs)"

definition mmap_add_region_check :: "arch_regs \<Rightarrow> xlat_ctx_cfg \<Rightarrow> xlat_mmap_region \<Rightarrow> errno option" where
  "mmap_add_region_check ar cfg mm =
     (let end_pa = base_pa mm + mm_size mm - 1; end_va = base_va mm + mm_size mm - 1
      in if \<not> IS_PAGE_ALIGNED (base_pa mm) \<or> \<not> IS_PAGE_ALIGNED (base_va mm) \<or> \<not> IS_PAGE_ALIGNED (mm_size mm)
         then Some E_FAULT
         else if granularity mm \<noteq> XLAT_BLOCK_SIZE 1 \<and> granularity mm \<noteq> XLAT_BLOCK_SIZE 2
              \<and> granularity mm \<noteq> XLAT_BLOCK_SIZE 3 then Some E_INVAL
         else if base_pa mm > end_pa \<or> base_va mm > end_va then Some E_RANGE
         else if end_va > max_va_size cfg then Some E_RANGE
         else do {
           max_pa \<leftarrow> xlat_arch_get_max_supported_pa ar;
           if end_pa > max_pa then Some E_RANGE
           else do {
             assert_c (cfg_mmap cfg \<noteq> []);
             if mm_size (last (cfg_mmap cfg)) \<noteq> 0 then Some E_NOMEM
             else if region_overlap mm (cfg_mmap cfg) then Some E_PERM
             else Some E_OK
           }
         })"

primrec mm_cursor :: "u64 \<Rightarrow> xlat_mmap_region list \<Rightarrow> nat option" where
  "mm_cursor va [] = None"
| "mm_cursor va (c # cs) = (if base_va c < va \<and> mm_size c \<noteq> 0 then map_option Suc (mm_cursor va cs) else Some 0)"

primrec mm_last :: "xlat_mmap_region list \<Rightarrow> nat" where
  "mm_last [] = 0"
| "mm_last (c # cs) = (if mm_size c \<noteq> 0 then Suc (mm_last cs) else 0)"

definition insert_region :: "xlat_mmap_region \<Rightarrow> xlat_mmap_region list \<Rightarrow> xlat_mmap_region list option" where
  "insert_region mm ms = do {
     cursor \<leftarrow> mm_cursor (base_va mm) ms;
     let last_idx = mm_last ms;
     assert_c (last_idx < length ms \<and> mm_size (ms ! last_idx) = 0);
     Some (take cursor ms @ mm # drop cursor (take last_idx ms) @ drop (Suc last_idx) ms)
   }"

definition xlat_mmap_add_region_ctx ::
  "arch_regs \<Rightarrow> xlat_mmap_region \<Rightarrow> xlat_ctx \<Rightarrow> (errno \<times> xlat_ctx) option" where
  "xlat_mmap_add_region_ctx ar mm x =
     (case (ctx_cfg x, ctx_tbls x) of
        (Some cfg, Some tbls) \<Rightarrow>
          if cfg_initialized cfg then Some (E_INVAL, x)
          else do {
            assert_c (\<not> tbls_initialized tbls);
            if mm_size mm = 0 then Some (E_OK, x)
            else do {
              let low = (cfg_region cfg = VA_LOW_REGION);
              let cfg = cfg\<lparr>cfg_base_va := (if low then 0 else - 1 - max_va_size cfg + 1)\<rparr>;
              let x = x\<lparr>ctx_cfg := Some cfg\<rparr>;
              if low \<and> (base_va mm AND HIGH_REGION_MASK \<noteq> 0 \<or> (base_va mm + mm_size mm) AND HIGH_REGION_MASK \<noteq> 0)
              then Some (E_INVAL, x)
              else if \<not> low \<and> base_va mm < cfg_base_va cfg then Some (E_INVAL, x)
              else do {
                let mm = (if low then mm else mm\<lparr>base_va := base_va mm - cfg_base_va cfg\<rparr>);
                let end_pa = base_pa mm + mm_size mm - 1;
                let end_va = base_va mm + mm_size mm - 1;
                ret \<leftarrow> mmap_add_region_check ar cfg mm;
                if ret \<noteq> E_OK then Some (ret, x)
                else do {
                  ms \<leftarrow> insert_region mm (cfg_mmap cfg);
                  let cfg = cfg\<lparr>cfg_mmap := ms\<rparr>;
                  let cfg = (if end_pa > max_mapped_pa cfg then cfg\<lparr>max_mapped_pa := end_pa\<rparr> else cfg);
                  let cfg = (if end_va > max_mapped_va_offset cfg then cfg\<lparr>max_mapped_va_offset := end_va\<rparr> else cfg);
                  Some (E_OK, x\<lparr>ctx_cfg := Some cfg\<rparr>)
                }
              }
            }
          }
      | _ \<Rightarrow> Some (E_INVAL, x))"

text \<open>The array of regions to add ends with an empty one.\<close>

primrec add_regions :: "arch_regs \<Rightarrow> xlat_mmap_region list \<Rightarrow> xlat_ctx \<Rightarrow> (errno \<times> xlat_ctx) option" where
  "add_regions ar [] x = None"
| "add_regions ar (mm # mms) x =
     (if mm_size mm = 0 then Some (E_OK, x)
      else do {
        (ret, x) \<leftarrow> xlat_mmap_add_region_ctx ar mm x;
        if ret \<noteq> E_OK then Some (ret, x) else add_regions ar mms x
      })"

definition xlat_mmap_add_ctx ::
  "arch_regs \<Rightarrow> xlat_mmap_region list \<Rightarrow> bool \<Rightarrow> xlat_ctx \<Rightarrow> (errno \<times> xlat_ctx) option" where
  "xlat_mmap_add_ctx ar mms final x = do {
     (ret, x) \<leftarrow> add_regions ar mms x;
     if ret \<noteq> E_OK then Some (ret, x)
     else if final then do {
       cfg \<leftarrow> ctx_cfg x;
       Some (E_OK, x\<lparr>ctx_cfg := Some (cfg\<lparr>cfg_initialized := True\<rparr>)\<rparr>)
     } else Some (E_OK, x)
   }"

section \<open>Initialisation of the tables (xlat_tables_core.c)\<close>

definition zero_tables :: "u64 \<Rightarrow> nat \<Rightarrow> (u64 \<Rightarrow> u64) \<Rightarrow> u64 \<Rightarrow> u64" where
  "zero_tables table n m =
     (\<lambda>p. if unat (p - table) < n * 4096 \<and> unat (p - table) mod 8 = 0 then INVALID_DESC else m p)"

primrec map_regions :: "nat \<Rightarrow> xlat_mmap_region list \<Rightarrow> tabs \<Rightarrow> (errno \<times> tabs) option" where
  "map_regions lv0 [] s = Some (E_OK, s)"
| "map_regions lv0 (mm # mms) s =
     (if mm_size mm = 0 then Some (E_OK, s)
      else do {
        (end_va, s) \<leftarrow> xlat_tables_map_region lv0 mm 0 (base_table (fst s)) (max_base_table_entries (fst s)) lv0 s;
        if end_va \<noteq> mm_end_va mm then Some (E_NOMEM, s) else map_regions lv0 mms s
      })"

definition xlat_init_tables_ctx :: "bool \<Rightarrow> xlat_ctx \<Rightarrow> (errno \<times> xlat_ctx) option" where
  "xlat_init_tables_ctx mmu_enabled x =
     (case (ctx_cfg x, ctx_tbls x) of
        (Some cfg, Some t) \<Rightarrow>
          if tbls_initialized t then Some (E_ALREADY, x)
          else if \<not> cfg_initialized cfg then Some (E_INVAL, x)
          else if mmu_enabled then Some (E_INVAL, x)
          else do {
            let m = zero_tables (xtables t) (tables_num t) (zero_tables (base_table t) 1 (tmem x));
            (ret, t, m) \<leftarrow> map_regions (base_level cfg) (cfg_mmap cfg) (t, m);
            if ret \<noteq> E_OK then Some (ret, x\<lparr>ctx_tbls := Some t, tmem := m\<rparr>)
            else Some (E_OK, x\<lparr>ctx_tbls := Some (t\<lparr>tbls_initialized := True\<rparr>), tmem := m\<rparr>)
          }
      | _ \<Rightarrow> Some (E_INVAL, x))"

definition xlat_ctx_create_dynamic ::
  "xlat_ctx_cfg \<Rightarrow> u64 \<Rightarrow> nat \<Rightarrow> u64 \<Rightarrow> nat \<Rightarrow> xlat_ctx \<Rightarrow> errno \<times> xlat_ctx" where
  "xlat_ctx_create_dynamic cfg base_tables base_level_entries tables_ptr ntables x =
     (if ctx_cfg x \<noteq> None \<and> ctx_tbls x \<noteq> None then (E_ALREADY, x)
      else (E_OK, x\<lparr>ctx_cfg := Some cfg,
                    ctx_tbls := Some (XLAT_INIT_CTX_TBLS tables_ptr ntables base_tables base_level_entries)\<rparr>))"

section \<open>Tables of an address and pages (xlat_tables_utils.c)\<close>

record xlat_table_entry =
  te_table :: u64
  te_base_va :: u64
  te_level :: nat
  te_entries :: nat

primrec find_last_from :: "nat list \<Rightarrow> (u64 \<Rightarrow> u64) \<Rightarrow> u64 \<Rightarrow> u64 \<Rightarrow> nat \<Rightarrow> (u64 \<times> nat) option" where
  "find_last_from [] m virtual_addr ret_table entries = None"
| "find_last_from (level # levels) m virtual_addr ret_table entries =
     (let idx = XLAT_TABLE_IDX virtual_addr level
      in if idx \<ge> entries then None
         else let desc = m (entry_addr ret_table idx); desc_type = desc AND DESC_MASK
              in if desc_type \<noteq> TABLE_DESC then
                   if desc_type = BLOCK_DESC
                      \<or> (desc_type = PAGE_DESC \<or> desc_type = INVALID_DESC) \<and> level = XLAT_TABLE_LEVEL_MAX
                   then Some (ret_table, level) else None
                 else find_last_from levels m virtual_addr (desc AND TABLE_ADDR_MASK) XLAT_TABLE_ENTRIES)"

definition find_xlat_last_table :: "u64 \<Rightarrow> xlat_ctx_cfg \<Rightarrow> xlat_ctx_tbls \<Rightarrow> (u64 \<Rightarrow> u64) \<Rightarrow> (u64 \<times> nat) option" where
  "find_xlat_last_table virtual_addr cfg t m =
     find_last_from [base_level cfg..<Suc XLAT_TABLE_LEVEL_MAX] m virtual_addr (base_table t) (max_base_table_entries t)"

definition xlat_get_pte_from_table :: "xlat_table_entry \<Rightarrow> u64 \<Rightarrow> u64 option" where
  "xlat_get_pte_from_table entry va =
     (if va < te_base_va entry then None
      else let index = XLAT_TABLE_IDX (va - te_base_va entry) (te_level entry)
           in if index \<ge> te_entries entry then None else Some (entry_addr (te_table entry) index))"

definition xlat_get_table_from_va :: "xlat_ctx \<Rightarrow> u64 \<Rightarrow> (errno \<times> xlat_table_entry option) option" where
  "xlat_get_table_from_va x va = do {
     cfg \<leftarrow> ctx_cfg x;
     t \<leftarrow> ctx_tbls x;
     assert_c (tbls_initialized t);
     if va > max_mapped_va_offset cfg + cfg_base_va cfg \<or> va < cfg_base_va cfg then Some (E_FAULT, None)
     else let page_va = (va - cfg_base_va cfg) AND NOT PAGE_SIZE_MASK
          in case find_xlat_last_table page_va cfg t (tmem x) of
               None \<Rightarrow> Some (E_FAULT, None)
             | Some (table, level) \<Rightarrow>
                 Some (E_OK, Some \<lparr>te_table = table, te_base_va = cfg_base_va cfg, te_level = level,
                    te_entries = (if level = base_level cfg then max_base_table_entries t else XLAT_TABLE_ENTRIES)\<rparr>)
   }"

definition xlat_arch_tlbi_va :: "u64 \<Rightarrow> xlat_ctx \<Rightarrow> xlat_ctx" where
  "xlat_arch_tlbi_va va x = x\<lparr>tlbi_log := tlbi_log x @ [va]\<rparr>"

definition xlat_unmap_memory_page :: "xlat_table_entry \<Rightarrow> u64 \<Rightarrow> xlat_ctx \<Rightarrow> errno \<times> xlat_ctx" where
  "xlat_unmap_memory_page table va x =
     (case xlat_get_pte_from_table table va of
        None \<Rightarrow> (E_FAULT, x)
      | Some entry \<Rightarrow> (E_OK, xlat_arch_tlbi_va va (xlat_write_descriptor entry INVALID_DESC x)))"

definition xlat_map_memory_page_with_attrs ::
  "arch_regs \<Rightarrow> xlat_table_entry \<Rightarrow> u64 \<Rightarrow> u64 \<Rightarrow> u64 \<Rightarrow> xlat_ctx \<Rightarrow> (errno \<times> xlat_ctx) option" where
  "xlat_map_memory_page_with_attrs ar table va pa attrs x =
     (case xlat_get_pte_from_table table va of
        None \<Rightarrow> Some (E_FAULT, x)
      | Some desc_ptr \<Rightarrow>
          if xlat_read_descriptor desc_ptr x \<noteq> INVALID_DESC then Some (E_FAULT, x)
          else do {
            max_pa \<leftarrow> xlat_arch_get_max_supported_pa ar;
            if pa > max_pa then Some (E_FAULT, x)
            else do {
              desc \<leftarrow> xlat_desc attrs pa (te_level table);
              Some (E_OK, xlat_write_descriptor desc_ptr desc x)
            }
          })"

section \<open>Configuration of the MMU (xlat_tables_arch.c)\<close>

record mmu_regs =
  mair_el2 :: u64
  tcr_el2 :: u64
  ttbr0_el2 :: u64
  ttbr1_el2 :: u64
  sctlr_el2_m :: bool

definition tcr_physical_addr_size_bits :: "u64 \<Rightarrow> u64 option" where
  "tcr_physical_addr_size_bits max_addr =
     (if max_addr AND 0xFFFF000000000000 \<noteq> 0 then None
      else if max_addr AND 0x0000F00000000000 \<noteq> 0 then Some (push_bit 32 5)
      else if max_addr AND 0x00000C0000000000 \<noteq> 0 then Some (push_bit 32 4)
      else if max_addr AND 0x0000030000000000 \<noteq> 0 then Some (push_bit 32 3)
      else if max_addr AND 0x000000F000000000 \<noteq> 0 then Some (push_bit 32 2)
      else if max_addr AND 0x0000000F00000000 \<noteq> 0 then Some (push_bit 32 1)
      else Some 0)"

text \<open>The number of trailing zeros of a power of two.\<close>

definition ctzll :: "u64 \<Rightarrow> nat option" where
  "ctzll w = find (\<lambda>n. bit w n) [0..<64]"

definition TTBR_CNP_BIT :: u64 where "TTBR_CNP_BIT = 1"

definition tcr_attributes :: u64 where
  "tcr_attributes = push_bit 8 1 OR push_bit 10 1 OR push_bit 12 3 OR push_bit 24 1 OR push_bit 26 1 OR push_bit 28 3
     OR push_bit 36 1 OR push_bit 41 1 OR push_bit 42 1"

definition xlat_arch_setup_mmu_cfg :: "arch_regs \<Rightarrow> xlat_ctx \<Rightarrow> mmu_regs \<Rightarrow> (errno \<times> mmu_regs) option" where
  "xlat_arch_setup_mmu_cfg ar x r =
     (case (ctx_cfg x, ctx_tbls x) of
        (Some cfg, Some t) \<Rightarrow>
          if \<not> cfg_initialized cfg then Some (E_INVAL, r)
          else if sctlr_el2_m r then Some (E_PERM, r)
          else do {
            let mair = push_bit 8 0x4 OR push_bit 0 (0xf OR push_bit 4 0xf) OR push_bit 16 (0x4 OR push_bit 4 0x4);
            zeros \<leftarrow> ctzll (max_va_size cfg);
            let txsz = 64 - of_nat zeros;
            let low = (cfg_region cfg = VA_LOW_REGION);
            let t0sz = (if low then txsz else drop_bit 0 (tcr_el2 r) AND 0x3F);
            let t1sz = (if low then drop_bit 16 (tcr_el2 r) AND 0x3F else txsz);
            max_pa \<leftarrow> xlat_arch_get_max_supported_pa ar;
            ps \<leftarrow> tcr_physical_addr_size_bits max_pa;
            let tcr = push_bit 0 t0sz OR push_bit 16 t1sz OR tcr_attributes OR ps;
            let ttbrx = (if low then base_table t OR TTBR_CNP_BIT else base_table t AND NOT TTBR_CNP_BIT);
            let r = r\<lparr>mair_el2 := mair, tcr_el2 := tcr\<rparr>;
            Some (E_OK, if low then r\<lparr>ttbr0_el2 := ttbrx\<rparr> else r\<lparr>ttbr1_el2 := ttbrx\<rparr>)
          }
      | _ \<Rightarrow> Some (E_INVAL, r))"

end
