(* ===== verification/Slot_Xlat.thy ===== *)
theory Slot_Xlat
  imports Xlat_Tables Slot_Buffer
begin

text \<open>
  The slot buffers of lib/realm/src/buffer.c down to their translation tables: the contexts of
  the CPUs, which share one configuration and own one table each, their set-up at boot, the
  cached table of each CPU, and the mapping of a slot as a write of its descriptor.  Theory
  \<open>Slot_Buffer\<close> is the view of the commands: which granule a slot maps.  The tables of all the
  CPUs are one array of the linker, whose address \<open>btables\<close> is a parameter.
\<close>

section \<open>Constants\<close>

definition MAX_CPUS :: nat where [word_consts]: "MAX_CPUS = 16"

text \<open>The number of leading zeros.\<close>

definition clzll :: "u64 \<Rightarrow> nat" where
  "clzll w = length (takeWhile (\<lambda>n. \<not> bit w n) (rev [0..<64]))"

definition ROUNDED_NR_CPU_SLOTS :: u64 where
  "ROUNDED_NR_CPU_SLOTS = push_bit (64 - clzll (of_nat (NR_CPU_SLOTS - 1))) 1"

definition RMM_SLOT_BUF_VA_SIZE :: u64 where
  "RMM_SLOT_BUF_VA_SIZE = ROUNDED_NR_CPU_SLOTS * GRANULE_SIZE"

definition SLOT_VIRT :: u64 where
  "SLOT_VIRT = 0xffffffffffffffff - RMM_SLOT_BUF_VA_SIZE + 1"

definition RMM_SLOT_BUF_MMAP :: xlat_mmap_region where
  "RMM_SLOT_BUF_MMAP = MAP_REGION_TRANSIENT SLOT_VIRT RMM_SLOT_BUF_VA_SIZE PAGE_SIZE"

definition SLOT_DESC_ATTR :: u64 where
  "SLOT_DESC_ATTR = MT_RW_DATA OR MT_SHAREABILITY_ISH OR MT_NG"

section \<open>State\<close>

record slot_bufs =
  slot_buf_xlat_ctx_cfg :: xlat_ctx_cfg
  slot_buf_tbls :: "nat \<Rightarrow> xlat_ctx_tbls"
  ctx_set :: "nat \<Rightarrow> bool"
  te_cache :: "nat \<Rightarrow> xlat_table_entry"
  slot_mem :: "u64 \<Rightarrow> u64"
  slot_tlbi :: "u64 list"

text \<open>
  \<^verbatim>\<open>slot_buf_xlat_ctx[cpu]\<close>: its pointers are null until \<open>ctx_set\<close>; then they point to the common
  configuration and to the tables of the CPU.
\<close>

definition slot_ctx :: "nat \<Rightarrow> slot_bufs \<Rightarrow> xlat_ctx" where
  "slot_ctx cpu b =
     \<lparr>ctx_cfg = (if ctx_set b cpu then Some (slot_buf_xlat_ctx_cfg b) else None),
      ctx_tbls = (if ctx_set b cpu then Some (slot_buf_tbls b cpu) else None),
      tmem = slot_mem b, tlbi_log = slot_tlbi b\<rparr>"

definition store_ctx :: "nat \<Rightarrow> xlat_ctx \<Rightarrow> slot_bufs \<Rightarrow> slot_bufs option" where
  "store_ctx cpu x b = do {
     cfg \<leftarrow> ctx_cfg x;
     t \<leftarrow> ctx_tbls x;
     Some (b\<lparr>slot_buf_xlat_ctx_cfg := cfg, slot_buf_tbls := (slot_buf_tbls b)(cpu := t),
             ctx_set := (ctx_set b)(cpu := True), slot_mem := tmem x, slot_tlbi := tlbi_log x\<rparr>)
   }"

definition null_entry :: xlat_table_entry where
  "null_entry = \<lparr>te_table = 0, te_base_va = 0, te_level = 0, te_entries = 0\<rparr>"

text \<open>The static data before the first boot.\<close>

definition slot_bufs_reset :: "(u64 \<Rightarrow> u64) \<Rightarrow> slot_bufs" where
  "slot_bufs_reset m =
     \<lparr>slot_buf_xlat_ctx_cfg = XLAT_REGISTER_VA_SPACE VA_HIGH_REGION 1 RMM_SLOT_BUF_VA_SIZE,
      slot_buf_tbls = (\<lambda>_. XLAT_INIT_CTX_TBLS 0 0 0 0), ctx_set = (\<lambda>_. False),
      te_cache = (\<lambda>_. null_entry), slot_mem = m, slot_tlbi = []\<rparr>"

section \<open>Operations\<close>

definition slot_to_va :: "nat \<Rightarrow> u64 option" where
  "slot_to_va slot = do {
     assert_c (slot < NR_CPU_SLOTS);
     Some (SLOT_VIRT + GRANULE_SIZE * of_nat slot)
   }"

definition slot_to_descriptor :: "nat \<Rightarrow> nat \<Rightarrow> slot_bufs \<Rightarrow> u64 option" where
  "slot_to_descriptor cpu slot b = do {
     va \<leftarrow> slot_to_va slot;
     entry \<leftarrow> xlat_get_pte_from_table (te_cache b cpu) va;
     Some (xlat_read_descriptor entry (slot_ctx cpu b))
   }"

definition slot_buf_setup_xlat ::
  "arch_regs \<Rightarrow> u64 \<Rightarrow> nat \<Rightarrow> mmu_regs \<Rightarrow> slot_bufs \<Rightarrow> (mmu_regs \<times> slot_bufs) option" where
  "slot_buf_setup_xlat ar btables cpu r b = do {
     let (ret, x) = xlat_ctx_create_dynamic (slot_buf_xlat_ctx_cfg b) (btables + 4096 * of_nat cpu)
           (GET_NUM_BASE_LEVEL_ENTRIES RMM_SLOT_BUF_VA_SIZE) 0 0 (slot_ctx cpu b);
     assert_c (ret \<noteq> E_INVAL);
     cfg_done \<leftarrow> xlat_ctx_cfg_initialized x;
     x \<leftarrow> (if \<not> cfg_done then do {
             (ret, x) \<leftarrow> xlat_mmap_add_ctx ar [RMM_SLOT_BUF_MMAP, empty_region] True x;
             assert_c (ret = E_OK);
             Some x
           } else Some x);
     tbls_done \<leftarrow> xlat_ctx_tbls_initialized x;
     x \<leftarrow> (if \<not> tbls_done then do {
             (err, x) \<leftarrow> xlat_init_tables_ctx (sctlr_el2_m r) x;
             assert_c (err = E_OK);
             Some x
           } else Some x);
     (ret, r) \<leftarrow> xlat_arch_setup_mmu_cfg ar x r;
     assert_c (ret = E_OK);
     b \<leftarrow> store_ctx cpu x b;
     Some (r, b)
   }"

definition slot_buf_init :: "bool \<Rightarrow> nat \<Rightarrow> slot_bufs \<Rightarrow> slot_bufs option" where
  "slot_buf_init mmu_enabled cpu b = do {
     assert_c mmu_enabled;
     if te_table (te_cache b cpu) = 0 then do {
       va \<leftarrow> slot_to_va SLOT_NS;
       (ret, entry) \<leftarrow> xlat_get_table_from_va (slot_ctx cpu b) va;
       assert_c (ret = E_OK);
       entry \<leftarrow> entry;
       Some (b\<lparr>te_cache := (te_cache b)(cpu := entry)\<rparr>)
     } else Some b
   }"

definition slots_empty_check :: "nat \<Rightarrow> slot_bufs \<Rightarrow> unit option" where
  "slots_empty_check cpu b =
     assert_c (list_all (\<lambda>i. slot_to_descriptor cpu i b = Some INVALID_DESC) [0..<NR_CPU_SLOTS])"

text \<open>
  The two internal functions that write the descriptors.  The address that mapping returns is
  null when it failed; the result of unmapping is not looked at.
\<close>

definition slot_map_internal ::
  "arch_regs \<Rightarrow> nat \<Rightarrow> nat \<Rightarrow> u64 \<Rightarrow> bool \<Rightarrow> slot_bufs \<Rightarrow> (u64 \<times> slot_bufs) option" where
  "slot_map_internal ar cpu slot addr ns b = do {
     let attr = SLOT_DESC_ATTR;
     va \<leftarrow> slot_to_va slot;
     assert_c (GRANULE_ALIGNED addr);
     let attr = attr OR (if ns then MT_NS else MT_REALM);
     (ret, x) \<leftarrow> xlat_map_memory_page_with_attrs ar (te_cache b cpu) va addr attr (slot_ctx cpu b);
     let b = b\<lparr>slot_mem := tmem x, slot_tlbi := tlbi_log x\<rparr>;
     Some (if ret \<noteq> E_OK then 0 else va, b)
   }"

definition slot_unmap_internal :: "nat \<Rightarrow> u64 \<Rightarrow> slot_bufs \<Rightarrow> slot_bufs" where
  "slot_unmap_internal cpu buf b =
     (let (ret, x) = xlat_unmap_memory_page (te_cache b cpu) buf (slot_ctx cpu b)
      in b\<lparr>slot_mem := tmem x, slot_tlbi := tlbi_log x\<rparr>)"

text \<open>The interface of the commands: \<^verbatim>\<open>granule_map\<close>, \<^verbatim>\<open>ns_granule_map\<close> and their unmapping.\<close>

definition slot_granule_map ::
  "arch_regs \<Rightarrow> nat \<Rightarrow> nat \<Rightarrow> nat \<Rightarrow> slot_bufs \<Rightarrow> (u64 \<times> slot_bufs) option" where
  "slot_granule_map ar cpu g slot b = do {
     addr \<leftarrow> granule_addr g;
     assert_c (is_realm_slot slot);
     slot_map_internal ar cpu slot addr False b
   }"

definition slot_ns_granule_map ::
  "arch_regs \<Rightarrow> nat \<Rightarrow> nat \<Rightarrow> nat \<Rightarrow> slot_bufs \<Rightarrow> (u64 \<times> slot_bufs) option" where
  "slot_ns_granule_map ar cpu slot g b = do {
     addr \<leftarrow> granule_addr g;
     assert_c (is_ns_slot slot);
     slot_map_internal ar cpu slot addr True b
   }"

definition slot_buffer_unmap :: "nat \<Rightarrow> u64 \<Rightarrow> slot_bufs \<Rightarrow> slot_bufs" where
  "slot_buffer_unmap cpu buf b = slot_unmap_internal cpu buf b"

end
