(* ===== verification/Rec_Run.thy ===== *)
theory Rec_Run
  imports Realm_Exit Walk_Correct Slot_Xlat
begin

text \<open>
  The run of a REC (runtime/core/run.c): the state of the host is saved, that of the realm
  loaded, the realm runs until an exit has to be reported, and everything is swapped back.
  The association of the REC's heap with the CPU is that of
  lib/attestation/src/attestation_utils.c and lib/allocator/src/memory_alloc.c.
\<close>

section \<open>Auxiliary granules and heap\<close>

text \<open>The pointer to the heap is the address that the first auxiliary granule is mapped at.\<close>

definition init_aux_data :: "u64 \<Rightarrow> nat \<Rightarrow> rec \<Rightarrow> rec option" where
  "init_aux_data rec_aux num_rec_aux rec = do {
     assert_c (REC_HEAP_PAGES \<le> num_rec_aux);
     Some (rec\<lparr>rec_attest_heap_buf := rec_aux\<rparr>)
   }"

fun map_aux_pages :: "nat list \<Rightarrow> nat \<Rightarrow> rmm \<Rightarrow> rmm option" where
  "map_aux_pages [] i s = Some s"
| "map_aux_pages (aux # rec_aux_pages) i s = do {
     s \<leftarrow> granule_map aux (SLOT_REC_AUX0 + i) s;
     map_aux_pages rec_aux_pages (i + 1) s
   }"

definition map_rec_aux :: "nat list \<Rightarrow> rmm \<Rightarrow> (u64 \<times> rmm) option" where
  "map_rec_aux rec_aux_pages s = do {
     s \<leftarrow> map_aux_pages rec_aux_pages 0 s;
     rec_aux \<leftarrow> (if rec_aux_pages = [] then Some 0 else slot_to_va SLOT_REC_AUX0);
     Some (rec_aux, s)
   }"

definition unmap_rec_aux :: "nat \<Rightarrow> rmm \<Rightarrow> rmm" where
  "unmap_rec_aux num_aux s = fold (\<lambda>i. buffer_unmap (SLOT_REC_AUX0 + i)) [0..<num_aux] s"

definition buffer_alloc_ctx_assign :: "pe \<Rightarrow> pe" where
  "buffer_alloc_ctx_assign p = (if heap_ctx p then p else p\<lparr>heap_ctx := True\<rparr>)"

definition buffer_alloc_ctx_unassign :: "pe \<Rightarrow> pe option" where
  "buffer_alloc_ctx_unassign p = do { assert_c (heap_ctx p); Some (p\<lparr>heap_ctx := False\<rparr>) }"

definition attestation_heap_ctx_assign_pe :: "platform \<Rightarrow> pe \<Rightarrow> pe" where
  "attestation_heap_ctx_assign_pe P p =
     (if \<not> pl_attest_initialized P then p else buffer_alloc_ctx_assign p)"

definition attestation_rec_heap_init :: "platform \<Rightarrow> bool \<Rightarrow> rec \<Rightarrow> rmm \<Rightarrow> (rec \<times> rmm) option" where
  "attestation_rec_heap_init P assigned rec s = do {
     assert_c (rec_attest_heap_buf rec \<noteq> 0);
     if \<not> pl_attest_initialized P then Some (rec, s)
     else rec_heap_init (pl_lib P) assigned rec s
   }"

definition attestation_heap_ctx_unassign_pe :: "platform \<Rightarrow> pe \<Rightarrow> pe option" where
  "attestation_heap_ctx_unassign_pe P p =
     (if \<not> pl_attest_initialized P then Some p else buffer_alloc_ctx_unassign p)"

section \<open>Save and restore\<close>

definition save_realm_state :: "gic_virt_feature_s \<Rightarrow> rec \<Rightarrow> pe \<Rightarrow> rec \<times> pe" where
  "save_realm_state gf rec p =
     (let sr = save_sysreg_state p (rec_sysregs rec);
          (gs, p) = gic_save_state gf p (gicstate sr)
      in (rec\<lparr>rec_sysregs := sr\<lparr>gicstate := gs\<rparr>, rec_pc := hw_elr_el2 p,
              rec_pstate := hw_spsr_el2 p\<rparr>, p))"

definition restore_realm_state :: "gic_virt_feature_s \<Rightarrow> rec \<Rightarrow> pe \<Rightarrow> pe" where
  "restore_realm_state gf rec p =
     (let sr = rec_sysregs rec;
          p = on_hw (\<lambda>r. r\<lparr>cnthctl_el2 := cnthctl_el2 sr\<rparr>) p;
          p = restore_sysreg_state sr p;
          p = p\<lparr>hw_elr_el2 := rec_pc rec, hw_spsr_el2 := rec_pstate rec\<rparr>;
          p = on_hw (\<lambda>r. r\<lparr>run_hcr_el2 := run_hcr_el2 sr\<rparr>) p
      in gic_restore_state gf (gicstate sr) p)"

definition configure_realm_stage2 :: "rec \<Rightarrow> pe \<Rightarrow> pe" where
  "configure_realm_stage2 rec p =
     p\<lparr>hw_vtcr_el2 := vtcr_el2 (rec_common_sysregs rec),
       hw_vttbr_el2 := vttbr_el2 (rec_common_sysregs rec)\<rparr>"

definition save_ns_state :: "pe \<Rightarrow> pe" where
  "save_ns_state p =
     (let sr = save_sysreg_state p (ns_sysregs (ns_data p))
      in p\<lparr>ns_data := (ns_data p)\<lparr>ns_sysregs := sr\<lparr>cnthctl_el2 := cnthctl_el2 (hw p)\<rparr>,
                                  ns_icc_sre_el2 := hw_icc_sre_el2 p\<rparr>\<rparr>)"

definition restore_ns_state :: "pe \<Rightarrow> pe" where
  "restore_ns_state p =
     (let ns = ns_data p;
          p = restore_sysreg_state (ns_sysregs ns) p;
          p = on_hw (\<lambda>r. r\<lparr>cnthctl_el2 := cnthctl_el2 (ns_sysregs ns)\<rparr>) p
      in p\<lparr>hw_icc_sre_el2 := ns_icc_sre_el2 ns\<rparr>)"

section \<open>The realm\<close>

text \<open>
  What a run of the realm leaves behind, up to its next exception, is a parameter: the
  exception, its syndrome, the registers the realm can change and the pages it has
  written.  \<open>run_realm\<close> lets through what the hardware lets through: the realm does not
  change the registers of EL2, it changes the SIMD registers only while CPTR_EL2 does not
  trap them, and it writes the pages that its stage 2 tables map.  A write to memory that
  is shared with the host concerns no state of the monitor.
\<close>

record realm_run =
  run_code :: int
  run_regs :: "u64 list"
  run_sysregs :: sysreg_state
  run_elr :: u64
  run_spsr :: u64
  run_esr :: u64
  run_far :: u64
  run_hpfar :: u64
  run_simd :: simd_regs
  run_isr :: "u64 list"
  run_hppir :: "u64 list"
  run_pages :: "(u64 \<times> u8 list) list"

definition simd_trapped :: "pe \<Rightarrow> bool" where
  "simd_trapped p \<longleftrightarrow> hw_cptr_el2 p AND push_bit 20 3 \<noteq> push_bit 20 3"

definition hw_page :: "(nat \<Rightarrow> content) \<Rightarrow> realm_info \<Rightarrow> u64 \<Rightarrow> nat option" where
  "hw_page C ri ipa =
     (let c = \<lparr>s2_ipa_bits = ri_ipa_bits ri, s2_starting_level = ri_s2_starting_level ri,
               s2_root_rtts = 0, s2_g_rtt = ri_g_rtt ri, s2_vmid = 0\<rparr>;
          (g, l) = pt_find C c ipa 3
      in do {
           t \<leftarrow> table_of (C g);
           let e = t ! unat (s2_addr_to_idx ipa 3);
           if ipa < push_bit (ri_ipa_bits ri) 1 \<and> l = 3 \<and> s2tte_is_valid e 3
           then find_granule (addr_level_mask e 3) else None
         })"

definition realm_write :: "realm_info \<Rightarrow> u64 \<times> u8 list \<Rightarrow> rmm \<Rightarrow> rmm" where
  "realm_write ri w s =
     (case hw_page (content s) ri (fst w) of
        None \<Rightarrow> s | Some g \<Rightarrow> set_content g (CData (snd w)) s)"

definition run_realm :: "realm_run \<Rightarrow> run_state \<Rightarrow> run_state" where
  "run_realm x r =
     (let p = rs_pe r; h = hw p; n = run_sysregs x;
          gs = (gicstate n)\<lparr>ich_hcr_el2 := ich_hcr_el2 (gicstate h)\<rparr>;
          h' = n\<lparr>cnthctl_el2 := cnthctl_el2 h, cntvoff_el2 := cntvoff_el2 h,
                 cntpoff_el2 := cntpoff_el2 h, gicstate := gs, vmpidr_el2 := vmpidr_el2 h,
                 run_hcr_el2 := run_hcr_el2 h\<rparr>;
          p' = p\<lparr>hw := h', hw_elr_el2 := run_elr x, hw_spsr_el2 := run_spsr x,
                 hw_esr_el2 := run_esr x, hw_far_el2 := run_far x, hw_hpfar_el2 := run_hpfar x,
                 hw_simd := (if simd_trapped p then hw_simd p else run_simd x),
                 isr_reads := run_isr x, hppir_reads := run_hppir x\<rparr>
      in r\<lparr>rs_rec := (rs_rec r)\<lparr>rec_regs := take 31 (run_regs x @ replicate 31 0)\<rparr>,
           rs_pe := p',
           rs_mem := fold (realm_write (rec_realm_info (rs_rec r))) (run_pages x) (rs_mem r)\<rparr>)"

section \<open>The loop\<close>

text \<open>The list of runs bounds the loop: it does not return if the realm never exits for good.\<close>

fun run_loop :: "platform \<Rightarrow> realm_run list \<Rightarrow> run_state \<Rightarrow> run_state option" where
  "run_loop P runs r = do {
     (pending, rec, p) \<leftarrow> check_pending_timers (rs_rec r) (rs_pe r);
     let r = r\<lparr>rs_rec := rec, rs_pe := p\<rparr>;
     if pending then Some (r\<lparr>rs_exit := (rs_exit r)\<lparr>exit_reason := RMI_EXIT_IRQ\<rparr>\<rparr>)
     else
       (case runs of
          [] \<Rightarrow> None
        | x # runs \<Rightarrow> do {
            let (rec, p) = activate_events (rs_rec r) (rs_pe r);
            let r = run_realm x (r\<lparr>rs_rec := rec, rs_pe := p\<rparr>);
            (again, r) \<leftarrow> handle_realm_exit P (run_code x) r;
            if again then run_loop P runs r else Some r
          })
   }"

declare run_loop.simps [simp del]

text \<open>The SIMD registers of the host come back if the realm has used them.\<close>

definition restore_ns_simd :: "run_state \<Rightarrow> run_state option" where
  "restore_ns_simd r =
     (if rec_fpu_used (rs_rec r) then do {
        let p = cptr_field 16 3 (rs_pe r);
        let rec = (rs_rec r)\<lparr>rec_fpu := fpu_save_state p\<rparr>;
        p \<leftarrow> (if ns_sve (ns_data p) then Some (restore_sve_state (sve_data p) p)
              else do {
                assert_c (ns_fpu (ns_data p));
                Some (fpu_restore_state (fpu_data p) p)
              });
        let p = cptr_field 16 0 (cptr_field 20 0 p);
        Some (r\<lparr>rs_rec := rec\<lparr>rec_fpu_used := False\<rparr>, rs_pe := p\<rparr>)
      } else Some r)"

definition enter_realm :: "platform \<Rightarrow> run_state \<Rightarrow> run_state option" where
  "enter_realm P r = do {
     assert_c (\<not> rec_ns (rs_rec r));
     assert_c (\<not> ns_sve (ns_data (rs_pe r)));
     assert_c (\<not> ns_fpu (ns_data (rs_pe r)));
     let rec = rs_rec r;
     (rec_aux, s) \<leftarrow> map_rec_aux (take (rec_num_rec_aux rec) (rec_g_aux rec)) (rs_mem r);
     rec \<leftarrow> init_aux_data rec_aux (rec_num_rec_aux rec) rec;
     let p = attestation_heap_ctx_assign_pe P (rs_pe r);
     (rec, s) \<leftarrow>
       (if \<not> rec_ctx_initialised rec then do {
          (rec, s) \<leftarrow> attestation_rec_heap_init P (heap_ctx p) rec s;
          Some (rec\<lparr>rec_ctx_initialised := True\<rparr>, s)
        } else Some (rec, s));
     let p = (if is_feat_sve_present (pl_ids P) then p\<lparr>ns_data := (ns_data p)\<lparr>ns_sve := True\<rparr>\<rparr>
              else p\<lparr>ns_data := (ns_data p)\<lparr>ns_fpu := True\<rparr>\<rparr>);
     let p = restore_realm_state (pl_gic P) rec (save_ns_state p);
     let rec = rec\<lparr>rec_ns := True\<rparr>;
     assert_c (\<not> rec_fpu_used rec);
     Some (r\<lparr>rs_rec := rec, rs_pe := configure_realm_stage2 rec p, rs_mem := s\<rparr>)
   }"

definition leave_realm :: "platform \<Rightarrow> run_state \<Rightarrow> run_state option" where
  "leave_realm P r = do {
     r \<leftarrow> restore_ns_simd r;
     let p = (rs_pe r)\<lparr>ns_data := (ns_data (rs_pe r))\<lparr>ns_sve := False, ns_fpu := False\<rparr>\<rparr>;
     let rec = (rs_rec r)\<lparr>rec_ns := False\<rparr>;
     let e = report_timer_state_to_ns p (rs_exit r);
     let (rec, p) = save_realm_state (pl_gic P) rec p;
     let p = restore_ns_state p;
     p \<leftarrow> attestation_heap_ctx_unassign_pe P p;
     Some (r\<lparr>rs_rec := rec, rs_exit := e, rs_pe := p,
            rs_mem := unmap_rec_aux (rec_num_rec_aux rec) (rs_mem r)\<rparr>)
   }"

definition rec_run_loop :: "platform \<Rightarrow> realm_run list \<Rightarrow> run_state \<Rightarrow> run_state option" where
  "rec_run_loop P runs r = do {
     r \<leftarrow> enter_realm P r;
     r \<leftarrow> run_loop P runs r;
     leave_realm P r
   }"

end
