(* ===== verification/Rec_Enter.thy ===== *)
theory Rec_Enter
  imports Rec_Run
begin

text \<open>
  RMI_REC_ENTER (runtime/rmi/run.c): the checks before a REC runs, the completion of the
  exit that the host has handled, the run and the report to the host.  A REC is kept in a
  variable while the command runs and written to its granule when it is unmapped.
\<close>

section \<open>Completion of the last exit\<close>

definition reset_last_run_info :: "rec \<Rightarrow> rec" where
  "reset_last_run_info rec = rec\<lparr>rec_last_run := (rec_last_run rec)\<lparr>lr_esr := 0\<rparr>\<rparr>"

text \<open>Sign extension of a value of \<open>len\<close> bytes; a 32-bit register keeps the low half.\<close>

definition sign_extend :: "u32 \<Rightarrow> bool \<Rightarrow> u64 \<Rightarrow> u64" where
  "sign_extend len sixty_four val =
     (let bit_count = unat (len * 8);
          m = push_bit (bit_count - 1) 1;
          val = (val XOR m) - m
      in if \<not> sixty_four then val AND (push_bit 32 1 - 1) else val)"

definition complete_mmio_emulation :: "rec \<Rightarrow> rmi_rec_entry \<Rightarrow> (bool \<times> rec) option" where
  "complete_mmio_emulation rec rec_entry =
     (let esr = lr_esr (rec_last_run rec);
          rt = unat (esr_srt esr)
      in if entry_flags rec_entry AND REC_ENTRY_FLAG_EMUL_MMIO = 0 then Some (True, rec)
         else if esr AND ESR_EL2_EC_MASK \<noteq> ESR_EL2_EC_DATA_ABORT
                 \<or> esr AND ESR_EL2_ABORT_ISV_BIT = 0
         then Some (False, rec)
         else do {
           rec \<leftarrow>
             (if \<not> esr_is_write esr \<and> rt \<noteq> 31 then do {
                m \<leftarrow> access_mask esr;
                let val = entry_gprs rec_entry ! 0 AND m;
                val \<leftarrow> (if esr_sign_extend esr
                        then do { len \<leftarrow> access_len esr;
                                  Some (sign_extend len (esr_sixty_four esr) val) }
                        else Some val);
                Some (rec\<lparr>rec_regs := (rec_regs rec)[rt := val]\<rparr>)
              } else Some rec);
           Some (True, rec\<lparr>rec_pc := rec_pc rec + 4\<rparr>)
         })"

definition complete_set_ripas :: "rec \<Rightarrow> rec" where
  "complete_set_ripas rec =
     (let sr = rec_set_ripas rec
      in if sr_start sr \<noteq> sr_end sr
         then rec\<lparr>rec_regs := (rec_regs rec)[0 := RSI_SUCCESS, 1 := sr_addr sr],
                  rec_set_ripas := sr\<lparr>sr_start := 0, sr_end := 0\<rparr>\<rparr>
         else rec)"

definition complete_sea_insertion :: "rec \<Rightarrow> rmi_rec_entry \<Rightarrow> (bool \<times> rec) option" where
  "complete_sea_insertion rec rec_entry =
     (let esr = lr_esr (rec_last_run rec);
          hpfar = lr_hpfar (rec_last_run rec)
      in if entry_flags rec_entry AND REC_ENTRY_FLAG_INJECT_SEA = 0 then Some (True, rec)
         else if esr AND ESR_EL2_EC_MASK \<noteq> ESR_EL2_EC_DATA_ABORT then Some (False, rec)
         else let fipa = push_bit HPFAR_EL2_FIPA_OFFSET (hpfar AND HPFAR_EL2_FIPA_MASK)
              in if addr_in_rec_par rec fipa then Some (False, rec)
                 else do {
                   rec \<leftarrow> inject_sync_idabort_rec rec ESR_EL2_ABORT_FSC_SEA;
                   Some (True, rec)
                 })"

definition complete_sysreg_emulation :: "rec \<Rightarrow> rmi_rec_entry \<Rightarrow> rec" where
  "complete_sysreg_emulation rec rec_entry =
     (let esr = lr_esr (rec_last_run rec);
          rt = unat (esr_sysreg_rt esr)
      in if esr AND ESR_EL2_EC_MASK \<noteq> ESR_EL2_EC_SYSREG then rec
         else if ESR_EL2_SYSREG_IS_WRITE esr then rec
         else if rt \<noteq> 31
         then rec\<lparr>rec_regs := (rec_regs rec)[rt := entry_gprs rec_entry ! 0]\<rparr>
         else rec)"

definition complete_hvc_exit :: "rec \<Rightarrow> rmi_rec_entry \<Rightarrow> rec" where
  "complete_hvc_exit rec rec_entry =
     (let esr = lr_esr (rec_last_run rec)
      in if esr AND ESR_EL2_EC_MASK \<noteq> ESR_EL2_EC_HVC then rec
         else rec\<lparr>rec_regs := take REC_EXIT_NR_GPRS (entry_gprs rec_entry)
                                @ drop REC_EXIT_NR_GPRS (rec_regs rec)\<rparr>)"

definition complete_host_call ::
  "platform \<Rightarrow> rec \<Rightarrow> rmi_rec_entry \<Rightarrow> rmi_rec_exit \<Rightarrow> rmm
     \<Rightarrow> ((bool \<times> rec \<times> rmi_rec_exit) \<times> rmm) option" where
  "complete_host_call P rec rec_entry rec_exit s =
     (if \<not> rec_host_call rec then Some ((True, rec, rec_exit), s)
      else do {
        (walk_result, s) \<leftarrow> complete_rsi_host_call (pl_walk P) rec rec_entry s;
        if walk_abort walk_result then do {
          e \<leftarrow> emulate_stage2_data_abort rec (walk_rtt_level walk_result) rec_exit;
          Some ((False, rec, e), s)
        } else Some ((True, rec\<lparr>rec_host_call := False\<rparr>, rec_exit), s)
      })"

section \<open>The command\<close>

text \<open>The trap bits of HCR_EL2 that the host may choose for this run.\<close>

definition entry_hcr :: "rec \<Rightarrow> rmi_rec_entry \<Rightarrow> rec" where
  "entry_hcr rec rec_entry =
     (let hcr = hcr_el2 (rec_common_sysregs rec);
          hcr = (if entry_flags rec_entry AND REC_ENTRY_FLAG_TRAP_WFI \<noteq> 0
                 then hcr OR HCR_TWI else hcr);
          hcr = (if entry_flags rec_entry AND REC_ENTRY_FLAG_TRAP_WFE \<noteq> 0
                 then hcr OR HCR_TWE else hcr)
      in rec\<lparr>rec_sysregs := (rec_sysregs rec)\<lparr>run_hcr_el2 := hcr\<rparr>\<rparr>)"

text \<open>
  The checks on the realm's state and the REC: \<open>Some ret\<close> is the status of a refusal.  A
  state of the realm that is none of the three is a failed assertion.
\<close>

definition rec_not_runnable :: "u64 \<Rightarrow> rec \<Rightarrow> u64 option option" where
  "rec_not_runnable realm_state rec =
     (if realm_state = REALM_STATE_NEW
      then do { c \<leftarrow> pack_return_code (ucast RMI_ERROR_REALM) 0; Some (Some c) }
      else if realm_state = REALM_STATE_ACTIVE
      then Some (if \<not> rec_runnable rec then Some RMI_ERROR_REC
                 else if rec_psci_pending rec then Some RMI_ERROR_REC
                 else None)
      else if realm_state = REALM_STATE_SYSTEM_OFF
      then do { c \<leftarrow> pack_return_code (ucast RMI_ERROR_REALM) 1; Some (Some c) }
      else None)"

text \<open>
  From the check of the interrupt controller on; the REC may have been changed when the
  entry is refused.
\<close>

definition rec_enter_run ::
  "platform \<Rightarrow> realm_run list \<Rightarrow> rmi_rec_entry \<Rightarrow> run_state \<Rightarrow> (u64 \<times> run_state) option" where
  "rec_enter_run P runs rec_entry r = do {
     let rec = rs_rec r;
     let gs = gic_copy_state_from_ns (pl_gic P) rec_entry (gicstate (rec_sysregs rec));
     let rec = rec\<lparr>rec_sysregs := (rec_sysregs rec)\<lparr>gicstate := gs\<rparr>\<rparr>;
     if \<not> gic_validate_state (pl_gic P) gs then Some (RMI_ERROR_REC, r\<lparr>rs_rec := rec\<rparr>)
     else do {
       (ok, rec) \<leftarrow> complete_mmio_emulation rec rec_entry;
       if \<not> ok then Some (RMI_ERROR_REC, r\<lparr>rs_rec := rec\<rparr>)
       else do {
         (ok, rec) \<leftarrow> complete_sea_insertion rec rec_entry;
         if \<not> ok then Some (RMI_ERROR_REC, r\<lparr>rs_rec := rec\<rparr>)
         else do {
           let rec = complete_set_ripas rec;
           let rec = complete_sysreg_emulation rec rec_entry;
           let rec = complete_hvc_exit rec rec_entry;
           ((ok, rec, e), s) \<leftarrow> complete_host_call P rec rec_entry (rs_exit r) (rs_mem r);
           let r = r\<lparr>rs_rec := rec, rs_exit := e, rs_mem := s\<rparr>;
           if \<not> ok then Some (RMI_SUCCESS, r)
           else do {
             let rec = entry_hcr (reset_last_run_info rec) rec_entry;
             r \<leftarrow> rec_run_loop P runs (r\<lparr>rs_rec := rec\<rparr>);
             Some (RMI_SUCCESS, r\<lparr>rs_exit :=
               gic_copy_state_to_ns (pl_gic P) (gicstate (rec_sysregs (rs_rec r))) (rs_exit r)\<rparr>)
           }
         }
       }
     }
   }"

text \<open>
  \<open>mem\<close> is the entry record that the guarded read of the host's page delivers, \<open>ok\<close> whether
  the guarded write of the exit record succeeds.  The exit record is part of the result if
  the host gets it.
\<close>

definition smc_rec_enter ::
  "platform \<Rightarrow> rmi_rec_entry option \<Rightarrow> bool \<Rightarrow> realm_run list \<Rightarrow> u64 \<Rightarrow> u64 \<Rightarrow> pe \<Rightarrow> rmm
     \<Rightarrow> ((u64 \<times> rmi_rec_exit option) \<times> pe \<times> rmm) option" where
  "smc_rec_enter P mem ok runs rec_addr rec_run_addr p s =
     (case find_granule rec_run_addr of
        None \<Rightarrow> Some ((RMI_ERROR_INPUT, None), p, s)
      | Some g_run \<Rightarrow>
          if g_state (granules s g_run) \<noteq> GRANULE_STATE_NS
          then Some ((RMI_ERROR_INPUT, None), p, s)
          else do {
            (r, s) \<leftarrow> find_lock_unused_granule rec_addr GRANULE_STATE_REC s;
            (case r of
               Inl ret \<Rightarrow> Some ((ret, None), p, s)
             | Inr g_rec \<Rightarrow> do {
                 let s = atomic_granule_get g_rec s;
                 s \<leftarrow> granule_unlock g_rec s;
                 (entry, s) \<leftarrow> ns_buffer_read SLOT_NS g_run 0 0x800 mem s;
                 (case entry of
                    None \<Rightarrow> do {
                      s \<leftarrow> atomic_granule_put_release g_rec s;
                      Some ((RMI_ERROR_INPUT, None), p, s)
                    }
                  | Some rec_entry \<Rightarrow> do {
                      s \<leftarrow> granule_map g_rec SLOT_REC s;
                      rec \<leftarrow> rec_of (content s g_rec);
                      let g_rd = ri_g_rd (rec_realm_info rec);
                      s \<leftarrow> granule_map g_rd SLOT_RD s;
                      rd \<leftarrow> rd_of (content s g_rd);
                      let realm_state = rd_state rd;
                      let s = buffer_unmap SLOT_RD s;
                      let r = \<lparr>rs_rec = rec, rs_exit = zero_exit, rs_pe = p, rs_mem = s\<rparr>;
                      refused \<leftarrow> rec_not_runnable realm_state rec;
                      (ret, r) \<leftarrow> (case refused of
                                    Some ret \<Rightarrow> Some (ret, r)
                                  | None \<Rightarrow> rec_enter_run P runs rec_entry r);
                      let s = set_content g_rec (CRec (rs_rec r)) (rs_mem r);
                      let s = buffer_unmap SLOT_REC s;
                      (ret, written, s) \<leftarrow>
                        (if ret = RMI_SUCCESS then do {
                           (done_ok, s) \<leftarrow> ns_buffer_write SLOT_NS g_run 0x800 0x800 ok s;
                           Some (if \<not> done_ok then (RMI_ERROR_INPUT, None, s)
                                 else (ret, Some (rs_exit r), s))
                         } else Some (ret, None, s));
                      s \<leftarrow> atomic_granule_put_release g_rec s;
                      Some ((ret, written), rs_pe r, s)
                    })
               })
          })"

end
