(* ===== verification/Smc_Dispatch.thy ===== *)
theory Smc_Dispatch
  imports Rec_Enter Realm_Cmds Data_Cmds Ripas_Cmds Status_Codes
begin

text \<open>
  The dispatch of the host's calls (runtime/core/handler.c, runtime/core/aarch64/entry.S and
  runtime/rmi/system.c), the log line it prints, and the recovery from granule protection
  faults on accesses to non-secure memory.
\<close>

section \<open>The machine\<close>

text \<open>
  The monitor's memory with the registers of the processing element, the exit record that
  the host has received last, and the console.  What the environment delivers during one
  call is collected in \<open>host_env\<close>: the identification registers, the contents of the
  structures in non-secure memory, and the runs of the realm.
\<close>

datatype log_item = LText string | LHex u64

record machine =
  m_pe :: pe
  m_mem :: rmm
  m_exit :: "rmi_rec_exit option"
  m_log :: "log_item list"

record host_env =
  he_arch :: arch_regs
  he_platform :: platform
  he_realm_params :: "rmi_realm_params option"
  he_rec_params :: "rmi_rec_params option"
  he_data :: "u8 list option"
  he_entry :: "rmi_rec_entry option"
  he_exit_ok :: bool
  he_runs :: "realm_run list"

section \<open>The table of handlers\<close>

datatype rmi_fn =
    rmi_type_0 "machine \<Rightarrow> (u64 \<times> machine) option"
  | rmi_type_1 "u64 \<Rightarrow> machine \<Rightarrow> (u64 \<times> machine) option"
  | rmi_type_2 "u64 \<Rightarrow> u64 \<Rightarrow> machine \<Rightarrow> (u64 \<times> machine) option"
  | rmi_type_3 "u64 \<Rightarrow> u64 \<Rightarrow> u64 \<Rightarrow> machine \<Rightarrow> (u64 \<times> machine) option"
  | rmi_type_4 "u64 \<Rightarrow> u64 \<Rightarrow> u64 \<Rightarrow> u64 \<Rightarrow> machine \<Rightarrow> (u64 \<times> machine) option"
  | rmi_type_5 "u64 \<Rightarrow> u64 \<Rightarrow> u64 \<Rightarrow> u64 \<Rightarrow> u64 \<Rightarrow> machine \<Rightarrow> (u64 \<times> machine) option"
  | rmi_type_1_o "u64 \<Rightarrow> u64 list \<Rightarrow> machine \<Rightarrow> (u64 list \<times> machine) option"
  | rmi_type_3_o "u64 \<Rightarrow> u64 \<Rightarrow> u64 \<Rightarrow> u64 list \<Rightarrow> machine \<Rightarrow> (u64 list \<times> machine) option"

record smc_handler =
  fn_name :: string
  fn :: rmi_fn
  log_exec :: bool
  log_error :: bool
  out_values :: nat

definition RMI_ABI_VERSION :: u64 where [word_consts]: "RMI_ABI_VERSION = push_bit 16 56"

definition smc_version :: u64 where "smc_version = RMI_ABI_VERSION"

text \<open>A command that works on the monitor's memory, as one on the machine.\<close>

definition on_mem :: "(rmm \<Rightarrow> ('a \<times> rmm) option) \<Rightarrow> machine \<Rightarrow> ('a \<times> machine) option" where
  "on_mem f m = do { (x, s) \<leftarrow> f (m_mem m); Some (x, m\<lparr>m_mem := s\<rparr>) }"

definition rec_enter_handler :: "host_env \<Rightarrow> u64 \<Rightarrow> u64 \<Rightarrow> machine \<Rightarrow> (u64 \<times> machine) option" where
  "rec_enter_handler E rec_addr rec_run_addr m = do {
     ((ret, e), p, s) \<leftarrow> smc_rec_enter (he_platform E) (he_entry E) (he_exit_ok E) (he_runs E)
                          rec_addr rec_run_addr (m_pe m) (m_mem m);
     Some (ret, m\<lparr>m_pe := p, m_mem := s, m_exit := (if e = None then m_exit m else e)\<rparr>)
   }"

text \<open>The entries that the C array leaves out are zero: no handler.\<close>

definition smc_handlers :: "host_env \<Rightarrow> smc_handler option list" where
  "smc_handlers E =
     (let ar = he_arch E; mc = pl_mc (he_platform E); hash = pl_hash (he_platform E);
          H = (\<lambda>nm f ex er n. Some \<lparr>fn_name = nm, fn = f, log_exec = ex, log_error = er,
                                    out_values = n\<rparr>)
      in [H ''SMC_RMM_VERSION'' (rmi_type_0 (\<lambda>m. Some (smc_version, m))) True True 0,
          H ''SMC_RMM_GRANULE_DELEGATE''
            (rmi_type_1 (\<lambda>a. on_mem (smc_granule_delegate mc a))) False True 0,
          H ''SMC_RMM_GRANULE_UNDELEGATE''
            (rmi_type_1 (\<lambda>a. on_mem (smc_granule_undelegate mc a))) False True 0,
          H ''SMC_RMM_DATA_CREATE''
            (rmi_type_5 (\<lambda>a b c d e. on_mem (smc_data_create mc hash a b c d e (he_data E)))) False False 0,
          H ''SMC_RMM_DATA_CREATE_UNKNOWN''
            (rmi_type_3 (\<lambda>a b c. on_mem (smc_data_create_unknown mc hash a b c))) False False 0,
          H ''SMC_RMM_DATA_DESTROY''
            (rmi_type_2 (\<lambda>a b. on_mem (smc_data_destroy a b))) False True 0,
          None,
          H ''SMC_RMM_REALM_ACTIVATE''
            (rmi_type_1 (\<lambda>a. on_mem (smc_realm_activate a))) True True 0,
          H ''SMC_RMM_REALM_CREATE''
            (rmi_type_2 (\<lambda>a b. on_mem (smc_realm_create ar hash a b (he_realm_params E)))) True True 0,
          H ''SMC_RMM_REALM_DESTROY''
            (rmi_type_1 (\<lambda>a. on_mem (smc_realm_destroy ar a))) True True 0,
          H ''SMC_RMM_REC_CREATE''
            (rmi_type_3 (\<lambda>a b c. on_mem (smc_rec_create ar hash a b c (he_rec_params E)))) True True 0,
          H ''SMC_RMM_REC_DESTROY''
            (rmi_type_1 (\<lambda>a. on_mem (smc_rec_destroy a))) True True 0,
          H ''SMC_RMM_REC_ENTER'' (rmi_type_2 (rec_enter_handler E)) False True 0,
          H ''SMC_RMM_RTT_CREATE''
            (rmi_type_4 (\<lambda>a b c d. on_mem (smc_rtt_create a b c d))) False True 0,
          H ''SMC_RMM_RTT_DESTROY''
            (rmi_type_4 (\<lambda>a b c d. on_mem (smc_rtt_destroy a b c d))) False True 0,
          H ''SMC_RMM_RTT_MAP_UNPROTECTED''
            (rmi_type_4 (\<lambda>a b c d. on_mem (smc_rtt_map_unprotected a b c d))) False False 0,
          None,
          H ''SMC_RMM_RTT_READ_ENTRY''
            (rmi_type_3_o (\<lambda>a b c ret. on_mem (smc_rtt_read_entry a b c ret))) False True 4,
          H ''SMC_RMM_RTT_UNMAP_UNPROTECTED''
            (rmi_type_3 (\<lambda>a b c. on_mem (smc_rtt_unmap_unprotected a b c))) False False 0,
          None,
          H ''SMC_RMM_PSCI_COMPLETE''
            (rmi_type_2 (\<lambda>a b. on_mem (smc_psci_complete a b))) True True 0,
          H ''SMC_RMM_FEATURES''
            (rmi_type_1_o (\<lambda>a ret m. do { ret \<leftarrow> smc_read_feature_register ar a ret; Some (ret, m) }))
            True True 1,
          H ''SMC_RMM_RTT_FOLD''
            (rmi_type_4 (\<lambda>a b c d. on_mem (smc_rtt_fold a b c d))) False True 0,
          H ''SMC_RMM_REC_AUX_COUNT''
            (rmi_type_1_o (\<lambda>a ret. on_mem (smc_rec_aux_count a ret))) True True 1,
          H ''SMC_RMM_RTT_INIT_RIPAS''
            (rmi_type_3 (\<lambda>a b c. on_mem (smc_rtt_init_ripas hash a b c))) False True 0,
          H ''SMC_RMM_RTT_SET_RIPAS''
            (rmi_type_5 (\<lambda>a b c d e. on_mem (smc_rtt_set_ripas a b c d e))) False True 0])"

section \<open>The log line\<close>

definition status_handler :: "string list" where
  "status_handler = [''RMI_SUCCESS'', ''RMI_ERROR_INPUT'', ''RMI_ERROR_REALM'', ''RMI_ERROR_REC'',
     ''RMI_ERROR_RTT'', ''RMI_ERROR_IN_USE'']"

definition SMC64_RMI_FID :: "u64 \<Rightarrow> u64" where
  "SMC64_RMI_FID offset = 0xC4000000 OR (SMC64_RMI_FNUM_MIN + offset)"

definition rmi_log_on_exit :: "smc_handler \<Rightarrow> u64 \<Rightarrow> u64 list \<Rightarrow> u64 list \<Rightarrow> log_item list" where
  "rmi_log_on_exit handler handler_id args ret =
     (let function_id = SMC64_RMI_FID handler_id;
          call = LText (fn_name handler) # map LHex args
      in if \<not> log_exec handler \<and> \<not> log_error handler then []
         else if function_id = SMC64_RMI_FID 0 then call @ [LHex (ret ! 0)]
         else
           let rc = unpack_return_code (ret ! 0)
           in if log_exec handler \<or> log_error handler \<and> rc_status rc \<noteq> ucast RMI_SUCCESS
              then call
                @ (if unat (rc_status rc) \<ge> length status_handler then [LHex (ret ! 0)]
                   else [LText (status_handler ! unat (rc_status rc))])
                @ (if function_id = SMC64_RMI_FID 0xC \<and> rc_status rc = ucast RMI_ERROR_REALM
                      \<or> rc_status rc = ucast RMI_ERROR_RTT
                   then [LHex (ucast (rc_index rc))] else [])
                @ map (\<lambda>i. LHex (ret ! i)) [1..<out_values handler + 1]
              else [])"

section \<open>Dispatch\<close>

definition SMC_RMI_HANDLER_ID :: "u64 \<Rightarrow> u64" where
  "SMC_RMI_HANDLER_ID fid = SMC_FNUM fid - SMC64_RMI_FNUM_MIN"

definition find_handler :: "host_env \<Rightarrow> u64 \<Rightarrow> smc_handler option" where
  "find_handler E function_id =
     (if IS_SMC64_RMI_FID function_id
      then let handler_id = unat (SMC_RMI_HANDLER_ID function_id)
           in if handler_id < length (smc_handlers E) then smc_handlers E ! handler_id else None
      else None)"

fun call_handler :: "rmi_fn \<Rightarrow> u64 list \<Rightarrow> u64 list \<Rightarrow> machine \<Rightarrow> (u64 list \<times> machine) option" where
  "call_handler (rmi_type_0 f) a ret m = do { (x, m) \<leftarrow> f m; Some (ret[0 := x], m) }"
| "call_handler (rmi_type_1 f) a ret m = do { (x, m) \<leftarrow> f (a ! 0) m; Some (ret[0 := x], m) }"
| "call_handler (rmi_type_2 f) a ret m = do { (x, m) \<leftarrow> f (a ! 0) (a ! 1) m; Some (ret[0 := x], m) }"
| "call_handler (rmi_type_3 f) a ret m =
     do { (x, m) \<leftarrow> f (a ! 0) (a ! 1) (a ! 2) m; Some (ret[0 := x], m) }"
| "call_handler (rmi_type_4 f) a ret m =
     do { (x, m) \<leftarrow> f (a ! 0) (a ! 1) (a ! 2) (a ! 3) m; Some (ret[0 := x], m) }"
| "call_handler (rmi_type_5 f) a ret m =
     do { (x, m) \<leftarrow> f (a ! 0) (a ! 1) (a ! 2) (a ! 3) (a ! 4) m; Some (ret[0 := x], m) }"
| "call_handler (rmi_type_1_o f) a ret m = f (a ! 0) ret m"
| "call_handler (rmi_type_3_o f) a ret m = f (a ! 0) (a ! 1) (a ! 2) ret m"

definition handle_ns_smc ::
  "host_env \<Rightarrow> u64 \<Rightarrow> u64 list \<Rightarrow> u64 list \<Rightarrow> machine \<Rightarrow> (u64 list \<times> machine) option" where
  "handle_ns_smc E function_id args ret m =
     (case find_handler E function_id of
        None \<Rightarrow> Some (ret[0 := SMC_UNKNOWN], m)
      | Some handler \<Rightarrow> do {
          assert_cpu_slots_empty (m_mem m);
          (ret, m) \<leftarrow> call_handler (fn handler) args ret m;
          let line = rmi_log_on_exit handler (SMC_RMI_HANDLER_ID function_id) args ret;
          let m = m\<lparr>m_log := m_log m @ line\<rparr>;
          assert_cpu_slots_empty (m_mem m);
          Some (ret, m)
        })"

text \<open>
  One round of the loop in entry.S: x0 is the function identifier, x1 to x5 the arguments;
  x0 to x3 of the result start as zero and x4 as it came.
\<close>

definition rmm_handler :: "host_env \<Rightarrow> u64 list \<Rightarrow> machine \<Rightarrow> (u64 list \<times> machine) option" where
  "rmm_handler E x m =
     handle_ns_smc E (x ! 0) (take 5 (drop 1 x)) [0, 0, 0, 0, x ! 4] m"

section \<open>Faults of the monitor\<close>

definition ESR_EL2_EC_DATA_ABORT_SEL :: u64 where
  [arch_consts]: "ESR_EL2_EC_DATA_ABORT_SEL = INPLACE 26 37"
definition ESR_EL2_ABORT_FSC_GPF :: u64 where [arch_consts]: "ESR_EL2_ABORT_FSC_GPF = 0x28"

definition is_el2_data_abort_gpf :: "u64 \<Rightarrow> bool" where
  "is_el2_data_abort_gpf esr \<longleftrightarrow> esr AND ESR_EL2_EC_MASK = ESR_EL2_EC_DATA_ABORT_SEL
     \<and> esr AND ESR_EL2_ABORT_FSC_MASK = ESR_EL2_ABORT_FSC_GPF"

text \<open>
  The trap list pairs the addresses of the instructions that access non-secure memory with
  the address at which the monitor goes on; the addresses are those of the linker.  A fatal
  abort does not return.
\<close>

definition rmm_trap_list :: "u64 \<Rightarrow> u64 \<Rightarrow> u64 \<Rightarrow> (u64 \<times> u64) list" where
  "rmm_trap_list ns_read ns_write ns_access_ret_0 =
     [(ns_read, ns_access_ret_0), (ns_write, ns_access_ret_0)]"

definition handle_rmm_trap :: "(u64 \<times> u64) list \<Rightarrow> pe \<Rightarrow> u64 option" where
  "handle_rmm_trap traps p =
     (if \<not> is_el2_data_abort_gpf (hw_esr_el2 p) then None
      else map_option snd (find (\<lambda>(aborted_pc, new_pc). aborted_pc = hw_elr_el2 p) traps))"

end
