(* ===== verification/Run_Effects.thy ===== *)
theory Run_Effects
  imports Rtt_Correct Realm_Map_Cmds Rec_Run
begin

text \<open>
  What the calls of a running realm can change: the contents of its own pages, and in its own
  descriptor what does not concern stage 2.  Such an effect keeps the invariant and the map
  of the realms' memory, and every call leaves the locks and the slots as it found them.
\<close>

section \<open>Effects of a realm\<close>

fun rd_like :: "content \<Rightarrow> content \<Rightarrow> bool" where
  "rd_like (CRd rd) (CRd rd') \<longleftrightarrow> rd_s2_ctx rd' = rd_s2_ctx rd
     \<and> length (rd_measurement rd') = length (rd_measurement rd)"
| "rd_like _ _ \<longleftrightarrow> False"

text \<open>
  \<open>R\<close> is the granule of the realm's descriptor, \<open>D\<close> a set of its pages and of auxiliary
  granules of the REC that runs.
\<close>

definition realm_pages :: "rmm \<Rightarrow> nat \<Rightarrow> nat set" where
  "realm_pages s r = {d. \<exists>a pa. mem_map s r a = Some pa \<and> find_granule pa = Some d}"

definition content_change :: "nat \<Rightarrow> nat set \<Rightarrow> rmm \<Rightarrow> nat \<Rightarrow> content \<Rightarrow> bool" where
  "content_change R D s g c \<longleftrightarrow> c = content s g
     \<or> g \<in> D \<and> g_state (granules s g) \<in> {GRANULE_STATE_DATA, GRANULE_STATE_REC_AUX} \<and> (\<exists>d. c = CData d)
     \<or> g = R \<and> g_state (granules s g) = GRANULE_STATE_RD \<and> rd_like (content s g) c"

lemma rd_like_trans: "rd_like a b \<Longrightarrow> rd_like b c \<Longrightarrow> rd_like a c"
  by (cases a; cases b; cases c) simp_all

lemma rd_likeE:
  assumes "rd_like a b"
  obtains rd rd' where "a = CRd rd" "b = CRd rd'" "rd_s2_ctx rd' = rd_s2_ctx rd"
    "length (rd_measurement rd') = length (rd_measurement rd)"
  using assms by (cases a; cases b) auto

definition realm_effect :: "nat \<Rightarrow> nat set \<Rightarrow> rmm \<Rightarrow> rmm \<Rightarrow> bool" where
  "realm_effect R D s s' \<longleftrightarrow> granules s' = granules s \<and> vmids s' = vmids s
     \<and> (\<forall>g. content_change R D s g (content s' g))"

definition call_effect :: "nat \<Rightarrow> nat set \<Rightarrow> rmm \<Rightarrow> rmm \<Rightarrow> bool" where
  "call_effect R D s s' \<longleftrightarrow> realm_effect R D s s' \<and> glock s' = glock s \<and> slots s' = slots s"

lemma realm_effect_same:
  "granules s' = granules s \<Longrightarrow> vmids s' = vmids s \<Longrightarrow> content s' = content s \<Longrightarrow> realm_effect R D s s'"
  by (simp add: realm_effect_def content_change_def)

lemma realm_effect_refl [simp]: "realm_effect R D s s"
  by (rule realm_effect_same) simp_all

lemma content_change_trans:
  assumes "content_change R D s g (content t g)" and "content_change R D t g c" and "granules t = granules s"
  shows "content_change R D s g c"
  using assms rd_like_trans by (auto simp: content_change_def)

lemma realm_effect_trans: "realm_effect R D s t \<Longrightarrow> realm_effect R D t u \<Longrightarrow> realm_effect R D s u"
  unfolding realm_effect_def using content_change_trans by metis

lemma call_effect_refl [simp]: "call_effect R D s s"
  by (simp add: call_effect_def)

lemma call_effect_trans: "call_effect R D s t \<Longrightarrow> call_effect R D t u \<Longrightarrow> call_effect R D s u"
  using realm_effect_trans by (auto simp: call_effect_def)

lemma realm_effect_upd:
  assumes "granules s' = granules s" and "vmids s' = vmids s" and "content s' = (content s)(g := c)"
    and "content_change R D s g c"
  shows "realm_effect R D s s'"
  using assms by (auto simp: realm_effect_def content_change_def)

lemma realm_effect_inv:
  assumes inv: "inv_with lv par s" and e: "realm_effect R D s s'"
  shows "inv_with lv par s'"
proof -
  have gr: "granules s' = granules s" using e by (simp add: realm_effect_def)
  have ch: "content_change R D s g (content s' g)" for g using e by (simp add: realm_effect_def)
  show ?thesis
  proof (rule inv_with_step [OF inv, where T = "{g. content s' g \<noteq> content s g}"])
    show "links_ok s'"
    proof (rule links_ok_frame)
      show "links_ok s" using inv by (simp add: inv_with_def)
      show "same_links s s' x" for x
        using ch [of x] by (auto simp: content_change_def same_links_def gr elim!: rd_likeE)
    qed
    show "kept lv par s lv par s' d" for d by (simp add: kept_def gr)
    fix x assume "x \<in> {g. content s' g \<noteq> content s g}" and b: "x < RMM_MAX_GRANULES"
    with ch [of x] have "granule_ok_in (gst s x) lv par s' x"
      using inv_with_rd [OF inv b] by (auto simp: content_change_def rd_ok_def gr elim!: rd_likeE)
    then show "granule_ok lv par s' x"
      using inv_with_unlocked [OF inv b] by (simp add: granule_ok_def unlocked_ok_def gr)
  qed (auto simp: gr)
qed

lemma realm_effect_map:
  assumes inv: "inv_with lv par s" and e: "realm_effect R D s s'"
  shows "mem_map s' = mem_map s"
proof (rule mem_map_tables [OF inv])
  have ch: "content_change R D s g (content s' g)" for g using e by (simp add: realm_effect_def)
  show "same_realms s s'"
    unfolding same_realms_def
  proof (intro allI)
    fix r c
    have "granules s' = granules s" using e by (simp add: realm_effect_def)
    then show "realm_at s' r c = realm_at s r c"
      using ch [of r] unfolding content_change_def realm_at_def by (elim disjE conjE rd_likeE exE) auto
  qed
  fix g assume "gst s g = GRANULE_STATE_RTT"
  then show "content s' g = content s g" using ch [of g] by (auto simp: content_change_def)
qed

section \<open>A running REC\<close>

text \<open>
  The slots that the calls use are free, no lock is held, and the REC's copy of the stage 2
  configuration is that of its realm.  \<open>D\<close> holds the realm's pages and the REC's auxiliary
  granules.
\<close>

definition run_slots_free :: "rmm \<Rightarrow> bool" where
  "run_slots_free s \<longleftrightarrow> slots s SLOT_RD = None \<and> slots s SLOT_RTT = None
     \<and> slots s SLOT_RSI_CALL = None"

definition running :: "(nat \<Rightarrow> int) \<Rightarrow> (nat \<Rightarrow> owner) \<Rightarrow> nat \<Rightarrow> nat set \<Rightarrow> rmm \<Rightarrow> bool" where
  "running lv par R D s \<longleftrightarrow> inv_with lv par s \<and> run_slots_free s \<and> (\<forall>g. \<not> glock s g)
     \<and> realm_pages s R \<subseteq> D"

definition rec_of_realm :: "nat \<Rightarrow> nat set \<Rightarrow> rmm \<Rightarrow> rec \<Rightarrow> bool" where
  "rec_of_realm R D s rec \<longleftrightarrow> ri_g_rd (rec_realm_info rec) = R \<and> R < RMM_MAX_GRANULES
     \<and> gst s R = GRANULE_STATE_RD
     \<and> (\<exists>rd. content s R = CRd rd \<and> info_matches (rec_realm_info rec) (rd_s2_ctx rd))
     \<and> set (rec_g_aux rec) \<subseteq> D \<and> (\<forall>a\<in>set (rec_g_aux rec). gst s a = GRANULE_STATE_REC_AUX)"

lemma realm_pages_effect:
  assumes "inv_with lv par s" and "realm_effect R D s s'"
  shows "realm_pages s' r = realm_pages s r"
  unfolding realm_pages_def realm_effect_map [OF assms] ..

lemma running_effect:
  assumes "running lv par R D s" and "call_effect R D s s'"
  shows "running lv par R D s'"
proof -
  have inv: "inv_with lv par s" using assms(1) by (simp add: running_def)
  have e: "realm_effect R D s s'" using assms(2) by (simp add: call_effect_def)
  show ?thesis
    using assms realm_effect_inv [OF inv e] realm_pages_effect [OF inv e]
    by (simp add: running_def run_slots_free_def call_effect_def)
qed

lemma rec_of_realm_effect:
  assumes "rec_of_realm R D s rec" and "realm_effect R' D' s s'"
  shows "rec_of_realm R D s' rec"
proof -
  have "content_change R' D' s R (content s' R)" "granules s' = granules s"
    using assms(2) by (simp_all add: realm_effect_def)
  then show ?thesis
    using assms(1) unfolding content_change_def rec_of_realm_def
    by (elim disjE conjE rd_likeE exE) simp_all
qed

text \<open>What a call keeps of the REC.\<close>

definition rec_kept :: "rec \<Rightarrow> rec \<Rightarrow> bool" where
  "rec_kept rec rec' \<longleftrightarrow> rec_g_rec rec' = rec_g_rec rec
     \<and> (length (rec_regs rec) = 31 \<longrightarrow> length (rec_regs rec') = 31)
     \<and> rec_num_rec_aux rec' = rec_num_rec_aux rec \<and> rec_g_aux rec' = rec_g_aux rec
     \<and> rec_realm_info rec' = rec_realm_info rec"

lemma rec_kept_refl [simp]: "rec_kept rec rec" by (simp add: rec_kept_def)

lemma rec_kept_trans: "rec_kept a b \<Longrightarrow> rec_kept b c \<Longrightarrow> rec_kept a c"
  by (simp add: rec_kept_def)

lemma rec_of_realm_kept: "rec_of_realm R D s rec \<Longrightarrow> rec_kept rec rec' \<Longrightarrow> rec_of_realm R D s rec'"
  by (simp add: rec_of_realm_def rec_kept_def)

text \<open>The realm descriptor can be mapped and read.\<close>

lemma running_rd:
  assumes r: "running lv par R D s" and l: "rec_of_realm R D s rec" and g: "g_rd = ri_g_rd (rec_realm_info rec)"
  obtains rd where "g_rd < RMM_MAX_GRANULES" "gst s g_rd = GRANULE_STATE_RD" "content s g_rd = CRd rd"
    "info_matches (rec_realm_info rec) (rd_s2_ctx rd)"
    "granule_map g_rd SLOT_RD s = Some (map_slot SLOT_RD g_rd s)"
    "granule_lock g_rd GRANULE_STATE_RD s = Some (lock_g g_rd GRANULE_STATE_RD s)"
    "buffer_unmap SLOT_RD (map_slot SLOT_RD g_rd s) = s"
proof -
  from l g obtain rd where rd: "g_rd < RMM_MAX_GRANULES" "gst s g_rd = GRANULE_STATE_RD"
    "content s g_rd = CRd rd" "info_matches (rec_realm_info rec) (rd_s2_ctx rd)"
    by (auto simp: rec_of_realm_def)
  moreover have "slots s SLOT_RD = None" "\<not> glock s g_rd" "inv_with lv par s"
    using r by (auto simp: running_def run_slots_free_def)
  ultimately show ?thesis
    using that granule_lock_relocked(1) by (simp add: granule_map_eq buffer_unmap_map_slot)
qed

lemma running_unlock:
  assumes "running lv par R D s" and "granules t = granules s" and "g < RMM_MAX_GRANULES"
  shows "granule_unlock g t = Some (spinlock_release g t)"
  using inv_with_unlocked_state [OF _ assms(2,3), of lv par] assms(1)
  by (simp add: granule_unlock_eq running_def)

section \<open>Walks\<close>

lemma par_in_ipa: "addr_in_par rd a \<Longrightarrow> a < realm_ipa_size rd"
  unfolding addr_in_par_def realm_par_size_def
  by (erule order.strict_trans2) (simp add: word_le_nat_alt unat_div)

text \<open>A valid entry of the last level names a data granule.\<close>

lemma valid_entry_page:
  assumes inv: "inv_with lv par s" and w: "walk_result lv s c ipa 3 wi"
    and t: "table_of (content s (g_llt wi)) = Some t"
    and v: "s2tte_is_valid (t ! unat (index wi)) (last_level wi)"
  obtains d where "last_level wi = 3" "find_granule (addr_level_mask (t ! unat (index wi)) 3) = Some d"
    "gst s d = GRANULE_STATE_DATA" "d < RMM_MAX_GRANULES"
proof -
  have at: "g_llt wi < RMM_MAX_GRANULES" "gst s (g_llt wi) = GRANULE_STATE_RTT"
    "lv (g_llt wi) = last_level wi" and b: "unat (index wi) < 512"
    using w s2_addr_to_idx_bound by (auto simp: walk_result_def at_table_def)
  from inv at t have e: "entry_ok lv par s (g_llt wi) (unat (index wi)) (t ! unat (index wi))"
    using b by (elim inv_with_rtt) auto
  have l: "last_level wi = 3" using v by (auto simp: s2tte_iffs)
  have "owns_pages par s (g_llt wi) (unat (index wi)) (addr_level_mask (t ! unat (index wi)) 3) 1"
    using e v at(3) l by (auto simp: entry_ok_def s2tte_iffs leaf_entry_def table_entry_ok_def)
  then obtain d where "find_granule (addr_level_mask (t ! unat (index wi)) 3) = Some d"
    "gst s d = GRANULE_STATE_DATA" by (auto simp: owns_pages_def)
  then show ?thesis using that [OF l] find_granule_bound by blast
qed

text \<open>Whether an address is mapped, read off the tables.\<close>

definition page_mapped :: "(nat \<Rightarrow> content) \<Rightarrow> rd \<Rightarrow> u64 \<Rightarrow> bool" where
  "page_mapped C rd ipa \<longleftrightarrow> GRANULE_ALIGNED ipa \<and> addr_in_par rd ipa
     \<and> (case pt_find C (rd_s2_ctx rd) ipa 3 of (g, l) \<Rightarrow>
          \<exists>t. table_of (C g) = Some t \<and> s2tte_is_valid (t ! unat (s2_addr_to_idx ipa l)) l)"

lemma realm_ipa_to_pa_spec:
  assumes inv: "inv_with lv par s" and g: "g_rd < RMM_MAX_GRANULES"
    and st: "gst s g_rd = GRANULE_STATE_RD" and rd: "content s g_rd = CRd rd"
    and L: "\<And>x. glock s x \<Longrightarrow> gst s x \<noteq> GRANULE_STATE_RTT" and sl: "slots s SLOT_RTT = None"
    and run: "realm_ipa_to_pa rd ipa res s = Some ((ws, res'), s')"
  shows "granules s' = granules s \<and> content s' = content s \<and> vmids s' = vmids s \<and> slots s' = slots s
    \<and> (ws = WALK_SUCCESS \<longleftrightarrow> page_mapped (content s) rd ipa)
    \<and> (case ws of
         WALK_SUCCESS \<Rightarrow> w_llt res' < RMM_MAX_GRANULES \<and> gst s (w_llt res') = GRANULE_STATE_RTT
           \<and> glock s' = (glock s)(w_llt res' := True)
           \<and> (\<exists>d. find_granule (w_pa res') = Some d \<and> gst s d = GRANULE_STATE_DATA
                \<and> d \<in> realm_pages s g_rd)
       | WALK_FAIL \<Rightarrow> w_llt res' < RMM_MAX_GRANULES \<and> gst s (w_llt res') = GRANULE_STATE_RTT
           \<and> glock s' = glock s
       | WALK_INVALID_PARAMS \<Rightarrow> s' = s \<and> res' = res)"
proof (cases "\<not> GRANULE_ALIGNED ipa \<or> \<not> addr_in_par rd ipa")
  case True
  then show ?thesis using run by (auto simp: realm_ipa_to_pa_def page_mapped_def)
next
  case False
  then have a: "ipa < realm_ipa_size rd" and al: "GRANULE_ALIGNED ipa" using par_in_ipa by auto
  have sl3: "realm_rtt_starting_level rd \<le> 3"
    using inv_with_rd [OF inv g st] rd by (auto simp: rd_ok_def s2_ctx_ok_def realm_rtt_starting_level_def)
  from locked_walk_spec [OF inv g st rd L sl a sl3] obtain s0 wi s1 where
    lock: "granule_lock (s2_g_rtt (rd_s2_ctx rd)) GRANULE_STATE_RTT s = Some s0"
    and wk: "rtt_walk_lock_unlock (s2_g_rtt (rd_s2_ctx rd)) (realm_rtt_starting_level rd)
       (realm_ipa_bits rd) ipa 3 s0 = Some (wi, s1)"
    and w: "walk_result lv s (rd_s2_ctx rd) ipa 3 wi"
    and r1: "relocked s ((glock s)(g_llt wi := True)) s1" by auto
  have s1: "granules s1 = granules s" "content s1 = content s" "slots s1 = slots s"
    "vmids s1 = vmids s" "glock s1 = (glock s)(g_llt wi := True)"
    using r1 by (simp_all add: relocked_def)
  from walk_read [OF inv w s1(1,2)] sl s1(3) obtain t where
    t: "table_of (content s (g_llt wi)) = Some t"
    and m: "granule_map (g_llt wi) SLOT_RTT s1 = Some (map_slot SLOT_RTT (g_llt wi) s1)"
    and rdd: "s2tte_read (g_llt wi) (index wi) (map_slot SLOT_RTT (g_llt wi) s1)
       = Some (t ! unat (index wi))" by auto
  have at: "g_llt wi < RMM_MAX_GRANULES" "gst s (g_llt wi) = GRANULE_STATE_RTT"
    using w by (auto simp: walk_result_def at_table_def)
  have nl: "\<not> glock s (g_llt wi)" using L at(2) by blast
  have gl: "(glock s)(g_llt wi := False) = glock s" using nl by (auto simp: fun_eq_iff)
  have un: "granule_unlock (g_llt wi) (map_slot SLOT_RTT (g_llt wi) s1)
      = Some (spinlock_release (g_llt wi) (map_slot SLOT_RTT (g_llt wi) s1))"
    by (rule walk_unlock [OF inv w]) (simp add: s1)
  have sf: "(slots s)(SLOT_RTT := None) = slots s" using sl by (auto simp: fun_eq_iff)
  let ?e = "t ! unat (index wi)"
  note run' = run [unfolded realm_ipa_to_pa_def Let_def RTT_PAGE_LEVEL_def]
  have pm: "page_mapped (content s) rd ipa \<longleftrightarrow> s2tte_is_valid ?e (last_level wi)"
    using w t \<open>\<not> (\<not> GRANULE_ALIGNED ipa \<or> \<not> addr_in_par rd ipa)\<close>
    by (auto simp: page_mapped_def walk_result_def)
  show ?thesis
  proof (cases "s2tte_is_valid ?e (last_level wi)")
    case False
    then show ?thesis
      using run' al \<open>\<not> (\<not> GRANULE_ALIGNED ipa \<or> \<not> addr_in_par rd ipa)\<close> at s1 gl sf pm
      by (auto simp: lock wk m rdd un Option.bind_eq_Some_conv split: if_splits)
  next
    case True
    from valid_entry_page [OF inv w t True] obtain d where
      d: "last_level wi = 3" "find_granule (addr_level_mask ?e 3) = Some d" "gst s d = GRANULE_STATE_DATA"
      by blast
    have "realm_page (content s) (rd_s2_ctx rd) ipa = Some (addr_level_mask ?e 3)"
      using w t d(1) True
      by (simp add: realm_page_def walk_result_def tt_entry_def entry_page_def s2tte_iffs)
    then have "mem_map s g_rd ipa = Some (addr_level_mask ?e 3)"
      using g st rd a by (simp add: mem_map_def ipa_size_push)
    then have own: "d \<in> realm_pages s g_rd" using d(2) by (auto simp: realm_pages_def)
    have pa: "s2tte_pa ?e 3 = Some (addr_level_mask ?e 3)"
      using True d(1) by (auto simp: s2tte_pa_def s2tte_iffs bind_assert_c)
    have ms: "s2tte_map_size 3 = Some 4096" by (simp add: s2tte_map_size_def s2tte_values)
    have "ipa AND 4095 = take_bit 12 ipa" by (simp add: take_bit_eq_mask mask_eq_exp_minus_1)
    then have off: "ipa AND 4095 = 0"
      using al by (simp add: GRANULE_ALIGNED_def ALIGNED_def word_consts take_bit_eq_mod)
    show ?thesis
      using run' al \<open>\<not> (\<not> GRANULE_ALIGNED ipa \<or> \<not> addr_in_par rd ipa)\<close> at s1 sf True d pa ms off pm own
      by (auto simp: lock wk m rdd)
  qed
qed

end
