(* ===== verification/Run_Safe.thy ===== *)
theory Run_Safe
  imports Run_Effects
begin

text \<open>Every call of a running realm has only the effects of a realm.\<close>

section \<open>The calls that read or write the realm descriptor\<close>

lemma rd_map_read_rec_count_safe:
  assumes "running lv par R D s" and "rec_of_realm R D s rec"
    and "rd_map_read_rec_count (ri_g_rd (rec_realm_info rec)) s = Some (n, s')"
  shows "s' = s"
  by (rule running_rd [OF assms(1,2) refl]) (use assms(3) in \<open>auto simp: rd_map_read_rec_count_def\<close>)

lemma rd_like_upd:
  "rd_s2_ctx (f rd) = rd_s2_ctx rd \<Longrightarrow> length (rd_measurement (f rd)) = length (rd_measurement rd)
    \<Longrightarrow> rd_like (CRd rd) (CRd (f rd))"
  by simp

text \<open>The states while the descriptor is locked and mapped, and after it has been rewritten.\<close>

lemma call_effect_rd:
  assumes r: "running lv par R D s" and gR: "g = R" and g: "gst s g = GRANULE_STATE_RD" and rd: "content s g = CRd rd"
    and like: "rd_like (CRd rd) (CRd rd')"
  shows "call_effect R D s (spinlock_release g (buffer_unmap SLOT_RD
    (set_rd g rd' (map_slot SLOT_RD g (lock_g g GRANULE_STATE_RD s)))))"
proof -
  let ?t = "spinlock_release g (buffer_unmap SLOT_RD
    (set_rd g rd' (map_slot SLOT_RD g (lock_g g GRANULE_STATE_RD s))))"
  have "realm_effect R D s ?t"
    by (rule realm_effect_upd [where g = g and c = "CRd rd'"])
       (use gR g rd like in \<open>simp_all add: set_rd_def content_change_def\<close>)
  moreover have "glock ?t = glock s" "slots ?t = slots s"
    using r by (auto simp: set_rd_def running_def run_slots_free_def fun_eq_iff)
  ultimately show ?thesis by (simp add: call_effect_def)
qed

lemma call_effect_rd_read:
  assumes r: "running lv par R D s"
  shows "call_effect R D s (spinlock_release g (buffer_unmap SLOT_RD
    (map_slot SLOT_RD g (lock_g g GRANULE_STATE_RD s))))"
proof -
  let ?t = "spinlock_release g (buffer_unmap SLOT_RD (map_slot SLOT_RD g (lock_g g GRANULE_STATE_RD s)))"
  have "realm_effect R D s ?t" by (rule realm_effect_same) simp_all
  moreover have "glock ?t = glock s" "slots ?t = slots s"
    using r by (auto simp: running_def run_slots_free_def fun_eq_iff)
  ultimately show ?thesis by (simp add: call_effect_def)
qed

lemma call_effect_rd_between:
  assumes r: "running lv par R D s"
    and e: "call_effect R D (map_slot SLOT_RD g (lock_g g GRANULE_STATE_RD s)) t"
  shows "call_effect R D s (spinlock_release g (buffer_unmap SLOT_RD t))"
proof -
  let ?m = "map_slot SLOT_RD g (lock_g g GRANULE_STATE_RD s)" and ?t = "spinlock_release g (buffer_unmap SLOT_RD t)"
  have "realm_effect R D s ?m" "realm_effect R D t ?t" by (rule realm_effect_same; simp)+
  moreover have "realm_effect R D ?m t" using e by (simp add: call_effect_def)
  ultimately have "realm_effect R D s ?t" using realm_effect_trans by blast
  moreover have "glock ?t = glock s" "slots ?t = slots s"
    using r e by (auto simp: running_def run_slots_free_def call_effect_def fun_eq_iff)
  ultimately show ?thesis by (simp add: call_effect_def)
qed

text \<open>Locking and mapping the descriptor of the REC's realm.\<close>

lemma running_rd_locked:
  assumes r: "running lv par R D s" and l: "rec_of_realm R D s rec" and g: "g_rd = ri_g_rd (rec_realm_info rec)"
  obtains rd where "g_rd < RMM_MAX_GRANULES" "gst s g_rd = GRANULE_STATE_RD" "content s g_rd = CRd rd"
    "info_matches (rec_realm_info rec) (rd_s2_ctx rd)" "length (rd_measurement rd) = 5"
    "granule_lock g_rd GRANULE_STATE_RD s = Some (lock_g g_rd GRANULE_STATE_RD s)"
    "granule_map g_rd SLOT_RD (lock_g g_rd GRANULE_STATE_RD s)
       = Some (map_slot SLOT_RD g_rd (lock_g g_rd GRANULE_STATE_RD s))"
    "\<And>t. granules t = granules s \<Longrightarrow> granule_unlock g_rd t = Some (spinlock_release g_rd t)"
proof (rule running_rd [OF r l g])
  fix rd assume rd: "g_rd < RMM_MAX_GRANULES" "gst s g_rd = GRANULE_STATE_RD" "content s g_rd = CRd rd"
    "info_matches (rec_realm_info rec) (rd_s2_ctx rd)"
    "granule_lock g_rd GRANULE_STATE_RD s = Some (lock_g g_rd GRANULE_STATE_RD s)"
  have inv: "inv_with lv par s" and sl: "slots s SLOT_RD = None"
    using r by (auto simp: running_def run_slots_free_def)
  have "length (rd_measurement rd) = 5" using inv_with_rd [OF inv rd(1,2)] rd(3) by (auto simp: rd_ok_def)
  moreover have "granule_map g_rd SLOT_RD (lock_g g_rd GRANULE_STATE_RD s)
       = Some (map_slot SLOT_RD g_rd (lock_g g_rd GRANULE_STATE_RD s))"
    using rd(1) sl by (simp add: granule_map_eq)
  ultimately show ?thesis using that [OF rd(1-4)] rd(5) running_unlock [OF r _ rd(1)] by blast
qed

lemma system_off_reboot_safe:
  assumes r: "running lv par R D s" and l: "rec_of_realm R D s rec"
    and run: "system_off_reboot rec s = Some s'"
  shows "call_effect R D s s'"
proof (rule running_rd_locked [OF r l refl])
  fix rd
  let ?g = "ri_g_rd (rec_realm_info rec)"
  assume rd: "gst s ?g = GRANULE_STATE_RD" "content s ?g = CRd rd"
    "granule_lock ?g GRANULE_STATE_RD s = Some (lock_g ?g GRANULE_STATE_RD s)"
    "granule_map ?g SLOT_RD (lock_g ?g GRANULE_STATE_RD s)
       = Some (map_slot SLOT_RD ?g (lock_g ?g GRANULE_STATE_RD s))"
    "\<And>t. granules t = granules s \<Longrightarrow> granule_unlock ?g t = Some (spinlock_release ?g t)"
  have gR: "?g = R" using l by (simp add: rec_of_realm_def)
  have "s' = spinlock_release ?g (buffer_unmap SLOT_RD
    (set_rd ?g (rd\<lparr>rd_state := REALM_STATE_SYSTEM_OFF\<rparr>) (map_slot SLOT_RD ?g (lock_g ?g GRANULE_STATE_RD s))))"
    using run rd by (simp add: system_off_reboot_def Let_def set_rd_def)
  then show ?thesis using call_effect_rd [OF r gR rd(1,2), of "rd\<lparr>rd_state := REALM_STATE_SYSTEM_OFF\<rparr>"] by simp
qed

lemma psci_cpu_on_safe:
  assumes r: "running lv par R D s" and l: "rec_of_realm R D s rec"
    and run: "psci_cpu_on rec target pc s = Some ((res, rec'), s')"
  shows "call_effect R D s s' \<and> rec_kept rec rec'"
proof (cases "addr_in_rec_par rec pc")
  case True
  then obtain n s1 where n: "rd_map_read_rec_count (ri_g_rd (rec_realm_info rec)) s = Some (n, s1)"
    using run by (auto simp: psci_cpu_on_def Let_def Option.bind_eq_Some_conv)
  then show ?thesis using run True rd_map_read_rec_count_safe [OF r l n]
    by (auto simp: psci_cpu_on_def Let_def rec_kept_def split: if_splits)
qed (use run in \<open>simp add: psci_cpu_on_def\<close>)

lemma psci_affinity_info_safe:
  assumes r: "running lv par R D s" and l: "rec_of_realm R D s rec"
    and run: "psci_affinity_info rec target level s = Some ((res, rec'), s')"
  shows "call_effect R D s s' \<and> rec_kept rec rec'"
proof (cases "level = 0")
  case True
  then obtain n s1 where n: "rd_map_read_rec_count (ri_g_rd (rec_realm_info rec)) s = Some (n, s1)"
    using run by (auto simp: psci_affinity_info_def Let_def Option.bind_eq_Some_conv)
  then show ?thesis using run True rd_map_read_rec_count_safe [OF r l n]
    by (auto simp: psci_affinity_info_def Let_def rec_kept_def split: if_splits)
qed (use run in \<open>simp add: psci_affinity_info_def\<close>)

lemma psci_system_safe:
  assumes r: "running lv par R D s" and l: "rec_of_realm R D s rec"
  shows "psci_system_off rec s = Some (res, s') \<Longrightarrow> call_effect R D s s'"
    and "psci_system_reset rec s = Some (res, s') \<Longrightarrow> call_effect R D s s'"
  using system_off_reboot_safe [OF r l]
  by (auto simp: psci_system_off_def psci_system_reset_def Option.bind_eq_Some_conv)

text \<open>One case of the switch after the other, with the tests kept abstract.\<close>

lemma if_Some_cases:
  assumes "(if b then x else y) = Some z" and "x = Some z \<Longrightarrow> P" and "y = Some z \<Longrightarrow> P"
  shows P
  using assms by (cases b) simp_all

lemma psci_rsi_safe:
  assumes r: "running lv par R D s" and l: "rec_of_realm R D s rec"
    and run: "psci_rsi res0 rec fid a b c s = Some ((res, rec'), s')"
  shows "call_effect R D s s' \<and> rec_kept rec rec'"
proof -
  note ok = psci_cpu_on_safe [OF r l] psci_affinity_info_safe [OF r l] psci_system_safe [OF r l]
  show ?thesis
    using run l unfolding psci_rsi_def Let_def
    by (elim if_Some_cases ok)
      (auto simp: psci_cpu_off_def rec_kept_def Option.bind_eq_Some_conv dest: psci_system_safe [OF r])
qed

section \<open>Measurements and the start of a token\<close>

lemma extend_measurement_safe:
  assumes r: "running lv par R D s" and l: "rec_of_realm R D s rec"
    and run: "handle_rsi_extend_measurement hash rec s = Some (ret, s')"
  shows "call_effect R D s s'"
proof (rule running_rd_locked [OF r l refl])
  fix rd
  let ?g = "ri_g_rd (rec_realm_info rec)" and ?i = "unat (rec_regs rec ! 1)"
  assume rd: "?g < RMM_MAX_GRANULES" "gst s ?g = GRANULE_STATE_RD" "content s ?g = CRd rd"
    "granule_lock ?g GRANULE_STATE_RD s = Some (lock_g ?g GRANULE_STATE_RD s)"
    "granule_map ?g SLOT_RD (lock_g ?g GRANULE_STATE_RD s)
       = Some (map_slot SLOT_RD ?g (lock_g ?g GRANULE_STATE_RD s))"
    "\<And>t. granules t = granules s \<Longrightarrow> granule_unlock ?g t = Some (spinlock_release ?g t)"
  obtain a where a: "granule_addr ?g = Some a" using rd(1) by (auto simp: granule_addr_eq)
  have f: "find_lock_granule a GRANULE_STATE_RD s = Some (Some ?g, lock_g ?g GRANULE_STATE_RD s)"
    using find_granule_addr [OF rd(1) a] find_lock_granule_eq [of a s GRANULE_STATE_RD] r rd(1,2)
      inv_with_unlocked [of lv par s] by (auto simp: running_def)
  let ?m = "map_slot SLOT_RD ?g (lock_g ?g GRANULE_STATE_RD s)"
  have gR: "?g = R" using l by (simp add: rec_of_realm_def)
  note read = call_effect_rd_read [OF r, of ?g]
  note rewritten = call_effect_rd [OF r gR rd(2,3)]
  from run consider "s' = spinlock_release ?g (buffer_unmap SLOT_RD ?m)"
    | m where "s' = spinlock_release ?g (buffer_unmap SLOT_RD
        (set_rd ?g (rd\<lparr>rd_measurement := (rd_measurement rd)[?i := m]\<rparr>) ?m))"
    using rd by (auto simp: handle_rsi_extend_measurement_def Let_def a f set_rd_def
        Option.bind_eq_Some_conv split: if_splits)
  then show ?thesis using read rewritten by cases simp_all
qed

lemma read_measurement_safe:
  assumes r: "running lv par R D s" and l: "rec_of_realm R D s rec"
    and run: "handle_rsi_read_measurement rec s = Some ((ret, rec'), s')"
  shows "call_effect R D s s' \<and> rec_kept rec rec'"
proof (cases "MEASUREMENT_SLOT_NR \<le> rec_regs rec ! 1")
  case True
  then show ?thesis using run by (simp add: handle_rsi_read_measurement_def Let_def)
next
  case False
  show ?thesis
  proof (rule running_rd_locked [OF r l refl])
    fix rd
    let ?g = "ri_g_rd (rec_realm_info rec)"
    assume rd: "content s ?g = CRd rd"
      "granule_lock ?g GRANULE_STATE_RD s = Some (lock_g ?g GRANULE_STATE_RD s)"
      "granule_map ?g SLOT_RD (lock_g ?g GRANULE_STATE_RD s)
         = Some (map_slot SLOT_RD ?g (lock_g ?g GRANULE_STATE_RD s))"
      "\<And>t. granules t = granules s \<Longrightarrow> granule_unlock ?g t = Some (spinlock_release ?g t)"
    show ?thesis
      using run False call_effect_rd_read [OF r, of ?g]
      by (auto simp: handle_rsi_read_measurement_def Let_def rd rec_kept_def regs_of_bytes_def)
  qed
qed

lemma rec_kept_token [simp]: "rec_kept rec (rec\<lparr>rec_token_sign := x\<rparr>)"
  by (simp add: rec_kept_def)

section \<open>The heap of the REC\<close>

lemma heap_pages_call_effect:
  "\<forall>(i, g) \<in> set ps. g \<in> D \<and> gst s g = GRANULE_STATE_REC_AUX \<Longrightarrow>
    call_effect R D s (fold (\<lambda>(i, g). set_content g (CData (F i))) ps s)"
proof (induction ps arbitrary: s)
  case (Cons p ps)
  obtain i g where p: "p = (i, g)" by (cases p)
  let ?s = "set_content g (CData (F i)) s"
  have "realm_effect R D s ?s"
    using Cons.prems by (intro realm_effect_upd [where g = g and c = "CData (F i)"])
      (auto simp: p content_change_def)
  then have "call_effect R D s ?s" by (simp add: call_effect_def)
  moreover have "call_effect R D ?s (fold (\<lambda>(i, g). set_content g (CData (F i))) ps ?s)"
    using Cons by simp
  ultimately show ?case using call_effect_trans by (simp add: p)
qed simp

lemma on_rec_heap_safe:
  assumes l: "rec_of_realm R D s rec" and run: "on_rec_heap b f rec s = Some (rec', s')"
  shows "call_effect R D s s' \<and> rec_kept rec rec'"
proof -
  from run obtain h where h: "set_rec_heap h rec s = (rec', s')"
    by (auto simp: on_rec_heap_def Option.bind_eq_Some_conv)
  have "\<forall>(i, g) \<in> set (enumerate 0 (heap_pages rec)). g \<in> D \<and> gst s g = GRANULE_STATE_REC_AUX"
    using l in_set_takeD [of _ REC_HEAP_PAGES "rec_g_aux rec"]
    by (auto simp: heap_pages_def rec_of_realm_def in_set_enumerate_eq)
  from heap_pages_call_effect [OF this, of R "heap_page rec h"] h show ?thesis
    by (auto simp: set_rec_heap_def rec_kept_def)
qed

lemma rec_heap_init_safe:
  "rec_of_realm R D s rec \<Longrightarrow> rec_heap_init lib b rec s = Some (rec', s') \<Longrightarrow>
    call_effect R D s s' \<and> rec_kept rec rec'"
  by (simp add: rec_heap_init_def on_rec_heap_safe)

lemma signer_heap_safe:
  "rec_of_realm R D s rec \<Longrightarrow> signer_heap lib b rec s = Some (rec', s') \<Longrightarrow>
    call_effect R D s s' \<and> rec_kept rec rec'"
  by (auto simp: signer_heap_def on_rec_heap_safe split: option.splits)

section \<open>Tokens\<close>

lemma token_init_restart:
  assumes r: "running lv par R D s" and l: "rec_of_realm R D s rec"
    and run: "handle_rsi_attest_token_init lib heap rec s = Some ((ret, rec'), s')"
  obtains rec1 s1 where "call_effect R D s s1" "rec_kept rec rec1"
    "(\<not> GRANULE_ALIGNED (rec_regs rec ! 1) \<longrightarrow> rec' = rec1 \<and> s' = s1)"
    "(GRANULE_ALIGNED (rec_regs rec ! 1) \<longrightarrow> (\<exists>s2 s3 s4. granule_lock (ri_g_rd (rec_realm_info rec)) GRANULE_STATE_RD s1 = Some s2
       \<and> granule_map (ri_g_rd (rec_realm_info rec)) SLOT_RD s2 = Some s3
       \<and> (rec' = rec1 \<and> s4 = s3
          \<or> (\<exists>rec2. signer_heap lib heap (save_input_parameters rec1) s3 = Some (rec2, s4) \<and> rec_kept rec2 rec'))
       \<and> granule_unlock (ri_g_rd (rec_realm_info rec)) (buffer_unmap SLOT_RD s4) = Some s'))"
proof -
  let ?start = "if ts_state (rec_token_sign rec) \<noteq> ATTEST_SIGN_NOT_STARTED
    then rec_heap_init lib heap
           (rec\<lparr>rec_token_sign := (rec_token_sign rec)\<lparr>ts_state := ATTEST_SIGN_NOT_STARTED\<rparr>\<rparr>) s
    else Some (rec, s)"
  from run obtain rec1 s1 where st: "?start = Some (rec1, s1)"
    by (auto simp: handle_rsi_attest_token_init_def Let_def Option.bind_eq_Some_conv split: if_splits)
  have e: "call_effect R D s s1 \<and> rec_kept rec rec1"
  proof (cases "ts_state (rec_token_sign rec) = ATTEST_SIGN_NOT_STARTED")
    case True
    then show ?thesis using st by simp
  next
    case False
    let ?rec = "rec\<lparr>rec_token_sign := (rec_token_sign rec)\<lparr>ts_state := ATTEST_SIGN_NOT_STARTED\<rparr>\<rparr>"
    have "rec_heap_init lib heap ?rec s = Some (rec1, s1)" using False st by simp
    from rec_heap_init_safe [OF rec_of_realm_kept [OF l rec_kept_token] this] show ?thesis
      using rec_kept_trans [OF rec_kept_token] by blast
  qed
  then have g: "rec_realm_info rec1 = rec_realm_info rec" by (simp add: rec_kept_def)
  show ?thesis
    by (rule that [of s1 rec1])
      (use e run g in \<open>auto simp: handle_rsi_attest_token_init_def Let_def st [simplified] rec_kept_def
         Option.bind_eq_Some_conv split: if_splits\<close>)
qed

lemma attest_token_init_safe:
  assumes r: "running lv par R D s" and l: "rec_of_realm R D s rec"
    and run: "handle_rsi_attest_token_init lib heap rec s = Some ((ret, rec'), s')"
  shows "call_effect R D s s' \<and> rec_kept rec rec'"
proof (rule token_init_restart [OF r l run])
  fix rec1 s1
  let ?g = "ri_g_rd (rec_realm_info rec)" and ?al = "GRANULE_ALIGNED (rec_regs rec ! 1)"
  assume e1: "call_effect R D s s1" and k1: "rec_kept rec rec1"
    and refused: "\<not> ?al \<longrightarrow> rec' = rec1 \<and> s' = s1"
    and go: "?al \<longrightarrow> (\<exists>s2 s3 s4. granule_lock ?g GRANULE_STATE_RD s1 = Some s2
       \<and> granule_map ?g SLOT_RD s2 = Some s3
       \<and> (rec' = rec1 \<and> s4 = s3
          \<or> (\<exists>rec2. signer_heap lib heap (save_input_parameters rec1) s3 = Some (rec2, s4) \<and> rec_kept rec2 rec'))
       \<and> granule_unlock ?g (buffer_unmap SLOT_RD s4) = Some s')"
  note r1 = running_effect [OF r e1]
  have l1: "rec_of_realm R D s1 rec1"
    using rec_of_realm_kept [OF rec_of_realm_effect [OF l, of R D] k1] e1 by (simp add: call_effect_def)
  have g1: "?g = ri_g_rd (rec_realm_info rec1)" using k1 by (simp add: rec_kept_def)
  show ?thesis
  proof (cases ?al)
    case False
    then show ?thesis using refused e1 k1 by simp
  next
    case True
    let ?m = "map_slot SLOT_RD ?g (lock_g ?g GRANULE_STATE_RD s1)"
    show ?thesis
    proof (rule running_rd_locked [OF r1 l1 g1])
      assume rd: "granule_lock ?g GRANULE_STATE_RD s1 = Some (lock_g ?g GRANULE_STATE_RD s1)"
        "granule_map ?g SLOT_RD (lock_g ?g GRANULE_STATE_RD s1) = Some ?m"
        and un: "\<And>t. granules t = granules s1 \<Longrightarrow> granule_unlock ?g t = Some (spinlock_release ?g t)"
      from go True rd obtain s4 where
        d: "rec' = rec1 \<and> s4 = ?m
          \<or> (\<exists>rec2. signer_heap lib heap (save_input_parameters rec1) ?m = Some (rec2, s4) \<and> rec_kept rec2 rec')"
        and u: "granule_unlock ?g (buffer_unmap SLOT_RD s4) = Some s'" by auto
      have ki: "rec_kept rec1 (save_input_parameters rec1)" by (simp add: save_input_parameters_def)
      have "rec_of_realm R D ?m (save_input_parameters rec1)"
        using rec_of_realm_kept [OF l1 ki] by (simp add: rec_of_realm_def)
      then have "call_effect R D ?m s4 \<and> rec_kept rec1 rec'"
        using d signer_heap_safe rec_kept_trans [OF ki] rec_kept_trans by fastforce
      then have e4: "call_effect R D ?m s4" and k: "rec_kept rec1 rec'" by simp_all
      have "granules s4 = granules s1" using e4 by (simp add: call_effect_def realm_effect_def)
      then have "s' = spinlock_release ?g (buffer_unmap SLOT_RD s4)" using u un by simp
      then show ?thesis
        using call_effect_trans [OF e1 call_effect_rd_between [OF r1 e4]] rec_kept_trans [OF k1 k] by simp
    qed
  qed
qed

section \<open>The calls that walk the tables\<close>

lemma call_effect_same:
  "granules t = granules s \<Longrightarrow> content t = content s \<Longrightarrow> vmids t = vmids s \<Longrightarrow> glock t = glock s
    \<Longrightarrow> slots t = slots s \<Longrightarrow> call_effect R D s t"
  using realm_effect_same by (simp add: call_effect_def)

lemma rec_walk_spec:
  assumes r: "running lv par R D s" and l: "rec_of_realm R D s rec" and a: "addr_in_rec_par rec ipa"
    and ri: "ri = rec_realm_info rec"
  obtains s0 wi s1 t where
    "granule_lock (ri_g_rtt ri) GRANULE_STATE_RTT s = Some s0"
    "rtt_walk_lock_unlock (ri_g_rtt ri) (ri_s2_starting_level ri) (ri_ipa_bits ri) ipa RTT_PAGE_LEVEL s0
       = Some (wi, s1)"
    "granule_map (g_llt wi) SLOT_RTT s1 = Some (map_slot SLOT_RTT (g_llt wi) s1)"
    "s2tte_read (g_llt wi) (index wi) (map_slot SLOT_RTT (g_llt wi) s1) = Some t"
    "granule_unlock (g_llt wi) (buffer_unmap SLOT_RTT (map_slot SLOT_RTT (g_llt wi) s1))
       = Some (spinlock_release (g_llt wi) (buffer_unmap SLOT_RTT (map_slot SLOT_RTT (g_llt wi) s1)))"
    "call_effect R D s (spinlock_release (g_llt wi) (buffer_unmap SLOT_RTT (map_slot SLOT_RTT (g_llt wi) s1)))"
proof -
  have inv: "inv_with lv par s" and sl: "slots s SLOT_RTT = None" and nl: "\<And>g. \<not> glock s g"
    using r by (auto simp: running_def run_slots_free_def)
  from l ri obtain rd where rd: "ri_g_rd ri < RMM_MAX_GRANULES" "gst s (ri_g_rd ri) = GRANULE_STATE_RD"
    "content s (ri_g_rd ri) = CRd rd" and m: "info_matches ri (rd_s2_ctx rd)"
    by (auto simp: rec_of_realm_def)
  from m have ri': "ri_g_rtt ri = s2_g_rtt (rd_s2_ctx rd)"
    "ri_s2_starting_level ri = realm_rtt_starting_level rd" "ri_ipa_bits ri = realm_ipa_bits rd"
    by (simp_all add: info_matches_def realm_rtt_starting_level_def realm_ipa_bits_def)
  have "addr_in_par rd ipa"
    using a ri'(3) ri
    by (simp add: addr_in_rec_par_def rec_par_size_def rec_ipa_size_def addr_in_par_def
        realm_par_size_def realm_ipa_size_def)
  then have ipa: "ipa < realm_ipa_size rd" by (rule par_in_ipa)
  have L: "\<And>x. glock s x \<Longrightarrow> gst s x \<noteq> GRANULE_STATE_RTT" using nl by simp
  have sl3: "realm_rtt_starting_level rd \<le> 3"
    using inv_with_rd [OF inv rd(1,2)] rd(3)
    by (auto simp: rd_ok_def s2_ctx_ok_def realm_rtt_starting_level_def)
  from locked_walk_spec [OF inv rd L sl ipa sl3] obtain s0 wi s1 where
    lock: "granule_lock (s2_g_rtt (rd_s2_ctx rd)) GRANULE_STATE_RTT s = Some s0"
    and wk: "rtt_walk_lock_unlock (s2_g_rtt (rd_s2_ctx rd)) (realm_rtt_starting_level rd)
       (realm_ipa_bits rd) ipa 3 s0 = Some (wi, s1)"
    and w: "walk_result lv s (rd_s2_ctx rd) ipa 3 wi"
    and r1: "relocked s ((glock s)(g_llt wi := True)) s1" by auto
  have s1: "granules s1 = granules s" "content s1 = content s" "slots s1 = slots s"
    "vmids s1 = vmids s" "glock s1 = (glock s)(g_llt wi := True)"
    using r1 by (simp_all add: relocked_def)
  from walk_read [OF inv w s1(1,2)] sl s1(3) obtain t where
    "granule_map (g_llt wi) SLOT_RTT s1 = Some (map_slot SLOT_RTT (g_llt wi) s1)"
    "s2tte_read (g_llt wi) (index wi) (map_slot SLOT_RTT (g_llt wi) s1) = Some t" by auto
  moreover have "granule_unlock (g_llt wi) (buffer_unmap SLOT_RTT (map_slot SLOT_RTT (g_llt wi) s1))
      = Some (spinlock_release (g_llt wi) (buffer_unmap SLOT_RTT (map_slot SLOT_RTT (g_llt wi) s1)))"
    by (rule walk_unlock [OF inv w]) (simp add: s1)
  moreover have "call_effect R D s (spinlock_release (g_llt wi)
      (buffer_unmap SLOT_RTT (map_slot SLOT_RTT (g_llt wi) s1)))"
    using s1 nl sl by (intro call_effect_same) (auto simp: fun_eq_iff)
  ultimately show ?thesis using that lock wk by (simp add: ri' RTT_PAGE_LEVEL_def)
qed

lemma ipa_is_empty_safe:
  assumes r: "running lv par R D s" and l: "rec_of_realm R D s rec"
    and run: "ipa_is_empty ipa rec s = Some (b, s')"
  shows "call_effect R D s s'"
proof (cases "addr_in_rec_par rec ipa")
  case True
  from rec_walk_spec [OF r l True refl] obtain s0 wi s1 t where
    "granule_lock (ri_g_rtt (rec_realm_info rec)) GRANULE_STATE_RTT s = Some s0"
    "rtt_walk_lock_unlock (ri_g_rtt (rec_realm_info rec)) (ri_s2_starting_level (rec_realm_info rec))
       (ri_ipa_bits (rec_realm_info rec)) ipa RTT_PAGE_LEVEL s0 = Some (wi, s1)"
    "granule_map (g_llt wi) SLOT_RTT s1 = Some (map_slot SLOT_RTT (g_llt wi) s1)"
    "s2tte_read (g_llt wi) (index wi) (map_slot SLOT_RTT (g_llt wi) s1) = Some t"
    "granule_unlock (g_llt wi) (buffer_unmap SLOT_RTT (map_slot SLOT_RTT (g_llt wi) s1))
       = Some (spinlock_release (g_llt wi) (buffer_unmap SLOT_RTT (map_slot SLOT_RTT (g_llt wi) s1)))"
    "call_effect R D s (spinlock_release (g_llt wi) (buffer_unmap SLOT_RTT (map_slot SLOT_RTT (g_llt wi) s1)))" .
  then show ?thesis
    using run True by (auto simp: ipa_is_empty_def Let_def Option.bind_eq_Some_conv)
next
  case False
  then show ?thesis using run by (auto simp: ipa_is_empty_def Let_def Option.bind_eq_Some_conv)
qed

lemma ipa_state_get_safe:
  assumes r: "running lv par R D s" and l: "rec_of_realm R D s rec"
    and run: "handle_rsi_ipa_state_get rec s = Some (res, s')"
  shows "call_effect R D s s'"
proof (cases "\<not> GRANULE_ALIGNED (rec_regs rec ! 1) \<or> \<not> addr_in_rec_par rec (rec_regs rec ! 1)")
  case True
  then show ?thesis using run by (auto simp: handle_rsi_ipa_state_get_def)
next
  case False
  then have ip: "addr_in_rec_par rec (rec_regs rec ! 1)" by simp
  from run False obtain ws s1 where ws: "realm_ipa_get_ripas rec (rec_regs rec ! 1) s = Some (ws, s1)"
    by (auto simp: handle_rsi_ipa_state_get_def Option.bind_eq_Some_conv)
  have "s1 = s'" using run False ws by (cases ws) (simp_all add: handle_rsi_ipa_state_get_def)
  with ws have "realm_ipa_get_ripas rec (rec_regs rec ! 1) s = Some (ws, s')" by simp
  moreover from rec_walk_spec [OF r l ip refl] obtain s0 wi s1 t where
    "granule_lock (ri_g_rtt (rec_realm_info rec)) GRANULE_STATE_RTT s = Some s0"
    "rtt_walk_lock_unlock (ri_g_rtt (rec_realm_info rec)) (ri_s2_starting_level (rec_realm_info rec))
       (ri_ipa_bits (rec_realm_info rec)) (rec_regs rec ! 1) RTT_PAGE_LEVEL s0 = Some (wi, s1)"
    "granule_map (g_llt wi) SLOT_RTT s1 = Some (map_slot SLOT_RTT (g_llt wi) s1)"
    "s2tte_read (g_llt wi) (index wi) (map_slot SLOT_RTT (g_llt wi) s1) = Some t"
    "granule_unlock (g_llt wi) (buffer_unmap SLOT_RTT (map_slot SLOT_RTT (g_llt wi) s1))
       = Some (spinlock_release (g_llt wi) (buffer_unmap SLOT_RTT (map_slot SLOT_RTT (g_llt wi) s1)))"
    "call_effect R D s (spinlock_release (g_llt wi) (buffer_unmap SLOT_RTT (map_slot SLOT_RTT (g_llt wi) s1)))" .
  ultimately show ?thesis
    by (auto simp: realm_ipa_get_ripas_def Let_def Option.bind_eq_Some_conv)
qed

section \<open>The calls that write a page of the realm\<close>

lemma call_effect_page:
  assumes "gr \<in> D" and "granules t = granules s" and "content t = (content s)(gr := CData d)" and "vmids t = vmids s"
    and "glock t = glock s" and "slots t = slots s" and "gst s gr = GRANULE_STATE_DATA"
  shows "call_effect R D s t"
  using realm_effect_upd [of t s gr "CData d"] assms by (simp add: call_effect_def content_change_def)

text \<open>The walk on the mapped descriptor, with what follows a success.\<close>

lemma mapped_walk:
  assumes r: "running lv par R D s" and l: "rec_of_realm R D s rec" and g: "g_rd = ri_g_rd (rec_realm_info rec)"
    and run: "realm_ipa_to_pa rd ipa res (map_slot SLOT_RD g_rd s) = Some ((ws, res'), s')"
    and rd: "content s g_rd = CRd rd"
  shows "granules s' = granules s" "content s' = content s" "vmids s' = vmids s"
    "slots s' = (slots s)(SLOT_RD := Some g_rd)"
    "ws \<noteq> WALK_SUCCESS \<Longrightarrow> glock s' = glock s"
    "ws = WALK_SUCCESS \<Longrightarrow> glock s' = (glock s)(w_llt res' := True)"
    "ws = WALK_SUCCESS \<Longrightarrow> granules t = granules s \<Longrightarrow>
       granule_unlock (w_llt res') t = Some (spinlock_release (w_llt res') t)"
    "ws = WALK_SUCCESS \<Longrightarrow> find_granule (w_pa res') = Some gr \<Longrightarrow>
       gst s gr = GRANULE_STATE_DATA \<and> gr \<in> D"
    "ws = WALK_SUCCESS \<Longrightarrow> find_granule (w_pa res') = Some gr \<Longrightarrow>
       granule_map gr SLOT_RSI_CALL s' = Some (map_slot SLOT_RSI_CALL gr s')"
proof -
  have inv: "inv_with lv par s" and sl: "slots s SLOT_RTT = None" "slots s SLOT_RSI_CALL = None"
    and nl: "\<And>x. \<not> glock s x"
    using r by (auto simp: running_def run_slots_free_def)
  from l g rd have gr: "g_rd < RMM_MAX_GRANULES" "gst s g_rd = GRANULE_STATE_RD"
    by (auto simp: rec_of_realm_def)
  let ?m = "map_slot SLOT_RD g_rd s"
  have invm: "inv_with lv par ?m" using inv by (rule inv_with_same) simp_all
  have m: "gst ?m g_rd = GRANULE_STATE_RD" "content ?m g_rd = CRd rd"
    "\<And>x. glock ?m x \<Longrightarrow> gst ?m x \<noteq> GRANULE_STATE_RTT" "slots ?m SLOT_RTT = None"
    using gr rd nl sl by simp_all
  note sp = realm_ipa_to_pa_spec [OF invm gr(1) m run]
  show "granules s' = granules s" "content s' = content s" "vmids s' = vmids s"
    "slots s' = (slots s)(SLOT_RD := Some g_rd)" using sp by simp_all
  then have sl': "slots s' SLOT_RSI_CALL = None" using sl by simp
  show "ws \<noteq> WALK_SUCCESS \<Longrightarrow> glock s' = glock s" using sp by (cases ws) simp_all
  show "ws = WALK_SUCCESS \<Longrightarrow> glock s' = (glock s)(w_llt res' := True)" using sp by simp
  show "ws = WALK_SUCCESS \<Longrightarrow> granules t = granules s \<Longrightarrow>
       granule_unlock (w_llt res') t = Some (spinlock_release (w_llt res') t)"
    using sp running_unlock [OF r] by simp
  have "mem_map ?m = mem_map s" by (intro ext) (simp add: mem_map_def split: content.split)
  then have "realm_pages ?m g_rd = realm_pages s g_rd" by (simp add: realm_pages_def)
  moreover have "realm_pages s g_rd \<subseteq> D"
    using r l g by (simp add: running_def rec_of_realm_def)
  ultimately show "ws = WALK_SUCCESS \<Longrightarrow> find_granule (w_pa res') = Some gr \<Longrightarrow>
       gst s gr = GRANULE_STATE_DATA \<and> gr \<in> D"
    using sp by auto
  show "ws = WALK_SUCCESS \<Longrightarrow> find_granule (w_pa res') = Some gr \<Longrightarrow>
       granule_map gr SLOT_RSI_CALL s' = Some (map_slot SLOT_RSI_CALL gr s')"
    using sl' find_granule_bound by (simp add: granule_map_eq)
qed

lemma realm_config_safe:
  assumes r: "running lv par R D s" and l: "rec_of_realm R D s rec"
    and run: "handle_rsi_realm_config rec res0 s = Some (res, s')"
  shows "call_effect R D s s'"
proof (cases "\<not> GRANULE_ALIGNED (rec_regs rec ! 1) \<or> \<not> addr_in_rec_par rec (rec_regs rec ! 1)")
  case True
  then show ?thesis using run by (auto simp: handle_rsi_realm_config_def)
next
  case False
  let ?g = "ri_g_rd (rec_realm_info rec)"
  have sl: "slots s SLOT_RD = None" "slots s SLOT_RSI_CALL = None" and nl: "\<And>x. \<not> glock s x"
    using r by (auto simp: running_def run_slots_free_def)
  show ?thesis
  proof (rule running_rd [OF r l refl])
    fix rd assume rd: "content s ?g = CRd rd" "granule_map ?g SLOT_RD s = Some (map_slot SLOT_RD ?g s)"
    from run False rd obtain ws res' s1 where
      w: "realm_ipa_to_pa rd (rec_regs rec ! 1) res0 (map_slot SLOT_RD ?g s) = Some ((ws, res'), s1)"
      by (auto simp: handle_rsi_realm_config_def Option.bind_eq_Some_conv)
    note mw = mapped_walk [OF r l refl w rd(1)]
    have sf: "(slots s)(SLOT_RD := None) = slots s"
      "(slots s)(SLOT_RSI_CALL := None) = slots s" using sl by (auto simp: fun_eq_iff)
    show ?thesis
    proof (cases ws)
      case WALK_SUCCESS
      from run False rd w WALK_SUCCESS obtain gr s2 where
        gr: "find_granule (w_pa res') = Some gr"
        and wr: "write_ipa_width gr (of_nat (ri_ipa_bits (rec_realm_info rec))) (map_slot SLOT_RSI_CALL gr s1) = Some s2"
        and s': "s' = buffer_unmap SLOT_RD (spinlock_release (w_llt res') (buffer_unmap SLOT_RSI_CALL s2))"
        by (auto simp: handle_rsi_realm_config_def Option.bind_eq_Some_conv mw write_ipa_width_def)
      from wr obtain d where s2: "s2 = set_content gr (CData d) (map_slot SLOT_RSI_CALL gr s1)"
        by (auto simp: write_ipa_width_def Option.bind_eq_Some_conv)
      show ?thesis
        using mw(1-4) mw(6,8) [OF WALK_SUCCESS] gr nl sf
        by (intro call_effect_page [where gr = gr and d = d]) (auto simp: s' s2 fun_eq_iff sl)
    qed (use run False rd w mw(1-5) sf sl in
      \<open>auto simp: handle_rsi_realm_config_def fun_eq_iff intro!: call_effect_same split: if_splits\<close>)
  qed
qed

lemma do_host_call_safe:
  assumes r: "running lv par R D s" and l: "rec_of_realm R D s rec"
    and run: "do_host_call res0 rec io s = Some (x, s')"
  shows "call_effect R D s s'"
proof (cases "addr_in_rec_par rec (rec_regs rec ! 1)")
  case False
  then show ?thesis using run by (simp add: do_host_call_def Let_def)
next
  case True
  let ?g = "ri_g_rd (rec_realm_info rec)" and ?ipa = "rec_regs rec ! 1 AND NOT 0xfff"
  have sl: "slots s SLOT_RD = None" "slots s SLOT_RSI_CALL = None" and nl: "\<And>x. \<not> glock s x"
    using r by (auto simp: running_def run_slots_free_def)
  show ?thesis
  proof (rule running_rd [OF r l refl])
    fix rd assume rd: "content s ?g = CRd rd" "granule_map ?g SLOT_RD s = Some (map_slot SLOT_RD ?g s)"
    from run True rd obtain ws res' s1 where
      w: "realm_ipa_to_pa rd ?ipa res0 (map_slot SLOT_RD ?g s) = Some ((ws, res'), s1)"
      by (auto simp: do_host_call_def Let_def Option.bind_eq_Some_conv)
    note mw = mapped_walk [OF r l refl w rd(1)]
    have sf: "(slots s)(SLOT_RD := None) = slots s"
      "(slots s)(SLOT_RSI_CALL := None) = slots s" using sl by (auto simp: fun_eq_iff)
    show ?thesis
    proof (cases ws)
      case WALK_SUCCESS
      let ?m = "\<lambda>gr. map_slot SLOT_RSI_CALL gr s1"
      from run True rd w WALK_SUCCESS obtain gr data where
        gr: "find_granule (w_pa res') = Some gr"
        and dd: "page_bytes (content s1 gr) = Some data"
        and s': "s' = buffer_unmap SLOT_RD (spinlock_release (w_llt res') (buffer_unmap SLOT_RSI_CALL
            (case io of Inl e \<Rightarrow> ?m gr
             | Inr e \<Rightarrow> set_content gr (CData (copy_from_entry
                 (unat (rec_regs rec ! 1 - ?ipa)) e data)) (?m gr))))"
        by (cases io) (auto simp: do_host_call_def Let_def Option.bind_eq_Some_conv mw)
      show ?thesis
      proof (cases io)
        case (Inl e)
        then show ?thesis
          using mw(1-4) mw(6) [OF WALK_SUCCESS] sf nl
          by (intro call_effect_same) (auto simp: s' fun_eq_iff sl)
      next
        case (Inr e)
        then show ?thesis
          using mw(1-4) mw(6,8) [OF WALK_SUCCESS] gr sf nl
          by (intro call_effect_page [where gr = gr]) (auto simp: s' fun_eq_iff sl)
      qed
    qed (use run True rd w mw(1-5) sf sl in
      \<open>auto simp: do_host_call_def Let_def fun_eq_iff intro!: call_effect_same split: if_splits\<close>)
  qed
qed

lemma rsi_host_call_safe:
  assumes r: "running lv par R D s" and l: "rec_of_realm R D s rec"
  shows "handle_rsi_host_call res0 rec e s = Some (x, s') \<Longrightarrow> call_effect R D s s'"
    and "complete_rsi_host_call res0 rec en s = Some (y, s') \<Longrightarrow> call_effect R D s s'"
  using do_host_call_safe [OF r l]
  by (auto simp: handle_rsi_host_call_def complete_rsi_host_call_def Let_def Option.bind_eq_Some_conv
      split: if_splits)

lemma token_write_safe:
  assumes r: "running lv par R D s" and l: "rec_of_realm R D s rec"
    and run: "attest_token_continue_write_state lib rec res s = Some ((rec', res'), s')"
  shows "call_effect R D s s' \<and> rec_kept rec rec'"
proof -
  let ?g = "ri_g_rd (rec_realm_info rec)"
  have sl: "slots s SLOT_RD = None" "slots s SLOT_RSI_CALL = None" and nl: "\<And>x. \<not> glock s x"
    using r by (auto simp: running_def run_slots_free_def)
  show ?thesis
  proof (rule running_rd [OF r l refl])
    fix rd assume rd: "content s ?g = CRd rd" "granule_map ?g SLOT_RD s = Some (map_slot SLOT_RD ?g s)"
    from run rd obtain ws wres s1 where
      w: "realm_ipa_to_pa rd (rec_regs rec ! 1) zero_walk (map_slot SLOT_RD ?g s) = Some ((ws, wres), s1)"
      by (auto simp: attest_token_continue_write_state_def Let_def Option.bind_eq_Some_conv)
    note mw = mapped_walk [OF r l refl w rd(1)]
    have sf: "(slots s)(SLOT_RD := None) = slots s"
      "(slots s)(SLOT_RSI_CALL := None) = slots s" using sl by (auto simp: fun_eq_iff)
    have u: "granules (buffer_unmap SLOT_RD s1) = granules s" by (simp add: mw)
    have gm: "granule_map gr SLOT_RSI_CALL (buffer_unmap SLOT_RD s1)
        = Some (map_slot SLOT_RSI_CALL gr (buffer_unmap SLOT_RD s1))"
      if "find_granule (w_pa wres) = Some gr" for gr
      using find_granule_bound [OF that] sl mw(4) by (simp add: granule_map_eq)
    show ?thesis
    proof (cases ws)
      case WALK_SUCCESS
      from run rd w WALK_SUCCESS obtain gr d where
        gr: "find_granule (w_pa wres) = Some gr"
        and s': "s' = spinlock_release (w_llt wres) (buffer_unmap SLOT_RSI_CALL
            (set_content gr (CData d) (map_slot SLOT_RSI_CALL gr (buffer_unmap SLOT_RD s1))))"
        and k: "rec_kept rec rec'"
        by (auto simp: attest_token_continue_write_state_def Let_def Option.bind_eq_Some_conv mw gm)
      have "call_effect R D s s'"
        using mw(1-4) mw(6,8) [OF WALK_SUCCESS] gr sf nl
        by (intro call_effect_page [where gr = gr]) (auto simp: s' fun_eq_iff sl)
      then show ?thesis using k by simp
    qed (use run rd w mw(1-5) sf sl in
      \<open>auto simp: attest_token_continue_write_state_def Let_def fun_eq_iff intro!: call_effect_same
         split: if_splits\<close>)
  qed
qed

lemma token_sign_kept:
  assumes "attest_token_continue_sign_state lib rec res = Some (rec', res')"
  shows "rec_kept rec rec'"
  using assms
  by (auto simp: attest_token_continue_sign_state_def Let_def rec_kept_def split: prod.splits if_splits)

lemma token_continue_safe:
  assumes r: "running lv par R D s" and l: "rec_of_realm R D s rec"
    and run: "handle_rsi_attest_token_continue lib heap rec res s = Some ((rec', res'), s')"
  shows "call_effect R D s s' \<and> rec_kept rec rec'"
  using run token_write_safe [OF r l]
  by (auto simp: handle_rsi_attest_token_continue_def Let_def Option.bind_eq_Some_conv
      dest!: token_sign_kept signer_heap_safe [OF l] intro: rec_kept_trans
      split: if_splits attest_token_gen_state_t.splits)

section \<open>Device memory\<close>

text \<open>
  While the pages are collected the only locks are those of the descriptor and of the pages
  found so far; the walk stands still after a failure, so that the pages found are those
  with the first indices.
\<close>

definition page_at :: "dev_pages \<Rightarrow> nat \<Rightarrow> nat \<Rightarrow> bool" where
  "page_at pages j x \<longleftrightarrow> (\<exists>pa ipa. pages j = Some (pa, ipa, x))"

definition pages_upto :: "dev_pages \<Rightarrow> nat \<Rightarrow> nat set" where
  "pages_upto pages k = {x. \<exists>j<k. page_at pages j x}"

lemma pages_upto_0 [simp]: "pages_upto pages 0 = {}"
  by (simp add: pages_upto_def)

lemma pages_upto_Suc:
  "pages_upto (pages(i \<mapsto> (pa, ipa, gr))) (i + 1) = insert gr (pages_upto pages i)"
proof -
  have "page_at (pages(i \<mapsto> (pa, ipa, gr))) j x \<longleftrightarrow> (if j = i then x = gr else page_at pages j x)" for j x
    by (simp add: page_at_def eq_commute)
  then have "(\<exists>j<i + 1. page_at (pages(i \<mapsto> (pa, ipa, gr))) j x) \<longleftrightarrow> x = gr \<or> (\<exists>j<i. page_at pages j x)" for x
    by (metis add.commute less_irrefl plus_1_eq_Suc less_Suc_eq)
  then show ?thesis by (auto simp: pages_upto_def)
qed

definition dev_locks :: "rmm \<Rightarrow> nat \<Rightarrow> nat \<Rightarrow> dev_pages \<Rightarrow> rmm \<Rightarrow> bool" where
  "dev_locks s g_rd k pages t \<longleftrightarrow> granules t = granules s \<and> content t = content s
     \<and> vmids t = vmids s \<and> slots t = (slots s)(SLOT_RD := Some g_rd)
     \<and> (\<forall>x. glock t x \<longrightarrow> x = g_rd \<or> x \<in> pages_upto pages k)
     \<and> (\<forall>x. glock t x \<longrightarrow> gst s x \<noteq> GRANULE_STATE_RTT)"

lemma dev_locks_release: "dev_locks s g_rd k pages t \<Longrightarrow> dev_locks s g_rd k pages (spinlock_release g t)"
  by (auto simp: dev_locks_def)

lemma dev_mem_walk_locks:
  assumes inv: "inv_with lv par s" and g: "g_rd < RMM_MAX_GRANULES"
    and st: "gst s g_rd = GRANULE_STATE_RD" and rd: "content s g_rd = CRd rd"
    and sl: "slots s SLOT_RTT = None"
  shows "dev_mem_walk res0 rd n i ipa ret k pages t = Some ((ret', k', pages'), t') \<Longrightarrow>
    dev_locks s g_rd k pages t \<Longrightarrow> k = i \<or> \<not> page_mapped (content s) rd ipa \<Longrightarrow>
    dev_locks s g_rd k' pages' t'"
proof (induction n arbitrary: i ipa ret k pages t)
  case 0
  then show ?case by simp
next
  case (Suc n)
  from Suc.prems(1) obtain ws res' t1 where
    w: "realm_ipa_to_pa rd ipa res0 t = Some ((ws, res'), t1)"
    by (auto simp: Option.bind_eq_Some_conv)
  have t: "granules t = granules s" "content t = content s" "slots t SLOT_RTT = None"
    "\<And>x. glock t x \<Longrightarrow> gst t x \<noteq> GRANULE_STATE_RTT"
    using Suc.prems(2) sl by (auto simp: dev_locks_def)
  have invt: "inv_with lv par t" using inv t(1,2) by (rule inv_with_same)
  have gt: "gst t g_rd = GRANULE_STATE_RD" "content t g_rd = CRd rd" using st rd t by simp_all
  note sp = realm_ipa_to_pa_spec [OF invt g gt t(4) t(3) w]
  show ?case
  proof (cases ws)
    case WALK_SUCCESS
    then have ki: "k = i" using Suc.prems(3) sp t by simp
    from Suc.prems(1) w WALK_SUCCESS obtain gr t2 where gr: "find_granule (w_pa res') = Some gr"
      and lock: "granule_lock gr GRANULE_STATE_DATA t1 = Some t2"
      and rest: "dev_mem_walk res0 rd n (i + 1) (ipa + GRANULE_SIZE) ret (k + 1)
         (pages(i \<mapsto> (w_pa res', ipa, gr))) (spinlock_release (w_llt res') t2) = Some ((ret', k', pages'), t')"
      by (auto simp: Option.bind_eq_Some_conv dest!: granule_unlock_SomeD)
    have t2: "t2 = lock_g gr GRANULE_STATE_DATA t1"
      using lock by (auto simp: granule_lock_def Option.bind_eq_Some_conv dest: granule_lock_on_state_match_SomeD)
    have d: "gst s gr = GRANULE_STATE_DATA" using sp WALK_SUCCESS gr t by auto
    have "dev_locks s g_rd (k + 1) (pages(i \<mapsto> (w_pa res', ipa, gr))) (spinlock_release (w_llt res') t2)"
      using Suc.prems(2) sp WALK_SUCCESS t2 ki d
      by (auto simp: dev_locks_def pages_upto_Suc [simplified] split: if_splits)
    then show ?thesis by (rule Suc.IH [OF rest]) (simp add: ki)
  next
    case WALK_FAIL
    then have nm: "\<not> page_mapped (content s) rd ipa" using sp t by simp
    from Suc.prems(1) w WALK_FAIL obtain r where
      rest: "dev_mem_walk res0 rd n (i + 1) ipa r k pages (spinlock_release (w_llt res') t1)
        = Some ((ret', k', pages'), t')"
      by (auto simp: Option.bind_eq_Some_conv dest!: granule_unlock_SomeD split: if_splits)
    have "dev_locks s g_rd k pages t1" using Suc.prems(2) sp WALK_FAIL by (simp add: dev_locks_def)
    then show ?thesis using Suc.IH [OF rest] nm dev_locks_release by blast
  next
    case WALK_INVALID_PARAMS
    then have nm: "\<not> page_mapped (content s) rd ipa" using sp t by simp
    from Suc.prems(1) w WALK_INVALID_PARAMS obtain r where
      rest: "dev_mem_walk res0 rd n (i + 1) ipa r k pages (spinlock_release (w_llt res') t1)
        = Some ((ret', k', pages'), t')"
      by (auto simp: Option.bind_eq_Some_conv dest!: granule_unlock_SomeD)
    have "dev_locks s g_rd k pages t1" using Suc.prems(2) sp WALK_INVALID_PARAMS by simp
    then show ?thesis using Suc.IH [OF rest] nm dev_locks_release by blast
  qed
qed

lemma delegate_dev_emits:
  "smc_granule_delegate_dev mc a fl iova t = Some (r, t') \<Longrightarrow> \<exists>e. t' = emit e t"
  by (auto simp: smc_granule_delegate_dev_def asc_mark_secure_dev_def monitor_call_def
      Option.bind_eq_Some_conv)

lemma dev_mem_delegate_locks:
  "dev_mem_delegate mc fl js pages ret t = Some (ret', t') \<Longrightarrow> dev_locks s g_rd k ps t \<Longrightarrow>
    dev_locks s g_rd k ps t'"
proof (induction js arbitrary: ret t)
  case (Cons j js)
  from Cons.prems(1) obtain pa ipa gr r t1 where
    d: "smc_granule_delegate_dev mc pa fl ipa t = Some (r, t1)"
    and rest: "t' = t1 \<or> dev_mem_delegate mc fl js pages r t1 = Some (ret', t')"
    by (auto simp: Option.bind_eq_Some_conv split: if_splits)
  from delegate_dev_emits [OF d] Cons.prems(2) have "dev_locks s g_rd k ps t1" by (auto simp: dev_locks_def)
  then show ?case using rest Cons.IH by blast
qed simp

lemma dev_mem_unlock_locks:
  "dev_mem_unlock js pages t = Some t' \<Longrightarrow> granules t' = granules t \<and> content t' = content t
    \<and> vmids t' = vmids t \<and> slots t' = slots t
    \<and> (\<forall>x. glock t' x \<longrightarrow> glock t x \<and> (\<forall>j\<in>set js. \<not> page_at pages j x))"
proof (induction js arbitrary: t)
  case (Cons j js)
  from Cons.prems obtain pa ipa gr where p: "pages j = Some (pa, ipa, gr)"
    and rest: "dev_mem_unlock js pages (spinlock_release gr t) = Some t'"
    by (auto simp: Option.bind_eq_Some_conv dest!: granule_unlock_SomeD)
  show ?case using Cons.IH [OF rest] p by (auto simp: page_at_def split: if_splits)
qed simp

lemma dev_mem_safe:
  assumes r: "running lv par R D s" and l: "rec_of_realm R D s rec"
    and run: "handle_rsi_dev_mem mc res0 rec s = Some (ret, s')"
  shows "call_effect R D s s'"
proof (rule running_rd_locked [OF r l refl])
  fix rd
  let ?g = "ri_g_rd (rec_realm_info rec)"
  let ?m = "map_slot SLOT_RD ?g (lock_g ?g GRANULE_STATE_RD s)"
  let ?ipa = "rec_regs rec ! 1 AND NOT 0xfff"
  assume rd: "?g < RMM_MAX_GRANULES" "gst s ?g = GRANULE_STATE_RD" "content s ?g = CRd rd"
    "granule_lock ?g GRANULE_STATE_RD s = Some (lock_g ?g GRANULE_STATE_RD s)"
    "granule_map ?g SLOT_RD (lock_g ?g GRANULE_STATE_RD s) = Some ?m"
  have inv: "inv_with lv par s" and sl: "slots s SLOT_RTT = None" "slots s SLOT_RD = None"
    and nl: "\<And>x. \<not> glock s x"
    using r by (auto simp: running_def run_slots_free_def)
  from run rd obtain r0 r1 k pages t1 t2 t3 where
    walk: "dev_mem_walk res0 rd (unat (rec_regs rec ! 3)) 0 ?ipa r0 0 Map.empty ?m = Some ((r1, k, pages), t1)"
    and del: "dev_mem_delegate mc (rec_regs rec ! 2) [0..<k] pages r1 t1 = Some (ret, t2)"
    and unl: "dev_mem_unlock [0..<k] pages t2 = Some t3"
    and s': "s' = spinlock_release ?g (buffer_unmap SLOT_RD t3)"
    by (auto simp: handle_rsi_dev_mem_def Let_def Option.bind_eq_Some_conv
        dest!: granule_unlock_SomeD split: if_splits)
  have "dev_locks s ?g 0 Map.empty ?m" using rd(2) nl by (auto simp: dev_locks_def split: if_splits)
  from dev_mem_walk_locks [OF inv rd(1-3) sl(1) walk this] have "dev_locks s ?g k pages t1" by simp
  with del have 2: "dev_locks s ?g k pages t2" by (rule dev_mem_delegate_locks)
  note 3 = dev_mem_unlock_locks [OF unl]
  have "\<not> glock s' x" for x using 2 3 by (auto simp: s' dev_locks_def pages_upto_def)
  then show ?thesis
    using 2 3 nl sl by (intro call_effect_same) (auto simp: s' dev_locks_def fun_eq_iff)
qed

end
