(* ===== verification/Run_Exit_Safe.thy ===== *)
theory Run_Exit_Safe
  imports Run_Safe Rec_Enter
begin

text \<open>
  The exits of a realm and the whole run: whatever a realm does, the monitor's memory
  changes by effects of a realm only.
\<close>

section \<open>Steps of a run\<close>

definition run_ok ::
  "(nat \<Rightarrow> int) \<Rightarrow> (nat \<Rightarrow> owner) \<Rightarrow> nat \<Rightarrow> nat set \<Rightarrow> run_state \<Rightarrow> bool" where
  "run_ok lv par R D r \<longleftrightarrow> running lv par R D (rs_mem r) \<and> rec_of_realm R D (rs_mem r) (rs_rec r)"

definition run_step :: "nat \<Rightarrow> nat set \<Rightarrow> run_state \<Rightarrow> run_state \<Rightarrow> bool" where
  "run_step R D r r' \<longleftrightarrow> call_effect R D (rs_mem r) (rs_mem r') \<and> rec_kept (rs_rec r) (rs_rec r')"

lemma run_step_refl [simp]: "run_step R D r r" by (simp add: run_step_def)

lemma run_step_trans: "run_step R D r s \<Longrightarrow> run_step R D s t \<Longrightarrow> run_step R D r t"
  using call_effect_trans rec_kept_trans by (auto simp: run_step_def)

lemma run_ok_step: "run_ok lv par R D r \<Longrightarrow> run_step R D r r' \<Longrightarrow> run_ok lv par R D r'"
  unfolding run_ok_def run_step_def
  by (metis call_effect_def running_effect rec_of_realm_effect rec_of_realm_kept)

lemma run_okD:
  assumes "run_ok lv par R D r"
  shows "running lv par R D (rs_mem r)" "rec_of_realm R D (rs_mem r) (rs_rec r)"
  using assms by (simp_all add: run_ok_def)

lemma run_stepI:
  "rs_mem r' = rs_mem r \<Longrightarrow> rec_kept (rs_rec r) (rs_rec r') \<Longrightarrow> run_step R D r r'"
  by (simp add: run_step_def)

lemma run_step_simps [simp]:
  "run_step R D r (r'\<lparr>rs_pe := p\<rparr>) = run_step R D r r'" "run_step R D r (r'\<lparr>rs_exit := e\<rparr>) = run_step R D r r'"
  "run_step R D r (set_reg i v r') = run_step R D r r'" "run_step R D r (advance_pc r') = run_step R D r r'"
  "run_step R D r (r'\<lparr>rs_rec := rs_rec r'\<lparr>rec_host_call := b\<rparr>, rs_exit := e\<rparr>) = run_step R D r r'"
  "run_step R D r (r'\<lparr>rs_rec := rs_rec r'\<lparr>rec_fpu_used := b\<rparr>, rs_pe := p\<rparr>) = run_step R D r r'"
  by (auto simp: run_step_def rec_kept_def set_reg_def advance_pc_def)

lemma run_step_set_regs [simp]: "length vs \<le> 31 \<Longrightarrow> run_step R D r r' \<Longrightarrow> run_step R D r (set_regs vs r')"
  by (auto simp: run_step_def rec_kept_def set_regs_def)

lemma run_step_return [simp]: "run_step R D r r' \<Longrightarrow> run_step R D r (return_result_to_realm x r')"
  by (simp add: return_result_to_realm_def)

lemma run_step_mem [simp]:
  "run_step R D r (r\<lparr>rs_mem := s\<rparr>) = call_effect R D (rs_mem r) s"
  "run_step R D r (r\<lparr>rs_exit := e, rs_mem := s\<rparr>) = call_effect R D (rs_mem r) s"
  "run_step R D r (r\<lparr>rs_rec := rec, rs_mem := s\<rparr>)
     = (call_effect R D (rs_mem r) s \<and> rec_kept (rs_rec r) rec)"
  by (auto simp: run_step_def)

lemma call_effect_emit [simp]: "call_effect R D s (emit e s)"
  by (rule call_effect_same) simp_all

section \<open>Calls\<close>

lemma abort_to_host_safe: "abort_to_host l r = Some (b, r') \<Longrightarrow> run_step R D r r'"
  by (auto simp: abort_to_host_def Option.bind_eq_Some_conv)

lemma abort_to_host_safe': "abort_to_host l r1 = Some (b, r') \<Longrightarrow> run_step R D r r1 \<Longrightarrow> run_step R D r r'"
  using abort_to_host_safe run_step_trans by blast

lemma rsi_psci_run:
  assumes ok: "run_ok lv par R D r" and run: "rsi_psci P fid r = Some (b, r')"
  shows "run_step R D r r'"
proof -
  from run obtain res rec s where
    p: "psci_rsi (pl_psci P) (rs_rec r) fid (reg 1 r) (reg 2 r) (reg 3 r) (rs_mem r) = Some ((res, rec), s)"
    by (auto simp: rsi_psci_def Option.bind_eq_Some_conv)
  have "call_effect R D (rs_mem r) s \<and> rec_kept (rs_rec r) rec"
    by (rule psci_rsi_safe [OF run_okD [OF ok] p])
  then show ?thesis using run p
    by (auto simp: rsi_psci_def Let_def split: if_splits)
qed

lemma attest_loop_run:
  "attest_loop P reads res r = Some (b, r') \<Longrightarrow> run_ok lv par R D r \<Longrightarrow> run_step R D r r'"
proof (induction P reads res r rule: attest_loop.induct)
  case (1 P reads res r)
  from 1(2) obtain rec res' s where
    c: "handle_rsi_attest_token_continue (pl_lib P) (heap_ctx (rs_pe r)) (rs_rec r) res (rs_mem r) = Some ((rec, res'), s)"
    by (auto simp: attest_loop.simps [of P reads] Option.bind_eq_Some_conv)
  let ?r1 = "r\<lparr>rs_rec := rec, rs_mem := s\<rparr>"
  have st: "run_step R D r ?r1" using token_continue_safe [OF run_okD [OF 1(3)] c] by simp
  show ?case
  proof (cases "ar_incomplete res'")
    case False
    then show ?thesis using 1(2) c st
      by (auto simp: attest_loop.simps [of P reads] Let_def abort_to_host_def Option.bind_eq_Some_conv
          split: if_splits)
  next
    case inc: True
    then obtain isr rest where rd: "reads = isr # rest"
      using 1(2) c by (cases reads) (simp_all add: attest_loop.simps [of P "[]"])
    let ?r2 = "?r1\<lparr>rs_pe := (rs_pe ?r1)\<lparr>isr_reads := rest\<rparr>\<rparr>"
    have st2: "run_step R D r ?r2" using st by simp
    show ?thesis
    proof (cases "isr = 0")
      case False
      then show ?thesis using 1(2) c inc rd st
        by (auto simp: attest_loop.simps [of P "isr # rest"] Let_def)
    next
      case True
      then have l: "attest_loop P rest res' ?r2 = Some (b, r')"
        using 1(2) c inc rd by (simp add: attest_loop.simps [of P "0 # rest"] Let_def)
      have "run_step R D ?r2 r'"
        using 1(1) c inc rd True l run_ok_step [OF 1(3) st2] by simp
      with st2 show ?thesis by (rule run_step_trans)
    qed
  qed
qed

lemma rsi_walk_return_run: "rsi_walk_return res r1 = Some (b, r') \<Longrightarrow> run_step R D r r1 \<Longrightarrow> run_step R D r r'"
  by (auto simp: rsi_walk_return_def dest: abort_to_host_safe' split: if_splits)

lemma rsi_host_call_run:
  assumes ok: "run_ok lv par R D r" and run: "rsi_host_call P r = Some (b, r')"
  shows "run_step R D r r'"
proof -
  from run obtain ret walk e s where
    h: "handle_rsi_host_call (pl_walk P) (rs_rec r) (rs_exit r) (rs_mem r) = Some ((ret, walk, e), s)"
    by (auto simp: rsi_host_call_def Option.bind_eq_Some_conv)
  have "call_effect R D (rs_mem r) s" by (rule rsi_host_call_safe(1) [OF run_okD [OF ok] h])
  then have "run_step R D r (r\<lparr>rs_exit := e, rs_mem := s\<rparr>)" by simp
  then show ?thesis using run h
    by (auto simp: rsi_host_call_def Let_def run_step_def rec_kept_def set_reg_def advance_pc_def
        abort_to_host_def Option.bind_eq_Some_conv split: if_splits)
qed

lemma ipa_state_set_kept:
  "handle_rsi_ipa_state_set rec e = Some (Some (rec', e')) \<Longrightarrow> rec_kept rec rec'"
  by (auto simp: handle_rsi_ipa_state_set_def Let_def rec_kept_def Option.bind_eq_Some_conv
      split: option.splits if_splits)

lemma handle_realm_rsi_run:
  assumes ok: "run_ok lv par R D r" and run: "handle_realm_rsi P r = Some (b, r')"
  shows "run_step R D r r'"
proof -
  note ro = run_okD [OF ok]
  have psci: "rsi_psci P fid r = Some (b, r') \<Longrightarrow> run_step R D r r'" for fid by (rule rsi_psci_run [OF ok])
  have loop: "attest_loop P reads res r = Some (b, r') \<Longrightarrow> run_step R D r r'" for reads res
    using attest_loop_run ok by blast
  have host: "rsi_host_call P r = Some (b, r') \<Longrightarrow> run_step R D r r'" by (rule rsi_host_call_run [OF ok])
  have walk: "run_step R D r r'" if "rsi_walk_return a (r\<lparr>rs_mem := s\<rparr>) = Some (b, r')"
    "call_effect R D (rs_mem r) s" for a s
    using rsi_walk_return_run [OF that(1)] that(2) by simp
  have state_set: "run_step R D r r'" if "handle_rsi_ipa_state_set (rs_rec r) (rs_exit r) = Some y"
    "(case y of None \<Rightarrow> Some (True, set_reg 0 RSI_ERROR_INPUT r)
      | Some (rec, e) \<Rightarrow> Some (False, advance_pc (r\<lparr>rs_rec := rec, rs_exit := e\<rparr>))) = Some (b, r')" for y
    using that by (cases y) (auto simp: run_step_def advance_pc_def set_reg_def rec_kept_def
      dest: ipa_state_set_kept [unfolded rec_kept_def])
  show ?thesis
    using run unfolding handle_realm_rsi_def Let_def
    by (elim if_Some_cases psci loop host)
      (auto simp: Option.bind_eq_Some_conv dest: attest_token_init_safe [OF ro] read_measurement_safe [OF ro]
        extend_measurement_safe [OF ro] realm_config_safe [OF ro] ipa_state_get_safe [OF ro]
        dev_mem_safe [OF ro] intro: walk state_set)
qed

section \<open>Exceptions\<close>

lemma sync_external_abort_run:
  "handle_sync_external_abort esr r = Some (b, r') \<Longrightarrow> run_step R D r r'"
  by (auto simp: handle_sync_external_abort_def Let_def Option.bind_eq_Some_conv split: if_splits)

lemma ipa_is_empty_run:
  assumes "run_ok lv par R D r" and "ipa_is_empty ipa (rs_rec r) (rs_mem r) = Some (b, s)"
  shows "run_step R D r (r\<lparr>rs_mem := s\<rparr>)"
  using ipa_is_empty_safe [OF run_okD [OF assms(1)] assms(2)] by simp

lemma handle_data_abort_run:
  assumes ok: "run_ok lv par R D r" and run: "handle_data_abort esr r = Some (b, r')"
  shows "run_step R D r r'"
proof -
  from run obtain ext r1 where e: "handle_sync_external_abort esr r = Some (ext, r1)"
    by (auto simp: handle_data_abort_def Let_def Option.bind_eq_Some_conv)
  note st = sync_external_abort_run [OF e]
  show ?thesis
  proof (cases ext)
    case True
    then show ?thesis using run e st by (simp add: handle_data_abort_def Let_def)
  next
    case False
    then obtain em s where i:
      "ipa_is_empty (fault_ipa (hw_hpfar_el2 (rs_pe r))) (rs_rec r1) (rs_mem r1) = Some (em, s)"
      using run e by (auto simp: handle_data_abort_def Let_def Option.bind_eq_Some_conv)
    have "run_step R D r (r1\<lparr>rs_mem := s\<rparr>)"
      using run_step_trans [OF st ipa_is_empty_run [OF run_ok_step [OF ok st] i]] .
    then show ?thesis using run e i False
      by (auto simp: handle_data_abort_def Let_def Option.bind_eq_Some_conv split: if_splits prod.splits)
  qed
qed

lemma handle_instruction_abort_run:
  assumes ok: "run_ok lv par R D r" and run: "handle_instruction_abort esr r = Some (b, r')"
  shows "run_step R D r r'"
proof -
  let ?ipa = "fault_ipa (hw_hpfar_el2 (rs_pe r))"
  from run obtain ext r1 where e: "handle_sync_external_abort esr r = Some (ext, r1)"
    by (auto simp: handle_instruction_abort_def Let_def Option.bind_eq_Some_conv)
  note st = sync_external_abort_run [OF e]
  show ?thesis
  proof (cases ext)
    case True
    then show ?thesis using run e st by (simp add: handle_instruction_abort_def Let_def)
  next
    case False
    then obtain em s where i: "(if \<not> access_in_rec_par (rs_rec r1) ?ipa then Some (True, rs_mem r1)
        else ipa_is_empty ?ipa (rs_rec r1) (rs_mem r1)) = Some (em, s)"
      using run e by (auto simp: handle_instruction_abort_def Let_def Option.bind_eq_Some_conv)
    have "run_step R D r1 (r1\<lparr>rs_mem := s\<rparr>)"
      using i ipa_is_empty_run [OF run_ok_step [OF ok st]] by (auto split: if_splits)
    then have "run_step R D r (r1\<lparr>rs_mem := s\<rparr>)" by (rule run_step_trans [OF st])
    then show ?thesis using run e i False
      by (auto simp: handle_instruction_abort_def Let_def Option.bind_eq_Some_conv split: if_splits)
  qed
qed

lemma sysreg_trap_kept:
  "handle_sysreg_access_trap ids rec e esr = Some (h, rec', e') \<Longrightarrow> rec_kept rec rec'"
  by (auto simp: handle_sysreg_access_trap_def Let_def sysreg_handlers_def handle_id_sysreg_trap_def
      handle_icc_el1_sysreg_trap_def rec_kept_def Option.bind_eq_Some_conv
      split: if_splits option.splits)

lemma handle_exception_sync_run:
  assumes ok: "run_ok lv par R D r" and run: "handle_exception_sync P r = Some (b, r')"
  shows "run_step R D r r'"
proof -
  have ia: "handle_instruction_abort esr r = Some (b, r') \<Longrightarrow> run_step R D r r'" for esr
    by (rule handle_instruction_abort_run [OF ok])
  have da: "handle_data_abort esr r = Some (b, r') \<Longrightarrow> run_step R D r r'" for esr
    by (rule handle_data_abort_run [OF ok])
  show ?thesis
    using run unfolding handle_exception_sync_def Let_def
    by (elim if_Some_cases ia da)
      (auto simp: Option.bind_eq_Some_conv handle_fpu_trap_def advance_pc_def run_step_def
        rec_kept_def Let_def split: if_splits
        dest: handle_realm_rsi_run [OF ok, unfolded run_step_def rec_kept_def]
          sysreg_trap_kept [unfolded rec_kept_def])
qed

lemma serror_run: "handle_exception_serror_lel r = Some (b, r') \<Longrightarrow> run_step R D r r'"
  by (auto simp: handle_exception_serror_lel_def Let_def Option.bind_eq_Some_conv run_step_def
      inject_serror_def rec_kept_def split: if_splits)

lemma run_step_save_last [simp]: "run_step R D r (save_last_run esr r') = run_step R D r r'"
  by (auto simp: save_last_run_def run_step_def rec_kept_def)

lemma run_step_exit_left: "run_step R D (r\<lparr>rs_exit := e\<rparr>) r' = run_step R D r r'"
  by (simp add: run_step_def)

lemma run_ok_exit [simp]: "run_ok lv par R D (r\<lparr>rs_exit := e\<rparr>) = run_ok lv par R D r"
  by (simp add: run_ok_def)

lemma handle_realm_exit_run:
  assumes ok: "run_ok lv par R D r" and run: "handle_realm_exit P x r = Some (b, r')"
  shows "run_step R D r r'"
proof -
  have sync: "run_step R D r r1" if "handle_exception_sync P (r\<lparr>rs_exit := e\<rparr>) = Some (c, r1)" for e c r1
    using handle_exception_sync_run [OF _ that, of lv par] ok by (simp add: run_step_exit_left)
  have se: "run_step R D r r1" if "handle_exception_serror_lel (r\<lparr>rs_exit := e\<rparr>) = Some (c, r1)" for e c r1
    using serror_run [OF that] by (simp add: run_step_exit_left)
  show ?thesis
    using run unfolding handle_realm_exit_def Let_def
    by (elim if_Some_cases)
      (auto simp: Option.bind_eq_Some_conv handle_exception_irq_lel_def split: if_splits dest: sync se)
qed

text \<open>The run of the realm itself, the loop around it, and entry and exit.\<close>

section \<open>The memory a realm writes\<close>

lemma hw_page_own:
  assumes r: "running lv par R D s" and l: "rec_of_realm R D s rec"
    and p: "hw_page (content s) (rec_realm_info rec) ipa = Some d"
  shows "gst s d = GRANULE_STATE_DATA \<and> d \<in> D"
proof -
  let ?ri = "rec_realm_info rec"
  from l obtain rd where R: "R < RMM_MAX_GRANULES" "gst s R = GRANULE_STATE_RD" "content s R = CRd rd"
    and m: "info_matches ?ri (rd_s2_ctx rd)" by (auto simp: rec_of_realm_def)
  let ?c = "rd_s2_ctx rd"
  let ?c' = "\<lparr>s2_ipa_bits = ri_ipa_bits ?ri, s2_starting_level = ri_s2_starting_level ?ri,
    s2_root_rtts = 0, s2_g_rtt = ri_g_rtt ?ri, s2_vmid = 0\<rparr>"
  have pf: "pt_find C ?c' ipa 3 = pt_find C ?c ipa 3" for C
    using m by (simp add: pt_find_def pt_root_def info_matches_def)
  obtain g lvl where f: "pt_find (content s) ?c ipa 3 = (g, lvl)" by (cases "pt_find (content s) ?c ipa 3")
  from p obtain t where t: "table_of (content s g) = Some t"
    and v: "s2tte_is_valid (t ! unat (s2_addr_to_idx ipa 3)) 3" "lvl = 3" "ipa < push_bit (ri_ipa_bits ?ri) 1"
    and d: "find_granule (addr_level_mask (t ! unat (s2_addr_to_idx ipa 3)) 3) = Some d"
    by (auto simp: hw_page_def Let_def pf f Option.bind_eq_Some_conv split: if_splits)
  have a: "ipa < push_bit (s2_ipa_bits ?c) 1" using v(3) m by (simp add: info_matches_def)
  have rp: "realm_page (content s) ?c ipa = Some (addr_level_mask (t ! unat (s2_addr_to_idx ipa 3)) 3)"
    using f v t by (simp add: realm_page_def tt_entry_def entry_page_def)
  then have "mem_map s R ipa = Some (addr_level_mask (t ! unat (s2_addr_to_idx ipa 3)) 3)"
    using R a by (simp add: mem_map_def)
  then have "d \<in> realm_pages s R" using d by (auto simp: realm_pages_def)
  moreover have inv: "inv_with lv par s" "realm_pages s R \<subseteq> D" using r by (simp_all add: running_def)
  moreover have "realm_at s R ?c" using R by (simp add: realm_at_def)
  then have "gst s d = GRANULE_STATE_DATA"
    by (rule realm_page_owner [OF inv(1) _ a rp]) (use d in simp)
  ultimately show ?thesis by blast
qed

lemma realm_write_safe:
  assumes r: "running lv par R D s" and l: "rec_of_realm R D s rec"
  shows "call_effect R D s (realm_write (rec_realm_info rec) w s)"
proof (cases "hw_page (content s) (rec_realm_info rec) (fst w)")
  case None
  then show ?thesis by (simp add: realm_write_def)
next
  case (Some d)
  then show ?thesis using hw_page_own [OF r l Some]
    by (simp add: realm_write_def) (intro call_effect_page [where gr = d]; simp)
qed

lemma realm_writes_safe:
  "running lv par R D s \<Longrightarrow> rec_of_realm R D s rec \<Longrightarrow>
    call_effect R D s (fold (realm_write (rec_realm_info rec)) ws s)"
proof (induction ws arbitrary: s)
  case (Cons w ws)
  note e = realm_write_safe [OF Cons.prems, of w]
  have "rec_of_realm R D (realm_write (rec_realm_info rec) w s) rec"
    using rec_of_realm_effect [OF Cons.prems(2)] e unfolding call_effect_def by blast
  from Cons.IH [OF running_effect [OF Cons.prems(1) e] this] show ?case
    using call_effect_trans [OF e] by simp
qed simp

lemma run_realm_run:
  assumes "run_ok lv par R D r" shows "run_step R D r (run_realm x r)"
  using realm_writes_safe [OF run_okD [OF assms], of "run_pages x"]
  by (simp add: run_step_def run_realm_def Let_def rec_kept_def min_def)

section \<open>The loop\<close>

lemma timers_kept: "check_pending_timers rec p = Some (b, rec', p') \<Longrightarrow> rec_kept rec rec'"
  by (auto simp: check_pending_timers_def Let_def rec_kept_def Option.bind_eq_Some_conv)

lemma events_kept: "activate_events rec p = (rec', p') \<Longrightarrow> rec_kept rec rec'"
  by (auto simp: activate_events_def rec_kept_def split: if_splits)

lemma run_loop_run:
  "run_loop P runs r = Some r' \<Longrightarrow> run_ok lv par R D r \<Longrightarrow> run_step R D r r'"
proof (induction runs arbitrary: r)
  case Nil
  then show ?case
    by (auto simp: run_loop.simps [of P "[]"] Let_def Option.bind_eq_Some_conv run_step_def
        dest: timers_kept split: if_splits)
next
  case (Cons x rest)
  from Cons.prems(1) obtain pending rec p where
    t: "check_pending_timers (rs_rec r) (rs_pe r) = Some (pending, rec, p)"
    by (auto simp: run_loop.simps [of P "x # rest"] Option.bind_eq_Some_conv)
  show ?case
  proof (cases pending)
    case True
    then show ?thesis using Cons.prems(1) t timers_kept [OF t]
      by (auto simp: run_loop.simps [of P "x # rest"] Let_def run_step_def)
  next
    case False
    obtain rec2 p2 where e: "activate_events rec p = (rec2, p2)" by (cases "activate_events rec p")
    let ?r2 = "r\<lparr>rs_rec := rec2, rs_pe := p2\<rparr>"
    have s2: "run_step R D r ?r2"
      using rec_kept_trans [OF timers_kept [OF t] events_kept [OF e]] by (simp add: run_step_def)
    let ?r3 = "run_realm x ?r2"
    have s3: "run_step R D r ?r3"
      using run_step_trans [OF s2 run_realm_run [OF run_ok_step [OF Cons.prems(2) s2]]] .
    obtain again r4 where h: "handle_realm_exit P (run_code x) ?r3 = Some (again, r4)"
      and rest: "(if again then run_loop P rest r4 else Some r4) = Some r'"
      using Cons.prems(1) t False e
      by (auto simp: run_loop.simps [of P "x # rest"] Let_def Option.bind_eq_Some_conv)
    have s4: "run_step R D r r4"
      using run_step_trans [OF s3 handle_realm_exit_run [OF run_ok_step [OF Cons.prems(2) s3] h]] .
    show ?thesis
    proof (cases again)
      case True
      then have "run_loop P rest r4 = Some r'" using rest by simp
      from run_step_trans [OF s4 Cons.IH [OF this run_ok_step [OF Cons.prems(2) s4]]] show ?thesis .
    next
      case False
      then show ?thesis using rest s4 by simp
    qed
  qed
qed

end
