(* ===== verification/Rec_Enter_Safe.thy ===== *)
theory Rec_Enter_Safe
  imports Run_Exit_Safe
begin

text \<open>RMI_REC_ENTER keeps the invariant and changes nothing but the realm that it runs.\<close>

section \<open>Mapping the auxiliary granules\<close>

definition aux_slot :: "nat \<Rightarrow> nat \<Rightarrow> bool" where
  "aux_slot n k \<longleftrightarrow> SLOT_REC_AUX0 \<le> k \<and> k < SLOT_REC_AUX0 + n"

lemma map_aux_pages_effect:
  "map_aux_pages gs i s = Some s' \<Longrightarrow> granules s' = granules s \<and> content s' = content s \<and> vmids s' = vmids s
     \<and> glock s' = glock s
     \<and> (\<forall>k. (SLOT_REC_AUX0 + i \<le> k \<and> k < SLOT_REC_AUX0 + i + length gs \<longrightarrow> slots s k = None)
          \<and> (\<not> (SLOT_REC_AUX0 + i \<le> k \<and> k < SLOT_REC_AUX0 + i + length gs) \<longrightarrow> slots s' k = slots s k))"
proof (induction gs arbitrary: i s)
  case (Cons g gs)
  from Cons.prems obtain s1 where m: "granule_map g (SLOT_REC_AUX0 + i) s = Some s1"
    and rest: "map_aux_pages gs (i + 1) s1 = Some s'" by (auto simp: Option.bind_eq_Some_conv)
  have s1: "s1 = map_slot (SLOT_REC_AUX0 + i) g s" "slots s (SLOT_REC_AUX0 + i) = None"
    using m by (auto simp: granule_map_def buffer_map_internal_def Option.bind_eq_Some_conv)
  note ih = Cons.IH [OF rest]
  let ?a = "SLOT_REC_AUX0 + i" and ?n = "length gs"
  have "(?a \<le> k \<and> k < ?a + Suc ?n \<longrightarrow> slots s k = None)
      \<and> (\<not> (?a \<le> k \<and> k < ?a + Suc ?n) \<longrightarrow> slots s' k = slots s k)" for k
  proof (cases "k = ?a")
    case False
    then have "?a \<le> k \<and> k < ?a + Suc ?n \<longleftrightarrow> SLOT_REC_AUX0 + (i + 1) \<le> k \<and> k < SLOT_REC_AUX0 + (i + 1) + ?n"
      by auto
    moreover have "slots s1 k = slots s k" using False by (simp add: s1(1))
    ultimately show ?thesis using ih by metis
  qed (simp add: s1(2))
  then show ?case using ih by (simp add: s1(1))
qed auto

lemma unmap_rec_aux_simps [simp]:
  "granules (unmap_rec_aux n s) = granules s" "content (unmap_rec_aux n s) = content s"
  "vmids (unmap_rec_aux n s) = vmids s" "glock (unmap_rec_aux n s) = glock s"
  "slots (unmap_rec_aux n s) k = (if aux_slot n k then None else slots s k)"
  unfolding unmap_rec_aux_def
  by (induction n) (auto simp: aux_slot_def)

text \<open>A run between the mapping and the unmapping leaves the slots as they were.\<close>

lemma aux_slots_back:
  assumes "map_aux_pages gs 0 s = Some s1" and "slots s2 = slots s1"
  shows "slots (unmap_rec_aux (length gs) s2) = slots s"
  using map_aux_pages_effect [OF assms(1)] assms(2) by (auto simp: fun_eq_iff aux_slot_def)

lemma aux_running:
  assumes m: "map_aux_pages gs 0 s = Some s1" and n: "length gs \<le> 16" and r: "running lv par R D s"
  shows "running lv par R D s1"
proof -
  note e = map_aux_pages_effect [OF m]
  have "inv_with lv par s1" using r e inv_with_same by (auto simp: running_def)
  moreover have "mem_map s1 = mem_map s"
    using e by (intro ext) (simp add: mem_map_def split: content.split)
  ultimately show ?thesis
    using r e n by (auto simp: running_def run_slots_free_def realm_pages_def word_consts)
qed

section \<open>Entering and leaving\<close>

definition rec_shaped :: "rec \<Rightarrow> bool" where
  "rec_shaped rec \<longleftrightarrow> rec_num_rec_aux rec = length (rec_g_aux rec) \<and> length (rec_g_aux rec) \<le> 16"

text \<open>Entering maps the auxiliary granules, and then initialises the heap in them if it is new.\<close>

lemma enter_realm_cases:
  assumes "enter_realm P r = Some r'" and "rec_shaped (rs_rec r)"
  obtains s1 rec1 rec2 where "map_aux_pages (rec_g_aux (rs_rec r)) 0 (rs_mem r) = Some s1"
    "rec_kept (rs_rec r) rec1" "rec_kept rec2 (rs_rec r')"
    "rec2 = rec1 \<and> rs_mem r' = s1
     \<or> (\<exists>b. rec_heap_init (pl_lib P) b rec1 s1 = Some (rec2, rs_mem r'))"
proof -
  let ?rec = "rs_rec r"
  from assms obtain va s1 where m: "map_aux_pages (rec_g_aux ?rec) 0 (rs_mem r) = Some s1"
    and rest: "(if \<not> rec_ctx_initialised ?rec then do {
          (rec, s) \<leftarrow> attestation_rec_heap_init P (heap_ctx (attestation_heap_ctx_assign_pe P (rs_pe r)))
                       (?rec\<lparr>rec_attest_heap_buf := va\<rparr>) s1;
          Some (rec\<lparr>rec_ctx_initialised := True\<rparr>, s)
        } else Some (?rec\<lparr>rec_attest_heap_buf := va\<rparr>, s1))
      \<bind> (\<lambda>(rec, s). do {
        let p = attestation_heap_ctx_assign_pe P (rs_pe r);
        let p = (if is_feat_sve_present (pl_ids P) then p\<lparr>ns_data := (ns_data p)\<lparr>ns_sve := True\<rparr>\<rparr>
                 else p\<lparr>ns_data := (ns_data p)\<lparr>ns_fpu := True\<rparr>\<rparr>);
        let p = restore_realm_state (pl_gic P) rec (save_ns_state p);
        let rec = rec\<lparr>rec_ns := True\<rparr>;
        assert_c (\<not> rec_fpu_used rec);
        Some (r\<lparr>rs_rec := rec, rs_pe := configure_realm_stage2 rec p, rs_mem := s\<rparr>)
      }) = Some r'"
    by (auto simp: enter_realm_def Let_def rec_shaped_def map_rec_aux_def init_aux_data_def
        Option.bind_eq_Some_conv)
  let ?rec1 = "?rec\<lparr>rec_attest_heap_buf := va\<rparr>"
  have k1: "rec_kept ?rec ?rec1" by (simp add: rec_kept_def)
  show ?thesis
  proof (cases "rec_ctx_initialised ?rec \<or> \<not> pl_attest_initialized P")
    case True
    then show ?thesis using rest
      by (intro that [OF m k1, of ?rec1])
        (auto simp: attestation_rec_heap_init_def Let_def rec_kept_def Option.bind_eq_Some_conv split: if_splits)
  next
    case False
    with rest obtain rec2 where
      "rec_heap_init (pl_lib P) (heap_ctx (attestation_heap_ctx_assign_pe P (rs_pe r))) ?rec1 s1
         = Some (rec2, rs_mem r')" "rec_kept rec2 (rs_rec r')"
      by (auto simp: attestation_rec_heap_init_def Let_def rec_kept_def Option.bind_eq_Some_conv split: if_splits)
    then show ?thesis using that [OF m k1] by blast
  qed
qed

lemma restore_ns_simd_run: "restore_ns_simd r = Some r' \<Longrightarrow> rs_mem r' = rs_mem r \<and> rec_kept (rs_rec r) (rs_rec r')"
  by (auto simp: restore_ns_simd_def Let_def rec_kept_def Option.bind_eq_Some_conv split: if_splits)

lemma leave_realm_cases:
  assumes "leave_realm P r = Some r'"
  shows "rs_mem r' = unmap_rec_aux (rec_num_rec_aux (rs_rec r)) (rs_mem r)" "rec_kept (rs_rec r) (rs_rec r')"
  using assms
  by (auto simp: leave_realm_def Let_def save_realm_state_def rec_kept_def Option.bind_eq_Some_conv
      dest!: restore_ns_simd_run split: prod.splits)

lemma rec_run_loop_safe:
  assumes ok: "run_ok lv par R D r" and sh: "rec_shaped (rs_rec r)"
    and run: "rec_run_loop P runs r = Some r'"
  shows "run_step R D r r'"
proof -
  from run obtain r1 r2 where e: "enter_realm P r = Some r1" and l: "run_loop P runs r1 = Some r2"
    and x: "leave_realm P r2 = Some r'"
    by (auto simp: rec_run_loop_def Option.bind_eq_Some_conv)
  from enter_realm_cases [OF e sh] obtain s1 rec1 rec2 where
    m0: "map_aux_pages (rec_g_aux (rs_rec r)) 0 (rs_mem r) = Some s1"
    and k1: "rec_kept (rs_rec r) rec1" and k2: "rec_kept rec2 (rs_rec r1)"
    and hp: "rec2 = rec1 \<and> rs_mem r1 = s1 \<or> (\<exists>b. rec_heap_init (pl_lib P) b rec1 s1 = Some (rec2, rs_mem r1))"
    by blast
  note x' = leave_realm_cases [OF x]
  note m = map_aux_pages_effect [OF m0]
  have l1: "rec_of_realm R D s1 rec1"
    using rec_of_realm_kept [OF run_okD(2) [OF ok] k1] m by (simp add: rec_of_realm_def)
  have hs: "call_effect R D s1 (rs_mem r1) \<and> rec_kept rec1 rec2"
    using hp rec_heap_init_safe [OF l1] by auto
  then have ke: "rec_kept (rs_rec r) (rs_rec r1)" using rec_kept_trans [OF k1] rec_kept_trans k2 by blast
  have "rec_of_realm R D (rs_mem r1) rec1"
    using rec_of_realm_effect [OF l1, of R D] hs by (simp add: call_effect_def)
  then have "rec_of_realm R D (rs_mem r1) (rs_rec r1)"
    using rec_of_realm_kept rec_kept_trans hs k2 by blast
  moreover have "running lv par R D (rs_mem r1)"
    using running_effect [OF aux_running [OF m0 _ run_okD(1) [OF ok]]] sh hs by (simp add: rec_shaped_def)
  ultimately have "run_ok lv par R D r1" by (simp add: run_ok_def)
  from run_loop_run [OF l this] have st: "call_effect R D (rs_mem r1) (rs_mem r2)"
    "rec_kept (rs_rec r1) (rs_rec r2)" by (simp_all add: run_step_def)
  have k: "rec_kept (rs_rec r) (rs_rec r')"
    using ke st(2) x'(2) rec_kept_trans by blast
  have n: "rec_num_rec_aux (rs_rec r2) = length (rec_g_aux (rs_rec r))"
    using ke st(2) sh by (simp add: rec_kept_def rec_shaped_def)
  have "realm_effect R D (rs_mem r) s1" using m by (intro realm_effect_same) simp_all
  then have "realm_effect R D (rs_mem r) (rs_mem r1)"
    using hs realm_effect_trans unfolding call_effect_def by blast
  moreover have "realm_effect R D (rs_mem r2) (rs_mem r')" by (rule realm_effect_same) (simp_all add: x')
  ultimately have "realm_effect R D (rs_mem r) (rs_mem r')"
    using st(1) realm_effect_trans unfolding call_effect_def by blast
  moreover have "glock (rs_mem r') = glock (rs_mem r)"
    using m hs st(1) x'(1) by (simp add: call_effect_def)
  moreover have "slots (rs_mem r') = slots (rs_mem r)"
    using aux_slots_back [OF m0, of "rs_mem r2"] hs st(1) x'(1) n by (simp add: call_effect_def)
  ultimately show ?thesis using k by (simp add: run_step_def call_effect_def)
qed

section \<open>Completing the last exit\<close>

definition entry_sized :: "rmi_rec_entry \<Rightarrow> bool" where
  "entry_sized e \<longleftrightarrow> length (entry_gprs e) = 31"

lemma mmio_kept: "complete_mmio_emulation rec e = Some (b, rec') \<Longrightarrow> rec_kept rec rec'"
  by (auto simp: complete_mmio_emulation_def Let_def rec_kept_def Option.bind_eq_Some_conv split: if_splits)

lemma sea_kept: "complete_sea_insertion rec e = Some (b, rec') \<Longrightarrow> rec_kept rec rec'"
  by (auto simp: complete_sea_insertion_def inject_sync_idabort_rec_def Let_def rec_kept_def
      Option.bind_eq_Some_conv split: if_splits)

lemma completions_kept:
  assumes "entry_sized e"
  shows "rec_kept rec (complete_set_ripas rec)" "rec_kept rec (complete_sysreg_emulation rec e)"
    "rec_kept rec (complete_hvc_exit rec e)" "rec_kept rec (entry_hcr (reset_last_run_info rec) e)"
  using assms
  by (auto simp: complete_set_ripas_def complete_sysreg_emulation_def complete_hvc_exit_def entry_hcr_def
      reset_last_run_info_def rec_kept_def Let_def entry_sized_def REC_EXIT_NR_GPRS_def)

lemma host_call_completed:
  assumes "running lv par R D s" and "rec_of_realm R D s rec"
    and "complete_host_call P rec en e s = Some ((b, rec', e'), s')"
  shows "call_effect R D s s'" and "rec_kept rec rec'"
  using assms(3) rsi_host_call_safe(2) [OF assms(1,2)]
  by (auto simp: complete_host_call_def rec_kept_def Option.bind_eq_Some_conv split: if_splits)


lemma rec_enter_run_cases:
  assumes sz: "entry_sized e" and run: "rec_enter_run P runs e r = Some (ret, r')"
  obtains (refused) "rs_mem r' = rs_mem r" "rec_kept (rs_rec r) (rs_rec r')"
  | (host) rec1 ok rec2 e2 s2 where "rec_kept (rs_rec r) rec1"
      "complete_host_call P rec1 e (rs_exit r) (rs_mem r) = Some ((ok, rec2, e2), s2)"
      "\<not> ok \<and> r' = r\<lparr>rs_rec := rec2, rs_exit := e2, rs_mem := s2\<rparr>
       \<or> ok \<and> (\<exists>r2. rec_run_loop P runs (r\<lparr>rs_exit := e2, rs_mem := s2,
                    rs_rec := entry_hcr (reset_last_run_info rec2) e\<rparr>) = Some r2
              \<and> rs_mem r' = rs_mem r2 \<and> rs_rec r' = rs_rec r2)"
proof -
  define gs where "gs = gic_copy_state_from_ns (pl_gic P) e (gicstate (rec_sysregs (rs_rec r)))"
  define rec0 where "rec0 = (rs_rec r)\<lparr>rec_sysregs := (rec_sysregs (rs_rec r))\<lparr>gicstate := gs\<rparr>\<rparr>"
  have k0: "rec_kept (rs_rec r) rec0" by (simp add: rec0_def rec_kept_def)
  note run' = run [unfolded rec_enter_run_def Let_def, folded gs_def, folded rec0_def]
  show ?thesis
  proof (cases "gic_validate_state (pl_gic P) gs")
    case False
    then show ?thesis using refused run' k0 by auto
  next
    case True
    with run' obtain ok1 rec1 where m: "complete_mmio_emulation rec0 e = Some (ok1, rec1)"
      by (auto simp: Option.bind_eq_Some_conv)
    have k1: "rec_kept (rs_rec r) rec1" using rec_kept_trans [OF k0 mmio_kept [OF m]] .
    show ?thesis
    proof (cases ok1)
      case False
      then show ?thesis using refused run' True m k1 by auto
    next
      case o1: True
      with run' True m obtain ok2 rec2 where sea: "complete_sea_insertion rec1 e = Some (ok2, rec2)"
        by (auto simp: Option.bind_eq_Some_conv)
      have k2: "rec_kept (rs_rec r) rec2" using rec_kept_trans [OF k1 sea_kept [OF sea]] .
      show ?thesis
      proof (cases ok2)
        case False
        then show ?thesis using refused run' True m o1 sea k2 by auto
      next
        case o2: True
        have k3: "rec_kept (rs_rec r)
            (complete_hvc_exit (complete_sysreg_emulation (complete_set_ripas rec2) e) e)"
          by (rule rec_kept_trans [OF rec_kept_trans [OF rec_kept_trans [OF k2]]]) (rule completions_kept [OF sz])+
        define rec3 where
          "rec3 = complete_hvc_exit (complete_sysreg_emulation (complete_set_ripas rec2) e) e"
        note run3 = run' [unfolded m, simplified True o1 sea o2 Option.bind.simps prod.case simp_thms if_True if_False
            , folded rec3_def]
        then obtain b rec4 e2 s2 where
          h: "complete_host_call P rec3 e (rs_exit r) (rs_mem r) = Some ((b, rec4, e2), s2)"
          by (auto simp: Option.bind_eq_Some_conv)
        show ?thesis
        proof (rule host [OF _ h])
          show "rec_kept (rs_rec r) rec3" using k3 by (simp add: rec3_def)
          show "\<not> b \<and> r' = r\<lparr>rs_rec := rec4, rs_exit := e2, rs_mem := s2\<rparr>
             \<or> b \<and> (\<exists>r2. rec_run_loop P runs (r\<lparr>rs_exit := e2, rs_mem := s2,
                    rs_rec := entry_hcr (reset_last_run_info rec4) e\<rparr>) = Some r2
              \<and> rs_mem r' = rs_mem r2 \<and> rs_rec r' = rs_rec r2)"
            using run3 h by (cases b) (auto simp: Option.bind_eq_Some_conv)
        qed
      qed
    qed
  qed
qed

lemma rec_enter_run_step:
  assumes ok: "run_ok lv par R D r" and sh: "rec_shaped (rs_rec r)" and sz: "entry_sized e"
    and run: "rec_enter_run P runs e r = Some (ret, r')"
  shows "run_step R D r r'"
proof (rule rec_enter_run_cases [OF sz run])
  assume "rs_mem r' = rs_mem r" "rec_kept (rs_rec r) (rs_rec r')"
  then show ?thesis by (rule run_stepI)
next
  fix rec1 b rec2 e2 s2
  assume k1: "rec_kept (rs_rec r) rec1"
    and h: "complete_host_call P rec1 e (rs_exit r) (rs_mem r) = Some ((b, rec2, e2), s2)"
    and d: "\<not> b \<and> r' = r\<lparr>rs_rec := rec2, rs_exit := e2, rs_mem := s2\<rparr>
       \<or> b \<and> (\<exists>r2. rec_run_loop P runs (r\<lparr>rs_exit := e2, rs_mem := s2,
                    rs_rec := entry_hcr (reset_last_run_info rec2) e\<rparr>) = Some r2
              \<and> rs_mem r' = rs_mem r2 \<and> rs_rec r' = rs_rec r2)"
  note hc = host_call_completed [OF run_okD(1) [OF ok] rec_of_realm_kept [OF run_okD(2) [OF ok] k1] h]
  have k2: "rec_kept (rs_rec r) rec2" using rec_kept_trans [OF k1 hc(2)] .
  from d show ?thesis
  proof (elim disjE conjE exE)
    assume "r' = r\<lparr>rs_rec := rec2, rs_exit := e2, rs_mem := s2\<rparr>"
    then show ?thesis using hc(1) k2 by (simp add: run_step_def)
  next
    fix r2
    let ?r1 = "r\<lparr>rs_exit := e2, rs_mem := s2, rs_rec := entry_hcr (reset_last_run_info rec2) e\<rparr>"
    assume lp: "rec_run_loop P runs ?r1 = Some r2" and e: "rs_mem r' = rs_mem r2" "rs_rec r' = rs_rec r2"
    have st: "run_step R D r ?r1"
      using hc(1) rec_kept_trans [OF k2 completions_kept(4) [OF sz]] by (simp add: run_step_def)
    have "rec_shaped (rs_rec ?r1)"
      using sh st by (simp add: run_step_def rec_kept_def rec_shaped_def)
    from run_step_trans [OF st rec_run_loop_safe [OF run_ok_step [OF ok st] this lp]]
    show ?thesis using e by (simp add: run_step_def)
  qed
qed

text \<open>
  RMI_REC_ENTER as a whole: the reference count that keeps the REC from being entered twice,
  the run, and the REC written back to its granule.
\<close>

section \<open>The reference count of a REC\<close>

lemma inv_rec_counted:
  assumes inv: "inv_with lv par s" and st: "gst s g = GRANULE_STATE_REC" and n: "n \<le> 1"
    and gr: "granules s' = (granules s)(g := (granules s g)\<lparr>g_refcount := n\<rparr>)"
    and co: "content s' = content s"
  shows "inv_with lv par s'"
proof (rule inv_with_step [OF inv, where T = "{g}"])
  show "links_ok s'"
  proof (rule links_ok_frame)
    show "links_ok s" using inv by (simp add: inv_with_def)
    show "same_links s s' x" for x
      using st by (cases "x = g") (simp_all add: same_links_def gr co)
  qed
  show k: "kept lv par s lv par s' d" for d by (simp add: kept_def gr)
  fix x assume "x \<in> {g}" and b: "x < RMM_MAX_GRANULES"
  then have x: "x = g" by simp
  have "rec_ok par s g"
    using inv_with_rec [OF inv _ st] b x by simp
  then have "rec_ok par s' g" by (rule rec_ok_frame) (use k in \<open>simp_all add: co\<close>)
  then show "granule_ok lv par s' x"
    using st n by (simp add: x granule_ok_def unlocked_ok_def gr)
qed (auto simp: gr co)

lemma rec_count_map:
  assumes inv: "inv_with lv par s"
    and gr: "granules s' = (granules s)(g := (granules s g)\<lparr>g_refcount := n\<rparr>)"
    and co: "content s' = content s"
  shows "mem_map s' = mem_map s"
  by (rule mem_map_tables [OF inv]) (auto simp: same_realms_def realm_at_def gr co)

lemma ns_buffer_write_eq:
  assumes "g < RMM_MAX_GRANULES" and "slots s SLOT_NS = None"
  shows "ns_buffer_write SLOT_NS g 0x800 0x800 ok s = Some (ok, s)"
proof -
  from assms(1) obtain a where a: "granule_addr g = Some a" by (auto simp: granule_addr_eq)
  with assms show ?thesis
    by (simp add: ns_buffer_write_def ns_granule_map_def is_ns_slot_def buffer_map_internal_def
        NR_CPU_SLOTS_def SLOT_NS_def GRANULE_ALIGNED_granule_addr buffer_unmap_def map_slot_def)
qed

section \<open>The REC while it is entered\<close>

text \<open>The granules whose contents the entry of a REC may change.\<close>

definition rec_world :: "rmm \<Rightarrow> nat \<Rightarrow> rec \<Rightarrow> nat set" where
  "rec_world s g rec = insert g (insert (ri_g_rd (rec_realm_info rec))
     (realm_pages s (ri_g_rd (rec_realm_info rec)) \<union> set (rec_g_aux rec)))"

abbreviation run_world :: "rmm \<Rightarrow> rec \<Rightarrow> nat set" where
  "run_world s rec \<equiv> realm_pages s (ri_g_rd (rec_realm_info rec)) \<union> set (rec_g_aux rec)"

definition rec_effect :: "(nat \<Rightarrow> int) \<Rightarrow> (nat \<Rightarrow> owner) \<Rightarrow> nat \<Rightarrow> rec \<Rightarrow> rmm \<Rightarrow> rmm \<Rightarrow> bool" where
  "rec_effect lv par g rec s s' \<longleftrightarrow> inv_with lv par s' \<and> granules s' = granules s \<and> vmids s' = vmids s
     \<and> glock s' = glock s \<and> slots s' = slots s \<and> mem_map s' = mem_map s
     \<and> {x. content s' x \<noteq> content s x} \<subseteq> rec_world s g rec"

lemma rec_at_entry:
  assumes inv: "inv_with lv par s" and q: "quiet s" and g: "g < RMM_MAX_GRANULES"
    and st: "gst s g = GRANULE_STATE_REC" and c: "content s g = CRec rec"
  shows "run_ok lv par (ri_g_rd (rec_realm_info rec)) (run_world s rec)
           \<lparr>rs_rec = rec, rs_exit = e, rs_pe = p, rs_mem = map_slot SLOT_REC g s\<rparr>"
    and "rec_shaped rec"
proof -
  let ?R = "ri_g_rd (rec_realm_info rec)" and ?s = "map_slot SLOT_REC g s" and ?D = "run_world s rec"
  note l = inv_with_rec_linked [OF inv g st c]
  from inv_with_rd [OF inv l] obtain rd where rd: "content s ?R = CRd rd" by (auto simp: rd_ok_def)
  have "links_ok s" using inv by (simp add: inv_with_def)
  then have "info_matches (rec_realm_info rec) (rd_s2_ctx rd)"
    using g st c rd by (auto simp: links_ok_def rec_linked_def)
  moreover have "\<forall>a\<in>set (rec_g_aux rec). gst s a = GRANULE_STATE_REC_AUX"
    using inv_with_rec [OF inv g st] c by (auto simp: rec_ok_def)
  ultimately have "rec_of_realm ?R ?D ?s rec" using l rd by (simp add: rec_of_realm_def)
  moreover have "inv_with lv par ?s" by (rule inv_with_same [OF inv]) simp_all
  moreover have "mem_map ?s = mem_map s"
    by (intro ext) (simp add: mem_map_def split: content.split)
  ultimately show "run_ok lv par ?R ?D
      \<lparr>rs_rec = rec, rs_exit = e, rs_pe = p, rs_mem = ?s\<rparr>"
    using q by (simp add: run_ok_def running_def run_slots_free_def realm_pages_def quiet_def word_consts)
  show "rec_shaped rec"
    using inv_with_rec [OF inv g st] c by (auto simp: rec_ok_def rec_shaped_def)
qed

lemma rec_written_back:
  assumes inv: "inv_with lv par s" and q: "quiet s" and g: "g < RMM_MAX_GRANULES"
    and st: "gst s g = GRANULE_STATE_REC" and c: "content s g = CRec rec"
    and step: "run_step (ri_g_rd (rec_realm_info rec)) (run_world s rec)
      \<lparr>rs_rec = rec, rs_exit = e, rs_pe = p, rs_mem = map_slot SLOT_REC g s\<rparr> r"
  shows "rec_effect lv par g rec s (buffer_unmap SLOT_REC (set_content g (CRec (rs_rec r)) (rs_mem r)))"
proof -
  let ?R = "ri_g_rd (rec_realm_info rec)" and ?s = "map_slot SLOT_REC g s"
  let ?D = "run_world s rec" and ?s' = "buffer_unmap SLOT_REC (set_content g (CRec (rs_rec r)) (rs_mem r))"
  have ce: "call_effect ?R ?D ?s (rs_mem r)" and k: "rec_kept rec (rs_rec r)"
    using step by (simp_all add: run_step_def)
  have i1: "inv_with lv par ?s" by (rule inv_with_same [OF inv]) simp_all
  have re: "realm_effect ?R ?D ?s (rs_mem r)" using ce by (simp add: call_effect_def)
  have gr: "granules (rs_mem r) = granules s" "vmids (rs_mem r) = vmids s"
    using re by (simp_all add: realm_effect_def)
  have ch: "content_change ?R ?D ?s x (content (rs_mem r) x)" for x
    using re by (simp add: realm_effect_def)
  note i2 = realm_effect_inv [OF i1 re]
  have cg: "content (rs_mem r) g = CRec rec"
    using ch [of g] c st by (auto simp: content_change_def)
  have len: "length (rec_regs rec) = 31"
    using inv_with_rec [OF inv g st] c by (auto simp: rec_ok_def)
  have i3: "inv_with lv par ?s'"
    by (rule inv_rec_update [OF i2 _ cg]) (use k st gr len in \<open>auto simp: rec_kept_def\<close>)
  have "mem_map ?s' = mem_map (rs_mem r)"
    by (rule mem_map_tables [OF i2])
      (use st gr cg in \<open>auto simp: same_realms_def realm_at_def\<close>)
  also have "\<dots> = mem_map ?s" by (rule realm_effect_map [OF i1 re])
  also have "\<dots> = mem_map s" by (intro ext) (simp add: mem_map_def split: content.split)
  finally have mm: "mem_map ?s' = mem_map s" .
  have sl: "slots ?s' = slots s"
    using ce q by (auto simp: call_effect_def fun_eq_iff quiet_def)
  have "x \<in> rec_world s g rec" if "content ?s' x \<noteq> content s x" for x
    using that ch [of x] by (auto simp: rec_world_def content_change_def split: if_splits)
  then show ?thesis
    using i3 gr mm sl ce by (auto simp: rec_effect_def call_effect_def)
qed

section \<open>The command\<close>

definition enter_world :: "rmm \<Rightarrow> u64 \<Rightarrow> nat set" where
  "enter_world s rec_addr =
     (case find_granule rec_addr of
        None \<Rightarrow> {}
      | Some g \<Rightarrow>
          if gst s g = GRANULE_STATE_REC
          then (case content s g of CRec rec \<Rightarrow> rec_world s g rec | _ \<Rightarrow> {}) else {})"

definition enter_effect :: "(nat \<Rightarrow> int) \<Rightarrow> (nat \<Rightarrow> owner) \<Rightarrow> u64 \<Rightarrow> rmm \<Rightarrow> rmm \<Rightarrow> bool" where
  "enter_effect lv par rec_addr s s' \<longleftrightarrow> inv_with lv par s' \<and> quiet s' \<and> granules s' = granules s
     \<and> vmids s' = vmids s \<and> mem_map s' = mem_map s
     \<and> {x. content s' x \<noteq> content s x} \<subseteq> enter_world s rec_addr"

lemma enter_effect_same:
  assumes "inv_with lv par s" and "quiet s" and "same_state s s'"
  shows "enter_effect lv par rec_addr s s'"
  using assms inv_with_same [OF assms(1), of s'] mem_map_same_state [OF assms(3)] quiet_cong [OF assms(3)]
  by (simp add: enter_effect_def same_state_def)

text \<open>The REC is taken: its reference count is one, no lock is held.\<close>

definition rec_taken :: "nat \<Rightarrow> rmm \<Rightarrow> rmm" where
  "rec_taken g s = spinlock_release g (atomic_granule_get g (lock_g g GRANULE_STATE_REC s))"

lemma rec_taken_facts:
  assumes inv: "inv_with lv par s" and q: "quiet s" and g: "g < RMM_MAX_GRANULES"
    and st: "gst s g = GRANULE_STATE_REC" and rc: "grc s g = 0"
  shows "granule_unlock g (atomic_granule_get g (lock_g g GRANULE_STATE_REC s)) = Some (rec_taken g s)"
    "inv_with lv par (rec_taken g s)" "quiet (rec_taken g s)"
    "granules (rec_taken g s) = (granules s)(g := (granules s g)\<lparr>g_refcount := 1\<rparr>)"
    "content (rec_taken g s) = content s" "vmids (rec_taken g s) = vmids s"
    "mem_map (rec_taken g s) = mem_map s"
proof -
  show gr: "granules (rec_taken g s) = (granules s)(g := (granules s g)\<lparr>g_refcount := 1\<rparr>)"
    and co: "content (rec_taken g s) = content s" and "vmids (rec_taken g s) = vmids s"
    and "quiet (rec_taken g s)"
    using rc q by (auto simp: rec_taken_def atomic_granule_get_def quiet_def)
  show "granule_unlock g (atomic_granule_get g (lock_g g GRANULE_STATE_REC s)) = Some (rec_taken g s)"
    using st rc by (simp add: granule_unlock_eq rec_taken_def unlocked_ok_def atomic_granule_get_def)
  show "inv_with lv par (rec_taken g s)" by (rule inv_rec_counted [OF inv st _ gr co]) simp
  show "mem_map (rec_taken g s) = mem_map s" by (rule rec_count_map [OF inv gr co])
qed

lemma rec_released_facts:
  assumes inv: "inv_with lv par s" and st: "gst s g = GRANULE_STATE_REC"
    and old: "granules s = (granules s0)(g := (granules s0 g)\<lparr>g_refcount := 1\<rparr>)" "grc s0 g = 0"
    and put: "atomic_granule_put_release g s = Some s'"
  shows "inv_with lv par s'" "granules s' = granules s0" "content s' = content s" "vmids s' = vmids s"
    "mem_map s' = mem_map s" "quiet s' = quiet s"
proof -
  have gr: "granules s' = (granules s)(g := (granules s g)\<lparr>g_refcount := 0\<rparr>)"
    using put old by (auto simp: atomic_granule_put_release_def bind_assert_c quiet_def split: if_splits)
  show co: "content s' = content s" and "vmids s' = vmids s" and "quiet s' = quiet s"
    using put old by (auto simp: atomic_granule_put_release_def bind_assert_c quiet_def split: if_splits)
  show "inv_with lv par s'" by (rule inv_rec_counted [OF inv st _ gr co]) simp
  show "mem_map s' = mem_map s" by (rule rec_count_map [OF inv gr co])
  show "granules s' = granules s0" using old by (simp add: gr fun_eq_iff)
qed

text \<open>The part of the command between the read of the entry record and the release of the REC.\<close>

lemma rec_entered_effect:
  assumes inv: "inv_with lv par s" and q: "quiet s" and g: "g < RMM_MAX_GRANULES"
    and st: "gst s g = GRANULE_STATE_REC" and c: "content s g = CRec rec" and sz: "entry_sized e"
    and run: "(case refused of Some ret \<Rightarrow> Some (ret, r0) | None \<Rightarrow> rec_enter_run P runs e r0) = Some (ret, r)"
    and r0: "r0 = \<lparr>rs_rec = rec, rs_exit = zero_exit, rs_pe = p, rs_mem = map_slot SLOT_REC g s\<rparr>"
  shows "rec_effect lv par g rec s (buffer_unmap SLOT_REC (set_content g (CRec (rs_rec r)) (rs_mem r)))"
proof (rule rec_written_back [OF inv q g st c])
  note ok = rec_at_entry [OF inv q g st c, folded r0]
  show "run_step (ri_g_rd (rec_realm_info rec)) (run_world s rec)
      \<lparr>rs_rec = rec, rs_exit = zero_exit, rs_pe = p, rs_mem = map_slot SLOT_REC g s\<rparr> r"
  proof (cases refused)
    case None
    then show ?thesis
      using rec_enter_run_step [OF ok(1) _ sz] ok(2) run by (simp add: r0)
  next
    case (Some a)
    then show ?thesis using run by (simp add: r0)
  qed
qed

lemma smc_rec_enter_effect:
  assumes inv: "inv_with lv par s" and q: "quiet s" and sz: "\<And>e. mem = Some e \<Longrightarrow> entry_sized e"
    and run: "smc_rec_enter P mem ok runs rec_addr rec_run_addr p s = Some (out, p', s')"
  shows "enter_effect lv par rec_addr s s'"
proof (cases "find_granule rec_run_addr")
  case None
  then show ?thesis using run enter_effect_same [OF inv q] by (simp add: smc_rec_enter_def)
next
  case (Some g_run)
  show ?thesis
  proof (cases "gst s g_run = GRANULE_STATE_NS")
    case False
    then show ?thesis using Some run enter_effect_same [OF inv q] by (simp add: smc_rec_enter_def)
  next
    case ns: True
    have b: "g_run < RMM_MAX_GRANULES" using find_granule_bound [OF Some] .
    note run' = run [unfolded smc_rec_enter_def Let_def, simplified Some ns option.case simp_thms if_False]
    show ?thesis
    proof (rule find_lock_unused_quiet_cases [OF q inv, where addr = rec_addr and st = GRANULE_STATE_REC])
      fix ret s1 assume "find_lock_unused_granule rec_addr GRANULE_STATE_REC s = Some (Inl ret, s1)" "same_state s s1"
      then show ?thesis using run' enter_effect_same [OF inv q, of s1] by simp
    next
      fix g
      assume f: "find_lock_unused_granule rec_addr GRANULE_STATE_REC s
            = Some (Inr g, lock_g g GRANULE_STATE_REC s)" "find_granule rec_addr = Some g"
        and g: "gst s g = GRANULE_STATE_REC" "g < RMM_MAX_GRANULES" "grc s g = 0"
      let ?s1 = "rec_taken g s"
      note t = rec_taken_facts [OF inv q g(2,1,3)]
      have st1: "gst ?s1 g = GRANULE_STATE_REC" using g by (simp add: t)
      have rd: "ns_buffer_read SLOT_NS g_run 0 0x800 mem ?s1 = Some (mem, ?s1)"
        using b t(3) by (intro ns_buffer_read_eq) (simp_all add: quiet_def)
      have end1: "enter_effect lv par rec_addr s s2"
        if put: "atomic_granule_put_release g s1' = Some s2" and "inv_with lv par s1'" "quiet s1'"
          "granules s1' = granules ?s1" "vmids s1' = vmids s" "mem_map s1' = mem_map s"
          "{x. content s1' x \<noteq> content s x} \<subseteq> enter_world s rec_addr" for s1' s2
        using rec_released_facts [OF that(2) _ _ g(3) put] that st1 by (simp add: t enter_effect_def)
      show ?thesis
      proof (cases mem)
        case None
        with run' f rd t(1) have "atomic_granule_put_release g ?s1 = Some s'"
          by (auto simp: Option.bind_eq_Some_conv)
        then show ?thesis by (rule end1) (simp_all add: t)
      next
        case (Some e)
        let ?m = "map_slot SLOT_REC g ?s1"
        obtain rec where c: "content s g = CRec rec"
          using inv_with_rec [OF inv g(2,1)] by (auto simp: rec_ok_def)
        let ?R = "ri_g_rd (rec_realm_info rec)" and ?r0 = "\<lparr>rs_rec = rec, rs_exit = zero_exit, rs_pe = p, rs_mem = ?m\<rparr>"
        have c1: "content ?s1 g = CRec rec" by (simp add: t c)
        note l = inv_with_rec_linked [OF inv g(2,1) c]
        have m1: "granule_map g SLOT_REC ?s1 = Some ?m" "granule_map ?R SLOT_RD ?m = Some (map_slot SLOT_RD ?R ?m)"
          "buffer_unmap SLOT_RD (map_slot SLOT_RD ?R ?m) = ?m"
          using t(3) g(2) l(1)
          by (simp_all add: granule_map_eq quiet_def is_realm_slot_consts buffer_unmap_map_slot slot_distinct)
        obtain refused ret r s3 ret' w where
          e1: "(case refused of Some ret \<Rightarrow> Some (ret, ?r0) | None \<Rightarrow> rec_enter_run P runs e ?r0) = Some (ret, r)"
          and e2: "(if ret = RMI_SUCCESS then do {
                 (done_ok, s) \<leftarrow> ns_buffer_write SLOT_NS g_run 0x800 0x800 ok
                    (buffer_unmap SLOT_REC (set_content g (CRec (rs_rec r)) (rs_mem r)));
                 Some (if \<not> done_ok then (RMI_ERROR_INPUT, None, s)
                       else (ret, Some (rs_exit r), s))
               } else Some (ret, None, buffer_unmap SLOT_REC (set_content g (CRec (rs_rec r)) (rs_mem r))))
             = Some (ret', w, s3)"
          and put: "atomic_granule_put_release g s3 = Some s'"
        proof -
          have n: "mem = Some e" by (rule Some)
          from run' show thesis
            unfolding f(1) n
            apply (simp only: f(1) t(1) rd [unfolded n] m1 map_slot_simps c1 rec_of.simps Option.bind.simps prod.case sum.case option.case Let_def)
            apply (clarsimp simp: Option.bind_eq_Some_conv split del: if_split)
            apply (rule that)
            apply assumption+
            done
        qed
        let ?s3 = "buffer_unmap SLOT_REC (set_content g (CRec (rs_rec r)) (rs_mem r))"
        have ef: "rec_effect lv par g rec ?s1 ?s3"
          by (rule rec_entered_effect [OF t(2,3) g(2) st1 c1 sz [OF Some] e1 refl])
        then have q3: "quiet ?s3" using t(3) by (simp add: rec_effect_def quiet_def)
        have s3: "s3 = ?s3"
          using e2 ns_buffer_write_eq [OF b, of ?s3 ok] q3 by (auto simp: quiet_def split: if_splits)
        have "rec_world ?s1 g rec = enter_world s rec_addr"
          using f(2) c g(1) by (simp add: rec_world_def enter_world_def realm_pages_def t)
        then show ?thesis
          using end1 [OF put] ef q3 unfolding s3 by (simp add: rec_effect_def t)
      qed
    qed
  qed
qed

end
