(* ===== verification/Monitor_Steps.thy ===== *)
theory Monitor_Steps
  imports Smc_Dispatch Rec_Enter_Safe Command_Properties Psci_Correct Rtt_Read_Correct
begin

text \<open>
  The monitor as a whole.  The abstract state is the map from the addresses of each realm to
  physical pages; every call of the host adds one free page to one realm, removes one, or
  leaves the map as it is, and keeps the invariant.
\<close>

section \<open>The abstract machine\<close>

text \<open>What one call may do to the map of the realms' memory.\<close>

inductive map_step :: "(nat \<Rightarrow> u64 \<Rightarrow> u64 option) \<Rightarrow> (nat \<Rightarrow> u64 \<Rightarrow> u64 option) \<Rightarrow> bool" where
  stay: "map_step M M"
| add: "M r a = None \<Longrightarrow> (\<And>r' a'. M r' a' \<noteq> Some pa) \<Longrightarrow> map_step M (map_put r a (Some pa) M)"
| remove: "M r a = Some pa \<Longrightarrow> map_step M (map_put r a None M)"

text \<open>No physical page belongs to two realms or to two pages of one.\<close>

definition map_exclusive :: "(nat \<Rightarrow> u64 \<Rightarrow> u64 option) \<Rightarrow> bool" where
  "map_exclusive M \<longleftrightarrow> (\<forall>r a r' a' pa. M r a = Some pa \<longrightarrow> M r' a' = Some pa
     \<longrightarrow> r' = r \<and> block_of 3 a' = block_of 3 a)"

lemma map_exclusive_put:
  assumes M: "map_exclusive M" and v: "\<And>pa r' a'. v = Some pa \<Longrightarrow> M r' a' \<noteq> Some pa"
  shows "map_exclusive (map_put r a v M)"
  unfolding map_exclusive_def
proof (intro allI impI)
  fix r1 a1 r2 a2 pa
  assume 1: "map_put r a v M r1 a1 = Some pa" and 2: "map_put r a v M r2 a2 = Some pa"
  have e: "M r1 a1 = Some pa \<Longrightarrow> M r2 a2 = Some pa \<Longrightarrow> r2 = r1 \<and> block_of 3 a2 = block_of 3 a1"
    using M unfolding map_exclusive_def by blast
  show "r2 = r1 \<and> block_of 3 a2 = block_of 3 a1"
    using 1 2 e v [of pa r1 a1] v [of pa r2 a2] unfolding map_put_def by (simp split: if_splits)
qed

lemma map_exclusive_step: "map_step M M' \<Longrightarrow> map_exclusive M \<Longrightarrow> map_exclusive M'"
proof (induction rule: map_step.induct)
  case (add M r a pa)
  then show ?case by (intro map_exclusive_put) simp_all
next
  case (remove M r a pa)
  then show ?case by (intro map_exclusive_put) simp_all
qed

lemma mem_map_inject:
  assumes "inv s" and "mem_map s r1 a = Some pa" and "mem_map s r2 b = Some pa"
  shows "r1 = r2 \<and> block_of 3 a = block_of 3 b"
proof -
  from assms(1) obtain lv par where inv: "inv_with lv par s" by (auto simp: inv_def)
  from mem_map_Some [OF assms(2)] obtain c1 where
    1: "realm_at s r1 c1" "a < push_bit (s2_ipa_bits c1) 1" "realm_page (content s) c1 a = Some pa"
    by (auto simp: in_realm_def)
  from mem_map_Some [OF assms(3)] obtain c2 where
    2: "realm_at s r2 c2" "b < push_bit (s2_ipa_bits c2) 1" "realm_page (content s) c2 b = Some pa"
    by (auto simp: in_realm_def)
  show ?thesis by (rule realm_page_unique [OF inv 1(1,2) 2(1,2) 1(3) 2(3)])
qed

lemma addr_idx_same_page:
  assumes "block_of 3 a = block_of 3 b" and "l \<le> 3"
  shows "s2_addr_to_idx a l = s2_addr_to_idx b l"
  using block_of_split [OF assms(2), of a b] block_of_mono [OF assms(1) _ assms(2)] by simp

lemma pt_walk_same_page:
  assumes p: "block_of 3 a = block_of 3 b" and "i \<le> 3"
  shows "pt_walk C g i 3 a = pt_walk C g i 3 b \<and> snd (pt_walk C g i 3 b) \<le> 3"
  using assms(2)
proof (induction "nat (3 - i)" arbitrary: g i)
  case 0
  then have "i = 3" by simp
  then show ?case by (simp add: pt_walk.simps [of C g])
next
  case (Suc n)
  then have i: "i < 3" by simp
  have n: "pt_next C g i a = pt_next C g i b"
    using addr_idx_same_page [OF p Suc.prems] by (simp add: pt_next_def)
  show ?case
  proof (cases "pt_next C g i b")
    case None
    then show ?thesis using i n by (simp add: pt_walk.simps [of C g i])
  next
    case (Some g')
    have "pt_walk C g' (i + 1) 3 a = pt_walk C g' (i + 1) 3 b \<and> snd (pt_walk C g' (i + 1) 3 b) \<le> 3"
      using Suc i by simp
    then show ?thesis using i n Some by (simp add: pt_walk.simps [of C g i])
  qed
qed

text \<open>The map is the same for all addresses of a page.\<close>

lemma mem_map_same_page:
  assumes "inv s" and p: "block_of 3 a = block_of 3 b"
  shows "mem_map s r a = mem_map s r b"
proof -
  from assms(1) obtain lv par where inv: "inv_with lv par s" by (auto simp: inv_def)
  have page: "realm_page (content s) c a = realm_page (content s) c b"
    if c: "s2_ctx_ok c" and a: "a < push_bit (s2_ipa_bits c) 1" and b: "b < push_bit (s2_ipa_bits c) 1" for c
  proof -
    have l: "s2_starting_level c \<le> 3" using c by (simp add: s2_ctx_ok_def)
    have "pt_root c a = pt_root c b"
      using block_of_root [OF c a] block_of_root [OF c b] block_of_mono [OF p, of "s2_starting_level c - 1"] l
      by simp
    moreover obtain g k where w: "pt_walk (content s) (pt_root c b) (s2_starting_level c) 3 b = (g, k)" by fastforce
    moreover have "pt_walk (content s) (pt_root c b) (s2_starting_level c) 3 a = (g, k)" "k \<le> 3"
      using pt_walk_same_page [OF p l, of "content s" "pt_root c b"] w by simp_all
    moreover have ep: "entry_page k e a = entry_page k e b" for e
      unfolding entry_page_def addr_idx_same_page [OF p order_refl] ..
    ultimately show ?thesis
      using addr_idx_same_page [OF p, of k] ep by (simp add: realm_page_def pt_find_def tt_entry_def)
  qed
  show ?thesis
  proof (cases "\<exists>c. realm_at s r c")
    case False
    then show ?thesis
      by (metis in_realm_def mem_map_out)
  next
    case True
    then obtain c where r: "realm_at s r c" by blast
    have ok: "s2_ctx_ok c" using realm_at_roots(2) [OF inv r] .
    have "a < push_bit (s2_ipa_bits c) 1 \<longleftrightarrow> b < push_bit (s2_ipa_bits c) 1"
      using same_block_bound [OF ok p] same_block_bound [OF ok p [symmetric]] by blast
    then show ?thesis
      using page [OF ok] r by (auto simp: mem_map_def realm_at_def)
  qed
qed

lemma mem_map_exclusive: "inv s \<Longrightarrow> map_exclusive (mem_map s)"
  unfolding map_exclusive_def
proof (intro allI impI)
  fix r a r' a' pa
  assume "inv s" and "mem_map s r a = Some pa" and "mem_map s r' a' = Some pa"
  then show "r' = r \<and> block_of 3 a' = block_of 3 a"
    using mem_map_inject by blast
qed

section \<open>One command\<close>

definition mem_ok :: "rmm \<Rightarrow> rmm \<Rightarrow> bool" where
  "mem_ok s s' \<longleftrightarrow> inv s' \<and> quiet s' \<and> map_step (mem_map s) (mem_map s')"

lemma mem_ok_same: "inv s \<Longrightarrow> quiet s \<Longrightarrow> same_state s s' \<Longrightarrow> mem_ok s s'"
  using inv_cong quiet_cong mem_map_same_state stay by (metis mem_ok_def)

lemma mem_ok_kept: "inv s' \<Longrightarrow> quiet s' \<Longrightarrow> mem_map s' = mem_map s \<Longrightarrow> mem_ok s s'"
  by (simp add: mem_ok_def stay)

text \<open>The same with the locks and slots given back only on a condition.\<close>

definition mem_ok_if :: "bool \<Rightarrow> rmm \<Rightarrow> rmm \<Rightarrow> bool" where
  "mem_ok_if b s s' \<longleftrightarrow> inv s' \<and> map_step (mem_map s) (mem_map s') \<and> (b \<longrightarrow> quiet s')"

lemma mem_ok_if_True [simp]: "mem_ok_if True s s' = mem_ok s s'"
  by (auto simp: mem_ok_if_def mem_ok_def)

lemma mem_ok_weaken: "mem_ok s s' \<Longrightarrow> mem_ok_if b s s'"
  by (simp add: mem_ok_if_def mem_ok_def)

lemma map_step_added:
  assumes i: "inv s" and i': "inv s'" and free: "mem_map s r a = None"
    and m: "mem_map s' = map_put r a (Some pa) (mem_map s)"
  shows "map_step (mem_map s) (mem_map s')"
proof -
  have "mem_map s r' a' \<noteq> Some pa" for r' a'
  proof
    assume p: "mem_map s r' a' = Some pa"
    have at: "mem_map s' r a = Some pa" by (simp add: m map_put_def)
    show False
    proof (cases "r' = r \<and> block_of 3 a' = block_of 3 a")
      case True
      then have "mem_map s r' a' = mem_map s r a" using mem_map_same_page [OF i] by blast
      then show False using p free by simp
    next
      case False
      then have "mem_map s' r' a' = Some pa" using p by (simp add: m map_put_def)
      then show False using mem_map_exclusive [OF i'] at False unfolding map_exclusive_def by blast
    qed
  qed
  then show ?thesis using free by (simp add: m add)
qed

lemma created_ok:
  assumes i: "inv s" and c: "created_with flags rd_addr map_addr data_addr ret s s'"
  shows "mem_ok_if (dev_attach_flag flags = 0) s s'"
proof -
  have "map_step (mem_map s) (mem_map s')"
    if "page_added rd_addr map_addr data_addr s s'"
    using that map_step_added [OF i] c by (auto simp: page_added_def created_with_def)
  moreover have "map_step (mem_map s) (mem_map s')" if "same_state s s'"
    using mem_map_same_state [OF that] stay by simp
  ultimately show ?thesis using c by (auto simp: created_with_def mem_ok_if_def split: if_splits)
qed

lemma mem_ok_removed:
  "inv s' \<Longrightarrow> quiet s' \<Longrightarrow> mem_map s r a = Some pa \<Longrightarrow> mem_map s' = map_put r a None (mem_map s) \<Longrightarrow> mem_ok s s'"
  by (simp add: mem_ok_def remove)

lemma mem_ok_command:
  assumes "case f of None \<Rightarrow> Q | Some (ret, s') \<Rightarrow> inv s' \<and> quiet s'" and "f = Some (ret, s')"
    and "mem_map s' = mem_map s"
  shows "mem_ok s s'"
  using assms by (simp add: mem_ok_kept)

lemma table_commands_ok:
  assumes i: "inv s" and q: "quiet s"
  shows "smc_rtt_create a b c d s = Some (ret, s') \<Longrightarrow> mem_ok s s'"
    "smc_rtt_destroy a b c d s = Some (ret, s') \<Longrightarrow> mem_ok s s'"
    "smc_rtt_fold a b c d s = Some (ret, s') \<Longrightarrow> mem_ok s s'"
    "smc_rtt_map_unprotected a b c d s = Some (ret, s') \<Longrightarrow> mem_ok s s'"
    "smc_rtt_unmap_unprotected a b c s = Some (ret, s') \<Longrightarrow> mem_ok s s'"
    "smc_rtt_init_ripas hash a b c s = Some (ret, s') \<Longrightarrow> mem_ok s s'"
    "smc_rtt_set_ripas a b c d e s = Some (ret, s') \<Longrightarrow> mem_ok s s'"
proof -
  from i obtain lv par where inv: "inv_with lv par s" by (auto simp: inv_def)
  show "smc_rtt_create a b c d s = Some (ret, s') \<Longrightarrow> mem_ok s s'"
    using mem_ok_command [OF smc_rtt_create_safe [OF i q] _ rtt_create_map [OF inv q]] by blast
  show "smc_rtt_destroy a b c d s = Some (ret, s') \<Longrightarrow> mem_ok s s'"
    using mem_ok_command [OF smc_rtt_destroy_safe [OF i q] _ rtt_destroy_map [OF inv q]] by blast
  show "smc_rtt_fold a b c d s = Some (ret, s') \<Longrightarrow> mem_ok s s'"
    using mem_ok_command [OF smc_rtt_fold_safe [OF i q] _ rtt_fold_map [OF inv q]] by blast
  show "smc_rtt_map_unprotected a b c d s = Some (ret, s') \<Longrightarrow> mem_ok s s'"
    using mem_ok_command [OF smc_rtt_map_unprotected_safe [OF i q] _ rtt_map_unprotected_map [OF inv q]] by blast
  show "smc_rtt_unmap_unprotected a b c s = Some (ret, s') \<Longrightarrow> mem_ok s s'"
    using mem_ok_command [OF smc_rtt_unmap_unprotected_safe [OF i q] _ rtt_unmap_unprotected_map [OF inv q]] by blast
  show "smc_rtt_init_ripas hash a b c s = Some (ret, s') \<Longrightarrow> mem_ok s s'"
    using mem_ok_command [OF smc_rtt_init_ripas_safe [OF i q] _ rtt_init_ripas_map [OF inv q]] by blast
  show "smc_rtt_set_ripas a b c d e s = Some (ret, s') \<Longrightarrow> mem_ok s s'"
    using mem_ok_command [OF smc_rtt_set_ripas_safe [OF i q] _ rtt_set_ripas_map [OF inv q]] by blast
qed

lemma lifecycle_commands_ok:
  assumes i: "inv s" and q: "quiet s"
  shows "smc_granule_delegate mc a s = Some (ret, s') \<Longrightarrow> mem_ok s s'"
    "smc_granule_undelegate mc a s = Some (ret, s') \<Longrightarrow> mem_ok s s'"
    "smc_realm_create ar hash a b mem s = Some (ret, s') \<Longrightarrow> mem_ok s s'"
    "smc_realm_activate a s = Some (ret, s') \<Longrightarrow> mem_ok s s'"
    "smc_realm_destroy ar a s = Some (ret, s') \<Longrightarrow> mem_ok s s'"
    "smc_rec_destroy a s = Some (ret, s') \<Longrightarrow> mem_ok s s'"
proof -
  from i obtain lv par where inv: "inv_with lv par s" by (auto simp: inv_def)
  show "smc_granule_delegate mc a s = Some (ret, s') \<Longrightarrow> mem_ok s s'"
    using mem_ok_command [OF smc_granule_delegate_safe [OF i q] _ granule_delegate_map [OF inv q]] by blast
  show "smc_granule_undelegate mc a s = Some (ret, s') \<Longrightarrow> mem_ok s s'"
    using mem_ok_command [OF smc_granule_undelegate_safe [OF i q] _ granule_undelegate_map [OF inv q]] by blast
  show "smc_realm_create ar hash a b mem s = Some (ret, s') \<Longrightarrow> mem_ok s s'"
    using mem_ok_command [OF smc_realm_create_safe [OF i q] _ realm_create_map [OF inv q]] by blast
  show "smc_realm_activate a s = Some (ret, s') \<Longrightarrow> mem_ok s s'"
    using mem_ok_command [OF smc_realm_activate_safe [OF i q] _ realm_activate_map [OF inv q]] by blast
  show "smc_realm_destroy ar a s = Some (ret, s') \<Longrightarrow> mem_ok s s'"
    using mem_ok_command [OF smc_realm_destroy_safe [OF i q] _ realm_destroy_map [OF inv q]] by blast
  show "smc_rec_destroy a s = Some (ret, s') \<Longrightarrow> mem_ok s s'"
    using mem_ok_command [OF smc_rec_destroy_safe [OF i q] _ rec_destroy_map [OF inv q]] by blast
qed

lemma rec_create_ok:
  assumes i: "inv s" and q: "quiet s" and sz: "\<forall>p. mem = Some p \<longrightarrow> rec_params_sized p"
  shows "smc_rec_create ar hash a b c mem s = Some (ret, s') \<Longrightarrow> mem_ok s s'"
proof -
  from i obtain lv par where inv: "inv_with lv par s" by (auto simp: inv_def)
  show "smc_rec_create ar hash a b c mem s = Some (ret, s') \<Longrightarrow> mem_ok s s'"
    using mem_ok_command [OF smc_rec_create_safe [OF i q sz] _ rec_create_map [OF inv q sz]] by blast
qed

lemma page_commands_ok:
  assumes i: "inv s" and q: "quiet s"
  shows "smc_data_create_unknown mc hash a b c s = Some (ret, s') \<Longrightarrow> mem_ok s s'"
    "smc_data_create mc hash a b c d e mem s = Some (ret, s') \<Longrightarrow> mem_ok_if (dev_attach_flag e = 0) s s'"
    "smc_data_destroy a b s = Some (ret, s') \<Longrightarrow> mem_ok s s'"
proof -
  from i obtain lv par where inv: "inv_with lv par s" by (auto simp: inv_def)
  show "mem_ok s s'" if run: "smc_data_create_unknown mc hash a b c s = Some (ret, s')"
  proof -
    have "created_with 0 b c a ret s s'"
      using data_create_effect [OF i q, where src = None and mc = mc and hash = hash and data_addr = a
          and rd_addr = b and map_addr = c and flags = 0] run
      by (simp add: smc_data_create_unknown_def)
    from created_ok [OF i this] show ?thesis by (simp add: dev_attach_flag_def)
  qed
  show "mem_ok_if (dev_attach_flag e = 0) s s'" if run: "smc_data_create mc hash a b c d e mem s = Some (ret, s')"
    using created_ok [OF i] smc_data_create_effect [OF i q, where mc = mc and hash = hash and data_addr = a
          and rd_addr = b and map_addr = c and src_addr = d and flags = e and mem = mem] run by simp
  show "mem_ok s s'" if run: "smc_data_destroy a b s = Some (ret, s')"
    using data_destroy_map [OF inv q run] smc_data_destroy_safe [OF i q, of a b] run mem_ok_removed
      mem_ok_same [OF i q] by (auto split: if_splits)
qed

lemma query_commands_ok:
  assumes i: "inv s" and q: "quiet s"
  shows "smc_rtt_read_entry a b c ret s = Some (ret', s') \<Longrightarrow> mem_ok s s'"
    "smc_rec_aux_count a ret s = Some (ret', s') \<Longrightarrow> mem_ok s s'"
    "smc_psci_complete a b s = Some (r, s') \<Longrightarrow> mem_ok s s'"
proof -
  from i obtain lv par where inv: "inv_with lv par s" by (auto simp: inv_def)
  show "mem_ok s s'" if run: "smc_rtt_read_entry a b c ret s = Some (ret', s')"
    by (rule smc_rtt_read_entry_cases [OF inv q, where rd_addr = a and map_addr = b and ulevel = c and ret = ret])
      (use run mem_ok_same [OF i q] in \<open>auto split: option.splits\<close>)
  show "mem_ok s s'" if run: "smc_rec_aux_count a ret s = Some (ret', s')"
    using smc_rec_aux_count_safe [OF i q, of a ret] run mem_ok_same [OF i q] by simp
  show "mem_ok s s'" if run: "smc_psci_complete a b s = Some (r, s')"
  proof -
    have "a \<noteq> 0" "b \<noteq> 0" using run by (auto simp: smc_psci_complete_def bind_assert_c split: if_splits)
    then show ?thesis
      using mem_ok_command [OF smc_psci_complete_safe [OF i q] _ psci_complete_map [OF inv q]] run by blast
  qed
qed

lemma rec_enter_ok:
  assumes i: "inv s" and q: "quiet s" and sz: "\<And>e. mem = Some e \<Longrightarrow> entry_sized e"
    and run: "smc_rec_enter P mem ok runs a b p s = Some (out, p', s')"
  shows "mem_ok s s'"
proof -
  from i obtain lv par where inv: "inv_with lv par s" by (auto simp: inv_def)
  show ?thesis
    using smc_rec_enter_effect [OF inv q sz run] inv_defI
    by (auto simp: enter_effect_def intro!: mem_ok_kept)
qed

section \<open>The table of handlers\<close>

text \<open>
  What the model assumes of the host's structures: they have the sizes that their C types
  give them.
\<close>

definition hosted :: "host_env \<Rightarrow> bool" where
  "hosted E \<longleftrightarrow> pred_option entry_sized (he_entry E) \<and> pred_option rec_params_sized (he_rec_params E)"

text \<open>
  A handler is safe if it keeps the invariant and does one step on the map; \<open>ok\<close> are the
  arguments for which it gives back its locks and slots as well.  The one restriction concerns
  Data.Create with the flag that attaches a device: its walk of the realm's tables can return
  with the descriptor or a table still locked.
\<close>

definition handler_ok :: "(u64 list \<Rightarrow> bool) \<Rightarrow> rmi_fn \<Rightarrow> bool" where
  "handler_ok ok f \<longleftrightarrow> (\<forall>a ret m ret' m'. inv (m_mem m) \<longrightarrow> quiet (m_mem m)
     \<longrightarrow> call_handler f a ret m = Some (ret', m') \<longrightarrow> mem_ok_if (ok a) (m_mem m) (m_mem m'))"

definition no_attach :: "u64 list \<Rightarrow> bool" where
  "no_attach a \<longleftrightarrow> dev_attach_flag (a ! 4) = 0"

lemma on_mem_eq_Some: "on_mem f m = Some (x, m') \<longleftrightarrow> (\<exists>s. f (m_mem m) = Some (x, s) \<and> m' = m\<lparr>m_mem := s\<rparr>)"
  by (auto simp: on_mem_def Option.bind_eq_Some_conv)

lemma handler_okI:
  "(\<And>a s x s'. inv s \<Longrightarrow> quiet s \<Longrightarrow> f1 (a ! 0) s = Some (x, s') \<Longrightarrow> mem_ok_if (ok a) s s')
     \<Longrightarrow> handler_ok ok (rmi_type_1 (\<lambda>a. on_mem (f1 a)))"
  "(\<And>a s x s'. inv s \<Longrightarrow> quiet s \<Longrightarrow> f2 (a ! 0) (a ! 1) s = Some (x, s') \<Longrightarrow> mem_ok_if (ok a) s s')
     \<Longrightarrow> handler_ok ok (rmi_type_2 (\<lambda>a b. on_mem (f2 a b)))"
  "(\<And>a s x s'. inv s \<Longrightarrow> quiet s \<Longrightarrow> f3 (a ! 0) (a ! 1) (a ! 2) s = Some (x, s') \<Longrightarrow> mem_ok_if (ok a) s s')
     \<Longrightarrow> handler_ok ok (rmi_type_3 (\<lambda>a b c. on_mem (f3 a b c)))"
  "(\<And>a s x s'. inv s \<Longrightarrow> quiet s \<Longrightarrow> f4 (a ! 0) (a ! 1) (a ! 2) (a ! 3) s = Some (x, s') \<Longrightarrow> mem_ok_if (ok a) s s')
     \<Longrightarrow> handler_ok ok (rmi_type_4 (\<lambda>a b c d. on_mem (f4 a b c d)))"
  "(\<And>a s x s'. inv s \<Longrightarrow> quiet s \<Longrightarrow> f5 (a ! 0) (a ! 1) (a ! 2) (a ! 3) (a ! 4) s = Some (x, s')
       \<Longrightarrow> mem_ok_if (ok a) s s') \<Longrightarrow> handler_ok ok (rmi_type_5 (\<lambda>a b c d e. on_mem (f5 a b c d e)))"
  "(\<And>a s r x s'. inv s \<Longrightarrow> quiet s \<Longrightarrow> g1 (a ! 0) r s = Some (x, s') \<Longrightarrow> mem_ok_if (ok a) s s')
     \<Longrightarrow> handler_ok ok (rmi_type_1_o (\<lambda>a r. on_mem (g1 a r)))"
  "(\<And>a s r x s'. inv s \<Longrightarrow> quiet s \<Longrightarrow> g3 (a ! 0) (a ! 1) (a ! 2) r s = Some (x, s') \<Longrightarrow> mem_ok_if (ok a) s s')
     \<Longrightarrow> handler_ok ok (rmi_type_3_o (\<lambda>a b c r. on_mem (g3 a b c r)))"
  by (auto simp: handler_ok_def Option.bind_eq_Some_conv on_mem_eq_Some)

text \<open>Handlers that leave the memory alone, and REC.Enter.\<close>

lemma handler_ok_pure:
  "handler_ok ok (rmi_type_0 (\<lambda>m. Some (x, m)))"
  "handler_ok ok (rmi_type_1_o (\<lambda>a r m. Option.bind (g a r) (\<lambda>r. Some (r, m))))"
  by (auto simp: handler_ok_def Option.bind_eq_Some_conv intro!: mem_ok_weaken mem_ok_kept)

lemma handler_ok_enter:
  assumes "hosted E"
  shows "handler_ok ok (rmi_type_2 (rec_enter_handler E))"
  unfolding handler_ok_def
proof (intro allI impI)
  fix a ret m ret' m'
  have sz: "\<And>e. he_entry E = Some e \<Longrightarrow> entry_sized e" using assms by (simp add: hosted_def)
  assume "inv (m_mem m)" "quiet (m_mem m)"
    and "call_handler (rmi_type_2 (rec_enter_handler E)) a ret m = Some (ret', m')"
  then show "mem_ok_if (ok a) (m_mem m) (m_mem m')"
    using mem_ok_weaken [OF rec_enter_ok [OF _ _ sz]] by (auto simp: rec_enter_handler_def Option.bind_eq_Some_conv)
qed

text \<open>Every handler of the table is safe; the one in the fourth place with the restriction.\<close>

lemma handlers_ok:
  assumes h: "hosted E" and i: "i < length (smc_handlers E)" and f: "smc_handlers E ! i = Some f"
  shows "handler_ok (\<lambda>a. i = 3 \<longrightarrow> no_attach a) (fn f)"
proof -
  have sz: "\<forall>p. he_rec_params E = Some p \<longrightarrow> rec_params_sized p" using h by (auto simp: hosted_def)
  have "list_all (\<lambda>(i, h). pred_option (\<lambda>f. handler_ok (\<lambda>a. i = 3 \<longrightarrow> no_attach a) (fn f)) h)
      (enumerate 0 (smc_handlers E))"
    unfolding smc_handlers_def Let_def enumerate_simps list.pred_inject prod.case option.pred_inject smc_handler.simps
    apply (intro conjI TrueI handler_ok_pure handler_ok_enter [OF h] handler_okI)
    apply (simp_all add: no_attach_def)
    apply ((erule lifecycle_commands_ok [rotated 2] table_commands_ok [rotated 2] page_commands_ok(1,3) [rotated 2]
          page_commands_ok(2) [rotated 2] query_commands_ok [rotated 2] rec_create_ok [rotated 3]; (assumption | rule sz))+)
    done
  then show ?thesis
    using i f by (auto simp: list_all_length nth_enumerate_eq)
qed

section \<open>One call of the host\<close>

text \<open>The call that attaches a device while it creates a page.\<close>

definition attaches :: "u64 \<Rightarrow> u64 list \<Rightarrow> bool" where
  "attaches function_id args \<longleftrightarrow> SMC_RMI_HANDLER_ID function_id = 3 \<and> \<not> no_attach args"

lemma find_handler_entry:
  "find_handler E fid = Some h \<Longrightarrow>
     unat (SMC_RMI_HANDLER_ID fid) < length (smc_handlers E)
     \<and> smc_handlers E ! unat (SMC_RMI_HANDLER_ID fid) = Some h"
  by (auto simp: find_handler_def Let_def split: if_splits)

lemma not_attaches:
  "\<not> attaches fid args \<Longrightarrow> unat (SMC_RMI_HANDLER_ID fid) = 3 \<longrightarrow> no_attach args"
  by (auto simp: attaches_def word_unat_eq_iff)

lemma found_handler_ok:
  assumes h: "hosted E" and f: "find_handler E fid = Some f"
    and m: "inv (m_mem m)" "quiet (m_mem m)" and run: "call_handler (fn f) args ret m = Some (r, m1)"
  shows "mem_ok_if (\<not> attaches fid args) (m_mem m) (m_mem m1)"
proof -
  have "mem_ok_if (unat (SMC_RMI_HANDLER_ID fid) = 3 \<longrightarrow> no_attach args) (m_mem m) (m_mem m1)"
    using handlers_ok [OF h] find_handler_entry [OF f] m run unfolding handler_ok_def by blast
  then show ?thesis using not_attaches by (auto simp: mem_ok_if_def)
qed

lemma handle_ns_smc_ok:
  assumes h: "hosted E" and i: "inv (m_mem m)" and q: "quiet (m_mem m)"
    and run: "handle_ns_smc E fid args ret m = Some (ret', m')"
  shows "mem_ok_if (\<not> attaches fid args) (m_mem m) (m_mem m')"
proof (cases "find_handler E fid")
  case None
  then show ?thesis using run mem_ok_weaken [OF mem_ok_kept [OF i q]] by (simp add: handle_ns_smc_def)
next
  case (Some f)
  with run obtain r1 m1 where
    "call_handler (fn f) args ret m = Some (r1, m1)" and m': "m_mem m' = m_mem m1"
    by (auto simp: handle_ns_smc_def Let_def Option.bind_eq_Some_conv)
  then show ?thesis using found_handler_ok [OF h Some i q] m' by simp
qed

section \<open>Answers\<close>

text \<open>
  The calls that may fail to return: Realm.Destroy (a VMID above the limit), REC.Enter (the
  realm may run for ever), RTT.Create, RTT.ReadEntry and RTT.Fold (the assertions on block
  entries) and PSCI.Complete (the assertions on the addresses and on x0 of the REC).
\<close>

definition may_stop :: "u64 \<Rightarrow> bool" where
  "may_stop fid \<longleftrightarrow> SMC_RMI_HANDLER_ID fid \<in> {9, 12, 13, 17, 20, 22}"

text \<open>An EL3 monitor that accepts every request, and parameters that do not wrap around.\<close>

definition cooperative :: "host_env \<Rightarrow> bool" where
  "cooperative E \<longleftrightarrow> (\<forall>a. accepts (pl_mc (he_platform E)) SMC_ASC_MARK_SECURE [a, 0, 0, 0, 0, 0])
     \<and> (\<forall>a. accepts (pl_mc (he_platform E)) SMC_ASC_MARK_NONSECURE [a, 0, 0, 0, 0, 0])
     \<and> arch_feat_get_pa_width (he_arch E) \<noteq> None
     \<and> pred_option (\<lambda>p. \<not> tables_wrap p) (he_realm_params E)"

definition answers :: "(u64 list \<Rightarrow> bool) \<Rightarrow> rmi_fn \<Rightarrow> bool" where
  "answers ok f \<longleftrightarrow> (\<forall>a ret m. ok a \<longrightarrow> inv (m_mem m) \<longrightarrow> quiet (m_mem m) \<longrightarrow> call_handler f a ret m \<noteq> None)"

lemma bind_Some_None:
  "Option.bind f (\<lambda>x. Some (h x)) = None \<longleftrightarrow> f = None"
  "Option.bind p (\<lambda>(x, y). Some (k x y)) = None \<longleftrightarrow> p = None"
  by (cases f; simp) (cases p; auto)

lemma on_mem_None: "on_mem f m = None \<longleftrightarrow> f (m_mem m) = None"
  by (simp add: on_mem_def bind_Some_None)

lemma answersI:
  "answers ok (rmi_type_0 (\<lambda>m. Some (x, m)))"
  "(\<And>a s. ok a \<Longrightarrow> inv s \<Longrightarrow> quiet s \<Longrightarrow> f1 (a ! 0) s \<noteq> None) \<Longrightarrow> answers ok (rmi_type_1 (\<lambda>a. on_mem (f1 a)))"
  "(\<And>a s. ok a \<Longrightarrow> inv s \<Longrightarrow> quiet s \<Longrightarrow> f2 (a ! 0) (a ! 1) s \<noteq> None)
     \<Longrightarrow> answers ok (rmi_type_2 (\<lambda>a b. on_mem (f2 a b)))"
  "(\<And>a s. ok a \<Longrightarrow> inv s \<Longrightarrow> quiet s \<Longrightarrow> f3 (a ! 0) (a ! 1) (a ! 2) s \<noteq> None)
     \<Longrightarrow> answers ok (rmi_type_3 (\<lambda>a b c. on_mem (f3 a b c)))"
  "(\<And>a s. ok a \<Longrightarrow> inv s \<Longrightarrow> quiet s \<Longrightarrow> f4 (a ! 0) (a ! 1) (a ! 2) (a ! 3) s \<noteq> None)
     \<Longrightarrow> answers ok (rmi_type_4 (\<lambda>a b c d. on_mem (f4 a b c d)))"
  "(\<And>a s. ok a \<Longrightarrow> inv s \<Longrightarrow> quiet s \<Longrightarrow> f5 (a ! 0) (a ! 1) (a ! 2) (a ! 3) (a ! 4) s \<noteq> None)
     \<Longrightarrow> answers ok (rmi_type_5 (\<lambda>a b c d e. on_mem (f5 a b c d e)))"
  "(\<And>a r s. ok a \<Longrightarrow> inv s \<Longrightarrow> quiet s \<Longrightarrow> g1 (a ! 0) r s \<noteq> None) \<Longrightarrow> answers ok (rmi_type_1_o (\<lambda>a r. on_mem (g1 a r)))"
  "(\<And>a r. ok a \<Longrightarrow> g (a ! 0) r \<noteq> None)
     \<Longrightarrow> answers ok (rmi_type_1_o (\<lambda>a r m. Option.bind (g a r) (\<lambda>r. Some (r, m))))"
  by (simp_all add: answers_def bind_Some_None on_mem_None)

lemma commands_return:
  assumes i: "inv s" and q: "quiet s"
  shows "smc_data_create_unknown mc hash a b c s \<noteq> None" "smc_data_destroy a b s \<noteq> None"
    "dev_attach_flag e = 0 \<Longrightarrow> smc_data_create mc hash a b c d e mem s \<noteq> None"
    "smc_rtt_destroy a b c d s \<noteq> None" "smc_rtt_map_unprotected a b c d s \<noteq> None"
    "smc_rtt_unmap_unprotected a b c s \<noteq> None" "smc_rtt_init_ripas hash a b c s \<noteq> None"
    "smc_rtt_set_ripas a b c d e s \<noteq> None" "smc_realm_activate a s \<noteq> None" "smc_rec_destroy a s \<noteq> None"
    "smc_rec_aux_count a ret s \<noteq> None"
  using smc_data_create_unknown_safe [OF i q, of mc hash a b c] smc_data_destroy_safe [OF i q, of a b]
    smc_data_create_safe [OF i q, of e mc hash a b c d mem] smc_rtt_destroy_safe [OF i q, of a b c d]
    smc_rtt_map_unprotected_safe [OF i q, of a b c d] smc_rtt_unmap_unprotected_safe [OF i q, of a b c]
    smc_rtt_init_ripas_safe [OF i q, of hash a b c] smc_rtt_set_ripas_safe [OF i q, of a b c d e]
    smc_realm_activate_safe [OF i q, of a] smc_rec_destroy_safe [OF i q, of a] smc_rec_aux_count_safe [OF i q, of a ret]
  by (auto split: option.splits)

lemma cooperative_returns:
  assumes h: "hosted E" and c: "cooperative E" and i: "inv s" and q: "quiet s"
  shows "smc_granule_delegate (pl_mc (he_platform E)) a s \<noteq> None"
    "smc_granule_undelegate (pl_mc (he_platform E)) a s \<noteq> None"
    "smc_realm_create (he_arch E) hash a b (he_realm_params E) s \<noteq> None"
    "smc_rec_create (he_arch E) hash a b d (he_rec_params E) s \<noteq> None"
proof -
  have sz: "\<forall>p. he_rec_params E = Some p \<longrightarrow> rec_params_sized p" using h by (auto simp: hosted_def)
  show "smc_granule_delegate (pl_mc (he_platform E)) a s \<noteq> None"
    using smc_granule_delegate_safe [OF i q, of "pl_mc (he_platform E)" a] c
    by (auto simp: cooperative_def split: option.splits)
  show "smc_granule_undelegate (pl_mc (he_platform E)) a s \<noteq> None"
    using smc_granule_undelegate_safe [OF i q, of "pl_mc (he_platform E)" a] c
    by (auto simp: cooperative_def split: option.splits)
  show "smc_realm_create (he_arch E) hash a b (he_realm_params E) s \<noteq> None"
    using smc_realm_create_safe [OF i q, of "he_arch E" "he_realm_params E" hash a b] c
    by (auto simp: cooperative_def split: option.splits)
  show "smc_rec_create (he_arch E) hash a b d (he_rec_params E) s \<noteq> None"
    using smc_rec_create_safe [OF i q sz, of "he_arch E" hash a b d] by (auto split: option.splits)
qed

lemma feature_register_returns: "cooperative E \<Longrightarrow> smc_read_feature_register (he_arch E) a ret \<noteq> None"
  by (auto simp: cooperative_def smc_read_feature_register_def get_feature_register_0_def bind_eq_None_conv Let_def)

lemma handlers_answer:
  assumes h: "hosted E" and c: "cooperative E" and i: "i < length (smc_handlers E)"
    and f: "smc_handlers E ! i = Some f" and n: "i \<notin> {9, 12, 13, 17, 20, 22}"
  shows "answers (\<lambda>a. i = 3 \<longrightarrow> no_attach a) (fn f)"
proof -
  have "list_all (\<lambda>(i, h). i \<in> {9, 12, 13, 17, 20, 22} \<or>
      pred_option (\<lambda>f. answers (\<lambda>a. i = 3 \<longrightarrow> no_attach a) (fn f)) h) (enumerate 0 (smc_handlers E))"
    unfolding smc_handlers_def Let_def enumerate_simps list.pred_inject prod.case option.pred_inject smc_handler.simps
    apply (intro conjI TrueI)
    apply (simp_all del: One_nat_def)
    apply (rule answersI; (rule commands_return cooperative_returns [OF h c] feature_register_returns [OF c];
      (assumption | simp add: no_attach_def)))+
    done
  then show ?thesis
    using i f n by (auto simp: list_all_length nth_enumerate_eq)
qed

lemma may_stop_unat:
  "\<not> may_stop fid \<Longrightarrow> unat (SMC_RMI_HANDLER_ID fid) \<notin> {9, 12, 13, 17, 20, 22}"
  by (auto simp: may_stop_def word_unat_eq_iff)

section \<open>Runs of the monitor\<close>

text \<open>
  Between two calls the host uses the processing element as it likes; a call is one round of
  the loop of entry.S.  A call that attaches a device is a step only if it comes back with no
  lock held; after one that leaves a lock held, whatever takes that lock waits for ever.
\<close>

inductive monitor_step :: "machine \<Rightarrow> machine \<Rightarrow> bool" where
  host_runs: "monitor_step m (m\<lparr>m_pe := p\<rparr>)"
| host_call: "hosted E \<Longrightarrow> rmm_handler E x m = Some (ret, m')
     \<Longrightarrow> (attaches (x ! 0) (take 5 (drop 1 x)) \<longrightarrow> quiet (m_mem m')) \<Longrightarrow> monitor_step m m'"

inductive_cases monitor_stepE: "monitor_step m m'"

definition booted :: "machine \<Rightarrow> bool" where
  "booted m \<longleftrightarrow> m_mem m = boot_state"

lemma monitor_step_ok:
  assumes "monitor_step m m'" and "inv (m_mem m)" and "quiet (m_mem m)"
  shows "mem_ok (m_mem m) (m_mem m')"
  using assms(1)
proof (cases rule: monitor_step.cases)
  case (host_runs p)
  then show ?thesis using mem_ok_kept [OF assms(2,3)] by simp
next
  case (host_call E x ret)
  have "mem_ok_if (\<not> attaches (x ! 0) (take 5 (drop 1 x))) (m_mem m) (m_mem m')"
    using handle_ns_smc_ok [OF host_call(1) assms(2,3)] host_call(2) by (auto simp: rmm_handler_def)
  then show ?thesis using host_call(3) by (auto simp: mem_ok_if_def mem_ok_def)
qed

interpretation monitor: refinement booted monitor_step "\<lambda>m. inv (m_mem m) \<and> quiet (m_mem m)"
  "\<lambda>m. mem_map (m_mem m)" map_step
proof unfold_locales
  show "inv (m_mem m) \<and> quiet (m_mem m)" if "booted m" for m
    using that inv_boot quiet_boot by (simp add: booted_def)
  show "inv (m_mem m') \<and> quiet (m_mem m')" if "inv (m_mem m) \<and> quiet (m_mem m)" "monitor_step m m'" for m m'
    using monitor_step_ok that by (simp add: mem_ok_def)
  show "map_step (mem_map (m_mem m)) (mem_map (m_mem m'))"
    if "inv (m_mem m) \<and> quiet (m_mem m)" "monitor_step m m'" for m m'
    using monitor_step_ok that by (simp add: mem_ok_def)
qed

end
