(* ===== verification/Monitor_Properties.thy ===== *)
theory Monitor_Properties
  imports Monitor_Steps
begin

text \<open>
  Properties of the whole monitor: its reachable states, the effect of a call, what the entry
  of a REC can change, and which calls are always answered.
\<close>

section \<open>A concrete machine\<close>

definition sample_simd :: simd_regs where
  "sample_simd = \<lparr>v_z = replicate 32 0, v_p = replicate 16 0, v_ffr = 0, v_fpsr = 0, v_fpcr = 0,
     v_zcr_el1 = 0, v_zcr_el2 = 0\<rparr>"

definition sample_pe :: pe where
  "sample_pe = \<lparr>hw = zero_sysregs, hw_elr_el2 = 0, hw_spsr_el2 = 0, hw_esr_el2 = 0, hw_far_el2 = 0,
     hw_hpfar_el2 = 0, hw_vsesr_el2 = 0, hw_vtcr_el2 = 0, hw_vttbr_el2 = 0, hw_cptr_el2 = 0,
     hw_icc_sre_el2 = 0, hw_simd = sample_simd, isr_reads = [], hppir_reads = [],
     ns_data = \<lparr>ns_sysregs = zero_sysregs, ns_icc_sre_el2 = 0, ns_fpu = False, ns_sve = False\<rparr>,
     sve_data = \<lparr>sve_zcr_fpu = replicate 4 0, sve_z = replicate 32 0, sve_p_ffr = replicate 17 0\<rparr>,
     fpu_data = zero_fpu, heap_ctx = False\<rparr>"

definition sample_platform :: platform where
  "sample_platform = \<lparr>pl_ids = \<lparr>ID_AA64PFR0_EL1 = 0, ID_AA64PFR1_EL1 = 0, ID_AA64DFR0_EL1 = 0,
       ID_AA64DFR1_EL1 = 0, ID_AA64AFR0_EL1 = 0, ID_AA64AFR1_EL1 = 0, ID_AA64ISAR0_EL1 = 0,
       ID_AA64ISAR1_EL1 = 0, ID_AA64MMFR0_EL1 = 5, ID_AA64MMFR1_EL1 = 0, ID_AA64MMFR2_EL1 = 0\<rparr>,
     pl_gic = \<lparr>nr_lrs = 3, nr_aprs = 0, pri_res0_mask = 7, max_vintid = 0xFFFF, ext_range = False\<rparr>,
     pl_mc = (\<lambda>f args. 0), pl_hash = (\<lambda>a d. zero_digest),
     pl_lib = \<lparr>al_restart = T_COSE_SUCCESS, al_parameters = T_COSE_SUCCESS,
       al_sign = (\<lambda>n cs. (T_COSE_SUCCESS, n)), al_finish = (\<lambda>n cs. (QCBOR_SUCCESS, [])),
       al_public_key = None, al_public_key_hash_algo_id = HASH_ALGO_SHA256,
       al_platform_token = None, al_initialized = True,
       al_alloc = \<lparr>MEMORY_ALIGN_MULTIPLE = 8, MEMORY_VERIFY_ALLOC = 1, MEMORY_VERIFY_FREE = 2\<rparr>,
       al_heap = (\<lambda>n cs. Some (\<lambda>h. h))\<rparr>,
     pl_walk = zero_walk,
     pl_attest = \<lparr>ar_incomplete = False, ar_walk = walk_none, ar_x = [0, 0, 0, 0]\<rparr>, pl_psci = psci_zero,
     pl_attest_initialized = True\<rparr>"

definition sample_entry :: rmi_rec_entry where
  "sample_entry = \<lparr>entry_flags = 0, entry_gprs = replicate 31 0, entry_gicv3_hcr = 0,
     entry_gicv3_lrs = replicate 16 0\<rparr>"

definition sample_env :: host_env where
  "sample_env = \<lparr>he_arch = \<lparr>id_aa64mmfr0_el1 = 5, id_aa64mmfr1_el1 = 0\<rparr>, he_platform = sample_platform,
     he_realm_params = None, he_rec_params = None, he_data = None, he_entry = Some sample_entry,
     he_exit_ok = True, he_runs = []\<rparr>"

definition sample_machine :: "rmm \<Rightarrow> machine" where
  "sample_machine s = \<lparr>m_pe = sample_pe, m_mem = s, m_exit = None, m_log = []\<rparr>"

lemma sample_hosted: "hosted sample_env"
  by (simp add: hosted_def sample_env_def sample_entry_def entry_sized_def)

lemma sample_machine_mem [simp]: "m_mem (sample_machine s) = s"
  by (simp add: sample_machine_def)

section \<open>Reachable states\<close>

text \<open>
  C7: In every state that the monitor reaches from its start by a sequence of calls of the
  host, with any identifiers, arguments, structures and runs of realms, the invariant holds, no
  lock is held, no slot is mapped, and no physical page is mapped at two addresses, in one
  realm or in two.  The sequence may contain calls of Data.Create that attach a device as long
  as these come back with no lock held; one that leaves a lock held, as the code allows, ends
  the sequences that are considered (what such a call does is the next property).
\<close>

theorem reachable_states_safe:
  assumes "booted m0" and "monitor_step\<^sup>*\<^sup>* m0 m"
  shows "inv (m_mem m) \<and> quiet (m_mem m) \<and> map_exclusive (mem_map (m_mem m))"
  using monitor.reached_good [OF assms] mem_map_exclusive by blast

lemma sample_reached:
  "monitor_step\<^sup>*\<^sup>* (sample_machine boot_state) ((sample_machine boot_state)\<lparr>m_pe := sample_pe\<lparr>hw_elr_el2 := 4\<rparr>\<rparr>)"
  by (rule r_into_rtranclp) (rule host_runs)

theorem reachable_states_safe_witness:
  "inv boot_state \<and> quiet boot_state \<and> map_exclusive (mem_map boot_state)"
  using reachable_states_safe [OF _ sample_reached] by (simp add: booted_def)

text \<open>
  C8: A call of the host, whatever its function identifier and arguments, keeps the invariant
  if it returns; seen through the map of the realms' memory it adds one page that is mapped
  nowhere, removes one page, or changes nothing.  It gives back all its locks and slots, unless
  it is a Data.Create with the flag that attaches a device.
\<close>

theorem every_call_refines:
  assumes "hosted E" and "inv (m_mem m)" and "quiet (m_mem m)"
  shows "case handle_ns_smc E fid args ret m of None \<Rightarrow> True
    | Some (ret', m') \<Rightarrow> inv (m_mem m') \<and> map_step (mem_map (m_mem m)) (mem_map (m_mem m'))
        \<and> (if attaches fid args then True else quiet (m_mem m'))"
  using handle_ns_smc_ok [OF assms] by (auto simp: mem_ok_if_def split: option.split)

theorem every_call_refines_witness:
  "case handle_ns_smc sample_env 0xC4000155 [0x80000000, 0, 0, 0, 0] [0, 0, 0, 0, 0]
       (sample_machine sample_state) of None \<Rightarrow> True
    | Some (ret', m') \<Rightarrow> inv (m_mem m')
        \<and> map_step (mem_map (m_mem (sample_machine sample_state))) (mem_map (m_mem m'))
        \<and> (if attaches 0xC4000155 [0x80000000, 0, 0, 0, 0] then True else quiet (m_mem m'))"
  by (rule every_call_refines [OF sample_hosted]) (simp_all add: inv_sample quiet_sample)

section \<open>The entry of a REC\<close>

text \<open>The realm that a REC belongs to.\<close>

definition entered_realm :: "rmm \<Rightarrow> u64 \<Rightarrow> nat option" where
  "entered_realm s rec_addr = do {
     g \<leftarrow> find_granule rec_addr;
     if gst s g = GRANULE_STATE_REC
     then (case content s g of CRec rec \<Rightarrow> Some (ri_g_rd (rec_realm_info rec)) | _ \<Rightarrow> None) else None
   }"

lemma page_granule_unique:
  assumes i: "inv s" and "d \<in> realm_pages s r" and "d \<in> realm_pages s r'"
  shows "r' = r"
proof -
  from assms(2,3) obtain a pa a' pa' where
    "mem_map s r a = Some pa" "find_granule pa = Some d" "mem_map s r' a' = Some pa'" "find_granule pa' = Some d"
    by (auto simp: realm_pages_def)
  moreover from this have "pa' = pa" using find_granule_inject by blast
  ultimately show ?thesis using mem_map_inject [OF i] by blast
qed

lemma realm_pages_data:
  assumes i: "inv s" and "d \<in> realm_pages s r"
  shows "gst s d = GRANULE_STATE_DATA"
proof -
  from i obtain lv par where inv: "inv_with lv par s" by (auto simp: inv_def)
  from assms(2) obtain a pa where m: "mem_map s r a = Some pa" and d: "find_granule pa = Some d"
    by (auto simp: realm_pages_def)
  from mem_map_Some [OF m] obtain c where
    c: "realm_at s r c" "a < push_bit (s2_ipa_bits c) 1" "realm_page (content s) c a = Some pa"
    by (auto simp: in_realm_def)
  show ?thesis by (rule realm_page_owner [OF inv c]) (use d in simp)
qed

lemma enter_world_realm:
  assumes i: "inv s" and d: "d \<in> realm_pages s r" and r: "entered_realm s rec_addr \<noteq> Some r"
  shows "d \<notin> enter_world s rec_addr"
proof
  assume "d \<in> enter_world s rec_addr"
  then obtain g rec where g: "find_granule rec_addr = Some g" "gst s g = GRANULE_STATE_REC"
    "content s g = CRec rec" and w: "d \<in> rec_world s g rec"
    by (auto simp: enter_world_def split: option.splits if_splits content.splits)
  let ?R = "ri_g_rd (rec_realm_info rec)"
  from i obtain lv par where inv: "inv_with lv par s" by (auto simp: inv_def)
  have "gst s ?R = GRANULE_STATE_RD"
    using inv_with_rec_linked(2) [OF inv find_granule_bound [OF g(1)] g(2,3)] .
  moreover have "\<forall>a\<in>set (rec_g_aux rec). gst s a = GRANULE_STATE_REC_AUX"
    using inv_with_rec [OF inv find_granule_bound [OF g(1)] g(2)] g(3) by (auto simp: rec_ok_def)
  ultimately have "d \<in> realm_pages s ?R"
    using w g(2) realm_pages_data [OF i d] by (auto simp: rec_world_def)
  then have "?R = r" using page_granule_unique [OF i d] by simp
  then show False using r g by (simp add: entered_realm_def)
qed

text \<open>
  C9: However a realm behaves while it runs, the entry of its REC keeps the invariant, the
  states and reference counts of all granules and the map of the realms' memory; it changes
  the contents of nothing but that REC and its auxiliary granules, which hold the heap of the
  crypto library, the descriptor of its realm and the realm's own pages, so no page of another
  realm.
\<close>

theorem rec_enter_confined:
  assumes "inv s" and "quiet s" and "pred_option entry_sized mem"
  shows "case smc_rec_enter P mem ok runs rec_addr rec_run_addr p s of None \<Rightarrow> True
    | Some (out, p', s') \<Rightarrow> inv s' \<and> quiet s' \<and> granules s' = granules s \<and> vmids s' = vmids s
        \<and> mem_map s' = mem_map s \<and> {x. content s' x \<noteq> content s x} \<subseteq> enter_world s rec_addr
        \<and> {x. content s' x \<noteq> content s x} \<inter> (\<Union>r \<in> {r. entered_realm s rec_addr \<noteq> Some r}. realm_pages s r) = {}"
proof (cases "smc_rec_enter P mem ok runs rec_addr rec_run_addr p s")
  case (Some x)
  obtain out p' s' where x: "x = (out, p', s')" by (cases x)
  from assms(1) obtain lv par where inv: "inv_with lv par s" by (auto simp: inv_def)
  have "\<And>e. mem = Some e \<Longrightarrow> entry_sized e" using assms(3) by simp
  from smc_rec_enter_effect [OF inv assms(2) this Some [unfolded x]]
  show ?thesis
    using enter_world_realm [OF assms(1)] inv_defI by (fastforce simp: Some x enter_effect_def)
qed simp

theorem rec_enter_confined_witness:
  "case smc_rec_enter sample_platform (Some sample_entry) True [] 0x80007000 0x80008000 sample_pe sample_state of
      None \<Rightarrow> True
    | Some (out, p', s') \<Rightarrow> inv s' \<and> quiet s' \<and> granules s' = granules sample_state
        \<and> vmids s' = vmids sample_state \<and> mem_map s' = mem_map sample_state
        \<and> {x. content s' x \<noteq> content sample_state x} \<subseteq> enter_world sample_state 0x80007000
        \<and> {x. content s' x \<noteq> content sample_state x}
            \<inter> (\<Union>r \<in> {r. entered_realm sample_state 0x80007000 \<noteq> Some r}. realm_pages sample_state r) = {}"
  by (rule rec_enter_confined [OF inv_sample quiet_sample]) (simp add: entry_sized_def sample_entry_def)

section \<open>Answers\<close>

text \<open>
  C10: A call of the host is answered (no assertion fails, no lock is waited for and no slot is
  left mapped) under these conditions: EL3 grants every request to change the world of a
  granule, the ID register names a known width of physical addresses, and the parameters that
  the host offers for Realm.Create do not describe root tables that wrap around the address
  space (with such parameters an assertion of Realm.Create fails); the call is none of
  Realm.Destroy, REC.Enter, RTT.Create, RTT.ReadEntry, RTT.Fold and PSCI.Complete, and no
  Data.Create that attaches a device.
\<close>

theorem calls_answered:
  assumes h: "hosted E" and c: "cooperative E" and na: "\<not> attaches fid args" and ms: "\<not> may_stop fid"
    and i: "inv (m_mem m)" and q: "quiet (m_mem m)"
  shows "\<exists>ret' m'. handle_ns_smc E fid args ret m = Some (ret', m')"
proof (cases "find_handler E fid")
  case None
  then show ?thesis by (simp add: handle_ns_smc_def)
next
  case (Some f)
  let ?n = "unat (SMC_RMI_HANDLER_ID fid)"
  have "answers (\<lambda>a. ?n = 3 \<longrightarrow> no_attach a) (fn f)"
    using handlers_answer [OF h c] find_handler_entry [OF Some] may_stop_unat [OF ms] by blast
  then obtain r m1 where run: "call_handler (fn f) args ret m = Some (r, m1)"
    using not_attaches [OF na] i q unfolding answers_def by (metis option.exhaust surj_pair)
  have "quiet (m_mem m1)" using found_handler_ok [OF h Some i q run] na by (simp add: mem_ok_if_def)
  then show ?thesis using Some run q by (simp add: handle_ns_smc_def assert_cpu_slots_empty_def quiet_def list_all_iff)
qed

lemma sample_cooperative: "cooperative sample_env"
proof -
  have "arch_feat_get_pa_width (he_arch sample_env) \<noteq> None"
    by (simp add: sample_env_def arch_feat_get_pa_width_def pa_range_bits_arr_def Let_def)
  then show ?thesis by (simp add: cooperative_def sample_env_def sample_platform_def accepts_def)
qed

lemma data_destroy_may_not_stop: "\<not> may_stop 0xC4000155"
  by (simp add: may_stop_def SMC_RMI_HANDLER_ID_def SMC_FNUM_def word_consts)

theorem calls_answered_witness:
  "\<exists>ret' m'. handle_ns_smc sample_env 0xC4000155 [0x80000000, 0, 0, 0, 0] [0, 0, 0, 0, 0]
     (sample_machine sample_state) = Some (ret', m')"
  by (rule calls_answered [OF sample_hosted sample_cooperative])
    (simp_all add: attaches_def no_attach_def dev_attach_flag_def data_destroy_may_not_stop
      inv_sample quiet_sample)

end
