(* ===== verification/Smc_Dispatch_Correct.thy ===== *)
theory Smc_Dispatch_Correct
  imports Smc_Dispatch
begin

text \<open>
  The dispatch of the host's calls: which function identifiers have a handler, and from
  which faults the monitor recovers.
\<close>

section \<open>Function identifiers\<close>

definition rmi_fids :: "u32 set" where
  "rmi_fids = {0xC4000150, 0xC4000151, 0xC4000152, 0xC4000153, 0xC4000154, 0xC4000155, 0xC4000157,
     0xC4000158, 0xC4000159, 0xC400015A, 0xC400015B, 0xC400015C, 0xC400015D, 0xC400015E, 0xC400015F,
     0xC4000161, 0xC4000162, 0xC4000164, 0xC4000165, 0xC4000166, 0xC4000167, 0xC4000168, 0xC4000169}"

lemma fid_parts:
  fixes fid :: u64
  shows "fid AND 0xFFFF0000 = ucast (push_bit 16 (take_bit 16 (drop_bit 16 (ucast fid :: u32))))"
    "fid AND 0xFFFF = ucast (take_bit 16 (ucast fid :: u32))"
proof -
  have m: "(0xFFFF0000 :: u64) = push_bit 16 (mask 16)" "(0xFFFF :: u64) = mask 16"
    by (simp_all add: mask_eq_exp_minus_1 push_bit_eq_mult)
  show "fid AND 0xFFFF0000 = ucast (push_bit 16 (take_bit 16 (drop_bit 16 (ucast fid :: u32))))"
    unfolding m(1) by (rule bit_word_eqI) (auto simp: bit_simps)
  show "fid AND 0xFFFF = ucast (take_bit 16 (ucast fid :: u32))"
    unfolding m(2) by (rule bit_word_eqI) (auto simp: bit_simps)
qed

lemma fid_join: "f = push_bit 16 (take_bit 16 (drop_bit 16 f)) + take_bit 16 f" for f :: u32
proof -
  have "f = push_bit 16 (take_bit 16 (drop_bit 16 f)) OR take_bit 16 f"
    by (rule bit_word_eqI) (auto simp: bit_simps)
  also have "\<dots> = push_bit 16 (take_bit 16 (drop_bit 16 f)) + take_bit 16 f"
    by (rule disjunctive_add [symmetric]) (auto simp: bit_simps)
  finally show ?thesis .
qed

lemma below_26: "k < 26 \<Longrightarrow> k = 0 \<or> k = 1 \<or> k = 2 \<or> k = 3 \<or> k = 4 \<or> k = 5 \<or> k = 6 \<or> k = 7 \<or> k = 8 \<or> k = 9 \<or> k = 10 \<or> k = 11 \<or> k = 12 \<or> k = 13 \<or> k = 14 \<or> k = 15 \<or> k = 16 \<or> k = 17 \<or> k = 18 \<or> k = 19 \<or> k = 20 \<or> k = 21 \<or> k = 22 \<or> k = 23 \<or> k = 24 \<or> k = 25" for k :: nat
  by presburger

lemma rmi_fid_iff:
  "IS_SMC64_RMI_FID fid \<longleftrightarrow> (\<exists>k<26. ucast fid = (0xC4000150 + of_nat k :: u32))"
  "IS_SMC64_RMI_FID fid \<Longrightarrow> ucast fid = (0xC4000150 + of_nat (unat (SMC_RMI_HANDLER_ID fid)) :: u32)"
proof -
  let ?f = "ucast fid :: u32"
  let ?n = "SMC_FNUM fid"
  have up_down: "ucast (ucast x :: u64) = x" for x :: u32 by (rule bit_word_eqI) (auto simp: bit_simps)
  have n: "?n = ucast (take_bit 16 ?f)" by (simp add: SMC_FNUM_def fid_parts)
  have key: "?f = 0xC4000150 + of_nat (unat (SMC_RMI_HANDLER_ID fid)) \<and> unat (SMC_RMI_HANDLER_ID fid) < 26"
    if r: "IS_SMC64_RMI_FID fid"
  proof -
    have hi: "(ucast (push_bit 16 (take_bit 16 (drop_bit 16 ?f))) :: u64) = ucast (0xC4000000 :: u32)"
      using r by (simp add: IS_SMC64_RMI_FID_def IS_SMC64_FID_STD_FAST_def fid_parts)
    have "push_bit 16 (take_bit 16 (drop_bit 16 ?f)) = 0xC4000000"
      using arg_cong [OF hi, of "\<lambda>x. ucast x :: u32"] unfolding up_down .
    moreover have b: "0x150 \<le> unat ?n" "unat ?n \<le> 0x169"
      using r by (auto simp: IS_SMC64_RMI_FID_def word_consts word_le_nat_alt)
    moreover have u: "unat (SMC_RMI_HANDLER_ID fid) = unat ?n - 0x150"
      using b by (simp add: SMC_RMI_HANDLER_ID_def word_consts unat_sub word_le_nat_alt)
    moreover have "take_bit 16 ?f = of_nat (unat ?n)" by (simp add: n up_down)
    ultimately show ?thesis using fid_join [of ?f] by (simp add: of_nat_diff)
  qed
  show "IS_SMC64_RMI_FID fid \<Longrightarrow> ?f = 0xC4000150 + of_nat (unat (SMC_RMI_HANDLER_ID fid))"
    using key by blast
  show "IS_SMC64_RMI_FID fid \<longleftrightarrow> (\<exists>k<26. ?f = 0xC4000150 + of_nat k)"
  proof
    show "IS_SMC64_RMI_FID fid \<Longrightarrow> \<exists>k<26. ?f = 0xC4000150 + of_nat k" using key by blast
    assume "\<exists>k<26. ?f = 0xC4000150 + of_nat k"
    then obtain k where k: "k < 26" "?f = 0xC4000150 + of_nat k" by auto
    show "IS_SMC64_RMI_FID fid"
      using below_26 [OF k(1)] k(2)
      by (elim disjE) (simp_all add: IS_SMC64_RMI_FID_def IS_SMC64_FID_STD_FAST_def SMC_FNUM_def fid_parts word_consts)
  qed
qed

lemma found_handler_iff: "find_handler E fid \<noteq> None \<longleftrightarrow> ucast fid \<in> rmi_fids"
proof
  assume f: "find_handler E fid \<noteq> None"
  let ?k = "unat (SMC_RMI_HANDLER_ID fid)"
  have r: "IS_SMC64_RMI_FID fid" and k: "?k < length (smc_handlers E)" "smc_handlers E ! ?k \<noteq> None"
    using f by (auto simp: find_handler_def Let_def split: if_splits)
  have "?k < 26" using k(1) by (simp add: smc_handlers_def Let_def)
  from below_26 [OF this] show "ucast fid \<in> rmi_fids"
    using k(2) unfolding rmi_fid_iff(2) [OF r]
    by (elim disjE) (simp_all add: rmi_fids_def smc_handlers_def Let_def)
next
  assume f: "ucast fid \<in> rmi_fids"
  then have r: "IS_SMC64_RMI_FID fid"
    by (auto simp: rmi_fids_def IS_SMC64_RMI_FID_def IS_SMC64_FID_STD_FAST_def SMC_FNUM_def fid_parts word_consts)
  have "SMC_RMI_HANDLER_ID fid = ucast (take_bit 16 (ucast fid :: u32)) - 0x150"
    by (simp add: SMC_RMI_HANDLER_ID_def SMC_FNUM_def fid_parts word_consts)
  then show "find_handler E fid \<noteq> None"
    using f r by (auto simp: find_handler_def rmi_fids_def smc_handlers_def Let_def)
qed

text \<open>
  C11: The handler of a call is selected by the lower half of x0.  One of the 23 identifiers of
  the interface has a handler; for all others x0 becomes SMC_UNKNOWN, and neither the other
  registers nor the state of the monitor change.
\<close>

theorem unknown_calls_rejected:
  "if ucast fid \<in> rmi_fids then find_handler E fid \<noteq> None
   else handle_ns_smc E fid args ret m = Some (ret[0 := SMC_UNKNOWN], m)"
  using found_handler_iff [of E fid] by (auto simp: handle_ns_smc_def)

section \<open>Recovery from faults\<close>

text \<open>
  C13: The monitor recovers from an exception of its own exactly if it is a data abort by a
  granule protection fault at one of the two instructions that access the host's memory; it
  goes on at the address that makes the access fail.
\<close>

theorem recovers_from_ns_faults_only:
  "handle_rmm_trap (rmm_trap_list ns_read ns_write ns_access_ret_0) p = Some pc \<longleftrightarrow>
     hw_esr_el2 p AND 0xFC000000 = 0x94000000 \<and> hw_esr_el2 p AND 0x3F = 0x28
     \<and> hw_elr_el2 p \<in> {ns_read, ns_write} \<and> pc = ns_access_ret_0"
  by (auto simp: handle_rmm_trap_def rmm_trap_list_def is_el2_data_abort_gpf_def arch_consts INPLACE_def
      MASK_def mask_eq_exp_minus_1 push_bit_eq_mult)

end
