(* ===== verification/Heap_Blocks.thy ===== *)
theory Heap_Blocks
  imports Heap_Alloc
begin

text \<open>
  What the headers in memory mean: fields of separate headers do not interfere, lists of
  headers linked in both directions, and blocks that tile a range of addresses.
\<close>

section \<open>Fields\<close>

lemma apartI:
  assumes "0 < n" and "0 < k" and "\<And>x. x - a < n \<Longrightarrow> x - b < k \<Longrightarrow> False"
  shows "apart a n b k"
  using assms(3) [of a] assms(3) [of b] assms(1,2) unfolding apart_def
  by (metis diff_self linorder_not_less)

lemma in_header:
  fixes x :: u64
  assumes "x - (a + d) < 8" and "d \<le> 56"
  shows "x - a < 64"
proof -
  define y where "y = x - (a + d)"
  have u: "unat y < 8" "unat d \<le> 56"
    using assms by (simp_all only: y_def [symmetric] word_less_nat_alt word_le_nat_alt) simp_all
  then have "unat y + unat d < 2 ^ LENGTH(64)" by simp
  then have "unat (y + d) = unat y + unat d" by (rule unat_add_lem [THEN iffD1])
  moreover have "x - a = y + d" by (simp add: y_def)
  ultimately have "unat (x - a) < unat (64 :: u64)" using u by simp
  then show ?thesis by (simp only: word_less_nat_alt)
qed

lemma field_offset_bound: "field_offset f \<le> 56"
  by (cases f) simp_all

lemma apart_fields:
  assumes "apart a 64 b 64"
  shows "apart (a + field_offset f) 8 (b + field_offset g) 8"
proof (rule apartI)
  fix x assume "x - (a + field_offset f) < 8" "x - (b + field_offset g) < 8"
  then have "x - a < 64" "x - b < 64" using in_header field_offset_bound by blast+
  then show False using apart_in [OF assms] by blast
qed simp_all

lemma apart_offsets: "f \<noteq> g \<Longrightarrow> apart (a + field_offset f) 8 (a + field_offset g) 8"
  by (cases f; cases g) (simp_all add: apart_def)

definition far :: "u64 \<Rightarrow> u64 \<Rightarrow> bool" where
  "far a b \<longleftrightarrow> a = b \<or> apart a 64 b 64"

lemma fld_set:
  assumes "far a b"
  shows "fld (fld_set a f v m) b g = (if a = b \<and> f = g then v else fld m b g)"
  using assms unfolding far_def fld_def fld_set_def
  by (auto simp: load64_store64_same load64_store64_apart apart_fields apart_offsets)

lemma fld_memset0:
  assumes "apart a n b 64" and "0 < n"
  shows "fld (memset0 a n m) b g = fld m b g"
  unfolding fld_def
  by (rule load64_other) (use apart_in [OF assms(1)] in_header field_offset_bound in \<open>auto simp: memset0_def\<close>)

lemma fld_set_byte: "\<not> x - a < 64 \<Longrightarrow> fld_set a f v m x = m x"
  using in_header [OF _ field_offset_bound [of f]] by (auto simp: fld_set_def store64_def)

lemma fld_zero: "(\<And>x. x - b < 64 \<Longrightarrow> m x = 0) \<Longrightarrow> fld m b g = 0"
  unfolding fld_def by (rule load64_zero) (use in_header field_offset_bound in blast)

section \<open>Lists linked in both directions\<close>

text \<open>The first address of a list that goes on at \<open>n\<close>, and the last one of a list after \<open>p\<close>.\<close>

primrec front :: "u64 list \<Rightarrow> u64 \<Rightarrow> u64" where
  "front [] n = n"
| "front (a # as) n = a"

primrec rear :: "u64 \<Rightarrow> u64 list \<Rightarrow> u64" where
  "rear p [] = p"
| "rear p (a # as) = rear a as"

lemma front_append [simp]: "front (as @ bs) n = front as (front bs n)"
  by (cases as) simp_all

lemma rear_append [simp]: "rear p (as @ bs) = rear (rear p as) bs"
  by (induction as arbitrary: p) simp_all

lemma rear_mem: "as \<noteq> [] \<Longrightarrow> rear p as \<in> set as"
  by (induction as arbitrary: p) (auto, metis rear.simps(1))

lemma front_mem: "as \<noteq> [] \<Longrightarrow> front as n \<in> set as"
  by (cases as) simp_all

lemma rear_zero: "0 \<notin> set as \<Longrightarrow> rear 0 as = 0 \<longleftrightarrow> as = []"
  using rear_mem [of as 0] by (cases "as = []") auto

lemma front_zero: "0 \<notin> set as \<Longrightarrow> front as 0 = 0 \<longleftrightarrow> as = []"
  by (cases as) auto

primrec dll :: "(u64 \<Rightarrow> u64) \<Rightarrow> (u64 \<Rightarrow> u64) \<Rightarrow> u64 \<Rightarrow> u64 list \<Rightarrow> u64 \<Rightarrow> bool" where
  "dll P N p [] n \<longleftrightarrow> True"
| "dll P N p (a # as) n \<longleftrightarrow> P a = p \<and> N a = front as n \<and> dll P N a as n"

lemma dll_append [simp]:
  "dll P N p (as @ bs) n \<longleftrightarrow> dll P N p as (front bs n) \<and> dll P N (rear p as) bs n"
  by (induction as arbitrary: p) auto

lemma dll_cong:
  "(\<And>a. a \<in> set as \<Longrightarrow> P' a = P a \<and> N' a = N a) \<Longrightarrow> dll P' N' p as n \<longleftrightarrow> dll P N p as n"
  by (induction as arbitrary: p) auto

lemma dll_end:
  assumes "dll P N p as n" and "distinct as"
    and "\<And>a. a \<in> set as \<Longrightarrow> P' a = P a \<and> N' a = (if a = rear p as then n' else N a)"
  shows "dll P' N' p as n'"
  using assms
proof (induction as arbitrary: p)
  case (Cons a as)
  have ih: "dll P' N' a as n'"
    using Cons.prems by (intro Cons.IH) auto
  have "a \<noteq> rear a as" if "as \<noteq> []" using rear_mem [OF that, of a] Cons.prems(2) by auto
  then show ?case using ih Cons.prems(1,3) by (cases as) auto
qed simp

lemma dll_start:
  assumes "dll P N p as n" and "distinct as"
    and "\<And>a. a \<in> set as \<Longrightarrow> P' a = (if a = front as n then p' else P a) \<and> N' a = N a"
  shows "dll P' N' p' as n"
proof (cases as)
  case (Cons b bs)
  have "dll P' N' b bs n \<longleftrightarrow> dll P N b bs n" using assms(2,3) Cons by (intro dll_cong) auto
  then show ?thesis using assms Cons by auto
qed simp

text \<open>One element leaves a list, takes the place of another, or is added after another.\<close>

lemma dll_unlink:
  assumes d: "dll P N 0 (xs @ a # ys) 0" and dist: "distinct (xs @ a # ys)"
    and P: "\<And>b. b \<in> set xs \<union> set ys \<Longrightarrow> P' b = (if b = front ys 0 then rear 0 xs else P b)"
    and N: "\<And>b. b \<in> set xs \<union> set ys \<Longrightarrow> N' b = (if b = rear 0 xs then front ys 0 else N b)"
    and z: "0 \<notin> set (xs @ a # ys)"
  shows "dll P' N' 0 (xs @ ys) 0"
proof -
  have sep: "front ys 0 \<notin> set xs" "rear 0 xs \<notin> set ys"
    using dist z front_mem [of ys 0] rear_mem [of xs 0] by (cases "ys = []"; cases "xs = []"; auto)+
  have "dll P' N' 0 xs (front ys 0)"
    by (rule dll_end [of P N 0 xs a]) (use d dist P N sep in auto)
  moreover have "dll P' N' (rear 0 xs) ys 0"
    by (rule dll_start [of P N a ys 0]) (use d dist P N sep in auto)
  ultimately show ?thesis by simp
qed

lemma dll_replace:
  assumes d: "dll P N 0 (xs @ a # ys) 0" and dist: "distinct (xs @ a # ys)"
    and P: "\<And>b. b \<in> set xs \<union> set ys \<Longrightarrow> P' b = (if b = front ys 0 then c else P b)"
    and N: "\<And>b. b \<in> set xs \<union> set ys \<Longrightarrow> N' b = (if b = rear 0 xs then c else N b)"
    and c: "P' c = rear 0 xs" "N' c = front ys 0" and z: "0 \<notin> set (xs @ a # ys)"
  shows "dll P' N' 0 (xs @ c # ys) 0"
proof -
  have sep: "front ys 0 \<notin> set xs" "rear 0 xs \<notin> set ys"
    using dist z front_mem [of ys 0] rear_mem [of xs 0] by (cases "ys = []"; cases "xs = []"; auto)+
  have "dll P' N' 0 xs c"
    by (rule dll_end [of P N 0 xs a]) (use d dist P N sep in auto)
  moreover have "dll P' N' c ys 0"
    by (rule dll_start [of P N a ys 0]) (use d dist P N sep in auto)
  ultimately show ?thesis using c by simp
qed

lemma dll_insert_after:
  assumes d: "dll P N 0 (xs @ a # ys) 0" and dist: "distinct (xs @ a # ys)" and c: "c \<notin> set (xs @ a # ys)"
    and P: "\<And>b. b \<in> set (xs @ a # ys) \<Longrightarrow> P' b = (if b = front ys 0 then c else P b)"
    and N: "\<And>b. b \<in> set (xs @ a # ys) \<Longrightarrow> N' b = (if b = a then c else N b)"
    and Pc: "P' c = a" "N' c = front ys 0" and z: "0 \<notin> set (xs @ a # ys)"
  shows "dll P' N' 0 (xs @ a # c # ys) 0"
proof -
  have sep: "front ys 0 \<notin> set xs" "front ys 0 \<noteq> a"
    using dist z front_mem [of ys 0] by (cases "ys = []"; auto)+
  have "dll P' N' 0 xs a \<longleftrightarrow> dll P N 0 xs a"
    by (rule dll_cong) (use dist P N sep in auto)
  moreover have "dll P' N' c ys 0"
    by (rule dll_start [of P N a ys 0]) (use d dist P N in auto)
  ultimately show ?thesis using d P [of a] N [of a] Pc sep by auto
qed

lemma dll_prepend:
  assumes d: "dll P N 0 as 0" and "distinct (c # as)"
    and "\<And>b. b \<in> set as \<Longrightarrow> P' b = (if b = front as 0 then c else P b) \<and> N' b = N b"
    and "P' c = 0" "N' c = front as 0"
  shows "dll P' N' 0 (c # as) 0"
  using dll_start [of P N 0 as 0 P' c N'] assms by simp

section \<open>Tiles\<close>

primrec tiles :: "(u64 \<Rightarrow> nat) \<Rightarrow> u64 list \<Rightarrow> nat \<Rightarrow> bool" where
  "tiles S [] e \<longleftrightarrow> True"
| "tiles S (a # as) e \<longleftrightarrow> unat a + 64 + S a = (case as of [] \<Rightarrow> e | b # _ \<Rightarrow> unat b) \<and> tiles S as e"

definition start_of :: "u64 list \<Rightarrow> nat \<Rightarrow> nat" where
  "start_of as e = (case as of [] \<Rightarrow> e | b # _ \<Rightarrow> unat b)"

lemma start_of_simps [simp]: "start_of [] e = e" "start_of (a # as) e = unat a"
  by (simp_all add: start_of_def)

lemma tiles_Cons: "tiles S (a # as) e \<longleftrightarrow> unat a + 64 + S a = start_of as e \<and> tiles S as e"
  by (simp add: start_of_def)

declare tiles.simps(2) [simp del]

lemma tiles_append: "tiles S (as @ bs) e \<longleftrightarrow> tiles S as (start_of bs e) \<and> tiles S bs e"
proof (induction as)
  case (Cons a as)
  have "start_of (as @ bs) e = start_of as (start_of bs e)" by (cases as) simp_all
  then show ?case using Cons.IH by (simp add: tiles_Cons)
qed simp

lemma tiles_cong: "(\<And>a. a \<in> set as \<Longrightarrow> S' a = S a) \<Longrightarrow> tiles S' as e \<longleftrightarrow> tiles S as e"
  by (induction as) (auto simp: tiles_Cons)

lemma tiles_start: "tiles S as e \<Longrightarrow> start_of as e \<le> e"
  by (induction as) (auto simp: tiles_Cons)

lemma tiles_within: "tiles S as e \<Longrightarrow> a \<in> set as \<Longrightarrow> start_of as e \<le> unat a \<and> unat a + 64 + S a \<le> e"
proof (induction as)
  case (Cons b as)
  then have "start_of as e \<le> e" "tiles S as e" "unat b + 64 + S b = start_of as e"
    using tiles_start by (auto simp: tiles_Cons)
  then show ?case using Cons.IH Cons.prems(2) by fastforce
qed simp

lemma tiles_separate:
  "tiles S as e \<Longrightarrow> a \<in> set as \<Longrightarrow> b \<in> set as \<Longrightarrow> a \<noteq> b \<Longrightarrow>
     unat a + 64 + S a \<le> unat b \<or> unat b + 64 + S b \<le> unat a"
proof (induction as)
  case (Cons c as)
  then have t: "tiles S as e" "unat c + 64 + S c = start_of as e" by (auto simp: tiles_Cons)
  then show ?case using Cons.IH Cons.prems tiles_within [OF t(1)] by fastforce
qed simp

lemma tiles_distinct: "tiles S as e \<Longrightarrow> distinct as"
proof (induction as)
  case (Cons a as)
  then have "tiles S as e" "unat a + 64 + S a = start_of as e" by (auto simp: tiles_Cons)
  then show ?case using Cons.IH tiles_within [of S as e a] by auto
qed simp

lemma apart_unat:
  assumes "unat a + unat n \<le> unat b" and "unat b + unat k \<le> 2 ^ 64" and "0 < n"
  shows "apart a n b k"
proof -
  have lt: "unat a < unat b" using assms(1,3) by (simp add: word_less_nat_alt)
  have "unat (b - a) = unat b - unat a" "unat (a - b) = unat a + 2 ^ 64 - unat b"
    using lt by (simp_all add: unat_sub_if_size word_size)
  then show ?thesis using assms(1,2) lt by (simp add: apart_def word_le_nat_alt) arith
qed

text \<open>
  The allocator is correct: its headers always describe a heap that is tiled by blocks, and
  allocation and release are those of a map from addresses to sizes.
\<close>

section \<open>Steps on the list of free blocks\<close>

definition headers :: "u64 set \<Rightarrow> bool" where
  "headers S \<longleftrightarrow> (\<forall>x\<in>S. \<forall>y\<in>S. far x y) \<and> 0 \<notin> S"

text \<open>The bytes beside the headers of \<open>S\<close> are the same.\<close>

definition untouched :: "u64 set \<Rightarrow> bytemem \<Rightarrow> bytemem \<Rightarrow> bool" where
  "untouched S m m' \<longleftrightarrow> (\<forall>x. (\<forall>s \<in> S. \<not> x - s < 64) \<longrightarrow> m' x = m x)"

lemma untouched_refl [simp]: "untouched S m m"
  by (simp add: untouched_def)

lemma untouched_trans: "untouched S m m1 \<Longrightarrow> untouched S m1 m2 \<Longrightarrow> untouched S m m2"
  by (simp add: untouched_def)

lemma untouched_set [simp]: "a \<in> S \<Longrightarrow> untouched S m (fld_set a f v m') \<longleftrightarrow> untouched S m m'"
  by (auto simp: untouched_def fld_set_byte)

lemma headers_nonzero: "headers S \<Longrightarrow> 0 \<notin> S"
  by (simp add: headers_def)

lemma fld_upd:
  "headers S \<Longrightarrow> a \<in> S \<Longrightarrow> b \<in> S \<Longrightarrow>
     fld (fld_set a f v m) b g = (if a = b \<and> f = g then v else fld m b g)"
  by (rule fld_set) (simp add: headers_def)

definition free_list :: "u64 set \<Rightarrow> heap \<Rightarrow> u64 list \<Rightarrow> bool" where
  "free_list S h fs \<longleftrightarrow> dll (\<lambda>a. fld (hp_mem h) a F_prev_free) (\<lambda>a. fld (hp_mem h) a F_next_free) 0 fs 0
     \<and> distinct fs \<and> set fs \<subseteq> S \<and> ctx_first_free (hp_ctx h) = front fs 0"

lemma free_list_mid:
  assumes H: "headers S" and "free_list S h (xs @ a # ys)"
  shows "a \<in> S" "fld (hp_mem h) a F_prev_free = rear 0 xs" "fld (hp_mem h) a F_next_free = front ys 0"
    "rear 0 xs \<noteq> 0 \<Longrightarrow> rear 0 xs \<in> S" "front ys 0 \<noteq> 0 \<Longrightarrow> front ys 0 \<in> S"
    "rear 0 xs \<noteq> a" "front ys 0 \<noteq> a" "rear 0 xs \<noteq> 0 \<Longrightarrow> front ys 0 \<noteq> rear 0 xs"
    "rear 0 xs = 0 \<longleftrightarrow> xs = []"
  using assms(2) rear_mem [of xs 0] front_mem [of ys 0] headers_nonzero [OF H]
  by (cases "xs = []"; cases "ys = []"; fastforce simp: free_list_def)+

lemma unlink_free_fields:
  assumes H: "headers S" and f: "free_list S h (xs @ a # ys)" and b: "b \<in> S"
  shows "fld (hp_mem (unlink_free a h)) b g =
    (if b = rear 0 xs \<and> g = F_next_free then front ys 0
     else if b = front ys 0 \<and> g = F_prev_free then rear 0 xs else fld (hp_mem h) b g)"
  using free_list_mid [OF H f] b headers_nonzero [OF H]
  by (auto simp: unlink_free_def Let_def set_first_free_def fld_upd [OF H])

lemma unlink_free_ctx:
  assumes H: "headers S" and f: "free_list S h (xs @ a # ys)"
  shows "hp_ctx (unlink_free a h) = (hp_ctx h)\<lparr>ctx_first_free := front (xs @ ys) 0\<rparr>"
  using free_list_mid [OF H f] f
  by (cases xs) (auto simp: unlink_free_def Let_def set_first_free_def fld_upd [OF H] free_list_def)

lemma unlink_free_untouched:
  assumes H: "headers S" and f: "free_list S h (xs @ a # ys)"
  shows "untouched S m (hp_mem (unlink_free a h)) \<longleftrightarrow> untouched S m (hp_mem h)"
  using free_list_mid [OF H f] by (auto simp: unlink_free_def Let_def set_first_free_def fld_upd [OF H])

lemma unlink_free_list:
  assumes H: "headers S" and f: "free_list S h (xs @ a # ys)"
  shows "free_list S (unlink_free a h) (xs @ ys)"
proof -
  have "dll (\<lambda>b. fld (hp_mem (unlink_free a h)) b F_prev_free) (\<lambda>b. fld (hp_mem (unlink_free a h)) b F_next_free)
      0 (xs @ ys) 0"
    by (rule dll_unlink [where a = a and P = "\<lambda>b. fld (hp_mem h) b F_prev_free"
          and N = "\<lambda>b. fld (hp_mem h) b F_next_free"])
      (use f headers_nonzero [OF H] in \<open>auto simp: free_list_def unlink_free_fields [OF H f]\<close>)
  then show ?thesis using f by (auto simp: free_list_def unlink_free_ctx [OF H f])
qed

text \<open>A block of \<open>S\<close> that is in no list takes the place of a free block.\<close>

lemma link_free_fields:
  assumes H: "headers S" and f: "free_list S h (xs @ a # ys)" and c: "c \<in> S" "c \<notin> set (xs @ a # ys)" and b: "b \<in> S"
  shows "fld (hp_mem (link_free c a h)) b g =
    (if b = c \<and> g = F_prev_free then rear 0 xs else if b = c \<and> g = F_next_free then front ys 0
     else if b = rear 0 xs \<and> g = F_next_free then c
     else if b = front ys 0 \<and> g = F_prev_free then c else fld (hp_mem h) b g)"
proof -
  have "rear 0 xs \<noteq> c" "front ys 0 \<noteq> c"
    using c headers_nonzero [OF H] rear_mem [of xs 0] front_mem [of ys 0] by (cases "xs = []"; cases "ys = []"; auto)+
  then show ?thesis using free_list_mid [OF H f] c b headers_nonzero [OF H]
    by (auto simp: link_free_def Let_def set_first_free_def fld_upd [OF H])
qed

lemma link_free_ctx:
  assumes H: "headers S" and f: "free_list S h (xs @ a # ys)" and c: "c \<in> S" "c \<notin> set (xs @ a # ys)"
  shows "hp_ctx (link_free c a h) = (hp_ctx h)\<lparr>ctx_first_free := front (xs @ c # ys) 0\<rparr>"
proof -
  have "fld (fld_set c F_next_free x (fld_set c F_prev_free (rear 0 xs) (hp_mem h))) c F_prev_free = rear 0 xs" for x
    using c by (simp add: fld_upd [OF H])
  then show ?thesis using free_list_mid [OF H f] f c
    by (cases xs) (auto simp: link_free_def Let_def set_first_free_def fld_upd [OF H] free_list_def)
qed

lemma link_free_untouched:
  assumes H: "headers S" and f: "free_list S h (xs @ a # ys)" and c: "c \<in> S" "c \<notin> set (xs @ a # ys)"
  shows "untouched S m (hp_mem (link_free c a h)) \<longleftrightarrow> untouched S m (hp_mem h)"
  using free_list_mid [OF H f] c by (auto simp: link_free_def Let_def set_first_free_def fld_upd [OF H])

lemma link_free_list:
  assumes H: "headers S" and f: "free_list S h (xs @ a # ys)" and c: "c \<in> S" "c \<notin> set (xs @ a # ys)"
  shows "free_list S (link_free c a h) (xs @ c # ys)"
proof -
  have "dll (\<lambda>b. fld (hp_mem (link_free c a h)) b F_prev_free) (\<lambda>b. fld (hp_mem (link_free c a h)) b F_next_free)
      0 (xs @ c # ys) 0"
    by (rule dll_replace [where a = a and P = "\<lambda>b. fld (hp_mem h) b F_prev_free"
          and N = "\<lambda>b. fld (hp_mem h) b F_next_free"])
      (use f c headers_nonzero [OF H] in \<open>auto simp: free_list_def link_free_fields [OF H f c]\<close>)
  then show ?thesis using f c by (auto simp: free_list_def link_free_ctx [OF H f c])
qed

lemma free_list_cong:
  assumes "\<And>b. b \<in> set fs \<Longrightarrow> fld (hp_mem h') b F_prev_free = fld (hp_mem h) b F_prev_free
      \<and> fld (hp_mem h') b F_next_free = fld (hp_mem h) b F_next_free"
    and "ctx_first_free (hp_ctx h') = ctx_first_free (hp_ctx h)"
  shows "free_list S h' fs \<longleftrightarrow> free_list S h fs"
  unfolding free_list_def using assms(2) by (intro arg_cong2 [of _ _ _ _ "(\<and>)"] dll_cong assms(1)) auto

lemma free_list_upd:
  assumes "headers S" and "a \<in> S" and "set fs \<subseteq> S" and "a \<in> set fs \<Longrightarrow> f \<noteq> F_prev_free \<and> f \<noteq> F_next_free"
  shows "free_list S (upd a f v h) fs \<longleftrightarrow> free_list S h fs"
  by (rule free_list_cong) (use assms in \<open>auto simp: fld_upd [OF assms(1)] subset_iff\<close>)

section \<open>The heap\<close>

definition heap_end :: "heap \<Rightarrow> nat" where
  "heap_end h = unat (ctx_buf (hp_ctx h)) + unat (ctx_len (hp_ctx h))"

definition block_size :: "heap \<Rightarrow> u64 \<Rightarrow> nat" where
  "block_size h a = unat (fld (hp_mem h) a F_size)"

definition header_ok :: "alloc_params \<Rightarrow> heap \<Rightarrow> u64 \<Rightarrow> bool" where
  "header_ok K h a \<longleftrightarrow> fld (hp_mem h) a F_magic1 = MAGIC1 \<and> fld (hp_mem h) a F_magic2 = MAGIC2
     \<and> fld (hp_mem h) a F_alloc \<in> {0, 1} \<and> fld (hp_mem h) a F_size \<noteq> 0 \<and> unat a mod unat (MEMORY_ALIGN_MULTIPLE K) = 0"

text \<open>The blocks \<open>bs\<close> tile the buffer.\<close>

definition heap_blocks :: "alloc_params \<Rightarrow> heap \<Rightarrow> u64 list \<Rightarrow> bool" where
  "heap_blocks K h bs \<longleftrightarrow> bs \<noteq> [] \<and> 0 \<notin> set bs
     \<and> ctx_buf (hp_ctx h) = front bs 0 \<and> ctx_first (hp_ctx h) = front bs 0 \<and> heap_end h < 2 ^ 64
     \<and> tiles (block_size h) bs (heap_end h)
     \<and> dll (\<lambda>a. fld (hp_mem h) a F_prev) (\<lambda>a. fld (hp_mem h) a F_next) 0 bs 0
     \<and> (\<forall>a \<in> set bs. header_ok K h a)"

text \<open>Blocks beside the list have no links; \<open>F\<close> are the blocks marked as free.\<close>

definition heap_part :: "alloc_params \<Rightarrow> heap \<Rightarrow> u64 list \<Rightarrow> u64 list \<Rightarrow> u64 set \<Rightarrow> bool" where
  "heap_part K h bs fs F \<longleftrightarrow> heap_blocks K h bs \<and> free_list (set bs) h fs
     \<and> (\<forall>a \<in> set bs - set fs. fld (hp_mem h) a F_prev_free = 0 \<and> fld (hp_mem h) a F_next_free = 0)
     \<and> F = {a \<in> set bs. fld (hp_mem h) a F_alloc = 0}"

text \<open>No two neighbours are free.\<close>

definition coalesced :: "u64 set \<Rightarrow> u64 list \<Rightarrow> bool" where
  "coalesced F bs \<longleftrightarrow> successively (\<lambda>a b. \<not> (a \<in> F \<and> b \<in> F)) bs"

definition heap_rep :: "alloc_params \<Rightarrow> heap \<Rightarrow> u64 list \<Rightarrow> u64 list \<Rightarrow> bool" where
  "heap_rep K h bs fs \<longleftrightarrow> heap_part K h bs fs (set fs) \<and> coalesced (set fs) bs"

lemma tiles_far:
  assumes "tiles Z bs e" and "e \<le> 2 ^ 64" and "a \<in> set bs" and "b \<in> set bs"
  shows "far a b"
proof (cases "a = b")
  case False
  have in_e: "unat a + 64 + Z a \<le> e" "unat b + 64 + Z b \<le> e" using tiles_within [OF assms(1)] assms(3,4) by auto
  from tiles_separate [OF assms(1,3,4) False] have "apart a 64 b 64"
  proof
    assume "unat a + 64 + Z a \<le> unat b"
    then show ?thesis using in_e assms(2) by (intro apart_unat) simp_all
  next
    assume "unat b + 64 + Z b \<le> unat a"
    then have "apart b 64 a 64" using in_e assms(2) by (intro apart_unat) simp_all
    then show ?thesis by (rule apart_sym)
  qed
  then show ?thesis by (simp add: far_def)
qed (simp add: far_def)

lemma tiles_headers: "tiles Z bs e \<Longrightarrow> e \<le> 2 ^ 64 \<Longrightarrow> 0 \<notin> set bs \<Longrightarrow> headers (set bs)"
  using tiles_far by (auto simp: headers_def)

lemma heap_blocks_headers: "heap_blocks K h bs \<Longrightarrow> headers (set bs)"
  by (rule tiles_headers) (auto simp: heap_blocks_def)

lemma heap_blocks_distinct: "heap_blocks K h bs \<Longrightarrow> distinct bs"
  using tiles_distinct by (auto simp: heap_blocks_def)

text \<open>The heap depends on the fields of its headers only.\<close>

lemma heap_blocks_cong:
  assumes "heap_blocks K h bs"
    and "ctx_buf (hp_ctx h') = ctx_buf (hp_ctx h)" "ctx_len (hp_ctx h') = ctx_len (hp_ctx h)"
      "ctx_first (hp_ctx h') = ctx_first (hp_ctx h)"
    and "\<And>b g. b \<in> set bs \<Longrightarrow> g \<in> {F_magic1, F_size, F_prev, F_next, F_magic2} \<Longrightarrow>
           fld (hp_mem h') b g = fld (hp_mem h) b g"
    and "\<And>b. b \<in> set bs \<Longrightarrow> fld (hp_mem h') b F_alloc \<in> {0, 1}"
  shows "heap_blocks K h' bs"
proof -
  have "heap_end h' = heap_end h" using assms(2,3) by (simp add: heap_end_def)
  moreover have "tiles (block_size h') bs e \<longleftrightarrow> tiles (block_size h) bs e" for e
    by (rule tiles_cong) (simp add: block_size_def assms(5))
  moreover have "dll (\<lambda>a. fld (hp_mem h') a F_prev) (\<lambda>a. fld (hp_mem h') a F_next) 0 bs 0 \<longleftrightarrow>
      dll (\<lambda>a. fld (hp_mem h) a F_prev) (\<lambda>a. fld (hp_mem h) a F_next) 0 bs 0"
    by (rule dll_cong) (simp add: assms(5))
  ultimately show ?thesis using assms by (auto simp: heap_blocks_def header_ok_def)
qed

lemma heap_rep_cong:
  assumes "heap_rep K h bs fs" and "hp_ctx h' = hp_ctx h"
    and "\<And>b g. b \<in> set bs \<Longrightarrow> fld (hp_mem h') b g = fld (hp_mem h) b g"
  shows "heap_rep K h' bs fs"
proof -
  have hb: "heap_blocks K h bs" and s: "set fs \<subseteq> set bs"
    using assms(1) by (auto simp: heap_rep_def heap_part_def free_list_def)
  have "heap_blocks K h' bs"
    by (rule heap_blocks_cong [OF hb]) (use hb assms in \<open>auto simp: heap_blocks_def header_ok_def\<close>)
  moreover have "free_list (set bs) h' fs \<longleftrightarrow> free_list (set bs) h fs"
    by (rule free_list_cong) (use s assms in auto)
  ultimately show ?thesis using assms(1,3) by (auto simp: heap_rep_def heap_part_def)
qed

section \<open>Verification of the chain\<close>

lemma verify_from_ok:
  assumes "dll (\<lambda>a. fld m a F_prev) (\<lambda>a. fld m a F_next) p as 0"
    and "\<And>a. a \<in> set as \<Longrightarrow> verify_header m a = 0"
  shows "verify_from m p (front as 0) = Some 0"
  using assms
proof (induction as arbitrary: p)
  case Nil
  then show ?case by (simp add: verify_from.simps)
next
  case (Cons a as)
  then show ?case by (subst verify_from.simps) auto
qed

lemma dll_next_prev:
  assumes "dll P N p as n" and "distinct as" and "a \<in> set as" and "p \<noteq> n \<or> n = 0" and "n \<notin> set as" and "p \<notin> set as"
  shows "P a \<noteq> N a \<or> P a = 0"
  using assms
proof (induction as arbitrary: p)
  case (Cons b as)
  show ?case
  proof (cases "a = b")
    case True
    then show ?thesis using Cons.prems front_mem [of as n] by (cases "as = []") auto
  next
    case False
    then show ?thesis using Cons by (intro Cons.IH [of b]) auto
  qed
qed simp

lemma heap_rep_header:
  assumes r: "heap_rep K h bs fs" and a: "a \<in> set bs"
  shows "verify_header (hp_mem h) a = 0"
proof -
  have b: "heap_blocks K h bs" and f: "free_list (set bs) h fs" using r by (auto simp: heap_rep_def heap_part_def)
  have "fld (hp_mem h) a F_prev \<noteq> fld (hp_mem h) a F_next \<or> fld (hp_mem h) a F_prev = 0"
    by (rule dll_next_prev [of "\<lambda>a. fld (hp_mem h) a F_prev" _ 0 bs 0])
      (use b a heap_blocks_distinct [OF b] in \<open>auto simp: heap_blocks_def\<close>)
  moreover have "fld (hp_mem h) a F_prev_free \<noteq> fld (hp_mem h) a F_next_free \<or> fld (hp_mem h) a F_prev_free = 0"
  proof (cases "a \<in> set fs")
    case True
    then show ?thesis
      by (intro dll_next_prev [of "\<lambda>a. fld (hp_mem h) a F_prev_free" _ 0 fs 0])
        (use b f in \<open>auto simp: heap_blocks_def free_list_def\<close>)
  next
    case False
    then show ?thesis using r a by (auto simp: heap_rep_def heap_part_def)
  qed
  ultimately show ?thesis
    using b a by (auto simp: verify_header_def heap_blocks_def header_ok_def)
qed

lemma verify_chain_ok:
  assumes r: "heap_rep K h bs fs"
  shows "verify_chain h = Some 0"
proof -
  have b: "heap_blocks K h bs" using r by (auto simp: heap_rep_def heap_part_def)
  then obtain a as where bs: "bs = a # as" by (cases bs) (auto simp: heap_blocks_def)
  have "verify_from (hp_mem h) a (front as 0) = Some 0"
    by (rule verify_from_ok) (use b bs heap_rep_header [OF r] in \<open>auto simp: heap_blocks_def\<close>)
  then show ?thesis
    using b heap_rep_header [OF r] bs by (auto simp: verify_chain_def heap_blocks_def Let_def)
qed

end
