(* ===== verification/Heap_Alloc_Correct.thy ===== *)
theory Heap_Alloc_Correct
  imports Heap_Blocks
begin

text \<open>
  Allocation: the search of the free list, a block that is taken whole, and a block that is
  split.
\<close>

section \<open>Live allocations\<close>

definition live :: "heap \<Rightarrow> u64 list \<Rightarrow> u64 \<rightharpoonup> u64" where
  "live h bs p = (if p - 64 \<in> set bs \<and> fld (hp_mem h) (p - 64) F_alloc = 1
     then Some (fld (hp_mem h) (p - 64) F_size) else None)"

lemma live_at: "live h bs (a + 64) = (if a \<in> set bs \<and> fld (hp_mem h) a F_alloc = 1
     then Some (fld (hp_mem h) a F_size) else None)"
  by (simp add: live_def)

lemma live_eqI: "(\<And>a. m (a + 64) = m' (a + 64)) \<Longrightarrow> m = m'" for m m' :: "u64 \<rightharpoonup> u64"
  by (rule ext) (metis diff_add_cancel)

section \<open>The search\<close>

definition fits :: "heap \<Rightarrow> u64 \<Rightarrow> u64 list \<Rightarrow> u64" where
  "fits h len fs = (case find (\<lambda>a. len \<le> fld (hp_mem h) a F_size) fs of None \<Rightarrow> 0 | Some a \<Rightarrow> a)"

lemma find_fit_ok:
  assumes "dll P (\<lambda>a. fld (hp_mem h) a F_next_free) p fs 0" and "0 \<notin> set fs"
  shows "find_fit (hp_mem h) len (front fs 0) = Some (fits h len fs)"
  using assms
proof (induction fs arbitrary: p)
  case Nil
  then show ?case by (simp add: find_fit.simps fits_def)
next
  case (Cons a fs)
  then show ?case by (subst find_fit.simps) (auto simp: fits_def)
qed

lemma fits_split:
  assumes "fits h len fs = a" and "a \<noteq> 0"
  obtains xs ys where "fs = xs @ a # ys" and "len \<le> fld (hp_mem h) a F_size"
proof -
  have "find (\<lambda>a. len \<le> fld (hp_mem h) a F_size) fs = Some a"
    using assms by (auto simp: fits_def split: option.splits)
  then obtain i where "i < length fs" "len \<le> fld (hp_mem h) (fs ! i) F_size" "a = fs ! i"
    by (auto simp: find_Some_iff)
  then show ?thesis using that [of "take i fs" "drop (Suc i) fs"] id_take_nth_drop [of i fs] by simp
qed

lemma fits_mem: "fits h len fs \<noteq> 0 \<Longrightarrow> fits h len fs \<in> set fs"
  by (rule fits_split [of h len fs "fits h len fs"]) (simp, assumption, metis in_set_conv_decomp)

section \<open>A block that is taken whole\<close>

lemma take_block_fields:
  assumes H: "headers S" and f: "free_list S h (xs @ a # ys)" and b: "b \<in> S"
  shows "fld (hp_mem (take_block a h)) b g =
    (if b = a \<and> g = F_alloc then 1 else if b = a \<and> (g = F_prev_free \<or> g = F_next_free) then 0
     else fld (hp_mem (unlink_free a h)) b g)"
    and "hp_ctx (take_block a h) = (hp_ctx h)\<lparr>ctx_first_free := front (xs @ ys) 0\<rparr>"
    and "untouched S (hp_mem h) (hp_mem (take_block a h))"
    and "free_list S (take_block a h) (xs @ ys)"
proof -
  note mid = free_list_mid [OF H f]
  let ?h = "upd a F_alloc 1 h"
  have f1: "free_list S ?h (xs @ a # ys)"
    using f free_list_upd [OF H mid(1), of "xs @ a # ys" F_alloc 1 h] by (simp add: free_list_def)
  have fl: "fld (hp_mem (take_block a h)) b g =
    (if b = a \<and> g = F_alloc then 1 else if b = a \<and> (g = F_prev_free \<or> g = F_next_free) then 0
     else fld (hp_mem (unlink_free a h)) b g)" if "b \<in> S" for b g
    using mid that
    by (auto simp: take_block_def Let_def fld_upd [OF H] unlink_free_fields [OF H f1] unlink_free_fields [OF H f])
  then show "fld (hp_mem (take_block a h)) b g =
    (if b = a \<and> g = F_alloc then 1 else if b = a \<and> (g = F_prev_free \<or> g = F_next_free) then 0
     else fld (hp_mem (unlink_free a h)) b g)" using b .
  show "hp_ctx (take_block a h) = (hp_ctx h)\<lparr>ctx_first_free := front (xs @ ys) 0\<rparr>"
    by (simp add: take_block_def Let_def unlink_free_ctx [OF H f1])
  show "untouched S (hp_mem h) (hp_mem (take_block a h))"
    using mid(1) by (simp add: take_block_def Let_def unlink_free_untouched [OF H f1])
  have "free_list S (unlink_free a ?h) (xs @ ys)" by (rule unlink_free_list [OF H f1])
  moreover have "free_list S (take_block a h) (xs @ ys) \<longleftrightarrow> free_list S (unlink_free a ?h) (xs @ ys)"
    by (rule free_list_cong)
      (use f mid in \<open>auto simp: take_block_def Let_def fld_upd [OF H] free_list_def subset_iff\<close>)
  ultimately show "free_list S (take_block a h) (xs @ ys)" by simp
qed

lemma coalesced_subset: "coalesced F bs \<Longrightarrow> F' \<subseteq> F \<Longrightarrow> coalesced F' bs"
  unfolding coalesced_def by (erule successively_mono) auto

lemma take_block_rep:
  assumes r: "heap_rep K h bs (xs @ a # ys)"
  defines "h' \<equiv> take_block a h"
  shows "heap_rep K h' bs (xs @ ys)" and "live h' bs = (live h bs)(a + 64 \<mapsto> fld (hp_mem h) a F_size)"
    and "untouched (set bs) (hp_mem h) (hp_mem h')" and "live h bs (a + 64) = None" and "a \<in> set bs"
    and "fld (hp_mem h') a F_size = fld (hp_mem h) a F_size"
proof -
  let ?S = "set bs"
  have hb: "heap_blocks K h bs" and f: "free_list ?S h (xs @ a # ys)"
    and F: "set (xs @ a # ys) = {a \<in> ?S. fld (hp_mem h) a F_alloc = 0}"
    and idle: "\<forall>a \<in> ?S - set (xs @ a # ys). fld (hp_mem h) a F_prev_free = 0 \<and> fld (hp_mem h) a F_next_free = 0"
    and co: "coalesced (set (xs @ a # ys)) bs"
    using r by (auto simp: heap_rep_def heap_part_def)
  note H = heap_blocks_headers [OF hb]
  note mid = free_list_mid [OF H f]
  have d: "distinct (xs @ a # ys)" using f by (simp add: free_list_def)
  have a0: "fld (hp_mem h) a F_alloc = 0" using F by auto
  note fl = take_block_fields(1) [OF H f] and uf = unlink_free_fields [OF H f]
  have ctx: "hp_ctx h' = (hp_ctx h)\<lparr>ctx_first_free := front (xs @ ys) 0\<rparr>"
    unfolding h'_def by (rule take_block_fields(2) [OF H f mid(1)])
  show a: "a \<in> ?S" by (rule mid(1))
  show "untouched ?S (hp_mem h) (hp_mem h')" unfolding h'_def by (rule take_block_fields(3) [OF H f a])
  show "live h bs (a + 64) = None" by (simp add: live_at a0)
  have hb': "heap_blocks K h' bs"
    by (rule heap_blocks_cong [OF hb])
      (use hb in \<open>auto simp: ctx [unfolded h'_def] fl uf h'_def heap_blocks_def header_ok_def\<close>)
  have F': "{b \<in> ?S. fld (hp_mem h') b F_alloc = 0} = set (xs @ ys)"
  proof -
    have "fld (hp_mem h') b F_alloc = (if b = a then 1 else fld (hp_mem h) b F_alloc)" if "b \<in> ?S" for b
      using that by (simp add: h'_def fl uf)
    then have "{b \<in> ?S. fld (hp_mem h') b F_alloc = 0} = {b \<in> ?S. fld (hp_mem h) b F_alloc = 0} - {a}"
      by (auto split: if_splits)
    also have "\<dots> = set (xs @ ys)" using d F by auto
    finally show ?thesis .
  qed
  have idle': "fld (hp_mem h') b F_prev_free = 0 \<and> fld (hp_mem h') b F_next_free = 0" if "b \<in> ?S - set (xs @ ys)" for b
  proof (cases "b = a")
    case False
    then have "b \<notin> set (xs @ a # ys)" using that by simp
    moreover have "b \<noteq> rear 0 xs" "b \<noteq> front ys 0"
      using that H rear_mem [of xs 0] front_mem [of ys 0] headers_nonzero [OF H]
      by (cases "xs = []"; cases "ys = []"; auto)+
    ultimately show ?thesis using that idle False by (simp add: h'_def fl uf)
  qed (use a in \<open>simp add: h'_def fl\<close>)
  have "free_list ?S h' (xs @ ys)" unfolding h'_def by (rule take_block_fields(4) [OF H f a])
  then have "heap_part K h' bs (xs @ ys) (set (xs @ ys))"
    using hb' idle' F' by (simp add: heap_part_def)
  then show "heap_rep K h' bs (xs @ ys)"
    using coalesced_subset [OF co] by (auto simp: heap_rep_def)
  show "live h' bs = (live h bs)(a + 64 \<mapsto> fld (hp_mem h) a F_size)"
    by (rule live_eqI) (use a in \<open>auto simp: live_at h'_def fl uf split: if_splits\<close>)
  show "fld (hp_mem h') a F_size = fld (hp_mem h) a F_size" using a by (simp add: h'_def fl uf)
qed

section \<open>A block that is split\<close>

definition params_ok :: "alloc_params \<Rightarrow> bool" where
  "params_ok K \<longleftrightarrow> MEMORY_ALIGN_MULTIPLE K \<noteq> 0 \<and> 64 mod unat (MEMORY_ALIGN_MULTIPLE K) = 0"

lemma split_inside:
  assumes t: "tiles Z (us @ a # vs) e" and e: "e < 2 ^ 64" and len: "unat len + 64 \<le> Z a"
    and n: "n = a + 64 + len"
  shows "unat n = unat a + 64 + unat len" and "n \<notin> set (us @ a # vs)"
proof -
  have "unat a + 64 + Z a \<le> e" using tiles_within [OF t] by simp
  then have b: "unat a + 64 + unat len < 2 ^ 64" using e len by simp
  have "unat (a + 64) = unat a + 64" using b by (subst unat_add_lem [THEN iffD1]) simp_all
  then show un: "unat n = unat a + 64 + unat len" using b n by (subst n, subst unat_add_lem [THEN iffD1]) simp_all
  show notin: "n \<notin> set (us @ a # vs)"
  proof
    assume m: "n \<in> set (us @ a # vs)"
    have "n \<noteq> a" using un by auto
    then show False using tiles_separate [OF t m, of a] un len by auto
  qed
qed

lemma split_tiles:
  assumes t: "tiles Z (us @ a # vs) e" and len: "unat len + 64 \<le> Z a" and un: "unat n = unat a + 64 + unat len"
    and Z': "\<And>b. b \<in> set us \<union> set vs \<Longrightarrow> Z' b = Z b" "Z' a = unat len" "Z' n = Z a - unat len - 64"
  shows "tiles Z' (us @ a # n # vs) e"
proof -
  have "tiles Z' us (unat a) \<longleftrightarrow> tiles Z us (unat a)" "tiles Z' vs e \<longleftrightarrow> tiles Z vs e"
    by (rule tiles_cong, simp add: Z'(1))+
  then show "tiles Z' (us @ a # n # vs) e"
    using t un len Z'(2,3) by (auto simp: tiles_append tiles_Cons)
qed

lemma dll_at:
  assumes "dll P N 0 (us @ a # vs) 0" shows "P a = rear 0 us" "N a = front vs 0"
  using assms by simp_all

lemma split_block_fields:
  assumes H: "headers (insert n S)" and f: "free_list S h (xs @ a # ys)" and n: "n = a + 64 + len" "n \<notin> S"
    and nx: "fld (hp_mem h) a F_next = y" "y \<noteq> 0 \<longrightarrow> y \<in> S" "y \<noteq> a"
  defines "h' \<equiv> split_block a len h"
  shows "b \<in> S \<Longrightarrow> fld (hp_mem h') b g =
      (if b = a then (case g of F_alloc \<Rightarrow> 1 | F_size \<Rightarrow> len | F_next \<Rightarrow> n | F_prev_free \<Rightarrow> 0 | F_next_free \<Rightarrow> 0
                        | _ \<Rightarrow> fld (hp_mem h) a g)
       else if b = y \<and> g = F_prev then n
       else if b = rear 0 xs \<and> g = F_next_free then n else if b = front ys 0 \<and> g = F_prev_free then n
       else fld (hp_mem h) b g)"
    and "fld (hp_mem h') n g =
      (case g of F_magic1 \<Rightarrow> MAGIC1 | F_size \<Rightarrow> fld (hp_mem h) a F_size - len - 64 | F_alloc \<Rightarrow> 0 | F_prev \<Rightarrow> a
        | F_next \<Rightarrow> y | F_prev_free \<Rightarrow> rear 0 xs | F_next_free \<Rightarrow> front ys 0 | F_magic2 \<Rightarrow> MAGIC2)"
    and "hp_ctx h' = (hp_ctx h)\<lparr>ctx_first_free := front (xs @ n # ys) 0\<rparr>"
    and "untouched (insert n S) (hp_mem h) (hp_mem h')"
    and "free_list (insert n S) h' (xs @ n # ys)"
proof -
  let ?S = "insert n S"
  have f0: "free_list ?S h (xs @ a # ys)" using f by (auto simp: free_list_def)
  note mid = free_list_mid [OF H f0]
  have aS: "a \<in> S" using f by (simp add: free_list_def)
  have an: "a \<noteq> n" "y \<noteq> n" "n \<noteq> 0"
    using aS n(2) nx(2) headers_nonzero [OF H] by auto
  have sep: "rear 0 xs \<noteq> n" "front ys 0 \<noteq> n" "n \<notin> set (xs @ a # ys)"
  proof -
    show nn: "n \<notin> set (xs @ a # ys)" using n(2) f by (auto simp: free_list_def)
    show "rear 0 xs \<noteq> n" "front ys 0 \<noteq> n"
      using nn an(3) rear_mem [of xs 0] front_mem [of ys 0] by (cases "xs = []"; cases "ys = []"; auto)+
  qed
  define h1 where "h1 = upd n F_magic2 MAGIC2 (upd n F_magic1 MAGIC1 (upd n F_next y (upd n F_prev a
      (upd n F_alloc 0 (upd n F_size (fld (hp_mem h) a F_size - len - 64) h)))))"
  define h2 where "h2 = (if y \<noteq> 0 then upd y F_prev n h1 else h1)"
  have S: "n \<in> ?S" "a \<in> ?S" "y \<noteq> 0 \<Longrightarrow> y \<in> ?S" using aS nx(2) by auto
  have eq: "h' = upd a F_next_free 0 (upd a F_prev_free 0 (upd a F_next n (upd a F_size len (upd a F_alloc 1
      (link_free n a h2)))))"
  proof -
    have y1: "fld (hp_mem (upd n F_prev a (upd n F_alloc 0 (upd n F_size (fld (hp_mem h) a F_size - len - 64) h)))) a F_next = y"
      using S an nx(1) by (simp add: fld_upd [OF H])
    have y2: "fld (hp_mem h1) n F_next = y" using S by (simp add: h1_def fld_upd [OF H])
    show ?thesis
      unfolding h'_def split_block_def Let_def sizeof_header_def n(1) [symmetric] y1
      unfolding h1_def [symmetric] y2 h2_def ..
  qed
  have h2f: "fld (hp_mem h2) b g = (if b = y \<and> g = F_prev then n
      else if b = n then (case g of F_magic1 \<Rightarrow> MAGIC1 | F_size \<Rightarrow> fld (hp_mem h) a F_size - len - 64
        | F_alloc \<Rightarrow> 0 | F_prev \<Rightarrow> a | F_next \<Rightarrow> y | F_magic2 \<Rightarrow> MAGIC2 | _ \<Rightarrow> fld (hp_mem h) n g)
      else fld (hp_mem h) b g)" if "b \<in> ?S" for b g
    using S that an headers_nonzero [OF H] by (cases g) (auto simp: h2_def h1_def fld_upd [OF H])
  have f2: "free_list ?S h2 (xs @ a # ys)"
  proof -
    have same: "fld (hp_mem h2) b F_prev_free = fld (hp_mem h) b F_prev_free
        \<and> fld (hp_mem h2) b F_next_free = fld (hp_mem h) b F_next_free" if b: "b \<in> set (xs @ a # ys)" for b
    proof -
      have "b \<in> ?S" "b \<noteq> n" using b f0 sep(3) unfolding free_list_def by blast+
      then show ?thesis by (simp add: h2f del: insert_iff)
    qed
    have "free_list ?S h2 (xs @ a # ys) \<longleftrightarrow> free_list ?S h (xs @ a # ys)"
      by (rule free_list_cong [OF same]) (simp_all add: h2_def h1_def)
    then show ?thesis using f0 by simp
  qed
  note lf = link_free_fields [OF H f2 S(1) sep(3)]
  show "fld (hp_mem h') b g =
      (if b = a then (case g of F_alloc \<Rightarrow> 1 | F_size \<Rightarrow> len | F_next \<Rightarrow> n | F_prev_free \<Rightarrow> 0 | F_next_free \<Rightarrow> 0
                        | _ \<Rightarrow> fld (hp_mem h) a g)
       else if b = y \<and> g = F_prev then n
       else if b = rear 0 xs \<and> g = F_next_free then n else if b = front ys 0 \<and> g = F_prev_free then n
       else fld (hp_mem h) b g)" if b: "b \<in> S" for b g
  proof -
    have "b \<noteq> n" "b \<in> ?S" using b n(2) by auto
    then show ?thesis
      using S mid nx(3) an by (cases g) (simp_all add: eq fld_upd [OF H] lf h2f)
  qed
  show "fld (hp_mem h') n g =
      (case g of F_magic1 \<Rightarrow> MAGIC1 | F_size \<Rightarrow> fld (hp_mem h) a F_size - len - 64 | F_alloc \<Rightarrow> 0 | F_prev \<Rightarrow> a
        | F_next \<Rightarrow> y | F_prev_free \<Rightarrow> rear 0 xs | F_next_free \<Rightarrow> front ys 0 | F_magic2 \<Rightarrow> MAGIC2)" for g
    using S sep an by (cases g) (simp_all add: eq fld_upd [OF H] lf h2f)
  show "hp_ctx h' = (hp_ctx h)\<lparr>ctx_first_free := front (xs @ n # ys) 0\<rparr>"
    by (simp add: eq link_free_ctx [OF H f2 S(1) sep(3)]) (simp add: h2_def h1_def)
  show "untouched ?S (hp_mem h) (hp_mem h')"
    using S by (simp add: eq link_free_untouched [OF H f2 S(1) sep(3)]) (simp add: h2_def h1_def)
  have "free_list ?S (link_free n a h2) (xs @ n # ys)"
    by (rule link_free_list [OF H f2 S(1) sep(3)])
  moreover have "free_list ?S h' (xs @ n # ys) \<longleftrightarrow> free_list ?S (link_free n a h2) (xs @ n # ys)"
    by (rule free_list_cong)
      (use f0 an S in \<open>auto simp: eq fld_upd [OF H] free_list_def subset_iff\<close>)
  ultimately show "free_list ?S h' (xs @ n # ys)" by simp
qed

lemma coalesced_mono:
  "coalesced F bs \<Longrightarrow> (\<And>b. b \<in> set bs \<Longrightarrow> b \<in> F' \<Longrightarrow> b \<in> F) \<Longrightarrow> coalesced F' bs"
  unfolding coalesced_def by (erule successively_mono) auto

lemma coalesced_append:
  "coalesced F (us @ vs) \<longleftrightarrow> coalesced F us \<and> coalesced F vs
     \<and> (us = [] \<or> vs = [] \<or> \<not> (last us \<in> F \<and> hd vs \<in> F))"
  by (simp add: coalesced_def successively_append_iff)

lemma coalesced_Cons: "coalesced F (a # vs) \<longleftrightarrow> coalesced F vs \<and> (vs = [] \<or> \<not> (a \<in> F \<and> hd vs \<in> F))"
  using coalesced_append [of F "[a]" vs] by (auto simp: coalesced_def)

lemma split_block_rep:
  assumes r: "heap_rep K h bs (xs @ a # ys)" and K: "params_ok K"
    and len': "unat len + 64 < block_size h a" "len \<noteq> 0" and al: "unat len mod unat (MEMORY_ALIGN_MULTIPLE K) = 0"
    and n: "n = a + 64 + len" and bs: "bs = us @ a # vs"
  defines "h' \<equiv> split_block a len h"
  shows "heap_rep K h' (us @ a # n # vs) (xs @ n # ys)"
    and "live h' (us @ a # n # vs) = (live h bs)(a + 64 \<mapsto> len)"
    and "untouched (set (us @ a # n # vs)) (hp_mem h) (hp_mem h')" and "live h bs (a + 64) = None"
    and "fld (hp_mem h') a F_size = len"
proof -
  let ?S = "set bs" and ?bs = "us @ a # n # vs" and ?fs = "xs @ n # ys"
  have len: "unat len + 64 \<le> block_size h a" using len'(1) by simp
  have hb: "heap_blocks K h bs" and f: "free_list ?S h (xs @ a # ys)"
    and F: "set (xs @ a # ys) = {a \<in> ?S. fld (hp_mem h) a F_alloc = 0}"
    and idle: "\<forall>a \<in> ?S - set (xs @ a # ys). fld (hp_mem h) a F_prev_free = 0 \<and> fld (hp_mem h) a F_next_free = 0"
    and co: "coalesced (set (xs @ a # ys)) bs"
    using r by (auto simp: heap_rep_def heap_part_def)
  have t: "tiles (block_size h) (us @ a # vs) (heap_end h)" and e: "heap_end h < 2 ^ 64"
    using hb bs by (auto simp: heap_blocks_def)
  have dist: "distinct (us @ a # vs)" using heap_blocks_distinct [OF hb] bs by simp
  have inside: "unat n = unat a + 64 + unat len" "n \<notin> set (us @ a # vs)"
    by (rule split_inside [OF t e len n])+
  define Z where "Z = (block_size h)(a := unat len, n := block_size h a - unat len - 64)"
  have tZ: "tiles Z ?bs (heap_end h)"
    by (rule split_tiles [OF t len inside(1)]) (use dist inside(2) in \<open>auto simp: Z_def\<close>)
  have zn: "0 \<notin> set ?bs" using hb bs inside(1) by (auto simp: heap_blocks_def word_unat_eq_iff)
  have S: "set ?bs = insert n ?S" and nS: "n \<notin> ?S" using bs inside(2) by auto
  have H: "headers (insert n ?S)" using tiles_headers [OF tZ _ zn] e S by simp
  have nx: "fld (hp_mem h) a F_next = front vs 0" "front vs 0 \<noteq> 0 \<longrightarrow> front vs 0 \<in> ?S" "front vs 0 \<noteq> a"
    using hb bs dist zn by (auto simp: heap_blocks_def split: if_splits) (cases vs; auto)+
  note sf = split_block_fields [OF H f n nS nx, folded h'_def]
  have a: "a \<in> ?S" "fld (hp_mem h) a F_alloc = 0" using F by auto
  show "untouched (set ?bs) (hp_mem h) (hp_mem h')" using sf(4) S by simp
  show "live h bs (a + 64) = None" by (simp add: live_at a)
  show "fld (hp_mem h') a F_size = len" using a sf(1) by simp
  have alloc: "fld (hp_mem h') b F_alloc = (if b = a then 1 else fld (hp_mem h) b F_alloc)" if "b \<in> ?S" for b
    using sf(1) [OF that, of F_alloc] by simp
  have al': "fld (hp_mem h') n F_alloc = 0" using sf(2) [of F_alloc] by simp
  have "unat n mod unat (MEMORY_ALIGN_MULTIPLE K) = 0"
    using hb a(1) inside(1) K al by (auto simp: heap_blocks_def header_ok_def params_ok_def mod_eq_0_iff_dvd)
  moreover have "block_size h' b = Z b" if "b \<in> set ?bs" for b
    using that S nS a(1) sf(1) [of b F_size] sf(2) [of F_size] len
    by (auto simp: block_size_def Z_def unat_sub_if_size)
  then have "tiles (block_size h') ?bs e \<longleftrightarrow> tiles Z ?bs e" for e by (rule tiles_cong)
  moreover have "dll (\<lambda>b. fld (hp_mem h') b F_prev) (\<lambda>b. fld (hp_mem h') b F_next) 0 ?bs 0"
    by (rule dll_insert_after [where P = "\<lambda>b. fld (hp_mem h) b F_prev" and N = "\<lambda>b. fld (hp_mem h) b F_next"])
      (use hb bs dist inside(2) nx(3) sf(2) S in \<open>auto simp: heap_blocks_def sf(1)\<close>)
  moreover have "front ?bs 0 = front bs 0" by (simp add: bs)
  moreover have "fld (hp_mem h) a F_size - len - 64 \<noteq> 0"
  proof
    assume "fld (hp_mem h) a F_size - len - 64 = 0"
    then have "fld (hp_mem h) a F_size = 64 + len" by (simp add: algebra_simps)
    then show False using len'(1) unat_plus_if_size [of 64 len] by (simp add: block_size_def word_size split: if_splits)
  qed
  ultimately have hb': "heap_blocks K h' ?bs"
    using hb tZ zn S a(1) alloc al' len'(2) by (auto simp: heap_blocks_def header_ok_def sf heap_end_def)
  have F': "{b \<in> set ?bs. fld (hp_mem h') b F_alloc = 0} = set ?fs"
  proof -
    have "{b \<in> set ?bs. fld (hp_mem h') b F_alloc = 0} = insert n ({b \<in> ?S. fld (hp_mem h) b F_alloc = 0} - {a})"
      using S nS alloc al' by (auto split: if_splits)
    then show ?thesis using F f by (auto simp: free_list_def)
  qed
  have idle': "fld (hp_mem h') b F_prev_free = 0 \<and> fld (hp_mem h') b F_next_free = 0" if b: "b \<in> set ?bs - set ?fs" for b
  proof (cases "b = a")
    case False
    have "b \<in> ?S" "b \<notin> set (xs @ a # ys)" using b S False by auto
    moreover have "b \<noteq> rear 0 xs" "b \<noteq> front ys 0"
      using b zn rear_mem [of xs 0] front_mem [of ys 0] by (cases "xs = []"; cases "ys = []"; auto)+
    ultimately show ?thesis using idle False by (simp add: sf(1))
  qed (use a(1) sf(1) in simp)
  have "coalesced (set ?fs) ?bs"
  proof -
    have nf: "n \<notin> set us" "n \<notin> set vs" "n \<notin> set (xs @ a # ys)" using inside(2) nS f by (auto simp: free_list_def)
    have af: "a \<notin> set ?fs" using f nS a(1) by (auto simp: free_list_def)
    have "coalesced (set ?fs) us" "coalesced (set ?fs) vs"
      using co nf unfolding bs coalesced_append coalesced_Cons by (auto elim!: coalesced_mono)
    moreover have "vs = [] \<or> hd vs \<notin> set ?fs"
      using co nf(2) unfolding bs coalesced_append coalesced_Cons by (cases vs) auto
    ultimately show ?thesis using af unfolding coalesced_append coalesced_Cons by auto
  qed
  moreover have "heap_part K h' ?bs ?fs (set ?fs)"
    unfolding heap_part_def F' by (intro conjI ballI hb' sf(5) [folded S] refl) (use idle' in blast)+
  ultimately show "heap_rep K h' ?bs ?fs" by (simp add: heap_rep_def)
  show "live h' ?bs = (live h bs)(a + 64 \<mapsto> len)"
    by (rule live_eqI) (use a S nS alloc al' sf(1) [of _ F_size] in \<open>auto simp: live_at split: if_splits\<close>)
qed

text \<open>
  Allocation returns a zeroed range that no other allocation and no header touches.
\<close>

section \<open>Payloads\<close>

lemma block_bound:
  assumes "heap_blocks K h bs" and "a \<in> set bs"
  shows "unat (a + 64) = unat a + 64" and "unat a + 64 + block_size h a \<le> heap_end h" and "heap_end h < 2 ^ 64"
    and "a + 64 \<noteq> 0"
proof -
  show b: "unat a + 64 + block_size h a \<le> heap_end h" "heap_end h < 2 ^ 64"
    using assms tiles_within by (auto simp: heap_blocks_def)
  then show u: "unat (a + 64) = unat a + 64" by (subst unat_add_lem [THEN iffD1]) simp_all
  then show "a + 64 \<noteq> 0" by (auto simp: word_unat_eq_iff)
qed

lemma payload_header_apart:
  assumes hb: "heap_blocks K h bs" and a: "a \<in> set bs" "b \<in> set bs"
    and k: "0 < k" "k \<le> fld (hp_mem h) a F_size"
  shows "apart (a + 64) k b 64"
proof -
  note ba = block_bound [OF hb a(1)] and bb = block_bound [OF hb a(2)]
  have k': "unat k \<le> block_size h a" using k by (simp add: block_size_def word_le_nat_alt)
  consider "a = b" | "unat a + 64 + block_size h a \<le> unat b" | "unat b + 64 + block_size h b \<le> unat a"
    using tiles_separate [of "block_size h" bs "heap_end h" a b] hb a by (auto simp: heap_blocks_def)
  then show ?thesis
  proof cases
    case 1
    then show ?thesis using ba k' by (intro apart_sym [OF apart_unat]) simp_all
  next
    case 2
    then show ?thesis using ba bb k' k(1) by (intro apart_unat) simp_all
  next
    case 3
    then show ?thesis using ba bb k' by (intro apart_sym [OF apart_unat]) simp_all
  qed
qed

lemma live_cases:
  assumes "live h bs q = Some j"
  obtains a where "q = a + 64" "a \<in> set bs" "fld (hp_mem h) a F_alloc = 1" "j = fld (hp_mem h) a F_size"
  using assms by (rule_tac that [of "q - 64"]) (auto simp: live_def split: if_splits)

lemma live_no_header:
  assumes hb: "heap_blocks K h bs" and l: "live h bs q = Some j" and s: "s \<in> set bs" and x: "x - q < j"
  shows "\<not> x - s < 64"
proof -
  from l obtain a where a: "q = a + 64" "a \<in> set bs" "j = fld (hp_mem h) a F_size" by (rule live_cases)
  have "0 < j" using x by (auto simp: word_gt_0)
  then have "apart (a + 64) j s 64" using payload_header_apart [OF hb a(2) s] a(3) by simp
  then show ?thesis using apart_in [OF apart_sym] x a(1) by blast
qed

lemma payloads_apart:
  assumes hb: "heap_blocks K h bs" and a: "a \<in> set bs" "b \<in> set bs" "a \<noteq> b"
    and k: "0 < k" "k \<le> fld (hp_mem h) a F_size" and j: "0 < j" "j \<le> fld (hp_mem h) b F_size"
  shows "apart (a + 64) k (b + 64) j"
proof -
  note ba = block_bound [OF hb a(1)] and bb = block_bound [OF hb a(2)]
  have kj: "unat k \<le> block_size h a" "unat j \<le> block_size h b"
    using k j by (simp_all add: block_size_def word_le_nat_alt)
  consider "unat a + 64 + block_size h a \<le> unat b" | "unat b + 64 + block_size h b \<le> unat a"
    using tiles_separate [of "block_size h" bs "heap_end h" a b] hb a by (auto simp: heap_blocks_def)
  then show ?thesis
  proof cases
    case 1
    then show ?thesis using ba bb kj k(1) by (intro apart_unat) simp_all
  next
    case 2
    then show ?thesis using ba bb kj j(1) by (intro apart_sym [OF apart_unat]) simp_all
  qed
qed

text \<open>The bytes handed out stay as they are.\<close>

definition payload_kept :: "(u64 \<rightharpoonup> u64) \<Rightarrow> bytemem \<Rightarrow> bytemem \<Rightarrow> bool" where
  "payload_kept L m m' \<longleftrightarrow> (\<forall>q j. L q = Some j \<longrightarrow> (\<forall>x. x - q < j \<longrightarrow> m' x = m x))"

lemma untouched_payload:
  assumes hb: "heap_blocks K h bs" and u: "untouched (set bs) m m'" and sub: "L \<subseteq>\<^sub>m live h bs"
  shows "payload_kept L m m'"
  unfolding payload_kept_def
proof (intro allI impI)
  fix q j x assume l: "L q = Some j" and x: "x - q < j"
  then have "live h bs q = Some j" using sub by (auto simp: map_le_def dom_def)
  then have "\<forall>s \<in> set bs. \<not> x - s < 64" using live_no_header [OF hb _ _ x] by blast
  then show "m' x = m x" using u by (simp add: untouched_def)
qed

section \<open>Lengths\<close>

lemma product_checked:
  fixes n sz :: u64
  assumes "n \<noteq> 0"
  shows "n * sz div n = sz \<longleftrightarrow> unat n * unat sz < 2 ^ 64"
    and "n * sz div n = sz \<Longrightarrow> unat (n * sz) = unat n * unat sz"
proof -
  have n: "0 < unat n" using assms by (simp add: unat_gt_0)
  have dir: "unat n * unat sz < 2 ^ 64 \<and> unat (n * sz) = unat n * unat sz" if "n * sz div n = sz"
  proof -
    have "unat (n * sz) div unat n = unat sz" using that by (metis unat_div_distrib)
    then have "unat n * unat sz \<le> unat (n * sz)" using n by (metis div_times_less_eq_dividend mult.commute)
    also have "\<dots> < 2 ^ 64" using unsigned_less [of "n * sz"] by simp
    finally have "unat n * unat sz < 2 ^ 64" .
    then show ?thesis by (simp add: unat_mult_lem [THEN iffD1])
  qed
  show "n * sz div n = sz \<Longrightarrow> unat (n * sz) = unat n * unat sz" using dir by blast
  have "n * sz div n = sz" if "unat n * unat sz < 2 ^ 64"
  proof -
    have "unat (n * sz) = unat n * unat sz" using that by (simp add: unat_mult_lem [THEN iffD1])
    then have "unat (n * sz div n) = unat sz" using n by (simp add: unat_div_distrib)
    then show ?thesis by (simp add: word_unat_eq_iff)
  qed
  then show "n * sz div n = sz \<longleftrightarrow> unat n * unat sz < 2 ^ 64" using dir by blast
qed

definition round_len :: "alloc_params \<Rightarrow> u64 \<Rightarrow> u64" where
  "round_len K len = (let al = MEMORY_ALIGN_MULTIPLE K
     in if len mod al \<noteq> 0 then len - len mod al + al else len)"

lemma round_len:
  assumes K: "params_ok K" and len: "\<not> len > - MEMORY_ALIGN_MULTIPLE K"
  shows "unat len \<le> unat (round_len K len)"
    and "unat (round_len K len) mod unat (MEMORY_ALIGN_MULTIPLE K) = 0"
    and "unat (round_len K len) < unat len + unat (MEMORY_ALIGN_MULTIPLE K)"
proof -
  define al where "al = MEMORY_ALIGN_MULTIPLE K"
  have al: "0 < unat al" using K by (simp add: params_ok_def al_def unat_gt_0)
  have "unat (- al) = 2 ^ 64 - unat al" using al using unat_sub_if_size [of 0 al] by (simp add: word_size)
  then have b: "unat len + unat al \<le> 2 ^ 64"
  proof -
    have "unat al < 2 ^ 64" using unsigned_less [of al] by simp
    then show ?thesis using len \<open>unat (- al) = _\<close> by (simp add: al_def word_less_nat_alt)
  qed
  have "unat (round_len K len) = (if unat len mod unat al = 0 then unat len else unat len - unat len mod unat al + unat al)"
  proof (cases "unat len mod unat al = 0")
    case True
    then have "len mod al = 0" by (simp add: word_unat_eq_iff unat_mod_distrib)
    then show ?thesis using True by (simp add: round_len_def Let_def al_def)
  next
    case False
    have "len mod al \<noteq> 0" using False by (auto simp: word_unat_eq_iff unat_mod_distrib)
    moreover have "unat (len - len mod al) = unat len - unat len mod unat al"
      by (subst unat_sub) (simp_all add: unat_mod_distrib word_le_nat_alt)
    moreover have "unat len - unat len mod unat al + unat al < 2 ^ 64"
      using b False mod_less_eq_dividend [of "unat len" "unat al"] by linarith
    ultimately show ?thesis
      using False by (simp add: round_len_def Let_def al_def [symmetric] unat_add_lem [THEN iffD1])
  qed
  moreover have dm: "unat al * (unat len div unat al) + unat len mod unat al = unat len" by (rule mult_div_mod_eq)
  moreover have "unat len mod unat al < unat al" using al by simp
  ultimately show "unat len \<le> unat (round_len K len)" "unat (round_len K len) mod unat al = 0"
    "unat (round_len K len) < unat len + unat al"
    by (auto simp: minus_mod_eq_mult_div) (use dm in linarith)+
qed

section \<open>Allocation\<close>

text \<open>
  The result of a successful allocation: one more range, apart from all others, aligned,
  zero and at least as long as requested.
\<close>

definition allocates :: "alloc_params \<Rightarrow> u64 \<Rightarrow> u64 \<Rightarrow> (u64 \<rightharpoonup> u64) \<Rightarrow> bytemem \<Rightarrow> u64 \<Rightarrow> (u64 \<rightharpoonup> u64) \<Rightarrow> bytemem \<Rightarrow> bool" where
  "allocates K n sz L m p L' m' \<longleftrightarrow> p \<noteq> 0 \<and> L p = None
     \<and> (\<exists>k. L' = L(p \<mapsto> k) \<and> n * sz \<le> k) \<and> unat (n * sz) = unat n * unat sz
     \<and> unat p mod unat (MEMORY_ALIGN_MULTIPLE K) = 0 \<and> (\<forall>x. x - p < n * sz \<longrightarrow> m' x = 0) \<and> payload_kept L m m'"

definition block_found :: "alloc_params \<Rightarrow> u64 \<Rightarrow> u64 \<Rightarrow> heap \<Rightarrow> u64 \<Rightarrow> u64 list \<Rightarrow> bool" where
  "block_found K n sz h len fs \<longleftrightarrow> n \<noteq> 0 \<and> sz \<noteq> 0 \<and> unat n * unat sz < 2 ^ 64 \<and> \<not> n * sz > - MEMORY_ALIGN_MULTIPLE K
     \<and> len = round_len K (n * sz) \<and> fits h len fs \<noteq> 0"

lemma calloc_unfold:
  fixes n sz :: u64
  assumes r: "heap_rep K h bs fs"
  defines "len \<equiv> round_len K (n * sz)" and "a \<equiv> fits h (round_len K (n * sz)) fs"
  shows "buffer_alloc_calloc_with_heap K n sz h =
    (if block_found K n sz h len fs
     then do {
       let h1 = (if fld (hp_mem h) a F_size - len < 64 + MEMORY_ALIGN_MULTIPLE K then take_block a h else split_block a len h);
       verified_alloc K h1;
       Some (a + 64, h1\<lparr>hp_mem := memset0 (a + 64) (n * sz) (hp_mem h1)\<rparr>)
     } else Some (0, h))"
proof -
  have hb: "heap_blocks K h bs" and f: "free_list (set bs) h fs" and F: "set fs = {a \<in> set bs. fld (hp_mem h) a F_alloc = 0}"
    using r by (auto simp: heap_rep_def heap_part_def)
  have z: "0 \<notin> set fs" and b0: "ctx_buf (hp_ctx h) \<noteq> 0" "ctx_first (hp_ctx h) \<noteq> 0"
    using hb F front_zero [of bs] by (auto simp: heap_blocks_def)
  have ff: "find_fit (hp_mem h) l (ctx_first_free (hp_ctx h)) = Some (fits h l fs)" for l
    using f z find_fit_ok by (auto simp: free_list_def)
  have a0: "a \<noteq> 0 \<Longrightarrow> fld (hp_mem h) a F_alloc = 0" using F fits_mem by (auto simp: a_def)
  have rl: "(if n * sz mod MEMORY_ALIGN_MULTIPLE K \<noteq> 0
      then n * sz - n * sz mod MEMORY_ALIGN_MULTIPLE K + MEMORY_ALIGN_MULTIPLE K else n * sz) = len"
    by (simp add: len_def round_len_def Let_def)
  show ?thesis
  proof (cases "n = 0 \<or> sz = 0 \<or> n * sz div n \<noteq> sz \<or> n * sz > - MEMORY_ALIGN_MULTIPLE K")
    case True
    then have "\<not> block_found K n sz h len fs" using product_checked(1) [of n sz] by (auto simp: block_found_def)
    moreover have "buffer_alloc_calloc_with_heap K n sz h = Some (0, h)"
      using True b0 unfolding buffer_alloc_calloc_with_heap_def Let_def rl by (cases "n = 0 \<or> sz = 0 \<or> n * sz div n \<noteq> sz") simp_all
    ultimately show ?thesis by simp
  next
    case False
    then have "block_found K n sz h len fs \<longleftrightarrow> a \<noteq> 0"
      using product_checked(1) [of n sz] by (auto simp: block_found_def len_def a_def)
    then show ?thesis
      using False b0 a0 unfolding buffer_alloc_calloc_with_heap_def Let_def rl ff a_def [symmetric, folded len_def]
      by (simp add: sizeof_header_def)
  qed
qed

lemma live_le: "live h bs p = None \<Longrightarrow> live h bs \<subseteq>\<^sub>m (live h bs)(p \<mapsto> k)"
  by (auto simp: map_le_def)

lemma calloc_finish:
  assumes r: "heap_rep K h1 bs1 fs1" and L: "live h1 bs1 = L(a + 64 \<mapsto> k)" "L (a + 64) = None"
    and u: "untouched (set bs1) (hp_mem h) (hp_mem h1)" and k: "n * sz \<le> k" "0 < n * sz"
    and a: "a \<in> set bs1" "fld (hp_mem h1) a F_size = k" and K: "params_ok K" and nsz: "unat (n * sz) = unat n * unat sz"
  defines "h2 \<equiv> h1\<lparr>hp_mem := memset0 (a + 64) (n * sz) (hp_mem h1)\<rparr>"
  shows "heap_rep K h2 bs1 fs1 \<and> allocates K n sz L (hp_mem h) (a + 64) (live h2 bs1) (hp_mem h2)"
proof -
  have hb: "heap_blocks K h1 bs1" using r by (auto simp: heap_rep_def heap_part_def)
  have same: "fld (hp_mem h2) b g = fld (hp_mem h1) b g" if "b \<in> set bs1" for b g
    using payload_header_apart [OF hb a(1) that k(2)] k a(2) by (simp add: h2_def fld_memset0)
  have "live h2 bs1 = live h1 bs1" by (rule ext) (auto simp: live_def same)
  then have live2: "live h2 bs1 = L(a + 64 \<mapsto> k)" using L(1) by simp
  have "payload_kept L (hp_mem h) (hp_mem h1)"
    by (rule untouched_payload [OF hb u]) (use L in \<open>auto simp: map_le_def\<close>)
  moreover have "hp_mem h2 x = hp_mem h1 x" if l: "L q = Some j" and x: "x - q < j" for q j x
  proof -
    have q: "live h1 bs1 q = Some j" "q \<noteq> a + 64" using l L by auto
    from q(1) obtain b where b: "q = b + 64" "b \<in> set bs1" "j = fld (hp_mem h1) b F_size" by (rule live_cases)
    have "0 < j" using x by (auto simp: word_gt_0)
    then have "apart (b + 64) j (a + 64) (n * sz)"
      using payloads_apart [OF hb b(2) a(1), of j "n * sz"] q(2) b(1,3) k a(2) by auto
    then have "\<not> x - (a + 64) < n * sz" using apart_in [OF apart_sym] x b(1) by blast
    then show ?thesis by (simp add: h2_def memset0_def)
  qed
  ultimately have "payload_kept L (hp_mem h) (hp_mem h2)" by (simp add: payload_kept_def)
  moreover have "heap_rep K h2 bs1 fs1" by (rule heap_rep_cong [OF r]) (simp_all add: same, simp add: h2_def)
  moreover have "unat (a + 64) mod unat (MEMORY_ALIGN_MULTIPLE K) = 0 \<and> a + 64 \<noteq> 0"
    using K block_bound [OF hb a(1)] hb a(1)
    by (auto simp: heap_blocks_def header_ok_def params_ok_def mod_eq_0_iff_dvd)
  moreover have "\<forall>x. x - (a + 64) < n * sz \<longrightarrow> hp_mem h2 x = 0" by (simp add: h2_def memset0_def)
  ultimately show ?thesis
    using live2 L(2) k(1) nsz unfolding allocates_def by blast
qed

lemma verified_alloc_ok: "heap_rep K h bs fs \<Longrightarrow> verified_alloc K h = Some ()"
  using verify_chain_ok by (simp add: verified_alloc_def)

lemma calloc_ok:
  assumes r: "heap_rep K h bs fs" and K: "params_ok K"
  shows "if block_found K n sz h (round_len K (n * sz)) fs
    then \<exists>p h' bs' fs'. buffer_alloc_calloc_with_heap K n sz h = Some (p, h') \<and> heap_rep K h' bs' fs'
           \<and> allocates K n sz (live h bs) (hp_mem h) p (live h' bs') (hp_mem h')
    else buffer_alloc_calloc_with_heap K n sz h = Some (0, h)"
proof (cases "block_found K n sz h (round_len K (n * sz)) fs")
  case True
  define len where "len = round_len K (n * sz)"
  define a where "a = fits h len fs"
  let ?al = "MEMORY_ALIGN_MULTIPLE K"
  have b: "n \<noteq> 0" "sz \<noteq> 0" "unat n * unat sz < 2 ^ 64" "\<not> n * sz > - ?al" "a \<noteq> 0"
    using True by (auto simp: block_found_def a_def len_def)
  have nsz: "unat (n * sz) = unat n * unat sz" using product_checked b(1,3) by blast
  have "unat n * unat sz \<noteq> 0" using b(1,2) by (simp add: unat_eq_0)
  then have pos: "0 < n * sz" using nsz by (simp add: word_less_nat_alt)
  note rl = round_len [OF K b(4), folded len_def]
  obtain xs ys where fs: "fs = xs @ a # ys" and fit: "len \<le> fld (hp_mem h) a F_size"
    by (rule fits_split [OF a_def [symmetric] b(5)])
  note run = calloc_unfold [OF r, of n sz, folded len_def, folded a_def]
  note r' = r [unfolded fs]
  have found: "block_found K n sz h len fs" using \<open>block_found _ _ _ _ _ _\<close> by (simp only: len_def)
  show ?thesis
  proof (cases "fld (hp_mem h) a F_size - len < 64 + ?al")
    case True
    note t = take_block_rep [OF r']
    have "n * sz \<le> fld (hp_mem h) a F_size" using rl(1) fit by (simp add: word_le_nat_alt)
    note fin = calloc_finish [OF t(1,2) t(4) t(3) this pos t(5) t(6) K nsz]
    have "verified_alloc K (take_block a h) = Some ()" using verified_alloc_ok [OF t(1)] .
    then have "buffer_alloc_calloc_with_heap K n sz h =
        Some (a + 64, (take_block a h)\<lparr>hp_mem := memset0 (a + 64) (n * sz) (hp_mem (take_block a h))\<rparr>)"
      using True found by (simp add: run Let_def)
    then show ?thesis using fin found unfolding len_def by auto
  next
    case False
    have al: "unat ?al \<le> 64" "0 < unat ?al" using K by (auto simp: params_ok_def mod_eq_0_iff_dvd unat_gt_0 dvd_imp_le)
    have "unat (fld (hp_mem h) a F_size - len) = block_size h a - unat len"
      using fit by (simp add: block_size_def unat_sub)
    moreover have "unat (64 + ?al) = 64 + unat ?al" using al by (subst unat_add_lem [THEN iffD1]) simp_all
    ultimately have room: "unat len + 64 < block_size h a" using False al by (simp add: word_less_nat_alt)
    have len0: "len \<noteq> 0" using rl(1) pos by (auto simp: word_less_nat_alt)
    have "a \<in> set bs" using r fs by (auto simp: heap_rep_def heap_part_def free_list_def)
    then obtain us vs where bs: "bs = us @ a # vs" by (meson split_list)
    note t = split_block_rep [OF r' K room len0 rl(2) refl bs]
    have "n * sz \<le> len" using rl(1) by (simp add: word_le_nat_alt)
    note fin = calloc_finish [OF t(1,2) t(4) t(3) this pos _ t(5) K nsz]
    have "verified_alloc K (split_block a len h) = Some ()" using verified_alloc_ok [OF t(1)] .
    then have "buffer_alloc_calloc_with_heap K n sz h =
        Some (a + 64, (split_block a len h)\<lparr>hp_mem := memset0 (a + 64) (n * sz) (hp_mem (split_block a len h))\<rparr>)"
      using False found by (simp add: run Let_def)
    then show ?thesis using fin found unfolding len_def by auto
  qed
qed (use calloc_unfold [OF r, of n sz] in simp)

end
