(* ===== verification/Heap_Free_Correct.thy ===== *)
theory Heap_Free_Correct
  imports Heap_Alloc_Correct
begin

text \<open>
  Release: the block is joined with its free neighbours, and exactly one range is live no
  more.
\<close>

section \<open>Two blocks become one\<close>

lemma merge_blocks:
  assumes hb: "heap_blocks K h (us @ c # n # vs)"
    and ctx: "ctx_buf (hp_ctx h') = ctx_buf (hp_ctx h)" "ctx_len (hp_ctx h') = ctx_len (hp_ctx h)"
      "ctx_first (hp_ctx h') = ctx_first (hp_ctx h)"
    and fl: "\<And>b g. b \<in> set (us @ c # vs) \<Longrightarrow> g \<in> {F_magic1, F_size, F_prev, F_next, F_magic2} \<Longrightarrow> fld (hp_mem h') b g =
        (if b = c \<and> g = F_size then fld (hp_mem h) c F_size + (64 + fld (hp_mem h) n F_size)
         else if b = c \<and> g = F_next then front vs 0 else if b = front vs 0 \<and> g = F_prev then c
         else fld (hp_mem h) b g)"
    and al: "\<And>b. b \<in> set (us @ c # vs) \<Longrightarrow> fld (hp_mem h') b F_alloc \<in> {0, 1}"
  shows "heap_blocks K h' (us @ c # vs)" and "block_size h' c = block_size h c + 64 + block_size h n"
proof -
  have t: "tiles (block_size h) (us @ c # n # vs) (heap_end h)" and e: "heap_end h < 2 ^ 64"
    and z: "0 \<notin> set (us @ c # n # vs)" using hb by (auto simp: heap_blocks_def)
  have dist: "distinct (us @ c # n # vs)" by (rule heap_blocks_distinct [OF hb])
  have adj: "unat c + 64 + block_size h c = unat n" using t by (simp add: tiles_append tiles_Cons)
  have "unat n + 64 + block_size h n \<le> heap_end h" using block_bound(2) [OF hb, of n] by simp
  then have sum: "block_size h c + 64 + block_size h n < 2 ^ 64" using adj e by simp
  have "block_size h' c = unat (fld (hp_mem h) c F_size + (64 + fld (hp_mem h) n F_size))"
    using fl [of c F_size] by (simp add: block_size_def)
  also have "\<dots> = block_size h c + (64 + block_size h n)"
    using sum by (simp add: block_size_def unat_add_lem [THEN iffD1])
  finally show sc: "block_size h' c = block_size h c + 64 + block_size h n" by simp
  then have sz: "fld (hp_mem h') c F_size \<noteq> 0" by (auto simp: block_size_def)
  have "block_size h' b = block_size h b" if "b \<in> set us \<union> set vs" for b
    using that fl [of b F_size] dist by (auto simp: block_size_def)
  then have "tiles (block_size h') us x \<longleftrightarrow> tiles (block_size h) us x"
    "tiles (block_size h') vs x \<longleftrightarrow> tiles (block_size h) vs x" for x by (auto intro!: tiles_cong)
  then have "tiles (block_size h') (us @ c # vs) (heap_end h)"
    using t sc adj by (simp add: tiles_append tiles_Cons)
  moreover have "dll (\<lambda>b. fld (hp_mem h') b F_prev) (\<lambda>b. fld (hp_mem h') b F_next) 0 ((us @ [c]) @ vs) 0"
    by (rule dll_unlink [where a = n and P = "\<lambda>b. fld (hp_mem h) b F_prev" and N = "\<lambda>b. fld (hp_mem h) b F_next"])
      (use hb dist z in \<open>auto simp: heap_blocks_def fl\<close>)
  moreover have "heap_end h' = heap_end h" using ctx by (simp add: heap_end_def)
  moreover have "front (us @ c # vs) 0 = front (us @ c # n # vs) 0" by simp
  ultimately show "heap_blocks K h' (us @ c # vs)"
    using hb ctx fl al sz by (auto simp: heap_blocks_def header_ok_def)
qed

section \<open>The block before\<close>

lemma fld_memset_header:
  assumes "headers S" and "a \<in> S" and "b \<in> S" and "a \<noteq> b"
  shows "fld (memset0 a 64 m) b g = fld m b g"
  by (rule fld_memset0) (use assms in \<open>auto simp: headers_def far_def\<close>)

lemma untouched_memset: "a \<in> S \<Longrightarrow> untouched S m m' \<Longrightarrow> untouched S m (memset0 a 64 m')"
  by (auto simp: untouched_def memset0_def)

lemma regroup_before_fields:
  assumes H: "headers S" and S: "p \<in> S" "a \<in> S" "p \<noteq> a"
    and p: "fld (hp_mem h) a F_prev = p" "fld (hp_mem h) p F_alloc = 0"
    and y: "fld (hp_mem h) a F_next = y" "y \<noteq> 0 \<longrightarrow> y \<in> S" "y \<noteq> a" "y \<noteq> p"
  obtains h' where "regroup_before a h = (a, p, h')" and "hp_ctx h' = hp_ctx h" and "untouched S (hp_mem h) (hp_mem h')"
    and "\<And>b g. b \<in> S \<Longrightarrow> b \<noteq> a \<Longrightarrow> fld (hp_mem h') b g =
        (if b = p \<and> g = F_size then fld (hp_mem h) p F_size + (64 + fld (hp_mem h) a F_size)
         else if b = p \<and> g = F_next then y else if b = y \<and> g = F_prev then p else fld (hp_mem h) b g)"
proof -
  define h1 where "h1 = upd p F_next y (upd p F_size (fld (hp_mem h) p F_size + (64 + fld (hp_mem h) a F_size)) h)"
  define h2 where "h2 = (if y \<noteq> 0 then upd y F_prev p h1 else h1)"
  define h3 where "h3 = h2\<lparr>hp_mem := memset0 a 64 (hp_mem h2)\<rparr>"
  have p0: "p \<noteq> 0" using S(1) headers_nonzero [OF H] by auto
  have a1: "fld (hp_mem (upd p F_size v h)) a F_next = y" for v using S y(1) by (simp add: fld_upd [OF H])
  have p1: "fld (hp_mem h1) p F_next = y" using S by (simp add: h1_def fld_upd [OF H])
  have "regroup_before a h = (a, p, h3)"
    unfolding regroup_before_def Let_def p(1) sizeof_header_def a1 h1_def [symmetric] p1 h2_def [symmetric] h3_def [symmetric]
    using p0 p(2) by simp
  moreover have "hp_ctx h3 = hp_ctx h" by (simp add: h3_def h2_def h1_def)
  moreover have "untouched S (hp_mem h) (hp_mem h3)"
    using S y(2) by (auto simp: h3_def h2_def h1_def intro!: untouched_memset)
  moreover have "fld (hp_mem h3) b g =
        (if b = p \<and> g = F_size then fld (hp_mem h) p F_size + (64 + fld (hp_mem h) a F_size)
         else if b = p \<and> g = F_next then y else if b = y \<and> g = F_prev then p else fld (hp_mem h) b g)"
    if "b \<in> S" "b \<noteq> a" for b g
    using S y that headers_nonzero [OF H]
    by (cases "y = 0") (auto simp: h3_def h2_def h1_def fld_memset_header [OF H] fld_upd [OF H])
  ultimately show ?thesis by (rule that)
qed

section \<open>The block after\<close>

text \<open>A block that may be in the free list leaves it; another one stays.\<close>

lemma leave_free_list:
  assumes H: "headers S" and f: "free_list S h fs" and n: "n \<in> set fs" "n \<noteq> c" and c: "c \<in> S"
    and idle: "c \<notin> set fs \<Longrightarrow> fld (hp_mem h) c F_prev_free = 0 \<and> fld (hp_mem h) c F_next_free = 0"
  defines "h' \<equiv> (if fld (hp_mem h) c F_prev_free \<noteq> 0 \<or> fld (hp_mem h) c F_next_free \<noteq> 0 then unlink_free c h else h)"
  obtains xs ys where "free_list S h' (xs @ n # ys)" and "set (xs @ n # ys) = set fs - {c}"
    and "\<And>b g. b \<in> S \<Longrightarrow> b \<notin> set fs \<or> g \<noteq> F_prev_free \<and> g \<noteq> F_next_free \<Longrightarrow> fld (hp_mem h') b g = fld (hp_mem h) b g"
    and "hp_ctx h' = (hp_ctx h)\<lparr>ctx_first_free := ctx_first_free (hp_ctx h')\<rparr>"
    and "\<And>m. untouched S m (hp_mem h') \<longleftrightarrow> untouched S m (hp_mem h)"
proof (cases "c \<in> set fs")
  case False
  then have "h' = h" using idle by (simp add: h'_def)
  moreover obtain xs ys where "fs = xs @ n # ys" using n(1) by (meson split_list)
  ultimately show ?thesis using that [of xs ys] f False by auto
next
  case True
  then obtain xs ys where fs: "fs = xs @ c # ys" by (meson split_list)
  note f' = f [unfolded fs]
  have d: "distinct fs" and z: "0 \<notin> set fs" using f headers_nonzero [OF H] by (auto simp: free_list_def)
  have "xs \<noteq> [] \<or> ys \<noteq> []" using n fs by auto
  then have "rear 0 xs \<noteq> 0 \<or> front ys 0 \<noteq> 0" using z fs rear_zero [of xs] front_zero [of ys] by auto
  then have h': "h' = unlink_free c h" using free_list_mid(2,3) [OF H f'] by (simp add: h'_def)
  have "n \<in> set (xs @ ys)" using n fs by auto
  then obtain xs' ys' where xy: "xs @ ys = xs' @ n # ys'" by (meson split_list)
  have rf: "rear 0 xs \<in> S \<Longrightarrow> rear 0 xs \<in> set fs" "front ys 0 \<in> S \<Longrightarrow> front ys 0 \<in> set fs"
    using fs headers_nonzero [OF H] rear_mem [of xs 0] front_mem [of ys 0] by (cases "xs = []"; cases "ys = []"; auto)+
  show ?thesis
  proof (rule that)
    show "free_list S h' (xs' @ n # ys')" using unlink_free_list [OF H f'] xy h' by simp
    have "set (xs' @ n # ys') = set (xs @ ys)" using xy by simp
    also have "\<dots> = set fs - {c}" using d fs by auto
    finally show "set (xs' @ n # ys') = set fs - {c}" .
    show "hp_ctx h' = (hp_ctx h)\<lparr>ctx_first_free := ctx_first_free (hp_ctx h')\<rparr>"
      by (simp add: h' unlink_free_ctx [OF H f'])
    show "\<And>m. untouched S m (hp_mem h') \<longleftrightarrow> untouched S m (hp_mem h)" by (simp add: h' unlink_free_untouched [OF H f'])
    show "fld (hp_mem h') b g = fld (hp_mem h) b g"
      if "b \<in> S" "b \<notin> set fs \<or> g \<noteq> F_prev_free \<and> g \<noteq> F_next_free" for b g
      using that rf by (auto simp: h' unlink_free_fields [OF H f'])
  qed
qed

lemma regroup_after_fields:
  assumes H: "headers S" and f: "free_list S h fs" and n: "n \<in> set fs" "n \<noteq> c" and c: "c \<in> S"
    and idle: "c \<notin> set fs \<Longrightarrow> fld (hp_mem h) c F_prev_free = 0 \<and> fld (hp_mem h) c F_next_free = 0"
    and cn: "fld (hp_mem h) c F_next = n" "fld (hp_mem h) n F_alloc = 0"
    and y: "fld (hp_mem h) n F_next = y" "y \<noteq> 0 \<longrightarrow> y \<in> S" "y \<noteq> n" "y \<noteq> c"
  obtains h' xs ys where "regroup_after old c h = (n, h')" and "untouched S (hp_mem h) (hp_mem h')"
    and "hp_ctx h' = (hp_ctx h)\<lparr>ctx_first_free := front (xs @ c # ys) 0\<rparr>"
    and "set (xs @ c # ys) = insert c (set fs - {n})"
    and "distinct (xs @ c # ys)"
    and "dll (\<lambda>b. fld (hp_mem h') b F_prev_free) (\<lambda>b. fld (hp_mem h') b F_next_free) 0 (xs @ c # ys) 0"
    and "\<And>b g. b \<in> S \<Longrightarrow> b \<noteq> n \<Longrightarrow> b \<notin> set (xs @ c # ys) \<or> g \<noteq> F_prev_free \<and> g \<noteq> F_next_free \<Longrightarrow> fld (hp_mem h') b g =
        (if b = c \<and> g = F_size then fld (hp_mem h) c F_size + (64 + fld (hp_mem h) n F_size)
         else if b = c \<and> g = F_next then y else if b = y \<and> g = F_prev then c else fld (hp_mem h) b g)"
proof -
  have nS: "n \<in> S" "n \<noteq> 0" "set fs \<subseteq> S" using f n(1) headers_nonzero [OF H] by (auto simp: free_list_def)
  define h1 where "h1 = upd c F_next y (upd c F_size (fld (hp_mem h) c F_size + (64 + fld (hp_mem h) n F_size)) h)"
  define h2 where "h2 = (if fld (hp_mem h1) c F_prev_free \<noteq> 0 \<or> fld (hp_mem h1) c F_next_free \<noteq> 0 then unlink_free c h1 else h1)"
  define h3 where "h3 = link_free c n h2"
  define h4 where "h4 = (if y \<noteq> 0 then upd y F_prev c h3 else h3)"
  define h5 where "h5 = h4\<lparr>hp_mem := memset0 n 64 (hp_mem h4)\<rparr>"
  have h1f: "fld (hp_mem h1) b g = (if b = c \<and> g = F_size then fld (hp_mem h) c F_size + (64 + fld (hp_mem h) n F_size)
         else if b = c \<and> g = F_next then y else fld (hp_mem h) b g)" if "b \<in> S" for b g
    using that c by (auto simp: h1_def fld_upd [OF H])
  have f1: "free_list S h1 fs \<longleftrightarrow> free_list S h fs"
    by (rule free_list_cong) (use nS(3) in \<open>auto simp: h1f subset_iff, simp add: h1_def\<close>)
  have idle1: "fld (hp_mem h1) c F_prev_free = 0 \<and> fld (hp_mem h1) c F_next_free = 0" if "c \<notin> set fs"
    using idle [OF that] c by (simp add: h1f)
  obtain xs ys where f2: "free_list S h2 (xs @ n # ys)" and set2: "set (xs @ n # ys) = set fs - {c}"
    and fl2: "\<And>b g. b \<in> S \<Longrightarrow> b \<notin> set fs \<or> g \<noteq> F_prev_free \<and> g \<noteq> F_next_free \<Longrightarrow> fld (hp_mem h2) b g = fld (hp_mem h1) b g"
    and ctx2: "hp_ctx h2 = (hp_ctx h1)\<lparr>ctx_first_free := ctx_first_free (hp_ctx h2)\<rparr>"
    and u2: "\<And>m. untouched S m (hp_mem h2) \<longleftrightarrow> untouched S m (hp_mem h1)"
    by (rule leave_free_list [OF H f [folded f1] n c idle1, folded h2_def]) (assumption, (rule that; assumption))
  have cf: "c \<notin> set (xs @ n # ys)" using set2 by auto
  note H3 = link_free_fields [OF H f2 c cf, folded h3_def] and l3 = link_free_list [OF H f2 c cf, folded h3_def]
    and ctx3 = link_free_ctx [OF H f2 c cf, folded h3_def] and u3 = link_free_untouched [OF H f2 c cf, folded h3_def]
  have c1: "fld (hp_mem (upd c F_size v h)) n F_next = y" for v using nS c y(1) n(2) by (simp add: fld_upd [OF H])
  have c3: "fld (hp_mem h3) c F_next = y"
    using c H3 [OF c, of F_next] fl2 [OF c, of F_next] h1f [OF c, of F_next] by simp
  have run: "regroup_after old c h = (n, h5)"
    unfolding regroup_after_def Let_def cn(1) sizeof_header_def c1 h1_def [symmetric] h2_def [symmetric] h3_def [symmetric] c3
      h4_def [symmetric] h5_def [symmetric]
    using nS(2) cn(2) by simp
  have set5: "set (xs @ c # ys) = insert c (set fs - {n})"
  proof -
    have "distinct (xs @ n # ys)" using f2 by (simp add: free_list_def)
    then have "set (xs @ c # ys) = insert c (set (xs @ n # ys) - {n})" by auto
    then show ?thesis using set2 by auto
  qed
  have n5: "n \<notin> set (xs @ c # ys)" using set5 n(2) by auto
  have h5f: "fld (hp_mem h5) b g = (if b = y \<and> g = F_prev then c else fld (hp_mem h3) b g)" if "b \<in> S" "b \<noteq> n" for b g
    using that nS y headers_nonzero [OF H]
    by (cases "y = 0") (auto simp: h5_def h4_def fld_memset_header [OF H] fld_upd [OF H])
  have sub5: "b \<in> S \<and> b \<noteq> n" if "b \<in> set (xs @ c # ys)" for b
    using that l3 n5 unfolding free_list_def by blast
  show ?thesis
  proof (rule that [OF run])
    show "untouched S (hp_mem h) (hp_mem h5)"
      using nS(1) c y(2) by (auto simp: h5_def h4_def u3 u2 h1_def intro!: untouched_memset)
    show "hp_ctx h5 = (hp_ctx h)\<lparr>ctx_first_free := front (xs @ c # ys) 0\<rparr>"
    proof -
      have "hp_ctx h5 = hp_ctx h3" by (simp add: h5_def h4_def)
      also have "\<dots> = (hp_ctx h1)\<lparr>ctx_first_free := front (xs @ c # ys) 0\<rparr>" by (subst ctx3, subst ctx2) simp
      finally show ?thesis by (simp add: h1_def)
    qed
    show "set (xs @ c # ys) = insert c (set fs - {n})" by (rule set5)
    show "distinct (xs @ c # ys)" using l3 by (simp add: free_list_def)
    have "dll (\<lambda>b. fld (hp_mem h5) b F_prev_free) (\<lambda>b. fld (hp_mem h5) b F_next_free) 0 (xs @ c # ys) 0 \<longleftrightarrow>
        dll (\<lambda>b. fld (hp_mem h3) b F_prev_free) (\<lambda>b. fld (hp_mem h3) b F_next_free) 0 (xs @ c # ys) 0"
      by (rule dll_cong) (use sub5 h5f in auto)
    then show "dll (\<lambda>b. fld (hp_mem h5) b F_prev_free) (\<lambda>b. fld (hp_mem h5) b F_next_free) 0 (xs @ c # ys) 0"
      using l3 by (simp add: free_list_def)
    show "fld (hp_mem h5) b g =
        (if b = c \<and> g = F_size then fld (hp_mem h) c F_size + (64 + fld (hp_mem h) n F_size)
         else if b = c \<and> g = F_next then y else if b = y \<and> g = F_prev then c else fld (hp_mem h) b g)"
      if b: "b \<in> S" "b \<noteq> n" and g: "b \<notin> set (xs @ c # ys) \<or> g \<noteq> F_prev_free \<and> g \<noteq> F_next_free" for b g
    proof -
      have r: "rear 0 xs \<in> S \<Longrightarrow> rear 0 xs \<in> set (xs @ c # ys)" "front ys 0 \<in> S \<Longrightarrow> front ys 0 \<in> set (xs @ c # ys)"
        using headers_nonzero [OF H] rear_mem [of xs 0] front_mem [of ys 0] by (cases "xs = []"; cases "ys = []"; auto)+
      have "fld (hp_mem h3) b g = fld (hp_mem h2) b g"
        using H3 [OF b(1), of g] g r b(1) by auto
      moreover have "fld (hp_mem h2) b g = fld (hp_mem h1) b g"
        using fl2 [OF b(1), of g] g b(2) set5 by auto
      ultimately show ?thesis using h5f [OF b, of g] h1f [OF b(1), of g] y(4) by auto
    qed
  qed
qed

text \<open>A block that was not joined becomes the first free block.\<close>

lemma prepend_free_fields:
  assumes H: "headers S" and f: "free_list S h fs" and c: "c \<in> S" "c \<notin> set fs"
    and idle: "fld (hp_mem h) c F_prev_free = 0"
  defines "h' \<equiv> prepend_free c h"
  shows "free_list S h' (c # fs)" and "hp_ctx h' = (hp_ctx h)\<lparr>ctx_first_free := c\<rparr>"
    and "untouched S m (hp_mem h') \<longleftrightarrow> untouched S m (hp_mem h)"
    and "b \<in> S \<Longrightarrow> b \<notin> set (c # fs) \<or> g \<noteq> F_prev_free \<and> g \<noteq> F_next_free \<Longrightarrow> fld (hp_mem h') b g = fld (hp_mem h) b g"
proof -
  have S: "front fs 0 \<noteq> 0 \<Longrightarrow> front fs 0 \<in> set fs" "set fs \<subseteq> S" "front fs 0 \<noteq> c"
    using f c headers_nonzero [OF H] by (cases fs; auto simp: free_list_def)+
  have fl: "fld (hp_mem h') b g = (if b = c \<and> g = F_next_free then front fs 0
      else if b = front fs 0 \<and> g = F_prev_free then c else fld (hp_mem h) b g)" if "b \<in> S" for b g
    using f c S that headers_nonzero [OF H]
    by (cases "front fs 0 = 0") (auto simp: h'_def prepend_free_def Let_def set_first_free_def fld_upd [OF H] free_list_def subset_iff)
  show ctx: "hp_ctx h' = (hp_ctx h)\<lparr>ctx_first_free := c\<rparr>"
    by (simp add: h'_def prepend_free_def Let_def set_first_free_def)
  show "untouched S m (hp_mem h') \<longleftrightarrow> untouched S m (hp_mem h)"
    using f c S by (auto simp: h'_def prepend_free_def Let_def set_first_free_def free_list_def subset_iff)
  show "b \<in> S \<Longrightarrow> b \<notin> set (c # fs) \<or> g \<noteq> F_prev_free \<and> g \<noteq> F_next_free \<Longrightarrow> fld (hp_mem h') b g = fld (hp_mem h) b g"
    using fl [of b g] S headers_nonzero [OF H] by (cases "front fs 0 = 0") auto
  have "dll (\<lambda>b. fld (hp_mem h') b F_prev_free) (\<lambda>b. fld (hp_mem h') b F_next_free) 0 (c # fs) 0"
    by (rule dll_prepend [of "\<lambda>b. fld (hp_mem h) b F_prev_free" "\<lambda>b. fld (hp_mem h) b F_next_free"])
      (use f c S idle fl in \<open>auto simp: free_list_def subset_iff\<close>)
  then show "free_list S h' (c # fs)" using f c ctx by (auto simp: free_list_def)
qed

section \<open>The two steps on the heap\<close>

lemma heap_part_dest:
  assumes "heap_part K h bs fs F"
  shows "heap_blocks K h bs" "free_list (set bs) h fs" "headers (set bs)" "distinct bs" "0 \<notin> set bs"
    "a \<in> set bs \<Longrightarrow> a \<notin> set fs \<Longrightarrow> fld (hp_mem h) a F_prev_free = 0 \<and> fld (hp_mem h) a F_next_free = 0"
    "a \<in> set bs \<Longrightarrow> fld (hp_mem h) a F_alloc = 0 \<longleftrightarrow> a \<in> F" "F \<subseteq> set bs"
  using assms heap_blocks_headers heap_blocks_distinct by (auto simp: heap_part_def heap_blocks_def)

lemma free_list_sub: "free_list S h fs \<Longrightarrow> set fs \<subseteq> S' \<Longrightarrow> free_list S' h fs"
  by (simp add: free_list_def)

text \<open>The neighbours of a block in the list of all blocks.\<close>

lemma heap_next:
  assumes hb: "heap_blocks K h (us @ c # vs)"
  shows "fld (hp_mem h) c F_next = front vs 0" "fld (hp_mem h) c F_prev = rear 0 us"
    "front vs 0 \<noteq> 0 \<longrightarrow> front vs 0 \<in> set (us @ c # vs)" "front vs 0 \<noteq> c" "front vs 0 = 0 \<longleftrightarrow> vs = []"
    "rear 0 us = 0 \<longleftrightarrow> us = []" "us \<noteq> [] \<Longrightarrow> rear 0 us = last us" "vs \<noteq> [] \<Longrightarrow> front vs 0 = hd vs"
proof -
  have z: "0 \<notin> set (us @ c # vs)" and d: "distinct (us @ c # vs)"
    using hb heap_blocks_distinct [OF hb] by (auto simp: heap_blocks_def)
  show "fld (hp_mem h) c F_next = front vs 0" "fld (hp_mem h) c F_prev = rear 0 us"
    using hb by (auto simp: heap_blocks_def)
  show "front vs 0 \<noteq> 0 \<longrightarrow> front vs 0 \<in> set (us @ c # vs)" "front vs 0 \<noteq> c" "front vs 0 = 0 \<longleftrightarrow> vs = []"
    using z d by (cases vs; auto)+
  show "rear 0 us = 0 \<longleftrightarrow> us = []" using z rear_zero [of us] by auto
  show "us \<noteq> [] \<Longrightarrow> rear 0 us = last us" by (induction us rule: rev_induct) auto
  show "vs \<noteq> [] \<Longrightarrow> front vs 0 = hd vs" by (cases vs) auto
qed

lemma live_cong:
  assumes "\<And>b. b \<in> set bs \<union> set bs' \<Longrightarrow> b \<in> set bs \<and> fld (hp_mem h) b F_alloc = 1 \<or> b \<in> set bs' \<and> fld (hp_mem h') b F_alloc = 1
      \<Longrightarrow> b \<in> set bs \<and> b \<in> set bs' \<and> fld (hp_mem h') b F_alloc = fld (hp_mem h) b F_alloc
        \<and> fld (hp_mem h') b F_size = fld (hp_mem h) b F_size"
  shows "live h' bs' = live h bs"
proof (rule live_eqI)
  fix a show "live h' bs' (a + 64) = live h bs (a + 64)" using assms [of a] by (auto simp: live_at)
qed

lemma regroup_before_ok:
  assumes hp: "heap_part K h (us @ a # vs) fs (insert a (set fs))" and a: "a \<notin> set fs"
    and co: "coalesced (set fs) (us @ a # vs)"
  obtains old c h' us' where "regroup_before a h = (old, c, h')"
    and "heap_part K h' (us' @ c # vs) fs (insert c (set fs))" and "old = 0 \<longleftrightarrow> c \<notin> set fs"
    and "coalesced (set fs - {c}) (us' @ c # vs)" and "us' = [] \<or> last us' \<notin> set fs"
    and "live h' (us' @ c # vs) = live h (us @ a # vs)"
    and "untouched (set (us @ a # vs)) (hp_mem h) (hp_mem h')" and "set (us' @ c # vs) \<subseteq> set (us @ a # vs)"
    and "hp_ctx h' = hp_ctx h"
proof (cases "us \<noteq> [] \<and> last us \<in> set fs")
  case False
  note D = heap_part_dest [OF hp]
  note nx = heap_next [OF D(1)]
  have "regroup_before a h = (0, a, h)"
  proof (cases "us = []")
    case True
    then show ?thesis by (simp add: regroup_before_def nx)
  next
    case ne: False
    then have l: "last us \<in> set (us @ a # vs)" "last us \<noteq> a" using D(4) by auto
    then have "fld (hp_mem h) (last us) F_alloc \<noteq> 0" using False ne D(7) [OF l(1)] by auto
    then show ?thesis using ne nx(2,7) by (simp add: regroup_before_def)
  qed
  moreover have "coalesced (set fs - {a}) (us @ a # vs)" using co a by simp
  ultimately show ?thesis using that [of 0 a h us] hp a False by auto
next
  case True
  define us' where "us' = butlast us"
  define p where "p = last us"
  have us: "us = us' @ [p]" using True by (simp add: us'_def p_def)
  have pf: "p \<in> set fs" using True by (simp add: p_def)
  note hp' = hp [unfolded us, simplified append_assoc append.simps]
  note D = heap_part_dest [OF hp']
  note nx = heap_next [of K h "us' @ [p]" a vs, simplified append_assoc append.simps, OF D(1)]
  let ?S = "set (us' @ p # a # vs)"
  have S: "p \<in> ?S" "a \<in> ?S" "p \<noteq> a" using D(4) by auto
  have y: "front vs 0 \<noteq> p" using D(4,5) by (cases vs) auto
  have prev: "fld (hp_mem h) a F_prev = p" using nx(2) by simp
  have p0: "fld (hp_mem h) p F_alloc = 0" using D(7) [OF S(1)] pf by simp
  show ?thesis
  proof (rule regroup_before_fields [OF D(3) S prev p0 nx(1) nx(3) nx(4) y])
    fix h' assume run: "regroup_before a h = (a, p, h')" and ctx: "hp_ctx h' = hp_ctx h"
      and u: "untouched ?S (hp_mem h) (hp_mem h')"
      and fl: "\<And>b g. b \<in> ?S \<Longrightarrow> b \<noteq> a \<Longrightarrow> fld (hp_mem h') b g =
        (if b = p \<and> g = F_size then fld (hp_mem h) p F_size + (64 + fld (hp_mem h) a F_size)
         else if b = p \<and> g = F_next then front vs 0 else if b = front vs 0 \<and> g = F_prev then p else fld (hp_mem h) b g)"
    have sub: "b \<in> ?S \<and> b \<noteq> a" if "b \<in> set (us' @ p # vs)" for b using that D(4) by auto
    have al: "fld (hp_mem h') b g = fld (hp_mem h) b g" if "b \<in> set (us' @ p # vs)" "g \<in> {F_alloc, F_prev_free, F_next_free}" for b g
      using fl [of b g] sub [OF that(1)] that(2) by auto
    have hb': "heap_blocks K h' (us' @ p # vs)"
    proof (rule merge_blocks(1) [OF D(1)])
      show "fld (hp_mem h') b F_alloc \<in> {0, 1}" if "b \<in> set (us' @ p # vs)" for b
        using al [OF that] sub [OF that] D(1) by (auto simp: heap_blocks_def header_ok_def)
    qed (use ctx fl sub in auto)
    have fsub: "set fs \<subseteq> set (us' @ p # vs)" using D(8) a by auto
    have "free_list (set (us' @ p # vs)) h fs" using free_list_sub [OF D(2) fsub] .
    moreover have "free_list (set (us' @ p # vs)) h' fs \<longleftrightarrow> free_list (set (us' @ p # vs)) h fs"
      by (rule free_list_cong) (use fsub al ctx in auto)
    ultimately have f': "free_list (set (us' @ p # vs)) h' fs" by simp
    have "fld (hp_mem h') b F_prev_free = 0 \<and> fld (hp_mem h') b F_next_free = 0" if "b \<in> set (us' @ p # vs) - set fs" for b
      using that al [of b] D(6) [of b] sub [of b] by auto
    moreover have "insert p (set fs) = {b \<in> set (us' @ p # vs). fld (hp_mem h') b F_alloc = 0}"
      using al sub D(7) fsub pf by auto
    ultimately have part: "heap_part K h' (us' @ p # vs) fs (insert p (set fs))"
      using hb' f' by (auto simp: heap_part_def)
    have co': "coalesced (set fs) (us' @ p # a # vs)" using co us by simp
    have "us' = [] \<or> last us' \<notin> set fs" using co' pf unfolding coalesced_append by auto
    moreover have "coalesced (set fs - {p}) (us' @ p # vs)"
      using co' unfolding coalesced_append coalesced_Cons by (auto elim: coalesced_mono)
    moreover have "live h' (us' @ p # vs) = live h (us @ a # vs)"
    proof (rule live_cong)
      fix b assume "b \<in> set (us @ a # vs) \<union> set (us' @ p # vs)"
        and one: "b \<in> set (us @ a # vs) \<and> fld (hp_mem h) b F_alloc = 1 \<or> b \<in> set (us' @ p # vs) \<and> fld (hp_mem h') b F_alloc = 1"
      have "fld (hp_mem h) a F_alloc = 0" using D(7) [OF S(2)] by simp
      then have b: "b \<in> set (us' @ p # vs)" using one us by auto
      then have "fld (hp_mem h') b F_alloc = fld (hp_mem h) b F_alloc" using al by simp
      then have "b \<noteq> p" using one b p0 by auto
      then show "b \<in> set (us @ a # vs) \<and> b \<in> set (us' @ p # vs) \<and> fld (hp_mem h') b F_alloc = fld (hp_mem h) b F_alloc
        \<and> fld (hp_mem h') b F_size = fld (hp_mem h) b F_size"
        using b us al fl [of b F_size] sub [OF b] by auto
    qed
    moreover have "a \<noteq> 0" using D(5) by auto
    ultimately show thesis using that [of a p h' us'] run part pf u ctx us by simp blast
  qed
qed

definition finish_free :: "u64 \<Rightarrow> u64 \<Rightarrow> heap \<Rightarrow> heap" where
  "finish_free old c h = (case regroup_after old c h of (old, h) \<Rightarrow> if old = 0 then prepend_free c h else h)"

lemma finish_free_ok:
  assumes hp: "heap_part K h (us @ c # vs) fs (insert c (set fs))" and old: "old = 0 \<longleftrightarrow> c \<notin> set fs"
    and co: "coalesced (set fs - {c}) (us @ c # vs)" and us: "us = [] \<or> last us \<notin> set fs"
  obtains bs' fs' where "heap_rep K (finish_free old c h) bs' fs'" and "live (finish_free old c h) bs' = live h (us @ c # vs)"
    and "untouched (set (us @ c # vs)) (hp_mem h) (hp_mem (finish_free old c h))"
    and "ctx_verify (hp_ctx (finish_free old c h)) = ctx_verify (hp_ctx h)"
proof (cases "vs \<noteq> [] \<and> hd vs \<in> set fs")
  case False
  note D = heap_part_dest [OF hp] and nx = heap_next [OF heap_part_dest(1) [OF hp]]
  let ?S = "set (us @ c # vs)"
  have "regroup_after old c h = (old, h)"
  proof (cases "vs = []")
    case True
    then show ?thesis by (simp add: regroup_after_def nx)
  next
    case ne: False
    then have l: "hd vs \<in> ?S" "hd vs \<noteq> c" using D(4) by (cases vs; auto)+
    then have "fld (hp_mem h) (hd vs) F_alloc \<noteq> 0" using False ne D(7) [OF l(1)] by auto
    then show ?thesis using ne nx(1,8) by (simp add: regroup_after_def)
  qed
  then have fin: "finish_free old c h = (if old = 0 then prepend_free c h else h)" by (simp add: finish_free_def)
  have coc: "coalesced (insert c (set fs)) (us @ c # vs)"
  proof -
    have "c \<notin> set us" "c \<notin> set vs" using D(4) by auto
    then have "coalesced (insert c (set fs)) us" "coalesced (insert c (set fs)) vs"
      using co unfolding coalesced_append coalesced_Cons by (auto elim!: coalesced_mono)
    then show ?thesis using us False \<open>c \<notin> set us\<close> \<open>c \<notin> set vs\<close> unfolding coalesced_append coalesced_Cons
      by (cases "us = []"; cases "vs = []") auto
  qed
  show ?thesis
  proof (cases "old = 0")
    case True
    have c: "c \<in> ?S" "c \<notin> set fs" using True old by auto
    have idle: "fld (hp_mem h) c F_prev_free = 0" using D(6) [OF c] by simp
    note P = prepend_free_fields [OF D(3) D(2) c idle]
    have fs: "set fs \<subseteq> ?S" using D(8) by auto
    have hb': "heap_blocks K (prepend_free c h) (us @ c # vs)"
      by (rule heap_blocks_cong [OF D(1)]) (use D(1) P(2,4) in \<open>auto simp: heap_blocks_def header_ok_def\<close>)
    have "set (c # fs) = {b \<in> ?S. fld (hp_mem (prepend_free c h)) b F_alloc = 0}"
      using P(4) [of _ F_alloc] D(7) fs by auto
    moreover have "\<forall>b \<in> ?S - set (c # fs). fld (hp_mem (prepend_free c h)) b F_prev_free = 0
        \<and> fld (hp_mem (prepend_free c h)) b F_next_free = 0"
      using P(4) D(6) by simp
    ultimately have "heap_part K (prepend_free c h) (us @ c # vs) (c # fs) (set (c # fs))"
      using hb' P(1) by (auto simp: heap_part_def)
    then have "heap_rep K (prepend_free c h) (us @ c # vs) (c # fs)" using coc by (simp add: heap_rep_def)
    moreover have "live (prepend_free c h) (us @ c # vs) = live h (us @ c # vs)"
      by (rule live_cong) (use P(4) in auto)
    moreover have "finish_free old c h = prepend_free c h" using fin True by simp
    ultimately show ?thesis using that [of "us @ c # vs" "c # fs"] P(2,3) by simp
  next
    case False
    then have cf: "insert c (set fs) = set fs" using old by auto
    then have "heap_rep K h (us @ c # vs) fs" using hp coc by (simp add: heap_rep_def)
    then show ?thesis using that [of "us @ c # vs" fs] False by (simp add: fin)
  qed
next
  case True
  define n where "n = hd vs"
  define vs' where "vs' = tl vs"
  have vs: "vs = n # vs'" using True by (simp add: n_def vs'_def)
  have nf: "n \<in> set fs" using True by (simp add: n_def)
  note hp' = hp [unfolded vs]
  note D = heap_part_dest [OF hp'] and nx = heap_next [OF heap_part_dest(1) [OF hp']]
  let ?S = "set (us @ c # n # vs')"
  have S: "c \<in> ?S" "n \<in> ?S" "n \<noteq> c" using D(4) by auto
  note nn = heap_next [of K h "us @ [c]" n vs', simplified append_assoc append.simps, OF D(1)]
  have y: "front vs' 0 \<noteq> c" using D(4,5) by (cases vs') auto
  have cn: "fld (hp_mem h) c F_next = n" using nx(1) by simp
  have n0: "fld (hp_mem h) n F_alloc = 0" "fld (hp_mem h) c F_alloc = 0" using D(7) S nf by auto
  have idle: "fld (hp_mem h) c F_prev_free = 0 \<and> fld (hp_mem h) c F_next_free = 0" if "c \<notin> set fs"
    using D(6) [OF S(1) that] .
  show ?thesis
  proof (rule regroup_after_fields [OF D(3) D(2) nf S(3) S(1) idle cn n0(1) nn(1) nn(3) nn(4) y, where old = old])
    fix h' xs ys
    let ?fs = "xs @ c # ys"
    assume run: "regroup_after old c h = (n, h')" and u: "untouched ?S (hp_mem h) (hp_mem h')"
      and ctx: "hp_ctx h' = (hp_ctx h)\<lparr>ctx_first_free := front ?fs 0\<rparr>"
      and set': "set ?fs = insert c (set fs - {n})" and dist: "distinct ?fs"
      and dll': "dll (\<lambda>b. fld (hp_mem h') b F_prev_free) (\<lambda>b. fld (hp_mem h') b F_next_free) 0 ?fs 0"
      and fl: "\<And>b g. b \<in> ?S \<Longrightarrow> b \<noteq> n \<Longrightarrow> b \<notin> set ?fs \<or> g \<noteq> F_prev_free \<and> g \<noteq> F_next_free \<Longrightarrow> fld (hp_mem h') b g =
        (if b = c \<and> g = F_size then fld (hp_mem h) c F_size + (64 + fld (hp_mem h) n F_size)
         else if b = c \<and> g = F_next then front vs' 0 else if b = front vs' 0 \<and> g = F_prev then c else fld (hp_mem h) b g)"
    have "n \<noteq> 0" using D(5) by auto
    then have fin: "finish_free old c h = h'" using run by (simp add: finish_free_def)
    have sub: "b \<in> ?S \<and> b \<noteq> n" if "b \<in> set (us @ c # vs')" for b using that D(4) by auto
    have al: "fld (hp_mem h') b F_alloc = fld (hp_mem h) b F_alloc" if "b \<in> set (us @ c # vs')" for b
      using fl [of b F_alloc] sub [OF that] by auto
    have hb': "heap_blocks K h' (us @ c # vs')"
    proof (rule merge_blocks(1) [OF D(1)])
      show "fld (hp_mem h') b F_alloc \<in> {0, 1}" if "b \<in> set (us @ c # vs')" for b
        using al [OF that] sub [OF that] D(1) by (auto simp: heap_blocks_def header_ok_def)
      show "fld (hp_mem h') b g =
        (if b = c \<and> g = F_size then fld (hp_mem h) c F_size + (64 + fld (hp_mem h) n F_size)
         else if b = c \<and> g = F_next then front vs' 0 else if b = front vs' 0 \<and> g = F_prev then c else fld (hp_mem h) b g)"
        if "b \<in> set (us @ c # vs')" "g \<in> {F_magic1, F_size, F_prev, F_next, F_magic2}" for b g
        by (rule fl) (use sub [OF that(1)] that(2) in auto)
    qed (simp_all add: ctx)
    have fsub: "set ?fs \<subseteq> set (us @ c # vs')" using D(8) set' by auto
    have f': "free_list (set (us @ c # vs')) h' ?fs" using dll' dist fsub ctx by (simp add: free_list_def)
    have "fld (hp_mem h') b F_prev_free = 0 \<and> fld (hp_mem h') b F_next_free = 0" if "b \<in> set (us @ c # vs') - set ?fs" for b
      using that fl [of b] D(6) [of b] sub [of b] set' by auto
    moreover have "set ?fs = {b \<in> set (us @ c # vs'). fld (hp_mem h') b F_alloc = 0}"
    proof -
      have "fld (hp_mem h') b F_alloc = 0 \<longleftrightarrow> b \<in> insert c (set fs)" if "b \<in> set (us @ c # vs')" for b
        unfolding al [OF that] by (rule D(7)) (use sub [OF that] in blast)
      then have "{b \<in> set (us @ c # vs'). fld (hp_mem h') b F_alloc = 0} = set (us @ c # vs') \<inter> insert c (set fs)"
        by auto
      moreover have "n \<notin> set (us @ c # vs')" using D(4) by auto
      ultimately show ?thesis using fsub set' by auto
    qed
    ultimately have part: "heap_part K h' (us @ c # vs') ?fs (set ?fs)"
      using hb' f' by (auto simp: heap_part_def)
    have coc: "coalesced (set ?fs) (us @ c # vs')"
    proof -
      have co': "coalesced (set fs - {c}) us" "coalesced (set fs - {c}) (n # vs')"
        using co unfolding vs coalesced_append coalesced_Cons by auto
      have cus: "c \<notin> set us" "c \<notin> set vs'" using D(4) by auto
      have "coalesced (set ?fs) us" "coalesced (set ?fs) vs'"
        using co' cus set' unfolding coalesced_Cons by (auto elim!: coalesced_mono)
      moreover have "vs' = [] \<or> hd vs' \<notin> set ?fs"
        using co'(2) nf S(3) set' cus unfolding coalesced_Cons by (cases vs') auto
      moreover have "us = [] \<or> last us \<notin> set ?fs" using us set' cus by (cases "us = []") auto
      ultimately show ?thesis unfolding coalesced_append coalesced_Cons by auto
    qed
    have "live h' (us @ c # vs') = live h (us @ c # vs)"
    proof (rule live_cong)
      fix b assume "b \<in> set (us @ c # vs) \<union> set (us @ c # vs')"
        and one: "b \<in> set (us @ c # vs) \<and> fld (hp_mem h) b F_alloc = 1 \<or> b \<in> set (us @ c # vs') \<and> fld (hp_mem h') b F_alloc = 1"
      have b: "b \<in> set (us @ c # vs')" using one vs n0 by auto
      then have "b \<noteq> c" using one al [OF b] n0 by auto
      then show "b \<in> set (us @ c # vs) \<and> b \<in> set (us @ c # vs') \<and> fld (hp_mem h') b F_alloc = fld (hp_mem h) b F_alloc
        \<and> fld (hp_mem h') b F_size = fld (hp_mem h) b F_size"
        using b vs al fl [of b F_size] sub [OF b] by auto
    qed
    then show thesis
      using that [of "us @ c # vs'" ?fs] part coc u ctx vs by (simp add: fin heap_rep_def)
  qed
qed

section \<open>Release\<close>

lemma free_in_buffer:
  assumes hb: "heap_blocks K h bs" and a: "a \<in> set bs"
  shows "ctx_buf (hp_ctx h) \<le> a + 64" and "0 < block_size h a \<Longrightarrow> a + 64 < ctx_buf (hp_ctx h) + ctx_len (hp_ctx h)"
    and "a + 64 \<noteq> 0" and "ctx_buf (hp_ctx h) \<noteq> 0" and "ctx_first (hp_ctx h) \<noteq> 0"
proof -
  note b = block_bound [OF hb a]
  obtain c cs where bs: "bs = c # cs" using hb by (cases bs) (auto simp: heap_blocks_def)
  have buf: "ctx_buf (hp_ctx h) = c" "ctx_first (hp_ctx h) = c" "c \<noteq> 0" using hb bs by (auto simp: heap_blocks_def)
  have "unat c \<le> unat a" using tiles_within [of "block_size h" bs "heap_end h" a] hb a bs by (auto simp: heap_blocks_def)
  then show "ctx_buf (hp_ctx h) \<le> a + 64" using b buf by (simp add: word_le_nat_alt)
  have "unat (ctx_buf (hp_ctx h) + ctx_len (hp_ctx h)) = heap_end h"
    using b(3) by (simp add: heap_end_def unat_add_lem [THEN iffD1])
  then show "0 < block_size h a \<Longrightarrow> a + 64 < ctx_buf (hp_ctx h) + ctx_len (hp_ctx h)"
    using b by (simp add: word_less_nat_alt)
  show "a + 64 \<noteq> 0" "ctx_buf (hp_ctx h) \<noteq> 0" "ctx_first (hp_ctx h) \<noteq> 0" using b buf by simp_all
qed

lemma free_unfold:
  assumes "ctx_buf (hp_ctx h) \<le> p" "p < ctx_buf (hp_ctx h) + ctx_len (hp_ctx h)" "p \<noteq> 0" "ctx_buf (hp_ctx h) \<noteq> 0"
      "ctx_first (hp_ctx h) \<noteq> 0"
    and "verify_header (hp_mem h) (p - 64) = 0" and "fld (hp_mem h) (p - 64) F_alloc = 1"
    and run: "regroup_before (p - 64) (upd (p - 64) F_alloc 0 h) = (old, c, h1)"
  shows "buffer_alloc_free_with_heap K p h = (let h' = finish_free old c h1
    in if ctx_verify (hp_ctx h') AND MEMORY_VERIFY_FREE K \<noteq> 0
       then do { r \<leftarrow> verify_chain h'; assert_c (r \<noteq> 0); Some h' } else Some h')"
proof (cases "regroup_after old c h1")
  case (Pair o2 h2)
  then show ?thesis
    using assms by (simp add: buffer_alloc_free_with_heap_def finish_free_def Let_def sizeof_header_def not_less not_le)
qed

lemma free_ok:
  assumes r: "heap_rep K h bs fs" and l: "live h bs p = Some k" and v: "ctx_verify (hp_ctx h) AND MEMORY_VERIFY_FREE K = 0"
  shows "\<exists>h' bs' fs'. buffer_alloc_free_with_heap K p h = Some h' \<and> heap_rep K h' bs' fs'
    \<and> live h' bs' = (live h bs)(p := None) \<and> payload_kept ((live h bs)(p := None)) (hp_mem h) (hp_mem h')"
proof -
  from l obtain a where a: "p = a + 64" "a \<in> set bs" "fld (hp_mem h) a F_alloc = 1" by (rule live_cases)
  obtain us vs where bs: "bs = us @ a # vs" using a(2) by (meson split_list)
  have hb: "heap_blocks K h bs" and f: "free_list (set bs) h fs"
    and F: "set fs = {b \<in> set bs. fld (hp_mem h) b F_alloc = 0}" and co: "coalesced (set fs) bs"
    and idle: "\<forall>b \<in> set bs - set fs. fld (hp_mem h) b F_prev_free = 0 \<and> fld (hp_mem h) b F_next_free = 0"
    using r by (auto simp: heap_rep_def heap_part_def)
  note H = heap_blocks_headers [OF hb]
  define h0 where "h0 = upd a F_alloc 0 h"
  have af: "a \<notin> set fs" using F a(3) by auto
  have fl: "fld (hp_mem h0) b g = (if b = a \<and> g = F_alloc then 0 else fld (hp_mem h) b g)" if "b \<in> set bs" for b g
    using that a(2) by (auto simp: h0_def fld_upd [OF H])
  have hb0: "heap_blocks K h0 bs"
    by (rule heap_blocks_cong [OF hb]) (use hb fl in \<open>auto simp: heap_blocks_def header_ok_def, auto simp: h0_def\<close>)
  have f0: "free_list (set bs) h0 fs"
    using f free_list_upd [OF H a(2), of fs F_alloc 0 h] by (simp add: h0_def free_list_def)
  have "insert a (set fs) = {b \<in> set bs. fld (hp_mem h0) b F_alloc = 0}"
    using F a(2) fl by (auto split: if_splits)
  then have part: "heap_part K h0 (us @ a # vs) fs (insert a (set fs))"
    using hb0 f0 idle fl unfolding bs by (auto simp: heap_part_def)
  have live0: "live h0 bs = (live h bs)(p := None)"
    by (rule live_eqI) (use a fl in \<open>auto simp: live_at split: if_splits\<close>)
  show ?thesis
  proof (rule regroup_before_ok [OF part af co [unfolded bs]])
    fix old c h1 us'
    assume run1: "regroup_before a h0 = (old, c, h1)" and p1: "heap_part K h1 (us' @ c # vs) fs (insert c (set fs))"
      and o: "old = 0 \<longleftrightarrow> c \<notin> set fs" and co1: "coalesced (set fs - {c}) (us' @ c # vs)" and us': "us' = [] \<or> last us' \<notin> set fs"
      and l1: "live h1 (us' @ c # vs) = live h0 (us @ a # vs)" and u1: "untouched (set (us @ a # vs)) (hp_mem h0) (hp_mem h1)"
      and s1: "set (us' @ c # vs) \<subseteq> set (us @ a # vs)" and ctx1: "hp_ctx h1 = hp_ctx h0"
    show ?thesis
    proof (rule finish_free_ok [OF p1 o co1 us'])
      fix bs' fs'
      let ?h = "finish_free old c h1"
      assume r': "heap_rep K ?h bs' fs'" and l': "live ?h bs' = live h1 (us' @ c # vs)"
        and u': "untouched (set (us' @ c # vs)) (hp_mem h1) (hp_mem ?h)" and v': "ctx_verify (hp_ctx ?h) = ctx_verify (hp_ctx h1)"
      have L: "live ?h bs' = (live h bs)(p := None)" using l' l1 live0 bs by simp
      have "untouched (set bs) (hp_mem h) (hp_mem h0)" using a(2) by (simp add: h0_def)
      moreover have "untouched (set bs) (hp_mem h1) (hp_mem ?h)" using u' s1 unfolding untouched_def bs by blast
      ultimately have u: "untouched (set bs) (hp_mem h) (hp_mem ?h)" using u1 unfolding bs by (meson untouched_trans)
      have kept: "payload_kept ((live h bs)(p := None)) (hp_mem h) (hp_mem ?h)"
        by (rule untouched_payload [OF hb u]) (auto simp: map_le_def)
      have "fld (hp_mem h) a F_size \<noteq> 0" using hb a(2) by (auto simp: heap_blocks_def header_ok_def)
      then have "0 < block_size h a" by (simp add: block_size_def unat_gt_0)
      then have "ctx_buf (hp_ctx h) \<le> p" "p < ctx_buf (hp_ctx h) + ctx_len (hp_ctx h)" "p \<noteq> 0"
          "ctx_buf (hp_ctx h) \<noteq> 0" "ctx_first (hp_ctx h) \<noteq> 0"
        using free_in_buffer [OF hb a(2)] a(1) by auto
      moreover have "verify_header (hp_mem h) a = 0" by (rule heap_rep_header [OF r a(2)])
      moreover have "ctx_verify (hp_ctx ?h) = ctx_verify (hp_ctx h)" using v' ctx1 by (simp add: h0_def)
      ultimately have "buffer_alloc_free_with_heap K p h = Some ?h"
        using v a(1,3) run1 free_unfold [of h p old c h1 K] by (simp add: h0_def Let_def)
      then show ?thesis using r' L kept by blast
    qed
  qed
qed

end
