(* ===== verification/Heap_Properties.thy ===== *)
theory Heap_Properties
  imports Heap_Free_Correct
begin

text \<open>
  The allocator as its client sees it: a map from addresses to sizes, and ranges of bytes that
  belong to nobody else.
\<close>

section \<open>A new heap\<close>

lemma align_up:
  fixes buf al len :: u64
  assumes al: "al \<noteq> 0" "unat al \<le> 64" and len: "\<not> len < 64 + al" and fit: "unat buf + unat len < 2 ^ 64"
    and mis: "buf mod al \<noteq> 0"
  defines "d \<equiv> al - buf mod al"
  shows "unat (buf + d) mod unat al = 0" and "unat (buf + d) = unat buf + unat d"
    and "unat (len - d) = unat len - unat d" and "unat d < unat al" and "64 + unat al \<le> unat len"
proof -
  have r: "unat (buf mod al) < unat al" using al by (simp add: unat_mod_distrib unat_gt_0)
  have r0: "0 < unat (buf mod al)" using mis by (simp add: unat_gt_0)
  have d: "unat d = unat al - unat buf mod unat al"
    using r by (simp add: d_def unat_sub word_le_nat_alt unat_mod_distrib)
  show dl: "unat d < unat al" using d r r0 unfolding unat_mod_distrib by linarith
  have "unat (64 + al) = 64 + unat al" using al by (subst unat_add_lem [THEN iffD1]) simp_all
  then show ln: "64 + unat al \<le> unat len" using len by (simp add: word_less_nat_alt)
  have "unat buf + unat d < 2 ^ 64" using fit ln dl by linarith
  then show s: "unat (buf + d) = unat buf + unat d" by (subst unat_add_lem [THEN iffD1]) simp_all
  have "unat buf + unat d = unat al * (unat buf div unat al) + unat al"
    using d r mult_div_mod_eq [of "unat al" "unat buf"] unfolding unat_mod_distrib by linarith
  then show "unat (buf + d) mod unat al = 0" using s by simp
  show "unat (len - d) = unat len - unat d" by (rule unat_sub) (use ln dl in \<open>simp add: word_le_nat_alt\<close>)
qed

lemma init_at:
  assumes b: "buf \<noteq> 0" "unat buf + unat len < 2 ^ 64" "unat buf mod unat (MEMORY_ALIGN_MULTIPLE K) = 0" and len: "64 < unat len"
    and h': "hp_ctx h' = \<lparr>ctx_buf = buf, ctx_len = len, ctx_first = buf, ctx_first_free = buf, ctx_verify = 0\<rparr>"
      "hp_mem h' = fld_set buf F_magic2 MAGIC2 (fld_set buf F_magic1 MAGIC1
         (fld_set buf F_size (len - 64) (memset0 buf len m)))"
  shows "heap_rep K h' [buf] [buf]" and "live h' [buf] = Map.empty"
proof -
  have z: "fld (memset0 buf len m) buf g = 0" for g
  proof (rule fld_zero)
    fix x assume "x - buf < 64"
    then have "unat (x - buf) < unat len" using len by (simp add: word_less_nat_alt)
    then show "memset0 buf len m x = 0" by (simp add: memset0_def word_less_nat_alt)
  qed
  have far: "far buf buf" by (simp add: far_def)
  have fl: "fld (hp_mem h') buf g = (case g of F_magic1 \<Rightarrow> MAGIC1 | F_magic2 \<Rightarrow> MAGIC2 | F_size \<Rightarrow> len - 64 | _ \<Rightarrow> 0)" for g
    by (cases g) (simp_all add: h'(2) fld_set [OF far] z)
  have sz: "unat (len - 64) = unat len - 64" by (subst unat_sub) (use len in \<open>simp_all add: word_le_nat_alt\<close>)
  then have "len - 64 \<noteq> 0" using len by auto
  then have "heap_blocks K h' [buf]"
    using b sz len by (auto simp: heap_blocks_def h'(1) fl heap_end_def tiles_Cons block_size_def header_ok_def)
  then show "heap_rep K h' [buf] [buf]"
    by (auto simp: heap_rep_def heap_part_def free_list_def h'(1) fl coalesced_def)
  show "live h' [buf] = Map.empty" by (auto simp: live_def fun_eq_iff fl)
qed

lemma init_ok:
  assumes K: "params_ok K" and b: "buf \<noteq> 0" "unat buf + unat len < 2 ^ 64" and len: "\<not> len < 64 + MEMORY_ALIGN_MULTIPLE K"
  shows "\<exists>a. heap_rep K (buffer_alloc_init K buf len h) [a] [a] \<and> live (buffer_alloc_init K buf len h) [a] = Map.empty
    \<and> ctx_verify (hp_ctx (buffer_alloc_init K buf len h)) = 0"
proof -
  let ?al = "MEMORY_ALIGN_MULTIPLE K"
  have al: "?al \<noteq> 0" "unat ?al \<le> 64" using K by (auto simp: params_ok_def mod_eq_0_iff_dvd dvd_imp_le)
  show ?thesis
  proof (cases "buf mod ?al = 0")
    case True
    have "unat (64 + ?al) = 64 + unat ?al" using al by (subst unat_add_lem [THEN iffD1]) simp_all
    moreover have "0 < unat ?al" using al(1) by (simp add: unat_gt_0)
    ultimately have "64 < unat len" using len by (simp add: word_less_nat_alt)
    moreover have "unat buf mod unat ?al = 0" using True by (simp add: word_unat_eq_iff unat_mod_distrib)
    ultimately show ?thesis
      using init_at [of buf len K "buffer_alloc_init K buf len h" "hp_mem h"] b len True
      by (auto simp: buffer_alloc_init_def Let_def sizeof_header_def ctx_zero_def set_first_free_def)
  next
    case False
    let ?d = "?al - buf mod ?al"
    note A = align_up [OF al len b(2) False]
    have "buf + ?d \<noteq> 0" using A(2) b(1) by (auto simp: word_unat_eq_iff)
    moreover have "unat (buf + ?d) + unat (len - ?d) < 2 ^ 64" using A(2-5) b(2) by simp
    moreover have "64 < unat (len - ?d)" using A(3-5) by simp
    ultimately show ?thesis
      using init_at [of "buf + ?d" "len - ?d" K "buffer_alloc_init K buf len h" "hp_mem h"] A(1) len False
      by (auto simp: buffer_alloc_init_def Let_def sizeof_header_def ctx_zero_def set_first_free_def)
  qed
qed

section \<open>The contract of an allocator\<close>

locale allocator =
  fixes holds :: "'h \<Rightarrow> (u64 \<rightharpoonup> u64) \<Rightarrow> bool" and bytes :: "'h \<Rightarrow> bytemem"
    and get :: "u64 \<Rightarrow> u64 \<Rightarrow> 'h \<Rightarrow> (u64 \<times> 'h) option" and give :: "u64 \<Rightarrow> 'h \<Rightarrow> 'h option"
  assumes get_ok: "holds h L \<Longrightarrow> \<exists>p h'. get n sz h = Some (p, h') \<and> (p = 0 \<and> h' = h \<or>
      (\<exists>k. L p = None \<and> n * sz \<le> k \<and> holds h' (L(p \<mapsto> k)) \<and> payload_kept L (bytes h) (bytes h')
         \<and> (\<forall>x. x - p < n * sz \<longrightarrow> bytes h' x = 0)))"
    and give_ok: "holds h L \<Longrightarrow> L p = Some k \<Longrightarrow> \<exists>h'. give p h = Some h' \<and> holds h' (L(p := None))
      \<and> payload_kept (L(p := None)) (bytes h) (bytes h')"
    and separate: "holds h L \<Longrightarrow> L p = Some j \<Longrightarrow> L q = Some k \<Longrightarrow> p \<noteq> q \<Longrightarrow> x - p < j \<Longrightarrow> \<not> x - q < k"
begin

lemma get_result:
  assumes "holds h L" and "get n sz h = Some (p, h')" and "p \<noteq> 0"
  obtains k where "L p = None" "n * sz \<le> k" "holds h' (L(p \<mapsto> k))" "payload_kept L (bytes h) (bytes h')"
    "\<And>x. x - p < n * sz \<Longrightarrow> bytes h' x = 0"
  using get_ok [OF assms(1), of n sz] assms(2,3) by auto

text \<open>Two allocations share no byte, and the release of the first leaves the second alone.\<close>

lemma two_allocations:
  assumes h: "holds h L" and p: "get n sz h = Some (p, h1)" "p \<noteq> 0" and q: "get n' sz' h1 = Some (q, h2)" "q \<noteq> 0"
  shows "(\<nexists>x. x - p < n * sz \<and> x - q < n' * sz') \<and>
    (\<exists>h3. give p h2 = Some h3 \<and> (\<nexists>x. x - q < n' * sz' \<and> bytes h3 x \<noteq> 0))"
proof -
  from get_result [OF h p] obtain k where k: "n * sz \<le> k" and h1: "holds h1 (L(p \<mapsto> k))" by blast
  from get_result [OF h1 q] obtain j where j: "(L(p \<mapsto> k)) q = None" "n' * sz' \<le> j"
    and h2: "holds h2 (L(p \<mapsto> k, q \<mapsto> j))" and zero: "\<And>x. x - q < n' * sz' \<Longrightarrow> bytes h2 x = 0" by blast
  have pq: "p \<noteq> q" using j(1) by auto
  have L: "(L(p \<mapsto> k, q \<mapsto> j)) p = Some k" "(L(p \<mapsto> k, q \<mapsto> j)) q = Some j" using pq by auto
  have "\<not> x - q < n' * sz'" if "x - p < n * sz" for x
    using separate [OF h2 L pq, of x] that k j(2) by (meson less_le_trans)
  moreover obtain h3 where h3: "give p h2 = Some h3" "payload_kept ((L(p \<mapsto> k, q \<mapsto> j))(p := None)) (bytes h2) (bytes h3)"
    using give_ok [OF h2 L(1)] by blast
  moreover have "bytes h3 x = 0" if "x - q < n' * sz'" for x
  proof -
    have "x - q < j" using that j(2) by (rule less_le_trans)
    moreover have "((L(p \<mapsto> k, q \<mapsto> j))(p := None)) q = Some j" using pq by simp
    ultimately have "bytes h3 x = bytes h2 x" using h3(2) unfolding payload_kept_def by blast
    then show ?thesis using zero [OF that] by simp
  qed
  ultimately show ?thesis by blast
qed

end

definition heap_holds :: "alloc_params \<Rightarrow> heap \<Rightarrow> (u64 \<rightharpoonup> u64) \<Rightarrow> bool" where
  "heap_holds K h L \<longleftrightarrow> params_ok K \<and> ctx_verify (hp_ctx h) = 0 \<and> (\<exists>bs fs. heap_rep K h bs fs \<and> L = live h bs)"

lemma heap_separate:
  assumes hb: "heap_blocks K h bs" and p: "live h bs p = Some j" and q: "live h bs q = Some k" and ne: "p \<noteq> q" and x: "x - p < j"
  shows "\<not> x - q < k"
proof
  assume x': "x - q < k"
  from p obtain a where a: "p = a + 64" "a \<in> set bs" "j = fld (hp_mem h) a F_size" by (rule live_cases)
  from q obtain b where b: "q = b + 64" "b \<in> set bs" "k = fld (hp_mem h) b F_size" by (rule live_cases)
  have "0 < j" "0 < k" using x x' by (auto simp: word_gt_0)
  then have "apart (a + 64) j (b + 64) k" using payloads_apart [OF hb a(2) b(2)] ne a b by auto
  then show False using apart_in [OF _ x' [unfolded b(1)]] x a(1) by blast
qed

text \<open>The operations leave the verification flags alone.\<close>

lemma set_first_free_verify [simp]: "ctx_verify (hp_ctx (set_first_free p h)) = ctx_verify (hp_ctx h)"
  by (simp add: set_first_free_def)

lemma link_free_verify [simp]:
  "ctx_verify (hp_ctx (unlink_free c h)) = ctx_verify (hp_ctx h)"
  "ctx_verify (hp_ctx (link_free c n h)) = ctx_verify (hp_ctx h)"
  by (simp_all add: unlink_free_def link_free_def Let_def)

lemma block_verify [simp]:
  "ctx_verify (hp_ctx (take_block c h)) = ctx_verify (hp_ctx h)"
  "ctx_verify (hp_ctx (split_block c len h)) = ctx_verify (hp_ctx h)"
  "ctx_verify (hp_ctx (prepend_free c h)) = ctx_verify (hp_ctx h)"
  by (simp_all add: take_block_def split_block_def prepend_free_def Let_def)

lemma regroup_verify:
  "regroup_before a h = (o', c, h') \<Longrightarrow> ctx_verify (hp_ctx h') = ctx_verify (hp_ctx h)"
  "regroup_after o' c h = (o2, h2) \<Longrightarrow> ctx_verify (hp_ctx h2) = ctx_verify (hp_ctx h)"
  by (auto simp: regroup_before_def regroup_after_def Let_def split: if_splits)

lemma calloc_verify:
  "buffer_alloc_calloc_with_heap K n sz h = Some (p, h') \<Longrightarrow> ctx_verify (hp_ctx h') = ctx_verify (hp_ctx h)"
  by (auto simp: buffer_alloc_calloc_with_heap_def Let_def Option.bind_eq_Some_conv split: if_splits)

lemma free_verify:
  "buffer_alloc_free_with_heap K p h = Some h' \<Longrightarrow> ctx_verify (hp_ctx h') = ctx_verify (hp_ctx h)"
  by (auto simp: buffer_alloc_free_with_heap_def Let_def Option.bind_eq_Some_conv dest!: regroup_verify split: if_splits prod.splits)

interpretation heap: allocator "heap_holds K" hp_mem "buffer_alloc_calloc_with_heap K" "buffer_alloc_free_with_heap K"
proof
  fix h L n sz assume "heap_holds K h L"
  then obtain bs fs where K: "params_ok K" and v: "ctx_verify (hp_ctx h) = 0" and r: "heap_rep K h bs fs" and L: "L = live h bs"
    by (auto simp: heap_holds_def)
  show "\<exists>p h'. buffer_alloc_calloc_with_heap K n sz h = Some (p, h') \<and> (p = 0 \<and> h' = h \<or>
      (\<exists>k. L p = None \<and> n * sz \<le> k \<and> heap_holds K h' (L(p \<mapsto> k)) \<and> payload_kept L (hp_mem h) (hp_mem h')
         \<and> (\<forall>x. x - p < n * sz \<longrightarrow> hp_mem h' x = 0)))"
  proof (cases "block_found K n sz h (round_len K (n * sz)) fs")
    case True
    with calloc_ok [OF r K, of n sz] obtain p h' bs' fs' where run: "buffer_alloc_calloc_with_heap K n sz h = Some (p, h')"
      and r': "heap_rep K h' bs' fs'" and al: "allocates K n sz (live h bs) (hp_mem h) p (live h' bs') (hp_mem h')" by auto
    have "ctx_verify (hp_ctx h') = 0" using calloc_verify [OF run] v by simp
    then have "heap_holds K h' (live h' bs')" using K r' by (auto simp: heap_holds_def)
    then show ?thesis using run al unfolding allocates_def L by auto
  next
    case False
    then show ?thesis using calloc_ok [OF r K, of n sz] by simp
  qed
next
  fix h L p k assume "heap_holds K h L" and l: "L p = Some k"
  then obtain bs fs where K: "params_ok K" and v: "ctx_verify (hp_ctx h) = 0" and r: "heap_rep K h bs fs" and L: "L = live h bs"
    by (auto simp: heap_holds_def)
  from free_ok [OF r l [unfolded L]] v obtain h' bs' fs' where run: "buffer_alloc_free_with_heap K p h = Some h'"
    and r': "heap_rep K h' bs' fs'" and l': "live h' bs' = (live h bs)(p := None)"
    and kept: "payload_kept ((live h bs)(p := None)) (hp_mem h) (hp_mem h')" by auto
  have "ctx_verify (hp_ctx h') = 0" using free_verify [OF run] v by simp
  then have "heap_holds K h' (L(p := None))" using K r' l' by (auto simp: heap_holds_def L)
  then show "\<exists>h'. buffer_alloc_free_with_heap K p h = Some h' \<and> heap_holds K h' (L(p := None))
      \<and> payload_kept (L(p := None)) (hp_mem h) (hp_mem h')"
    using run kept by (auto simp: L)
next
  fix h L p j q k x
  assume "heap_holds K h L" "L p = Some j" "L q = Some k" "p \<noteq> q" "x - p < j"
  then obtain bs fs where r: "heap_rep K h bs fs" and L: "live h bs p = Some j" "live h bs q = Some k"
      and x: "p \<noteq> q" "x - p < j" by (auto simp: heap_holds_def)
  have "heap_blocks K h bs" using r by (auto simp: heap_rep_def heap_part_def)
  then show "\<not> x - q < k" by (rule heap_separate [OF _ L x])
qed

section \<open>Properties\<close>

definition sample_params :: alloc_params where
  "sample_params = \<lparr>MEMORY_ALIGN_MULTIPLE = 4, MEMORY_VERIFY_ALLOC = 1, MEMORY_VERIFY_FREE = 2\<rparr>"

definition sample_heap :: heap where
  "sample_heap = buffer_alloc_init sample_params 0x80010001 0x2000 \<lparr>hp_ctx = ctx_zero, hp_mem = (\<lambda>_. 0)\<rparr>"

lemma sample_heap_holds: "heap_holds sample_params sample_heap Map.empty"
proof -
  have "params_ok sample_params" by (simp add: params_ok_def sample_params_def)
  moreover from this have "\<exists>a. heap_rep sample_params sample_heap [a] [a] \<and> live sample_heap [a] = Map.empty
      \<and> ctx_verify (hp_ctx sample_heap) = 0"
    unfolding sample_heap_def by (rule init_ok) (simp_all add: sample_params_def)
  ultimately show ?thesis unfolding heap_holds_def by metis
qed

lemma sample_allocations:
  "do { (p, h1) \<leftarrow> buffer_alloc_calloc_with_heap sample_params 3 5 sample_heap;
        (q, h2) \<leftarrow> buffer_alloc_calloc_with_heap sample_params 1 100 h1; Some (p, q) } = Some (0x80010044, 0x80010094)"
  by code_simp

lemma sample_runs:
  obtains h1 h2 where "buffer_alloc_calloc_with_heap sample_params 3 5 sample_heap = Some (0x80010044, h1)"
    "buffer_alloc_calloc_with_heap sample_params 1 100 h1 = Some (0x80010094, h2)"
  using sample_allocations by (auto simp: Option.bind_eq_Some_conv)

text \<open>
  C14: An allocation returns.  It refuses and changes nothing, always if a factor is zero or
  their product wraps around, or it hands out an aligned range that is zero, long enough and
  not in use, and keeps every byte in use.
\<close>

theorem heap_calloc_correct:
  assumes "heap_holds K h L"
  shows "case buffer_alloc_calloc_with_heap K n sz h of None \<Rightarrow> False
    | Some (p, h') \<Rightarrow> if p = 0 then h' = h
        else \<exists>k. heap_holds K h' (L(p \<mapsto> k)) \<and> allocates K n sz L (hp_mem h) p (L(p \<mapsto> k)) (hp_mem h')"
proof -
  obtain bs fs where K: "params_ok K" and v: "ctx_verify (hp_ctx h) = 0" and r: "heap_rep K h bs fs" and L: "L = live h bs"
    using assms by (auto simp: heap_holds_def)
  show ?thesis
  proof (cases "block_found K n sz h (round_len K (n * sz)) fs")
    case True
    with calloc_ok [OF r K, of n sz] obtain p h' bs' fs' where run: "buffer_alloc_calloc_with_heap K n sz h = Some (p, h')"
      and r': "heap_rep K h' bs' fs'" and al: "allocates K n sz (live h bs) (hp_mem h) p (live h' bs') (hp_mem h')" by auto
    have "heap_holds K h' (live h' bs')" using K r' calloc_verify [OF run] v by (auto simp: heap_holds_def)
    moreover obtain k where "live h' bs' = L(p \<mapsto> k)" using al by (auto simp: allocates_def L)
    moreover have "p \<noteq> 0" using al by (simp add: allocates_def)
    ultimately show ?thesis using run al by (auto simp: L)
  next
    case False
    then show ?thesis using calloc_ok [OF r K, of n sz] by simp
  qed
qed

theorem heap_calloc_correct_witness:
  "case buffer_alloc_calloc_with_heap sample_params 3 5 sample_heap of None \<Rightarrow> False
    | Some (p, h') \<Rightarrow> if p = 0 then h' = sample_heap
        else \<exists>k. heap_holds sample_params h' [p \<mapsto> k]
          \<and> allocates sample_params 3 5 Map.empty (hp_mem sample_heap) p [p \<mapsto> k] (hp_mem h')"
  by (rule heap_calloc_correct [OF sample_heap_holds])

text \<open>
  C15: The release of a range that is in use returns, takes exactly this range out of use and
  keeps every byte of the others.
\<close>

theorem heap_free_correct:
  assumes "heap_holds K h L" and "L p = Some k"
  shows "case buffer_alloc_free_with_heap K p h of None \<Rightarrow> False
    | Some h' \<Rightarrow> heap_holds K h' (L(p := None)) \<and> payload_kept (L(p := None)) (hp_mem h) (hp_mem h')"
  using heap.give_ok [OF assms] by auto

theorem heap_free_correct_witness:
  "\<exists>h1 k. buffer_alloc_calloc_with_heap sample_params 3 5 sample_heap = Some (0x80010044, h1)
    \<and> (case buffer_alloc_free_with_heap sample_params 0x80010044 h1 of None \<Rightarrow> False
        | Some h' \<Rightarrow> heap_holds sample_params h' ([0x80010044 \<mapsto> k](0x80010044 := None))
            \<and> payload_kept ([0x80010044 \<mapsto> k](0x80010044 := None)) (hp_mem h1) (hp_mem h'))"
proof -
  obtain h1 where run: "buffer_alloc_calloc_with_heap sample_params 3 5 sample_heap = Some (0x80010044, h1)"
    by (rule sample_runs)
  from heap.get_result [OF sample_heap_holds run] obtain k where "heap_holds sample_params h1 [0x80010044 \<mapsto> k]" by auto
  from heap_free_correct [OF this, where p = "0x80010044"] show ?thesis using run by auto
qed

text \<open>
  C16: Two successful allocations share no byte; when the first one is released, the second is
  still all zero.
\<close>

theorem heap_allocations_apart:
  assumes "heap_holds K h L" and "buffer_alloc_calloc_with_heap K n sz h = Some (p, h1)" and "p \<noteq> 0"
    and "buffer_alloc_calloc_with_heap K n' sz' h1 = Some (q, h2)" and "q \<noteq> 0"
  shows "(\<nexists>x. x - p < n * sz \<and> x - q < n' * sz') \<and>
    (\<exists>h3. buffer_alloc_free_with_heap K p h2 = Some h3 \<and> (\<nexists>x. x - q < n' * sz' \<and> hp_mem h3 x \<noteq> 0))"
  by (rule heap.two_allocations [OF assms])

theorem heap_allocations_apart_witness:
  "(\<nexists>x :: u64. x - 0x80010044 < 3 * 5 \<and> x - 0x80010094 < 1 * 100) \<and>
    (\<exists>h2 h3. buffer_alloc_free_with_heap sample_params 0x80010044 h2 = Some h3
       \<and> (\<nexists>x. x - 0x80010094 < 1 * 100 \<and> hp_mem h3 x \<noteq> 0))"
proof -
  obtain h1 h2 where "buffer_alloc_calloc_with_heap sample_params 3 5 sample_heap = Some (0x80010044, h1)"
    "buffer_alloc_calloc_with_heap sample_params 1 100 h1 = Some (0x80010094, h2)"
    by (rule sample_runs)
  from heap_allocations_apart [OF sample_heap_holds this(1) _ this(2)] show ?thesis by auto
qed

end
