(* ===== verification/El3_Attest.thy ===== *)
theory El3_Attest
  imports Slot_Xlat Heap_Alloc Rsi_Attest
begin

text \<open>
  The interface to EL3 (lib/rmm_el3_ifc): the check of the boot arguments and of the manifest and
  the requests through the shared buffer; and what the monitor sets up at boot with it, the
  random number generators and the attestation key and token (lib/attestation:
  attestation_rnd.c, attestation_key.c, attestation_utils.c).

  A boot that ends in a report to EL3, which never returns, is \<open>Inl\<close> of the code reported;
  \<^verbatim>\<open>None\<close> is a panic, a failed assertion or an access outside a buffer.  The build of the model
  leaves the floating point unit of the monitor unused (\<^verbatim>\<open>RMM_FPU_USE_AT_REL2\<close> is off).

  The last two sections show that the buffer shared with EL3 is given back on every path and
  that the initialisation returns, with a key and a token or without any.
\<close>

section \<open>The interface to EL3 (rmm_el3_ifc.h)\<close>

definition E_RMM_BOOT_SUCCESS :: u64 where [word_consts]: "E_RMM_BOOT_SUCCESS = 0"
definition E_RMM_BOOT_VERSION_MISMATCH :: u64 where [word_consts]: "E_RMM_BOOT_VERSION_MISMATCH = - 2"
definition E_RMM_BOOT_CPUS_OUT_OF_RANGE :: u64 where [word_consts]: "E_RMM_BOOT_CPUS_OUT_OF_RANGE = - 3"
definition E_RMM_BOOT_CPU_ID_OUT_OF_RANGE :: u64 where [word_consts]: "E_RMM_BOOT_CPU_ID_OUT_OF_RANGE = - 4"
definition E_RMM_BOOT_INVALID_SHARED_POINTER :: u64 where
  [word_consts]: "E_RMM_BOOT_INVALID_SHARED_POINTER = - 5"
definition E_RMM_BOOT_MANIFEST_VERSION_NOT_SUPPORTED :: u64 where
  [word_consts]: "E_RMM_BOOT_MANIFEST_VERSION_NOT_SUPPORTED = - 6"

definition RMM_EL3_IFC_GET_VERS_MAJOR :: "u64 \<Rightarrow> u64" where
  "RMM_EL3_IFC_GET_VERS_MAJOR version = drop_bit 16 version AND 0x7FFF"
definition RMM_EL3_IFC_VERS_MAJOR :: u64 where [word_consts]: "RMM_EL3_IFC_VERS_MAJOR = 0"
definition RMM_EL3_MANIFEST_VERS_MAJOR :: u64 where [word_consts]: "RMM_EL3_MANIFEST_VERS_MAJOR = 0"

definition rmm_el3_ifc_get_shared_buf_size :: u64 where "rmm_el3_ifc_get_shared_buf_size = 0x1000"

record rmm_core_manifest =
  mf_version :: u32
  mf_plat_data :: u64

record el3_ifc =
  rmm_shared_buffer_start_pa :: u64
  rmm_el3_ifc_abi_version :: u64
  rmm_shared_buffer_start_va :: u64
  ifc_initialized :: bool
  local_core_manifest :: rmm_core_manifest
  manifest_processed :: bool
  shared_area_lock :: bool
  shared_mem :: "u8 list"

definition el3_ifc_reset :: el3_ifc where
  "el3_ifc_reset = \<lparr>rmm_shared_buffer_start_pa = 0, rmm_el3_ifc_abi_version = 0,
     rmm_shared_buffer_start_va = 0, ifc_initialized = False,
     local_core_manifest = \<lparr>mf_version = 0, mf_plat_data = 0\<rparr>, manifest_processed = False,
     shared_area_lock = False, shared_mem = replicate 4096 0\<rparr>"

definition rmm_el3_ifc_get_shared_buf_pa :: "el3_ifc \<Rightarrow> u64 option" where
  "rmm_el3_ifc_get_shared_buf_pa e = do {
     assert_c (ifc_initialized e);
     Some (rmm_shared_buffer_start_pa e)
   }"

definition rmm_el3_ifc_get_version :: "el3_ifc \<Rightarrow> u32 option" where
  "rmm_el3_ifc_get_version e = do {
     assert_c (ifc_initialized e);
     Some (ucast (rmm_el3_ifc_abi_version e))
   }"

text \<open>The manifest that EL3 has put at a physical address is a parameter.\<close>

definition rmm_el3_ifc_process_boot_manifest ::
  "bool \<Rightarrow> (u64 \<Rightarrow> rmm_core_manifest) \<Rightarrow> el3_ifc \<Rightarrow> (u64 + el3_ifc) option" where
  "rmm_el3_ifc_process_boot_manifest mmu_enabled manifest_at e = do {
     assert_c (\<not> mmu_enabled);
     assert_c (\<not> manifest_processed e);
     pa \<leftarrow> rmm_el3_ifc_get_shared_buf_pa e;
     let e = e\<lparr>local_core_manifest := manifest_at pa\<rparr>;
     if RMM_EL3_IFC_GET_VERS_MAJOR (ucast (mf_version (local_core_manifest e))) > RMM_EL3_MANIFEST_VERS_MAJOR
     then Some (Inl E_RMM_BOOT_MANIFEST_VERSION_NOT_SUPPORTED)
     else Some (Inr (e\<lparr>manifest_processed := True\<rparr>))
   }"

definition rmm_el3_ifc_get_manifest_version :: "el3_ifc \<Rightarrow> u32 option" where
  "rmm_el3_ifc_get_manifest_version e = do {
     assert_c (manifest_processed e);
     Some (mf_version (local_core_manifest e))
   }"

definition rmm_el3_ifc_get_plat_manifest_pa :: "bool \<Rightarrow> el3_ifc \<Rightarrow> u64 option" where
  "rmm_el3_ifc_get_plat_manifest_pa mmu_enabled e = do {
     assert_c (manifest_processed e \<and> \<not> mmu_enabled);
     Some (mf_plat_data (local_core_manifest e))
   }"

definition rmm_el3_ifc_init ::
  "bool \<Rightarrow> (u64 \<Rightarrow> rmm_core_manifest) \<Rightarrow> u64 \<Rightarrow> u64 \<Rightarrow> u64 \<Rightarrow> u64 \<Rightarrow> u64 \<Rightarrow> el3_ifc \<Rightarrow> (u64 + el3_ifc) option" where
  "rmm_el3_ifc_init mmu_enabled manifest_at x0 x1 x2 x3 shared_buf_va e = do {
     assert_c (\<not> mmu_enabled);
     assert_c (\<not> ifc_initialized e);
     assert_c (shared_buf_va AND PAGE_SIZE_MASK = 0);
     assert_c (shared_buf_va \<noteq> 0);
     if RMM_EL3_IFC_GET_VERS_MAJOR x1 \<noteq> RMM_EL3_IFC_VERS_MAJOR then Some (Inl E_RMM_BOOT_VERSION_MISMATCH)
     else if x2 > of_nat MAX_CPUS then Some (Inl E_RMM_BOOT_CPUS_OUT_OF_RANGE)
     else if x0 \<ge> x2 then Some (Inl E_RMM_BOOT_CPU_ID_OUT_OF_RANGE)
     else if x3 = 0 \<or> x3 AND PAGE_SIZE_MASK \<noteq> 0 then Some (Inl E_RMM_BOOT_INVALID_SHARED_POINTER)
     else rmm_el3_ifc_process_boot_manifest mmu_enabled manifest_at
            (e\<lparr>rmm_el3_ifc_abi_version := x1, rmm_shared_buffer_start_pa := x3,
               rmm_shared_buffer_start_va := shared_buf_va, ifc_initialized := True\<rparr>)
   }"

section \<open>The shared buffer at run time (rmm_el3_runtime.c)\<close>

text \<open>The lock is a spin lock: taking it twice would wait for ever.\<close>

definition rmm_el3_ifc_get_shared_buf_locked :: "el3_ifc \<Rightarrow> (u64 \<times> el3_ifc) option" where
  "rmm_el3_ifc_get_shared_buf_locked e = do {
     assert_c (\<not> shared_area_lock e);
     Some (rmm_shared_buffer_start_va e, e\<lparr>shared_area_lock := True\<rparr>)
   }"

definition rmm_el3_ifc_release_shared_buf :: "el3_ifc \<Rightarrow> el3_ifc" where
  "rmm_el3_ifc_release_shared_buf e = e\<lparr>shared_area_lock := False\<rparr>"

text \<open>
  The address that is passed to EL3, with the checks the two requests share.  The offset of the
  buffer and its length are added without a check of overflow.
\<close>

definition shared_buf_pa_of :: "u64 \<Rightarrow> u64 \<Rightarrow> el3_ifc \<Rightarrow> u64 option" where
  "shared_buf_pa_of buf buflen e = do {
     let offset = buf - rmm_shared_buffer_start_va e;
     assert_c (offset + buflen \<le> rmm_el3_ifc_get_shared_buf_size);
     assert_c (buf AND NOT PAGE_SIZE_MASK = rmm_shared_buffer_start_va e);
     pa \<leftarrow> rmm_el3_ifc_get_shared_buf_pa e;
     Some (pa + offset)
   }"

text \<open>
  EL3 is a parameter: from the function identifier, the arguments and the page of the shared
  buffer to the registers x0 and x1 and the page it leaves.  The results are those of the
  functions, the status cut to 32 bits and the length, if it is written.
\<close>

type_synonym el3_monitor = "u32 \<Rightarrow> u64 list \<Rightarrow> u8 list \<Rightarrow> u64 \<times> u64 \<times> u8 list"

definition SMC_RMM_GET_REALM_ATTEST_KEY :: u32 where [word_consts]: "SMC_RMM_GET_REALM_ATTEST_KEY = 0xC40001B2"
definition SMC_RMM_GET_PLAT_TOKEN :: u32 where [word_consts]: "SMC_RMM_GET_PLAT_TOKEN = 0xC40001B3"
definition SMC_RMM_BOOT_COMPLETE :: u32 where [word_consts]: "SMC_RMM_BOOT_COMPLETE = 0xC40001CF"

definition rmm_el3_ifc_get_realm_attest_key ::
  "el3_monitor \<Rightarrow> u64 \<Rightarrow> u64 \<Rightarrow> u32 \<Rightarrow> el3_ifc \<Rightarrow> (u32 \<times> u64 \<times> el3_ifc) option" where
  "rmm_el3_ifc_get_realm_attest_key el3 buf buflen crv e = do {
     buffer_pa \<leftarrow> shared_buf_pa_of buf buflen e;
     let (x0, x1, m) = el3 SMC_RMM_GET_REALM_ATTEST_KEY [buffer_pa, buflen, ucast crv, 0, 0, 0] (shared_mem e);
     Some (ucast x0, x1, e\<lparr>shared_mem := m\<rparr>)
   }"

definition rmm_el3_ifc_get_platform_token ::
  "el3_monitor \<Rightarrow> u64 \<Rightarrow> u64 \<Rightarrow> u64 \<Rightarrow> u64 \<Rightarrow> el3_ifc \<Rightarrow> (u32 \<times> u64 \<times> el3_ifc) option" where
  "rmm_el3_ifc_get_platform_token el3 buf buflen len hash_size e = do {
     buffer_pa \<leftarrow> shared_buf_pa_of buf buflen e;
     let (x0, x1, m) = el3 SMC_RMM_GET_PLAT_TOKEN [buffer_pa, buflen, hash_size, 0, 0, 0] (shared_mem e);
     Some (ucast x0, if x0 \<noteq> 0 then len else x1, e\<lparr>shared_mem := m\<rparr>)
   }"

section \<open>The cryptographic library\<close>

text \<open>
  The functions of mbedTLS that the boot calls are parameters; \<open>'o\<close> is the type of the library's
  objects.  A number read from bytes is \<^verbatim>\<open>None\<close> if the library leaves its pointer null.  The
  memory the library takes from the heap is not followed, only which heap a CPU uses.
\<close>

record 'o mbedtls =
  hmac_drbg_seed_buf :: "u8 list \<Rightarrow> int \<times> 'o"
  hmac_drbg_random :: "'o \<Rightarrow> nat \<Rightarrow> int \<times> u8 list \<times> 'o"
  ecp_group_load :: int
  mpi_read_binary :: "u8 list \<Rightarrow> int \<times> 'o option"
  ecp_check_privkey :: "'o option \<Rightarrow> int"
  ecp_mul :: "'o option \<Rightarrow> 'o \<Rightarrow> int \<times> 'o \<times> 'o"
  ecp_point_write_binary :: "'o \<Rightarrow> nat \<Rightarrow> int \<times> u8 list"
  mbed_sha256 :: "u8 list \<Rightarrow> int \<times> u8 list"

text \<open>
  The static data of lib/attestation.  The two buffers of the public key are their valid bytes;
  a generator that was never seeded and a token that was never set up are \<^verbatim>\<open>None\<close>.
\<close>

record 'o attest =
  a_ifc :: el3_ifc
  a_heaps :: heaps
  attest_initialized :: bool
  ecp_max_ops :: nat
  cpu_drbg_ctx :: "nat \<Rightarrow> 'o option"
  prng_init_done :: bool
  realm_attest_keypair_d :: "'o option"
  realm_attest_keypair_Q :: "'o option"
  realm_attest_public_key :: "u8 list"
  realm_attest_public_key_hash :: "u8 list"
  rmm_platform_token :: "u8 list option"

definition EINVAL :: int where "EINVAL = 22"
definition ECC_P384_PUBLIC_KEY_SIZE :: nat where [word_consts]: "ECC_P384_PUBLIC_KEY_SIZE = 97"
definition SHA256_DIGEST_SIZE :: nat where [word_consts]: "SHA256_DIGEST_SIZE = 32"
definition ATTEST_KEY_CURVE_ECC_SECP384R1 :: u32 where [word_consts]: "ATTEST_KEY_CURVE_ECC_SECP384R1 = 0"
definition ECP_MAX_OPS :: nat where [word_consts]: "ECP_MAX_OPS = 1000"
definition INIT_HEAP_PAGES :: u64 where [word_consts]: "INIT_HEAP_PAGES = 3"

section \<open>Random numbers (attestation_rnd.c)\<close>

text \<open>The n-th read of the hardware generator is a parameter; it may fail.\<close>

primrec get_random_seed :: "nat \<Rightarrow> (nat \<Rightarrow> u64 option) \<Rightarrow> nat \<Rightarrow> u8 list option" where
  "get_random_seed 0 entropy k = Some []"
| "get_random_seed (Suc n) entropy k = do {
     w \<leftarrow> entropy k;
     seed \<leftarrow> get_random_seed n entropy (Suc k);
     Some (le_bytes w @ seed)
   }"

definition mbedtls_hardware_poll :: "'o mbedtls \<Rightarrow> nat \<Rightarrow> nat \<Rightarrow> 'o attest \<Rightarrow> (int \<times> u8 list \<times> 'o attest) option" where
  "mbedtls_hardware_poll M cpu len a = do {
     assert_c (prng_init_done a);
     ctx \<leftarrow> cpu_drbg_ctx a cpu;
     let (ret, bytes, ctx) = hmac_drbg_random M ctx len;
     Some (ret, bytes, a\<lparr>cpu_drbg_ctx := (cpu_drbg_ctx a)(cpu := Some ctx)\<rparr>)
   }"

definition attest_get_cpu_rng_context :: "nat \<Rightarrow> 'o attest \<Rightarrow> 'o option" where
  "attest_get_cpu_rng_context cpu a = do {
     assert_c (prng_init_done a);
     cpu_drbg_ctx a cpu
   }"

primrec seed_cpus :: "'o mbedtls \<Rightarrow> nat list \<Rightarrow> 'o \<Rightarrow> 'o attest \<Rightarrow> int \<times> 'o attest" where
  "seed_cpus M [] drbg a = (0, a)"
| "seed_cpus M (i # is) drbg a =
     (let (rc, seed, drbg) = hmac_drbg_random M drbg 128
      in if rc \<noteq> 0 then (- EINVAL, a)
         else let (rc, ctx) = hmac_drbg_seed_buf M seed;
                  a = a\<lparr>cpu_drbg_ctx := (cpu_drbg_ctx a)(i := Some ctx)\<rparr>
              in if rc \<noteq> 0 then (- EINVAL, a) else seed_cpus M is drbg a)"

definition attest_rnd_prng_init ::
  "'o mbedtls \<Rightarrow> bool \<Rightarrow> (nat \<Rightarrow> u64 option) \<Rightarrow> 'o attest \<Rightarrow> (int \<times> 'o attest) option" where
  "attest_rnd_prng_init M rng_present entropy a = do {
     assert_c (\<not> prng_init_done a);
     if \<not> rng_present then Some (- EINVAL, a)
     else case get_random_seed 16 entropy 0 of
       None \<Rightarrow> Some (- EINVAL, a)
     | Some seed \<Rightarrow>
         let (rc, drbg) = hmac_drbg_seed_buf M seed
         in if rc \<noteq> 0 then Some (- EINVAL, a)
            else let (retval, a) = seed_cpus M [0..<MAX_CPUS] drbg a
                 in Some (retval, if retval \<noteq> 0 then a else a\<lparr>prng_init_done := True\<rparr>)
   }"

section \<open>The attestation key and the platform token (attestation_key.c)\<close>

definition release_ifc :: "'o attest \<Rightarrow> 'o attest" where
  "release_ifc a = a\<lparr>a_ifc := rmm_el3_ifc_release_shared_buf (a_ifc a)\<rparr>"

text \<open>
  The key pair is built from the bytes of the private key; every failure releases the shared
  buffer and returns \<^verbatim>\<open>-EINVAL\<close>.
\<close>

definition load_attest_key ::
  "'o mbedtls \<Rightarrow> nat \<Rightarrow> 'o \<Rightarrow> u8 list \<Rightarrow> 'o attest \<Rightarrow> int \<times> 'o attest" where
  "load_attest_key M cpu rng key a =
     (let a = a\<lparr>realm_attest_keypair_d := None, realm_attest_keypair_Q := None\<rparr>
      in if ecp_group_load M \<noteq> 0 then (- EINVAL, release_ifc a)
         else let (ret, d) = mpi_read_binary M key; a = a\<lparr>realm_attest_keypair_d := d\<rparr>
              in if ret \<noteq> 0 then (- EINVAL, release_ifc a)
         else if ecp_check_privkey M d \<noteq> 0 then (- EINVAL, release_ifc a)
         else let (ret, Q, rng) = ecp_mul M d rng;
                  a = a\<lparr>realm_attest_keypair_Q := Some Q, cpu_drbg_ctx := (cpu_drbg_ctx a)(cpu := Some rng)\<rparr>
              in if ret \<noteq> 0 then (- EINVAL, release_ifc a)
         else let (ret, pk) = ecp_point_write_binary M Q ECC_P384_PUBLIC_KEY_SIZE;
                  a = a\<lparr>realm_attest_public_key := pk\<rparr>
              in if ret \<noteq> 0 then (- EINVAL, release_ifc a)
         else let (ret, h) = mbed_sha256 M pk
              in if ret \<noteq> 0 then (- EINVAL, release_ifc a)
         else (0, a\<lparr>realm_attest_public_key_hash := h\<rparr>))"

definition attest_init_realm_attestation_key ::
  "'o mbedtls \<Rightarrow> el3_monitor \<Rightarrow> nat \<Rightarrow> 'o attest \<Rightarrow> (int \<times> 'o attest) option" where
  "attest_init_realm_attestation_key M el3 cpu a = do {
     rng \<leftarrow> attest_get_cpu_rng_context cpu a;
     if realm_attest_keypair_d a \<noteq> None then Some (- EINVAL, a)
     else do {
       (buf, e) \<leftarrow> rmm_el3_ifc_get_shared_buf_locked (a_ifc a);
       (ret, attest_key_size, e) \<leftarrow> rmm_el3_ifc_get_realm_attest_key el3 buf rmm_el3_ifc_get_shared_buf_size
                                      ATTEST_KEY_CURVE_ECC_SECP384R1 e;
       let a = a\<lparr>a_ifc := e\<rparr>;
       if ret \<noteq> 0 then Some (- EINVAL, release_ifc a)
       else do {
         let n = unat attest_key_size;
         assert_c (n \<le> length (shared_mem e));
         let (ret, a) = load_attest_key M cpu rng (take n (shared_mem e)) a;
         if ret \<noteq> 0 then Some (ret, a)
         else Some (0, release_ifc (a\<lparr>a_ifc := e\<lparr>shared_mem := replicate n 0 @ drop n (shared_mem e)\<rparr>\<rparr>))
       }
     }
   }"

definition attest_get_realm_signing_key :: "'o attest \<Rightarrow> 'o option" where
  "attest_get_realm_signing_key a = realm_attest_keypair_d a"

definition attest_get_realm_public_key_hash :: "'o attest \<Rightarrow> u8 list option" where
  "attest_get_realm_public_key_hash a =
     (if realm_attest_keypair_d a = None then None else Some (realm_attest_public_key_hash a))"

definition attest_get_realm_public_key :: "'o attest \<Rightarrow> u8 list option" where
  "attest_get_realm_public_key a =
     (if realm_attest_keypair_d a = None then None else Some (realm_attest_public_key a))"

text \<open>The token's buffer is one page, as the shared buffer; EL3 chooses the length that is copied.\<close>

definition attest_setup_platform_token ::
  "el3_monitor \<Rightarrow> 'o attest \<Rightarrow> (int \<times> 'o attest) option" where
  "attest_setup_platform_token el3 a =
     (case attest_get_realm_public_key_hash a of
        None \<Rightarrow> Some (- EINVAL, a)
      | Some h \<Rightarrow> do {
          (buf, e) \<leftarrow> rmm_el3_ifc_get_shared_buf_locked (a_ifc a);
          assert_c (length h \<le> length (shared_mem e));
          let e = e\<lparr>shared_mem := h @ drop (length h) (shared_mem e)\<rparr>;
          (ret, platform_token_len, e) \<leftarrow> rmm_el3_ifc_get_platform_token el3 buf
              rmm_el3_ifc_get_shared_buf_size 0 (of_nat SHA256_DIGEST_SIZE) e;
          let a = a\<lparr>a_ifc := e\<rparr>;
          if ret \<noteq> 0 then Some (- EINVAL, release_ifc a)
          else do {
            assert_c (unat platform_token_len \<le> length (shared_mem e));
            let a = release_ifc a;
            Some (0, a\<lparr>rmm_platform_token := Some (take (unat platform_token_len) (shared_mem e))\<rparr>)
          }
        })"

definition attest_get_platform_token :: "'o attest \<Rightarrow> u8 list option" where
  "attest_get_platform_token a = rmm_platform_token a"

definition attest_get_realm_public_key_hash_algo_id :: hash_algo where
  "attest_get_realm_public_key_hash_algo_id = HASH_ALGO_SHA256"

section \<open>Initialisation and the heaps of the RECs (attestation_utils.c)\<close>

text \<open>
  The addresses of the static context \<^verbatim>\<open>init_ctx\<close> and of the buffer \<^verbatim>\<open>mem_buf\<close> are
  parameters.  The early returns leave the heap of the boot assigned to the CPU.
\<close>

definition attestation_init ::
  "'o mbedtls \<Rightarrow> alloc_params \<Rightarrow> el3_monitor \<Rightarrow> bool \<Rightarrow> (nat \<Rightarrow> u64 option) \<Rightarrow> u64 \<Rightarrow> u64 \<Rightarrow> nat
     \<Rightarrow> 'o attest \<Rightarrow> (int \<times> 'o attest) option" where
  "attestation_init M K el3 rng_present entropy init_ctx mem_buf cpu a = do {
     (_, h) \<leftarrow> heap_ctx_assign cpu init_ctx (a_heaps a);
     h \<leftarrow> mbedtls_memory_buffer_alloc_init K cpu mem_buf (INIT_HEAP_PAGES * 4096) h;
     let a = a\<lparr>a_heaps := h, ecp_max_ops := ECP_MAX_OPS\<rparr>;
     (ret, a) \<leftarrow> attest_rnd_prng_init M rng_present entropy a;
     if ret \<noteq> 0 then Some (ret, a)
     else do {
       (ret, a) \<leftarrow> attest_init_realm_attestation_key M el3 cpu a;
       if ret \<noteq> 0 then Some (ret, a)
       else do {
         (ret, a) \<leftarrow> attest_setup_platform_token el3 a;
         if ret \<noteq> 0 then Some (ret, a)
         else do {
           h \<leftarrow> heap_ctx_unassign cpu (a_heaps a);
           Some (0, a\<lparr>a_heaps := h, attest_initialized := True\<rparr>)
         }
       }
     }
   }"

definition attestation_heap_ctx_init ::
  "alloc_params \<Rightarrow> nat \<Rightarrow> u64 \<Rightarrow> u64 \<Rightarrow> 'o attest \<Rightarrow> (int \<times> 'o attest) option" where
  "attestation_heap_ctx_init K cpu buf buf_size a = do {
     assert_c (buf \<noteq> 0);
     if \<not> attest_initialized a then Some (- EINVAL, a)
     else do {
       h \<leftarrow> mbedtls_memory_buffer_alloc_init K cpu buf buf_size (a_heaps a);
       Some (0, a\<lparr>a_heaps := h\<rparr>)
     }
   }"

definition attest_heap_ctx_assign_pe :: "nat \<Rightarrow> u64 \<Rightarrow> 'o attest \<Rightarrow> (int \<times> 'o attest) option" where
  "attest_heap_ctx_assign_pe cpu ctx a = do {
     assert_c (ctx \<noteq> 0);
     if \<not> attest_initialized a then Some (- EINVAL, a)
     else do {
       (_, h) \<leftarrow> heap_ctx_assign cpu ctx (a_heaps a);
       Some (0, a\<lparr>a_heaps := h\<rparr>)
     }
   }"

definition attest_heap_ctx_unassign_pe :: "nat \<Rightarrow> u64 \<Rightarrow> 'o attest \<Rightarrow> (int \<times> 'o attest) option" where
  "attest_heap_ctx_unassign_pe cpu ctx a = do {
     assert_c (ctx \<noteq> 0);
     if \<not> attest_initialized a then Some (- EINVAL, a)
     else do {
       h \<leftarrow> heap_ctx_unassign cpu (a_heaps a);
       Some (0, a\<lparr>a_heaps := h\<rparr>)
     }
   }"

definition attestation_heap_reinit_pe ::
  "alloc_params \<Rightarrow> nat \<Rightarrow> u64 \<Rightarrow> u64 \<Rightarrow> 'o attest \<Rightarrow> (int \<times> 'o attest) option" where
  "attestation_heap_reinit_pe K cpu buf buf_size a = do {
     h \<leftarrow> mbedtls_memory_buffer_alloc_init K cpu buf buf_size (a_heaps a);
     Some (0, a\<lparr>a_heaps := h\<rparr>)
   }"

section \<open>The attestation key\<close>

text \<open>
  What the boot relies on: EL3 leaves a page in the shared buffer and reports lengths that fit
  in the buffer it was given.
\<close>

definition el3_ok :: "el3_monitor \<Rightarrow> bool" where
  "el3_ok el3 \<longleftrightarrow> (\<forall>fid args page. length page = 4096 \<longrightarrow>
     (case el3 fid args page of (x0, x1, page') \<Rightarrow> length page' = 4096 \<and> unat x1 \<le> 4096))"

lemma el3_okD:
  assumes "el3_ok el3" and "length page = 4096" and "el3 fid args page = (x0, x1, page')"
  shows "length page' = 4096 \<and> unat x1 \<le> 4096"
  using assms(1) [unfolded el3_ok_def, THEN spec [of _ fid], THEN spec [of _ args], THEN spec [of _ page]] assms(2,3)
  by simp

definition ifc_ok :: "el3_ifc \<Rightarrow> bool" where
  "ifc_ok e \<longleftrightarrow> ifc_initialized e \<and> \<not> shared_area_lock e \<and> rmm_shared_buffer_start_va e AND PAGE_SIZE_MASK = 0
     \<and> length (shared_mem e) = 4096"

lemma page_start: "va AND PAGE_SIZE_MASK = 0 \<Longrightarrow> va AND NOT PAGE_SIZE_MASK = (va :: u64)"
  by (metis (no_types) bit.conj_cancel_right bit.conj_disj_distrib bit.conj_one_right bit.disj_cancel_right or.left_neutral)

lemma ifc_ok_locked:
  assumes "ifc_ok e"
  shows "rmm_el3_ifc_get_shared_buf_locked e = Some (rmm_shared_buffer_start_va e, e\<lparr>shared_area_lock := True\<rparr>)"
    "shared_buf_pa_of (rmm_shared_buffer_start_va e) rmm_el3_ifc_get_shared_buf_size
      (e\<lparr>shared_area_lock := True, shared_mem := m\<rparr>) = Some (rmm_shared_buffer_start_pa e)"
    "shared_buf_pa_of (rmm_shared_buffer_start_va e) rmm_el3_ifc_get_shared_buf_size
      (e\<lparr>shared_area_lock := True\<rparr>) = Some (rmm_shared_buffer_start_pa e)"
  using assms page_start
  by (simp_all add: ifc_ok_def rmm_el3_ifc_get_shared_buf_locked_def shared_buf_pa_of_def
      rmm_el3_ifc_get_shared_buf_size_def rmm_el3_ifc_get_shared_buf_pa_def)

text \<open>What building the key pair leaves alone: the buffer; and a failure releases it.\<close>

lemma load_attest_key_ifc:
  "load_attest_key M cpu rng key a = (ret, a') \<Longrightarrow>
     a_ifc a' = (if ret = 0 then a_ifc a else rmm_el3_ifc_release_shared_buf (a_ifc a))
     \<and> a_heaps a' = a_heaps a \<and> attest_initialized a' = attest_initialized a \<and> prng_init_done a' = prng_init_done a
     \<and> rmm_platform_token a' = rmm_platform_token a
     \<and> (ret = 0 \<or> ret = - EINVAL)
     \<and> (realm_attest_public_key_hash a' = realm_attest_public_key_hash a
          \<or> (\<exists>pk. realm_attest_public_key_hash a' = snd (mbed_sha256 M pk)))"
  by (auto simp: load_attest_key_def Let_def release_ifc_def EINVAL_def split: if_split_asm prod.split_asm
      intro: exI [where x = "realm_attest_public_key a'"])

text \<open>The number of bytes of the key that EL3 puts into the buffer.\<close>

definition attest_key_len :: "el3_monitor \<Rightarrow> el3_ifc \<Rightarrow> nat" where
  "attest_key_len el3 e =
     unat (fst (snd (el3 SMC_RMM_GET_REALM_ATTEST_KEY
       [rmm_shared_buffer_start_pa e, rmm_el3_ifc_get_shared_buf_size, 0, 0, 0, 0] (shared_mem e))))"

lemma get_attest_key:
  assumes "ifc_ok e" and "el3_ok el3"
  obtains st x1 page where "rmm_el3_ifc_get_realm_attest_key el3 (rmm_shared_buffer_start_va e)
      rmm_el3_ifc_get_shared_buf_size ATTEST_KEY_CURVE_ECC_SECP384R1 (e\<lparr>shared_area_lock := True\<rparr>)
    = Some (st, x1, e\<lparr>shared_area_lock := True, shared_mem := page\<rparr>)"
    "length page = 4096" "attest_key_len el3 e \<le> 4096" "unat x1 = attest_key_len el3 e"
proof -
  let ?args = "[rmm_shared_buffer_start_pa e, rmm_el3_ifc_get_shared_buf_size, 0, 0, 0, 0]"
  obtain x0 x1 page where r: "el3 SMC_RMM_GET_REALM_ATTEST_KEY ?args (shared_mem e) = (x0, x1, page)"
    by (metis prod_cases3)
  have A: "length page = 4096 \<and> unat x1 \<le> 4096"
    by (rule el3_okD [OF assms(2) _ r]) (use assms(1) in \<open>simp add: ifc_ok_def\<close>)
  have B: "rmm_el3_ifc_get_realm_attest_key el3 (rmm_shared_buffer_start_va e)
      rmm_el3_ifc_get_shared_buf_size ATTEST_KEY_CURVE_ECC_SECP384R1 (e\<lparr>shared_area_lock := True\<rparr>)
    = Some (ucast x0, x1, e\<lparr>shared_area_lock := True, shared_mem := page\<rparr>)"
    using ifc_ok_locked(3) [OF assms(1)] r
    by (simp add: rmm_el3_ifc_get_realm_attest_key_def ATTEST_KEY_CURVE_ECC_SECP384R1_def)
  have C: "unat x1 = attest_key_len el3 e" by (simp add: attest_key_len_def r)
  show thesis by (rule that [OF B _ _ C]) (use A C in simp_all)
qed

text \<open>The buffer is released on every path, and a key that was loaded is wiped from it.\<close>

lemma attest_key_step:
  assumes e: "ifc_ok (a_ifc a)" and el3: "el3_ok el3" and rng: "prng_init_done a" "cpu_drbg_ctx a cpu \<noteq> None"
    and sha: "\<And>pk. length (snd (mbed_sha256 M pk)) \<le> 4096" "length (realm_attest_public_key_hash a) \<le> 4096"
  shows "case attest_init_realm_attestation_key M el3 cpu a of
      None \<Rightarrow> False
    | Some (ret, a') \<Rightarrow> ifc_ok (a_ifc a') \<and> prng_init_done a' \<and> a_heaps a' = a_heaps a
        \<and> attest_initialized a' = attest_initialized a \<and> length (realm_attest_public_key_hash a') \<le> 4096
        \<and> (if ret = 0 then take (attest_key_len el3 (a_ifc a)) (shared_mem (a_ifc a'))
                           = replicate (attest_key_len el3 (a_ifc a)) 0
           else ret = - EINVAL)"
proof -
  let ?e = "a_ifc a" let ?n = "attest_key_len el3 ?e"
  obtain d where d: "cpu_drbg_ctx a cpu = Some d" using rng(2) by auto
  obtain st x1 page where k: "rmm_el3_ifc_get_realm_attest_key el3 (rmm_shared_buffer_start_va ?e)
      rmm_el3_ifc_get_shared_buf_size ATTEST_KEY_CURVE_ECC_SECP384R1 (?e\<lparr>shared_area_lock := True\<rparr>)
    = Some (st, x1, ?e\<lparr>shared_area_lock := True, shared_mem := page\<rparr>)"
    "length page = 4096" "?n \<le> 4096" "unat x1 = ?n"
    by (rule get_attest_key [OF e el3])
  let ?a = "a\<lparr>a_ifc := ?e\<lparr>shared_area_lock := True, shared_mem := page\<rparr>\<rparr>"
  obtain ret a' where l: "load_attest_key M cpu d (take ?n page) ?a = (ret, a')" by fastforce
  note li = load_attest_key_ifc [OF l]
  have h: "length (realm_attest_public_key_hash a') \<le> 4096" using li sha by auto
  consider "realm_attest_keypair_d a \<noteq> None" | "realm_attest_keypair_d a = None" "st \<noteq> 0"
    | "realm_attest_keypair_d a = None" "st = 0" by blast
  then show ?thesis
  proof cases
    case 1
    then show ?thesis using e rng sha(2)
      by (auto simp: attest_init_realm_attestation_key_def attest_get_cpu_rng_context_def d EINVAL_def)
  next
    case 2
    then show ?thesis using e rng k(2) sha(2)
      by (simp add: attest_init_realm_attestation_key_def attest_get_cpu_rng_context_def d ifc_ok_locked(1) [OF e] k(1)
          Let_def release_ifc_def rmm_el3_ifc_release_shared_buf_def ifc_ok_def EINVAL_def)
  next
    case 3
    then show ?thesis using e rng li k(2,3) h
      by (auto simp: attest_init_realm_attestation_key_def attest_get_cpu_rng_context_def d ifc_ok_locked(1) [OF e] k(1,4)
          l Let_def release_ifc_def rmm_el3_ifc_release_shared_buf_def ifc_ok_def EINVAL_def)
  qed
qed

section \<open>The initialisation of the attestation\<close>

text \<open>What the generators' set-up leaves alone.\<close>

definition attest_frame :: "'o attest \<Rightarrow> 'o attest \<Rightarrow> bool" where
  "attest_frame a a' \<longleftrightarrow> a_ifc a' = a_ifc a \<and> a_heaps a' = a_heaps a \<and> attest_initialized a' = attest_initialized a
     \<and> realm_attest_keypair_d a' = realm_attest_keypair_d a
     \<and> realm_attest_public_key_hash a' = realm_attest_public_key_hash a"

lemma seed_cpus_result:
  assumes "seed_cpus M is drbg a = (ret, a')"
  shows "attest_frame a a' \<and> (ret = 0 \<or> ret = - EINVAL)
    \<and> (ret = 0 \<longrightarrow> (\<forall>i. cpu_drbg_ctx a i \<noteq> None \<or> i \<in> set is \<longrightarrow> cpu_drbg_ctx a' i \<noteq> None))"
  using assms
proof (induction "is" arbitrary: drbg a)
  case Nil
  then show ?case by (auto simp: attest_frame_def)
next
  case (Cons i "is")
  obtain rc seed drbg' where r: "hmac_drbg_random M drbg 128 = (rc, seed, drbg')" by (metis prod_cases3)
  obtain rc2 ctx where s: "hmac_drbg_seed_buf M seed = (rc2, ctx)" by fastforce
  show ?case
  proof (cases "rc = 0 \<and> rc2 = 0")
    case False
    then show ?thesis using Cons.prems by (auto simp: r s Let_def attest_frame_def EINVAL_def split: if_splits)
  next
    case True
    then have "seed_cpus M is drbg' (a\<lparr>cpu_drbg_ctx := (cpu_drbg_ctx a)(i := Some ctx)\<rparr>) = (ret, a')"
      using Cons.prems by (simp add: r s Let_def)
    from Cons.IH [OF this] show ?thesis by (simp add: attest_frame_def)
  qed
qed

lemma prng_init_result:
  assumes "\<not> prng_init_done a"
  obtains ret a' where "attest_rnd_prng_init M present entropy a = Some (ret, a')" "attest_frame a a'"
    "ret = 0 \<or> ret = - EINVAL"
    "ret = 0 \<longrightarrow> prng_init_done a' \<and> (\<forall>i < MAX_CPUS. cpu_drbg_ctx a' i \<noteq> None)"
proof (cases "present \<and> get_random_seed 16 entropy 0 \<noteq> None")
  case False
  then have "attest_rnd_prng_init M present entropy a = Some (- EINVAL, a)"
    using assms by (auto simp: attest_rnd_prng_init_def)
  from that [OF this] show thesis by (simp add: attest_frame_def EINVAL_def)
next
  case True
  then obtain seed where seed: "get_random_seed 16 entropy 0 = Some seed" by auto
  obtain rc drbg where s: "hmac_drbg_seed_buf M seed = (rc, drbg)" by fastforce
  obtain ret a' where c: "seed_cpus M [0..<MAX_CPUS] drbg a = (ret, a')" by fastforce
  note cr = seed_cpus_result [OF c]
  show thesis
  proof (cases "rc = 0")
    case False
    then have "attest_rnd_prng_init M present entropy a = Some (- EINVAL, a)"
      using assms True seed s by (simp add: attest_rnd_prng_init_def)
    from that [OF this] show thesis by (simp add: attest_frame_def EINVAL_def)
  next
    case ok: True
    then have r: "attest_rnd_prng_init M present entropy a
        = Some (ret, if ret \<noteq> 0 then a' else a'\<lparr>prng_init_done := True\<rparr>)"
      using assms True seed s c by (simp add: attest_rnd_prng_init_def)
    show thesis
      by (rule that [OF r]) (use cr in \<open>auto simp: attest_frame_def\<close>)
  qed
qed

lemma token_result:
  assumes e: "ifc_ok (a_ifc a)" and el3: "el3_ok el3" and h: "length (realm_attest_public_key_hash a) \<le> 4096"
  obtains ret a' where "attest_setup_platform_token el3 a = Some (ret, a')" "ifc_ok (a_ifc a')"
    "a_heaps a' = a_heaps a" "attest_initialized a' = attest_initialized a" "ret = 0 \<or> ret = - EINVAL"
    "ret = 0 \<longrightarrow> rmm_platform_token a' \<noteq> None \<and> realm_attest_keypair_d a' \<noteq> None"
proof (cases "realm_attest_keypair_d a")
  case None
  then have "attest_setup_platform_token el3 a = Some (- EINVAL, a)"
    by (simp add: attest_setup_platform_token_def attest_get_realm_public_key_hash_def)
  from that [OF this e] show thesis by (simp add: EINVAL_def)
next
  case (Some d)
  let ?e = "a_ifc a" let ?h = "realm_attest_public_key_hash a"
  let ?p = "?h @ drop (length ?h) (shared_mem ?e)"
  have p: "length ?p = 4096" using e h by (simp add: ifc_ok_def)
  let ?args = "[rmm_shared_buffer_start_pa ?e, rmm_el3_ifc_get_shared_buf_size, of_nat SHA256_DIGEST_SIZE, 0, 0, 0]"
  obtain x0 x1 page where r: "el3 SMC_RMM_GET_PLAT_TOKEN ?args ?p = (x0, x1, page)" by (metis prod_cases3)
  note A = el3_okD [OF el3 p r]
  have hl: "length ?h \<le> length (shared_mem ?e)" using e h by (simp add: ifc_ok_def)
  have hh: "attest_get_realm_public_key_hash a = Some ?h" by (simp add: attest_get_realm_public_key_hash_def Some)
  let ?a = "release_ifc (a\<lparr>a_ifc := ?e\<lparr>shared_area_lock := True, shared_mem := page\<rparr>\<rparr>)"
  have g: "rmm_el3_ifc_get_platform_token el3 (rmm_shared_buffer_start_va ?e) rmm_el3_ifc_get_shared_buf_size 0
      (of_nat SHA256_DIGEST_SIZE) (?e\<lparr>shared_area_lock := True, shared_mem := ?p\<rparr>)
    = Some (ucast x0, if x0 \<noteq> 0 then 0 else x1, ?e\<lparr>shared_area_lock := True, shared_mem := page\<rparr>)"
    using r by (simp add: rmm_el3_ifc_get_platform_token_def ifc_ok_locked(2) [OF e])
  have "attest_setup_platform_token el3 a =
     (if (ucast x0 :: u32) \<noteq> 0 then Some (- EINVAL, ?a)
      else Some (0, ?a\<lparr>rmm_platform_token := Some (take (unat (if x0 \<noteq> 0 then 0 else x1)) page)\<rparr>))"
    using g A hl
    by (auto simp: attest_setup_platform_token_def hh ifc_ok_locked(1) [OF e] Let_def release_ifc_def
        rmm_el3_ifc_release_shared_buf_def)
  moreover have "ifc_ok (a_ifc ?a)"
    using e A by (simp add: ifc_ok_def release_ifc_def rmm_el3_ifc_release_shared_buf_def)
  ultimately show thesis
  proof (cases "(ucast x0 :: u32) \<noteq> 0")
    case True
    with \<open>attest_setup_platform_token el3 a = _\<close> have "attest_setup_platform_token el3 a = Some (- EINVAL, ?a)" by simp
    from that [OF this \<open>ifc_ok (a_ifc ?a)\<close>] show thesis by (simp add: release_ifc_def EINVAL_def)
  next
    case False
    let ?b = "?a\<lparr>rmm_platform_token := Some (take (unat (if x0 \<noteq> 0 then 0 else x1)) page)\<rparr>"
    from False \<open>attest_setup_platform_token el3 a = _\<close> have "attest_setup_platform_token el3 a = Some (0, ?b)" by simp
    then show thesis
      by (rule that) (use \<open>ifc_ok (a_ifc ?a)\<close> Some in \<open>simp_all add: release_ifc_def\<close>)
  qed
qed


text \<open>The heap of the boot, once it is assigned.\<close>

lemma boot_heap:
  assumes "cpu < length (ctx_per_cpu h)" "ctx_per_cpu h ! cpu = 0" "init_ctx \<noteq> 0"
  obtains h' where "heap_ctx_assign cpu init_ctx h = Some (0, h\<lparr>ctx_per_cpu := (ctx_per_cpu h)[cpu := init_ctx]\<rparr>)"
    "mbedtls_memory_buffer_alloc_init K cpu buf len (h\<lparr>ctx_per_cpu := (ctx_per_cpu h)[cpu := init_ctx]\<rparr>) = Some h'"
    "ctx_per_cpu h' = (ctx_per_cpu h)[cpu := init_ctx]"
proof -
  let ?h = "h\<lparr>ctx_per_cpu := (ctx_per_cpu h)[cpu := init_ctx]\<rparr>"
  let ?h' = "put_heap init_ctx (buffer_alloc_init K buf len (heap_of ?h init_ctx)) ?h"
  have "heap_ctx_assign cpu init_ctx h = Some (0, ?h)"
    using assms by (simp add: heap_ctx_assign_def)
  moreover have "mbedtls_memory_buffer_alloc_init K cpu buf len ?h = Some ?h'"
    using assms by (simp add: mbedtls_memory_buffer_alloc_init_def get_heap_ctx_def)
  moreover have "ctx_per_cpu ?h' = (ctx_per_cpu h)[cpu := init_ctx]" by (simp add: put_heap_def)
  ultimately show thesis by (rule that)
qed

text \<open>
  What the boot promises of the attestation: either a key and a token, and the heap is given
  back; or the attestation is not in use, and the CPU keeps the heap of the boot.
\<close>

definition attest_outcome :: "nat \<Rightarrow> u64 \<Rightarrow> int \<Rightarrow> 'o attest \<Rightarrow> bool" where
  "attest_outcome cpu init_ctx ret a \<longleftrightarrow> ifc_ok (a_ifc a)
     \<and> (if ret = 0 then attest_initialized a \<and> ctx_per_cpu (a_heaps a) ! cpu = 0
          \<and> attest_get_platform_token a \<noteq> None \<and> attest_get_realm_signing_key a \<noteq> None
        else ret = - EINVAL \<and> \<not> attest_initialized a \<and> ctx_per_cpu (a_heaps a) ! cpu = init_ctx)"

lemma attestation_outcome:
  assumes cpu: "cpu < MAX_CPUS" "length (ctx_per_cpu (a_heaps a)) = MAX_CPUS" "ctx_per_cpu (a_heaps a) ! cpu = 0"
    and ctx: "init_ctx \<noteq> 0" and e: "ifc_ok (a_ifc a)" and el3: "el3_ok el3"
    and fresh: "\<not> prng_init_done a" "\<not> attest_initialized a"
    and sha: "\<And>pk. length (snd (mbed_sha256 M pk)) \<le> 4096" "length (realm_attest_public_key_hash a) \<le> 4096"
  obtains ret a' where "attestation_init M K el3 present entropy init_ctx mem_buf cpu a = Some (ret, a')"
    "attest_outcome cpu init_ctx ret a'"
proof -
  let ?h = "(a_heaps a)\<lparr>ctx_per_cpu := (ctx_per_cpu (a_heaps a))[cpu := init_ctx]\<rparr>"
  have cpu': "cpu < length (ctx_per_cpu (a_heaps a))" using cpu by simp
  obtain h where h: "heap_ctx_assign cpu init_ctx (a_heaps a) = Some (0, ?h)"
    "mbedtls_memory_buffer_alloc_init K cpu mem_buf (INIT_HEAP_PAGES * 4096) ?h = Some h"
    "ctx_per_cpu h = (ctx_per_cpu (a_heaps a))[cpu := init_ctx]"
    by (rule boot_heap [OF cpu' cpu(3) ctx])
  have hc: "cpu < length (ctx_per_cpu h)" "ctx_per_cpu h ! cpu = init_ctx" using cpu h(3) by simp_all
  let ?a = "a\<lparr>a_heaps := h, ecp_max_ops := ECP_MAX_OPS\<rparr>"
  have np: "\<not> prng_init_done ?a" using fresh(1) by simp
  obtain r1 a1 where s1: "attest_rnd_prng_init M present entropy ?a = Some (r1, a1)" "attest_frame ?a a1"
    "r1 = 0 \<or> r1 = - EINVAL" "r1 = 0 \<longrightarrow> prng_init_done a1 \<and> (\<forall>i < MAX_CPUS. cpu_drbg_ctx a1 i \<noteq> None)"
    by (rule prng_init_result [OF np, where M = M and present = present and entropy = entropy])
  have f1: "a_ifc a1 = a_ifc a" "a_heaps a1 = h" "\<not> attest_initialized a1"
    "realm_attest_public_key_hash a1 = realm_attest_public_key_hash a"
    using s1(2) fresh(2) by (simp_all add: attest_frame_def)
  show thesis
  proof (cases "r1 = 0")
    case False
    then have "attestation_init M K el3 present entropy init_ctx mem_buf cpu a = Some (- EINVAL, a1)"
      using h s1(1,3) by (simp add: attestation_init_def)
    moreover have "attest_outcome cpu init_ctx (- EINVAL) a1"
      using f1 e hc by (simp add: attest_outcome_def EINVAL_def)
    ultimately show thesis by (rule that)
  next
    case True
    note p = s1(4) [rule_format, OF True]
    obtain r2 a2 where s2: "attest_init_realm_attestation_key M el3 cpu a1 = Some (r2, a2)"
      "ifc_ok (a_ifc a2)" "a_heaps a2 = h" "\<not> attest_initialized a2"
      "length (realm_attest_public_key_hash a2) \<le> 4096" "r2 = 0 \<or> r2 = - EINVAL"
      using attest_key_step [of a1 el3 cpu M] e el3 p cpu(1) sha f1
      by (auto split: option.splits if_splits)
    show thesis
    proof (cases "r2 = 0")
      case False
      then have "attestation_init M K el3 present entropy init_ctx mem_buf cpu a = Some (- EINVAL, a2)"
        using h s1(1) True s2(1,6) by (simp add: attestation_init_def)
      moreover have "attest_outcome cpu init_ctx (- EINVAL) a2"
        using s2 hc by (simp add: attest_outcome_def EINVAL_def)
      ultimately show thesis by (rule that)
    next
      case ok: True
      obtain r3 a3 where s3: "attest_setup_platform_token el3 a2 = Some (r3, a3)" "ifc_ok (a_ifc a3)"
        "a_heaps a3 = a_heaps a2" "attest_initialized a3 = attest_initialized a2" "r3 = 0 \<or> r3 = - EINVAL"
        "r3 = 0 \<longrightarrow> rmm_platform_token a3 \<noteq> None \<and> realm_attest_keypair_d a3 \<noteq> None"
        by (rule token_result [OF s2(2) el3 s2(5)])
      show thesis
      proof (cases "r3 = 0")
        case False
        then have "attestation_init M K el3 present entropy init_ctx mem_buf cpu a = Some (- EINVAL, a3)"
          using h s1(1) True s2(1) ok s3(1,5) by (simp add: attestation_init_def)
        moreover have "attest_outcome cpu init_ctx (- EINVAL) a3"
          using s2 s3 hc by (simp add: attest_outcome_def EINVAL_def)
        ultimately show thesis by (rule that)
      next
        case fine: True
        let ?b = "a3\<lparr>a_heaps := h\<lparr>ctx_per_cpu := (ctx_per_cpu h)[cpu := 0]\<rparr>, attest_initialized := True\<rparr>"
        have "attestation_init M K el3 present entropy init_ctx mem_buf cpu a = Some (0, ?b)"
          using h(1,2) s1(1) True s2(1,3) ok s3(1,3) fine hc ctx
          by (simp add: attestation_init_def heap_ctx_unassign_def)
        moreover have "attest_outcome cpu init_ctx 0 ?b"
          using s3(2,6) fine hc
          by (simp add: attest_outcome_def attest_get_platform_token_def attest_get_realm_signing_key_def)
        ultimately show thesis by (rule that)
      qed
    qed
  qed
qed

end
