(* ===== verification/Boot.thy ===== *)
theory Boot
  imports El3_Attest Gic
begin

text \<open>
  The boot of a CPU: the entry point (runtime/core/aarch64/head.S), the set-up of the platform
  and of the translation tables of the monitor (plat/fvp/src/fvp_setup.c,
  plat/common/src/plat_common_init.c), the activation of the MMU (lib/xlat) and the
  initialisation of the runtime (runtime/core/init.c).  The first CPU takes the cold path, all
  others the warm one.  As in \<open>El3_Attest\<close>, \<open>Inl\<close> is a code reported to EL3.

  The configuration is that of configs/fvp_defcfg.cmake.  Messages, the serial port and the
  relocation of the image are left out.
\<close>

section \<open>Registers\<close>

definition SCTLR_EL2_M :: u64 where [arch_consts]: "SCTLR_EL2_M = 1"
definition SCTLR_EL2_WXN :: u64 where [arch_consts]: "SCTLR_EL2_WXN = push_bit 19 1"
definition SECURE_SCTLR_EL2_RES1 :: u64 where
  [arch_consts]: "SECURE_SCTLR_EL2_RES1 = push_bit 22 1 OR push_bit 11 1"

text \<open>C, SA, SA0, SED, I, DZE, UCT, NTWI, NTWE, WXN, TSCXT, UCI, NTLSMD, LSMAOE.\<close>

definition SCTLR_EL2_INIT :: u64 where
  [arch_consts]: "SCTLR_EL2_INIT = push_bit 2 1 OR push_bit 3 1 OR push_bit 4 1 OR push_bit 8 1 OR push_bit 12 1
     OR push_bit 14 1 OR push_bit 15 1 OR push_bit 16 1 OR push_bit 18 1 OR SCTLR_EL2_WXN OR push_bit 20 1
     OR push_bit 26 1 OR push_bit 28 1 OR push_bit 29 1 OR SECURE_SCTLR_EL2_RES1"

text \<open>TGE, E2H, TEA.\<close>

definition HCR_EL2_INIT :: u64 where
  [arch_consts]: "HCR_EL2_INIT = push_bit 27 1 OR push_bit 34 1 OR push_bit 37 1"
definition HCR_RW_BIT :: u64 where [arch_consts]: "HCR_RW_BIT = push_bit 31 1"

definition CPTR_EL2_RES1 :: u64 where
  [arch_consts]: "CPTR_EL2_RES1 = push_bit 13 1 OR push_bit 12 1 OR push_bit 9 1 OR 0xff"
definition CPTR_EL2_BOOT_INIT :: u64 where
  [arch_consts]: "CPTR_EL2_BOOT_INIT = push_bit 16 0 OR push_bit 20 0 OR push_bit 28 1 OR push_bit 30 1 OR CPTR_EL2_RES1"
definition ICC_SRE_EL2_INIT :: u64 where
  [arch_consts]: "ICC_SRE_EL2_INIT = push_bit 3 1 OR push_bit 2 1 OR push_bit 1 1 OR push_bit 0 1"
definition CNTHCTL_EL2_INIT :: u64 where [arch_consts]: "CNTHCTL_EL2_INIT = push_bit 1 1 OR push_bit 0 1"
definition MDCR_EL2_INIT :: u64 where
  [arch_consts]: "MDCR_EL2_INIT = push_bit 5 1 OR push_bit 6 1 OR push_bit 9 1"

record el2_regs =
  r_sctlr :: u64
  r_hcr :: u64
  r_cptr :: u64
  r_icc_sre :: u64
  r_vbar_set :: bool
  r_tpidr :: u64
  r_cnthctl :: u64
  r_mdcr :: u64
  r_mpam2 :: u64
  r_mpamhcr :: u64
  r_pmscr :: u64
  r_mmu :: mmu_regs

definition is_mmu_enabled :: "el2_regs \<Rightarrow> bool" where
  "is_mmu_enabled r = (r_sctlr r AND SCTLR_EL2_M \<noteq> 0)"

definition write_sctlr :: "u64 \<Rightarrow> el2_regs \<Rightarrow> el2_regs" where
  "write_sctlr v r = r\<lparr>r_sctlr := v, r_mmu := (r_mmu r)\<lparr>sctlr_el2_m := (v AND SCTLR_EL2_M \<noteq> 0)\<rparr>\<rparr>"

section \<open>The platform (plat/common, plat/fvp)\<close>

definition VIRT_ADDR_SPACE_SIZE :: u64 where [word_consts]: "VIRT_ADDR_SPACE_SIZE = push_bit 38 1"
definition PLAT_CMN_MAX_MMAP_REGIONS :: nat where [word_consts]: "PLAT_CMN_MAX_MMAP_REGIONS = 5"
definition PLAT_CMN_CTX_MAX_XLAT_TABLES :: nat where [word_consts]: "PLAT_CMN_CTX_MAX_XLAT_TABLES = 5"
definition RMM_UART_ADDR :: u64 where [word_consts]: "RMM_UART_ADDR = 0x1c0c0000"

text \<open>The addresses that the linker gives to the parts of the image and to the tables.\<close>

record rmm_layout =
  RMM_CODE_START :: u64
  RMM_CODE_END :: u64
  RMM_RO_START :: u64
  RMM_RO_END :: u64
  RMM_RW_START :: u64
  RMM_RW_END :: u64
  runtime_base_xlat_table :: u64
  runtime_xlat_tables :: u64
  transient_base_table :: u64

definition RMM_SHARED_BUFFER_START :: "rmm_layout \<Rightarrow> u64" where
  "RMM_SHARED_BUFFER_START l = RMM_RW_END l + 0x1000"

definition RMM_CODE :: "rmm_layout \<Rightarrow> xlat_mmap_region" where
  "RMM_CODE l = MAP_REGION_FLAT (RMM_CODE_START l) (RMM_CODE_END l - RMM_CODE_START l) (MT_CODE OR MT_REALM)"
definition RMM_RO :: "rmm_layout \<Rightarrow> xlat_mmap_region" where
  "RMM_RO l = MAP_REGION_FLAT (RMM_RO_START l) (RMM_RO_END l - RMM_RO_START l) (MT_RO_DATA OR MT_REALM)"
definition RMM_RW :: "rmm_layout \<Rightarrow> xlat_mmap_region" where
  "RMM_RW l = MAP_REGION_FLAT (RMM_RW_START l) (RMM_RW_END l - RMM_RW_START l) (MT_RW_DATA OR MT_REALM)"
definition RMM_SHARED :: "rmm_layout \<Rightarrow> xlat_mmap_region" where
  "RMM_SHARED l = MAP_REGION 0 (RMM_SHARED_BUFFER_START l) 0 (MT_RW_DATA OR MT_REALM)"

definition FVP_RMM_UART :: xlat_mmap_region where
  "FVP_RMM_UART = MAP_REGION_FLAT RMM_UART_ADDR 0x1000 (MT_DEVICE OR MT_RW OR MT_REALM)"
definition plat_regions :: "xlat_mmap_region list" where
  "plat_regions = [FVP_RMM_UART, empty_region]"

text \<open>The static context of the runtime.\<close>

definition runtime_ctx_reset :: "rmm_layout \<Rightarrow> (u64 \<Rightarrow> u64) \<Rightarrow> xlat_ctx" where
  "runtime_ctx_reset l m =
     \<lparr>ctx_cfg = Some (XLAT_REGISTER_VA_SPACE VA_LOW_REGION PLAT_CMN_MAX_MMAP_REGIONS VIRT_ADDR_SPACE_SIZE),
      ctx_tbls = Some (XLAT_CREATE_TABLES (runtime_xlat_tables l) PLAT_CMN_CTX_MAX_XLAT_TABLES
                         (runtime_base_xlat_table l) VIRT_ADDR_SPACE_SIZE),
      tmem = m, tlbi_log = []\<rparr>"

record 'o boot_world =
  cold_boot_flag :: bool
  b_attest :: "'o attest"
  runtime_xlat_ctx :: xlat_ctx
  b_slots :: slot_bufs
  gic_virt_feature :: "gic_virt_feature_s option"
  b_regs :: "nat \<Rightarrow> el2_regs"

text \<open>
  What a CPU reads of its hardware: identification registers, the features of the interrupt
  controller, the presence of MPAM, SPE and of the random number instruction.
\<close>

record hw =
  hw_arch :: arch_regs
  hw_vtr :: u64
  hw_icc_ctlr :: u64
  hw_mpam :: bool
  hw_spe :: bool
  hw_rng :: bool

definition plat_cmn_setup ::
  "hw \<Rightarrow> rmm_layout \<Rightarrow> (u64 \<Rightarrow> rmm_core_manifest) \<Rightarrow> nat \<Rightarrow> u64 \<Rightarrow> u64 \<Rightarrow> u64 \<Rightarrow> u64 \<Rightarrow> xlat_mmap_region list
     \<Rightarrow> 'o boot_world \<Rightarrow> (u64 + errno \<times> 'o boot_world) option" where
  "plat_cmn_setup H l manifest_at cpu x0 x1 x2 x3 regions s = do {
     let mmu = is_mmu_enabled (b_regs s cpu);
     r \<leftarrow> rmm_el3_ifc_init mmu manifest_at x0 x1 x2 x3 (RMM_SHARED_BUFFER_START l) (a_ifc (b_attest s));
     (case r of
        Inl code \<Rightarrow> Some (Inl code)
      | Inr e \<Rightarrow> do {
          let s = s\<lparr>b_attest := (b_attest s)\<lparr>a_ifc := e\<rparr>\<rparr>;
          (ret, x) \<leftarrow> xlat_mmap_add_ctx (hw_arch H) regions False (runtime_xlat_ctx s);
          if ret \<noteq> E_OK then Some (Inr (ret, s\<lparr>runtime_xlat_ctx := x\<rparr>))
          else do {
            pa \<leftarrow> rmm_el3_ifc_get_shared_buf_pa e;
            let shared = (RMM_SHARED l)\<lparr>base_pa := pa, mm_size := rmm_el3_ifc_get_shared_buf_size\<rparr>;
            (ret, x) \<leftarrow> xlat_mmap_add_ctx (hw_arch H) [RMM_CODE l, RMM_RO l, RMM_RW l, shared, empty_region] True x;
            if ret \<noteq> E_OK then Some (Inr (ret, s\<lparr>runtime_xlat_ctx := x\<rparr>))
            else do {
              (ret, x) \<leftarrow> xlat_init_tables_ctx mmu x;
              let s = s\<lparr>runtime_xlat_ctx := x\<rparr>;
              if ret \<noteq> E_OK then Some (Inr (ret, s))
              else do {
                gic \<leftarrow> gic_get_virt_features (hw_vtr H) (hw_icc_ctlr H);
                Some (Inr (E_OK, s\<lparr>gic_virt_feature := Some gic\<rparr>))
              }
            }
          }
        })
   }"

definition plat_cmn_warmboot_setup ::
  "hw \<Rightarrow> rmm_layout \<Rightarrow> nat \<Rightarrow> 'o boot_world \<Rightarrow> (errno \<times> 'o boot_world) option" where
  "plat_cmn_warmboot_setup H l cpu s = do {
     (ret, m) \<leftarrow> xlat_arch_setup_mmu_cfg (hw_arch H) (runtime_xlat_ctx s) (r_mmu (b_regs s cpu));
     let s = s\<lparr>b_regs := (b_regs s)(cpu := (b_regs s cpu)\<lparr>r_mmu := m\<rparr>)\<rparr>;
     if ret \<noteq> E_OK then Some (ret, s)
     else do {
       (m, b) \<leftarrow> slot_buf_setup_xlat (hw_arch H) (transient_base_table l) cpu m (b_slots s);
       Some (E_OK, s\<lparr>b_slots := b, b_regs := (b_regs s)(cpu := (b_regs s cpu)\<lparr>r_mmu := m\<rparr>)\<rparr>)
     }
   }"

definition plat_warmboot_setup :: "hw \<Rightarrow> rmm_layout \<Rightarrow> nat \<Rightarrow> 'o boot_world \<Rightarrow> 'o boot_world option" where
  "plat_warmboot_setup H l cpu s = do {
     (ret, s) \<leftarrow> plat_cmn_warmboot_setup H l cpu s;
     assert_c (ret = E_OK);
     Some s
   }"

definition plat_setup ::
  "hw \<Rightarrow> rmm_layout \<Rightarrow> (u64 \<Rightarrow> rmm_core_manifest) \<Rightarrow> nat \<Rightarrow> u64 \<Rightarrow> u64 \<Rightarrow> u64 \<Rightarrow> u64 \<Rightarrow> 'o boot_world
     \<Rightarrow> (u64 + 'o boot_world) option" where
  "plat_setup H l manifest_at cpu x0 x1 x2 x3 s = do {
     r \<leftarrow> plat_cmn_setup H l manifest_at cpu x0 x1 x2 x3 plat_regions s;
     (case r of
        Inl code \<Rightarrow> Some (Inl code)
      | Inr (ret, s) \<Rightarrow> do {
          assert_c (ret = E_OK);
          s \<leftarrow> plat_warmboot_setup H l cpu s;
          Some (Inr s)
        })
   }"

section \<open>The runtime (init.c, enable_mmu.S)\<close>

definition xlat_enable_mmu_el2 :: "el2_regs \<Rightarrow> el2_regs" where
  "xlat_enable_mmu_el2 r =
     write_sctlr (r_sctlr r OR (SCTLR_EL2_WXN OR SCTLR_EL2_M)) (r\<lparr>r_hcr := r_hcr r OR HCR_RW_BIT\<rparr>)"

definition rmm_arch_init :: "hw \<Rightarrow> el2_regs \<Rightarrow> el2_regs" where
  "rmm_arch_init H r =
     (let r = (if hw_mpam H then r\<lparr>r_mpam2 := 0, r_mpamhcr := 0\<rparr> else r);
          r = (if hw_spe H then r\<lparr>r_pmscr := 0\<rparr> else r)
      in r\<lparr>r_cnthctl := CNTHCTL_EL2_INIT, r_mdcr := MDCR_EL2_INIT\<rparr>)"

definition rmm_warmboot_main :: "hw \<Rightarrow> nat \<Rightarrow> 'o boot_world \<Rightarrow> 'o boot_world option" where
  "rmm_warmboot_main H cpu s = do {
     let s = s\<lparr>b_regs := (b_regs s)(cpu := rmm_arch_init H (b_regs s cpu))\<rparr>;
     b \<leftarrow> slot_buf_init (is_mmu_enabled (b_regs s cpu)) cpu (b_slots s);
     Some (s\<lparr>b_slots := b\<rparr>)
   }"

text \<open>A failure of the attestation is only reported on the console; the boot goes on.\<close>

record 'o attest_env =
  e_mbed :: "'o mbedtls"
  e_alloc :: alloc_params
  e_el3 :: el3_monitor
  e_entropy :: "nat \<Rightarrow> u64 option"
  e_init_ctx :: u64
  e_mem_buf :: u64

definition rmm_main :: "hw \<Rightarrow> 'o attest_env \<Rightarrow> nat \<Rightarrow> 'o boot_world \<Rightarrow> 'o boot_world option" where
  "rmm_main H E cpu s = do {
     v \<leftarrow> rmm_el3_ifc_get_version (a_ifc (b_attest s));
     mv \<leftarrow> rmm_el3_ifc_get_manifest_version (a_ifc (b_attest s));
     s \<leftarrow> rmm_warmboot_main H cpu s;
     (ret, a) \<leftarrow> attestation_init (e_mbed E) (e_alloc E) (e_el3 E) (hw_rng H) (e_entropy E)
                   (e_init_ctx E) (e_mem_buf E) cpu (b_attest s);
     Some (s\<lparr>b_attest := a\<rparr>)
   }"

section \<open>The entry point (head.S)\<close>

definition rmm_el3_ifc_validate_cpuid :: "u64 \<Rightarrow> el2_regs \<Rightarrow> u64 + el2_regs" where
  "rmm_el3_ifc_validate_cpuid x0 r =
     (if x0 \<ge> of_nat MAX_CPUS then Inl E_RMM_BOOT_CPU_ID_OUT_OF_RANGE else Inr (r\<lparr>r_tpidr := x0\<rparr>))"

definition boot_reg_init :: "el2_regs \<Rightarrow> el2_regs" where
  "boot_reg_init r =
     (write_sctlr SCTLR_EL2_INIT r)\<lparr>r_hcr := HCR_EL2_INIT, r_cptr := CPTR_EL2_BOOT_INIT, r_icc_sre := ICC_SRE_EL2_INIT\<rparr>"

text \<open>
  Zeroing of the section of uninitialised data, which holds the state of the interface to EL3
  and of the slot buffers; their tables and the context of the runtime lie elsewhere.
\<close>

definition bss_init :: "'o boot_world \<Rightarrow> 'o boot_world" where
  "bss_init s =
     s\<lparr>b_attest := \<lparr>a_ifc = el3_ifc_reset\<lparr>shared_mem := shared_mem (a_ifc (b_attest s))\<rparr>,
         a_heaps = \<lparr>ctx_per_cpu = replicate MAX_CPUS 0, ctx_at = (\<lambda>_. ctx_zero), heap_bytes = heap_bytes (a_heaps (b_attest s))\<rparr>,
         attest_initialized = False, ecp_max_ops = 0, cpu_drbg_ctx = (\<lambda>_. None), prng_init_done = False,
         realm_attest_keypair_d = None, realm_attest_keypair_Q = None, realm_attest_public_key = [],
         realm_attest_public_key_hash = [], rmm_platform_token = None\<rparr>,
       b_slots := (slot_bufs_reset (slot_mem (b_slots s)))\<lparr>slot_tlbi := slot_tlbi (b_slots s)\<rparr>,
       gic_virt_feature := None\<rparr>"

text \<open>
  The entry of a CPU, up to the report of success to EL3.  The second component of the result is
  true if the CPU took the cold path.
\<close>

definition rmm_entry ::
  "hw \<Rightarrow> rmm_layout \<Rightarrow> 'o attest_env \<Rightarrow> (u64 \<Rightarrow> rmm_core_manifest) \<Rightarrow> u64 \<Rightarrow> u64 \<Rightarrow> u64 \<Rightarrow> u64
     \<Rightarrow> 'o boot_world \<Rightarrow> (u64 + 'o boot_world) option" where
  "rmm_entry H l E manifest_at x0 x1 x2 x3 s =
     (case rmm_el3_ifc_validate_cpuid x0 (boot_reg_init (b_regs s (unat x0))) of
        Inl code \<Rightarrow> Some (Inl code)
      | Inr r \<Rightarrow>
          let cpu = unat x0; s = s\<lparr>b_regs := (b_regs s)(cpu := r\<lparr>r_vbar_set := True\<rparr>)\<rparr>
          in if \<not> cold_boot_flag s then do {
               s \<leftarrow> plat_warmboot_setup H l cpu s;
               let s = s\<lparr>b_regs := (b_regs s)(cpu := xlat_enable_mmu_el2 (b_regs s cpu))\<rparr>;
               s \<leftarrow> rmm_warmboot_main H cpu s;
               Some (Inr s)
             } else do {
               let s = bss_init (s\<lparr>cold_boot_flag := False\<rparr>);
               r \<leftarrow> plat_setup H l manifest_at cpu x0 x1 x2 x3 s;
               (case r of
                  Inl code \<Rightarrow> Some (Inl code)
                | Inr s \<Rightarrow> do {
                    let s = s\<lparr>b_regs := (b_regs s)(cpu := xlat_enable_mmu_el2 (b_regs s cpu))\<rparr>;
                    s \<leftarrow> rmm_main H E cpu s;
                    Some (Inr s)
                  })
             })"

end
