(* ===== verification/Xlat_Correct.thy ===== *)
theory Xlat_Correct
  imports Xlat_Tables
begin

text \<open>
  Correctness of the translation tables of the monitor, first part: what a descriptor encodes,
  and the list of regions of a context, which stays sorted and free of overlaps.
\<close>

section \<open>Descriptors\<close>

text \<open>The fields of a descriptor as the hardware reads them.\<close>

definition desc_pa :: "u64 \<Rightarrow> u64" where "desc_pa d = d AND TABLE_ADDR_MASK"
definition desc_valid :: "u64 \<Rightarrow> bool" where "desc_valid d \<longleftrightarrow> bit d 0"
definition desc_nonsecure :: "u64 \<Rightarrow> bool" where "desc_nonsecure d \<longleftrightarrow> bit d 5"
definition desc_writable :: "u64 \<Rightarrow> bool" where "desc_writable d \<longleftrightarrow> \<not> bit d 7"
definition desc_executable :: "u64 \<Rightarrow> bool" where "desc_executable d \<longleftrightarrow> \<not> bit d 53"
definition desc_user_executable :: "u64 \<Rightarrow> bool" where "desc_user_executable d \<longleftrightarrow> \<not> bit d 54"

lemma and_push:
  "(w :: u64) AND push_bit n 1 = (if bit w n then push_bit n 1 else 0)"
  by (rule bit_word_eqI) (auto simp: bit_simps)

text \<open>An attribute value with the type of a transient region gives an invalid entry.\<close>

lemma xlat_desc_transient: "MT_TYPE attr = MT_TRANSIENT \<Longrightarrow> xlat_desc attr pa level = Some 0"
  by (simp add: xlat_desc_def)

lemma pa_bits:
  assumes "pa AND TABLE_ADDR_MASK = (pa :: u64)"
  shows "\<not> bit pa 0" "\<not> bit pa 5" "\<not> bit pa 7" "\<not> bit pa 53" "\<not> bit pa 54" "\<not> bit pa 1"
proof -
  have "bit pa n \<longleftrightarrow> bit pa n \<and> bit TABLE_ADDR_MASK n" for n
    by (metis assms bit_and_iff)
  from this [of 0] this [of 5] this [of 7] this [of 53] this [of 54] this [of 1]
  show "\<not> bit pa 0" "\<not> bit pa 5" "\<not> bit pa 7" "\<not> bit pa 53" "\<not> bit pa 54" "\<not> bit pa 1"
    by (simp_all add: TABLE_ADDR_MASK_def)
qed

lemma MT_flag_bits:
  "attr AND MT_RW \<noteq> 0 \<longleftrightarrow> bit attr 4" "attr AND MT_EXECUTE_NEVER \<noteq> 0 \<longleftrightarrow> bit attr 5"
  "attr AND MT_CONT \<noteq> 0 \<longleftrightarrow> bit attr 6" "attr AND MT_NG \<noteq> 0 \<longleftrightarrow> bit attr 7"
  unfolding MT_RW_def MT_EXECUTE_NEVER_def MT_CONT_def MT_NG_def and_push by simp_all

lemma MT_PAS_bit: "MT_PAS attr = (if bit attr 10 then MT_NS else MT_REALM)"
  unfolding MT_PAS_def MT_NS_def MT_REALM_def and_push by (rule refl)

lemma MT_NS_neq [simp]: "MT_NS \<noteq> MT_REALM" "MT_REALM \<noteq> MT_NS"
  by (simp_all add: MT_NS_def MT_REALM_def)

text \<open>Which attributes have a descriptor.\<close>

definition mt_known :: "u64 \<Rightarrow> bool" where
  "mt_known attr \<longleftrightarrow> MT_TYPE attr \<in> {MT_DEVICE, MT_NON_CACHEABLE, MT_MEMORY}"

text \<open>The bits of a descriptor besides the address.\<close>

definition share_bits :: "u64 \<Rightarrow> u64" where
  "share_bits attr =
     (if MT_TYPE attr = MT_DEVICE then LOWER_ATTRS (ATTR_DEVICE_INDEX OR OSH)
      else if MT_TYPE attr = MT_NON_CACHEABLE then LOWER_ATTRS (ATTR_NON_CACHEABLE_INDEX OR OSH)
      else if MT_SHAREABILITY attr = MT_SHAREABILITY_NSH then LOWER_ATTRS NSH
      else if MT_SHAREABILITY attr = MT_SHAREABILITY_OSH then LOWER_ATTRS OSH else LOWER_ATTRS ISH)"

definition attr_bits :: "u64 \<Rightarrow> nat \<Rightarrow> u64" where
  "attr_bits attr level =
     (if level = XLAT_TABLE_LEVEL_MAX then PAGE_DESC else BLOCK_DESC) OR LOWER_ATTRS ACCESS_FLAG
     OR (if bit attr 10 then LOWER_ATTRS NS_ATTR else 0)
     OR (if bit attr 4 then LOWER_ATTRS AP_RW else LOWER_ATTRS AP_RO)
     OR (if bit attr 6 then UPPER_ATTRS CONT_HINT else 0) OR (if bit attr 7 then LOWER_ATTRS NG_HINT else 0)
     OR UPPER_ATTRS UXN
     OR (if MT_TYPE attr = MT_DEVICE \<or> bit attr 4 \<or> bit attr 5 then UPPER_ATTRS PXN else 0)
     OR share_bits attr"

lemma xlat_arch_get_pas_eq: "xlat_arch_get_pas attr = Some (if bit attr 10 then LOWER_ATTRS NS_ATTR else 0)"
  by (simp add: xlat_arch_get_pas_def MT_PAS_bit)

lemma or_if: "(if c then x OR y else x) = x OR (if c then y else (0 :: u64))"
  by simp

lemma xlat_desc_eq:
  assumes "mt_known attr"
  shows "xlat_desc attr pa level = Some (pa OR attr_bits attr level)"
proof -
  have n: "MT_DEVICE \<noteq> MT_TRANSIENT" "MT_NON_CACHEABLE \<noteq> MT_TRANSIENT" "MT_MEMORY \<noteq> MT_TRANSIENT"
    "MT_NON_CACHEABLE \<noteq> MT_DEVICE" "MT_MEMORY \<noteq> MT_DEVICE" "MT_MEMORY \<noteq> MT_NON_CACHEABLE"
    "MT_DEVICE \<noteq> MT_MEMORY" "MT_NON_CACHEABLE \<noteq> MT_MEMORY" "MT_DEVICE \<noteq> MT_NON_CACHEABLE"
    "LOWER_ATTRS ATTR_IWBWA_OWBWA_NTR_INDEX = 0" "LOWER_ATTRS AP_RW = 0"
    by (simp_all add: xlat_consts)
  from assms consider "MT_TYPE attr = MT_DEVICE" | "MT_TYPE attr = MT_NON_CACHEABLE" | "MT_TYPE attr = MT_MEMORY"
    by (auto simp: mt_known_def)
  then show ?thesis
  proof cases
    case 1
    then show ?thesis
      by (simp add: n xlat_desc_def attr_bits_def share_bits_def Let_def xlat_arch_get_pas_eq MT_flag_bits
          or_if or.assoc or.commute [of "LOWER_ATTRS (ATTR_DEVICE_INDEX OR OSH)"] split del: if_split)
  next
    case 2
    then show ?thesis
      by (simp add: n xlat_desc_def attr_bits_def share_bits_def Let_def xlat_arch_get_pas_eq MT_flag_bits
          or_if or.assoc or.commute [of "LOWER_ATTRS (ATTR_DEVICE_INDEX OR OSH)"] split del: if_split)
  next
    case 3
    then show ?thesis
      by (simp add: n xlat_desc_def attr_bits_def share_bits_def Let_def xlat_arch_get_pas_eq MT_flag_bits
          or_if or.assoc or.commute [of "LOWER_ATTRS (ATTR_DEVICE_INDEX OR OSH)"] split del: if_split)
  qed
qed

lemma attr_bits_bits:
  "\<not> bit (share_bits attr) 0" "\<not> bit (share_bits attr) 1" "\<not> bit (share_bits attr) 5" "\<not> bit (share_bits attr) 7"
  "\<not> bit (share_bits attr) 53" "\<not> bit (share_bits attr) 54" "share_bits attr AND TABLE_ADDR_MASK = 0"
  by (simp_all add: share_bits_def xlat_consts)

lemma attr_bits_fields:
  "bit (attr_bits attr level) 0" "bit (attr_bits attr level) 1 \<longleftrightarrow> level = XLAT_TABLE_LEVEL_MAX"
  "bit (attr_bits attr level) 5 \<longleftrightarrow> bit attr 10" "bit (attr_bits attr level) 7 \<longleftrightarrow> \<not> bit attr 4"
  "bit (attr_bits attr level) 53 \<longleftrightarrow> MT_TYPE attr = MT_DEVICE \<or> bit attr 4 \<or> bit attr 5"
  "bit (attr_bits attr level) 54"
  unfolding attr_bits_def bit_or_iff using attr_bits_bits [of attr] by (simp_all add: xlat_consts)

lemma attr_bits_pa: "attr_bits attr level AND TABLE_ADDR_MASK = 0"
  using attr_bits_bits(7) [of attr] unfolding attr_bits_def bit.conj_disj_distrib2
  by (simp add: xlat_consts)

text \<open>What the hardware reads from the entry for an address and attributes.\<close>

lemma xlat_desc_fields:
  assumes "mt_known attr" and pa: "pa AND TABLE_ADDR_MASK = pa"
  obtains d where "xlat_desc attr pa level = Some d" "desc_pa d = pa" "desc_valid d"
    "bit d 1 \<longleftrightarrow> level = XLAT_TABLE_LEVEL_MAX" "desc_nonsecure d \<longleftrightarrow> bit attr 10" "desc_writable d \<longleftrightarrow> bit attr 4"
    "desc_executable d \<longleftrightarrow> MT_TYPE attr \<noteq> MT_DEVICE \<and> \<not> bit attr 4 \<and> \<not> bit attr 5"
    "\<not> desc_user_executable d"
proof
  show "xlat_desc attr pa level = Some (pa OR attr_bits attr level)" by (rule xlat_desc_eq [OF assms(1)])
  show "desc_pa (pa OR attr_bits attr level) = pa"
    by (simp add: desc_pa_def bit.conj_disj_distrib2 attr_bits_pa pa)
qed (simp_all add: desc_valid_def desc_nonsecure_def desc_writable_def desc_executable_def
    desc_user_executable_def bit_or_iff attr_bits_fields attr_bits_fields(2) [unfolded One_nat_def]
    pa_bits [OF pa] pa_bits(6) [OF pa, unfolded One_nat_def])

section \<open>The list of regions\<close>

definition va_end :: "xlat_mmap_region \<Rightarrow> u64" where "va_end r = base_va r + mm_size r - 1"
definition pa_end :: "xlat_mmap_region \<Rightarrow> u64" where "pa_end r = base_pa r + mm_size r - 1"

text \<open>The regions in use, which an empty one ends.\<close>

definition live_regions :: "xlat_mmap_region list \<Rightarrow> xlat_mmap_region list" where
  "live_regions ms = takeWhile (\<lambda>r. mm_size r \<noteq> 0) ms"

definition region_ok :: "xlat_mmap_region \<Rightarrow> bool" where
  "region_ok r \<longleftrightarrow> mm_size r \<noteq> 0 \<and> IS_PAGE_ALIGNED (base_pa r) \<and> IS_PAGE_ALIGNED (base_va r)
     \<and> IS_PAGE_ALIGNED (mm_size r) \<and> base_pa r \<le> pa_end r \<and> base_va r \<le> va_end r
     \<and> granularity r \<in> {XLAT_BLOCK_SIZE 1, XLAT_BLOCK_SIZE 2, XLAT_BLOCK_SIZE 3}"

text \<open>
  Regions in ascending order of their virtual addresses, none of which meets another, neither
  in virtual nor in physical memory; behind them only empty ones.
\<close>

definition regions_ok :: "xlat_mmap_region list \<Rightarrow> bool" where
  "regions_ok ms \<longleftrightarrow> list_all region_ok (live_regions ms)
     \<and> list_all (\<lambda>r. mm_size r = 0) (drop (length (live_regions ms)) ms)
     \<and> sorted_wrt (\<lambda>a b. va_end a < base_va b) (live_regions ms)
     \<and> sorted_wrt (\<lambda>a b. separated (base_pa a) (pa_end a) (base_pa b) (pa_end b)) (live_regions ms)"

lemma region_overlap_iff:
  "\<not> region_overlap mm ms \<longleftrightarrow>
     (\<forall>c \<in> set (live_regions ms). separated (base_va mm) (va_end mm) (base_va c) (va_end c)
                        \<and> separated (base_pa mm) (pa_end mm) (base_pa c) (pa_end c))"
  by (induction ms) (auto simp: live_regions_def va_end_def pa_end_def)

lemma mm_last_live: "mm_last ms = length (live_regions ms)"
  by (induction ms) (auto simp: live_regions_def)

text \<open>The cursor stops behind the regions that lie below the new one.\<close>

lemma mm_cursor_live:
  assumes "length (live_regions ms) < length ms"
  shows "mm_cursor va ms = Some (length (takeWhile (\<lambda>r. base_va r < va) (live_regions ms)))"
  using assms by (induction ms) (auto simp: live_regions_def)

lemma take_live [simp]: "take (length (live_regions ms)) ms = live_regions ms"
  by (simp add: live_regions_def takeWhile_eq_take [symmetric])

lemma insert_region_live:
  assumes "length (live_regions ms) < length ms"
  shows "insert_region mm ms =
    Some (takeWhile (\<lambda>r. base_va r < base_va mm) (live_regions ms) @ mm # dropWhile (\<lambda>r. base_va r < base_va mm) (live_regions ms)
          @ drop (Suc (length (live_regions ms))) ms)"
proof -
  let ?P = "\<lambda>r. base_va r < base_va mm"
  let ?k = "length (takeWhile ?P (live_regions ms))"
  have k: "?k \<le> length (live_regions ms)" by (rule length_takeWhile_le)
  have "mm_size (ms ! length (live_regions ms)) = 0"
    using nth_length_takeWhile [of "\<lambda>r. mm_size r \<noteq> 0" ms] assms by (simp add: live_regions_def)
  moreover have "take ?k ms = takeWhile ?P (live_regions ms)"
    by (metis k take_live take_take min.absorb1 takeWhile_eq_take)
  moreover have "drop ?k (live_regions ms) = dropWhile ?P (live_regions ms)" by (simp add: dropWhile_eq_drop)
  ultimately show ?thesis
    using assms by (simp add: insert_region_def mm_cursor_live mm_last_live)
qed

lemma sorted_wrt_insert:
  assumes "sorted_wrt R xs" and "\<And>a. a \<in> set xs \<Longrightarrow> P a \<Longrightarrow> R a y"
    and "\<And>a. a \<in> set (dropWhile P xs) \<Longrightarrow> R y a"
  shows "sorted_wrt R (takeWhile P xs @ y # dropWhile P xs)"
proof -
  have "sorted_wrt R (takeWhile P xs @ dropWhile P xs)" using assms(1) by simp
  then have "sorted_wrt R (takeWhile P xs)" "sorted_wrt R (dropWhile P xs)"
    "\<forall>a\<in>set (takeWhile P xs). \<forall>b\<in>set (dropWhile P xs). R a b"
    unfolding sorted_wrt_append by blast+
  moreover have "\<forall>a\<in>set (takeWhile P xs). R a y" using assms(2) set_takeWhileD by metis
  ultimately show ?thesis using assms(3) by (auto simp: sorted_wrt_append)
qed

lemma separated_sym: "separated a b c d = separated c d a b"
  by (auto simp: separated_def)

text \<open>All regions from the cursor on lie above the new one.\<close>

lemma above_cursor:
  assumes "sorted_wrt (\<lambda>a b. va_end a < base_va b) xs" and "list_all region_ok xs"
    and "a \<in> set (dropWhile (\<lambda>r. base_va r < va) xs)"
  shows "va \<le> base_va a"
  using assms
proof (induction xs)
  case (Cons x xs)
  show ?case
  proof (cases "base_va x < va")
    case False
    have "x = a \<or> va_end x < base_va a" using Cons.prems False by auto
    moreover have "base_va x \<le> va_end x" using Cons.prems(2) by (simp add: region_ok_def)
    ultimately show ?thesis using False by auto
  qed (use Cons in auto)
qed simp

lemma live_append:
  assumes "list_all region_ok xs" and "list_all (\<lambda>r. mm_size r = 0) ys"
  shows "live_regions (xs @ ys) = xs"
proof -
  have "takeWhile (\<lambda>r. mm_size r \<noteq> 0) (xs @ ys) = xs @ takeWhile (\<lambda>r. mm_size r \<noteq> 0) ys"
    by (rule takeWhile_append2) (use assms(1) in \<open>simp add: list_all_iff region_ok_def\<close>)
  moreover have "takeWhile (\<lambda>r. mm_size r \<noteq> 0) ys = []" using assms(2) by (cases ys) simp_all
  ultimately show ?thesis by (simp add: live_regions_def)
qed

lemma insert_regions_ok:
  assumes ok: "regions_ok ms" and new: "region_ok mm" and free: "\<not> region_overlap mm ms"
    and room: "length (live_regions ms) < length ms" and ins: "insert_region mm ms = Some ms'"
  shows "regions_ok ms' \<and> length ms' = length ms \<and> set (live_regions ms') = insert mm (set (live_regions ms))"
proof -
  let ?P = "\<lambda>r. base_va r < base_va mm"
  let ?new = "takeWhile ?P (live_regions ms) @ mm # dropWhile ?P (live_regions ms)"
  have ms': "ms' = ?new @ drop (Suc (length (live_regions ms))) ms"
    using ins insert_region_live [OF room, of mm] by simp
  have rok: "list_all region_ok (live_regions ms)" and sva: "sorted_wrt (\<lambda>a b. va_end a < base_va b) (live_regions ms)"
    and spa: "sorted_wrt (\<lambda>a b. separated (base_pa a) (pa_end a) (base_pa b) (pa_end b)) (live_regions ms)"
    and empty: "list_all (\<lambda>r. mm_size r = 0) (drop (length (live_regions ms)) ms)"
    using ok by (simp_all add: regions_ok_def)
  have set_new: "set ?new = insert mm (set (live_regions ms))"
    by (metis (no_types, lifting) Un_insert_right list.simps(15) set_append takeWhile_dropWhile_id)
  have new_ok: "list_all region_ok ?new"
    using rok new set_new by (simp only: list_all_iff) auto
  have rest: "list_all (\<lambda>r. mm_size r = 0) (drop (Suc (length (live_regions ms))) ms)"
    using empty set_drop_subset_set_drop [of "length (live_regions ms)" "Suc (length (live_regions ms))" ms]
    by (auto simp: list_all_iff)
  have live_regions': "live_regions ms' = ?new"
    unfolding ms' by (rule live_append [OF new_ok rest])
  have sep: "separated (base_va mm) (va_end mm) (base_va c) (va_end c)
      \<and> separated (base_pa mm) (pa_end mm) (base_pa c) (pa_end c)" if "c \<in> set (live_regions ms)" for c
    using free that by (simp add: region_overlap_iff)
  have mm: "base_va mm \<le> va_end mm" using new by (simp add: region_ok_def)
  have s1: "sorted_wrt (\<lambda>a b. va_end a < base_va b) ?new"
  proof (rule sorted_wrt_insert [OF sva])
    fix a assume "a \<in> set (live_regions ms)" "base_va a < base_va mm"
    then show "va_end a < base_va mm" using sep [of a] mm by (auto simp: separated_def)
  next
    fix a assume a: "a \<in> set (dropWhile ?P (live_regions ms))"
    then have "a \<in> set (live_regions ms)" by (rule set_dropWhileD)
    moreover have "base_va mm \<le> base_va a" by (rule above_cursor [OF sva rok a])
    moreover have "base_va a \<le> va_end a" using rok calculation(1) by (auto simp: list_all_iff region_ok_def)
    ultimately show "va_end mm < base_va a" using sep [of a] by (auto simp: separated_def)
  qed
  have s2: "sorted_wrt (\<lambda>a b. separated (base_pa a) (pa_end a) (base_pa b) (pa_end b)) ?new"
  proof (rule sorted_wrt_insert [OF spa])
    fix a assume "a \<in> set (live_regions ms)"
    then show "separated (base_pa a) (pa_end a) (base_pa mm) (pa_end mm)"
      using sep [of a] separated_sym by blast
  next
    fix a assume "a \<in> set (dropWhile ?P (live_regions ms))"
    from set_dropWhileD [OF this] show "separated (base_pa mm) (pa_end mm) (base_pa a) (pa_end a)"
      using sep [of a] by blast
  qed
  have "length ms' = length ms"
  proof -
    have "length (takeWhile ?P (live_regions ms)) + length (dropWhile ?P (live_regions ms)) = length (live_regions ms)"
      by (metis length_append takeWhile_dropWhile_id)
    then show ?thesis using room by (simp add: ms')
  qed
  moreover have "drop (length (live_regions ms')) ms' = drop (Suc (length (live_regions ms))) ms"
    unfolding live_regions' using append_eq_conv_conj [THEN iffD1, OF ms' [symmetric]] by metis
  ultimately show ?thesis
    using new_ok rest s1 s2 set_new by (simp add: regions_ok_def live_regions')
qed

lemma mmap_add_region_check_OK:
  assumes "mmap_add_region_check ar cfg mm = Some E_OK" and "mm_size mm \<noteq> 0"
  shows "region_ok mm \<and> \<not> region_overlap mm (cfg_mmap cfg) \<and> va_end mm \<le> max_va_size cfg
    \<and> cfg_mmap cfg \<noteq> [] \<and> mm_size (last (cfg_mmap cfg)) = 0"
proof -
  note chk = assms(1) [unfolded mmap_add_region_check_def Let_def va_end_def [symmetric] pa_end_def [symmetric]]
  have "IS_PAGE_ALIGNED (base_pa mm) \<and> IS_PAGE_ALIGNED (base_va mm) \<and> IS_PAGE_ALIGNED (mm_size mm)"
    "granularity mm \<in> {XLAT_BLOCK_SIZE 1, XLAT_BLOCK_SIZE 2, XLAT_BLOCK_SIZE 3}"
    "base_pa mm \<le> pa_end mm \<and> base_va mm \<le> va_end mm" "va_end mm \<le> max_va_size cfg"
    using chk by (simp_all add: linorder_not_less split: if_split_asm)
  moreover have "\<not> region_overlap mm (cfg_mmap cfg) \<and> cfg_mmap cfg \<noteq> [] \<and> mm_size (last (cfg_mmap cfg)) = 0"
    using chk by (cases "xlat_arch_get_max_supported_pa ar"; cases "cfg_mmap cfg = []") (simp_all split: if_split_asm)
  ultimately show ?thesis using assms(2) by (simp add: region_ok_def)
qed

lemma live_room:
  assumes "ms \<noteq> []" and "mm_size (last ms) = 0"
  shows "length (live_regions ms) < length ms"
proof -
  have "length (live_regions ms) \<noteq> length ms"
  proof
    assume "length (live_regions ms) = length ms"
    then have "live_regions ms = ms" by (metis take_live take_all order_refl)
    then have "last ms \<in> set (live_regions ms)" using assms(1) by simp
    then have "mm_size (last ms) \<noteq> 0" unfolding live_regions_def by (rule set_takeWhileD [THEN conjunct2])
    then show False using assms(2) by simp
  qed
  moreover have "length (live_regions ms) \<le> length ms" unfolding live_regions_def by (rule length_takeWhile_le)
  ultimately show ?thesis by simp
qed

lemma mmap_add_region_check_returns:
  assumes "arch_feat_get_pa_width ar \<noteq> None" and "cfg_mmap cfg \<noteq> []"
  shows "\<exists>ret. mmap_add_region_check ar cfg mm = Some ret"
proof -
  from assms(1) obtain p where "xlat_arch_get_max_supported_pa ar = Some p"
    by (auto simp: xlat_arch_get_max_supported_pa_def)
  with assms(2) show ?thesis by (simp add: mmap_add_region_check_def Let_def)
qed

text \<open>
  Adding a region to a context whose list is in order: the list stays in order, and it gains
  the region, at its offset in the address space of the context, if and only if the call
  succeeds.
\<close>

definition region_added :: "xlat_mmap_region \<Rightarrow> xlat_ctx_cfg \<Rightarrow> errno \<Rightarrow> xlat_ctx_cfg \<Rightarrow> bool" where
  "region_added mm cfg ret cfg' \<longleftrightarrow>
     regions_ok (cfg_mmap cfg') \<and> length (cfg_mmap cfg') = length (cfg_mmap cfg)
     \<and> (if ret = E_OK \<and> mm_size mm \<noteq> 0
        then set (live_regions (cfg_mmap cfg')) = insert (mm\<lparr>base_va := base_va mm - cfg_base_va cfg'\<rparr>) (set (live_regions (cfg_mmap cfg)))
        else cfg_mmap cfg' = cfg_mmap cfg)"

text \<open>The part of the function behind its first checks.\<close>

definition add_checked :: "arch_regs \<Rightarrow> xlat_mmap_region \<Rightarrow> xlat_ctx_cfg \<Rightarrow> (errno \<times> xlat_ctx_cfg) option" where
  "add_checked ar mm cfg = do {
     ret \<leftarrow> mmap_add_region_check ar cfg mm;
     if ret \<noteq> E_OK then Some (ret, cfg)
     else do {
       ms \<leftarrow> insert_region mm (cfg_mmap cfg);
       let cfg = cfg\<lparr>cfg_mmap := ms\<rparr>;
       let cfg = (if pa_end mm > max_mapped_pa cfg then cfg\<lparr>max_mapped_pa := pa_end mm\<rparr> else cfg);
       let cfg = (if va_end mm > max_mapped_va_offset cfg then cfg\<lparr>max_mapped_va_offset := va_end mm\<rparr> else cfg);
       Some (E_OK, cfg)
     }
   }"

lemma add_checked_ok:
  assumes "arch_feat_get_pa_width ar \<noteq> None" and ne: "cfg_mmap cfg \<noteq> []"
    and ok: "regions_ok (cfg_mmap cfg)" and sz: "mm_size mm \<noteq> 0"
  obtains ret cfg' where "add_checked ar mm cfg = Some (ret, cfg')" "cfg_base_va cfg' = cfg_base_va cfg"
    "regions_ok (cfg_mmap cfg')" "length (cfg_mmap cfg') = length (cfg_mmap cfg)"
    "if ret = E_OK then set (live_regions (cfg_mmap cfg')) = insert mm (set (live_regions (cfg_mmap cfg)))
     else cfg_mmap cfg' = cfg_mmap cfg"
proof -
  obtain ret where ret: "mmap_add_region_check ar cfg mm = Some ret"
    using mmap_add_region_check_returns [OF assms(1) ne, of mm] by auto
  show thesis
  proof (cases "ret = E_OK")
    case True
    have chk: "region_ok mm" "\<not> region_overlap mm (cfg_mmap cfg)" "mm_size (last (cfg_mmap cfg)) = 0"
      using mmap_add_region_check_OK [OF _ sz, of ar cfg] ret True by simp_all
    have room: "length (live_regions (cfg_mmap cfg)) < length (cfg_mmap cfg)" by (rule live_room [OF ne chk(3)])
    obtain ms' where ins: "insert_region mm (cfg_mmap cfg) = Some ms'"
      using insert_region_live [OF room] by blast
    note fin = insert_regions_ok [OF ok chk(1,2) room ins]
    obtain cfg' where c: "add_checked ar mm cfg = Some (E_OK, cfg')" "cfg_mmap cfg' = ms'"
      "cfg_base_va cfg' = cfg_base_va cfg"
      by (simp add: add_checked_def ret True ins Let_def)
    from fin show thesis by (intro that [OF c(1)]) (simp_all add: c(2,3))
  next
    case False
    then have "add_checked ar mm cfg = Some (ret, cfg)" by (simp add: add_checked_def ret)
    from that [OF this] show thesis using False ok by simp
  qed
qed

lemma xlat_mmap_add_region_ctx_split:
  assumes "ctx_cfg x = Some cfg" and "ctx_tbls x = Some t" "\<not> tbls_initialized t" "\<not> cfg_initialized cfg" "mm_size mm \<noteq> 0"
    and cfg1: "cfg1 = cfg\<lparr>cfg_base_va := (if cfg_region cfg = VA_LOW_REGION then 0 else - 1 - max_va_size cfg + 1)\<rparr>"
  shows "xlat_mmap_add_region_ctx ar mm x = Some (E_INVAL, x\<lparr>ctx_cfg := Some cfg1\<rparr>)
    \<or> xlat_mmap_add_region_ctx ar mm x
        = map_option (\<lambda>(ret, cfg'). (ret, x\<lparr>ctx_cfg := Some cfg'\<rparr>))
            (add_checked ar (mm\<lparr>base_va := base_va mm - cfg_base_va cfg1\<rparr>) cfg1)"
proof (cases "cfg_region cfg = VA_LOW_REGION")
  case True
  have mm: "mm\<lparr>base_va := base_va mm - cfg_base_va cfg1\<rparr> = mm" and c: "cfg\<lparr>cfg_base_va := 0\<rparr> = cfg1"
    using True by (simp_all add: cfg1)
  show ?thesis
    unfolding mm add_checked_def using assms(1-5) True c
    by (cases "mmap_add_region_check ar cfg1 mm"; cases "insert_region mm (cfg_mmap cfg1)")
      (simp_all add: xlat_mmap_add_region_ctx_def Let_def va_end_def pa_end_def)
next
  case False
  have c: "cfg\<lparr>cfg_base_va := - 1 - max_va_size cfg + 1\<rparr> = cfg1"
    using False by (simp add: cfg1)
  let ?mm = "mm\<lparr>base_va := base_va mm - cfg_base_va cfg1\<rparr>"
  show ?thesis
    unfolding add_checked_def using assms(1-5) False c
    by (cases "mmap_add_region_check ar cfg1 ?mm"; cases "insert_region ?mm (cfg_mmap cfg1)")
      (simp_all add: xlat_mmap_add_region_ctx_def Let_def va_end_def pa_end_def)
qed

lemma add_region_keeps_order:
  assumes cfg: "ctx_cfg x = Some cfg" and tbls: "ctx_tbls x = Some t" "\<not> tbls_initialized t"
    and ok: "regions_ok (cfg_mmap cfg)" and ar: "arch_feat_get_pa_width ar \<noteq> None"
    and ne: "cfg_mmap cfg \<noteq> []"
  shows "case xlat_mmap_add_region_ctx ar mm x of
      None \<Rightarrow> False
    | Some (ret, x') \<Rightarrow> ctx_tbls x' = Some t
        \<and> (case ctx_cfg x' of None \<Rightarrow> False | Some cfg' \<Rightarrow> region_added mm cfg ret cfg')"
proof (cases "cfg_initialized cfg \<or> mm_size mm = 0")
  case True
  then show ?thesis
    using assms by (auto simp: xlat_mmap_add_region_ctx_def region_added_def)
next
  case False
  define cfg1 where "cfg1 = cfg\<lparr>cfg_base_va := (if cfg_region cfg = VA_LOW_REGION then 0 else - 1 - max_va_size cfg + 1)\<rparr>"
  let ?mm = "mm\<lparr>base_va := base_va mm - cfg_base_va cfg1\<rparr>"
  have c1: "cfg_mmap cfg1 = cfg_mmap cfg" by (simp add: cfg1_def)
  obtain ret cfg' where a: "add_checked ar ?mm cfg1 = Some (ret, cfg')" "cfg_base_va cfg' = cfg_base_va cfg1"
    "regions_ok (cfg_mmap cfg')" "length (cfg_mmap cfg') = length (cfg_mmap cfg1)"
    "if ret = E_OK then set (live_regions (cfg_mmap cfg')) = insert ?mm (set (live_regions (cfg_mmap cfg1)))
     else cfg_mmap cfg' = cfg_mmap cfg1"
    by (rule add_checked_ok [of ar cfg1 ?mm]) (use ar ne ok False c1 in simp_all)
  from False have "\<not> cfg_initialized cfg" "mm_size mm \<noteq> 0" by simp_all
  from xlat_mmap_add_region_ctx_split [OF cfg tbls this cfg1_def, of ar]
  show ?thesis
    using a ok tbls False by (auto simp: region_added_def c1)
qed

end
