(* ===== verification/Slot_Xlat_Correct.thy ===== *)
theory Slot_Xlat_Correct
  imports Slot_Xlat Xlat_Correct
begin

text \<open>
  Correctness of the slot buffers: their set-up at boot leaves every slot of the CPU empty, and
  the descriptors implement the view of the commands, in which a slot maps a granule or nothing
  (theory \<open>Slot_Buffer\<close>): what a CPU reaches through the address of a slot is that granule, in
  the address space the slot is for, and no CPU changes the slots of another.
\<close>

section \<open>Constants\<close>

lemma slot_consts:
  "RMM_SLOT_BUF_VA_SIZE = 0x20000" "SLOT_VIRT = - 0x20000"
  "GET_NUM_BASE_LEVEL_ENTRIES 0x20000 = 32" "GET_XLAT_TABLE_LEVEL_BASE 0x20000 = 3"
  by code_simp+

lemma slot_attr:
  "SLOT_DESC_ATTR OR MT_NS = 0x5B2" "SLOT_DESC_ATTR OR MT_REALM = 0x1B2"
  by code_simp+

lemma slot_attr_known: "mt_known (SLOT_DESC_ATTR OR (if ns then MT_NS else MT_REALM))"
  by (cases ns) (simp_all only: if_True if_False slot_attr mt_known_def, simp_all add: xlat_consts)

lemma pa_width_cases:
  assumes "arch_feat_get_pa_width ar = Some w"
  shows "w \<in> {32, 36, 40, 42, 44, 48}"
proof -
  from assms have "w \<in> set pa_range_bits_arr"
    by (auto simp: arch_feat_get_pa_width_def Let_def Option.bind_eq_Some_conv assert_c_def split: if_splits)
  then show ?thesis by (auto simp: pa_range_bits_arr_def)
qed

lemma max_pa_cases:
  assumes "arch_feat_get_pa_width ar \<noteq> None"
  obtains p where "xlat_arch_get_max_supported_pa ar = Some p"
    "p \<in> {0xFFFFFFFF, 0xFFFFFFFFF, 0xFFFFFFFFFF, 0x3FFFFFFFFFF, 0xFFFFFFFFFFF, 0xFFFFFFFFFFFF}"
proof -
  from assms obtain w where w: "arch_feat_get_pa_width ar = Some w" by auto
  from pa_width_cases [OF w] that [of "push_bit (unat w) 1 - 1"] show thesis
    by (auto simp: xlat_arch_get_max_supported_pa_def w)
qed

section \<open>Entries of the tables\<close>

definition slot_table :: "u64 \<Rightarrow> nat \<Rightarrow> u64" where "slot_table tb cpu = tb + 4096 * of_nat cpu"
definition slot_entry :: "u64 \<Rightarrow> nat \<Rightarrow> nat \<Rightarrow> u64" where "slot_entry tb cpu k = slot_table tb cpu + 8 * of_nat k"

lemma unat_of_small: "n < 18446744073709551616 \<Longrightarrow> unat (of_nat n :: u64) = n"
  by (simp add: unat_of_nat)

lemma slot_entry_inj:
  assumes "cpu < 16" "cpu' < 16" "k < 512" "k' < 512"
  shows "slot_entry tb cpu k = slot_entry tb cpu' k' \<longleftrightarrow> cpu = cpu' \<and> k = k'"
proof
  assume "slot_entry tb cpu k = slot_entry tb cpu' k'"
  then have "(of_nat (4096 * cpu + 8 * k) :: u64) = of_nat (4096 * cpu' + 8 * k')"
    by (simp add: slot_entry_def slot_table_def)
  then have "unat (of_nat (4096 * cpu + 8 * k) :: u64) = unat (of_nat (4096 * cpu' + 8 * k') :: u64)"
    by (rule arg_cong)
  moreover have "4096 * cpu + 8 * k < 18446744073709551616" "4096 * cpu' + 8 * k' < 18446744073709551616"
    using assms by linarith+
  ultimately have e: "4096 * cpu + 8 * k = 4096 * cpu' + 8 * k'"
    by (simp only: unat_of_small)
  have "\<not> cpu < cpu'" "\<not> cpu' < cpu" using e assms by linarith+
  then show "cpu = cpu' \<and> k = k'" using e by linarith
qed simp

section \<open>The contexts after the set-up\<close>

text \<open>The common configuration and the tables of a CPU once they are set up.\<close>

definition slot_cfg :: xlat_ctx_cfg where
  "slot_cfg = \<lparr>max_va_size = 0x20000, cfg_mmap = [RMM_SLOT_BUF_MMAP\<lparr>base_va := 0\<rparr>], cfg_base_va = - 0x20000,
     max_mapped_pa = 0x1FFFF, max_mapped_va_offset = 0x1FFFF, base_level = 3, cfg_region = VA_HIGH_REGION,
     cfg_initialized = True\<rparr>"

definition slot_tbls :: "u64 \<Rightarrow> nat \<Rightarrow> xlat_ctx_tbls" where
  "slot_tbls tb cpu = \<lparr>xtables = 0, tables_num = 0, next_table = 0, base_table = slot_table tb cpu,
     max_base_table_entries = 32, tbls_initialized = True\<rparr>"

definition slot_te :: "u64 \<Rightarrow> nat \<Rightarrow> xlat_table_entry" where
  "slot_te tb cpu = \<lparr>te_table = slot_table tb cpu, te_base_va = - 0x20000, te_level = 3, te_entries = 32\<rparr>"

definition slots_ready :: "u64 \<Rightarrow> nat \<Rightarrow> slot_bufs \<Rightarrow> bool" where
  "slots_ready tb cpu b \<longleftrightarrow> slot_buf_xlat_ctx_cfg b = slot_cfg \<and> ctx_set b cpu
     \<and> slot_buf_tbls b cpu = slot_tbls tb cpu \<and> te_cache b cpu = slot_te tb cpu"

definition slot_va :: "nat \<Rightarrow> u64" where "slot_va k = - 0x20000 + 4096 * of_nat k"

lemma slot_to_va_eq: "k < NR_CPU_SLOTS \<Longrightarrow> slot_to_va k = Some (slot_va k)"
  by (simp add: slot_to_va_def slot_consts GRANULE_SIZE_def slot_va_def)

lemma slot_index: "k < NR_CPU_SLOTS \<Longrightarrow> XLAT_TABLE_IDX (4096 * of_nat k) 3 = k"
proof -
  have "list_all (\<lambda>k. XLAT_TABLE_IDX (4096 * of_nat k) 3 = k) [0..<NR_CPU_SLOTS]" by code_simp
  then show "k < NR_CPU_SLOTS \<Longrightarrow> XLAT_TABLE_IDX (4096 * of_nat k) 3 = k" by (simp add: list_all_iff)
qed

lemma slot_va_above: "k < NR_CPU_SLOTS \<Longrightarrow> - 0x20000 \<le> slot_va k"
proof -
  have "list_all (\<lambda>k. - 0x20000 \<le> slot_va k) [0..<NR_CPU_SLOTS]" by code_simp
  then show "k < NR_CPU_SLOTS \<Longrightarrow> - 0x20000 \<le> slot_va k" by (simp add: list_all_iff)
qed

lemma slot_pte:
  assumes "k < NR_CPU_SLOTS"
  shows "xlat_get_pte_from_table (slot_te tb cpu) (slot_va k) = Some (slot_entry tb cpu k)"
  using assms slot_va_above [OF assms] slot_index [OF assms]
  by (simp add: xlat_get_pte_from_table_def slot_te_def linorder_not_less entry_addr_def slot_entry_def
      slot_va_def NR_CPU_SLOTS_def)

lemma slot_to_descriptor_eq:
  assumes "slots_ready tb cpu b" and "k < NR_CPU_SLOTS"
  shows "slot_to_descriptor cpu k b = Some (slot_mem b (slot_entry tb cpu k))"
  using assms by (simp add: slot_to_descriptor_def slot_to_va_eq slots_ready_def slot_pte xlat_read_descriptor_def
      slot_ctx_def)

section \<open>Mapping and unmapping\<close>

text \<open>The descriptor of a slot that maps a page.\<close>

definition slot_desc :: "bool \<Rightarrow> u64 \<Rightarrow> u64" where
  "slot_desc ns pa = pa OR attr_bits (SLOT_DESC_ATTR OR (if ns then MT_NS else MT_REALM)) XLAT_TABLE_LEVEL_MAX"

lemma slot_desc_nonzero: "slot_desc ns pa \<noteq> INVALID_DESC"
proof -
  have "bit (slot_desc ns pa) 0" by (simp add: slot_desc_def bit_or_iff attr_bits_fields)
  then show ?thesis by (auto simp: INVALID_DESC_def)
qed

lemma te_level_slot: "te_level (slot_te tb cpu) = XLAT_TABLE_LEVEL_MAX"
  by (simp add: slot_te_def XLAT_TABLE_LEVEL_MAX_def)

lemma slot_map_internal_eq:
  assumes rdy: "slots_ready tb cpu b" and k: "k < NR_CPU_SLOTS" and pa: "GRANULE_ALIGNED pa" "pa \<le> 0xFFFFFFFF"
    and ar: "arch_feat_get_pa_width ar \<noteq> None"
  shows "slot_map_internal ar cpu k pa ns b =
    (if slot_mem b (slot_entry tb cpu k) = INVALID_DESC
     then Some (slot_va k, b\<lparr>slot_mem := (slot_mem b)(slot_entry tb cpu k := slot_desc ns pa)\<rparr>)
     else Some (0, b))"
proof -
  obtain p where p: "xlat_arch_get_max_supported_pa ar = Some p" "0xFFFFFFFF \<le> p"
    by (rule max_pa_cases [OF ar]) auto
  have "\<not> pa > p" using p(2) pa(2) by simp
  then show ?thesis
    using rdy k pa(1)
    by (simp add: slot_map_internal_def slot_to_va_eq xlat_map_memory_page_with_attrs_def slots_ready_def slot_pte
        xlat_read_descriptor_def xlat_write_descriptor_def slot_ctx_def p(1) xlat_desc_eq [OF slot_attr_known]
        slot_desc_def te_level_slot)
qed

lemma slot_unmap_internal_eq:
  assumes "slots_ready tb cpu b" and "k < NR_CPU_SLOTS"
  shows "slot_unmap_internal cpu (slot_va k) b =
    b\<lparr>slot_mem := (slot_mem b)(slot_entry tb cpu k := INVALID_DESC),
      slot_tlbi := slot_tlbi b @ [slot_va k]\<rparr>"
  using assms by (simp add: slot_unmap_internal_def xlat_unmap_memory_page_def slots_ready_def slot_pte
      xlat_write_descriptor_def xlat_arch_tlbi_va_def slot_ctx_def)

section \<open>Refinement of the view of the commands\<close>

text \<open>The address of a granule.\<close>

definition granule_pa :: "nat \<Rightarrow> u64" where "granule_pa g = 0x80000000 + of_nat g * 4096"

definition slot_rel :: "u64 \<Rightarrow> nat \<Rightarrow> slot_bufs \<Rightarrow> rmm \<Rightarrow> bool" where
  "slot_rel tb cpu b s \<longleftrightarrow> slots_ready tb cpu b
     \<and> list_all (\<lambda>k. slot_mem b (slot_entry tb cpu k) =
          (case slots s k of None \<Rightarrow> INVALID_DESC | Some g \<Rightarrow> slot_desc (is_ns_slot k) (granule_pa g)))
          [0..<NR_CPU_SLOTS]"

text \<open>
  The translation that the hardware makes of an address in the window of the slots: the entry of
  the CPU's table, if it is valid, gives the page, its address space and whether it may be
  written or executed.
\<close>

definition slot_translate :: "u64 \<Rightarrow> nat \<Rightarrow> slot_bufs \<Rightarrow> u64 \<Rightarrow> (u64 \<times> bool \<times> bool \<times> bool) option" where
  "slot_translate tb cpu b va =
     (let off = va - (- 0x20000); d = slot_mem b (slot_entry tb cpu (unat (drop_bit 12 off)))
      in if off \<ge> 0x20000 \<or> \<not> desc_valid d then None
         else Some (desc_pa d + (off AND 0xFFF), desc_nonsecure d, desc_writable d, desc_executable d))"

lemma TABLE_ADDR_MASK_bit: "bit TABLE_ADDR_MASK n \<longleftrightarrow> 12 \<le> n \<and> n < 48"
proof -
  have e: "TABLE_ADDR_MASK = push_bit 12 (mask 36)" by (simp add: TABLE_ADDR_MASK_def mask_eq_exp_minus_1)
  show ?thesis unfolding e bit_push_bit_iff bit_mask_iff by auto
qed

lemma page_address:
  assumes "unat w < 281474976710656" and "unat (w :: u64) mod 4096 = 0"
  shows "w AND TABLE_ADDR_MASK = w"
proof -
  have l: "take_bit 12 w = 0"
    using assms(2) unfolding word_unat_eq_iff unsigned_take_bit_eq by (simp add: take_bit_eq_mod)
  have h: "take_bit 48 w = w"
    using assms(1) unfolding word_unat_eq_iff unsigned_take_bit_eq by (simp add: take_bit_eq_mod)
  have "bit w n \<longrightarrow> 12 \<le> n \<and> n < 48" for n
    using arg_cong [OF l, of "\<lambda>x. bit x n"] arg_cong [OF h, of "\<lambda>x. bit x n"]
    by (auto simp: bit_take_bit_iff linorder_not_le)
  then show ?thesis by (auto simp: bit_eq_iff bit_and_iff TABLE_ADDR_MASK_bit)
qed

lemma granule_pa_ok:
  assumes "g < RMM_MAX_GRANULES"
  shows "granule_addr g = Some (granule_pa g)" "GRANULE_ALIGNED (granule_pa g)" "granule_pa g \<le> 0xFFFFFFFF"
    "granule_pa g AND TABLE_ADDR_MASK = granule_pa g"
proof -
  have u: "unat (granule_pa g) = 0x80000000 + g * 4096"
    unfolding granule_pa_def by (rule unat_granule_addr [OF assms])
  show a: "granule_addr g = Some (granule_pa g)"
    unfolding granule_pa_def by (rule granule_addr_eq [OF assms])
  show "GRANULE_ALIGNED (granule_pa g)" by (rule GRANULE_ALIGNED_granule_addr [OF a assms])
  show "granule_pa g \<le> 0xFFFFFFFF" using assms by (simp add: word_le_nat_alt u RMM_MAX_GRANULES_def)
  have "unat (granule_pa g) mod 4096 = 0" unfolding u by simp
  then show "granule_pa g AND TABLE_ADDR_MASK = granule_pa g"
    by (intro page_address) (use assms in \<open>simp_all add: u RMM_MAX_GRANULES_def\<close>)
qed

lemma slot_rel_entry:
  "slot_rel tb cpu b s \<Longrightarrow> k < NR_CPU_SLOTS \<Longrightarrow> slot_mem b (slot_entry tb cpu k) =
     (case slots s k of None \<Rightarrow> INVALID_DESC | Some g \<Rightarrow> slot_desc (is_ns_slot k) (granule_pa g))"
  by (simp add: slot_rel_def list_all_iff)

lemma slot_rel_set:
  assumes rel: "slot_rel tb cpu b s" and "cpu < 16" "k < NR_CPU_SLOTS"
    and d: "d = (case v of None \<Rightarrow> INVALID_DESC | Some g \<Rightarrow> slot_desc (is_ns_slot k) (granule_pa g))"
    and b': "slot_mem b' = (slot_mem b)(slot_entry tb cpu k := d)" "slots_ready tb cpu b'"
    and s': "slots s' = (slots s)(k := v)"
  shows "slot_rel tb cpu b' s'"
proof -
  have "slot_mem b' (slot_entry tb cpu i) =
      (case slots s' i of None \<Rightarrow> INVALID_DESC | Some g \<Rightarrow> slot_desc (is_ns_slot i) (granule_pa g))"
    if i: "i < NR_CPU_SLOTS" for i
  proof (cases "i = k")
    case False
    then have "slot_entry tb cpu i \<noteq> slot_entry tb cpu k"
      using assms(2,3) i by (simp add: slot_entry_inj NR_CPU_SLOTS_def)
    then show ?thesis using False slot_rel_entry [OF rel i] by (simp add: b'(1) s')
  next
    case True
    then show ?thesis by (simp add: b'(1) s' d cong: option.case_cong)
  qed
  then show ?thesis using b'(2) by (simp add: slot_rel_def list_all_iff)
qed

lemma slot_rel_other:
  assumes rel: "slot_rel tb cpu' b s" and "cpu < 16" "cpu' < 16" "cpu' \<noteq> cpu" "k < NR_CPU_SLOTS"
    and b': "slot_mem b' = (slot_mem b)(slot_entry tb cpu k := d)" "slots_ready tb cpu' b'"
  shows "slot_rel tb cpu' b' s"
  using slot_rel_entry [OF rel] assms(2-5) b' slot_entry_inj [of cpu' cpu _ k tb]
  by (simp add: slot_rel_def list_all_iff NR_CPU_SLOTS_def)

lemma slot_offset:
  assumes "k < NR_CPU_SLOTS" and "off < (4096 :: u64)"
  shows "slot_va k + off - (- 0x20000) < 0x20000" "unat (drop_bit 12 (slot_va k + off - (- 0x20000))) = k"
    "(slot_va k + off - (- 0x20000)) AND 0xFFF = off"
proof -
  have e: "slot_va k + off - (- 0x20000) = of_nat (4096 * k + unat off)" by (simp add: slot_va_def)
  have b: "4096 * k + unat off < 4096 * 25" "unat off < 4096"
    using assms by (simp_all add: NR_CPU_SLOTS_def word_less_nat_alt)
  then have u: "unat (of_nat (4096 * k + unat off) :: u64) = 4096 * k + unat off"
    by (intro unat_of_small) linarith
  show "slot_va k + off - (- 0x20000) < 0x20000" using b unfolding e word_less_nat_alt u by simp
  show "unat (drop_bit 12 (slot_va k + off - (- 0x20000))) = k"
    using b unfolding e unsigned_drop_bit_eq u by (simp add: drop_bit_eq_div take_bit_nat_eq_self)
  have m: "(0xFFF :: u64) = mask 12" by (simp add: mask_eq_exp_minus_1)
  have "unat (of_nat (4096 * k + unat off) AND mask 12 :: u64) = unat off"
    using b unfolding take_bit_eq_mask [symmetric] unsigned_take_bit_eq u by (simp add: take_bit_eq_mod)
  then show "(slot_va k + off - (- 0x20000)) AND 0xFFF = off" unfolding e m by (simp add: word_unat_eq_iff)
qed

text \<open>What a CPU reaches through a slot: nothing, or the granule, writable and never executable.\<close>

lemma slot_attr_fields: "bit (SLOT_DESC_ATTR OR (if ns then MT_NS else MT_REALM)) 10 \<longleftrightarrow> ns"
  "bit (SLOT_DESC_ATTR OR (if ns then MT_NS else MT_REALM)) 4"
  by (cases ns; simp only: if_True if_False slot_attr; simp)+

lemma slot_translate_eq:
  assumes rel: "slot_rel tb cpu b s" and k: "k < NR_CPU_SLOTS" and off: "off < 4096"
    and g: "\<And>g. slots s k = Some g \<Longrightarrow> g < RMM_MAX_GRANULES"
  shows "slot_translate tb cpu b (slot_va k + off) =
    map_option (\<lambda>g. (granule_pa g + off, is_ns_slot k, True, False)) (slots s k)"
proof (cases "slots s k")
  case None
  then show ?thesis
    using slot_rel_entry [OF rel k] unfolding slot_translate_def Let_def slot_offset(2) [OF k off]
    by (simp add: desc_valid_def INVALID_DESC_def)
next
  case (Some gr)
  let ?a = "SLOT_DESC_ATTR OR (if is_ns_slot k then MT_NS else MT_REALM)"
  note pa = granule_pa_ok(4) [OF g [OF Some]]
  obtain d where d: "xlat_desc ?a (granule_pa gr) XLAT_TABLE_LEVEL_MAX = Some d" "desc_pa d = granule_pa gr"
    "desc_valid d" "desc_nonsecure d \<longleftrightarrow> bit ?a 10" "desc_writable d \<longleftrightarrow> bit ?a 4"
    "desc_executable d \<longleftrightarrow> MT_TYPE ?a \<noteq> MT_DEVICE \<and> \<not> bit ?a 4 \<and> \<not> bit ?a 5"
    by (rule xlat_desc_fields [OF slot_attr_known pa]) (assumption | rule that)+
  have "d = slot_desc (is_ns_slot k) (granule_pa gr)"
    using d(1) xlat_desc_eq [OF slot_attr_known] by (simp add: slot_desc_def)
  then have "slot_mem b (slot_entry tb cpu k) = d" using slot_rel_entry [OF rel k] Some by simp
  moreover have "\<not> 0x20000 \<le> slot_va k + off - (- 0x20000)" using slot_offset(1) [OF k off] by (simp only: linorder_not_le)
  moreover have "desc_nonsecure d \<longleftrightarrow> is_ns_slot k" using d(4) slot_attr_fields(1) by blast
  moreover have "desc_writable d" "\<not> desc_executable d" using d(5,6) slot_attr_fields(2) by blast+
  ultimately show ?thesis
    using d(2,3) unfolding slot_translate_def Let_def slot_offset(2,3) [OF k off] by (simp add: Some)
qed

text \<open>One step of a command and the writes of the descriptor that implement it.\<close>

lemma slots_ready_mem [simp]:
  "slots_ready tb cpu (b\<lparr>slot_mem := m\<rparr>) = slots_ready tb cpu b"
  "slots_ready tb cpu (b\<lparr>slot_mem := m, slot_tlbi := l\<rparr>) = slots_ready tb cpu b"
  by (simp_all add: slots_ready_def)

lemma slot_rel_ready: "slot_rel tb cpu b s \<Longrightarrow> slots_ready tb cpu b"
  by (simp add: slot_rel_def)

lemma slot_map_refines:
  assumes rel: "slot_rel tb cpu b s" and cpu: "cpu < 16" and k: "k < NR_CPU_SLOTS" and g: "g < RMM_MAX_GRANULES"
    and ar: "arch_feat_get_pa_width ar \<noteq> None"
    and rel': "slot_rel tb cpu' b s2" and cpu': "cpu' < 16" "cpu' \<noteq> cpu"
  shows "case slot_map_internal ar cpu k (granule_pa g) (is_ns_slot k) b of
      None \<Rightarrow> False
    | Some (va, b') \<Rightarrow> (case buffer_map_internal k g (granule_pa g) s of
          None \<Rightarrow> va = 0 \<and> b' = b
        | Some s' \<Rightarrow> va = slot_va k \<and> slot_rel tb cpu b' s' \<and> slot_rel tb cpu' b' s2)"
proof -
  note e = slot_rel_entry [OF rel k]
  note m = slot_map_internal_eq [OF slot_rel_ready [OF rel] k granule_pa_ok(2,3) [OF g] ar, of "is_ns_slot k"]
  show ?thesis
  proof (cases "slots s k")
    case None
    let ?b = "b\<lparr>slot_mem := (slot_mem b)(slot_entry tb cpu k := slot_desc (is_ns_slot k) (granule_pa g))\<rparr>"
    have "slot_rel tb cpu ?b (map_slot k g s)"
      by (rule slot_rel_set [OF rel cpu k, where v = "Some g"]) (use rel in \<open>simp_all add: slot_rel_ready\<close>)
    moreover have "slot_rel tb cpu' ?b s2"
      by (rule slot_rel_other [OF rel' cpu cpu' k]) (use rel' in \<open>simp_all add: slot_rel_ready\<close>)
    ultimately show ?thesis
      using e None k granule_pa_ok(2) [OF g] by (simp add: m buffer_map_internal_def slot_va_def [symmetric])
  next
    case (Some g')
    then show ?thesis
      using e slot_desc_nonzero by (simp add: m buffer_map_internal_def)
  qed
qed

lemma slot_unmap_refines:
  assumes rel: "slot_rel tb cpu b s" and cpu: "cpu < 16" and k: "k < NR_CPU_SLOTS"
    and rel': "slot_rel tb cpu' b s2" and cpu': "cpu' < 16" "cpu' \<noteq> cpu"
  shows "slot_rel tb cpu (slot_unmap_internal cpu (slot_va k) b) (buffer_unmap k s)
    \<and> slot_rel tb cpu' (slot_unmap_internal cpu (slot_va k) b) s2"
proof -
  note u = slot_unmap_internal_eq [OF slot_rel_ready [OF rel] k]
  show ?thesis
    unfolding u
    by (intro conjI slot_rel_set [OF rel cpu k, where v = None] slot_rel_other [OF rel' cpu cpu' k])
      (use rel rel' in \<open>simp_all add: slot_rel_ready\<close>)
qed

section \<open>The set-up at boot\<close>

lemma add_slot_region:
  assumes ar: "arch_feat_get_pa_width ar \<noteq> None" and t: "\<not> tbls_initialized t"
  shows "xlat_mmap_add_ctx ar [RMM_SLOT_BUF_MMAP, empty_region] True
      \<lparr>ctx_cfg = Some (XLAT_REGISTER_VA_SPACE VA_HIGH_REGION 1 RMM_SLOT_BUF_VA_SIZE), ctx_tbls = Some t, tmem = m, tlbi_log = l\<rparr>
    = Some (E_OK, \<lparr>ctx_cfg = Some slot_cfg, ctx_tbls = Some t, tmem = m, tlbi_log = l\<rparr>)"
proof -
  obtain p where p: "xlat_arch_get_max_supported_pa ar = Some p" "\<not> p < 0x1FFFF"
    by (rule max_pa_cases [OF ar]) auto
  show ?thesis
    using p t
    by (simp add: xlat_mmap_add_ctx_def xlat_mmap_add_region_ctx_def XLAT_REGISTER_VA_SPACE_def slot_consts
        RMM_SLOT_BUF_MMAP_def MAP_REGION_TRANSIENT_def MAP_REGION_FULL_SPEC_def empty_region_def
        mmap_add_region_check_def IS_PAGE_ALIGNED_def PAGE_SIZE_MASK_def PAGE_SIZE_def XLAT_BLOCK_SIZE_def
        XLAT_ADDR_SHIFT_def XLAT_TABLE_LEVEL_MAX_def insert_region_def slot_cfg_def Let_def MT_TRANSIENT_def)
qed

text \<open>Mapping a transient region writes invalid entries into an empty table of level 3.\<close>

lemma slot_region_action:
  assumes "k < 32" and "base_va mm = 0" "mm_size mm = 0x20000"
  shows "xlat_tables_map_region_action mm INVALID_DESC pa (of_nat (4096 * k)) 3 = Some ACTION_WRITE_BLOCK_ENTRY"
    "mm_end_va mm \<le> of_nat (4096 * Suc k) \<longleftrightarrow> k = 31"
    "of_nat (4096 * k) + XLAT_BLOCK_SIZE 3 = of_nat (4096 * Suc k)"
proof -
  have sz: "XLAT_BLOCK_SIZE 3 = 0x1000" by (simp add: XLAT_BLOCK_SIZE_def XLAT_ADDR_SHIFT_def XLAT_TABLE_LEVEL_MAX_def)
  show n: "of_nat (4096 * k) + XLAT_BLOCK_SIZE 3 = of_nat (4096 * Suc k)" by (simp add: sz)
  have "of_nat (4096 * k) + XLAT_BLOCK_SIZE 3 - 1 = of_nat (4096 * k + 4095)" by (simp add: sz)
  moreover have "of_nat (4096 * k + 4095) \<le> (0x1FFFF :: u64)"
    using assms(1) by (simp only: word_le_nat_alt) (subst unat_of_small, linarith, simp)
  ultimately show "xlat_tables_map_region_action mm INVALID_DESC pa (of_nat (4096 * k)) 3 = Some ACTION_WRITE_BLOCK_ENTRY"
    unfolding xlat_tables_map_region_action_def Let_def mm_end_va_def assms(2,3)
    by (simp del: of_nat_mult of_nat_add add: INVALID_DESC_def PAGE_DESC_def)
  have "unat (of_nat (4096 * Suc k) :: u64) = 4096 * Suc k" using assms(1) by (intro unat_of_small) simp
  then show "mm_end_va mm \<le> of_nat (4096 * Suc k) \<longleftrightarrow> k = 31"
    using assms by (simp add: mm_end_va_def word_le_nat_alt) linarith
qed

declare map_region_loop.simps [simp del] xlat_tables_map_region.simps [simp del]

lemma transient_step:
  assumes "idx < n" "m (entry_addr tbl idx) = INVALID_DESC" "MT_TYPE (mm_attr mm) = MT_TRANSIENT"
    and "\<And>pa. xlat_tables_map_region_action mm INVALID_DESC pa va 3 = Some ACTION_WRITE_BLOCK_ENTRY"
  shows "map_region_loop 3 mm tbl n 3 idx va (t, m) =
    (if mm_end_va mm \<le> va + XLAT_BLOCK_SIZE 3 then Some (va + XLAT_BLOCK_SIZE 3 - 1, (t, m))
     else map_region_loop 3 mm tbl n 3 (Suc idx) (va + XLAT_BLOCK_SIZE 3) (t, m))"
proof -
  have "INVALID_DESC AND DESC_MASK = INVALID_DESC" by (simp add: INVALID_DESC_def)
  moreover have "m(entry_addr tbl idx := 0) = m" using assms(2) by (auto simp: INVALID_DESC_def)
  ultimately show ?thesis
    by (subst map_region_loop.simps) (simp add: assms xlat_desc_transient Let_def)
qed

lemma map_slot_region:
  assumes "k < 32" and empty: "\<And>i. i < 32 \<Longrightarrow> m (entry_addr tbl i) = INVALID_DESC"
    and mm: "base_va mm = 0" "mm_size mm = 0x20000" "MT_TYPE (mm_attr mm) = MT_TRANSIENT"
  shows "map_region_loop 3 mm tbl 32 3 k (of_nat (4096 * k)) (t, m) = Some (0x1FFFF, (t, m))"
  using assms(1)
proof (induction "32 - k" arbitrary: k rule: less_induct)
  case less
  note a = slot_region_action [OF less.prems mm(1,2)]
  note st = transient_step [where m = m and tbl = tbl and idx = k and n = 32 and t = t, OF less.prems empty [OF less.prems] mm(3) a(1)]
  show ?case
  proof (cases "k = 31")
    case True
    have "of_nat (4096 * Suc k) - 1 = (0x1FFFF :: u64)" by (simp add: True)
    with True show ?thesis unfolding st a(3) a(2) by simp
  next
    case False
    then have "map_region_loop 3 mm tbl 32 3 (Suc k) (of_nat (4096 * Suc k)) (t, m) = Some (0x1FFFF, (t, m))"
      by (intro less.hyps) (use less.prems in auto)
    then show ?thesis using False unfolding st a(3) a(2) by (simp only: if_False)
  qed
qed

text \<open>The table of the CPU, and nothing else, is emptied.\<close>

lemma zero_slot_table:
  assumes "i < 512"
  shows "zero_tables (slot_table tb cpu) 1 m (slot_entry tb cpu i) = INVALID_DESC"
proof -
  have "slot_entry tb cpu i - slot_table tb cpu = of_nat (8 * i)" by (simp add: slot_entry_def)
  moreover have "unat (of_nat (8 * i) :: u64) = 8 * i" using assms by (intro unat_of_small) linarith
  ultimately show ?thesis using assms by (simp add: zero_tables_def)
qed

lemma zero_other_slot_table:
  assumes "cpu < 16" "cpu' < 16" "cpu' \<noteq> cpu" "i < 512"
  shows "zero_tables (slot_table tb cpu) 1 m (slot_entry tb cpu' i) = m (slot_entry tb cpu' i)"
proof -
  let ?w = "slot_entry tb cpu' i - slot_table tb cpu"
  have "\<not> (unat ?w < 4096 \<and> unat ?w mod 8 = 0)"
  proof
    assume w: "unat ?w < 4096 \<and> unat ?w mod 8 = 0"
    define j where "j = unat ?w div 8"
    have "unat ?w = 8 * j" "j < 512" using w by (auto simp: j_def)
    then have "?w = of_nat (8 * j)" by (metis of_nat_unat ucast_id)
    then have "slot_entry tb cpu' i = slot_entry tb cpu j" by (simp add: slot_entry_def [of _ cpu] algebra_simps)
    then show False using assms \<open>j < 512\<close> by (simp add: slot_entry_inj)
  qed
  then show ?thesis unfolding zero_tables_def by (simp only: mult_1) (simp only: if_False)
qed

lemma init_slot_tables:
  "xlat_init_tables_ctx False
      \<lparr>ctx_cfg = Some slot_cfg, ctx_tbls = Some (XLAT_INIT_CTX_TBLS 0 0 (slot_table tb cpu) 32), tmem = m, tlbi_log = l\<rparr>
    = Some (E_OK, \<lparr>ctx_cfg = Some slot_cfg, ctx_tbls = Some (slot_tbls tb cpu),
                   tmem = zero_tables (slot_table tb cpu) 1 m, tlbi_log = l\<rparr>)"
proof -
  let ?t = "XLAT_INIT_CTX_TBLS 0 0 (slot_table tb cpu) 32"
  let ?m = "zero_tables (slot_table tb cpu) 1 m"
  let ?mm = "RMM_SLOT_BUF_MMAP\<lparr>base_va := 0\<rparr>"
  have mm: "base_va ?mm = 0" "mm_size ?mm = 0x20000" "MT_TYPE (mm_attr ?mm) = MT_TRANSIENT" "mm_end_va ?mm = 0x1FFFF"
    by (simp_all add: RMM_SLOT_BUF_MMAP_def MAP_REGION_TRANSIENT_def MAP_REGION_FULL_SPEC_def slot_consts
        MT_TYPE_def MT_TRANSIENT_def mm_end_va_def)
  have e: "i < 32 \<Longrightarrow> ?m (entry_addr (slot_table tb cpu) i) = INVALID_DESC" for i
    using zero_slot_table [of i tb cpu m] by (simp add: entry_addr_def slot_entry_def)
  have z: "zero_tables 0 0 f = f" for f by (simp add: zero_tables_def)
  have "map_region_loop 3 ?mm (slot_table tb cpu) 32 3 0 (of_nat (4096 * 0)) (?t, ?m) = Some (0x1FFFF, (?t, ?m))"
    by (rule map_slot_region) (use e mm in simp_all)
  then have "xlat_tables_map_region 3 ?mm 0 (slot_table tb cpu) 32 3 (?t, ?m) = Some (0x1FFFF, (?t, ?m))"
    by (simp add: xlat_tables_map_region.simps XLAT_TABLE_LEVEL_MAX_def xlat_tables_find_start_va_def mm
        xlat_tables_va_to_index_def)
  then show ?thesis
    by (simp add: xlat_init_tables_ctx_def slot_cfg_def Let_def z XLAT_INIT_CTX_TBLS_def slot_tbls_def mm)
qed

lemma setup_slot_mmu:
  assumes "arch_feat_get_pa_width ar \<noteq> None" and "\<not> sctlr_el2_m r"
  obtains r' where "xlat_arch_setup_mmu_cfg ar
      \<lparr>ctx_cfg = Some slot_cfg, ctx_tbls = Some (slot_tbls tb cpu), tmem = m, tlbi_log = l\<rparr> r = Some (E_OK, r')"
    "ttbr1_el2 r' = slot_table tb cpu AND NOT 1" "ttbr0_el2 r' = ttbr0_el2 r" "\<not> sctlr_el2_m r'"
proof -
  have c: "ctzll 0x20000 = Some 17" by code_simp
  obtain p where p: "xlat_arch_get_max_supported_pa ar = Some p"
    "p \<in> {0xFFFFFFFF, 0xFFFFFFFFF, 0xFFFFFFFFFF, 0x3FFFFFFFFFF, 0xFFFFFFFFFFF, 0xFFFFFFFFFFFF}"
    by (rule max_pa_cases [OF assms(1)])
  from p(2) obtain ps where ps: "tcr_physical_addr_size_bits p = Some ps"
    by (auto simp: tcr_physical_addr_size_bits_def)
  let ?x = "\<lparr>ctx_cfg = Some slot_cfg, ctx_tbls = Some (slot_tbls tb cpu), tmem = m, tlbi_log = l\<rparr>"
  have "\<exists>a b. xlat_arch_setup_mmu_cfg ar ?x r
      = Some (E_OK, r\<lparr>mair_el2 := a, tcr_el2 := b, ttbr1_el2 := slot_table tb cpu AND NOT 1\<rparr>)"
    by (simp add: xlat_arch_setup_mmu_cfg_def slot_cfg_def assms(2) c p(1) ps Let_def slot_tbls_def
        TTBR_CNP_BIT_def) blast
  then show thesis using that assms(2) by auto
qed

text \<open>
  The static data between boots: the common configuration is fresh until a first CPU has set it
  up; a CPU that has set up its context keeps it, others have an empty one.
\<close>

definition slots_booting :: "u64 \<Rightarrow> slot_bufs \<Rightarrow> bool" where
  "slots_booting tb b \<longleftrightarrow>
     (slot_buf_xlat_ctx_cfg b = slot_cfg
      \<or> slot_buf_xlat_ctx_cfg b = XLAT_REGISTER_VA_SPACE VA_HIGH_REGION 1 RMM_SLOT_BUF_VA_SIZE
        \<and> list_all (\<lambda>cpu. \<not> ctx_set b cpu) [0..<MAX_CPUS])
     \<and> list_all (\<lambda>cpu. if ctx_set b cpu then slot_buf_tbls b cpu = slot_tbls tb cpu \<and> te_cache b cpu = slot_te tb cpu
                      else te_cache b cpu = null_entry) [0..<MAX_CPUS]"

definition slot_memory :: "u64 \<Rightarrow> nat \<Rightarrow> slot_bufs \<Rightarrow> u64 list" where
  "slot_memory tb cpu b = map (\<lambda>k. slot_mem b (slot_entry tb cpu k)) [0..<NR_CPU_SLOTS]"

lemma slots_booting_cases:
  assumes "slots_booting tb b" and "cpu < MAX_CPUS"
  obtains (fresh) "\<not> ctx_set b cpu" "te_cache b cpu = null_entry"
      "slot_buf_xlat_ctx_cfg b = slot_cfg
        \<or> slot_buf_xlat_ctx_cfg b = XLAT_REGISTER_VA_SPACE VA_HIGH_REGION 1 RMM_SLOT_BUF_VA_SIZE"
    | (set) "slots_ready tb cpu b"
proof (cases "ctx_set b cpu")
  case True
  then have "slots_ready tb cpu b" using assms by (auto simp: slots_booting_def list_all_iff slots_ready_def)
  then show thesis by (rule set)
next
  case False
  have "te_cache b cpu = null_entry" "slot_buf_xlat_ctx_cfg b = slot_cfg
        \<or> slot_buf_xlat_ctx_cfg b = XLAT_REGISTER_VA_SPACE VA_HIGH_REGION 1 RMM_SLOT_BUF_VA_SIZE"
    using assms False by (auto simp: slots_booting_def list_all_iff)
  then show thesis by (rule fresh [OF False])
qed

lemma slot_cfg_done: "cfg_initialized slot_cfg" "\<not> cfg_initialized (XLAT_REGISTER_VA_SPACE VA_HIGH_REGION mc n)"
  by (simp_all add: slot_cfg_def XLAT_REGISTER_VA_SPACE_def)

lemma setup_fresh:
  assumes ar: "arch_feat_get_pa_width ar \<noteq> None" and r: "\<not> sctlr_el2_m r" and f: "\<not> ctx_set b cpu"
    and cfg: "slot_buf_xlat_ctx_cfg b = slot_cfg
        \<or> slot_buf_xlat_ctx_cfg b = XLAT_REGISTER_VA_SPACE VA_HIGH_REGION 1 RMM_SLOT_BUF_VA_SIZE"
  obtains r' where "slot_buf_setup_xlat ar tb cpu r b = Some (r',
      b\<lparr>slot_buf_xlat_ctx_cfg := slot_cfg, slot_buf_tbls := (slot_buf_tbls b)(cpu := slot_tbls tb cpu),
        ctx_set := (ctx_set b)(cpu := True), slot_mem := zero_tables (slot_table tb cpu) 1 (slot_mem b),
        slot_tlbi := slot_tlbi b\<rparr>)"
    "ttbr1_el2 r' = slot_table tb cpu AND NOT 1" "ttbr0_el2 r' = ttbr0_el2 r" "\<not> sctlr_el2_m r'"
proof -
  let ?t = "XLAT_INIT_CTX_TBLS 0 0 (slot_table tb cpu) 32"
  have nt: "\<not> tbls_initialized ?t" by (simp add: XLAT_INIT_CTX_TBLS_def)
  obtain r' where r': "xlat_arch_setup_mmu_cfg ar
      \<lparr>ctx_cfg = Some slot_cfg, ctx_tbls = Some (slot_tbls tb cpu), tmem = zero_tables (slot_table tb cpu) 1 (slot_mem b),
       tlbi_log = slot_tlbi b\<rparr> r = Some (E_OK, r')"
    "ttbr1_el2 r' = slot_table tb cpu AND NOT 1" "ttbr0_el2 r' = ttbr0_el2 r" "\<not> sctlr_el2_m r'"
    by (rule setup_slot_mmu [OF ar r])
  have "slot_buf_setup_xlat ar tb cpu r b = Some (r',
      b\<lparr>slot_buf_xlat_ctx_cfg := slot_cfg, slot_buf_tbls := (slot_buf_tbls b)(cpu := slot_tbls tb cpu),
        ctx_set := (ctx_set b)(cpu := True), slot_mem := zero_tables (slot_table tb cpu) 1 (slot_mem b),
        slot_tlbi := slot_tlbi b\<rparr>)"
    using cfg r r'(1) f nt add_slot_region [OF ar nt] init_slot_tables
    by (auto simp: slot_buf_setup_xlat_def slot_ctx_def xlat_ctx_create_dynamic_def slot_table_def [symmetric]
        slot_consts xlat_ctx_cfg_initialized_def slot_cfg_done xlat_ctx_tbls_initialized_def store_ctx_def)
  from that [OF this r'(2,3,4)] show thesis .
qed

lemma setup_again:
  assumes ar: "arch_feat_get_pa_width ar \<noteq> None" and r: "\<not> sctlr_el2_m r" and rdy: "slots_ready tb cpu b"
  obtains r' where "slot_buf_setup_xlat ar tb cpu r b = Some (r', b)"
    "ttbr1_el2 r' = slot_table tb cpu AND NOT 1" "ttbr0_el2 r' = ttbr0_el2 r" "\<not> sctlr_el2_m r'"
proof -
  obtain r' where r': "xlat_arch_setup_mmu_cfg ar
      \<lparr>ctx_cfg = Some slot_cfg, ctx_tbls = Some (slot_tbls tb cpu), tmem = slot_mem b, tlbi_log = slot_tlbi b\<rparr> r
        = Some (E_OK, r')" "ttbr1_el2 r' = slot_table tb cpu AND NOT 1" "ttbr0_el2 r' = ttbr0_el2 r" "\<not> sctlr_el2_m r'"
    by (rule setup_slot_mmu [OF ar r])
  have same: "b\<lparr>slot_buf_xlat_ctx_cfg := slot_cfg, slot_buf_tbls := (slot_buf_tbls b)(cpu := slot_tbls tb cpu),
      ctx_set := (ctx_set b)(cpu := True)\<rparr> = b"
    using rdy by (intro slot_bufs.equality) (auto simp: slots_ready_def fun_eq_iff)
  have "slot_buf_setup_xlat ar tb cpu r b = Some (r', b)"
    using rdy r'(1) same
    by (simp add: slot_buf_setup_xlat_def slot_ctx_def xlat_ctx_create_dynamic_def slots_ready_def
        xlat_ctx_cfg_initialized_def slot_cfg_done xlat_ctx_tbls_initialized_def store_ctx_def slot_tbls_def)
  from that [OF this r'(2,3,4)] show thesis .
qed

lemma init_fresh:
  assumes "slot_buf_xlat_ctx_cfg b = slot_cfg" "ctx_set b cpu" "slot_buf_tbls b cpu = slot_tbls tb cpu"
    and "te_cache b cpu = null_entry" "slot_mem b (slot_entry tb cpu 0) = INVALID_DESC"
  shows "slot_buf_init True cpu b = Some (b\<lparr>te_cache := (te_cache b)(cpu := slot_te tb cpu)\<rparr>)"
proof -
  have va: "slot_to_va SLOT_NS = Some (- 0x20000)"
    by (simp add: slot_to_va_eq SLOT_NS_def NR_CPU_SLOTS_def slot_va_def)
  have i: "XLAT_TABLE_IDX 0 3 = 0" by (simp add: XLAT_TABLE_IDX_def)
  have "slot_mem b (slot_table tb cpu) = INVALID_DESC" using assms(5) by (simp add: slot_entry_def)
  then have "xlat_get_table_from_va (slot_ctx cpu b) (- 0x20000) = Some (E_OK, Some (slot_te tb cpu))"
    using assms(1-3)
    by (simp add: xlat_get_table_from_va_def slot_ctx_def slot_cfg_def slot_tbls_def slot_te_def
        find_xlat_last_table_def XLAT_TABLE_LEVEL_MAX_def i entry_addr_def INVALID_DESC_def TABLE_DESC_def BLOCK_DESC_def)
  then show ?thesis
    using assms(4) by (simp add: slot_buf_init_def null_entry_def va)
qed

lemma slots_booting_cpu:
  assumes "slots_booting tb b" and "cpu < 16"
    and "slot_buf_xlat_ctx_cfg b' = slot_cfg" "slot_buf_tbls b' = (slot_buf_tbls b)(cpu := slot_tbls tb cpu)"
    "ctx_set b' = (ctx_set b)(cpu := True)" "te_cache b' = (te_cache b)(cpu := slot_te tb cpu)"
  shows "slots_booting tb b'"
  using assms by (auto simp: slots_booting_def list_all_iff)

lemma slots_set_up:
  assumes b: "slots_booting tb b" and cpu: "cpu < 16" "slot_table tb cpu \<noteq> 0"
    and ar: "arch_feat_get_pa_width ar \<noteq> None" and r: "\<not> sctlr_el2_m r"
  obtains r' b1 b2 where "slot_buf_setup_xlat ar tb cpu r b = Some (r', b1)"
    "slot_buf_init True cpu b1 = Some b2" "slots_booting tb b2" "slots_ready tb cpu b2"
    "\<not> ctx_set b cpu \<longrightarrow> slots_empty_check cpu b2 = Some ()"
    "ctx_set b cpu \<longrightarrow> slot_memory tb cpu b2 = slot_memory tb cpu b"
    "\<And>cpu'. cpu' < 16 \<Longrightarrow> cpu' \<noteq> cpu \<Longrightarrow> slot_memory tb cpu' b2 = slot_memory tb cpu' b
       \<and> (slots_ready tb cpu' b \<longrightarrow> slots_ready tb cpu' b2)"
    "ttbr1_el2 r' = slot_table tb cpu AND NOT 1" "ttbr0_el2 r' = ttbr0_el2 r" "\<not> sctlr_el2_m r'"
proof (rule slots_booting_cases [OF b])
  show "cpu < MAX_CPUS" using cpu by (simp add: MAX_CPUS_def)
next
  assume f: "\<not> ctx_set b cpu" "te_cache b cpu = null_entry"
    "slot_buf_xlat_ctx_cfg b = slot_cfg
      \<or> slot_buf_xlat_ctx_cfg b = XLAT_REGISTER_VA_SPACE VA_HIGH_REGION 1 RMM_SLOT_BUF_VA_SIZE"
  let ?m = "zero_tables (slot_table tb cpu) 1 (slot_mem b)"
  let ?b1 = "b\<lparr>slot_buf_xlat_ctx_cfg := slot_cfg, slot_buf_tbls := (slot_buf_tbls b)(cpu := slot_tbls tb cpu),
        ctx_set := (ctx_set b)(cpu := True), slot_mem := ?m, slot_tlbi := slot_tlbi b\<rparr>"
  let ?b2 = "?b1\<lparr>te_cache := (te_cache ?b1)(cpu := slot_te tb cpu)\<rparr>"
  obtain r' where s: "slot_buf_setup_xlat ar tb cpu r b = Some (r', ?b1)" "ttbr1_el2 r' = slot_table tb cpu AND NOT 1"
    "ttbr0_el2 r' = ttbr0_el2 r" "\<not> sctlr_el2_m r'"
    by (rule setup_fresh [OF ar r f(1,3)])
  have i: "slot_buf_init True cpu ?b1 = Some ?b2"
    by (rule init_fresh) (use f(2) zero_slot_table [of 0] in simp_all)
  have rdy: "slots_ready tb cpu ?b2" by (simp add: slots_ready_def)
  have z: "slot_mem ?b2 (slot_entry tb cpu k) = INVALID_DESC" if "k < NR_CPU_SLOTS" for k
    using zero_slot_table [of k tb cpu] that by (simp add: NR_CPU_SLOTS_def)
  have e: "slots_empty_check cpu ?b2 = Some ()"
    using slot_to_descriptor_eq [OF rdy] z by (simp add: slots_empty_check_def list_all_iff)
  show thesis
  proof (rule that [OF s(1) i _ rdy _ _ _ s(2,3,4)])
    show "slots_booting tb ?b2" by (rule slots_booting_cpu [OF b cpu(1)]) simp_all
    show "slot_memory tb cpu' ?b2 = slot_memory tb cpu' b \<and> (slots_ready tb cpu' b \<longrightarrow> slots_ready tb cpu' ?b2)"
      if "cpu' < 16" "cpu' \<noteq> cpu" for cpu'
      using zero_other_slot_table [OF cpu(1) that] that by (simp add: slot_memory_def NR_CPU_SLOTS_def slots_ready_def)
  qed (use e f(1) in simp_all)
next
  assume rdy: "slots_ready tb cpu b"
  obtain r' where s: "slot_buf_setup_xlat ar tb cpu r b = Some (r', b)" "ttbr1_el2 r' = slot_table tb cpu AND NOT 1"
    "ttbr0_el2 r' = ttbr0_el2 r" "\<not> sctlr_el2_m r'"
    by (rule setup_again [OF ar r rdy])
  have i: "slot_buf_init True cpu b = Some b"
    using rdy cpu(2) by (simp add: slot_buf_init_def slots_ready_def slot_te_def)
  show thesis
    by (rule that [OF s(1) i b rdy _ _ _ s(2,3,4)]) (use rdy in \<open>simp_all add: slots_ready_def\<close>)
qed

text \<open>
  The walk that looks for the table of an address takes a page that is mapped for a pointer to
  a further table, as the two descriptor types have the same value: it finds no table for it.
\<close>

lemma mapped_page_not_found:
  assumes "slots_ready tb cpu b" and "slot_mem b (slot_entry tb cpu 0) AND DESC_MASK = PAGE_DESC"
  shows "xlat_get_table_from_va (slot_ctx cpu b) (slot_va 0) = Some (E_FAULT, None)"
proof -
  have i: "XLAT_TABLE_IDX 0 3 = 0" by (simp add: XLAT_TABLE_IDX_def)
  have "slot_mem b (slot_table tb cpu) AND DESC_MASK = TABLE_DESC"
    using assms(2) by (simp add: slot_entry_def PAGE_DESC_def TABLE_DESC_def)
  then show ?thesis
    using assms(1)
    by (simp add: xlat_get_table_from_va_def slot_ctx_def slots_ready_def slot_cfg_def slot_tbls_def slot_va_def
        find_xlat_last_table_def XLAT_TABLE_LEVEL_MAX_def i entry_addr_def)
qed

end
