(* ===== verification/Boot_Properties.thy ===== *)
theory Boot_Properties
  imports Boot Slot_Xlat_Correct Sample_State
begin

text \<open>
  The states in which a CPU leaves its cold or its warm boot, and the properties of the
  translation tables of the monitor, of the slot buffers, of the attestation and of the boot.
\<close>

section \<open>The runtime's translation tables\<close>

text \<open>What the construction of the tables leaves alone: where they lie.\<close>

definition tbls_frame :: "xlat_ctx_tbls \<Rightarrow> xlat_ctx_tbls \<Rightarrow> bool" where
  "tbls_frame t t' \<longleftrightarrow> base_table t' = base_table t \<and> max_base_table_entries t' = max_base_table_entries t
     \<and> xtables t' = xtables t \<and> tables_num t' = tables_num t"

lemma tbls_frame_refl [simp]: "tbls_frame t t" by (simp add: tbls_frame_def)

lemma tbls_frame_trans: "tbls_frame a b \<Longrightarrow> tbls_frame b c \<Longrightarrow> tbls_frame a c"
  by (simp add: tbls_frame_def)

declare xlat_tables_map_region.simps [simp del] map_region_loop.simps [simp del]

lemma get_empty_frame: "xlat_table_get_empty (t, m) = Some (a, t', m') \<Longrightarrow> tbls_frame t t'"
  by (auto simp: xlat_table_get_empty_def tbls_frame_def bind_eq_Some_conv)

lemma map_region_loop_frame:
  assumes "\<And>va tbl s e s'. xlat_tables_map_region lv0 mm va tbl XLAT_TABLE_ENTRIES (Suc level) s = Some (e, s')
      \<Longrightarrow> tbls_frame (fst s) (fst s')"
  shows "map_region_loop lv0 mm tbl n level i va s = Some (e, s') \<Longrightarrow> tbls_frame (fst s) (fst s')"
proof (induction "n - i" arbitrary: i va s rule: less_induct)
  case less
  obtain t m where s: "s = (t, m)" by fastforce
  show ?case
  proof (cases "i < n")
    case False
    then show ?thesis using less.prems by (simp add: map_region_loop.simps)
  next
    case True
    note run = less.prems [unfolded s map_region_loop.simps [of lv0 mm tbl n level i va "(t, m)"]]
    let ?act = "xlat_tables_map_region_action mm (m (entry_addr tbl i) AND DESC_MASK) (base_pa mm + va - base_va mm) va level"
    let ?rest = "\<lambda>stop s1. case stop of Some end_va \<Rightarrow> Some (end_va, s1)
         | None \<Rightarrow> let va = va + XLAT_BLOCK_SIZE level
             in if mm_end_va mm \<le> va then Some (va - 1, s1)
                else map_region_loop lv0 mm tbl n level (Suc i) va s1"
    obtain action where act: "?act = Some action" using run True by (cases ?act) (simp_all add: Let_def)
    have "\<exists>stop s1. tbls_frame t (fst s1) \<and> ?rest stop s1 = Some (e, s')"
    proof (cases action)
      case ACTION_NONE
      then show ?thesis using run True act by (intro exI [of _ None] exI [of _ "(t, m)"]) (simp add: Let_def)
    next
      case ACTION_WRITE_BLOCK_ENTRY
      then obtain d where "?rest None (t, m(entry_addr tbl i := d)) = Some (e, s')"
        using run True act by (auto simp: Let_def bind_eq_Some_conv)
      then show ?thesis by (intro exI [of _ None] exI [of _ "(t, m(entry_addr tbl i := d))"]) simp
    next
      case ACTION_CREATE_NEW_TABLE
      then obtain sub t2 m2 end_va s1 where g: "xlat_table_get_empty (t, m) = Some (sub, t2, m2)"
        and r: "xlat_tables_map_region lv0 mm va sub XLAT_TABLE_ENTRIES (Suc level) (t2, m2(entry_addr tbl i := TABLE_DESC OR sub))
          = Some (end_va, s1)" and q: "?rest (if end_va \<noteq> va + XLAT_BLOCK_SIZE level - 1 then Some end_va else None) s1 = Some (e, s')"
        using run True act by (auto simp: Let_def bind_eq_Some_conv)
      have "tbls_frame t (fst s1)" using tbls_frame_trans [OF get_empty_frame [OF g]] assms [OF r] by simp
      then show ?thesis using q by blast
    next
      case ACTION_RECURSE_INTO_TABLE
      then obtain end_va s1 where
        r: "xlat_tables_map_region lv0 mm va (m (entry_addr tbl i) AND TABLE_ADDR_MASK) XLAT_TABLE_ENTRIES (Suc level) (t, m)
          = Some (end_va, s1)" and q: "?rest (if end_va \<noteq> va + XLAT_BLOCK_SIZE level - 1 then Some end_va else None) s1 = Some (e, s')"
        using run True act by (auto simp: Let_def bind_eq_Some_conv)
      have "tbls_frame t (fst s1)" using assms [OF r] by simp
      then show ?thesis using q by blast
    qed
    then obtain stop s1 where step: "tbls_frame t (fst s1)" and rest: "?rest stop s1 = Some (e, s')" by blast
    have "tbls_frame (fst s1) (fst s')"
      using rest less.hyps [of "Suc i"] True by (auto simp: Let_def split: option.split_asm if_split_asm)
    then show ?thesis using step tbls_frame_trans s by fastforce
  qed
qed

lemma map_region_frame:
  "xlat_tables_map_region lv0 mm va tbl n level s = Some (e, s') \<Longrightarrow> tbls_frame (fst s) (fst s')"
proof (induction "XLAT_TABLE_LEVEL_MAX - level" arbitrary: level va tbl n s e s' rule: less_induct)
  case less
  then have l: "level \<le> XLAT_TABLE_LEVEL_MAX"
    "map_region_loop lv0 mm tbl n level (xlat_tables_va_to_index va (xlat_tables_find_start_va mm va level) level)
       (xlat_tables_find_start_va mm va level) s = Some (e, s')"
    by (auto simp: xlat_tables_map_region.simps Let_def bind_eq_Some_conv)
  show ?case
  proof (rule map_region_loop_frame [OF _ l(2)])
    fix va tbl and s s' :: tabs and e
    assume r: "xlat_tables_map_region lv0 mm va tbl XLAT_TABLE_ENTRIES (Suc level) s = Some (e, s')"
    then have "Suc level \<le> XLAT_TABLE_LEVEL_MAX" by (auto simp: xlat_tables_map_region.simps bind_eq_Some_conv)
    then have "XLAT_TABLE_LEVEL_MAX - Suc level < XLAT_TABLE_LEVEL_MAX - level" by linarith
    from less.hyps [OF this r] show "tbls_frame (fst s) (fst s')" .
  qed
qed

lemma map_regions_frame: "map_regions lv0 mms s = Some (ret, s') \<Longrightarrow> tbls_frame (fst s) (fst s')"
  by (induction mms arbitrary: s)
    (auto simp: bind_eq_Some_conv split: if_split_asm dest!: map_region_frame intro: tbls_frame_trans)

text \<open>What adding regions leaves alone.\<close>

definition region_frame :: "xlat_ctx \<Rightarrow> xlat_ctx \<Rightarrow> bool" where
  "region_frame x x' \<longleftrightarrow> ctx_tbls x' = ctx_tbls x \<and> rel_option (\<lambda>c c'. cfg_region c' = cfg_region c
     \<and> max_va_size c' = max_va_size c \<and> base_level c' = base_level c) (ctx_cfg x) (ctx_cfg x')"

lemma region_frame_refl [simp]: "region_frame x x"
  by (simp add: region_frame_def option.rel_refl)

lemma region_frame_trans: "region_frame a b \<Longrightarrow> region_frame b c \<Longrightarrow> region_frame a c"
  by (auto simp: region_frame_def option_rel_Some1 option_rel_Some2 rel_option_iff split: option.splits)

lemma add_region_frame: "xlat_mmap_add_region_ctx ar mm x = Some (ret, x') \<Longrightarrow> region_frame x x'"
  by (auto simp: xlat_mmap_add_region_ctx_def Let_def bind_eq_Some_conv region_frame_def rel_option_iff
      split: option.split_asm if_split_asm)

lemma add_regions_frame: "add_regions ar mms x = Some (ret, x') \<Longrightarrow> region_frame x x'"
  by (induction mms arbitrary: x)
    (auto simp: bind_eq_Some_conv split: if_split_asm dest!: add_region_frame intro: region_frame_trans)

lemma add_ctx_frame:
  assumes "xlat_mmap_add_ctx ar mms final x = Some (E_OK, x')"
  shows "region_frame x x' \<and> (final \<longrightarrow> (case ctx_cfg x' of None \<Rightarrow> False | Some cfg \<Rightarrow> cfg_initialized cfg))"
proof -
  obtain x1 where x1: "region_frame x x1"
    "x' = x1 \<and> \<not> final \<or> (\<exists>cfg. final \<and> ctx_cfg x1 = Some cfg \<and> x' = x1\<lparr>ctx_cfg := Some (cfg\<lparr>cfg_initialized := True\<rparr>)\<rparr>)"
    using assms
    by (auto simp: xlat_mmap_add_ctx_def bind_eq_Some_conv split: if_split_asm dest: add_regions_frame)
  then show ?thesis by (auto simp: region_frame_def rel_option_iff split: option.split_asm)
qed

section \<open>A CPU that has booted\<close>

text \<open>The context of the runtime, once its tables are built.\<close>

definition rt_ready :: "rmm_layout \<Rightarrow> xlat_ctx \<Rightarrow> bool" where
  "rt_ready l x = (case (ctx_cfg x, ctx_tbls x) of
       (Some cfg, Some t) \<Rightarrow> cfg_initialized cfg \<and> cfg_region cfg = VA_LOW_REGION \<and> max_va_size cfg = VIRT_ADDR_SPACE_SIZE
          \<and> tbls_initialized t \<and> base_table t = runtime_base_xlat_table l
     | _ \<Rightarrow> False)"

text \<open>
  A CPU runs with the MMU on and no writable memory executable, on the tables of the runtime and
  on its own table of slots, which is set up.
\<close>

definition cpu_ready :: "rmm_layout \<Rightarrow> nat \<Rightarrow> 'o boot_world \<Rightarrow> bool" where
  "cpu_ready l cpu s \<longleftrightarrow> (let r = b_regs s cpu in
     is_mmu_enabled r \<and> sctlr_el2_m (r_mmu r) \<and> r_sctlr r AND SCTLR_EL2_WXN \<noteq> 0 \<and> r_vbar_set r \<and> r_tpidr r = of_nat cpu
     \<and> ttbr0_el2 (r_mmu r) = runtime_base_xlat_table l OR TTBR_CNP_BIT
     \<and> ttbr1_el2 (r_mmu r) = slot_table (transient_base_table l) cpu AND NOT 1
     \<and> slots_ready (transient_base_table l) cpu (b_slots s))"

definition system_booted :: "rmm_layout \<Rightarrow> 'o boot_world \<Rightarrow> bool" where
  "system_booted l s \<longleftrightarrow> \<not> cold_boot_flag s \<and> rt_ready l (runtime_xlat_ctx s)
     \<and> slots_booting (transient_base_table l) (b_slots s) \<and> ifc_ok (a_ifc (b_attest s))"

text \<open>What a CPU's boot leaves alone of the others.\<close>

definition others_kept :: "rmm_layout \<Rightarrow> nat \<Rightarrow> 'o boot_world \<Rightarrow> 'o boot_world \<Rightarrow> bool" where
  "others_kept l cpu s s' \<longleftrightarrow> (\<forall>i < MAX_CPUS. i \<noteq> cpu \<longrightarrow> b_regs s' i = b_regs s i
     \<and> slot_memory (transient_base_table l) i (b_slots s') = slot_memory (transient_base_table l) i (b_slots s)
     \<and> (cpu_ready l i s \<longrightarrow> cpu_ready l i s'))"

lemma setup_runtime_mmu:
  assumes "arch_feat_get_pa_width ar \<noteq> None" and "rt_ready l x" and "\<not> sctlr_el2_m r"
  obtains r' where "xlat_arch_setup_mmu_cfg ar x r = Some (E_OK, r')"
    "ttbr0_el2 r' = runtime_base_xlat_table l OR TTBR_CNP_BIT" "\<not> sctlr_el2_m r'"
proof -
  have c: "ctzll VIRT_ADDR_SPACE_SIZE = Some 38" by code_simp
  obtain p where p: "xlat_arch_get_max_supported_pa ar = Some p"
    "p \<in> {0xFFFFFFFF, 0xFFFFFFFFF, 0xFFFFFFFFFF, 0x3FFFFFFFFFF, 0xFFFFFFFFFFF, 0xFFFFFFFFFFFF}"
    by (rule max_pa_cases [OF assms(1)])
  from p(2) obtain ps where ps: "tcr_physical_addr_size_bits p = Some ps"
    by (auto simp: tcr_physical_addr_size_bits_def)
  obtain cfg t where x: "ctx_cfg x = Some cfg" "ctx_tbls x = Some t" "cfg_initialized cfg"
    "cfg_region cfg = VA_LOW_REGION" "max_va_size cfg = VIRT_ADDR_SPACE_SIZE" "base_table t = runtime_base_xlat_table l"
    using assms(2) by (auto simp: rt_ready_def split: option.split_asm)
  have "\<exists>a b. xlat_arch_setup_mmu_cfg ar x r
      = Some (E_OK, r\<lparr>mair_el2 := a, tcr_el2 := b, ttbr0_el2 := runtime_base_xlat_table l OR TTBR_CNP_BIT\<rparr>)"
    by (simp add: xlat_arch_setup_mmu_cfg_def x assms(3) c p(1) ps Let_def) blast
  then show thesis using that assms(3) by auto
qed

lemma sctlr_bits: "SCTLR_EL2_INIT AND SCTLR_EL2_M = 0" "SCTLR_EL2_WXN \<noteq> 0" "SCTLR_EL2_M \<noteq> 0"
  by code_simp+

lemma mmu_on:
  "is_mmu_enabled (xlat_enable_mmu_el2 r)" "sctlr_el2_m (r_mmu (xlat_enable_mmu_el2 r))"
  "r_sctlr (xlat_enable_mmu_el2 r) AND SCTLR_EL2_WXN \<noteq> 0"
proof -
  have i: "(a OR (b OR c)) AND b = (b :: u64)" "(a OR (b OR c)) AND c = c" for a b c
    by (rule bit_word_eqI; auto simp: bit_simps)+
  show "is_mmu_enabled (xlat_enable_mmu_el2 r)" "sctlr_el2_m (r_mmu (xlat_enable_mmu_el2 r))"
    "r_sctlr (xlat_enable_mmu_el2 r) AND SCTLR_EL2_WXN \<noteq> 0"
    by (simp_all add: is_mmu_enabled_def xlat_enable_mmu_el2_def write_sctlr_def i sctlr_bits)
qed

lemma rmm_arch_init_keeps [simp]:
  "r_sctlr (rmm_arch_init H r) = r_sctlr r" "r_mmu (rmm_arch_init H r) = r_mmu r"
  "r_vbar_set (rmm_arch_init H r) = r_vbar_set r" "r_tpidr (rmm_arch_init H r) = r_tpidr r"
  by (simp_all add: rmm_arch_init_def)

lemma enable_mmu_keeps [simp]:
  "ttbr0_el2 (r_mmu (xlat_enable_mmu_el2 r)) = ttbr0_el2 (r_mmu r)"
  "ttbr1_el2 (r_mmu (xlat_enable_mmu_el2 r)) = ttbr1_el2 (r_mmu r)"
  "r_vbar_set (xlat_enable_mmu_el2 r) = r_vbar_set r" "r_tpidr (xlat_enable_mmu_el2 r) = r_tpidr r"
  by (simp_all add: xlat_enable_mmu_el2_def write_sctlr_def)

text \<open>The part that a cold and a warm boot share, from the set-up of the MMU on.\<close>

lemma warm_part:
  assumes rt: "rt_ready l (runtime_xlat_ctx s)" and b: "slots_booting (transient_base_table l) (b_slots s)"
    and cpu: "cpu < MAX_CPUS" "slot_table (transient_base_table l) cpu \<noteq> 0" and ar: "arch_feat_get_pa_width (hw_arch H) \<noteq> None"
    and r: "\<not> sctlr_el2_m (r_mmu (b_regs s cpu))" "r_vbar_set (b_regs s cpu)" "r_tpidr (b_regs s cpu) = of_nat cpu"
  obtains s1 s2 where "plat_warmboot_setup H l cpu s = Some s1"
    "rmm_warmboot_main H cpu (s1\<lparr>b_regs := (b_regs s1)(cpu := xlat_enable_mmu_el2 (b_regs s1 cpu))\<rparr>) = Some s2"
    "cpu_ready l cpu s2" "others_kept l cpu s s2" "slots_booting (transient_base_table l) (b_slots s2)"
    "runtime_xlat_ctx s2 = runtime_xlat_ctx s \<and> b_attest s1 = b_attest s \<and> b_attest s2 = b_attest s
       \<and> cold_boot_flag s2 = cold_boot_flag s"
    "ctx_set (b_slots s) cpu \<longrightarrow>
       slot_memory (transient_base_table l) cpu (b_slots s2) = slot_memory (transient_base_table l) cpu (b_slots s)"
    "\<not> ctx_set (b_slots s) cpu \<longrightarrow> slots_empty_check cpu (b_slots s2) = Some ()"
proof -
  let ?tb = "transient_base_table l" let ?r = "b_regs s cpu"
  obtain m1 where m1: "xlat_arch_setup_mmu_cfg (hw_arch H) (runtime_xlat_ctx s) (r_mmu ?r) = Some (E_OK, m1)"
    "ttbr0_el2 m1 = runtime_base_xlat_table l OR TTBR_CNP_BIT" "\<not> sctlr_el2_m m1"
    by (rule setup_runtime_mmu [OF ar rt r(1)])
  have cpu': "cpu < 16" using cpu by (simp add: MAX_CPUS_def)
  obtain m2 b1 b2 where m2: "slot_buf_setup_xlat (hw_arch H) ?tb cpu m1 (b_slots s) = Some (m2, b1)"
    "slot_buf_init True cpu b1 = Some b2" "slots_booting ?tb b2" "slots_ready ?tb cpu b2"
    "\<not> ctx_set (b_slots s) cpu \<longrightarrow> slots_empty_check cpu b2 = Some ()"
    "ctx_set (b_slots s) cpu \<longrightarrow> slot_memory ?tb cpu b2 = slot_memory ?tb cpu (b_slots s)"
    "\<And>cpu'. cpu' < 16 \<Longrightarrow> cpu' \<noteq> cpu \<Longrightarrow> slot_memory ?tb cpu' b2 = slot_memory ?tb cpu' (b_slots s)
       \<and> (slots_ready ?tb cpu' (b_slots s) \<longrightarrow> slots_ready ?tb cpu' b2)"
    "ttbr1_el2 m2 = slot_table ?tb cpu AND NOT 1" "ttbr0_el2 m2 = ttbr0_el2 m1" "\<not> sctlr_el2_m m2"
    by (rule slots_set_up [OF b cpu' cpu(2) ar m1(3)]) (rule that; assumption)
  let ?s1 = "s\<lparr>b_slots := b1, b_regs := (b_regs s)(cpu := ?r\<lparr>r_mmu := m2\<rparr>)\<rparr>"
  let ?r2 = "rmm_arch_init H (xlat_enable_mmu_el2 (?r\<lparr>r_mmu := m2\<rparr>))"
  let ?s2 = "s\<lparr>b_slots := b2, b_regs := (b_regs s)(cpu := ?r2)\<rparr>"
  have on: "is_mmu_enabled ?r2" "sctlr_el2_m (r_mmu ?r2)" "r_sctlr ?r2 AND SCTLR_EL2_WXN \<noteq> 0"
    using mmu_on by (simp_all add: is_mmu_enabled_def)
  have w1: "plat_warmboot_setup H l cpu s = Some ?s1"
    by (simp add: plat_warmboot_setup_def plat_cmn_warmboot_setup_def m1(1) m2(1))
  have w2: "rmm_warmboot_main H cpu (?s1\<lparr>b_regs := (b_regs ?s1)(cpu := xlat_enable_mmu_el2 (b_regs ?s1 cpu))\<rparr>) = Some ?s2"
    using on(1) m2(2) by (simp add: rmm_warmboot_main_def)
  have w3: "cpu_ready l cpu ?s2"
    using on r m1(2) m2(4,8,9) by (simp add: cpu_ready_def Let_def)
  have w4: "others_kept l cpu s ?s2"
    using m2(7) by (simp add: others_kept_def cpu_ready_def Let_def MAX_CPUS_def)
  show thesis by (rule that [OF w1 w2 w3 w4]) (use m2(3,5,6) in simp_all)
qed

section \<open>Warm boot\<close>

text \<open>What the boot relies on: a supported size of the addresses and tables at an address.\<close>

definition boot_hw_ok :: "hw \<Rightarrow> rmm_layout \<Rightarrow> bool" where
  "boot_hw_ok H l \<longleftrightarrow> arch_feat_get_pa_width (hw_arch H) \<noteq> None
     \<and> gic_get_virt_features (hw_vtr H) (hw_icc_ctlr H) \<noteq> None
     \<and> RMM_SHARED_BUFFER_START l \<noteq> 0 \<and> RMM_SHARED_BUFFER_START l AND PAGE_SIZE_MASK = 0
     \<and> list_all (\<lambda>cpu. slot_table (transient_base_table l) cpu \<noteq> 0) [0..<MAX_CPUS]"

lemma boot_hw_okD:
  assumes "boot_hw_ok H l"
  shows "arch_feat_get_pa_width (hw_arch H) \<noteq> None"
    "cpu < MAX_CPUS \<Longrightarrow> slot_table (transient_base_table l) cpu \<noteq> 0"
  using assms by (simp_all add: boot_hw_ok_def list_all_iff)

text \<open>The registers of a CPU when it has passed the check of its number.\<close>

definition entered :: "u64 \<Rightarrow> 'o boot_world \<Rightarrow> 'o boot_world" where
  "entered x0 s = s\<lparr>b_regs := (b_regs s)(unat x0 :=
     (boot_reg_init (b_regs s (unat x0)))\<lparr>r_tpidr := x0, r_vbar_set := True\<rparr>)\<rparr>"

lemma entered_regs:
  "\<not> sctlr_el2_m (r_mmu (b_regs (entered x0 s) (unat x0)))" "\<not> is_mmu_enabled (b_regs (entered x0 s) (unat x0))"
  "r_vbar_set (b_regs (entered x0 s) (unat x0))" "r_tpidr (b_regs (entered x0 s) (unat x0)) = of_nat (unat x0)"
  "cold_boot_flag (entered x0 s) = cold_boot_flag s" "b_attest (entered x0 s) = b_attest s"
  "runtime_xlat_ctx (entered x0 s) = runtime_xlat_ctx s" "b_slots (entered x0 s) = b_slots s"
  by (simp_all add: entered_def boot_reg_init_def write_sctlr_def is_mmu_enabled_def sctlr_bits)

lemma others_kept_entered: "others_kept l (unat x0) (entered x0 s) s' \<Longrightarrow> others_kept l (unat x0) s s'"
  by (simp add: others_kept_def entered_def cpu_ready_def Let_def)

lemma cpu_id_ok: "\<not> x0 \<ge> of_nat MAX_CPUS \<longleftrightarrow> unat (x0 :: u64) < MAX_CPUS"
  by (simp add: MAX_CPUS_def not_le word_less_nat_alt)

lemma rmm_entry_warm:
  assumes "\<not> cold_boot_flag s" and "unat x0 < MAX_CPUS"
  shows "rmm_entry H l E manifest_at x0 x1 x2 x3 s = do {
     s1 \<leftarrow> plat_warmboot_setup H l (unat x0) (entered x0 s);
     s2 \<leftarrow> rmm_warmboot_main H (unat x0)
             (s1\<lparr>b_regs := (b_regs s1)(unat x0 := xlat_enable_mmu_el2 (b_regs s1 (unat x0)))\<rparr>);
     Some (Inr s2)
   }"
  using assms cpu_id_ok [of x0]
  by (simp add: rmm_entry_def rmm_el3_ifc_validate_cpuid_def Let_def entered_def)

lemma warm_boot:
  assumes up: "system_booted l s" and hw: "boot_hw_ok H l"
  shows "case rmm_entry H l E manifest_at x0 x1 x2 x3 s of
      None \<Rightarrow> False
    | Some (Inl code) \<Rightarrow> unat x0 \<ge> MAX_CPUS \<and> code = E_RMM_BOOT_CPU_ID_OUT_OF_RANGE
    | Some (Inr s') \<Rightarrow> unat x0 < MAX_CPUS \<and> system_booted l s' \<and> cpu_ready l (unat x0) s' \<and> others_kept l (unat x0) s s'
        \<and> b_attest s' = b_attest s \<and> runtime_xlat_ctx s' = runtime_xlat_ctx s
        \<and> (if ctx_set (b_slots s) (unat x0)
            then slot_memory (transient_base_table l) (unat x0) (b_slots s')
               = slot_memory (transient_base_table l) (unat x0) (b_slots s)
            else slots_empty_check (unat x0) (b_slots s') = Some ())"
proof (cases "unat x0 < MAX_CPUS")
  case False
  then show ?thesis using cpu_id_ok [of x0] by (simp add: rmm_entry_def rmm_el3_ifc_validate_cpuid_def)
next
  case True
  let ?e = "entered x0 s" let ?cpu = "unat x0" let ?tb = "transient_base_table l"
  note u = up [unfolded system_booted_def]
  have rt: "rt_ready l (runtime_xlat_ctx ?e)" and b: "slots_booting ?tb (b_slots ?e)"
    using u by (simp_all add: entered_regs)
  obtain s1 s2 where w: "plat_warmboot_setup H l ?cpu ?e = Some s1"
    "rmm_warmboot_main H ?cpu (s1\<lparr>b_regs := (b_regs s1)(?cpu := xlat_enable_mmu_el2 (b_regs s1 ?cpu))\<rparr>) = Some s2"
    "cpu_ready l ?cpu s2" "others_kept l ?cpu ?e s2" "slots_booting ?tb (b_slots s2)"
    "runtime_xlat_ctx s2 = runtime_xlat_ctx ?e \<and> b_attest s1 = b_attest ?e \<and> b_attest s2 = b_attest ?e
       \<and> cold_boot_flag s2 = cold_boot_flag ?e"
    "ctx_set (b_slots ?e) ?cpu \<longrightarrow> slot_memory ?tb ?cpu (b_slots s2) = slot_memory ?tb ?cpu (b_slots ?e)"
    "\<not> ctx_set (b_slots ?e) ?cpu \<longrightarrow> slots_empty_check ?cpu (b_slots s2) = Some ()"
    by (rule warm_part [OF rt b True boot_hw_okD(2) [OF hw True] boot_hw_okD(1) [OF hw] entered_regs(1,3,4)])
  show ?thesis
    using w others_kept_entered [OF w(4)] u True
    by (simp add: rmm_entry_warm system_booted_def entered_regs(5-8))
qed

section \<open>Cold boot\<close>

text \<open>
  The code that is reported for the arguments of a cold boot: the number of the CPU, the version
  of the interface, the number of CPUs, the address of the shared buffer and the version of the
  manifest are looked at in this order.
\<close>

definition boot_error :: "u64 \<Rightarrow> u64 \<Rightarrow> u64 \<Rightarrow> u64 \<Rightarrow> rmm_core_manifest \<Rightarrow> u64 option" where
  "boot_error x0 x1 x2 x3 mf =
     (if unat x0 \<ge> 16 then Some E_RMM_BOOT_CPU_ID_OUT_OF_RANGE
      else if unat x1 div 2 ^ 16 mod 2 ^ 15 \<noteq> 0 then Some E_RMM_BOOT_VERSION_MISMATCH
      else if unat x2 > 16 then Some E_RMM_BOOT_CPUS_OUT_OF_RANGE
      else if unat x0 \<ge> unat x2 then Some E_RMM_BOOT_CPU_ID_OUT_OF_RANGE
      else if x3 = 0 \<or> unat x3 mod 4096 \<noteq> 0 then Some E_RMM_BOOT_INVALID_SHARED_POINTER
      else if unat (mf_version mf) div 2 ^ 16 mod 2 ^ 15 \<noteq> 0 then Some E_RMM_BOOT_MANIFEST_VERSION_NOT_SUPPORTED
      else None)"

lemma vers_major: "unat (RMM_EL3_IFC_GET_VERS_MAJOR v) = unat v div 2 ^ 16 mod 2 ^ 15"
proof -
  have "(0x7FFF :: u64) = mask 15" by (simp add: mask_eq_exp_minus_1)
  then have "RMM_EL3_IFC_GET_VERS_MAJOR v = take_bit 15 (drop_bit 16 v)"
    by (simp only: RMM_EL3_IFC_GET_VERS_MAJOR_def take_bit_eq_mask)
  moreover have "unat v < 2 ^ LENGTH(64)" by (rule unsigned_less)
  ultimately show ?thesis
    by (simp only: unsigned_take_bit_eq unsigned_drop_bit_eq) (simp add: take_bit_eq_mod drop_bit_eq_div)
qed

lemma page_offset: "(w :: u64) AND PAGE_SIZE_MASK = 0 \<longleftrightarrow> unat w mod 4096 = 0"
proof -
  have "PAGE_SIZE_MASK = mask 12" by (simp add: PAGE_SIZE_MASK_def mask_eq_exp_minus_1)
  then have "w AND PAGE_SIZE_MASK = take_bit 12 w" by (simp add: take_bit_eq_mask)
  moreover have "unat (take_bit 12 w) = unat w mod 4096"
    by (simp only: unsigned_take_bit_eq) (simp add: take_bit_eq_mod)
  ultimately show ?thesis by (metis unat_eq_0)
qed

lemma unat_widen: "unat (ucast (w :: u32) :: u64) = unat w"
proof -
  have "unat w < 2 ^ LENGTH(32)" by (rule unsigned_less)
  then have "unat w < 2 ^ 64" by simp
  then show ?thesis by (simp add: unsigned_ucast_eq take_bit_nat_eq_self)
qed

definition ifc_booted :: "u64 \<Rightarrow> u64 \<Rightarrow> u64 \<Rightarrow> rmm_core_manifest \<Rightarrow> el3_ifc \<Rightarrow> el3_ifc" where
  "ifc_booted x1 x3 va mf e = e\<lparr>rmm_el3_ifc_abi_version := x1, rmm_shared_buffer_start_pa := x3,
     rmm_shared_buffer_start_va := va, ifc_initialized := True, local_core_manifest := mf, manifest_processed := True\<rparr>"

lemma ifc_init_outcome:
  assumes "\<not> ifc_initialized e" "\<not> manifest_processed e" "va \<noteq> 0" "va AND PAGE_SIZE_MASK = 0" "unat x0 < 16"
  shows "rmm_el3_ifc_init False manifest_at x0 x1 x2 x3 va e =
    Some (case boot_error x0 x1 x2 x3 (manifest_at x3) of
        Some code \<Rightarrow> Inl code | None \<Rightarrow> Inr (ifc_booted x1 x3 va (manifest_at x3) e))"
proof -
  have v: "RMM_EL3_IFC_GET_VERS_MAJOR w = 0 \<longleftrightarrow> unat w div 2 ^ 16 mod 2 ^ 15 = 0" for w
    by (simp only: vers_major [symmetric] unat_eq_0)
  have c: "(x2 > of_nat MAX_CPUS) = (unat x2 > 16)" by (simp add: MAX_CPUS_def word_less_nat_alt)
  show ?thesis
    using assms
    by (simp add: rmm_el3_ifc_init_def boot_error_def rmm_el3_ifc_process_boot_manifest_def RMM_EL3_IFC_VERS_MAJOR_def
        RMM_EL3_MANIFEST_VERS_MAJOR_def v unat_widen c page_offset word_le_nat_alt rmm_el3_ifc_get_shared_buf_pa_def ifc_booted_def
        word_neq_0_conv [symmetric])
qed

text \<open>
  The tables of the runtime can be built for a layout of the image and an address of the shared
  buffer: the regions do not meet and fit into the tables.  The memory of the tables is \<open>m\<close>.
\<close>

definition tables_built :: "hw \<Rightarrow> rmm_layout \<Rightarrow> u64 \<Rightarrow> (u64 \<Rightarrow> u64) \<Rightarrow> bool" where
  "tables_built H l x3 m = (case do {
       (r1, x) \<leftarrow> xlat_mmap_add_ctx (hw_arch H) plat_regions False (runtime_ctx_reset l m);
       (r2, x) \<leftarrow> xlat_mmap_add_ctx (hw_arch H) [RMM_CODE l, RMM_RO l, RMM_RW l,
                    (RMM_SHARED l)\<lparr>base_pa := x3, mm_size := rmm_el3_ifc_get_shared_buf_size\<rparr>, empty_region] True x;
       (r3, x) \<leftarrow> xlat_init_tables_ctx False x;
       Some (r1 = E_OK \<and> r2 = E_OK \<and> r3 = E_OK)
     } of None \<Rightarrow> False | Some r \<Rightarrow> r)"

lemma runtime_ctx_reset_ready:
  assumes "region_frame (runtime_ctx_reset l m) x" and "case ctx_cfg x of None \<Rightarrow> False | Some cfg \<Rightarrow> cfg_initialized cfg"
    and "xlat_init_tables_ctx False x = Some (E_OK, x')"
  shows "rt_ready l x'"
proof -
  let ?t = "XLAT_CREATE_TABLES (runtime_xlat_tables l) PLAT_CMN_CTX_MAX_XLAT_TABLES (runtime_base_xlat_table l)
      VIRT_ADDR_SPACE_SIZE"
  obtain cfg where x: "ctx_cfg x = Some cfg" "cfg_initialized cfg" "cfg_region cfg = VA_LOW_REGION"
    "max_va_size cfg = VIRT_ADDR_SPACE_SIZE" "ctx_tbls x = Some ?t"
    using assms(1,2)
    by (auto simp: region_frame_def runtime_ctx_reset_def rel_option_iff XLAT_REGISTER_VA_SPACE_def split: option.splits)
  have t: "\<not> tbls_initialized ?t" "base_table ?t = runtime_base_xlat_table l"
    by (simp_all add: XLAT_CREATE_TABLES_def XLAT_INIT_CTX_TBLS_def)
  obtain m t' m' where r: "map_regions (base_level cfg) (cfg_mmap cfg) (?t, m) = Some (E_OK, t', m')"
    "x' = x\<lparr>ctx_tbls := Some (t'\<lparr>tbls_initialized := True\<rparr>), tmem := m'\<rparr>"
    using assms(3) x t(1)
    by (auto simp: xlat_init_tables_ctx_def Let_def bind_eq_Some_conv split: if_split_asm)
  have "base_table t' = runtime_base_xlat_table l"
    using map_regions_frame [OF r(1)] t(2) by (simp add: tbls_frame_def)
  then show ?thesis using x r(2) by (simp add: rt_ready_def)
qed

lemma plat_setup_tables:
  assumes x: "runtime_xlat_ctx s = runtime_ctx_reset l m" and hw: "boot_hw_ok H l"
    and r: "\<not> is_mmu_enabled (b_regs s cpu)" and id: "unat x0 < 16"
    and e: "\<not> ifc_initialized (a_ifc (b_attest s))" "\<not> manifest_processed (a_ifc (b_attest s))"
  shows "boot_error x0 x1 x2 x3 (manifest_at x3) = Some code
      \<Longrightarrow> plat_cmn_setup H l manifest_at cpu x0 x1 x2 x3 plat_regions s = Some (Inl code)"
    and "boot_error x0 x1 x2 x3 (manifest_at x3) = None \<Longrightarrow> tables_built H l x3 m
      \<Longrightarrow> (\<exists>x gic. rt_ready l x \<and> plat_cmn_setup H l manifest_at cpu x0 x1 x2 x3 plat_regions s =
        Some (Inr (E_OK, s\<lparr>b_attest := (b_attest s)\<lparr>a_ifc :=
            ifc_booted x1 x3 (RMM_SHARED_BUFFER_START l) (manifest_at x3) (a_ifc (b_attest s))\<rparr>,
          runtime_xlat_ctx := x, gic_virt_feature := Some gic\<rparr>)))"
proof -
  let ?va = "RMM_SHARED_BUFFER_START l" let ?e = "a_ifc (b_attest s)"
  obtain gic where gic: "gic_get_virt_features (hw_vtr H) (hw_icc_ctlr H) = Some gic"
    and va: "?va \<noteq> 0" "?va AND PAGE_SIZE_MASK = 0"
    using hw by (auto simp: boot_hw_ok_def)
  note i = ifc_init_outcome [OF e va id, of manifest_at x1 x2 x3]
  show "plat_cmn_setup H l manifest_at cpu x0 x1 x2 x3 plat_regions s = Some (Inl code)"
    if "boot_error x0 x1 x2 x3 (manifest_at x3) = Some code"
    using r that by (simp add: plat_cmn_setup_def i)
  assume ok: "boot_error x0 x1 x2 x3 (manifest_at x3) = None" and tb: "tables_built H l x3 m"
  let ?shared = "(RMM_SHARED l)\<lparr>base_pa := x3, mm_size := rmm_el3_ifc_get_shared_buf_size\<rparr>"
  obtain xa xb xc where t: "xlat_mmap_add_ctx (hw_arch H) plat_regions False (runtime_ctx_reset l m) = Some (E_OK, xa)"
    "xlat_mmap_add_ctx (hw_arch H) [RMM_CODE l, RMM_RO l, RMM_RW l, ?shared, empty_region] True xa = Some (E_OK, xb)"
    "xlat_init_tables_ctx False xb = Some (E_OK, xc)"
    using tb by (auto simp: tables_built_def bind_eq_Some_conv split: option.split_asm)
  have "rt_ready l xc"
    by (rule runtime_ctx_reset_ready [OF region_frame_trans _ t(3)]) (use add_ctx_frame [OF t(1)] add_ctx_frame [OF t(2)] in auto)
  moreover have "rmm_el3_ifc_get_shared_buf_pa (ifc_booted x1 x3 ?va (manifest_at x3) ?e) = Some x3"
    by (simp add: rmm_el3_ifc_get_shared_buf_pa_def ifc_booted_def)
  ultimately show "\<exists>x gic. rt_ready l x \<and> plat_cmn_setup H l manifest_at cpu x0 x1 x2 x3 plat_regions s =
        Some (Inr (E_OK, s\<lparr>b_attest := (b_attest s)\<lparr>a_ifc :=
            ifc_booted x1 x3 (RMM_SHARED_BUFFER_START l) (manifest_at x3) (a_ifc (b_attest s))\<rparr>,
          runtime_xlat_ctx := x, gic_virt_feature := Some gic\<rparr>))"
    using r t gic ok by (auto simp: plat_cmn_setup_def Let_def i x)
qed

text \<open>If the tables cannot be built, an assertion of \<^verbatim>\<open>plat_setup\<close> or of the library fails.\<close>

lemma plat_setup_stuck:
  assumes tb: "\<not> tables_built H l x3 m" and x: "runtime_xlat_ctx s = runtime_ctx_reset l m" and hw: "boot_hw_ok H l"
    and r: "\<not> is_mmu_enabled (b_regs s cpu)" and id: "unat x0 < 16"
    and e: "\<not> ifc_initialized (a_ifc (b_attest s))" "\<not> manifest_processed (a_ifc (b_attest s))"
    and ok: "boot_error x0 x1 x2 x3 (manifest_at x3) = None"
  shows "plat_setup H l manifest_at cpu x0 x1 x2 x3 s = None"
proof -
  let ?va = "RMM_SHARED_BUFFER_START l" let ?e = "a_ifc (b_attest s)"
  have va: "?va \<noteq> 0" "?va AND PAGE_SIZE_MASK = 0" using hw by (auto simp: boot_hw_ok_def)
  note i = ifc_init_outcome [OF e va id, of manifest_at x1 x2 x3]
  have pa: "rmm_el3_ifc_get_shared_buf_pa (ifc_booted x1 x3 ?va (manifest_at x3) ?e) = Some x3"
    by (simp add: rmm_el3_ifc_get_shared_buf_pa_def ifc_booted_def)
  let ?shared = "(RMM_SHARED l)\<lparr>base_pa := x3, mm_size := rmm_el3_ifc_get_shared_buf_size\<rparr>"
  show ?thesis
  proof (cases "xlat_mmap_add_ctx (hw_arch H) plat_regions False (runtime_ctx_reset l m)")
    case None
    then show ?thesis using r ok by (simp add: plat_setup_def plat_cmn_setup_def i x)
  next
    case a: (Some ra)
    obtain ea xa where ra: "ra = (ea, xa)" by (cases ra)
    show ?thesis
    proof (cases "ea = E_OK")
      case False
      then show ?thesis using r ok a ra by (simp add: plat_setup_def plat_cmn_setup_def i x bind_assert_c)
    next
      case ea: True
      show ?thesis
      proof (cases "xlat_mmap_add_ctx (hw_arch H) [RMM_CODE l, RMM_RO l, RMM_RW l, ?shared, empty_region] True xa")
        case None
        then show ?thesis using r ok a ra ea by (simp add: plat_setup_def plat_cmn_setup_def i x pa)
      next
        case b: (Some rb)
        obtain eb xb where rb: "rb = (eb, xb)" by (cases rb)
        show ?thesis
        proof (cases "eb = E_OK")
          case False
          then show ?thesis using r ok a ra ea b rb
            by (simp add: plat_setup_def plat_cmn_setup_def i x pa bind_assert_c)
        next
          case eb: True
          then show ?thesis using r ok a ra ea b rb tb
            by (cases "xlat_init_tables_ctx False xb")
              (auto simp: plat_setup_def plat_cmn_setup_def tables_built_def i x pa bind_assert_c)
        qed
      qed
    qed
  qed
qed

text \<open>What the boot relies on of EL3 and of the hash of the cryptographic library.\<close>

definition boot_env_ok :: "'o attest_env \<Rightarrow> bool" where
  "boot_env_ok E \<longleftrightarrow> el3_ok (e_el3 E) \<and> e_init_ctx E \<noteq> 0
     \<and> (\<forall>pk. length (snd (mbed_sha256 (e_mbed E) pk)) \<le> 4096)"

lemma bss_init_simps [simp]:
  "b_regs (bss_init s) = b_regs s" "runtime_xlat_ctx (bss_init s) = runtime_xlat_ctx s"
  "cold_boot_flag (bss_init s) = cold_boot_flag s" "\<not> ifc_initialized (a_ifc (b_attest (bss_init s)))"
  "\<not> manifest_processed (a_ifc (b_attest (bss_init s)))" "\<not> ctx_set (b_slots (bss_init s)) cpu"
  by (simp_all add: bss_init_def el3_ifc_reset_def slot_bufs_reset_def)

lemma bss_init_slots: "slots_booting tb (b_slots (bss_init s))"
  by (simp add: bss_init_def slot_bufs_reset_def slots_booting_def list_all_iff)

lemma rmm_entry_cold:
  assumes "cold_boot_flag s" and "unat x0 < MAX_CPUS"
  shows "rmm_entry H l E manifest_at x0 x1 x2 x3 s = do {
     r \<leftarrow> plat_setup H l manifest_at (unat x0) x0 x1 x2 x3 (bss_init ((entered x0 s)\<lparr>cold_boot_flag := False\<rparr>));
     (case r of
        Inl code \<Rightarrow> Some (Inl code)
      | Inr s \<Rightarrow> do {
          s \<leftarrow> rmm_main H E (unat x0) (s\<lparr>b_regs := (b_regs s)(unat x0 := xlat_enable_mmu_el2 (b_regs s (unat x0)))\<rparr>);
          Some (Inr s)
        })
   }"
  using assms cpu_id_ok [of x0]
  by (simp add: rmm_entry_def rmm_el3_ifc_validate_cpuid_def Let_def entered_def)

lemma cold_boot:
  assumes cold: "cold_boot_flag s" and rt: "runtime_xlat_ctx s = runtime_ctx_reset l m"
    and hw: "boot_hw_ok H l" and env: "boot_env_ok E"
    and page: "length (shared_mem (a_ifc (b_attest s))) = 4096"
  shows "case rmm_entry H l E manifest_at x0 x1 x2 x3 s of
      None \<Rightarrow> boot_error x0 x1 x2 x3 (manifest_at x3) = None \<and> \<not> tables_built H l x3 m
    | Some (Inl code) \<Rightarrow> boot_error x0 x1 x2 x3 (manifest_at x3) = Some code
    | Some (Inr s') \<Rightarrow> boot_error x0 x1 x2 x3 (manifest_at x3) = None \<and> tables_built H l x3 m
        \<and> system_booted l s' \<and> cpu_ready l (unat x0) s'
        \<and> slots_empty_check (unat x0) (b_slots s') = Some ()
        \<and> (\<exists>ret. attest_outcome (unat x0) (e_init_ctx E) ret (b_attest s'))"
proof (cases "unat x0 < MAX_CPUS")
  case False
  then show ?thesis using cpu_id_ok [of x0]
    by (simp add: rmm_entry_def rmm_el3_ifc_validate_cpuid_def boot_error_def MAX_CPUS_def)
next
  case True
  let ?cpu = "unat x0" let ?tb = "transient_base_table l"
  let ?s0 = "bss_init ((entered x0 s)\<lparr>cold_boot_flag := False\<rparr>)"
  have id: "?cpu < 16" using True by (simp add: MAX_CPUS_def)
  have x: "runtime_xlat_ctx ?s0 = runtime_ctx_reset l m" by (simp add: entered_regs rt)
  have r: "\<not> is_mmu_enabled (b_regs ?s0 ?cpu)" by (simp add: entered_regs)
  note p = plat_setup_tables [OF x hw r id bss_init_simps(4,5), where ?x1.0 = x1 and ?x2.0 = x2 and ?x3.0 = x3 and manifest_at = manifest_at]
  show ?thesis
  proof (cases "boot_error x0 x1 x2 x3 (manifest_at x3) = None \<and> tables_built H l x3 m")
    case False
    show ?thesis
    proof (cases "boot_error x0 x1 x2 x3 (manifest_at x3)")
      case (Some code)
      then show ?thesis using p(1) by (simp add: rmm_entry_cold [OF cold True] plat_setup_def)
    next
      case None
      then have "\<not> tables_built H l x3 m" using False by simp
      from plat_setup_stuck [where ?x0.0 = x0 and ?x1.0 = x1 and ?x2.0 = x2 and ?x3.0 = x3 and manifest_at = manifest_at and s = ?s0,
          OF this x hw r id bss_init_simps(4,5) None] None this
      show ?thesis by (simp add: rmm_entry_cold [OF cold True])
    qed
  next
    case acc: True
    then have None: "boot_error x0 x1 x2 x3 (manifest_at x3) = None" and tb: "tables_built H l x3 m" by simp_all
    let ?ifc = "ifc_booted x1 x3 (RMM_SHARED_BUFFER_START l) (manifest_at x3) (a_ifc (b_attest ?s0))"
    let ?a = "(b_attest ?s0)\<lparr>a_ifc := ?ifc\<rparr>"
    obtain rx gic where g: "rt_ready l rx" "plat_cmn_setup H l manifest_at ?cpu x0 x1 x2 x3 plat_regions ?s0
        = Some (Inr (E_OK, ?s0\<lparr>b_attest := ?a, runtime_xlat_ctx := rx, gic_virt_feature := Some gic\<rparr>))"
      using p(2) [OF None tb] by blast
    let ?s1 = "?s0\<lparr>b_attest := ?a, runtime_xlat_ctx := rx, gic_virt_feature := Some gic\<rparr>"
    have b: "slots_booting ?tb (b_slots ?s1)" using bss_init_slots by simp
    have rt1: "rt_ready l (runtime_xlat_ctx ?s1)" using g(1) by simp
    have regs: "\<not> sctlr_el2_m (r_mmu (b_regs ?s1 ?cpu))" "r_vbar_set (b_regs ?s1 ?cpu)"
      "r_tpidr (b_regs ?s1 ?cpu) = of_nat ?cpu" using entered_regs(1,3,4) [of x0 s] by simp_all
    obtain s2 s3 where w: "plat_warmboot_setup H l ?cpu ?s1 = Some s2"
      "rmm_warmboot_main H ?cpu (s2\<lparr>b_regs := (b_regs s2)(?cpu := xlat_enable_mmu_el2 (b_regs s2 ?cpu))\<rparr>) = Some s3"
      "cpu_ready l ?cpu s3" "others_kept l ?cpu ?s1 s3" "slots_booting ?tb (b_slots s3)"
      "runtime_xlat_ctx s3 = runtime_xlat_ctx ?s1 \<and> b_attest s2 = b_attest ?s1 \<and> b_attest s3 = b_attest ?s1
         \<and> cold_boot_flag s3 = cold_boot_flag ?s1"
      "ctx_set (b_slots ?s1) ?cpu \<longrightarrow> slot_memory ?tb ?cpu (b_slots s3) = slot_memory ?tb ?cpu (b_slots ?s1)"
      "\<not> ctx_set (b_slots ?s1) ?cpu \<longrightarrow> slots_empty_check ?cpu (b_slots s3) = Some ()"
      by (rule warm_part [OF rt1 b True boot_hw_okD(2) [OF hw True] boot_hw_okD(1) [OF hw] regs])
    have ifc: "ifc_ok (a_ifc ?a)"
      using hw page by (simp add: ifc_ok_def ifc_booted_def boot_hw_ok_def bss_init_def el3_ifc_reset_def entered_regs)
    have heaps: "length (ctx_per_cpu (a_heaps ?a)) = MAX_CPUS" "ctx_per_cpu (a_heaps ?a) ! ?cpu = 0"
      "\<not> prng_init_done ?a" "\<not> attest_initialized ?a" "length (realm_attest_public_key_hash ?a) \<le> 4096"
      using True by (simp_all add: bss_init_def)
    have E: "e_init_ctx E \<noteq> 0" "el3_ok (e_el3 E)" "\<And>pk. length (snd (mbed_sha256 (e_mbed E) pk)) \<le> 4096"
      using env by (simp_all add: boot_env_ok_def)
    obtain ret a where a: "attestation_init (e_mbed E) (e_alloc E) (e_el3 E) (hw_rng H) (e_entropy E) (e_init_ctx E)
        (e_mem_buf E) ?cpu ?a = Some (ret, a)" "attest_outcome ?cpu (e_init_ctx E) ret a"
      by (rule attestation_outcome [OF True heaps(1,2) E(1) ifc E(2) heaps(3,4) E(3) heaps(5),
            where K = "e_alloc E" and present = "hw_rng H" and entropy = "e_entropy E" and mem_buf = "e_mem_buf E"])
    let ?s4 = "s3\<lparr>b_attest := a\<rparr>"
    have "rmm_entry H l E manifest_at x0 x1 x2 x3 s = Some (Inr ?s4)"
      using g(2) w(1,2,6) a(1)
      by (simp add: rmm_entry_cold [OF cold True] plat_setup_def rmm_main_def rmm_el3_ifc_get_version_def
          rmm_el3_ifc_get_manifest_version_def ifc_booted_def)
    moreover have "system_booted l ?s4"
      using w(5,6) g(1) a(2) by (simp add: system_booted_def attest_outcome_def)
    moreover have "cpu_ready l ?cpu ?s4" using w(3) by (simp add: cpu_ready_def Let_def)
    ultimately show ?thesis using None tb w(8) a(2) by auto
  qed
qed

section \<open>All CPUs\<close>

text \<open>
  The platform comes up with the cold boot of one CPU; every later boot, of another CPU or of
  one that was switched off, is a step.  Seen from outside, the set of CPUs that are ready grows
  by one.
\<close>

inductive boot_step ::
  "hw \<Rightarrow> rmm_layout \<Rightarrow> 'o attest_env \<Rightarrow> (u64 \<Rightarrow> rmm_core_manifest) \<Rightarrow> 'o boot_world \<Rightarrow> 'o boot_world \<Rightarrow> bool"
  for H l E manifest_at where
  "rmm_entry H l E manifest_at x0 x1 x2 x3 s = Some (Inr s') \<Longrightarrow> boot_step H l E manifest_at s s'"

inductive_cases boot_stepE: "boot_step H l E manifest_at s s'"

definition first_booted ::
  "hw \<Rightarrow> rmm_layout \<Rightarrow> 'o attest_env \<Rightarrow> (u64 \<Rightarrow> rmm_core_manifest) \<Rightarrow> 'o boot_world \<Rightarrow> bool" where
  "first_booted H l E manifest_at s' \<longleftrightarrow> boot_hw_ok H l \<and> boot_env_ok E
     \<and> (\<exists>s m x0 x1 x2 x3. cold_boot_flag s \<and> runtime_xlat_ctx s = runtime_ctx_reset l m
          \<and> length (shared_mem (a_ifc (b_attest s))) = 4096
          \<and> rmm_entry H l E manifest_at x0 x1 x2 x3 s = Some (Inr s'))"

definition ready_cpus :: "rmm_layout \<Rightarrow> 'o boot_world \<Rightarrow> nat set" where
  "ready_cpus l s = {cpu. cpu < MAX_CPUS \<and> cpu_ready l cpu s}"

definition cpu_up :: "nat set \<times> 'o attest \<Rightarrow> nat set \<times> 'o attest \<Rightarrow> bool" where
  "cpu_up c c' \<longleftrightarrow> (\<exists>cpu < MAX_CPUS. insert cpu (fst c) \<subseteq> fst c') \<and> snd c' = snd c"

lemma boot_step_up:
  assumes "boot_hw_ok H l" and "system_booted l s" and "rmm_entry H l E manifest_at x0 x1 x2 x3 s = Some (Inr s')"
  shows "system_booted l s' \<and> b_attest s' = b_attest s \<and> unat x0 < MAX_CPUS
    \<and> insert (unat x0) (ready_cpus l s) \<subseteq> ready_cpus l s'"
proof -
  have w: "system_booted l s' \<and> b_attest s' = b_attest s \<and> unat x0 < MAX_CPUS \<and> cpu_ready l (unat x0) s'
      \<and> others_kept l (unat x0) s s'"
    using warm_boot [OF assms(2,1), where E = E and manifest_at = manifest_at and ?x0.0 = x0 and ?x1.0 = x1
        and ?x2.0 = x2 and ?x3.0 = x3] assms(3) by simp
  moreover have "cpu \<in> ready_cpus l s'" if "cpu \<in> ready_cpus l s" for cpu
    using w that by (cases "cpu = unat x0") (simp_all add: ready_cpus_def others_kept_def)
  ultimately show ?thesis by (auto simp: ready_cpus_def)
qed

interpretation boot: refinement "first_booted H l E manifest_at" "boot_step H l E manifest_at"
  "\<lambda>s. boot_hw_ok H l \<and> system_booted l s" "\<lambda>s. (ready_cpus l s, b_attest s)" cpu_up
  for H l E manifest_at
proof unfold_locales
  show "boot_hw_ok H l \<and> system_booted l s" if first: "first_booted H l E manifest_at s" for s
  proof -
    obtain s0 m x0 x1 x2 x3 where f: "cold_boot_flag s0" "runtime_xlat_ctx s0 = runtime_ctx_reset l m"
      "boot_hw_ok H l" "boot_env_ok E" "length (shared_mem (a_ifc (b_attest s0))) = 4096"
      "rmm_entry H l E manifest_at x0 x1 x2 x3 s0 = Some (Inr s)"
      using first by (auto simp: first_booted_def)
    show ?thesis
      using cold_boot [OF f(1-5), where manifest_at = manifest_at and ?x0.0 = x0 and ?x1.0 = x1 and ?x2.0 = x2 and ?x3.0 = x3]
        f(3,6)
      by simp
  qed
  show "boot_hw_ok H l \<and> system_booted l s'" "cpu_up (ready_cpus l s, b_attest s) (ready_cpus l s', b_attest s')"
    if "boot_hw_ok H l \<and> system_booted l s" "boot_step H l E manifest_at s s'" for s s'
    using that by (auto elim!: boot_stepE dest!: boot_step_up simp: cpu_up_def)
qed

lemma cpus_up: "cpu_up\<^sup>*\<^sup>* c c' \<Longrightarrow> fst c \<subseteq> fst c' \<and> snd c' = snd c"
  by (induction rule: rtranclp_induct) (auto simp: cpu_up_def)

section \<open>A sample image, its CPUs and its environment\<close>

text \<open>
  An image of a few pages, a processor with addresses of 40 bits, a cryptographic library that
  accepts everything and an EL3 that answers with 48 bytes.
\<close>

definition sample_layout :: rmm_layout where
  "sample_layout = \<lparr>RMM_CODE_START = 0x6000000, RMM_CODE_END = 0x6002000, RMM_RO_START = 0x6002000,
     RMM_RO_END = 0x6003000, RMM_RW_START = 0x6003000, RMM_RW_END = 0x6004000, runtime_base_xlat_table = 0x6010000,
     runtime_xlat_tables = 0x6011000, transient_base_table = 0x6020000\<rparr>"

definition sample_hw :: hw where
  "sample_hw = \<lparr>hw_arch = \<lparr>id_aa64mmfr0_el1 = 2, id_aa64mmfr1_el1 = 0\<rparr>, hw_vtr = 0x90000003, hw_icc_ctlr = 0,
     hw_mpam = False, hw_spe = False, hw_rng = True\<rparr>"

definition sample_mbedtls :: "unit mbedtls" where
  "sample_mbedtls = \<lparr>hmac_drbg_seed_buf = (\<lambda>_. (0, ())), hmac_drbg_random = (\<lambda>_ n. (0, replicate n 7, ())),
     ecp_group_load = 0, mpi_read_binary = (\<lambda>_. (0, Some ())), ecp_check_privkey = (\<lambda>_. 0),
     ecp_mul = (\<lambda>_ _. (0, (), ())), ecp_point_write_binary = (\<lambda>_ n. (0, replicate n 4)),
     mbed_sha256 = (\<lambda>_. (0, replicate 32 9))\<rparr>"

definition sample_el3 :: el3_monitor where
  "sample_el3 fid args page = (0, 48, replicate 48 5 @ drop 48 page)"

definition sample_boot_env :: "unit attest_env" where
  "sample_boot_env = \<lparr>e_mbed = sample_mbedtls, e_alloc = \<lparr>MEMORY_ALIGN_MULTIPLE = 8, MEMORY_VERIFY_ALLOC = 1, MEMORY_VERIFY_FREE = 2\<rparr>,
     e_el3 = sample_el3, e_entropy = (\<lambda>_. Some 3), e_init_ctx = 0x6030000, e_mem_buf = 0x6031000\<rparr>"

definition sample_attest :: "unit attest" where
  "sample_attest = \<lparr>a_ifc = el3_ifc_reset\<lparr>ifc_initialized := True, rmm_shared_buffer_start_va := 0x6005000,
       rmm_shared_buffer_start_pa := 0x7000000\<rparr>,
     a_heaps = \<lparr>ctx_per_cpu = replicate MAX_CPUS 0, ctx_at = (\<lambda>_. ctx_zero), heap_bytes = (\<lambda>_. 0)\<rparr>,
     attest_initialized = False, ecp_max_ops = 0, cpu_drbg_ctx = (\<lambda>_. Some ()), prng_init_done = False,
     realm_attest_keypair_d = None, realm_attest_keypair_Q = None, realm_attest_public_key = [],
     realm_attest_public_key_hash = [], rmm_platform_token = None\<rparr>"

definition sample_regs :: el2_regs where
  "sample_regs = \<lparr>r_sctlr = 0, r_hcr = 0, r_cptr = 0, r_icc_sre = 0, r_vbar_set = False, r_tpidr = 0, r_cnthctl = 0,
     r_mdcr = 0, r_mpam2 = 0, r_mpamhcr = 0, r_pmscr = 0,
     r_mmu = \<lparr>mair_el2 = 0, tcr_el2 = 0, ttbr0_el2 = 0, ttbr1_el2 = 0, sctlr_el2_m = False\<rparr>\<rparr>"

definition sample_manifest :: "u64 \<Rightarrow> rmm_core_manifest" where
  "sample_manifest pa = \<lparr>mf_version = 1, mf_plat_data = 0\<rparr>"

text \<open>Before the cold boot, and with the tables built for the warm boot of a second CPU.\<close>

definition sample_cold :: "unit boot_world" where
  "sample_cold = \<lparr>cold_boot_flag = True, b_attest = sample_attest,
     runtime_xlat_ctx = runtime_ctx_reset sample_layout (\<lambda>_. 0), b_slots = slot_bufs_reset (\<lambda>_. 0),
     gic_virt_feature = None, b_regs = (\<lambda>_. sample_regs)\<rparr>"

definition sample_runtime :: xlat_ctx where
  "sample_runtime = (let x = runtime_ctx_reset sample_layout (\<lambda>_. 0) in
     x\<lparr>ctx_cfg := map_option (\<lambda>c. c\<lparr>cfg_initialized := True\<rparr>) (ctx_cfg x),
       ctx_tbls := map_option (\<lambda>t. t\<lparr>tbls_initialized := True\<rparr>) (ctx_tbls x)\<rparr>)"

definition sample_warm :: "unit boot_world" where
  "sample_warm = sample_cold\<lparr>cold_boot_flag := False, runtime_xlat_ctx := sample_runtime\<rparr>"

lemma sample_hw_ok: "boot_hw_ok sample_hw sample_layout"
  by code_simp

lemma sample_el3_ok: "el3_ok sample_el3"
  by (simp add: el3_ok_def sample_el3_def)

lemma sample_boot_env_ok: "boot_env_ok sample_boot_env"
  by (simp add: boot_env_ok_def sample_boot_env_def sample_el3_ok sample_mbedtls_def)

lemma sample_ifc_ok: "ifc_ok (a_ifc sample_attest)"
  by (simp add: ifc_ok_def sample_attest_def el3_ifc_reset_def PAGE_SIZE_MASK_def)

lemma zero_tables_zero: "zero_tables a n (zero_tables b k (\<lambda>_. 0)) = (\<lambda>_. 0)"
  by (simp add: zero_tables_def INVALID_DESC_def fun_eq_iff)

text \<open>
  Evaluation of the construction of the tables: the weak congruence rules let the simplifier
  look at a branch only when it is chosen.
\<close>

lemma bind_weak: "m = m' \<Longrightarrow> Option.bind m f = Option.bind m' f" by simp
lemma assert_true: "assert_c True = Some ()" by (simp add: assert_c_def)

lemmas eval_cong = bind_weak option.case_cong_weak prod.case_cong_weak action_t.case_cong_weak if_weak_cong let_weak_cong

lemma sample_ps: "xlat_arch_get_max_supported_pa (hw_arch sample_hw) = Some 0xFFFFFFFFFF" by code_simp

lemma sample_levels: "GET_XLAT_TABLE_LEVEL_BASE 0x4000000000 = 1" "GET_NUM_BASE_LEVEL_ENTRIES 0x4000000000 = 256"
  by code_simp+

lemma sample_replicate: "replicate 5 x = [x, x, x, x, x]" by (simp add: numeral_eq_Suc)

lemma sample_tables: "tables_built sample_hw sample_layout 0x7000000 (\<lambda>_. 0)"
  by (simp add: tables_built_def plat_regions_def FVP_RMM_UART_def runtime_ctx_reset_def XLAT_REGISTER_VA_SPACE_def
    XLAT_CREATE_TABLES_def XLAT_INIT_CTX_TBLS_def sample_layout_def RMM_CODE_def RMM_RO_def RMM_RW_def RMM_SHARED_def
    RMM_SHARED_BUFFER_START_def MAP_REGION_FLAT_def MAP_REGION_def MAP_REGION_FULL_SPEC_def sample_replicate empty_region_def  RMM_UART_ADDR_def
    VIRT_ADDR_SPACE_SIZE_def PLAT_CMN_MAX_MMAP_REGIONS_def PLAT_CMN_CTX_MAX_XLAT_TABLES_def sample_levels
    xlat_mmap_add_ctx_def xlat_mmap_add_region_ctx_def mmap_add_region_check_def HIGH_REGION_MASK_def
    IS_PAGE_ALIGNED_def sample_ps PAGE_SIZE_MASK_def insert_region_def separated_def xlat_init_tables_ctx_def zero_tables_zero
     rmm_el3_ifc_get_shared_buf_size_def
     xlat_tables_map_region.simps map_region_loop.simps
     xlat_tables_map_region_action_def xlat_table_get_empty_def xlat_tables_find_start_va_def xlat_tables_va_to_index_def
     mm_end_va_def XLAT_TABLE_LEVEL_MAX_def XLAT_BLOCK_MASK_def XLAT_BLOCK_SIZE_def XLAT_ADDR_SHIFT_def 
     entry_addr_def assert_true TABLE_DESC_def PAGE_DESC_def INVALID_DESC_def BLOCK_DESC_def DESC_MASK_def
      XLAT_TABLE_ENTRIES_def xlat_desc_def xlat_arch_get_pas_def MIN_LVL_BLOCK_DESC_def xlat_consts cong: eval_cong)


lemma sample_warm_booted: "system_booted sample_layout sample_warm"
proof -
  have "rt_ready sample_layout sample_runtime" by code_simp
  moreover have "slots_booting (transient_base_table sample_layout) (b_slots sample_cold)"
    by (simp add: sample_cold_def slots_booting_def slot_bufs_reset_def list_all_iff)
  ultimately show ?thesis
    by (simp add: system_booted_def sample_warm_def sample_ifc_ok) (simp add: sample_cold_def sample_ifc_ok)
qed


lemma sample_cold_ok:
  "cold_boot_flag sample_cold" "runtime_xlat_ctx sample_cold = runtime_ctx_reset sample_layout (\<lambda>_. 0)"
  "length (shared_mem (a_ifc (b_attest sample_cold))) = 4096"
  by (simp_all add: sample_cold_def sample_attest_def el3_ifc_reset_def)

lemma sample_cold_boots:
  obtains s' where "rmm_entry sample_hw sample_layout sample_boot_env sample_manifest 0 1 4 0x7000000 sample_cold = Some (Inr s')"
proof -
  have b: "boot_error 0 1 4 0x7000000 (sample_manifest 0x7000000) = None" by (simp add: boot_error_def sample_manifest_def)
  note F = cold_boot [OF sample_cold_ok(1,2) sample_hw_ok sample_boot_env_ok sample_cold_ok(3),
      where manifest_at = sample_manifest and ?x0.0 = 0 and ?x1.0 = 1 and ?x2.0 = 4 and ?x3.0 = "0x7000000"]
    and tb = sample_tables
  show thesis
  proof (cases "rmm_entry sample_hw sample_layout sample_boot_env sample_manifest 0 1 4 0x7000000 sample_cold")
    case None
    then show thesis using F tb by simp
  next
    case (Some r)
    then show thesis using F b that by (cases r) simp_all
  qed
qed

section \<open>Properties\<close>

text \<open>
  C21: a descriptor that the monitor writes into its tables maps the page that was asked for, in
  the address space that was asked for; no memory is both writable and executable, and none is
  executable outside the monitor.
\<close>

theorem writable_never_executable:
  assumes "mt_known attr" and "pa AND TABLE_ADDR_MASK = pa"
  shows "case xlat_desc attr pa level of
      None \<Rightarrow> False
    | Some d \<Rightarrow> desc_valid d \<and> desc_pa d = pa \<and> (desc_nonsecure d \<longleftrightarrow> MT_PAS attr = MT_NS)
        \<and> (desc_writable d \<longleftrightarrow> attr AND MT_RW \<noteq> 0) \<and> \<not> (desc_writable d \<and> desc_executable d)
        \<and> \<not> desc_user_executable d"
proof -
  obtain d where d: "xlat_desc attr pa level = Some d" "desc_pa d = pa" "desc_valid d"
    "desc_nonsecure d \<longleftrightarrow> bit attr 10" "desc_writable d \<longleftrightarrow> bit attr 4"
    "desc_executable d \<longleftrightarrow> MT_TYPE attr \<noteq> MT_DEVICE \<and> \<not> bit attr 4 \<and> \<not> bit attr 5" "\<not> desc_user_executable d"
    by (rule xlat_desc_fields [OF assms]) (assumption | rule that)+
  moreover have "MT_PAS attr = MT_NS \<longleftrightarrow> bit attr 10" by (simp add: MT_PAS_bit)
  moreover have "attr AND MT_RW \<noteq> 0 \<longleftrightarrow> bit attr 4" by (simp add: MT_flag_bits)
  ultimately show ?thesis by simp
qed

theorem writable_never_executable_witness:
  "case xlat_desc (MT_RW_DATA OR MT_REALM) 0x6003000 3 of
      None \<Rightarrow> False
    | Some d \<Rightarrow> desc_valid d \<and> desc_pa d = 0x6003000 \<and> (desc_nonsecure d \<longleftrightarrow> MT_PAS (MT_RW_DATA OR MT_REALM) = MT_NS)
        \<and> (desc_writable d \<longleftrightarrow> (MT_RW_DATA OR MT_REALM) AND MT_RW \<noteq> 0) \<and> \<not> (desc_writable d \<and> desc_executable d)
        \<and> \<not> desc_user_executable d"
  by (rule writable_never_executable) code_simp+

text \<open>
  C24: the regions of a translation context stay sorted by their virtual addresses, and no two
  of them meet in virtual or in physical memory: adding a region returns, and the list gains it
  exactly when the call succeeds, but for an empty region, which is accepted and not added.
\<close>

theorem regions_stay_apart:
  assumes "ctx_cfg x = Some cfg" and "ctx_tbls x = Some t" and "\<not> tbls_initialized t"
    and "regions_ok (cfg_mmap cfg)" and "cfg_mmap cfg \<noteq> []" and "arch_feat_get_pa_width ar \<noteq> None"
  shows "case xlat_mmap_add_region_ctx ar mm x of
      None \<Rightarrow> False
    | Some (ret, x') \<Rightarrow> ctx_tbls x' = Some t
        \<and> (case ctx_cfg x' of None \<Rightarrow> False | Some cfg' \<Rightarrow> region_added mm cfg ret cfg')"
  using assms by (intro add_region_keeps_order)

theorem regions_stay_apart_witness:
  "case xlat_mmap_add_region_ctx (hw_arch sample_hw) FVP_RMM_UART (runtime_ctx_reset sample_layout (\<lambda>_. 0)) of
      None \<Rightarrow> False
    | Some (ret, x') \<Rightarrow> ctx_tbls x' = ctx_tbls (runtime_ctx_reset sample_layout (\<lambda>_. 0))
        \<and> (case ctx_cfg x' of None \<Rightarrow> False
           | Some cfg' \<Rightarrow> region_added FVP_RMM_UART (the (ctx_cfg (runtime_ctx_reset sample_layout (\<lambda>_. 0)))) ret cfg')"
proof -
  let ?x = "runtime_ctx_reset sample_layout (\<lambda>_. 0)"
  have h: "ctx_cfg ?x = Some (the (ctx_cfg ?x))" "ctx_tbls ?x = Some (the (ctx_tbls ?x))"
    "\<not> tbls_initialized (the (ctx_tbls ?x))" "regions_ok (cfg_mmap (the (ctx_cfg ?x)))" "cfg_mmap (the (ctx_cfg ?x)) \<noteq> []"
    by (simp_all add: runtime_ctx_reset_def XLAT_REGISTER_VA_SPACE_def XLAT_CREATE_TABLES_def regions_ok_def live_regions_def
        PLAT_CMN_MAX_MMAP_REGIONS_def sample_replicate empty_region_def MAP_REGION_FULL_SPEC_def)
  show ?thesis
    using regions_stay_apart [OF h boot_hw_okD(1) [OF sample_hw_ok], of FVP_RMM_UART]
    unfolding h(2) [symmetric] .
qed

text \<open>
  C20: mapping a granule in a slot writes a descriptor exactly where the command's view of the
  slots gains an entry; the slot's address then leads to the granule, in the address space the
  slot is for, readable and writable but not executable; unmapping restores the command's view.
  No other CPU's slots change.
\<close>

theorem slot_mapping_refines:
  assumes "slot_rel tb cpu b s" and "cpu < 16" and "k < NR_CPU_SLOTS" and "g < RMM_MAX_GRANULES"
    and "arch_feat_get_pa_width ar \<noteq> None"
    and "slot_rel tb cpu' b s2" and "cpu' < 16" and "cpu' \<noteq> cpu"
  shows "case slot_map_internal ar cpu k (granule_pa g) (is_ns_slot k) b of
      None \<Rightarrow> False
    | Some (va, b') \<Rightarrow> (case buffer_map_internal k g (granule_pa g) s of
          None \<Rightarrow> va = 0 \<and> b' = b
        | Some s' \<Rightarrow> slot_rel tb cpu b' s' \<and> slot_rel tb cpu' b' s2
            \<and> slot_translate tb cpu b' va = Some (granule_pa g, is_ns_slot k, True, False)
            \<and> slot_rel tb cpu (slot_unmap_internal cpu va b') (buffer_unmap k s')
            \<and> slot_rel tb cpu' (slot_unmap_internal cpu va b') s2)"
proof -
  note map = slot_map_refines [OF assms]
  show ?thesis
  proof (cases "buffer_map_internal k g (granule_pa g) s")
    case None
    then show ?thesis using map by (auto split: option.splits)
  next
    case (Some s')
    then obtain b' where m: "slot_map_internal ar cpu k (granule_pa g) (is_ns_slot k) b = Some (slot_va k, b')"
      "slot_rel tb cpu b' s'" "slot_rel tb cpu' b' s2"
      using map by (auto split: option.splits)
    have "slots s' k = Some g" using Some by (auto simp: buffer_map_internal_def map_slot_def bind_eq_Some_conv)
    then have "slot_translate tb cpu b' (slot_va k) = Some (granule_pa g, is_ns_slot k, True, False)"
      using slot_translate_eq [OF m(2) assms(3), of 0] assms(4) by simp
    then show ?thesis
      using m Some slot_unmap_refines [OF m(2) assms(2,3) m(3) assms(7,8)] by simp
  qed
qed

text \<open>Two CPUs whose slots are set up and empty.\<close>

definition sample_slots :: slot_bufs where
  "sample_slots = \<lparr>slot_buf_xlat_ctx_cfg = slot_cfg, slot_buf_tbls = slot_tbls 0x6020000, ctx_set = (\<lambda>_. True),
     te_cache = slot_te 0x6020000, slot_mem = (\<lambda>_. 0), slot_tlbi = []\<rparr>"

lemma sample_slots_rel: "slot_rel 0x6020000 cpu sample_slots boot_state"
  by (simp add: slot_rel_def slots_ready_def sample_slots_def boot_state_def list_all_iff INVALID_DESC_def)

theorem slot_mapping_refines_witness:
  "case slot_map_internal (hw_arch sample_hw) 1 SLOT_RD (granule_pa 5) (is_ns_slot SLOT_RD) sample_slots of
      None \<Rightarrow> False
    | Some (va, b') \<Rightarrow> (case buffer_map_internal SLOT_RD 5 (granule_pa 5) boot_state of
          None \<Rightarrow> va = 0 \<and> b' = sample_slots
        | Some s' \<Rightarrow> slot_rel 0x6020000 1 b' s' \<and> slot_rel 0x6020000 2 b' boot_state
            \<and> slot_translate 0x6020000 1 b' va = Some (granule_pa 5, is_ns_slot SLOT_RD, True, False)
            \<and> slot_rel 0x6020000 1 (slot_unmap_internal 1 va b') (buffer_unmap SLOT_RD s')
            \<and> slot_rel 0x6020000 2 (slot_unmap_internal 1 va b') boot_state)"
  by (rule slot_mapping_refines [OF sample_slots_rel _ _ _ boot_hw_okD(1) [OF sample_hw_ok] sample_slots_rel])
    (simp_all add: slot_consts SLOT_RD_def NR_CPU_SLOTS_def RMM_MAX_GRANULES_def)


text \<open>
  C22: while the key of the attestation is set up, the shared buffer is locked and released
  again on every path; when the set-up succeeds, the bytes of the private key have been
  overwritten in it.
\<close>

theorem attestation_key_wiped:
  assumes "ifc_ok (a_ifc a)" and "el3_ok el3" and "prng_init_done a" and "cpu_drbg_ctx a cpu \<noteq> None"
    and "\<And>pk. length (snd (mbed_sha256 M pk)) \<le> 4096" and "length (realm_attest_public_key_hash a) \<le> 4096"
  shows "case attest_init_realm_attestation_key M el3 cpu a of
      None \<Rightarrow> False
    | Some (ret, a') \<Rightarrow> \<not> shared_area_lock (a_ifc a')
        \<and> (if ret = 0 then take (attest_key_len el3 (a_ifc a)) (shared_mem (a_ifc a'))
                           = replicate (attest_key_len el3 (a_ifc a)) 0
           else ret = - EINVAL)"
  using attest_key_step [OF assms] by (auto simp: ifc_ok_def split: option.splits)

theorem attestation_key_wiped_witness:
  "case attest_init_realm_attestation_key sample_mbedtls sample_el3 2 (sample_attest\<lparr>prng_init_done := True\<rparr>) of
      None \<Rightarrow> False
    | Some (ret, a') \<Rightarrow> \<not> shared_area_lock (a_ifc a')
        \<and> (if ret = 0 then take (attest_key_len sample_el3 (a_ifc (sample_attest\<lparr>prng_init_done := True\<rparr>))) (shared_mem (a_ifc a'))
               = replicate (attest_key_len sample_el3 (a_ifc (sample_attest\<lparr>prng_init_done := True\<rparr>))) 0
           else ret = - EINVAL)"
  by (rule attestation_key_wiped [OF _ sample_el3_ok])
    (use sample_ifc_ok in \<open>simp_all add: sample_attest_def sample_mbedtls_def\<close>)

text \<open>
  C23: the initialisation of the attestation always returns.  On success the platform token and
  the signing key can be read, the attestation is marked as initialised and the CPU's heap is
  given back.  On failure the result is -EINVAL, the attestation stays marked
  as not initialised, and the heap of the boot stays assigned to the CPU: the three functions
  that prepare, take and give back the heap of a REC then return -EINVAL and change
  nothing.  (A key that was loaded before the failure stays loaded, and the callers of the three
  functions do not look at their results: see the findings.)
\<close>

theorem attestation_init_outcome:
  assumes "cpu < MAX_CPUS" and "length (ctx_per_cpu (a_heaps a)) = MAX_CPUS" and "ctx_per_cpu (a_heaps a) ! cpu = 0"
    and "init_ctx \<noteq> 0" and "ifc_ok (a_ifc a)" and "el3_ok el3" and "\<not> prng_init_done a" and "\<not> attest_initialized a"
    and "\<And>pk. length (snd (mbed_sha256 M pk)) \<le> 4096" and "length (realm_attest_public_key_hash a) \<le> 4096"
  shows "case attestation_init M K el3 present entropy init_ctx mem_buf cpu a of
      None \<Rightarrow> False
    | Some (ret, a') \<Rightarrow> (if ret = 0
         then attest_initialized a' \<and> ctx_per_cpu (a_heaps a') ! cpu = 0
            \<and> attest_get_platform_token a' \<noteq> None \<and> attest_get_realm_signing_key a' \<noteq> None
         else ret = - EINVAL \<and> \<not> attest_initialized a' \<and> ctx_per_cpu (a_heaps a') ! cpu = init_ctx
            \<and> attestation_heap_ctx_init K cpu' p n a' = (if p = 0 then None else Some (- EINVAL, a'))
            \<and> attest_heap_ctx_assign_pe cpu' p a' = (if p = 0 then None else Some (- EINVAL, a'))
            \<and> attest_heap_ctx_unassign_pe cpu' p a' = (if p = 0 then None else Some (- EINVAL, a')))"
proof -
  obtain ret a' where "attestation_init M K el3 present entropy init_ctx mem_buf cpu a = Some (ret, a')"
    "attest_outcome cpu init_ctx ret a'"
    by (rule attestation_outcome [OF assms, where K = K and present = present and entropy = entropy and mem_buf = mem_buf])
  then show ?thesis
    by (simp add: attest_outcome_def attestation_heap_ctx_init_def attest_heap_ctx_assign_pe_def
        attest_heap_ctx_unassign_pe_def)
qed

theorem attestation_init_outcome_witness:
  "case attestation_init sample_mbedtls (e_alloc sample_boot_env) sample_el3 True (\<lambda>_. Some 3) 0x6030000 0x6031000 2 sample_attest of
      None \<Rightarrow> False
    | Some (ret, a') \<Rightarrow> (if ret = 0
         then attest_initialized a' \<and> ctx_per_cpu (a_heaps a') ! 2 = 0
            \<and> attest_get_platform_token a' \<noteq> None \<and> attest_get_realm_signing_key a' \<noteq> None
         else ret = - EINVAL \<and> \<not> attest_initialized a' \<and> ctx_per_cpu (a_heaps a') ! 2 = 0x6030000
            \<and> attestation_heap_ctx_init (e_alloc sample_boot_env) 3 0x6040000 8192 a'
                = (if (0x6040000 :: u64) = 0 then None else Some (- EINVAL, a'))
            \<and> attest_heap_ctx_assign_pe 3 0x6040000 a' = (if (0x6040000 :: u64) = 0 then None else Some (- EINVAL, a'))
            \<and> attest_heap_ctx_unassign_pe 3 0x6040000 a' = (if (0x6040000 :: u64) = 0 then None else Some (- EINVAL, a')))"
  by (rule attestation_init_outcome [OF _ _ _ _ sample_ifc_ok sample_el3_ok])
    (simp_all add: sample_attest_def sample_mbedtls_def MAX_CPUS_def)

text \<open>
  C17: a cold boot reports to EL3 exactly the errors of the specified order of checks, whatever the
  arguments.  With arguments that it accepts it comes up if the translation tables of the
  runtime can be built for them: then the CPU runs on its own tables, the MMU is on, all its
  slots are empty, the platform is ready for the other CPUs, and the attestation is set up or
  switched off.  If the tables cannot be built (the region of the shared buffer meets a region
  of the image, or the tables run out), and only then, it does not return.
\<close>

theorem cold_boot_outcome:
  assumes "cold_boot_flag s" and "runtime_xlat_ctx s = runtime_ctx_reset l m"
    and "boot_hw_ok H l" and "boot_env_ok E"
    and "length (shared_mem (a_ifc (b_attest s))) = 4096"
  shows "case rmm_entry H l E manifest_at x0 x1 x2 x3 s of
      None \<Rightarrow> boot_error x0 x1 x2 x3 (manifest_at x3) = None \<and> \<not> tables_built H l x3 m
    | Some (Inl code) \<Rightarrow> boot_error x0 x1 x2 x3 (manifest_at x3) = Some code
    | Some (Inr s') \<Rightarrow> boot_error x0 x1 x2 x3 (manifest_at x3) = None \<and> tables_built H l x3 m
        \<and> system_booted l s' \<and> cpu_ready l (unat x0) s'
        \<and> slots_empty_check (unat x0) (b_slots s') = Some ()
        \<and> (\<exists>ret. attest_outcome (unat x0) (e_init_ctx E) ret (b_attest s'))"
  using assms by (rule cold_boot)

theorem cold_boot_outcome_witness:
  "case rmm_entry sample_hw sample_layout sample_boot_env sample_manifest 0 1 4 0x7000000 sample_cold of
      None \<Rightarrow> False
    | Some (Inl code) \<Rightarrow> False
    | Some (Inr s') \<Rightarrow> system_booted sample_layout s' \<and> cpu_ready sample_layout 0 s'
        \<and> slots_empty_check 0 (b_slots s') = Some ()
        \<and> (\<exists>ret. attest_outcome 0 0x6030000 ret (b_attest s'))"
proof -
  obtain s' where s': "rmm_entry sample_hw sample_layout sample_boot_env sample_manifest 0 1 4 0x7000000 sample_cold = Some (Inr s')"
    by (rule sample_cold_boots)
  have "e_init_ctx sample_boot_env = 0x6030000" by (simp add: sample_boot_env_def)
  then show ?thesis
    using cold_boot_outcome [OF sample_cold_ok(1,2) sample_hw_ok sample_boot_env_ok sample_cold_ok(3),
        where manifest_at = sample_manifest and ?x0.0 = 0 and ?x1.0 = 1 and ?x2.0 = 4 and ?x3.0 = "0x7000000"] s'
    by simp
qed

text \<open>
  C18: once the platform is up, the boot of a CPU, its first or a later one, always returns with
  the CPU ready, except for a number out of range; a CPU that returns finds its slots as it left
  them, and the registers, the slots and the readiness of all other CPUs stay as they were.
\<close>

theorem warm_boot_isolated:
  assumes "system_booted l s" and "boot_hw_ok H l"
  shows "case rmm_entry H l E manifest_at x0 x1 x2 x3 s of
      None \<Rightarrow> False
    | Some (Inl code) \<Rightarrow> unat x0 \<ge> MAX_CPUS \<and> code = E_RMM_BOOT_CPU_ID_OUT_OF_RANGE
    | Some (Inr s') \<Rightarrow> unat x0 < MAX_CPUS \<and> system_booted l s' \<and> cpu_ready l (unat x0) s' \<and> others_kept l (unat x0) s s'
        \<and> b_attest s' = b_attest s \<and> runtime_xlat_ctx s' = runtime_xlat_ctx s
        \<and> (if ctx_set (b_slots s) (unat x0)
            then slot_memory (transient_base_table l) (unat x0) (b_slots s')
               = slot_memory (transient_base_table l) (unat x0) (b_slots s)
            else slots_empty_check (unat x0) (b_slots s') = Some ())"
  using assms by (rule warm_boot)

theorem warm_boot_isolated_witness:
  "case rmm_entry sample_hw sample_layout sample_boot_env sample_manifest 1 0 0 0 sample_warm of
      None \<Rightarrow> False
    | Some (Inl code) \<Rightarrow> False
    | Some (Inr s') \<Rightarrow> system_booted sample_layout s' \<and> cpu_ready sample_layout 1 s' \<and> others_kept sample_layout 1 sample_warm s'
        \<and> slots_empty_check 1 (b_slots s') = Some ()"
proof -
  have "\<not> ctx_set (b_slots sample_warm) 1" by (simp add: sample_warm_def sample_cold_def slot_bufs_reset_def)
  moreover note warm_boot_isolated [OF sample_warm_booted sample_hw_ok, where E = sample_boot_env and
      manifest_at = sample_manifest and ?x0.0 = 1 and ?x1.0 = 0 and ?x2.0 = 0 and ?x3.0 = 0]
  ultimately show ?thesis
    by (auto simp: MAX_CPUS_def split: option.splits sum.splits)
qed

text \<open>
  C19: after the cold boot of a first CPU and any sequence of boots of CPUs, the next boot of a
  CPU makes it ready, no CPU that was ready ceases to be, and the attestation is as the cold
  boot has left it.
\<close>

theorem booted_cpus_stay_ready:
  assumes "first_booted H l E manifest_at s0" and "(boot_step H l E manifest_at)\<^sup>*\<^sup>* s0 s"
  shows "case rmm_entry H l E manifest_at x0 x1 x2 x3 s of
      None \<Rightarrow> False
    | Some (Inl code) \<Rightarrow> unat x0 \<ge> MAX_CPUS
    | Some (Inr s') \<Rightarrow> insert (unat x0) (ready_cpus l s0 \<union> ready_cpus l s) \<subseteq> ready_cpus l s' \<and> b_attest s' = b_attest s0"
proof -
  have g: "boot_hw_ok H l" "system_booted l s" using boot.reached_good [OF assms] by simp_all
  have r: "ready_cpus l s0 \<subseteq> ready_cpus l s" "b_attest s = b_attest s0"
    using cpus_up [OF boot.reached_refines [OF assms]] by simp_all
  show ?thesis
    using warm_boot [OF g(2,1), where E = E and manifest_at = manifest_at and ?x0.0 = x0 and ?x1.0 = x1
        and ?x2.0 = x2 and ?x3.0 = x3] boot_step_up [OF g, of E manifest_at x0 x1 x2 x3] r
    by (auto split: option.splits sum.splits)
qed

theorem booted_cpus_stay_ready_witness:
  "\<exists>s0. case rmm_entry sample_hw sample_layout sample_boot_env sample_manifest 1 0 0 0 s0 of
      None \<Rightarrow> False
    | Some (Inl code) \<Rightarrow> False
    | Some (Inr s') \<Rightarrow> insert 1 (ready_cpus sample_layout s0 \<union> ready_cpus sample_layout s0) \<subseteq> ready_cpus sample_layout s'
        \<and> b_attest s' = b_attest s0"
proof -
  obtain s0 where s0: "rmm_entry sample_hw sample_layout sample_boot_env sample_manifest 0 1 4 0x7000000 sample_cold = Some (Inr s0)"
    by (rule sample_cold_boots)
  have "first_booted sample_hw sample_layout sample_boot_env sample_manifest s0"
    unfolding first_booted_def
    using s0 sample_hw_ok sample_boot_env_ok sample_tables sample_cold_ok by blast
  from booted_cpus_stay_ready [OF this rtranclp.rtrancl_refl, where ?x0.0 = 1 and ?x1.0 = 0 and ?x2.0 = 0 and ?x3.0 = 0]
  show ?thesis
    by (intro exI [of _ s0]) (auto simp: MAX_CPUS_def split: option.splits sum.splits)
qed


end
