(* ===== verification/Spec2Isabelle.thy ===== *)
theory Spec2Isabelle
  imports Lifecycle_Properties Rtt_Read_Correct Monitor_Properties Smc_Dispatch_Correct Heap_Properties Boot_Properties
begin

text \<open>
  A verification development of the Realm Management Monitor (RMM).

  The monitor runs at EL2 of the realm world of an Arm machine with the Confidential Compute
  Architecture.  The host calls it through the RMI (SMC calls that EL3 forwards) to build
  realms: it delegates granules of memory, creates realm descriptors (RD), realm translation
  tables (RTT), data pages and execution contexts (REC), and runs a REC until it exits.  A realm
  calls the monitor through the RSI and PSCI.  EL3 is called for the change of a granule's
  address space and, at boot, for the attestation key and the platform token.

  \<^bold>\<open>Conventions.\<close>  A C function that changes state is a HOL function that returns the new state.
  \<^verbatim>\<open>None\<close> means that the function does not return: a failed assertion, a panic, an access
  outside an object, a lock that is waited for without end.  A status returned to the caller is
  a value; at boot, \<^verbatim>\<open>Inl\<close> is a code reported to EL3.  Machine integers are words of their
  width.  A \<^verbatim>\<open>struct granule *\<close> is an index into the granule array.  One CPU executes at a
  time: interleavings of several CPUs inside a command are not modelled, the acquisition of a
  lock that is held is \<^verbatim>\<open>None\<close>, and every command is shown to release what it acquires.
  Barriers have no effect on the state; invalidations of translations are events of a trace
  (\<^verbatim>\<open>trace\<close>, \<^verbatim>\<open>tlbi_log\<close>), whose order with the other effects is a property.
  The configuration is configs/fvp_defcfg.cmake: 16 CPUs, floating point unused by the monitor
  (\<^verbatim>\<open>RMM_FPU_USE_AT_REL2\<close> off).

  \<^bold>\<open>Parameters.\<close>  What does not lie in the repository is an argument of the definitions: the
  answers of EL3 (\<^verbatim>\<open>el3_monitor\<close>, the results of granule transitions), the contents of
  non-secure memory that a command reads, the identification registers (\<^verbatim>\<open>arch_regs\<close>,
  \<^verbatim>\<open>hw\<close>), the behaviour of a realm while it runs, the hash functions, the token encoder QCBOR and
  signer t_cose with its use of the heap (\<^verbatim>\<open>attest_lib\<close>), mbedTLS (\<^verbatim>\<open>mbedtls\<close>) and the macros of its allocator
  (\<^verbatim>\<open>alloc_params\<close>), and the addresses the linker gives to the image (\<^verbatim>\<open>rmm_layout\<close>).

  \<^bold>\<open>The theories of the model\<close>, in the order of their imports:
  \<^item> \<^verbatim>\<open>RMM_Prelude\<close>, \<^verbatim>\<open>Status_Codes\<close>, \<^verbatim>\<open>Granule_Index\<close>: words, alignment and bit fields
    (lib/common/include/utils_def.h), assertions, return codes (status.h), the numbering of the
    granules (plat/fvp/src/fvp_granule.c, lib/realm/src/granule.c).
  \<^item> \<^verbatim>\<open>Byte_Memory\<close>, \<^verbatim>\<open>Heap_Alloc\<close>: the heap of the cryptographic library
    (lib/allocator/src/memory_alloc.c) on a memory of bytes.
  \<^item> \<^verbatim>\<open>RMM_State\<close>: the record \<^verbatim>\<open>rmm\<close> with the granule array, its locks, the contents of the
    granules (RD, REC, tables, data), the slots, the VMID bitmap and the trace.
  \<^item> \<^verbatim>\<open>Granules\<close>, \<^verbatim>\<open>Granule_Set\<close>: locks, states, reference counts, ordered locking of several
    granules (granule.h, granule.c).
  \<^item> \<^verbatim>\<open>Slot_Buffer\<close>: which granule a slot maps, as the commands see it (buffer.c).
  \<^item> \<^verbatim>\<open>S2tte\<close>, \<^verbatim>\<open>S2tt\<close>, \<^verbatim>\<open>Rtt_Walk\<close>, \<^verbatim>\<open>Realm_Desc\<close>: descriptors, tables, the table walk and the
    realm descriptor (s2tt.c, realm.h, lib/measurement).
  \<^item> \<^verbatim>\<open>Delegation\<close>, \<^verbatim>\<open>Vmid\<close>, \<^verbatim>\<open>Realm_Cmds\<close>, \<^verbatim>\<open>Rec_Cmds\<close>, \<^verbatim>\<open>Rtt_Cmds\<close>, \<^verbatim>\<open>Data_Cmds\<close>,
    \<^verbatim>\<open>Ripas_Cmds\<close>, \<^verbatim>\<open>Psci\<close>: the handlers of the RMI (runtime/rmi/granule.c, realm.c, rec.c,
    rtt.c, feature.c; runtime/core/vmid.c; runtime/rsi/psci.c), one definition per
    handler and helper.
  \<^item> \<^verbatim>\<open>Esr\<close>, \<^verbatim>\<open>Cpu_State\<close>, \<^verbatim>\<open>Gic\<close>, \<^verbatim>\<open>Sysreg_Traps\<close>, \<^verbatim>\<open>Rsi_Memory\<close>, \<^verbatim>\<open>Rsi_Host_Call\<close>,
    \<^verbatim>\<open>Rsi_Attest\<close>, \<^verbatim>\<open>Smc_Fid\<close>, \<^verbatim>\<open>Realm_Exit\<close>, \<^verbatim>\<open>Rec_Run\<close>, \<^verbatim>\<open>Rec_Enter\<close>: REC.Enter, the
    world switch, the run loop and every exit of a realm (runtime/rmi/run.c, runtime/core/run.c,
    exit.c, inject_exp.c, sysregs.c, runtime/rsi, lib/gic, lib/timers, lib/attestation).  The
    heap of a REC is the bytes of its first auxiliary granules: \<^verbatim>\<open>Rsi_Attest\<close> writes the blocks
    of the allocator there when the heap is initialised and when the signer uses it.
  \<^item> \<^verbatim>\<open>Smc_Dispatch\<close>: the table of the handlers and the dispatch of a call (runtime/core/handler.c,
    entry.S, system.c), on the record \<^verbatim>\<open>machine\<close>.
  \<^item> \<^verbatim>\<open>Xlat_Tables\<close>, \<^verbatim>\<open>Slot_Xlat\<close>: the monitor's own translation tables (lib/xlat/src) and
    buffer.c down to the descriptors it writes.
  \<^item> \<^verbatim>\<open>El3_Attest\<close>, \<^verbatim>\<open>Boot\<close>: the boot interface (lib/rmm_el3_ifc), random numbers, attestation
    key and token (lib/attestation), platform set-up (plat/common, plat/fvp) and the entry of a
    CPU (head.S, init.c, enable_mmu.S).

  \<^bold>\<open>The theories of the proofs.\<close>
  \<^item> \<^verbatim>\<open>Rtt_Invariant\<close> defines the invariant \<^verbatim>\<open>inv\<close> of the monitor's memory: reference counts and
    granule states agree with the tables, descriptors and RECs that refer to a granule, and every
    granule is referred to from one place; \<^verbatim>\<open>quiet\<close> says that no lock is held and no slot is
    mapped, as between commands.  \<^verbatim>\<open>Walk_Correct\<close> shows the walk equal to one without locks.
  \<^item> \<^verbatim>\<open>Realm_Map\<close> is the abstract specification: the map from the addresses of each realm to
    physical pages, injective under the invariant.  \<^verbatim>\<open>Command_Prefix\<close>, \<^verbatim>\<open>Rtt_Correct\<close>,
    \<^verbatim>\<open>Rtt_Create_Correct\<close>, \<^verbatim>\<open>Rtt_Fold_Correct\<close>, \<^verbatim>\<open>Rtt_Map_Correct\<close>, \<^verbatim>\<open>Rtt_Read_Correct\<close>,
    \<^verbatim>\<open>Data_Correct\<close>, \<^verbatim>\<open>Ripas_Correct\<close>, \<^verbatim>\<open>Realm_Create_Correct\<close>, \<^verbatim>\<open>Realm_Params_Correct\<close>,
    \<^verbatim>\<open>Realm_Destroy_Correct\<close>, \<^verbatim>\<open>Realm_Correct\<close>, \<^verbatim>\<open>Rec_Create_Correct\<close>, \<^verbatim>\<open>Rec_Destroy_Correct\<close>,
    \<^verbatim>\<open>Delegation_Correct\<close>, \<^verbatim>\<open>Psci_Correct\<close> show that each command returns, keeps the
    invariant and has the effect it should on every branch; \<^verbatim>\<open>Command_Effects\<close>,
    \<^verbatim>\<open>Map_Refinement\<close> and \<^verbatim>\<open>Realm_Map_Cmds\<close> relate them to the map.
  \<^item> \<^verbatim>\<open>Run_Effects\<close>, \<^verbatim>\<open>Run_Safe\<close>, \<^verbatim>\<open>Run_Exit_Safe\<close>, \<^verbatim>\<open>Rec_Enter_Safe\<close>: whatever a realm does
    while it runs, only its own pages, its REC and parts of its RD change.
  \<^item> \<^verbatim>\<open>Monitor_Steps\<close>: every call of the host, through the dispatch, is a step of the abstract
    map; reachable states by rule induction, through the locale \<^verbatim>\<open>refinement\<close>.
  \<^item> \<^verbatim>\<open>Vmid_Pool\<close>: the contract of a pool of identifiers (locale \<^verbatim>\<open>id_pool\<close>) and the bitmap as
    an instance.  \<^verbatim>\<open>S2tt\<close>: one proof for the three kinds of page runs (locale \<^verbatim>\<open>page_kind\<close>).
  \<^item> \<^verbatim>\<open>Heap_Blocks\<close>, \<^verbatim>\<open>Heap_Alloc_Correct\<close>, \<^verbatim>\<open>Heap_Free_Correct\<close>, \<^verbatim>\<open>Heap_Properties\<close>: the linked
    blocks tile the buffer; allocation and release implement a map from addresses to sizes
    (locale \<^verbatim>\<open>allocator\<close>).
  \<^item> \<^verbatim>\<open>Xlat_Correct\<close>, \<^verbatim>\<open>Slot_Xlat_Correct\<close>, \<^verbatim>\<open>Boot_Properties\<close>: descriptors, regions, the slot
    descriptors as an implementation of \<^verbatim>\<open>Slot_Buffer\<close>, and the states after a boot.
  \<^item> \<^verbatim>\<open>Sample_State\<close> and the samples of \<^verbatim>\<open>Boot_Properties\<close> are the concrete inputs of the
    witnesses.  \<^verbatim>\<open>Command_Properties\<close>, \<^verbatim>\<open>Effect_Properties\<close>, \<^verbatim>\<open>Lifecycle_Properties\<close>,
    \<^verbatim>\<open>Memory_Properties\<close>, \<^verbatim>\<open>Monitor_Properties\<close>, \<^verbatim>\<open>Smc_Dispatch_Correct\<close>,
    \<^verbatim>\<open>Heap_Properties\<close>, \<^verbatim>\<open>Boot_Properties\<close> and this theory hold the properties.

  \<^bold>\<open>Loops.\<close>  No fuel is used.  Loops over arrays are primitive recursions; the construction of
  the translation tables recurses on the level and the rest of a table, with a termination
  proof; the loops of the allocator that follow pointers in memory are partial functions, shown
  to return on every heap that satisfies its invariant.  The rounds of a running realm are a
  list that the environment supplies.

  \<^bold>\<open>Not modelled.\<close>  The C library (lib/libc, a vendored printf and string functions), the
  macros of lib/debug and the messages printed with them: pure output.  The lines logged for the
  calls of the host (\<^verbatim>\<open>Smc_Dispatch\<close>) and of a realm (\<^verbatim>\<open>Smc_Fid\<close>) are modelled as values.  The debug listing of translation tables.  The relocation of the image
  (\<^verbatim>\<open>fixup_gdt_reloc\<close>), the stacks and the vectors of head.S: the model starts with an
  image that is linked at its address.  The serial port of the FVP platform.  The host build of
  the monitor (plat/host), a test harness.  The register accessors of arch_helpers.h: a register
  is a field of the model's state.  QCBOR, t_cose and mbedTLS are submodules that are not in the
  repository.  Concurrent execution of several CPUs, as above.
\<close>

text \<open>
  C25: RTT.Destroy always returns and keeps the invariant; between commands no lock is held
  and no slot is mapped.
\<close>

theorem rtt_destroy_keeps_invariant:
  assumes "inv s" and "quiet s"
  shows "case smc_rtt_destroy rtt_addr rd_addr map_addr ulevel s of
      None \<Rightarrow> False | Some (ret, s') \<Rightarrow> inv s' \<and> quiet s'"
  using assms by (rule smc_rtt_destroy_safe)

theorem rtt_destroy_keeps_invariant_witness:
  "case smc_rtt_destroy 0x80003000 0x80000000 0 3 sample_state of
      None \<Rightarrow> False | Some (ret, s') \<Rightarrow> inv s' \<and> quiet s'"
  by (rule rtt_destroy_keeps_invariant [OF inv_sample quiet_sample])

end
